(* ===== verification/Prelude.thy ===== *)
theory Prelude
  imports Main "HOL-Library.AList" "HOL-Library.Word"
begin

text \<open>
  Shared vocabulary of the development: Go maps as association lists with distinct keys,
  the error/state combinators in which the stateful operations are written, Go's integer
  types at their widths, and the lemma collections the components add to.
\<close>

named_theorems gomap_simps \<open>rewriting of Go map operations to their lookup function\<close>
named_theorems step_defs \<open>definitions of the sequencing combinators, to be unfolded in case analyses\<close>

section \<open>Machine integers\<close>

type_synonym u8 = "8 word"
type_synonym u16 = "16 word"
type_synonym u32 = "32 word"
type_synonym u64 = "64 word"

text \<open>A sum of unsigned 64-bit values that does not exceed the width is the true sum.\<close>

lemma unat_add_u64:
  fixes a b :: u64
  assumes "unat a + unat b < 2 ^ 64"
  shows "unat (a + b) = unat a + unat b"
  using assms by (simp add: unat_word_ariths)

lemma unat_add3_u64:
  fixes a b c :: u64
  assumes "unat a + unat b + unat c < 2 ^ 64"
  shows "unat (a + b + c) = unat a + unat b + unat c"
  using assms by (simp add: unat_word_ariths)

section \<open>Go maps\<close>

text \<open>
  A Go \<open>map[K]V\<close> is an association list whose keys are distinct. The list form keeps the
  iterations of the source (\<open>for k, v := range m\<close>) executable; nothing in the development
  depends on the order, as Go leaves it unspecified.
\<close>

type_synonym ('k, 'v) gomap = "('k \<times> 'v) list"

definition gomap_ok :: "('k, 'v) gomap \<Rightarrow> bool" where
  "gomap_ok m \<longleftrightarrow> distinct (map fst m)"

abbreviation mget :: "('k, 'v) gomap \<Rightarrow> 'k \<Rightarrow> 'v option" where
  "mget m k \<equiv> map_of m k"

abbreviation mset_at :: "'k \<Rightarrow> 'v \<Rightarrow> ('k, 'v) gomap \<Rightarrow> ('k, 'v) gomap" where
  "mset_at k v m \<equiv> AList.update k v m"

abbreviation mdel :: "'k \<Rightarrow> ('k, 'v) gomap \<Rightarrow> ('k, 'v) gomap" where
  "mdel k m \<equiv> AList.delete k m"

text \<open>\<open>for k, v := range m { if drop { delete(m, k) } }\<close> keeps the other entries.\<close>

definition mkeep :: "('k \<Rightarrow> 'v \<Rightarrow> bool) \<Rightarrow> ('k, 'v) gomap \<Rightarrow> ('k, 'v) gomap" where
  "mkeep P m = filter (\<lambda>(k, v). P k v) m"

lemma gomap_ok_empty [simp]: "gomap_ok []"
  by (simp add: gomap_ok_def)

lemma gomap_ok_update [simp]: "gomap_ok m \<Longrightarrow> gomap_ok (mset_at k v m)"
  by (simp add: gomap_ok_def distinct_update)

lemma gomap_ok_delete [simp]: "gomap_ok m \<Longrightarrow> gomap_ok (mdel k m)"
  by (simp add: gomap_ok_def distinct_delete)

lemma gomap_ok_mkeep [simp]: "gomap_ok m \<Longrightarrow> gomap_ok (mkeep P m)"
  unfolding gomap_ok_def mkeep_def
  by (induction m) (auto)

lemma mget_update [gomap_simps, simp]:
  "mget (mset_at k v m) k' = (if k' = k then Some v else mget m k')"
  by (simp add: update_conv)

lemma mget_delete [gomap_simps, simp]:
  "mget (mdel k m) k' = (if k' = k then None else mget m k')"
  by (simp add: delete_conv')

lemma mget_notin: "k \<notin> fst ` set m \<Longrightarrow> mget m k = None"
  by (simp add: map_of_eq_None_iff)

lemma mget_mkeep [gomap_simps]:
  "gomap_ok m \<Longrightarrow> mget (mkeep P m) k =
     (case mget m k of None \<Rightarrow> None | Some v \<Rightarrow> if P k v then Some v else None)"
proof (induction m)
  case Nil
  then show ?case by (simp add: mkeep_def)
next
  case (Cons a m)
  obtain k' v where a: "a = (k', v)" by (cases a)
  from Cons.prems have ok: "gomap_ok m" and fresh: "k' \<notin> fst ` set m"
    by (auto simp: gomap_ok_def a)
  have IH: "mget (filter (\<lambda>(k, v). P k v) m) k =
      (case mget m k of None \<Rightarrow> None | Some v \<Rightarrow> if P k v then Some v else None)"
    using Cons.IH [OF ok] by (simp add: mkeep_def)
  show ?case
    using IH mget_notin [OF fresh] by (auto simp: a mkeep_def)
qed

lemma mkeep_all: "(\<And>k v. (k, v) \<in> set m \<Longrightarrow> P k v) \<Longrightarrow> mkeep P m = m"
  unfolding mkeep_def by (induction m) auto

text \<open>
  The interface the state tables rely on: what a lookup returns after each operation, and
  that every operation keeps the representation invariant.
\<close>

locale finite_map_ops =
  fixes empty :: 'm
    and lookup :: "'m \<Rightarrow> 'k \<Rightarrow> 'v option"
    and insert :: "'k \<Rightarrow> 'v \<Rightarrow> 'm \<Rightarrow> 'm"
    and remove :: "'k \<Rightarrow> 'm \<Rightarrow> 'm"
    and keep :: "('k \<Rightarrow> 'v \<Rightarrow> bool) \<Rightarrow> 'm \<Rightarrow> 'm"
    and ok :: "'m \<Rightarrow> bool"
  assumes ok_empty: "ok empty"
    and ok_insert: "ok m \<Longrightarrow> ok (insert k v m)"
    and ok_remove: "ok m \<Longrightarrow> ok (remove k m)"
    and ok_keep: "ok m \<Longrightarrow> ok (keep P m)"
    and lookup_empty: "lookup empty k = None"
    and lookup_insert: "ok m \<Longrightarrow> lookup (insert k v m) = (lookup m)(k := Some v)"
    and lookup_remove: "ok m \<Longrightarrow> lookup (remove k m) = (lookup m)(k := None)"
    and lookup_keep: "ok m \<Longrightarrow> lookup (keep P m) k =
          (case lookup m k of None \<Rightarrow> None | Some v \<Rightarrow> if P k v then Some v else None)"
begin

text \<open>Deleting a key that was just inserted restores every other binding (the rollback idiom).\<close>

lemma rollback_insert:
  "ok m \<Longrightarrow> lookup m k = None \<Longrightarrow> lookup (remove k (insert k v m)) = lookup m"
  by (auto simp: lookup_insert lookup_remove ok_insert)

lemma rollback_overwrite:
  "ok m \<Longrightarrow> lookup m k = Some old \<Longrightarrow> lookup (insert k old (insert k v m)) = lookup m"
  by (auto simp: lookup_insert ok_insert)

lemma keep_survivor:
  "ok m \<Longrightarrow> lookup m k = Some v \<Longrightarrow> P k v \<Longrightarrow> lookup (keep P m) k = Some v"
  by (simp add: lookup_keep)

lemma keep_casualty:
  "ok m \<Longrightarrow> lookup m k = Some v \<Longrightarrow> \<not> P k v \<Longrightarrow> lookup (keep P m) k = None"
  by (simp add: lookup_keep)

lemma keep_no_new: "ok m \<Longrightarrow> lookup m k = None \<Longrightarrow> lookup (keep P m) k = None"
  by (simp add: lookup_keep)

end

interpretation gm: finite_map_ops "[]" map_of AList.update AList.delete mkeep gomap_ok
  by unfold_locales (auto simp: gomap_simps fun_eq_iff)

section \<open>Sequencing with state and errors\<close>

text \<open>
  A stateful, fallible operation of the source is a function from the state to a result
  and the new state; \<open>Inl\<close> is the error return. The state is returned on the error path
  too: Go code keeps whatever it did before the failing call.
\<close>

type_synonym ('s, 'e, 'a) act = "'s \<Rightarrow> ('e + 'a) \<times> 's"

definition ret :: "'a \<Rightarrow> ('s, 'e, 'a) act" where
  "ret a s = (Inr a, s)"

definition throw :: "'e \<Rightarrow> ('s, 'e, 'a) act" where
  "throw e s = (Inl e, s)"

text \<open>\<open>x, err := m(); if err != nil { return err }; ...\<close>\<close>

definition andThen :: "('s, 'e, 'a) act \<Rightarrow> ('a \<Rightarrow> ('s, 'e, 'b) act) \<Rightarrow> ('s, 'e, 'b) act" where
  "andThen m f s = (case m s of (Inl e, s') \<Rightarrow> (Inl e, s') | (Inr a, s') \<Rightarrow> f a s')"

text \<open>An optional callback (\<open>if f != nil { if err := f(); ... }\<close>).\<close>

definition whenSome :: "('s, 'e, unit) act option \<Rightarrow> ('s, 'e, unit) act" where
  "whenSome m = (case m of None \<Rightarrow> ret () | Some f \<Rightarrow> f)"

declare ret_def [step_defs] throw_def [step_defs] andThen_def [step_defs]

lemma andThen_Inr: "m s = (Inr a, s') \<Longrightarrow> andThen m f s = f a s'"
  by (simp add: andThen_def)

lemma andThen_Inl: "m s = (Inl e, s') \<Longrightarrow> andThen m f s = (Inl e, s')"
  by (simp add: andThen_def)

lemma andThen_InrE:
  assumes "andThen m f s = (Inr b, s'')"
  obtains a s' where "m s = (Inr a, s')" and "f a s' = (Inr b, s'')"
  using assms by (auto simp: andThen_def split: prod.splits sum.splits)

lemma andThen_InlE:
  assumes "andThen m f s = (Inl e, s'')"
  obtains (first) "m s = (Inl e, s'')"
    | (second) a s' where "m s = (Inr a, s')" and "f a s' = (Inl e, s'')"
  using assms by (auto simp: andThen_def split: prod.splits sum.splits)

text \<open>
  A relation between the state before and after that every part of a sequence keeps is
  kept by the sequence: the way invariants and monotonicity facts go through the
  protocols below.
\<close>

definition keeps :: "('s \<Rightarrow> 's \<Rightarrow> bool) \<Rightarrow> ('s, 'e, 'a) act \<Rightarrow> bool" where
  "keeps R m \<longleftrightarrow> (\<forall>s. R s (snd (m s)))"

locale step_preorder =
  fixes R :: "'s \<Rightarrow> 's \<Rightarrow> bool"
  assumes R_refl: "R s s"
    and R_trans: "R s t \<Longrightarrow> R t u \<Longrightarrow> R s u"
begin

lemma keeps_ret: "keeps R (ret a)"
  by (simp add: keeps_def ret_def R_refl)

lemma keeps_throw: "keeps R (throw e)"
  by (simp add: keeps_def throw_def R_refl)

lemma keeps_andThen:
  assumes "keeps R m" and "\<And>a. keeps R (f a)"
  shows "keeps R (andThen m f)"
proof -
  have "R s (snd (andThen m f s))" for s
  proof (cases "m s")
    case (Pair r s')
    have "R s s'" using assms(1) Pair by (metis keeps_def snd_conv)
    moreover have "R s' (snd (f a s'))" for a using assms(2) by (simp add: keeps_def)
    ultimately show ?thesis
      by (cases r) (auto simp: andThen_def Pair intro: R_trans)
  qed
  then show ?thesis by (simp add: keeps_def)
qed

lemma keeps_whenSome: "(\<And>f. m = Some f \<Longrightarrow> keeps R f) \<Longrightarrow> keeps R (whenSome m)"
  by (cases m) (simp_all add: whenSome_def keeps_ret)

lemmas keeps_intros = keeps_ret keeps_throw keeps_andThen keeps_whenSome

end

text \<open>
  Hoare triples for the same combinators: from \<open>P\<close>, a run that returns \<open>a\<close> ends in \<open>Q a\<close>, and a run
  that fails ends in \<open>E\<close>.
\<close>

definition valid :: "('s \<Rightarrow> bool) \<Rightarrow> ('s, 'e, 'a) act \<Rightarrow> ('a \<Rightarrow> 's \<Rightarrow> bool) \<Rightarrow> ('s \<Rightarrow> bool) \<Rightarrow> bool" where
  "valid P m Q E \<longleftrightarrow> (\<forall>s. P s \<longrightarrow>
     (\<forall>e t. m s = (Inl e, t) \<longrightarrow> E t) \<and> (\<forall>a t. m s = (Inr a, t) \<longrightarrow> Q a t))"

lemma validI:
  assumes "\<And>s e t. P s \<Longrightarrow> m s = (Inl e, t) \<Longrightarrow> E t"
    and "\<And>s a t. P s \<Longrightarrow> m s = (Inr a, t) \<Longrightarrow> Q a t"
  shows "valid P m Q E"
  using assms by (simp add: valid_def)

lemma valid_Inl: "valid P m Q E \<Longrightarrow> P s \<Longrightarrow> m s = (Inl e, t) \<Longrightarrow> E t"
  by (simp add: valid_def)

lemma valid_Inr: "valid P m Q E \<Longrightarrow> P s \<Longrightarrow> m s = (Inr a, t) \<Longrightarrow> Q a t"
  by (simp add: valid_def)

lemma valid_andThen:
  assumes m: "valid P m Q E" and f: "\<And>a. valid (Q a) (f a) R E"
  shows "valid P (andThen m f) R E"
proof (rule validI)
  fix s e t
  assume "P s" and "andThen m f s = (Inl e, t)"
  then show "E t"
    by (auto elim!: andThen_InlE intro: valid_Inl [OF m] valid_Inl [OF f] valid_Inr [OF m])
next
  fix s a t
  assume "P s" and "andThen m f s = (Inr a, t)"
  then show "R a t"
    by (auto elim!: andThen_InrE intro: valid_Inr [OF f] valid_Inr [OF m])
qed

lemma valid_ret: "(\<And>s. P s \<Longrightarrow> Q a s) \<Longrightarrow> valid P (ret a) Q E"
  by (simp add: valid_def ret_def)

lemma valid_whenSome:
  assumes "\<And>f. m = Some f \<Longrightarrow> valid P f (\<lambda>_. Q) E" and "\<And>s. P s \<Longrightarrow> Q s"
  shows "valid P (whenSome m) (\<lambda>_. Q) E"
  using assms by (cases m) (auto simp: whenSome_def valid_ret)

lemma valid_weaken:
  assumes "valid P m Q E" and "\<And>s. P' s \<Longrightarrow> P s" and "\<And>a s. Q a s \<Longrightarrow> Q' a s"
    and "\<And>s. E s \<Longrightarrow> E' s"
  shows "valid P' m Q' E'"
  using assms unfolding valid_def by blast

lemma valid_snd_iff: "valid P m (\<lambda>_. I) I \<longleftrightarrow> (\<forall>s. P s \<longrightarrow> I (snd (m s)))"
proof
  assume v: "valid P m (\<lambda>_. I) I"
  have "I (snd (m s))" if "P s" for s
  proof (cases "m s")
    case (Pair r t)
    with v that show ?thesis by (cases r) (auto dest: valid_Inl valid_Inr)
  qed
  then show "\<forall>s. P s \<longrightarrow> I (snd (m s))" by blast
next
  assume "\<forall>s. P s \<longrightarrow> I (snd (m s))"
  then show "valid P m (\<lambda>_. I) I" by (intro validI) (metis snd_conv)+
qed

text \<open>Total correctness: from \<open>P\<close> the run returns a value, and ends in \<open>Q\<close>.\<close>

definition returns :: "('s \<Rightarrow> bool) \<Rightarrow> ('s, 'e, 'a) act \<Rightarrow> ('a \<Rightarrow> 's \<Rightarrow> bool) \<Rightarrow> bool" where
  "returns P m Q \<longleftrightarrow> (\<forall>s. P s \<longrightarrow> (\<exists>a t. m s = (Inr a, t) \<and> Q a t))"

lemma returns_andThen: "returns P m Q \<Longrightarrow> (\<And>a. returns (Q a) (f a) R) \<Longrightarrow> returns P (andThen m f) R"
  unfolding returns_def by (metis andThen_Inr)

lemma returns_ret: "(\<And>s. P s \<Longrightarrow> Q a s) \<Longrightarrow> returns P (ret a) Q"
  by (simp add: returns_def ret_def)

lemma returns_whenSome:
  "(\<And>f. m = Some f \<Longrightarrow> returns P f (\<lambda>_. P)) \<Longrightarrow> returns P (whenSome m) (\<lambda>_. P)"
  by (cases m) (simp_all add: whenSome_def returns_ret)

section \<open>Searching a list\<close>

lemma find_SomeD: "List.find P xs = Some x \<Longrightarrow> x \<in> set xs \<and> P x"
  by (induction xs) (auto split: if_splits)

lemma find_NoneD: "List.find P xs = None \<Longrightarrow> x \<in> set xs \<Longrightarrow> \<not> P x"
  by (induction xs) (auto split: if_splits)

section \<open>Sums over a map\<close>

definition gsum :: "('k \<Rightarrow> 'v \<Rightarrow> int) \<Rightarrow> ('k, 'v) gomap \<Rightarrow> int" where
  "gsum f m = sum_list (map (\<lambda>(k, v). f k v) m)"

definition at_key :: "('k \<Rightarrow> 'v \<Rightarrow> int) \<Rightarrow> 'k \<Rightarrow> 'v option \<Rightarrow> int" where
  "at_key f k x = (case x of None \<Rightarrow> 0 | Some v \<Rightarrow> f k v)"

lemma at_key_simps [simp]: "at_key f k None = 0" "at_key f k (Some v) = f k v"
  by (simp_all add: at_key_def)

lemma gsum_Nil [simp]: "gsum f [] = 0"
  by (simp add: gsum_def)

lemma gsum_Cons: "gsum f (kv # m) = f (fst kv) (snd kv) + gsum f m"
  by (simp add: gsum_def split_beta)

lemma gsum_update: "gomap_ok m \<Longrightarrow> gsum f (mset_at k v m) = gsum f m - at_key f k (mget m k) + f k v"
  by (induction m) (auto simp: gsum_Cons gomap_ok_def mget_notin)

lemma gsum_delete: "gomap_ok m \<Longrightarrow> gsum f (mdel k m) = gsum f m - at_key f k (mget m k)"
proof (induction m)
  case (Cons kv m)
  obtain k' v where kv: "kv = (k', v)" by (cases kv)
  have ok: "gomap_ok m" and "k' \<notin> fst ` set m" using Cons.prems by (auto simp: gomap_ok_def kv)
  moreover from this have "mdel k' m = m" by (force simp: AList.delete_eq filter_id_conv)
  ultimately show ?case using Cons.IH [OF ok] by (auto simp: kv gsum_Cons)
qed simp

lemma gsum_nonneg: "(\<And>k v. (k, v) \<in> set m \<Longrightarrow> 0 \<le> f k v) \<Longrightarrow> 0 \<le> gsum f m"
  by (induction m) (auto simp: gsum_Cons)

section \<open>Readiness\<close>

text \<open>The observed readiness values that count as serving (\<open>internal/capabilities\<close>).\<close>

definition IsServingReadiness :: "string \<Rightarrow> bool" where
  "IsServingReadiness s \<longleftrightarrow> s = ''READY'' \<or> s = ''UNCONFIGURED''"

section \<open>Text\<close>

text \<open>Decimal rendering of a number, as \<open>%d\<close> and \<open>strconv.Itoa\<close> print it.\<close>

definition digit_char :: "nat \<Rightarrow> char" where
  "digit_char d = char_of (48 + d)"

fun utoa :: "nat \<Rightarrow> string" where
  "utoa n = (if n < 10 then [digit_char n] else utoa (n div 10) @ [digit_char (n mod 10)])"

declare utoa.simps [simp del]

definition itoa :: "int \<Rightarrow> string" where
  "itoa i = (if i < 0 then ''-'' @ utoa (nat (- i)) else utoa (nat i))"

text \<open>\<open>strings.Join\<close>.\<close>

fun join :: "string \<Rightarrow> string list \<Rightarrow> string" where
  "join sep [] = []"
| "join sep [x] = x"
| "join sep (x # y # xs) = x @ sep @ join sep (y # xs)"

end
