(* ===== verification/Durable.thy ===== *)
theory Durable
  imports Prelude
begin

text \<open>
  The crash-safe file write of \<open>shared/pkg/durablewrite\<close> and the state files built on it.

  A file system is one state file: the name as running processes see it, the bindings of the
  name that a power loss may leave (every rename since the last directory fsync adds one),
  and the temporary file. An inode remembers whether its data has been fsynced: after a
  power loss an unsynced inode reads back as its data, as an empty file, or as anything else
  that was on the blocks. The injected dependencies of \<open>WriteFileAtomicWithDeps\<close> are a fault value that
  says which of its system calls fails.
\<close>

section \<open>Files\<close>

record 'd inode =
  content :: 'd
  synced :: bool

record 'd fs =
  fs_tmp :: "'d inode option"
  fs_cur :: "'d inode option"
  fs_dur :: "'d inode option list"

text \<open>The system calls that can fail, in the order the code makes them; \<open>FMarshal\<close> is the
  callers' \<open>json.MarshalIndent\<close>, which runs before the write.\<close>

datatype wfault = NoFault | FMarshal | FMkdirAll | FOpenFile | FWrite | FSyncFile | FClose
  | FRename | FOpenDir | FSyncDir

definition fresh_fs :: "'d fs" where
  "fresh_fs = \<lparr>fs_tmp = None, fs_cur = None, fs_dur = [None]\<rparr>"

text \<open>\<open>rename(2)\<close> moves the temporary inode to the visible name; only the directory fsync
  makes that binding the only one a power loss can leave.\<close>

definition rename_tmp :: "'d fs \<Rightarrow> 'd fs" where
  "rename_tmp f = f\<lparr>fs_cur := fs_tmp f, fs_dur := fs_tmp f # fs_dur f, fs_tmp := None\<rparr>"

definition WriteFileAtomicWithDeps :: "wfault \<Rightarrow> 'd \<Rightarrow> 'd fs \<Rightarrow> (wfault + unit) \<times> 'd fs" where
  "WriteFileAtomicWithDeps flt data f =
     (if flt = FMkdirAll then (Inl FMkdirAll, f)
      else if flt = FOpenFile then (Inl FOpenFile, f)
      else if flt = FWrite then (Inl FWrite, f\<lparr>fs_tmp := None\<rparr>)
      else
        (let f1 = f\<lparr>fs_tmp := Some \<lparr>content = data, synced = False\<rparr>\<rparr> in
         if flt = FSyncFile then (Inl FSyncFile, f1\<lparr>fs_tmp := None\<rparr>)
         else
           (let f2 = f1\<lparr>fs_tmp := Some \<lparr>content = data, synced = True\<rparr>\<rparr> in
            if flt = FClose then (Inl FClose, f2\<lparr>fs_tmp := None\<rparr>)
            else if flt = FRename then (Inl FRename, f2\<lparr>fs_tmp := None\<rparr>)
            else
              (let f3 = rename_tmp f2 in
               if flt = FOpenDir then (Inl FOpenDir, f3)
               else if flt = FSyncDir then (Inl FSyncDir, f3)
               else (Inr (), f3\<lparr>fs_dur := [fs_cur f3]\<rparr>)))))"

definition WriteFileAtomic :: "wfault \<Rightarrow> 'd \<Rightarrow> 'd fs \<Rightarrow> (wfault + unit) \<times> 'd fs" where
  "WriteFileAtomic = WriteFileAtomicWithDeps"

definition writeFileDurable :: "wfault \<Rightarrow> 'd \<Rightarrow> 'd fs \<Rightarrow> (wfault + unit) \<times> 'd fs" where
  "writeFileDurable = WriteFileAtomic"

section \<open>Power loss and reopening\<close>

text \<open>What \<open>os.ReadFile\<close> finds under the name, and what it may find after a power loss: the
  data of an inode that was not fsynced may be there, missing or torn.\<close>

datatype 'd readback = NotExist | ReadErr | EmptyFile | Garbage | Content 'd

definition read_inode :: "'d inode option \<Rightarrow> 'd readback list" where
  "read_inode i =
     (case i of
        None \<Rightarrow> [NotExist]
      | Some n \<Rightarrow> if synced n then [Content (content n)] else [Content (content n), EmptyFile, Garbage])"

text \<open>A running process reads the visible binding; after a power loss any binding that
  may survive can be the one found on disk.\<close>

definition read_live :: "'d fs \<Rightarrow> 'd readback" where
  "read_live f = (case fs_cur f of None \<Rightarrow> NotExist | Some n \<Rightarrow> Content (content n))"

definition crash_outcomes :: "'d fs \<Rightarrow> 'd readback list" where
  "crash_outcomes f = concat (map read_inode (fs_dur f))"

text \<open>The invariant of a state file: the visible binding may survive, and no binding that may
  survive has data that could still be lost.\<close>

definition fs_settled :: "'d fs \<Rightarrow> bool" where
  "fs_settled f \<longleftrightarrow> fs_cur f \<in> set (fs_dur f) \<and> (\<forall>n. Some n \<in> set (fs_dur f) \<longrightarrow> synced n)"

lemma fs_settled_fresh [simp]: "fs_settled fresh_fs"
  by (simp add: fs_settled_def fresh_fs_def)

lemmas write_defs = WriteFileAtomicWithDeps_def WriteFileAtomic_def writeFileDurable_def
  rename_tmp_def Let_def

lemma write_settled: "fs_settled f \<Longrightarrow> fs_settled (snd (writeFileDurable flt d f))"
  by (cases flt) (auto simp: write_defs fs_settled_def)

lemma write_ok_iff:
  "fst (writeFileDurable flt d f) = Inr () \<longleftrightarrow> flt = NoFault \<or> flt = FMarshal"
  by (cases flt) (auto simp: write_defs)

lemma write_ok_durable:
  "fst (writeFileDurable flt d f) = Inr () \<Longrightarrow>
     crash_outcomes (snd (writeFileDurable flt d f)) = [Content d]"
  by (cases flt) (auto simp: write_defs crash_outcomes_def read_inode_def)

text \<open>The visible content after a write is the old one or the new one, whatever fails.\<close>

lemma write_cur_cases:
  "fs_cur (snd (writeFileDurable flt d f)) \<in> {fs_cur f, Some \<lparr>content = d, synced = True\<rparr>}"
  by (cases flt) (auto simp: write_defs)

lemma write_dur_cases:
  "set (fs_dur (snd (writeFileDurable flt d f))) \<subseteq> insert (Some \<lparr>content = d, synced = True\<rparr>) (set (fs_dur f))"
  by (cases flt) (auto simp: write_defs)

text \<open>
  Claim C29. Crash atomicity of \<open>WriteFileAtomic\<close>: whichever system call fails and
  whenever the power goes, what is read back is one of the contents that could be read
  back before the call or exactly the new data, never a torn or empty file; and after a
  successful return only the new data can be read back.
\<close>

theorem WriteFileAtomic_crash_atomic:
  assumes "fs_settled f"
  shows "(\<forall>r \<in> set (crash_outcomes (snd (WriteFileAtomic flt d f))).
            (r \<in> set (crash_outcomes f) \<or> r = Content d) \<and> r \<noteq> EmptyFile \<and> r \<noteq> Garbage) \<and>
         (fst (WriteFileAtomic flt d f) = Inr () \<longrightarrow>
            set (crash_outcomes (snd (WriteFileAtomic flt d f))) = {Content d})"
  using assms
  by (cases flt;
      force simp: write_defs crash_outcomes_def read_inode_def fs_settled_def
        split: option.splits if_splits)

theorem WriteFileAtomic_crash_atomic_witness:
  "fst (WriteFileAtomic NoFault (7::nat) fresh_fs) = Inr () \<and>
   set (crash_outcomes (snd (WriteFileAtomic NoFault (7::nat) fresh_fs))) = {Content 7} \<and>
   list_all (\<lambda>r. r \<noteq> EmptyFile) (crash_outcomes (snd (WriteFileAtomic FSyncDir (7::nat) fresh_fs)))"
proof -
  have ok: "fst (WriteFileAtomic NoFault (7::nat) fresh_fs) = Inr ()"
    by (simp add: write_defs)
  show ?thesis
    using ok WriteFileAtomic_crash_atomic [OF fs_settled_fresh, of FSyncDir "7::nat"]
      WriteFileAtomic_crash_atomic [OF fs_settled_fresh, of NoFault "7::nat"]
    by (simp add: list_all_iff)
qed

section \<open>State files\<close>

text \<open>
  \<open>Open\<close>, \<open>OpenFences\<close>, \<open>OpenCreds\<close>: a missing or empty file is the empty map, a file
  that cannot be read or parsed is an error.
\<close>

datatype open_err = OpenReadErr | OpenParseErr

fun open_table :: "('k, 'v) gomap readback \<Rightarrow> open_err + ('k, 'v) gomap" where
  "open_table NotExist = Inr []"
| "open_table ReadErr = Inl OpenReadErr"
| "open_table EmptyFile = Inr []"
| "open_table Garbage = Inl OpenParseErr"
| "open_table (Content m) = Inr m"

text \<open>\<open>persistLocked\<close>: marshal the whole map, then write it durably. The write is reached only
  when marshalling succeeded.\<close>

definition persist_table :: "wfault \<Rightarrow> ('k, 'v) gomap \<Rightarrow> ('k, 'v) gomap fs \<Rightarrow>
    (wfault + unit) \<times> ('k, 'v) gomap fs" where
  "persist_table flt m f = (if flt = FMarshal then (Inl FMarshal, f) else writeFileDurable flt m f)"

lemma persist_ok_iff: "fst (persist_table flt m f) = Inr () \<longleftrightarrow> flt = NoFault"
  by (auto simp: persist_table_def write_ok_iff)

lemma persist_result: "fst (persist_table flt m f) = (if flt = NoFault then Inr () else Inl flt)"
  by (cases flt) (auto simp: persist_table_def write_defs)

lemma persist_settled [simp]: "fs_settled f \<Longrightarrow> fs_settled (snd (persist_table flt m f))"
  by (simp add: persist_table_def write_settled)

lemma persist_ok_durable:
  "crash_outcomes (snd (persist_table NoFault m f)) = [Content m]"
  by (simp add: persist_table_def write_ok_durable write_ok_iff)

lemma persist_ok_live: "read_live (snd (persist_table NoFault m f)) = Content m"
  by (simp add: persist_table_def write_defs read_live_def)

lemma persist_outcome_cases:
  assumes "fs_settled f" and "r \<in> set (crash_outcomes (snd (persist_table flt m f)))"
  shows "r \<in> set (crash_outcomes f) \<or> r = Content m"
  using assms
  by (cases flt)
     (auto simp: persist_table_def write_defs crash_outcomes_def read_inode_def fs_settled_def)

text \<open>What every process restart can find in the state file.\<close>

definition reopens :: "('k, 'v) gomap fs \<Rightarrow> ('k, 'v) gomap \<Rightarrow> bool" where
  "reopens f m \<longleftrightarrow> (\<exists>r \<in> set (crash_outcomes f). open_table r = Inr m)"

lemma reopensI: "i \<in> set (fs_dur f) \<Longrightarrow> r \<in> set (read_inode i) \<Longrightarrow> open_table r = Inr m \<Longrightarrow> reopens f m"
  by (force simp: reopens_def crash_outcomes_def)

text \<open>A binding of a settled file has one content only.\<close>

lemma settled_read:
  assumes "fs_settled f" and "i \<in> set (fs_dur f)" and "r \<in> set (read_inode i)"
  shows "read_inode i = [r]"
  using assms by (auto simp: fs_settled_def read_inode_def split: option.splits)

lemma reopens_after_ok: "reopens (snd (persist_table NoFault m f)) m' \<longleftrightarrow> m' = m"
  by (auto simp: reopens_def persist_ok_durable)

lemma reopens_after_any:
  assumes "fs_settled f" and "reopens (snd (persist_table flt m f)) m'"
  shows "reopens f m' \<or> m' = m"
  using assms(2) unfolding reopens_def
  by (force dest: persist_outcome_cases [OF assms(1)])

text \<open>A state file whose every possible restart content satisfies \<open>P\<close>.\<close>

definition file_ok :: "(('k, 'v) gomap \<Rightarrow> bool) \<Rightarrow> ('k, 'v) gomap fs \<Rightarrow> bool" where
  "file_ok P f \<longleftrightarrow> fs_settled f \<and> (\<forall>m. reopens f m \<longrightarrow> P m)"

lemma file_ok_settled: "file_ok P f \<Longrightarrow> fs_settled f"
  by (simp add: file_ok_def)

lemma file_ok_reopens: "file_ok P f \<Longrightarrow> reopens f m \<Longrightarrow> P m"
  by (simp add: file_ok_def)

lemma file_ok_fresh [simp]: "P [] \<Longrightarrow> file_ok P fresh_fs"
  by (auto simp: file_ok_def reopens_def crash_outcomes_def fresh_fs_def read_inode_def fs_settled_def)

lemma file_ok_persist [simp]: "file_ok P f \<Longrightarrow> P m \<Longrightarrow> file_ok P (snd (persist_table flt m f))"
  using reopens_after_any unfolding file_ok_def by (metis persist_settled)

section \<open>Restart\<close>

text \<open>A power loss settles on one of the bindings; the files of the restarted node are as if
  that binding had been synced.\<close>

definition settle :: "'d inode option \<Rightarrow> 'd fs" where
  "settle i = \<lparr>fs_tmp = None, fs_cur = i, fs_dur = [i]\<rparr>"

lemma settle_settled: "fs_settled f \<Longrightarrow> i \<in> set (fs_dur f) \<Longrightarrow> fs_settled (settle i)"
  by (auto simp: fs_settled_def settle_def)

lemma reopens_settle:
  assumes "i \<in> set (fs_dur f)" and "reopens (settle i) m"
  shows "reopens f m"
  using assms by (auto simp: reopens_def settle_def crash_outcomes_def)

lemma file_ok_settle: "file_ok P f \<Longrightarrow> i \<in> set (fs_dur f) \<Longrightarrow> file_ok P (settle i)"
  unfolding file_ok_def using reopens_settle settle_settled by blast

lemma read_live_reopens:
  assumes "fs_settled f" and "open_table (read_live f) = Inr m"
  shows "reopens f m"
proof -
  have "read_inode (fs_cur f) = [read_live f]"
    using assms(1) by (auto simp: read_live_def read_inode_def fs_settled_def split: option.splits)
  with assms show ?thesis by (force simp: reopens_def crash_outcomes_def fs_settled_def)
qed

end
