(* ===== verification/Ledger.thy ===== *)
theory Ledger
  imports Durable
begin

text \<open>
  The agent's operation ledger (\<open>internal/agent/state/ledger.go\<close>): a durable map from
  operation id to a record that is first a claim and then a completed result.
  Each operation takes the clock reading its \<open>time.Now()\<close> returns and the fault its
  \<open>persistLocked\<close> meets.
\<close>

section \<open>State\<close>

type_synonym OperationStatus = string

definition StatusInProgress :: OperationStatus where
  "StatusInProgress = ''in_progress''"

definition StatusCompleted :: OperationStatus where
  "StatusCompleted = ''completed''"

record Record =
  rec_OperationID :: string
  rec_MachineID :: string
  rec_ExecutionID :: string
  rec_Generation :: u64
  rec_Kind :: string
  rec_Identity :: string
  rec_RequestHash :: string
  rec_Status :: OperationStatus
  rec_Result :: string
  rec_CreatedAt :: int
  rec_UpdatedAt :: int

definition Completed :: "Record \<Rightarrow> bool" where
  "Completed r \<longleftrightarrow> rec_Status r = '''' \<or> rec_Status r = StatusCompleted"

record Ledger =
  records :: "(string, Record) gomap"
  ledger_file :: "(string, Record) gomap fs"

datatype state_err = ErrRequestHashConflict | ErrStaleGeneration string u64 u64
  | ErrNoDurableClaim string | ErrPersist wfault

definition persist_records :: "wfault \<Rightarrow> Ledger \<Rightarrow> (wfault + unit) \<times> Ledger" where
  "persist_records flt l =
     (let (r, f) = persist_table flt (records l) (ledger_file l) in (r, l\<lparr>ledger_file := f\<rparr>))"

section \<open>Operations\<close>

definition Open :: "(string, Record) gomap readback \<Rightarrow> (string, Record) gomap fs \<Rightarrow> open_err + Ledger" where
  "Open r f = (case open_table r of Inl e \<Rightarrow> Inl e | Inr m \<Rightarrow> Inr \<lparr>records = m, ledger_file = f\<rparr>)"

definition Get :: "string \<Rightarrow> string \<Rightarrow> Ledger \<Rightarrow> state_err + Record option" where
  "Get operationID requestHash l =
     (case mget (records l) operationID of
        None \<Rightarrow> Inr None
      | Some r \<Rightarrow> if rec_RequestHash r \<noteq> requestHash then Inl ErrRequestHashConflict else Inr (Some r))"

definition Check :: "string \<Rightarrow> string \<Rightarrow> Ledger \<Rightarrow> state_err + string option" where
  "Check operationID requestHash l =
     (case Get operationID requestHash l of
        Inl e \<Rightarrow> Inl e
      | Inr None \<Rightarrow> Inr None
      | Inr (Some r) \<Rightarrow> if \<not> Completed r then Inr None else Inr (Some (rec_Result r)))"

definition Begin :: "int \<Rightarrow> wfault \<Rightarrow> Record \<Rightarrow> (Ledger, state_err, Record \<times> bool) act" where
  "Begin now flt r l =
     (case mget (records l) (rec_OperationID r) of
        Some old \<Rightarrow>
          if rec_RequestHash old \<noteq> rec_RequestHash r then (Inl ErrRequestHashConflict, l)
          else (Inr (old, True), l)
      | None \<Rightarrow>
          (let r' = r\<lparr>rec_Status := StatusInProgress, rec_Result := '''',
                      rec_CreatedAt := now, rec_UpdatedAt := now\<rparr>;
               l1 = l\<lparr>records := mset_at (rec_OperationID r) r' (records l)\<rparr>
           in case persist_records flt l1 of
                (Inl e, l2) \<Rightarrow>
                  (Inl (ErrPersist e), l2\<lparr>records := mdel (rec_OperationID r) (records l2)\<rparr>)
              | (Inr _, l2) \<Rightarrow> (Inr (r', False), l2)))"

definition Complete :: "int \<Rightarrow> wfault \<Rightarrow> string \<Rightarrow> string \<Rightarrow> string \<Rightarrow> (Ledger, state_err, unit) act" where
  "Complete now flt operationID requestHash result l =
     (case mget (records l) operationID of
        None \<Rightarrow> (Inl (ErrNoDurableClaim operationID), l)
      | Some r \<Rightarrow>
          if rec_RequestHash r \<noteq> requestHash then (Inl ErrRequestHashConflict, l)
          else if Completed r then (Inr (), l)
          else
            (let r' = r\<lparr>rec_Status := StatusCompleted, rec_Result := result, rec_UpdatedAt := now\<rparr>;
                 l1 = l\<lparr>records := mset_at operationID r' (records l)\<rparr>
             in case persist_records flt l1 of
                  (Inl e, l2) \<Rightarrow> (Inl (ErrPersist e), l2\<lparr>records := mset_at operationID r (records l2)\<rparr>)
                | (Inr _, l2) \<Rightarrow> (Inr (), l2)))"

text \<open>The completed record that \<open>Put\<close> and \<open>Claim\<close> write for an unknown operation.\<close>

definition tombstone_record :: "int \<Rightarrow> string \<Rightarrow> string \<Rightarrow> string \<Rightarrow> string \<Rightarrow> Record" where
  "tombstone_record now operationID machineID requestHash result =
     \<lparr>rec_OperationID = operationID, rec_MachineID = machineID, rec_ExecutionID = '''',
      rec_Generation = 0, rec_Kind = '''', rec_Identity = '''', rec_RequestHash = requestHash,
      rec_Status = StatusCompleted, rec_Result = result, rec_CreatedAt = now, rec_UpdatedAt = now\<rparr>"

definition Put :: "int \<Rightarrow> wfault \<Rightarrow> string \<Rightarrow> string \<Rightarrow> string \<Rightarrow> string \<Rightarrow> (Ledger, state_err, unit) act" where
  "Put now flt operationID machineID requestHash result l =
     (case mget (records l) operationID of
        Some r \<Rightarrow>
          if rec_RequestHash r \<noteq> requestHash then (Inl ErrRequestHashConflict, l)
          else if Completed r then (Inr (), l)
          else
            (let r' = r\<lparr>rec_Status := StatusCompleted, rec_Result := result, rec_UpdatedAt := now\<rparr>;
                 l1 = l\<lparr>records := mset_at operationID r' (records l)\<rparr>
             in case persist_records flt l1 of
                  (Inl e, l2) \<Rightarrow> (Inl (ErrPersist e), l2\<lparr>records := mset_at operationID r (records l2)\<rparr>)
                | (Inr _, l2) \<Rightarrow> (Inr (), l2))
      | None \<Rightarrow>
          (let l1 = l\<lparr>records := mset_at operationID
                        (tombstone_record now operationID machineID requestHash result) (records l)\<rparr>
           in case persist_records flt l1 of
                (Inl e, l2) \<Rightarrow> (Inl (ErrPersist e), l2\<lparr>records := mdel operationID (records l2)\<rparr>)
              | (Inr _, l2) \<Rightarrow> (Inr (), l2)))"

definition Claim :: "int \<Rightarrow> wfault \<Rightarrow> string \<Rightarrow> string \<Rightarrow> string \<Rightarrow> string \<Rightarrow> (Ledger, state_err, bool) act" where
  "Claim now flt operationID machineID requestHash result l =
     (case mget (records l) operationID of
        Some r \<Rightarrow>
          if rec_RequestHash r \<noteq> requestHash then (Inl ErrRequestHashConflict, l)
          else (Inr False, l)
      | None \<Rightarrow>
          (let l1 = l\<lparr>records := mset_at operationID
                        (tombstone_record now operationID machineID requestHash result) (records l)\<rparr>
           in case persist_records flt l1 of
                (Inl e, l2) \<Rightarrow> (Inl (ErrPersist e), l2\<lparr>records := mdel operationID (records l2)\<rparr>)
              | (Inr _, l2) \<Rightarrow> (Inr True, l2)))"

text \<open>The pruning loops: the entries go from memory first, and a failed write is reported
  together with the count (the memory is not rolled back here).\<close>

definition prune_records :: "wfault \<Rightarrow> (string \<Rightarrow> Record \<Rightarrow> bool) \<Rightarrow> Ledger \<Rightarrow>
    (nat \<times> wfault option) \<times> Ledger" where
  "prune_records flt keep l =
     (let kept = mkeep keep (records l);
          removed = length (records l) - length kept
      in if removed = 0 then ((0, None), l)
         else case persist_records flt (l\<lparr>records := kept\<rparr>) of
                (Inl e, l2) \<Rightarrow> ((removed, Some e), l2)
              | (Inr _, l2) \<Rightarrow> ((removed, None), l2))"

definition PruneBefore :: "wfault \<Rightarrow> int \<Rightarrow> Ledger \<Rightarrow> (nat \<times> wfault option) \<times> Ledger" where
  "PruneBefore flt cutoff l = prune_records flt (\<lambda>_ r. \<not> rec_CreatedAt r < cutoff) l"

definition PruneMachineExcept :: "wfault \<Rightarrow> string \<Rightarrow> string \<Rightarrow> Ledger \<Rightarrow> (nat \<times> wfault option) \<times> Ledger" where
  "PruneMachineExcept flt machineID keepOperationID l =
     (if machineID = '''' then ((0, None), l)
      else prune_records flt (\<lambda>k r. \<not> (rec_MachineID r = machineID \<and> k \<noteq> keepOperationID)) l)"

section \<open>Invariant\<close>

text \<open>Keys are distinct and every record is filed under its own operation id, in memory and in
  every content a restart may find.\<close>

definition records_ok :: "(string, Record) gomap \<Rightarrow> bool" where
  "records_ok m \<longleftrightarrow> gomap_ok m \<and> (\<forall>k r. mget m k = Some r \<longrightarrow> rec_OperationID r = k)"

lemma records_ok_empty [simp]: "records_ok []"
  by (simp add: records_ok_def)

lemma records_ok_update [simp]:
  "records_ok m \<Longrightarrow> rec_OperationID r = k \<Longrightarrow> records_ok (mset_at k r m)"
  by (simp add: records_ok_def)

lemma records_ok_delete [simp]: "records_ok m \<Longrightarrow> records_ok (mdel k m)"
  by (simp add: records_ok_def)

lemma records_ok_mkeep [simp]: "records_ok m \<Longrightarrow> records_ok (mkeep P m)"
  by (auto simp: records_ok_def mget_mkeep split: option.splits if_splits)

lemma records_okD: "records_ok m \<Longrightarrow> mget m k = Some r \<Longrightarrow> rec_OperationID r = k"
  by (simp add: records_ok_def)

definition ledger_ok :: "Ledger \<Rightarrow> bool" where
  "ledger_ok l \<longleftrightarrow> records_ok (records l) \<and> file_ok records_ok (ledger_file l)"

definition empty_ledger :: Ledger where
  "empty_ledger = \<lparr>records = [], ledger_file = fresh_fs\<rparr>"

lemma ledger_ok_empty [simp]: "ledger_ok empty_ledger"
  by (simp add: ledger_ok_def empty_ledger_def)

lemma persist_records_fst: "fst (persist_records flt l) = (if flt = NoFault then Inr () else Inl flt)"
  by (simp add: persist_records_def persist_result split: prod.splits)
     (metis fst_conv persist_result)

lemma persist_records_cases:
  "persist_records flt l =
     ((if flt = NoFault then Inr () else Inl flt),
      l\<lparr>ledger_file := snd (persist_table flt (records l) (ledger_file l))\<rparr>)"
  by (simp add: persist_records_def split_beta persist_result)

lemmas ledger_op_defs = Begin_def Complete_def Put_def Claim_def prune_records_def
  PruneBefore_def PruneMachineExcept_def

lemma ledger_ok_Begin [simp]: "ledger_ok l \<Longrightarrow> ledger_ok (snd (Begin now flt r l))"
  by (auto simp: ledger_ok_def Begin_def records_okD persist_records_cases Let_def split: option.splits if_splits)

lemma ledger_ok_Complete [simp]: "ledger_ok l \<Longrightarrow> ledger_ok (snd (Complete now flt k h res l))"
  by (auto simp: ledger_ok_def Complete_def records_okD persist_records_cases Let_def split: option.splits if_splits)

lemma ledger_ok_Put [simp]: "ledger_ok l \<Longrightarrow> ledger_ok (snd (Put now flt k m h res l))"
  by (auto simp: ledger_ok_def Put_def records_okD persist_records_cases Let_def tombstone_record_def
      split: option.splits if_splits)

lemma ledger_ok_Claim [simp]: "ledger_ok l \<Longrightarrow> ledger_ok (snd (Claim now flt k m h res l))"
  by (auto simp: ledger_ok_def Claim_def records_okD persist_records_cases Let_def tombstone_record_def
      split: option.splits if_splits)

lemma ledger_ok_prune [simp]: "ledger_ok l \<Longrightarrow> ledger_ok (snd (prune_records flt keep l))"
  by (auto simp: ledger_ok_def prune_records_def persist_records_cases Let_def mget_mkeep
      split: option.splits if_splits)

lemma prune_records_lookup:
  assumes "ledger_ok l"
  shows "mget (records (snd (prune_records flt keep l))) k =
     (case mget (records l) k of None \<Rightarrow> None | Some r \<Rightarrow> if keep k r then Some r else None)"
proof (cases "length (records l) - length (mkeep keep (records l)) = 0")
  case True
  then have "mkeep keep (records l) = records l"
    by (simp add: mkeep_def filter_id_conv) (metis length_filter_less linorder_not_less split_beta)
  with True assms show ?thesis
    using mget_mkeep [of "records l" keep k]
    by (simp add: prune_records_def Let_def ledger_ok_def records_ok_def)
next
  case False
  with assms show ?thesis
    by (simp add: prune_records_def Let_def persist_records_cases ledger_ok_def records_ok_def mget_mkeep)
qed

section \<open>Abstract specification and refinement\<close>

text \<open>
  What the ledger promises, without times, files or statuses: an operation id is unknown,
  claimed by a request, or done with a result.
\<close>

datatype claim = Pending (claim_hash: string) | Done (claim_hash: string) (claim_result: string)

definition abs_record :: "Record \<Rightarrow> claim" where
  "abs_record r = (if Completed r then Done (rec_RequestHash r) (rec_Result r) else Pending (rec_RequestHash r))"

definition abs_ledger :: "Ledger \<Rightarrow> string \<Rightarrow> claim option" where
  "abs_ledger l k = map_option abs_record (mget (records l) k)"

text \<open>The calls that write the ledger, and the abstract step of each. \<open>None\<close> in the first
  component is a hash conflict or a missing claim; the boolean says whether the step has
  to write the file.\<close>

datatype ledger_call = CBegin Record | CComplete string string string
  | CPut string string string string | CClaim string string string string

fun call_key :: "ledger_call \<Rightarrow> string" where
  "call_key (CBegin r) = rec_OperationID r"
| "call_key (CComplete k h res) = k"
| "call_key (CPut k m h res) = k"
| "call_key (CClaim k m h res) = k"

fun call_hash :: "ledger_call \<Rightarrow> string" where
  "call_hash (CBegin r) = rec_RequestHash r"
| "call_hash (CComplete k h res) = h"
| "call_hash (CPut k m h res) = h"
| "call_hash (CClaim k m h res) = h"

fun spec_next :: "ledger_call \<Rightarrow> claim option \<Rightarrow> claim option" where
  "spec_next (CBegin r) None = Some (Pending (rec_RequestHash r))"
| "spec_next (CComplete k h res) None = None"
| "spec_next (CPut k m h res) None = Some (Done h res)"
| "spec_next (CClaim k m h res) None = Some (Done h res)"
| "spec_next c (Some (Done h res)) = Some (Done h res)"
| "spec_next (CBegin r) (Some (Pending h)) = Some (Pending h)"
| "spec_next (CClaim k m h' res) (Some (Pending h)) = Some (Pending h)"
| "spec_next (CComplete k h' res) (Some (Pending h)) = Some (if h' = h then Done h res else Pending h)"
| "spec_next (CPut k m h' res) (Some (Pending h)) = Some (if h' = h then Done h res else Pending h)"

definition spec_call :: "ledger_call \<Rightarrow> (string \<Rightarrow> claim option) \<Rightarrow> (string \<Rightarrow> claim option)" where
  "spec_call c v = v(call_key c := spec_next c (v (call_key c)))"

definition error_of :: "('e + 'a) \<times> 's \<Rightarrow> 'e option \<times> 's" where
  "error_of p = ((case fst p of Inl e \<Rightarrow> Some e | Inr _ \<Rightarrow> None), snd p)"

lemma snd_error_of [simp]: "snd (error_of p) = snd p"
  by (simp add: error_of_def)

fun run_call :: "int \<times> wfault \<Rightarrow> ledger_call \<Rightarrow> Ledger \<Rightarrow> state_err option \<times> Ledger" where
  "run_call (now, flt) (CBegin r) l = error_of (Begin now flt r l)"
| "run_call (now, flt) (CComplete k h res) l = error_of (Complete now flt k h res l)"
| "run_call (now, flt) (CPut k m h res) l = error_of (Put now flt k m h res l)"
| "run_call (now, flt) (CClaim k m h res) l = error_of (Claim now flt k m h res l)"

lemma Completed_StatusInProgress [simp]: "\<not> Completed (r\<lparr>rec_Status := StatusInProgress\<rparr>)"
  by (simp add: Completed_def StatusInProgress_def StatusCompleted_def)

lemma Completed_StatusCompleted [simp]: "Completed (r\<lparr>rec_Status := StatusCompleted\<rparr>)"
  by (simp add: Completed_def)

lemma Completed_cong [simp]:
  "Completed (r\<lparr>rec_Result := x\<rparr>) = Completed r"
  "Completed (r\<lparr>rec_CreatedAt := t\<rparr>) = Completed r"
  "Completed (r\<lparr>rec_UpdatedAt := t\<rparr>) = Completed r"
  by (simp_all add: Completed_def)

lemma Completed_tombstone [simp]: "Completed (tombstone_record now k m h res)"
  by (simp add: Completed_def tombstone_record_def)

lemma tombstone_sels [simp]:
  "rec_OperationID (tombstone_record now k m h res) = k"
  "rec_MachineID (tombstone_record now k m h res) = m"
  "rec_RequestHash (tombstone_record now k m h res) = h"
  "rec_Result (tombstone_record now k m h res) = res"
  "rec_CreatedAt (tombstone_record now k m h res) = now"
  by (simp_all add: tombstone_record_def)

lemma abs_tombstone [simp]: "abs_record (tombstone_record now k m h res) = Done h res"
  by (simp add: abs_record_def)

lemma ledger_ok_run_call [simp]: "ledger_ok l \<Longrightarrow> ledger_ok (snd (run_call e c l))"
  by (cases e; cases c) simp_all

lemma run_call_frame:
  "k \<noteq> call_key c \<Longrightarrow> mget (records (snd (run_call e c l))) k = mget (records l) k"
  by (cases e; cases c)
     (auto simp: ledger_op_defs persist_records_cases Let_def split: option.splits)

lemma run_call_persist_err:
  "fst (run_call e c l) = Some (ErrPersist f) \<Longrightarrow> f = snd e \<and> snd e \<noteq> NoFault"
  by (cases e; cases c)
     (auto simp: error_of_def ledger_op_defs persist_records_cases Let_def
       split: option.splits if_splits)

lemma run_call_abs_key:
  "abs_ledger (snd (run_call e c l)) (call_key c) =
     (case fst (run_call e c l) of
        Some (ErrPersist f) \<Rightarrow> abs_ledger l (call_key c)
      | _ \<Rightarrow> spec_next c (abs_ledger l (call_key c)))"
  by (cases e; cases c)
     (auto simp: error_of_def abs_ledger_def ledger_op_defs persist_records_cases Let_def abs_record_def
       StatusInProgress_def StatusCompleted_def Completed_def tombstone_record_def
       split: option.splits if_splits)

lemma abs_ledger_frame:
  "k \<noteq> call_key c \<Longrightarrow> abs_ledger (snd (run_call e c l)) k = abs_ledger l k"
  by (simp add: abs_ledger_def run_call_frame)

lemma run_call_abs:
  "abs_ledger (snd (run_call e c l)) =
     (case fst (run_call e c l) of
        Some (ErrPersist f) \<Rightarrow> abs_ledger l
      | _ \<Rightarrow> spec_call c (abs_ledger l))"
  by (rule ext)
     (auto simp: spec_call_def run_call_abs_key abs_ledger_frame split: option.splits state_err.splits)

lemma claim_hash_abs [simp]: "claim_hash (abs_record r) = rec_RequestHash r"
  by (simp add: abs_record_def)

lemma run_call_conflict:
  "fst (run_call e c l) = Some ErrRequestHashConflict \<longleftrightarrow>
     (\<exists>cl. abs_ledger l (call_key c) = Some cl \<and> claim_hash cl \<noteq> call_hash c)"
  by (cases e; cases c)
     (auto simp: error_of_def abs_ledger_def ledger_op_defs persist_records_cases Let_def
       split: option.splits if_splits)

lemma spec_next_Done: "spec_next c (Some (Done h res)) = Some (Done h res)"
  by (cases c) simp_all

lemma spec_next_hash: "v = Some cl \<Longrightarrow> \<exists>cl'. spec_next c v = Some cl' \<and> claim_hash cl' = claim_hash cl"
  by (cases cl; cases c) auto

text \<open>Runs of calls, each with its own clock reading and fault.\<close>

fun run_calls :: "((int \<times> wfault) \<times> ledger_call) list \<Rightarrow> Ledger \<Rightarrow> Ledger" where
  "run_calls [] l = l"
| "run_calls ((e, c) # cs) l = run_calls cs (snd (run_call e c l))"

lemma ledger_ok_run_calls: "ledger_ok l \<Longrightarrow> ledger_ok (run_calls cs l)"
  by (induction cs l rule: run_calls.induct) simp_all

lemma run_call_keeps_Done:
  "abs_ledger l k = Some (Done h res) \<Longrightarrow> abs_ledger (snd (run_call e c l)) k = Some (Done h res)"
  by (cases "k = call_key c")
     (auto simp: run_call_abs spec_call_def spec_next_Done split: option.splits state_err.splits)

lemma run_calls_keep_Done:
  "abs_ledger l k = Some (Done h res) \<Longrightarrow> abs_ledger (run_calls cs l) k = Some (Done h res)"
  by (induction cs l rule: run_calls.induct) (simp_all add: run_call_keeps_Done)

lemma run_call_keeps_hash:
  assumes "abs_ledger l k = Some cl"
  shows "\<exists>cl'. abs_ledger (snd (run_call e c l)) k = Some cl' \<and> claim_hash cl' = claim_hash cl"
  using assms spec_next_hash [of "abs_ledger l k" cl c]
  by (cases "k = call_key c")
     (auto simp: run_call_abs spec_call_def split: option.splits state_err.splits)

lemma run_calls_keep_hash:
  "abs_ledger l k = Some cl \<Longrightarrow>
     \<exists>cl'. abs_ledger (run_calls cs l) k = Some cl' \<and> claim_hash cl' = claim_hash cl"
proof (induction cs l arbitrary: cl rule: run_calls.induct)
  case (1 l)
  then show ?case by simp
next
  case (2 e c cs l)
  from run_call_keeps_hash [OF "2.prems"] obtain cl' where
    "abs_ledger (snd (run_call e c l)) k = Some cl'" and h: "claim_hash cl' = claim_hash cl"
    by blast
  from "2.IH" [OF this(1)] h show ?case by auto
qed

lemma Check_abs:
  "Check k h l = (case abs_ledger l k of
       None \<Rightarrow> Inr None
     | Some (Pending h') \<Rightarrow> if h' = h then Inr None else Inl ErrRequestHashConflict
     | Some (Done h' res) \<Rightarrow> if h' = h then Inr (Some res) else Inl ErrRequestHashConflict)"
  by (auto simp: Check_def Get_def abs_ledger_def abs_record_def split: option.splits)

section \<open>Durability\<close>

text \<open>Whatever restart finds is exactly the memory.\<close>

definition ledger_synced :: "Ledger \<Rightarrow> bool" where
  "ledger_synced l \<longleftrightarrow> (\<forall>m. reopens (ledger_file l) m \<longleftrightarrow> m = records l)"

definition abs_map :: "(string, Record) gomap \<Rightarrow> string \<Rightarrow> claim option" where
  "abs_map m k = map_option abs_record (mget m k)"

lemma abs_ledger_abs_map: "abs_ledger l = abs_map (records l)"
  by (rule ext) (simp add: abs_ledger_def abs_map_def)

text \<open>The record a call writes, if it writes at all, and the state it leaves.\<close>

fun written :: "int \<Rightarrow> ledger_call \<Rightarrow> Record option \<Rightarrow> Record option" where
  "written now (CBegin r) None = Some (r\<lparr>rec_Status := StatusInProgress, rec_Result := '''',
     rec_CreatedAt := now, rec_UpdatedAt := now\<rparr>)"
| "written now (CComplete k h res) None = None"
| "written now (CPut k m h res) None = Some (tombstone_record now k m h res)"
| "written now (CClaim k m h res) None = Some (tombstone_record now k m h res)"
| "written now (CBegin r) (Some old) = None"
| "written now (CClaim k m h res) (Some old) = None"
| "written now (CComplete k h res) (Some old) =
     (if rec_RequestHash old \<noteq> h \<or> Completed old then None
      else Some (old\<lparr>rec_Status := StatusCompleted, rec_Result := res, rec_UpdatedAt := now\<rparr>))"
| "written now (CPut k m h res) (Some old) =
     (if rec_RequestHash old \<noteq> h \<or> Completed old then None
      else Some (old\<lparr>rec_Status := StatusCompleted, rec_Result := res, rec_UpdatedAt := now\<rparr>))"

lemma run_call_silent:
  "written now c (mget (records l) (call_key c)) = None \<Longrightarrow> snd (run_call (now, flt) c l) = l"
  by (cases c; cases "mget (records l) (call_key c)") (auto simp: ledger_op_defs split: if_splits)

lemma run_call_write:
  "written now c (mget (records l) (call_key c)) = Some r \<Longrightarrow>
     ledger_file (snd (run_call (now, flt) c l)) =
       snd (persist_table flt (mset_at (call_key c) r (records l)) (ledger_file l)) \<and>
     (flt = NoFault \<longrightarrow> records (snd (run_call (now, flt) c l)) = mset_at (call_key c) r (records l)) \<and>
     fst (run_call (now, flt) c l) = (if flt = NoFault then None else Some (ErrPersist flt))"
  by (cases c; cases "mget (records l) (call_key c)")
     (auto simp: error_of_def ledger_op_defs persist_records_cases Let_def split: if_splits)

lemma written_abs:
  "written now c (mget (records l) (call_key c)) = Some r \<Longrightarrow>
     Some (abs_record r) = spec_next c (abs_ledger l (call_key c))"
  by (cases c; cases "mget (records l) (call_key c)")
     (auto simp: abs_ledger_def abs_record_def split: if_splits)

lemma abs_map_written:
  "Some (abs_record r) = spec_next c (abs_ledger l (call_key c)) \<Longrightarrow>
     abs_map (mset_at (call_key c) r (records l)) = spec_call c (abs_ledger l)"
  by (rule ext) (simp add: abs_map_def spec_call_def abs_ledger_def)

lemma run_call_success_synced:
  assumes "ledger_synced l" and "fst (run_call e c l) = None"
  shows "ledger_synced (snd (run_call e c l))"
proof (cases e)
  case (Pair now flt)
  show ?thesis
  proof (cases "written now c (mget (records l) (call_key c))")
    case None
    with assms(1) show ?thesis by (simp add: Pair run_call_silent)
  next
    case (Some r)
    note w = run_call_write [OF Some, of flt]
    with assms(2) have "flt = NoFault" by (auto simp: Pair split: if_splits)
    with w show ?thesis by (simp add: Pair ledger_synced_def reopens_after_ok)
  qed
qed

lemma run_call_reopen:
  assumes "ledger_ok l" and "ledger_synced l"
    and "reopens (ledger_file (snd (run_call e c l))) m"
  shows "abs_map m = abs_ledger l \<or> abs_map m = spec_call c (abs_ledger l)"
proof (cases e)
  case (Pair now flt)
  show ?thesis
  proof (cases "written now c (mget (records l) (call_key c))")
    case None
    with assms show ?thesis
      by (simp add: Pair run_call_silent ledger_synced_def abs_ledger_abs_map)
  next
    case (Some r)
    have "m = records l \<or> m = mset_at (call_key c) r (records l)"
      using assms reopens_after_any [of "ledger_file l" flt "mset_at (call_key c) r (records l)" m]
        run_call_write [OF Some, of flt]
      by (auto simp: Pair ledger_ok_def ledger_synced_def dest: file_ok_settled)
    with abs_map_written [OF written_abs [OF Some]] show ?thesis
      by (auto simp: abs_ledger_abs_map)
  qed
qed

text \<open>Every claim a client can see would survive a power loss, with the same request hash.\<close>

definition claims_durable :: "Ledger \<Rightarrow> bool" where
  "claims_durable l \<longleftrightarrow> (\<forall>k cl m. abs_ledger l k = Some cl \<longrightarrow> reopens (ledger_file l) m \<longrightarrow>
     (\<exists>cl'. abs_map m k = Some cl' \<and> claim_hash cl' = claim_hash cl))"

lemma claims_durable_synced: "ledger_synced l \<Longrightarrow> claims_durable l"
  by (simp add: claims_durable_def ledger_synced_def abs_ledger_abs_map)

lemma run_call_failed_abs:
  "fst (run_call e c l) = Some (ErrPersist f) \<Longrightarrow> abs_ledger (snd (run_call e c l)) = abs_ledger l"
  by (simp add: run_call_abs)

lemma claims_durable_run_call:
  assumes ok: "ledger_ok l" and dur: "claims_durable l"
  shows "claims_durable (snd (run_call e c l))"
proof (cases e)
  case (Pair now flt)
  show ?thesis
  proof (cases "written now c (mget (records l) (call_key c))")
    case None
    with dur show ?thesis by (simp add: Pair run_call_silent)
  next
    case (Some r)
    let ?t = "snd (run_call (now, flt) c l)" and ?new = "mset_at (call_key c) r (records l)"
    note w = run_call_write [OF Some, of flt]
    show ?thesis
    proof (cases "flt = NoFault")
      case True
      with w have "ledger_synced ?t" by (simp add: ledger_synced_def reopens_after_ok)
      then show ?thesis by (simp add: Pair claims_durable_synced)
    next
      case False
      then have view: "abs_ledger ?t = abs_ledger l" using w run_call_failed_abs by simp
      have new: "abs_map ?new = spec_call c (abs_ledger l)"
        by (rule abs_map_written [OF written_abs [OF Some]])
      have "\<exists>cl'. abs_map m k = Some cl' \<and> claim_hash cl' = claim_hash cl"
        if k: "abs_ledger l k = Some cl" and m: "reopens (ledger_file ?t) m" for k cl m
      proof -
        have "reopens (ledger_file l) m \<or> m = ?new"
          using m w ok reopens_after_any [of "ledger_file l" flt ?new m]
          by (auto simp: ledger_ok_def dest: file_ok_settled)
        then show ?thesis
          using k dur new spec_next_hash [OF k, of c] by (auto simp: claims_durable_def spec_call_def)
      qed
      with view show ?thesis by (simp add: Pair claims_durable_def)
    qed
  qed
qed

lemma claims_durable_power_loss:
  assumes "read_inode i = [r]" and "Open r (settle i) = Inr l"
  shows "claims_durable l"
proof -
  have "open_table r = Inr (records l)" and "ledger_file l = settle i"
    using assms by (auto simp: Open_def split: sum.splits)
  then have "ledger_synced l" using assms(1) by (auto simp: ledger_synced_def reopens_def crash_outcomes_def settle_def)
  then show ?thesis by (rule claims_durable_synced)
qed

section \<open>The interface the mutation protocol relies on\<close>

text \<open>
  A store of claims: what a replay check sees after claiming and completing, and that a
  rejected or failed call changes nothing a client can observe.
\<close>

locale claim_store =
  fixes view :: "'s \<Rightarrow> string \<Rightarrow> claim option"
    and check :: "string \<Rightarrow> string \<Rightarrow> 's \<Rightarrow> state_err + string option"
    and step :: "int \<times> wfault \<Rightarrow> ledger_call \<Rightarrow> 's \<Rightarrow> state_err option \<times> 's"
  assumes check_view: "check k h s = (case view s k of
       None \<Rightarrow> Inr None
     | Some (Pending h') \<Rightarrow> if h' = h then Inr None else Inl ErrRequestHashConflict
     | Some (Done h' res) \<Rightarrow> if h' = h then Inr (Some res) else Inl ErrRequestHashConflict)"
    and step_view: "view (snd (step e c s)) =
     (case fst (step e c s) of Some (ErrPersist f) \<Rightarrow> view s | _ \<Rightarrow> spec_call c (view s))"
    and step_conflict: "fst (step e c s) = Some ErrRequestHashConflict \<longleftrightarrow>
     (\<exists>cl. view s (call_key c) = Some cl \<and> claim_hash cl \<noteq> call_hash c)"
begin

text \<open>A claim that was granted and then completed is replayed with its result.\<close>

lemma claim_complete_check:
  assumes "step e1 (CBegin r) s = (None, s1)" and "view s (rec_OperationID r) = None"
    and "step e2 (CComplete (rec_OperationID r) (rec_RequestHash r) res) s1 = (None, s2)"
  shows "check (rec_OperationID r) (rec_RequestHash r) s2 = Inr (Some res)"
proof -
  have "view s1 (rec_OperationID r) = Some (Pending (rec_RequestHash r))"
    using step_view [of e1 "CBegin r" s] assms(1,2) by (simp add: spec_call_def)
  then have "view s2 (rec_OperationID r) = Some (Done (rec_RequestHash r) res)"
    using step_view [of e2 "CComplete (rec_OperationID r) (rec_RequestHash r) res" s1] assms(3)
    by (simp add: spec_call_def)
  then show ?thesis by (simp add: check_view)
qed

text \<open>No call changes what a completed operation replays, failed writes included.\<close>

lemma replay_stable:
  assumes "check k h s = Inr (Some res)"
  shows "check k h (snd (step e c s)) = Inr (Some res)"
proof -
  have v: "view s k = Some (Done h res)"
    using assms by (auto simp: check_view split: option.splits claim.splits if_splits)
  have "view (snd (step e c s)) k = Some (Done h res)"
    using v spec_next_Done [of c h res]
    by (auto simp: step_view spec_call_def split: option.splits state_err.splits)
  then show ?thesis by (simp add: check_view)
qed

text \<open>A conflicting request leaves the whole view unchanged.\<close>

lemma conflict_no_effect:
  assumes "fst (step e c s) = Some ErrRequestHashConflict"
  shows "view (snd (step e c s)) = view s"
proof -
  obtain cl where v: "view s (call_key c) = Some cl" and h: "claim_hash cl \<noteq> call_hash c"
    using assms step_conflict by blast
  have "spec_next c (Some cl) = Some cl"
    using h by (cases c; cases cl) auto
  with v show ?thesis
    using step_view [of e c s] assms by (auto simp: spec_call_def fun_eq_iff)
qed

end

interpretation led: claim_store abs_ledger Check run_call
  by unfold_locales (simp_all add: Check_abs run_call_abs run_call_conflict)

section \<open>Properties\<close>

text \<open>
  Claim C26. Refinement: every writing call of the ledger (\<open>Begin\<close>, \<open>Complete\<close>, \<open>Put\<close>,
  \<open>Claim\<close>) acts on the abstract claim table exactly as its specification step, unless the
  file write failed, and then the table is unchanged (the in-memory rollback); a hash
  conflict is reported exactly when the id is held by a different request.
\<close>

theorem ledger_calls_refine_spec:
  "abs_ledger (snd (run_call e c l)) =
     (case fst (run_call e c l) of Some (ErrPersist f) \<Rightarrow> abs_ledger l | _ \<Rightarrow> spec_call c (abs_ledger l)) \<and>
   (fst (run_call e c l) = Some ErrRequestHashConflict \<longleftrightarrow>
     (\<exists>cl. abs_ledger l (call_key c) = Some cl \<and> claim_hash cl \<noteq> call_hash c))"
  by (simp add: run_call_abs run_call_conflict)

text \<open>
  A completed operation is replayed with the same result for ever: along any
  sequence of writing calls, with any clock readings and any failed file writes, \<open>Check\<close>
  keeps answering the recorded result, and the invariant of the ledger holds.
\<close>

lemma ledger_replay_stable:
  assumes "ledger_ok l" and "Check k h l = Inr (Some res)"
  shows "Check k h (run_calls cs l) = Inr (Some res) \<and> ledger_ok (run_calls cs l)"
  using assms
  by (induction cs l rule: run_calls.induct) (simp_all add: led.replay_stable)

definition demo_ledger :: Ledger where
  "demo_ledger = snd (Put 5 NoFault ''op1'' ''m1'' ''h1'' ''res'' empty_ledger)"

lemma demo_ledger_facts: "ledger_ok demo_ledger" "Check ''op1'' ''h1'' demo_ledger = Inr (Some ''res'')"
  "ledger_synced demo_ledger"
proof -
  show "ledger_ok demo_ledger" by (simp add: demo_ledger_def)
  show "Check ''op1'' ''h1'' demo_ledger = Inr (Some ''res'')"
    by (simp add: demo_ledger_def Put_def empty_ledger_def persist_records_cases Check_def Get_def)
  show "ledger_synced demo_ledger"
    by (simp add: demo_ledger_def Put_def empty_ledger_def persist_records_cases ledger_synced_def
        reopens_after_ok)
qed

lemma ledger_replay_stable_witness:
  "Check ''op1'' ''h1''
     (run_calls [((6, FSyncDir), CPut ''op1'' ''m1'' ''h1'' ''other''),
                 ((7, NoFault), CComplete ''op1'' ''h1'' ''late'')] demo_ledger) = Inr (Some ''res'')"
  using ledger_replay_stable [OF demo_ledger_facts(1,2)] by blast

text \<open>
  Crash atomicity of the ledger: if the process dies during or after any writing
  call, whatever file write failed, the reopened ledger shows the table from before the
  call or the table after its complete execution, and after a call that reported success
  only the latter.
\<close>

lemma ledger_crash_atomic:
  assumes "ledger_ok l" and "ledger_synced l"
    and "reopens (ledger_file (snd (run_call e c l))) m"
  shows "(abs_map m = abs_ledger l \<or> abs_map m = spec_call c (abs_ledger l)) \<and>
         (fst (run_call e c l) = None \<longrightarrow> abs_map m = spec_call c (abs_ledger l))"
proof -
  have "abs_map m = spec_call c (abs_ledger l)" if ok: "fst (run_call e c l) = None"
    using run_call_success_synced [OF assms(2) ok] assms(3) run_call_abs [of e c l] ok
    by (simp add: ledger_synced_def abs_ledger_abs_map)
  with run_call_reopen [OF assms] show ?thesis by blast
qed

lemma ledger_crash_atomic_witness:
  "\<exists>m. reopens (ledger_file (snd (run_call (9, FSyncDir) (CClaim ''op2'' ''m1'' ''h2'' ''x'') demo_ledger))) m \<and>
     (abs_map m = abs_ledger demo_ledger \<or>
      abs_map m = spec_call (CClaim ''op2'' ''m1'' ''h2'' ''x'') (abs_ledger demo_ledger))"
proof -
  let ?m = "records demo_ledger"
  have "reopens (ledger_file (snd (run_call (9, FSyncDir) (CClaim ''op2'' ''m1'' ''h2'' ''x'') demo_ledger))) ?m"
    by (simp add: demo_ledger_def Put_def Claim_def empty_ledger_def persist_records_def persist_table_def
        write_defs reopens_def crash_outcomes_def read_inode_def fresh_fs_def)
  from this ledger_crash_atomic [OF demo_ledger_facts(1,3) this] show ?thesis by blast
qed

text \<open>
  \<open>PruneMachineExcept\<close> forgets exactly the other operations of the machine: the
  kept operation and every other machine's operations answer as before, and the machine's
  remaining operations become unknown, also when the file write fails.
\<close>

lemma PruneMachineExcept_exact:
  assumes "ledger_ok l"
  shows "mget (records (snd (PruneMachineExcept flt machineID keepID l))) k =
     (case mget (records l) k of
        None \<Rightarrow> None
      | Some r \<Rightarrow> if machineID \<noteq> '''' \<and> rec_MachineID r = machineID \<and> k \<noteq> keepID then None else Some r)"
  using prune_records_lookup [OF assms]
  by (auto simp: PruneMachineExcept_def split: option.splits)

lemma PruneMachineExcept_exact_witness:
  "mget (records (snd (PruneMachineExcept NoFault ''m1'' ''op9'' demo_ledger))) ''op1'' = None"
  unfolding PruneMachineExcept_exact [OF demo_ledger_facts(1)]
  by (simp add: demo_ledger_def Put_def empty_ledger_def persist_records_cases)

end
