(* ===== verification/Fences.thy ===== *)
theory Fences
  imports Ledger
begin

text \<open>
  The per-machine generation high-water marks of \<open>internal/agent/state/fences.go\<close>.
  \<open>Check\<close> rejects a request older than the mark, \<open>Advance\<close> raises the mark after a
  successful change and rolls the memory back when the file write fails.
\<close>

section \<open>State and operations\<close>

record FenceEntry =
  MaxGeneration :: u64
  LastExecutionID :: string
  fence_UpdatedAt :: int

record Fences =
  fence_entries :: "(string, FenceEntry) gomap"
  fence_file :: "(string, FenceEntry) gomap fs"

definition OpenFences :: "(string, FenceEntry) gomap readback \<Rightarrow> (string, FenceEntry) gomap fs \<Rightarrow> open_err + Fences" where
  "OpenFences r f = (case open_table r of Inl e \<Rightarrow> Inl e | Inr m \<Rightarrow> Inr \<lparr>fence_entries = m, fence_file = f\<rparr>)"

definition persist_fences :: "wfault \<Rightarrow> Fences \<Rightarrow> (wfault + unit) \<times> Fences" where
  "persist_fences flt f =
     (let (r, file) = persist_table flt (fence_entries f) (fence_file f) in (r, f\<lparr>fence_file := file\<rparr>))"

definition fence_check :: "string \<Rightarrow> u64 \<Rightarrow> Fences \<Rightarrow> state_err + unit" where
  "fence_check machineID generation f =
     (case mget (fence_entries f) machineID of
        Some e \<Rightarrow> if generation < MaxGeneration e
                  then Inl (ErrStaleGeneration machineID (MaxGeneration e) generation) else Inr ()
      | None \<Rightarrow> Inr ())"

definition Advance :: "int \<Rightarrow> wfault \<Rightarrow> string \<Rightarrow> u64 \<Rightarrow> string \<Rightarrow> (Fences, state_err, unit) act" where
  "Advance now flt machineID generation executionID f =
     (let old = mget (fence_entries f) machineID in
      case old of
        Some e \<Rightarrow>
          if generation < MaxGeneration e then (Inr (), f)
          else if generation = MaxGeneration e then
            (let e' = e\<lparr>LastExecutionID := executionID, fence_UpdatedAt := now\<rparr>;
                 f1 = f\<lparr>fence_entries := mset_at machineID e' (fence_entries f)\<rparr>
             in case persist_fences flt f1 of
                  (Inl x, f2) \<Rightarrow> (Inl (ErrPersist x), f2\<lparr>fence_entries := mset_at machineID e (fence_entries f2)\<rparr>)
                | (Inr _, f2) \<Rightarrow> (Inr (), f2))
          else
            (let e' = \<lparr>MaxGeneration = generation, LastExecutionID = executionID, fence_UpdatedAt = now\<rparr>;
                 f1 = f\<lparr>fence_entries := mset_at machineID e' (fence_entries f)\<rparr>
             in case persist_fences flt f1 of
                  (Inl x, f2) \<Rightarrow> (Inl (ErrPersist x), f2\<lparr>fence_entries := mset_at machineID e (fence_entries f2)\<rparr>)
                | (Inr _, f2) \<Rightarrow> (Inr (), f2))
      | None \<Rightarrow>
          (let e' = \<lparr>MaxGeneration = generation, LastExecutionID = executionID, fence_UpdatedAt = now\<rparr>;
               f1 = f\<lparr>fence_entries := mset_at machineID e' (fence_entries f)\<rparr>
           in case persist_fences flt f1 of
                (Inl x, f2) \<Rightarrow> (Inl (ErrPersist x), f2\<lparr>fence_entries := mdel machineID (fence_entries f2)\<rparr>)
              | (Inr _, f2) \<Rightarrow> (Inr (), f2)))"

definition PruneBeforeUnlessLive :: "wfault \<Rightarrow> int \<Rightarrow> (string \<Rightarrow> bool) option \<Rightarrow> Fences \<Rightarrow>
    (nat \<times> wfault option) \<times> Fences" where
  "PruneBeforeUnlessLive flt cutoff live f =
     (let kept = mkeep (\<lambda>k e. (case live of None \<Rightarrow> False | Some p \<Rightarrow> p k) \<or> \<not> fence_UpdatedAt e < cutoff)
                       (fence_entries f);
          removed = length (fence_entries f) - length kept
      in if removed = 0 then ((0, None), f)
         else case persist_fences flt (f\<lparr>fence_entries := kept\<rparr>) of
                (Inl x, f2) \<Rightarrow> ((removed, Some x), f2)
              | (Inr _, f2) \<Rightarrow> ((removed, None), f2))"

definition fences_PruneBefore :: "wfault \<Rightarrow> int \<Rightarrow> Fences \<Rightarrow> (nat \<times> wfault option) \<times> Fences" where
  "fences_PruneBefore flt cutoff f = PruneBeforeUnlessLive flt cutoff None f"

section \<open>Invariant and the high-water mark\<close>

definition fences_ok :: "Fences \<Rightarrow> bool" where
  "fences_ok f \<longleftrightarrow> gomap_ok (fence_entries f) \<and> file_ok gomap_ok (fence_file f)"

definition empty_fences :: Fences where
  "empty_fences = \<lparr>fence_entries = [], fence_file = fresh_fs\<rparr>"

text \<open>The mark of a machine; an unknown machine accepts every generation, like mark 0.\<close>

definition map_mark :: "(string, FenceEntry) gomap \<Rightarrow> string \<Rightarrow> u64" where
  "map_mark m k = (case mget m k of None \<Rightarrow> 0 | Some e \<Rightarrow> MaxGeneration e)"

definition mark :: "Fences \<Rightarrow> string \<Rightarrow> u64" where
  "mark f k = map_mark (fence_entries f) k"

lemma fences_ok_empty [simp]: "fences_ok empty_fences"
  by (simp add: fences_ok_def empty_fences_def)

lemma persist_fences_cases:
  "persist_fences flt f =
     ((if flt = NoFault then Inr () else Inl flt),
      f\<lparr>fence_file := snd (persist_table flt (fence_entries f) (fence_file f))\<rparr>)"
  by (simp add: persist_fences_def split_beta persist_result)

lemma fences_ok_Advance [simp]: "fences_ok f \<Longrightarrow> fences_ok (snd (Advance now flt m g x f))"
  by (auto simp: fences_ok_def Advance_def persist_fences_cases Let_def split: option.splits)

lemma fences_ok_Prune [simp]: "fences_ok f \<Longrightarrow> fences_ok (snd (PruneBeforeUnlessLive flt t live f))"
  by (auto simp: fences_ok_def PruneBeforeUnlessLive_def persist_fences_cases Let_def)

lemma fence_check_mark: "fence_check m g f = (if g < mark f m then Inl (ErrStaleGeneration m (mark f m) g) else Inr ())"
  by (auto simp: fence_check_def mark_def map_mark_def split: option.splits)

lemma Advance_mark:
  "mark (snd (Advance now flt m g x f)) k =
     (if k = m \<and> fst (Advance now flt m g x f) = Inr () then max (mark f m) g else mark f k)"
  by (auto simp: Advance_def mark_def map_mark_def persist_fences_cases Let_def max_def
      split: option.splits)

lemma Advance_result:
  "fst (Advance now flt m g x f) =
     (if flt = NoFault \<or> g < mark f m then Inr () else Inl (ErrPersist flt))"
  by (auto simp: Advance_def mark_def map_mark_def persist_fences_cases Let_def split: option.splits)

lemma Advance_mark_mono: "mark f k \<le> mark (snd (Advance now flt m g x f)) k"
  by (simp add: Advance_mark)

lemma prune_keeps_live:
  assumes "fences_ok f" and "live k"
  shows "mget (fence_entries (snd (PruneBeforeUnlessLive flt t (Some live) f))) k = mget (fence_entries f) k"
  using assms
  by (auto simp: PruneBeforeUnlessLive_def Let_def persist_fences_cases fences_ok_def mget_mkeep
      split: option.splits)

section \<open>Durability\<close>

definition fences_synced :: "Fences \<Rightarrow> bool" where
  "fences_synced f \<longleftrightarrow> (\<forall>m. reopens (fence_file f) m \<longleftrightarrow> m = fence_entries f)"

lemma Advance_file:
  "fence_file (snd (Advance now flt m g x f)) =
     (if g < mark f m then fence_file f
      else snd (persist_table flt (fence_entries (snd (Advance now NoFault m g x f))) (fence_file f)))"
  by (auto simp: Advance_def mark_def map_mark_def persist_fences_cases Let_def split: option.splits)

lemma Advance_noop: "g < mark f m \<Longrightarrow> Advance now flt m g x f = (Inr (), f)"
  by (auto simp: Advance_def mark_def map_mark_def Let_def split: option.splits)

lemma Advance_synced:
  assumes "fences_synced f" and "fst (Advance now flt m g x f) = Inr ()"
  shows "fences_synced (snd (Advance now flt m g x f))"
proof (cases "g < mark f m")
  case True
  with assms(1) show ?thesis by (simp add: Advance_noop)
next
  case False
  with assms(2) have "flt = NoFault" by (simp add: Advance_result split: if_splits)
  with False show ?thesis by (simp add: fences_synced_def Advance_file reopens_after_ok)
qed

lemma Advance_reopen_mark:
  assumes "fences_ok f" and "fences_synced f"
    and "reopens (fence_file (snd (Advance now flt m g x f))) es"
  shows "mark f k \<le> map_mark es k"
proof (cases "g < mark f m")
  case True
  with assms show ?thesis by (simp add: Advance_noop fences_synced_def mark_def)
next
  case False
  let ?n = "snd (Advance now NoFault m g x f)"
  have "es = fence_entries f \<or> es = fence_entries ?n"
    using assms False reopens_after_any [of "fence_file f" flt "fence_entries ?n" es]
    by (auto simp: Advance_file fences_ok_def fences_synced_def dest: file_ok_settled)
  then show ?thesis
    using Advance_mark_mono [of f k now NoFault m g x] by (auto simp: mark_def)
qed

text \<open>A generation the machine's mark will never fall below: it is reached in memory and in
  every content a restart may find.\<close>

definition pinned :: "string \<Rightarrow> u64 \<Rightarrow> Fences \<Rightarrow> bool" where
  "pinned k g f \<longleftrightarrow> g \<le> mark f k \<and> (\<forall>es. reopens (fence_file f) es \<longrightarrow> g \<le> map_mark es k)"

lemma pinned_mark: "pinned k g f \<Longrightarrow> g \<le> mark f k"
  by (simp add: pinned_def)

lemma pinned_Advance:
  assumes "fences_ok f" and "pinned k h f"
  shows "pinned k h (snd (Advance now flt m g x f))"
proof (cases "g < mark f m")
  case True
  with assms show ?thesis by (simp add: Advance_noop)
next
  case False
  let ?n = "snd (Advance now NoFault m g x f)"
  have new: "h \<le> map_mark (fence_entries ?n) k"
    using assms(2) Advance_mark_mono [of f k now NoFault m g x] by (auto simp: pinned_def mark_def)
  have "h \<le> map_mark es k" if "reopens (fence_file (snd (Advance now flt m g x f))) es" for es
    using that False assms reopens_after_any [of "fence_file f" flt "fence_entries ?n" es] new
    by (auto simp: Advance_file fences_ok_def pinned_def dest: file_ok_settled)
  then show ?thesis
    using assms(2) Advance_mark_mono [of f k now flt m g x] by (auto simp: pinned_def)
qed

lemma Advance_pins:
  assumes "mark f m \<le> g" and "fst (Advance now flt m g x f) = Inr ()"
  shows "pinned m g (snd (Advance now flt m g x f))"
proof -
  have flt: "flt = NoFault" using assms by (auto simp: Advance_result split: if_splits)
  have "g \<le> mark (snd (Advance now flt m g x f)) m" using assms by (simp add: Advance_mark)
  with assms(1) show ?thesis by (auto simp: pinned_def Advance_file flt reopens_after_ok mark_def)
qed

section \<open>The interface the mutation protocol relies on\<close>

text \<open>
  A fence: checking compares with the mark, advancing raises the mark of one machine or
  reports an error and leaves every mark as it was.
\<close>

locale fence_store =
  fixes mark_of :: "'s \<Rightarrow> string \<Rightarrow> u64"
    and check :: "string \<Rightarrow> u64 \<Rightarrow> 's \<Rightarrow> state_err + unit"
    and advance :: "int \<Rightarrow> wfault \<Rightarrow> string \<Rightarrow> u64 \<Rightarrow> string \<Rightarrow> 's \<Rightarrow> (state_err + unit) \<times> 's"
  assumes check_iff: "check m g s = Inr () \<longleftrightarrow> mark_of s m \<le> g"
    and advance_mark: "mark_of (snd (advance now flt m g x s)) k =
      (if k = m \<and> fst (advance now flt m g x s) = Inr () then max (mark_of s m) g else mark_of s k)"
begin

lemma advance_mono: "mark_of s k \<le> mark_of (snd (advance now flt m g x s)) k"
  by (simp add: advance_mark)

lemma advanced_rejects_older:
  assumes "fst (advance now flt m g x s) = Inr ()" and "g' < g"
  shows "check m g' (snd (advance now flt m g x s)) \<noteq> Inr ()"
  using assms by (simp add: check_iff advance_mark not_le)

text \<open>
  One guarded change: check, run it, advance. The result says whether the change was
  accepted and committed.
\<close>

definition fenced_change :: "int \<Rightarrow> wfault \<Rightarrow> string \<Rightarrow> string \<Rightarrow> u64 \<Rightarrow> 's \<Rightarrow> bool \<times> 's" where
  "fenced_change now flt x m g s =
     (if check m g s = Inr ()
      then (let (r, s') = advance now flt m g x s in (r = Inr (), s')) else (False, s))"

lemma fenced_change_accepts:
  "fst (fenced_change now flt x m g s) \<Longrightarrow> mark_of s m \<le> g \<and> mark_of (snd (fenced_change now flt x m g s)) m = g"
  by (auto simp: fenced_change_def check_iff split_beta Let_def advance_mark max_def split: if_splits)

lemma fenced_change_mono: "mark_of s k \<le> mark_of (snd (fenced_change now flt x m g s)) k"
  by (simp add: fenced_change_def split_beta Let_def advance_mark)

text \<open>The generations committed for machine \<open>m\<close> along a list of requests.\<close>

fun committed :: "(int \<times> wfault \<times> string \<times> string \<times> u64) list \<Rightarrow> string \<Rightarrow> 's \<Rightarrow> u64 list" where
  "committed [] m s = []"
| "committed ((now, flt, x, k, g) # rs) m s =
     (let (ok, s') = fenced_change now flt x k g s
      in if ok \<and> k = m then g # committed rs m s' else committed rs m s')"

lemma committed_sorted: "sorted (committed rs m s) \<and> (\<forall>g \<in> set (committed rs m s). mark_of s m \<le> g)"
proof (induction rs m s rule: committed.induct)
  case (1 m s)
  then show ?case by simp
next
  case (2 now flt x k g rs m s)
  let ?c = "fenced_change now flt x k g s"
  have IH: "sorted (committed rs m (snd ?c)) \<and>
      (\<forall>g' \<in> set (committed rs m (snd ?c)). mark_of (snd ?c) m \<le> g')"
    using "2.IH" by (metis prod.collapse)
  have mono: "mark_of s m \<le> mark_of (snd ?c) m" by (rule fenced_change_mono)
  show ?case
  proof (cases "fst ?c \<and> k = m")
    case True
    with fenced_change_accepts [of now flt x k g s]
    have "mark_of s m \<le> g" and "mark_of (snd ?c) m = g" by auto
    with IH mono True show ?thesis by (force simp: split_beta Let_def)
  next
    case False
    with IH mono show ?thesis by (force simp: split_beta Let_def)
  qed
qed

end

interpretation fen: fence_store mark fence_check Advance
  by unfold_locales (auto simp: fence_check_mark Advance_mark)

section \<open>Properties\<close>

text \<open>The guarded change of the source: check the fence, then advance it.\<close>

definition fence_guarded :: "int \<Rightarrow> wfault \<Rightarrow> string \<Rightarrow> string \<Rightarrow> u64 \<Rightarrow> Fences \<Rightarrow> bool \<times> Fences" where
  "fence_guarded now flt x m g f =
     (case fence_check m g f of
        Inl _ \<Rightarrow> (False, f)
      | Inr _ \<Rightarrow> (case Advance now flt m g x f of (Inl _, f') \<Rightarrow> (False, f') | (Inr _, f') \<Rightarrow> (True, f')))"

fun accepted_generations :: "(int \<times> wfault \<times> string \<times> string \<times> u64) list \<Rightarrow> string \<Rightarrow> Fences \<Rightarrow> u64 list" where
  "accepted_generations [] m f = []"
| "accepted_generations ((now, flt, x, k, g) # rs) m f =
     (let (ok, f') = fence_guarded now flt x k g f
      in if ok \<and> k = m then g # accepted_generations rs m f' else accepted_generations rs m f')"

lemma fence_guarded_fenced_change: "fence_guarded now flt x m g f = fen.fenced_change now flt x m g f"
  by (cases "Advance now flt m g x f")
     (auto simp: fence_guarded_def fen.fenced_change_def split: sum.splits)

lemma accepted_generations_committed: "accepted_generations rs m f = fen.committed rs m f"
  by (induction rs m f rule: accepted_generations.induct)
     (auto simp: fence_guarded_fenced_change split: prod.splits)

text \<open>
  The fence linearises generations: along any interleaving of requests for any
  machines, with any failing file writes, the generations committed for one machine never
  decrease and are never older than the mark the run started from.
\<close>

lemma fence_generations_sorted:
  "sorted (accepted_generations rs m f) \<and>
   list_all (\<lambda>g. mark f m \<le> g) (accepted_generations rs m f)"
  using fen.committed_sorted [of rs m f] by (simp add: accepted_generations_committed list_all_iff)

text \<open>
  After a successful \<open>Advance\<close> every later check of an older generation of that
  machine is refused, also after any further advances and after the garbage collection of
  the fences as long as the machine is live.
\<close>

lemma fence_rejects_stale:
  assumes "fences_ok f" and "fst (Advance now flt m g x f) = Inr ()" and "g' < g" and "live m"
  shows "fence_check m g' (snd (PruneBeforeUnlessLive flt2 t (Some live)
           (snd (Advance now2 flt3 m2 g2 x2 (snd (Advance now flt m g x f))))))
         = Inl (ErrStaleGeneration m
             (mark (snd (Advance now2 flt3 m2 g2 x2 (snd (Advance now flt m g x f)))) m) g')"
proof -
  let ?f1 = "snd (Advance now flt m g x f)"
  let ?f2 = "snd (Advance now2 flt3 m2 g2 x2 ?f1)"
  have "g \<le> mark ?f1 m" using assms(2) by (simp add: Advance_mark)
  also have "mark ?f1 m \<le> mark ?f2 m" by (rule Advance_mark_mono)
  finally have lt: "g' < mark ?f2 m" using assms(3) by simp
  have "mget (fence_entries (snd (PruneBeforeUnlessLive flt2 t (Some live) ?f2))) m = mget (fence_entries ?f2) m"
    using assms(1,4) by (simp add: prune_keeps_live)
  then have "mark (snd (PruneBeforeUnlessLive flt2 t (Some live) ?f2)) m = mark ?f2 m"
    by (simp add: mark_def map_mark_def)
  with lt show ?thesis by (simp add: fence_check_mark)
qed

lemma fence_rejects_stale_witness:
  "fence_check ''m1'' 2 (snd (PruneBeforeUnlessLive NoFault 100 (Some (\<lambda>_. True))
      (snd (Advance 8 FRename ''m1'' 9 ''e2'' (snd (Advance 7 NoFault ''m1'' 5 ''e1'' empty_fences))))))
   = Inl (ErrStaleGeneration ''m1'' 5 2)"
proof -
  have ok: "fst (Advance 7 NoFault ''m1'' 5 ''e1'' empty_fences) = Inr ()"
    by (simp add: Advance_result)
  have mk: "mark (snd (Advance 8 FRename ''m1'' 9 ''e2'' (snd (Advance 7 NoFault ''m1'' 5 ''e1'' empty_fences)))) ''m1'' = 5"
    by (simp add: Advance_mark Advance_result) (simp add: mark_def map_mark_def empty_fences_def)
  show ?thesis
    using fence_rejects_stale [OF fences_ok_empty ok, of 2 "\<lambda>_. True" NoFault 100 8 FRename "''m1''" 9 "''e2''"] mk
    by simp
qed

text \<open>
  The mark survives crashes: after \<open>Advance\<close> with any file fault, every restart
  finds a mark at least as high as before for every machine; and after a successful
  \<open>Advance\<close> at least as high as the generation advanced to.
\<close>

lemma fence_crash_monotone:
  assumes "fences_ok f" and "fences_synced f"
    and "reopens (fence_file (snd (Advance now flt m g x f))) es"
  shows "mark f k \<le> map_mark es k \<and> (fst (Advance now flt m g x f) = Inr () \<longrightarrow> g \<le> map_mark es m)"
proof -
  have "g \<le> map_mark es m" if ok: "fst (Advance now flt m g x f) = Inr ()"
  proof -
    have "es = fence_entries (snd (Advance now flt m g x f))"
      using Advance_synced [OF assms(2) ok] assms(3) by (simp add: fences_synced_def)
    then have "map_mark es m = mark (snd (Advance now flt m g x f)) m" by (simp add: mark_def)
    with ok show ?thesis by (simp add: Advance_mark)
  qed
  with Advance_reopen_mark [OF assms] show ?thesis by blast
qed

lemma empty_fences_synced: "fences_synced empty_fences"
  by (simp add: fences_synced_def empty_fences_def reopens_def crash_outcomes_def read_inode_def fresh_fs_def)
     auto

lemma fence_crash_monotone_witness:
  "reopens (fence_file (snd (Advance 7 NoFault ''m1'' 5 ''e1'' empty_fences)))
     (fence_entries (snd (Advance 7 NoFault ''m1'' 5 ''e1'' empty_fences))) \<and>
   5 \<le> map_mark (fence_entries (snd (Advance 7 NoFault ''m1'' 5 ''e1'' empty_fences))) ''m1''"
proof -
  have ok: "fst (Advance 7 NoFault ''m1'' 5 ''e1'' empty_fences) = Inr ()"
    by (simp add: Advance_result)
  have re: "reopens (fence_file (snd (Advance 7 NoFault ''m1'' 5 ''e1'' empty_fences)))
     (fence_entries (snd (Advance 7 NoFault ''m1'' 5 ''e1'' empty_fences)))"
    using Advance_synced [OF empty_fences_synced ok] by (simp add: fences_synced_def)
  from re fence_crash_monotone [OF fences_ok_empty empty_fences_synced re] ok show ?thesis by blast
qed

end
