(* ===== verification/Creds.thy ===== *)
theory Creds
  imports Ledger
begin

text \<open>
  Proxy credential digests (\<open>internal/agent/state/creds.go\<close>): a durable map from machine
  to the execution it is bound to and the hex digest of its credential. The hash function
  is a parameter \<open>sha256\<close> of the operations that use it; bytes are characters.
\<close>

section \<open>Hexadecimal\<close>

definition hex_digit :: "nat \<Rightarrow> char" where
  "hex_digit d = (if d < 10 then char_of (48 + d) else char_of (87 + d))"

definition hex_EncodeToString :: "string \<Rightarrow> string" where
  "hex_EncodeToString bs =
     concat (map (\<lambda>c. [hex_digit (of_char c div 16), hex_digit (of_char c mod 16)]) bs)"

definition from_hex_char :: "char \<Rightarrow> nat option" where
  "from_hex_char c =
     (let n = (of_char c :: nat) in
      if 48 \<le> n \<and> n \<le> 57 then Some (n - 48)
      else if 97 \<le> n \<and> n \<le> 102 then Some (n - 87)
      else if 65 \<le> n \<and> n \<le> 70 then Some (n - 55)
      else None)"

fun hex_DecodeString :: "string \<Rightarrow> string option" where
  "hex_DecodeString [] = Some []"
| "hex_DecodeString [c] = None"
| "hex_DecodeString (a # b # cs) =
     (case (from_hex_char a, from_hex_char b) of
        (Some x, Some y) \<Rightarrow> map_option (\<lambda>r. char_of (16 * x + y) # r) (hex_DecodeString cs)
      | _ \<Rightarrow> None)"

lemma from_hex_digit: "d < 16 \<Longrightarrow> from_hex_char (hex_digit d) = Some d"
  by (auto simp: from_hex_char_def hex_digit_def Let_def)

lemma hex_roundtrip [simp]: "hex_DecodeString (hex_EncodeToString bs) = Some bs"
proof (induction bs)
  case Nil
  then show ?case by (simp add: hex_EncodeToString_def)
next
  case (Cons c bs)
  have c: "(of_char c :: nat) < 256"
    using nat_of_char_less_256 [of c] .
  have e: "hex_EncodeToString (c # bs) =
      hex_digit (of_char c div 16) # hex_digit (of_char c mod 16) # hex_EncodeToString bs"
    by (simp add: hex_EncodeToString_def)
  have "of_char c div 16 < (16::nat)" using c by linarith
  then show ?case
    using Cons.IH by (simp add: e from_hex_digit)
qed

section \<open>State and operations\<close>

record CredEntry =
  cred_ExecutionID :: string
  cred_Digest :: string
  cred_UpdatedAt :: int

record Creds =
  cred_entries :: "(string, CredEntry) gomap"
  cred_file :: "(string, CredEntry) gomap fs"

definition OpenCreds :: "(string, CredEntry) gomap readback \<Rightarrow> (string, CredEntry) gomap fs \<Rightarrow> open_err + Creds" where
  "OpenCreds r f = (case open_table r of Inl e \<Rightarrow> Inl e | Inr m \<Rightarrow> Inr \<lparr>cred_entries = m, cred_file = f\<rparr>)"

definition Digest :: "(string \<Rightarrow> string) \<Rightarrow> string \<Rightarrow> string" where
  "Digest sha256 raw = hex_EncodeToString (sha256 raw)"

definition persist_creds :: "wfault \<Rightarrow> (Creds, state_err, unit) act" where
  "persist_creds flt c =
     (case persist_table flt (cred_entries c) (cred_file c) of
        (Inl e, f) \<Rightarrow> (Inl (ErrPersist e), c\<lparr>cred_file := f\<rparr>)
      | (Inr _, f) \<Rightarrow> (Inr (), c\<lparr>cred_file := f\<rparr>))"

definition Ensure :: "int \<Rightarrow> wfault \<Rightarrow> string \<Rightarrow> string \<Rightarrow> string \<Rightarrow> (Creds, state_err, unit) act" where
  "Ensure now flt machineID executionID digest c =
     (if (case mget (cred_entries c) machineID of
            Some e \<Rightarrow> cred_ExecutionID e = executionID \<and> cred_Digest e = digest
          | None \<Rightarrow> False)
      then (Inr (), c)
      else persist_creds flt
        (c\<lparr>cred_entries := mset_at machineID
            \<lparr>cred_ExecutionID = executionID, cred_Digest = digest, cred_UpdatedAt = now\<rparr> (cred_entries c)\<rparr>))"

definition cred_Set :: "int \<Rightarrow> wfault \<Rightarrow> string \<Rightarrow> string \<Rightarrow> string \<Rightarrow> (Creds, state_err, unit) act" where
  "cred_Set now flt machineID executionID digest c =
     persist_creds flt
       (c\<lparr>cred_entries := mset_at machineID
           \<lparr>cred_ExecutionID = executionID, cred_Digest = digest, cred_UpdatedAt = now\<rparr> (cred_entries c)\<rparr>)"

definition Drop :: "wfault \<Rightarrow> string \<Rightarrow> (Creds, state_err, unit) act" where
  "Drop flt machineID c =
     (case mget (cred_entries c) machineID of
        None \<Rightarrow> (Inr (), c)
      | Some _ \<Rightarrow> persist_creds flt (c\<lparr>cred_entries := mdel machineID (cred_entries c)\<rparr>))"

definition Verify :: "(string \<Rightarrow> string) \<Rightarrow> string \<Rightarrow> string \<Rightarrow> string \<Rightarrow> Creds \<Rightarrow> bool" where
  "Verify sha256 machineID executionID rawCredential c =
     (case mget (cred_entries c) machineID of
        None \<Rightarrow> False
      | Some e \<Rightarrow>
          if cred_ExecutionID e \<noteq> executionID \<or> rawCredential = '''' then False
          else (case hex_DecodeString (cred_Digest e) of
                  None \<Rightarrow> False
                | Some want \<Rightarrow> want = sha256 rawCredential))"

definition LookupByDigest :: "(string \<Rightarrow> string) \<Rightarrow> string \<Rightarrow> Creds \<Rightarrow> (string \<times> string) option" where
  "LookupByDigest sha256 rawCredential c =
     (if rawCredential = '''' then None
      else map_option (\<lambda>(m, e). (m, cred_ExecutionID e))
             (List.find (\<lambda>(m, e). hex_DecodeString (cred_Digest e) = Some (sha256 rawCredential))
                (cred_entries c)))"

section \<open>Properties\<close>

definition creds_ok :: "Creds \<Rightarrow> bool" where
  "creds_ok c \<longleftrightarrow> gomap_ok (cred_entries c) \<and> file_ok gomap_ok (cred_file c)"

definition empty_creds :: Creds where
  "empty_creds = \<lparr>cred_entries = [], cred_file = fresh_fs\<rparr>"

lemma persist_creds_cases:
  "persist_creds flt c =
     ((if flt = NoFault then Inr () else Inl (ErrPersist flt)),
      c\<lparr>cred_file := snd (persist_table flt (cred_entries c) (cred_file c))\<rparr>)"
  using persist_result [of flt "cred_entries c" "cred_file c"]
  by (auto simp: persist_creds_def split: prod.splits sum.splits if_splits)

lemma creds_ok_Ensure: "creds_ok c \<Longrightarrow> creds_ok (snd (Ensure now flt m x d c))"
  by (auto simp: creds_ok_def Ensure_def persist_creds_cases)

lemma creds_ok_Set: "creds_ok c \<Longrightarrow> creds_ok (snd (cred_Set now flt m x d c))"
  by (auto simp: creds_ok_def cred_Set_def persist_creds_cases)

lemma creds_ok_Drop: "creds_ok c \<Longrightarrow> creds_ok (snd (Drop flt m c))"
  by (auto simp: creds_ok_def Drop_def persist_creds_cases split: option.splits)

lemma Ensure_entry:
  "\<exists>t. mget (cred_entries (snd (Ensure now flt m x d c))) m =
     Some \<lparr>cred_ExecutionID = x, cred_Digest = d, cred_UpdatedAt = t\<rparr>"
proof (cases "mget (cred_entries c) m")
  case None
  then show ?thesis by (simp add: Ensure_def persist_creds_cases)
next
  case (Some e)
  then show ?thesis
    by (cases e) (auto simp: Ensure_def persist_creds_cases)
qed

text \<open>
  Credentials are bound to one execution: after \<open>Ensure\<close> the stored material
  accepts exactly the credentials with the same hash presented for that execution, and
  after \<open>Drop\<close> nothing is accepted for the machine any more.
\<close>

lemma credential_execution_bound:
  "(Verify sha256 m x' raw' (snd (Ensure now flt m x (Digest sha256 raw) c)) \<longleftrightarrow>
     x' = x \<and> raw' \<noteq> '''' \<and> sha256 raw' = sha256 raw) \<and>
   \<not> Verify sha256 m x' raw' (snd (Drop flt m c))"
proof -
  obtain t where "mget (cred_entries (snd (Ensure now flt m x (Digest sha256 raw) c))) m =
      Some \<lparr>cred_ExecutionID = x, cred_Digest = Digest sha256 raw, cred_UpdatedAt = t\<rparr>"
    using Ensure_entry by blast
  then show ?thesis
    by (auto simp: Verify_def Digest_def Drop_def persist_creds_cases split: option.splits)
qed

text \<open>Whatever restart finds is exactly the memory.\<close>

definition creds_synced :: "Creds \<Rightarrow> bool" where
  "creds_synced c \<longleftrightarrow> (\<forall>m. reopens (cred_file c) m \<longleftrightarrow> m = cred_entries c)"

lemma persist_before_rename:
  "flt \<in> {FMarshal, FMkdirAll, FOpenFile, FWrite, FSyncFile, FClose, FRename} \<Longrightarrow>
     reopens (snd (persist_table flt m f)) m' = reopens f m'"
  by (auto simp: persist_table_def write_defs reopens_def crash_outcomes_def)

text \<open>
  \<open>Ensure\<close> does not roll its memory back when the write fails, so the retry
  that follows a failed \<open>Ensure\<close> reports success without writing anything: if the first
  call failed before the rename, every restart after the successful retry still finds the
  old file, without the credential.
\<close>

lemma Ensure_retry_reports_undurable_success:
  assumes "creds_synced c"
    and "\<not> (case mget (cred_entries c) m of
              Some e \<Rightarrow> cred_ExecutionID e = x \<and> cred_Digest e = d | None \<Rightarrow> False)"
    and "flt \<in> {FMarshal, FMkdirAll, FOpenFile, FWrite, FSyncFile, FClose, FRename}"
  shows "fst (Ensure now flt m x d c) = Inl (ErrPersist flt) \<and>
         fst (Ensure now' flt' m x d (snd (Ensure now flt m x d c))) = Inr () \<and>
         (\<forall>es. reopens (cred_file (snd (Ensure now' flt' m x d (snd (Ensure now flt m x d c))))) es
               \<longleftrightarrow> es = cred_entries c)"
proof -
  have ne: "flt \<noteq> NoFault" using assms(3) by auto
  let ?c1 = "snd (Ensure now flt m x d c)"
  have first: "fst (Ensure now flt m x d c) = Inl (ErrPersist flt)"
    using assms(2) ne by (simp add: Ensure_def persist_creds_cases)
  have on_disk: "reopens (cred_file ?c1) es \<longleftrightarrow> es = cred_entries c" for es
    using assms(1,2)
    by (simp add: Ensure_def persist_creds_cases creds_synced_def persist_before_rename [OF assms(3)])
  have second: "Ensure now' flt' m x d ?c1 = (Inr (), ?c1)"
    using Ensure_entry [of now flt m x d c] by (auto simp: Ensure_def [of now'])
  show ?thesis using first on_disk second by simp
qed

lemma Ensure_retry_reports_undurable_success_witness:
  "fst (Ensure 1 FWrite ''m1'' ''e1'' ''ab'' empty_creds) = Inl (ErrPersist FWrite) \<and>
   fst (Ensure 2 NoFault ''m1'' ''e1'' ''ab'' (snd (Ensure 1 FWrite ''m1'' ''e1'' ''ab'' empty_creds))) = Inr () \<and>
   (\<forall>es. reopens (cred_file (snd (Ensure 2 NoFault ''m1'' ''e1'' ''ab''
            (snd (Ensure 1 FWrite ''m1'' ''e1'' ''ab'' empty_creds))))) es \<longleftrightarrow> es = [])"
proof -
  have s: "creds_synced empty_creds"
    by (auto simp: creds_synced_def empty_creds_def reopens_def crash_outcomes_def read_inode_def fresh_fs_def)
  show ?thesis
    using Ensure_retry_reports_undurable_success [OF s, where m = "''m1''" and x = "''e1''" and d = "''ab''" and flt = FWrite and now = 1 and now' = 2 and flt' = NoFault]
    by (simp add: empty_creds_def)
qed

end
