(* ===== verification/Mutation.thy ===== *)
theory Mutation
  imports Fences Creds
begin

text \<open>
  The fenced-mutation protocol of \<open>internal/agent/mutation/protocol.go\<close>. A protocol state
  holds the ledger, the fences, the clock readings and file faults still to come (one per
  call into a state file), and the world the caller's callbacks act on (the runtime, the
  credentials). A run holds the lock of its machine (or of its serialization key), so it is
  one atomic function; \<open>RunDeleteMachine\<close> takes its lock only after the replay check, and its
  model is the run that no other delete of the same operation overlaps.
\<close>

section \<open>State and callbacks\<close>

record Identity =
  OperationID :: string
  MachineID :: string
  ExecutionID :: string
  Generation :: u64
  Kind :: string
  RequestHash :: string
  Coordinates :: string

record 'w Protocol =
  p_ledger :: Ledger
  p_fences :: Fences
  p_script :: "(int \<times> wfault) list"
  p_world :: 'w

datatype proto_err = StateErr state_err | CallbackErr string

type_synonym ('w, 'a) run = "('w Protocol, proto_err, 'a) act"
type_synonym ('w, 'a) callback = "'w \<Rightarrow> (proto_err + 'a) \<times> 'w"

record 'a Codec =
  Encode :: "'a \<Rightarrow> proto_err + string"
  Decode :: "string \<Rightarrow> proto_err + 'a"

record 'a Recovery =
  rv_Value :: 'a
  rv_Found :: bool

text \<open>The clock reading and the fault of the next state-file call; a script that has run out
  stands for no fault at time 0.\<close>

definition next_io :: "'w Protocol \<Rightarrow> (int \<times> wfault) \<times> 'w Protocol" where
  "next_io s = (case p_script s of [] \<Rightarrow> ((0, NoFault), s) | e # es \<Rightarrow> (e, s\<lparr>p_script := es\<rparr>))"

definition on_ledger :: "(int \<Rightarrow> wfault \<Rightarrow> (Ledger, state_err, 'a) act) \<Rightarrow> ('w, 'a) run" where
  "on_ledger f s =
     (let ((now, flt), s1) = next_io s;
          (r, l) = f now flt (p_ledger s1)
      in (map_sum StateErr id r, s1\<lparr>p_ledger := l\<rparr>))"

definition on_fences :: "(int \<Rightarrow> wfault \<Rightarrow> (Fences, state_err, 'a) act) \<Rightarrow> ('w, 'a) run" where
  "on_fences f s =
     (let ((now, flt), s1) = next_io s;
          (r, fe) = f now flt (p_fences s1)
      in (map_sum StateErr id r, s1\<lparr>p_fences := fe\<rparr>))"

definition on_world :: "('w, 'a) callback \<Rightarrow> ('w, 'a) run" where
  "on_world f s = (let (r, w) = f (p_world s) in (r, s\<lparr>p_world := w\<rparr>))"

definition ask :: "('w Protocol \<Rightarrow> state_err + 'a) \<Rightarrow> ('w, 'a) run" where
  "ask q s = (map_sum StateErr id (q s), s)"

definition pure_result :: "(proto_err + 'a) \<Rightarrow> ('w, 'a) run" where
  "pure_result r s = (r, s)"

text \<open>\<open>defer release()\<close>: the release runs on the world after the rest, on every path.\<close>

definition deferring :: "('w \<Rightarrow> 'w) option \<Rightarrow> ('w, 'a) run \<Rightarrow> ('w, 'a) run" where
  "deferring rel m s =
     (case rel of
        None \<Rightarrow> m s
      | Some f \<Rightarrow> (let (r, s') = m s in (r, s'\<lparr>p_world := f (p_world s')\<rparr>)))"

definition optional_world :: "('w, unit) callback option \<Rightarrow> ('w, unit) run" where
  "optional_world c = whenSome (map_option on_world c)"

text \<open>The claim that \<open>Begin\<close> files for an operation.\<close>

definition claim_record :: "Identity \<Rightarrow> Record" where
  "claim_record i =
     \<lparr>rec_OperationID = OperationID i, rec_MachineID = MachineID i, rec_ExecutionID = ExecutionID i,
      rec_Generation = Generation i, rec_Kind = Kind i, rec_Identity = Coordinates i,
      rec_RequestHash = RequestHash i, rec_Status = '''', rec_Result = '''',
      rec_CreatedAt = 0, rec_UpdatedAt = 0\<rparr>"

abbreviation check_ledger :: "Identity \<Rightarrow> ('w, string option) run" where
  "check_ledger i \<equiv> ask (\<lambda>s. Check (OperationID i) (RequestHash i) (p_ledger s))"

abbreviation get_ledger :: "Identity \<Rightarrow> ('w, Record option) run" where
  "get_ledger i \<equiv> ask (\<lambda>s. Get (OperationID i) (RequestHash i) (p_ledger s))"

abbreviation check_fence :: "Identity \<Rightarrow> ('w, unit) run" where
  "check_fence i \<equiv> ask (\<lambda>s. fence_check (MachineID i) (Generation i) (p_fences s))"

abbreviation begin_claim :: "Identity \<Rightarrow> ('w, Record \<times> bool) run" where
  "begin_claim i \<equiv> on_ledger (\<lambda>now flt. Begin now flt (claim_record i))"

abbreviation advance_fence :: "Identity \<Rightarrow> ('w, unit) run" where
  "advance_fence i \<equiv> on_fences (\<lambda>now flt. Advance now flt (MachineID i) (Generation i) (ExecutionID i))"

abbreviation complete_claim :: "Identity \<Rightarrow> string \<Rightarrow> ('w, unit) run" where
  "complete_claim i raw \<equiv> on_ledger (\<lambda>now flt. Complete now flt (OperationID i) (RequestHash i) raw)"

section \<open>Create\<close>

record ('w, 'a) CreateMachine =
  cm_Identity :: Identity
  cm_Prepare :: "('w, ('w \<Rightarrow> 'w) option) callback option"
  cm_Recover :: "('w, 'a Recovery) callback option"
  cm_Effect :: "('w, 'a) callback"
  cm_PersistCredential :: "('w, unit) callback option"
  cm_Codec :: "'a Codec"

definition completeCreate :: "('w, 'a) CreateMachine \<Rightarrow> 'a \<Rightarrow> ('w, 'a) run" where
  "completeCreate op out =
     andThen (advance_fence (cm_Identity op)) (\<lambda>_.
     andThen (optional_world (cm_PersistCredential op)) (\<lambda>_.
     andThen (pure_result (Encode (cm_Codec op) out)) (\<lambda>raw.
     andThen (complete_claim (cm_Identity op) raw) (\<lambda>_.
     ret out))))"

definition replay_create :: "('w, 'a) CreateMachine \<Rightarrow> string \<Rightarrow> ('w, 'a) run" where
  "replay_create op raw =
     andThen (optional_world (cm_PersistCredential op)) (\<lambda>_. pure_result (Decode (cm_Codec op) raw))"

text \<open>The first execution under a claim: prepare, run the effect, complete, release.\<close>

definition execute_create :: "('w, 'a) CreateMachine \<Rightarrow> ('w, 'a) run" where
  "execute_create op =
     andThen (case cm_Prepare op of None \<Rightarrow> ret None | Some p \<Rightarrow> on_world p) (\<lambda>release.
     deferring release
       (andThen (on_world (cm_Effect op)) (\<lambda>out. completeCreate op out)))"

definition RunCreateMachine :: "('w, 'a) CreateMachine \<Rightarrow> ('w, 'a) run" where
  "RunCreateMachine op =
     andThen (check_ledger (cm_Identity op)) (\<lambda>done.
     case done of
       Some raw \<Rightarrow> replay_create op raw
     | None \<Rightarrow>
         andThen (check_fence (cm_Identity op)) (\<lambda>_.
         andThen (begin_claim (cm_Identity op)) (\<lambda>(r, existed).
         if Completed r then replay_create op (rec_Result r)
         else
           (case (existed, cm_Recover op) of
              (True, Some recover) \<Rightarrow>
                andThen (on_world recover) (\<lambda>recovered.
                if rv_Found recovered then completeCreate op (rv_Value recovered)
                else execute_create op)
            | _ \<Rightarrow> execute_create op))))"

section \<open>Machine delete\<close>

record 'w DeleteMachine =
  dm_Identity :: Identity
  dm_Effect :: "('w, unit) callback"
  dm_DropCredential :: "('w \<Rightarrow> 'w) option"

text \<open>A failed prune is only logged.\<close>

definition prune_after_delete :: "Identity \<Rightarrow> ('w, unit) run" where
  "prune_after_delete i =
     on_ledger (\<lambda>now flt l. (Inr (), snd (PruneMachineExcept flt (MachineID i) (OperationID i) l)))"

definition RunDeleteMachine :: "'w DeleteMachine \<Rightarrow> ('w, bool) run" where
  "RunDeleteMachine op =
     andThen (check_ledger (dm_Identity op)) (\<lambda>done.
     if done \<noteq> None then ret True
     else
       andThen (check_fence (dm_Identity op)) (\<lambda>_.
       andThen (on_world (dm_Effect op)) (\<lambda>_.
       andThen (on_world (\<lambda>w. (Inr (), case dm_DropCredential op of None \<Rightarrow> w | Some d \<Rightarrow> d w))) (\<lambda>_.
       andThen (on_ledger (\<lambda>now flt. Put now flt (OperationID (dm_Identity op)) (MachineID (dm_Identity op))
                  (RequestHash (dm_Identity op)) ''{}'')) (\<lambda>_.
       andThen (prune_after_delete (dm_Identity op)) (\<lambda>_.
       andThen (advance_fence (dm_Identity op)) (\<lambda>_.
       ret False)))))))"

section \<open>Claimed mutations\<close>

record ('w, 'a) ClaimedMutation =
  cl_Identity :: Identity
  cl_SerializationKey :: string
  cl_Fence :: "('w, unit) callback option"
  cl_Recover :: "('w, 'a Recovery) callback option"
  cl_Effect :: "('w, 'a) callback"
  cl_Codec :: "'a Codec"

definition completeClaimed :: "('w, 'a) ClaimedMutation \<Rightarrow> 'a \<Rightarrow> ('w, unit) run option \<Rightarrow>
    ('w, unit) run option \<Rightarrow> ('w, 'a) run" where
  "completeClaimed op out beforeResult beforeComplete =
     andThen (whenSome beforeResult) (\<lambda>_.
     andThen (whenSome beforeComplete) (\<lambda>_.
     andThen (pure_result (Encode (cl_Codec op) out)) (\<lambda>raw.
     andThen (complete_claim (cl_Identity op) raw) (\<lambda>_.
     ret out))))"

definition execute_claimed :: "('w, 'a) ClaimedMutation \<Rightarrow> ('w, unit) run option \<Rightarrow>
    ('w, unit) run option \<Rightarrow> ('w, 'a) run" where
  "execute_claimed op beforeResult beforeComplete =
     andThen (on_world (cl_Effect op)) (\<lambda>out. completeClaimed op out beforeResult beforeComplete)"

text \<open>\<open>runClaimed\<close> after the replay check: fence, claim, recover or execute, complete.\<close>

definition claim_and_run :: "('w, 'a) ClaimedMutation \<Rightarrow> bool \<Rightarrow> ('w, unit) run option \<Rightarrow>
    ('w, unit) run option \<Rightarrow> ('w, 'a) run" where
  "claim_and_run op checkFence beforeResult beforeComplete =
     andThen (if checkFence
              then (case cl_Fence op of Some f \<Rightarrow> on_world f | None \<Rightarrow> check_fence (cl_Identity op))
              else ret ()) (\<lambda>_.
     andThen (begin_claim (cl_Identity op)) (\<lambda>(r, existed).
     if Completed r then pure_result (Decode (cl_Codec op) (rec_Result r))
     else
       (case (existed, cl_Recover op) of
          (True, Some recover) \<Rightarrow>
            andThen (on_world recover) (\<lambda>recovered.
            if rv_Found recovered then completeClaimed op (rv_Value recovered) beforeResult beforeComplete
            else execute_claimed op beforeResult beforeComplete)
        | _ \<Rightarrow> execute_claimed op beforeResult beforeComplete)))"

definition runClaimed :: "('w, 'a) ClaimedMutation \<Rightarrow> bool \<Rightarrow> ('w, unit) run option \<Rightarrow>
    ('w, unit) run option \<Rightarrow> ('w, 'a) run" where
  "runClaimed op checkFence beforeResult beforeComplete =
     andThen (get_ledger (cl_Identity op)) (\<lambda>found.
     case found of
       Some r \<Rightarrow>
         if Completed r then pure_result (Decode (cl_Codec op) (rec_Result r))
         else claim_and_run op checkFence beforeResult beforeComplete
     | None \<Rightarrow> claim_and_run op checkFence beforeResult beforeComplete)"

definition RunFabricMutation :: "('w, 'a) ClaimedMutation \<Rightarrow> ('w, 'a) run" where
  "RunFabricMutation op = runClaimed op True None None"

definition RunResourceMutation :: "('w, 'a) ClaimedMutation \<Rightarrow> ('w, 'a) run" where
  "RunResourceMutation op = runClaimed op False None None"

definition RunMachineMutation :: "('w, 'a) ClaimedMutation \<Rightarrow> ('w, 'a) run" where
  "RunMachineMutation op = runClaimed op True None None"

record ('w, 'a) Lifecycle =
  lc_Identity :: Identity
  lc_Recover :: "('w, 'a Recovery) callback option"
  lc_Effect :: "('w, 'a) callback"
  lc_Codec :: "'a Codec"

definition RunLifecycle :: "('w, 'a) Lifecycle \<Rightarrow> ('w, 'a) run" where
  "RunLifecycle op =
     runClaimed \<lparr>cl_Identity = lc_Identity op, cl_SerializationKey = '''', cl_Fence = None,
                 cl_Recover = lc_Recover op, cl_Effect = lc_Effect op, cl_Codec = lc_Codec op\<rparr>
       True (Some (advance_fence (lc_Identity op))) None"

record ('w, 'a) Replacement =
  rp_Identity :: Identity
  rp_Recover :: "('w, 'a Recovery) callback option"
  rp_Effect :: "('w, 'a) callback"
  rp_PersistCredential :: "('w, unit) callback option"
  rp_Codec :: "'a Codec"

definition RunReplacement :: "('w, 'a) Replacement \<Rightarrow> ('w, 'a) run" where
  "RunReplacement op =
     runClaimed \<lparr>cl_Identity = rp_Identity op, cl_SerializationKey = '''', cl_Fence = None,
                 cl_Recover = rp_Recover op, cl_Effect = rp_Effect op, cl_Codec = rp_Codec op\<rparr>
       True (Some (advance_fence (rp_Identity op))) (map_option on_world (rp_PersistCredential op))"

section \<open>Deletes under a claim, copies, exec tombstones\<close>

record 'w DeleteMutation =
  dl_Identity :: Identity
  dl_SerializationKey :: string
  dl_AlreadyDeleted :: "('w, bool) callback option"
  dl_Effect :: "('w, unit) callback"

definition execute_delete :: "'w DeleteMutation \<Rightarrow> ('w, unit) run" where
  "execute_delete op =
     andThen (on_world (dl_Effect op)) (\<lambda>_. complete_claim (dl_Identity op) ''{}'')"

definition runDelete :: "'w DeleteMutation \<Rightarrow> bool \<Rightarrow> ('w, unit) run" where
  "runDelete op checkFence =
     andThen (begin_claim (dl_Identity op)) (\<lambda>(r, existed).
     if Completed r then ret ()
     else
       andThen (if checkFence then check_fence (dl_Identity op) else ret ()) (\<lambda>_.
       case (existed, dl_AlreadyDeleted op) of
         (True, Some already) \<Rightarrow>
           andThen (on_world already) (\<lambda>deleted.
           if deleted then complete_claim (dl_Identity op) ''{}'' else execute_delete op)
       | _ \<Rightarrow> execute_delete op))"

definition RunResourceDelete :: "'w DeleteMutation \<Rightarrow> ('w, unit) run" where
  "RunResourceDelete op = runDelete op False"

definition RunMachineDelete :: "'w DeleteMutation \<Rightarrow> ('w, unit) run" where
  "RunMachineDelete op = runDelete op True"

definition RunCopyTo :: "('w, 'a) Lifecycle \<Rightarrow> ('w, 'a) run" where
  "RunCopyTo op =
     andThen (check_ledger (lc_Identity op)) (\<lambda>done.
     case done of
       Some raw \<Rightarrow> pure_result (Decode (lc_Codec op) raw)
     | None \<Rightarrow>
         andThen (check_fence (lc_Identity op)) (\<lambda>_.
         andThen (on_world (lc_Effect op)) (\<lambda>out.
         andThen (advance_fence (lc_Identity op)) (\<lambda>_.
         andThen (pure_result (Encode (lc_Codec op) out)) (\<lambda>raw.
         andThen (on_ledger (\<lambda>now flt. Put now flt (OperationID (lc_Identity op)) (MachineID (lc_Identity op))
                    (RequestHash (lc_Identity op)) raw)) (\<lambda>_.
         ret out))))))"

definition ClaimExec :: "Identity \<Rightarrow> string \<Rightarrow> ('w, bool) run" where
  "ClaimExec i tombstone =
     on_ledger (\<lambda>now flt. Claim now flt (OperationID i) (MachineID i) (RequestHash i) tombstone)"

section \<open>Frames: what each building block leaves alone\<close>

lemma next_io_frame [simp]:
  "p_ledger (snd (next_io s)) = p_ledger s" "p_fences (snd (next_io s)) = p_fences s"
  "p_world (snd (next_io s)) = p_world s"
  by (simp_all add: next_io_def split: list.split)

lemma on_ledger_split:
  "on_ledger f s =
     (map_sum StateErr id (fst (f (fst (fst (next_io s))) (snd (fst (next_io s))) (p_ledger s))),
      (snd (next_io s))\<lparr>p_ledger := snd (f (fst (fst (next_io s))) (snd (fst (next_io s))) (p_ledger s))\<rparr>)"
  by (simp add: on_ledger_def split_beta Let_def)

lemma on_fences_split:
  "on_fences f s =
     (map_sum StateErr id (fst (f (fst (fst (next_io s))) (snd (fst (next_io s))) (p_fences s))),
      (snd (next_io s))\<lparr>p_fences := snd (f (fst (fst (next_io s))) (snd (fst (next_io s))) (p_fences s))\<rparr>)"
  by (simp add: on_fences_def split_beta Let_def)

lemma on_ledger_frame [simp]:
  "p_fences (snd (on_ledger f s)) = p_fences s" "p_world (snd (on_ledger f s)) = p_world s"
  by (simp_all add: on_ledger_split)

lemma on_fences_frame [simp]:
  "p_ledger (snd (on_fences f s)) = p_ledger s" "p_world (snd (on_fences f s)) = p_world s"
  by (simp_all add: on_fences_split)

lemma on_world_frame [simp]:
  "p_ledger (snd (on_world f s)) = p_ledger s" "p_fences (snd (on_world f s)) = p_fences s"
  by (simp_all add: on_world_def split_beta Let_def)

lemma on_world_result:
  "on_world f s = (fst (f (p_world s)), s\<lparr>p_world := snd (f (p_world s))\<rparr>)"
  by (simp add: on_world_def split_beta Let_def)

lemma ask_frame [simp]: "snd (ask q s) = s"
  by (simp add: ask_def)

lemma pure_frame [simp]: "snd (pure_result r s) = s"
  by (simp add: pure_result_def)

section \<open>Monotonicity of the fences\<close>

text \<open>The invariant of the agent's state, and the order: no mark is lower afterwards, and from
  a good state the invariant and every pinned generation are kept.\<close>

definition state_inv :: "'w Protocol \<Rightarrow> bool" where
  "state_inv s \<longleftrightarrow> ledger_ok (p_ledger s) \<and> fences_ok (p_fences s)"

definition keeps_pins :: "'w Protocol \<Rightarrow> 'w Protocol \<Rightarrow> bool" where
  "keeps_pins s t \<longleftrightarrow> (state_inv s \<longrightarrow> state_inv t \<and>
     (\<forall>k g. pinned k g (p_fences s) \<longrightarrow> pinned k g (p_fences t)))"

definition fence_mono :: "'w Protocol \<Rightarrow> 'w Protocol \<Rightarrow> bool" where
  "fence_mono s t \<longleftrightarrow> (\<forall>k. mark (p_fences s) k \<le> mark (p_fences t) k) \<and> keeps_pins s t"

lemmas mono_defs = keeps_def fence_mono_def keeps_pins_def state_inv_def

interpretation fm: step_preorder fence_mono
  by unfold_locales (auto simp: fence_mono_def keeps_pins_def intro: order_trans)

lemma keeps_on_ledger:
  assumes "\<And>now flt l. ledger_ok l \<Longrightarrow> ledger_ok (snd (f now flt l))"
  shows "keeps fence_mono (on_ledger f)"
  using assms by (simp add: mono_defs on_ledger_split)

lemma keeps_advance: "keeps fence_mono (advance_fence i)"
  by (simp add: mono_defs on_fences_split Advance_mark_mono pinned_Advance)

lemma keeps_on_world: "keeps fence_mono (on_world f)"
  by (simp add: mono_defs)

lemma keeps_ask: "keeps fence_mono (ask q)"
  by (simp add: mono_defs)

lemma keeps_pure: "keeps fence_mono (pure_result r)"
  by (simp add: mono_defs)

lemma keeps_deferring: "keeps fence_mono m \<Longrightarrow> keeps fence_mono (deferring rel m)"
  by (simp add: mono_defs deferring_def split_beta Let_def split: option.split)

lemma keeps_optional_world: "keeps fence_mono (optional_world c)"
  by (auto simp: optional_world_def intro!: fm.keeps_whenSome keeps_on_world)

lemma keeps_begin: "keeps fence_mono (begin_claim i)"
  by (rule keeps_on_ledger) simp

lemma keeps_complete: "keeps fence_mono (complete_claim i raw)"
  by (rule keeps_on_ledger) simp

lemma keeps_put: "keeps fence_mono (on_ledger (\<lambda>now flt. Put now flt k m h raw))"
  by (rule keeps_on_ledger) simp

lemma keeps_prune: "keeps fence_mono (prune_after_delete i)"
  unfolding prune_after_delete_def
  by (rule keeps_on_ledger) (simp add: PruneMachineExcept_def)

lemma keeps_case_option:
  "(x = None \<Longrightarrow> keeps R a) \<Longrightarrow> (\<And>y. x = Some y \<Longrightarrow> keeps R (b y)) \<Longrightarrow> keeps R (case x of None \<Rightarrow> a | Some y \<Rightarrow> b y)"
  by (cases x) simp_all

lemma keeps_if: "(c \<Longrightarrow> keeps R a) \<Longrightarrow> (\<not> c \<Longrightarrow> keeps R b) \<Longrightarrow> keeps R (if c then a else b)"
  by simp

lemma keeps_case_prod: "(\<And>a b. x = (a, b) \<Longrightarrow> keeps R (f a b)) \<Longrightarrow> keeps R (case x of (a, b) \<Rightarrow> f a b)"
  by (cases x) simp

lemma keeps_case_bool: "keeps R a \<Longrightarrow> keeps R b \<Longrightarrow> keeps R (case x of True \<Rightarrow> a | False \<Rightarrow> b)"
  by (cases x) simp_all

lemmas protocol_keeps = fm.keeps_ret fm.keeps_throw keeps_advance keeps_on_world keeps_ask keeps_pure
  keeps_deferring keeps_optional_world keeps_begin keeps_complete keeps_put keeps_prune
  fm.keeps_andThen keeps_case_option keeps_if keeps_case_prod keeps_case_bool

lemma keeps_completeCreate: "keeps fence_mono (completeCreate op out)"
  unfolding completeCreate_def by (intro protocol_keeps)

lemma keeps_execute_create: "keeps fence_mono (execute_create op)"
  unfolding execute_create_def by (intro protocol_keeps keeps_completeCreate)

lemma keeps_replay_create: "keeps fence_mono (replay_create op raw)"
  unfolding replay_create_def by (intro protocol_keeps)

lemma keeps_RunCreateMachine: "keeps fence_mono (RunCreateMachine op)"
  unfolding RunCreateMachine_def
  by (intro protocol_keeps keeps_completeCreate keeps_execute_create keeps_replay_create)

lemma keeps_RunDeleteMachine: "keeps fence_mono (RunDeleteMachine op)"
  unfolding RunDeleteMachine_def by (intro protocol_keeps)

lemma keeps_runClaimed:
  assumes "keeps fence_mono (whenSome bR)" and "keeps fence_mono (whenSome bC)"
  shows "keeps fence_mono (runClaimed op chk bR bC)"
  unfolding runClaimed_def claim_and_run_def execute_claimed_def completeClaimed_def
  by (intro assms protocol_keeps)

lemma keeps_runDelete: "keeps fence_mono (runDelete op chk)"
  unfolding runDelete_def execute_delete_def by (intro protocol_keeps)

lemma keeps_RunCopyTo: "keeps fence_mono (RunCopyTo op)"
  unfolding RunCopyTo_def by (intro protocol_keeps)

section \<open>Requests, restarts and power losses\<close>

text \<open>Every entry point of the package as one request type; a run keeps only the error.\<close>

datatype ('w, 'a) request =
    RqCreate "('w, 'a) CreateMachine"
  | RqDelete "'w DeleteMachine"
  | RqFabric "('w, 'a) ClaimedMutation"
  | RqResource "('w, 'a) ClaimedMutation"
  | RqMachine "('w, 'a) ClaimedMutation"
  | RqLifecycle "('w, 'a) Lifecycle"
  | RqReplacement "('w, 'a) Replacement"
  | RqResourceDelete "'w DeleteMutation"
  | RqMachineDelete "'w DeleteMutation"
  | RqCopyTo "('w, 'a) Lifecycle"
  | RqExec Identity string

fun run_request :: "('w, 'a) request \<Rightarrow> 'w Protocol \<Rightarrow> proto_err option \<times> 'w Protocol" where
  "run_request (RqCreate op) s = error_of (RunCreateMachine op s)"
| "run_request (RqDelete op) s = error_of (RunDeleteMachine op s)"
| "run_request (RqFabric op) s = error_of (RunFabricMutation op s)"
| "run_request (RqResource op) s = error_of (RunResourceMutation op s)"
| "run_request (RqMachine op) s = error_of (RunMachineMutation op s)"
| "run_request (RqLifecycle op) s = error_of (RunLifecycle op s)"
| "run_request (RqReplacement op) s = error_of (RunReplacement op s)"
| "run_request (RqResourceDelete op) s = error_of (RunResourceDelete op s)"
| "run_request (RqMachineDelete op) s = error_of (RunMachineDelete op s)"
| "run_request (RqCopyTo op) s = error_of (RunCopyTo op s)"
| "run_request (RqExec i tomb) s = error_of (ClaimExec i tomb s)"

text \<open>
  One step of an agent's life: a request, new clock readings and faults, a process restart
  (the files as running processes see them), a power loss that leaves one of the
  possible bindings of each state file, or a retention sweep. A crash in the middle of a request is a request
  whose next state-file call fails, followed by a restart or a power loss.
\<close>

datatype ('w, 'a) event = Request "('w, 'a) request" | Schedule "(int \<times> wfault) list" | Restart
  | PowerLoss "(string, Record) gomap inode option" "(string, FenceEntry) gomap inode option"
  | Sweep int "(string \<Rightarrow> bool) option"

text \<open>
  The retention sweep that \<open>cmd/agentd\<close> runs at the start and every hour: records older than the
  cutoff go, and fences older than the cutoff go unless their machine is in the inventory;
  \<open>None\<close> is an inventory that could not be read, which skips the fences.
\<close>

definition pruneGC :: "int \<Rightarrow> (string \<Rightarrow> bool) option \<Rightarrow> 'w Protocol \<Rightarrow> 'w Protocol" where
  "pruneGC cutoff live s =
     (let s1 = snd (on_ledger (\<lambda>now flt l. (Inr (), snd (PruneBefore flt cutoff l))) s)
      in case live of
           None \<Rightarrow> s1
         | Some p \<Rightarrow> snd (on_fences (\<lambda>now flt f. (Inr (), snd (PruneBeforeUnlessLive flt cutoff (Some p) f))) s1))"

inductive agent_step :: "'w Protocol \<Rightarrow> ('w, 'a) event \<Rightarrow> 'w Protocol \<Rightarrow> bool" where
  request: "agent_step s (Request rq) (snd (run_request rq s))"
| schedule: "agent_step s (Schedule sc) (s\<lparr>p_script := sc\<rparr>)"
| restart: "Open (read_live (ledger_file (p_ledger s))) (ledger_file (p_ledger s)) = Inr l \<Longrightarrow>
    OpenFences (read_live (fence_file (p_fences s))) (fence_file (p_fences s)) = Inr f \<Longrightarrow>
    agent_step s Restart (s\<lparr>p_ledger := l, p_fences := f\<rparr>)"
| sweep: "agent_step s (Sweep cutoff live) (pruneGC cutoff live s)"
| power_loss: "i \<in> set (fs_dur (ledger_file (p_ledger s))) \<Longrightarrow> j \<in> set (fs_dur (fence_file (p_fences s))) \<Longrightarrow>
    rl \<in> set (read_inode i) \<Longrightarrow> rf \<in> set (read_inode j) \<Longrightarrow>
    Open rl (settle i) = Inr l \<Longrightarrow> OpenFences rf (settle j) = Inr f \<Longrightarrow>
    agent_step s (PowerLoss i j) (s\<lparr>p_ledger := l, p_fences := f\<rparr>)"

inductive_cases agent_stepE: "agent_step s e t"

inductive agent_run :: "'w Protocol \<Rightarrow> ('w, 'a) event list \<Rightarrow> 'w Protocol \<Rightarrow> bool" where
  run_nil: "agent_run s [] s"
| run_cons: "agent_step s e t \<Longrightarrow> agent_run t es u \<Longrightarrow> agent_run s (e # es) u"

text \<open>The fence of the machine that a request checks, and whether it raises the mark.\<close>

fun fence_identity :: "('w, 'a) request \<Rightarrow> Identity option" where
  "fence_identity (RqCreate op) = Some (cm_Identity op)"
| "fence_identity (RqDelete op) = Some (dm_Identity op)"
| "fence_identity (RqMachine op) = (case cl_Fence op of None \<Rightarrow> Some (cl_Identity op) | Some _ \<Rightarrow> None)"
| "fence_identity (RqLifecycle op) = Some (lc_Identity op)"
| "fence_identity (RqReplacement op) = Some (rp_Identity op)"
| "fence_identity (RqCopyTo op) = Some (lc_Identity op)"
| "fence_identity (RqMachineDelete op) = Some (dl_Identity op)"
| "fence_identity _ = None"

fun advances :: "('w, 'a) request \<Rightarrow> bool" where
  "advances (RqCreate op) = True"
| "advances (RqDelete op) = True"
| "advances (RqLifecycle op) = True"
| "advances (RqReplacement op) = True"
| "advances (RqCopyTo op) = True"
| "advances _ = False"

text \<open>The same request with other effects.\<close>

fun with_effect :: "('w, 'a) callback \<Rightarrow> ('w, unit) callback \<Rightarrow> ('w, 'a) request \<Rightarrow> ('w, 'a) request" where
  "with_effect e d (RqCreate op) = RqCreate (op\<lparr>cm_Effect := e\<rparr>)"
| "with_effect e d (RqDelete op) = RqDelete (op\<lparr>dm_Effect := d\<rparr>)"
| "with_effect e d (RqFabric op) = RqFabric (op\<lparr>cl_Effect := e\<rparr>)"
| "with_effect e d (RqResource op) = RqResource (op\<lparr>cl_Effect := e\<rparr>)"
| "with_effect e d (RqMachine op) = RqMachine (op\<lparr>cl_Effect := e\<rparr>)"
| "with_effect e d (RqLifecycle op) = RqLifecycle (op\<lparr>lc_Effect := e\<rparr>)"
| "with_effect e d (RqReplacement op) = RqReplacement (op\<lparr>rp_Effect := e\<rparr>)"
| "with_effect e d (RqResourceDelete op) = RqResourceDelete (op\<lparr>dl_Effect := d\<rparr>)"
| "with_effect e d (RqMachineDelete op) = RqMachineDelete (op\<lparr>dl_Effect := d\<rparr>)"
| "with_effect e d (RqCopyTo op) = RqCopyTo (op\<lparr>lc_Effect := e\<rparr>)"
| "with_effect e d (RqExec i tomb) = RqExec i tomb"

text \<open>The entry point that claims the operation before it checks the fence.\<close>

fun claims_first :: "('w, 'a) request \<Rightarrow> bool" where
  "claims_first (RqMachineDelete op) = True"
| "claims_first _ = False"

section \<open>Marks across requests, restarts and power losses\<close>

lemma keeps_snd_error: "keeps R m \<Longrightarrow> R s (snd (error_of (m s)))"
  by (simp add: keeps_def)

lemma keeps_before_result:
  "keeps fence_mono (whenSome (Some (advance_fence i)))" "keeps fence_mono (whenSome None)"
  "keeps fence_mono (whenSome (map_option on_world c))"
  using keeps_optional_world [of c]
  by (simp_all add: whenSome_def fm.keeps_ret keeps_advance optional_world_def)

lemma keeps_ClaimExec: "keeps fence_mono (ClaimExec i tomb)"
  unfolding ClaimExec_def by (rule keeps_on_ledger) simp

lemmas claimed_entry_defs = RunFabricMutation_def RunResourceMutation_def RunMachineMutation_def
  RunLifecycle_def RunReplacement_def

lemma run_request_mono: "fence_mono s (snd (run_request rq s))"
  by (cases rq)
     (simp_all add: keeps_snd_error keeps_RunCreateMachine keeps_RunDeleteMachine keeps_runClaimed keeps_runDelete
       keeps_RunCopyTo keeps_ClaimExec keeps_before_result claimed_entry_defs RunResourceDelete_def
       RunMachineDelete_def del: snd_error_of)

lemma Open_restart:
  assumes "ledger_ok l0" and "Open (read_live (ledger_file l0)) (ledger_file l0) = Inr l"
  shows "ledger_ok l"
  using assms read_live_reopens [of "ledger_file l0" "records l"]
  by (auto simp: Open_def ledger_ok_def file_ok_def split: sum.splits)

lemma Open_power_loss:
  assumes "ledger_ok l0" and "i \<in> set (fs_dur (ledger_file l0))" and "r \<in> set (read_inode i)"
    and "Open r (settle i) = Inr l"
  shows "ledger_ok l"
proof -
  have "reopens (ledger_file l0) (records l)" and "ledger_file l = settle i"
    using assms(2-4) reopensI by (auto simp: Open_def split: sum.splits)
  then show ?thesis
    using assms(1,2) file_ok_settle by (auto simp: ledger_ok_def dest: file_ok_reopens)
qed

text \<open>Reopening the fences keeps the invariant and every pinned generation.\<close>

lemma OpenFences_restart:
  assumes "fences_ok f0" and "OpenFences (read_live (fence_file f0)) (fence_file f0) = Inr f"
  shows "fences_ok f \<and> (pinned k g f0 \<longrightarrow> pinned k g f)"
  using assms read_live_reopens [of "fence_file f0" "fence_entries f"]
  by (auto simp: OpenFences_def fences_ok_def file_ok_def pinned_def mark_def split: sum.splits)

lemma OpenFences_power_loss:
  assumes "fences_ok f0" and "j \<in> set (fs_dur (fence_file f0))" and "r \<in> set (read_inode j)"
    and "OpenFences r (settle j) = Inr f"
  shows "fences_ok f \<and> (pinned k g f0 \<longrightarrow> pinned k g f)"
proof -
  have re: "reopens (fence_file f0) (fence_entries f)" and "fence_file f = settle j"
    using assms(2-4) reopensI by (auto simp: OpenFences_def split: sum.splits)
  with assms(1,2) have "fences_ok f"
    using file_ok_settle by (auto simp: fences_ok_def dest: file_ok_reopens)
  then show ?thesis
    using re \<open>fence_file f = settle j\<close> reopens_settle [OF assms(2)] by (auto simp: pinned_def mark_def)
qed

text \<open>A sweep keeps the fences of the machines that its inventory lists.\<close>

fun spares :: "string \<Rightarrow> ('w, 'a) event \<Rightarrow> bool" where
  "spares k (Sweep cutoff (Some live)) = live k"
| "spares k _ = True"

definition keeps_pin :: "string \<Rightarrow> 'w Protocol \<Rightarrow> 'w Protocol \<Rightarrow> bool" where
  "keeps_pin k s t \<longleftrightarrow> (state_inv s \<longrightarrow> state_inv t \<and>
     (\<forall>g. pinned k g (p_fences s) \<longrightarrow> pinned k g (p_fences t)))"

lemma keeps_pins_pin: "keeps_pins s t \<Longrightarrow> keeps_pin k s t"
  by (simp add: keeps_pins_def keeps_pin_def)

lemma pruneGC_ledger:
  "\<exists>flt. p_ledger (pruneGC cutoff live s) = snd (PruneBefore flt cutoff (p_ledger s))"
  by (rule exI [of _ "snd (fst (next_io s))"])
     (simp add: pruneGC_def Let_def on_ledger_split split: option.split)

lemma pruneGC_fences:
  "p_fences (pruneGC cutoff live s) = p_fences s \<or>
   (\<exists>flt p. live = Some p \<and>
      p_fences (pruneGC cutoff live s) = snd (PruneBeforeUnlessLive flt cutoff (Some p) (p_fences s)))"
  by (auto simp: pruneGC_def Let_def on_fences_split split: option.split)

lemma pinned_Prune:
  assumes ok: "fences_ok f" and live: "p k" and pin: "pinned k g f"
  shows "pinned k g (snd (PruneBeforeUnlessLive flt cutoff (Some p) f))"
proof -
  let ?f = "snd (PruneBeforeUnlessLive flt cutoff (Some p) f)"
  have m: "mark ?f k = mark f k"
    using prune_keeps_live [of f p k flt cutoff] ok live by (simp add: mark_def map_mark_def)
  have "reopens (fence_file f) es \<or> es = fence_entries ?f" if "reopens (fence_file ?f) es" for es
    using that reopens_after_any [OF file_ok_settled] ok
    by (fastforce simp: PruneBeforeUnlessLive_def Let_def persist_fences_cases fences_ok_def split: if_splits)
  with m pin show ?thesis unfolding pinned_def mark_def by metis
qed

lemma agent_step_keeps_pin: "agent_step s e t \<Longrightarrow> spares k e \<Longrightarrow> keeps_pin k s t"
proof (induction rule: agent_step.induct)
  case (request s rq)
  show ?case using run_request_mono [of s rq] by (simp add: fence_mono_def keeps_pins_pin)
next
  case (schedule s sc)
  show ?case by (simp add: keeps_pin_def state_inv_def)
next
  case (restart s l f)
  then show ?case
    using Open_restart OpenFences_restart by (fastforce simp: keeps_pin_def state_inv_def)
next
  case (sweep s cutoff live)
  have "ledger_ok (p_ledger (pruneGC cutoff live s))" if "ledger_ok (p_ledger s)"
    using pruneGC_ledger [of cutoff live s] that by (auto simp: PruneBefore_def)
  moreover have "fences_ok (p_fences (pruneGC cutoff live s)) \<and>
      (\<forall>g. pinned k g (p_fences s) \<longrightarrow> pinned k g (p_fences (pruneGC cutoff live s)))" if "fences_ok (p_fences s)"
    using pruneGC_fences [of cutoff live s] that sweep pinned_Prune by fastforce
  ultimately show ?case by (simp add: keeps_pin_def state_inv_def)
next
  case (power_loss i s j rl rf l f)
  then show ?case
    using Open_power_loss OpenFences_power_loss by (fastforce simp: keeps_pin_def state_inv_def)
qed

lemma agent_run_keeps_pin: "agent_run s es t \<Longrightarrow> \<forall>e\<in>set es. spares k e \<Longrightarrow> keeps_pin k s t"
  by (induction rule: agent_run.induct)
     (auto simp: keeps_pin_def dest: agent_step_keeps_pin)

section \<open>What a fresh run does\<close>

text \<open>The operation is not recorded as completed, and no other request holds its id.\<close>

definition fresh_op :: "Identity \<Rightarrow> 'w Protocol \<Rightarrow> bool" where
  "fresh_op i s \<longleftrightarrow> Check (OperationID i) (RequestHash i) (p_ledger s) = Inr None"

lemma fresh_op_Get:
  "fresh_op i s \<Longrightarrow> (\<exists>r. Get (OperationID i) (RequestHash i) (p_ledger s) = Inr r \<and>
     (\<forall>x. r = Some x \<longrightarrow> \<not> Completed x))"
  by (auto simp: fresh_op_def Check_def split: sum.splits option.splits if_splits)

lemma check_ledger_fresh: "fresh_op i s \<Longrightarrow> check_ledger i s = (Inr None, s)"
  by (simp add: fresh_op_def ask_def)

lemma check_fence_result:
  "check_fence i s =
     (if Generation i < mark (p_fences s) (MachineID i)
      then Inl (StateErr (ErrStaleGeneration (MachineID i) (mark (p_fences s) (MachineID i)) (Generation i)))
      else Inr (), s)"
  by (simp add: ask_def fence_check_mark)

lemma map_sum_InrE:
  assumes "map_sum f id x = Inr y"
  obtains "x = Inr y"
  using assms by (cases x) simp_all

text \<open>A claim granted for a fresh operation is never a completed one.\<close>

lemma begin_fresh:
  assumes "fresh_op i s" and "begin_claim i s = (Inr (r, existed), t)"
  shows "\<not> Completed r"
proof -
  have "\<not> Completed r" if "fst (Begin now flt (claim_record i) (p_ledger s)) = Inr (r, existed)" for now flt
    using that assms(1)
    by (auto simp: Begin_def claim_record_def fresh_op_def Check_def Get_def Completed_def StatusInProgress_def
        StatusCompleted_def persist_records_cases Let_def
        split: option.splits if_splits)
  with assms(2) show ?thesis
    by (force simp: on_ledger_split elim: map_sum_InrE)
qed

text \<open>Which fence facts the parts of a run keep.\<close>

definition guarded :: "Identity \<Rightarrow> 'w Protocol \<Rightarrow> bool" where
  "guarded i s \<longleftrightarrow> state_inv s \<and> mark (p_fences s) (MachineID i) \<le> Generation i"

definition committed_at :: "Identity \<Rightarrow> 'w Protocol \<Rightarrow> bool" where
  "committed_at i s \<longleftrightarrow> state_inv s \<and> pinned (MachineID i) (Generation i) (p_fences s)"

lemma keeps_pinsI:
  assumes "keeps fence_mono m" and "m s = (r, t)"
  shows "keeps_pins s t"
  using assms(1) unfolding keeps_def fence_mono_def by (metis assms(2) snd_conv)

lemma valid_committed:
  assumes "keeps fence_mono m"
  shows "valid (committed_at i) m (\<lambda>_. committed_at i) (\<lambda>_. True)"
proof (rule validI)
  fix s a t
  assume "committed_at i s" and "m s = (Inr a, t)"
  with keeps_pinsI [OF assms] show "committed_at i t" by (simp add: committed_at_def keeps_pins_def)
qed simp

lemma valid_guarded:
  assumes "keeps fence_mono m" and "\<And>s. p_fences (snd (m s)) = p_fences s"
  shows "valid (guarded i) m (\<lambda>_. guarded i) (\<lambda>_. True)"
proof (rule validI)
  fix s a t
  assume "guarded i s" and "m s = (Inr a, t)"
  with keeps_pinsI [OF assms(1)] show "guarded i t" using assms(2) [of s] by (simp add: guarded_def keeps_pins_def)
qed simp

lemma valid_check_ledger:
  "valid (\<lambda>s. state_inv s \<and> fresh_op i s) (check_ledger i)
     (\<lambda>d s. d = None \<and> state_inv s \<and> fresh_op i s) (\<lambda>_. True)"
  by (rule validI) (auto simp: check_ledger_fresh)

lemma valid_check_fence:
  "valid (\<lambda>s. state_inv s \<and> fresh_op i s) (check_fence i) (\<lambda>_ s. guarded i s \<and> fresh_op i s) (\<lambda>_. True)"
  by (rule validI) (auto simp: check_fence_result guarded_def split: if_splits)

lemma valid_begin:
  "valid (\<lambda>s. guarded i s \<and> fresh_op i s) (begin_claim i) (\<lambda>a s. \<not> Completed (fst a) \<and> guarded i s) (\<lambda>_. True)"
proof (rule validI)
  fix s a t
  assume s: "guarded i s \<and> fresh_op i s" and b: "begin_claim i s = (Inr a, t)"
  have "guarded i t"
    using valid_Inr [OF valid_guarded [OF keeps_begin [of i]] conjunct1 [OF s] b] by simp
  with begin_fresh [of i s "fst a" "snd a" t] s b show "\<not> Completed (fst a) \<and> guarded i t" by simp
qed simp

lemma valid_advance: "valid (guarded i) (advance_fence i) (\<lambda>_. committed_at i) (\<lambda>_. True)"
proof (rule validI)
  fix s a t
  assume g: "guarded i s" and a: "advance_fence i s = (Inr a, t)"
  obtain now flt where f: "fst (Advance now flt (MachineID i) (Generation i) (ExecutionID i) (p_fences s)) = Inr ()"
    and t: "p_fences t = snd (Advance now flt (MachineID i) (Generation i) (ExecutionID i) (p_fences s))"
    using a by (auto simp: on_fences_split elim!: map_sum_InrE)
  have "keeps_pins s t" by (rule keeps_pinsI [OF keeps_advance a])
  with g Advance_pins [OF _ f] t show "committed_at i t"
    by (simp add: guarded_def committed_at_def keeps_pins_def)
qed simp

lemmas valid_tail = valid_committed [OF keeps_optional_world] valid_committed [OF keeps_pure]
  valid_committed [OF keeps_complete] valid_committed [OF keeps_put] valid_committed [OF fm.keeps_ret]
  valid_committed [OF keeps_before_result(2)] valid_committed [OF keeps_before_result(3)]

lemma valid_world: "valid (guarded i) (on_world f) (\<lambda>_. guarded i) (\<lambda>_. True)"
  by (rule valid_guarded [OF keeps_on_world]) simp

lemma valid_completeCreate:
  "valid (guarded (cm_Identity op)) (completeCreate op out) (\<lambda>_. committed_at (cm_Identity op)) (\<lambda>_. True)"
  unfolding completeCreate_def
  by (rule valid_andThen [OF valid_advance], (rule valid_andThen [OF valid_tail(1)]
      | rule valid_andThen [OF valid_tail(2)] | rule valid_andThen [OF valid_tail(3)] | rule valid_tail)+)

lemma valid_deferring:
  assumes "valid P m (\<lambda>_. committed_at i) (\<lambda>_. True)"
  shows "valid P (deferring rel m) (\<lambda>_. committed_at i) (\<lambda>_. True)"
  using assms
  by (force simp: valid_def deferring_def committed_at_def state_inv_def split_beta Let_def prod_eq_iff
      split: option.splits)

lemma valid_execute_create:
  "valid (guarded (cm_Identity op)) (execute_create op) (\<lambda>_. committed_at (cm_Identity op)) (\<lambda>_. True)"
proof -
  have prep: "valid (guarded (cm_Identity op)) (case cm_Prepare op of None \<Rightarrow> ret None | Some p \<Rightarrow> on_world p)
      (\<lambda>_. guarded (cm_Identity op)) (\<lambda>_. True)"
    by (cases "cm_Prepare op") (simp_all add: valid_world valid_ret)
  show ?thesis
    unfolding execute_create_def
    by (intro valid_andThen [OF prep] valid_deferring valid_andThen [OF valid_world] valid_completeCreate)
qed
lemma valid_pull: "(A \<Longrightarrow> valid P m Q E) \<Longrightarrow> valid (\<lambda>s. A \<and> P s) m Q E"
  by (auto simp: valid_def)

lemma valid_RunCreateMachine:
  "valid (\<lambda>s. state_inv s \<and> fresh_op (cm_Identity op) s) (RunCreateMachine op)
     (\<lambda>_. committed_at (cm_Identity op)) (\<lambda>_. True)"
proof -
  let ?i = "cm_Identity op"
  have rec: "valid (guarded ?i) (andThen (on_world recover) (\<lambda>recovered.
      if rv_Found recovered then completeCreate op (rv_Value recovered) else execute_create op))
      (\<lambda>_. committed_at ?i) (\<lambda>_. True)" for recover
    by (rule valid_andThen [OF valid_world]) (simp add: valid_completeCreate valid_execute_create)
  show ?thesis
    unfolding RunCreateMachine_def
    apply (rule valid_andThen [OF valid_check_ledger], rule valid_pull, simp)
    apply (rule valid_andThen [OF valid_check_fence], rule valid_andThen [OF valid_begin])
    apply (rule valid_pull)
    apply (simp add: split_beta rec valid_execute_create split: option.split bool.split)
    done
qed

lemma valid_RunDeleteMachine:
  "valid (\<lambda>s. state_inv s \<and> fresh_op (dm_Identity op) s) (RunDeleteMachine op)
     (\<lambda>_. committed_at (dm_Identity op)) (\<lambda>_. True)"
  unfolding RunDeleteMachine_def
  apply (rule valid_andThen [OF valid_check_ledger], rule valid_pull, simp)
  apply (rule valid_andThen [OF valid_check_fence], rule valid_weaken [where P = "guarded (dm_Identity op)"])
  apply (rule valid_andThen [OF valid_world], rule valid_andThen [OF valid_world])
  apply (rule valid_andThen [OF valid_guarded [OF keeps_put]], simp)
  apply (rule valid_andThen [OF valid_guarded [OF keeps_prune]], simp add: prune_after_delete_def)
  apply (rule valid_andThen [OF valid_advance], rule valid_tail)
  apply simp_all
  done

lemma valid_RunCopyTo:
  "valid (\<lambda>s. state_inv s \<and> fresh_op (lc_Identity op) s) (RunCopyTo op)
     (\<lambda>_. committed_at (lc_Identity op)) (\<lambda>_. True)"
  unfolding RunCopyTo_def
  apply (rule valid_andThen [OF valid_check_ledger], rule valid_pull, simp)
  apply (rule valid_andThen [OF valid_check_fence], rule valid_weaken [where P = "guarded (lc_Identity op)"])
  apply (rule valid_andThen [OF valid_world], rule valid_andThen [OF valid_advance])
  apply (rule valid_andThen [OF valid_tail(2)], rule valid_andThen [OF valid_tail(4)], rule valid_tail)
  apply simp_all
  done

text \<open>\<open>Lifecycle\<close> and \<open>Replacement\<close> runs share the claimed mutation that advances the fence.\<close>

lemma valid_get_ledger:
  "valid (\<lambda>s. state_inv s \<and> fresh_op i s) (get_ledger i)
     (\<lambda>d s. (\<forall>r. d = Some r \<longrightarrow> \<not> Completed r) \<and> state_inv s \<and> fresh_op i s) (\<lambda>_. True)"
  by (rule validI) (auto simp: ask_def dest!: fresh_op_Get)

lemma valid_runClaimed:
  assumes "cl_Fence op = None" and "keeps fence_mono (whenSome bC)"
  shows "valid (\<lambda>s. state_inv s \<and> fresh_op (cl_Identity op) s)
     (runClaimed op True (Some (advance_fence (cl_Identity op))) bC) (\<lambda>_. committed_at (cl_Identity op)) (\<lambda>_. True)"
proof -
  let ?i = "cl_Identity op" and ?bR = "Some (advance_fence (cl_Identity op))"
  have comp: "valid (guarded ?i) (completeClaimed op out ?bR bC) (\<lambda>_. committed_at ?i) (\<lambda>_. True)" for out
    unfolding completeClaimed_def whenSome_def [of "Some _"] option.case
    apply (rule valid_andThen [OF valid_advance], rule valid_andThen [OF valid_committed [OF assms(2)]])
    apply (rule valid_andThen [OF valid_tail(2)], rule valid_andThen [OF valid_tail(3)], rule valid_tail)
    done
  have exec: "valid (guarded ?i) (execute_claimed op ?bR bC) (\<lambda>_. committed_at ?i) (\<lambda>_. True)"
    unfolding execute_claimed_def by (rule valid_andThen [OF valid_world comp])
  have rec: "valid (guarded ?i) (andThen (on_world recover) (\<lambda>recovered.
      if rv_Found recovered then completeClaimed op (rv_Value recovered) ?bR bC else execute_claimed op ?bR bC))
      (\<lambda>_. committed_at ?i) (\<lambda>_. True)" for recover
    by (rule valid_andThen [OF valid_world]) (simp add: comp exec)
  have run: "valid (\<lambda>s. state_inv s \<and> fresh_op ?i s) (claim_and_run op True ?bR bC)
      (\<lambda>_. committed_at ?i) (\<lambda>_. True)"
    unfolding claim_and_run_def assms(1) if_True option.case
    apply (rule valid_andThen [OF valid_check_fence], rule valid_andThen [OF valid_begin], rule valid_pull)
    apply (simp add: split_beta rec exec split: option.split bool.split)
    done
  show ?thesis
    unfolding runClaimed_def
    apply (rule valid_andThen [OF valid_get_ledger], rule valid_pull)
    apply (simp add: run split: option.split)
    done
qed

lemma valid_RunLifecycle:
  "valid (\<lambda>s. state_inv s \<and> fresh_op (lc_Identity op) s) (RunLifecycle op)
     (\<lambda>_. committed_at (lc_Identity op)) (\<lambda>_. True)"
  using valid_runClaimed [of "\<lparr>cl_Identity = lc_Identity op, cl_SerializationKey = '''', cl_Fence = None,
      cl_Recover = lc_Recover op, cl_Effect = lc_Effect op, cl_Codec = lc_Codec op\<rparr>" None]
  by (simp add: RunLifecycle_def keeps_before_result)

lemma valid_RunReplacement:
  "valid (\<lambda>s. state_inv s \<and> fresh_op (rp_Identity op) s) (RunReplacement op)
     (\<lambda>_. committed_at (rp_Identity op)) (\<lambda>_. True)"
  using valid_runClaimed [of "\<lparr>cl_Identity = rp_Identity op, cl_SerializationKey = '''', cl_Fence = None,
      cl_Recover = rp_Recover op, cl_Effect = rp_Effect op, cl_Codec = rp_Codec op\<rparr>"
      "map_option on_world (rp_PersistCredential op)"]
  by (simp add: RunReplacement_def keeps_before_result)

lemma valid_error_of:
  assumes "error_of (m s) = (None, t)" and "valid P m (\<lambda>_. Q) (\<lambda>_. True)" and "P s"
  shows "Q t"
  using assms by (cases "m s") (auto simp: error_of_def valid_def split: sum.splits)

lemma advancing_success:
  assumes "advances rq" and "fence_identity rq = Some i" and "state_inv s" and "fresh_op i s"
    and "run_request rq s = (None, t)"
  shows "committed_at i t"
  using assms
  by (cases rq)
     (auto dest: valid_error_of [OF _ valid_RunCreateMachine] valid_error_of [OF _ valid_RunDeleteMachine]
       valid_error_of [OF _ valid_RunCopyTo] valid_error_of [OF _ valid_RunLifecycle]
       valid_error_of [OF _ valid_RunReplacement])

text \<open>A fresh request that is older than the mark ends at the fence.\<close>

abbreviation stale_error :: "Identity \<Rightarrow> 'w Protocol \<Rightarrow> proto_err" where
  "stale_error i s \<equiv> StateErr (ErrStaleGeneration (MachineID i) (mark (p_fences s) (MachineID i)) (Generation i))"

lemma check_fence_stale:
  "Generation i < mark (p_fences s) (MachineID i) \<Longrightarrow> check_fence i s = (Inl (stale_error i s), s)"
  by (simp add: check_fence_result)

lemma stale_refused:
  assumes "fence_identity rq = Some i" and "fresh_op i s" and "Generation i < mark (p_fences s) (MachineID i)"
    and "\<not> claims_first rq"
  shows "run_request rq s = (Some (stale_error i s), s)"
proof -
  note cf = check_fence_stale [OF assms(3)]
  obtain d where g: "get_ledger i s = (Inr d, s)" and d: "\<And>r. d = Some r \<Longrightarrow> \<not> Completed r"
    using fresh_op_Get [OF assms(2)] by (auto simp: ask_def)
  have claimed: "runClaimed op True bR bC s = (Inl (stale_error i s), s)"
    if "cl_Identity op = i" and "cl_Fence op = None" for op :: "('a, 'b) ClaimedMutation" and bR bC
    using that g d cf by (auto simp: runClaimed_def claim_and_run_def andThen_def split: option.splits)
  show ?thesis
    using assms(1,4) check_ledger_fresh [OF assms(2)] cf claimed
    by (cases rq)
       (auto simp: RunCreateMachine_def RunDeleteMachine_def RunCopyTo_def RunLifecycle_def RunReplacement_def
         RunMachineMutation_def andThen_def error_of_def split: option.splits)
qed

text \<open>A stale delete under a claim files its claim, and stops at the fence unless the record is
  already completed.\<close>

lemma stale_runDelete:
  assumes "Generation (dl_Identity op) < mark (p_fences s) (MachineID (dl_Identity op))"
  shows "runDelete op True s =
    (case begin_claim (dl_Identity op) s of
       (Inl e, t) \<Rightarrow> (Inl e, t)
     | (Inr (r, existed), t) \<Rightarrow>
         if Completed r then (Inr (), t) else (Inl (stale_error (dl_Identity op) s), t))"
proof -
  have "p_fences t = p_fences s" if "begin_claim (dl_Identity op) s = (x, t)" for x t
    using on_ledger_frame(1) that by (metis snd_conv)
  then show ?thesis
    using assms
    by (auto simp: runDelete_def andThen_def ret_def check_fence_result split: prod.splits sum.splits)
qed

lemma stale_delete_frame:
  assumes "Generation (dl_Identity op) < mark (p_fences s) (MachineID (dl_Identity op))"
  shows "p_fences (snd (runDelete op True s)) = p_fences s" "p_world (snd (runDelete op True s)) = p_world s"
    "runDelete (op\<lparr>dl_Effect := d\<rparr>) True s = runDelete op True s"
proof -
  note frame = on_ledger_frame [of "\<lambda>now flt. Begin now flt (claim_record (dl_Identity op))" s]
  show "p_fences (snd (runDelete op True s)) = p_fences s" "p_world (snd (runDelete op True s)) = p_world s"
    using frame
    by (cases "begin_claim (dl_Identity op) s", auto simp: stale_runDelete [OF assms] split: sum.splits)+
  have same: "dl_Identity (op\<lparr>dl_Effect := d\<rparr>) = dl_Identity op" by simp
  from stale_runDelete [of "op\<lparr>dl_Effect := d\<rparr>", unfolded same, OF assms]
  show "runDelete (op\<lparr>dl_Effect := d\<rparr>) True s = runDelete op True s"
    unfolding stale_runDelete [OF assms] .
qed

lemma stale_delete_fails:
  assumes "Generation (dl_Identity op) < mark (p_fences s) (MachineID (dl_Identity op))" and "fresh_op (dl_Identity op) s"
  shows "fst (error_of (runDelete op True s)) \<noteq> None"
  using begin_fresh [OF assms(2)]
  by (auto simp: stale_runDelete [OF assms(1)] error_of_def split: prod.splits sum.splits)

text \<open>What a stale request does never depends on its effect, replays included, and the
  fences stay as they are.\<close>

lemma stale_runClaimed:
  assumes "Generation (cl_Identity op) < mark (p_fences s) (MachineID (cl_Identity op))" and "cl_Fence op = None"
  shows "runClaimed op True bR bC s =
    (case Get (OperationID (cl_Identity op)) (RequestHash (cl_Identity op)) (p_ledger s) of
       Inl x \<Rightarrow> Inl (StateErr x)
     | Inr (Some r) \<Rightarrow> if Completed r then Decode (cl_Codec op) (rec_Result r) else Inl (stale_error (cl_Identity op) s)
     | Inr None \<Rightarrow> Inl (stale_error (cl_Identity op) s), s)"
  using check_fence_stale [OF assms(1)] assms(2)
  by (auto simp: runClaimed_def claim_and_run_def andThen_def ask_def pure_result_def
      split: option.splits sum.splits prod.splits)

lemma stale_without_effect:
  assumes "fence_identity rq = Some i" and "Generation i < mark (p_fences s) (MachineID i)"
  shows "run_request (with_effect e d rq) s = run_request rq s \<and> p_fences (snd (run_request rq s)) = p_fences s"
proof -
  note cf = check_fence_stale [OF assms(2)]
  show ?thesis
    using assms cf
    by (cases rq)
       (auto simp: RunCreateMachine_def replay_create_def RunDeleteMachine_def RunCopyTo_def RunLifecycle_def
         RunReplacement_def RunMachineMutation_def RunMachineDelete_def stale_delete_frame
         andThen_def ask_def pure_result_def ret_def optional_world_def whenSome_def on_world_result
         stale_runClaimed split: option.splits sum.splits prod.splits)
qed

section \<open>A concrete run\<close>

definition demo_identity :: "string \<Rightarrow> u64 \<Rightarrow> Identity" where
  "demo_identity k g = \<lparr>OperationID = k, MachineID = ''m1'', ExecutionID = ''e1'', Generation = g,
     Kind = ''create'', RequestHash = ''h1'', Coordinates = ''{}''\<rparr>"

text \<open>The world is the number of instances started and whether one is in the inventory.\<close>

definition demo_create :: "string \<Rightarrow> u64 \<Rightarrow> (nat \<times> bool, string) CreateMachine" where
  "demo_create k g = \<lparr>cm_Identity = demo_identity k g, cm_Prepare = None,
     cm_Recover = Some (\<lambda>(n, p). (Inr \<lparr>rv_Value = ''vm'', rv_Found = p\<rparr>, (n, p))),
     cm_Effect = (\<lambda>(n, p). (Inr ''vm'', (Suc n, True))), cm_PersistCredential = None,
     cm_Codec = \<lparr>Encode = Inr, Decode = Inr\<rparr>\<rparr>"

definition demo_state :: "(nat \<times> bool) Protocol" where
  "demo_state = \<lparr>p_ledger = empty_ledger, p_fences = empty_fences, p_script = [], p_world = (0, False)\<rparr>"

lemma demo_state_inv: "state_inv demo_state"
  by (simp add: state_inv_def demo_state_def)

definition demo_first :: "(nat \<times> bool) Protocol" where
  "demo_first = snd (run_request (RqCreate (demo_create ''op1'' 5)) demo_state)"

lemma demo_first_ok: "fst (run_request (RqCreate (demo_create ''op1'' 5)) demo_state) = None"
  by code_simp
definition demo_reboot :: "(nat \<times> bool) Protocol" where
  "demo_reboot = demo_first\<lparr>
     p_ledger := \<lparr>records = records (p_ledger demo_first), ledger_file = settle (fs_cur (ledger_file (p_ledger demo_first)))\<rparr>,
     p_fences := \<lparr>fence_entries = fence_entries (p_fences demo_first),
                  fence_file = settle (fs_cur (fence_file (p_fences demo_first)))\<rparr>\<rparr>"

lemma demo_files:
  "fs_cur (ledger_file (p_ledger demo_first)) \<in> set (fs_dur (ledger_file (p_ledger demo_first)))"
  "fs_cur (fence_file (p_fences demo_first)) \<in> set (fs_dur (fence_file (p_fences demo_first)))"
  "Content (records (p_ledger demo_first)) \<in> set (read_inode (fs_cur (ledger_file (p_ledger demo_first))))"
  "Content (fence_entries (p_fences demo_first)) \<in> set (read_inode (fs_cur (fence_file (p_fences demo_first))))"
  "Open (Content (records (p_ledger demo_first))) (settle (fs_cur (ledger_file (p_ledger demo_first)))) =
     Inr (p_ledger demo_reboot)"
  "OpenFences (Content (fence_entries (p_fences demo_first))) (settle (fs_cur (fence_file (p_fences demo_first)))) =
     Inr (p_fences demo_reboot)"
  by code_simp+

lemma demo_run:
  "agent_run demo_first [PowerLoss (fs_cur (ledger_file (p_ledger demo_first))) (fs_cur (fence_file (p_fences demo_first)))]
     demo_reboot"
proof -
  have "demo_reboot = demo_first\<lparr>p_ledger := p_ledger demo_reboot, p_fences := p_fences demo_reboot\<rparr>"
    by (simp add: demo_reboot_def)
  with agent_step.power_loss [OF demo_files] show ?thesis
    using agent_run.run_cons agent_run.run_nil by metis
qed

lemma demo_spares:
  "\<forall>e\<in>set [PowerLoss (fs_cur (ledger_file (p_ledger demo_first))) (fs_cur (fence_file (p_fences demo_first)))].
     spares (MachineID (demo_identity ''op1'' 5)) e"
  by simp

lemma demo_first_run: "run_request (RqCreate (demo_create ''op1'' 5)) demo_state = (None, demo_first)"
  using demo_first_ok unfolding demo_first_def by (metis prod.collapse)

lemma demo_facts:
  "advances (RqCreate (demo_create ''op1'' 5))"
  "fence_identity (RqCreate (demo_create ''op1'' 5)) = Some (demo_identity ''op1'' 5)"
  "fresh_op (demo_identity ''op1'' 5) demo_state"
  "fence_identity (RqCreate (demo_create ''op2'' 3)) = Some (demo_identity ''op2'' 3)"
  "MachineID (demo_identity ''op2'' 3) = MachineID (demo_identity ''op1'' 5)"
  "Generation (demo_identity ''op2'' 3) < Generation (demo_identity ''op1'' 5)"
  "fresh_op (demo_identity ''op2'' 3) demo_reboot"
  "mark (p_fences demo_reboot) ''m1'' = 5"
  by code_simp+

section \<open>Properties\<close>

text \<open>
  The agent's state invariant and every pinned generation survive any life of the
  agent: any sequence of requests of all kinds with failing state files and arbitrary
  callbacks, process restarts, power losses at any point, and sweeps whose inventory lists the
  machine.
\<close>

lemma agent_run_invariant:
  assumes "agent_run s es t" and "state_inv s" and "\<forall>e\<in>set es. spares k e"
  shows "state_inv t \<and> (\<forall>g. pinned k g (p_fences s) \<longrightarrow> pinned k g (p_fences t))"
  using agent_run_keeps_pin [OF assms(1,3)] assms(2) by (simp add: keeps_pin_def)

lemma agent_run_invariant_witness:
  "state_inv demo_reboot \<and> pinned ''m1'' 5 (p_fences demo_reboot)"
proof -
  have "committed_at (demo_identity ''op1'' 5) demo_first"
    by (rule advancing_success [OF demo_facts(1,2) demo_state_inv demo_facts(3) demo_first_run])
  then have "pinned ''m1'' 5 (p_fences demo_first)" and "state_inv demo_first"
    by (simp_all add: committed_at_def demo_identity_def del: run_request.simps)
  with agent_run_invariant [OF demo_run, of "''m1''"] show ?thesis by simp
qed

text \<open>
  Claim C1. The generation fence. A create, machine delete, lifecycle action, replacement or
  copy of generation \<open>g\<close> returns success on its first execution (it is not a replay); then any
  requests of any kind, file faults, restarts, power losses and retention sweeps follow, where
  the machine is in the inventory of every sweep that prunes fences; then an older
  request of the same machine arrives at an entry point that checks the machine's fence:
  create, machine delete, lifecycle, replacement, copy, a machine mutation without a fence of its
  own, or a delete under a claim. (Exec claims, resource and fabric requests do not look at that
  fence.) Whatever the ledger holds, the request answers the same whichever effect it
  carries, so its effect is not run, and the fences stay. Unless it is the replay of a completed
  record or in conflict with another request it ends in an error with the world untouched:
  the stale-generation error in an unchanged state, except that a delete under a claim
  files its claim first.
\<close>

theorem stale_generation_fenced_out:
  assumes "state_inv s" and "advances rq" and "fence_identity rq = Some i" and "fresh_op i s"
    and "run_request rq s = (None, t)"
    and "agent_run t es u" and "\<forall>e\<in>set es. spares (MachineID i) e"
    and "fence_identity old = Some j" and "MachineID j = MachineID i" and "Generation j < Generation i"
  shows "run_request (with_effect e d old) u = run_request old u \<and>
    p_fences (snd (run_request old u)) = p_fences u \<and>
    (fresh_op j u \<longrightarrow>
       fst (run_request old u) \<noteq> None \<and> p_world (snd (run_request old u)) = p_world u \<and>
       (\<not> claims_first old \<longrightarrow> run_request old u =
          (Some (StateErr (ErrStaleGeneration (MachineID j) (mark (p_fences u) (MachineID j)) (Generation j))), u)))"
proof -
  have "committed_at i t" by (rule advancing_success [OF assms(2,3,1,4,5)])
  with agent_run_keeps_pin [OF assms(6,7)] have "pinned (MachineID i) (Generation i) (p_fences u)"
    by (simp add: committed_at_def keeps_pin_def)
  then have stale: "Generation j < mark (p_fences u) (MachineID j)"
    using assms(9,10) pinned_mark by fastforce
  have claimed: "fst (run_request old u) \<noteq> None \<and> p_world (snd (run_request old u)) = p_world u"
    if "claims_first old" and "fresh_op j u"
    using that assms(8) stale stale_delete_frame(2) stale_delete_fails
    by (cases old) (auto simp: RunMachineDelete_def)
  show ?thesis
    using stale_without_effect [OF assms(8) stale] stale_refused [OF assms(8) _ stale] claimed by fastforce
qed

theorem stale_generation_fenced_out_witness:
  "run_request (RqCreate (demo_create ''op2'' 3)) demo_reboot =
    (Some (StateErr (ErrStaleGeneration ''m1'' 5 3)), demo_reboot)"
  using stale_generation_fenced_out [OF demo_state_inv demo_facts(1-3) demo_first_run demo_run demo_spares demo_facts(4-6)]
    demo_facts(7,8)
  by (simp add: demo_identity_def del: run_request.simps)

text \<open>
  Replay: a create whose operation is recorded as completed returns the decoded
  record without touching the ledger, the fences or the effect; only the credential callback
  runs (and its failure is the only failure besides decoding).
\<close>

lemma create_replay_runs_no_effect:
  assumes "Check (OperationID (cm_Identity op)) (RequestHash (cm_Identity op)) (p_ledger s) = Inr (Some raw)"
  shows "RunCreateMachine op s =
    (case cm_PersistCredential op of
       None \<Rightarrow> (Decode (cm_Codec op) raw, s)
     | Some cred \<Rightarrow>
         (case cred (p_world s) of
            (Inl e, w) \<Rightarrow> (Inl e, s\<lparr>p_world := w\<rparr>)
          | (Inr _, w) \<Rightarrow> (Decode (cm_Codec op) raw, s\<lparr>p_world := w\<rparr>)))"
proof -
  have "check_ledger (cm_Identity op) s = (Inr (Some raw), s)" using assms by (simp add: ask_def)
  then show ?thesis
    by (auto simp: RunCreateMachine_def replay_create_def optional_world_def whenSome_def andThen_def ret_def
        pure_result_def on_world_result split: option.splits prod.splits sum.splits)
qed

lemma create_replay_runs_no_effect_witness:
  "RunCreateMachine (demo_create ''op1'' 5) demo_reboot = (Inr ''vm'', demo_reboot)"
proof -
  have c: "Check (OperationID (cm_Identity (demo_create ''op1'' 5))) (RequestHash (cm_Identity (demo_create ''op1'' 5)))
      (p_ledger demo_reboot) = Inr (Some ''vm'')" by code_simp
  show ?thesis using create_replay_runs_no_effect [OF c] by (simp add: demo_create_def)
qed

lemma PruneMachineExcept_keeps_own:
  assumes "ledger_ok l" and "Check k h l = r"
  shows "Check k h (snd (PruneMachineExcept flt m k l)) = r"
proof -
  have "mget (records (snd (PruneMachineExcept flt m k l))) k = mget (records l) k"
    using prune_records_lookup [OF assms(1)] by (auto simp: PruneMachineExcept_def split: option.splits)
  with assms(2) show ?thesis by (simp add: Check_def Get_def)
qed

text \<open>
  Claim C39. A limit of the machine delete: it files the completed record before it advances
  the fence. When that last write fails the call reports an error, but every retry finds the
  record, returns success at once and never advances the fence, whose marks stay as before the
  delete.
\<close>

theorem delete_retry_leaves_fence:
  assumes "state_inv s" and "fresh_op (dm_Identity op) s"
    and "mark (p_fences s) (MachineID (dm_Identity op)) \<le> Generation (dm_Identity op)"
    and "fst (dm_Effect op (p_world s)) = Inr ()"
    and "p_script s = [(t1, NoFault), (t2, f2), (t3, flt)]" and "flt \<noteq> NoFault"
  shows "\<exists>u. RunDeleteMachine op s = (Inl (StateErr (ErrPersist flt)), u) \<and>
     RunDeleteMachine op u = (Inr True, u) \<and> (\<forall>k. mark (p_fences u) k = mark (p_fences s) k)"
proof -
  let ?i = "dm_Identity op"
  let ?l1 = "snd (Put t1 NoFault (OperationID ?i) (MachineID ?i) (RequestHash ?i) ''{}'' (p_ledger s))"
  let ?l2 = "snd (PruneMachineExcept f2 (MachineID ?i) (OperationID ?i) ?l1)"
  let ?f = "snd (Advance t3 flt (MachineID ?i) (Generation ?i) (ExecutionID ?i) (p_fences s))"
  have put: "fst (Put t1 NoFault (OperationID ?i) (MachineID ?i) (RequestHash ?i) ''{}'' (p_ledger s)) = Inr ()"
    and done1: "Check (OperationID ?i) (RequestHash ?i) ?l1 = Inr (Some ''{}'')"
    using assms(2) by (auto simp: fresh_op_def Check_def Get_def Put_def persist_records_cases Let_def
        split: option.splits if_splits)
  have "ledger_ok ?l1" using assms(1) by (simp add: state_inv_def)
  from PruneMachineExcept_keeps_own [OF this done1]
  have done2: "Check (OperationID ?i) (RequestHash ?i) ?l2 = Inr (Some ''{}'')" .
  have adv: "fst (Advance t3 flt (MachineID ?i) (Generation ?i) (ExecutionID ?i) (p_fences s)) = Inl (ErrPersist flt)"
    using assms(3,6) by (auto simp: Advance_result)
  define w where "w = (case dm_DropCredential op of None \<Rightarrow> snd (dm_Effect op (p_world s))
      | Some d \<Rightarrow> d (snd (dm_Effect op (p_world s))))"
  define u where "u = s\<lparr>p_world := w, p_ledger := ?l2, p_fences := ?f, p_script := []\<rparr>"
  have "RunDeleteMachine op s = (Inl (StateErr (ErrPersist flt)), u)"
    using check_ledger_fresh [OF assms(2)] assms(3-5) put adv
    by (simp add: RunDeleteMachine_def andThen_def check_fence_result on_world_result on_ledger_split on_fences_split
        prune_after_delete_def next_io_def u_def w_def not_less [symmetric] split: option.splits)
  moreover have "RunDeleteMachine op u = (Inr True, u)"
    using done2 by (simp add: RunDeleteMachine_def andThen_def ask_def ret_def u_def)
  moreover have "mark (p_fences u) k = mark (p_fences s) k" for k
    using adv by (simp add: u_def Advance_mark)
  ultimately show ?thesis by blast
qed

definition demo_delete :: "(nat \<times> bool) DeleteMachine" where
  "demo_delete = \<lparr>dm_Identity = demo_identity ''op7'' 5, dm_Effect = (\<lambda>(n, p). (Inr (), (n, False))),
     dm_DropCredential = None\<rparr>"

theorem delete_retry_leaves_fence_witness:
  "\<exists>u. RunDeleteMachine demo_delete (demo_state\<lparr>p_script := [(1, NoFault), (2, NoFault), (3, FSyncFile)]\<rparr>) =
       (Inl (StateErr (ErrPersist FSyncFile)), u) \<and>
     RunDeleteMachine demo_delete u = (Inr True, u) \<and> mark (p_fences u) ''m1'' = 0"
proof -
  let ?s = "demo_state\<lparr>p_script := [(1, NoFault), (2, NoFault), (3, FSyncFile)]\<rparr>"
  have "state_inv ?s" using demo_state_inv by (simp add: state_inv_def)
  moreover have "fresh_op (dm_Identity demo_delete) ?s"
    "mark (p_fences ?s) (MachineID (dm_Identity demo_delete)) \<le> Generation (dm_Identity demo_delete)"
    "fst (dm_Effect demo_delete (p_world ?s)) = Inr ()" "mark (p_fences ?s) ''m1'' = 0"
    by code_simp+
  ultimately show ?thesis
    using delete_retry_leaves_fence [of ?s demo_delete 1 2 NoFault 3 FSyncFile] by auto
qed

end
