(* ===== verification/ExactlyOnce.thy ===== *)
theory ExactlyOnce
  imports Mutation
begin

text \<open>
  The create protocol runs its effect at most once across failures and power losses, and
  a retry without faults brings it to completion. The callbacks are arbitrary functions on
  the world that satisfy a contract: how many instances have been started, and whether one
  is in the inventory, change only by the effect, and the recovery looks the inventory up.
\<close>

section \<open>The contract of the callbacks\<close>



section \<open>The life of one create operation\<close>






section \<open>The invariant\<close>


















section \<open>The parts of a run\<close>












section \<open>A whole attempt\<close>









section \<open>Power losses and whole lives\<close>









section \<open>Convergence\<close>


















section \<open>Properties\<close>














text \<open>The states of a run in which a claim is lost: the failed claim, the process restart, the
  attempt that stops at the fence write, the power loss.\<close>

definition lost_1 :: "(nat \<times> bool) Protocol" where
  "lost_1 = snd (run_request (RqCreate (demo_create ''op1'' 5)) (demo_state\<lparr>p_script := [(1, FSyncDir)]\<rparr>))"

definition lost_2 :: "(nat \<times> bool) Protocol" where
  "lost_2 = lost_1\<lparr>p_ledger := projr (Open (read_live (ledger_file (p_ledger lost_1))) (ledger_file (p_ledger lost_1))),
     p_fences := projr (OpenFences (read_live (fence_file (p_fences lost_1))) (fence_file (p_fences lost_1)))\<rparr>"

definition lost_3 :: "(nat \<times> bool) Protocol" where
  "lost_3 = snd (run_request (RqCreate (demo_create ''op1'' 5)) (lost_2\<lparr>p_script := [(2, NoFault), (2, FWrite)]\<rparr>))"

definition lost_4 :: "(nat \<times> bool) Protocol" where
  "lost_4 = lost_3\<lparr>p_ledger := empty_ledger, p_fences := empty_fences\<rparr>"

lemma lost_steps:
  "Open (read_live (ledger_file (p_ledger lost_1))) (ledger_file (p_ledger lost_1)) = Inr (p_ledger lost_2)"
  "OpenFences (read_live (fence_file (p_fences lost_1))) (fence_file (p_fences lost_1)) = Inr (p_fences lost_2)"
  "None \<in> set (fs_dur (ledger_file (p_ledger lost_3)))"
  "None \<in> set (fs_dur (fence_file (p_fences lost_3)))"
  "(NotExist :: (string, Record) gomap readback) \<in> set (read_inode None)"
  "(NotExist :: (string, FenceEntry) gomap readback) \<in> set (read_inode None)"
  "Open NotExist (settle None) = Inr (p_ledger lost_4)"
  "OpenFences NotExist (settle None) = Inr (p_fences lost_4)"
  "p_world (snd (run_request (RqCreate (demo_create ''op1'' 5)) lost_4)) = (2, True)"
  by code_simp+

lemma lost_frames:
  "lost_1\<lparr>p_ledger := p_ledger lost_2, p_fences := p_fences lost_2\<rparr> = lost_2"
  "lost_3\<lparr>p_ledger := p_ledger lost_4, p_fences := p_fences lost_4\<rparr> = lost_4"
  by (simp_all add: lost_2_def lost_4_def)

text \<open>
  A limit of the claim: when the directory fsync of \<open>Begin\<close> fails and the process
  (not the machine) restarts, \<open>Open\<close> trusts the renamed file although its binding is not durable;
  the retry runs the effect under that claim, and a power loss before the next successful
  ledger write takes the claim away, so that the next attempt runs the effect a second time.
\<close>

lemma create_runs_twice_after_unsynced_claim:
  "\<exists>t. agent_run demo_state
     [Schedule [(1, FSyncDir)], Request (RqCreate (demo_create ''op1'' 5)), Restart,
      Schedule [(2, NoFault), (2, FWrite)], Request (RqCreate (demo_create ''op1'' 5)), PowerLoss None None,
      Request (RqCreate (demo_create ''op1'' 5))] t \<and> p_world t = (2, True)"
proof (intro exI conjI)
  let ?c = "RqCreate (demo_create ''op1'' 5)"
  note steps = agent_step.restart [OF lost_steps(1,2), unfolded lost_frames]
    agent_step.power_loss [OF lost_steps(3-8), unfolded lost_frames]
  have r1: "agent_step (demo_state\<lparr>p_script := [(1, FSyncDir)]\<rparr>) (Request ?c) lost_1"
    unfolding lost_1_def by (rule agent_step.request)
  have r3: "agent_step (lost_2\<lparr>p_script := [(2, NoFault), (2, FWrite)]\<rparr>) (Request ?c) lost_3"
    unfolding lost_3_def by (rule agent_step.request)
  show "agent_run demo_state
     [Schedule [(1, FSyncDir)], Request ?c, Restart, Schedule [(2, NoFault), (2, FWrite)], Request ?c,
      PowerLoss None None, Request ?c] (snd (run_request ?c lost_4))"
    by (rule run_cons [OF agent_step.schedule], rule run_cons [OF r1], rule run_cons [OF steps(1)],
        rule run_cons [OF agent_step.schedule], rule run_cons [OF r3], rule run_cons [OF steps(2)],
        rule run_cons [OF agent_step.request], rule run_nil)
  show "p_world (snd (run_request ?c lost_4)) = (2, True)" by (rule lost_steps(9))
qed
end
