(* ===== verification/Floats.thy ===== *)
theory Floats
  imports Prelude "HOL-Library.Log_Nat"
begin

text \<open>
  Go's \<open>float64\<close> on the values the sources compute with: finite numbers of normal
  magnitude. A float is the rational number it denotes, and every conversion and operation
  rounds its exact result with \<open>fl64\<close>, to the nearest number with a 53-bit significand,
  ties to even. Infinities, NaN and subnormal numbers do not occur in the modelled code: its
  divisors are positive.
\<close>

definition round_half_even :: "rat \<Rightarrow> int" where
  "round_half_even q =
     (let f = \<lfloor>q\<rfloor>; d = q - of_int f
      in if d < 1 / 2 then f else if 1 / 2 < d then f + 1 else if even f then f else f + 1)"

text \<open>The exponent of the leading binary digit of a positive number.\<close>

definition exponent2 :: "rat \<Rightarrow> int" where
  "exponent2 x = (if 1 \<le> x then int (floorlog 2 (nat \<lfloor>x\<rfloor>)) - 1
                  else - int (floorlog 2 (nat \<lceil>1 / x\<rceil> - 1)))"

definition pow2 :: "int \<Rightarrow> rat" where
  "pow2 e = (if 0 \<le> e then 2 ^ nat e else 1 / 2 ^ nat (- e))"

definition fl64_pos :: "rat \<Rightarrow> rat" where
  "fl64_pos x = (let ulp = pow2 (exponent2 x - 52) in of_int (round_half_even (x / ulp)) * ulp)"

definition fl64 :: "rat \<Rightarrow> rat" where
  "fl64 x = (if x = 0 then 0 else if 0 < x then fl64_pos x else - fl64_pos (- x))"

text \<open>Conversions from unsigned integers, and the operations.\<close>

definition float_of_nat :: "nat \<Rightarrow> rat" where
  "float_of_nat n = fl64 (of_nat n)"

definition float_of_int :: "int \<Rightarrow> rat" where
  "float_of_int i = fl64 (of_int i)"

definition fadd :: "rat \<Rightarrow> rat \<Rightarrow> rat" where
  "fadd a b = fl64 (a + b)"

definition fmul :: "rat \<Rightarrow> rat \<Rightarrow> rat" where
  "fmul a b = fl64 (a * b)"

definition fdiv :: "rat \<Rightarrow> rat \<Rightarrow> rat" where
  "fdiv a b = fl64 (a / b)"

text \<open>\<open>time.Duration.Seconds\<close> of a duration in nanoseconds.\<close>

definition Seconds :: "int \<Rightarrow> rat" where
  "Seconds d =
     (let secs = (\<lambda>n. fadd (float_of_int (n div 1000000000)) (fdiv (float_of_int (n mod 1000000000)) 1000000000)) in
      if d < 0 then - secs (- d) else secs d)"

lemma pow2_pos [simp]: "0 < pow2 e"
  by (simp add: pow2_def)

lemma pow2_add: "0 \<le> a \<Longrightarrow> 0 \<le> b \<Longrightarrow> pow2 (a + b) = pow2 a * pow2 b"
  by (simp add: pow2_def nat_add_distrib power_add)

lemma round_half_even_int [simp]: "round_half_even (of_int i) = i"
  by (simp add: round_half_even_def)

text \<open>Whole numbers below \<open>2^53\<close> are represented exactly.\<close>

lemma fl64_nat:
  assumes "n < 2 ^ 53"
  shows "fl64 (of_nat n) = of_nat n"
proof (cases "n = 0")
  case False
  define e where "e = exponent2 (of_nat n)"
  have e: "e = int (floorlog 2 n) - 1" using False by (simp add: e_def exponent2_def)
  have "floorlog 2 n \<le> 53" using assms False by (simp add: floorlog_leI)
  with e have e52: "e - 52 \<le> 0" by simp
  have ulp: "pow2 (e - 52) = 1 / 2 ^ nat (52 - e)" using e52 by (auto simp: pow2_def)
  have "of_nat n / pow2 (e - 52) = (of_int (int n * 2 ^ nat (52 - e)) :: rat)" by (simp add: ulp)
  then have "round_half_even (of_nat n / pow2 (e - 52)) = int n * 2 ^ nat (52 - e)"
    by (metis round_half_even_int)
  with False show ?thesis
    by (simp add: fl64_def fl64_pos_def Let_def e_def [symmetric] ulp)
qed (simp add: fl64_def)

lemma float_of_nat_exact: "n < 2 ^ 53 \<Longrightarrow> float_of_nat n = of_nat n"
  by (simp only: float_of_nat_def fl64_nat)

lemma fmul_nat_exact: "a * b < 2 ^ 53 \<Longrightarrow> fmul (of_nat a) (of_nat b) = of_nat (a * b)"
  using fl64_nat [of "a * b"] by (simp add: fmul_def)

section \<open>Rounding is monotone\<close>

lemma pow2_powi: "pow2 e = 2 powi e"
  by (simp add: pow2_def power_int_def inverse_eq_divide power_divide)

lemma pow2_plus: "pow2 (a + b) = pow2 a * pow2 b"
  by (simp add: pow2_powi power_int_add)

lemma pow2_le: "a \<le> b \<Longrightarrow> pow2 a \<le> pow2 b"
  by (simp add: pow2_powi power_int_increasing)

lemma pow2_less_iff: "pow2 a < pow2 b \<longleftrightarrow> a < b"
  using pow2_le [of b a] by (cases "a < b") (auto simp: pow2_powi power_int_strict_increasing)

lemma pow2_nat: "pow2 (int n) = 2 ^ n"
  by (simp add: pow2_def)

lemma exponent2_bounds:
  assumes "0 < x"
  shows "pow2 (exponent2 x) \<le> x" "x < pow2 (exponent2 x + 1)"
proof -
  have "pow2 (exponent2 x) \<le> x \<and> x < pow2 (exponent2 x + 1)"
  proof (cases "1 \<le> x")
    case True
    define n where "n = nat \<lfloor>x\<rfloor>"
    have n: "0 < n" "of_nat n \<le> x" "x < of_nat n + 1" using True by (simp_all add: n_def) linarith+
    define k where "k = floorlog 2 n - 1"
    have "floorlog 2 n > 0" using n(1) by (simp add: floorlog_def)
    then have e: "exponent2 x = int k" using True by (simp add: exponent2_def k_def n_def [symmetric])
    have "2 ^ k \<le> n" "n < 2 ^ Suc k" using floorlog_bounds [of n 2] n(1) \<open>floorlog 2 n > 0\<close> by (simp_all add: k_def)
    then have "(2 :: rat) ^ k \<le> of_nat n" "of_nat n + 1 \<le> (2 :: rat) ^ Suc k"
      by (metis of_nat_le_iff of_nat_power of_nat_numeral, metis Suc_leI of_nat_Suc of_nat_le_iff of_nat_numeral of_nat_power add.commute)
    then have "pow2 (int k) \<le> x" "x < pow2 (int (Suc k))" unfolding pow2_nat using n by linarith+
    then show ?thesis by (simp add: e add.commute)
  next
    case False
    define y where "y = 1 / x"
    define n where "n = nat \<lceil>y\<rceil> - 1"
    have y: "1 < y" using False assms by (simp add: y_def)
    then have "2 \<le> \<lceil>y\<rceil>" by linarith
    then have n: "0 < n" "of_nat n < y" "y \<le> of_nat n + 1" by (simp_all add: n_def of_nat_diff) linarith+
    define k where "k = floorlog 2 n - 1"
    have fl: "floorlog 2 n = Suc k" using n(1) by (simp add: k_def floorlog_def)
    have "exponent2 x = - int (floorlog 2 n)" using False unfolding exponent2_def n_def y_def by simp
    then have e: "exponent2 x = - int (Suc k)" by (simp only: fl)
    have "2 ^ k \<le> n" "n < 2 ^ Suc k" using floorlog_bounds [of n 2] n(1) fl by simp_all
    then have "(2 :: rat) ^ k \<le> of_nat n" "of_nat n + 1 \<le> (2 :: rat) ^ Suc k"
      by (metis of_nat_le_iff of_nat_power of_nat_numeral, metis Suc_leI of_nat_Suc of_nat_le_iff of_nat_numeral of_nat_power add.commute)
    with n have "2 ^ k < y" "y \<le> 2 ^ Suc k" by linarith+
    then have "1 / 2 ^ Suc k \<le> x" "x < 1 / 2 ^ k" using assms by (simp_all add: y_def field_simps)
    moreover have "pow2 (exponent2 x) = 1 / 2 ^ Suc k" "pow2 (exponent2 x + 1) = 1 / 2 ^ k"
      by (simp_all add: e pow2_def nat_add_distrib)
    ultimately show ?thesis by simp
  qed
  then show "pow2 (exponent2 x) \<le> x" "x < pow2 (exponent2 x + 1)" by simp_all
qed

lemma exponent2_unique: "0 < x \<Longrightarrow> pow2 e \<le> x \<Longrightarrow> x < pow2 (e + 1) \<Longrightarrow> exponent2 x = e"
  using exponent2_bounds [of x] pow2_less_iff [of e "exponent2 x + 1"] pow2_less_iff [of "exponent2 x" "e + 1"]
  by linarith

lemma round_half_even_mono: "a \<le> b \<Longrightarrow> round_half_even a \<le> round_half_even b"
proof -
  assume "a \<le> b"
  then consider "\<lfloor>a\<rfloor> = \<lfloor>b\<rfloor>" | "\<lfloor>a\<rfloor> + 1 \<le> \<lfloor>b\<rfloor>" using floor_mono [of a b] by linarith
  then show ?thesis using \<open>a \<le> b\<close> by cases (auto simp: round_half_even_def Let_def)
qed

lemma round_half_even_between: "of_int i \<le> q \<Longrightarrow> i \<le> round_half_even q" "q \<le> of_int j \<Longrightarrow> round_half_even q \<le> j"
  using round_half_even_mono [of "of_int i" q] round_half_even_mono [of q "of_int j"] by simp_all

lemma fl64_pos_bounds:
  assumes "0 < x"
  shows "pow2 (exponent2 x) \<le> fl64_pos x" "fl64_pos x \<le> pow2 (exponent2 x + 1)"
proof -
  let ?u = "pow2 (exponent2 x - 52)"
  have u: "pow2 (exponent2 x) = of_int (2 ^ 52) * ?u" "pow2 (exponent2 x + 1) = of_int (2 ^ 53) * ?u"
    using pow2_plus [of 52 "exponent2 x - 52"] pow2_plus [of 53 "exponent2 x - 52"] pow2_nat [of 52] pow2_nat [of 53]
    by (simp_all add: add.commute)
  have "of_int (2 ^ 52) \<le> x / ?u" "x / ?u \<le> of_int (2 ^ 53)"
    using exponent2_bounds [OF assms] u by (simp_all add: field_simps)
  then have "2 ^ 52 \<le> round_half_even (x / ?u)" "round_half_even (x / ?u) \<le> 2 ^ 53"
    using round_half_even_between by blast+
  then have "of_int (2 ^ 52) * ?u \<le> of_int (round_half_even (x / ?u)) * ?u" "of_int (round_half_even (x / ?u)) * ?u \<le> of_int (2 ^ 53) * ?u"
    by (simp_all only: mult_le_cancel_right_pos pow2_pos of_int_le_iff)
  then show "pow2 (exponent2 x) \<le> fl64_pos x" "fl64_pos x \<le> pow2 (exponent2 x + 1)"
    by (simp_all only: u fl64_pos_def Let_def)
qed

lemma fl64_pos_pos: "0 < x \<Longrightarrow> 0 < fl64_pos x"
  using fl64_pos_bounds(1) [of x] pow2_pos [of "exponent2 x"] by linarith

lemma fl64_pos_mono:
  assumes "0 < x" "x \<le> y"
  shows "fl64_pos x \<le> fl64_pos y"
proof (cases "exponent2 x = exponent2 y")
  case True
  have "round_half_even (x / pow2 (exponent2 y - 52)) \<le> round_half_even (y / pow2 (exponent2 y - 52))"
    using assms by (intro round_half_even_mono divide_right_mono) (simp_all add: less_imp_le)
  then show ?thesis by (simp add: fl64_pos_def True Let_def mult_right_mono less_imp_le)
next
  case False
  have y: "0 < y" using assms by simp
  have "pow2 (exponent2 x) < pow2 (exponent2 y + 1)"
    using exponent2_bounds(1) [OF assms(1)] exponent2_bounds(2) [OF y] assms(2) by linarith
  with False have "exponent2 x + 1 \<le> exponent2 y" by (simp add: pow2_less_iff)
  then show ?thesis
    using fl64_pos_bounds(2) [OF assms(1)] fl64_pos_bounds(1) [OF y] pow2_le by fastforce
qed

lemma fl64_mono: "x \<le> y \<Longrightarrow> fl64 x \<le> fl64 y"
  using fl64_pos_mono [of x y] fl64_pos_mono [of "- y" "- x"] fl64_pos_pos [of y] fl64_pos_pos [of "- x"]
  by (cases "0 < x"; cases "0 < y") (auto simp: fl64_def)

lemma fl64_0 [simp]: "fl64 0 = 0"
  by (simp add: fl64_def)

lemma fl64_nonneg [simp]: "0 \<le> x \<Longrightarrow> 0 \<le> fl64 x"
  using fl64_mono [of 0 x] by simp

lemma fl64_positive: "0 < x \<Longrightarrow> 0 < fl64 x"
  by (simp add: fl64_def fl64_pos_pos)

lemma fl64_minus: "fl64 (- x) = - fl64 x"
  by (simp add: fl64_def)

lemma fl64_pos_idem:
  assumes "0 < x"
  shows "fl64_pos (fl64_pos x) = fl64_pos x"
proof (cases "fl64_pos x < pow2 (exponent2 x + 1)")
  case True
  then have "exponent2 (fl64_pos x) = exponent2 x"
    using exponent2_unique fl64_pos_bounds(1) [OF assms] fl64_pos_pos [OF assms] by blast
  then show ?thesis by (simp add: fl64_pos_def Let_def)
next
  case False
  define e where "e = exponent2 x + 1"
  have x: "fl64_pos x = pow2 e" using False fl64_pos_bounds(2) [OF assms] by (simp add: e_def)
  have "exponent2 (pow2 e) = e" by (rule exponent2_unique) (simp_all add: pow2_less_iff)
  moreover have "pow2 e = of_int (2 ^ 52) * pow2 (e - 52)" using pow2_plus [of 52 "e - 52"] pow2_nat [of 52] by simp
  then have "pow2 e / pow2 (e - 52) = of_int (2 ^ 52)" using less_imp_neq [OF pow2_pos [of "e - 52"]] by simp
  then have "round_half_even (pow2 e / pow2 (e - 52)) = 2 ^ 52" by (metis round_half_even_int)
  ultimately have "fl64_pos (pow2 e) = of_int (2 ^ 52) * pow2 (e - 52)" by (simp only: fl64_pos_def Let_def)
  then show ?thesis using \<open>pow2 e = _\<close> by (simp only: x)
qed

lemma fl64_idem [simp]: "fl64 (fl64 x) = fl64 x"
  using fl64_pos_idem [of x] fl64_pos_idem [of "- x"] fl64_pos_pos [of x] fl64_pos_pos [of "- x"]
  by (auto simp: fl64_def)

end
