(* ===== verification/Scheduler.thy ===== *)
theory Scheduler
  imports Floats "HOL-Library.List_Lexorder" "HOL-Library.Char_ord" "HOL-Library.Product_Lexorder"
begin

text \<open>
  The placement scheduler (\<open>internal/scheduler/placement.go\<close>): the hard-filter pipeline over the
  node views, the Best-of-K score, \<open>Place\<close> and \<open>PrefetchTopK\<close>. Unsigned fields keep their
  64-bit width, so sums wrap as in the source; the score is computed in the \<open>float64\<close>
  arithmetic of the Floats theory. A nil map is the empty map. The random source is the
  function \<open>perm\<close> that its \<open>Perm\<close> method draws; the score hook, which only observes, is left out.
\<close>

section \<open>Data\<close>

definition StatusHealthy :: string where
  "StatusHealthy = ''HEALTHY''"

record BestOfKConfig =
  R :: rat
  MemR :: rat
  DiskR :: rat
  K :: int
  Alpha :: rat
  WeightCPU :: rat
  WeightMem :: rat
  WeightImage :: rat
  WeightBandwidth :: rat
  WeightRack :: rat
  WeightZone :: rat

definition DefaultBestOfKConfig :: BestOfKConfig where
  "DefaultBestOfKConfig = \<lparr>R = 4, MemR = 1, DiskR = 1, K = 3, Alpha = 1 / 2, WeightCPU = 1 / 2,
     WeightMem = 1 / 2, WeightImage = 1 / 2, WeightBandwidth = 1 / 4, WeightRack = 1 / 4, WeightZone = 1 / 4\<rparr>"

record Node =
  node_ID :: string
  node_Pool :: string
  node_Labels :: "(string, string) gomap"
  node_Status :: string
  Draining :: bool
  CPUTotal :: u64
  MemTotalMib :: u64
  CPUAllocated :: u64
  MemAllocated :: u64
  CPUPending :: u64
  MemPending :: u64
  CPUPercent :: rat
  MemUsedMib :: u64
  DiskTotalMib :: u64
  DiskAllocated :: u64
  DiskPending :: u64
  CachedImageDigests :: "(string, bool) gomap"
  FeatureIDs :: "(string, bool) gomap"
  node_BandwidthMbps :: u64
  Rack :: string
  Zone :: string

record Request =
  VCPU :: u64
  MemMib :: u64
  DiskMib :: u64
  DeploymentID :: string
  req_Pool :: string
  req_Labels :: "(string, string) gomap"
  AntiAffinity :: bool
  ExistingDeploymentNodes :: "(string, bool) gomap"
  ExcludedNodes :: "(string, bool) gomap"
  ImageDigest :: string
  req_BandwidthMbps :: u64
  ExistingDeploymentRacks :: "(string, bool) gomap"
  ExistingDeploymentZones :: "(string, bool) gomap"
  RequiredFeatures :: "string list"
  RequiredNodeID :: string
  PinnedNodeID :: string

record Event =
  ev_Kind :: string
  ev_NodeID :: string
  ev_Reason :: string

record Placement =
  pl_NodeID :: string
  pl_Score :: rat
  pl_Events :: "Event list"

datatype place_err = ErrNoCandidates string

text \<open>A read of a missing key gives the zero value.\<close>

definition flag :: "(string, bool) gomap \<Rightarrow> string \<Rightarrow> bool" where
  "flag m k \<longleftrightarrow> mget m k = Some True"

definition label :: "(string, string) gomap \<Rightarrow> string \<Rightarrow> string" where
  "label m k = (case mget m k of None \<Rightarrow> '''' | Some v \<Rightarrow> v)"

section \<open>Configuration\<close>

definition or_default :: "rat \<Rightarrow> rat \<Rightarrow> rat" where
  "or_default d x = (if x = 0 then d else x)"

text \<open>A negative weight switches the term off, an unset weight takes its default.\<close>

definition signed_weight :: "rat \<Rightarrow> rat \<Rightarrow> rat" where
  "signed_weight d x = (if x < 0 then 0 else if x = 0 then d else x)"

definition New :: "BestOfKConfig \<Rightarrow> bool \<Rightarrow> BestOfKConfig" where
  "New cfg imageAffinityDisabled =
     (let d = DefaultBestOfKConfig;
          unset = WeightCPU cfg = 0 \<and> WeightMem cfg = 0
      in cfg\<lparr>R := or_default (R d) (R cfg), MemR := or_default (MemR d) (MemR cfg),
             DiskR := or_default (DiskR d) (DiskR cfg), K := (if K cfg = 0 then K d else K cfg),
             Alpha := or_default (Alpha d) (Alpha cfg),
             WeightCPU := (if unset then 1 / 2 else WeightCPU cfg),
             WeightMem := (if unset then 1 / 2 else WeightMem cfg),
             WeightImage := (if WeightImage cfg = 0 \<and> \<not> imageAffinityDisabled then WeightImage d else WeightImage cfg),
             WeightBandwidth := signed_weight (WeightBandwidth d) (WeightBandwidth cfg),
             WeightRack := signed_weight (WeightRack d) (WeightRack cfg),
             WeightZone := signed_weight (WeightZone d) (WeightZone cfg)\<rparr>)"

section \<open>Admission\<close>

definition float_of_u64 :: "u64 \<Rightarrow> rat" where
  "float_of_u64 x = float_of_nat (unat x)"

definition canFit :: "Node \<Rightarrow> Request \<Rightarrow> BestOfKConfig \<Rightarrow> bool" where
  "canFit n req cfg =
     (if CPUTotal n = 0 \<or> MemTotalMib n = 0 then False
      else
        (let usedVCPU = CPUAllocated n + CPUPending n + VCPU req in
         if float_of_u64 usedVCPU > fmul (float_of_u64 (CPUTotal n)) (R cfg) then False
         else
           (let usedMem = MemAllocated n + MemPending n + MemMib req in
            if float_of_u64 usedMem > fmul (float_of_u64 (MemTotalMib n)) (MemR cfg) then False
            else if 0 < DiskTotalMib n \<and>
              float_of_u64 (DiskAllocated n + DiskPending n + DiskMib req) >
                fmul (float_of_u64 (DiskTotalMib n)) (DiskR cfg) then False
            else True)))"

definition bandwidthExceeded :: "Node \<Rightarrow> Request \<Rightarrow> bool" where
  "bandwidthExceeded n req \<longleftrightarrow>
     0 < req_BandwidthMbps req \<and> 0 < node_BandwidthMbps n \<and> node_BandwidthMbps n < req_BandwidthMbps req"

definition labelsMatch :: "(string, string) gomap \<Rightarrow> (string, string) gomap \<Rightarrow> bool" where
  "labelsMatch nodeLabels want \<longleftrightarrow> list_all (\<lambda>(k, v). label nodeLabels k = v) want"

definition missingFeatures :: "(string, bool) gomap \<Rightarrow> string list \<Rightarrow> string" where
  "missingFeatures nodeFeatures required = join '','' (filter (\<lambda>id. \<not> flag nodeFeatures id) required)"

definition score :: "BestOfKConfig \<Rightarrow> Node \<Rightarrow> Request \<Rightarrow> rat" where
  "score cfg n req =
     (let cpuCap = fmul (float_of_u64 (CPUTotal n)) (R cfg);
          memCap = fmul (float_of_u64 (MemTotalMib n)) (MemR cfg);
          usageCPU = fmul (fdiv (CPUPercent n) 100) (float_of_u64 (CPUTotal n));
          cpu = fdiv (fadd (float_of_u64 (VCPU req + CPUAllocated n + CPUPending n)) (fmul (Alpha cfg) usageCPU)) cpuCap;
          mem = fdiv (fadd (float_of_u64 (MemMib req + MemAllocated n + MemPending n))
                  (fmul (Alpha cfg) (float_of_u64 (MemUsedMib n)))) memCap;
          s = fadd (fmul (WeightCPU cfg) cpu) (fmul (WeightMem cfg) mem);
          s = (if ImageDigest req \<noteq> '''' \<and> WeightImage cfg \<noteq> 0
               then fadd s (fmul (WeightImage cfg) (if flag (CachedImageDigests n) (ImageDigest req) then 0 else 1))
               else s);
          s = (if 0 < req_BandwidthMbps req \<and> 0 < node_BandwidthMbps n \<and> WeightBandwidth cfg \<noteq> 0
               then fadd s (fdiv (fmul (WeightBandwidth cfg) (float_of_u64 (req_BandwidthMbps req)))
                      (float_of_u64 (node_BandwidthMbps n)))
               else s);
          s = (if WeightRack cfg \<noteq> 0 \<and> Rack n \<noteq> '''' \<and> flag (ExistingDeploymentRacks req) (Rack n)
               then fadd s (WeightRack cfg) else s)
      in if WeightZone cfg \<noteq> 0 \<and> Zone n \<noteq> '''' \<and> flag (ExistingDeploymentZones req) (Zone n)
         then fadd s (WeightZone cfg) else s)"

section \<open>The candidate pipeline\<close>

text \<open>Each stage gives a reason for a rejected node, the empty string for one that passes.\<close>

definition reject_status :: "Node \<Rightarrow> string" where
  "reject_status n =
     (if Draining n then ''draining''
      else if node_Status n \<noteq> StatusHealthy then ''status='' @ node_Status n else '''')"

definition reject_excluded :: "Request \<Rightarrow> Node \<Rightarrow> string" where
  "reject_excluded req n = (if flag (ExcludedNodes req) (node_ID n) then ''excluded by retry policy'' else '''')"

definition reject_pool :: "Request \<Rightarrow> Node \<Rightarrow> string" where
  "reject_pool req n =
     (let pool = (if req_Pool req = '''' then ''compute'' else req_Pool req)
      in if node_Pool n \<noteq> pool then ''pool mismatch''
         else if \<not> labelsMatch (node_Labels n) (req_Labels req) then ''labels mismatch'' else '''')"

definition reject_features :: "Request \<Rightarrow> Node \<Rightarrow> string" where
  "reject_features req n =
     (let missing = missingFeatures (FeatureIDs n) (RequiredFeatures req)
      in if missing \<noteq> '''' then ''capability missing: '' @ missing else '''')"

definition reject_resources :: "BestOfKConfig \<Rightarrow> Request \<Rightarrow> Node \<Rightarrow> string" where
  "reject_resources cfg req n =
     (if \<not> canFit n req cfg
      then ''resources: need vcpu='' @ utoa (unat (VCPU req)) @ '' mem='' @ utoa (unat (MemMib req)) @
           ''MiB disk='' @ utoa (unat (DiskMib req)) @ ''MiB (allocated+pending+req exceeds R*capacity)''
      else '''')"

definition reject_bandwidth :: "Request \<Rightarrow> Node \<Rightarrow> string" where
  "reject_bandwidth req n =
     (if bandwidthExceeded n req
      then ''bandwidth: need '' @ utoa (unat (req_BandwidthMbps req)) @ ''Mbps exceeds node '' @
           utoa (unat (node_BandwidthMbps n)) @ ''Mbps''
      else '''')"

definition reject_locality :: "Request \<Rightarrow> Node \<Rightarrow> string" where
  "reject_locality req n =
     (if RequiredNodeID req \<noteq> '''' \<and> node_ID n \<noteq> RequiredNodeID req then ''volume locality mismatch'' else '''')"

definition reject_pin :: "Request \<Rightarrow> Node \<Rightarrow> string" where
  "reject_pin req n =
     (if PinnedNodeID req \<noteq> '''' \<and> node_ID n \<noteq> PinnedNodeID req then ''dispatch pin mismatch'' else '''')"

record candidateEvaluation =
  applyRetryExclusions :: bool
  collectEvents :: bool

text \<open>One stage: the nodes that pass, and a rejection event for each of the others.\<close>

definition filter_stage :: "bool \<Rightarrow> (Node \<Rightarrow> string) \<Rightarrow> Node list \<times> Event list \<Rightarrow> Node list \<times> Event list" where
  "filter_stage collect reject st =
     (filter (\<lambda>n. reject n = '''') (fst st),
      snd st @ (if collect
        then map (\<lambda>n. \<lparr>ev_Kind = ''filter_rejection'', ev_NodeID = node_ID n, ev_Reason = reject n\<rparr>)
               (filter (\<lambda>n. reject n \<noteq> '''') (fst st))
        else []))"

definition hard_stages :: "BestOfKConfig \<Rightarrow> Request \<Rightarrow> candidateEvaluation \<Rightarrow> (Node \<Rightarrow> string) list" where
  "hard_stages cfg req opts =
     [reject_status] @ (if applyRetryExclusions opts then [reject_excluded req] else []) @
     [reject_pool req, reject_features req, reject_resources cfg req, reject_bandwidth req,
      reject_locality req, reject_pin req]"

definition evaluateCandidates :: "BestOfKConfig \<Rightarrow> Request \<Rightarrow> Node list \<Rightarrow> candidateEvaluation \<Rightarrow>
    Node list \<times> Event list" where
  "evaluateCandidates cfg req nodes opts =
     (let (candidates, events) = fold (filter_stage (collectEvents opts)) (hard_stages cfg req opts) (nodes, [])
      in if AntiAffinity req \<and> DeploymentID req \<noteq> '''' \<and> ExistingDeploymentNodes req \<noteq> []
         then (let spread = filter (\<lambda>n. \<not> flag (ExistingDeploymentNodes req) (node_ID n)) candidates
               in if spread = []
                  then (candidates, events @ (if collectEvents opts
                         then [\<lparr>ev_Kind = ''placement'', ev_NodeID = '''',
                                ev_Reason = ''anti_affinity degraded: no node outside deployment set''\<rparr>] else []))
                  else (spread, events))
         else (candidates, events))"

section \<open>Placement\<close>

definition sampleK :: "Node list \<Rightarrow> int \<Rightarrow> (nat \<Rightarrow> nat list) \<Rightarrow> Node list" where
  "sampleK nodes k perm =
     (if k \<le> 0 \<or> int (length nodes) \<le> k then nodes
      else map (\<lambda>idx. nodes ! idx) (take (nat k) (perm (length nodes))))"

text \<open>\<open>%.6f\<close> of a float that is not negative.\<close>

definition format_f6 :: "rat \<Rightarrow> string" where
  "format_f6 x =
     (let n = nat (round_half_even (x * 1000000)); frac = utoa (n mod 1000000)
      in utoa (n div 1000000) @ ''.'' @ replicate (6 - length frac) CHR ''0'' @ frac)"

text \<open>Both sorts order by score and then by node id.\<close>

definition rank :: "BestOfKConfig \<Rightarrow> Request \<Rightarrow> Node \<Rightarrow> rat \<times> string" where
  "rank cfg req n = (score cfg n req, node_ID n)"

definition Place :: "BestOfKConfig \<Rightarrow> Request \<Rightarrow> Node list \<Rightarrow> (nat \<Rightarrow> nat list) \<Rightarrow>
    (place_err + unit) \<times> Placement" where
  "Place cfg req nodes perm =
     (let (candidates, events) = evaluateCandidates cfg req nodes \<lparr>applyRetryExclusions = True, collectEvents = True\<rparr>
      in if candidates = []
         then (Inl (ErrNoCandidates ''all filters exhausted''), \<lparr>pl_NodeID = '''', pl_Score = 0, pl_Events = events\<rparr>)
         else
           (let sample = sampleK candidates (K cfg) perm;
                best = hd (sort_key (rank cfg req) sample)
            in (Inr (), \<lparr>pl_NodeID = node_ID best, pl_Score = score cfg best req,
                 pl_Events = events @ [\<lparr>ev_Kind = ''placement'', ev_NodeID = node_ID best,
                   ev_Reason = ''score='' @ format_f6 (score cfg best req) @ '' candidates='' @
                     utoa (length candidates) @ '' sampled='' @ utoa (length sample)\<rparr>]\<rparr>)))"

definition PrefetchTopK :: "BestOfKConfig \<Rightarrow> Request \<Rightarrow> Node list \<Rightarrow> int \<Rightarrow> Node list" where
  "PrefetchTopK cfg req nodes k =
     (let k = (if k \<le> 0 then 3 else k);
          candidates = fst (evaluateCandidates cfg req nodes \<lparr>applyRetryExclusions = False, collectEvents = False\<rparr>)
      in take (nat k) (sort_key (rank cfg req) candidates))"

section \<open>The pipeline as a filter\<close>

text \<open>What a node must satisfy to be placed on, anti-affinity apart.\<close>

definition admissible :: "BestOfKConfig \<Rightarrow> Request \<Rightarrow> bool \<Rightarrow> Node \<Rightarrow> bool" where
  "admissible cfg req retry n \<longleftrightarrow>
     \<not> Draining n \<and> node_Status n = StatusHealthy \<and> (retry \<longrightarrow> \<not> flag (ExcludedNodes req) (node_ID n)) \<and>
     node_Pool n = (if req_Pool req = '''' then ''compute'' else req_Pool req) \<and>
     labelsMatch (node_Labels n) (req_Labels req) \<and>
     missingFeatures (FeatureIDs n) (RequiredFeatures req) = '''' \<and>
     canFit n req cfg \<and> \<not> bandwidthExceeded n req \<and>
     (RequiredNodeID req = '''' \<or> node_ID n = RequiredNodeID req) \<and>
     (PinnedNodeID req = '''' \<or> node_ID n = PinnedNodeID req)"

definition spread_out :: "Request \<Rightarrow> Node \<Rightarrow> bool" where
  "spread_out req n \<longleftrightarrow> \<not> flag (ExistingDeploymentNodes req) (node_ID n)"

definition wants_spread :: "Request \<Rightarrow> bool" where
  "wants_spread req \<longleftrightarrow> AntiAffinity req \<and> DeploymentID req \<noteq> '''' \<and> ExistingDeploymentNodes req \<noteq> []"

lemma fold_filter_stage:
  "fst (fold (filter_stage c) rs (ns, evs)) = filter (\<lambda>n. \<forall>r \<in> set rs. r n = '''') ns"
  by (induction rs arbitrary: ns evs) (auto simp: filter_stage_def intro!: filter_cong)

lemmas reject_defs = reject_status_def reject_excluded_def reject_pool_def reject_features_def
  reject_resources_def reject_bandwidth_def reject_locality_def reject_pin_def

lemma hard_stages_admissible:
  "(\<forall>r \<in> set (hard_stages cfg req opts). r n = '''') \<longleftrightarrow> admissible cfg req (applyRetryExclusions opts) n"
  by (simp add: hard_stages_def reject_defs admissible_def Let_def)

lemma evaluateCandidates_nodes:
  "fst (evaluateCandidates cfg req nodes opts) =
     (let cs = filter (admissible cfg req (applyRetryExclusions opts)) nodes;
          spread = filter (spread_out req) cs
      in if wants_spread req \<and> spread \<noteq> [] then spread else cs)"
  using fold_filter_stage [of "collectEvents opts" "hard_stages cfg req opts" nodes "[]"]
  by (simp add: evaluateCandidates_def hard_stages_admissible wants_spread_def spread_out_def [abs_def] Let_def
      split_beta)

lemma evaluateCandidates_empty:
  "fst (evaluateCandidates cfg req nodes opts) = [] \<longleftrightarrow>
     (\<forall>n \<in> set nodes. \<not> admissible cfg req (applyRetryExclusions opts) n)"
  by (auto simp: evaluateCandidates_nodes Let_def filter_empty_conv)

lemma evaluateCandidates_set:
  assumes "n \<in> set (fst (evaluateCandidates cfg req nodes opts))"
  shows "n \<in> set nodes \<and> admissible cfg req (applyRetryExclusions opts) n"
  using assms by (auto simp: evaluateCandidates_nodes Let_def split: if_splits)

lemma evaluateCandidates_spread:
  assumes "n \<in> set (fst (evaluateCandidates cfg req nodes opts))" and "wants_spread req"
    and "m \<in> set nodes" and "admissible cfg req (applyRetryExclusions opts) m" and "spread_out req m"
  shows "spread_out req n"
proof -
  have "filter (spread_out req) (filter (admissible cfg req (applyRetryExclusions opts)) nodes) \<noteq> []"
    using assms(3-5) by (auto simp: filter_empty_conv)
  with assms(1,2) show ?thesis by (auto simp: evaluateCandidates_nodes Let_def split: if_splits)
qed

text \<open>The documented behaviour of \<open>rand.Perm\<close>: a permutation of the first \<open>n\<close> numbers.\<close>

definition draws_permutations :: "(nat \<Rightarrow> nat list) \<Rightarrow> bool" where
  "draws_permutations perm \<longleftrightarrow> (\<forall>n. distinct (perm n) \<and> set (perm n) = {..<n})"

lemma sampleK_subset:
  assumes "draws_permutations perm"
  shows "set (sampleK nodes k perm) \<subseteq> set nodes"
  using assms by (auto simp: sampleK_def draws_permutations_def dest!: in_set_takeD)

lemma perm_length:
  assumes "draws_permutations perm"
  shows "length (perm n) = n"
  using assms unfolding draws_permutations_def by (metis card_lessThan distinct_card)

lemma sampleK_length:
  assumes "draws_permutations perm"
  shows "length (sampleK nodes k perm) = (if k \<le> 0 \<or> int (length nodes) \<le> k then length nodes else nat k)"
  using perm_length [OF assms] by (auto simp: sampleK_def)

lemma sampleK_nonempty:
  "draws_permutations perm \<Longrightarrow> nodes \<noteq> [] \<Longrightarrow> sampleK nodes k perm \<noteq> []"
  using sampleK_length [of perm nodes k] by (auto split: if_splits)

lemma hd_sort_key:
  assumes "xs \<noteq> []"
  shows "hd (sort_key f xs) \<in> set xs \<and> (\<forall>x \<in> set xs. f (hd (sort_key f xs)) \<le> f x)"
proof -
  obtain y ys where s: "sort_key f xs = y # ys"
    using assms by (cases "sort_key f xs") (auto dest: arg_cong [of _ _ length])
  have "sorted (map f (y # ys))" using sorted_sort_key [of f xs] s by simp
  moreover have "set (y # ys) = set xs" using s by (metis set_sort)
  ultimately show ?thesis using s by auto
qed

lemma missingFeatures_present:
  assumes "missingFeatures have_ids required = ''''" and "f \<in> set required" and "f \<noteq> ''''"
  shows "flag have_ids f"
proof (rule ccontr)
  assume "\<not> flag have_ids f"
  then have "f \<in> set (filter (\<lambda>id. \<not> flag have_ids id) required)" using assms(2) by simp
  moreover have "join '','' xs = '''' \<Longrightarrow> f \<notin> set xs" for xs
    using assms(3) by (cases "('','', xs)" rule: join.cases) auto
  ultimately show False using assms(1) unfolding missingFeatures_def by blast
qed

lemma float_of_u64_exact: "unat x < 2 ^ 53 \<Longrightarrow> float_of_u64 x = of_nat (unat x)"
  by (simp add: float_of_u64_def float_of_nat_exact)

text \<open>One dimension of the admission test on numbers that floats represent exactly.\<close>

lemma fits_exact:
  assumes "\<not> float_of_u64 (a + b + c) > fmul (float_of_u64 cap) (of_nat r)"
    and "unat a + unat b + unat c < 2 ^ 53" and "unat cap * r < 2 ^ 53" and "0 < r"
  shows "unat a + unat b + unat c \<le> r * unat cap"
proof -
  have sum: "unat (a + b + c) = unat a + unat b + unat c" using assms(2) by (simp add: unat_add3_u64)
  have "unat cap \<le> unat cap * r" using assms(4) by simp
  then have "unat cap < 2 ^ 53" using assms(3) by linarith
  then have "fmul (float_of_u64 cap) (of_nat r) = of_nat (unat cap * r)"
    using assms(3) by (simp only: float_of_u64_exact fmul_nat_exact)
  moreover have "float_of_u64 (a + b + c) = of_nat (unat a + unat b + unat c)"
    using assms(2) sum by (simp only: float_of_u64_exact)
  ultimately have "(of_nat (unat a + unat b + unat c) :: rat) \<le> of_nat (unat cap * r)"
    using assms(1) by simp
  then have "unat a + unat b + unat c \<le> unat cap * r" by (simp only: of_nat_le_iff)
  then show ?thesis by (simp add: mult.commute)
qed

section \<open>Properties\<close>

text \<open>
  Claim C27. Soundness and optimality of \<open>Place\<close>: a successful placement names one of the given
  nodes that passed every hard filter (healthy, not draining, not excluded, right pool and
  labels, every required capability, room for the request, locality and pin), and no node of
  the random sample of up to \<open>K\<close> candidates ranks better by score and then id; with
  anti-affinity the node is outside the deployment's nodes whenever an admissible one is.
\<close>

theorem Place_sound:
  assumes "draws_permutations perm" and "fst (Place cfg req nodes perm) = Inr ()"
  shows "\<exists>n \<in> set nodes. pl_NodeID (snd (Place cfg req nodes perm)) = node_ID n \<and>
     pl_Score (snd (Place cfg req nodes perm)) = score cfg n req \<and>
     admissible cfg req True n \<and>
     (\<forall>f \<in> set (RequiredFeatures req). f \<noteq> '''' \<longrightarrow> flag (FeatureIDs n) f) \<and>
     (\<forall>m \<in> set (sampleK (fst (evaluateCandidates cfg req nodes
                  \<lparr>applyRetryExclusions = True, collectEvents = True\<rparr>)) (K cfg) perm).
        rank cfg req n \<le> rank cfg req m) \<and>
     (wants_spread req \<and> (\<exists>m \<in> set nodes. admissible cfg req True m \<and> spread_out req m) \<longrightarrow> spread_out req n)"
proof -
  let ?o = "\<lparr>applyRetryExclusions = True, collectEvents = True\<rparr>"
  let ?c = "fst (evaluateCandidates cfg req nodes ?o)"
  let ?s = "sampleK ?c (K cfg) perm"
  let ?n = "hd (sort_key (rank cfg req) ?s)"
  have ne: "?c \<noteq> []" using assms(2) by (auto simp: Place_def split_beta Let_def split: if_splits)
  from hd_sort_key [OF sampleK_nonempty [OF assms(1) ne]]
  have mem: "?n \<in> set ?s" and best: "\<forall>m \<in> set ?s. rank cfg req ?n \<le> rank cfg req m" by auto
  from mem sampleK_subset [OF assms(1)] have c: "?n \<in> set ?c" by blast
  from evaluateCandidates_set [OF c] have n: "?n \<in> set nodes" "admissible cfg req True ?n" by auto
  have "pl_NodeID (snd (Place cfg req nodes perm)) = node_ID ?n \<and>
      pl_Score (snd (Place cfg req nodes perm)) = score cfg ?n req"
    using ne by (simp add: Place_def split_beta Let_def)
  moreover have "\<forall>f \<in> set (RequiredFeatures req). f \<noteq> '''' \<longrightarrow> flag (FeatureIDs ?n) f"
    using n(2) missingFeatures_present by (auto simp: admissible_def)
  moreover have "wants_spread req \<and> (\<exists>m \<in> set nodes. admissible cfg req True m \<and> spread_out req m) \<longrightarrow> spread_out req ?n"
    using evaluateCandidates_spread [OF c] by auto
  ultimately show ?thesis using n best by blast
qed

lemma Place_result:
  "fst (Place cfg req nodes perm) =
     (if \<exists>n \<in> set nodes. admissible cfg req True n then Inr () else Inl (ErrNoCandidates ''all filters exhausted''))"
  using evaluateCandidates_empty [of cfg req nodes "\<lparr>applyRetryExclusions = True, collectEvents = True\<rparr>"]
  by (auto simp: Place_def split_beta Let_def)

text \<open>
  Completeness of \<open>Place\<close>: it fails exactly when no node passes the hard filters;
  anti-affinity, image affinity and topology never make it fail.
\<close>

lemma Place_fails_iff:
  "fst (Place cfg req nodes perm) =
     (if \<exists>n \<in> set nodes. admissible cfg req True n then Inr () else Inl (ErrNoCandidates ''all filters exhausted''))"
  by (rule Place_result)

text \<open>
  \<open>PrefetchTopK\<close> returns at most \<open>k\<close> admissible nodes in rank order, and ranks no
  returned node after a candidate it leaves out.
\<close>

lemma PrefetchTopK_best:
  assumes "0 < k"
  shows "length (PrefetchTopK cfg req nodes k) \<le> nat k \<and>
     sorted (map (rank cfg req) (PrefetchTopK cfg req nodes k)) \<and>
     (\<forall>n \<in> set (PrefetchTopK cfg req nodes k). n \<in> set nodes \<and> admissible cfg req False n \<and>
        (\<forall>m \<in> set (fst (evaluateCandidates cfg req nodes \<lparr>applyRetryExclusions = False, collectEvents = False\<rparr>)).
           m \<notin> set (PrefetchTopK cfg req nodes k) \<longrightarrow> rank cfg req n \<le> rank cfg req m))"
proof -
  let ?c = "fst (evaluateCandidates cfg req nodes \<lparr>applyRetryExclusions = False, collectEvents = False\<rparr>)"
  let ?s = "sort_key (rank cfg req) ?c"
  have p: "PrefetchTopK cfg req nodes k = take (nat k) ?s" using assms by (simp add: PrefetchTopK_def Let_def)
  have sorted: "sorted (map (rank cfg req) (take (nat k) ?s @ drop (nat k) ?s))" by simp
  have part: "m \<in> set (take (nat k) ?s) \<or> m \<in> set (drop (nat k) ?s)" if "m \<in> set ?c" for m
    using that by (metis Un_iff append_take_drop_id set_append set_sort)
  have le: "rank cfg req n \<le> rank cfg req m" if "n \<in> set (take (nat k) ?s)" and "m \<in> set (drop (nat k) ?s)" for n m
    using sorted that by (simp only: map_append sorted_append) simp
  have "n \<in> set nodes \<and> admissible cfg req False n" if "n \<in> set (take (nat k) ?s)" for n
    using evaluateCandidates_set [of n cfg req nodes "\<lparr>applyRetryExclusions = False, collectEvents = False\<rparr>"]
      in_set_takeD [OF that] by simp
  moreover have "sorted (map (rank cfg req) (take (nat k) ?s))"
    by (metis sorted_sort_key sorted_wrt_take take_map)
  ultimately show ?thesis
    unfolding p using part le by auto
qed

text \<open>
  Admission without overcommit: with whole-number overcommit ratios, and as long as
  committed, pending and requested amounts stay below \<open>2^53\<close> (no 64-bit wrap, exact floats), a
  node that \<open>canFit\<close> accepts keeps CPU, memory and, where its size is known, disk within ratio
  times capacity.
\<close>

lemma canFit_within_capacity:
  assumes "canFit n req cfg"
    and "R cfg = of_nat rc" and "MemR cfg = of_nat rm" and "DiskR cfg = of_nat rd"
    and "0 < rc" and "0 < rm" and "0 < rd"
    and "unat (CPUAllocated n) + unat (CPUPending n) + unat (VCPU req) < 2 ^ 53"
    and "unat (MemAllocated n) + unat (MemPending n) + unat (MemMib req) < 2 ^ 53"
    and "unat (DiskAllocated n) + unat (DiskPending n) + unat (DiskMib req) < 2 ^ 53"
    and "unat (CPUTotal n) * rc < 2 ^ 53" and "unat (MemTotalMib n) * rm < 2 ^ 53"
    and "unat (DiskTotalMib n) * rd < 2 ^ 53"
  shows "unat (CPUAllocated n) + unat (CPUPending n) + unat (VCPU req) \<le> rc * unat (CPUTotal n) \<and>
    unat (MemAllocated n) + unat (MemPending n) + unat (MemMib req) \<le> rm * unat (MemTotalMib n) \<and>
    (0 < DiskTotalMib n \<longrightarrow>
       unat (DiskAllocated n) + unat (DiskPending n) + unat (DiskMib req) \<le> rd * unat (DiskTotalMib n))"
proof (intro conjI impI)
  note fit = assms(1) [unfolded canFit_def Let_def assms(2-4)]
  show "unat (CPUAllocated n) + unat (CPUPending n) + unat (VCPU req) \<le> rc * unat (CPUTotal n)"
    by (rule fits_exact) (use fit assms in \<open>auto split: if_splits\<close>)
  show "unat (MemAllocated n) + unat (MemPending n) + unat (MemMib req) \<le> rm * unat (MemTotalMib n)"
    by (rule fits_exact) (use fit assms in \<open>auto split: if_splits\<close>)
  assume "0 < DiskTotalMib n"
  then show "unat (DiskAllocated n) + unat (DiskPending n) + unat (DiskMib req) \<le> rd * unat (DiskTotalMib n)"
    by (intro fits_exact) (use fit assms in \<open>auto split: if_splits\<close>)
qed

definition demo_node :: "string \<Rightarrow> u64 \<Rightarrow> Node" where
  "demo_node nid alloc = \<lparr>node_ID = nid, node_Pool = ''compute'', node_Labels = [], node_Status = ''HEALTHY'',
     Draining = False, CPUTotal = 8, MemTotalMib = 1024, CPUAllocated = 0, MemAllocated = alloc, CPUPending = 0,
     MemPending = 0, CPUPercent = 0, MemUsedMib = 0, DiskTotalMib = 0, DiskAllocated = 0, DiskPending = 0,
     CachedImageDigests = [], FeatureIDs = [], node_BandwidthMbps = 0, Rack = '''', Zone = ''''\<rparr>"

definition demo_req :: "u64 \<Rightarrow> Request" where
  "demo_req mem = \<lparr>VCPU = 1, MemMib = mem, DiskMib = 0, DeploymentID = '''', req_Pool = '''', req_Labels = [],
     AntiAffinity = False, ExistingDeploymentNodes = [], ExcludedNodes = [], ImageDigest = '''',
     req_BandwidthMbps = 0, ExistingDeploymentRacks = [], ExistingDeploymentZones = [], RequiredFeatures = [],
     RequiredNodeID = '''', PinnedNodeID = ''''\<rparr>"

lemma demo_cap: "fmul (of_nat 1024) (1::rat) = 1024" "fmul (of_nat 8) (4::rat) = 32"
  using fmul_nat_exact [of 1024 1] fmul_nat_exact [of 8 4] by simp_all

lemma demo_fits: "canFit (demo_node ''a'' 512) (demo_req 256) DefaultBestOfKConfig"
  using demo_cap
  by (simp add: canFit_def demo_node_def demo_req_def DefaultBestOfKConfig_def float_of_u64_exact)

lemma canFit_within_capacity_witness:
  "unat (MemAllocated (demo_node ''a'' 512)) + unat (MemPending (demo_node ''a'' 512)) +
     unat (MemMib (demo_req 256)) \<le> 1 * unat (MemTotalMib (demo_node ''a'' 512))"
proof -
  have cfg: "R DefaultBestOfKConfig = of_nat 4" "MemR DefaultBestOfKConfig = of_nat 1" "DiskR DefaultBestOfKConfig = of_nat 1"
    by (simp_all add: DefaultBestOfKConfig_def)
  have small:
    "unat (CPUAllocated (demo_node ''a'' 512)) + unat (CPUPending (demo_node ''a'' 512)) + unat (VCPU (demo_req 256)) < 2 ^ 53"
    "unat (MemAllocated (demo_node ''a'' 512)) + unat (MemPending (demo_node ''a'' 512)) + unat (MemMib (demo_req 256)) < 2 ^ 53"
    "unat (DiskAllocated (demo_node ''a'' 512)) + unat (DiskPending (demo_node ''a'' 512)) + unat (DiskMib (demo_req 256)) < 2 ^ 53"
    "unat (CPUTotal (demo_node ''a'' 512)) * 4 < 2 ^ 53" "unat (MemTotalMib (demo_node ''a'' 512)) * 1 < 2 ^ 53"
    "unat (DiskTotalMib (demo_node ''a'' 512)) * 1 < 2 ^ 53"
    by (simp_all add: demo_node_def demo_req_def)
  have pos: "0 < (4::nat)" "0 < (1::nat)" by simp_all
  from canFit_within_capacity [OF demo_fits cfg pos(1,2,2) small] show ?thesis by blast
qed

definition demo_perm :: "nat \<Rightarrow> nat list" where
  "demo_perm n = rev [0..<n]"

lemma demo_perm_draws: "draws_permutations demo_perm"
  by (auto simp: draws_permutations_def demo_perm_def)

lemma demo_place: "fst (Place DefaultBestOfKConfig (demo_req 256) [demo_node ''a'' 512] demo_perm) = Inr ()"
  using demo_fits
  by (simp add: Place_result admissible_def demo_node_def demo_req_def StatusHealthy_def flag_def labelsMatch_def
      missingFeatures_def bandwidthExceeded_def)

theorem Place_sound_witness:
  "pl_NodeID (snd (Place DefaultBestOfKConfig (demo_req 256) [demo_node ''a'' 512] demo_perm)) = ''a'' \<and>
   admissible DefaultBestOfKConfig (demo_req 256) True (demo_node ''a'' 512)"
  using Place_sound [OF demo_perm_draws demo_place] by (simp add: demo_node_def)

lemma PrefetchTopK_best_witness:
  "length (PrefetchTopK DefaultBestOfKConfig (demo_req 256) [demo_node ''a'' 512, demo_node ''b'' 0] 1) \<le> 1"
  using PrefetchTopK_best [of 1 DefaultBestOfKConfig "demo_req 256" "[demo_node ''a'' 512, demo_node ''b'' 0]"] by simp

end
