(* ===== verification/Reservations.thy ===== *)
theory Reservations
  imports Floats
begin

text \<open>
  The Redis reservations of \<open>internal/controlplane/reservations/reservations.go\<close>: the Lua scripts
  \<open>acquire\<close>, \<open>releaseIfHeld\<close>, \<open>reset\<close> and \<open>get\<close>, each one atomic step on the store, and the
  methods around them. Keys of different epochs never meet, so the store is a map from epoch
  numbers to epoch contents. Amounts are integers (Lua numbers are exact below \<open>2^53\<close>). A record
  key carries its remaining life time in milliseconds; \<open>elapse\<close> is the passing of time, which
  removes expired record keys and leaves the hashes alone.
\<close>

section \<open>The store\<close>

record Resv =
  r_NodeID :: string
  r_ProjectID :: string
  r_VCPU :: int
  r_MemMib :: int
  r_DiskMib :: int
  r_Machines :: int

datatype stored = Garbled | Stored Resv

text \<open>The hash of a node or a project; nodes do not count machines.\<close>

record Pending =
  pending_vcpu :: int
  pending_mem_mib :: int
  pending_disk_mib :: int
  pending_machines :: int

definition no_pending :: Pending where
  "no_pending = \<lparr>pending_vcpu = 0, pending_mem_mib = 0, pending_disk_mib = 0, pending_machines = 0\<rparr>"

record Epoch =
  e_node :: "(string, Pending) gomap"
  e_project :: "(string, Pending) gomap"
  e_op :: "(string, stored \<times> int) gomap"
  e_nodes :: "string list"
  e_projects :: "string list"
  e_ops :: "string list"
  e_expire :: "int option"

definition empty_epoch :: Epoch where
  "empty_epoch = \<lparr>e_node = [], e_project = [], e_op = [], e_nodes = [], e_projects = [], e_ops = [], e_expire = None\<rparr>"

record Redis =
  resv_active :: "nat option"
  epoch_seq :: nat
  epochs :: "(nat, Epoch) gomap"

definition active_epoch :: "Redis \<Rightarrow> nat" where
  "active_epoch rd = (case resv_active rd of None \<Rightarrow> 0 | Some e \<Rightarrow> e)"

definition epoch_at :: "Redis \<Rightarrow> nat \<Rightarrow> Epoch" where
  "epoch_at rd e = (case mget (epochs rd) e of None \<Rightarrow> empty_epoch | Some x \<Rightarrow> x)"

definition put_epoch :: "nat \<Rightarrow> Epoch \<Rightarrow> Redis \<Rightarrow> Redis" where
  "put_epoch e x rd = rd\<lparr>epochs := mset_at e x (epochs rd)\<rparr>"

text \<open>\<open>HGET\<close> with \<open>or '0'\<close>, \<open>HINCRBY\<close>, \<open>SADD\<close>, \<open>SREM\<close>.\<close>

definition hget :: "(string, Pending) gomap \<Rightarrow> string \<Rightarrow> Pending" where
  "hget m k = (case mget m k of None \<Rightarrow> no_pending | Some p \<Rightarrow> p)"

definition hincr :: "string \<Rightarrow> int \<Rightarrow> int \<Rightarrow> int \<Rightarrow> int \<Rightarrow> (string, Pending) gomap \<Rightarrow> (string, Pending) gomap" where
  "hincr k v mm d c m =
     (let p = hget m k
      in mset_at k \<lparr>pending_vcpu = pending_vcpu p + v, pending_mem_mib = pending_mem_mib p + mm,
                    pending_disk_mib = pending_disk_mib p + d, pending_machines = pending_machines p + c\<rparr> m)"

definition sadd :: "string \<Rightarrow> string list \<Rightarrow> string list" where
  "sadd x xs = (if x \<in> set xs then xs else x # xs)"

definition srem :: "string \<Rightarrow> string list \<Rightarrow> string list" where
  "srem x xs = filter (\<lambda>y. y \<noteq> x) xs"

text \<open>The booking of one record in both hashes, with a sign.\<close>

definition book :: "int \<Rightarrow> Resv \<Rightarrow> Epoch \<Rightarrow> Epoch" where
  "book sg r e = e\<lparr>
     e_node := hincr (r_NodeID r) (sg * r_VCPU r) (sg * r_MemMib r) (sg * r_DiskMib r) 0 (e_node e),
     e_project := hincr (r_ProjectID r) (sg * r_VCPU r) (sg * r_MemMib r) (sg * r_DiskMib r) (sg * r_Machines r)
       (e_project e)\<rparr>"

definition drop_op :: "string \<Rightarrow> Epoch \<Rightarrow> Epoch" where
  "drop_op op e = e\<lparr>e_ops := srem op (e_ops e), e_op := mdel op (e_op e)\<rparr>"

definition add_op :: "string \<Rightarrow> Resv \<Rightarrow> int \<Rightarrow> Epoch \<Rightarrow> Epoch" where
  "add_op op r life e = e\<lparr>
     e_nodes := sadd (r_NodeID r) (e_nodes e), e_projects := sadd (r_ProjectID r) (e_projects e),
     e_ops := sadd op (e_ops e), e_op := mset_at op (Stored r, life) (e_op e)\<rparr>"

section \<open>The scripts\<close>

record Limits =
  node_vcpu_total :: int
  node_mem_total :: int
  node_disk_total :: int
  project_vcpu_quota :: int
  project_mem_quota :: int
  project_disk_quota :: int
  project_machine_quota :: int
  cpu_oversubscribe :: rat

definition admission_code :: "Limits \<Rightarrow> Resv \<Rightarrow> Epoch \<Rightarrow> int" where
  "admission_code lims r e =
     (let n = hget (e_node e) (r_NodeID r); p = hget (e_project e) (r_ProjectID r)
      in if of_int (pending_vcpu n + r_VCPU r) > fmul (of_int (node_vcpu_total lims)) (cpu_oversubscribe lims) then -3
         else if pending_mem_mib n + r_MemMib r > node_mem_total lims then -4
         else if node_disk_total lims > 0 \<and> pending_disk_mib n + r_DiskMib r > node_disk_total lims then -5
         else if pending_vcpu p + r_VCPU r > project_vcpu_quota lims then -1
         else if pending_mem_mib p + r_MemMib r > project_mem_quota lims then -2
         else if project_disk_quota lims > 0 \<and> pending_disk_mib p + r_DiskMib r > project_disk_quota lims then -6
         else if project_machine_quota lims > 0 \<and> pending_machines p + r_Machines r > project_machine_quota lims then -7
         else 1)"

text \<open>A record of the same operation with other parameters is taken back first, whatever the
  admission then says.\<close>

definition takeback :: "string \<Rightarrow> Epoch \<Rightarrow> Epoch" where
  "takeback op e =
     (case mget (e_op e) op of
        Some (Stored prev, _) \<Rightarrow> drop_op op (book (-1) prev e)
      | _ \<Rightarrow> e)"

definition acquire_epoch :: "int \<Rightarrow> Limits \<Rightarrow> string \<Rightarrow> Resv \<Rightarrow> Epoch \<Rightarrow> int \<times> Epoch" where
  "acquire_epoch ttl lims op r e =
     (if (case mget (e_op e) op of Some (Stored prev, _) \<Rightarrow> prev = r | _ \<Rightarrow> False) then (1, e)
      else
        (let e1 = takeback op e; code = admission_code lims r e1
         in if code \<noteq> 1 then (code, e1) else (1, add_op op r (ttl * 1000) (book 1 r e1))))"

definition acquire_script :: "int \<Rightarrow> Limits \<Rightarrow> string \<Rightarrow> Resv \<Rightarrow> Redis \<Rightarrow> int \<times> Redis" where
  "acquire_script ttl lims op r rd =
     (let a = active_epoch rd; (code, e) = acquire_epoch ttl lims op r (epoch_at rd a)
      in (code, put_epoch a e rd))"

definition release_epoch :: "string \<Rightarrow> Epoch \<Rightarrow> int \<times> Epoch" where
  "release_epoch op e =
     (case mget (e_op e) op of
        None \<Rightarrow> (0, e)
      | Some (Garbled, _) \<Rightarrow> (1, drop_op op e)
      | Some (Stored r, _) \<Rightarrow> (1, drop_op op (book (-1) r e)))"

definition releaseIfHeld_script :: "string \<Rightarrow> Redis \<Rightarrow> int \<times> Redis" where
  "releaseIfHeld_script op rd =
     (let a = active_epoch rd; (held, e) = release_epoch op (epoch_at rd a)
      in (held, put_epoch a e rd))"

text \<open>One round of the replay loop of \<open>reset\<close>: a live record of the old epoch is booked into the
  new one and keeps its remaining life.\<close>

definition replay_op :: "int \<Rightarrow> Epoch \<Rightarrow> string \<Rightarrow> Epoch \<Rightarrow> Epoch" where
  "replay_op ttl old op new =
     (case mget (e_op old) op of
        Some (Stored r, pttl) \<Rightarrow> add_op op r (if pttl \<le> 0 then ttl * 1000 else pttl) (book 1 r new)
      | _ \<Rightarrow> new)"

definition expire_epoch :: "int \<Rightarrow> Epoch \<Rightarrow> Epoch" where
  "expire_epoch ttl e = e\<lparr>e_expire := Some (ttl * 1000),
     e_op := map (\<lambda>(op, s, life). (op, s, if op \<in> set (e_ops e) then ttl * 1000 else life)) (e_op e)\<rparr>"

definition reset_script :: "int \<Rightarrow> Redis \<Rightarrow> nat \<times> Redis" where
  "reset_script ttl rd =
     (let old_active = active_epoch rd; old = epoch_at rd old_active;
          epoch = epoch_seq rd + 1;
          new = fold (replay_op ttl old) (e_ops old) (epoch_at rd epoch);
          rd1 = put_epoch epoch new (rd\<lparr>epoch_seq := epoch, resv_active := Some epoch\<rparr>)
      in (length (e_nodes old) + length (e_projects old), put_epoch old_active (expire_epoch ttl old) rd1))"

definition get_script :: "string \<Rightarrow> Redis \<Rightarrow> stored option" where
  "get_script op rd = map_option fst (mget (e_op (epoch_at rd (active_epoch rd))) op)"

section \<open>The methods\<close>

datatype resv_err = ErrProjectQuota | ErrNodeCapacity | ErrNotHeld | ErrRedis | ErrParse | ErrUnexpected int

definition defaultNodeCPUOversubscribe :: rat where
  "defaultNodeCPUOversubscribe = 4"

definition new_ttl :: "int \<Rightarrow> int" where
  "new_ttl ttl = (if ttl \<le> 0 then 120 else ttl)"

text \<open>\<open>down\<close> says that the call does not reach Redis. The optional trailing arguments are the
  machine quota and the number of machines.\<close>

definition AcquireR :: "bool \<Rightarrow> int \<Rightarrow> string \<Rightarrow> string \<Rightarrow> string \<Rightarrow> int \<Rightarrow> int \<Rightarrow> int \<Rightarrow> Limits \<Rightarrow> int list \<Rightarrow>
    (Redis, resv_err, unit) act" where
  "AcquireR down ttl opID nodeID projectID vcpu memMib diskMib lims opt rd =
     (let over = (if cpu_oversubscribe lims \<le> 0 then defaultNodeCPUOversubscribe else cpu_oversubscribe lims);
          quota = (if opt = [] then 0 else opt ! 0);
          machines = (if length opt > 1 then opt ! 1 else 1);
          r = \<lparr>r_NodeID = nodeID, r_ProjectID = projectID, r_VCPU = vcpu, r_MemMib = memMib, r_DiskMib = diskMib,
               r_Machines = machines\<rparr>
      in if down then (Inl ErrRedis, rd)
         else
           (let (res, rd') = acquire_script ttl (lims\<lparr>project_machine_quota := quota, cpu_oversubscribe := over\<rparr>) opID r rd
            in (if res = 1 then Inr ()
                else if res = -1 \<or> res = -2 \<or> res = -6 \<or> res = -7 then Inl ErrProjectQuota
                else if res = -3 \<or> res = -4 \<or> res = -5 then Inl ErrNodeCapacity
                else Inl (ErrUnexpected res), rd')))"

definition Acquire :: "bool \<Rightarrow> int \<Rightarrow> string \<Rightarrow> string \<Rightarrow> string \<Rightarrow> int \<Rightarrow> int \<Rightarrow> int \<Rightarrow> Limits \<Rightarrow> int list \<Rightarrow>
    (Redis, resv_err, unit) act" where
  "Acquire down ttl opID nodeID projectID vcpu memMib diskMib lims opt =
     AcquireR down ttl opID nodeID projectID vcpu memMib diskMib
       (lims\<lparr>cpu_oversubscribe := defaultNodeCPUOversubscribe\<rparr>) opt"

definition releasePending :: "bool \<Rightarrow> string \<Rightarrow> (Redis, resv_err, unit) act" where
  "releasePending down opID rd =
     (if down then (Inl ErrRedis, rd)
      else (let (held, rd') = releaseIfHeld_script opID rd
            in if held = 0 then (Inl ErrNotHeld, rd') else (Inr (), rd')))"

definition Commit :: "bool \<Rightarrow> string \<Rightarrow> (Redis, resv_err, unit) act" where
  "Commit = releasePending"

definition Release :: "bool \<Rightarrow> string \<Rightarrow> (Redis, resv_err, unit) act" where
  "Release = releasePending"

definition resv_Get :: "bool \<Rightarrow> string \<Rightarrow> Redis \<Rightarrow> resv_err + Resv option" where
  "resv_Get down opID rd =
     (if down then Inl ErrRedis
      else (case get_script opID rd of
              None \<Rightarrow> Inr None | Some Garbled \<Rightarrow> Inl ErrParse | Some (Stored r) \<Rightarrow> Inr (Some r)))"

definition PendingByNode :: "Redis \<Rightarrow> (string, int \<times> int) gomap" where
  "PendingByNode rd =
     (let e = epoch_at rd (active_epoch rd)
      in map (\<lambda>n. (n, pending_vcpu (hget (e_node e) n), pending_mem_mib (hget (e_node e) n))) (e_nodes e))"

text \<open>The pruning loop over the epoch that was active when the method began; \<open>fails\<close> says for
  which operation the pipeline does not reach Redis.\<close>

fun prune_ops :: "nat \<Rightarrow> (string \<Rightarrow> bool) \<Rightarrow> (string \<Rightarrow> bool) \<Rightarrow> nat \<Rightarrow> string list \<Rightarrow> Redis \<Rightarrow>
    (nat \<times> resv_err option) \<times> Redis" where
  "prune_ops ep fails activeOps released [] rd = ((released, None), rd)"
| "prune_ops ep fails activeOps released (op # ops) rd =
     (if activeOps op then prune_ops ep fails activeOps released ops rd
      else if fails op then ((released, Some ErrRedis), rd)
      else prune_ops ep fails activeOps (released + 1) ops (put_epoch ep (drop_op op (epoch_at rd ep)) rd))"

definition PruneStaleOps :: "(string \<Rightarrow> bool) \<Rightarrow> (string \<Rightarrow> bool) \<Rightarrow> Redis \<Rightarrow> (nat \<times> resv_err option) \<times> Redis" where
  "PruneStaleOps fails activeOps rd =
     (let ep = active_epoch rd in prune_ops ep fails activeOps 0 (e_ops (epoch_at rd ep)) rd)"

definition Reset :: "bool \<Rightarrow> int \<Rightarrow> (Redis, resv_err, nat) act" where
  "Reset down ttl rd = (if down then (Inl ErrRedis, rd) else (let (n, rd') = reset_script ttl rd in (Inr n, rd')))"

section \<open>Time\<close>

text \<open>Redis removes a record key when its life ends.\<close>

definition elapse :: "int \<Rightarrow> Epoch \<Rightarrow> Epoch" where
  "elapse d e = e\<lparr>e_op := map (\<lambda>(op, s, life). (op, s, life - d)) (filter (\<lambda>(op, s, life). d < life) (e_op e))\<rparr>"

section \<open>Accounting\<close>

text \<open>The seven counters of an epoch: which hash field, whose, and how much a record adds to it.\<close>

datatype dim = NodeCPU | NodeMem | NodeDisk | ProjectCPU | ProjectMem | ProjectDisk | ProjectMachines

fun counter :: "dim \<Rightarrow> string \<Rightarrow> Epoch \<Rightarrow> int" where
  "counter NodeCPU n e = pending_vcpu (hget (e_node e) n)"
| "counter NodeMem n e = pending_mem_mib (hget (e_node e) n)"
| "counter NodeDisk n e = pending_disk_mib (hget (e_node e) n)"
| "counter ProjectCPU n e = pending_vcpu (hget (e_project e) n)"
| "counter ProjectMem n e = pending_mem_mib (hget (e_project e) n)"
| "counter ProjectDisk n e = pending_disk_mib (hget (e_project e) n)"
| "counter ProjectMachines n e = pending_machines (hget (e_project e) n)"

fun amount :: "dim \<Rightarrow> Resv \<Rightarrow> int" where
  "amount NodeCPU r = r_VCPU r"
| "amount NodeMem r = r_MemMib r"
| "amount NodeDisk r = r_DiskMib r"
| "amount ProjectCPU r = r_VCPU r"
| "amount ProjectMem r = r_MemMib r"
| "amount ProjectDisk r = r_DiskMib r"
| "amount ProjectMachines r = r_Machines r"

fun owner :: "dim \<Rightarrow> Resv \<Rightarrow> string" where
  "owner NodeCPU r = r_NodeID r"
| "owner NodeMem r = r_NodeID r"
| "owner NodeDisk r = r_NodeID r"
| "owner ProjectCPU r = r_ProjectID r"
| "owner ProjectMem r = r_ProjectID r"
| "owner ProjectDisk r = r_ProjectID r"
| "owner ProjectMachines r = r_ProjectID r"

fun share :: "dim \<Rightarrow> string \<Rightarrow> string \<Rightarrow> stored \<times> int \<Rightarrow> int" where
  "share d n op (Garbled, life) = 0"
| "share d n op (Stored r, life) = (if owner d r = n then amount d r else 0)"

text \<open>What the live records of an epoch add up to, and by how much a counter exceeds it.\<close>

definition booked :: "dim \<Rightarrow> string \<Rightarrow> Epoch \<Rightarrow> int" where
  "booked d n e = gsum (share d n) (e_op e)"

definition slack :: "dim \<Rightarrow> string \<Rightarrow> Epoch \<Rightarrow> int" where
  "slack d n e = counter d n e - booked d n e"

definition resv_nonneg :: "Resv \<Rightarrow> bool" where
  "resv_nonneg r \<longleftrightarrow> 0 \<le> r_VCPU r \<and> 0 \<le> r_MemMib r \<and> 0 \<le> r_DiskMib r \<and> 0 \<le> r_Machines r"

text \<open>Every record key is in the member set, and amounts are not negative.\<close>

definition epoch_wf :: "Epoch \<Rightarrow> bool" where
  "epoch_wf e \<longleftrightarrow> gomap_ok (e_node e) \<and> gomap_ok (e_project e) \<and> gomap_ok (e_op e) \<and> distinct (e_ops e) \<and>
     (\<forall>op sl. mget (e_op e) op = Some sl \<longrightarrow> op \<in> set (e_ops e)) \<and>
     (\<forall>op r life. mget (e_op e) op = Some (Stored r, life) \<longrightarrow> resv_nonneg r)"

definition covered :: "Epoch \<Rightarrow> bool" where
  "covered e \<longleftrightarrow> epoch_wf e \<and> (\<forall>d n. 0 \<le> slack d n e)"

definition exact :: "Epoch \<Rightarrow> bool" where
  "exact e \<longleftrightarrow> epoch_wf e \<and> (\<forall>d n. slack d n e = 0)"

lemma amount_nonneg: "resv_nonneg r \<Longrightarrow> 0 \<le> amount d r"
  by (cases d) (simp_all add: resv_nonneg_def)

lemma hget_hincr:
  "hget (hincr k v mm d c m) n = (if n = k
     then \<lparr>pending_vcpu = pending_vcpu (hget m k) + v, pending_mem_mib = pending_mem_mib (hget m k) + mm,
           pending_disk_mib = pending_disk_mib (hget m k) + d, pending_machines = pending_machines (hget m k) + c\<rparr>
     else hget m n)"
  by (simp add: hincr_def Let_def hget_def [of "AList.update _ _ _"]) (simp add: hget_def)

lemma counter_book: "counter d n (book sg r e) = counter d n e + (if owner d r = n then sg * amount d r else 0)"
  by (cases d) (auto simp: book_def hget_hincr)

lemma counter_ops [simp]: "counter d n (drop_op op e) = counter d n e" "counter d n (add_op op r life e) = counter d n e"
  by (cases d; simp add: drop_op_def add_op_def)+

lemma book_ops [simp]: "e_op (book sg r e) = e_op e" "e_ops (book sg r e) = e_ops e"
  by (simp_all add: book_def)

lemma op_keys [simp]: "e_op (drop_op op e) = mdel op (e_op e)" "e_ops (drop_op op e) = srem op (e_ops e)"
  "e_op (add_op op r life e) = mset_at op (Stored r, life) (e_op e)" "e_ops (add_op op r life e) = sadd op (e_ops e)"
  by (simp_all add: drop_op_def add_op_def)

lemma booked_book [simp]: "booked d n (book sg r e) = booked d n e"
  by (simp add: booked_def)

lemma booked_drop: "epoch_wf e \<Longrightarrow> booked d n (drop_op op e) = booked d n e - at_key (share d n) op (mget (e_op e) op)"
  by (simp add: booked_def drop_op_def gsum_delete epoch_wf_def)

lemma booked_add:
  "epoch_wf e \<Longrightarrow> booked d n (add_op op r life e) =
     booked d n e - at_key (share d n) op (mget (e_op e) op) + (if owner d r = n then amount d r else 0)"
  by (simp add: booked_def add_op_def gsum_update epoch_wf_def)

lemma epoch_wf_book [simp]: "epoch_wf e \<Longrightarrow> epoch_wf (book sg r e)"
  by (simp add: epoch_wf_def book_def hincr_def Let_def)

lemma epoch_wf_drop [simp]: "epoch_wf e \<Longrightarrow> epoch_wf (drop_op op e)"
  by (auto simp: epoch_wf_def drop_op_def srem_def split: if_splits)

lemma epoch_wf_add [simp]: "epoch_wf e \<Longrightarrow> resv_nonneg r \<Longrightarrow> epoch_wf (add_op op r life e)"
  by (auto simp: epoch_wf_def add_op_def sadd_def split: if_splits)

lemma epoch_wf_empty [simp]: "epoch_wf empty_epoch"
  by (simp add: epoch_wf_def empty_epoch_def)

text \<open>A booking and its record cancel out.\<close>

lemma slack_takeback:
  assumes "epoch_wf e" and "mget (e_op e) op = Some (Stored r, life)"
  shows "slack d n (drop_op op (book (-1) r e)) = slack d n e"
  using assms by (simp add: slack_def booked_drop counter_book)

lemma slack_grant:
  assumes "epoch_wf e" and "\<And>s life. mget (e_op e) op = Some (s, life) \<Longrightarrow> s = Garbled"
  shows "slack d n (add_op op r life (book 1 r e)) = slack d n e"
proof -
  have "at_key (share d n) op (mget (e_op e) op) = 0"
    using assms(2) by (cases "mget (e_op e) op") auto
  then show ?thesis using assms(1) by (simp add: slack_def booked_add counter_book)
qed

lemma takeback_facts:
  assumes "epoch_wf e"
  shows "epoch_wf (takeback op e) \<and> slack d n (takeback op e) = slack d n e \<and>
    (\<forall>s life. mget (e_op (takeback op e)) op = Some (s, life) \<longrightarrow> s = Garbled)"
  using assms slack_takeback [OF assms]
  by (auto simp: takeback_def split: option.splits stored.splits)

lemma acquire_accounting:
  assumes "epoch_wf e" and "resv_nonneg r"
  shows "epoch_wf (snd (acquire_epoch ttl lims op r e)) \<and> slack d n (snd (acquire_epoch ttl lims op r e)) = slack d n e"
proof -
  note t = takeback_facts [OF assms(1), of op d n]
  have "slack d n (add_op op r (ttl * 1000) (book 1 r (takeback op e))) = slack d n (takeback op e)"
    using t by (intro slack_grant) blast+
  with t assms show ?thesis by (simp add: acquire_epoch_def Let_def)
qed

lemma release_accounting:
  assumes "epoch_wf e"
  shows "epoch_wf (snd (release_epoch op e)) \<and> slack d n (snd (release_epoch op e)) = slack d n e"
  using assms slack_takeback [OF assms, of op _ _ d n]
  by (auto simp: release_epoch_def slack_def booked_drop split: option.splits stored.splits)

text \<open>Dropping a record key without its booking only adds slack.\<close>

lemma at_key_share_nonneg: "epoch_wf e \<Longrightarrow> 0 \<le> at_key (share d n) op (mget (e_op e) op)"
proof (cases "mget (e_op e) op")
  case (Some sl)
  assume "epoch_wf e"
  with Some have "resv_nonneg r" if "fst sl = Stored r" for r
    using that by (cases sl) (auto simp: epoch_wf_def)
  with Some show ?thesis
    by (cases sl; cases "fst sl") (auto intro: amount_nonneg)
qed simp

lemma drop_covered: "covered e \<Longrightarrow> covered (drop_op op e)"
proof -
  assume c: "covered e"
  have "0 \<le> slack d n (drop_op op e)" for d n
  proof -
    have "0 \<le> slack d n e" and "epoch_wf e" using c by (simp_all add: covered_def)
    with at_key_share_nonneg [of e d n op] show ?thesis by (simp add: slack_def booked_drop)
  qed
  with c show ?thesis by (simp add: covered_def)
qed

lemma elapse_keys: "mget (e_op (elapse t e)) op = Some sl \<Longrightarrow> epoch_wf e \<Longrightarrow> \<exists>life. mget (e_op e) op = Some (fst sl, life)"
proof -
  assume a: "mget (e_op (elapse t e)) op = Some sl" and wf: "epoch_wf e"
  from map_of_SomeD [OF a] obtain life where "(op, fst sl, life) \<in> set (e_op e)"
    by (auto simp: elapse_def)
  then show ?thesis using wf by (auto simp: epoch_wf_def gomap_ok_def)
qed

lemma elapse_wf: "epoch_wf e \<Longrightarrow> epoch_wf (elapse t e)"
proof -
  assume wf: "epoch_wf e"
  have "distinct (map fst (filter P m))" if "distinct (map fst m)" for P and m :: "(string, stored \<times> int) gomap"
    using that by (simp add: distinct_map_filter)
  then have "gomap_ok (e_op (elapse t e))"
    using wf by (auto simp: epoch_wf_def gomap_ok_def elapse_def comp_def split_beta)
  then show ?thesis
    using wf elapse_keys [OF _ wf] by (fastforce simp: epoch_wf_def elapse_def)
qed

lemma elapse_booked: "epoch_wf e \<Longrightarrow> booked d n (elapse t e) \<le> booked d n e"
proof -
  assume wf: "epoch_wf e"
  have nn: "0 \<le> share d n op sl" if "(op, sl) \<in> set (e_op e)" for op sl
  proof -
    have "mget (e_op e) op = Some sl" using wf that by (auto simp: epoch_wf_def gomap_ok_def)
    with at_key_share_nonneg [OF wf, of d n op] show ?thesis by simp
  qed
  have life: "share d n op (s, x) = share d n op (s, y)" for op s x y by (cases s) simp_all
  have "gsum (share d n) (map (\<lambda>(op, s, life). (op, s, life - t)) (filter (\<lambda>(op, s, life). t < life) m)) \<le> gsum (share d n) m"
    if "\<And>op sl. (op, sl) \<in> set m \<Longrightarrow> 0 \<le> share d n op sl" for m
    using that
  proof (induction m)
    case (Cons a m)
    obtain op s x where a: "a = (op, s, x)" by (cases a)
    have "0 \<le> share d n op (s, x)" using Cons.prems by (simp add: a)
    moreover have "gsum (share d n) (map (\<lambda>(op, s, life). (op, s, life - t)) (filter (\<lambda>(op, s, life). t < life) m))
        \<le> gsum (share d n) m" using Cons by simp
    ultimately show ?case using life [of op s "x - t" x] by (simp add: a gsum_Cons)
  qed simp
  from this [OF nn] show ?thesis by (simp add: booked_def elapse_def)
qed

lemma elapse_covered: "covered e \<Longrightarrow> covered (elapse t e)"
proof -
  assume c: "covered e"
  have "counter d n (elapse t e) = counter d n e" for d n by (cases d) (simp_all add: elapse_def)
  moreover have "0 \<le> slack d n e" for d n using c by (simp add: covered_def)
  ultimately have "0 \<le> slack d n (elapse t e)" for d n
    using c elapse_booked [of e d n t] unfolding covered_def slack_def by (metis diff_mono order_refl order_trans)
  with c elapse_wf show ?thesis by (simp add: covered_def)
qed

section \<open>The epoch switch\<close>

definition kept_life :: "int \<Rightarrow> int \<Rightarrow> int" where
  "kept_life ttl pttl = (if pttl \<le> 0 then ttl * 1000 else pttl)"

lemma replay_ops:
  assumes "epoch_wf old" and "distinct ops" and "exact new" and "\<And>op. op \<in> set ops \<Longrightarrow> mget (e_op new) op = None"
  shows "exact (fold (replay_op ttl old) ops new) \<and>
    (\<forall>op. mget (e_op (fold (replay_op ttl old) ops new)) op =
       (if op \<in> set ops
        then (case mget (e_op old) op of Some (Stored r, pttl) \<Rightarrow> Some (Stored r, kept_life ttl pttl) | _ \<Rightarrow> None)
        else mget (e_op new) op))"
  using assms(2-4)
proof (induction ops arbitrary: new)
  case Nil
  then show ?case by simp
next
  case (Cons op ops)
  let ?new = "replay_op ttl old op new"
  have free: "mget (e_op new) op = None" using Cons.prems(3) by simp
  have ex: "exact ?new"
  proof (cases "mget (e_op old) op")
    case None
    with Cons.prems show ?thesis by (simp add: replay_op_def)
  next
    case (Some sl)
    show ?thesis
    proof (cases sl)
      case (Pair s life)
      have "resv_nonneg r" if "s = Stored r" for r using that Some Pair assms(1) by (auto simp: epoch_wf_def)
      then show ?thesis
        using Cons.prems(2) Some Pair slack_grant [of new op] free
        by (cases s) (auto simp: replay_op_def exact_def)
    qed
  qed
  have key: "mget (e_op ?new) op' = (if op' = op
      then (case mget (e_op old) op of Some (Stored r, pttl) \<Rightarrow> Some (Stored r, kept_life ttl pttl) | _ \<Rightarrow> None)
      else mget (e_op new) op')" for op'
    using free by (auto simp: replay_op_def kept_life_def split: option.splits stored.splits)
  have "mget (e_op ?new) op' = None" if "op' \<in> set ops" for op'
    using that Cons.prems(1,3) key [of op'] by auto
  from Cons.IH [OF _ ex this] Cons.prems(1) key show ?case by (auto simp: key)
qed

lemma exact_empty: "exact empty_epoch"
proof -
  have "slack d n empty_epoch = 0" for d n
    by (cases d) (simp_all add: slack_def booked_def empty_epoch_def hget_def no_pending_def)
  then show ?thesis by (simp add: exact_def)
qed
section \<open>The store\<close>

text \<open>No epoch beyond the counter is in use, and the active epoch's counters cover its records.\<close>

definition redis_ok :: "Redis \<Rightarrow> bool" where
  "redis_ok rd \<longleftrightarrow> (\<forall>k x. mget (epochs rd) k = Some x \<longrightarrow> k \<le> epoch_seq rd) \<and>
     active_epoch rd \<le> epoch_seq rd \<and> covered (epoch_at rd (active_epoch rd))"

definition current :: "Redis \<Rightarrow> Epoch" where
  "current rd = epoch_at rd (active_epoch rd)"

definition fresh_redis :: Redis where
  "fresh_redis = \<lparr>resv_active = None, epoch_seq = 0, epochs = []\<rparr>"

definition pass_time :: "int \<Rightarrow> Redis \<Rightarrow> Redis" where
  "pass_time t rd = rd\<lparr>epochs := map (\<lambda>(k, e). (k, elapse t e)) (epochs rd)\<rparr>"

lemma put_epoch_simps [simp]:
  "epoch_at (put_epoch k x rd) k' = (if k' = k then x else epoch_at rd k')"
  "active_epoch (put_epoch k x rd) = active_epoch rd" "epoch_seq (put_epoch k x rd) = epoch_seq rd"
  by (simp_all add: put_epoch_def epoch_at_def active_epoch_def)

lemma switch_simps [simp]:
  "active_epoch (rd\<lparr>epoch_seq := s, resv_active := Some a\<rparr>) = a"
  "epoch_at (rd\<lparr>epoch_seq := s, resv_active := b\<rparr>) k = epoch_at rd k"
  by (simp_all add: active_epoch_def epoch_at_def)

lemma redis_ok_put_active:
  assumes "redis_ok rd" and "covered x"
  shows "redis_ok (put_epoch (active_epoch rd) x rd)"
  using assms by (auto simp: redis_ok_def) (simp add: put_epoch_def split: if_splits)

lemma fresh_redis_ok: "redis_ok fresh_redis"
proof -
  have "epoch_at fresh_redis 0 = empty_epoch" by (simp add: epoch_at_def fresh_redis_def)
  then show ?thesis
    using exact_empty by (simp add: redis_ok_def active_epoch_def fresh_redis_def covered_def exact_def)
qed

lemma acquire_script_ok:
  assumes "redis_ok rd" and "resv_nonneg r"
  shows "redis_ok (snd (acquire_script ttl lims op r rd))"
proof -
  have "covered (snd (acquire_epoch ttl lims op r (current rd)))"
    using assms acquire_accounting [OF _ assms(2)] by (auto simp: redis_ok_def covered_def current_def)
  with redis_ok_put_active [OF assms(1)] show ?thesis
    by (simp add: acquire_script_def Let_def split_beta current_def)
qed

lemma release_script_ok: "redis_ok rd \<Longrightarrow> redis_ok (snd (releaseIfHeld_script op rd))"
proof -
  assume ok: "redis_ok rd"
  then have "covered (snd (release_epoch op (current rd)))"
    using release_accounting by (auto simp: redis_ok_def covered_def current_def)
  with redis_ok_put_active [OF ok] show ?thesis
    by (simp add: releaseIfHeld_script_def Let_def split_beta current_def)
qed

lemma prune_ops_ok:
  "redis_ok rd \<Longrightarrow> ep = active_epoch rd \<Longrightarrow> redis_ok (snd (prune_ops ep fails live released ops rd))"
proof (induction ops arbitrary: released rd)
  case (Cons op ops)
  have "covered (drop_op op (epoch_at rd ep))" using Cons.prems by (auto simp: redis_ok_def intro: drop_covered)
  with redis_ok_put_active [OF Cons.prems(1)] Cons.prems(2)
  have "redis_ok (put_epoch ep (drop_op op (epoch_at rd ep)) rd)" by simp
  from Cons.IH [OF this] Cons.IH [OF Cons.prems(1)] Cons.prems show ?case by simp
qed simp

lemma epoch_at_pass_time: "epoch_at (pass_time t rd) k = elapse t (epoch_at rd k)"
proof -
  have "mget (map (\<lambda>(k, e). (k, elapse t e)) m) k = map_option (elapse t) (mget m k)" for m
    by (induction m) auto
  moreover have "elapse t empty_epoch = empty_epoch" by (simp add: elapse_def empty_epoch_def)
  ultimately show ?thesis by (simp add: epoch_at_def pass_time_def split: option.split)
qed

lemma pass_time_ok: "redis_ok rd \<Longrightarrow> redis_ok (pass_time t rd)"
proof -
  assume ok: "redis_ok rd"
  have act: "active_epoch (pass_time t rd) = active_epoch rd" by (simp add: active_epoch_def pass_time_def)
  have keys: "mget (epochs (pass_time t rd)) k = Some x \<Longrightarrow> \<exists>y. mget (epochs rd) k = Some y" for k x
    by (auto simp: pass_time_def dest!: map_of_SomeD) (metis image_eqI fst_conv map_of_eq_None_iff not_None_eq)
  have "covered (elapse t (epoch_at rd (active_epoch rd)))" using ok by (auto simp: redis_ok_def intro: elapse_covered)
  with ok keys show ?thesis
    unfolding redis_ok_def act epoch_at_pass_time by (auto dest!: keys) (simp_all add: pass_time_def)
qed

text \<open>The epoch switch: exact counters, and the same records.\<close>

lemma reset_script_facts:
  assumes "redis_ok rd"
  shows "exact (current (snd (reset_script ttl rd))) \<and>
    active_epoch (snd (reset_script ttl rd)) = epoch_seq rd + 1 \<and>
    epoch_seq (snd (reset_script ttl rd)) = epoch_seq rd + 1 \<and>
    (\<forall>op. mget (e_op (current (snd (reset_script ttl rd)))) op =
       (case mget (e_op (current rd)) op of Some (Stored r, pttl) \<Rightarrow> Some (Stored r, kept_life ttl pttl) | _ \<Rightarrow> None))"
proof -
  let ?old = "current rd" and ?rd = "snd (reset_script ttl rd)"
  have wf: "epoch_wf ?old" using assms by (simp add: redis_ok_def covered_def current_def)
  have fresh: "epoch_at rd (epoch_seq rd + 1) = empty_epoch"
    using assms by (auto simp: redis_ok_def epoch_at_def split: option.splits)
  have ne: "epoch_seq rd + 1 \<noteq> active_epoch rd" using assms by (auto simp: redis_ok_def)
  have act: "active_epoch ?rd = epoch_seq rd + 1" "epoch_seq ?rd = epoch_seq rd + 1"
    by (simp_all add: reset_script_def Let_def put_epoch_def active_epoch_def)
  have cur: "current ?rd = fold (replay_op ttl ?old) (e_ops ?old) empty_epoch"
    using ne fresh by (simp add: current_def act reset_script_def Let_def)
  have key: "mget (e_op ?old) op = None" if "op \<notin> set (e_ops ?old)" for op
    using that wf by (auto simp: epoch_wf_def) (metis option.exhaust surj_pair)
  have "distinct (e_ops ?old)" using wf by (simp add: epoch_wf_def)
  from replay_ops [OF wf this exact_empty, of ttl] cur act key show ?thesis
    by (auto simp: empty_epoch_def split: option.splits)
qed

lemma reset_script_ok: "redis_ok rd \<Longrightarrow> redis_ok (snd (reset_script ttl rd))"
proof -
  assume ok: "redis_ok rd"
  let ?rd = "snd (reset_script ttl rd)"
  have "covered (current ?rd)"
    using reset_script_facts [OF ok, of ttl] by (simp add: exact_def covered_def)
  moreover have "k \<le> epoch_seq rd + 1" if "mget (epochs ?rd) k = Some x" for k x
    using that ok by (auto simp: reset_script_def Let_def put_epoch_def redis_ok_def le_SucI split: if_splits)
  ultimately show ?thesis
    using reset_script_facts [OF ok, of ttl] by (simp add: redis_ok_def current_def)
qed
section \<open>Runs of the store\<close>

text \<open>Any interleaving of the methods of any number of processes, with the passing of time: each
  script is atomic in Redis, and a call that does not reach Redis changes nothing.\<close>

inductive resv_step :: "Redis \<Rightarrow> Redis \<Rightarrow> bool" where
  acquire: "0 \<le> vcpu \<Longrightarrow> 0 \<le> mem \<Longrightarrow> 0 \<le> disk \<Longrightarrow> list_all (\<lambda>x. 0 \<le> x) opt \<Longrightarrow>
    resv_step rd (snd (AcquireR down ttl op node project vcpu mem disk lims opt rd))"
| release: "resv_step rd (snd (releasePending down op rd))"
| prune: "resv_step rd (snd (PruneStaleOps fails live rd))"
| reset: "resv_step rd (snd (Reset down ttl rd))"
| time: "resv_step rd (pass_time t rd)"

lemma AcquireR_ok:
  assumes "redis_ok rd" and "0 \<le> vcpu" and "0 \<le> mem" and "0 \<le> disk" and "list_all (\<lambda>x. 0 \<le> x) opt"
  shows "redis_ok (snd (AcquireR down ttl op node project vcpu mem disk lims opt rd))"
proof -
  have "0 \<le> (if length opt > 1 then opt ! 1 else (1::int))"
    using assms(5) by (auto simp: list_all_length)
  then have "resv_nonneg \<lparr>r_NodeID = node, r_ProjectID = project, r_VCPU = vcpu, r_MemMib = mem, r_DiskMib = disk,
      r_Machines = (if length opt > 1 then opt ! 1 else 1)\<rparr>"
    using assms(2-4) by (simp add: resv_nonneg_def)
  with assms(1) show ?thesis
    using acquire_script_ok by (simp add: AcquireR_def Let_def split_beta)
qed

lemma resv_step_ok: "resv_step rd rd' \<Longrightarrow> redis_ok rd \<Longrightarrow> redis_ok rd'"
proof (induction rule: resv_step.induct)
  case (acquire vcpu mem disk opt rd down ttl op node project lims)
  then show ?case using AcquireR_ok by blast
next
  case (release rd down op)
  then show ?case using release_script_ok by (simp add: releasePending_def split_beta Let_def)
next
  case (prune rd fails live)
  then show ?case using prune_ops_ok by (simp add: PruneStaleOps_def Let_def)
next
  case (reset rd down ttl)
  then show ?case using reset_script_ok by (simp add: Reset_def split_beta)
next
  case (time rd t)
  then show ?case by (rule pass_time_ok)
qed

lemma resv_run_ok: "resv_step\<^sup>*\<^sup>* rd rd' \<Longrightarrow> redis_ok rd \<Longrightarrow> redis_ok rd'"
  by (induction rule: rtranclp_induct) (auto intro: resv_step_ok)

lemma covered_booked: "covered e \<Longrightarrow> booked d n e \<le> counter d n e"
  by (simp add: covered_def slack_def)

lemma admission_granted:
  assumes "admission_code lims r e = 1"
  shows "of_int (pending_vcpu (hget (e_node e) (r_NodeID r)) + r_VCPU r) \<le>
      fmul (of_int (node_vcpu_total lims)) (cpu_oversubscribe lims) \<and>
    pending_mem_mib (hget (e_node e) (r_NodeID r)) + r_MemMib r \<le> node_mem_total lims \<and>
    (node_disk_total lims > 0 \<longrightarrow> pending_disk_mib (hget (e_node e) (r_NodeID r)) + r_DiskMib r \<le> node_disk_total lims) \<and>
    pending_vcpu (hget (e_project e) (r_ProjectID r)) + r_VCPU r \<le> project_vcpu_quota lims \<and>
    pending_mem_mib (hget (e_project e) (r_ProjectID r)) + r_MemMib r \<le> project_mem_quota lims \<and>
    (project_disk_quota lims > 0 \<longrightarrow>
       pending_disk_mib (hget (e_project e) (r_ProjectID r)) + r_DiskMib r \<le> project_disk_quota lims) \<and>
    (project_machine_quota lims > 0 \<longrightarrow>
       pending_machines (hget (e_project e) (r_ProjectID r)) + r_Machines r \<le> project_machine_quota lims)"
  using assms unfolding admission_code_def Let_def
  by (auto simp: not_less simp del: of_int_add split: if_split_asm)

section \<open>Properties\<close>

text \<open>
  Claim C9. No overbooking: after any history of acquisitions, releases, prunings, epoch switches
  and expiries from the empty store, every acquisition that the script grants (other than the
  repetition of a recorded one) leaves the live reservations of the node within its memory and
  disk, its CPU within capacity times the overcommit ratio, and those of the project within
  its quotas.
\<close>

theorem no_overbooking:
  assumes "resv_step\<^sup>*\<^sup>* fresh_redis rd" and "resv_nonneg r" and "get_script op rd \<noteq> Some (Stored r)"
    and "acquire_script ttl lims op r rd = (1, rd')"
  shows "of_int (booked NodeCPU (r_NodeID r) (current rd')) \<le> fmul (of_int (node_vcpu_total lims)) (cpu_oversubscribe lims) \<and>
    booked NodeMem (r_NodeID r) (current rd') \<le> node_mem_total lims \<and>
    (node_disk_total lims > 0 \<longrightarrow> booked NodeDisk (r_NodeID r) (current rd') \<le> node_disk_total lims) \<and>
    booked ProjectCPU (r_ProjectID r) (current rd') \<le> project_vcpu_quota lims \<and>
    booked ProjectMem (r_ProjectID r) (current rd') \<le> project_mem_quota lims \<and>
    (project_disk_quota lims > 0 \<longrightarrow> booked ProjectDisk (r_ProjectID r) (current rd') \<le> project_disk_quota lims) \<and>
    (project_machine_quota lims > 0 \<longrightarrow>
       booked ProjectMachines (r_ProjectID r) (current rd') \<le> project_machine_quota lims)"
proof -
  let ?e = "takeback op (current rd)"
  have ok: "redis_ok rd" by (rule resv_run_ok [OF assms(1) fresh_redis_ok])
  have "covered (current rd')"
    using acquire_script_ok [OF ok assms(2), of ttl lims op] assms(4)
    by (simp add: redis_ok_def current_def acquire_script_def split_beta Let_def) auto
  then have cov: "booked d n (current rd') \<le> counter d n (current rd')" for d n by (rule covered_booked)
  have new: "\<not> (case mget (e_op (current rd)) op of Some (Stored prev, _) \<Rightarrow> prev = r | _ \<Rightarrow> False)"
    using assms(3) by (auto simp: get_script_def current_def split: option.splits stored.splits)
  have code: "admission_code lims r ?e = 1" and rd': "current rd' = add_op op r (ttl * 1000) (book 1 r ?e)"
    using assms(4) new
    by (auto simp: acquire_script_def acquire_epoch_def Let_def split_beta current_def split: if_splits)
  have cnt: "counter d n (current rd') = counter d n ?e + (if owner d r = n then amount d r else 0)" for d n
    by (simp add: rd' counter_book)
  have "of_int (counter NodeCPU (r_NodeID r) (current rd')) \<le> fmul (of_int (node_vcpu_total lims)) (cpu_oversubscribe lims)"
    using admission_granted [OF code] unfolding cnt by simp
  moreover have "(of_int (booked NodeCPU (r_NodeID r) (current rd')) :: rat) \<le> of_int (counter NodeCPU (r_NodeID r) (current rd'))"
    using cov by (simp only: of_int_le_iff)
  moreover have "counter NodeMem (r_NodeID r) (current rd') \<le> node_mem_total lims \<and>
    (node_disk_total lims > 0 \<longrightarrow> counter NodeDisk (r_NodeID r) (current rd') \<le> node_disk_total lims) \<and>
    counter ProjectCPU (r_ProjectID r) (current rd') \<le> project_vcpu_quota lims \<and>
    counter ProjectMem (r_ProjectID r) (current rd') \<le> project_mem_quota lims \<and>
    (project_disk_quota lims > 0 \<longrightarrow> counter ProjectDisk (r_ProjectID r) (current rd') \<le> project_disk_quota lims) \<and>
    (project_machine_quota lims > 0 \<longrightarrow>
       counter ProjectMachines (r_ProjectID r) (current rd') \<le> project_machine_quota lims)"
    using admission_granted [OF code] unfolding cnt by simp
  moreover have "booked d n (current rd') \<le> y" if "counter d n (current rd') \<le> y" for d n y
    using cov [of d n] that by linarith
  ultimately show ?thesis by (meson order_trans)
qed

text \<open>
  The epoch switch loses nothing and repairs the books: after any history, \<open>Reset\<close> moves to a fresh epoch in
  which every readable reservation of the old one is still held with the same content and no longer life,
  nothing else is held, and every counter equals the sum of the held reservations.
\<close>

lemma Reset_exact:
  assumes "resv_step\<^sup>*\<^sup>* fresh_redis rd"
  shows "exact (current (snd (Reset False ttl rd))) \<and>
    active_epoch (snd (Reset False ttl rd)) = epoch_seq rd + 1 \<and> active_epoch rd < epoch_seq rd + 1 \<and>
    (\<forall>op. mget (e_op (current (snd (Reset False ttl rd)))) op =
       (case mget (e_op (current rd)) op of
          Some (Stored r, pttl) \<Rightarrow> Some (Stored r, if pttl \<le> 0 then ttl * 1000 else pttl)
        | _ \<Rightarrow> None))"
proof -
  have ok: "redis_ok rd" by (rule resv_run_ok [OF assms fresh_redis_ok])
  then have "active_epoch rd < epoch_seq rd + 1" by (simp add: redis_ok_def)
  with reset_script_facts [OF ok, of ttl] show ?thesis
    by (auto simp: Reset_def split_beta kept_life_def split: option.splits stored.splits)
qed

text \<open>
  A release happens exactly once: releasing a held reservation succeeds and gives back
  exactly its amounts on every counter; releasing it again reports that it is not held and changes
  no record and no counter.
\<close>

lemma release_exactly_once:
  assumes "get_script op rd = Some (Stored r)"
  shows "fst (Release False op rd) = Inr () \<and>
    (\<forall>d n. counter d n (current (snd (Release False op rd))) =
       counter d n (current rd) - (if owner d r = n then amount d r else 0)) \<and>
    fst (Release False op (snd (Release False op rd))) = Inl ErrNotHeld \<and>
    current (snd (Release False op (snd (Release False op rd)))) = current (snd (Release False op rd))"
proof -
  obtain life where m: "mget (e_op (current rd)) op = Some (Stored r, life)"
    using assms by (auto simp: get_script_def current_def)
  have first: "Release False op rd = (Inr (), put_epoch (active_epoch rd) (drop_op op (book (-1) r (current rd))) rd)"
    using m by (simp add: Release_def releasePending_def releaseIfHeld_script_def release_epoch_def current_def Let_def)
  have cur: "current (snd (Release False op rd)) = drop_op op (book (-1) r (current rd))"
    by (simp add: first current_def)
  have second: "releaseIfHeld_script op (snd (Release False op rd)) =
      (0, put_epoch (active_epoch rd) (current (snd (Release False op rd))) (snd (Release False op rd)))"
    by (simp add: releaseIfHeld_script_def release_epoch_def first current_def Let_def)
  show ?thesis
    using cur second first by (simp add: Release_def releasePending_def counter_book current_def)
qed

definition demo_resv :: Resv where
  "demo_resv = \<lparr>r_NodeID = ''n1'', r_ProjectID = ''p1'', r_VCPU = 2, r_MemMib = 512, r_DiskMib = 10, r_Machines = 1\<rparr>"

definition demo_limits :: Limits where
  "demo_limits = \<lparr>node_vcpu_total = 8, node_mem_total = 1024, node_disk_total = 0, project_vcpu_quota = 4,
     project_mem_quota = 2048, project_disk_quota = 0, project_machine_quota = 3, cpu_oversubscribe = 4\<rparr>"

definition demo_held :: Redis where
  "demo_held = snd (acquire_script 120 demo_limits ''op1'' demo_resv fresh_redis)"

lemma demo_oversubscribe: "fmul 8 4 = 32"
  using fmul_nat_exact [of 8 4] by simp

lemma demo_granted: "acquire_script 120 demo_limits ''op1'' demo_resv fresh_redis = (1, demo_held)"
  "get_script ''op1'' demo_held = Some (Stored demo_resv)"
proof -
  have "fst (acquire_script 120 demo_limits ''op1'' demo_resv fresh_redis) = 1"
    using demo_oversubscribe
    by (simp add: acquire_script_def acquire_epoch_def takeback_def admission_code_def Let_def split_beta epoch_at_def
        fresh_redis_def empty_epoch_def hget_def no_pending_def demo_resv_def demo_limits_def)
  then show a: "acquire_script 120 demo_limits ''op1'' demo_resv fresh_redis = (1, demo_held)"
    unfolding demo_held_def by (metis prod.collapse)
  have "current (snd (acquire_script 120 demo_limits ''op1'' demo_resv fresh_redis)) =
      snd (acquire_epoch 120 demo_limits ''op1'' demo_resv empty_epoch)"
    by (simp add: acquire_script_def Let_def split_beta current_def) (simp add: epoch_at_def fresh_redis_def)
  moreover have "fst (acquire_epoch 120 demo_limits ''op1'' demo_resv empty_epoch) = 1"
    using a by (simp add: acquire_script_def Let_def split_beta epoch_at_def fresh_redis_def)
  ultimately show "get_script ''op1'' demo_held = Some (Stored demo_resv)"
    by (auto simp: get_script_def demo_held_def current_def acquire_epoch_def Let_def split: if_splits)
       (simp_all add: empty_epoch_def)
qed

theorem no_overbooking_witness:
  "booked NodeMem ''n1'' (current demo_held) \<le> 1024 \<and> booked ProjectMachines ''p1'' (current demo_held) \<le> 3"
  using no_overbooking [OF rtranclp.rtrancl_refl _ _ demo_granted(1)]
  by (simp add: resv_nonneg_def demo_resv_def demo_limits_def get_script_def epoch_at_def fresh_redis_def empty_epoch_def)

lemma demo_history: "resv_step\<^sup>*\<^sup>* fresh_redis (pass_time 5 fresh_redis)"
  by (rule r_into_rtranclp) (rule resv_step.time)

lemma Reset_exact_witness: "exact (current (snd (Reset False 120 (pass_time 5 fresh_redis))))"
  using Reset_exact [OF demo_history] by blast

lemma release_exactly_once_witness:
  "fst (Release False ''op1'' demo_held) = Inr () \<and>
   fst (Release False ''op1'' (snd (Release False ''op1'' demo_held))) = Inl ErrNotHeld"
  using release_exactly_once [OF demo_granted(2)] by blast

end
