(* ===== verification/FabricState.thy ===== *)
theory FabricState
  imports Ledger
begin

text \<open>
  The node's fabric snapshot (\<open>internal/agent/state/fabric.go\<close>): one durable record with a
  generation that only grows and whose content never changes within a generation. The JSON
  comparison of \<open>snapshotEqual\<close> is equality of the fields; slices whose JSON form tells nil from empty are
  options, and strings are taken to be valid UTF-8, on which the encoding is injective.
\<close>

section \<open>Data\<close>

record FabricPeer =
  peer_NodeID :: string
  peer_Pubkey :: string
  peer_Endpoint :: string
  peer_NodePrefix :: string
  peer_FabricGeneration :: u64

record FabricIdentity =
  fi_IdentityID :: u32
  fi_TrustDomain :: string
  fi_ProjectID :: string
  fi_AppID :: string
  fi_Service :: string
  fi_ULA :: string
  fi_MachineID :: string
  fi_ExecutionID :: string
  fi_Generation :: u64
  fi_MeshDirect :: bool

record EastWestRule =
  SrcProject :: string
  SrcApp :: string
  DstProject :: string
  DstApp :: string
  DstService :: string
  ew_Ports :: "u32 list option"

record DnsRecord =
  dns_Name :: string
  dns_AAAA :: "string list option"
  dns_Generation :: u64

record FabricSnapshot =
  snap_NodeID :: string
  snap_Generation :: u64
  snap_NodePrefix :: string
  snap_Peers :: "FabricPeer list"
  snap_Identities :: "FabricIdentity list"
  snap_EastWest :: "EastWestRule list"
  snap_EastWestGeneration :: u64
  snap_DNS :: "DnsRecord list"
  snap_UpdatedAt :: int

record Fabric =
  fab_file :: "FabricSnapshot fs"
  fab_current :: FabricSnapshot

definition zero_snapshot :: FabricSnapshot where
  "zero_snapshot = \<lparr>snap_NodeID = '''', snap_Generation = 0, snap_NodePrefix = '''', snap_Peers = [],
     snap_Identities = [], snap_EastWest = [], snap_EastWestGeneration = 0, snap_DNS = [], snap_UpdatedAt = 0\<rparr>"

datatype fabric_err = ErrStaleFabricGeneration u64 u64 | ErrSameGenerationDiffers u64 | ErrNodeMismatch string string
  | ErrZeroGeneration | ErrFabricPersist wfault

section \<open>Operations\<close>

definition OpenFabric :: "FabricSnapshot readback \<Rightarrow> FabricSnapshot fs \<Rightarrow> open_err + Fabric" where
  "OpenFabric r f =
     (case r of
        NotExist \<Rightarrow> Inr \<lparr>fab_file = f, fab_current = zero_snapshot\<rparr>
      | ReadErr \<Rightarrow> Inl OpenReadErr
      | EmptyFile \<Rightarrow> Inr \<lparr>fab_file = f, fab_current = zero_snapshot\<rparr>
      | Garbage \<Rightarrow> Inl OpenParseErr
      | Content s \<Rightarrow> Inr \<lparr>fab_file = f, fab_current = s\<rparr>)"

text \<open>Copying an empty slice onto nil gives nil.\<close>

definition clone_slice :: "'a list option \<Rightarrow> 'a list option" where
  "clone_slice x = (case x of None \<Rightarrow> None | Some xs \<Rightarrow> if xs = [] then None else Some xs)"

definition cloneSnapshot :: "FabricSnapshot \<Rightarrow> FabricSnapshot" where
  "cloneSnapshot s = s\<lparr>
     snap_EastWest := map (\<lambda>r. r\<lparr>ew_Ports := clone_slice (ew_Ports r)\<rparr>) (snap_EastWest s),
     snap_DNS := map (\<lambda>r. r\<lparr>dns_AAAA := clone_slice (dns_AAAA r)\<rparr>) (snap_DNS s)\<rparr>"

definition Current :: "Fabric \<Rightarrow> FabricSnapshot" where
  "Current f = cloneSnapshot (fab_current f)"

definition fabric_Check :: "u64 \<Rightarrow> Fabric \<Rightarrow> fabric_err + unit" where
  "fabric_Check generation f =
     (if snap_Generation (fab_current f) \<noteq> 0 \<and> generation < snap_Generation (fab_current f)
      then Inl (ErrStaleFabricGeneration (snap_Generation (fab_current f)) generation) else Inr ())"

definition snapshotEqual :: "FabricSnapshot \<Rightarrow> FabricSnapshot \<Rightarrow> bool" where
  "snapshotEqual a b \<longleftrightarrow> a\<lparr>snap_UpdatedAt := 0\<rparr> = b\<lparr>snap_UpdatedAt := 0\<rparr>"

definition CheckSnapshot :: "FabricSnapshot \<Rightarrow> Fabric \<Rightarrow> fabric_err + unit" where
  "CheckSnapshot snap f =
     (let cur = fab_current f in
      if snap_Generation cur = 0 then (if snap_Generation snap = 0 then Inl ErrZeroGeneration else Inr ())
      else if snap_NodeID snap \<noteq> snap_NodeID cur then Inl (ErrNodeMismatch (snap_NodeID snap) (snap_NodeID cur))
      else if snap_Generation snap < snap_Generation cur
        then Inl (ErrStaleFabricGeneration (snap_Generation cur) (snap_Generation snap))
      else if snap_Generation snap = snap_Generation cur \<and> \<not> snapshotEqual cur snap
        then Inl (ErrSameGenerationDiffers (snap_Generation snap))
      else Inr ())"

text \<open>\<open>persistLocked\<close>: marshalling fails only with the fault that stands for it.\<close>

definition persist_fabric :: "wfault \<Rightarrow> FabricSnapshot \<Rightarrow> Fabric \<Rightarrow> (wfault + unit) \<times> Fabric" where
  "persist_fabric flt snap f =
     (if flt = FMarshal then (Inl FMarshal, f)
      else (let (r, fl) = writeFileDurable flt snap (fab_file f) in (r, f\<lparr>fab_file := fl\<rparr>)))"

definition fabric_Apply :: "int \<Rightarrow> wfault \<Rightarrow> FabricSnapshot \<Rightarrow> (Fabric, fabric_err, bool) act" where
  "fabric_Apply now flt snap f =
     (if snap_Generation snap = 0 then (Inl ErrZeroGeneration, f)
      else
        (let cur = fab_current f in
         if snap_Generation cur \<noteq> 0 \<and> snap_NodeID snap \<noteq> snap_NodeID cur
           then (Inl (ErrNodeMismatch (snap_NodeID snap) (snap_NodeID cur)), f)
         else if snap_Generation snap < snap_Generation cur
           then (Inl (ErrStaleFabricGeneration (snap_Generation cur) (snap_Generation snap)), f)
         else if snap_Generation snap = snap_Generation cur
           then (if snapshotEqual cur snap then (Inr False, f)
                 else (Inl (ErrSameGenerationDiffers (snap_Generation snap)), f))
         else
           (let snap' = snap\<lparr>snap_UpdatedAt := now\<rparr> in
            case persist_fabric flt snap' f of
              (Inl e, f') \<Rightarrow> (Inl (ErrFabricPersist e), f')
            | (Inr _, f') \<Rightarrow> (Inr True, f'\<lparr>fab_current := cloneSnapshot snap'\<rparr>))))"

section \<open>Properties\<close>

lemma persist_fabric_cases:
  "persist_fabric flt snap f =
     (if flt = NoFault then Inr () else Inl flt,
      f\<lparr>fab_file := (if flt = FMarshal then fab_file f else snd (writeFileDurable flt snap (fab_file f)))\<rparr>)"
  by (cases flt) (auto simp: persist_fabric_def split_beta write_defs)

fun apply_all :: "(int \<times> wfault \<times> FabricSnapshot) list \<Rightarrow> Fabric \<Rightarrow> Fabric" where
  "apply_all [] f = f"
| "apply_all ((now, flt, snap) # cs) f = apply_all cs (snd (fabric_Apply now flt snap f))"

lemma Apply_step:
  "fab_current (snd (fabric_Apply now flt snap f)) = fab_current f \<or>
   snap_Generation (fab_current f) < snap_Generation (fab_current (snd (fabric_Apply now flt snap f)))"
  by (auto simp: fabric_Apply_def Let_def persist_fabric_cases cloneSnapshot_def not_less le_less)

lemma apply_all_step:
  "fab_current (apply_all cs f) = fab_current f \<or>
   snap_Generation (fab_current f) < snap_Generation (fab_current (apply_all cs f))"
proof (induction cs f rule: apply_all.induct)
  case (2 now flt snap cs f)
  with Apply_step [of now flt snap f] show ?case by (auto intro: less_trans)
qed simp

text \<open>
  The fabric generation is a version number: along any sequence of applies, with any
  failing file writes, the node's generation never decreases, and as long as it is the same
  the whole snapshot is the same.
\<close>

lemma fabric_generation_versions:
  "snap_Generation (fab_current f) \<le> snap_Generation (fab_current (apply_all cs f)) \<and>
   (snap_Generation (fab_current (apply_all cs f)) = snap_Generation (fab_current f) \<longleftrightarrow>
      fab_current (apply_all cs f) = fab_current f)"
  using apply_all_step [of cs f] by auto

text \<open>
  The pre-check agrees with the apply. A snapshot \<open>CheckSnapshot\<close> refuses is refused by
  \<open>Apply\<close> too, without any change and with the same error unless its generation is zero, which
  \<open>Apply\<close> reports first. A non-zero one that \<open>CheckSnapshot\<close> lets through is an acknowledged
  duplicate when the generation is the current one, and otherwise fails only by a fault of
  the file write.
\<close>

lemma CheckSnapshot_predicts_Apply:
  "case CheckSnapshot snap f of
     Inl e \<Rightarrow> fabric_Apply now flt snap f =
               (Inl (if snap_Generation snap = 0 then ErrZeroGeneration else e), f)
   | Inr _ \<Rightarrow> (if snap_Generation snap = 0 then fst (fabric_Apply now flt snap f) = Inl ErrZeroGeneration
             else fst (fabric_Apply now flt snap f) =
               (if snap_Generation snap = snap_Generation (fab_current f) then Inr False
                else if flt = NoFault then Inr True else Inl (ErrFabricPersist flt)))"
  by (auto simp: CheckSnapshot_def fabric_Apply_def Let_def persist_fabric_cases split: if_splits)

end
