(* ===== verification/GoStrings.thy ===== *)
theory GoStrings
  imports Prelude "HOL-Library.List_Lexorder" "HOL-Library.Char_ord"
begin

text \<open>
  The part of Go's \<open>strings\<close> and \<open>strconv\<close> packages that the sources use on host names,
  addresses and headers. A Go string is its list of bytes; the case and white-space functions
  are those of ASCII text (beyond ASCII the Go functions work on runes, and the texts they are
  applied to here are host names, addresses, header lines and identifiers). The order on
  strings is the lexicographic one on bytes, as Go compares them.
\<close>

named_theorems str_simps \<open>how the string operations act on text that needs no normalisation\<close>

section \<open>Operations\<close>

definition is_upper :: "char \<Rightarrow> bool" where
  "is_upper c \<longleftrightarrow> CHR ''A'' \<le> c \<and> c \<le> CHR ''Z''"

definition is_lower :: "char \<Rightarrow> bool" where
  "is_lower c \<longleftrightarrow> CHR ''a'' \<le> c \<and> c \<le> CHR ''z''"

definition is_digit :: "char \<Rightarrow> bool" where
  "is_digit c \<longleftrightarrow> CHR ''0'' \<le> c \<and> c \<le> CHR ''9''"

definition is_space :: "char \<Rightarrow> bool" where
  "is_space c \<longleftrightarrow> (9 \<le> (of_char c :: nat) \<and> (of_char c :: nat) \<le> 13) \<or> (of_char c :: nat) = 32"

definition lower_char :: "char \<Rightarrow> char" where
  "lower_char c = (if is_upper c then char_of (of_char c + 32 :: nat) else c)"

definition ToLower :: "string \<Rightarrow> string" where
  "ToLower s = map lower_char s"

definition TrimSpace :: "string \<Rightarrow> string" where
  "TrimSpace s = rev (dropWhile is_space (rev (dropWhile is_space s)))"

definition HasPrefix :: "string \<Rightarrow> string \<Rightarrow> bool" where
  "HasPrefix s p \<longleftrightarrow> take (length p) s = p"

definition HasSuffix :: "string \<Rightarrow> string \<Rightarrow> bool" where
  "HasSuffix s p \<longleftrightarrow> length p \<le> length s \<and> drop (length s - length p) s = p"

definition TrimPrefix :: "string \<Rightarrow> string \<Rightarrow> string" where
  "TrimPrefix s p = (if HasPrefix s p then drop (length p) s else s)"

definition TrimSuffix :: "string \<Rightarrow> string \<Rightarrow> string" where
  "TrimSuffix s p = (if HasSuffix s p then take (length s - length p) s else s)"

definition ContainsChar :: "string \<Rightarrow> char \<Rightarrow> bool" where
  "ContainsChar s c \<longleftrightarrow> list_ex (\<lambda>x. x = c) s"

definition ContainsAny :: "string \<Rightarrow> string \<Rightarrow> bool" where
  "ContainsAny s cs \<longleftrightarrow> list_ex (\<lambda>x. x \<in> set cs) s"

text \<open>\<open>strings.Split\<close> on a one-byte separator: never empty.\<close>

fun Split :: "char \<Rightarrow> string \<Rightarrow> string list" where
  "Split d [] = [[]]"
| "Split d (c # s) =
     (if c = d then [] # Split d s
      else (case Split d s of [] \<Rightarrow> [[c]] | w # ws \<Rightarrow> (c # w) # ws))"

text \<open>\<open>strings.IndexByte\<close> and \<open>strings.LastIndexByte\<close>; \<open>None\<close> for -1.\<close>

fun IndexByte :: "string \<Rightarrow> char \<Rightarrow> nat option" where
  "IndexByte [] d = None"
| "IndexByte (c # s) d = (if c = d then Some 0 else map_option Suc (IndexByte s d))"

definition LastIndexByte :: "string \<Rightarrow> char \<Rightarrow> nat option" where
  "LastIndexByte s d = map_option (\<lambda>i. length s - 1 - i) (IndexByte (rev s) d)"

definition IndexAny :: "string \<Rightarrow> string \<Rightarrow> nat option" where
  "IndexAny s cs = (let n = length (takeWhile (\<lambda>c. c \<notin> set cs) s) in if n < length s then Some n else None)"

fun Index :: "string \<Rightarrow> string \<Rightarrow> nat option" where
  "Index [] p = (if p = [] then Some 0 else None)"
| "Index (c # s) p = (if HasPrefix (c # s) p then Some 0 else map_option Suc (Index s p))"

definition CountByte :: "string \<Rightarrow> char \<Rightarrow> nat" where
  "CountByte s d = length (filter (\<lambda>c. c = d) s)"

text \<open>\<open>strings.Fields\<close>: the maximal runs of non-space bytes.\<close>

fun fields_from :: "string \<Rightarrow> string \<Rightarrow> string list" where
  "fields_from acc [] = (if acc = [] then [] else [rev acc])"
| "fields_from acc (c # s) =
     (if is_space c then (if acc = [] then fields_from [] s else rev acc # fields_from [] s)
      else fields_from (c # acc) s)"

definition Fields :: "string \<Rightarrow> string list" where
  "Fields s = fields_from [] s"

definition digit_val :: "char \<Rightarrow> nat" where
  "digit_val c = of_char c - 48"

definition digits_val :: "string \<Rightarrow> nat" where
  "digits_val s = foldl (\<lambda>n c. 10 * n + digit_val c) 0 s"

text \<open>\<open>strconv.Itoa\<close> and the verb \<open>%d\<close>.\<close>

fun digits10 :: "nat \<Rightarrow> string" where
  "digits10 n = (if n < 10 then [char_of (48 + n)] else digits10 (n div 10) @ [char_of (48 + n mod 10)])"

declare digits10.simps [simp del]

definition fmt_int :: "int \<Rightarrow> string" where
  "fmt_int i = (if i < 0 then CHR ''-'' # digits10 (nat (- i)) else digits10 (nat i))"

text \<open>\<open>strconv.Atoi\<close>: an optional sign and at least one digit, within 64 bits.\<close>

definition all_digits :: "string \<Rightarrow> bool" where
  "all_digits s \<longleftrightarrow> s \<noteq> [] \<and> list_all is_digit s"

definition signed_val :: "string \<Rightarrow> int option" where
  "signed_val s =
     (case s of
        [] \<Rightarrow> None
      | c # t \<Rightarrow>
          if c = CHR ''-'' then (if all_digits t then Some (- int (digits_val t)) else None)
          else if c = CHR ''+'' then (if all_digits t then Some (int (digits_val t)) else None)
          else if all_digits s then Some (int (digits_val s)) else None)"

definition Atoi :: "string \<Rightarrow> int option" where
  "Atoi s =
     (case signed_val s of
        None \<Rightarrow> None
      | Some i \<Rightarrow> if - (2 ^ 63) \<le> i \<and> i < 2 ^ 63 then Some i else None)"

text \<open>\<open>net.SplitHostPort\<close>: when it succeeds, and the two parts.\<close>

definition SplitHostPort_ok :: "string \<Rightarrow> bool" where
  "SplitHostPort_ok s =
     (case LastIndexByte s CHR '':'' of
        None \<Rightarrow> False
      | Some i \<Rightarrow>
          if HasPrefix s ''['' then
            (case IndexByte s CHR '']'' of
               None \<Rightarrow> False
             | Some e \<Rightarrow> Suc e = i \<and> \<not> ContainsChar (drop 1 s) CHR ''['' \<and> \<not> ContainsChar (drop (Suc e) s) CHR '']'')
          else \<not> ContainsAny (take i s) '':'' \<and> \<not> ContainsAny s ''[]'')"

definition SplitHostPort :: "string \<Rightarrow> (string \<times> string) option" where
  "SplitHostPort s =
     (if SplitHostPort_ok s then
        (case LastIndexByte s CHR '':'' of
           None \<Rightarrow> None
         | Some i \<Rightarrow> Some (if HasPrefix s ''['' then take (i - 2) (drop 1 s) else take i s, drop (Suc i) s))
      else None)"

section \<open>Laws\<close>

lemma is_digit_iff: "is_digit c \<longleftrightarrow> 48 \<le> (of_char c :: nat) \<and> (of_char c :: nat) \<le> 57"
  by (simp add: is_digit_def less_eq_char_def)

lemma is_lower_iff: "is_lower c \<longleftrightarrow> 97 \<le> (of_char c :: nat) \<and> (of_char c :: nat) \<le> 122"
  by (simp add: is_lower_def less_eq_char_def)

lemma is_upper_iff: "is_upper c \<longleftrightarrow> 65 \<le> (of_char c :: nat) \<and> (of_char c :: nat) \<le> 90"
  by (simp add: is_upper_def less_eq_char_def)

lemma lower_char_id: "\<not> is_upper c \<Longrightarrow> lower_char c = c"
  by (simp add: lower_char_def)

lemma ToLower_id [str_simps]: "list_all (\<lambda>c. \<not> is_upper c) s \<Longrightarrow> ToLower s = s"
  unfolding ToLower_def by (induction s) (auto simp: lower_char_id)

lemma ToLower_idem [simp]: "ToLower (ToLower s) = ToLower s"
proof -
  have "lower_char (lower_char c) = lower_char c" for c
    by (auto simp: lower_char_def is_upper_iff of_char_of)
  then show ?thesis by (simp add: ToLower_def)
qed

text \<open>Decimal numbers are read back, and consist of digits.\<close>

lemma digits10_digits: "c \<in> set (digits10 n) \<Longrightarrow> is_digit c"
proof (induction n rule: digits10.induct)
  case (1 n)
  have "is_digit (char_of (48 + k))" if "k < 10" for k :: nat using that by (simp add: is_digit_iff of_char_of)
  then show ?case using 1 by (subst (asm) digits10.simps) (auto split: if_splits)
qed

lemma digits_val_digits10: "digits_val (digits10 n) = n"
proof (induction n rule: digits10.induct)
  case (1 n)
  have d: "digit_val (char_of (48 + k)) = k" if "k < 10" for k :: nat using that by (simp add: digit_val_def of_char_of)
  show ?case
  proof (cases "n < 10")
    case True
    then show ?thesis by (subst digits10.simps) (simp add: digits_val_def d)
  next
    case False
    then have "digits_val (digits10 n) = 10 * digits_val (digits10 (n div 10)) + digit_val (char_of (48 + n mod 10))"
      by (subst digits10.simps) (simp add: digits_val_def)
    then show ?thesis using 1 False by (simp add: d)
  qed
qed

lemma fmt_int_inject [simp]: "fmt_int i = fmt_int j \<longleftrightarrow> i = j"
proof -
  have minus: "CHR ''-'' \<notin> set (digits10 n)" for n using digits10_digits [of "CHR ''-''" n] by (auto simp: is_digit_iff)
  have "digits10 m = digits10 n \<longleftrightarrow> m = n" for m n by (metis digits_val_digits10)
  then show ?thesis using minus [of "nat i"] minus [of "nat j"]
    by (auto simp: fmt_int_def nat_eq_iff) (metis list.set_intros(1))+
qed

lemma digits10_not_Nil [simp]: "digits10 n \<noteq> []"
  by (subst digits10.simps) simp

lemma signed_val_fmt_int [simp]: "signed_val (fmt_int i) = Some i"
proof -
  have all: "all_digits (digits10 n)" for n by (auto simp: all_digits_def list_all_iff dest: digits10_digits)
  have "c \<noteq> CHR ''-''" "c \<noteq> CHR ''+''" if "digits10 n = c # t" for c t n
    using digits10_digits [of c n] that by (auto simp: is_digit_def less_eq_char_def)
  then show ?thesis
    using all [of "nat i"] all [of "nat (- i)"] digits_val_digits10 [of "nat i"] digits_val_digits10 [of "nat (- i)"]
    by (cases "digits10 (nat i)") (auto simp: signed_val_def fmt_int_def)
qed

lemma Atoi_fmt_int: "- (2 ^ 63) \<le> i \<Longrightarrow> i < 2 ^ 63 \<Longrightarrow> Atoi (fmt_int i) = Some i"
  by (simp add: Atoi_def)

lemma fmt_int_no_colon [simp]: "CHR '':'' \<notin> set (fmt_int i)"
  using digits10_digits [of "CHR '':''"] by (auto simp: fmt_int_def is_digit_iff)

lemma dropWhile_none: "list_all (\<lambda>c. \<not> P c) s \<Longrightarrow> dropWhile P s = s"
  by (cases s) auto

lemma TrimSpace_id [str_simps]: "list_all (\<lambda>c. \<not> is_space c) s \<Longrightarrow> TrimSpace s = s"
  by (simp add: TrimSpace_def dropWhile_none)

lemma Split_not_Nil [simp]: "Split d s \<noteq> []"
  by (induction s) (auto split: list.splits)

lemma set_Split: "x \<in> set s \<Longrightarrow> x = d \<or> (\<exists>w \<in> set (Split d s). x \<in> set w)"
  by (induction s) (auto split: list.splits)

lemma Split_pieces: "w \<in> set (Split d s) \<Longrightarrow> d \<notin> set w"
  by (induction s arbitrary: w) (auto split: list.splits if_splits)


lemma Split_none [simp]: "d \<notin> set s \<Longrightarrow> Split d s = [s]"
  by (induction s) auto

lemma Split_append: "d \<notin> set a \<Longrightarrow> Split d (a @ d # s) = a # Split d s"
  by (induction a) auto

lemma join_Split: "join [d] (Split d s) = s"
proof (induction s)
  case (Cons c s)
  then show ?case by (cases "Split d s"; cases "tl (Split d s)") auto
qed simp

lemma Split_last: "last (Split d s) \<noteq> [] \<Longrightarrow> s \<noteq> [] \<and> last s \<noteq> d"
proof (induction s)
  case (Cons c s)
  have "s = []" if "Split d s = [[]]" using that join_Split [of d s] by simp
  with Cons show ?case by (auto split: list.splits if_splits)
qed simp

lemma IndexByte_append [simp]: "d \<notin> set a \<Longrightarrow> IndexByte (a @ d # s) d = Some (length a)"
  by (induction a) auto

lemma IndexByte_None [simp]: "IndexByte s d = None \<longleftrightarrow> d \<notin> set s"
  by (induction s) auto

lemma LastIndexByte_append [simp]: "d \<notin> set b \<Longrightarrow> LastIndexByte (a @ d # b) d = Some (length a)"
  by (simp add: LastIndexByte_def)

lemma HasSuffix_iff: "HasSuffix s p \<longleftrightarrow> (\<exists>u. s = u @ p)"
proof
  assume "HasSuffix s p"
  then show "\<exists>u. s = u @ p"
    by (intro exI [of _ "take (length s - length p) s"])
       (metis HasSuffix_def append_take_drop_id)
qed (auto simp: HasSuffix_def)

lemma HasPrefix_iff: "HasPrefix s p \<longleftrightarrow> (\<exists>u. s = p @ u)"
  by (auto simp: HasPrefix_def) (metis append_take_drop_id)

lemma TrimSuffix_append [simp]: "TrimSuffix (u @ p) p = u"
  by (simp add: TrimSuffix_def HasSuffix_def)

lemma TrimPrefix_append [simp]: "TrimPrefix (p @ u) p = u"
  by (simp add: TrimPrefix_def HasPrefix_def)

lemma TrimSuffix_dot_id [str_simps]: "s = [] \<or> last s \<noteq> c \<Longrightarrow> TrimSuffix s [c] = s"
  by (auto simp: TrimSuffix_def HasSuffix_iff)

subsection \<open>Decimal numbers\<close>

lemma digit_char_digit: "n < 10 \<Longrightarrow> is_digit (digit_char n)"
  by (simp add: digit_char_def is_digit_iff of_char_of)

lemma digit_val_char [simp]: "n < 10 \<Longrightarrow> digit_val (digit_char n) = n"
  by (simp add: digit_char_def digit_val_def of_char_of)

lemma utoa_digits: "list_all is_digit (utoa n)"
  by (induction n rule: utoa.induct)
     (subst utoa.simps, auto simp: digit_char_digit)

lemma utoa_not_Nil [simp]: "utoa n \<noteq> []"
  by (subst utoa.simps) auto

lemma digits_val_snoc [simp]: "digits_val (s @ [c]) = 10 * digits_val s + digit_val c"
  by (simp add: digits_val_def)

lemma digits_val_utoa [simp]: "digits_val (utoa n) = n"
proof (induction n rule: utoa.induct)
  case (1 n)
  then show ?case
    by (subst utoa.simps) (auto simp: digits_val_def)
qed

lemma utoa_hd: "0 < n \<Longrightarrow> hd (utoa n) \<noteq> CHR ''0''"
proof (induction n rule: utoa.induct)
  case (1 n)
  have z: "digit_char k \<noteq> CHR ''0''" if "0 < k" "k < 10" for k
    using that digit_val_char [of k] by (auto simp: digit_val_def)
  show ?case
    using 1 z by (subst utoa.simps) (auto simp: hd_append)
qed

lemma utoa_length1: "length (utoa n) = 1 \<longleftrightarrow> n < 10"
  by (subst utoa.simps) (auto simp: Suc_le_eq)

end
