(* ===== verification/Netip.thy ===== *)
theory Netip
  imports GoStrings "HOL-Library.Product_Lexorder"
begin

unbundle bit_operations_syntax

text \<open>
  Go's \<open>net/netip\<close> as far as the sources use it: addresses, textual forms, CIDR prefixes.
  An address with an IPv6 zone cannot arise: \<open>ParsePrefix\<close> refuses zones, resolver answers
  carry none, and the other callers of \<open>ParseAddr\<close> pass guest addresses of the data plane.
\<close>

section \<open>Addresses and prefixes\<close>

datatype Addr = NoAddr | V4 u32 | V6 "128 word"

datatype Prefix = Prefix (prefix_addr: Addr) (prefix_bits: nat)

fun Is4 :: "Addr \<Rightarrow> bool" where
  "Is4 (V4 _) = True"
| "Is4 _ = False"

fun Is6 :: "Addr \<Rightarrow> bool" where
  "Is6 (V6 _) = True"
| "Is6 _ = False"

definition IsValid :: "Addr \<Rightarrow> bool" where
  "IsValid a \<longleftrightarrow> a \<noteq> NoAddr"

fun BitLen :: "Addr \<Rightarrow> nat" where
  "BitLen NoAddr = 0"
| "BitLen (V4 _) = 32"
| "BitLen (V6 _) = 128"

text \<open>\<open>Unmap\<close>: an IPv4-mapped IPv6 address (\<open>::ffff:a.b.c.d\<close>) becomes the IPv4 address.\<close>

fun Unmap :: "Addr \<Rightarrow> Addr" where
  "Unmap (V6 w) = (if drop_bit 32 w = 0xffff then V4 (ucast w) else V6 w)"
| "Unmap a = a"

fun Contains_addr :: "Prefix \<Rightarrow> Addr \<Rightarrow> bool" where
  "Contains_addr (Prefix (V4 p) b) (V4 a) \<longleftrightarrow> drop_bit (32 - b) (a XOR p) = 0"
| "Contains_addr (Prefix (V6 p) b) (V6 a) \<longleftrightarrow> drop_bit (128 - b) (a XOR p) = 0"
| "Contains_addr _ _ \<longleftrightarrow> False"

fun Masked :: "Prefix \<Rightarrow> Prefix" where
  "Masked (Prefix (V4 p) b) = Prefix (V4 (p AND NOT (mask (32 - b)))) b"
| "Masked (Prefix (V6 p) b) = Prefix (V6 (p AND NOT (mask (128 - b)))) b"
| "Masked q = q"

text \<open>Order of \<open>Addr.Less\<close>: by bit length, then by value.\<close>

fun addr_key :: "Addr \<Rightarrow> nat \<times> 128 word" where
  "addr_key NoAddr = (0, 0)"
| "addr_key (V4 w) = (32, ucast w)"
| "addr_key (V6 w) = (128, w)"

lemma ucast_128_32 [simp]: "ucast (ucast w :: 128 word) = w" for w :: u32
  by (rule bit_eqI) (simp add: bit_ucast_iff)

lemma addr_key_inj: "inj addr_key"
proof (rule injI)
  fix a b assume "addr_key a = addr_key b"
  then show "a = b"
    by (cases a; cases b) (auto dest: arg_cong [where f = "ucast :: 128 word \<Rightarrow> u32"])
qed

subsection \<open>Classification\<close>

fun IsLoopback :: "Addr \<Rightarrow> bool" where
  "IsLoopback (V4 w) \<longleftrightarrow> drop_bit 24 w = 127"
| "IsLoopback (V6 w) \<longleftrightarrow> w = 1"
| "IsLoopback NoAddr \<longleftrightarrow> False"

fun IsLinkLocalUnicast :: "Addr \<Rightarrow> bool" where
  "IsLinkLocalUnicast (V4 w) \<longleftrightarrow> drop_bit 16 w = 0xa9fe"
| "IsLinkLocalUnicast (V6 w) \<longleftrightarrow> drop_bit 118 w = 0x3fa"
| "IsLinkLocalUnicast NoAddr \<longleftrightarrow> False"

fun IsLinkLocalMulticast :: "Addr \<Rightarrow> bool" where
  "IsLinkLocalMulticast (V4 w) \<longleftrightarrow> drop_bit 8 w = 0xe00000"
| "IsLinkLocalMulticast (V6 w) \<longleftrightarrow> drop_bit 112 w AND 0xff0f = 0xff02"
| "IsLinkLocalMulticast NoAddr \<longleftrightarrow> False"

fun IsPrivate :: "Addr \<Rightarrow> bool" where
  "IsPrivate (V4 w) \<longleftrightarrow> drop_bit 24 w = 10 \<or> drop_bit 20 w = 0xac1 \<or> drop_bit 16 w = 0xc0a8"
| "IsPrivate (V6 w) \<longleftrightarrow> drop_bit 121 w = 0x7e"
| "IsPrivate NoAddr \<longleftrightarrow> False"

fun IsMulticast :: "Addr \<Rightarrow> bool" where
  "IsMulticast (V4 w) \<longleftrightarrow> drop_bit 28 w = 0xe"
| "IsMulticast (V6 w) \<longleftrightarrow> drop_bit 120 w = 0xff"
| "IsMulticast NoAddr \<longleftrightarrow> False"

fun IsUnspecified :: "Addr \<Rightarrow> bool" where
  "IsUnspecified (V4 w) \<longleftrightarrow> w = 0"
| "IsUnspecified (V6 w) \<longleftrightarrow> w = 0"
| "IsUnspecified NoAddr \<longleftrightarrow> False"

section \<open>Text\<close>

text \<open>An octet: one to three digits without a leading zero, at most 255.\<close>

definition octet_ok :: "string \<Rightarrow> bool" where
  "octet_ok s \<longleftrightarrow> s \<noteq> [] \<and> list_all is_digit s \<and> (length s = 1 \<or> hd s \<noteq> CHR ''0'') \<and> digits_val s \<le> 255"

definition parseIPv4 :: "string \<Rightarrow> u32 option" where
  "parseIPv4 s =
     (case Split CHR ''.'' s of
        [a, b, c, d] \<Rightarrow>
          if octet_ok a \<and> octet_ok b \<and> octet_ok c \<and> octet_ok d
          then Some (((of_nat (digits_val a) * 256 + of_nat (digits_val b)) * 256 + of_nat (digits_val c)) * 256
                     + of_nat (digits_val d))
          else None
      | _ \<Rightarrow> None)"

definition hex_val :: "char \<Rightarrow> nat option" where
  "hex_val c =
     (if is_digit c then Some (of_char c - 48)
      else if CHR ''a'' \<le> c \<and> c \<le> CHR ''f'' then Some (of_char c - 87)
      else if CHR ''A'' \<le> c \<and> c \<le> CHR ''F'' then Some (of_char c - 55)
      else None)"

definition is_hex :: "char \<Rightarrow> bool" where
  "is_hex c \<longleftrightarrow> hex_val c \<noteq> None"

definition hexs_val :: "string \<Rightarrow> 128 word" where
  "hexs_val s = foldl (\<lambda>n c. 16 * n + of_nat (case hex_val c of Some v \<Rightarrow> v | None \<Rightarrow> 0)) 0 s"

definition groups_val :: "128 word list \<Rightarrow> 128 word" where
  "groups_val gs = foldl (\<lambda>n g. 65536 * n + g) 0 gs"

text \<open>The end of \<open>parseIPv6\<close>: expand the ellipsis at position \<open>ell\<close> of the groups read.\<close>

definition finish6 :: "128 word list \<Rightarrow> nat option \<Rightarrow> (128 word) option" where
  "finish6 gs ell =
     (case ell of
        None \<Rightarrow> if length gs = 8 then Some (groups_val gs) else None
      | Some e \<Rightarrow> if length gs < 8
                  then Some (groups_val (take e gs @ replicate (8 - length gs) 0 @ drop e gs)) else None)"

text \<open>The group loop; \<open>n\<close> is the number of groups that still fit.\<close>

primrec groups6 :: "nat \<Rightarrow> string \<Rightarrow> 128 word list \<Rightarrow> nat option \<Rightarrow> (128 word) option" where
  "groups6 0 s gs ell = (if s = [] then finish6 gs ell else None)"
| "groups6 (Suc n) s gs ell =
     (let ds = takeWhile is_hex s; rest = dropWhile is_hex s in
      if ds = [] \<or> 4 < length ds then None
      else if rest \<noteq> [] \<and> hd rest = CHR ''.'' then
        (if ell = None \<and> n \<noteq> 1 \<or> n = 0 then None
         else (case parseIPv4 s of
                 None \<Rightarrow> None
               | Some w \<Rightarrow> finish6 (gs @ [ucast (drop_bit 16 w), ucast (w AND 0xffff)]) ell))
      else
        (let gs' = gs @ [hexs_val ds] in
         case rest of
           [] \<Rightarrow> finish6 gs' ell
         | c # r \<Rightarrow>
             if c \<noteq> CHR '':'' \<or> r = [] then None
             else if hd r = CHR '':'' then
               (if ell \<noteq> None then None
                else if tl r = [] then finish6 gs' (Some (length gs'))
                else groups6 n (tl r) gs' (Some (length gs')))
             else groups6 n r gs' ell))"

definition parseIPv6 :: "string \<Rightarrow> (128 word) option" where
  "parseIPv6 s =
     (if HasPrefix s ''::'' then (if length s = 2 then Some 0 else groups6 8 (drop 2 s) [] (Some 0))
      else groups6 8 s [] None)"

text \<open>\<open>ParseAddr\<close> decides by the first of the bytes \<open>.\<close>, \<open>:\<close> and \<open>%\<close>.\<close>

definition ParseAddr :: "string \<Rightarrow> Addr option" where
  "ParseAddr s =
     (case filter (\<lambda>c. c \<in> set ''.:%'') s of
        [] \<Rightarrow> None
      | c # _ \<Rightarrow> if c = CHR ''.'' then map_option V4 (parseIPv4 s)
                  else if c = CHR '':'' then map_option V6 (parseIPv6 s) else None)"

definition ParsePrefix :: "string \<Rightarrow> Prefix option" where
  "ParsePrefix s =
     (case LastIndexByte s CHR ''/'' of
        None \<Rightarrow> None
      | Some i \<Rightarrow>
          (case ParseAddr (take i s) of
             None \<Rightarrow> None
           | Some a \<Rightarrow>
               (let bs = drop (Suc i) s in
                if bs = [] \<or> \<not> list_all is_digit bs \<or> (1 < length bs \<and> hd bs = CHR ''0'')
                   \<or> BitLen a < digits_val bs
                then None else Some (Prefix a (digits_val bs)))))"

definition string4 :: "u32 \<Rightarrow> string" where
  "string4 w =
     join ''.'' [utoa (unat (drop_bit 24 w)), utoa (unat (drop_bit 16 w AND 255)),
                 utoa (unat (drop_bit 8 w AND 255)), utoa (unat (w AND 255))]"

fun utoh :: "nat \<Rightarrow> string" where
  "utoh n = (let d = (\<lambda>k. if k < 10 then char_of (48 + k) else char_of (87 + k)) in
             if n < 16 then [d n] else utoh (n div 16) @ [d (n mod 16)])"

declare utoh.simps [simp del]

definition groups_of :: "128 word \<Rightarrow> nat list" where
  "groups_of w = map (\<lambda>i. unat (drop_bit (112 - 16 * i) w AND 0xffff)) [0..<8]"

text \<open>The first longest run of at least two zero groups, as (start, length).\<close>

definition zero_run :: "nat list \<Rightarrow> nat \<times> nat" where
  "zero_run gs =
     foldl (\<lambda>(s, l) i. let r = length (takeWhile (\<lambda>g. g = 0) (drop i gs)) in
              if 2 \<le> r \<and> l < r then (i, r) else (s, l)) (0, 0) [0..<length gs]"

definition string6 :: "128 word \<Rightarrow> string" where
  "string6 w =
     (let gs = groups_of w; (s, l) = zero_run gs in
      if l = 0 then join '':'' (map utoh gs)
      else join '':'' (map utoh (take s gs)) @ ''::'' @ join '':'' (map utoh (drop (s + l) gs)))"

fun Addr_String :: "Addr \<Rightarrow> string" where
  "Addr_String NoAddr = ''invalid IP''"
| "Addr_String (V4 w) = string4 w"
| "Addr_String (V6 w) = (if drop_bit 32 w = 0xffff then ''::ffff:'' @ string4 (ucast w) else string6 w)"

definition Prefix_String :: "Prefix \<Rightarrow> string" where
  "Prefix_String p = Addr_String (prefix_addr p) @ ''/'' @ utoa (prefix_bits p)"

section \<open>Laws\<close>

lemma Unmap_idem [simp]: "Unmap (Unmap a) = Unmap a"
  by (cases a) auto

lemma IsValid_Unmap [simp]: "IsValid (Unmap a) = IsValid a"
  by (cases a) (auto simp: IsValid_def)

lemma Contains_same_family: "Contains_addr p a \<Longrightarrow> BitLen (prefix_addr p) = BitLen a"
  by (cases "(p, a)" rule: Contains_addr.cases) auto

lemma Masked_idem [simp]: "Masked (Masked p) = Masked p"
  by (cases p rule: Masked.cases) (auto simp: and.assoc)

lemma octet_ok_utoa: "n \<le> 255 \<Longrightarrow> octet_ok (utoa n)"
  using utoa_hd [of n] utoa_length1 [of n] utoa_digits [of n]
  by (cases "n = 0") (auto simp: octet_ok_def)

lemma utoa_no: "\<not> is_digit c \<Longrightarrow> c \<notin> set (utoa n)"
  using utoa_digits [of n] by (auto simp: list_all_iff)

lemma punct_not_digit [simp]: "\<not> is_digit CHR ''.''" "\<not> is_digit CHR ''/''" "\<not> is_digit CHR '':''" "\<not> is_digit CHR ''%''"
  by (simp_all add: is_digit_iff)

lemma Split_dot4:
  "CHR ''.'' \<notin> set a \<Longrightarrow> CHR ''.'' \<notin> set b \<Longrightarrow> CHR ''.'' \<notin> set c \<Longrightarrow> CHR ''.'' \<notin> set d \<Longrightarrow>
   Split CHR ''.'' (join ''.'' [a, b, c, d]) = [a, b, c, d]"
  by (simp add: Split_append)

lemma bytes_ident: "drop_bit 8 v * 256 + (v AND 255) = v" for v :: "'a :: len word"
  using bits_ident [of 8 v] by (simp add: push_bit_eq_mult take_bit_eq_mask mask_eq_exp_minus_1)

lemma byte_le: "unat (v AND 255) \<le> 255" for v :: u32
proof -
  have "v AND 255 \<le> 255" by (rule word_and_le1)
  then show ?thesis by (simp add: word_le_nat_alt)
qed

lemma top_byte_le: "unat (drop_bit 24 w) \<le> 255" for w :: u32
proof -
  have "drop_bit 24 w = drop_bit 24 w AND mask 8"
    by (rule bit_eqI) (auto simp: bit_simps dest: bit_imp_le_length)
  then show ?thesis using byte_le [of "drop_bit 24 w"] by (simp add: mask_eq_exp_minus_1)
qed

lemma parseIPv4_string4 [simp]: "parseIPv4 (string4 w) = Some w"
proof -
  have split: "Split CHR ''.'' (string4 w) =
      [utoa (unat (drop_bit 24 w)), utoa (unat (drop_bit 16 w AND 255)), utoa (unat (drop_bit 8 w AND 255)), utoa (unat (w AND 255))]"
    unfolding string4_def by (rule Split_dot4) (simp_all add: utoa_no)
  have "((drop_bit 24 w * 256 + (drop_bit 16 w AND 255)) * 256 + (drop_bit 8 w AND 255)) * 256 + (w AND 255) = w"
    using bytes_ident [of w] bytes_ident [of "drop_bit 8 w"] bytes_ident [of "drop_bit 16 w"] by simp
  then show ?thesis
    unfolding parseIPv4_def split using top_byte_le [of w] byte_le by (simp add: octet_ok_utoa)
qed

lemma string4_chars: "set (string4 w) \<subseteq> {c. is_digit c} \<union> {CHR ''.''}"
  using utoa_digits by (auto simp: string4_def list_all_iff)

lemma string4_dot: "CHR ''.'' \<in> set (string4 w)"
  by (simp add: string4_def)

lemma ParseAddr_string4 [simp]: "ParseAddr (string4 w) = Some (V4 w)"
proof -
  let ?f = "filter (\<lambda>c. c \<in> set ''.:%'') (string4 w)"
  have only: "c = CHR ''.''" if "c \<in> set ?f" for c
    using that string4_chars [of w] punct_not_digit by auto
  have "CHR ''.'' \<in> set ?f" using string4_dot [of w] by simp
  then obtain c cs where f: "?f = c # cs" by (metis list.set_cases)
  have "c \<in> set ?f" unfolding f by simp
  then have "?f = CHR ''.'' # cs" using only [of c] f by blast
  then show ?thesis unfolding ParseAddr_def by simp
qed

text \<open>Printing and parsing an IPv4 prefix are inverse to each other.\<close>

lemma ParsePrefix_String4:
  "b \<le> 32 \<Longrightarrow> ParsePrefix (Prefix_String (Prefix (V4 w) b)) = Some (Prefix (V4 w) b)"
proof -
  assume b: "b \<le> 32"
  have idx: "LastIndexByte (string4 w @ ''/'' @ utoa b) CHR ''/'' = Some (length (string4 w))"
    by (simp add: utoa_no)
  have "utoa b = [CHR ''0''] \<or> hd (utoa b) \<noteq> CHR ''0''"
    using utoa_hd [of b] by (cases "b = 0") (auto simp: utoa.simps digit_char_def char_of_def)
  then have "\<not> (1 < length (utoa b) \<and> hd (utoa b) = CHR ''0'')" by auto
  moreover have "drop (Suc (length (string4 w))) (string4 w @ ''/'' @ utoa b) = utoa b" by simp
  moreover have "take (length (string4 w)) (string4 w @ ''/'' @ utoa b) = string4 w" by simp
  ultimately show ?thesis
    using b utoa_digits [of b] by (simp only: ParsePrefix_def Prefix_String_def Addr_String.simps
      Prefix.sel idx) (simp add: Let_def)
qed

end
