(* ===== verification/Egress.thy ===== *)
theory Egress
  imports Netip
begin

text \<open>
  The decision layer of the agent's outbound policy: the reserved address set
  (\<open>internal/agent/netpolicy/netpolicy.go\<close>), the normalised policy and its decisions
  (\<open>internal/agent/egress/policy.go\<close>) and the trusted resolver with the reserved-segment check
  (\<open>internal/agent/egress/resolver.go\<close>). Time is a number of nanoseconds and the DNS exchange,
  which the third-party client performs, is a parameter.
\<close>

section \<open>The reserved set\<close>

definition canonicalReservedIPv4 :: "string list" where
  "canonicalReservedIPv4 =
     [''0.0.0.0/8'', ''10.0.0.0/8'', ''100.64.0.0/10'', ''127.0.0.0/8'', ''169.254.0.0/16'',
      ''172.16.0.0/12'', ''192.0.0.0/24'', ''192.0.2.0/24'', ''192.31.196.0/24'', ''192.52.193.0/24'',
      ''192.88.99.0/24'', ''192.168.0.0/16'', ''192.175.48.0/24'', ''198.18.0.0/15'',
      ''198.51.100.0/24'', ''203.0.113.0/24'', ''224.0.0.0/4'', ''240.0.0.0/4'']"

definition canonicalReservedIPv6 :: "string list" where
  "canonicalReservedIPv6 =
     [''::/128'', ''::1/128'', ''::ffff:0:0/96'', ''64:ff9b::/96'', ''64:ff9b:1::/48'', ''100::/64'',
      ''2001::/23'', ''2001:db8::/32'', ''3fff::/20'', ''2620:4f:8000::/48'', ''fc00::/7'', ''fe80::/10'', ''ff00::/8'']"

text \<open>The parsed set; \<open>None\<close> is the panic at start-up when a literal does not parse.\<close>

fun parse_all :: "string list \<Rightarrow> Prefix list option" where
  "parse_all [] = Some []"
| "parse_all (c # cs) =
     (case ParsePrefix c of
        None \<Rightarrow> None
      | Some p \<Rightarrow> map_option (\<lambda>ps. p # ps) (parse_all cs))"

definition reservedPrefixes :: "Prefix list option" where
  "reservedPrefixes = parse_all (canonicalReservedIPv4 @ canonicalReservedIPv6)"

definition Prefixes :: "Prefix list" where
  "Prefixes = (case reservedPrefixes of None \<Rightarrow> [] | Some ps \<Rightarrow> ps)"

definition Contains :: "Addr \<Rightarrow> bool" where
  "Contains addr = list_ex (\<lambda>p. BitLen (prefix_addr p) = BitLen addr \<and> Contains_addr p addr) Prefixes"

definition IPv4NftSetText :: string where
  "IPv4NftSetText = ''{ '' @ join '', '' canonicalReservedIPv4 @ '' }''"

section \<open>Policies\<close>

datatype Mode = ModeUnrestricted | ModeDenyAll | ModeAllowlist | ModeOther int

record DomainEntry =
  exact :: string
  wildcardSuffix :: string

definition domain_matches :: "DomainEntry \<Rightarrow> string \<Rightarrow> bool" where
  "domain_matches d host =
     (if exact d \<noteq> [] then host = exact d
      else if \<not> HasSuffix host (wildcardSuffix d) then False
      else (let pre = TrimSuffix host (wildcardSuffix d) in pre \<noteq> [] \<and> \<not> ContainsChar pre CHR ''.''))"

record Policy =
  pol_Mode :: Mode
  AllowedCIDRs :: "Prefix list"
  DeniedCIDRs :: "Prefix list"
  AllowedDomains :: "DomainEntry list"
  MaxTCPConns :: u32
  pol_Generation :: u64
  AuditAll :: bool
  DomainProtected :: bool

record EgressPolicySpec =
  spec_Mode :: int
  allowed_cidrs :: "string list"
  denied_cidrs :: "string list"
  allowed_domains :: "string list"
  max_tcp_connections :: u32
  policy_generation :: u64
  audit_all :: bool

datatype domain_err = DomainEmpty | DomainSchemePathPort | WildcardNotSingleLabel | WildcardBadSuffix
  | WildcardUnsupported | DomainIPv6 | DomainInvalid

datatype egress_err = ErrMode int | ErrCIDRSyntax string nat | ErrCIDRIPv6 string nat | ErrAllowedDomain nat domain_err
  | ErrPolicyGeneration | ErrRestoreMode string

fun parse_cidrs_from :: "nat \<Rightarrow> string \<Rightarrow> string list \<Rightarrow> egress_err + Prefix list" where
  "parse_cidrs_from i field [] = Inr []"
| "parse_cidrs_from i field (raw # raws) =
     (case ParsePrefix (TrimSpace raw) of
        None \<Rightarrow> Inl (ErrCIDRSyntax field i)
      | Some p \<Rightarrow>
          if Is6 (prefix_addr p) then Inl (ErrCIDRIPv6 field i)
          else (case parse_cidrs_from (Suc i) field raws of
                  Inl e \<Rightarrow> Inl e
                | Inr ps \<Rightarrow> Inr (Masked p # ps)))"

definition parseCIDRList :: "string list \<Rightarrow> string \<Rightarrow> egress_err + Prefix list" where
  "parseCIDRList raws field = parse_cidrs_from 0 field raws"

definition label_char :: "char \<Rightarrow> bool" where
  "label_char c \<longleftrightarrow> is_lower c \<or> is_digit c \<or> c = CHR ''-''"

definition validDomain :: "string \<Rightarrow> bool" where
  "validDomain d \<longleftrightarrow>
     d \<noteq> [] \<and> length d \<le> 253 \<and>
     list_all (\<lambda>w. w \<noteq> [] \<and> length w \<le> 63 \<and> list_all label_char w \<and>
                   hd w \<noteq> CHR ''-'' \<and> last w \<noteq> CHR ''-'') (Split CHR ''.'' d)"

definition normalizeDomain :: "string \<Rightarrow> domain_err + string" where
  "normalizeDomain raw =
     (let d = TrimSuffix (TrimSpace (ToLower raw)) ''.'' in
      if d = [] then Inl DomainEmpty
      else if ContainsAny d ''/?#:@'' then Inl DomainSchemePathPort
      else if HasPrefix d ''*.'' then
        (let suffix = TrimPrefix d ''*.'' in
         if suffix = [] \<or> ContainsChar suffix CHR ''*'' then Inl WildcardNotSingleLabel
         else if \<not> validDomain suffix then Inl WildcardBadSuffix
         else Inr (''*.'' @ suffix))
      else if ContainsChar d CHR ''*'' then Inl WildcardUnsupported
      else case ParseAddr d of
        Some a \<Rightarrow> if Is6 a then Inl DomainIPv6 else Inr d
      | None \<Rightarrow> if validDomain d then Inr d else Inl DomainInvalid)"

definition domain_entry :: "string \<Rightarrow> DomainEntry" where
  "domain_entry n =
     (if HasPrefix n ''*.'' then \<lparr>exact = [], wildcardSuffix = ''.'' @ TrimPrefix n ''*.''\<rparr>
      else \<lparr>exact = n, wildcardSuffix = []\<rparr>)"

fun parse_domains_from :: "nat \<Rightarrow> string list \<Rightarrow> egress_err + DomainEntry list" where
  "parse_domains_from i [] = Inr []"
| "parse_domains_from i (raw # raws) =
     (case normalizeDomain raw of
        Inl e \<Rightarrow> Inl (ErrAllowedDomain i e)
      | Inr n \<Rightarrow>
          (case parse_domains_from (Suc i) raws of
             Inl e \<Rightarrow> Inl e
           | Inr ds \<Rightarrow> Inr (domain_entry n # ds)))"

text \<open>
  \<open>FromProto\<close>; a nil message gives a nil policy. Prefixes of a policy have distinct texts when
  they differ, so the unstable \<open>sort.Slice\<close> by text has one result.
\<close>

definition proto_mode :: "int \<Rightarrow> egress_err + Mode" where
  "proto_mode m =
     (if m = 0 \<or> m = 1 then Inr ModeUnrestricted
      else if m = 2 then Inr ModeDenyAll
      else if m = 3 then Inr ModeAllowlist
      else Inl (ErrMode m))"

definition FromProto :: "EgressPolicySpec option \<Rightarrow> egress_err + Policy option" where
  "FromProto p =
     (case p of
        None \<Rightarrow> Inr None
      | Some s \<Rightarrow>
          (case proto_mode (spec_Mode s) of
             Inl e \<Rightarrow> Inl e
           | Inr md \<Rightarrow>
          (case parseCIDRList (allowed_cidrs s) ''allowed_cidrs'' of
             Inl e \<Rightarrow> Inl e
           | Inr allowed \<Rightarrow>
          (case parseCIDRList (denied_cidrs s) ''denied_cidrs'' of
             Inl e \<Rightarrow> Inl e
           | Inr denied \<Rightarrow>
          (case parse_domains_from 0 (allowed_domains s) of
             Inl e \<Rightarrow> Inl e
           | Inr domains \<Rightarrow>
               if policy_generation s = 0 then Inl ErrPolicyGeneration
               else Inr (Some \<lparr>pol_Mode = md,
                      AllowedCIDRs = sort_key Prefix_String allowed,
                      DeniedCIDRs = sort_key Prefix_String denied,
                      AllowedDomains = domains,
                      MaxTCPConns = max_tcp_connections s,
                      pol_Generation = policy_generation s,
                      AuditAll = audit_all s,
                      DomainProtected = (domains \<noteq> [])\<rparr>))))))"

section \<open>Decisions\<close>

definition strip_port :: "string \<Rightarrow> string" where
  "strip_port h =
     (case LastIndexByte h CHR '':'' of
        Some i \<Rightarrow> if 0 < i \<and> CountByte h CHR '':'' = 1 then take i h else h
      | None \<Rightarrow> h)"

definition NormalizeHost :: "string \<Rightarrow> string" where
  "NormalizeHost raw =
     (let h = TrimSpace raw;
          plain = (\<lambda>h. ToLower (TrimSuffix (strip_port h) ''.'')) in
      if HasPrefix h ''['' then
        (case IndexByte h CHR '']'' of
           Some i \<Rightarrow>
             if 0 < i then
               (let inner = drop 1 (take i h); rest = drop (Suc i) h in
                if rest = [] \<or> HasPrefix rest '':'' then plain inner else ToLower inner)
             else plain h
         | None \<Rightarrow> plain h)
      else plain h)"

definition matchesDomain :: "Policy \<Rightarrow> string \<Rightarrow> bool" where
  "matchesDomain p host = (let h = NormalizeHost host in list_ex (\<lambda>d. domain_matches d h) (AllowedDomains p))"

definition containsCIDR :: "Prefix list \<Rightarrow> Addr \<Rightarrow> bool" where
  "containsCIDR ps addr = (let u = Unmap addr in list_ex (\<lambda>p. Contains_addr p u) ps)"

definition filterPrefixes :: "Addr list \<Rightarrow> Prefix list \<Rightarrow> Addr list" where
  "filterPrefixes addrs prefixes = filter (containsCIDR prefixes) addrs"

record Decision =
  Allow :: bool
  MatchType :: string
  Reason :: string
  CIDRAuthorized :: bool

definition decision :: "bool \<Rightarrow> string \<Rightarrow> string \<Rightarrow> Decision" where
  "decision a m r = \<lparr>Allow = a, MatchType = m, Reason = r, CIDRAuthorized = False\<rparr>"

definition dialSetFor :: "Decision \<Rightarrow> Addr list \<Rightarrow> Prefix list \<Rightarrow> Addr list" where
  "dialSetFor d resolved allowed = (if \<not> CIDRAuthorized d then resolved else filterPrefixes resolved allowed)"

datatype cidrOutcome = cidrDenied | cidrAllowed | cidrModeAllow | cidrModeDeny | cidrNeedHost | cidrUnknown

fun decideCIDR :: "Mode \<Rightarrow> bool \<Rightarrow> bool \<Rightarrow> cidrOutcome" where
  "decideCIDR ModeUnrestricted deniedHit allowedHit = (if deniedHit then cidrDenied else cidrModeAllow)"
| "decideCIDR ModeDenyAll deniedHit allowedHit =
     (if deniedHit then cidrDenied else if allowedHit then cidrAllowed else cidrModeDeny)"
| "decideCIDR ModeAllowlist deniedHit allowedHit =
     (if deniedHit then cidrDenied else if allowedHit then cidrAllowed else cidrNeedHost)"
| "decideCIDR (ModeOther _) deniedHit allowedHit = cidrUnknown"

definition DecideForProxied :: "Policy \<Rightarrow> string \<Rightarrow> Addr list \<Rightarrow> Decision" where
  "DecideForProxied p host0 resolved =
     (let host = NormalizeHost host0;
          deniedHit = list_ex (containsCIDR (DeniedCIDRs p)) resolved;
          allowedHit = list_ex (containsCIDR (AllowedCIDRs p)) resolved in
      case decideCIDR (pol_Mode p) deniedHit allowedHit of
        cidrDenied \<Rightarrow> decision False ''cidr_denied'' ''resolved address in denied_cidrs''
      | cidrAllowed \<Rightarrow> \<lparr>Allow = True, MatchType = ''cidr_allowed'',
                        Reason = ''resolved address in allowed_cidrs'', CIDRAuthorized = True\<rparr>
      | cidrModeAllow \<Rightarrow> decision True ''mode_default'' ''unrestricted mode''
      | cidrModeDeny \<Rightarrow> decision False ''mode_default'' ''deny_all mode''
      | cidrUnknown \<Rightarrow> decision False ''mode_default'' ''unknown mode''
      | cidrNeedHost \<Rightarrow>
          if pol_Mode p = ModeAllowlist then
            (if host = [] then decision False ''no_host'' ''no host/sni to authorize (allowlist default deny)''
             else if resolved = [] then decision False ''mode_default'' ''empty resolved set (fail closed)''
             else if matchesDomain p host then decision True ''domain'' ''host matches allowed_domains''
             else decision False ''mode_default'' ''host not in allowed_domains'')
          else decision False ''mode_default'' ''unknown mode'')"

definition DecideByCIDR :: "Policy \<Rightarrow> Addr \<Rightarrow> Decision" where
  "DecideByCIDR p addr =
     (case decideCIDR (pol_Mode p) (containsCIDR (DeniedCIDRs p) addr) (containsCIDR (AllowedCIDRs p) addr) of
        cidrDenied \<Rightarrow> decision False ''cidr_denied'' ''destination in denied_cidrs''
      | cidrAllowed \<Rightarrow> decision True ''cidr_allowed'' ''destination in allowed_cidrs''
      | cidrModeAllow \<Rightarrow> decision True ''mode_default'' ''unrestricted mode''
      | cidrModeDeny \<Rightarrow> decision False ''mode_default'' ''deny_all mode''
      | cidrNeedHost \<Rightarrow> decision False ''mode_default'' ''allowlist default deny (no host/sni protection)''
      | cidrUnknown \<Rightarrow> decision False ''mode_default'' ''unknown mode'')"

section \<open>The persisted form\<close>

definition ProxyNeeded :: "Policy \<Rightarrow> bool" where
  "ProxyNeeded p \<longleftrightarrow> pol_Mode p = ModeAllowlist \<and> DomainProtected p"

definition ModeString :: "Policy \<Rightarrow> string" where
  "ModeString p =
     (case pol_Mode p of ModeDenyAll \<Rightarrow> ''deny_all'' | ModeAllowlist \<Rightarrow> ''allowlist'' | _ \<Rightarrow> ''unrestricted'')"

definition CIDRStrings :: "Policy \<Rightarrow> string list \<times> string list" where
  "CIDRStrings p = (map Prefix_String (AllowedCIDRs p), map Prefix_String (DeniedCIDRs p))"

definition domain_text :: "DomainEntry \<Rightarrow> string" where
  "domain_text d = (if exact d \<noteq> [] then exact d else ''*'' @ wildcardSuffix d)"

definition DomainStrings :: "Policy \<Rightarrow> string list" where
  "DomainStrings p = sort (map domain_text (AllowedDomains p))"

record PolicySnapshot =
  ps_Mode :: string
  ps_AllowedCIDRs :: "string list"
  ps_DeniedCIDRs :: "string list"
  ps_Domains :: "string list"
  ps_ProxyPort80 :: int
  ps_ProxyPort443 :: int
  ps_MaxTCPConns :: u32
  ps_AuditAll :: bool
  ps_Generation :: u64

text \<open>\<open>Manager.snapshotFor\<close>, with the two proxy ports of the manager.\<close>

definition snapshotFor :: "int \<Rightarrow> int \<Rightarrow> Policy \<Rightarrow> PolicySnapshot" where
  "snapshotFor port80 port443 p =
     \<lparr>ps_Mode = ModeString p, ps_AllowedCIDRs = fst (CIDRStrings p), ps_DeniedCIDRs = snd (CIDRStrings p),
      ps_Domains = DomainStrings p,
      ps_ProxyPort80 = (if ProxyNeeded p then port80 else 0),
      ps_ProxyPort443 = (if ProxyNeeded p then port443 else 0),
      ps_MaxTCPConns = MaxTCPConns p, ps_AuditAll = AuditAll p, ps_Generation = pol_Generation p\<rparr>"

definition FromSnapshot :: "PolicySnapshot \<Rightarrow> egress_err + Policy option" where
  "FromSnapshot snap =
     (if ps_Mode snap = [] then Inr None
      else
        (let m = (if ps_Mode snap = ''unrestricted'' then Some 1
                  else if ps_Mode snap = ''deny_all'' then Some 2
                  else if ps_Mode snap = ''allowlist'' then Some 3 else None) in
         case m of
           None \<Rightarrow> Inl (ErrRestoreMode (ps_Mode snap))
         | Some md \<Rightarrow>
             FromProto (Some \<lparr>spec_Mode = md, allowed_cidrs = ps_AllowedCIDRs snap,
               denied_cidrs = ps_DeniedCIDRs snap, allowed_domains = ps_Domains snap,
               max_tcp_connections = ps_MaxTCPConns snap, policy_generation = ps_Generation snap,
               audit_all = ps_AuditAll snap\<rparr>)))"

text \<open>\<open>sortedIPs\<close>: unmapped, without duplicates, in address order.\<close>

definition sortedIPs :: "Addr list \<Rightarrow> Addr list" where
  "sortedIPs addrs =
     sort_key addr_key
       (foldl (\<lambda>out a. let u = Unmap a in if \<not> IsValid u \<or> u \<in> set out then out else out @ [u]) [] addrs)"

section \<open>The trusted resolver\<close>

datatype RR = RR_A "u8 list" u32 | RR_AAAA "u8 list" u32 | RR_CNAME string u32 | RR_Other u32

record Msg =
  Rcode :: nat
  Answer :: "RR list"

record cacheEntry =
  ce_addrs :: "Addr list"
  ce_expires :: int

record Resolver =
  upstreams :: "string list"
  ttlCap :: int
  res_cache :: "(string, cacheEntry) gomap"

datatype resolve_err = EmptyHost | NoNameserver | ChainTooDeep | QueryFailed string | BadRcode string nat | NoAddress string | ChainUnresolved

definition defaultTTLCap :: int where
  "defaultTTLCap = 60 * 1000000000"

definition defaultResolveDepth :: nat where
  "defaultResolveDepth = 8"

text \<open>\<open>NewResolver\<close>; \<open>sys\<close> is the content of \<open>/etc/resolv.conf\<close> by lines, \<open>None\<close> when it cannot be read.\<close>

definition systemUpstreams :: "string list option \<Rightarrow> resolve_err + string list" where
  "systemUpstreams sys =
     (case sys of
        None \<Rightarrow> Inl NoNameserver
      | Some ls \<Rightarrow>
          (let out = concat (map (\<lambda>l. case Fields l of
                        f # v # _ \<Rightarrow> if f = ''nameserver'' then [v] else [] | _ \<Rightarrow> []) ls) in
           if out = [] then Inl NoNameserver else Inr out))"

definition NewResolver :: "string list option \<Rightarrow> string list \<Rightarrow> int \<Rightarrow> resolve_err + Resolver" where
  "NewResolver sys ups cap =
     (let mk = (\<lambda>us. \<lparr>upstreams = us, ttlCap = (if cap \<le> 0 then defaultTTLCap else cap), res_cache = []\<rparr>) in
      if ups = [] then (case systemUpstreams sys of Inl e \<Rightarrow> Inl e | Inr us \<Rightarrow> Inr (mk us))
      else Inr (mk ups))"

text \<open>
  \<open>query\<close>: \<open>exchange server name ipv6\<close> is the DNS client's exchange of one question,
  \<open>None\<close> for an error or an empty response. The first upstream that answers the A question decides.
\<close>

definition dns_server :: "string \<Rightarrow> string" where
  "dns_server upstream =
     (if SplitHostPort_ok upstream then upstream
      else (let br = (\<lambda>c. c \<in> set ''[]''); h = rev (dropWhile br (rev (dropWhile br upstream))) in
            if ContainsChar h CHR '':'' then ''['' @ h @ '']:53'' else h @ '':53''))"

fun query :: "(string \<Rightarrow> string \<Rightarrow> bool \<Rightarrow> Msg option) \<Rightarrow> string list \<Rightarrow> string \<Rightarrow> Msg option" where
  "query exchange [] host = None"
| "query exchange (u # us) host =
     (case exchange (dns_server u) host False of
        None \<Rightarrow> query exchange us host
      | Some resp \<Rightarrow>
          (case exchange (dns_server u) host True of
             Some resp6 \<Rightarrow> if Rcode resp6 = 0 then Some (resp\<lparr>Answer := Answer resp @ Answer resp6\<rparr>) else Some resp
           | None \<Rightarrow> Some resp))"

fun AddrFromSlice :: "u8 list \<Rightarrow> Addr option" where
  "AddrFromSlice bs =
     (if length bs = 4 then Some (V4 (foldl (\<lambda>n b. 256 * n + ucast b) 0 bs))
      else if length bs = 16 then Some (V6 (foldl (\<lambda>n b. 256 * n + ucast b) 0 bs)) else None)"

text \<open>One answer section: the addresses, the first alias and the least positive TTL so far.\<close>

fun rr_ttl :: "RR \<Rightarrow> int" where
  "rr_ttl (RR_A _ t) = int (unat t) * 1000000000"
| "rr_ttl (RR_AAAA _ t) = int (unat t) * 1000000000"
| "rr_ttl (RR_CNAME _ t) = int (unat t) * 1000000000"
| "rr_ttl (RR_Other t) = int (unat t) * 1000000000"

fun rr_addrs :: "RR \<Rightarrow> Addr list" where
  "rr_addrs (RR_A bs _) = (case AddrFromSlice bs of Some a \<Rightarrow> [a] | None \<Rightarrow> [])"
| "rr_addrs (RR_AAAA bs _) = (case AddrFromSlice bs of Some a \<Rightarrow> [a] | None \<Rightarrow> [])"
| "rr_addrs _ = []"

fun rr_next :: "string \<Rightarrow> RR \<Rightarrow> string" where
  "rr_next next (RR_CNAME target _) = (if next = [] then ToLower (TrimSuffix target ''.'') else next)"
| "rr_next next _ = next"

definition scan_answer :: "RR list \<Rightarrow> int \<Rightarrow> Addr list \<times> string \<times> int" where
  "scan_answer rrs minT =
     foldl (\<lambda>(al, next, t) rr.
        let ttl = rr_ttl rr in
        (al @ rr_addrs rr, rr_next next rr, if 0 < ttl \<and> (t = 0 \<or> ttl < t) then ttl else t)) ([], [], minT) rrs"

primrec resolve_hops :: "nat \<Rightarrow> (string \<Rightarrow> Msg option) \<Rightarrow> string \<Rightarrow> int \<Rightarrow> resolve_err + Addr list \<times> int" where
  "resolve_hops 0 qry name minT = Inl ChainUnresolved"
| "resolve_hops (Suc n) qry name minT =
     (if name = [] then Inl ChainUnresolved
      else case qry name of
        None \<Rightarrow> Inl (QueryFailed name)
      | Some msg \<Rightarrow>
          if Rcode msg \<noteq> 0 then Inl (BadRcode name (Rcode msg))
          else
            (let (al, next, t) = scan_answer (Answer msg) minT in
             if al \<noteq> [] then Inr (al, t)
             else if next = [] \<or> next = name then Inl (NoAddress name)
             else resolve_hops n qry next t))"

definition resolveChain :: "(string \<Rightarrow> Msg option) \<Rightarrow> string \<Rightarrow> nat \<Rightarrow> resolve_err + Addr list \<times> int" where
  "resolveChain qry host depth =
     (if depth = 0 then Inl ChainTooDeep else resolve_hops defaultResolveDepth qry host 0)"

text \<open>\<open>Resolve\<close>: \<open>now\<close> is the time of the cache lookup and \<open>now'\<close> that of the store.\<close>

definition Resolve :: "(string \<Rightarrow> string \<Rightarrow> bool \<Rightarrow> Msg option) \<Rightarrow> int \<Rightarrow> int \<Rightarrow> string \<Rightarrow> (Resolver, resolve_err, Addr list) act" where
  "Resolve exchange now now' host0 r =
     (let host = ToLower (TrimSuffix (TrimSpace host0) ''.'') in
      if host = [] then (Inl EmptyHost, r)
      else
        (let miss =
           (case resolveChain (query exchange (upstreams r)) host defaultResolveDepth of
              Inl e \<Rightarrow> (Inl e, r)
            | Inr (al, ttl) \<Rightarrow>
                (let addrs = sortedIPs al in
                 if addrs = [] then (Inl (NoAddress host), r)
                 else
                   (let ttl' = (if ttl \<le> 0 \<or> ttlCap r < ttl then ttlCap r else ttl) in
                    (Inr addrs, r\<lparr>res_cache := mset_at host \<lparr>ce_addrs = addrs, ce_expires = now' + ttl'\<rparr> (res_cache r)\<rparr>)))) in
         case mget (res_cache r) host of
           Some e \<Rightarrow> if now < ce_expires e then (Inr (ce_addrs e), r) else miss
         | None \<Rightarrow> miss))"

section \<open>Reserved segments\<close>

record ReservedChecker =
  rc_extra :: "Prefix list"

fun NewReservedChecker :: "string list \<Rightarrow> ReservedChecker option" where
  "NewReservedChecker [] = Some \<lparr>rc_extra = []\<rparr>"
| "NewReservedChecker (cidr # cs) =
     (if TrimSpace cidr = [] then NewReservedChecker cs
      else case ParsePrefix (TrimSpace cidr) of
        None \<Rightarrow> None
      | Some p \<Rightarrow> map_option (\<lambda>rc. rc\<lparr>rc_extra := Masked p # rc_extra rc\<rparr>) (NewReservedChecker cs))"

definition IsReserved :: "ReservedChecker \<Rightarrow> Addr \<Rightarrow> bool" where
  "IsReserved rc addr =
     (let a = Unmap addr in
      if \<not> IsValid a then True
      else if Contains a then True
      else if IsLoopback a \<or> IsLinkLocalUnicast a \<or> IsLinkLocalMulticast a \<or> IsPrivate a \<or> IsMulticast a \<or> IsUnspecified a
        then True
      else list_ex (\<lambda>p. Contains_addr p a) (rc_extra rc))"

definition FilterPublic :: "ReservedChecker \<Rightarrow> Addr list \<Rightarrow> Addr list" where
  "FilterPublic rc addrs = filter (\<lambda>a. \<not> IsReserved rc a) addrs"

section \<open>Domain names\<close>

definition dom_char :: "char \<Rightarrow> bool" where
  "dom_char c \<longleftrightarrow> label_char c \<or> c = CHR ''.''"

definition plain_name :: "string \<Rightarrow> bool" where
  "plain_name d \<longleftrightarrow> d \<noteq> [] \<and> list_all dom_char d \<and> last d \<noteq> CHR ''.''"

lemma dom_char_quiet:
  assumes "dom_char c"
  shows "\<not> is_upper c" "\<not> is_space c" "c \<noteq> CHR ''*''" "c \<notin> set ''/?#:@''"
proof -
  let ?n = "of_char c :: nat"
  have n: "97 \<le> ?n \<and> ?n \<le> 122 \<or> 48 \<le> ?n \<and> ?n \<le> 57 \<or> ?n = 45 \<or> ?n = 46"
    using assms by (auto simp: dom_char_def label_char_def is_lower_iff is_digit_iff)
  show "\<not> is_upper c" "\<not> is_space c" using n by (auto simp: is_upper_iff is_space_def)
  show "c \<noteq> CHR ''*''" using n by auto
  show "c \<notin> set ''/?#:@''" using n by auto
qed

lemma label_name:
  assumes "list_all (\<lambda>w. w \<noteq> [] \<and> list_all label_char w) (Split CHR ''.'' d)" "d \<noteq> []"
  shows "plain_name d"
proof -
  have "list_all dom_char d"
    using assms(1) set_Split [where d = "CHR ''.''" and s = d] unfolding list_all_iff dom_char_def by blast
  moreover have "last (Split CHR ''.'' d) \<noteq> []"
    using assms(1) last_in_set [OF Split_not_Nil, of "CHR ''.''" d] unfolding list_all_iff by blast
  ultimately show ?thesis using Split_last [of "CHR ''.''" d] by (simp add: plain_name_def)
qed

lemma validDomain_plain: "validDomain d \<Longrightarrow> plain_name d"
  by (rule label_name) (auto simp: validDomain_def list_all_iff)

lemma octet_label: "octet_ok s \<Longrightarrow> s \<noteq> [] \<and> list_all label_char s"
  by (auto simp: octet_ok_def label_char_def list_all_iff)

lemma ParseAddr_plain: "ParseAddr d = Some a \<Longrightarrow> \<not> Is6 a \<Longrightarrow> plain_name d"
proof -
  assume "ParseAddr d = Some a" "\<not> Is6 a"
  then have "parseIPv4 d \<noteq> None" "d \<noteq> []"
    by (auto simp: ParseAddr_def split: list.splits if_splits)
  then show ?thesis
    by (intro label_name) (auto simp: parseIPv4_def octet_label split: list.splits if_splits)
qed

text \<open>What the first steps of \<open>normalizeDomain\<close> do to a name that is already in normal form.\<close>

lemma plain_name_fixed:
  assumes "plain_name d"
  shows "TrimSuffix (TrimSpace (ToLower d)) ''.'' = d" "\<not> ContainsAny d ''/?#:@''" "\<not> ContainsChar d CHR ''*''"
    "\<not> HasPrefix d ''*.''" "d \<noteq> []"
proof -
  have all: "list_all (\<lambda>c. \<not> is_upper c) d" "list_all (\<lambda>c. \<not> is_space c) d"
    using assms dom_char_quiet by (auto simp: plain_name_def list_all_iff)
  then show "TrimSuffix (TrimSpace (ToLower d)) ''.'' = d"
    using assms by (simp add: str_simps plain_name_def)
  have star: "CHR ''*'' \<notin> set d"
    using assms dom_char_quiet(3) by (auto simp: plain_name_def list_all_iff)
  then show "\<not> ContainsChar d CHR ''*''" "\<not> HasPrefix d ''*.''"
    by (auto simp: ContainsChar_def list_ex_iff HasPrefix_iff)
  show "\<not> ContainsAny d ''/?#:@''" "d \<noteq> []"
    using assms dom_char_quiet(4) by (auto simp: plain_name_def list_all_iff ContainsAny_def list_ex_iff)
qed

lemma star_name_fixed:
  assumes "plain_name d"
  shows "TrimSuffix (TrimSpace (ToLower (''*.'' @ d))) ''.'' = ''*.'' @ d" "\<not> ContainsAny (''*.'' @ d) ''/?#:@''"
proof -
  have all: "list_all (\<lambda>c. \<not> is_upper c) (''*.'' @ d)" "list_all (\<lambda>c. \<not> is_space c) (''*.'' @ d)"
    using assms dom_char_quiet by (auto simp: plain_name_def list_all_iff is_upper_iff is_space_def)
  then show "TrimSuffix (TrimSpace (ToLower (''*.'' @ d))) ''.'' = ''*.'' @ d"
    using assms by (simp add: str_simps plain_name_def)
  show "\<not> ContainsAny (''*.'' @ d) ''/?#:@''"
    using plain_name_fixed(2) [OF assms] by (simp add: ContainsAny_def)
qed

lemma normalizeDomain_cases:
  assumes "normalizeDomain raw = Inr n"
  obtains (wild) d where "n = ''*.'' @ d" "validDomain d"
  | (ip) a where "ParseAddr n = Some a" "\<not> Is6 a"
  | (name) "validDomain n" "ParseAddr n = None"
  using assms unfolding normalizeDomain_def Let_def
  by (auto split: if_splits option.splits)

lemma normalizeDomain_idem:
  assumes "normalizeDomain raw = Inr n"
  shows "normalizeDomain n = Inr n"
  using assms
proof (cases rule: normalizeDomain_cases)
  case (wild d)
  then show ?thesis
    using validDomain_plain [OF wild(2)] star_name_fixed [of d] plain_name_fixed [of d]
    unfolding normalizeDomain_def Let_def by (simp add: HasPrefix_def TrimPrefix_def)
next
  case (ip a)
  then show ?thesis
    using plain_name_fixed [OF ParseAddr_plain [OF ip]] by (simp add: normalizeDomain_def Let_def)
next
  case name
  then show ?thesis
    using plain_name_fixed [OF validDomain_plain [OF name(1)]] by (simp add: normalizeDomain_def Let_def)
qed

lemma normalizeDomain_not_Nil: "normalizeDomain raw = Inr n \<Longrightarrow> n \<noteq> []"
  by (erule normalizeDomain_cases) (auto dest: ParseAddr_plain validDomain_plain simp: plain_name_def)

lemma domain_text_entry: "n \<noteq> [] \<Longrightarrow> domain_text (domain_entry n) = n"
  by (auto simp: domain_entry_def domain_text_def HasPrefix_iff TrimPrefix_def)

text \<open>A wildcard matches exactly one label in front of its suffix.\<close>

lemma domain_matches_entry:
  assumes "n \<noteq> []"
  shows "domain_matches (domain_entry n) host \<longleftrightarrow>
    (if HasPrefix n ''*.'' then (\<exists>l. l \<noteq> [] \<and> CHR ''.'' \<notin> set l \<and> host = l @ drop 1 n) else host = n)"
proof (cases "HasPrefix n ''*.''")
  case True
  then obtain u where n: "n = ''*.'' @ u" by (auto simp: HasPrefix_iff)
  have "domain_matches (domain_entry n) host \<longleftrightarrow>
      HasSuffix host (''.'' @ u) \<and> TrimSuffix host (''.'' @ u) \<noteq> [] \<and> \<not> ContainsChar (TrimSuffix host (''.'' @ u)) CHR ''.''"
    using True by (simp add: domain_matches_def domain_entry_def n TrimPrefix_def Let_def)
  also have "\<dots> \<longleftrightarrow> (\<exists>l. l \<noteq> [] \<and> CHR ''.'' \<notin> set l \<and> host = l @ ''.'' @ u)"
    using TrimSuffix_append [where p = "''.'' @ u"]
    unfolding HasSuffix_iff ContainsChar_def list_ex_iff by metis
  finally show ?thesis using True by (simp add: n)
next
  case False
  with assms show ?thesis by (simp add: domain_matches_def domain_entry_def)
qed

section \<open>Parsed lists\<close>

definition cidr_ok :: "Prefix \<Rightarrow> bool" where
  "cidr_ok p \<longleftrightarrow> Is4 (prefix_addr p) \<and> prefix_bits p \<le> 32 \<and> Masked p = p"

lemma ParseAddr_valid: "ParseAddr s = Some a \<Longrightarrow> a \<noteq> NoAddr"
  by (auto simp: ParseAddr_def split: list.splits if_splits)

lemma ParsePrefix_bits:
  "ParsePrefix s = Some p \<Longrightarrow> prefix_bits p \<le> BitLen (prefix_addr p) \<and> prefix_addr p \<noteq> NoAddr"
  by (auto simp: ParsePrefix_def Let_def ParseAddr_valid split: option.splits if_splits)

lemma parse_cidrs_ok: "parse_cidrs_from i f raws = Inr ps \<Longrightarrow> list_all cidr_ok ps"
proof (induction raws arbitrary: i ps)
  case (Cons raw raws)
  then obtain p qs where p: "ParsePrefix (TrimSpace raw) = Some p" "\<not> Is6 (prefix_addr p)"
    and qs: "parse_cidrs_from (Suc i) f raws = Inr qs" and ps: "ps = Masked p # qs"
    by (auto split: option.splits if_splits sum.splits)
  have "cidr_ok (Masked p)"
    using ParsePrefix_bits [OF p(1)] p(2) by (cases p rule: Masked.cases) (auto simp: cidr_ok_def and.assoc)
  with Cons.IH [OF qs] ps show ?case by simp
qed simp

lemma parse_domains_ok:
  "parse_domains_from i raws = Inr ds \<Longrightarrow>
   \<exists>ns. ds = map domain_entry ns \<and> list_all (\<lambda>n. normalizeDomain n = Inr n \<and> n \<noteq> []) ns \<and>
        set ns = {n. \<exists>raw \<in> set raws. normalizeDomain raw = Inr n}"
proof (induction raws arbitrary: i ds)
  case (Cons raw raws)
  then obtain n es where n: "normalizeDomain raw = Inr n" and es: "parse_domains_from (Suc i) raws = Inr es"
    and ds: "ds = domain_entry n # es"
    by (auto split: sum.splits)
  from Cons.IH [OF es] obtain ns where
    "es = map domain_entry ns" "list_all (\<lambda>n. normalizeDomain n = Inr n \<and> n \<noteq> []) ns"
    "set ns = {n. \<exists>raw \<in> set raws. normalizeDomain raw = Inr n}" by blast
  with n ds normalizeDomain_idem [OF n] normalizeDomain_not_Nil [OF n] show ?case
    by (intro exI [of _ "n # ns"]) auto
qed simp

lemma Prefix_String_trim: "Is4 (prefix_addr p) \<Longrightarrow> TrimSpace (Prefix_String p) = Prefix_String p"
proof (rule TrimSpace_id)
  assume "Is4 (prefix_addr p)"
  then obtain w where w: "prefix_addr p = V4 w" by (cases "prefix_addr p") auto
  have "\<not> is_space c" if "is_digit c \<or> c = CHR ''.'' \<or> c = CHR ''/''" for c
    using that by (auto simp: is_digit_iff is_space_def)
  then show "list_all (\<lambda>c. \<not> is_space c) (Prefix_String p)"
    using string4_chars [of w] utoa_digits [of "prefix_bits p"] by (auto simp: Prefix_String_def w list_all_iff)
qed

lemma parse_cidrs_strings:
  "list_all cidr_ok ps \<Longrightarrow> parse_cidrs_from i f (map Prefix_String ps) = Inr ps"
proof (induction ps arbitrary: i)
  case (Cons p ps)
  then obtain w b where p: "p = Prefix (V4 w) b" "b \<le> 32" "Masked p = p"
    by (cases p; cases "prefix_addr p") (auto simp: cidr_ok_def)
  with Cons ParsePrefix_String4 [OF p(2)] Prefix_String_trim [of p] show ?case by simp
qed simp

lemma parse_domains_names:
  "list_all (\<lambda>n. normalizeDomain n = Inr n \<and> n \<noteq> []) ns \<Longrightarrow> parse_domains_from i ns = Inr (map domain_entry ns)"
  by (induction ns arbitrary: i) auto

lemma domain_texts:
  "list_all (\<lambda>n. normalizeDomain n = Inr n \<and> n \<noteq> []) ns \<Longrightarrow> map (domain_text \<circ> domain_entry) ns = ns"
  by (induction ns) (auto simp: domain_text_entry)

lemma sort_key_sort_key: "sort_key f (sort_key f xs) = sort_key f xs"
  by (simp add: sort_key_id_if_sorted)

text \<open>What a successful \<open>FromProto\<close> returns.\<close>

lemma FromProto_cases:
  assumes "FromProto (Some s) = Inr (Some p)"
  obtains md al dn ns where "proto_mode (spec_Mode s) = Inr md" "list_all cidr_ok al" "list_all cidr_ok dn"
    "list_all (\<lambda>n. normalizeDomain n = Inr n \<and> n \<noteq> []) ns"
    "set ns = {n. \<exists>raw \<in> set (allowed_domains s). normalizeDomain raw = Inr n}"
    "policy_generation s \<noteq> 0"
    "p = \<lparr>pol_Mode = md, AllowedCIDRs = sort_key Prefix_String al, DeniedCIDRs = sort_key Prefix_String dn,
          AllowedDomains = map domain_entry ns, MaxTCPConns = max_tcp_connections s,
          pol_Generation = policy_generation s, AuditAll = audit_all s, DomainProtected = (ns \<noteq> [])\<rparr>"
proof -
  from assms obtain md al dn ds where
    parts: "proto_mode (spec_Mode s) = Inr md" "parseCIDRList (allowed_cidrs s) ''allowed_cidrs'' = Inr al"
      "parseCIDRList (denied_cidrs s) ''denied_cidrs'' = Inr dn" "parse_domains_from 0 (allowed_domains s) = Inr ds"
      "policy_generation s \<noteq> 0"
    and p: "p = \<lparr>pol_Mode = md, AllowedCIDRs = sort_key Prefix_String al, DeniedCIDRs = sort_key Prefix_String dn,
          AllowedDomains = ds, MaxTCPConns = max_tcp_connections s,
          pol_Generation = policy_generation s, AuditAll = audit_all s, DomainProtected = (ds \<noteq> [])\<rparr>"
    unfolding FromProto_def by (simp split: sum.splits if_splits)
  from parse_domains_ok [OF parts(4)] obtain ns where "ds = map domain_entry ns"
      "list_all (\<lambda>n. normalizeDomain n = Inr n \<and> n \<noteq> []) ns"
      "set ns = {n. \<exists>raw \<in> set (allowed_domains s). normalizeDomain raw = Inr n}" by blast
  with that [of md al dn ns] parts p parse_cidrs_ok show ?thesis by (auto simp: parseCIDRList_def)
qed

text \<open>
  Claim C37. A policy survives an agent restart: the snapshot that the manager persists for a policy
  built by \<open>FromProto\<close> is always accepted by \<open>FromSnapshot\<close>, and the restored policy is the
  same but for the order of its domain entries, so that it decides every connection the same way.
\<close>

theorem FromSnapshot_restores:
  assumes "FromProto (Some spec) = Inr (Some p)"
  shows "\<exists>q. FromSnapshot (snapshotFor port80 port443 p) = Inr (Some q) \<and>
     q\<lparr>AllowedDomains := AllowedDomains p\<rparr> = p \<and> set (AllowedDomains q) = set (AllowedDomains p) \<and>
     (\<forall>host addrs. DecideForProxied q host addrs = DecideForProxied p host addrs) \<and>
     (\<forall>addr. DecideByCIDR q addr = DecideByCIDR p addr)"
proof -
  from assms obtain md al dn ns where md: "proto_mode (spec_Mode spec) = Inr md"
    and cidrs: "list_all cidr_ok al" "list_all cidr_ok dn"
    and ns: "list_all (\<lambda>n. normalizeDomain n = Inr n \<and> n \<noteq> []) ns" and gen: "policy_generation spec \<noteq> 0"
    and p: "p = \<lparr>pol_Mode = md, AllowedCIDRs = sort_key Prefix_String al, DeniedCIDRs = sort_key Prefix_String dn,
          AllowedDomains = map domain_entry ns, MaxTCPConns = max_tcp_connections spec,
          pol_Generation = policy_generation spec, AuditAll = audit_all spec, DomainProtected = (ns \<noteq> [])\<rparr>"
    by (rule FromProto_cases) blast
  have nonempty: "sort ns = [] \<longleftrightarrow> ns = []" by (metis length_0_conv length_sort)
  have sorted: "list_all cidr_ok (AllowedCIDRs p)" "list_all cidr_ok (DeniedCIDRs p)"
    "list_all (\<lambda>n. normalizeDomain n = Inr n \<and> n \<noteq> []) (sort ns)"
    using cidrs ns by (simp_all add: p list_all_iff)
  define q where "q = p\<lparr>AllowedDomains := map domain_entry (sort ns)\<rparr>"
  have "md \<in> {ModeUnrestricted, ModeDenyAll, ModeAllowlist}"
    using md by (auto simp: proto_mode_def split: if_splits)
  then have "FromSnapshot (snapshotFor port80 port443 p) = Inr (Some q)"
    using parse_cidrs_strings [OF sorted(1)] parse_cidrs_strings [OF sorted(2)]
      parse_domains_names [OF sorted(3)] gen
    by (auto simp: FromSnapshot_def snapshotFor_def CIDRStrings_def DomainStrings_def domain_texts [OF ns]
        FromProto_def parseCIDRList_def ModeString_def proto_mode_def p q_def sort_key_sort_key nonempty)
  moreover have "q\<lparr>AllowedDomains := AllowedDomains p\<rparr> = p" "set (AllowedDomains q) = set (AllowedDomains p)"
    by (simp_all add: q_def p)
  moreover have "DecideForProxied q host addrs = DecideForProxied p host addrs" for host addrs
    by (simp add: DecideForProxied_def matchesDomain_def q_def p list_ex_iff Let_def split: cidrOutcome.split)
  moreover have "DecideByCIDR q addr = DecideByCIDR p addr" for addr
    by (simp add: DecideByCIDR_def q_def)
  ultimately show ?thesis by blast
qed

definition example_spec :: EgressPolicySpec where
  "example_spec = \<lparr>spec_Mode = 3, allowed_cidrs = [''8.8.8.8/16''], denied_cidrs = [''1.2.3.0/24''],
     allowed_domains = [''*.Example.com.'', ''api.test''], max_tcp_connections = 2, policy_generation = 7,
     audit_all = False\<rparr>"

definition example_policy :: Policy where
  "example_policy = \<lparr>pol_Mode = ModeAllowlist, AllowedCIDRs = [Prefix (V4 0x08080000) 16],
     DeniedCIDRs = [Prefix (V4 0x01020300) 24],
     AllowedDomains = [\<lparr>exact = [], wildcardSuffix = ''.example.com''\<rparr>, \<lparr>exact = ''api.test'', wildcardSuffix = []\<rparr>],
     MaxTCPConns = 2, pol_Generation = 7, AuditAll = False, DomainProtected = True\<rparr>"

lemma example_FromProto: "FromProto (Some example_spec) = Inr (Some example_policy)"
  by code_simp

theorem FromSnapshot_restores_witness:
  "\<exists>q. FromSnapshot (snapshotFor 18080 18443 example_policy) = Inr (Some q) \<and>
     q\<lparr>AllowedDomains := AllowedDomains example_policy\<rparr> = example_policy"
  using FromSnapshot_restores [OF example_FromProto, of 18080 18443] by blast

text \<open>
  Which hosts the domain rules of a policy authorise: after normalisation the host is one of
  the declared names, or it is exactly one non-empty label without a dot in front of the suffix
  of a declared wildcard.
\<close>

lemma matchesDomain_declared:
  assumes "FromProto (Some spec) = Inr (Some p)"
  shows "matchesDomain p host \<longleftrightarrow>
    (\<exists>raw n. raw \<in> set (allowed_domains spec) \<and> normalizeDomain raw = Inr n \<and>
       (if HasPrefix n ''*.'' then (\<exists>l. l \<noteq> [] \<and> CHR ''.'' \<notin> set l \<and> NormalizeHost host = l @ drop 1 n)
        else NormalizeHost host = n))"
proof -
  from assms obtain ns where
    ok: "list_all (\<lambda>n. normalizeDomain n = Inr n \<and> n \<noteq> []) ns"
    and decl: "set ns = {n. \<exists>raw \<in> set (allowed_domains spec). normalizeDomain raw = Inr n}"
    and ds: "AllowedDomains p = map domain_entry ns"
    by (rule FromProto_cases) simp
  have "matchesDomain p host \<longleftrightarrow> (\<exists>n \<in> set ns. domain_matches (domain_entry n) (NormalizeHost host))"
    by (simp add: matchesDomain_def ds list_ex_iff)
  also have "\<dots> \<longleftrightarrow> (\<exists>n \<in> set ns.
      if HasPrefix n ''*.'' then (\<exists>l. l \<noteq> [] \<and> CHR ''.'' \<notin> set l \<and> NormalizeHost host = l @ drop 1 n)
        else NormalizeHost host = n)"
    using ok domain_matches_entry by (intro bex_cong refl) (auto simp: list_all_iff)
  finally show ?thesis unfolding decl by blast
qed

lemma matchesDomain_declared_witness:
  "(\<exists>raw n. raw \<in> set (allowed_domains example_spec) \<and> normalizeDomain raw = Inr n \<and>
       (if HasPrefix n ''*.'' then (\<exists>l. l \<noteq> [] \<and> CHR ''.'' \<notin> set l \<and> NormalizeHost ''WWW.example.com:443'' = l @ drop 1 n)
        else NormalizeHost ''WWW.example.com:443'' = n))"
proof -
  have "matchesDomain example_policy ''WWW.example.com:443''" by code_simp
  then show ?thesis using matchesDomain_declared [OF example_FromProto, of "''WWW.example.com:443''"] by blast
qed

end
