(* ===== verification/EgressProxy.thy ===== *)
theory EgressProxy
  imports Egress
begin

text \<open>
  The transparent egress proxy and its manager (\<open>internal/agent/egress/proxy.go\<close> and
  \<open>internal/agent/egress/manager.go\<close>): the registry of per-execution policies, one connection from the
  limit check to the dial and the audit record, and the publication protocol. Entries are
  shared objects, compared by identity in the source; they live in a store addressed by numbers.
  The sniffer's answer, the DNS exchange, whether an address accepts the connection and the
  data-plane engine are parameters. Error texts of the client libraries are left out of the reasons.
\<close>

section \<open>Data\<close>

record AuditRecord =
  ar_ProjectID :: string
  ar_AppID :: string
  ar_MachineID :: string
  ar_ExecutionID :: string
  ar_PolicyGeneration :: u64
  ar_Protocol :: string
  ar_Port :: u32
  ar_Host :: string
  ar_ResolvedIP :: string
  ar_Allowed :: bool
  ar_MatchType :: string
  ar_Reason :: string

record bucketStat =
  bs_protocol :: string
  bs_port :: u32
  bs_denied :: u64

record Entry =
  e_MachineID :: string
  e_ExecutionID :: string
  e_ProjectID :: string
  e_AppID :: string
  e_Policy :: Policy
  e_active :: int
  e_allowed :: u64
  e_denied :: u64
  e_limitReject :: u64
  e_locked :: bool
  e_bucket :: "(string, bucketStat) gomap"

record Proxy =
  px_entry :: "nat \<Rightarrow> Entry"
  px_next :: nat
  px_byIP :: "(Addr, nat) gomap"
  px_byMach :: "(string, nat) gomap"

record stagedEntry =
  st_entry :: nat
  st_guestIP :: Addr

datatype proxy_err = ErrNilPolicy | ErrGuestIP string | ErrGenerationFenced u64 u64 | ErrIPBound string
  | ErrGenerationChanged | ErrBindingChanged | ErrNotRegistered string | ErrDatapath

definition new_entry :: "string \<Rightarrow> string \<Rightarrow> string \<Rightarrow> string \<Rightarrow> Policy \<Rightarrow> Entry" where
  "new_entry m e pr a pol =
     \<lparr>e_MachineID = m, e_ExecutionID = e, e_ProjectID = pr, e_AppID = a, e_Policy = pol, e_active = 0,
      e_allowed = 0, e_denied = 0, e_limitReject = 0, e_locked = False, e_bucket = []\<rparr>"

definition update_entry :: "nat \<Rightarrow> (Entry \<Rightarrow> Entry) \<Rightarrow> Proxy \<Rightarrow> Proxy" where
  "update_entry i f px = px\<lparr>px_entry := (px_entry px)(i := f (px_entry px i))\<rparr>"

section \<open>The registry\<close>

text \<open>The generation fence of \<open>stage\<close> and \<open>swap\<close>: a newer policy of the same execution is published.\<close>

definition newer_published :: "Proxy \<Rightarrow> string \<Rightarrow> string \<Rightarrow> u64 \<Rightarrow> bool" where
  "newer_published px m ex gen =
     (case mget (px_byMach px) m of
        None \<Rightarrow> False
      | Some i \<Rightarrow> e_ExecutionID (px_entry px i) = ex \<and> gen < pol_Generation (e_Policy (px_entry px i)))"

definition bound_elsewhere :: "Proxy \<Rightarrow> Addr \<Rightarrow> string \<Rightarrow> bool" where
  "bound_elsewhere px a m =
     (case mget (px_byIP px) a of
        None \<Rightarrow> False
      | Some i \<Rightarrow> IsValid a \<and> e_MachineID (px_entry px i) \<noteq> m)"

definition guest_addr :: "string \<Rightarrow> Addr option" where
  "guest_addr guestIP = (if guestIP = [] then Some NoAddr else map_option Unmap (ParseAddr guestIP))"

definition stage :: "string \<Rightarrow> string \<Rightarrow> string \<Rightarrow> string \<Rightarrow> string \<Rightarrow> Policy option \<Rightarrow> (Proxy, proxy_err, stagedEntry) act" where
  "stage m ex pr a guestIP policy px =
     (case policy of
        None \<Rightarrow> (Inl ErrNilPolicy, px)
      | Some pol \<Rightarrow>
          (case guest_addr guestIP of
             None \<Rightarrow> (Inl (ErrGuestIP guestIP), px)
           | Some addr \<Rightarrow>
               if newer_published px m ex (pol_Generation pol) then
                 (Inl (ErrGenerationFenced (case mget (px_byMach px) m of
                         Some i \<Rightarrow> pol_Generation (e_Policy (px_entry px i)) | None \<Rightarrow> 0) (pol_Generation pol)), px)
               else if bound_elsewhere px addr m then (Inl (ErrIPBound guestIP), px)
               else (Inr \<lparr>st_entry = px_next px, st_guestIP = addr\<rparr>,
                     px\<lparr>px_entry := (px_entry px)(px_next px := new_entry m ex pr a pol), px_next := Suc (px_next px)\<rparr>)))"

text \<open>The first binding that refers to the machine's entry; \<open>NoAddr\<close> when there is none.\<close>

definition ipForMachine :: "Proxy \<Rightarrow> string \<Rightarrow> Addr" where
  "ipForMachine px m =
     (case mget (px_byMach px) m of
        None \<Rightarrow> NoAddr
      | Some i \<Rightarrow> (case filter (\<lambda>(ip, j). j = i) (px_byIP px) of [] \<Rightarrow> NoAddr | (ip, _) # _ \<Rightarrow> ip))"

definition current :: "Proxy \<Rightarrow> string \<Rightarrow> stagedEntry option" where
  "current px m =
     (case mget (px_byMach px) m of
        None \<Rightarrow> None
      | Some i \<Rightarrow> Some \<lparr>st_entry = i, st_guestIP = ipForMachine px m\<rparr>)"

definition drop_bindings :: "nat option \<Rightarrow> (Addr, nat) gomap \<Rightarrow> (Addr, nat) gomap" where
  "drop_bindings x m = (case x of None \<Rightarrow> m | Some i \<Rightarrow> mkeep (\<lambda>_ j. j \<noteq> i) m)"

definition swap :: "stagedEntry \<Rightarrow> (Proxy, proxy_err, unit) act" where
  "swap st px =
     (let i = st_entry st; e = px_entry px i; m = e_MachineID e in
      if newer_published px m (e_ExecutionID e) (pol_Generation (e_Policy e)) then (Inl ErrGenerationChanged, px)
      else if bound_elsewhere px (st_guestIP st) m then (Inl ErrBindingChanged, px)
      else
        (let byIP = drop_bindings (mget (px_byMach px) m) (px_byIP px) in
         (Inr (), px\<lparr>px_byMach := mset_at m i (px_byMach px),
                     px_byIP := (if IsValid (st_guestIP st) then mset_at (st_guestIP st) i byIP else byIP)\<rparr>)))"

definition Unregister :: "string \<Rightarrow> Proxy \<Rightarrow> Proxy" where
  "Unregister m px =
     (case mget (px_byMach px) m of
        None \<Rightarrow> px
      | Some i \<Rightarrow> px\<lparr>px_byIP := drop_bindings (Some i) (px_byIP px), px_byMach := mdel m (px_byMach px)\<rparr>)"

definition Register :: "string \<Rightarrow> string \<Rightarrow> string \<Rightarrow> string \<Rightarrow> Policy option \<Rightarrow> (Proxy, proxy_err, unit) act" where
  "Register m ex pr a policy px =
     (if policy = None then (Inr (), Unregister m px)
      else
        (let addr = ipForMachine px m;
             guestIP = (if IsValid addr then Addr_String addr else []) in
         case stage m ex pr a guestIP policy px of
           (Inl e, px') \<Rightarrow> (Inl e, px')
         | (Inr st, px') \<Rightarrow> swap st px'))"

definition BindIP :: "string \<Rightarrow> string \<Rightarrow> (Proxy, proxy_err, unit) act" where
  "BindIP guestIP m px =
     (case ParseAddr guestIP of
        None \<Rightarrow> (Inl (ErrGuestIP guestIP), px)
      | Some addr \<Rightarrow>
          (case mget (px_byMach px) m of
             None \<Rightarrow> (Inl (ErrNotRegistered m), px)
           | Some i \<Rightarrow>
               (case mget (px_byIP px) addr of
                  Some j \<Rightarrow> if j \<noteq> i then (Inl (ErrIPBound guestIP), px)
                            else (Inr (), px\<lparr>px_byIP := mset_at addr i (px_byIP px)\<rparr>)
                | None \<Rightarrow> (Inr (), px\<lparr>px_byIP := mset_at addr i (px_byIP px)\<rparr>))))"

definition entryForIP :: "Proxy \<Rightarrow> u8 list \<Rightarrow> nat option" where
  "entryForIP px ip =
     (case AddrFromSlice ip of
        None \<Rightarrow> None
      | Some a \<Rightarrow> mget (px_byIP px) (Unmap a))"

section \<open>Counters and audit\<close>

text \<open>
  \<open>recordDeny\<close>: when the bucket table is full and the key is new, the function returns
  without releasing the entry's mutex.
\<close>

definition recordDeny :: "string \<Rightarrow> u32 \<Rightarrow> Entry \<Rightarrow> Entry" where
  "recordDeny protocol port e0 =
     (let e = e0\<lparr>e_denied := e_denied e0 + 1\<rparr>;
          key = protocol @ '':'' @ utoa (unat port) in
      if 32 \<le> length (e_bucket e) \<and> mget (e_bucket e) key = None then e\<lparr>e_locked := True\<rparr>
      else
        (let b = (case mget (e_bucket e) key of
                    Some b \<Rightarrow> b
                  | None \<Rightarrow> \<lparr>bs_protocol = protocol, bs_port = port, bs_denied = 0\<rparr>) in
         e\<lparr>e_bucket := mset_at key (b\<lparr>bs_denied := bs_denied b + 1\<rparr>) (e_bucket e)\<rparr>))"

record EgressAuditStats =
  eas_PolicyGeneration :: u64
  eas_Allowed :: u64
  eas_Denied :: u64
  eas_LimitRejections :: u64
  eas_DenyBuckets :: "bucketStat list"

definition Stats :: "Proxy \<Rightarrow> string \<Rightarrow> EgressAuditStats option" where
  "Stats px m =
     (case mget (px_byMach px) m of
        None \<Rightarrow> None
      | Some i \<Rightarrow>
          (let e = px_entry px i in
           Some \<lparr>eas_PolicyGeneration = pol_Generation (e_Policy e), eas_Allowed = e_allowed e,
                 eas_Denied = e_denied e, eas_LimitRejections = e_limitReject e,
                 eas_DenyBuckets = map snd (e_bucket e)\<rparr>))"

definition recordAudit :: "Entry \<Rightarrow> AuditRecord \<Rightarrow> AuditRecord list" where
  "recordAudit e r = (if ar_Allowed r \<and> \<not> AuditAll (e_Policy e) then [] else [r])"

definition protoLabel :: "nat \<Rightarrow> string" where
  "protoLabel idx = (if idx = 0 then ''http'' else ''tls'')"

definition protoPort :: "nat \<Rightarrow> u32" where
  "protoPort idx = (if idx = 0 then 80 else 443)"

section \<open>Dialling\<close>

fun first_ok :: "(Addr \<Rightarrow> bool) \<Rightarrow> Addr list \<Rightarrow> Addr option" where
  "first_ok dial [] = None"
| "first_ok dial (a # as) = (if dial a then Some a else first_ok dial as)"

definition dialFirst :: "(Addr \<Rightarrow> bool) \<Rightarrow> Addr list \<Rightarrow> Addr option" where
  "dialFirst dial addrs = first_ok dial (filter Is4 addrs @ filter (\<lambda>a. \<not> Is4 a) addrs)"

definition dialFor :: "(string \<Rightarrow> string \<Rightarrow> bool \<Rightarrow> Msg option) \<Rightarrow> int \<Rightarrow> int \<Rightarrow> (Addr \<Rightarrow> bool) \<Rightarrow> ReservedChecker \<Rightarrow>
    Policy \<Rightarrow> string \<Rightarrow> Resolver \<Rightarrow> (Addr option \<times> Decision) \<times> Resolver" where
  "dialFor exchange now now' dial rc policy host r =
     (if host = [] then ((None, DecideForProxied policy [] []), r)
      else
        (case Resolve exchange now now' host r of
           (Inl e, r') \<Rightarrow> ((None, decision False ''resolution_failed'' ''trusted resolution failed: ''), r')
         | (Inr addrs, r') \<Rightarrow>
             (let public = FilterPublic rc addrs in
              if public = [] then
                ((None, decision False ''reserved'' ''all resolved addresses are in reserved segments''), r')
              else
                (let d = DecideForProxied policy host public in
                 if \<not> Allow d then ((None, d), r')
                 else
                   (let dialSet = dialSetFor d public (AllowedCIDRs policy) in
                    if dialSet = [] then
                      ((None, \<lparr>Allow = False, MatchType = ''cidr_allowed'',
                               Reason = ''no resolved address inside allowed_cidrs'', CIDRAuthorized = True\<rparr>), r')
                    else
                      (case dialFirst dial dialSet of
                         None \<Rightarrow> ((None, decision False ''dial_failed'' ''connect to resolved set failed: ''), r')
                       | Some a \<Rightarrow> ((Some a, d\<lparr>Reason := Reason d @ '' (resolved '' @ Addr_String a @ '')''\<rparr>), r')))))))"

section \<open>A connection\<close>

definition base_record :: "Entry \<Rightarrow> nat \<Rightarrow> AuditRecord" where
  "base_record e idx =
     \<lparr>ar_ProjectID = e_ProjectID e, ar_AppID = e_AppID e, ar_MachineID = e_MachineID e,
      ar_ExecutionID = e_ExecutionID e, ar_PolicyGeneration = pol_Generation (e_Policy e),
      ar_Protocol = protoLabel idx, ar_Port = protoPort idx, ar_Host = [], ar_ResolvedIP = [],
      ar_Allowed = False, ar_MatchType = [], ar_Reason = []\<rparr>"

definition max_conns :: "Policy \<Rightarrow> nat" where
  "max_conns p = unat (MaxTCPConns p)"

text \<open>The limit check; \<open>True\<close> when the connection goes on. The counter is only touched when there is a limit.\<close>

definition enter :: "Entry \<Rightarrow> bool \<times> Entry" where
  "enter e =
     (let max = max_conns (e_Policy e) in
      if 0 < max then (e_active e + 1 \<le> int max, e\<lparr>e_active := e_active e + 1\<rparr>) else (True, e))"

definition leave :: "Entry \<Rightarrow> Entry" where
  "leave e = (if 0 < max_conns (e_Policy e) then e\<lparr>e_active := e_active e - 1\<rparr> else e)"

definition limit_reject :: "nat \<Rightarrow> Entry \<Rightarrow> Entry \<times> AuditRecord list" where
  "limit_reject idx e0 =
     (let e = recordDeny (protoLabel idx) (protoPort idx)
                (e0\<lparr>e_active := e_active e0 - 1, e_limitReject := e_limitReject e0 + 1\<rparr>) in
      (e, recordAudit e ((base_record e idx)\<lparr>ar_MatchType := ''connection_limit'',
            ar_Reason := ''per-execution tcp connection limit '' @ utoa (unat (MaxTCPConns (e_Policy e))) @ '' reached''\<rparr>)))"

text \<open>
  The rest of \<open>handle\<close> for an admitted connection. \<open>peek\<close> is \<open>None\<close> for a read error and the sniffed
  host otherwise (empty for no host information). The result is the address of the upstream
  connection that is relayed, if any.
\<close>

definition serve :: "(string \<Rightarrow> string \<Rightarrow> bool \<Rightarrow> Msg option) \<Rightarrow> int \<Rightarrow> int \<Rightarrow> (Addr \<Rightarrow> bool) \<Rightarrow> ReservedChecker \<Rightarrow>
    nat \<Rightarrow> string option \<Rightarrow> Entry \<Rightarrow> Resolver \<Rightarrow> Addr option \<times> Entry \<times> AuditRecord list \<times> Resolver" where
  "serve exchange now now' dial rc idx peek e r =
     (case peek of
        None \<Rightarrow>
          (let d = decision False ''mode_default'' ''fail closed''; e' = recordDeny (protoLabel idx) (protoPort idx) e in
           (None, e', recordAudit e' ((base_record e idx)\<lparr>ar_MatchType := MatchType d, ar_Reason := Reason d\<rparr>), r))
      | Some host \<Rightarrow>
          (let ((upstream, d), r') = dialFor exchange now now' dial rc (e_Policy e) host r;
               rec = (base_record e idx)\<lparr>ar_Host := host,
                       ar_ResolvedIP := (case upstream of None \<Rightarrow> [] | Some a \<Rightarrow> Addr_String a),
                       ar_MatchType := MatchType d, ar_Reason := Reason d, ar_Allowed := Allow d\<rparr> in
           if \<not> Allow d then
             (let e' = recordDeny (protoLabel idx) (protoPort idx) e in (None, e', recordAudit e' rec, r'))
           else
             (case upstream of
                None \<Rightarrow>
                  (let e' = recordDeny (protoLabel idx) (protoPort idx) e in
                   (None, e', recordAudit e' (rec\<lparr>ar_Allowed := False\<rparr>), r'))
              | Some a \<Rightarrow>
                  (let e' = e\<lparr>e_allowed := e_allowed e + 1\<rparr> in (Some a, e', recordAudit e' rec, r')))))"

definition handle :: "(string \<Rightarrow> string \<Rightarrow> bool \<Rightarrow> Msg option) \<Rightarrow> int \<Rightarrow> int \<Rightarrow> (Addr \<Rightarrow> bool) \<Rightarrow> ReservedChecker \<Rightarrow>
    nat \<Rightarrow> u8 list option \<Rightarrow> string option \<Rightarrow> Proxy \<Rightarrow> Resolver \<Rightarrow> Addr option \<times> AuditRecord list \<times> Proxy \<times> Resolver" where
  "handle exchange now now' dial rc idx remote peek px r =
     (case (case remote of None \<Rightarrow> None | Some ip \<Rightarrow> entryForIP px ip) of
        None \<Rightarrow> (None, [], px, r)
      | Some i \<Rightarrow>
          (case enter (px_entry px i) of
             (False, e) \<Rightarrow> (let (e', audit) = limit_reject idx e in (None, audit, update_entry i (\<lambda>_. e') px, r))
           | (True, e) \<Rightarrow>
               (let (up, e', audit, r') = serve exchange now now' dial rc idx peek e r in
                (up, audit, update_entry i (\<lambda>_. leave e') px, r'))))"

section \<open>The manager\<close>

text \<open>
  The data-plane engine is optional; \<open>apply_snap\<close> and \<open>remove_snap\<close> return whether the call
  succeeded and the engine's state.
\<close>

record 'd engine =
  apply_snap :: "string \<Rightarrow> PolicySnapshot \<Rightarrow> 'd \<Rightarrow> bool \<times> 'd"
  remove_snap :: "string \<Rightarrow> 'd \<Rightarrow> bool \<times> 'd"
  restore_snap :: "string \<Rightarrow> 'd \<Rightarrow> bool \<times> 'd"

definition removeLocked :: "'d engine option \<Rightarrow> string \<Rightarrow> Proxy \<times> 'd \<Rightarrow> (proxy_err + unit) \<times> Proxy \<times> 'd" where
  "removeLocked eng m s =
     (case s of (px, d) \<Rightarrow>
        (case eng of
           None \<Rightarrow> (Inr (), Unregister m px, d)
         | Some en \<Rightarrow>
             (case remove_snap en m d of
                (False, d') \<Rightarrow> (Inl ErrDatapath, px, d')
              | (True, d') \<Rightarrow> (Inr (), Unregister m px, d'))))"

definition manager_Apply :: "'d engine option \<Rightarrow> int \<Rightarrow> int \<Rightarrow> string \<Rightarrow> string \<Rightarrow> string \<Rightarrow> string \<Rightarrow> string \<Rightarrow> Policy option \<Rightarrow>
    Proxy \<times> 'd \<Rightarrow> (proxy_err + unit) \<times> Proxy \<times> 'd" where
  "manager_Apply eng port80 port443 m ex pr a guestIP policy s =
     (case s of (px, d) \<Rightarrow>
        (case policy of
           None \<Rightarrow> removeLocked eng m s
         | Some pol \<Rightarrow>
             (case stage m ex pr a guestIP policy px of
                (Inl e, px1) \<Rightarrow> (Inl e, px1, d)
              | (Inr st, px1) \<Rightarrow>
                  (let old = current px1 m in
                   case swap st px1 of
                     (Inl e, px2) \<Rightarrow> (Inl e, px2, d)
                   | (Inr _, px2) \<Rightarrow>
                       (case eng of
                          None \<Rightarrow> (Inr (), px2, d)
                        | Some en \<Rightarrow>
                            (case apply_snap en m (snapshotFor port80 port443 pol) d of
                               (True, d') \<Rightarrow> (Inr (), px2, d')
                             | (False, d') \<Rightarrow>
                                 (Inl ErrDatapath,
                                  (case old of Some os \<Rightarrow> snd (swap os px2) | None \<Rightarrow> Unregister m px2), d')))))))"

definition manager_Remove :: "'d engine option \<Rightarrow> string \<Rightarrow> Proxy \<times> 'd \<Rightarrow> (proxy_err + unit) \<times> Proxy \<times> 'd" where
  "manager_Remove eng m s = removeLocked eng m s"

definition manager_Restore :: "'d engine option \<Rightarrow> string \<Rightarrow> Proxy \<times> 'd \<Rightarrow> (proxy_err + unit) \<times> Proxy \<times> 'd" where
  "manager_Restore eng m s =
     (case s of (px, d) \<Rightarrow>
        (case eng of
           None \<Rightarrow> (Inr (), px, d)
         | Some en \<Rightarrow> (case restore_snap en m d of (b, d') \<Rightarrow> (if b then Inr () else Inl ErrDatapath, px, d'))))"

section \<open>What is dialled\<close>

lemma first_ok_in: "first_ok dial as = Some a \<Longrightarrow> a \<in> set as \<and> dial a"
  by (induction as) (auto split: if_splits)

lemma dialFirst_in: "dialFirst dial as = Some a \<Longrightarrow> a \<in> set as \<and> dial a"
  by (auto simp: dialFirst_def dest: first_ok_in)

lemma Allow_decision [simp]: "Allow (decision b m r) = b" "CIDRAuthorized (decision b m r) = False"
  by (simp_all add: decision_def)

lemma DecideForProxied_Allow:
  assumes "Allow (DecideForProxied p host res)"
  shows "\<not> list_ex (containsCIDR (DeniedCIDRs p)) res"
    and "pol_Mode p = ModeUnrestricted \<or> CIDRAuthorized (DecideForProxied p host res) \<or>
         pol_Mode p = ModeAllowlist \<and> matchesDomain p (NormalizeHost host)"
proof -
  have "\<not> list_ex (containsCIDR (DeniedCIDRs p)) res \<and>
      (pol_Mode p = ModeUnrestricted \<or> CIDRAuthorized (DecideForProxied p host res) \<or>
         pol_Mode p = ModeAllowlist \<and> matchesDomain p (NormalizeHost host))"
  proof (cases "list_ex (containsCIDR (DeniedCIDRs p)) res")
    case True
    with assms show ?thesis by (cases "pol_Mode p") (simp_all add: DecideForProxied_def Let_def)
  next
    case False
    with assms show ?thesis
      by (cases "pol_Mode p"; cases "list_ex (containsCIDR (AllowedCIDRs p)) res"; cases "NormalizeHost host = []";
          cases "res = []"; cases "matchesDomain p (NormalizeHost host)")
        (simp_all add: DecideForProxied_def Let_def)
  qed
  then show "\<not> list_ex (containsCIDR (DeniedCIDRs p)) res"
    and "pol_Mode p = ModeUnrestricted \<or> CIDRAuthorized (DecideForProxied p host res) \<or>
         pol_Mode p = ModeAllowlist \<and> matchesDomain p (NormalizeHost host)" by auto
qed

definition authorised :: "Policy \<Rightarrow> string \<Rightarrow> Addr \<Rightarrow> bool" where
  "authorised p host a \<longleftrightarrow> \<not> containsCIDR (DeniedCIDRs p) a \<and>
     (pol_Mode p = ModeUnrestricted \<or> containsCIDR (AllowedCIDRs p) a \<or>
      pol_Mode p = ModeAllowlist \<and> matchesDomain p (NormalizeHost host))"

lemma dialFor_sound:
  assumes "dialFor exchange now now' dial rc p host r = ((Some a, d), r')"
  shows "Allow d \<and> host \<noteq> [] \<and> \<not> IsReserved rc a \<and> authorised p host a \<and> dial a \<and>
    (\<exists>addrs. fst (Resolve exchange now now' host r) = Inr addrs \<and> a \<in> set addrs)"
proof -
  from assms obtain addrs where addrs: "Resolve exchange now now' host r = (Inr addrs, r')" and host: "host \<noteq> []"
    by (auto simp: dialFor_def Let_def split: if_splits prod.splits sum.splits option.splits)
  let ?pub = "FilterPublic rc addrs"
  let ?d = "DecideForProxied p host ?pub"
  from assms addrs host have allow: "Allow ?d" "Allow d"
    and a: "dialFirst dial (dialSetFor ?d ?pub (AllowedCIDRs p)) = Some a"
    by (auto simp: dialFor_def Let_def split: if_splits option.splits)
  from dialFirst_in [OF a] have "a \<in> set (dialSetFor ?d ?pub (AllowedCIDRs p))" "dial a" by auto
  then have pub: "a \<in> set ?pub" and cidr: "CIDRAuthorized ?d \<Longrightarrow> containsCIDR (AllowedCIDRs p) a"
    by (auto simp: dialSetFor_def filterPrefixes_def split: if_splits)
  then have "authorised p host a"
    using DecideForProxied_Allow [OF allow(1)] by (auto simp: authorised_def list_ex_iff)
  with pub addrs host allow \<open>dial a\<close> show ?thesis by (auto simp: FilterPublic_def)
qed

text \<open>
  Claim C28. What the proxy lets through: whatever the resolver and its cache answer, a connection is relayed only when
  its source is bound to a machine's entry, and then to an address of the answer that is not in a
  reserved segment, is not in the denied CIDRs of that entry's policy, and is authorised by the
  mode, by the allowed CIDRs, or by a domain rule for the host name in normal form.
\<close>

theorem handle_dials_authorised:
  assumes "handle exchange now now' dial rc idx remote peek px r = (Some a, audit, px', r')"
  shows "\<exists>ip i p host addrs. remote = Some ip \<and> entryForIP px ip = Some i \<and> p = e_Policy (px_entry px i) \<and>
    peek = Some host \<and> fst (Resolve exchange now now' host r) = Inr addrs \<and> a \<in> set addrs \<and>
    \<not> IsReserved rc a \<and> \<not> containsCIDR (DeniedCIDRs p) a \<and>
    (pol_Mode p = ModeUnrestricted \<or> containsCIDR (AllowedCIDRs p) a \<or>
     pol_Mode p = ModeAllowlist \<and> matchesDomain p (NormalizeHost host))"
proof -
  from assms obtain ip i where src: "remote = Some ip" "entryForIP px ip = Some i"
    by (auto simp: handle_def split: option.splits)
  obtain b e where en: "enter (px_entry px i) = (b, e)" by (cases "enter (px_entry px i)")
  then have pol: "e_Policy e = e_Policy (px_entry px i)"
    by (auto simp: enter_def Let_def split: if_splits)
  from assms src en obtain e' where "serve exchange now now' dial rc idx peek e r = (Some a, e', audit, r')"
    by (auto simp: handle_def Let_def split: bool.splits prod.splits)
  then obtain host d where "peek = Some host"
      "dialFor exchange now now' dial rc (e_Policy e) host r = ((Some a, d), r')"
    by (auto simp: serve_def Let_def split: option.splits if_splits prod.splits)
  with dialFor_sound [of exchange now now' dial rc "e_Policy e" host r a d r'] src pol show ?thesis
    by (auto simp: authorised_def)
qed

definition no_entries :: "nat \<Rightarrow> Entry" where
  "no_entries = (\<lambda>_. new_entry [] [] [] [] example_policy)"

definition empty_proxy :: Proxy where
  "empty_proxy = \<lparr>px_entry = no_entries, px_next = 0, px_byIP = [], px_byMach = []\<rparr>"

definition example_proxy :: Proxy where
  "example_proxy = \<lparr>px_entry = (no_entries)(0 := new_entry ''m1'' ''e1'' ''p'' ''a'' example_policy), px_next = 1,
     px_byIP = [(V4 0x0a640007, 0)], px_byMach = [(''m1'', 0)]\<rparr>"

definition example_resolver :: Resolver where
  "example_resolver = \<lparr>upstreams = [''9.9.9.9''], ttlCap = defaultTTLCap, res_cache = []\<rparr>"

text \<open>A DNS in which the names of one zone resolve to one public address and no other name exists.\<close>

definition one_zone :: "string \<Rightarrow> string \<Rightarrow> string \<Rightarrow> bool \<Rightarrow> Msg option" where
  "one_zone zone server name v6 =
     (if v6 then None
      else if HasSuffix name zone then Some \<lparr>Rcode = 0, Answer = [RR_A [93, 184, 216, 34] 30]\<rparr>
      else Some \<lparr>Rcode = 3, Answer = []\<rparr>)"

definition example_rc :: ReservedChecker where
  "example_rc = \<lparr>rc_extra = [Prefix (V4 0x0a640000) 16]\<rparr>"

definition outcome :: "string \<Rightarrow> string option \<Rightarrow> Addr option \<times> AuditRecord list \<times> Proxy \<times> Resolver" where
  "outcome zone peek =
     handle (one_zone zone) 0 0 (\<lambda>_. True) example_rc 1 (Some [10, 100, 0, 7]) peek example_proxy example_resolver"

lemma example_dials: "fst (outcome ''.example.com'' (Some ''www.example.com'')) = Some (V4 0x5db8d822)"
  by code_simp

theorem handle_dials_authorised_witness:
  "\<exists>ip i p host addrs. Some [10, 100, 0, 7] = Some ip \<and> entryForIP example_proxy ip = Some i \<and>
    p = e_Policy (px_entry example_proxy i) \<and> Some ''www.example.com'' = Some host \<and>
    fst (Resolve (one_zone ''.example.com'') 0 0 host example_resolver) = Inr addrs \<and> V4 0x5db8d822 \<in> set addrs \<and>
    \<not> IsReserved example_rc (V4 0x5db8d822) \<and> \<not> containsCIDR (DeniedCIDRs p) (V4 0x5db8d822)"
proof -
  obtain audit px' r' where "handle (one_zone ''.example.com'') 0 0 (\<lambda>_. True) example_rc 1 (Some [10, 100, 0, 7])
      (Some ''www.example.com'') example_proxy example_resolver = (Some (V4 0x5db8d822), audit, px', r')"
    using example_dials unfolding outcome_def by (metis prod.collapse)
  from handle_dials_authorised [OF this] show ?thesis by blast
qed

text \<open>
  The letters of a host name in normal form. \<open>bracketed a z y\<close> is the server name \<open>[a:z]y\<close>: what follows the bracket
  is neither empty nor a port, so the sniffer keeps \<open>a:z\<close> as it is.
\<close>

definition name_text :: "string \<Rightarrow> bool" where
  "name_text s \<longleftrightarrow> list_all (\<lambda>c. \<not> is_space c \<and> \<not> is_upper c \<and> c \<noteq> CHR '':'' \<and> c \<noteq> CHR ''['' \<and> c \<noteq> CHR '']'') s"

definition bracketed :: "string \<Rightarrow> string \<Rightarrow> string \<Rightarrow> string" where
  "bracketed a z y = ''['' @ a @ '':'' @ z @ '']'' @ y"

lemma name_textD:
  assumes "name_text s"
  shows "list_all (\<lambda>c. \<not> is_space c) s" "list_all (\<lambda>c. \<not> is_upper c) s" "CHR '':'' \<notin> set s" "CHR ''['' \<notin> set s" "CHR '']'' \<notin> set s"
  using assms by (auto simp: name_text_def list_all_iff)

lemma normalise_bracketed:
  assumes "name_text a" "name_text z" "list_all (\<lambda>c. \<not> is_space c) y" "y \<noteq> []" "hd y \<noteq> CHR '':''"
  shows "NormalizeHost (bracketed a z y) = a @ '':'' @ z"
proof -
  let ?h = "(CHR ''['' # a @ CHR '':'' # z) @ CHR '']'' # y"
  have b: "bracketed a z y = ?h" by (simp add: bracketed_def)
  have "TrimSpace ?h = ?h"
    using name_textD(1) [OF assms(1)] name_textD(1) [OF assms(2)] assms(3) by (intro TrimSpace_id) (simp add: is_space_def)
  moreover have "IndexByte ?h CHR '']'' = Some (Suc (length a + Suc (length z)))"
    using IndexByte_append [of "CHR '']''" "CHR ''['' # a @ CHR '':'' # z" y] name_textD(5) [OF assms(1)] name_textD(5) [OF assms(2)] by simp
  moreover have "ToLower (a @ CHR '':'' # z) = a @ CHR '':'' # z"
    using name_textD(2) [OF assms(1)] name_textD(2) [OF assms(2)] by (intro ToLower_id) (simp add: is_upper_def)
  ultimately show ?thesis using assms(4,5) unfolding b
    by (cases y) (simp_all add: NormalizeHost_def HasPrefix_def Let_def)
qed

lemma normalise_again:
  assumes "name_text a" "name_text z" "a \<noteq> []" "last a \<noteq> CHR ''.''"
  shows "NormalizeHost (a @ '':'' @ z) = a"
proof -
  let ?h = "a @ CHR '':'' # z"
  have "TrimSpace ?h = ?h"
    using name_textD(1) [OF assms(1)] name_textD(1) [OF assms(2)] by (intro TrimSpace_id) (simp add: is_space_def)
  moreover have "\<not> HasPrefix ?h ''[''" using name_textD(4) [OF assms(1)] assms(3) by (cases a) (auto simp: HasPrefix_def)
  moreover have "strip_port ?h = a" using name_textD(3) [OF assms(1)] name_textD(3) [OF assms(2)] assms(3)
    by (auto simp: strip_port_def CountByte_def filter_empty_conv)
  ultimately show ?thesis using assms(4) name_textD(2) [OF assms(1)]
    by (simp add: NormalizeHost_def Let_def TrimSuffix_dot_id ToLower_id)
qed

lemma domain_decision:
  assumes "pol_Mode p = ModeAllowlist" "NormalizeHost host \<noteq> []" "matchesDomain p (NormalizeHost host)" "addrs \<noteq> []"
    "\<not> list_ex (containsCIDR (DeniedCIDRs p)) addrs" "\<not> list_ex (containsCIDR (AllowedCIDRs p)) addrs"
  shows "DecideForProxied p host addrs = decision True ''domain'' ''host matches allowed_domains''"
  using assms by (simp add: DecideForProxied_def Let_def)

text \<open>
  Claim C40. The name that is authorised need not be the name that is resolved. Take any allowlist policy and any name \<open>a\<close> it
  has a rule for, and any further name \<open>z\<close>, of any zone. A guest sends the server name \<open>[a:z]y\<close>: the sniffer's
  normal form of it is \<open>a:z\<close>. The resolver looks \<open>a:z\<close> up as it is, and the zone that answers is that of \<open>z\<close>, while the decision
  strips what follows the colon once more and finds \<open>a\<close>. So whatever public addresses the answer holds, none of them denied and none of
  them in the allowed CIDRs, the connection is relayed to the first of them that accepts it.
\<close>

theorem allowlist_bypass:
  assumes "name_text a" "a \<noteq> []" "last a \<noteq> CHR ''.''" "name_text z" "list_all (\<lambda>c. \<not> is_space c) y" "y \<noteq> []" "hd y \<noteq> CHR '':''"
    and "entryForIP px ip = Some i" "fst (enter (px_entry px i))" "p = e_Policy (px_entry px i)"
    and "pol_Mode p = ModeAllowlist" "matchesDomain p a"
    and "Resolve exchange now now' (a @ '':'' @ z) r = (Inr addrs, r')" "public = FilterPublic rc addrs"
    and "\<not> list_ex (containsCIDR (DeniedCIDRs p)) public" "\<not> list_ex (containsCIDR (AllowedCIDRs p)) public"
    and "dialFirst dial public = Some b"
  shows "fst (handle exchange now now' dial rc idx (Some ip) (Some (NormalizeHost (bracketed a z y))) px r) = Some b"
proof -
  let ?host = "a @ '':'' @ z"
  have sniffed: "NormalizeHost (bracketed a z y) = ?host" using assms(1,4-7) by (rule normalise_bracketed)
  have again: "NormalizeHost ?host = a" using assms(1,4,2,3) by (rule normalise_again)
  have public: "public \<noteq> []" using assms(17) by (auto simp: dialFirst_def)
  have "DecideForProxied p ?host public = decision True ''domain'' ''host matches allowed_domains''"
    using assms(2,11,12,15,16) public by (intro domain_decision) (simp_all only: again not_False_eq_True)
  then have "\<exists>d. dialFor exchange now now' dial rc p ?host r = ((Some b, d), r') \<and> Allow d"
    using assms(13,14,17) public by (simp add: dialFor_def Let_def decision_def dialSetFor_def)
  then obtain d where "dialFor exchange now now' dial rc p ?host r = ((Some b, d), r')" "Allow d" by blast
  moreover obtain e where "enter (px_entry px i) = (True, e)" "e_Policy e = p"
    using assms(9,10) by (auto simp: enter_def Let_def split: if_splits)
  ultimately show ?thesis using assms(8) by (simp add: handle_def serve_def sniffed Let_def split: prod.splits)
qed

theorem allowlist_bypass_witness:
  "fst (outcome ''.evil.org'' (Some (NormalizeHost (bracketed ''api.test'' ''x.evil.org'' ''y'')))) = Some (V4 0x5db8d822) \<and>
   \<not> matchesDomain example_policy ''x.evil.org''"
proof -
  let ?ex = "one_zone ''.evil.org''" and ?host = "''api.test'' @ '':'' @ ''x.evil.org''"
  have "fst (Resolve ?ex 0 0 ?host example_resolver) = Inr [V4 0x5db8d822]" by code_simp
  then obtain r' where res: "Resolve ?ex 0 0 ?host example_resolver = (Inr [V4 0x5db8d822], r')" by (metis prod.collapse)
  have px: "entryForIP example_proxy [10, 100, 0, 7] = Some 0" "fst (enter (px_entry example_proxy 0))"
      "example_policy = e_Policy (px_entry example_proxy 0)" "pol_Mode example_policy = ModeAllowlist"
    by (code_simp, code_simp, simp add: example_proxy_def new_entry_def, code_simp)
  have pol: "matchesDomain example_policy ''api.test''" "\<not> matchesDomain example_policy ''x.evil.org''"
      "[V4 0x5db8d822] = FilterPublic example_rc [V4 0x5db8d822]"
      "\<not> list_ex (containsCIDR (DeniedCIDRs example_policy)) [V4 0x5db8d822]"
      "\<not> list_ex (containsCIDR (AllowedCIDRs example_policy)) [V4 0x5db8d822]"
      "dialFirst (\<lambda>_. True) [V4 0x5db8d822] = Some (V4 0x5db8d822)"
    by code_simp+
  have names: "name_text ''api.test''" "name_text ''x.evil.org''" "list_all (\<lambda>c. \<not> is_space c) ''y''" by code_simp+
  from allowlist_bypass [OF names(1) _ _ names(2,3) _ _ px pol(1) res pol(3-6)] pol(2)
  show ?thesis by (simp add: outcome_def)
qed

section \<open>The registry invariant\<close>

definition registry_ok :: "Proxy \<Rightarrow> bool" where
  "registry_ok px \<longleftrightarrow> gomap_ok (px_byIP px) \<and> gomap_ok (px_byMach px) \<and>
     (\<forall>m i. mget (px_byMach px) m = Some i \<longrightarrow> i < px_next px \<and> e_MachineID (px_entry px i) = m) \<and>
     (\<forall>a i. mget (px_byIP px) a = Some i \<longrightarrow> mget (px_byMach px) (e_MachineID (px_entry px i)) = Some i)"

lemma mget_drop_bindings:
  "gomap_ok m \<Longrightarrow> mget (drop_bindings x m) a = (if mget m a \<noteq> None \<and> mget m a = x then None else mget m a)"
  by (auto simp: drop_bindings_def mget_mkeep split: option.splits)

lemma gomap_ok_drop_bindings [simp]: "gomap_ok m \<Longrightarrow> gomap_ok (drop_bindings x m)"
  by (auto simp: drop_bindings_def split: option.splits)

definition alloc :: "Entry \<Rightarrow> Proxy \<Rightarrow> Proxy" where
  "alloc e px = px\<lparr>px_entry := (px_entry px)(px_next px := e), px_next := Suc (px_next px)\<rparr>"

lemma alloc_ok: "registry_ok px \<Longrightarrow> registry_ok (alloc e px)"
  unfolding registry_ok_def alloc_def by (auto simp: less_Suc_eq dest: less_imp_neq)

lemma stage_cases:
  obtains (fail) e where "stage m ex pr a g pol px = (Inl e, px)"
  | (ok) p addr where "pol = Some p" "\<not> newer_published px m ex (pol_Generation p)" "\<not> bound_elsewhere px addr m"
      "guest_addr g = Some addr"
      "stage m ex pr a g pol px = (Inr \<lparr>st_entry = px_next px, st_guestIP = addr\<rparr>, alloc (new_entry m ex pr a p) px)"
proof -
  let ?bad = "pol = None \<or> guest_addr g = None \<or> (\<exists>p b. pol = Some p \<and> guest_addr g = Some b \<and>
                 (newer_published px m ex (pol_Generation p) \<or> bound_elsewhere px b m))"
  show thesis
  proof (cases ?bad)
    case True
    then have "\<exists>e. stage m ex pr a g pol px = (Inl e, px)" by (auto simp: stage_def split: option.splits)
    then show thesis using fail by blast
  next
    case False
    then obtain p b where "pol = Some p" "guest_addr g = Some b" by auto
    with False ok [of p b] show thesis by (simp add: stage_def alloc_def)
  qed
qed

lemma stage_ok: "registry_ok px \<Longrightarrow> registry_ok (snd (stage m ex pr a g pol px))"
  by (rule stage_cases [of m ex pr a g pol px]) (auto simp: alloc_ok)

lemma stage_st: "stage m ex pr a g pol px = (Inr st, px') \<Longrightarrow> st_entry st < px_next px'"
  by (rule stage_cases [of m ex pr a g pol px]) (auto simp: alloc_def)

lemma swap_ok:
  assumes "registry_ok px" "st_entry st < px_next px"
  shows "registry_ok (snd (swap st px))"
proof (cases "fst (swap st px)")
  case (Inl e)
  then have "snd (swap st px) = px" by (auto simp: swap_def Let_def split: if_splits)
  with assms show ?thesis by simp
next
  case (Inr u)
  then show ?thesis
    using assms unfolding registry_ok_def swap_def Let_def bound_elsewhere_def
    by (auto simp: mget_drop_bindings split: if_splits option.splits) metis+
qed

lemma Unregister_ok: "registry_ok px \<Longrightarrow> registry_ok (Unregister m px)"
  by (auto simp: registry_ok_def Unregister_def mget_drop_bindings split: option.splits)

lemma BindIP_ok: "registry_ok px \<Longrightarrow> registry_ok (snd (BindIP g m px))"
  by (auto simp: registry_ok_def BindIP_def split: option.splits)

lemma update_entry_ok:
  "registry_ok px \<Longrightarrow> e_MachineID (f (px_entry px i)) = e_MachineID (px_entry px i) \<Longrightarrow> registry_ok (update_entry i f px)"
  by (simp add: registry_ok_def update_entry_def)

subsection \<open>The deny table\<close>

text \<open>The mutex of an entry is free and its deny table has only the two keys the proxy uses.\<close>

definition entry_ok :: "Entry \<Rightarrow> bool" where
  "entry_ok e \<longleftrightarrow> \<not> e_locked e \<and> set (map fst (e_bucket e)) \<subseteq> {''http:80'', ''tls:443''} \<and> gomap_ok (e_bucket e)"

lemma bucket_small: "entry_ok e \<Longrightarrow> length (e_bucket e) \<le> 2"
proof -
  assume e: "entry_ok e"
  then have "length (e_bucket e) = card (set (map fst (e_bucket e)))"
    by (simp only: entry_ok_def gomap_ok_def distinct_card length_map)
  also have "\<dots> \<le> card {''http:80'', ''tls:443''}"
    using e by (intro card_mono) (simp_all add: entry_ok_def)
  finally show ?thesis by simp
qed

lemma deny_key: "protoLabel idx @ '':'' @ utoa (unat (protoPort idx)) \<in> {''http:80'', ''tls:443''}"
proof -
  have "utoa 80 = ''80''" "utoa 443 = ''443''" by code_simp+
  then show ?thesis by (simp add: protoLabel_def protoPort_def)
qed

lemma set_map_fst_update: "set (map fst (mset_at k v m)) = insert k (set (map fst m))"
  by (induction m) auto

lemma recordDeny_ok: "entry_ok e \<Longrightarrow> entry_ok (recordDeny (protoLabel idx) (protoPort idx) e)"
proof -
  assume e: "entry_ok e"
  let ?k = "protoLabel idx @ '':'' @ utoa (unat (protoPort idx))"
  have "set (map fst (mset_at ?k v (e_bucket e))) \<subseteq> {''http:80'', ''tls:443''}" for v
    using e deny_key [of idx] set_map_fst_update [of ?k v "e_bucket e"] by (auto simp: entry_ok_def)
  with e bucket_small [OF e] show ?thesis by (simp add: recordDeny_def Let_def entry_ok_def)
qed

lemma recordDeny_keeps [simp]:
  "e_MachineID (recordDeny p q e) = e_MachineID e" "e_Policy (recordDeny p q e) = e_Policy e"
  "e_active (recordDeny p q e) = e_active e" "e_ExecutionID (recordDeny p q e) = e_ExecutionID e"
  by (simp_all add: recordDeny_def Let_def)

definition same_identity :: "Entry \<Rightarrow> Entry \<Rightarrow> bool" where
  "same_identity e e' \<longleftrightarrow> e_MachineID e' = e_MachineID e \<and> e_ExecutionID e' = e_ExecutionID e \<and> e_Policy e' = e_Policy e"

lemma entry_ok_counters [simp]:
  "entry_ok (e\<lparr>e_active := x\<rparr>) = entry_ok e" "entry_ok (e\<lparr>e_limitReject := y\<rparr>) = entry_ok e"
  "entry_ok (e\<lparr>e_allowed := y\<rparr>) = entry_ok e"
  by (simp_all add: entry_ok_def)

lemma serve_keeps:
  assumes "serve exchange now now' dial rc idx peek e r = (up, e', audit, r')"
  shows "same_identity e e' \<and> e_active e' = e_active e \<and> (entry_ok e \<longrightarrow> entry_ok e')"
  using assms
  by (auto simp: serve_def Let_def same_identity_def recordDeny_ok split: option.splits if_splits prod.splits)

lemma limit_reject_keeps:
  "same_identity e (fst (limit_reject idx e)) \<and> e_active (fst (limit_reject idx e)) = e_active e - 1 \<and>
   (entry_ok e \<longrightarrow> entry_ok (fst (limit_reject idx e)))"
  by (auto simp: limit_reject_def Let_def same_identity_def recordDeny_ok)

lemma enter_leave:
  "enter e = (b, e') \<Longrightarrow> same_identity e e' \<and> (entry_ok e \<longrightarrow> entry_ok e')"
  "same_identity e (leave e)" "entry_ok (leave e) = entry_ok e"
  by (auto simp: enter_def leave_def Let_def same_identity_def split: if_splits)

lemma same_identity_trans: "same_identity a b \<Longrightarrow> same_identity b c \<Longrightarrow> same_identity a c"
  by (simp add: same_identity_def)

text \<open>A connection, seen from the registry, updates one entry and keeps what identifies it.\<close>

lemma handle_updates:
  assumes "handle exchange now now' dial rc idx remote peek px r = (up, audit, px', r')"
  obtains "px' = px" | i e' where "px' = update_entry i (\<lambda>_. e') px" "same_identity (px_entry px i) e'"
    "entry_ok (px_entry px i) \<longrightarrow> entry_ok e'"
proof (cases "case remote of None \<Rightarrow> None | Some ip \<Rightarrow> entryForIP px ip")
  case None
  with assms have "px' = px" by (auto simp: handle_def)
  then show thesis by (rule that(1))
next
  case (Some i)
  obtain b e where en: "enter (px_entry px i) = (b, e)" by (cases "enter (px_entry px i)")
  note en' = enter_leave(1) [OF en]
  show thesis
  proof (cases b)
    case False
    with assms Some en have "px' = update_entry i (\<lambda>_. fst (limit_reject idx e)) px"
      by (auto simp: handle_def Let_def split: prod.splits)
    then show thesis
      using limit_reject_keeps [of e idx] en' same_identity_trans by (intro that(2)) auto
  next
    case True
    obtain up' e' au rr where sv: "serve exchange now now' dial rc idx peek e r = (up', e', au, rr)"
      by (cases "serve exchange now now' dial rc idx peek e r")
    with True assms Some en have "px' = update_entry i (\<lambda>_. leave e') px"
      by (auto simp: handle_def Let_def)
    then show thesis
      using serve_keeps [OF sv] en' enter_leave(2,3) [of e'] same_identity_trans by (intro that(2)) blast+
  qed
qed

subsection \<open>Reachable registries\<close>

type_synonym snapshots = "(string, PolicySnapshot) gomap"

inductive proxy_step :: "Proxy \<Rightarrow> Proxy \<Rightarrow> bool" where
  register: "proxy_step px (snd (Register m ex pr a pol px))"
| bind: "proxy_step px (snd (BindIP g m px))"
| unregister: "proxy_step px (Unregister m px)"
| apply_policy: "manager_Apply (eng :: snapshots engine option) port80 port443 m ex pr a g pol (px, d) = (res, px', d') \<Longrightarrow> proxy_step px px'"
| remove: "manager_Remove (eng :: snapshots engine option) m (px, d) = (res, px', d') \<Longrightarrow> proxy_step px px'"
| connection: "handle exchange now now' dial rc idx remote peek px r = (up, audit, px', r') \<Longrightarrow> proxy_step px px'"

definition proxy_ok :: "Proxy \<Rightarrow> bool" where
  "proxy_ok px \<longleftrightarrow> registry_ok px \<and> (\<forall>i. entry_ok (px_entry px i))"

lemma stage_proxy_ok: "proxy_ok px \<Longrightarrow> proxy_ok (snd (stage m ex pr a g pol px))"
  by (rule stage_cases [of m ex pr a g pol px])
     (auto simp: proxy_ok_def alloc_ok, simp add: alloc_def new_entry_def entry_ok_def)

lemma swap_entries [simp]: "px_entry (snd (swap st px)) = px_entry px" "px_next (snd (swap st px)) = px_next px"
  by (auto simp: swap_def Let_def)

lemma swap_proxy_ok: "proxy_ok px \<Longrightarrow> st_entry st < px_next px \<Longrightarrow> proxy_ok (snd (swap st px))"
  by (simp add: proxy_ok_def swap_ok)

lemma Unregister_proxy_ok: "proxy_ok px \<Longrightarrow> proxy_ok (Unregister m px)"
  by (auto simp: proxy_ok_def Unregister_ok) (simp add: Unregister_def split: option.splits)

lemma BindIP_proxy_ok: "proxy_ok px \<Longrightarrow> proxy_ok (snd (BindIP g m px))"
  by (auto simp: proxy_ok_def BindIP_ok) (simp add: BindIP_def split: option.splits)

lemma current_st: "registry_ok px \<Longrightarrow> current px m = Some st \<Longrightarrow> st_entry st < px_next px"
  by (auto simp: current_def registry_ok_def split: option.splits)

lemma stage_swap_proxy_ok:
  assumes "proxy_ok px" "stage m ex pr a g pol px = (Inr st, px1)"
  shows "proxy_ok px1" "proxy_ok (snd (swap st px1))"
  using stage_proxy_ok [OF assms(1), of m ex pr a g pol] stage_st [OF assms(2)] assms(2)
  by (auto intro: swap_proxy_ok)

lemma Register_proxy_ok: "proxy_ok px \<Longrightarrow> proxy_ok (snd (Register m ex pr a pol px))"
proof -
  assume ok: "proxy_ok px"
  obtain g where g: "g = (if IsValid (ipForMachine px m) then Addr_String (ipForMachine px m) else [])" by blast
  obtain sr px1 where st: "stage m ex pr a g pol px = (sr, px1)" by (cases "stage m ex pr a g pol px")
  show ?thesis
  proof (cases sr)
    case (Inl e)
    with st ok stage_proxy_ok [OF ok, of m ex pr a g pol] show ?thesis
      by (simp add: Register_def Let_def Unregister_proxy_ok flip: g)
  next
    case (Inr se)
    with st ok stage_swap_proxy_ok(2) [OF ok st [unfolded Inr]] show ?thesis
      by (simp add: Register_def Let_def Unregister_proxy_ok flip: g)
  qed
qed

lemma removeLocked_proxy_ok:
  "proxy_ok px \<Longrightarrow> removeLocked eng m (px, d) = (res, px', d') \<Longrightarrow> proxy_ok px'"
  by (auto simp: removeLocked_def Unregister_proxy_ok split: option.splits prod.splits bool.splits)

lemma manager_Apply_proxy_ok:
  assumes ok: "proxy_ok px" and run: "manager_Apply eng port80 port443 m ex pr a g pol (px, d) = (res, px', d')"
  shows "proxy_ok px'"
proof (cases pol)
  case None
  with assms show ?thesis by (auto simp: manager_Apply_def removeLocked_proxy_ok)
next
  case (Some p)
  obtain sr px1 where st: "stage m ex pr a g pol px = (sr, px1)" by (cases "stage m ex pr a g pol px")
  show ?thesis
  proof (cases sr)
    case (Inl e)
    with run Some st stage_proxy_ok [OF ok, of m ex pr a g pol] show ?thesis by (auto simp: manager_Apply_def)
  next
    case (Inr se)
    note ok12 = stage_swap_proxy_ok [OF ok st [unfolded Inr]]
    have "proxy_ok (snd (swap os (snd (swap se px1))))" if "current px1 m = Some os" for os
      using ok12(1) current_st [OF _ that] by (intro swap_proxy_ok [OF ok12(2)]) (simp add: proxy_ok_def)
    with run Some st Inr ok12 Unregister_proxy_ok [OF ok12(2), of m] show ?thesis
      by (auto simp: manager_Apply_def Let_def split: sum.splits option.splits prod.splits bool.splits)
  qed
qed

lemma handle_proxy_ok:
  assumes "proxy_ok px" "handle exchange now now' dial rc idx remote peek px r = (up, audit, px', r')"
  shows "proxy_ok px'"
  using assms(2)
proof (cases rule: handle_updates)
  case (2 i e')
  with assms(1) update_entry_ok [of px "\<lambda>_. e'" i] show ?thesis
    by (auto simp: proxy_ok_def same_identity_def) (simp add: update_entry_def)
qed (use assms in simp)

lemma proxy_step_ok: "proxy_step px px' \<Longrightarrow> proxy_ok px \<Longrightarrow> proxy_ok px'"
  by (induction rule: proxy_step.induct)
     (auto simp: manager_Remove_def intro: Register_proxy_ok BindIP_proxy_ok Unregister_proxy_ok
       manager_Apply_proxy_ok removeLocked_proxy_ok handle_proxy_ok)

lemma empty_proxy_ok: "proxy_ok empty_proxy"
  by (simp add: proxy_ok_def registry_ok_def empty_proxy_def no_entries_def new_entry_def entry_ok_def)

lemma reachable_proxy_ok: "proxy_step\<^sup>*\<^sup>* empty_proxy px \<Longrightarrow> proxy_ok px"
  by (induction rule: rtranclp_induct) (auto simp: empty_proxy_ok intro: proxy_step_ok)

text \<open>
  Claim C36. No connection is judged by a superseded policy: after any sequence of registrations,
  policy publications (failed ones included), IP bindings, removals and connections, the
  entry found for a source address is the entry currently published for its machine, so the
  policy applied is the one published last. The entry's mutex is free, although \<open>recordDeny\<close>
  has a return that would leave it locked.
\<close>

theorem connection_uses_published_policy:
  assumes "proxy_step\<^sup>*\<^sup>* empty_proxy px" "entryForIP px ip = Some i"
  shows "mget (px_byMach px) (e_MachineID (px_entry px i)) = Some i \<and> \<not> e_locked (px_entry px i)"
  using reachable_proxy_ok [OF assms(1)] assms(2)
  by (auto simp: proxy_ok_def registry_ok_def entry_ok_def entryForIP_def split: option.splits)

definition two_policies :: Proxy where
  "two_policies =
     snd (BindIP ''10.100.0.7'' ''m1''
       (snd (Register ''m1'' ''e1'' ''p'' ''a'' (Some (example_policy\<lparr>pol_Generation := 8\<rparr>))
         (snd (Register ''m1'' ''e1'' ''p'' ''a'' (Some example_policy) empty_proxy)))))"

lemma two_policies_reachable: "proxy_step\<^sup>*\<^sup>* empty_proxy two_policies"
  unfolding two_policies_def
  by (rule rtranclp.rtrancl_into_rtrancl, rule rtranclp.rtrancl_into_rtrancl,
      rule r_into_rtranclp, rule register, rule register, rule bind)

lemma two_policies_entry: "entryForIP two_policies [10, 100, 0, 7] = Some 1"
  by code_simp

theorem connection_uses_published_policy_witness:
  "mget (px_byMach two_policies) (e_MachineID (px_entry two_policies 1)) = Some 1 \<and> \<not> e_locked (px_entry two_policies 1)"
  by (rule connection_uses_published_policy [OF two_policies_reachable two_policies_entry])

section \<open>The connection limit\<close>

text \<open>
  Connections of one entry run concurrently; only the atomic additions of the active counter are
  ordered. A connection that finds the counter above the limit undoes its addition in a
  second step. \<open>admitted\<close> and \<open>undoing\<close> count the connections being served and those between
  the two steps of a refusal.
\<close>

record gate =
  g_entry :: Entry
  admitted :: nat
  undoing :: nat

inductive gate_step :: "gate \<Rightarrow> gate \<Rightarrow> bool" where
  admit: "enter (g_entry g) = (True, e) \<Longrightarrow> gate_step g (g\<lparr>g_entry := e, admitted := Suc (admitted g)\<rparr>)"
| over: "enter (g_entry g) = (False, e) \<Longrightarrow> gate_step g (g\<lparr>g_entry := e, undoing := Suc (undoing g)\<rparr>)"
| undo: "undoing g = Suc n \<Longrightarrow> gate_step g (g\<lparr>g_entry := fst (limit_reject idx (g_entry g)), undoing := n\<rparr>)"
| served: "admitted g = Suc n \<Longrightarrow> serve exchange now now' dial rc idx peek (g_entry g) r = (up, e, audit, r') \<Longrightarrow>
     gate_step g (g\<lparr>g_entry := leave e, admitted := n\<rparr>)"

definition gate_inv :: "Policy \<Rightarrow> gate \<Rightarrow> bool" where
  "gate_inv p g \<longleftrightarrow> e_Policy (g_entry g) = p \<and>
     (0 < max_conns p \<longrightarrow>
        e_active (g_entry g) = int (admitted g + undoing g) \<and> admitted g \<le> max_conns p)"

lemma gate_step_inv: "gate_step g g' \<Longrightarrow> gate_inv p g \<Longrightarrow> gate_inv p g'"
proof (induction rule: gate_step.induct)
  case (undo g n idx)
  then show ?case using limit_reject_keeps [of "g_entry g" idx] by (auto simp: gate_inv_def same_identity_def)
next
  case (served g n exchange now now' dial rc idx peek r up e audit r')
  then show ?case using serve_keeps [OF served(2)] by (auto simp: gate_inv_def same_identity_def leave_def)
qed (auto simp: gate_inv_def enter_def Let_def split: if_splits)

text \<open>
  The connection limit: under any interleaving of the atomic steps of arriving, refused and
  finishing connections, at most \<open>MaxTCPConns\<close> connections of an execution are served at a
  time, and a connection is refused only when as many are being served or refused at that
  moment. When all are gone the counter is back at zero.
\<close>

lemma connection_limit:
  assumes "gate_step\<^sup>*\<^sup>* \<lparr>g_entry = new_entry m ex pr a p, admitted = 0, undoing = 0\<rparr> g" "0 < max_conns p"
  shows "admitted g \<le> max_conns p \<and>
    (fst (enter (g_entry g)) \<longleftrightarrow> admitted g + undoing g < max_conns p) \<and>
    (admitted g = 0 \<and> undoing g = 0 \<longrightarrow> e_active (g_entry g) = 0)"
proof -
  have "gate_inv p g" using assms(1)
  proof (induction rule: rtranclp_induct)
    case base
    show ?case by (simp add: gate_inv_def new_entry_def)
  qed (rule gate_step_inv)
  with assms(2) show ?thesis by (auto simp: gate_inv_def enter_def Let_def)
qed

definition full_gate :: gate where
  "full_gate = \<lparr>g_entry = (new_entry ''m1'' ''e1'' ''p'' ''a'' example_policy)\<lparr>e_active := 2\<rparr>, admitted = 2, undoing = 0\<rparr>"

lemma full_gate_reachable:
  "gate_step\<^sup>*\<^sup>* \<lparr>g_entry = new_entry ''m1'' ''e1'' ''p'' ''a'' example_policy, admitted = 0, undoing = 0\<rparr> full_gate"
proof -
  let ?e = "new_entry ''m1'' ''e1'' ''p'' ''a'' example_policy"
  let ?g = "\<lambda>e n. \<lparr>g_entry = e, admitted = n, undoing = 0\<rparr>"
  have 1: "enter (g_entry (?g ?e 0)) = (True, ?e\<lparr>e_active := 1\<rparr>)" by code_simp
  have 2: "enter (g_entry (?g (?e\<lparr>e_active := 1\<rparr>) 1)) = (True, ?e\<lparr>e_active := 2\<rparr>)" by code_simp
  have "gate_step (?g ?e 0) (?g (?e\<lparr>e_active := 1\<rparr>) 1)" using gate_step.admit [OF 1] by simp
  moreover have "gate_step (?g (?e\<lparr>e_active := 1\<rparr>) 1) full_gate"
    using gate_step.admit [OF 2] by (simp add: full_gate_def numeral_2_eq_2)
  ultimately show ?thesis by (meson rtranclp.rtrancl_into_rtrancl r_into_rtranclp)
qed

lemma connection_limit_witness:
  "admitted full_gate \<le> 2 \<and> fst (enter (g_entry full_gate)) = False \<and> 0 < max_conns example_policy"
proof -
  have m: "max_conns example_policy = 2" by (simp add: example_policy_def max_conns_def)
  with connection_limit [OF full_gate_reachable] show ?thesis by (simp add: full_gate_def)
qed

section \<open>Publication and roll-back\<close>

definition published :: "Proxy \<Rightarrow> string \<Rightarrow> Entry option" where
  "published px m = map_option (px_entry px) (mget (px_byMach px) m)"

lemma ipForMachine_bound:
  assumes "registry_ok px" "mget (px_byMach px) m = Some i" "IsValid (ipForMachine px m)"
  shows "mget (px_byIP px) (ipForMachine px m) = Some i"
proof -
  let ?f = "filter (\<lambda>(ip, j). j = i) (px_byIP px)"
  have "?f \<noteq> []" using assms by (auto simp: ipForMachine_def IsValid_def)
  then have hd: "hd ?f \<in> set ?f" by (rule hd_in_set)
  have "x \<in> set ?f \<Longrightarrow> snd x = i" for x by auto
  then obtain ip where ip: "hd ?f = (ip, i)" using hd by (metis prod.collapse)
  then obtain rest where "?f = (ip, i) # rest" using \<open>?f \<noteq> []\<close> by (metis list.collapse)
  then have f: "ipForMachine px m = ip" using assms(2) by (simp add: ipForMachine_def)
  have "(ip, i) \<in> set (px_byIP px)" using hd unfolding ip by simp
  with assms(1) f show ?thesis by (simp add: registry_ok_def gomap_ok_def)
qed

text \<open>The first swap of \<open>Apply\<close> succeeds whenever staging did, since nothing runs in between.\<close>

lemma swap_staged:
  assumes ok: "registry_ok px" and new: "e_MachineID e = m" "\<not> newer_published px m (e_ExecutionID e) (pol_Generation (e_Policy e))"
    "\<not> bound_elsewhere px addr m"
  defines "px1 \<equiv> alloc e px"
  shows "swap \<lparr>st_entry = px_next px, st_guestIP = addr\<rparr> px1 =
    (Inr (), px1\<lparr>px_byMach := mset_at m (px_next px) (px_byMach px),
       px_byIP := (let b = drop_bindings (mget (px_byMach px) m) (px_byIP px) in
                   if IsValid addr then mset_at addr (px_next px) b else b)\<rparr>)"
proof -
  have old: "mget (px_byMach px) m' = Some i \<Longrightarrow> px_entry px1 i = px_entry px i"
    "mget (px_byIP px) b = Some i \<Longrightarrow> px_entry px1 i = px_entry px i" for i m' b
    using ok by (auto simp: px1_def alloc_def registry_ok_def)
  have e: "px_entry px1 (px_next px) = e" by (simp add: px1_def alloc_def)
  have maps: "px_byMach px1 = px_byMach px" "px_byIP px1 = px_byIP px" by (simp_all add: px1_def alloc_def)
  have "\<not> newer_published px1 m (e_ExecutionID e) (pol_Generation (e_Policy e))"
    using new(2) old by (auto simp: newer_published_def maps split: option.splits)
  moreover have "\<not> bound_elsewhere px1 addr m"
    using new(3) old by (auto simp: bound_elsewhere_def maps split: option.splits)
  ultimately show ?thesis by (simp add: swap_def Let_def e new(1) maps)
qed

lemma published_swapped:
  "published (px\<lparr>px_byMach := mset_at m i bm, px_byIP := bi\<rparr>) m = Some (px_entry px i)"
  by (simp add: published_def)

text \<open>
  A successful \<open>Apply\<close> publishes what was asked for: the machine's entry has the
  execution and the policy of the call and fresh counters, connections from the guest address find
  it, and the data plane was given the snapshot of that policy.
\<close>

lemma manager_Apply_success:
  assumes "registry_ok px"
    "manager_Apply (Some en) port80 port443 m ex pr a g (Some p) (px, d) = (Inr (), px', d')"
  shows "published px' m = Some (new_entry m ex pr a p) \<and>
    apply_snap en m (snapshotFor port80 port443 p) d = (True, d') \<and>
    (\<exists>addr i. guest_addr g = Some addr \<and> px_entry px' i = new_entry m ex pr a p \<and>
       (IsValid addr \<longrightarrow> mget (px_byIP px') addr = Some i))"
proof -
  let ?e = "new_entry m ex pr a p"
  show ?thesis
  proof (rule stage_cases [of m ex pr a g "Some p" px])
    fix e assume "stage m ex pr a g (Some p) px = (Inl e, px)"
    with assms(2) show ?thesis by (simp add: manager_Apply_def)
  next
    fix p' addr
    assume st: "Some p = Some p'" "\<not> newer_published px m ex (pol_Generation p')" "\<not> bound_elsewhere px addr m"
      "guest_addr g = Some addr"
      "stage m ex pr a g (Some p) px = (Inr \<lparr>st_entry = px_next px, st_guestIP = addr\<rparr>, alloc (new_entry m ex pr a p') px)"
    have sw: "swap \<lparr>st_entry = px_next px, st_guestIP = addr\<rparr> (alloc ?e px) =
      (Inr (), (alloc ?e px)\<lparr>px_byMach := mset_at m (px_next px) (px_byMach px),
         px_byIP := (let b = drop_bindings (mget (px_byMach px) m) (px_byIP px) in
                     if IsValid addr then mset_at addr (px_next px) b else b)\<rparr>)"
      using st(1-3) by (intro swap_staged [OF assms(1)]) (simp_all add: new_entry_def)
    show ?thesis
      using assms(2) st sw
      by (auto simp: manager_Apply_def Let_def published_def alloc_def split: prod.splits bool.splits)
  qed
qed

text \<open>
  What is published after the data plane refused a policy that replaces one of the same
  machine: the replaced entry again if it was of another execution or of the same generation, but the refused
  policy itself if it was a newer generation for the same execution. The roll-back
  is itself a \<open>swap\<close>, and the generation fence of \<open>swap\<close> refuses to go back.
\<close>

lemma manager_Apply_failure:
  assumes ok: "registry_ok px" and old: "mget (px_byMach px) m = Some i"
    and staged: "fst (stage m ex pr a g (Some p) px) = Inr st"
    and refused: "apply_snap en m (snapshotFor port80 port443 p) d = (False, d')"
  shows "\<exists>px'. manager_Apply (Some en) port80 port443 m ex pr a g (Some p) (px, d) = (Inl ErrDatapath, px', d') \<and>
    published px' m =
      (if e_ExecutionID (px_entry px i) = ex \<and> pol_Generation (e_Policy (px_entry px i)) < pol_Generation p
       then Some (new_entry m ex pr a p) else Some (px_entry px i))"
proof -
  let ?e = "new_entry m ex pr a p" and ?n = "px_next px"
  from staged obtain addr where st: "\<not> newer_published px m ex (pol_Generation p)" "\<not> bound_elsewhere px addr m"
      "stage m ex pr a g (Some p) px = (Inr \<lparr>st_entry = ?n, st_guestIP = addr\<rparr>, alloc ?e px)"
    by (rule_tac stage_cases [of m ex pr a g "Some p" px]) auto
  define px2 where "px2 = (alloc ?e px)\<lparr>px_byMach := mset_at m ?n (px_byMach px),
         px_byIP := (let b = drop_bindings (Some i) (px_byIP px) in if IsValid addr then mset_at addr ?n b else b)\<rparr>"
  have sw: "swap \<lparr>st_entry = ?n, st_guestIP = addr\<rparr> (alloc ?e px) = (Inr (), px2)"
    unfolding px2_def old [symmetric] using st(1,2) by (intro swap_staged [OF ok]) (simp_all add: new_entry_def)
  define oip where "oip = ipForMachine px m"
  have cur: "current (alloc ?e px) m = Some \<lparr>st_entry = i, st_guestIP = oip\<rparr>"
    by (simp add: current_def alloc_def old oip_def ipForMachine_def)
  have run: "manager_Apply (Some en) port80 port443 m ex pr a g (Some p) (px, d) =
      (Inl ErrDatapath, snd (swap \<lparr>st_entry = i, st_guestIP = oip\<rparr> px2), d')"
    by (simp add: manager_Apply_def st(3) sw cur refused)
  have i: "i < ?n" "e_MachineID (px_entry px i) = m" using ok old by (auto simp: registry_ok_def)
  then have ents: "px_entry px2 i = px_entry px i" "px_entry px2 ?n = ?e"
    by (simp_all add: px2_def alloc_def)
  have newer: "newer_published px2 m (e_ExecutionID (px_entry px i)) (pol_Generation (e_Policy (px_entry px i))) \<longleftrightarrow>
      e_ExecutionID (px_entry px i) = ex \<and> pol_Generation (e_Policy (px_entry px i)) < pol_Generation p"
    by (auto simp: newer_published_def px2_def alloc_def new_entry_def)
  have "\<not> bound_elsewhere px2 oip m"
  proof (cases "IsValid oip")
    case True
    then have "mget (px_byIP px) oip = Some i" using ipForMachine_bound [OF ok old] by (simp add: oip_def)
    then have "mget (px_byIP px2) oip = (if IsValid addr \<and> oip = addr then Some ?n else None)"
      using ok by (auto simp: px2_def Let_def mget_drop_bindings registry_ok_def)
    then show ?thesis using ents(2) by (auto simp: bound_elsewhere_def new_entry_def)
  qed (auto simp: bound_elsewhere_def split: option.splits)
  then have "published (snd (swap \<lparr>st_entry = i, st_guestIP = oip\<rparr> px2)) m =
      (if newer_published px2 m (e_ExecutionID (px_entry px i)) (pol_Generation (e_Policy (px_entry px i)))
       then Some ?e else Some (px_entry px i))"
    using ents i by (simp add: swap_def Let_def published_swapped) (simp add: published_def px2_def alloc_def)
  with run newer show ?thesis by simp
qed

definition refusing :: "snapshots engine" where
  "refusing = \<lparr>apply_snap = (\<lambda>_ _ d. (False, d)), remove_snap = (\<lambda>_ d. (False, d)), restore_snap = (\<lambda>_ d. (False, d))\<rparr>"

definition accepting :: "snapshots engine" where
  "accepting = \<lparr>apply_snap = (\<lambda>m s d. (True, mset_at m s d)), remove_snap = (\<lambda>m d. (True, mdel m d)),
     restore_snap = (\<lambda>_ d. (True, d))\<rparr>"

lemma example_registry: "registry_ok example_proxy"
  by (simp add: registry_ok_def example_proxy_def new_entry_def gomap_ok_def)

definition next_policy :: Policy where
  "next_policy = example_policy\<lparr>pol_Generation := 8\<rparr>"

lemma example_refused:
  "fst (stage ''m1'' ''e1'' ''p'' ''a'' ''10.100.0.7'' (Some next_policy) example_proxy) = Inr \<lparr>st_entry = 1, st_guestIP = V4 0x0a640007\<rparr>"
  "mget (px_byMach example_proxy) ''m1'' = Some 0"
  by code_simp+

lemma manager_Apply_failure_witness:
  "\<exists>px'. manager_Apply (Some refusing) 18080 18443 ''m1'' ''e1'' ''p'' ''a'' ''10.100.0.7'' (Some next_policy) (example_proxy, []) =
       (Inl ErrDatapath, px', []) \<and> published px' ''m1'' = Some (new_entry ''m1'' ''e1'' ''p'' ''a'' next_policy)"
proof -
  have "apply_snap refusing ''m1'' (snapshotFor 18080 18443 next_policy) [] = (False, [])" by (simp add: refusing_def)
  from manager_Apply_failure [OF example_registry example_refused(2) example_refused(1) this] show ?thesis
    by (simp add: example_proxy_def new_entry_def next_policy_def example_policy_def)
qed

lemma example_accepted:
  "case manager_Apply (Some accepting) 18080 18443 ''m1'' ''e1'' ''p'' ''a'' ''10.100.0.7'' (Some next_policy) (example_proxy, []) of
     (r, px', d') \<Rightarrow> r = Inr () \<and> map fst d' = [''m1'']"
  by code_simp

lemma manager_Apply_success_witness:
  "\<exists>px' d'. manager_Apply (Some accepting) 18080 18443 ''m1'' ''e1'' ''p'' ''a'' ''10.100.0.7'' (Some next_policy) (example_proxy, []) =
       (Inr (), px', d') \<and> published px' ''m1'' = Some (new_entry ''m1'' ''e1'' ''p'' ''a'' next_policy)"
proof -
  obtain px' d' where run: "manager_Apply (Some accepting) 18080 18443 ''m1'' ''e1'' ''p'' ''a'' ''10.100.0.7''
      (Some next_policy) (example_proxy, []) = (Inr (), px', d')"
    using example_accepted by (auto split: prod.splits)
  with manager_Apply_success [OF example_registry run] show ?thesis by blast
qed

end
