(* ===== verification/Sniff.thy ===== *)
theory Sniff
  imports Egress
begin

text \<open>
  The first-packet sniffers of the egress proxy (\<open>internal/agent/egress/sniff.go\<close>): the HTTP \<open>Host\<close>
  header and the server name of a TLS \<open>ClientHello\<close>. The connection is the list of the bytes
  that will arrive and how it ends. Slice and index expressions that would panic out of range
  are \<open>None\<close>, so that the absence of panics is a theorem and not an assumption.
\<close>

section \<open>Bytes\<close>

definition slice :: "'a list \<Rightarrow> nat \<Rightarrow> nat \<Rightarrow> 'a list option" where
  "slice bs i j = (if i \<le> j \<and> j \<le> length bs then Some (take (j - i) (drop i bs)) else None)"

definition byte_at :: "u8 list \<Rightarrow> nat \<Rightarrow> u8 option" where
  "byte_at bs i = (if i < length bs then Some (bs ! i) else None)"

text \<open>\<open>binary.BigEndian.Uint16(bs[i:i+2])\<close>.\<close>

definition uint16_at :: "u8 list \<Rightarrow> nat \<Rightarrow> nat option" where
  "uint16_at bs i =
     (case slice bs i (i + 2) of
        Some [a, b] \<Rightarrow> Some (unat a * 256 + unat b)
      | _ \<Rightarrow> None)"

definition text_of :: "u8 list \<Rightarrow> string" where
  "text_of bs = map (\<lambda>b. char_of (unat b)) bs"

section \<open>Server name extension\<close>

text \<open>
  The results \<open>Some h\<close> and \<open>None\<close> inside the outer option stand for \<open>(h, true)\<close> and \<open>("", false)\<close>.
\<close>

function name_loop :: "u8 list \<Rightarrow> nat \<Rightarrow> string option option" where
  "name_loop xs i =
     (if i + 3 \<le> length xs then
        (case byte_at xs i of
           None \<Rightarrow> None
         | Some nameType \<Rightarrow>
             (case uint16_at xs (i + 1) of
                None \<Rightarrow> None
              | Some nameLen \<Rightarrow>
                  (if length xs < i + 3 + nameLen then Some None
                   else if nameType = 0 then
                     (case slice xs (i + 3) (i + 3 + nameLen) of
                        None \<Rightarrow> None
                      | Some h \<Rightarrow> if h \<noteq> [] then Some (Some (text_of h)) else name_loop xs (i + 3 + nameLen))
                   else name_loop xs (i + 3 + nameLen))))
      else Some None)"
  by pat_completeness auto

termination name_loop
  by (relation "measure (\<lambda>(xs, i). length xs - i)") auto

declare name_loop.simps [simp del]

definition parseServerNameExt :: "u8 list \<Rightarrow> string option option" where
  "parseServerNameExt ext =
     (if length ext < 5 then Some None
      else case uint16_at ext 0 of
        None \<Rightarrow> None
      | Some listLen \<Rightarrow>
          if length ext < listLen + 2 then Some None
          else (case slice ext 2 (2 + listLen) of None \<Rightarrow> None | Some xs \<Rightarrow> name_loop xs 0))"

section \<open>ClientHello\<close>

function ext_loop :: "u8 list \<Rightarrow> nat \<Rightarrow> nat \<Rightarrow> string option option" where
  "ext_loop body off lim =
     (if off + 4 \<le> lim then
        (case uint16_at body off of
           None \<Rightarrow> None
         | Some extType \<Rightarrow>
             (case uint16_at body (off + 2) of
                None \<Rightarrow> None
              | Some extSize \<Rightarrow>
                  (if lim < off + 4 + extSize then Some None
                   else if extType = 0 then
                     (case slice body (off + 4) (off + 4 + extSize) of None \<Rightarrow> None | Some e \<Rightarrow> parseServerNameExt e)
                   else ext_loop body (off + 4 + extSize) lim)))
      else Some None)"
  by pat_completeness auto

termination ext_loop
  by (relation "measure (\<lambda>(body, off, lim). lim - off)") auto

declare ext_loop.simps [simp del]

definition hello_body :: "u8 list \<Rightarrow> string option option" where
  "hello_body body =
     (if length body < 2 + 2 + 32 then Some None
      else
        (let off = 34 in
         if length body < off + 1 then Some None
         else case byte_at body off of
           None \<Rightarrow> None
         | Some sid \<Rightarrow>
             (let off = off + 1 in
              if length body < off + unat sid then Some None
              else
                (let off = off + unat sid in
                 if length body < off + 2 then Some None
                 else case uint16_at body off of
                   None \<Rightarrow> None
                 | Some csLen \<Rightarrow>
                     (let off = off + (2 + csLen) in
                      if length body < off + 1 then Some None
                      else case byte_at body off of
                        None \<Rightarrow> None
                      | Some cmLen \<Rightarrow>
                          (let off = off + (1 + unat cmLen) in
                           if length body < off + 2 then Some None
                           else case uint16_at body off of
                             None \<Rightarrow> None
                           | Some extLen \<Rightarrow>
                               (let off = off + 2 in
                                if length body < off + extLen then Some None
                                else ext_loop body off (off + extLen))))))))"

definition parseClientHelloSNI :: "u8 list \<Rightarrow> string option option" where
  "parseClientHelloSNI payload =
     (if length payload < 4 then Some None
      else case byte_at payload 0 of
        None \<Rightarrow> None
      | Some t \<Rightarrow>
          if t \<noteq> 1 then Some None
          else
            (case (byte_at payload 1, byte_at payload 2, byte_at payload 3) of
               (Some a, Some b, Some c) \<Rightarrow>
                 (let hsLen = unat a * 65536 + unat b * 256 + unat c in
                  if length payload < hsLen + 4 then Some None
                  else (case slice payload 4 (4 + hsLen) of None \<Rightarrow> None | Some body \<Rightarrow> hello_body body))
             | _ \<Rightarrow> None))"

section \<open>The TLS sniffer\<close>

text \<open>A sniffer returns a read error, or the host (empty for \<open>ErrNoHostInfo\<close>) with the bytes it took.\<close>

datatype read_end = EndEOF | EndErr

datatype sniff_err = ErrEOF | ErrUnexpectedEOF | ErrRead | ErrSniffTooLarge | ErrPanic

record PeekResult =
  pk_Host :: string
  pk_Prefix :: string

definition no_host :: "string \<Rightarrow> sniff_err + PeekResult" where
  "no_host pre = Inr \<lparr>pk_Host = [], pk_Prefix = pre\<rparr>"

text \<open>\<open>io.ReadFull\<close> of \<open>n\<close> bytes.\<close>

definition ReadFull :: "nat \<Rightarrow> 'a list \<Rightarrow> read_end \<Rightarrow> (sniff_err + 'a list) \<times> 'a list" where
  "ReadFull n st fin =
     (if n \<le> length st then (Inr (take n st), drop n st)
      else (Inl (if fin = EndErr then ErrRead else if st = [] then ErrEOF else ErrUnexpectedEOF), []))"

definition maxClientHelloSize :: nat where
  "maxClientHelloSize = 16 * 1024"

definition PeekTLSSNI :: "u8 list \<Rightarrow> read_end \<Rightarrow> (sniff_err + PeekResult) \<times> u8 list" where
  "PeekTLSSNI st fin =
     (case ReadFull 5 st fin of
        (Inl e, st1) \<Rightarrow> (Inl e, st1)
      | (Inr hdr, st1) \<Rightarrow>
          if byte_at hdr 0 \<noteq> Some 0x16 then (no_host (text_of hdr), st1)
          else (case uint16_at hdr 3 of
                  None \<Rightarrow> (Inl ErrPanic, st1)
                | Some recLen \<Rightarrow>
                    if maxClientHelloSize < recLen then (no_host (text_of hdr), st1)
                    else (case ReadFull recLen st1 fin of
                            (Inl e, st2) \<Rightarrow> (Inl e, st2)
                          | (Inr payload, st2) \<Rightarrow>
                              (case parseClientHelloSNI payload of
                                 None \<Rightarrow> (Inl ErrPanic, st2)
                               | Some sni \<Rightarrow>
                                   (let pre = text_of (hdr @ payload) in
                                    case sni of
                                      None \<Rightarrow> (no_host pre, st2)
                                    | Some h \<Rightarrow> if h = [] then (no_host pre, st2)
                                               else (Inr \<lparr>pk_Host = NormalizeHost h, pk_Prefix = pre\<rparr>, st2))))))"

section \<open>The HTTP sniffer\<close>

definition maxHTTPHeaderBytes :: nat where
  "maxHTTPHeaderBytes = 8 * 1024"

definition bufio_size :: nat where
  "bufio_size = 4096"

text \<open>\<open>ReadSlice('\n')\<close> of a buffered reader: a line, a full buffer without a newline, or the rest of the stream.\<close>

datatype slice_end = SliceOK | SliceFull | SliceEnd

definition ReadSlice :: "string \<Rightarrow> string \<times> slice_end \<times> string" where
  "ReadSlice st =
     (let n = length (takeWhile (\<lambda>c. c \<noteq> CHR 0x0A) st) in
      if n < length st \<and> n < bufio_size then (take (Suc n) st, SliceOK, drop (Suc n) st)
      else if bufio_size \<le> length st then (take bufio_size st, SliceFull, drop bufio_size st)
      else (st, SliceEnd, []))"

definition finish_line :: "string \<Rightarrow> bool \<Rightarrow> string \<Rightarrow> sniff_err + string" where
  "finish_line line at_eof buf =
     (let s = TrimSuffix (TrimSuffix line [CHR 0x0A]) [CHR 0x0D] in
      if at_eof \<and> s = [] \<and> buf = [] then Inl ErrEOF else Inr s)"

lemma ReadSlice_split: "ReadSlice st = (chunk, e, st') \<Longrightarrow> st = chunk @ st'"
  by (auto simp: ReadSlice_def Let_def split: if_splits)

lemma ReadSlice_full: "ReadSlice st = (chunk, SliceFull, st') \<Longrightarrow> length st' < length st"
  by (auto simp: ReadSlice_def Let_def bufio_size_def split: if_splits)

text \<open>The result, the bytes collected so far and the rest of the stream.\<close>

function read_line :: "nat \<Rightarrow> string \<Rightarrow> read_end \<Rightarrow> string \<Rightarrow> string \<Rightarrow> (sniff_err + string) \<times> string \<times> string" where
  "read_line lim st fin buf line =
     (case ReadSlice st of
        (chunk, e, st') \<Rightarrow>
          (let buf' = buf @ chunk; line' = line @ chunk in
           if chunk \<noteq> [] \<and> lim < length buf' then (Inl ErrSniffTooLarge, buf', st')
           else case e of
             SliceFull \<Rightarrow> read_line lim st' fin buf' line'
           | SliceOK \<Rightarrow> (finish_line line' False buf', buf', st')
           | SliceEnd \<Rightarrow> if fin = EndErr then (Inl ErrRead, buf', st') else (finish_line line' True buf', buf', st')))"
  by pat_completeness auto

termination read_line
  by (relation "measure (\<lambda>(lim, st, fin, buf, line). length st)") (auto dest: ReadSlice_full [OF sym])

declare read_line.simps [simp del]

definition readCRLFLine :: "string \<Rightarrow> read_end \<Rightarrow> string \<Rightarrow> (sniff_err + string) \<times> string \<times> string" where
  "readCRLFLine st fin buf = read_line maxHTTPHeaderBytes st fin buf []"

definition httpMethodSet :: "string list" where
  "httpMethodSet = [''GET'', ''POST'', ''PUT'', ''HEAD'', ''PATCH'', ''DELETE'', ''OPTIONS'', ''CONNECT'', ''TRACE'']"

definition hostFromURI :: "string \<Rightarrow> string option" where
  "hostFromURI uri =
     (let rest = (case Index uri ''://'' of Some i \<Rightarrow> drop (i + 3) uri | None \<Rightarrow> uri);
          host = (case IndexAny rest ''/?#'' of Some i \<Rightarrow> take i rest | None \<Rightarrow> rest);
          host = TrimSuffix host ''.'' in
      if host = [] then None else Some (NormalizeHost host))"

lemma read_line_step:
  assumes "ReadSlice st = (chunk, e, r)"
  shows "read_line lim st fin buf line =
    (if chunk \<noteq> [] \<and> lim < length (buf @ chunk) then (Inl ErrSniffTooLarge, buf @ chunk, r)
     else if e = SliceFull then read_line lim r fin (buf @ chunk) (line @ chunk)
     else if e = SliceEnd \<and> fin = EndErr then (Inl ErrRead, buf @ chunk, r)
     else (finish_line (line @ chunk) (e = SliceEnd) (buf @ chunk), buf @ chunk, r))"
  by (subst read_line.simps) (simp add: assms Let_def split: slice_end.split)

text \<open>A line read moves bytes from the stream to the buffer and never fills it beyond the limit.\<close>

lemma read_line_split:
  "read_line lim st fin buf line = (res, buf', st') \<Longrightarrow>
   \<exists>c. st = c @ st' \<and> buf' = buf @ c \<and> (res = Inl ErrSniffTooLarge \<or> c = [] \<or> length buf' \<le> lim)"
proof (induction lim st fin buf line arbitrary: res buf' st' rule: read_line.induct)
  case (1 lim st fin buf line)
  obtain chunk e r where rs: "ReadSlice st = (chunk, e, r)" by (cases "ReadSlice st")
  note split = ReadSlice_split [OF rs] and step = "1.prems" [unfolded read_line_step [OF rs]]
  show ?case
  proof (cases "\<not> (chunk \<noteq> [] \<and> lim < length (buf @ chunk)) \<and> e = SliceFull")
    case True
    with step have "read_line lim r fin (buf @ chunk) (line @ chunk) = (res, buf', st')" by auto
    from "1.IH" [OF rs [symmetric] refl refl refl _ _ this] True split show ?thesis by auto
  next
    case False
    with step split show ?thesis by (auto split: if_splits)
  qed
qed

lemma read_line_nonempty:
  assumes "read_line lim st fin buf [] = (Inr s, buf', st')" "s \<noteq> []"
  shows "length st' < length st"
proof (rule ccontr)
  assume "\<not> length st' < length st"
  with read_line_split [OF assms(1)] have "st' = st" "buf' = buf" by auto
  obtain chunk e r where rs: "ReadSlice st = (chunk, e, r)" by (cases "ReadSlice st")
  note split = ReadSlice_split [OF rs]
  show False
  proof (cases "chunk = []")
    case True
    with rs have "e = SliceEnd" by (auto simp: ReadSlice_def Let_def bufio_size_def split: if_splits)
    with assms True show False
      by (auto simp: read_line_step [OF rs] finish_line_def Let_def TrimSuffix_def HasSuffix_def split: if_splits)
  next
    case False
    have "length st' \<le> length r"
    proof (cases "e = SliceFull \<and> \<not> lim < length (buf @ chunk)")
      case True
      with assms(1) False have "read_line lim r fin (buf @ chunk) ([] @ chunk) = (Inr s, buf', st')"
        by (auto simp: read_line_step [OF rs])
      from read_line_split [OF this] show ?thesis by auto
    next
      case no: False
      with assms(1) False show ?thesis by (auto simp: read_line_step [OF rs] split: if_splits)
    qed
    with False split \<open>st' = st\<close> show False by (cases chunk) auto
  qed
qed

text \<open>The header loop; \<open>host\<close> is what the lines so far gave.\<close>

function header_loop :: "string \<Rightarrow> read_end \<Rightarrow> string \<Rightarrow> string \<Rightarrow> (sniff_err + string) \<times> string \<times> string" where
  "header_loop st fin buf host =
     (case readCRLFLine st fin buf of
        (Inl e, buf', st') \<Rightarrow> (Inl e, buf', st')
      | (Inr line, buf', st') \<Rightarrow>
          (let trimmed = TrimSpace line in
           if trimmed = [] then (Inr host, buf', st')
           else
             (let host' = (case IndexByte trimmed CHR '':'' of
                             Some i \<Rightarrow> if 0 < i \<and> ToLower (TrimSpace (take i trimmed)) = ''host''
                                       then NormalizeHost (drop (Suc i) trimmed) else host
                           | None \<Rightarrow> host) in
              header_loop st' fin buf' host')))"
  by pat_completeness auto

lemma TrimSpace_Nil [simp]: "TrimSpace [] = []"
  by (simp add: TrimSpace_def)

termination header_loop
  by (relation "measure (\<lambda>(st, fin, buf, host). length st)")
     (auto simp: readCRLFLine_def dest!: read_line_nonempty [OF sym])

declare header_loop.simps [simp del]

definition request_method :: "string \<Rightarrow> string" where
  "request_method requestLine =
     (case IndexByte requestLine CHR '' '' of Some i \<Rightarrow> if 0 < i then take i requestLine else [] | None \<Rightarrow> [])"

definition uri_host :: "string \<Rightarrow> string" where
  "uri_host requestLine =
     (case Fields requestLine of
        _ # u # _ \<Rightarrow> if HasPrefix u ''http'' then (case hostFromURI u of Some h \<Rightarrow> h | None \<Rightarrow> []) else []
      | _ \<Rightarrow> [])"

definition PeekHTTPHost :: "string \<Rightarrow> read_end \<Rightarrow> (sniff_err + PeekResult) \<times> string" where
  "PeekHTTPHost st fin =
     (case readCRLFLine st fin [] of
        (Inl e, _, st1) \<Rightarrow> (Inl e, st1)
      | (Inr line, buf1, st1) \<Rightarrow>
          (let requestLine = TrimSpace line in
           if request_method requestLine \<notin> set httpMethodSet then (no_host buf1, st1)
           else
             (case header_loop st1 fin buf1 (uri_host requestLine) of
                (Inl e, _, st2) \<Rightarrow> (Inl e, st2)
              | (Inr host, buf2, st2) \<Rightarrow>
                  if host = [] then (no_host buf2, st2) else (Inr \<lparr>pk_Host = host, pk_Prefix = buf2\<rparr>, st2))))"

section \<open>No panic, and nothing lost\<close>

lemma slice_Some: "i \<le> j \<Longrightarrow> j \<le> length bs \<Longrightarrow> slice bs i j = Some (take (j - i) (drop i bs))"
  by (simp add: slice_def)

lemma byte_at_Some: "i < length bs \<Longrightarrow> byte_at bs i = Some (bs ! i)"
  by (simp add: byte_at_def)

lemma uint16_at_Some:
  assumes "i + 2 \<le> length bs"
  shows "uint16_at bs i = Some (unat (bs ! i) * 256 + unat (bs ! Suc i))"
proof -
  have "take 2 (drop i bs) = [bs ! i, bs ! Suc i]"
    using assms by (simp add: numeral_2_eq_2 take_Suc hd_drop_conv_nth nth_tl drop_Suc tl_drop flip: drop_Suc)
  then show ?thesis using assms by (simp add: uint16_at_def slice_def)
qed

lemma name_loop_total: "\<exists>r. name_loop xs i = Some r"
proof (induction xs i rule: name_loop.induct)
  case (1 xs i)
  show ?case
  proof (cases "i + 3 \<le> length xs")
    case True
    then show ?thesis using 1
      by (subst name_loop.simps) (auto simp: byte_at_Some uint16_at_Some slice_Some)
  qed (simp add: name_loop.simps)
qed

lemma parseServerNameExt_total: "\<exists>r. parseServerNameExt ext = Some r"
  using name_loop_total by (auto simp: parseServerNameExt_def uint16_at_Some slice_Some)

lemma ext_loop_total: "lim \<le> length body \<Longrightarrow> \<exists>r. ext_loop body off lim = Some r"
proof (induction body off lim rule: ext_loop.induct)
  case (1 body off lim)
  show ?case
  proof (cases "off + 4 \<le> lim")
    case True
    then show ?thesis using 1 parseServerNameExt_total
      by (subst ext_loop.simps) (auto simp: uint16_at_Some slice_Some)
  qed (simp add: ext_loop.simps)
qed

lemma hello_body_total: "\<exists>r. hello_body body = Some r"
  using ext_loop_total by (auto simp: hello_body_def Let_def uint16_at_Some byte_at_Some)

lemma parseClientHelloSNI_total: "\<exists>r. parseClientHelloSNI payload = Some r"
proof (cases "length payload < 4")
  case False
  then have "\<exists>b. byte_at payload 0 = Some b" "\<exists>b. byte_at payload 1 = Some b" "\<exists>b. byte_at payload 2 = Some b"
    "\<exists>b. byte_at payload 3 = Some b" by (auto simp: byte_at_def)
  then show ?thesis using False hello_body_total by (auto simp: parseClientHelloSNI_def Let_def slice_Some)
qed (simp add: parseClientHelloSNI_def)

lemma ReadFull_split: "ReadFull n st fin = (Inr bs, st') \<Longrightarrow> st = bs @ st' \<and> length bs = n"
  by (auto simp: ReadFull_def split: if_splits)

lemma ReadFull_append: "n = length bs \<Longrightarrow> ReadFull n (bs @ st) fin = (Inr bs, st)"
  by (simp add: ReadFull_def)

lemma text_of_append [simp]: "text_of (a @ b) = text_of a @ text_of b"
  by (simp add: text_of_def)

lemma length_text_of [simp]: "length (text_of a) = length a"
  by (simp add: text_of_def)

text \<open>
  The TLS sniffer is safe on every input: none of its index and slice expressions is out of
  range, whatever bytes a guest sends; and when it returns, the prefix it hands to the relay
  is exactly the bytes it took from the connection, at most one record of the maximal size,
  so that the upstream sees the guest's stream unchanged.
\<close>

lemma PeekTLSSNI_safe:
  "fst (PeekTLSSNI st fin) \<noteq> Inl ErrPanic \<and>
   (case PeekTLSSNI st fin of
      (Inr pk, st') \<Rightarrow> text_of st = pk_Prefix pk @ text_of st' \<and> length (pk_Prefix pk) \<le> 5 + maxClientHelloSize
    | (Inl _, _) \<Rightarrow> True)"
proof (cases "ReadFull 5 st fin")
  case (Pair res st1)
  show ?thesis
  proof (cases res)
    case (Inl e)
    have "e \<noteq> ErrPanic" using Pair Inl by (auto simp: ReadFull_def split: if_splits)
    with Pair Inl show ?thesis by (simp add: PeekTLSSNI_def)
  next
    case (Inr hdr)
    have hdr: "st = hdr @ st1" "length hdr = 5" using ReadFull_split [of 5 st fin hdr st1] Pair Inr by auto
    obtain n where n: "uint16_at hdr 3 = Some n" using hdr by (simp add: uint16_at_Some)
    obtain r2 st2 where r2: "ReadFull n st1 fin = (r2, st2)" by (cases "ReadFull n st1 fin")
    show ?thesis
    proof (cases r2)
      case e2: (Inl e)
      have "e \<noteq> ErrPanic" using r2 e2 by (auto simp: ReadFull_def split: if_splits)
      with Pair Inr hdr n r2 e2 show ?thesis by (auto simp: PeekTLSSNI_def no_host_def)
    next
      case pl: (Inr payload)
      have "st1 = payload @ st2" "length payload = n" using ReadFull_split [of n st1 fin payload st2] r2 pl by auto
      moreover obtain sni where "parseClientHelloSNI payload = Some sni" using parseClientHelloSNI_total by blast
      ultimately show ?thesis using Pair Inr hdr n r2 pl
        by (auto simp: PeekTLSSNI_def no_host_def Let_def split: option.splits)
    qed
  qed
qed

lemma header_loop_split:
  "header_loop st fin buf host = (Inr h, buf', st') \<Longrightarrow> length buf \<le> maxHTTPHeaderBytes \<Longrightarrow>
   \<exists>c. st = c @ st' \<and> buf' = buf @ c \<and> length buf' \<le> maxHTTPHeaderBytes"
proof (induction st fin buf host rule: header_loop.induct)
  case (1 st fin buf host)
  obtain res b r where rl: "readCRLFLine st fin buf = (res, b, r)" by (cases "readCRLFLine st fin buf")
  with "1.prems"(1) obtain line where res: "res = Inr line"
    by (cases res) (simp_all add: header_loop.simps [of st])
  from read_line_split [OF rl [unfolded readCRLFLine_def res]] "1.prems"(2)
  obtain c where c: "st = c @ r" "b = buf @ c" "length b \<le> maxHTTPHeaderBytes" by auto
  show ?case
  proof (cases "TrimSpace line = []")
    case True
    then have "buf' = b" "st' = r" using "1.prems"(1) rl res by (simp_all add: header_loop.simps [of st])
    with c show ?thesis by auto
  next
    case False
    from "1.prems"(1) rl res False obtain host' where
      "header_loop r fin b host' = (Inr h, buf', st')"
      and "host' = (case IndexByte (TrimSpace line) CHR '':'' of
                             Some i \<Rightarrow> if 0 < i \<and> ToLower (TrimSpace (take i (TrimSpace line))) = ''host''
                                       then NormalizeHost (drop (Suc i) (TrimSpace line)) else host
                           | None \<Rightarrow> host)"
      by (auto simp: header_loop.simps [of st] Let_def)
    with "1.IH" [OF rl [symmetric] res refl refl False] c show ?thesis by auto
  qed
qed

text \<open>
  The HTTP sniffer takes nothing away: when it returns, the prefix is exactly the bytes
  taken from the connection and at most 8 KiB, however long the guest's lines are.
\<close>

lemma PeekHTTPHost_transparent:
  "case PeekHTTPHost st fin of
     (Inr pk, st') \<Rightarrow> st = pk_Prefix pk @ st' \<and> length (pk_Prefix pk) \<le> maxHTTPHeaderBytes
   | (Inl _, _) \<Rightarrow> True"
proof -
  obtain res b r where rl: "readCRLFLine st fin [] = (res, b, r)" by (cases "readCRLFLine st fin []")
  show ?thesis
  proof (cases res)
    case (Inl e)
    with rl show ?thesis by (simp add: PeekHTTPHost_def)
  next
    case (Inr line)
    from read_line_split [OF rl [unfolded readCRLFLine_def Inr]]
    have st: "st = b @ r" "length b \<le> maxHTTPHeaderBytes" by auto
    obtain res2 b2 r2 where hl: "header_loop r fin b (uri_host (TrimSpace line)) = (res2, b2, r2)"
      by (cases "header_loop r fin b (uri_host (TrimSpace line))")
    show ?thesis
    proof (cases res2)
      case (Inl e)
      with rl Inr st hl show ?thesis by (simp add: PeekHTTPHost_def no_host_def Let_def)
    next
      case h: (Inr host)
      from header_loop_split [OF hl [unfolded h] st(2)] st rl Inr hl h show ?thesis
        by (auto simp: PeekHTTPHost_def no_host_def Let_def)
    qed
  qed
qed

section \<open>Well-formed ClientHello messages\<close>

text \<open>The wire format of RFC 8446 and RFC 6066, as far as it matters for the server name.\<close>

definition enc16 :: "nat \<Rightarrow> u8 list" where
  "enc16 n = [of_nat (n div 256), of_nat (n mod 256)]"

definition enc_ext :: "nat \<times> u8 list \<Rightarrow> u8 list" where
  "enc_ext e = enc16 (fst e) @ enc16 (length (snd e)) @ snd e"

definition sni_data :: "u8 list \<Rightarrow> u8 list" where
  "sni_data h = enc16 (length h + 3) @ [0] @ enc16 (length h) @ h"

record hello =
  h_version :: "u8 list"
  h_random :: "u8 list"
  h_session :: "u8 list"
  h_ciphers :: "u8 list"
  h_compression :: "u8 list"
  h_before :: "(nat \<times> u8 list) list"
  h_name :: "u8 list"
  h_after :: "(nat \<times> u8 list) list"

definition hello_exts :: "hello \<Rightarrow> u8 list" where
  "hello_exts h = concat (map enc_ext (h_before h)) @ enc_ext (0, sni_data (h_name h)) @ concat (map enc_ext (h_after h))"

definition hello_front :: "hello \<Rightarrow> u8 list" where
  "hello_front h = h_version h @ h_random h @ [of_nat (length (h_session h))] @ h_session h @
     enc16 (length (h_ciphers h)) @ h_ciphers h @ [of_nat (length (h_compression h))] @ h_compression h"

definition hello_bytes :: "hello \<Rightarrow> u8 list" where
  "hello_bytes h = hello_front h @ enc16 (length (hello_exts h)) @ hello_exts h"

definition hello_ok :: "hello \<Rightarrow> bool" where
  "hello_ok h \<longleftrightarrow> length (h_version h) = 2 \<and> length (h_random h) = 32 \<and> length (h_session h) < 256 \<and>
     length (h_ciphers h) < 65536 \<and> length (h_compression h) < 256 \<and> length (hello_exts h) < 65536 \<and>
     list_all (\<lambda>(t, d). 0 < t \<and> t < 65536) (h_before h) \<and> h_name h \<noteq> []"

definition hello_record :: "u8 list \<Rightarrow> u8 list \<Rightarrow> u8 list" where
  "hello_record ver body =
     [0x16] @ ver @ enc16 (length body + 4) @ [1, of_nat (length body div 65536), of_nat (length body div 256 mod 256), of_nat (length body mod 256)] @ body"

lemma length_enc16 [simp]: "length (enc16 n) = 2"
  by (simp add: enc16_def)

lemma length_enc_ext [simp]: "length (enc_ext e) = 4 + length (snd e)"
  by (simp add: enc_ext_def)

lemma length_sni_data [simp]: "length (sni_data h) = length h + 5"
  by (simp add: sni_data_def)

lemma unat_byte [simp]: "n < 256 \<Longrightarrow> unat (of_nat n :: u8) = n"
  by (simp add: unat_of_nat)

lemma uint16_at_enc: "n < 65536 \<Longrightarrow> i = length xs \<Longrightarrow> uint16_at (xs @ enc16 n @ ys) i = Some n"
proof -
  assume n: "n < 65536" and i: "i = length xs"
  have d: "n div 256 < 256" using n by (simp add: less_mult_imp_div_less)
  have "uint16_at (xs @ enc16 n @ ys) i = Some (unat (of_nat (n div 256) :: u8) * 256 + unat (of_nat (n mod 256) :: u8))"
    using i by (subst uint16_at_Some) (simp_all add: enc16_def nth_append)
  also have "\<dots> = Some n" using d by simp
  finally show ?thesis .
qed

lemma slice_mid: "i = length xs \<Longrightarrow> j = length xs + length ys \<Longrightarrow> slice (xs @ ys @ zs) i j = Some ys"
  by (simp add: slice_def)

lemma byte_at_mid: "i = length xs \<Longrightarrow> byte_at (xs @ b # zs) i = Some b"
  by (simp add: byte_at_def)

lemma name_loop_sni:
  assumes "h \<noteq> []" "length h < 65536"
  shows "name_loop ([0] @ enc16 (length h) @ h) 0 = Some (Some (text_of h))"
proof -
  let ?xs = "[0] @ enc16 (length h) @ h"
  have "uint16_at ?xs 1 = Some (length h)" using assms(2) uint16_at_enc [of "length h" 1 "[0]" h] by simp
  moreover have "byte_at ?xs 0 = Some 0" by (simp add: byte_at_def)
  moreover have "slice ?xs 3 (3 + length h) = Some h"
    using slice_mid [of 3 "[0] @ enc16 (length h)" "3 + length h" h "[]"] by simp
  ultimately show ?thesis using assms(1) by (subst name_loop.simps) simp
qed

lemma parse_sni_data:
  assumes "h \<noteq> []" "length h + 3 < 65536"
  shows "parseServerNameExt (sni_data h) = Some (Some (text_of h))"
proof -
  have "uint16_at (sni_data h) 0 = Some (length h + 3)"
    using assms(2) uint16_at_enc [of "length h + 3" 0 "[]"] by (simp add: sni_data_def)
  moreover have "slice (sni_data h) 2 (2 + (length h + 3)) = Some ([0] @ enc16 (length h) @ h)"
    using slice_mid [of 2 "enc16 (length h + 3)" "2 + (length h + 3)" "[0] @ enc16 (length h) @ h" "[]"]
    by (simp add: sni_data_def)
  ultimately show ?thesis using name_loop_sni [of h] assms by (simp add: parseServerNameExt_def)
qed

lemma ext_loop_next:
  assumes "t < 65536" "length d < 65536" "lim = length (xs @ enc_ext (t, d) @ ys)"
  shows "ext_loop (xs @ enc_ext (t, d) @ ys) (length xs) lim =
     (if t = 0 then parseServerNameExt d else ext_loop ((xs @ enc_ext (t, d)) @ ys) (length (xs @ enc_ext (t, d))) lim)"
proof -
  let ?b = "xs @ enc_ext (t, d) @ ys"
  have "uint16_at ?b (length xs) = Some t"
    using assms(1) uint16_at_enc [of t "length xs" xs "enc16 (length d) @ d @ ys"] by (simp add: enc_ext_def)
  moreover have "uint16_at ?b (length xs + 2) = Some (length d)"
    using assms(2) uint16_at_enc [of "length d" "length xs + 2" "xs @ enc16 t" "d @ ys"] by (simp add: enc_ext_def)
  moreover have "slice ?b (length xs + 4) (length xs + 4 + length d) = Some d"
    using slice_mid [of "length xs + 4" "xs @ enc16 t @ enc16 (length d)" "length xs + 4 + length d" d ys] by (simp add: enc_ext_def)
  ultimately show ?thesis using assms(3) by (subst ext_loop.simps) (auto simp: add.assoc)
qed

lemma ext_loop_finds:
  assumes "list_all (\<lambda>(t, d). 0 < t \<and> t < 65536) pre" "length (concat (map enc_ext pre)) + length (enc_ext (0, d)) < 65536"
    "lim = length (xs @ concat (map enc_ext pre) @ enc_ext (0, d) @ ys)"
  shows "ext_loop (xs @ concat (map enc_ext pre) @ enc_ext (0, d) @ ys) (length xs) lim = parseServerNameExt d"
  using assms
proof (induction pre arbitrary: xs)
  case Nil
  then show ?case using ext_loop_next [of 0 d lim xs ys] by simp
next
  case (Cons e pre)
  obtain t dd where e: "e = (t, dd)" by (cases e)
  from Cons.prems have t: "0 < t" "t < 65536" "length dd < 65536" by (auto simp: e)
  have "ext_loop (xs @ enc_ext (t, dd) @ concat (map enc_ext pre) @ enc_ext (0, d) @ ys) (length xs) lim =
      ext_loop ((xs @ enc_ext (t, dd)) @ concat (map enc_ext pre) @ enc_ext (0, d) @ ys) (length (xs @ enc_ext (t, dd))) lim"
    using ext_loop_next [of t dd lim xs "concat (map enc_ext pre) @ enc_ext (0, d) @ ys"] t Cons.prems(3) by (simp add: e)
  also have "\<dots> = parseServerNameExt d"
    using Cons.prems by (intro Cons.IH) (auto simp: e)
  finally show ?case by (simp add: e)
qed

lemma hello_body_finds:
  assumes ok: "hello_ok h"
  shows "hello_body (hello_bytes h) = Some (Some (text_of (h_name h)))"
proof -
  let ?b = "hello_bytes h" and ?sid = "length (h_session h)" and ?cs = "length (h_ciphers h)"
    and ?cm = "length (h_compression h)" and ?ex = "length (hello_exts h)"
  define f1 where "f1 = h_version h @ h_random h"
  define f2 where "f2 = f1 @ [of_nat ?sid] @ h_session h"
  define f3 where "f3 = f2 @ enc16 ?cs @ h_ciphers h"
  have l1: "length f1 = 34" using ok by (simp add: f1_def hello_ok_def)
  have l2: "length f2 = 35 + ?sid" by (simp add: f2_def l1)
  have l3: "length f3 = 37 + ?sid + ?cs" by (simp add: f3_def l2)
  have lf: "length (hello_front h) = 38 + ?sid + ?cs + ?cm" using ok by (simp add: hello_front_def hello_ok_def)
  have lb: "length ?b = 40 + ?sid + ?cs + ?cm + ?ex" by (simp add: hello_bytes_def lf)
  have sid: "byte_at ?b 34 = Some (of_nat ?sid)"
    using byte_at_mid [OF l1 [symmetric]] by (simp add: hello_bytes_def hello_front_def f1_def)
  have cs: "uint16_at ?b (35 + ?sid) = Some ?cs"
    using uint16_at_enc [OF _ l2 [symmetric], of ?cs] ok by (simp add: hello_bytes_def hello_front_def f1_def f2_def hello_ok_def)
  have cm: "byte_at ?b (37 + ?sid + ?cs) = Some (of_nat ?cm)"
    using byte_at_mid [OF l3 [symmetric]] by (simp add: hello_bytes_def hello_front_def f1_def f2_def f3_def)
  have ex: "uint16_at ?b (38 + ?sid + ?cs + ?cm) = Some ?ex"
    using uint16_at_enc [OF _ lf [symmetric], of ?ex] ok by (simp add: hello_bytes_def hello_ok_def)
  have "ext_loop ?b (40 + ?sid + ?cs + ?cm) (40 + ?sid + ?cs + ?cm + ?ex) = parseServerNameExt (sni_data (h_name h))"
    using ext_loop_finds [of "h_before h" "sni_data (h_name h)" "40 + ?sid + ?cs + ?cm + ?ex" "hello_front h @ enc16 ?ex"
        "concat (map enc_ext (h_after h))"] ok
    by (simp add: hello_bytes_def hello_exts_def hello_ok_def lf add.assoc)
  also have "\<dots> = Some (Some (text_of (h_name h)))"
    using ok by (intro parse_sni_data) (auto simp: hello_ok_def hello_exts_def)
  finally show ?thesis
    using ok sid cs cm ex lb unfolding hello_body_def
    by (simp add: Let_def hello_ok_def add.assoc)
qed

lemma parse_hello:
  assumes "hello_ok h" "length (hello_bytes h) < 65536"
  shows "parseClientHelloSNI ([1, of_nat (length (hello_bytes h) div 65536), of_nat (length (hello_bytes h) div 256 mod 256),
      of_nat (length (hello_bytes h) mod 256)] @ hello_bytes h) = Some (Some (text_of (h_name h)))"
proof -
  let ?n = "length (hello_bytes h)"
  have n: "?n div 65536 = 0" "?n div 256 mod 256 = ?n div 256"
    using assms(2) by (simp_all add: less_mult_imp_div_less)
  have "unat (of_nat (?n div 65536) :: u8) * 65536 + unat (of_nat (?n div 256 mod 256) :: u8) * 256 +
      unat (of_nat (?n mod 256) :: u8) = ?n"
    using n assms(2) by (simp add: less_mult_imp_div_less)
  then show ?thesis
    using hello_body_finds [OF assms(1)] unfolding parseClientHelloSNI_def
    by (simp add: byte_at_def slice_def Let_def)
qed

text \<open>
  The TLS sniffer finds the server name of every well-formed ClientHello that fits in one
  record: whatever other extensions precede or follow, it returns the normal form of that name, has taken
  exactly the record, and leaves the rest of the stream.
\<close>

lemma PeekTLSSNI_finds_name:
  assumes "hello_ok h" "length ver = 2" "length (hello_bytes h) + 4 \<le> maxClientHelloSize"
  shows "PeekTLSSNI (hello_record ver (hello_bytes h) @ rest) fin =
    (Inr \<lparr>pk_Host = NormalizeHost (text_of (h_name h)), pk_Prefix = text_of (hello_record ver (hello_bytes h))\<rparr>, rest)"
proof -
  let ?n = "length (hello_bytes h)"
  let ?hs = "[1, of_nat (?n div 65536), of_nat (?n div 256 mod 256), of_nat (?n mod 256)] @ hello_bytes h"
  let ?hdr = "[0x16] @ ver @ enc16 (?n + 4)"
  have n: "?n + 4 < 65536" using assms(3) by (simp add: maxClientHelloSize_def)
  have "ReadFull 5 (?hdr @ ?hs @ rest) fin = (Inr ?hdr, ?hs @ rest)"
    using assms(2) by (simp add: ReadFull_def)
  moreover have "byte_at ?hdr 0 = Some 0x16" by (simp add: byte_at_def)
  moreover have "uint16_at ?hdr 3 = Some (?n + 4)"
    using uint16_at_enc [OF n, of 3 "[0x16] @ ver" "[]"] assms(2) by simp
  moreover have "ReadFull (?n + 4) (?hs @ rest) fin = (Inr ?hs, rest)"
    by (rule ReadFull_append) simp
  moreover have "parseClientHelloSNI ?hs = Some (Some (text_of (h_name h)))"
    using n by (intro parse_hello [OF assms(1)]) simp
  moreover have "text_of (h_name h) \<noteq> []" using assms(1) by (simp add: hello_ok_def text_of_def)
  moreover have "hello_record ver (hello_bytes h) = ?hdr @ ?hs" by (simp add: hello_record_def)
  ultimately show ?thesis
    using assms(3) by (simp only: PeekTLSSNI_def append_assoc) (simp add: Let_def)
qed

definition example_hello :: hello where
  "example_hello = \<lparr>h_version = [3, 3], h_random = replicate 32 7, h_session = [], h_ciphers = [0x13, 0x01], h_compression = [0],
     h_before = [(43, [2, 3, 4])], h_name = [97, 46, 73, 79], h_after = [(10, [])]\<rparr>"

lemma example_hello_ok: "hello_ok example_hello" "length (hello_bytes example_hello) + 4 \<le> maxClientHelloSize"
  by (simp_all add: hello_ok_def example_hello_def hello_exts_def hello_bytes_def hello_front_def maxClientHelloSize_def)

lemma PeekTLSSNI_finds_name_witness:
  "fst (PeekTLSSNI (hello_record [3, 1] (hello_bytes example_hello) @ [1, 2, 3]) EndEOF) =
     Inr \<lparr>pk_Host = ''a.io'', pk_Prefix = text_of (hello_record [3, 1] (hello_bytes example_hello))\<rparr>"
proof -
  have "NormalizeHost (text_of (h_name example_hello)) = ''a.io''" by code_simp
  with PeekTLSSNI_finds_name [OF example_hello_ok(1) _ example_hello_ok(2), of "[3, 1]" "[1, 2, 3]" EndEOF] show ?thesis
    by simp
qed

end
