(* ===== verification/Lru.thy ===== *)
theory Lru
  imports GoStrings
begin

text \<open>
  The capacity-bounded cache shared by the edge components (\<open>internal/edge/lru.go\<close>): a map from
  keys to list elements beside a doubly linked recency list. List elements are compared by
  identity in the source; here they carry a number. The interface the clients rely on is the
  locale \<open>recency_cache\<close>: the cache is a list of bindings in order of use.
\<close>

section \<open>The implementation\<close>

record 'v lruEntry =
  le_key :: string
  le_value :: 'v

record 'v lruCache =
  lc_entries :: "(string, nat) gomap"
  lc_lru :: "(nat \<times> 'v lruEntry) list"
  lc_next :: nat

definition newLRUCache :: "'v lruCache" where
  "newLRUCache = \<lparr>lc_entries = [], lc_lru = [], lc_next = 0\<rparr>"

definition lru_get :: "string \<Rightarrow> 'v lruCache \<Rightarrow> 'v option" where
  "lru_get key c =
     (case mget (lc_entries c) key of
        None \<Rightarrow> None
      | Some el \<Rightarrow> map_option le_value (map_of (lc_lru c) el))"

text \<open>\<open>MoveToFront\<close> and \<open>Remove\<close> of the linked list.\<close>

definition move_to_front :: "nat \<Rightarrow> (nat \<times> 'e) list \<Rightarrow> (nat \<times> 'e) list" where
  "move_to_front el xs = (case map_of xs el of None \<Rightarrow> xs | Some e \<Rightarrow> (el, e) # mdel el xs)"

definition touch :: "string \<Rightarrow> 'v lruCache \<Rightarrow> 'v lruCache" where
  "touch key c =
     (case mget (lc_entries c) key of
        None \<Rightarrow> c
      | Some el \<Rightarrow> c\<lparr>lc_lru := move_to_front el (lc_lru c)\<rparr>)"

definition lru_set :: "string \<Rightarrow> 'v \<Rightarrow> 'v lruCache \<Rightarrow> 'v lruCache" where
  "lru_set key v c =
     (case mget (lc_entries c) key of
        Some el \<Rightarrow> c\<lparr>lc_lru := move_to_front el (mset_at el \<lparr>le_key = key, le_value = v\<rparr> (lc_lru c))\<rparr>
      | None \<Rightarrow> c\<lparr>lc_entries := mset_at key (lc_next c) (lc_entries c),
                  lc_lru := (lc_next c, \<lparr>le_key = key, le_value = v\<rparr>) # lc_lru c, lc_next := Suc (lc_next c)\<rparr>)"

text \<open>A write through a pointer that is stored as the value: the binding changes in place.\<close>

definition lru_poke :: "string \<Rightarrow> 'v \<Rightarrow> 'v lruCache \<Rightarrow> 'v lruCache" where
  "lru_poke key v c =
     (case mget (lc_entries c) key of
        None \<Rightarrow> c
      | Some el \<Rightarrow> c\<lparr>lc_lru := mset_at el \<lparr>le_key = key, le_value = v\<rparr> (lc_lru c)\<rparr>)"

function evict_loop :: "nat \<Rightarrow> 'v lruCache \<Rightarrow> 'v lruCache" where
  "evict_loop n c =
     (if n < length (lc_lru c) then
        evict_loop n (c\<lparr>lc_entries := mdel (le_key (snd (last (lc_lru c)))) (lc_entries c), lc_lru := butlast (lc_lru c)\<rparr>)
      else c)"
  by pat_completeness auto

termination evict_loop
  by (relation "measure (\<lambda>(n, c). length (lc_lru c))") auto

declare evict_loop.simps [simp del]

definition evict :: "int \<Rightarrow> 'v lruCache \<Rightarrow> 'v lruCache" where
  "evict mx c = evict_loop (if mx \<le> 0 then 1 else nat mx) c"

definition lru_delete :: "string \<Rightarrow> 'v lruCache \<Rightarrow> 'v lruCache" where
  "lru_delete key c =
     (case mget (lc_entries c) key of
        None \<Rightarrow> c
      | Some el \<Rightarrow> c\<lparr>lc_entries := mdel key (lc_entries c), lc_lru := mdel el (lc_lru c)\<rparr>)"

definition deletePrefix :: "string \<Rightarrow> 'v lruCache \<Rightarrow> 'v lruCache" where
  "deletePrefix p c = fold lru_delete (filter (\<lambda>k. HasPrefix k p) (map fst (lc_entries c))) c"

definition lru_len :: "'v lruCache \<Rightarrow> nat" where
  "lru_len c = length (lc_entries c)"

section \<open>The interface\<close>

text \<open>What the clients see: bindings of distinct keys, the most recently used first.\<close>

locale recency_cache =
  fixes ok :: "'c \<Rightarrow> bool"
    and bindings :: "'c \<Rightarrow> (string \<times> 'v) list"
    and new :: 'c
    and find :: "string \<Rightarrow> 'c \<Rightarrow> 'v option"
    and use :: "string \<Rightarrow> 'c \<Rightarrow> 'c"
    and put :: "string \<Rightarrow> 'v \<Rightarrow> 'c \<Rightarrow> 'c"
    and poke :: "string \<Rightarrow> 'v \<Rightarrow> 'c \<Rightarrow> 'c"
    and shrink :: "int \<Rightarrow> 'c \<Rightarrow> 'c"
    and remove :: "string \<Rightarrow> 'c \<Rightarrow> 'c"
    and remove_prefix :: "string \<Rightarrow> 'c \<Rightarrow> 'c"
    and size :: "'c \<Rightarrow> nat"
  assumes ok_new: "ok new"
    and ok_use: "ok c \<Longrightarrow> ok (use k c)"
    and ok_put: "ok c \<Longrightarrow> ok (put k v c)"
    and ok_poke: "ok c \<Longrightarrow> ok (poke k v c)"
    and ok_shrink: "ok c \<Longrightarrow> ok (shrink n c)"
    and ok_remove: "ok c \<Longrightarrow> ok (remove k c)"
    and ok_remove_prefix: "ok c \<Longrightarrow> ok (remove_prefix p c)"
    and distinct_bindings: "ok c \<Longrightarrow> distinct (map fst (bindings c))"
    and bindings_new: "bindings new = []"
    and find_bindings: "ok c \<Longrightarrow> find k c = map_of (bindings c) k"
    and bindings_use: "ok c \<Longrightarrow> bindings (use k c) =
          (case map_of (bindings c) k of None \<Rightarrow> bindings c | Some v \<Rightarrow> (k, v) # mdel k (bindings c))"
    and bindings_put: "ok c \<Longrightarrow> bindings (put k v c) = (k, v) # mdel k (bindings c)"
    and bindings_poke: "ok c \<Longrightarrow> bindings (poke k v c) =
          (case map_of (bindings c) k of None \<Rightarrow> bindings c | Some _ \<Rightarrow> mset_at k v (bindings c))"
    and bindings_shrink: "ok c \<Longrightarrow> bindings (shrink n c) = take (if n \<le> 0 then 1 else nat n) (bindings c)"
    and bindings_remove: "ok c \<Longrightarrow> bindings (remove k c) = mdel k (bindings c)"
    and bindings_remove_prefix: "ok c \<Longrightarrow> bindings (remove_prefix p c) = filter (\<lambda>(k, v). \<not> HasPrefix k p) (bindings c)"
    and size_bindings: "ok c \<Longrightarrow> size c = length (bindings c)"
begin

lemmas ok_ops [simp, intro] = ok_new ok_use ok_put ok_poke ok_shrink ok_remove ok_remove_prefix

lemma find_new [simp]: "find k new = None"
  by (simp add: find_bindings bindings_new)

lemma find_use [simp]: "ok c \<Longrightarrow> find k (use k' c) = find k c"
  by (auto simp: find_bindings bindings_use split: option.splits)

lemma find_put [simp]: "ok c \<Longrightarrow> find k (put k' v c) = (if k = k' then Some v else find k c)"
  by (simp add: find_bindings bindings_put)

lemma find_poke: "ok c \<Longrightarrow> find k (poke k' v c) = (if k = k' \<and> find k c \<noteq> None then Some v else find k c)"
  by (auto simp: find_bindings bindings_poke split: option.splits)

lemma find_remove [simp]: "ok c \<Longrightarrow> find k (remove k' c) = (if k = k' then None else find k c)"
  by (simp add: find_bindings bindings_remove)

lemma find_remove_prefix: "ok c \<Longrightarrow> find k (remove_prefix p c) = (if HasPrefix k p then None else find k c)"
  using distinct_bindings [of c] mget_mkeep [of "bindings c" "\<lambda>k _. \<not> HasPrefix k p" k]
  by (auto simp: find_bindings bindings_remove_prefix mkeep_def gomap_ok_def split: option.splits)

text \<open>Shrinking forgets bindings but changes none, and spares the one written last.\<close>

lemma find_shrink: "ok c \<Longrightarrow> find k (shrink n c) = Some v \<Longrightarrow> find k c = Some v"
  using distinct_bindings [of c] by (auto simp: find_bindings bindings_shrink dest!: map_of_SomeD in_set_takeD)

lemma find_put_shrink [simp]: "ok c \<Longrightarrow> find k (shrink n (put k v c)) = Some v"
  by (simp add: find_bindings bindings_shrink bindings_put take_Cons split: nat.splits)

lemma find_put_shrink_other:
  "ok c \<Longrightarrow> find k (shrink n (put k' v c)) = Some w \<Longrightarrow> k \<noteq> k' \<Longrightarrow> find k c = Some w"
  by (auto dest: find_shrink [rotated])

lemma size_card: "ok c \<Longrightarrow> size c = card {k. find k c \<noteq> None}"
proof -
  assume ok: "ok c"
  have "{k. find k c \<noteq> None} = set (map fst (bindings c))"
    by (auto simp: find_bindings [OF ok] map_of_eq_None_iff)
  then show ?thesis using distinct_card [OF distinct_bindings [OF ok]] by (simp add: size_bindings [OF ok])
qed

lemma finite_find: "ok c \<Longrightarrow> finite {k. find k c \<noteq> None}"
  by (rule finite_subset [of _ "set (map fst (bindings c))"]) (auto simp: find_bindings map_of_eq_None_iff)

text \<open>A cache within its capacity keeps everything.\<close>

lemma find_shrink_fits: "ok c \<Longrightarrow> int (size c) \<le> n \<Longrightarrow> 0 < n \<Longrightarrow> find k (shrink n c) = find k c"
  by (simp add: find_bindings bindings_shrink size_bindings)

lemma size_shrink: "ok c \<Longrightarrow> size (shrink n c) \<le> (if n \<le> 0 then 1 else nat n)"
  by (simp add: size_bindings bindings_shrink)

lemma size_use [simp]: "ok c \<Longrightarrow> size (use k c) = size c"
proof -
  assume ok: "ok c"
  have "length (mdel k (bindings c)) = length (bindings c) - 1" if "map_of (bindings c) k = Some v" for v
  proof -
    have "k \<in> set (map fst (bindings c))" using that by (force dest: map_of_SomeD)
    moreover have "map fst (mdel k (bindings c)) = remove1 k (map fst (bindings c))"
      using distinct_bindings [OF ok] by (simp add: delete_keys distinct_remove1_removeAll)
    ultimately show ?thesis by (metis length_map length_remove1)
  qed
  moreover have "bindings c \<noteq> []" if "map_of (bindings c) k = Some v" for v using that by auto
  ultimately show ?thesis using ok by (auto simp: size_bindings bindings_use split: option.splits)
qed

lemma size_remove: "ok c \<Longrightarrow> size (remove k c) \<le> size c"
  by (simp add: size_bindings bindings_remove length_delete_le)

lemma size_poke [simp]: "ok c \<Longrightarrow> size (poke k v c) = size c"
proof -
  assume ok: "ok c"
  have "length (mset_at k v (bindings c)) = length (bindings c)" if "map_of (bindings c) k = Some w" for w
  proof -
    have "k \<in> fst ` set (bindings c)" using that by (force dest: map_of_SomeD)
    then have "map fst (mset_at k v (bindings c)) = map fst (bindings c)" by (simp add: update_keys)
    then show ?thesis by (metis length_map)
  qed
  then show ?thesis using ok by (auto simp: size_bindings bindings_poke split: option.splits)
qed

end

section \<open>The implementation provides the interface\<close>

definition le_bind :: "nat \<times> 'v lruEntry \<Rightarrow> string \<times> 'v" where
  "le_bind x = (le_key (snd x), le_value (snd x))"

definition lru_abs :: "'v lruCache \<Rightarrow> (string \<times> 'v) list" where
  "lru_abs c = map le_bind (lc_lru c)"

definition lru_ok :: "'v lruCache \<Rightarrow> bool" where
  "lru_ok c \<longleftrightarrow> gomap_ok (lc_lru c) \<and> gomap_ok (lru_abs c) \<and> gomap_ok (lc_entries c) \<and>
     (\<forall>k el. mget (lc_entries c) k = Some el \<longleftrightarrow> (\<exists>e. map_of (lc_lru c) el = Some e \<and> le_key e = k)) \<and>
     (\<forall>el e. map_of (lc_lru c) el = Some e \<longrightarrow> el < lc_next c)"

lemma lru_okD:
  assumes "lru_ok c"
  shows "distinct (map fst (lc_lru c))" "distinct (map fst (lru_abs c))" "gomap_ok (lc_entries c)"
    "mget (lc_entries c) k = Some el \<longleftrightarrow> (\<exists>e. map_of (lc_lru c) el = Some e \<and> le_key e = k)"
    "map_of (lc_lru c) el = Some e \<Longrightarrow> el < lc_next c"
  using assms by (auto simp: lru_ok_def gomap_ok_def)

text \<open>In a list with distinct elements and distinct keys, an element is found by either.\<close>

lemma element_key:
  assumes "distinct (map fst xs)" "distinct (map (fst \<circ> le_bind) xs)" "(el, e) \<in> set xs" "x \<in> set xs"
  shows "fst x = el \<longleftrightarrow> le_key (snd x) = le_key e"
proof -
  have "inj_on fst (set xs)" "inj_on (fst \<circ> le_bind) (set xs)" using assms by (simp_all add: distinct_map)
  then have "fst x = fst (el, e) \<Longrightarrow> x = (el, e)" "(fst \<circ> le_bind) x = (fst \<circ> le_bind) (el, e) \<Longrightarrow> x = (el, e)"
    using assms(3,4) by (blast dest: inj_onD)+
  then show ?thesis by (cases x) (auto simp: le_bind_def)
qed

lemma delete_element:
  assumes "distinct (map fst xs)" "distinct (map (fst \<circ> le_bind) xs)" "map_of xs el = Some e"
  shows "map le_bind (mdel el xs) = mdel (le_key e) (map le_bind xs)"
proof -
  have "(el, e) \<in> set xs" using assms(3) by (rule map_of_SomeD)
  then have "(case x of (k, v) \<Rightarrow> el \<noteq> k) = (case le_bind x of (k, v) \<Rightarrow> le_key e \<noteq> k)" if "x \<in> set xs" for x
    using element_key [OF assms(1,2) _ that, of el e] by (auto simp: le_bind_def split_beta)
  then show ?thesis
    unfolding AList.delete_eq filter_map by (intro arg_cong [where f = "map le_bind"] filter_cong refl) auto
qed

lemma map_of_abs:
  assumes "distinct (map fst xs)" "distinct (map (fst \<circ> le_bind) xs)" "map_of xs el = Some e"
  shows "map_of (map le_bind xs) (le_key e) = Some (le_value e)"
proof -
  have "(el, e) \<in> set xs" using assms(3) by (rule map_of_SomeD)
  then have "(le_key e, le_value e) \<in> set (map le_bind xs)" by (force simp: le_bind_def)
  then show ?thesis using assms(2) by (intro map_of_is_SomeI) simp_all
qed

lemma abs_None:
  assumes "lru_ok c" "mget (lc_entries c) k = None"
  shows "map_of (lru_abs c) k = None"
proof (rule ccontr)
  assume "map_of (lru_abs c) k \<noteq> None"
  then obtain x where x: "x \<in> set (lc_lru c)" "le_key (snd x) = k"
    by (auto simp: map_of_eq_None_iff lru_abs_def le_bind_def)
  then have "map_of (lc_lru c) (fst x) = Some (snd x)" using lru_okD(1) [OF assms(1)] by simp
  with x(2) lru_okD(4) [OF assms(1), of k "fst x"] assms(2) show False by auto
qed

lemma lru_get_abs: "lru_ok c \<Longrightarrow> lru_get k c = map_of (lru_abs c) k"
proof (cases "mget (lc_entries c) k")
  case None
  assume "lru_ok c"
  with None show ?thesis using abs_None [of c k] by (simp add: lru_get_def)
next
  case (Some el)
  assume ok: "lru_ok c"
  with Some obtain e where e: "map_of (lc_lru c) el = Some e" "le_key e = k" using lru_okD(4) by blast
  from map_of_abs [OF _ _ e(1)] lru_okD(1,2) [OF ok] e Some show ?thesis
    by (simp add: lru_get_def lru_abs_def o_def)
qed

lemma entries_Some:
  assumes "lru_ok c" "mget (lc_entries c) k = Some el"
  obtains e where "map_of (lc_lru c) el = Some e" "le_key e = k" "map_of (lru_abs c) k = Some (le_value e)"
    "map le_bind (mdel el (lc_lru c)) = mdel k (lru_abs c)"
proof -
  from assms obtain e where e: "map_of (lc_lru c) el = Some e" "le_key e = k" using lru_okD(4) by blast
  have d: "distinct (map fst (lc_lru c))" "distinct (map (fst \<circ> le_bind) (lc_lru c))"
    using lru_okD(1,2) [OF assms(1)] by (simp_all add: lru_abs_def)
  show thesis
    using that [OF e] map_of_abs [OF d e(1)] delete_element [OF d e(1)] e(2) by (simp add: lru_abs_def)
qed

text \<open>A new recency list for the same entries, one of which may have a new value.\<close>

lemma lru_ok_list:
  assumes ok: "lru_ok c" and el: "mget (lc_entries c) k = Some el" and key: "le_key e' = k"
    and ys: "map_of ys = (map_of (lc_lru c))(el \<mapsto> e')" "distinct (map fst ys)" "distinct (map (fst \<circ> le_bind) ys)"
  shows "lru_ok (c\<lparr>lc_lru := ys\<rparr>)"
proof -
  note old = lru_okD [OF ok]
  have "mget (lc_entries c) k' = Some x \<longleftrightarrow> (\<exists>e. map_of ys x = Some e \<and> le_key e = k')" for k' x
    using old(4) [of k' x] old(4) [of k x] el key by (auto simp: ys(1))
  moreover have "x < lc_next c" if "map_of ys x = Some e" for x e
    using that old(5) el old(4) [of k el] by (auto simp: ys(1) split: if_splits)
  ultimately show ?thesis
    using old(3) ys(2,3) unfolding lru_ok_def gomap_ok_def lru_abs_def by simp
qed

lemma distinct_front: "distinct (map fst xs) \<Longrightarrow> distinct (map fst ((k, v) # mdel k xs))"
  by (simp add: delete_keys distinct_removeAll)

lemma touch_lru:
  assumes ok: "lru_ok c"
  shows "lru_ok (touch k c)" "lru_abs (touch k c) =
    (case map_of (lru_abs c) k of None \<Rightarrow> lru_abs c | Some v \<Rightarrow> (k, v) # mdel k (lru_abs c))"
proof -
  have "lru_ok (touch k c) \<and> lru_abs (touch k c) =
    (case map_of (lru_abs c) k of None \<Rightarrow> lru_abs c | Some v \<Rightarrow> (k, v) # mdel k (lru_abs c))"
  proof (cases "mget (lc_entries c) k")
    case None
    with ok show ?thesis using abs_None [OF ok None] by (simp add: touch_def)
  next
    case (Some el)
    from ok Some obtain e where e: "map_of (lc_lru c) el = Some e" "le_key e = k"
      "map_of (lru_abs c) k = Some (le_value e)" "map le_bind (mdel el (lc_lru c)) = mdel k (lru_abs c)"
      by (rule entries_Some)
    let ?ys = "(el, e) # mdel el (lc_lru c)"
    have abs: "map le_bind ?ys = (k, le_value e) # mdel k (lru_abs c)" using e by (simp add: le_bind_def)
    have "lru_ok (c\<lparr>lc_lru := ?ys\<rparr>)"
    proof (rule lru_ok_list [OF ok Some e(2)])
      show "map_of ?ys = (map_of (lc_lru c))(el \<mapsto> e)" by (simp add: delete_conv fun_eq_iff)
      show "distinct (map fst ?ys)" using lru_okD(1) [OF ok] by (rule distinct_front)
      show "distinct (map (fst \<circ> le_bind) ?ys)"
        using distinct_front [OF lru_okD(2) [OF ok]] unfolding abs map_map [symmetric] .
    qed
    with Some e abs show ?thesis by (simp add: touch_def move_to_front_def lru_abs_def)
  qed
  then show "lru_ok (touch k c)" "lru_abs (touch k c) =
    (case map_of (lru_abs c) k of None \<Rightarrow> lru_abs c | Some v \<Rightarrow> (k, v) # mdel k (lru_abs c))" by auto
qed

lemma mdel_none: "map_of xs k = None \<Longrightarrow> mdel k xs = xs"
  by (simp add: map_of_eq_None_iff delete_idem)

lemma mdel_update: "mdel k (mset_at k v xs) = mdel k xs"
  by (induction xs) auto

lemma map_le_bind_update:
  assumes "distinct (map fst xs)" "distinct (map (fst \<circ> le_bind) xs)" "map_of xs el = Some e" "le_key e' = le_key e"
  shows "map le_bind (mset_at el e' xs) = mset_at (le_key e) (le_value e') (map le_bind xs)"
  using assms
proof (induction xs)
  case (Cons x xs)
  obtain el' e1 where x: "x = (el', e1)" by (cases x)
  show ?case
  proof (cases "el' = el")
    case True
    with Cons.prems show ?thesis by (simp add: x le_bind_def)
  next
    case False
    with Cons.prems have "map_of xs el = Some e" by (simp add: x)
    then have "le_key e1 \<noteq> le_key e" using Cons.prems(2) by (force simp: x le_bind_def dest: map_of_SomeD)
    with False Cons show ?thesis by (simp add: x le_bind_def)
  qed
qed simp

lemma lru_set_lru:
  assumes ok: "lru_ok c"
  shows "lru_ok (lru_set k v c) \<and> lru_abs (lru_set k v c) = (k, v) # mdel k (lru_abs c)"
proof (cases "mget (lc_entries c) k")
  case None
  let ?e = "\<lparr>le_key = k, le_value = v\<rparr>"
  note old = lru_okD [OF ok]
  have fresh: "map_of (lc_lru c) (lc_next c) = None" using old(5) by (meson less_irrefl option.exhaust)
  have none: "map_of (lru_abs c) k = None" by (rule abs_None [OF ok None])
  have abs: "lru_abs (lru_set k v c) = (k, v) # lru_abs c"
    using None by (simp add: lru_set_def lru_abs_def le_bind_def)
  have "mget (mset_at k (lc_next c) (lc_entries c)) k' = Some x \<longleftrightarrow>
      (\<exists>e. map_of ((lc_next c, ?e) # lc_lru c) x = Some e \<and> le_key e = k')" for k' x
    using old(4) [of k' x] None fresh by (cases "x = lc_next c") auto
  moreover have "x < Suc (lc_next c)" if "map_of ((lc_next c, ?e) # lc_lru c) x = Some e" for x e
    using that old(5) [of x e] by (auto split: if_splits)
  moreover have "distinct (map fst ((lc_next c, ?e) # lc_lru c))"
    using old(1) fresh by (simp add: map_of_eq_None_iff)
  moreover have "distinct (map fst (lru_abs (lru_set k v c)))"
    using old(2) none unfolding abs by (simp add: map_of_eq_None_iff)
  ultimately have "lru_ok (lru_set k v c)"
    using old(3) None unfolding lru_ok_def by (simp add: lru_set_def gomap_ok_def distinct_update)
  moreover have "mdel k (lru_abs c) = lru_abs c" by (rule mdel_none [OF none])
  ultimately show ?thesis using abs by simp
next
  case (Some el)
  let ?e = "\<lparr>le_key = k, le_value = v\<rparr>"
  from ok Some obtain e where e: "map_of (lc_lru c) el = Some e" "le_key e = k"
    "map_of (lru_abs c) k = Some (le_value e)" "map le_bind (mdel el (lc_lru c)) = mdel k (lru_abs c)"
    by (rule entries_Some)
  let ?ys = "(el, ?e) # mdel el (lc_lru c)"
  have abs: "map le_bind ?ys = (k, v) # mdel k (lru_abs c)" using e by (simp add: le_bind_def)
  have "lru_ok (c\<lparr>lc_lru := ?ys\<rparr>)"
  proof (rule lru_ok_list [OF ok Some])
    show "map_of ?ys = (map_of (lc_lru c))(el \<mapsto> ?e)" by (simp add: delete_conv fun_eq_iff)
    show "distinct (map fst ?ys)" using lru_okD(1) [OF ok] by (rule distinct_front)
    show "distinct (map (fst \<circ> le_bind) ?ys)"
      using distinct_front [OF lru_okD(2) [OF ok]] unfolding abs map_map [symmetric] .
  qed simp
  with Some e abs show ?thesis by (simp add: lru_set_def move_to_front_def lru_abs_def mdel_update)
qed

lemma lru_poke_lru:
  assumes ok: "lru_ok c"
  shows "lru_ok (lru_poke k v c) \<and> lru_abs (lru_poke k v c) =
    (case map_of (lru_abs c) k of None \<Rightarrow> lru_abs c | Some _ \<Rightarrow> mset_at k v (lru_abs c))"
proof (cases "mget (lc_entries c) k")
  case None
  with ok show ?thesis using abs_None [OF ok None] by (simp add: lru_poke_def)
next
  case (Some el)
  let ?e = "\<lparr>le_key = k, le_value = v\<rparr>"
  from ok Some obtain e where e: "map_of (lc_lru c) el = Some e" "le_key e = k" "map_of (lru_abs c) k = Some (le_value e)"
    by (rule entries_Some)
  let ?ys = "mset_at el ?e (lc_lru c)"
  have d: "distinct (map fst (lc_lru c))" "distinct (map (fst \<circ> le_bind) (lc_lru c))"
    using lru_okD(1,2) [OF ok] by (simp_all add: lru_abs_def)
  have abs: "map le_bind ?ys = mset_at k v (lru_abs c)"
    using map_le_bind_update [OF d e(1), of ?e] e(2) by (simp add: lru_abs_def)
  have "lru_ok (c\<lparr>lc_lru := ?ys\<rparr>)"
  proof (rule lru_ok_list [OF ok Some])
    show "map_of ?ys = (map_of (lc_lru c))(el \<mapsto> ?e)" by (simp add: update_conv')
    show "distinct (map fst ?ys)" using d(1) by (rule distinct_update)
    show "distinct (map (fst \<circ> le_bind) ?ys)"
      using distinct_update [OF lru_okD(2) [OF ok]] unfolding abs map_map [symmetric] .
  qed simp
  with Some e abs show ?thesis by (simp add: lru_poke_def lru_abs_def)
qed

text \<open>Dropping an element together with its key.\<close>

lemma lru_ok_drop:
  assumes ok: "lru_ok c" and e: "map_of (lc_lru c) el = Some e"
  shows "lru_ok (c\<lparr>lc_entries := mdel (le_key e) (lc_entries c), lc_lru := mdel el (lc_lru c)\<rparr>)"
proof -
  note old = lru_okD [OF ok]
  have k: "mget (lc_entries c) (le_key e) = Some el" using old(4) e by blast
  have d: "distinct (map fst (lc_lru c))" "distinct (map (fst \<circ> le_bind) (lc_lru c))"
    using old(1,2) by (simp_all add: lru_abs_def)
  have "map le_bind (mdel el (lc_lru c)) = mdel (le_key e) (lru_abs c)"
    using delete_element [OF d e] by (simp add: lru_abs_def)
  then have "distinct (map (fst \<circ> le_bind) (mdel el (lc_lru c)))"
    using old(2) by (simp add: delete_keys distinct_removeAll flip: map_map)
  moreover have "mget (mdel (le_key e) (lc_entries c)) k' = Some x \<longleftrightarrow>
      (\<exists>e. map_of (mdel el (lc_lru c)) x = Some e \<and> le_key e = k')" for k' x
    using old(4) [of k' x] old(4) [of k' el] k e by auto
  ultimately show ?thesis
    using old(1,3,5) by (auto simp: lru_ok_def gomap_ok_def lru_abs_def delete_keys distinct_removeAll split: if_splits)
qed

lemma lru_delete_lru:
  assumes ok: "lru_ok c"
  shows "lru_ok (lru_delete k c) \<and> lru_abs (lru_delete k c) = mdel k (lru_abs c)"
proof (cases "mget (lc_entries c) k")
  case None
  with ok mdel_none [OF abs_None [OF ok None]] show ?thesis by (simp add: lru_delete_def)
next
  case (Some el)
  from ok Some obtain e where e: "map_of (lc_lru c) el = Some e" "le_key e = k"
    "map le_bind (mdel el (lc_lru c)) = mdel k (lru_abs c)" by (rule entries_Some)
  with lru_ok_drop [OF ok e(1)] Some show ?thesis by (simp add: lru_delete_def lru_abs_def)
qed

lemma mdel_last: "distinct (map fst xs) \<Longrightarrow> xs \<noteq> [] \<Longrightarrow> mdel (fst (last xs)) xs = butlast xs"
proof (induction xs rule: rev_induct)
  case (snoc x xs)
  then have "fst x \<notin> fst ` set xs" by auto
  then have "mdel (fst x) xs = xs" by (simp add: delete_idem)
  then show ?case by (simp add: AList.delete_eq split_beta)
qed simp

lemma evict_loop_lru:
  "lru_ok c \<Longrightarrow> lru_ok (evict_loop n c) \<and> lru_abs (evict_loop n c) = take n (lru_abs c)"
proof (induction n c rule: evict_loop.induct)
  case (1 n c)
  show ?case
  proof (cases "n < length (lc_lru c)")
    case True
    let ?x = "last (lc_lru c)"
    have ne: "lc_lru c \<noteq> []" using True by auto
    have d: "distinct (map fst (lc_lru c))" using lru_okD(1) [OF "1.prems"] .
    have "map_of (lc_lru c) (fst ?x) = Some (snd ?x)" using d ne by simp
    from lru_ok_drop [OF "1.prems" this] mdel_last [OF d ne]
    have "lru_ok (c\<lparr>lc_entries := mdel (le_key (snd ?x)) (lc_entries c), lc_lru := butlast (lc_lru c)\<rparr>)" by simp
    from "1.IH" [OF True this] True show ?thesis
      by (simp add: evict_loop.simps [of n c] lru_abs_def take_map take_butlast)
  qed (simp add: evict_loop.simps [of n c] "1.prems" lru_abs_def)
qed

lemma lru_entries_keys: "lru_ok c \<Longrightarrow> set (map fst (lc_entries c)) = set (map fst (lru_abs c))"
proof (rule set_eqI)
  fix k assume ok: "lru_ok c"
  have "k \<in> set (map fst (lc_entries c)) \<longleftrightarrow> mget (lc_entries c) k \<noteq> None"
    by (simp add: map_of_eq_None_iff)
  also have "\<dots> \<longleftrightarrow> map_of (lru_abs c) k \<noteq> None"
  proof (cases "mget (lc_entries c) k")
    case None
    with abs_None [OF ok] show ?thesis by simp
  next
    case (Some el)
    from ok Some show ?thesis by (rule entries_Some) (simp add: Some)
  qed
  also have "\<dots> \<longleftrightarrow> k \<in> set (map fst (lru_abs c))" by (simp add: map_of_eq_None_iff)
  finally show "k \<in> set (map fst (lc_entries c)) \<longleftrightarrow> k \<in> set (map fst (lru_abs c))" .
qed

lemma fold_delete_lru:
  "lru_ok c \<Longrightarrow> lru_ok (fold lru_delete ks c) \<and>
     lru_abs (fold lru_delete ks c) = filter (\<lambda>(k, v). k \<notin> set ks) (lru_abs c)"
proof (induction ks arbitrary: c)
  case (Cons k ks)
  have "filter (\<lambda>(k', v). k' \<notin> set ks) (mdel k (lru_abs c)) = filter (\<lambda>(k', v). k' \<notin> set (k # ks)) (lru_abs c)"
    by (auto simp: AList.delete_eq intro!: filter_cong)
  with Cons.IH [of "lru_delete k c"] lru_delete_lru [OF Cons.prems, of k] show ?case by simp
qed (simp add: split_beta)

lemma deletePrefix_lru:
  assumes ok: "lru_ok c"
  shows "lru_ok (deletePrefix p c) \<and> lru_abs (deletePrefix p c) = filter (\<lambda>(k, v). \<not> HasPrefix k p) (lru_abs c)"
proof -
  have "filter (\<lambda>(k, v). k \<notin> set (filter (\<lambda>k. HasPrefix k p) (map fst (lc_entries c)))) (lru_abs c) =
      filter (\<lambda>(k, v). \<not> HasPrefix k p) (lru_abs c)"
    using lru_entries_keys [OF ok] by (intro filter_cong refl) (force simp: split_beta)
  with fold_delete_lru [OF ok] show ?thesis by (simp add: deletePrefix_def)
qed

lemma lru_len_lru: "lru_ok c \<Longrightarrow> lru_len c = length (lru_abs c)"
  using lru_entries_keys [of c] lru_okD(2,3) [of c] distinct_card [of "map fst (lc_entries c)"]
    distinct_card [of "map fst (lru_abs c)"]
  by (simp add: lru_len_def gomap_ok_def)

interpretation lru: recency_cache lru_ok lru_abs newLRUCache lru_get touch lru_set lru_poke evict lru_delete deletePrefix lru_len
proof unfold_locales
  show "lru_ok newLRUCache" by (simp add: lru_ok_def newLRUCache_def lru_abs_def)
  show "lru_abs newLRUCache = []" by (simp add: newLRUCache_def lru_abs_def)
qed (simp_all add: touch_lru lru_set_lru lru_poke_lru lru_delete_lru deletePrefix_lru lru_len_lru lru_get_abs evict_def evict_loop_lru
      lru_okD(2))

section \<open>Refinement\<close>

datatype 'v lru_op = Touch string | Set string 'v | Poke string 'v | Evict int | Delete string | DeletePrefix string

fun lru_step :: "'v lru_op \<Rightarrow> 'v lruCache \<Rightarrow> 'v lruCache" where
  "lru_step (Touch k) = touch k"
| "lru_step (Set k v) = lru_set k v"
| "lru_step (Poke k v) = lru_poke k v"
| "lru_step (Evict n) = evict n"
| "lru_step (Delete k) = lru_delete k"
| "lru_step (DeletePrefix p) = deletePrefix p"

text \<open>The specification: a plain list of bindings, the most recent first.\<close>

fun recency_step :: "'v lru_op \<Rightarrow> (string \<times> 'v) list \<Rightarrow> (string \<times> 'v) list" where
  "recency_step (Touch k) xs = (case map_of xs k of None \<Rightarrow> xs | Some v \<Rightarrow> (k, v) # filter (\<lambda>b. fst b \<noteq> k) xs)"
| "recency_step (Set k v) xs = (k, v) # filter (\<lambda>b. fst b \<noteq> k) xs"
| "recency_step (Poke k v) xs = map (\<lambda>b. if fst b = k then (k, v) else b) xs"
| "recency_step (Evict n) xs = take (nat (max 1 n)) xs"
| "recency_step (Delete k) xs = filter (\<lambda>b. fst b \<noteq> k) xs"
| "recency_step (DeletePrefix p) xs = filter (\<lambda>b. \<not> HasPrefix (fst b) p) xs"

lemma mdel_filter: "mdel k xs = filter (\<lambda>b. fst b \<noteq> k) xs"
  by (auto simp: AList.delete_eq split_beta intro!: filter_cong)

lemma map_absent: "k \<notin> fst ` set xs \<Longrightarrow> map (\<lambda>b. if fst b = k then (k, v) else b) xs = xs"
  by (rule map_idI) (auto simp: image_iff)

lemma update_map:
  assumes "distinct (map fst xs)" "map_of xs k = Some w"
  shows "mset_at k v xs = map (\<lambda>b. if fst b = k then (k, v) else b) xs"
  using assms
proof (induction xs)
  case (Cons x xs)
  show ?case
  proof (cases "fst x = k")
    case True
    with Cons.prems(1) have "map (\<lambda>b. if fst b = k then (k, v) else b) xs = xs" by (intro map_absent) simp
    with True show ?thesis by (cases x) simp
  next
    case False
    with Cons show ?thesis by (cases x) simp
  qed
qed simp

lemma lru_step_refines: "lru_ok c \<Longrightarrow> lru_ok (lru_step op c) \<and> lru_abs (lru_step op c) = recency_step op (lru_abs c)"
proof (cases op)
  case (Poke k v)
  assume ok: "lru_ok c"
  show ?thesis
    using ok lru_okD(2) [OF ok] Poke by (auto simp: lru.bindings_poke update_map map_absent map_of_eq_None_iff split: option.splits)
next
  case (DeletePrefix p)
  assume "lru_ok c"
  then show ?thesis by (simp add: DeletePrefix lru.bindings_remove_prefix case_prod_unfold)
qed (auto simp: lru.bindings_use lru.bindings_put lru.bindings_shrink lru.bindings_remove mdel_filter max_def split: option.split)

text \<open>
  The map and the linked list of the cache stay consistent: after any sequence of operations the cache is
  exactly the recency-ordered list of bindings that the same operations give on a plain
  list, lookups and the size agree with it, and an eviction leaves at most the capacity.
\<close>

lemma lru_refines_recency_list:
  "lru_abs (fold lru_step ops newLRUCache) = fold recency_step ops [] \<and>
   lru_get k (fold lru_step ops newLRUCache) = map_of (fold recency_step ops []) k \<and>
   lru_len (evict n (fold lru_step ops newLRUCache)) = min (nat (max 1 n)) (length (fold recency_step ops []))"
proof -
  have "lru_ok (fold lru_step ops c) \<and> lru_abs (fold lru_step ops c) = fold recency_step ops (lru_abs c)" if "lru_ok c" for c
    using that
  proof (induction ops arbitrary: c)
    case (Cons op ops)
    with lru_step_refines [OF Cons.prems, of op] show ?case by simp
  qed simp
  from this [OF lru.ok_new] show ?thesis
    by (simp add: lru.bindings_new lru.find_bindings lru.size_bindings lru.bindings_shrink lru.ok_shrink min.commute max_def)
qed

end
