(* ===== verification/RouteCache.thy ===== *)
theory RouteCache
  imports Lru
begin

text \<open>
  The edge's route cache (\<open>internal/edge/edge.go\<close>): fresh hits, negative entries, serve-stale and the
  revision guard, with one origin load in flight per key. A \<open>Get\<close> that has to load consists of two
  critical sections with the load between them; they are separate operations here, and other
  calls may run in between. Times are nanoseconds; a route value is anything with a revision.
\<close>

section \<open>State\<close>

record 'r CachedRoute =
  cr_Value :: "'r option"
  cr_FetchedAt :: int
  cr_Revision :: int

datatype route_err = ErrNotFound | ErrBeyondStale | ErrLoad string

text \<open>A result: a value and whether it is served as last-known-good.\<close>

type_synonym 'r route_result = "route_err + 'r \<times> bool"

record 'r RouteCache =
  rc_FreshTTL :: int
  rc_StaleWindow :: int
  rc_MaxEntries :: int
  rc_cache :: "'r CachedRoute lruCache"
  rc_flights :: "(string, nat) gomap"
  rc_results :: "(nat, 'r route_result) gomap"
  rc_nextFlight :: nat
  rc_revisionRejects :: u64

definition defaultRouteCacheMaxEntries :: int where
  "defaultRouteCacheMaxEntries = 10000"

definition NewRouteCache :: "int \<Rightarrow> int \<Rightarrow> 'r RouteCache" where
  "NewRouteCache fresh stale =
     \<lparr>rc_FreshTTL = fresh, rc_StaleWindow = stale, rc_MaxEntries = defaultRouteCacheMaxEntries, rc_cache = newLRUCache,
      rc_flights = [], rc_results = [], rc_nextFlight = 0, rc_revisionRejects = 0\<rparr>"

definition route_maxEntries :: "'r RouteCache \<Rightarrow> int" where
  "route_maxEntries c = (if 0 < rc_MaxEntries c then rc_MaxEntries c else defaultRouteCacheMaxEntries)"

definition negativeTTL :: int where
  "negativeTTL = 5 * 1000000000"

section \<open>Get\<close>

text \<open>
  What the first critical section of \<open>Get\<close> decides: an answer, waiting for the flight of another call,
  or leading a flight with the entry seen at that time.
\<close>

datatype 'r lookup = Answer "'r route_result" | Join nat | Lead nat "'r CachedRoute option"

definition route_begin :: "int \<Rightarrow> string \<Rightarrow> 'r RouteCache \<Rightarrow> 'r lookup \<times> 'r RouteCache" where
  "route_begin now key c =
     (let c1 = c\<lparr>rc_cache := touch key (rc_cache c)\<rparr>;
          load = (\<lambda>found.
            case mget (rc_flights c) key of
              Some fl \<Rightarrow> (Join fl, c)
            | None \<Rightarrow>
                (let fl = rc_nextFlight c in
                 (Lead fl found, c\<lparr>rc_flights := mset_at key fl (rc_flights c), rc_nextFlight := Suc fl\<rparr>))) in
      case lru_get key (rc_cache c) of
        None \<Rightarrow> load None
      | Some e \<Rightarrow>
          (case cr_Value e of
             None \<Rightarrow> if now - cr_FetchedAt e < negativeTTL then (Answer (Inl ErrNotFound), c1) else load (Some e)
           | Some v \<Rightarrow> if now - cr_FetchedAt e < rc_FreshTTL c then (Answer (Inr (v, False)), c1) else load (Some e)))"

text \<open>The outcome of the load, with no value and no error read as not found.\<close>

definition origin :: "(route_err + 'r option) \<Rightarrow> route_err + 'r" where
  "origin loaded = (case loaded of Inl e \<Rightarrow> Inl e | Inr None \<Rightarrow> Inl ErrNotFound | Inr (Some v) \<Rightarrow> Inr v)"

text \<open>The second critical section: \<open>seen\<close> and \<open>now\<close> are from the first one.\<close>

definition store_route :: "string \<Rightarrow> 'r CachedRoute \<Rightarrow> 'r RouteCache \<Rightarrow> 'r RouteCache" where
  "store_route key e c = c\<lparr>rc_cache := evict (route_maxEntries c) (lru_set key e (rc_cache c))\<rparr>"

text \<open>The guard: a cached value of a higher revision than the loaded one.\<close>

definition newer_cached :: "int \<Rightarrow> string \<Rightarrow> 'r RouteCache \<Rightarrow> 'r option" where
  "newer_cached r key c =
     (case lru_get key (rc_cache c) of
        None \<Rightarrow> None
      | Some cur \<Rightarrow> if cr_Value cur \<noteq> None \<and> r < cr_Revision cur then cr_Value cur else None)"

definition settle_route :: "('r \<Rightarrow> int) \<Rightarrow> int \<Rightarrow> string \<Rightarrow> 'r CachedRoute option \<Rightarrow> (route_err + 'r option) \<Rightarrow>
    'r RouteCache \<Rightarrow> 'r route_result \<times> 'r RouteCache" where
  "settle_route rev_of now key seen loaded c =
     (case origin loaded of
        Inr v \<Rightarrow>
          (case newer_cached (rev_of v) key c of
             Some w \<Rightarrow> (Inr (w, True), c\<lparr>rc_revisionRejects := rc_revisionRejects c + 1, rc_cache := touch key (rc_cache c)\<rparr>)
           | None \<Rightarrow> (Inr (v, False), store_route key \<lparr>cr_Value = Some v, cr_FetchedAt = now, cr_Revision = rev_of v\<rparr> c))
      | Inl err \<Rightarrow>
          if err = ErrNotFound then
            (let r = (case lru_get key (rc_cache c) of Some cur \<Rightarrow> cr_Revision cur | None \<Rightarrow> 0) in
             (Inl ErrNotFound, store_route key \<lparr>cr_Value = None, cr_FetchedAt = now, cr_Revision = r\<rparr> c))
          else
            (case seen of
               None \<Rightarrow> (Inl err, c)
             | Some e \<Rightarrow>
                 (case cr_Value e of
                    None \<Rightarrow> (Inl err, c)
                  | Some v \<Rightarrow>
                      if now - cr_FetchedAt e < rc_StaleWindow c
                      then (Inr (v, True), c\<lparr>rc_cache := touch key (rc_cache c)\<rparr>)
                      else (Inl ErrBeyondStale, c))))"

definition route_finish :: "('r \<Rightarrow> int) \<Rightarrow> int \<Rightarrow> string \<Rightarrow> nat \<Rightarrow> 'r CachedRoute option \<Rightarrow> (route_err + 'r option) \<Rightarrow>
    'r RouteCache \<Rightarrow> 'r route_result \<times> 'r RouteCache" where
  "route_finish rev_of now key fl seen loaded c =
     (let (res, c1) = settle_route rev_of now key seen loaded c;
          c2 = c1\<lparr>rc_results := mset_at fl res (rc_results c1)\<rparr> in
      (res, if mget (rc_flights c2) key = Some fl then c2\<lparr>rc_flights := mdel key (rc_flights c2)\<rparr> else c2))"

definition route_Invalidate :: "string \<Rightarrow> 'r RouteCache \<Rightarrow> 'r RouteCache" where
  "route_Invalidate key c = c\<lparr>rc_cache := lru_delete key (rc_cache c), rc_flights := mdel key (rc_flights c)\<rparr>"

text \<open>A \<open>Get\<close> that meets no other call for its key.\<close>

definition route_Get :: "('r \<Rightarrow> int) \<Rightarrow> int \<Rightarrow> string \<Rightarrow> (route_err + 'r option) \<Rightarrow> 'r RouteCache \<Rightarrow> 'r route_result option \<times> 'r RouteCache" where
  "route_Get rev_of now key loaded c =
     (case route_begin now key c of
        (Answer r, c1) \<Rightarrow> (Some r, c1)
      | (Join fl, c1) \<Rightarrow> (mget (rc_results c1) fl, c1)
      | (Lead fl seen, c1) \<Rightarrow> (let (r, c2) = route_finish rev_of now key fl seen loaded c1 in (Some r, c2)))"

definition cached :: "string \<Rightarrow> 'r RouteCache \<Rightarrow> 'r CachedRoute option" where
  "cached key c = lru_get key (rc_cache c)"

section \<open>Serving\<close>

definition route_ok :: "'r RouteCache \<Rightarrow> bool" where
  "route_ok c \<longleftrightarrow> lru_ok (rc_cache c) \<and> int (lru_len (rc_cache c)) \<le> route_maxEntries c"

lemma route_max_pos: "0 < route_maxEntries c"
  by (simp add: route_maxEntries_def defaultRouteCacheMaxEntries_def)

lemma route_maxEntries_simps [simp]:
  "route_maxEntries (c\<lparr>rc_cache := x\<rparr>) = route_maxEntries c" "route_maxEntries (c\<lparr>rc_flights := f\<rparr>) = route_maxEntries c"
  "route_maxEntries (c\<lparr>rc_results := r\<rparr>) = route_maxEntries c" "route_maxEntries (c\<lparr>rc_nextFlight := n\<rparr>) = route_maxEntries c"
  "route_maxEntries (c\<lparr>rc_revisionRejects := q\<rparr>) = route_maxEntries c"
  by (simp_all add: route_maxEntries_def)

lemma route_ok_simps [simp]:
  "route_ok (c\<lparr>rc_flights := f\<rparr>) = route_ok c" "route_ok (c\<lparr>rc_results := r\<rparr>) = route_ok c"
  "route_ok (c\<lparr>rc_nextFlight := n\<rparr>) = route_ok c" "route_ok (c\<lparr>rc_revisionRejects := q\<rparr>) = route_ok c"
  by (simp_all add: route_ok_def)

lemma route_ok_touch [simp]: "route_ok c \<Longrightarrow> route_ok (c\<lparr>rc_cache := touch key (rc_cache c)\<rparr>)"
  by (simp add: route_ok_def)

lemma route_ok_store [simp]:
  assumes "route_ok c"
  shows "route_ok (store_route key e c)"
proof -
  have "lru_ok (lru_set key e (rc_cache c))" using assms by (simp add: route_ok_def)
  from lru.size_shrink [OF this, of "route_maxEntries c"] route_max_pos [of c] assms show ?thesis
    by (auto simp: route_ok_def store_route_def)
qed

lemma route_begin_ok: "route_ok c \<Longrightarrow> route_ok (snd (route_begin now key c))"
  by (auto simp: route_begin_def Let_def split: option.splits)

lemma route_ok_reject [simp]:
  "route_ok c \<Longrightarrow> route_ok (c\<lparr>rc_revisionRejects := q, rc_cache := touch key (rc_cache c)\<rparr>)"
  by (simp add: route_ok_def)

lemma settle_ok: "route_ok c \<Longrightarrow> route_ok (snd (settle_route rev_of now key seen loaded c))"
  by (auto simp: settle_route_def Let_def split: option.splits sum.splits)

lemma route_finish_ok: "route_ok c \<Longrightarrow> route_ok (snd (route_finish rev_of now key fl seen loaded c))"
  using settle_ok [of c rev_of now key seen loaded] by (auto simp: route_finish_def split_beta Let_def)

lemma route_Invalidate_ok: "route_ok c \<Longrightarrow> route_ok (route_Invalidate key c)"
  using lru.size_remove [of "rc_cache c" key] by (auto simp: route_ok_def route_Invalidate_def)

lemma route_Get_ok:
  assumes "route_ok c"
  shows "route_ok (snd (route_Get rev_of now key loaded c))"
proof -
  obtain l c1 where b: "route_begin now key c = (l, c1)" by (cases "route_begin now key c")
  then have "route_ok c1" using route_begin_ok [OF assms, of now key] by simp
  then show ?thesis
    using route_finish_ok [of c1 rev_of now key _ _ loaded] by (cases l) (simp_all add: route_Get_def b split_beta)
qed

text \<open>
  Which value a request gets. An answer is the value the origin just gave; or the cached one while it
  is fresh; or, marked as last-known-good, the cached one when the origin fails within the stale
  window of that entry or returns an older revision of it. In particular a route the origin reports as
  deleted is never served from the cache once its entry is not fresh.
\<close>

lemma route_Get_serves:
  assumes "route_ok c" "mget (rc_flights c) key = None"
    "fst (route_Get rev_of now key loaded c) = Some (Inr (v, stale))"
  shows "(origin loaded = Inr v \<and> \<not> stale) \<or>
    (\<exists>e. cached key c = Some e \<and> cr_Value e = Some v \<and>
       (\<not> stale \<and> now - cr_FetchedAt e < rc_FreshTTL c \<or>
        stale \<and> (\<exists>err. origin loaded = Inl err \<and> err \<noteq> ErrNotFound) \<and> now - cr_FetchedAt e < rc_StaleWindow c \<or>
        stale \<and> (\<exists>w. origin loaded = Inr w \<and> rev_of w < cr_Revision e)))"
  using assms(2,3)
  by (auto simp: route_Get_def route_begin_def route_finish_def settle_route_def newer_cached_def cached_def Let_def
      split: option.splits sum.splits if_splits)

definition example_routes :: "int RouteCache" where
  "example_routes = (NewRouteCache 10 100)\<lparr>rc_cache := lru_set ''h'' \<lparr>cr_Value = Some 5, cr_FetchedAt = 0, cr_Revision = 5\<rparr> newLRUCache\<rparr>"

lemma example_routes_ok: "route_ok example_routes"
  by (simp add: route_ok_def example_routes_def NewRouteCache_def route_maxEntries_def defaultRouteCacheMaxEntries_def
      lru.size_bindings lru.bindings_put lru.bindings_new)

lemma example_routes_stale:
  "mget (rc_flights example_routes) ''h'' = None"
  "fst (route_Get id 50 ''h'' (Inl (ErrLoad ''dial'')) example_routes) = Some (Inr (5, True))"
  by code_simp+

lemma route_Get_serves_witness:
  "\<exists>e. cached ''h'' example_routes = Some e \<and> cr_Value e = Some 5 \<and> 50 - cr_FetchedAt e < rc_StaleWindow example_routes"
  using route_Get_serves [OF example_routes_ok example_routes_stale] by (auto simp: origin_def)

section \<open>Revisions\<close>

text \<open>
  Calls interleave: \<open>pending\<close> are the leaders between their two critical sections, with the flight, the
  key, the entry seen and the time of the call.
\<close>

type_synonym 'r leader = "nat \<times> string \<times> 'r CachedRoute option \<times> int"

inductive route_step :: "('r \<Rightarrow> int) \<Rightarrow> 'r RouteCache \<times> 'r leader list \<Rightarrow> 'r RouteCache \<times> 'r leader list \<Rightarrow> bool"
  for rev_of where
  answered: "route_begin now key c = (Answer r, c') \<Longrightarrow> route_step rev_of (c, pending) (c', pending)"
| joined: "route_begin now key c = (Join fl, c') \<Longrightarrow> route_step rev_of (c, pending) (c', pending)"
| leading: "route_begin now key c = (Lead fl seen, c') \<Longrightarrow> route_step rev_of (c, pending) (c', (fl, key, seen, now) # pending)"
| loaded: "(fl, key, seen, now) \<in> set pending \<Longrightarrow>
     route_step rev_of (c, pending) (snd (route_finish rev_of now key fl seen ld c), remove1 (fl, key, seen, now) pending)"
| invalidated: "route_step rev_of (c, pending) (route_Invalidate key c, pending)"

definition live_rev :: "string \<Rightarrow> 'r RouteCache \<Rightarrow> int option" where
  "live_rev key c =
     (case cached key c of None \<Rightarrow> None | Some e \<Rightarrow> if cr_Value e = None then None else Some (cr_Revision e))"

lemma cached_touch [simp]: "route_ok c \<Longrightarrow> cached k (c\<lparr>rc_cache := touch key (rc_cache c)\<rparr>) = cached k c"
  by (simp add: cached_def route_ok_def)

lemma live_rev_simps [simp]:
  "live_rev k (c\<lparr>rc_flights := f\<rparr>) = live_rev k c" "live_rev k (c\<lparr>rc_results := r\<rparr>) = live_rev k c"
  "live_rev k (c\<lparr>rc_nextFlight := n\<rparr>) = live_rev k c" "live_rev k (c\<lparr>rc_revisionRejects := q\<rparr>) = live_rev k c"
  by (simp_all add: live_rev_def cached_def)

lemma live_rev_touch [simp]:
  "route_ok c \<Longrightarrow> live_rev k (c\<lparr>rc_cache := touch key (rc_cache c)\<rparr>) = live_rev k c"
  "route_ok c \<Longrightarrow> live_rev k (c\<lparr>rc_revisionRejects := q, rc_cache := touch key (rc_cache c)\<rparr>) = live_rev k c"
  by (simp_all add: live_rev_def cached_def route_ok_def)

lemma live_rev_begin: "route_ok c \<Longrightarrow> live_rev k (snd (route_begin now key c)) = live_rev k c"
  by (auto simp: route_begin_def Let_def split: option.splits)

lemma route_begin_keeps:
  "route_begin now key c = (r, c') \<Longrightarrow> route_ok c \<Longrightarrow> route_ok c'"
  "route_begin now key c = (r, c') \<Longrightarrow> route_ok c \<Longrightarrow> live_rev k c' = live_rev k c"
  using route_begin_ok [of c now key] live_rev_begin [of c k now key] by auto

lemma live_rev_store:
  assumes "route_ok c" "live_rev k (store_route key e c) = Some r"
  shows "if k = key then cr_Value e \<noteq> None \<and> r = cr_Revision e else live_rev k c = Some r"
proof -
  have ok: "lru_ok (rc_cache c)" using assms(1) by (simp add: route_ok_def)
  obtain e' where e': "lru_get k (evict (route_maxEntries c) (lru_set key e (rc_cache c))) = Some e'" "cr_Value e' \<noteq> None" "r = cr_Revision e'"
    using assms(2) by (auto simp: live_rev_def cached_def store_route_def split: option.splits if_splits)
  show ?thesis
  proof (cases "k = key")
    case True
    with e' ok show ?thesis by simp
  next
    case False
    from lru.find_put_shrink_other [OF ok e'(1) False] e' False show ?thesis by (simp add: live_rev_def cached_def)
  qed
qed

lemma live_rev_settle:
  assumes "route_ok c" "live_rev k c = Some r" "live_rev k (snd (settle_route rev_of now key seen ld c)) = Some r'"
  shows "r \<le> r'"
proof (cases "origin ld")
  case (Inr v)
  show ?thesis
  proof (cases "newer_cached (rev_of v) key c")
    case None
    with assms(3) Inr have st: "live_rev k (store_route key \<lparr>cr_Value = Some v, cr_FetchedAt = now, cr_Revision = rev_of v\<rparr> c) = Some r'"
      by (simp add: settle_route_def)
    from live_rev_store [OF assms(1) st] None assms(2) show ?thesis
      by (auto simp: newer_cached_def live_rev_def cached_def split: option.splits if_splits)
  qed (use assms Inr in \<open>simp add: settle_route_def\<close>)
next
  case (Inl err)
  show ?thesis
  proof (cases "err = ErrNotFound")
    case True
    with assms(3) Inl obtain x where "live_rev k (store_route key \<lparr>cr_Value = None, cr_FetchedAt = now, cr_Revision = x\<rparr> c) = Some r'"
      by (auto simp: settle_route_def Let_def)
    from live_rev_store [OF assms(1) this] assms(2) show ?thesis by (auto split: if_splits)
  qed (use assms Inl in \<open>auto simp: settle_route_def split: option.splits if_splits\<close>)
qed

lemma live_rev_finish:
  assumes "route_ok c" "live_rev k c = Some r" "live_rev k (snd (route_finish rev_of now key fl seen ld c)) = Some r'"
  shows "r \<le> r'"
  using live_rev_settle [OF assms(1,2), of rev_of now key seen ld r'] assms(3)
  by (auto simp: route_finish_def split_beta Let_def split: if_splits)

lemma live_rev_Invalidate: "route_ok c \<Longrightarrow> live_rev k (route_Invalidate key c) = (if k = key then None else live_rev k c)"
  by (simp add: live_rev_def cached_def route_Invalidate_def route_ok_def)

lemma route_step_ok: "route_step rev_of s t \<Longrightarrow> route_ok (fst s) \<Longrightarrow> route_ok (fst t)"
  by (induction rule: route_step.induct) (auto simp: route_finish_ok route_Invalidate_ok dest: route_begin_keeps)

lemma route_step_rev:
  assumes "route_step rev_of s t" "route_ok (fst s)" "live_rev k (fst s) = Some r" "live_rev k (fst t) = Some r'"
  shows "r \<le> r'"
  using assms
proof (induction rule: route_step.induct)
  case (loaded fl key seen now pending c ld)
  then show ?case using live_rev_finish [of c k r rev_of now key fl seen ld r'] by simp
next
  case (invalidated c pending key)
  then show ?case by (simp add: live_rev_Invalidate split: if_splits)
qed (auto dest: route_begin_keeps(2) [where k = k])

text \<open>
  As long as a host's route stays cached, its revision never goes back, whatever calls run
  concurrently and in whatever order their loads return.
\<close>

lemma route_revision_monotone:
  assumes "(\<lambda>s t. route_step rev_of s t \<and> live_rev key (fst t) \<noteq> None)\<^sup>*\<^sup>* s t"
    "route_ok (fst s)" "live_rev key (fst s) = Some r"
  shows "\<exists>r'. live_rev key (fst t) = Some r' \<and> r \<le> r'"
proof -
  have "route_ok (fst t) \<and> (\<exists>r'. live_rev key (fst t) = Some r' \<and> r \<le> r')"
    using assms(1)
  proof (induction rule: rtranclp_induct)
    case base
    then show ?case using assms(2,3) by simp
  next
    case (step u v)
    then obtain r1 r2 where r: "live_rev key (fst u) = Some r1" "r \<le> r1" "live_rev key (fst v) = Some r2" by auto
    with route_step_rev [of rev_of u v key r1 r2] route_step_ok [of rev_of u v] step show ?case by fastforce
  qed
  then show ?thesis by blast
qed

definition two_leaders :: "int RouteCache \<times> int leader list" where
  "two_leaders = (snd (route_begin 50 ''h'' example_routes), [(0, ''h'', cached ''h'' example_routes, 50)])"

lemma two_leaders_step: "route_step id (example_routes, []) two_leaders"
proof -
  have "fst (route_begin 50 ''h'' example_routes) = Lead 0 (cached ''h'' example_routes)" by code_simp
  then have "route_begin 50 ''h'' example_routes = (Lead 0 (cached ''h'' example_routes), snd (route_begin 50 ''h'' example_routes))"
    by (metis prod.collapse)
  from leading [OF this, of id "[]"] show ?thesis by (simp add: two_leaders_def)
qed

definition after_load :: "int RouteCache \<times> int leader list" where
  "after_load = (snd (route_finish id 50 ''h'' 0 (cached ''h'' example_routes) (Inr (Some 3)) (fst two_leaders)), [])"

lemma after_load_step: "route_step id two_leaders after_load"
  using loaded [of 0 "''h''" "cached ''h'' example_routes" 50 "snd two_leaders" id "fst two_leaders" "Inr (Some 3)"]
  by (simp add: two_leaders_def after_load_def)

lemma route_revision_monotone_witness:
  "\<exists>r'. live_rev ''h'' (fst after_load) = Some r' \<and> 5 \<le> r'"
proof (rule route_revision_monotone)
  have "live_rev ''h'' (fst two_leaders) \<noteq> None" "live_rev ''h'' (fst after_load) \<noteq> None" by code_simp+
  with two_leaders_step after_load_step
  show "(\<lambda>s t. route_step id s t \<and> live_rev ''h'' (fst t) \<noteq> None)\<^sup>*\<^sup>* (example_routes, []) after_load"
    by (intro rtranclp_trans [OF r_into_rtranclp [of _ _ two_leaders] r_into_rtranclp]) simp_all
  show "route_ok (fst (example_routes, []))" using example_routes_ok by simp
  show "live_rev ''h'' (fst (example_routes, [])) = Some 5" by code_simp
qed

text \<open>
  The revision kept in the tombstone of a deleted route protects nothing: once the tombstone is no
  longer fresh, any revision the origin replays is accepted, served as fresh and
  becomes the new high-water mark, however much older it is.
\<close>

lemma tombstone_forgets_revision:
  assumes "route_ok c" "mget (rc_flights c) key = None" "cached key c = Some e" "cr_Value e = None"
    "\<not> now - cr_FetchedAt e < negativeTTL" "rev_of v < cr_Revision e"
  shows "fst (route_Get rev_of now key (Inr (Some v)) c) = Some (Inr (v, False)) \<and>
    live_rev key (snd (route_Get rev_of now key (Inr (Some v)) c)) = Some (rev_of v)"
proof -
  let ?c1 = "c\<lparr>rc_flights := mset_at key (rc_nextFlight c) (rc_flights c), rc_nextFlight := Suc (rc_nextFlight c)\<rparr>"
  let ?e = "\<lparr>cr_Value = Some v, cr_FetchedAt = now, cr_Revision = rev_of v\<rparr>"
  have ok: "lru_ok (rc_cache c)" using assms(1) by (simp add: route_ok_def)
  have "route_begin now key c = (Lead (rc_nextFlight c) (Some e), ?c1)"
    using assms by (simp add: route_begin_def cached_def Let_def)
  moreover have "settle_route rev_of now key (Some e) (Inr (Some v)) ?c1 = (Inr (v, False), store_route key ?e ?c1)"
    using assms by (simp add: settle_route_def origin_def newer_cached_def cached_def)
  moreover have "live_rev key (store_route key ?e ?c1) = Some (rev_of v)"
    using ok by (simp add: live_rev_def cached_def store_route_def)
  ultimately show ?thesis by (simp add: route_Get_def route_finish_def Let_def)
qed

definition deleted_route :: "int RouteCache" where
  "deleted_route = snd (route_Get id 50 ''h'' (Inl ErrNotFound) example_routes)"

lemma tombstone_forgets_revision_witness:
  "live_rev ''h'' (snd (route_Get id 6000000000 ''h'' (Inr (Some 3)) deleted_route)) = Some 3 \<and> live_rev ''h'' example_routes = Some 5"
proof -
  have ok: "route_ok deleted_route" unfolding deleted_route_def by (rule route_Get_ok [OF example_routes_ok])
  have "mget (rc_flights deleted_route) ''h'' = None"
    "cached ''h'' deleted_route = Some \<lparr>cr_Value = None, cr_FetchedAt = 50, cr_Revision = 5\<rparr>"
    "live_rev ''h'' example_routes = Some 5" by code_simp+
  with tombstone_forgets_revision [OF ok, of "''h''" _ 6000000000 id 3] show ?thesis by (simp add: negativeTTL_def)
qed

end
