(* ===== verification/Tokens.thy ===== *)
theory Tokens
  imports Lru
begin

text \<open>
  The edge's client for execution-bound proxy credentials (\<open>TokenClient\<close> of
  \<open>internal/edge/edge.go\<close>): a cache keyed by machine and execution, one fetch in flight
  per key, and last-known-good credentials inside a bounded window when the control plane
  cannot be reached. As in the route cache, a \<open>Get\<close> that fetches consists of two critical
  sections with the request between them. Times are nanoseconds. URL parsing and the HTTP
  exchange are parameters.
\<close>

section \<open>State\<close>

record tokenEntry =
  te_token :: string
  te_execution :: string
  te_fetchedAt :: int

datatype token_err = ErrTokenExecutionMismatch | ErrTokenEmpty | ErrFetch string

text \<open>A result: a token and whether it is last-known-good.\<close>

type_synonym token_result = "token_err + string \<times> bool"

record TokenClient =
  tc_addr :: string
  tc_token :: string
  tc_ttl :: int
  tc_stale :: int
  tc_MaxEntries :: int
  tc_RequireTLS :: bool
  tc_warnedHTTP :: bool
  tc_cache :: "tokenEntry lruCache"
  tc_flights :: "(string, nat) gomap"
  tc_results :: "(nat, token_result) gomap"
  tc_nextFlight :: nat

definition defaultTokenStale :: int where
  "defaultTokenStale = 120 * 1000000000"

definition maxTokenStaleWindow :: int where
  "maxTokenStaleWindow = 120 * 1000000000"

definition defaultTokenCacheMaxEntries :: int where
  "defaultTokenCacheMaxEntries = 10000"

definition NewTokenClient :: "string \<Rightarrow> string \<Rightarrow> int \<Rightarrow> TokenClient" where
  "NewTokenClient addr token ttl =
     \<lparr>tc_addr = addr, tc_token = token, tc_ttl = ttl, tc_stale = defaultTokenStale,
      tc_MaxEntries = defaultTokenCacheMaxEntries, tc_RequireTLS = False, tc_warnedHTTP = False,
      tc_cache = newLRUCache, tc_flights = [], tc_results = [], tc_nextFlight = 0\<rparr>"

definition token_maxEntries :: "TokenClient \<Rightarrow> int" where
  "token_maxEntries t = (if 0 < tc_MaxEntries t then tc_MaxEntries t else defaultTokenCacheMaxEntries)"

definition SetStaleWindow :: "int \<Rightarrow> TokenClient \<Rightarrow> TokenClient" where
  "SetStaleWindow d t =
     (if d \<le> 0 then t
      else t\<lparr>tc_stale := (if maxTokenStaleWindow < d then maxTokenStaleWindow else d)\<rparr>)"

definition disabled :: "TokenClient \<Rightarrow> bool" where
  "disabled t \<longleftrightarrow> tc_addr t = '''' \<or> tc_token t = ''''"

section \<open>Operations\<close>

text \<open>The cache key: machine and execution with a NUL byte in between.\<close>

abbreviation NUL :: char where
  "NUL \<equiv> CHR 0x00"

definition token_key :: "string \<Rightarrow> string \<Rightarrow> string" where
  "token_key machineID executionID = machineID @ [NUL] @ executionID"

datatype token_lookup = TAnswer token_result | TJoin nat | TLead nat

definition token_begin :: "int \<Rightarrow> string \<Rightarrow> string \<Rightarrow> TokenClient \<Rightarrow> token_lookup \<times> TokenClient" where
  "token_begin now machineID executionID t =
     (if disabled t then (TAnswer (Inr ('''', False)), t)
      else
        let key = token_key machineID executionID;
            miss = (\<lambda>t1. case mget (tc_flights t1) key of
                Some fl \<Rightarrow> (TJoin fl, t1)
              | None \<Rightarrow>
                  (TLead (tc_nextFlight t1),
                   t1\<lparr>tc_flights := mset_at key (tc_nextFlight t1) (tc_flights t1), tc_nextFlight := Suc (tc_nextFlight t1)\<rparr>)) in
        case lru_get key (tc_cache t) of
          None \<Rightarrow> miss t
        | Some e \<Rightarrow>
            if now - te_fetchedAt e < tc_ttl t then
              (TAnswer (Inr (te_token e, False)), t\<lparr>tc_cache := touch key (tc_cache t)\<rparr>)
            else if tc_stale t \<le> now - te_fetchedAt e then miss (t\<lparr>tc_cache := lru_delete key (tc_cache t)\<rparr>)
            else miss t)"

text \<open>
  \<open>fetch\<close>: the scheme \<open>url.Parse\<close> finds in an address (\<open>None\<close> when it refuses it), and the
  exchange of a request with a URL and a bearer token: an error, or a status with the decoded
  body (\<open>None\<close> when it does not decode).
\<close>

record TokenBody =
  tb_Token :: string
  tb_ExecutionID :: string

type_synonym http = "string \<Rightarrow> string \<Rightarrow> string + int \<times> TokenBody option"

definition token_url :: "string \<Rightarrow> TokenClient \<Rightarrow> string" where
  "token_url machineID t = tc_addr t @ ''/v1/machines/'' @ machineID @ ''/traffic-token''"

definition exchange :: "http \<Rightarrow> string \<Rightarrow> string \<Rightarrow> TokenClient \<Rightarrow> token_err + string" where
  "exchange get machineID executionID t =
     (case get (token_url machineID t) (tc_token t) of
        Inl e \<Rightarrow> Inl (ErrFetch e)
      | Inr (status, body) \<Rightarrow>
          if status \<noteq> 200 then Inl (ErrFetch ''HTTP status'')
          else (case body of
             None \<Rightarrow> Inl (ErrFetch ''decode'')
           | Some b \<Rightarrow>
               if tb_Token b = '''' then Inl (ErrFetch ''decode'')
               else if executionID \<noteq> '''' \<and> tb_ExecutionID b \<noteq> executionID then Inl ErrTokenExecutionMismatch
               else Inr (tb_Token b)))"

definition fetch :: "(string \<Rightarrow> string option) \<Rightarrow> http \<Rightarrow> string \<Rightarrow> string \<Rightarrow> TokenClient \<Rightarrow> (token_err + string) \<times> TokenClient" where
  "fetch scheme_of get machineID executionID t =
     (case scheme_of (tc_addr t) of
        None \<Rightarrow> (Inl (ErrFetch ''endpoint''), t)
      | Some scheme \<Rightarrow>
          if scheme \<noteq> ''https'' \<and> tc_RequireTLS t then (Inl (ErrFetch ''endpoint must use https''), t)
          else
            let t1 = (if scheme \<noteq> ''https'' then t\<lparr>tc_warnedHTTP := True\<rparr> else t) in
            (exchange get machineID executionID t1, t1))"

text \<open>
  The second critical section: \<open>now\<close> is the clock reading of the first one, \<open>later\<close> the one after the fetch.
\<close>

definition settle_token :: "int \<Rightarrow> int \<Rightarrow> string \<Rightarrow> string \<Rightarrow> (token_err + string) \<Rightarrow> TokenClient \<Rightarrow> token_result \<times> TokenClient" where
  "settle_token now later machineID executionID fetched t =
     (let key = token_key machineID executionID in
      case (if fetched = Inr '''' then Inl ErrTokenEmpty else fetched) of
        Inr tok \<Rightarrow>
          (Inr (tok, False),
           t\<lparr>tc_cache := evict (token_maxEntries t)
               (lru_set key \<lparr>te_token = tok, te_execution = executionID, te_fetchedAt = later\<rparr> (tc_cache t))\<rparr>)
      | Inl err \<Rightarrow>
          (case lru_get key (tc_cache t) of
             None \<Rightarrow> (Inl err, t)
           | Some e \<Rightarrow>
               if te_execution e = executionID \<and> err \<noteq> ErrTokenExecutionMismatch \<and> now - te_fetchedAt e < tc_stale t
               then (Inr (te_token e, True), t\<lparr>tc_cache := touch key (tc_cache t)\<rparr>)
               else (Inl err, t)))"

definition token_finish :: "int \<Rightarrow> int \<Rightarrow> string \<Rightarrow> string \<Rightarrow> nat \<Rightarrow> (token_err + string) \<Rightarrow> TokenClient \<Rightarrow> token_result \<times> TokenClient" where
  "token_finish now later machineID executionID fl fetched t =
     (let (res, t1) = settle_token now later machineID executionID fetched
                        (t\<lparr>tc_flights := mdel (token_key machineID executionID) (tc_flights t)\<rparr>) in
      (res, t1\<lparr>tc_results := mset_at fl res (tc_results t1)\<rparr>))"

definition token_Invalidate :: "string \<Rightarrow> TokenClient \<Rightarrow> TokenClient" where
  "token_Invalidate machineID t =
     (if disabled t then t else t\<lparr>tc_cache := deletePrefix (machineID @ [NUL]) (tc_cache t)\<rparr>)"

section \<open>Calls in any order\<close>

text \<open>
  A run of the client: \<open>ts_led\<close> are the calls whose fetch is under way, \<open>ts_joined\<close> those that wait for
  the flight of another call, each with its flight, machine, execution and clock reading. The history
  records what the control plane issued and what the calls returned.
\<close>

datatype token_event =
    Issued string string string int
  | Served string string string bool int
  | Shared string string string bool

type_synonym token_call = "nat \<times> string \<times> string \<times> int"

record token_run =
  ts_client :: TokenClient
  ts_led :: "token_call list"
  ts_joined :: "token_call list"
  ts_events :: "token_event list"

definition issued_by :: "http \<Rightarrow> string \<Rightarrow> int \<Rightarrow> TokenClient \<Rightarrow> token_event list" where
  "issued_by get machineID later t =
     (case get (token_url machineID t) (tc_token t) of
        Inl _ \<Rightarrow> []
      | Inr (status, body) \<Rightarrow>
          (case body of
             None \<Rightarrow> []
           | Some b \<Rightarrow> if status = 200 then [Issued machineID (tb_ExecutionID b) (tb_Token b) later] else []))"

definition served :: "string \<Rightarrow> string \<Rightarrow> int \<Rightarrow> token_result \<Rightarrow> token_event list" where
  "served machineID executionID now r =
     (case r of Inl _ \<Rightarrow> [] | Inr (tok, stale) \<Rightarrow> [Served machineID executionID tok stale now])"

definition shared :: "string \<Rightarrow> string \<Rightarrow> token_result \<Rightarrow> token_event list" where
  "shared machineID executionID r = (case r of Inl _ \<Rightarrow> [] | Inr (tok, stale) \<Rightarrow> [Shared machineID executionID tok stale])"

definition fetch_and_finish ::
    "(string \<Rightarrow> string option) \<Rightarrow> http \<Rightarrow> int \<Rightarrow> token_call \<Rightarrow> TokenClient \<Rightarrow> token_result \<times> TokenClient" where
  "fetch_and_finish scheme_of get later call t =
     (case call of (fl, m, x, now) \<Rightarrow>
        let (r, t1) = fetch scheme_of get m x t in token_finish now later m x fl r t1)"

inductive token_step :: "(string \<Rightarrow> string option) \<Rightarrow> token_run \<Rightarrow> token_run \<Rightarrow> bool" for scheme_of where
  answered: "NUL \<notin> set m \<Longrightarrow> token_begin now m x (ts_client s) = (TAnswer r, t) \<Longrightarrow>
    token_step scheme_of s (s\<lparr>ts_client := t, ts_events := ts_events s @ served m x now r\<rparr>)"
| joined: "NUL \<notin> set m \<Longrightarrow> token_begin now m x (ts_client s) = (TJoin fl, t) \<Longrightarrow>
    token_step scheme_of s (s\<lparr>ts_client := t, ts_joined := (fl, m, x, now) # ts_joined s\<rparr>)"
| led: "NUL \<notin> set m \<Longrightarrow> token_begin now m x (ts_client s) = (TLead fl, t) \<Longrightarrow>
    token_step scheme_of s (s\<lparr>ts_client := t, ts_led := (fl, m, x, now) # ts_led s\<rparr>)"
| fetched: "(fl, m, x, now) \<in> set (ts_led s) \<Longrightarrow>
    fetch_and_finish scheme_of get later (fl, m, x, now) (ts_client s) = (r, t) \<Longrightarrow>
    token_step scheme_of s
      (s\<lparr>ts_client := t, ts_led := remove1 (fl, m, x, now) (ts_led s),
         ts_events := ts_events s @ issued_by get m later (ts_client s) @ served m x now r\<rparr>)"
| woken: "(fl, m, x, now) \<in> set (ts_joined s) \<Longrightarrow> mget (tc_results (ts_client s)) fl = Some r \<Longrightarrow>
    token_step scheme_of s
      (s\<lparr>ts_joined := remove1 (fl, m, x, now) (ts_joined s), ts_events := ts_events s @ shared m x r\<rparr>)"
| cancelled: "token_step scheme_of s (s\<lparr>ts_joined := remove1 call (ts_joined s)\<rparr>)"
| invalidated: "token_step scheme_of s (s\<lparr>ts_client := token_Invalidate m (ts_client s)\<rparr>)"
| configured: "token_step scheme_of s (s\<lparr>ts_client := SetStaleWindow d (ts_client s)\<rparr>)"

definition token_start :: "TokenClient \<Rightarrow> token_run" where
  "token_start t = \<lparr>ts_client = t, ts_led = [], ts_joined = [], ts_events = []\<rparr>"

text \<open>What a served credential must come from.\<close>

definition issued_for :: "token_event list \<Rightarrow> string \<Rightarrow> string \<Rightarrow> string \<Rightarrow> int \<Rightarrow> bool" where
  "issued_for evs m x tok t \<longleftrightarrow> tok \<noteq> '''' \<and> (\<exists>y. Issued m y tok t \<in> set evs \<and> (x \<noteq> '''' \<longrightarrow> y = x))"

section \<open>The invariant\<close>

definition entry_ok :: "token_event list \<Rightarrow> string \<Rightarrow> tokenEntry \<Rightarrow> bool" where
  "entry_ok evs key e \<longleftrightarrow> (\<exists>m. NUL \<notin> set m \<and> key = token_key m (te_execution e) \<and>
     issued_for evs m (te_execution e) (te_token e) (te_fetchedAt e))"

definition cache_ok :: "token_event list \<Rightarrow> TokenClient \<Rightarrow> bool" where
  "cache_ok evs t \<longleftrightarrow> lru_ok (tc_cache t) \<and> \<not> disabled t \<and> tc_stale t \<le> maxTokenStaleWindow \<and>
     (\<forall>key e. lru_get key (tc_cache t) = Some e \<longrightarrow> entry_ok evs key e)"

text \<open>The result of a flight is what the call that led it was served.\<close>

definition result_ok :: "token_event list \<Rightarrow> string \<Rightarrow> string \<Rightarrow> token_result \<Rightarrow> bool" where
  "result_ok evs m x r \<longleftrightarrow> (\<forall>tok stale. r = Inr (tok, stale) \<longrightarrow> (\<exists>lead. Served m x tok stale lead \<in> set evs))"

text \<open>Every flight belongs to one machine and execution.\<close>

definition flights_ok :: "(nat \<Rightarrow> string \<times> string) \<Rightarrow> token_run \<Rightarrow> bool" where
  "flights_ok own s \<longleftrightarrow>
     (\<forall>key fl. mget (tc_flights (ts_client s)) key = Some fl \<longrightarrow>
        fl < tc_nextFlight (ts_client s) \<and> NUL \<notin> set (fst (own fl)) \<and> key = token_key (fst (own fl)) (snd (own fl))) \<and>
     (\<forall>fl m x now. (fl, m, x, now) \<in> set (ts_led s) \<union> set (ts_joined s) \<longrightarrow>
        fl < tc_nextFlight (ts_client s) \<and> NUL \<notin> set m \<and> own fl = (m, x)) \<and>
     (\<forall>fl r. mget (tc_results (ts_client s)) fl = Some r \<longrightarrow>
        fl < tc_nextFlight (ts_client s) \<and> result_ok (ts_events s) (fst (own fl)) (snd (own fl)) r)"

definition event_ok :: "token_event list \<Rightarrow> token_event \<Rightarrow> bool" where
  "event_ok evs ev \<longleftrightarrow>
     (case ev of
        Issued m x tok t \<Rightarrow> True
      | Served m x tok stale now \<Rightarrow>
          (\<exists>t. issued_for evs m x tok t \<and> (stale \<longrightarrow> now - t < maxTokenStaleWindow))
      | Shared m x tok stale \<Rightarrow>
          (\<exists>lead t. Served m x tok stale lead \<in> set evs \<and> issued_for evs m x tok t \<and> (stale \<longrightarrow> lead - t < maxTokenStaleWindow)))"

definition token_inv :: "token_run \<Rightarrow> bool" where
  "token_inv s \<longleftrightarrow> cache_ok (ts_events s) (ts_client s) \<and> (\<exists>own. flights_ok own s) \<and>
     (\<forall>ev \<in> set (ts_events s). event_ok (ts_events s) ev)"

lemma token_key_inject:
  assumes "token_key m x = token_key m' x'" "NUL \<notin> set m" "NUL \<notin> set m'"
  shows "m = m' \<and> x = x'"
proof -
  have *: "takeWhile (\<lambda>c. c \<noteq> NUL) (token_key k y) = k" if "NUL \<notin> set k" for k y
  proof -
    have "takeWhile (\<lambda>c. c \<noteq> NUL) (k @ NUL # y) = k @ takeWhile (\<lambda>c. c \<noteq> NUL) (NUL # y)"
      using that by (intro takeWhile_append2) auto
    then show ?thesis by (simp add: token_key_def)
  qed
  from * [OF assms(2), of x] * [OF assms(3), of x'] assms(1) have "m = m'" by simp
  with assms(1) show ?thesis by (simp add: token_key_def)
qed

lemma issued_for_mono: "issued_for evs m x tok t \<Longrightarrow> set evs \<subseteq> set evs' \<Longrightarrow> issued_for evs' m x tok t"
  by (auto simp: issued_for_def)

lemma entry_ok_mono: "entry_ok evs key e \<Longrightarrow> set evs \<subseteq> set evs' \<Longrightarrow> entry_ok evs' key e"
  by (auto simp: entry_ok_def intro: issued_for_mono)

lemma cache_ok_mono: "cache_ok evs t \<Longrightarrow> set evs \<subseteq> set evs' \<Longrightarrow> cache_ok evs' t"
  unfolding cache_ok_def using entry_ok_mono by blast

lemma result_ok_mono: "result_ok evs m x r \<Longrightarrow> set evs \<subseteq> set evs' \<Longrightarrow> result_ok evs' m x r"
  unfolding result_ok_def by blast

lemma event_ok_mono: "event_ok evs ev \<Longrightarrow> set evs \<subseteq> set evs' \<Longrightarrow> event_ok evs' ev"
proof (cases ev)
  case (Shared m x tok stale)
  assume "event_ok evs ev" and sub: "set evs \<subseteq> set evs'"
  with Shared obtain lead t where "Served m x tok stale lead \<in> set evs" "issued_for evs m x tok t"
      "stale \<longrightarrow> lead - t < maxTokenStaleWindow" by (auto simp: event_ok_def)
  then have "Served m x tok stale lead \<in> set evs' \<and> issued_for evs' m x tok t \<and>
      (stale \<longrightarrow> lead - t < maxTokenStaleWindow)"
    using sub issued_for_mono by blast
  with Shared show ?thesis unfolding event_ok_def by auto
qed (auto simp: event_ok_def intro: issued_for_mono)

text \<open>Each critical section keeps the cache entries issued.\<close>

lemma cache_ok_begin:
  assumes "cache_ok evs t" "token_begin now m x t = (l, t')"
  shows "cache_ok evs t'"
  using assms
  by (auto simp: token_begin_def cache_ok_def disabled_def Let_def split: option.splits if_splits)

lemma answer_issued:
  assumes "cache_ok evs t" "NUL \<notin> set m" "token_begin now m x t = (TAnswer r, t')" "r = Inr (tok, stale)"
  shows "\<not> stale \<and> (\<exists>ft. issued_for evs m x tok ft)"
proof -
  from assms(1,3,4) obtain e where e: "lru_get (token_key m x) (tc_cache t) = Some e" "tok = te_token e" "\<not> stale"
    by (auto simp: token_begin_def cache_ok_def Let_def split: option.splits if_splits)
  with assms(1) have "entry_ok evs (token_key m x) e" by (simp add: cache_ok_def)
  then show ?thesis using e token_key_inject [OF _ assms(2)] unfolding entry_ok_def by metis
qed

lemma fetch_keeps:
  assumes "fetch scheme_of get m x t = (r, t')"
  shows "cache_ok evs t' = cache_ok evs t" "tc_flights t' = tc_flights t" "tc_results t' = tc_results t"
    "tc_nextFlight t' = tc_nextFlight t"
  using assms by (auto simp: fetch_def cache_ok_def disabled_def Let_def split: option.splits if_splits)

lemma fetch_issued:
  assumes "fetch scheme_of get m x t = (Inr tok, t')"
  shows "issued_for (issued_by get m later t) m x tok later"
proof -
  from assms have "exchange get m x t = Inr tok"
    by (auto simp: fetch_def exchange_def token_url_def Let_def split: option.splits if_splits)
  then show ?thesis
    by (auto simp: exchange_def issued_by_def issued_for_def split: option.splits sum.splits if_splits)
qed

lemma settle_token_ok:
  assumes "cache_ok evs t" "NUL \<notin> set m" "\<And>tok. r = Inr tok \<Longrightarrow> issued_for evs m x tok later"
    "settle_token now later m x r t = (res, t')"
  shows "cache_ok evs t'" "tc_flights t' = tc_flights t" "tc_results t' = tc_results t" "tc_nextFlight t' = tc_nextFlight t"
    "\<And>tok stale. res = Inr (tok, stale) \<Longrightarrow>
       \<exists>ft. issued_for evs m x tok ft \<and> (stale \<longrightarrow> now - ft < maxTokenStaleWindow)"
proof -
  have hit: "issued_for evs m x (te_token e) (te_fetchedAt e)"
    if "lru_get (token_key m x) (tc_cache t) = Some e" for e
  proof -
    from assms(1) that have "entry_ok evs (token_key m x) e" by (simp add: cache_ok_def)
    then show ?thesis using token_key_inject [OF _ assms(2)] unfolding entry_ok_def by metis
  qed
  have new: "entry_ok evs (token_key m x) \<lparr>te_token = tok, te_execution = x, te_fetchedAt = later\<rparr>" if "r = Inr tok" for tok
    using assms(3) [OF that] assms(2) by (auto simp: entry_ok_def)
  have tok: "tok \<noteq> ''''" if "r = Inr tok" for tok using assms(3) [OF that] by (simp add: issued_for_def)
  show "cache_ok evs t'"
  proof (cases r)
    case (Inr tok')
    have "entry_ok evs k e" if "lru_get k (evict n (lru_set (token_key m x) \<lparr>te_token = tok', te_execution = x, te_fetchedAt = later\<rparr> (tc_cache t))) = Some e" for k e n
      using lru.find_shrink [OF _ that] assms(1) new [OF Inr] by (auto simp: cache_ok_def split: if_splits)
    then show ?thesis using assms(1,4) Inr tok [OF Inr]
      by (auto simp: settle_token_def cache_ok_def disabled_def Let_def)
  next
    case (Inl err)
    then show ?thesis using assms(1,4)
      by (auto simp: settle_token_def cache_ok_def disabled_def Let_def split: option.splits if_splits)
  qed
  show "tc_flights t' = tc_flights t" "tc_results t' = tc_results t" "tc_nextFlight t' = tc_nextFlight t"
    using assms(4) by (auto simp: settle_token_def Let_def split: option.splits sum.splits if_splits)
  show "\<exists>ft. issued_for evs m x tk ft \<and> (stale \<longrightarrow> now - ft < maxTokenStaleWindow)"
    if res: "res = Inr (tk, stale)" for tk stale
  proof (cases r)
    case (Inr tok')
    then show ?thesis using assms(3,4) res tok [OF Inr] by (auto simp: settle_token_def Let_def)
  next
    case (Inl err)
    with assms(4) res obtain e where "lru_get (token_key m x) (tc_cache t) = Some e" "tk = te_token e" "now - te_fetchedAt e < tc_stale t"
      by (auto simp: settle_token_def Let_def split: option.splits if_splits)
    with hit assms(1) show ?thesis by (force simp: cache_ok_def)
  qed
qed

lemma token_begin_join:
  assumes "token_begin now m x t = (TJoin fl, t')"
  shows "mget (tc_flights t) (token_key m x) = Some fl" "tc_flights t' = tc_flights t" "tc_results t' = tc_results t"
    "tc_nextFlight t' = tc_nextFlight t"
  using assms by (auto simp: token_begin_def Let_def split: option.splits if_splits)

lemma token_begin_lead:
  assumes "token_begin now m x t = (TLead fl, t')"
  shows "fl = tc_nextFlight t" "tc_flights t' = mset_at (token_key m x) fl (tc_flights t)" "tc_results t' = tc_results t"
    "tc_nextFlight t' = Suc fl"
  using assms by (auto simp: token_begin_def Let_def split: option.splits if_splits)

lemma token_begin_answer:
  assumes "token_begin now m x t = (TAnswer r, t')"
  shows "tc_flights t' = tc_flights t" "tc_results t' = tc_results t" "tc_nextFlight t' = tc_nextFlight t"
  using assms by (auto simp: token_begin_def Let_def split: option.splits if_splits)

lemma flights_okD:
  assumes "flights_ok own s"
  shows "mget (tc_flights (ts_client s)) key = Some fl \<Longrightarrow>
      fl < tc_nextFlight (ts_client s) \<and> NUL \<notin> set (fst (own fl)) \<and> key = token_key (fst (own fl)) (snd (own fl))"
    "(fl, m, x, now) \<in> set (ts_led s) \<Longrightarrow> fl < tc_nextFlight (ts_client s) \<and> NUL \<notin> set m \<and> own fl = (m, x)"
    "(fl, m, x, now) \<in> set (ts_joined s) \<Longrightarrow> fl < tc_nextFlight (ts_client s) \<and> NUL \<notin> set m \<and> own fl = (m, x)"
    "mget (tc_results (ts_client s)) fl = Some r \<Longrightarrow>
      fl < tc_nextFlight (ts_client s) \<and> result_ok (ts_events s) (fst (own fl)) (snd (own fl)) r"
  using assms unfolding flights_ok_def by blast+

text \<open>The flights only depend on the tables they are in and on the calls.\<close>

lemma flights_ok_same:
  assumes "flights_ok own s" "tc_flights (ts_client s') = tc_flights (ts_client s)" "tc_results (ts_client s') = tc_results (ts_client s)"
    "tc_nextFlight (ts_client s') = tc_nextFlight (ts_client s)" "set (ts_led s') \<subseteq> set (ts_led s)"
    "set (ts_joined s') \<subseteq> set (ts_joined s)" "set (ts_events s) \<subseteq> set (ts_events s')"
  shows "flights_ok own s'"
proof -
  have "fl < tc_nextFlight (ts_client s') \<and> result_ok (ts_events s') (fst (own fl)) (snd (own fl)) r"
    if "mget (tc_results (ts_client s')) fl = Some r" for fl r
    using that flights_okD(4) [OF assms(1), of fl r] assms(3,4) result_ok_mono [OF _ assms(7)] by simp
  moreover have "fl < tc_nextFlight (ts_client s') \<and> NUL \<notin> set m \<and> own fl = (m, x)"
    if "(fl, m, x, now) \<in> set (ts_led s') \<union> set (ts_joined s')" for fl m x now
    using that flights_okD(2,3) [OF assms(1), of fl m x now] assms(4-6) by auto
  ultimately show ?thesis
    using flights_okD(1) [OF assms(1)] assms(2,4) unfolding flights_ok_def by simp
qed

lemma flights_ok_join:
  assumes "flights_ok own s" "mget (tc_flights (ts_client s)) (token_key m x) = Some fl" "NUL \<notin> set m"
    "tc_flights t = tc_flights (ts_client s)" "tc_results t = tc_results (ts_client s)" "tc_nextFlight t = tc_nextFlight (ts_client s)"
  shows "flights_ok own (s\<lparr>ts_client := t, ts_joined := (fl, m, x, now) # ts_joined s\<rparr>)"
proof -
  from assms(1,2) have "fl < tc_nextFlight (ts_client s)" "NUL \<notin> set (fst (own fl))"
    "token_key m x = token_key (fst (own fl)) (snd (own fl))" by (auto simp: flights_ok_def)
  with token_key_inject [OF this(3) assms(3)] have "own fl = (m, x)" by (metis prod.collapse)
  with assms \<open>fl < _\<close> show ?thesis by (auto simp: flights_ok_def)
qed

lemma flights_ok_lead:
  assumes "flights_ok own s" "NUL \<notin> set m" "fl = tc_nextFlight (ts_client s)"
    "tc_flights t = mset_at (token_key m x) fl (tc_flights (ts_client s))"
    "tc_results t = tc_results (ts_client s)" "tc_nextFlight t = Suc fl"
  shows "flights_ok (own(fl := (m, x))) (s\<lparr>ts_client := t, ts_led := (fl, m, x, now) # ts_led s\<rparr>)"
  using assms by (fastforce simp: flights_ok_def less_Suc_eq)

lemma flights_ok_finish:
  assumes "flights_ok own s" "(fl, m, x, now) \<in> set (ts_led s)" "tc_flights t = mdel (token_key m x) (tc_flights (ts_client s))"
    "tc_results t = mset_at fl r (tc_results (ts_client s))" "tc_nextFlight t = tc_nextFlight (ts_client s)"
    "set (ts_events s) \<subseteq> set evs" "result_ok evs m x r"
  shows "flights_ok own (s\<lparr>ts_client := t, ts_led := remove1 (fl, m, x, now) (ts_led s), ts_events := evs\<rparr>)"
proof -
  have own: "own fl = (m, x)" "fl < tc_nextFlight (ts_client s)" using assms(1,2) unfolding flights_ok_def by blast+
  have "fl' < tc_nextFlight t \<and> result_ok evs (fst (own fl')) (snd (own fl')) r'" if "mget (tc_results t) fl' = Some r'" for fl' r'
    using that assms(4-) own flights_okD(4) [OF assms(1), of fl' r'] by (auto split: if_splits intro: result_ok_mono)
  moreover have "fl' < tc_nextFlight t \<and> NUL \<notin> set m' \<and> own fl' = (m', x')"
    if "(fl', m', x', now') \<in> set (remove1 (fl, m, x, now) (ts_led s)) \<union> set (ts_joined s)" for fl' m' x' now'
    using that flights_okD(2,3) [OF assms(1), of fl' m' x' now'] assms(5)
      subsetD [OF set_remove1_subset [of "(fl, m, x, now)" "ts_led s"], of "(fl', m', x', now')"] by auto
  moreover have "fl' < tc_nextFlight t \<and> NUL \<notin> set (fst (own fl')) \<and> key = token_key (fst (own fl')) (snd (own fl'))"
    if "mget (tc_flights t) key = Some fl'" for key fl'
    using that flights_okD(1) [OF assms(1), of key fl'] assms(3,5) by (simp split: if_splits)
  ultimately show ?thesis unfolding flights_ok_def by simp
qed

lemma events_grow:
  assumes "\<forall>ev \<in> set evs. event_ok evs ev" "\<forall>ev \<in> set extra. event_ok (evs @ extra) ev"
  shows "\<forall>ev \<in> set (evs @ extra). event_ok (evs @ extra) ev"
  using assms event_ok_mono [of evs _ "evs @ extra"] by auto

lemma fetch_and_finish_ok:
  assumes "cache_ok evs t" "NUL \<notin> set m" "fetch_and_finish scheme_of get later (fl, m, x, now) t = (res, t')"
    "evs' = evs @ issued_by get m later t"
  shows "cache_ok evs' t'" "tc_flights t' = mdel (token_key m x) (tc_flights t)" "tc_results t' = mset_at fl res (tc_results t)"
    "tc_nextFlight t' = tc_nextFlight t"
    "\<And>tok stale. res = Inr (tok, stale) \<Longrightarrow>
       \<exists>ft. issued_for evs' m x tok ft \<and> (stale \<longrightarrow> now - ft < maxTokenStaleWindow)"
proof -
  obtain r t1 where f: "fetch scheme_of get m x t = (r, t1)" by fastforce
  define t2 where "t2 = t1\<lparr>tc_flights := mdel (token_key m x) (tc_flights t1)\<rparr>"
  obtain t3 where st: "settle_token now later m x r t2 = (res, t3)" and t': "t' = t3\<lparr>tc_results := mset_at fl res (tc_results t3)\<rparr>"
    using assms(3) f by (auto simp: fetch_and_finish_def token_finish_def t2_def Let_def split: prod.splits)
  have "cache_ok evs' t2"
    using cache_ok_mono [of evs t evs'] assms(1,4) fetch_keeps(1) [OF f] by (simp add: t2_def cache_ok_def disabled_def)
  moreover have "issued_for evs' m x tok later" if "r = Inr tok" for tok
    using fetch_issued [of scheme_of get m x t tok t1 later] f that assms(4) by (auto intro: issued_for_mono)
  ultimately have settled: "cache_ok evs' t3" "tc_flights t3 = tc_flights t2" "tc_results t3 = tc_results t2"
    "tc_nextFlight t3 = tc_nextFlight t2"
    "\<And>tok stale. res = Inr (tok, stale) \<Longrightarrow> \<exists>ft. issued_for evs' m x tok ft \<and> (stale \<longrightarrow> now - ft < maxTokenStaleWindow)"
    using settle_token_ok [OF _ assms(2) _ st] by blast+
  show "cache_ok evs' t'" using settled(1) by (simp add: t' cache_ok_def disabled_def)
  show "tc_flights t' = mdel (token_key m x) (tc_flights t)" "tc_results t' = mset_at fl res (tc_results t)"
    "tc_nextFlight t' = tc_nextFlight t"
    using settled(2-4) fetch_keeps(2-4) [OF f] by (simp_all add: t' t2_def)
  show "\<exists>ft. issued_for evs' m x tok ft \<and> (stale \<longrightarrow> now - ft < maxTokenStaleWindow)" if "res = Inr (tok, stale)" for tok stale
    using settled(5) that by blast
qed

lemma token_inv_start: "cache_ok [] t \<Longrightarrow> tc_flights t = [] \<Longrightarrow> tc_results t = [] \<Longrightarrow> token_inv (token_start t)"
  by (simp add: token_inv_def token_start_def flights_ok_def)

lemma event_ok_served:
  assumes "\<And>tok stale. r = Inr (tok, stale) \<Longrightarrow> \<exists>t. issued_for evs m x tok t \<and> (stale \<longrightarrow> now - t < maxTokenStaleWindow)"
    "set evs \<subseteq> set evs'"
  shows "\<forall>ev \<in> set (served m x now r). event_ok evs' ev"
  using assms by (auto simp: served_def event_ok_def split: sum.splits dest!: issued_for_mono [OF _ assms(2)])

lemma token_step_inv:
  assumes "token_step scheme_of s s'" "token_inv s"
  shows "token_inv s'"
  using assms
proof (induction rule: token_step.induct)
  case (answered m now x s r t)
  then obtain own where own: "flights_ok own s" by (auto simp: token_inv_def)
  have c: "cache_ok (ts_events s) (ts_client s)" using answered by (simp add: token_inv_def)
  let ?evs = "ts_events s @ served m x now r"
  have "\<forall>ev \<in> set ?evs. event_ok ?evs ev"
    using answer_issued [OF c answered(1,2)] answered(3)
    by (intro events_grow event_ok_served [where evs = "ts_events s"]) (auto simp: token_inv_def)
  moreover have "cache_ok ?evs t" using cache_ok_begin [OF c answered(2)] by (rule cache_ok_mono) simp
  moreover have "flights_ok own (s\<lparr>ts_client := t, ts_events := ?evs\<rparr>)"
    using own token_begin_answer [OF answered(2)] by (intro flights_ok_same [OF own]) simp_all
  ultimately show ?case by (auto simp: token_inv_def)
next
  case (joined m now x s fl t)
  then obtain own where own: "flights_ok own s" by (auto simp: token_inv_def)
  from flights_ok_join [OF own token_begin_join(1) [OF joined(2)] joined(1)] token_begin_join(2-4) [OF joined(2)]
  have "flights_ok own (s\<lparr>ts_client := t, ts_joined := (fl, m, x, now) # ts_joined s\<rparr>)" by simp
  then show ?case using joined cache_ok_begin [OF _ joined(2)] by (auto simp: token_inv_def)
next
  case (led m now x s fl t)
  then obtain own where own: "flights_ok own s" by (auto simp: token_inv_def)
  from flights_ok_lead [OF own led(1)] token_begin_lead [OF led(2)]
  have "flights_ok (own(fl := (m, x))) (s\<lparr>ts_client := t, ts_led := (fl, m, x, now) # ts_led s\<rparr>)" by simp
  then show ?case using led cache_ok_begin [OF _ led(2)] by (auto simp: token_inv_def)
next
  case (fetched fl m x now s get later r t)
  then obtain own where own: "flights_ok own s" by (auto simp: token_inv_def)
  have c: "cache_ok (ts_events s) (ts_client s)" using fetched by (simp add: token_inv_def)
  have m: "NUL \<notin> set m" using own fetched(1) unfolding flights_ok_def by blast
  let ?issued = "ts_events s @ issued_by get m later (ts_client s)"
  let ?evs = "ts_events s @ issued_by get m later (ts_client s) @ served m x now r"
  note done_ = fetch_and_finish_ok [OF c m fetched(2) refl]
  have "\<forall>ev \<in> set (issued_by get m later (ts_client s)). event_ok ?evs ev"
    by (auto simp: issued_by_def event_ok_def split: sum.splits option.splits if_splits)
  moreover have "\<forall>ev \<in> set (served m x now r). event_ok ?evs ev"
    using done_(5) by (rule event_ok_served [where evs = ?issued]) (assumption | (simp, blast))+
  ultimately have "\<forall>ev \<in> set ?evs. event_ok ?evs ev"
    using fetched(3) by (intro events_grow) (auto simp: token_inv_def)
  moreover have "cache_ok ?evs t" using done_(1) by (rule cache_ok_mono) (simp, blast)
  moreover have "result_ok ?evs m x r" by (auto simp: result_ok_def served_def)
  from flights_ok_finish [OF own fetched(1) done_(2-4) _ this]
  have "flights_ok own (s\<lparr>ts_client := t, ts_led := remove1 (fl, m, x, now) (ts_led s), ts_events := ?evs\<rparr>)" by simp
  ultimately show ?case by (auto simp: token_inv_def)
next
  case (woken fl m x now s r)
  then obtain own where own: "flights_ok own s" by (auto simp: token_inv_def)
  have "own fl = (m, x)" using own woken(1) unfolding flights_ok_def by blast
  with own woken(2) have r: "result_ok (ts_events s) m x r" unfolding flights_ok_def by (metis fst_conv snd_conv)
  let ?evs = "ts_events s @ shared m x r"
  have "event_ok ?evs (Shared m x tok stale)" if res: "r = Inr (tok, stale)" for tok stale
  proof -
    obtain lead where lead: "Served m x tok stale lead \<in> set (ts_events s)" using r res unfolding result_ok_def by blast
    then have "event_ok (ts_events s) (Served m x tok stale lead)" using woken(3) by (simp add: token_inv_def)
    then obtain t where t: "issued_for (ts_events s) m x tok t" "stale \<longrightarrow> lead - t < maxTokenStaleWindow" by (auto simp: event_ok_def)
    have "issued_for ?evs m x tok t" using t(1) by (rule issued_for_mono) simp
    with lead t(2) show ?thesis by (auto simp: event_ok_def)
  qed
  then have "\<forall>ev \<in> set (shared m x r). event_ok ?evs ev" by (auto simp: shared_def split: sum.splits)
  then have "\<forall>ev \<in> set ?evs. event_ok ?evs ev" using woken(3) by (intro events_grow) (auto simp: token_inv_def)
  moreover have "flights_ok own (s\<lparr>ts_joined := remove1 (fl, m, x, now) (ts_joined s), ts_events := ?evs\<rparr>)"
    by (intro flights_ok_same [OF own]) (simp_all add: set_remove1_subset)
  moreover have "cache_ok (ts_events s) (ts_client s)" using woken(3) by (simp add: token_inv_def)
  then have "cache_ok ?evs (ts_client s)" by (rule cache_ok_mono) simp
  ultimately show ?case by (auto simp: token_inv_def)
next
  case (cancelled s call)
  then obtain own where own: "flights_ok own s" by (auto simp: token_inv_def)
  have "flights_ok own (s\<lparr>ts_joined := remove1 call (ts_joined s)\<rparr>)"
    by (intro flights_ok_same [OF own]) (simp_all add: set_remove1_subset)
  then show ?case using cancelled by (auto simp: token_inv_def)
next
  case (invalidated s m)
  then obtain own where own: "flights_ok own s" by (auto simp: token_inv_def)
  have "flights_ok own (s\<lparr>ts_client := token_Invalidate m (ts_client s)\<rparr>)"
    by (intro flights_ok_same [OF own]) (auto simp: token_Invalidate_def)
  moreover have "cache_ok (ts_events s) (token_Invalidate m (ts_client s))"
    using invalidated by (auto simp: token_inv_def cache_ok_def token_Invalidate_def disabled_def lru.find_remove_prefix split: if_splits)
  ultimately show ?case using invalidated by (auto simp: token_inv_def)
next
  case (configured s d)
  then obtain own where own: "flights_ok own s" by (auto simp: token_inv_def)
  have "flights_ok own (s\<lparr>ts_client := SetStaleWindow d (ts_client s)\<rparr>)"
    by (intro flights_ok_same [OF own]) (auto simp: SetStaleWindow_def)
  moreover have "cache_ok (ts_events s) (SetStaleWindow d (ts_client s))"
    using configured by (auto simp: token_inv_def cache_ok_def SetStaleWindow_def disabled_def)
  ultimately show ?case using configured by (auto simp: token_inv_def)
qed

text \<open>
  Claim C32. Every credential that a configured client (one with an address and a token of its own; without them it hands
  out no credential) gives out is one the control plane issued for the very machine the call asked for and, when the call names an execution, for
  that execution. A last-known-good credential was fetched less than two minutes before the clock reading of the call that
  served it: the call itself, or, for a call that waited on the flight of another one for the same machine and execution, the call that led
  that flight, which was served exactly the same credential. This holds for any order of calls, fetches with any outcome, waiting
  calls, invalidations and changes of the stale window, for machine names without a NUL byte, the separator of the cache's keys.
\<close>

theorem tokens_issued_for_request:
  assumes "addr \<noteq> ''''" "token \<noteq> ''''" "(token_step scheme_of)\<^sup>*\<^sup>* (token_start (NewTokenClient addr token ttl)) s"
  shows "(Served m x tok stale now \<in> set (ts_events s) \<longrightarrow>
      (\<exists>t. issued_for (ts_events s) m x tok t \<and> (stale \<longrightarrow> now - t < 120 * 1000000000))) \<and>
    (Shared m x tok stale \<in> set (ts_events s) \<longrightarrow>
      (\<exists>lead t. Served m x tok stale lead \<in> set (ts_events s) \<and> issued_for (ts_events s) m x tok t \<and>
         (stale \<longrightarrow> lead - t < 120 * 1000000000)))"
proof -
  have "token_inv s" using assms(3)
  proof (induction rule: rtranclp_induct)
    case base
    show ?case using assms(1,2) by (intro token_inv_start)
      (simp_all add: cache_ok_def NewTokenClient_def disabled_def defaultTokenStale_def maxTokenStaleWindow_def)
  qed (blast intro: token_step_inv)
  then show ?thesis by (force simp: token_inv_def event_ok_def maxTokenStaleWindow_def)
qed

text \<open>A credential is fetched; later the control plane is down and the same credential is served again.\<close>

definition example_call :: "int \<Rightarrow> http \<Rightarrow> int \<Rightarrow> token_run \<Rightarrow> token_run" where
  "example_call now get later s =
     (let t = snd (token_begin now ''m'' ''x'' (ts_client s));
          fl = tc_nextFlight (ts_client s);
          (r, t') = fetch_and_finish (\<lambda>_. Some ''https'') get later (fl, ''m'', ''x'', now) t in
      s\<lparr>ts_client := t', ts_events := ts_events s @ issued_by get ''m'' later t @ served ''m'' ''x'' now r\<rparr>)"

lemma example_call_steps:
  assumes "fst (token_begin now ''m'' ''x'' (ts_client s)) = TLead (tc_nextFlight (ts_client s))"
  shows "(token_step (\<lambda>_. Some ''https''))\<^sup>*\<^sup>* s (example_call now get later s)"
proof -
  let ?t = "snd (token_begin now ''m'' ''x'' (ts_client s))"
  let ?call = "(tc_nextFlight (ts_client s), ''m'', ''x'', now)"
  let ?s = "s\<lparr>ts_client := ?t, ts_led := ?call # ts_led s\<rparr>"
  have "token_begin now ''m'' ''x'' (ts_client s) = (TLead (tc_nextFlight (ts_client s)), ?t)"
    using assms by (metis prod.collapse)
  from led [OF _ this] have "token_step (\<lambda>_. Some ''https'') s ?s" by simp
  moreover obtain r t' where f: "fetch_and_finish (\<lambda>_. Some ''https'') get later ?call ?t = (r, t')" by fastforce
  then have "token_step (\<lambda>_. Some ''https'') ?s (example_call now get later s)"
    using fetched [of "tc_nextFlight (ts_client s)" "''m''" "''x''" now ?s "\<lambda>_. Some ''https''" get later r t']
    by (simp add: example_call_def Let_def)
  ultimately show ?thesis by (meson converse_rtranclp_into_rtranclp r_into_rtranclp)
qed

definition example_up :: token_run where
  "example_up = example_call 0 (\<lambda>_ _. Inr (200, Some \<lparr>tb_Token = ''tok'', tb_ExecutionID = ''x''\<rparr>)) 5
     (token_start (NewTokenClient ''https://cp'' ''bearer'' 10))"

definition example_down :: token_run where
  "example_down = example_call 50 (\<lambda>_ _. Inl ''refused'') 60 example_up"

theorem tokens_issued_for_request_witness:
  "Served ''m'' ''x'' ''tok'' True 50 \<in> set (ts_events example_down) \<and>
   (\<exists>t. issued_for (ts_events example_down) ''m'' ''x'' ''tok'' t \<and> 50 - t < 120 * 1000000000)"
proof -
  have "(token_step (\<lambda>_. Some ''https''))\<^sup>*\<^sup>* (token_start (NewTokenClient ''https://cp'' ''bearer'' 10)) example_up"
    unfolding example_up_def by (rule example_call_steps) code_simp
  moreover have "(token_step (\<lambda>_. Some ''https''))\<^sup>*\<^sup>* example_up example_down"
    unfolding example_down_def by (rule example_call_steps) code_simp
  ultimately have run: "(token_step (\<lambda>_. Some ''https''))\<^sup>*\<^sup>* (token_start (NewTokenClient ''https://cp'' ''bearer'' 10)) example_down"
    by (rule rtranclp_trans)
  have "Served ''m'' ''x'' ''tok'' True 50 \<in> set (ts_events example_down)" by code_simp
  with tokens_issued_for_request [OF _ _ run, of "''m''" "''x''" "''tok''" True 50] show ?thesis by simp
qed

end
