(* ===== verification/AutoscalePolicy.thy ===== *)
theory AutoscalePolicy
  imports GoStrings Floats
begin

text \<open>
  The autoscaling policy of an application and the statements that write it and the replica
  count (\<open>internal/controlplane/store/autoscale.go\<close>, \<open>App\<close> of \<open>apps.go\<close>). The table \<open>apps\<close> is a map
  from identifiers to rows; each statement is one atomic update, and \<open>fault\<close> is the error of the
  database, if any. Floating-point columns are finite.
\<close>

section \<open>Policies\<close>

record AutoscalePolicy =
  ap_Enabled :: bool
  ap_MinReplicas :: int
  ap_MaxReplicas :: int
  ap_TargetConcurrency :: int
  ap_ScaleDownDelaySec :: int
  ap_PanicThreshold :: rat
  ap_TargetRPS :: int
  ap_TargetCPURatio :: rat
  ap_CustomPromQuery :: string
  ap_CustomTarget :: rat
  ap_CustomMode :: string

definition DefaultAutoscalePolicy :: AutoscalePolicy where
  "DefaultAutoscalePolicy =
     \<lparr>ap_Enabled = False, ap_MinReplicas = 1, ap_MaxReplicas = 10, ap_TargetConcurrency = 20,
      ap_ScaleDownDelaySec = 120, ap_PanicThreshold = 2, ap_TargetRPS = 0, ap_TargetCPURatio = 0,
      ap_CustomPromQuery = '''', ap_CustomTarget = 0, ap_CustomMode = ''per_replica''\<rparr>"

record 'a bound =
  b_lo :: 'a
  b_hi :: 'a

record autoscaleBounds =
  bs_minReplicas :: "int bound"
  bs_maxReplicas :: "int bound"
  bs_targetConcurrency :: "int bound"
  bs_scaleDownDelaySec :: "int bound"
  bs_panicThreshold :: "rat bound"

definition autoscale_bounds :: autoscaleBounds where
  "autoscale_bounds =
     \<lparr>bs_minReplicas = \<lparr>b_lo = 0, b_hi = 100\<rparr>, bs_maxReplicas = \<lparr>b_lo = 1, b_hi = 100\<rparr>,
      bs_targetConcurrency = \<lparr>b_lo = 1, b_hi = 256\<rparr>, bs_scaleDownDelaySec = \<lparr>b_lo = 30, b_hi = 600\<rparr>,
      bs_panicThreshold = \<lparr>b_lo = 3 / 2, b_hi = 5\<rparr>\<rparr>"

definition clampBound :: "'a::linorder \<Rightarrow> 'a bound \<Rightarrow> 'a" where
  "clampBound v b = (if v < b_lo b then b_lo b else if b_hi b < v then b_hi b else v)"

definition outside :: "'a::linorder \<Rightarrow> 'a bound \<Rightarrow> bool" where
  "outside v b \<longleftrightarrow> v < b_lo b \<or> b_hi b < v"

definition ValidateAutoscalePolicy :: "AutoscalePolicy \<Rightarrow> string + unit" where
  "ValidateAutoscalePolicy p =
     (let bs = autoscale_bounds in
      if ap_MinReplicas p < b_lo (bs_minReplicas bs) \<or> ap_MaxReplicas p < b_lo (bs_minReplicas bs)
        then Inl ''min_replicas and max_replicas must be >= 0''
      else if ap_MaxReplicas p < b_lo (bs_maxReplicas bs) then Inl ''max_replicas must be >= 1''
      else if b_hi (bs_maxReplicas bs) < ap_MaxReplicas p then Inl ''max_replicas must be <= 100''
      else if ap_MaxReplicas p < ap_MinReplicas p then Inl ''min_replicas must be <= max_replicas''
      else if outside (ap_TargetConcurrency p) (bs_targetConcurrency bs) then Inl ''target_concurrency must be in [1,256]''
      else if outside (ap_ScaleDownDelaySec p) (bs_scaleDownDelaySec bs) then Inl ''scale_down_delay_sec must be in [30,600]''
      else if outside (ap_PanicThreshold p) (bs_panicThreshold bs) then Inl ''panic_threshold must be in [1.5,5.0]''
      else if ap_TargetRPS p < 0 \<or> 100000 < ap_TargetRPS p then Inl ''target_rps must be in [0,100000]''
      else if ap_TargetCPURatio p < 0 \<or> 1 < ap_TargetCPURatio p then Inl ''target_cpu_ratio must be in [0,1]''
      else if ap_CustomTarget p < 0 then Inl ''custom_target must be >= 0''
      else if ap_CustomMode p \<noteq> '''' \<and> ap_CustomMode p \<noteq> ''per_replica'' \<and> ap_CustomMode p \<noteq> ''absolute''
        then Inl ''custom_mode must be per_replica|absolute''
      else if 0 < ap_CustomTarget p \<and> ap_CustomPromQuery p = '''' then Inl ''custom_target requires custom_prom_query''
      else Inr ())"

definition clamp_replicas :: "AutoscalePolicy \<Rightarrow> AutoscalePolicy" where
  "clamp_replicas p =
     (let mn = clampBound (ap_MinReplicas p) (bs_minReplicas autoscale_bounds);
          mx = clampBound (ap_MaxReplicas p) (bs_maxReplicas autoscale_bounds) in
      p\<lparr>ap_MinReplicas := (if mx < mn then mx else mn), ap_MaxReplicas := mx\<rparr>)"

definition clamp_custom :: "AutoscalePolicy \<Rightarrow> AutoscalePolicy" where
  "clamp_custom p =
     (let tgt = (if ap_CustomTarget p < 0 then 0 else ap_CustomTarget p) in
      p\<lparr>ap_CustomTarget := tgt, ap_CustomPromQuery := (if tgt = 0 then '''' else ap_CustomPromQuery p),
        ap_CustomMode := (if ap_CustomMode p \<noteq> ''absolute'' then ''per_replica'' else ap_CustomMode p)\<rparr>)"

definition clampAutoscalePolicy :: "AutoscalePolicy \<Rightarrow> AutoscalePolicy" where
  "clampAutoscalePolicy p0 =
     (let p = clamp_replicas p0;
          rps = (if ap_TargetRPS p < 0 then 0 else ap_TargetRPS p) in
      clamp_custom
        (p\<lparr>ap_TargetConcurrency := clampBound (ap_TargetConcurrency p) (bs_targetConcurrency autoscale_bounds),
           ap_ScaleDownDelaySec := clampBound (ap_ScaleDownDelaySec p) (bs_scaleDownDelaySec autoscale_bounds),
           ap_PanicThreshold := clampBound (ap_PanicThreshold p) (bs_panicThreshold autoscale_bounds),
           ap_TargetRPS := (if 100000 < rps then 100000 else rps),
           ap_TargetCPURatio := (if ap_TargetCPURatio p < 0 \<or> 1 < ap_TargetCPURatio p then 0 else ap_TargetCPURatio p)\<rparr>))"

section \<open>The apps table\<close>

text \<open>The columns the autoscaler reads and writes; the policy is stored column by column.\<close>

record App =
  app_ID :: string
  app_Hostname :: string
  app_DesiredReplicas :: int
  app_Generation :: int
  app_Deleted :: bool
  app_policy :: AutoscalePolicy
  app_UpdatedAt :: int

type_synonym apps = "(string, App) gomap"

definition Autoscale :: "App \<Rightarrow> AutoscalePolicy" where
  "Autoscale a = clampAutoscalePolicy (app_policy a)"

datatype store_err = ErrNotFound | ErrAppDeleted | ErrDB string | ErrInvalid string

text \<open>An \<open>UPDATE\<close> of the row with an identifier when it satisfies a condition: the rows affected and the table.\<close>

definition update_app :: "string \<Rightarrow> (App \<Rightarrow> bool) \<Rightarrow> (App \<Rightarrow> App) \<Rightarrow> apps \<Rightarrow> nat \<times> apps" where
  "update_app appID cond f t =
     (case mget t appID of
        None \<Rightarrow> (0, t)
      | Some a \<Rightarrow> if cond a then (1, mset_at appID (f a) t) else (0, t))"

text \<open>No row was affected: the second query tells a deleted application from an unknown one.\<close>

definition missing :: "string option \<Rightarrow> string \<Rightarrow> apps \<Rightarrow> store_err" where
  "missing fault appID t =
     (case (fault, mget t appID) of
        (None, Some a) \<Rightarrow> if app_Deleted a then ErrAppDeleted else ErrNotFound
      | _ \<Rightarrow> ErrNotFound)"

definition GetAutoscalePolicy :: "string option \<Rightarrow> string \<Rightarrow> apps \<Rightarrow> store_err + AutoscalePolicy" where
  "GetAutoscalePolicy fault appID t =
     (case fault of
        Some e \<Rightarrow> Inl (ErrDB e)
      | None \<Rightarrow> (case mget t appID of None \<Rightarrow> Inl ErrNotFound | Some a \<Rightarrow> Inr (Autoscale a)))"

definition SetAutoscalePolicy :: "int \<Rightarrow> string option \<Rightarrow> string option \<Rightarrow> string \<Rightarrow> AutoscalePolicy \<Rightarrow> apps \<Rightarrow> (store_err + unit) \<times> apps" where
  "SetAutoscalePolicy now fault fault2 appID p t =
     (case ValidateAutoscalePolicy p of
        Inl e \<Rightarrow> (Inl (ErrInvalid e), t)
      | Inr _ \<Rightarrow>
          (case fault of
             Some e \<Rightarrow> (Inl (ErrDB e), t)
           | None \<Rightarrow>
               (let (n, t1) = update_app appID (\<lambda>a. \<not> app_Deleted a)
                                (\<lambda>a. a\<lparr>app_policy := clampAutoscalePolicy p, app_UpdatedAt := now\<rparr>) t in
                if n = 0 then (Inl (missing fault2 appID t1), t1) else (Inr (), t1))))"

definition SetAppReplicasCAS :: "int \<Rightarrow> string option \<Rightarrow> string \<Rightarrow> int \<Rightarrow> int \<Rightarrow> apps \<Rightarrow> (store_err + bool) \<times> apps" where
  "SetAppReplicasCAS now fault appID want expect t =
     (case fault of
        Some e \<Rightarrow> (Inl (ErrDB e), t)
      | None \<Rightarrow>
          (let (n, t1) = update_app appID
                 (\<lambda>a. \<not> app_Deleted a \<and> ap_Enabled (app_policy a) \<and> app_DesiredReplicas a = expect)
                 (\<lambda>a. a\<lparr>app_DesiredReplicas := want, app_UpdatedAt := now\<rparr>) t in
           (Inr (n = 1), t1)))"

definition disable :: "AutoscalePolicy \<Rightarrow> AutoscalePolicy" where
  "disable p = p\<lparr>ap_Enabled := False\<rparr>"

definition TakeoverScale :: "int \<Rightarrow> string option \<Rightarrow> string option \<Rightarrow> string \<Rightarrow> int \<Rightarrow> apps \<Rightarrow> (store_err + unit) \<times> apps" where
  "TakeoverScale now fault fault2 appID replicas t =
     (case fault of
        Some e \<Rightarrow> (Inl (ErrDB e), t)
      | None \<Rightarrow>
          (let (n, t1) = update_app appID (\<lambda>a. \<not> app_Deleted a)
                 (\<lambda>a. a\<lparr>app_DesiredReplicas := replicas, app_policy := disable (app_policy a), app_UpdatedAt := now\<rparr>) t in
           if n = 0 then (Inl (missing fault2 appID t1), t1) else (Inr (), t1)))"

definition TakeoverScaleCAS :: "int \<Rightarrow> string option \<Rightarrow> string \<Rightarrow> int \<Rightarrow> int \<Rightarrow> int \<Rightarrow> apps \<Rightarrow> (store_err + bool) \<times> apps" where
  "TakeoverScaleCAS now fault appID replicas expect expectUpdated t =
     (case fault of
        Some e \<Rightarrow> (Inl (ErrDB e), t)
      | None \<Rightarrow>
          (let (n, t1) = update_app appID
                 (\<lambda>a. \<not> app_Deleted a \<and> app_DesiredReplicas a = expect \<and> app_UpdatedAt a = expectUpdated)
                 (\<lambda>a. a\<lparr>app_DesiredReplicas := replicas, app_policy := disable (app_policy a), app_UpdatedAt := now\<rparr>) t in
           (Inr (n = 1), t1)))"

section \<open>Bounds\<close>

lemmas autoscale_bound_defs = autoscale_bounds_def clampBound_def outside_def

text \<open>What the decision loop may rely on when it reads a policy.\<close>

definition policy_ok :: "AutoscalePolicy \<Rightarrow> bool" where
  "policy_ok p \<longleftrightarrow> 0 \<le> ap_MinReplicas p \<and> ap_MinReplicas p \<le> ap_MaxReplicas p \<and> 1 \<le> ap_MaxReplicas p \<and> ap_MaxReplicas p \<le> 100 \<and>
     1 \<le> ap_TargetConcurrency p \<and> ap_TargetConcurrency p \<le> 256 \<and> 30 \<le> ap_ScaleDownDelaySec p \<and> ap_ScaleDownDelaySec p \<le> 600 \<and>
     3 / 2 \<le> ap_PanicThreshold p \<and> ap_PanicThreshold p \<le> 5 \<and> 0 \<le> ap_TargetRPS p \<and> ap_TargetRPS p \<le> 100000 \<and>
     0 \<le> ap_TargetCPURatio p \<and> ap_TargetCPURatio p \<le> 1 \<and> 0 \<le> ap_CustomTarget p"

lemma policy_ok_clamp [simp]: "policy_ok (clampAutoscalePolicy p)"
  by (auto simp: policy_ok_def clampAutoscalePolicy_def clamp_custom_def clamp_replicas_def autoscale_bound_defs Let_def)

lemma Autoscale_ok [simp]: "policy_ok (Autoscale a)"
  by (simp add: Autoscale_def)

lemma Validate_ok:
  "ValidateAutoscalePolicy p = Inr () \<longleftrightarrow>
     policy_ok p \<and> ap_CustomMode p \<in> {'''', ''per_replica'', ''absolute''} \<and> \<not> (0 < ap_CustomTarget p \<and> ap_CustomPromQuery p = '''')"
  unfolding ValidateAutoscalePolicy_def policy_ok_def autoscale_bound_defs by (auto simp: Let_def)

lemma clamp_id: "policy_ok p \<Longrightarrow> clampAutoscalePolicy p = clamp_custom p"
  by (auto simp: policy_ok_def clampAutoscalePolicy_def clamp_replicas_def autoscale_bound_defs Let_def)

lemma clamp_custom_idem [simp]: "clamp_custom (clamp_custom p) = clamp_custom p"
  by (simp add: clamp_custom_def Let_def)

lemma policy_ok_clamp_custom [simp]: "policy_ok p \<Longrightarrow> policy_ok (clamp_custom p)"
  by (auto simp: policy_ok_def clamp_custom_def Let_def)

lemma clamp_custom_clamp [simp]: "clamp_custom (clampAutoscalePolicy p) = clampAutoscalePolicy p"
  unfolding clampAutoscalePolicy_def Let_def by (rule clamp_custom_idem)

lemma clamp_idem [simp]: "clampAutoscalePolicy (clampAutoscalePolicy p) = clampAutoscalePolicy p"
  using clamp_id [OF policy_ok_clamp, of p] by simp

lemma clamp_Enabled [simp]: "ap_Enabled (clampAutoscalePolicy p) = ap_Enabled p"
  by (simp add: clampAutoscalePolicy_def clamp_custom_def clamp_replicas_def Let_def)

section \<open>Reading back a policy\<close>

text \<open>
  A policy that was stored is read back as the normalised policy, and validation lets exactly those policies through that the
  decision loop would not change in their numbers: normalising an accepted policy only spells its custom
  dimension in one way, and every policy read from the table is within the documented bounds.
\<close>

lemma SetAutoscalePolicy_roundtrip:
  assumes "SetAutoscalePolicy now f f2 appID p t = (Inr (), t')"
  shows "GetAutoscalePolicy None appID t' = Inr (clamp_custom p) \<and> policy_ok (clamp_custom p)"
proof -
  have valid: "ValidateAutoscalePolicy p = Inr ()"
    using assms by (auto simp: SetAutoscalePolicy_def split: sum.splits)
  then have ok: "policy_ok p" by (simp add: Validate_ok)
  from assms valid obtain a where "mget t' appID = Some a" "app_policy a = clampAutoscalePolicy p"
    by (auto simp: SetAutoscalePolicy_def update_app_def Let_def split: option.splits if_splits)
  then show ?thesis using clamp_id [OF ok] ok clamp_idem [of p] by (simp add: GetAutoscalePolicy_def Autoscale_def)
qed

definition example_row :: App where
  "example_row = \<lparr>app_ID = ''a'', app_Hostname = ''a.test'', app_DesiredReplicas = 1, app_Generation = 1, app_Deleted = False,
     app_policy = DefaultAutoscalePolicy, app_UpdatedAt = 0\<rparr>"

lemma SetAutoscalePolicy_roundtrip_witness:
  "GetAutoscalePolicy None ''a'' (snd (SetAutoscalePolicy 1 None None ''a'' (DefaultAutoscalePolicy\<lparr>ap_CustomMode := ''''\<rparr>) [(''a'', example_row)])) =
   Inr DefaultAutoscalePolicy"
proof -
  have "SetAutoscalePolicy 1 None None ''a'' (DefaultAutoscalePolicy\<lparr>ap_CustomMode := ''''\<rparr>) [(''a'', example_row)] =
      (Inr (), snd (SetAutoscalePolicy 1 None None ''a'' (DefaultAutoscalePolicy\<lparr>ap_CustomMode := ''''\<rparr>) [(''a'', example_row)]))"
    by (simp add: SetAutoscalePolicy_def ValidateAutoscalePolicy_def DefaultAutoscalePolicy_def autoscale_bound_defs
        update_app_def example_row_def Let_def)
  from SetAutoscalePolicy_roundtrip [OF this] show ?thesis by (simp add: clamp_custom_def DefaultAutoscalePolicy_def Let_def)
qed

end
