(* ===== verification/AutoscaleSignal.thy ===== *)
theory AutoscaleSignal
  imports AutoscalePolicy "HOL-Library.Signed_Division"
begin

text \<open>
  The load signal and the decision kernel of the autoscaler
  (\<open>internal/controlplane/catalog/autoscale.go\<close>, \<open>internal/controlplane/controller/autoscale.go\<close> and
  \<open>autoscale_multi.go\<close>): samples reported by the edges are aggregated to one signal, from which the
  wanted number of replicas is computed in \<open>float64\<close> arithmetic. Times are nanoseconds; decoding
  of a reported field is a parameter. Conversions to \<open>int\<close> are of values in its range.
\<close>

section \<open>Samples and their aggregation\<close>

record SignalSample =
  ss_EWMA :: rat
  ss_RPS :: rat
  ss_HardRejected :: int
  ss_Unserved :: int
  ss_TsMs :: int
  ss_WinMs :: int

record AutoscaleSignal =
  sg_Served :: rat
  sg_Unserved :: rat
  sg_TotalRPS :: rat
  sg_WindowSec :: rat
  sg_PanicReject :: bool
  sg_HasFresh :: bool
  sg_HasStaleNonzero :: bool

definition second :: int where
  "second = 1000000000"

definition autoscaleFreshPast :: int where
  "autoscaleFreshPast = 20 * second"

definition autoscaleFreshFuture :: int where
  "autoscaleFreshFuture = 5 * second"

definition autoscaleSampleFresh :: "int \<Rightarrow> int \<Rightarrow> bool" where
  "autoscaleSampleFresh tsMs now \<longleftrightarrow>
     now - autoscaleFreshPast \<le> tsMs * 1000000 \<and> tsMs * 1000000 \<le> now + autoscaleFreshFuture"

text \<open>A sum of type \<open>int64\<close>.\<close>

definition wrap64 :: "int \<Rightarrow> int" where
  "wrap64 x = (x + 2 ^ 63) mod 2 ^ 64 - 2 ^ 63"

definition sample_nonzero :: "SignalSample \<Rightarrow> bool" where
  "sample_nonzero s \<longleftrightarrow> ss_EWMA s \<noteq> 0 \<or> ss_RPS s \<noteq> 0 \<or> ss_HardRejected s \<noteq> 0 \<or> ss_Unserved s \<noteq> 0"

text \<open>One field of the loop: the signal so far, the sum of unserved requests and the largest window.\<close>

definition aggregate_field ::
    "(string \<Rightarrow> SignalSample option) \<Rightarrow> int \<Rightarrow> string \<Rightarrow> AutoscaleSignal \<times> int \<times> int \<Rightarrow> AutoscaleSignal \<times> int \<times> int" where
  "aggregate_field decode now raw acc =
     (case acc of (sg, unservedSum, winMsMax) \<Rightarrow>
        case decode raw of
          None \<Rightarrow> acc
        | Some s \<Rightarrow>
            if \<not> autoscaleSampleFresh (ss_TsMs s) now then
              (if sample_nonzero s then sg\<lparr>sg_HasStaleNonzero := True\<rparr> else sg, unservedSum, winMsMax)
            else
              (sg\<lparr>sg_HasFresh := True, sg_Served := fadd (sg_Served sg) (ss_EWMA s),
                  sg_TotalRPS := fadd (sg_TotalRPS sg) (ss_RPS s),
                  sg_PanicReject := (if 0 < ss_HardRejected s then True else sg_PanicReject sg)\<rparr>,
               wrap64 (unservedSum + ss_Unserved s), if winMsMax < ss_WinMs s then ss_WinMs s else winMsMax))"

definition no_signal :: AutoscaleSignal where
  "no_signal = \<lparr>sg_Served = 0, sg_Unserved = 0, sg_TotalRPS = 0, sg_WindowSec = 0, sg_PanicReject = False,
     sg_HasFresh = False, sg_HasStaleNonzero = False\<rparr>"


definition finish_signal :: "int \<Rightarrow> AutoscaleSignal \<times> int \<times> int \<Rightarrow> AutoscaleSignal" where
  "finish_signal target acc =
     (case acc of (sg, unservedSum, winMsMax) \<Rightarrow>
        let win = fdiv (float_of_int winMsMax) 1000 in
        sg\<lparr>sg_Unserved := of_int \<lceil>fdiv (float_of_int unservedSum) (float_of_int target)\<rceil>,
           sg_WindowSec := (if win \<le> 0 then 10 else win)\<rparr>)"

definition aggregateAutoscaleSignal ::
    "(string \<Rightarrow> SignalSample option) \<Rightarrow> (string, string) gomap list \<Rightarrow> int \<Rightarrow> int \<Rightarrow> AutoscaleSignal" where
  "aggregateAutoscaleSignal decode fieldSets target now =
     finish_signal (if target < 1 then 1 else target)
       (fold (aggregate_field decode now) (map snd (concat fieldSets)) (no_signal, 0, 0))"

section \<open>The decision kernel\<close>

definition ceilDiv :: "int \<Rightarrow> int \<Rightarrow> int" where
  "ceilDiv a b = (if a \<le> 0 then 0 else (a + b - 1) sdiv b)"

definition sig_load :: "AutoscaleSignal \<Rightarrow> rat" where
  "sig_load sg = fadd (sg_Served sg) (sg_Unserved sg)"

definition panicking :: "AutoscalePolicy \<Rightarrow> AutoscaleSignal \<Rightarrow> int \<Rightarrow> bool" where
  "panicking p sg eff \<longleftrightarrow> 0 < eff \<and>
     (sg_PanicReject sg \<or> fmul (ap_PanicThreshold p) (float_of_int (ap_TargetConcurrency p * eff)) < sig_load sg)"

definition boost :: "AutoscalePolicy \<Rightarrow> int \<Rightarrow> int \<Rightarrow> int" where
  "boost p base eff =
     (let b = max base (max \<lceil>fmul (ap_PanicThreshold p) (float_of_int eff)\<rceil> (eff + 2)) in
      if ap_MaxReplicas p < b then ap_MaxReplicas p else b)"

definition clamp_want :: "AutoscalePolicy \<Rightarrow> int \<Rightarrow> int" where
  "clamp_want p w =
     (let w1 = (if w < ap_MinReplicas p then ap_MinReplicas p else w) in
      if ap_MaxReplicas p < w1 then ap_MaxReplicas p else w1)"

definition computeAutoscaleWant :: "AutoscalePolicy \<Rightarrow> AutoscaleSignal \<Rightarrow> int \<Rightarrow> int \<Rightarrow> int \<times> bool" where
  "computeAutoscaleWant p sg ready warming =
     (let eff = ready + warming;
          want = clamp_want p (ceilDiv \<lceil>sig_load sg\<rceil> (ap_TargetConcurrency p)) in
      if panicking p sg eff then
        (let boosted = boost p want eff in (if want < boosted then boosted else want, True))
      else (want, False))"

record extraSignals =
  ex_rpsRate :: rat
  ex_rpsOK :: bool
  ex_cpuUtil :: rat
  ex_cpuOK :: bool
  ex_customValue :: rat
  ex_customOK :: bool

text \<open>The dimensions that take part, each with its want, in the order of the code.\<close>

definition want_concurrency :: "AutoscalePolicy \<Rightarrow> AutoscaleSignal \<Rightarrow> int" where
  "want_concurrency p sg = ceilDiv \<lceil>sig_load sg\<rceil> (ap_TargetConcurrency p)"

definition want_custom :: "AutoscalePolicy \<Rightarrow> int \<Rightarrow> extraSignals \<Rightarrow> int" where
  "want_custom p eff ex =
     (if ap_CustomMode p = ''absolute'' then \<lceil>fdiv (ex_customValue ex) (ap_CustomTarget p)\<rceil>
      else \<lceil>fdiv (fmul (float_of_int eff) (ex_customValue ex)) (ap_CustomTarget p)\<rceil>)"

definition by_dimension :: "AutoscalePolicy \<Rightarrow> AutoscaleSignal \<Rightarrow> int \<Rightarrow> extraSignals \<Rightarrow> (string, int) gomap" where
  "by_dimension p sg eff ex =
     [(''concurrency'', want_concurrency p sg)]
     @ (if 0 < ap_TargetRPS p \<and> ex_rpsOK ex then [(''rps'', ceilDiv \<lceil>ex_rpsRate ex\<rceil> (ap_TargetRPS p))] else [])
     @ (if 0 < ap_TargetCPURatio p \<and> ex_cpuOK ex
        then [(''cpu'', \<lceil>fdiv (fmul (float_of_int eff) (ex_cpuUtil ex)) (ap_TargetCPURatio p)\<rceil>)] else [])
     @ (if 0 < ap_CustomTarget p \<and> ap_CustomPromQuery p \<noteq> '''' \<and> ex_customOK ex
        then [(''custom'', want_custom p eff ex)] else [])"

definition computeAutoscaleWantMulti ::
    "AutoscalePolicy \<Rightarrow> AutoscaleSignal \<Rightarrow> int \<Rightarrow> int \<Rightarrow> extraSignals \<Rightarrow> int \<times> bool \<times> (string, int) gomap" where
  "computeAutoscaleWantMulti p sg ready warming ex =
     (let eff = ready + warming;
          byDim = by_dimension p sg eff ex;
          want = clamp_want p (fold (\<lambda>(_, w) want. if want < w then w else want) (tl byDim) (snd (hd byDim))) in
      if panicking p sg eff then
        (let boosted = boost p (want_concurrency p sg) eff in (if want < boosted then boosted else want, True, byDim))
      else (want, False, byDim))"

text \<open>
  \<open>fetchExtraSignals\<close>: whether Prometheus is configured and the answers to the two queries are parameters.
  \<open>Inl\<close> is a hold with its reason.
\<close>

definition rps_signal :: "AutoscalePolicy \<Rightarrow> AutoscaleSignal \<Rightarrow> extraSignals" where
  "rps_signal p sg =
     (if 0 < ap_TargetRPS p \<and> 0 < sg_WindowSec sg
      then \<lparr>ex_rpsRate = fdiv (sg_TotalRPS sg) (sg_WindowSec sg), ex_rpsOK = True, ex_cpuUtil = 0, ex_cpuOK = False, ex_customValue = 0, ex_customOK = False\<rparr>
      else \<lparr>ex_rpsRate = 0, ex_rpsOK = False, ex_cpuUtil = 0, ex_cpuOK = False, ex_customValue = 0, ex_customOK = False\<rparr>)"

definition fetchExtraSignals ::
    "bool \<Rightarrow> (string + rat) \<Rightarrow> (string + rat) \<Rightarrow> AutoscalePolicy \<Rightarrow> AutoscaleSignal \<Rightarrow> int \<Rightarrow> string + extraSignals" where
  "fetchExtraSignals prometheus cpu_query custom_query p sg eff =
     (let ex = rps_signal p sg;
          custom = 0 < ap_CustomTarget p \<and> ap_CustomPromQuery p \<noteq> '''';
          add_custom = (\<lambda>ex. if custom
            then (case custom_query of Inl e \<Rightarrow> Inl (''custom signal unavailable: '' @ e)
                                     | Inr v \<Rightarrow> Inr (ex\<lparr>ex_customValue := v, ex_customOK := True\<rparr>))
            else Inr ex) in
      if \<not> (0 < ap_TargetCPURatio p \<or> custom) then Inr ex
      else if eff = 0 then Inr ex
      else if \<not> prometheus then Inl ''prometheus not configured for cpu/custom signals''
      else if 0 < ap_TargetCPURatio p
        then (case cpu_query of Inl e \<Rightarrow> Inl (''cpu signal unavailable: '' @ e)
                              | Inr v \<Rightarrow> add_custom (ex\<lparr>ex_cpuUtil := v, ex_cpuOK := True\<rparr>))
        else add_custom ex)"

section \<open>Bounds of the decision\<close>

lemma clamp_want_bounds: "policy_ok p \<Longrightarrow> ap_MinReplicas p \<le> clamp_want p w \<and> clamp_want p w \<le> ap_MaxReplicas p"
  by (auto simp: policy_ok_def clamp_want_def Let_def)

lemma clamp_want_mono: "w \<le> w' \<Longrightarrow> clamp_want p w \<le> clamp_want p w'"
  by (auto simp: clamp_want_def Let_def)


lemma if_less_max: "(if a < b then b else a) = max a b" and if_less_min: "(if a < b then a else b) = min a b" for a b :: int
  by simp_all

lemma boost_eq: "boost p base eff = min (ap_MaxReplicas p) (max base (max \<lceil>fmul (ap_PanicThreshold p) (float_of_int eff)\<rceil> (eff + 2)))"
  unfolding boost_def Let_def if_less_min ..

lemma boost_max: "boost p base eff \<le> ap_MaxReplicas p"
  by (simp add: boost_eq)

lemma clamp_want_eq: "clamp_want p w = min (ap_MaxReplicas p) (max (ap_MinReplicas p) w)"
  by (auto simp: clamp_want_def Let_def)

definition max_want :: "(string, int) gomap \<Rightarrow> int" where
  "max_want d = fold (\<lambda>(_, w) want. if want < w then w else want) (tl d) (snd (hd d))"

lemma fold_max: "fold (\<lambda>(_, w) want. if want < w then w else want) ds a = fold max (map snd ds) (a::int)"
  by (induction ds arbitrary: a) (auto simp: max_def)

text \<open>The decision in closed form.\<close>

lemma multi_want:
  "fst (computeAutoscaleWantMulti p sg ready warming ex) =
     (let eff = ready + warming; want = clamp_want p (max_want (by_dimension p sg eff ex)) in
      if panicking p sg eff then max want (boost p (want_concurrency p sg) eff) else want)"
  by (simp add: computeAutoscaleWantMulti_def max_want_def Let_def max_def)

text \<open>It makes no difference whether the boost starts from the clamped or the unclamped want.\<close>

lemma boost_clamped: "max (clamp_want p w) (boost p w eff) = max (clamp_want p w) (boost p (clamp_want p w) eff)"
proof -
  have "max (min M (max m w)) (min M (max w x)) = max (min M (max m w)) (min M (max (min M (max m w)) x))" for M m x :: int
    by (simp add: min_def max_def)
  then show ?thesis by (simp add: boost_eq clamp_want_eq)
qed

text \<open>
  Claim C38. The multi-signal decision is a conservative extension of the concurrency decision: with the request-rate, CPU and custom
  dimensions switched off or without a signal, it wants the same number of replicas and panics in the same
  situations, for every policy and load.
\<close>

theorem multi_extends_concurrency:
  "\<not> (0 < ap_TargetRPS p \<and> ex_rpsOK ex) \<Longrightarrow> \<not> (0 < ap_TargetCPURatio p \<and> ex_cpuOK ex) \<Longrightarrow>
   \<not> (0 < ap_CustomTarget p \<and> ap_CustomPromQuery p \<noteq> '''' \<and> ex_customOK ex) \<Longrightarrow>
   computeAutoscaleWantMulti p sg ready warming ex =
     (fst (computeAutoscaleWant p sg ready warming), snd (computeAutoscaleWant p sg ready warming),
      [(''concurrency'', want_concurrency p sg)])"
proof -
  assume off: "\<not> (0 < ap_TargetRPS p \<and> ex_rpsOK ex)" "\<not> (0 < ap_TargetCPURatio p \<and> ex_cpuOK ex)"
    "\<not> (0 < ap_CustomTarget p \<and> ap_CustomPromQuery p \<noteq> '''' \<and> ex_customOK ex)"
  have d: "by_dimension p sg eff ex = [(''concurrency'', want_concurrency p sg)]" for eff
    unfolding by_dimension_def using off by (simp only: if_False append_Nil2)
  show ?thesis
    unfolding computeAutoscaleWantMulti_def computeAutoscaleWant_def d want_concurrency_def [symmetric] Let_def if_less_max
    by (simp add: boost_clamped [of p "want_concurrency p sg" "ready + warming"])
qed

theorem multi_extends_concurrency_witness:
  "computeAutoscaleWantMulti DefaultAutoscalePolicy (no_signal\<lparr>sg_Served := 50\<rparr>) 1 0
     \<lparr>ex_rpsRate = 9, ex_rpsOK = True, ex_cpuUtil = 0, ex_cpuOK = False, ex_customValue = 0, ex_customOK = False\<rparr> =
   (3, True, [(''concurrency'', 3)])"
proof -
  let ?ex = "\<lparr>ex_rpsRate = 9, ex_rpsOK = True, ex_cpuUtil = 0, ex_cpuOK = False, ex_customValue = 0, ex_customOK = False\<rparr>"
  have "computeAutoscaleWant DefaultAutoscalePolicy (no_signal\<lparr>sg_Served := 50\<rparr>) 1 0 = (3, True)"
    "want_concurrency DefaultAutoscalePolicy (no_signal\<lparr>sg_Served := 50\<rparr>) = 3" by code_simp+
  with multi_extends_concurrency [of DefaultAutoscalePolicy ?ex "no_signal\<lparr>sg_Served := 50\<rparr>" 1 0] show ?thesis
    by (simp add: DefaultAutoscalePolicy_def)
qed

end
