(* ===== verification/AutoscaleTracker.thy ===== *)
theory AutoscaleTracker
  imports Lru AutoscaleSignal
begin

text \<open>
  The edge side of autoscaling (\<open>internal/edge/autoscale.go\<close>): a table of counters per host name in the bounded cache, and the
  reporter that publishes their rolling sums. Counters are pointers in the cache and change in place. The counts stay
  below the width of \<open>int64\<close>. The exponential function and the JSON encoding are parameters.
\<close>

section \<open>Counters\<close>

record hostWindow =
  hw_rps :: int
  hw_hardRejected :: int
  hw_unserved :: int

definition no_window :: hostWindow where
  "no_window = \<lparr>hw_rps = 0, hw_hardRejected = 0, hw_unserved = 0\<rparr>"

definition window_add :: "hostWindow \<Rightarrow> hostWindow \<Rightarrow> hostWindow" where
  "window_add w v = \<lparr>hw_rps = hw_rps w + hw_rps v, hw_hardRejected = hw_hardRejected w + hw_hardRejected v,
     hw_unserved = hw_unserved w + hw_unserved v\<rparr>"

record hostCounters =
  hc_inflight :: int
  hc_ewma :: rat
  hc_cur :: hostWindow
  hc_prev :: hostWindow

definition no_counters :: hostCounters where
  "no_counters = \<lparr>hc_inflight = 0, hc_ewma = 0, hc_cur = no_window, hc_prev = no_window\<rparr>"

record AutoscaleTracker =
  at_hosts :: "hostCounters lruCache"
  at_maxHosts :: int
  at_alpha :: rat

definition defaultAutoscaleMaxHosts :: int where
  "defaultAutoscaleMaxHosts = 10000"

definition ewmaAlpha :: rat where
  "ewmaAlpha = fl64 (2 / 5)"

definition NewAutoscaleTracker :: "int \<Rightarrow> AutoscaleTracker" where
  "NewAutoscaleTracker maxHosts =
     \<lparr>at_hosts = newLRUCache, at_maxHosts = (if maxHosts \<le> 0 then defaultAutoscaleMaxHosts else maxHosts), at_alpha = ewmaAlpha\<rparr>"

definition alphaOrDefault :: "AutoscaleTracker \<Rightarrow> rat" where
  "alphaOrDefault t = (if at_alpha t \<le> 0 then ewmaAlpha else at_alpha t)"

definition setAlpha :: "rat \<Rightarrow> AutoscaleTracker \<Rightarrow> AutoscaleTracker" where
  "setAlpha a t = t\<lparr>at_alpha := a\<rparr>"

definition ewmaAlphaForInterval :: "(rat \<Rightarrow> rat) \<Rightarrow> int \<Rightarrow> rat" where
  "ewmaAlphaForInterval exp64 dt =
     (if dt \<le> 0 then ewmaAlpha
      else let a = fl64 (1 - exp64 (fdiv (- float_of_int dt) (float_of_int (10 * second)))) in
        if a < fl64 (1 / 20) then fl64 (1 / 20) else if fl64 (19 / 20) < a then fl64 (19 / 20) else a)"

definition tracker_entry :: "string \<Rightarrow> AutoscaleTracker \<Rightarrow> hostCounters \<times> AutoscaleTracker" where
  "tracker_entry host t =
     (case lru_get host (at_hosts t) of
        Some e \<Rightarrow> (e, t)
      | None \<Rightarrow> (no_counters, t\<lparr>at_hosts := evict (at_maxHosts t) (lru_set host no_counters (at_hosts t))\<rparr>))"

text \<open>A write through the pointer, and the move to the front.\<close>

definition change :: "string \<Rightarrow> hostCounters \<Rightarrow> AutoscaleTracker \<Rightarrow> AutoscaleTracker" where
  "change host e t = t\<lparr>at_hosts := touch host (lru_poke host e (at_hosts t))\<rparr>"

definition tracker_Acquire :: "string \<Rightarrow> AutoscaleTracker \<Rightarrow> AutoscaleTracker" where
  "tracker_Acquire host t =
     (let (e, t1) = tracker_entry host t in
      change host (e\<lparr>hc_inflight := hc_inflight e + 1, hc_cur := (hc_cur e)\<lparr>hw_rps := hw_rps (hc_cur e) + 1\<rparr>\<rparr>) t1)"

definition tracker_Release :: "string \<Rightarrow> AutoscaleTracker \<Rightarrow> AutoscaleTracker" where
  "tracker_Release host t =
     (case lru_get host (at_hosts t) of
        None \<Rightarrow> t
      | Some e \<Rightarrow> change host (if 0 < hc_inflight e then e\<lparr>hc_inflight := hc_inflight e - 1\<rparr> else e) t)"

definition AddHardRejected :: "string \<Rightarrow> AutoscaleTracker \<Rightarrow> AutoscaleTracker" where
  "AddHardRejected host t =
     (let (e, t1) = tracker_entry host t in
      change host (e\<lparr>hc_cur := (hc_cur e)\<lparr>hw_hardRejected := hw_hardRejected (hc_cur e) + 1\<rparr>\<rparr>) t1)"

definition AddUnserved :: "string \<Rightarrow> AutoscaleTracker \<Rightarrow> AutoscaleTracker" where
  "AddUnserved host t =
     (let (e, t1) = tracker_entry host t in
      change host (e\<lparr>hc_cur := (hc_cur e)\<lparr>hw_unserved := hw_unserved (hc_cur e) + 1\<rparr>\<rparr>) t1)"

section \<open>Reports\<close>

definition autoscaleReportInterval :: int where
  "autoscaleReportInterval = 5 * second"

definition autoscaleKeyTTL :: int where
  "autoscaleKeyTTL = 20 * second"

definition autoscaleRollingWindows :: int where
  "autoscaleRollingWindows = 2"

definition next_ewma :: "rat \<Rightarrow> hostCounters \<Rightarrow> rat" where
  "next_ewma alpha e = fadd (hc_ewma e) (fmul alpha (fadd (float_of_int (hc_inflight e)) (- hc_ewma e)))"

definition rotated :: "rat \<Rightarrow> hostCounters \<Rightarrow> hostCounters" where
  "rotated alpha e = e\<lparr>hc_ewma := next_ewma alpha e, hc_prev := hc_cur e, hc_cur := no_window\<rparr>"

definition host_sample :: "rat \<Rightarrow> int \<Rightarrow> hostCounters \<Rightarrow> SignalSample" where
  "host_sample alpha now e =
     (let total = window_add (hc_cur e) (hc_prev e) in
      \<lparr>ss_EWMA = next_ewma alpha e, ss_RPS = float_of_int (hw_rps total), ss_HardRejected = hw_hardRejected total,
       ss_Unserved = hw_unserved total, ss_TsMs = now div 1000000,
       ss_WinMs = (autoscaleReportInterval div 1000000) * autoscaleRollingWindows\<rparr>)"

text \<open>One host of the loop over the table.\<close>

definition report_host :: "int \<Rightarrow> string \<Rightarrow> (string, SignalSample) gomap \<times> AutoscaleTracker \<Rightarrow> (string, SignalSample) gomap \<times> AutoscaleTracker" where
  "report_host now host acc =
     (case acc of (out, t) \<Rightarrow>
        case lru_get host (at_hosts t) of
          None \<Rightarrow> acc
        | Some e \<Rightarrow>
            (let t1 = t\<lparr>at_hosts := lru_poke host (rotated (alphaOrDefault t) e) (at_hosts t)\<rparr> in
             (mset_at host (host_sample (alphaOrDefault t) now e) out,
              if 0 < hc_inflight e then t1\<lparr>at_hosts := touch host (at_hosts t1)\<rparr> else t1)))"

definition snapshotForReport :: "int \<Rightarrow> AutoscaleTracker \<Rightarrow> (string, SignalSample) gomap \<times> AutoscaleTracker" where
  "snapshotForReport now t = fold (report_host now) (map fst (lc_entries (at_hosts t))) ([], t)"

section \<open>The reporter\<close>

text \<open>
  The hash keys in Redis: fields per host with the time they expire. One report writes all samples; \<open>refused\<close> tells which writes
  fail, and the two counters count them.
\<close>

record AutoscaleReporter =
  rp_edgeID :: string
  rp_interval :: int
  rp_ttl :: int
  rp_reports :: nat
  rp_reportErrors :: nat

type_synonym signal_store = "(string, (string, string) gomap \<times> int) gomap"

definition NewAutoscaleReporter :: "(rat \<Rightarrow> rat) \<Rightarrow> string \<Rightarrow> int \<Rightarrow> AutoscaleTracker \<Rightarrow> AutoscaleReporter \<times> AutoscaleTracker" where
  "NewAutoscaleReporter exp64 edgeID interval t =
     (let i1 = (if interval \<le> 0 then autoscaleReportInterval else interval);
          i2 = (if autoscaleKeyTTL div 2 < i1 then autoscaleKeyTTL div 2 else i1) in
      (\<lparr>rp_edgeID = edgeID, rp_interval = i2, rp_ttl = autoscaleKeyTTL, rp_reports = 0, rp_reportErrors = 0\<rparr>,
       setAlpha (ewmaAlphaForInterval exp64 i2) t))"

definition AutoscaleKey :: "string \<Rightarrow> string" where
  "AutoscaleKey host = ''autoscale:'' @ host"

definition autoscaleReportLua :: "string \<Rightarrow> string \<Rightarrow> string \<Rightarrow> int \<Rightarrow> signal_store \<Rightarrow> signal_store" where
  "autoscaleReportLua key edgeID raw expires db =
     (let fs = (case mget db key of Some (fs, _) \<Rightarrow> fs | None \<Rightarrow> []) in mset_at key (mset_at edgeID raw fs, expires) db)"

definition report_sample ::
    "(SignalSample \<Rightarrow> string) \<Rightarrow> (string \<Rightarrow> bool) \<Rightarrow> int \<Rightarrow> string \<times> SignalSample \<Rightarrow>
      AutoscaleReporter \<times> signal_store \<Rightarrow> AutoscaleReporter \<times> signal_store" where
  "report_sample encode refused now sample acc =
     (case (sample, acc) of ((host, s), (r, db)) \<Rightarrow>
        if refused host then (r\<lparr>rp_reportErrors := rp_reportErrors r + 1\<rparr>, db)
        else (r\<lparr>rp_reports := rp_reports r + 1\<rparr>,
              autoscaleReportLua (AutoscaleKey host) (rp_edgeID r) (encode s) (now + rp_ttl r) db))"

definition Report ::
    "(SignalSample \<Rightarrow> string) \<Rightarrow> (string \<Rightarrow> bool) \<Rightarrow> int \<Rightarrow> AutoscaleReporter \<times> AutoscaleTracker \<times> signal_store \<Rightarrow>
      AutoscaleReporter \<times> AutoscaleTracker \<times> signal_store" where
  "Report encode refused now x =
     (case x of (r, t, db) \<Rightarrow>
        if rp_edgeID r = '''' then (r, t, db)
        else
          (let (out, t1) = snapshotForReport now t;
               (r1, db1) = fold (report_sample encode refused now) out (r, db) in (r1, t1, db1)))"

definition ResolveEdgeID :: "string \<Rightarrow> string \<Rightarrow> string option \<Rightarrow> string \<Rightarrow> string" where
  "ResolveEdgeID primary fallback hostname clock =
     (if primary \<noteq> '''' then primary
      else if fallback \<noteq> '''' then fallback
      else case hostname of Some h \<Rightarrow> if h \<noteq> '''' then h else ''edge-'' @ clock | None \<Rightarrow> ''edge-'' @ clock)"

section \<open>What a report contains\<close>

text \<open>A history of the tracker, the latest operation first.\<close>

datatype tracker_op = OAcquire string | ORelease string | OHard string | OUnserved string | OReport int

fun tracker_step :: "tracker_op \<Rightarrow> AutoscaleTracker \<Rightarrow> AutoscaleTracker" where
  "tracker_step (OAcquire h) t = tracker_Acquire h t"
| "tracker_step (ORelease h) t = tracker_Release h t"
| "tracker_step (OHard h) t = AddHardRejected h t"
| "tracker_step (OUnserved h) t = AddUnserved h t"
| "tracker_step (OReport now) t = snd (snapshotForReport now t)"

definition tracker_run :: "tracker_op list \<Rightarrow> AutoscaleTracker \<Rightarrow> AutoscaleTracker" where
  "tracker_run hist t = foldr tracker_step hist t"

fun is_report :: "tracker_op \<Rightarrow> bool" where
  "is_report (OReport _) = True"
| "is_report _ = False"

text \<open>The operations since the last report, and those between the last two.\<close>

fun cur_ops :: "tracker_op list \<Rightarrow> tracker_op list" where
  "cur_ops [] = []"
| "cur_ops (x # h) = (if is_report x then [] else x # cur_ops h)"

fun prev_ops :: "tracker_op list \<Rightarrow> tracker_op list" where
  "prev_ops [] = []"
| "prev_ops (x # h) = (if is_report x then cur_ops h else prev_ops h)"

definition occurrences :: "tracker_op \<Rightarrow> tracker_op list \<Rightarrow> int" where
  "occurrences x ops = int (length (filter (\<lambda>y. y = x) ops))"

definition window_of :: "string \<Rightarrow> tracker_op list \<Rightarrow> hostWindow" where
  "window_of h ops = \<lparr>hw_rps = occurrences (OAcquire h) ops, hw_hardRejected = occurrences (OHard h) ops, hw_unserved = occurrences (OUnserved h) ops\<rparr>"

fun host_of :: "tracker_op \<Rightarrow> string set" where
  "host_of (OAcquire h) = {h}"
| "host_of (OHard h) = {h}"
| "host_of (OUnserved h) = {h}"
| "host_of _ = {}"

definition hosts_of :: "tracker_op list \<Rightarrow> string set" where
  "hosts_of hist = (\<Union>x \<in> set hist. host_of x)"

lemma finite_host_of [simp]: "finite (host_of x)"
  by (cases x) simp_all

lemma finite_hosts_of [simp]: "finite (hosts_of hist)"
  by (simp add: hosts_of_def)

lemma hosts_of_simps [simp]: "hosts_of [] = {}" "hosts_of (x # hist) = host_of x \<union> hosts_of hist"
  by (simp_all add: hosts_of_def)

lemma occurrences_simps [simp]: "occurrences x [] = 0" "occurrences x (y # ops) = (if y = x then 1 else 0) + occurrences x ops"
  by (simp_all add: occurrences_def)

lemma occurrences_nonneg [simp]: "0 \<le> occurrences x ops"
  by (simp add: occurrences_def)

section \<open>The moving average stays non-negative\<close>

lemma next_ewma_nonneg:
  assumes "0 \<le> hc_ewma e" "fl64 (hc_ewma e) = hc_ewma e" "0 \<le> hc_inflight e" "0 \<le> alpha" "alpha \<le> 1"
  shows "0 \<le> next_ewma alpha e" "fl64 (next_ewma alpha e) = next_ewma alpha e"
proof -
  define d where "d = fadd (float_of_int (hc_inflight e)) (- hc_ewma e)"
  have "0 \<le> float_of_int (hc_inflight e)" using assms(3) by (simp add: float_of_int_def)
  then have "fl64 (- hc_ewma e) \<le> d" unfolding d_def fadd_def by (intro fl64_mono) simp
  then have d: "- hc_ewma e \<le> d" by (simp add: fl64_minus assms(2))
  have "- hc_ewma e \<le> alpha * d"
  proof (cases "0 \<le> d")
    case True
    then have "0 \<le> alpha * d" using assms(4) by simp
    then show ?thesis using assms(1) by linarith
  next
    case False
    then have "d \<le> alpha * d" using assms(4,5) mult_right_mono_neg [of alpha 1 d] by simp
    then show ?thesis using d by linarith
  qed
  then have "fl64 (- hc_ewma e) \<le> fmul alpha d" unfolding fmul_def by (rule fl64_mono)
  then have "0 \<le> hc_ewma e + fmul alpha d" by (simp add: fl64_minus assms(2))
  then show "0 \<le> next_ewma alpha e" unfolding next_ewma_def d_def [symmetric] fadd_def [of "hc_ewma e"] by (rule fl64_nonneg)
  show "fl64 (next_ewma alpha e) = next_ewma alpha e" by (simp add: next_ewma_def fadd_def)
qed

section \<open>The tracker follows its history\<close>

definition counters_ok :: "string \<Rightarrow> tracker_op list \<Rightarrow> hostCounters \<Rightarrow> bool" where
  "counters_ok h hist e \<longleftrightarrow> hc_cur e = window_of h (cur_ops hist) \<and> hc_prev e = window_of h (prev_ops hist) \<and>
     0 \<le> hc_inflight e \<and> 0 \<le> hc_ewma e \<and> fl64 (hc_ewma e) = hc_ewma e"

definition tracker_ok :: "tracker_op list \<Rightarrow> AutoscaleTracker \<Rightarrow> bool" where
  "tracker_ok hist t \<longleftrightarrow> lru_ok (at_hosts t) \<and> 0 < at_maxHosts t \<and> 0 \<le> alphaOrDefault t \<and> alphaOrDefault t \<le> 1 \<and>
     {h. lru_get h (at_hosts t) \<noteq> None} = hosts_of hist \<and>
     (\<forall>h e. lru_get h (at_hosts t) = Some e \<longrightarrow> counters_ok h hist e)"

lemma tracker_okD:
  assumes "tracker_ok hist t"
  shows "lru_ok (at_hosts t)" "0 < at_maxHosts t" "h \<in> hosts_of hist \<longleftrightarrow> lru_get h (at_hosts t) \<noteq> None"
    "lru_get h (at_hosts t) = Some e \<Longrightarrow> counters_ok h hist e"
  using assms by (auto simp: tracker_ok_def)

lemma tracker_okI:
  assumes "tracker_ok hist t" "lru_ok (at_hosts t')" "at_maxHosts t' = at_maxHosts t" "at_alpha t' = at_alpha t"
    "\<And>k. k \<in> hosts_of hist' \<longleftrightarrow> lru_get k (at_hosts t') \<noteq> None"
    "\<And>k e. lru_get k (at_hosts t') = Some e \<Longrightarrow> counters_ok k hist' e"
  shows "tracker_ok hist' t'"
proof -
  have "alphaOrDefault t' = alphaOrDefault t" using assms(4) by (simp add: alphaOrDefault_def)
  moreover have "{h. lru_get h (at_hosts t') \<noteq> None} = hosts_of hist'" using assms(5) by blast
  ultimately show ?thesis using assms(1,2,3,6) unfolding tracker_ok_def by simp
qed

lemma tracker_entry_ok:
  assumes "tracker_ok hist t" "int (card (insert h (hosts_of hist))) \<le> at_maxHosts t" "tracker_entry h t = (e, t1)"
  shows "lru_ok (at_hosts t1)" "at_maxHosts t1 = at_maxHosts t" "at_alpha t1 = at_alpha t"
    "lru_get k (at_hosts t1) = (if k = h then Some e else lru_get k (at_hosts t))"
    "e = (case lru_get h (at_hosts t) of Some e \<Rightarrow> e | None \<Rightarrow> no_counters)"
proof -
  have ok: "lru_ok (at_hosts t)" using assms(1) by (simp add: tracker_ok_def)
  let ?c = "lru_set h no_counters (at_hosts t)"
  have "{k. lru_get k ?c \<noteq> None} = insert h (hosts_of hist)" using assms(1) ok by (auto simp: tracker_ok_def)
  with lru.size_card [of ?c] ok have "lru_len ?c = card (insert h (hosts_of hist))" by (simp only: lru.ok_put)
  with assms(1,2) have fits: "lru_get k (evict (at_maxHosts t) ?c) = lru_get k ?c" for k
    using lru.find_shrink_fits [of ?c "at_maxHosts t" k] ok by (simp add: tracker_ok_def lru.ok_put)
  show "lru_ok (at_hosts t1)" "at_maxHosts t1 = at_maxHosts t" "at_alpha t1 = at_alpha t"
    "lru_get k (at_hosts t1) = (if k = h then Some e else lru_get k (at_hosts t))"
    "e = (case lru_get h (at_hosts t) of Some e \<Rightarrow> e | None \<Rightarrow> no_counters)"
    using assms(3) ok fits by (auto simp: tracker_entry_def split: option.splits)
qed

text \<open>Hosts that were never seen have no operations.\<close>

lemma unseen_window: "h \<notin> hosts_of hist \<Longrightarrow> set ops \<subseteq> set hist \<Longrightarrow> window_of h ops = no_window"
proof -
  assume "h \<notin> hosts_of hist" "set ops \<subseteq> set hist"
  moreover have "h \<in> hosts_of hist" if "x \<in> set hist" "h \<in> host_of x" for x using that by (auto simp: hosts_of_def)
  ultimately have "OAcquire h \<notin> set ops" "OHard h \<notin> set ops" "OUnserved h \<notin> set ops" by (metis host_of.simps(1-3) singletonI subsetD)+
  then show ?thesis by (auto simp: window_of_def no_window_def occurrences_def filter_empty_conv)
qed

lemma cur_ops_subset: "set (cur_ops hist) \<subseteq> set hist"
  by (induction hist) auto

lemma prev_ops_subset: "set (prev_ops hist) \<subseteq> set hist"
  by (induction hist) (use cur_ops_subset in \<open>auto dest: subsetD\<close>)

lemma no_counters_ok: "h \<notin> hosts_of hist \<Longrightarrow> counters_ok h hist no_counters"
  using unseen_window [OF _ cur_ops_subset] unseen_window [OF _ prev_ops_subset]
  by (simp add: counters_ok_def no_counters_def)

lemma change_simps [simp]:
  "at_maxHosts (change h e t) = at_maxHosts t" "at_alpha (change h e t) = at_alpha t"
  "lru_ok (at_hosts t) \<Longrightarrow> lru_ok (at_hosts (change h e t))"
  "lru_ok (at_hosts t) \<Longrightarrow> lru_get k (at_hosts (change h e t)) = (if k = h \<and> lru_get k (at_hosts t) \<noteq> None then Some e else lru_get k (at_hosts t))"
  by (simp_all add: change_def lru.find_poke)

text \<open>An operation that counts: the host's counters change as the history says, those of other hosts stay.\<close>

lemma counting_step:
  assumes ok: "tracker_ok hist t" and fits: "int (card (insert h (hosts_of hist))) \<le> at_maxHosts t"
    and x: "host_of x = {h}" "\<not> is_report x" "\<And>k. k \<noteq> h \<Longrightarrow> window_of k (x # cur_ops hist) = window_of k (cur_ops hist)"
    and f: "\<And>e. counters_ok h hist e \<Longrightarrow> counters_ok h (x # hist) (f e)"
    and t': "t' = (let (e, t1) = tracker_entry h t in change h (f e) t1)"
  shows "tracker_ok (x # hist) t'"
proof -
  obtain e t1 where e: "tracker_entry h t = (e, t1)" by fastforce
  note en = tracker_entry_ok [OF ok fits e]
  have "counters_ok h hist e"
    using en(5) tracker_okD(3,4) [OF ok, of h] no_counters_ok [of h hist] by (auto split: option.splits)
  then have new: "counters_ok h (x # hist) (f e)" by (rule f)
  have get: "lru_get k (at_hosts t') = (if k = h then Some (f e) else lru_get k (at_hosts t))" for k
    using en(1,4) by (simp add: t' e)
  have "counters_ok k (x # hist) e'" if "lru_get k (at_hosts t') = Some e'" for k e'
  proof (cases "k = h")
    case False
    with that get tracker_okD(4) [OF ok] have "counters_ok k hist e'" by simp
    then show ?thesis using x(2) x(3) [OF False] by (simp add: counters_ok_def)
  qed (use that get new in simp)
  moreover have "k \<in> hosts_of (x # hist) \<longleftrightarrow> lru_get k (at_hosts t') \<noteq> None" for k
    using get tracker_okD(3) [OF ok, of k] x(1) by simp
  moreover have "lru_ok (at_hosts t')" "at_maxHosts t' = at_maxHosts t" "at_alpha t' = at_alpha t" using en(1-3) by (simp_all add: t' e)
  ultimately show ?thesis by (intro tracker_okI [OF ok])
qed

lemma Acquire_ok:
  "tracker_ok hist t \<Longrightarrow> int (card (insert h (hosts_of hist))) \<le> at_maxHosts t \<Longrightarrow> tracker_ok (OAcquire h # hist) (tracker_Acquire h t)"
  by (rule counting_step [where f = "\<lambda>e. e\<lparr>hc_inflight := hc_inflight e + 1, hc_cur := (hc_cur e)\<lparr>hw_rps := hw_rps (hc_cur e) + 1\<rparr>\<rparr>"])
    (auto simp: window_of_def counters_ok_def tracker_Acquire_def Let_def)

lemma AddHardRejected_ok:
  "tracker_ok hist t \<Longrightarrow> int (card (insert h (hosts_of hist))) \<le> at_maxHosts t \<Longrightarrow> tracker_ok (OHard h # hist) (AddHardRejected h t)"
  by (rule counting_step [where f = "\<lambda>e. e\<lparr>hc_cur := (hc_cur e)\<lparr>hw_hardRejected := hw_hardRejected (hc_cur e) + 1\<rparr>\<rparr>"])
    (auto simp: window_of_def counters_ok_def AddHardRejected_def Let_def)

lemma AddUnserved_ok:
  "tracker_ok hist t \<Longrightarrow> int (card (insert h (hosts_of hist))) \<le> at_maxHosts t \<Longrightarrow> tracker_ok (OUnserved h # hist) (AddUnserved h t)"
  by (rule counting_step [where f = "\<lambda>e. e\<lparr>hc_cur := (hc_cur e)\<lparr>hw_unserved := hw_unserved (hc_cur e) + 1\<rparr>\<rparr>"])
    (auto simp: window_of_def counters_ok_def AddUnserved_def Let_def)

lemma Release_ok:
  assumes "tracker_ok hist t"
  shows "tracker_ok (ORelease h # hist) (tracker_Release h t)"
proof -
  have w: "window_of k (ORelease h # ops) = window_of k ops" for k ops by (simp add: window_of_def)
  have c: "counters_ok k (ORelease h # hist) e \<longleftrightarrow> counters_ok k hist e" for k e by (simp add: counters_ok_def w)
  show ?thesis
  proof (cases "lru_get h (at_hosts t)")
    case None
    then show ?thesis using assms by (simp add: tracker_Release_def tracker_ok_def c)
  next
    case (Some e)
    let ?e = "if 0 < hc_inflight e then e\<lparr>hc_inflight := hc_inflight e - 1\<rparr> else e"
    have ok: "lru_ok (at_hosts t)" using assms by (simp add: tracker_ok_def)
    have get: "lru_get k (at_hosts (tracker_Release h t)) = (if k = h then Some ?e else lru_get k (at_hosts t))" for k
      using Some ok by (simp add: tracker_Release_def)
    have "counters_ok h hist ?e" using assms Some by (auto simp: tracker_ok_def counters_ok_def)
    then have "counters_ok k (ORelease h # hist) e'" if "lru_get k (at_hosts (tracker_Release h t)) = Some e'" for k e'
      using that get tracker_okD(4) [OF assms] by (auto simp: c split: if_splits)
    moreover have "k \<in> hosts_of (ORelease h # hist) \<longleftrightarrow> lru_get k (at_hosts (tracker_Release h t)) \<noteq> None" for k
      using get tracker_okD(3) [OF assms, of k] Some by simp
    moreover have "lru_ok (at_hosts (tracker_Release h t))" "at_maxHosts (tracker_Release h t) = at_maxHosts t"
      "at_alpha (tracker_Release h t) = at_alpha t" using ok Some by (simp_all add: tracker_Release_def)
    ultimately show ?thesis by (intro tracker_okI [OF assms])
  qed
qed

text \<open>A report visits every host once: it outputs the sample of each and rotates its windows.\<close>

lemma report_fold:
  assumes "lru_ok (at_hosts t)" "distinct hs" "\<forall>h \<in> set hs. lru_get h (at_hosts t) \<noteq> None"
    "fold (report_host now) hs (out, t) = (out', t')"
  shows "lru_ok (at_hosts t') \<and> at_maxHosts t' = at_maxHosts t \<and> at_alpha t' = at_alpha t \<and>
    (\<forall>k. lru_get k (at_hosts t') = (if k \<in> set hs then map_option (rotated (alphaOrDefault t)) (lru_get k (at_hosts t)) else lru_get k (at_hosts t))) \<and>
    (\<forall>k. mget out' k = (if k \<in> set hs then map_option (host_sample (alphaOrDefault t) now) (lru_get k (at_hosts t)) else mget out k))"
  using assms
proof (induction hs arbitrary: out t)
  case (Cons h hs)
  from Cons.prems(3) obtain e where e: "lru_get h (at_hosts t) = Some e" by auto
  let ?a = "alphaOrDefault t"
  obtain o1 t1 where step: "report_host now h (out, t) = (o1, t1)" by fastforce
  have t1: "lru_ok (at_hosts t1)" "at_maxHosts t1 = at_maxHosts t" "at_alpha t1 = at_alpha t" "o1 = mset_at h (host_sample ?a now e) out"
    "lru_get k (at_hosts t1) = (if k = h then Some (rotated ?a e) else lru_get k (at_hosts t))" for k
    using step e Cons.prems(1) by (auto simp: report_host_def Let_def lru.find_poke split: if_splits)
  have a: "alphaOrDefault t1 = ?a" using t1(3) by (simp add: alphaOrDefault_def)
  have "\<forall>k \<in> set hs. lru_get k (at_hosts t1) \<noteq> None" using Cons.prems(3) t1(5) by simp
  from Cons.IH [OF t1(1) _ this, of o1] Cons.prems(2,4) step
  have "lru_ok (at_hosts t') \<and> at_maxHosts t' = at_maxHosts t1 \<and> at_alpha t' = at_alpha t1 \<and>
    (\<forall>k. lru_get k (at_hosts t') = (if k \<in> set hs then map_option (rotated ?a) (lru_get k (at_hosts t1)) else lru_get k (at_hosts t1))) \<and>
    (\<forall>k. mget out' k = (if k \<in> set hs then map_option (host_sample ?a now) (lru_get k (at_hosts t1)) else mget o1 k))" by (simp add: a)
  then show ?case using t1 Cons.prems(2) e by auto
qed simp

lemma entries_keys:
  assumes "lru_ok c"
  shows "set (map fst (lc_entries c)) = {k. lru_get k c \<noteq> None}" "distinct (map fst (lc_entries c))"
proof -
  have "lru_get k c \<noteq> None \<longleftrightarrow> mget (lc_entries c) k \<noteq> None" for k
  proof (cases "mget (lc_entries c) k")
    case (Some el)
    with lru_okD(4) [OF assms, of k el] show ?thesis by (auto simp: lru_get_def)
  qed (simp add: lru_get_def)
  then show "set (map fst (lc_entries c)) = {k. lru_get k c \<noteq> None}" by (auto simp: map_of_eq_None_iff)
  show "distinct (map fst (lc_entries c))" using lru_okD(3) [OF assms] by (simp add: gomap_ok_def)
qed

lemma snapshot_spec:
  assumes ok: "lru_ok (at_hosts t)" and run: "snapshotForReport now t = (out, t')"
  shows "lru_ok (at_hosts t')" "at_maxHosts t' = at_maxHosts t" "at_alpha t' = at_alpha t"
    "lru_get k (at_hosts t') = map_option (rotated (alphaOrDefault t)) (lru_get k (at_hosts t))"
    "mget out k = map_option (host_sample (alphaOrDefault t) now) (lru_get k (at_hosts t))"
proof -
  note keys = entries_keys [OF ok]
  from report_fold [OF ok keys(2), of now "[]" out t'] run keys(1)
  show "lru_ok (at_hosts t')" "at_maxHosts t' = at_maxHosts t" "at_alpha t' = at_alpha t"
    "lru_get k (at_hosts t') = map_option (rotated (alphaOrDefault t)) (lru_get k (at_hosts t))"
    "mget out k = map_option (host_sample (alphaOrDefault t) now) (lru_get k (at_hosts t))"
    unfolding snapshotForReport_def keys(1) by auto
qed

lemma report_ok:
  assumes "tracker_ok hist t"
  shows "tracker_ok (OReport now # hist) (snd (snapshotForReport now t))"
proof -
  obtain out t' where r: "snapshotForReport now t = (out, t')" by fastforce
  note s = snapshot_spec [OF tracker_okD(1) [OF assms] r]
  have a: "0 \<le> alphaOrDefault t" "alphaOrDefault t \<le> 1" using assms by (simp_all add: tracker_ok_def)
  have "counters_ok k (OReport now # hist) e" if "lru_get k (at_hosts t') = Some e" for k e
  proof -
    from that s(4) obtain e0 where e0: "lru_get k (at_hosts t) = Some e0" "e = rotated (alphaOrDefault t) e0" by auto
    with tracker_okD(4) [OF assms] have "counters_ok k hist e0" by blast
    then show ?thesis using next_ewma_nonneg [of e0, OF _ _ _ a] e0(2)
      by (simp add: counters_ok_def rotated_def window_of_def no_window_def)
  qed
  then have "tracker_ok (OReport now # hist) t'"
    using s tracker_okD(3) [OF assms] by (intro tracker_okI [OF assms]) auto
  then show ?thesis by (simp add: r)
qed

lemma tracker_step_ok:
  assumes "tracker_ok hist t" "int (card (hosts_of (x # hist))) \<le> at_maxHosts t"
  shows "tracker_ok (x # hist) (tracker_step x t)"
  using assms by (cases x) (simp_all add: Acquire_ok AddHardRejected_ok AddUnserved_ok Release_ok report_ok)

lemma tracker_step_maxHosts: "tracker_ok hist t \<Longrightarrow> at_maxHosts (tracker_step x t) = at_maxHosts t"
proof (cases x)
  case (OReport now)
  assume "tracker_ok hist t"
  with tracker_okD(1) snapshot_spec(2) [of t now "fst (snapshotForReport now t)" "snd (snapshotForReport now t)"] OReport show ?thesis by simp
qed (auto simp: tracker_Acquire_def tracker_Release_def AddHardRejected_def AddUnserved_def tracker_entry_def Let_def split: option.splits)

lemma ewmaAlpha_bounds: "0 \<le> ewmaAlpha" "ewmaAlpha \<le> 1"
  using fl64_mono [of "2 / 5" 1] fl64_nat [of 1] by (simp_all add: ewmaAlpha_def)

text \<open>
  The histories start from the tracker as the reporter leaves it, with the smoothing factor that
  \<open>NewAutoscaleReporter\<close> sets for its interval.
\<close>

lemma ewmaAlphaForInterval_le: "ewmaAlphaForInterval exp64 dt \<le> 1"
proof -
  have "fl64 (1 / 20) \<le> 1" "fl64 (19 / 20) \<le> 1"
    using fl64_mono [of "1 / 20" 1] fl64_mono [of "19 / 20" 1] fl64_nat [of 1] by simp_all
  then show ?thesis using ewmaAlpha_bounds(2) by (auto simp: ewmaAlphaForInterval_def Let_def)
qed

lemma tracker_run_ok:
  "a \<le> 1 \<Longrightarrow> int (card (hosts_of hist)) \<le> at_maxHosts (NewAutoscaleTracker n) \<Longrightarrow>
   tracker_ok hist (tracker_run hist (setAlpha a (NewAutoscaleTracker n))) \<and>
   at_maxHosts (tracker_run hist (setAlpha a (NewAutoscaleTracker n))) = at_maxHosts (NewAutoscaleTracker n)"
proof (induction hist)
  case Nil
  show ?case using ewmaAlpha_bounds Nil
    by (auto simp: tracker_run_def tracker_ok_def NewAutoscaleTracker_def defaultAutoscaleMaxHosts_def alphaOrDefault_def setAlpha_def hosts_of_def)
next
  case (Cons x hist)
  have "card (hosts_of hist) \<le> card (hosts_of (x # hist))" by (intro card_mono) auto
  with Cons have "tracker_ok hist (tracker_run hist (setAlpha a (NewAutoscaleTracker n)))"
    "at_maxHosts (tracker_run hist (setAlpha a (NewAutoscaleTracker n))) = at_maxHosts (NewAutoscaleTracker n)" by auto
  with Cons.prems(2) tracker_step_ok tracker_step_maxHosts show ?case by (simp add: tracker_run_def)
qed

text \<open>The sample of a host in the next report.\<close>

lemma report_sample_spec:
  assumes "a \<le> 1" "int (card (hosts_of hist)) \<le> at_maxHosts (NewAutoscaleTracker n)" "h \<in> hosts_of hist"
  shows "\<exists>s. mget (fst (snapshotForReport now (tracker_run hist (setAlpha a (NewAutoscaleTracker n))))) h = Some s \<and>
    ss_RPS s = float_of_int (occurrences (OAcquire h) (cur_ops hist) + occurrences (OAcquire h) (prev_ops hist)) \<and>
    ss_HardRejected s = occurrences (OHard h) (cur_ops hist) + occurrences (OHard h) (prev_ops hist) \<and>
    ss_Unserved s = occurrences (OUnserved h) (cur_ops hist) + occurrences (OUnserved h) (prev_ops hist) \<and>
    0 \<le> ss_EWMA s \<and> ss_TsMs s = now div 1000000"
proof -
  let ?t = "tracker_run hist (setAlpha a (NewAutoscaleTracker n))"
  obtain out t' where r: "snapshotForReport now ?t = (out, t')" by fastforce
  have ok: "tracker_ok hist ?t" using tracker_run_ok [OF assms(1,2)] by blast
  with assms(3) tracker_okD(3) [OF ok, of h] obtain e where e: "lru_get h (at_hosts ?t) = Some e" by auto
  then have c: "counters_ok h hist e" using tracker_okD(4) [OF ok] by blast
  have "mget out h = Some (host_sample (alphaOrDefault ?t) now e)" using snapshot_spec(5) [OF tracker_okD(1) [OF ok] r, of h] e by simp
  moreover have "0 \<le> next_ewma (alphaOrDefault ?t) e"
    using c ok by (intro next_ewma_nonneg) (simp_all add: counters_ok_def tracker_ok_def)
  ultimately show ?thesis using c by (simp add: r host_sample_def window_add_def counters_ok_def window_of_def Let_def)
qed

section \<open>Unserved requests, whatever is evicted\<close>

text \<open>
  Without a bound on the number of hosts an entry can be evicted and start again at zero. Counts are never negative, and the
  unserved requests of a host stay counted as long as its entry stays in the table: in the current window until the next report and in the
  one before until the report after that.
\<close>

definition unserved_nonneg :: "hostCounters \<Rightarrow> bool" where
  "unserved_nonneg e \<longleftrightarrow> 0 \<le> hw_unserved (hc_cur e) \<and> 0 \<le> hw_unserved (hc_prev e)"

definition table_ok :: "AutoscaleTracker \<Rightarrow> bool" where
  "table_ok t \<longleftrightarrow> lru_ok (at_hosts t) \<and> (\<forall>h e. lru_get h (at_hosts t) = Some e \<longrightarrow> unserved_nonneg e)"

text \<open>The unserved requests an entry holds after \<open>n\<close> reports.\<close>

definition holds_unserved :: "nat \<Rightarrow> hostCounters \<Rightarrow> bool" where
  "holds_unserved n e \<longleftrightarrow> (n = 0 \<longrightarrow> 0 < hw_unserved (hc_cur e)) \<and> (n \<le> 1 \<longrightarrow> 0 < hw_unserved (hc_cur e) + hw_unserved (hc_prev e))"

lemma tracker_entry_cases:
  assumes "lru_ok (at_hosts t)" "tracker_entry h t = (e, t1)"
  shows "lru_ok (at_hosts t1)" "lru_get h (at_hosts t1) = Some e" "lru_get h (at_hosts t) = Some e \<or> e = no_counters \<and> lru_get h (at_hosts t) = None"
    "k \<noteq> h \<Longrightarrow> lru_get k (at_hosts t1) = Some e' \<Longrightarrow> lru_get k (at_hosts t) = Some e'"
  using assms by (auto simp: tracker_entry_def split: option.splits dest: lru.find_put_shrink_other)

text \<open>An operation on one host: an entry of the new table was in the old one, or it is that host's entry, changed by \<open>f\<close>.\<close>

lemma counted_entry:
  assumes "lru_ok (at_hosts t)" "t' = (let (e, t1) = tracker_entry h t in change h (f e) t1)"
  shows "lru_ok (at_hosts t')"
    "lru_get k (at_hosts t') = Some e' \<Longrightarrow> lru_get k (at_hosts t) = Some e' \<or>
       k = h \<and> e' = f (case lru_get h (at_hosts t) of Some e \<Rightarrow> e | None \<Rightarrow> no_counters)"
    "lru_get h (at_hosts t') = Some (f (case lru_get h (at_hosts t) of Some e \<Rightarrow> e | None \<Rightarrow> no_counters))"
proof -
  obtain e t1 where e: "tracker_entry h t = (e, t1)" by fastforce
  note en = tracker_entry_cases [OF assms(1) e]
  have t': "t' = change h (f e) t1" using assms(2) by (simp add: e)
  have old: "e = (case lru_get h (at_hosts t) of Some e \<Rightarrow> e | None \<Rightarrow> no_counters)" using en(3) by auto
  show "lru_ok (at_hosts t')" using en(1) by (simp add: t')
  show "lru_get h (at_hosts t') = Some (f (case lru_get h (at_hosts t) of Some e \<Rightarrow> e | None \<Rightarrow> no_counters))"
    using en(1,2) old by (simp add: t')
  show "lru_get k (at_hosts t) = Some e' \<or> k = h \<and> e' = f (case lru_get h (at_hosts t) of Some e \<Rightarrow> e | None \<Rightarrow> no_counters)"
    if "lru_get k (at_hosts t') = Some e'" using that en(1,2) en(4) [of k e'] old by (auto simp: t' split: if_splits)
qed

text \<open>How an operation may change an entry that stays.\<close>

definition grows :: "hostCounters \<Rightarrow> hostCounters \<Rightarrow> bool" where
  "grows e e' \<longleftrightarrow> hw_unserved (hc_cur e) \<le> hw_unserved (hc_cur e') \<and> hc_prev e' = hc_prev e"

lemma step_entry:
  assumes "lru_ok (at_hosts t)" "\<not> is_report x"
  shows "lru_ok (at_hosts (tracker_step x t))"
    "lru_get k (at_hosts (tracker_step x t)) = Some e' \<Longrightarrow>
       \<exists>e. grows e e' \<and> (lru_get k (at_hosts t) = Some e \<or> lru_get k (at_hosts t) = None \<and> e = no_counters)"
proof -
  have "lru_ok (at_hosts (tracker_step x t)) \<and> (lru_get k (at_hosts (tracker_step x t)) = Some e' \<longrightarrow>
       (\<exists>e. grows e e' \<and> (lru_get k (at_hosts t) = Some e \<or> lru_get k (at_hosts t) = None \<and> e = no_counters)))" (is ?P)
  proof (cases "\<exists>h. x = ORelease h")
    case True
    then show ?thesis using assms(1) by (auto simp: tracker_Release_def grows_def split: option.splits if_splits)
  next
    case False
    then obtain h f where x: "tracker_step x t = (let (e, t1) = tracker_entry h t in change h (f e) t1)" and f: "\<And>e. grows e (f e)"
    proof (cases x)
      case (OAcquire h)
      then show thesis
        by (intro that [of h "\<lambda>e. e\<lparr>hc_inflight := hc_inflight e + 1, hc_cur := (hc_cur e)\<lparr>hw_rps := hw_rps (hc_cur e) + 1\<rparr>\<rparr>"])
          (simp_all add: tracker_Acquire_def grows_def)
    next
      case (OHard h)
      then show thesis
        by (intro that [of h "\<lambda>e. e\<lparr>hc_cur := (hc_cur e)\<lparr>hw_hardRejected := hw_hardRejected (hc_cur e) + 1\<rparr>\<rparr>"])
          (simp_all add: AddHardRejected_def grows_def)
    next
      case (OUnserved h)
      then show thesis
        by (intro that [of h "\<lambda>e. e\<lparr>hc_cur := (hc_cur e)\<lparr>hw_unserved := hw_unserved (hc_cur e) + 1\<rparr>\<rparr>"])
          (simp_all add: AddUnserved_def grows_def)
    qed (use assms(2) in auto)
    have "grows e e" for e by (simp add: grows_def)
    then show ?thesis using counted_entry(1) [OF assms(1) x] counted_entry(2) [OF assms(1) x, of k e'] f
      by (fastforce split: option.splits)
  qed
  then show "lru_ok (at_hosts (tracker_step x t))"
    "lru_get k (at_hosts (tracker_step x t)) = Some e' \<Longrightarrow>
       \<exists>e. grows e e' \<and> (lru_get k (at_hosts t) = Some e \<or> lru_get k (at_hosts t) = None \<and> e = no_counters)" by blast+
qed

lemma report_entry:
  assumes "lru_ok (at_hosts t)"
  shows "lru_ok (at_hosts (tracker_step (OReport now) t))"
    "lru_get k (at_hosts (tracker_step (OReport now) t)) = map_option (rotated (alphaOrDefault t)) (lru_get k (at_hosts t))"
  using snapshot_spec [OF assms, of now "fst (snapshotForReport now t)" "snd (snapshotForReport now t)"] by simp_all

lemma table_ok_step: "table_ok t \<Longrightarrow> table_ok (tracker_step x t)"
proof (cases "is_report x")
  case True
  assume ok: "table_ok t"
  from True obtain now where x: "x = OReport now" by (cases x) auto
  from ok report_entry [where t = t and now = now] show ?thesis
    by (auto simp: table_ok_def x unserved_nonneg_def rotated_def no_window_def simp del: tracker_step.simps)
next
  case False
  assume ok: "table_ok t"
  then have "unserved_nonneg e'" if "lru_get k (at_hosts (tracker_step x t)) = Some e'" for k e'
    using step_entry(2) [OF _ False that] by (fastforce simp: table_ok_def unserved_nonneg_def grows_def no_counters_def no_window_def intro: order_trans)
  then show ?thesis using ok step_entry(1) [OF _ False, of t] by (simp add: table_ok_def)
qed

lemma table_ok_run: "table_ok t \<Longrightarrow> table_ok (tracker_run hist t)"
  unfolding tracker_run_def by (induction hist) (simp_all add: table_ok_step)

lemma table_ok_new: "table_ok (setAlpha a (NewAutoscaleTracker n))"
  by (simp add: table_ok_def setAlpha_def NewAutoscaleTracker_def)

text \<open>The host keeps its entry through all of a history, the latest operation first, that starts from \<open>t\<close>.\<close>

fun resident :: "string \<Rightarrow> tracker_op list \<Rightarrow> AutoscaleTracker \<Rightarrow> bool" where
  "resident h [] t \<longleftrightarrow> lru_get h (at_hosts t) \<noteq> None"
| "resident h (x # later) t \<longleftrightarrow> resident h later t \<and> lru_get h (at_hosts (tracker_run (x # later) t)) \<noteq> None"

lemma unserved_held:
  assumes "table_ok t" "lru_get h (at_hosts t) = Some e" "holds_unserved 0 e" "resident h later t"
  shows "\<exists>e'. lru_get h (at_hosts (tracker_run later t)) = Some e' \<and> holds_unserved (length (filter is_report later)) e'"
  using assms(4)
proof (induction later)
  case Nil
  then show ?case using assms(2,3) by (simp add: tracker_run_def)
next
  case (Cons x later)
  let ?t = "tracker_run later t"
  have run: "tracker_run (x # later) t = tracker_step x ?t" by (simp add: tracker_run_def)
  have ok: "table_ok ?t" using assms(1) by (rule table_ok_run)
  then have lru: "lru_ok (at_hosts ?t)" by (simp add: table_ok_def)
  from Cons obtain e1 where e1: "lru_get h (at_hosts ?t) = Some e1" "holds_unserved (length (filter is_report later)) e1" by auto
  from ok e1(1) have pos: "unserved_nonneg e1" by (simp add: table_ok_def)
  from Cons.prems run obtain e' where e': "lru_get h (at_hosts (tracker_step x ?t)) = Some e'" by auto
  have "holds_unserved (length (filter is_report (x # later))) e'"
  proof (cases "is_report x")
    case True
    then obtain now where x: "x = OReport now" by (cases x) auto
    from e' e1(1) report_entry(2) [OF lru, where k = h and now = now] have "e' = rotated (alphaOrDefault ?t) e1"
      by (simp add: x del: tracker_step.simps)
    then show ?thesis using e1(2) pos by (auto simp: x holds_unserved_def rotated_def no_window_def unserved_nonneg_def)
  next
    case False
    from step_entry(2) [OF lru False e'] e1(1) have "grows e1 e'" by auto
    then show ?thesis using e1(2) False by (auto simp: holds_unserved_def grows_def)
  qed
  with e' run show ?case by simp
qed

text \<open>
  The sample of a host that a request was turned away for: the next report and the one after it show the request, if the host's
  entry is not evicted before.
\<close>

lemma report_shows_unserved:
  assumes "t0 = tracker_run (OUnserved h # earlier) (setAlpha a (NewAutoscaleTracker n))"
    "resident h later t0" "length (filter is_report later) \<le> 1"
  shows "\<exists>s. mget (fst (snapshotForReport now (tracker_run later t0))) h = Some s \<and> 0 < ss_Unserved s \<and> ss_TsMs s = now div 1000000"
proof -
  let ?t = "tracker_run earlier (setAlpha a (NewAutoscaleTracker n))" and ?t1 = "tracker_run later t0"
  have ok: "table_ok ?t" by (intro table_ok_run table_ok_new)
  have t0: "t0 = AddUnserved h ?t" using assms(1) by (simp add: tracker_run_def)
  let ?f = "\<lambda>e. e\<lparr>hc_cur := (hc_cur e)\<lparr>hw_unserved := hw_unserved (hc_cur e) + 1\<rparr>\<rparr>"
  let ?e0 = "case lru_get h (at_hosts ?t) of Some e \<Rightarrow> e | None \<Rightarrow> no_counters"
  have e: "lru_get h (at_hosts t0) = Some (?f ?e0)"
    using counted_entry(3) [of ?t t0 h ?f] ok by (simp add: t0 AddUnserved_def table_ok_def)
  have "unserved_nonneg ?e0"
    using ok by (auto simp: table_ok_def unserved_nonneg_def no_counters_def no_window_def split: option.splits)
  then have h: "holds_unserved 0 (?f ?e0)" by (simp add: holds_unserved_def unserved_nonneg_def)
  have ok0: "table_ok t0" using ok table_ok_step [of ?t "OUnserved h"] by (simp add: t0)
  from unserved_held [OF ok0 e h assms(2)] assms(3)
  obtain e' where e': "lru_get h (at_hosts ?t1) = Some e'" "0 < hw_unserved (hc_cur e') + hw_unserved (hc_prev e')"
    by (auto simp: holds_unserved_def)
  have "lru_ok (at_hosts ?t1)" using table_ok_run [OF ok0] by (simp add: table_ok_def)
  from snapshot_spec(5) [OF this, where now = now and k = h and out = "fst (snapshotForReport now ?t1)" and t' = "snd (snapshotForReport now ?t1)"] e'
  show ?thesis by (simp add: host_sample_def window_add_def Let_def)
qed

text \<open>
  Every event reaches exactly two reports: as long as no more host names are in use than the table holds, a report shows for each
  host seen so far the number of requests, of overload rejections and of unserved requests since the report before
  the last one, and a moving average that is never negative.
\<close>

lemma report_counts_two_windows:
  assumes "a \<le> 1" "int (card (hosts_of hist)) \<le> at_maxHosts (NewAutoscaleTracker n)" "h \<in> hosts_of hist"
  shows "\<exists>s. mget (fst (snapshotForReport now (tracker_run hist (setAlpha a (NewAutoscaleTracker n))))) h = Some s \<and>
    ss_RPS s = float_of_int (occurrences (OAcquire h) (cur_ops hist) + occurrences (OAcquire h) (prev_ops hist)) \<and>
    ss_HardRejected s = occurrences (OHard h) (cur_ops hist) + occurrences (OHard h) (prev_ops hist) \<and>
    ss_Unserved s = occurrences (OUnserved h) (cur_ops hist) + occurrences (OUnserved h) (prev_ops hist) \<and>
    0 \<le> ss_EWMA s \<and> ss_TsMs s = now div 1000000"
  using assms by (rule report_sample_spec)

definition example_history :: "tracker_op list" where
  "example_history = [OUnserved ''h'', OReport 0, ORelease ''h'', OAcquire ''h'', OUnserved ''h'', OReport 0, OUnserved ''h'']"

lemma report_counts_two_windows_witness:
  "\<exists>s. mget (fst (snapshotForReport 5000000000 (tracker_run example_history (setAlpha ewmaAlpha (NewAutoscaleTracker 4))))) ''h'' = Some s \<and>
    ss_RPS s = float_of_int 1 \<and> ss_HardRejected s = 0 \<and> ss_Unserved s = 2 \<and> 0 \<le> ss_EWMA s \<and> ss_TsMs s = 5000"
proof -
  have "hosts_of example_history = {''h''}" by (simp add: example_history_def hosts_of_def)
  with report_counts_two_windows [OF ewmaAlpha_bounds(2), of example_history 4 "''h''" 5000000000] show ?thesis
    by (simp add: NewAutoscaleTracker_def example_history_def)
qed

end
