(* ===== verification/StoreRows.thy ===== *)
theory StoreRows
  imports Prelude
begin

text \<open>
  Rows of the control plane's PostgreSQL tables as the Go structs of \<open>internal/controlplane/store\<close> hold them: machines,
  deployments with their services, rollouts, and the routes with their backends. Fields that no modelled
  operation reads (images, resource requests, JSON documents) are left out; times are nanoseconds,
  and an absent time is \<open>None\<close>.
\<close>

record Machine =
  m_ID :: string
  m_AppID :: string
  m_DeploymentID :: string
  m_ReplicaOrdinal :: int
  m_Hostname :: string
  m_DesiredState :: string
  m_Generation :: int
  m_CurrentExecutionID :: string
  m_IngressPort :: int
  m_NodeID :: string
  m_ObservedState :: string
  m_ObservedReadiness :: string
  m_CreatedAt :: int

definition machineServing :: "Machine \<Rightarrow> bool" where
  "machineServing m \<longleftrightarrow> (m_ObservedState m = ''RUNNING'' \<or> m_ObservedState m = ''PAUSED'') \<and> IsServingReadiness (m_ObservedReadiness m)"

record ServiceSpec =
  sv_Name :: string
  sv_InternalPort :: int
  sv_MeshDirect :: bool

record Deployment =
  dp_ID :: string
  dp_AppID :: string
  dp_Generation :: int
  dp_Port :: int
  dp_Status :: string
  dp_Services :: "ServiceSpec list"
  dp_Strategy :: string

definition EffectiveServices :: "Deployment \<Rightarrow> ServiceSpec list" where
  "EffectiveServices d =
     (if dp_Services d \<noteq> [] then dp_Services d
      else [\<lparr>sv_Name = ''default'', sv_InternalPort = (if dp_Port d = 0 then 8080 else dp_Port d), sv_MeshDirect = False\<rparr>])"

definition EffectiveStrategy :: "Deployment \<Rightarrow> string" where
  "EffectiveStrategy d = (if dp_Strategy d = ''rolling'' then ''rolling'' else ''bluegreen'')"

record Rollout =
  ro_ID :: string
  ro_AppID :: string
  ro_FromGeneration :: int
  ro_ToGeneration :: int
  ro_Status :: string
  ro_Failed :: bool
  ro_CutoverAt :: "int option"
  ro_DrainDeadline :: "int option"
  ro_StartedAt :: int
  ro_CompletedAt :: "int option"
  ro_CanaryWeight :: int
  ro_ApprovalRequired :: bool
  ro_ApprovedBy :: string
  ro_ApprovedAt :: "int option"

definition NormalizeCanaryWeight :: "int \<Rightarrow> int" where
  "NormalizeCanaryWeight w = (if w < 0 then 0 else if 99 < w then 99 else w)"

record RouteBackendRow =
  rb_MachineID :: string
  rb_ExecutionID :: string
  rb_NodeProxyEndpoint :: string
  rb_AppPort :: int
  rb_Weight :: int
  rb_Readiness :: string
  rb_Draining :: bool
  rb_ULA :: string
  rb_IdentityID :: u32
  rb_Generation :: int
  rb_DeploymentGeneration :: int

record RouteRow =
  rr_Hostname :: string
  rr_Port :: int
  rr_AppID :: string
  rr_Generation :: int
  rr_Backends :: "RouteBackendRow list"

text \<open>\<open>fi_ULA\<close> is the text of the address, \<open>None\<close> for the zero \<open>netip.Addr\<close>.\<close>

record FabricIdentityRow =
  fi_IdentityID :: u32
  fi_ProjectID :: string
  fi_ULA :: "string option"
  fi_MachineID :: string
  fi_ExecutionID :: string
  fi_Generation :: int

section \<open>Tables of rows\<close>

text \<open>
  The interface of a table whose rows have a key, satisfy \<open>ok\<close> and only change within \<open>kept\<close>: a statement changes
  rows in place or appends a row with a new key.
\<close>

locale row_table =
  fixes key :: "'r \<Rightarrow> 'k" and ok :: "'r \<Rightarrow> bool" and kept :: "'r \<Rightarrow> 'r \<Rightarrow> bool"
  assumes kept_refl: "kept r r" and kept_trans: "\<lbrakk>kept r r'; kept r' r''\<rbrakk> \<Longrightarrow> kept r r''" and kept_key: "kept r r' \<Longrightarrow> key r' = key r"
begin

definition table_ok :: "'r list \<Rightarrow> bool" where
  "table_ok rs \<longleftrightarrow> distinct (map key rs) \<and> list_all ok rs"

inductive step :: "'r list \<Rightarrow> 'r list \<Rightarrow> bool" where
  changed: "(\<And>r. \<lbrakk>r \<in> set rs; ok r\<rbrakk> \<Longrightarrow> ok (f r) \<and> kept r (f r)) \<Longrightarrow> step rs (map f rs)"
| appended: "\<lbrakk>ok r; key r \<notin> key ` set rs\<rbrakk> \<Longrightarrow> step rs (rs @ [r])"

lemma step_refl: "step rs rs"
  using changed[of rs "\<lambda>r. r"] kept_refl by simp

lemma step_update: "(\<And>r. \<lbrakk>P r; ok r\<rbrakk> \<Longrightarrow> ok (f r) \<and> kept r (f r)) \<Longrightarrow> step rs (map (\<lambda>r. if P r then f r else r) rs)"
  by (rule changed) (simp add: kept_refl)

lemma step_ok: "\<lbrakk>step rs rs'; table_ok rs\<rbrakk> \<Longrightarrow> table_ok rs'"
proof (induction rule: step.induct)
  case (changed rs f)
  have each: "ok (f r) \<and> kept r (f r)" if "r \<in> set rs" for r using changed that by (simp add: table_ok_def list_all_iff)
  then have "map key (map f rs) = map key rs" by (simp add: kept_key)
  moreover have "list_all ok (map f rs)" using each by (simp add: list_all_iff)
  ultimately show ?case using changed(2) unfolding table_ok_def by (simp only:)
next
  case (appended r rs)
  then show ?case by (auto simp: table_ok_def)
qed

lemma step_row: "\<lbrakk>step rs rs'; table_ok rs; r \<in> set rs\<rbrakk> \<Longrightarrow> \<exists>r' \<in> set rs'. kept r r'"
  by (induction rule: step.induct) (auto simp: table_ok_def list_all_iff intro: kept_refl)

lemma steps_ok: "\<lbrakk>step\<^sup>*\<^sup>* rs rs'; table_ok rs\<rbrakk> \<Longrightarrow> table_ok rs'"
  by (induction rule: rtranclp_induct) (auto intro: step_ok)

lemma steps_row: "\<lbrakk>step\<^sup>*\<^sup>* rs rs'; table_ok rs; r \<in> set rs\<rbrakk> \<Longrightarrow> \<exists>r' \<in> set rs'. kept r r'"
proof (induction rule: rtranclp_induct)
  case (step rs' rs'')
  then obtain r' where "r' \<in> set rs'" "kept r r'" by blast
  moreover from this obtain r'' where "r'' \<in> set rs''" "kept r' r''" using step_row[OF step.hyps(2) steps_ok[OF step.hyps(1) step.prems(1)]] by blast
  ultimately show ?case using kept_trans by blast
qed (auto intro: kept_refl)

lemma same_key: "\<lbrakk>table_ok rs; r \<in> set rs; r' \<in> set rs; key r = key r'\<rbrakk> \<Longrightarrow> r = r'"
  by (simp add: table_ok_def distinct_map inj_on_def)

end

section \<open>Transactions\<close>

text \<open>
  How a transaction ends: committed, failed (a statement failed or the connection was lost before the
  commit), or committed while the answer was lost.
\<close>

datatype tx_end = TxCommit | TxFail | TxAnswerLost

text \<open>\<open>Store.inTx\<close>: an error of the body rolls back. \<open>failed\<close> is the error of a transaction that could not be ended.\<close>

definition inTx :: "'e \<Rightarrow> tx_end \<Rightarrow> ('s \<Rightarrow> ('e + 'a) \<times> 's) \<Rightarrow> 's \<Rightarrow> ('e + 'a) \<times> 's" where
  "inTx failed tx f s =
     (case f s of
        (Inl e, _) \<Rightarrow> (Inl e, s)
      | (Inr a, s') \<Rightarrow> (case tx of TxCommit \<Rightarrow> (Inr a, s') | TxFail \<Rightarrow> (Inl failed, s) | TxAnswerLost \<Rightarrow> (Inl failed, s')))"

lemma inTx_snd: "snd (inTx failed tx f s) = s \<or> snd (inTx failed tx f s) = snd (f s) \<and> (\<exists>a. fst (f s) = Inr a)"
  by (auto simp: inTx_def split: prod.splits sum.splits tx_end.splits)

lemma inTx_Inr: "inTx failed tx f s = (Inr a, s') \<longleftrightarrow> tx = TxCommit \<and> f s = (Inr a, s')"
  by (auto simp: inTx_def split: prod.splits sum.splits tx_end.splits)

end
