(* ===== verification/Autoscaler.thy ===== *)
theory Autoscaler
  imports AutoscaleSignal StoreRows
begin

text \<open>
  The decision loop of the autoscaler (\<open>internal/controlplane/controller/autoscale.go\<close>). Its state lives in the
  leader process; dispatch workers change the freeze and streak entries between the passes of the
  loop, each under the state's mutex. What a pass reads from the database, Redis and
  Prometheus is an argument: the snapshot of the application it decides on, and the table it writes to may
  already be newer than the snapshot.
\<close>

section \<open>Loop state\<close>

record scaleDownEntry =
  sd_want :: int
  sd_since :: int

record autoscaleLoopState =
  ls_scaleDown :: "(string, scaleDownEntry) gomap"
  ls_frozenUntil :: "(string, int) gomap"
  ls_frozenNoted :: "(string, bool) gomap"
  ls_resourceStreak :: "(string, int) gomap"
  ls_prefetched :: "(string, int) gomap"
  ls_policyHash :: "(string, string) gomap"

definition newAutoscaleLoopState :: autoscaleLoopState where
  "newAutoscaleLoopState = \<lparr>ls_scaleDown = [], ls_frozenUntil = [], ls_frozenNoted = [], ls_resourceStreak = [],
     ls_prefetched = [], ls_policyHash = []\<rparr>"

definition clearApp :: "string \<Rightarrow> autoscaleLoopState \<Rightarrow> autoscaleLoopState" where
  "clearApp appID s = s\<lparr>ls_scaleDown := mdel appID (ls_scaleDown s), ls_frozenNoted := mdel appID (ls_frozenNoted s),
     ls_frozenUntil := mdel appID (ls_frozenUntil s), ls_resourceStreak := mdel appID (ls_resourceStreak s),
     ls_policyHash := mdel appID (ls_policyHash s)\<rparr>"

text \<open>Go's \<open>%v\<close> of a bool; \<open>%v\<close> of a float is a parameter.\<close>

definition fmt_bool :: "bool \<Rightarrow> string" where
  "fmt_bool b = (if b then ''true'' else ''false'')"

definition autoscalePolicyHash :: "(rat \<Rightarrow> string) \<Rightarrow> AutoscalePolicy \<Rightarrow> string" where
  "autoscalePolicyHash fmt_float p =
     (let bar = CHR ''|'' in
      fmt_bool (ap_Enabled p) @ bar # fmt_int (ap_MinReplicas p) @ bar # fmt_int (ap_MaxReplicas p) @ bar #
      fmt_int (ap_TargetConcurrency p) @ bar # fmt_int (ap_ScaleDownDelaySec p) @ bar # fmt_float (ap_PanicThreshold p) @ bar #
      fmt_int (ap_TargetRPS p) @ bar # fmt_float (ap_TargetCPURatio p) @ bar # ap_CustomPromQuery p @ bar #
      fmt_float (ap_CustomTarget p) @ bar # ap_CustomMode p)"

text \<open>An absent entry of the fingerprint map reads as the empty string, which is no fingerprint.\<close>

definition checkPolicy :: "(rat \<Rightarrow> string) \<Rightarrow> string \<Rightarrow> AutoscalePolicy \<Rightarrow> autoscaleLoopState \<Rightarrow> autoscaleLoopState" where
  "checkPolicy fmt_float appID p s =
     (let h = autoscalePolicyHash fmt_float p in
      if mget (ls_policyHash s) appID = Some h then s
      else s\<lparr>ls_policyHash := mset_at appID h (ls_policyHash s), ls_scaleDown := mdel appID (ls_scaleDown s)\<rparr>)"

definition isFreezeNoted :: "string \<Rightarrow> autoscaleLoopState \<Rightarrow> bool" where
  "isFreezeNoted appID s \<longleftrightarrow> mget (ls_frozenNoted s) appID = Some True"

definition collectExpiredFreeze :: "string \<Rightarrow> int \<Rightarrow> autoscaleLoopState \<Rightarrow> autoscaleLoopState" where
  "collectExpiredFreeze appID now s =
     (case mget (ls_frozenUntil s) appID of
        None \<Rightarrow> s
      | Some until \<Rightarrow>
          if \<not> now < until \<and> \<not> isFreezeNoted appID s then s\<lparr>ls_frozenUntil := mdel appID (ls_frozenUntil s)\<rparr> else s)"

definition freezeApp :: "string \<Rightarrow> int \<Rightarrow> autoscaleLoopState \<Rightarrow> autoscaleLoopState" where
  "freezeApp appID until s = s\<lparr>ls_frozenUntil := mset_at appID until (ls_frozenUntil s)\<rparr>"

definition frozen :: "string \<Rightarrow> int \<Rightarrow> autoscaleLoopState \<Rightarrow> bool" where
  "frozen appID now s = (case mget (ls_frozenUntil s) appID of None \<Rightarrow> False | Some until \<Rightarrow> now < until)"

definition markFreezeNoted :: "string \<Rightarrow> autoscaleLoopState \<Rightarrow> bool \<times> autoscaleLoopState" where
  "markFreezeNoted appID s =
     (if isFreezeNoted appID s then (True, s) else (False, s\<lparr>ls_frozenNoted := mset_at appID True (ls_frozenNoted s)\<rparr>))"

definition clearFreeze :: "string \<Rightarrow> autoscaleLoopState \<Rightarrow> autoscaleLoopState" where
  "clearFreeze appID s = s\<lparr>ls_frozenUntil := mdel appID (ls_frozenUntil s), ls_frozenNoted := mdel appID (ls_frozenNoted s)\<rparr>"

definition deleteScaleDown :: "string \<Rightarrow> autoscaleLoopState \<Rightarrow> autoscaleLoopState" where
  "deleteScaleDown appID s = s\<lparr>ls_scaleDown := mdel appID (ls_scaleDown s)\<rparr>"

definition scaleDownElapsed :: "string \<Rightarrow> int \<Rightarrow> int \<Rightarrow> int \<Rightarrow> autoscaleLoopState \<Rightarrow> bool \<times> autoscaleLoopState" where
  "scaleDownElapsed appID want now delaySec s =
     (case mget (ls_scaleDown s) appID of
        Some e \<Rightarrow>
          if sd_want e = want then (delaySec * second \<le> now - sd_since e, s)
          else (False, s\<lparr>ls_scaleDown := mset_at appID \<lparr>sd_want = want, sd_since = now\<rparr> (ls_scaleDown s)\<rparr>)
      | None \<Rightarrow> (False, s\<lparr>ls_scaleDown := mset_at appID \<lparr>sd_want = want, sd_since = now\<rparr> (ls_scaleDown s)\<rparr>))"

definition autoscaleResourceStreakThreshold :: int where
  "autoscaleResourceStreakThreshold = 3"

definition bumpStreak :: "string \<Rightarrow> int \<Rightarrow> int \<Rightarrow> autoscaleLoopState \<Rightarrow> int \<times> autoscaleLoopState" where
  "bumpStreak appID clock freezeFor s =
     (let n = (case mget (ls_resourceStreak s) appID of Some k \<Rightarrow> k | None \<Rightarrow> 0) + 1;
          s1 = s\<lparr>ls_resourceStreak := mset_at appID n (ls_resourceStreak s)\<rparr> in
      (n, if autoscaleResourceStreakThreshold \<le> n
          then s1\<lparr>ls_frozenUntil := mset_at appID (clock + freezeFor) (ls_frozenUntil s1)\<rparr> else s1))"

definition clearStreak :: "string \<Rightarrow> autoscaleLoopState \<Rightarrow> autoscaleLoopState" where
  "clearStreak appID s = s\<lparr>ls_resourceStreak := mdel appID (ls_resourceStreak s)\<rparr>"

definition autoscalePrefetchCooldown :: int where
  "autoscalePrefetchCooldown = 300 * second"

definition prefetchAllowed :: "string \<Rightarrow> int \<Rightarrow> autoscaleLoopState \<Rightarrow> bool \<times> autoscaleLoopState" where
  "prefetchAllowed depID now s =
     (let fresh = (case mget (ls_prefetched s) depID of
                     Some last_at \<Rightarrow> now - last_at < autoscalePrefetchCooldown | None \<Rightarrow> False);
          m = mset_at depID now (ls_prefetched s) in
      if fresh then (False, s)
      else (True, s\<lparr>ls_prefetched := (if 1024 < length m then [(depID, now)] else m)\<rparr>))"

definition purgeUnknown :: "(string \<Rightarrow> bool) \<Rightarrow> autoscaleLoopState \<Rightarrow> autoscaleLoopState" where
  "purgeUnknown known s =
     s\<lparr>ls_scaleDown := mkeep (\<lambda>a _. known a) (ls_scaleDown s), ls_frozenUntil := mkeep (\<lambda>a _. known a) (ls_frozenUntil s),
       ls_frozenNoted := mkeep (\<lambda>a _. known a) (ls_frozenNoted s), ls_resourceStreak := mkeep (\<lambda>a _. known a) (ls_resourceStreak s),
       ls_policyHash := mkeep (\<lambda>a _. known a) (ls_policyHash s)\<rparr>"

section \<open>What the controller notes between passes\<close>

record Config =
  cf_AutoscaleInterval :: int
  cf_AutoscaleQuotaFreeze :: int
  cf_AgentRPCTimeout :: int

definition autoscaleInterval :: "Config \<Rightarrow> int" where
  "autoscaleInterval c = (if 0 < cf_AutoscaleInterval c then cf_AutoscaleInterval c else 10 * second)"

definition autoscaleQuotaFreeze :: "Config \<Rightarrow> int" where
  "autoscaleQuotaFreeze c = (if 0 < cf_AutoscaleQuotaFreeze c then cf_AutoscaleQuotaFreeze c else 10 * autoscaleInterval c)"

definition autoscaleCreateTimeout :: "Config \<Rightarrow> int" where
  "autoscaleCreateTimeout c = (if 0 < cf_AgentRPCTimeout c then cf_AgentRPCTimeout c else 120 * second)"

definition noteQuotaRejection :: "Config \<Rightarrow> string \<Rightarrow> int \<Rightarrow> autoscaleLoopState \<Rightarrow> autoscaleLoopState" where
  "noteQuotaRejection c appID clock s =
     (if appID = '''' then s else clearStreak appID (freezeApp appID (clock + autoscaleQuotaFreeze c) s))"

definition notePlacementSuccess :: "string \<Rightarrow> autoscaleLoopState \<Rightarrow> autoscaleLoopState" where
  "notePlacementSuccess appID s = (if appID = '''' then s else clearStreak appID s)"

record SchedulerEvent =
  se_OperationID :: string
  se_Kind :: string
  se_Reason :: string

definition notePlacementFailure ::
    "Config \<Rightarrow> (string + SchedulerEvent list) \<Rightarrow> string \<Rightarrow> string \<Rightarrow> int \<Rightarrow> autoscaleLoopState \<Rightarrow> autoscaleLoopState" where
  "notePlacementFailure c events opID appID clock s =
     (if appID = '''' then s
      else case events of
        Inl _ \<Rightarrow> s
      | Inr evs \<Rightarrow>
          if \<exists>e \<in> set evs. se_OperationID e = opID \<and> se_Kind e = ''filter_rejection'' \<and> HasPrefix (se_Reason e) ''resources:''
          then snd (bumpStreak appID clock (autoscaleQuotaFreeze c) s) else s)"

section \<open>One application in one pass\<close>


text \<open>The counting loop: ready machines of the target deployment, and those still warming up.\<close>

definition is_ready :: "string \<Rightarrow> (string \<Rightarrow> bool) \<Rightarrow> Machine \<Rightarrow> bool" where
  "is_ready target draining m \<longleftrightarrow> m_DeploymentID m = target \<and> machineServing m \<and> \<not> draining (m_NodeID m)"

definition is_warming :: "string \<Rightarrow> int \<Rightarrow> int \<Rightarrow> (string \<Rightarrow> bool) \<Rightarrow> Machine \<Rightarrow> bool" where
  "is_warming target now createTimeout inflightCreate m \<longleftrightarrow>
     m_DeploymentID m = target \<and> \<not> machineServing m \<and> m_DesiredState m \<noteq> ''DELETED'' \<and>
     m_ObservedState m \<noteq> ''STOPPED'' \<and> m_ObservedState m \<noteq> ''STOPPING'' \<and>
     (now - m_CreatedAt m \<le> createTimeout \<or> inflightCreate (m_ID m))"

text \<open>
  What a pass reads for one application: the target deployment, whether a rollout is active, the reported
  fields, the machines and the two Prometheus queries, each with its error, the decoder of a
  field, the error of the write, the machines with a create in flight and the draining nodes,
  whether a placer is installed and the clock reading of the prefetch.
\<close>

record app_env =
  en_target :: "string + string option"
  en_rollout :: "string + bool"
  en_fields :: "string + (string, string) gomap"
  en_machines :: "string + Machine list"
  en_prometheus :: bool
  en_cpu :: "string + rat"
  en_custom :: "string + rat"
  en_decode :: "string \<Rightarrow> SignalSample option"
  en_write_fault :: "string option"
  en_inflight :: "string \<Rightarrow> bool"
  en_draining :: "string \<Rightarrow> bool"
  en_placer :: bool
  en_prefetch_clock :: int

text \<open>The part before the write: a hold with its metric and whether it ends the stable window, or a decision.\<close>

datatype verdict = Hold string bool | Want string AutoscaleSignal int bool

definition evaluate_app :: "Config \<Rightarrow> app_env \<Rightarrow> AutoscalePolicy \<Rightarrow> int \<Rightarrow> verdict" where
  "evaluate_app c env p now =
     (case en_target env of
        Inl _ \<Rightarrow> Hold ''error'' False
      | Inr None \<Rightarrow> Hold ''error'' False
      | Inr (Some target) \<Rightarrow>
          if en_rollout env \<noteq> Inr False then Hold ''hold_rollout'' True
          else (case en_fields env of
             Inl _ \<Rightarrow> Hold ''hold_signal'' True
           | Inr fs \<Rightarrow>
               (let sg = aggregateAutoscaleSignal (en_decode env) [fs] (ap_TargetConcurrency p) now in
                if \<not> sg_HasFresh sg then Hold ''hold_signal'' True
                else (case en_machines env of
                   Inl _ \<Rightarrow> Hold ''error'' True
                 | Inr machines \<Rightarrow>
                     (let ready = int (length (filter (is_ready target (en_draining env)) machines));
                          warming = int (length (filter (is_warming target now (autoscaleCreateTimeout c) (en_inflight env)) machines)) in
                      case fetchExtraSignals (en_prometheus env) (en_cpu env) (en_custom env) p sg (ready + warming) of
                        Inl _ \<Rightarrow> Hold ''hold_signal'' True
                      | Inr ex \<Rightarrow>
                          (case computeAutoscaleWantMulti p sg ready warming ex of (want, panicTriggered, _) \<Rightarrow>
                             Want target sg want panicTriggered))))))"

text \<open>The outcome: loop state, table, the user events (action, from, to, reason), the metric, and the deployment whose image is prefetched.\<close>

record outcome =
  oc_state :: autoscaleLoopState
  oc_apps :: apps
  oc_events :: "(string \<times> int \<times> int \<times> string) list"
  oc_metric :: "string option"
  oc_prefetch :: "string option"

definition held :: "string \<Rightarrow> autoscaleLoopState \<Rightarrow> apps \<Rightarrow> outcome" where
  "held metric s t = \<lparr>oc_state = s, oc_apps = t, oc_events = [], oc_metric = Some metric, oc_prefetch = None\<rparr>"

definition emit :: "string \<times> int \<times> int \<times> string \<Rightarrow> outcome \<Rightarrow> outcome" where
  "emit ev r = r\<lparr>oc_events := ev # oc_events r\<rparr>"

definition maybePrefetchAutoscale :: "app_env \<Rightarrow> string \<Rightarrow> outcome \<Rightarrow> outcome" where
  "maybePrefetchAutoscale env target r =
     (if \<not> en_placer env then r
      else (let (ok, s1) = prefetchAllowed target (en_prefetch_clock env) (oc_state r) in
            r\<lparr>oc_state := s1, oc_prefetch := (if ok then Some target else None)\<rparr>))"

text \<open>The write of a new replica count, for either direction.\<close>

definition write_replicas ::
    "string \<Rightarrow> string \<Rightarrow> app_env \<Rightarrow> App \<Rightarrow> int \<Rightarrow> int \<Rightarrow> autoscaleLoopState \<Rightarrow> apps \<Rightarrow> outcome" where
  "write_replicas action reason env app want now s t =
     (case SetAppReplicasCAS now (en_write_fault env) (app_ID app) want (app_DesiredReplicas app) t of
        (Inl _, t1) \<Rightarrow> held ''error'' s t1
      | (Inr ok, t1) \<Rightarrow>
          (let s1 = deleteScaleDown (app_ID app) s in
           if \<not> ok then held ''conflict'' s1 t1
           else \<lparr>oc_state = s1, oc_apps = t1, oc_events = [(action, app_DesiredReplicas app, want, reason)],
                  oc_metric = Some action, oc_prefetch = None\<rparr>))"

definition apply_want :: "app_env \<Rightarrow> App \<Rightarrow> string \<Rightarrow> AutoscalePolicy \<Rightarrow> AutoscaleSignal \<Rightarrow> int \<Rightarrow> bool \<Rightarrow> int \<Rightarrow> autoscaleLoopState \<Rightarrow> apps \<Rightarrow> outcome" where
  "apply_want env app target p sg want panicTriggered now s t =
     (if app_DesiredReplicas app < want then
        (let r = write_replicas ''scale_up'' (if panicTriggered then ''panic'' else ''load'') env app want now s t in
         if oc_metric r = Some ''scale_up'' then maybePrefetchAutoscale env target r else r)
      else if want < app_DesiredReplicas app then
        (if sg_HasStaleNonzero sg then held ''hold_signal'' (deleteScaleDown (app_ID app) s) t
         else
           (let (elapsed, s1) = scaleDownElapsed (app_ID app) want now (ap_ScaleDownDelaySec p) s in
            if \<not> elapsed then held ''hold_signal'' s1 t
            else if want = 0 \<and> 0 < sg_TotalRPS sg then held ''hold_signal'' (deleteScaleDown (app_ID app) s1) t
            else write_replicas ''scale_down'' ''below_target'' env app want now s1 t))
      else \<lparr>oc_state = deleteScaleDown (app_ID app) s, oc_apps = t, oc_events = [], oc_metric = None, oc_prefetch = None\<rparr>)"

definition freeze_gate :: "app_env \<Rightarrow> App \<Rightarrow> string \<Rightarrow> AutoscalePolicy \<Rightarrow> AutoscaleSignal \<Rightarrow> int \<Rightarrow> bool \<Rightarrow> int \<Rightarrow> autoscaleLoopState \<Rightarrow> apps \<Rightarrow> outcome" where
  "freeze_gate env app target p sg want panicTriggered now s t =
     (if frozen (app_ID app) now s then
        (if app_DesiredReplicas app < want then
           (let (noted, s1) = markFreezeNoted (app_ID app) s;
                r = held ''hold_quota'' (deleteScaleDown (app_ID app) s1) t in
            if noted then r else emit (''freeze'', app_DesiredReplicas app, want, ''quota'') r)
         else apply_want env app target p sg want panicTriggered now s t)
      else if isFreezeNoted (app_ID app) s then
        emit (''unfreeze'', app_DesiredReplicas app, want, ''quota_recovered'')
          (apply_want env app target p sg want panicTriggered now (clearFreeze (app_ID app) s) t)
      else apply_want env app target p sg want panicTriggered now s t)"

definition reconcileAutoscaleApp ::
    "Config \<Rightarrow> (rat \<Rightarrow> string) \<Rightarrow> app_env \<Rightarrow> App \<Rightarrow> int \<Rightarrow> autoscaleLoopState \<Rightarrow> apps \<Rightarrow> outcome" where
  "reconcileAutoscaleApp c fmt_float env app now s t =
     (let p = Autoscale app in
      if \<not> ap_Enabled p \<or> app_Deleted app then
        \<lparr>oc_state = clearApp (app_ID app) s, oc_apps = t, oc_events = [], oc_metric = None, oc_prefetch = None\<rparr>
      else
        (let s1 = collectExpiredFreeze (app_ID app) now (checkPolicy fmt_float (app_ID app) p s) in
         case evaluate_app c env p now of
           Hold metric clears \<Rightarrow> held metric (if clears then deleteScaleDown (app_ID app) s1 else s1) t
         | Want target sg want panicTriggered \<Rightarrow> freeze_gate env app target p sg want panicTriggered now s1 t))"

definition reconcileAutoscale ::
    "Config \<Rightarrow> (rat \<Rightarrow> string) \<Rightarrow> (string + App list) \<Rightarrow> (App \<Rightarrow> app_env) \<Rightarrow> int \<Rightarrow> autoscaleLoopState \<Rightarrow> apps \<Rightarrow>
      (string + unit) \<times> autoscaleLoopState \<times> apps" where
  "reconcileAutoscale c fmt_float listing env_of now s t =
     (case listing of
        Inl e \<Rightarrow> (Inl e, s, t)
      | Inr snapshot \<Rightarrow>
          (Inr (),
           fold (\<lambda>app (s, t). let r = reconcileAutoscaleApp c fmt_float (env_of app) app now s t in (oc_state r, oc_apps r))
             snapshot (purgeUnknown (\<lambda>a. a \<in> set (map app_ID snapshot)) s, t)))"

section \<open>What the autoscaler writes\<close>

lemma multi_want_bounds:
  "policy_ok p \<Longrightarrow> ap_MinReplicas p \<le> fst (computeAutoscaleWantMulti p sg ready warming ex) \<and>
     fst (computeAutoscaleWantMulti p sg ready warming ex) \<le> ap_MaxReplicas p"
  using clamp_want_bounds [of p "max_want (by_dimension p sg (ready + warming) ex)"]
    boost_max [of p "want_concurrency p sg" "ready + warming"]
  by (auto simp: multi_want Let_def)

lemma evaluate_app_Want:
  assumes "evaluate_app c env p now = Want target sg want pn"
  obtains fs ready warming ex where "en_fields env = Inr fs"
    "sg = aggregateAutoscaleSignal (en_decode env) [fs] (ap_TargetConcurrency p) now" "sg_HasFresh sg"
    "want = fst (computeAutoscaleWantMulti p sg ready warming ex)" "0 \<le> ready + warming"
  using assms unfolding evaluate_app_def Let_def
  by (auto split: sum.splits option.splits if_splits prod.splits) (metis fst_conv of_nat_0_le_iff of_nat_add)

lemma evaluate_app_bounds:
  assumes "evaluate_app c env p now = Want target sg want pn" "policy_ok p"
  shows "ap_MinReplicas p \<le> want \<and> want \<le> ap_MaxReplicas p"
  using assms(1) by (rule evaluate_app_Want) (simp add: multi_want_bounds [OF assms(2)])

text \<open>A write that took place: the row was live and enabled and still had the replica count of the snapshot.\<close>

definition cas_written :: "App \<Rightarrow> int \<Rightarrow> int \<Rightarrow> apps \<Rightarrow> apps \<Rightarrow> bool" where
  "cas_written app want now t t' \<longleftrightarrow>
     (\<exists>a. mget t (app_ID app) = Some a \<and> \<not> app_Deleted a \<and> ap_Enabled (app_policy a) \<and>
        app_DesiredReplicas a = app_DesiredReplicas app \<and>
        t' = mset_at (app_ID app) (a\<lparr>app_DesiredReplicas := want, app_UpdatedAt := now\<rparr>) t)"

lemma write_replicas_apps:
  "oc_apps (write_replicas action reason env app want now s t) = t \<or>
   cas_written app want now t (oc_apps (write_replicas action reason env app want now s t))"
  by (auto simp: write_replicas_def SetAppReplicasCAS_def update_app_def held_def cas_written_def Let_def split: option.splits)

lemma maybePrefetch_keeps [simp]:
  "oc_apps (maybePrefetchAutoscale env target r) = oc_apps r"
  "oc_events (maybePrefetchAutoscale env target r) = oc_events r"
  "oc_metric (maybePrefetchAutoscale env target r) = oc_metric r"
  "ls_scaleDown (oc_state (maybePrefetchAutoscale env target r)) = ls_scaleDown (oc_state r)"
  "ls_policyHash (oc_state (maybePrefetchAutoscale env target r)) = ls_policyHash (oc_state r)"
  "ls_frozenUntil (oc_state (maybePrefetchAutoscale env target r)) = ls_frozenUntil (oc_state r)"
  by (simp_all add: maybePrefetchAutoscale_def prefetchAllowed_def Let_def)

lemma apply_want_apps:
  "oc_apps (apply_want env app target p sg want pn now s t) = t \<or>
   want \<noteq> app_DesiredReplicas app \<and> cas_written app want now t (oc_apps (apply_want env app target p sg want pn now s t))"
proof -
  have w: "oc_apps (write_replicas action reason env app want now s' t) = t \<or>
      cas_written app want now t (oc_apps (write_replicas action reason env app want now s' t))" for action reason s'
    by (rule write_replicas_apps)
  show ?thesis
    unfolding apply_want_def using w by (auto simp: held_def Let_def split: prod.splits)
qed

lemma emit_simps [simp]: "oc_apps (emit ev r) = oc_apps r" "oc_state (emit ev r) = oc_state r" "oc_metric (emit ev r) = oc_metric r"
  by (simp_all add: emit_def)

lemma held_simps [simp]: "oc_apps (held m s t) = t" "oc_state (held m s t) = s" "oc_metric (held m s t) = Some m" "oc_events (held m s t) = []"
  by (simp_all add: held_def)

lemma freeze_gate_apps:
  "oc_apps (freeze_gate env app target p sg want pn now s t) = t \<or>
   want \<noteq> app_DesiredReplicas app \<and> cas_written app want now t (oc_apps (freeze_gate env app target p sg want pn now s t))"
  using apply_want_apps [of env app target p sg want pn now s t]
    apply_want_apps [of env app target p sg want pn now "clearFreeze (app_ID app) s" t]
  by (auto simp: freeze_gate_def Let_def split_beta)

lemma reconcile_apps:
  "oc_apps (reconcileAutoscaleApp c fmt_float env app now s t) = t \<or>
   (\<exists>target sg want pn. evaluate_app c env (Autoscale app) now = Want target sg want pn \<and> ap_Enabled (app_policy app) \<and>
      want \<noteq> app_DesiredReplicas app \<and> cas_written app want now t (oc_apps (reconcileAutoscaleApp c fmt_float env app now s t)))"
proof (cases "evaluate_app c env (Autoscale app) now")
  case (Want target sg want pn)
  then show ?thesis
    using freeze_gate_apps [of env app target "Autoscale app" sg want pn now
        "collectExpiredFreeze (app_ID app) now (checkPolicy fmt_float (app_ID app) (Autoscale app) s)" t]
    by (auto simp: reconcileAutoscaleApp_def Let_def Autoscale_def)
qed (simp add: reconcileAutoscaleApp_def Let_def)

text \<open>
  Claim C35. Whatever snapshot, signals and loop state a pass works with, it changes the table in at most one way: the replica count of the
  snapshot's application is set to a value different from the snapshot's and within the minimum and maximum of the policy it
  read, and only while the row is live, has autoscaling enabled and still has the replica count the
  decision was based on.
\<close>

theorem autoscaler_writes_bounded:
  "oc_apps (reconcileAutoscaleApp c fmt_float env app now s t) = t \<or>
   (\<exists>want. cas_written app want now t (oc_apps (reconcileAutoscaleApp c fmt_float env app now s t)) \<and>
      want \<noteq> app_DesiredReplicas app \<and> ap_Enabled (app_policy app) \<and>
      ap_MinReplicas (Autoscale app) \<le> want \<and> want \<le> ap_MaxReplicas (Autoscale app))"
  using reconcile_apps [of c fmt_float env app now s t] evaluate_app_bounds [of c env "Autoscale app" now] Autoscale_ok by blast

section \<open>Manual takeover\<close>

text \<open>Passes over any snapshots, with any loop states, one application at a time.\<close>

inductive autoscaler_pass :: "Config \<Rightarrow> (rat \<Rightarrow> string) \<Rightarrow> apps \<Rightarrow> apps \<Rightarrow> bool" for c fmt_float where
  pass: "autoscaler_pass c fmt_float t (oc_apps (reconcileAutoscaleApp c fmt_float env app now s t))"

definition taken_over :: "string \<Rightarrow> int \<Rightarrow> apps \<Rightarrow> bool" where
  "taken_over appID replicas t \<longleftrightarrow>
     (\<exists>a. mget t appID = Some a \<and> \<not> ap_Enabled (app_policy a) \<and> app_DesiredReplicas a = replicas)"

lemma pass_table:
  assumes "autoscaler_pass c fmt_float t t'"
  obtains "t' = t" | app want now where "cas_written app want now t t'"
  using assms
proof cases
  case (pass env app now s)
  then show ?thesis using reconcile_apps [of c fmt_float env app now s t] that by blast
qed

lemma taken_over_pass: "autoscaler_pass c fmt_float t t' \<Longrightarrow> taken_over appID r t \<Longrightarrow> taken_over appID r t'"
  by (erule pass_table) (auto simp: taken_over_def cas_written_def)

lemma TakeoverScale_taken_over:
  assumes "TakeoverScale now f f2 appID replicas t = (Inr (), t')"
  shows "taken_over appID replicas t'"
  using assms
  by (auto simp: TakeoverScale_def update_app_def taken_over_def disable_def Let_def split: option.splits if_splits)

text \<open>
  Claim C34. A manual scale wins: once \<open>TakeoverScale\<close> succeeded, no number of autoscaler passes changes the replica count it
  set or switches autoscaling on again, even when they decide on snapshots from before the takeover.
\<close>

theorem takeover_not_overwritten:
  assumes "TakeoverScale now f f2 appID replicas t = (Inr (), t')" "(autoscaler_pass c fmt_float)\<^sup>*\<^sup>* t' t''"
  shows "\<exists>a. mget t'' appID = Some a \<and> app_DesiredReplicas a = replicas \<and> \<not> ap_Enabled (app_policy a)"
  using assms(2)
proof (induction rule: rtranclp_induct)
  case base
  then show ?case using TakeoverScale_taken_over [OF assms(1)] by (auto simp: taken_over_def)
next
  case (step y z)
  then have "taken_over appID replicas y" by (auto simp: taken_over_def)
  with taken_over_pass [OF step(2)] show ?case by (auto simp: taken_over_def)
qed

definition example_app :: App where
  "example_app = \<lparr>app_ID = ''a'', app_Hostname = ''a.test'', app_DesiredReplicas = 5, app_Generation = 1, app_Deleted = False,
     app_policy = DefaultAutoscalePolicy\<lparr>ap_Enabled := True\<rparr>, app_UpdatedAt = 0\<rparr>"

text \<open>One edge reports no load; the single machine runs.\<close>

definition example_env :: app_env where
  "example_env = \<lparr>en_target = Inr (Some ''d''), en_rollout = Inr False, en_fields = Inr [(''edge'', ''idle'')],
     en_machines = Inr [], en_prometheus = False, en_cpu = Inl '''', en_custom = Inl '''',
     en_decode = (\<lambda>_. Some \<lparr>ss_EWMA = 0, ss_RPS = 0, ss_HardRejected = 0, ss_Unserved = 0, ss_TsMs = 0, ss_WinMs = 0\<rparr>),
     en_write_fault = None, en_inflight = (\<lambda>_. False), en_draining = (\<lambda>_. False), en_placer = False, en_prefetch_clock = 0\<rparr>"

definition example_config :: Config where
  "example_config = \<lparr>cf_AutoscaleInterval = 0, cf_AutoscaleQuotaFreeze = 0, cf_AgentRPCTimeout = 0\<rparr>"

theorem takeover_not_overwritten_witness:
  "\<exists>a. mget (oc_apps (reconcileAutoscaleApp example_config (\<lambda>_. ''f'') example_env example_app 0 newAutoscaleLoopState
       (snd (TakeoverScale 1 None None ''a'' 7 [(''a'', example_app)])))) ''a'' = Some a \<and>
     app_DesiredReplicas a = 7 \<and> \<not> ap_Enabled (app_policy a)"
proof (rule takeover_not_overwritten)
  show "TakeoverScale 1 None None ''a'' 7 [(''a'', example_app)] = (Inr (), snd (TakeoverScale 1 None None ''a'' 7 [(''a'', example_app)]))"
    by (simp add: TakeoverScale_def update_app_def example_app_def)
  show "(autoscaler_pass example_config (\<lambda>_. ''f''))\<^sup>*\<^sup>* (snd (TakeoverScale 1 None None ''a'' 7 [(''a'', example_app)]))
      (oc_apps (reconcileAutoscaleApp example_config (\<lambda>_. ''f'') example_env example_app 0 newAutoscaleLoopState
        (snd (TakeoverScale 1 None None ''a'' 7 [(''a'', example_app)]))))"
    by (rule r_into_rtranclp, rule pass)
qed

section \<open>The stable window\<close>

text \<open>The operations on the loop state: passes over one application, notes of the dispatch workers, purging.\<close>

datatype loop_op =
    Tick app_env App int apps
  | NoteQuota string int
  | NoteSuccess string
  | NoteFailure "string + SchedulerEvent list" string string int
  | Purge "string \<Rightarrow> bool"

fun loop_op_state :: "Config \<Rightarrow> (rat \<Rightarrow> string) \<Rightarrow> loop_op \<Rightarrow> autoscaleLoopState \<Rightarrow> autoscaleLoopState" where
  "loop_op_state c fmt_float (Tick env app now t) s = oc_state (reconcileAutoscaleApp c fmt_float env app now s t)"
| "loop_op_state c fmt_float (NoteQuota appID clock) s = noteQuotaRejection c appID clock s"
| "loop_op_state c fmt_float (NoteSuccess appID) s = notePlacementSuccess appID s"
| "loop_op_state c fmt_float (NoteFailure evs opID appID clock) s = notePlacementFailure c evs opID appID clock s"
| "loop_op_state c fmt_float (Purge known) s = purgeUnknown known s"

definition loop_run :: "Config \<Rightarrow> (rat \<Rightarrow> string) \<Rightarrow> loop_op list \<Rightarrow> autoscaleLoopState" where
  "loop_run c fmt_float ops = fold (loop_op_state c fmt_float) ops newAutoscaleLoopState"

text \<open>
  A pass that keeps the window open: the policy is enabled and has the fingerprint, and the pass wants the same smaller
  number of replicas on a complete signal, or is one of the two exceptions of the code: the target deployment could not
  be determined, or the write of a larger replica count failed.
\<close>

definition quiet :: "Config \<Rightarrow> (rat \<Rightarrow> string) \<Rightarrow> int \<Rightarrow> string \<Rightarrow> app_env \<Rightarrow> App \<Rightarrow> int \<Rightarrow> bool" where
  "quiet c fmt_float want h env app now \<longleftrightarrow>
     ap_Enabled (app_policy app) \<and> \<not> app_Deleted app \<and> autoscalePolicyHash fmt_float (Autoscale app) = h \<and>
     (case evaluate_app c env (Autoscale app) now of
        Hold metric clears \<Rightarrow> metric = ''error'' \<and> \<not> clears
      | Want target sg w pn \<Rightarrow>
          w = want \<and> w < app_DesiredReplicas app \<and> \<not> sg_HasStaleNonzero sg \<or>
          app_DesiredReplicas app < w \<and> en_write_fault env \<noteq> None)"

fun quiet_op :: "Config \<Rightarrow> (rat \<Rightarrow> string) \<Rightarrow> string \<Rightarrow> int \<Rightarrow> string \<Rightarrow> loop_op \<Rightarrow> bool" where
  "quiet_op c fmt_float appID want h (Tick env app now t) = (app_ID app = appID \<longrightarrow> quiet c fmt_float want h env app now)"
| "quiet_op c fmt_float appID want h (Purge known) = known appID"
| "quiet_op c fmt_float appID want h _ = True"

definition window_at :: "Config \<Rightarrow> (rat \<Rightarrow> string) \<Rightarrow> loop_op list \<Rightarrow> string \<Rightarrow> int \<Rightarrow> int \<Rightarrow> string \<Rightarrow> bool" where
  "window_at c fmt_float ops appID want since h \<longleftrightarrow>
     (\<exists>pre env app t post. ops = pre @ Tick env app since t # post \<and> app_ID app = appID \<and>
        (\<forall>op \<in> set (Tick env app since t # post). quiet_op c fmt_float appID want h op))"

definition loop_inv :: "Config \<Rightarrow> (rat \<Rightarrow> string) \<Rightarrow> loop_op list \<Rightarrow> autoscaleLoopState \<Rightarrow> bool" where
  "loop_inv c fmt_float ops s \<longleftrightarrow> gomap_ok (ls_scaleDown s) \<and> gomap_ok (ls_policyHash s) \<and>
     (\<forall>appID e. mget (ls_scaleDown s) appID = Some e \<longrightarrow>
        (\<exists>h. mget (ls_policyHash s) appID = Some h \<and> window_at c fmt_float ops appID (sd_want e) (sd_since e) h))"

lemma window_extend:
  "window_at c fmt_float ops appID want since h \<Longrightarrow> quiet_op c fmt_float appID want h op \<Longrightarrow>
   window_at c fmt_float (ops @ [op]) appID want since h"
  unfolding window_at_def by (elim exE, rule exI, rule exI, rule exI, rule exI, rule_tac x = "post @ [op]" in exI) auto

lemma window_open:
  "app_ID app = appID \<Longrightarrow> quiet c fmt_float want h env app since \<Longrightarrow>
   window_at c fmt_float (ops @ [Tick env app since t]) appID want since h"
  unfolding window_at_def by (rule exI [of _ ops], rule exI, rule exI, rule exI, rule exI [of _ "[]"]) auto

text \<open>A pass over one application leaves the entries of the others alone.\<close>

lemma scaleDown_ops [simp]:
  "ls_scaleDown (deleteScaleDown a s) = mdel a (ls_scaleDown s)" "ls_policyHash (deleteScaleDown a s) = ls_policyHash s"
  "ls_scaleDown (clearFreeze a s) = ls_scaleDown s" "ls_policyHash (clearFreeze a s) = ls_policyHash s"
  "ls_scaleDown (collectExpiredFreeze a now s) = ls_scaleDown s" "ls_policyHash (collectExpiredFreeze a now s) = ls_policyHash s"
  "ls_scaleDown (snd (markFreezeNoted a s)) = ls_scaleDown s" "ls_policyHash (snd (markFreezeNoted a s)) = ls_policyHash s"
  by (simp_all add: deleteScaleDown_def clearFreeze_def collectExpiredFreeze_def markFreezeNoted_def split: option.splits)

lemma write_replicas_state [simp]:
  "ls_scaleDown (oc_state (write_replicas action reason env app want now s t)) =
     (if en_write_fault env \<noteq> None then ls_scaleDown s else mdel (app_ID app) (ls_scaleDown s))"
  "ls_policyHash (oc_state (write_replicas action reason env app want now s t)) = ls_policyHash s"
  by (auto simp: write_replicas_def SetAppReplicasCAS_def Let_def split: prod.splits sum.splits option.splits)

lemma apply_want_policy: "ls_policyHash (oc_state (apply_want env app target p sg want pn now s t)) = ls_policyHash s"
  by (auto simp: apply_want_def scaleDownElapsed_def Let_def split: prod.splits option.splits)

text \<open>The entry after the decision: the old one, or one opened by this pass, and only for a smaller want on a complete signal.\<close>

lemma apply_want_entry:
  assumes "mget (ls_scaleDown (oc_state (apply_want env app target p sg want pn now s t))) appID = Some e"
  shows "appID \<noteq> app_ID app \<and> mget (ls_scaleDown s) appID = Some e \<or>
    appID = app_ID app \<and> (mget (ls_scaleDown s) appID = Some e \<or> sd_since e = now) \<and>
      (want < app_DesiredReplicas app \<and> sd_want e = want \<and> \<not> sg_HasStaleNonzero sg \<or>
       app_DesiredReplicas app < want \<and> en_write_fault env \<noteq> None \<and> mget (ls_scaleDown s) appID = Some e)"
  using assms unfolding apply_want_def scaleDownElapsed_def
  by (auto simp: Let_def split: prod.splits option.splits if_splits)

lemma freeze_gate_entry:
  assumes "mget (ls_scaleDown (oc_state (freeze_gate env app target p sg want pn now s t))) appID = Some e"
  shows "appID \<noteq> app_ID app \<and> mget (ls_scaleDown s) appID = Some e \<or>
    appID = app_ID app \<and> (mget (ls_scaleDown s) appID = Some e \<or> sd_since e = now) \<and>
      (want < app_DesiredReplicas app \<and> sd_want e = want \<and> \<not> sg_HasStaleNonzero sg \<or>
       app_DesiredReplicas app < want \<and> en_write_fault env \<noteq> None \<and> mget (ls_scaleDown s) appID = Some e)"
  using assms apply_want_entry [of env app target p sg want pn now s t appID e]
    apply_want_entry [of env app target p sg want pn now "clearFreeze (app_ID app) s" t appID e]
  by (simp add: freeze_gate_def Let_def split_beta split: if_splits)

lemma freeze_gate_policy: "ls_policyHash (oc_state (freeze_gate env app target p sg want pn now s t)) = ls_policyHash s"
  by (simp add: freeze_gate_def apply_want_policy Let_def split_beta)

lemma checkPolicy_entry:
  "ls_policyHash (checkPolicy fmt_float a p s) = (if mget (ls_policyHash s) a = Some (autoscalePolicyHash fmt_float p) then ls_policyHash s
     else mset_at a (autoscalePolicyHash fmt_float p) (ls_policyHash s))"
  "ls_scaleDown (checkPolicy fmt_float a p s) = (if mget (ls_policyHash s) a = Some (autoscalePolicyHash fmt_float p) then ls_scaleDown s
     else mdel a (ls_scaleDown s))"
  by (simp_all add: checkPolicy_def Let_def)

lemma tick_policy:
  assumes "s' = oc_state (reconcileAutoscaleApp c fmt_float env app now s t)" "mget (ls_scaleDown s') appID = Some e"
  shows "mget (ls_policyHash s') appID =
    (if appID = app_ID app then Some (autoscalePolicyHash fmt_float (Autoscale app)) else mget (ls_policyHash s) appID)"
  using assms
  by (auto simp: reconcileAutoscaleApp_def freeze_gate_policy checkPolicy_entry clearApp_def Let_def split: verdict.splits if_splits)

lemma tick_entry:
  assumes "mget (ls_scaleDown (oc_state (reconcileAutoscaleApp c fmt_float env app now s t))) appID = Some e"
  shows "appID \<noteq> app_ID app \<and> mget (ls_scaleDown s) appID = Some e \<or>
    appID = app_ID app \<and> quiet c fmt_float (sd_want e) (autoscalePolicyHash fmt_float (Autoscale app)) env app now \<and>
      (mget (ls_scaleDown s) appID = Some e \<and> mget (ls_policyHash s) appID = Some (autoscalePolicyHash fmt_float (Autoscale app)) \<or> sd_since e = now)"
proof (cases "ap_Enabled (Autoscale app) \<and> \<not> app_Deleted app")
  case live: True
  let ?s = "collectExpiredFreeze (app_ID app) now (checkPolicy fmt_float (app_ID app) (Autoscale app) s)"
  show ?thesis
  proof (cases "evaluate_app c env (Autoscale app) now")
    case (Hold metric clears)
    have "\<not> clears \<Longrightarrow> metric = ''error''"
      using Hold by (auto simp: evaluate_app_def Let_def split: sum.splits option.splits if_splits prod.splits)
    then show ?thesis
      using assms live Hold
      by (auto simp: reconcileAutoscaleApp_def quiet_def checkPolicy_entry Autoscale_def Let_def split: if_splits)
  next
    case (Want target sg want pn)
    have "mget (ls_scaleDown (oc_state (freeze_gate env app target (Autoscale app) sg want pn now ?s t))) appID = Some e"
      using assms live Want by (simp add: reconcileAutoscaleApp_def Let_def)
    from freeze_gate_entry [OF this] show ?thesis
      using live Want by (auto simp: quiet_def checkPolicy_entry Autoscale_def split: if_splits)
  qed
next
  case False
  then show ?thesis using assms by (auto simp: reconcileAutoscaleApp_def clearApp_def Let_def split: if_splits)
qed

lemma gomap_ok_tick:
  assumes "gomap_ok (ls_scaleDown s)" "gomap_ok (ls_policyHash s)"
  shows "gomap_ok (ls_scaleDown (oc_state (reconcileAutoscaleApp c fmt_float env app now s t)))"
    "gomap_ok (ls_policyHash (oc_state (reconcileAutoscaleApp c fmt_float env app now s t)))"
proof -
  have apply_ok: "gomap_ok (ls_scaleDown (oc_state (apply_want env app target p sg want pn now s' t)))"
    if "gomap_ok (ls_scaleDown s')" for target p sg want pn s'
    using that by (auto simp: apply_want_def scaleDownElapsed_def Let_def split: prod.splits option.splits)
  have gate_ok: "gomap_ok (ls_scaleDown (oc_state (freeze_gate env app target p sg want pn now s' t)))"
    if "gomap_ok (ls_scaleDown s')" for target p sg want pn s'
    using that apply_ok by (simp add: freeze_gate_def Let_def split_beta)
  have "gomap_ok (ls_scaleDown (checkPolicy fmt_float a p s))" for a p using assms by (simp add: checkPolicy_entry)
  then show "gomap_ok (ls_scaleDown (oc_state (reconcileAutoscaleApp c fmt_float env app now s t)))"
    using assms gate_ok by (auto simp: reconcileAutoscaleApp_def clearApp_def Let_def split: verdict.splits)
  show "gomap_ok (ls_policyHash (oc_state (reconcileAutoscaleApp c fmt_float env app now s t)))"
    using assms by (auto simp: reconcileAutoscaleApp_def clearApp_def freeze_gate_policy checkPolicy_entry Let_def split: verdict.splits)
qed

lemma loop_inv_tick:
  assumes inv: "loop_inv c fmt_float ops s" and s': "s' = oc_state (reconcileAutoscaleApp c fmt_float env app now s t)"
  shows "loop_inv c fmt_float (ops @ [Tick env app now t]) s'"
proof -
  have "\<exists>h. mget (ls_policyHash s') appID = Some h \<and> window_at c fmt_float (ops @ [Tick env app now t]) appID (sd_want e) (sd_since e) h"
    if e: "mget (ls_scaleDown s') appID = Some e" for appID e
  proof (cases "appID = app_ID app")
    case True
    let ?h = "autoscalePolicyHash fmt_float (Autoscale app)"
    have q: "quiet c fmt_float (sd_want e) ?h env app now" using tick_entry [OF e [unfolded s']] True by blast
    from tick_entry [OF e [unfolded s']] True consider
      "sd_since e = now" | "mget (ls_scaleDown s) appID = Some e" "mget (ls_policyHash s) appID = Some ?h" by blast
    then have "window_at c fmt_float (ops @ [Tick env app now t]) appID (sd_want e) (sd_since e) ?h"
    proof cases
      case 1
      with window_open [of app appID, OF True [symmetric] q] show ?thesis by simp
    next
      case 2
      with inv have "window_at c fmt_float ops appID (sd_want e) (sd_since e) ?h" unfolding loop_inv_def by force
      with window_extend q show ?thesis by simp
    qed
    with tick_policy [OF s' e] True show ?thesis by simp
  next
    case False
    with tick_entry [OF e [unfolded s']] have "mget (ls_scaleDown s) appID = Some e" by blast
    with inv obtain h where "mget (ls_policyHash s) appID = Some h" "window_at c fmt_float ops appID (sd_want e) (sd_since e) h"
      unfolding loop_inv_def by blast
    with window_extend [of c fmt_float ops appID "sd_want e" "sd_since e" h "Tick env app now t"] tick_policy [OF s' e] False
    show ?thesis by auto
  qed
  with gomap_ok_tick [of s c fmt_float env app now t] inv s' show ?thesis by (simp add: loop_inv_def)
qed

lemma loop_inv_same:
  assumes "loop_inv c fmt_float ops s" "ls_scaleDown s' = ls_scaleDown s" "ls_policyHash s' = ls_policyHash s"
    "\<And>appID want h. quiet_op c fmt_float appID want h op"
  shows "loop_inv c fmt_float (ops @ [op]) s'"
  using assms window_extend [of c fmt_float ops _ _ _ _ op] unfolding loop_inv_def by metis

lemma loop_inv_purge:
  assumes "loop_inv c fmt_float ops s"
  shows "loop_inv c fmt_float (ops @ [Purge known]) (purgeUnknown known s)"
proof -
  have ok: "gomap_ok (ls_scaleDown s)" "gomap_ok (ls_policyHash s)" using assms by (simp_all add: loop_inv_def)
  have "\<exists>h. mget (ls_policyHash (purgeUnknown known s)) appID = Some h \<and> window_at c fmt_float (ops @ [Purge known]) appID (sd_want e) (sd_since e) h"
    if "mget (ls_scaleDown (purgeUnknown known s)) appID = Some e" for appID e
  proof -
    from that ok have k: "known appID" "mget (ls_scaleDown s) appID = Some e"
      by (auto simp: purgeUnknown_def mget_mkeep split: option.splits if_splits)
    with assms obtain h where h: "mget (ls_policyHash s) appID = Some h" "window_at c fmt_float ops appID (sd_want e) (sd_since e) h"
      unfolding loop_inv_def by blast
    with window_extend [OF h(2), of "Purge known"] k ok show ?thesis by (auto simp: purgeUnknown_def mget_mkeep)
  qed
  with ok show ?thesis by (simp add: loop_inv_def purgeUnknown_def)
qed

lemma notes_keep:
  "ls_scaleDown (noteQuotaRejection c a n s) = ls_scaleDown s" "ls_policyHash (noteQuotaRejection c a n s) = ls_policyHash s"
  "ls_scaleDown (notePlacementSuccess a s) = ls_scaleDown s" "ls_policyHash (notePlacementSuccess a s) = ls_policyHash s"
  "ls_scaleDown (notePlacementFailure c evs opID a n s) = ls_scaleDown s" "ls_policyHash (notePlacementFailure c evs opID a n s) = ls_policyHash s"
  by (simp_all add: noteQuotaRejection_def notePlacementSuccess_def notePlacementFailure_def freezeApp_def clearStreak_def
      bumpStreak_def Let_def split: sum.splits)

lemma loop_inv_op: "loop_inv c fmt_float ops s \<Longrightarrow> loop_inv c fmt_float (ops @ [op]) (loop_op_state c fmt_float op s)"
proof (cases op)
  case (Tick env app now t)
  assume "loop_inv c fmt_float ops s"
  with Tick show ?thesis by (simp add: loop_inv_tick)
next
  case (Purge known)
  assume "loop_inv c fmt_float ops s"
  with Purge show ?thesis by (simp add: loop_inv_purge)
qed (auto intro!: loop_inv_same simp: notes_keep)

lemma loop_run_inv: "loop_inv c fmt_float ops (loop_run c fmt_float ops)"
proof (induction ops rule: rev_induct)
  case Nil
  show ?case by (simp add: loop_inv_def loop_run_def newAutoscaleLoopState_def)
next
  case (snoc op ops)
  with loop_inv_op [OF snoc] show ?case by (simp add: loop_run_def)
qed

text \<open>A pass that scales down found an entry old enough.\<close>

lemma scale_down_entry:
  assumes "oc_metric (reconcileAutoscaleApp c fmt_float env app now s t) = Some ''scale_down''"
  shows "\<exists>target sg want pn e. evaluate_app c env (Autoscale app) now = Want target sg want pn \<and>
    mget (ls_scaleDown s) (app_ID app) = Some e \<and> sd_want e = want \<and>
    mget (ls_policyHash s) (app_ID app) = Some (autoscalePolicyHash fmt_float (Autoscale app)) \<and>
    ap_ScaleDownDelaySec (Autoscale app) * second \<le> now - sd_since e \<and> \<not> sg_HasStaleNonzero sg \<and>
    want < app_DesiredReplicas app \<and> \<not> (want = 0 \<and> 0 < sg_TotalRPS sg)"
proof -
  let ?p = "Autoscale app"
  let ?s = "collectExpiredFreeze (app_ID app) now (checkPolicy fmt_float (app_ID app) ?p s)"
  have down: "\<exists>e. mget (ls_scaleDown s') (app_ID app) = Some e \<and> sd_want e = want \<and> ap_ScaleDownDelaySec p * second \<le> now - sd_since e \<and>
      \<not> sg_HasStaleNonzero sg \<and> want < app_DesiredReplicas app \<and> \<not> (want = 0 \<and> 0 < sg_TotalRPS sg)"
    if "oc_metric (apply_want env app target p sg want pn now s' t) = Some ''scale_down''" for target p sg want pn s'
    using that unfolding apply_want_def scaleDownElapsed_def write_replicas_def
    by (auto simp: Let_def split: prod.splits option.splits sum.splits if_splits)
  have no_hold: "metric \<noteq> ''scale_down''" if "evaluate_app c env ?p now = Hold metric clears" for metric clears
    using that by (auto simp: evaluate_app_def Let_def split: sum.splits option.splits if_splits prod.splits)
  from assms no_hold obtain target sg want pn where w: "evaluate_app c env ?p now = Want target sg want pn"
    and r: "oc_metric (freeze_gate env app target ?p sg want pn now ?s t) = Some ''scale_down''"
    by (auto simp: reconcileAutoscaleApp_def Let_def split: verdict.splits if_splits)
  have "oc_metric (apply_want env app target ?p sg want pn now ?s t) = Some ''scale_down'' \<or>
      oc_metric (apply_want env app target ?p sg want pn now (clearFreeze (app_ID app) ?s) t) = Some ''scale_down''"
    using r by (auto simp: freeze_gate_def Let_def split_beta split: if_splits)
  then have "\<exists>s'. ls_scaleDown s' = ls_scaleDown ?s \<and> oc_metric (apply_want env app target ?p sg want pn now s' t) = Some ''scale_down''"
    by (metis scaleDown_ops(3))
  with down obtain e where e: "mget (ls_scaleDown ?s) (app_ID app) = Some e" "sd_want e = want" "ap_ScaleDownDelaySec ?p * second \<le> now - sd_since e"
      "\<not> sg_HasStaleNonzero sg" "want < app_DesiredReplicas app" "\<not> (want = 0 \<and> 0 < sg_TotalRPS sg)" by metis
  then show ?thesis using w by (auto simp: checkPolicy_entry split: if_splits)
qed

text \<open>
  Claim C33. Scaling down is slow: when a pass reduces the replica count, then an earlier pass over the application at least the
  policy's delay ago wanted the same number of replicas, and in between every pass, under the same policy fingerprint,
  again wanted exactly this number on a signal without stale load -- or was one of two kinds of pass that do not
  end the window although their comment says so: the target deployment could not be read, or the write of a larger count
  failed. Passes over other applications, notes of the dispatch workers and purges do not shorten the window.
\<close>

theorem scale_down_after_stable_window:
  assumes "oc_metric (reconcileAutoscaleApp c fmt_float env app now (loop_run c fmt_float ops) t) = Some ''scale_down''"
  shows "\<exists>target sg want pn since. evaluate_app c env (Autoscale app) now = Want target sg want pn \<and>
    want < app_DesiredReplicas app \<and> ap_ScaleDownDelaySec (Autoscale app) * second \<le> now - since \<and>
    window_at c fmt_float ops (app_ID app) want since (autoscalePolicyHash fmt_float (Autoscale app))"
proof -
  from scale_down_entry [OF assms] obtain target sg want pn e where e:
    "evaluate_app c env (Autoscale app) now = Want target sg want pn" "mget (ls_scaleDown (loop_run c fmt_float ops)) (app_ID app) = Some e"
    "sd_want e = want" "mget (ls_policyHash (loop_run c fmt_float ops)) (app_ID app) = Some (autoscalePolicyHash fmt_float (Autoscale app))"
    "ap_ScaleDownDelaySec (Autoscale app) * second \<le> now - sd_since e" "want < app_DesiredReplicas app" by blast
  from loop_run_inv [of c fmt_float ops] e(2-4)
  have "window_at c fmt_float ops (app_ID app) want (sd_since e) (autoscalePolicyHash fmt_float (Autoscale app))"
    unfolding loop_inv_def by force
  with e show ?thesis by blast
qed

definition idle_env :: "int \<Rightarrow> app_env" where
  "idle_env ms = example_env\<lparr>en_decode := (\<lambda>_. Some \<lparr>ss_EWMA = 0, ss_RPS = 0, ss_HardRejected = 0, ss_Unserved = 0, ss_TsMs = ms, ss_WinMs = 0\<rparr>)\<rparr>"

text \<open>An idle pass, then only passes during an outage of the database, then a second idle pass two minutes later.\<close>

definition outage_ops :: "loop_op list" where
  "outage_ops = [Tick (idle_env 0) example_app 0 [(''a'', example_app)],
     Tick (example_env\<lparr>en_target := Inl ''down''\<rparr>) example_app (60 * second) [(''a'', example_app)]]"

lemma outage_scales_down:
  "oc_metric (reconcileAutoscaleApp example_config (\<lambda>_. ''f'') (idle_env 120000) example_app (120 * second)
     (loop_run example_config (\<lambda>_. ''f'') outage_ops) [(''a'', example_app)]) = Some ''scale_down''"
  by code_simp

theorem scale_down_after_stable_window_witness:
  "\<exists>target sg want pn since. evaluate_app example_config (idle_env 120000) (Autoscale example_app) (120 * second) = Want target sg want pn \<and>
    want < 5 \<and> ap_ScaleDownDelaySec (Autoscale example_app) * second \<le> 120 * second - since \<and>
    window_at example_config (\<lambda>_. ''f'') outage_ops ''a'' want since (autoscalePolicyHash (\<lambda>_. ''f'') (Autoscale example_app))"
  using scale_down_after_stable_window [OF outage_scales_down] by (simp add: example_app_def)

section \<open>Scaling to zero\<close>

text \<open>The signal sums no negative loads.\<close>

definition sample_nonneg :: "SignalSample \<Rightarrow> bool" where
  "sample_nonneg s \<longleftrightarrow> 0 \<le> ss_EWMA s \<and> 0 \<le> ss_RPS s \<and> 0 \<le> ss_HardRejected s \<and> 0 \<le> ss_Unserved s"

definition samples :: "(string \<Rightarrow> SignalSample option) \<Rightarrow> string list \<Rightarrow> SignalSample list" where
  "samples decode raws = List.map_filter decode raws"

definition agg :: "int \<Rightarrow> SignalSample list \<Rightarrow> AutoscaleSignal \<times> int \<times> int \<Rightarrow> AutoscaleSignal \<times> int \<times> int" where
  "agg now ss acc = fold (\<lambda>s. aggregate_field (\<lambda>_. Some s) now []) ss acc"

lemma fold_aggregate: "fold (aggregate_field decode now) raws acc = agg now (samples decode raws) acc"
  by (induction raws arbitrary: acc)
    (simp_all add: agg_def samples_def List.map_filter_simps aggregate_field_def split: option.splits prod.splits)

lemma wrap64_id: "- (2 ^ 63) \<le> x \<Longrightarrow> x < 2 ^ 63 \<Longrightarrow> wrap64 x = x"
  by (simp add: wrap64_def)


definition fresh :: "int \<Rightarrow> SignalSample list \<Rightarrow> SignalSample list" where
  "fresh now ss = filter (\<lambda>s. autoscaleSampleFresh (ss_TsMs s) now) ss"

text \<open>The aggregation in closed form.\<close>

lemma agg_closed:
  "sg_Served (fst (agg now ss acc)) = fold (\<lambda>x a. fadd a x) (map ss_EWMA (fresh now ss)) (sg_Served (fst acc))"
  "sg_TotalRPS (fst (agg now ss acc)) = fold (\<lambda>x a. fadd a x) (map ss_RPS (fresh now ss)) (sg_TotalRPS (fst acc))"
  "fst (snd (agg now ss acc)) = fold (\<lambda>x a. wrap64 (a + x)) (map ss_Unserved (fresh now ss)) (fst (snd acc))"
  "sg_PanicReject (fst (agg now ss acc)) \<longleftrightarrow> sg_PanicReject (fst acc) \<or> (\<exists>s \<in> set (fresh now ss). 0 < ss_HardRejected s)"
  "sg_HasFresh (fst (agg now ss acc)) \<longleftrightarrow> sg_HasFresh (fst acc) \<or> fresh now ss \<noteq> []"
  "sg_HasStaleNonzero (fst (agg now ss acc)) \<longleftrightarrow> sg_HasStaleNonzero (fst acc) \<or> (\<exists>s \<in> set ss. s \<notin> set (fresh now ss) \<and> sample_nonzero s)"
  by (induction ss arbitrary: acc) (auto simp: agg_def aggregate_field_def fresh_def split: prod.splits)

lemma fold_wrap64:
  "\<forall>x \<in> set xs. 0 \<le> x \<Longrightarrow> 0 \<le> a \<Longrightarrow> a + sum_list xs < 2 ^ 63 \<Longrightarrow> fold (\<lambda>x a. wrap64 (a + x)) xs a = a + sum_list xs"
proof (induction xs arbitrary: a)
  case (Cons x xs)
  have "0 \<le> sum_list xs" using Cons.prems(1) by (intro sum_list_nonneg) simp
  then have "wrap64 (a + x) = a + x" using Cons.prems by (intro wrap64_id) auto
  then show ?case using Cons.IH [of "a + x"] Cons.prems by simp
qed simp

lemma fadd_nonneg: "0 \<le> a \<Longrightarrow> 0 \<le> b \<Longrightarrow> 0 \<le> fadd a b"
  by (simp add: fadd_def)

lemma fadd_pos: "0 \<le> a \<Longrightarrow> 0 \<le> b \<Longrightarrow> 0 < a \<or> 0 < b \<Longrightarrow> 0 < fadd a b"
  unfolding fadd_def by (rule fl64_positive) linarith

lemma fold_fadd:
  assumes "\<forall>x \<in> set xs. 0 \<le> x" "0 \<le> a"
  shows "0 \<le> fold (\<lambda>x a. fadd a x) xs a" "0 < a \<or> (\<exists>x \<in> set xs. 0 < x) \<Longrightarrow> 0 < fold (\<lambda>x a. fadd a x) xs a"
  using assms
proof (induction xs arbitrary: a)
  case (Cons x xs)
  { case 1 then show ?case using Cons.IH(1) [of "fadd a x"] by (simp add: fadd_nonneg) }
  { case 2
    then have "0 < fadd a x \<or> (\<exists>y \<in> set xs. 0 < y)" using fadd_pos [of a x] by auto
    then show ?case using 2 Cons.IH(2) [of "fadd a x"] by (simp add: fadd_nonneg) }
qed simp_all

lemma unserved_float:
  assumes "0 \<le> n" "1 \<le> target"
  shows "0 \<le> \<lceil>fdiv (float_of_int n) (float_of_int target)\<rceil>" "0 < n \<Longrightarrow> 0 < \<lceil>fdiv (float_of_int n) (float_of_int target)\<rceil>"
proof -
  have t: "0 < float_of_int target" using assms(2) by (simp add: float_of_int_def fl64_positive)
  have n: "0 \<le> float_of_int n" using assms(1) by (simp add: float_of_int_def)
  have "0 \<le> fdiv (float_of_int n) (float_of_int target)" using t n by (simp add: fdiv_def)
  then show "0 \<le> \<lceil>fdiv (float_of_int n) (float_of_int target)\<rceil>" by linarith
  show "0 < \<lceil>fdiv (float_of_int n) (float_of_int target)\<rceil>" if "0 < n"
  proof -
    have "0 < float_of_int n" using that by (simp add: float_of_int_def fl64_positive)
    with t have "0 < fdiv (float_of_int n) (float_of_int target)" by (simp add: fdiv_def fl64_positive)
    then show ?thesis by linarith
  qed
qed

text \<open>What the signal of a set of fields says about its samples.\<close>

lemma aggregate_closed:
  assumes "1 \<le> target" "ss = samples decode (map snd fs)" "sg = aggregateAutoscaleSignal decode [fs] target now"
  shows "sg_Served sg = fold (\<lambda>x a. fadd a x) (map ss_EWMA (fresh now ss)) 0"
    "sg_TotalRPS sg = fold (\<lambda>x a. fadd a x) (map ss_RPS (fresh now ss)) 0"
    "sg_Unserved sg = of_int \<lceil>fdiv (float_of_int (fold (\<lambda>x a. wrap64 (a + x)) (map ss_Unserved (fresh now ss)) 0)) (float_of_int target)\<rceil>"
    "sg_PanicReject sg \<longleftrightarrow> (\<exists>s \<in> set (fresh now ss). 0 < ss_HardRejected s)"
    "sg_HasFresh sg \<longleftrightarrow> fresh now ss \<noteq> []"
    "sg_HasStaleNonzero sg \<longleftrightarrow> (\<exists>s \<in> set ss. s \<notin> set (fresh now ss) \<and> sample_nonzero s)"
proof -
  have "\<And>acc. finish_signal target acc = (fst acc)\<lparr>sg_Unserved := of_int \<lceil>fdiv (float_of_int (fst (snd acc))) (float_of_int target)\<rceil>,
      sg_WindowSec := (if fdiv (float_of_int (snd (snd acc))) 1000 \<le> 0 then 10 else fdiv (float_of_int (snd (snd acc))) 1000)\<rparr>"
    by (simp add: finish_signal_def Let_def split: prod.splits)
  moreover have "sg = finish_signal target (agg now ss (no_signal, 0, 0))"
    using assms by (simp add: aggregateAutoscaleSignal_def fold_aggregate)
  ultimately show "sg_Served sg = fold (\<lambda>x a. fadd a x) (map ss_EWMA (fresh now ss)) 0"
    "sg_TotalRPS sg = fold (\<lambda>x a. fadd a x) (map ss_RPS (fresh now ss)) 0"
    "sg_Unserved sg = of_int \<lceil>fdiv (float_of_int (fold (\<lambda>x a. wrap64 (a + x)) (map ss_Unserved (fresh now ss)) 0)) (float_of_int target)\<rceil>"
    "sg_PanicReject sg \<longleftrightarrow> (\<exists>s \<in> set (fresh now ss). 0 < ss_HardRejected s)"
    "sg_HasFresh sg \<longleftrightarrow> fresh now ss \<noteq> []"
    "sg_HasStaleNonzero sg \<longleftrightarrow> (\<exists>s \<in> set ss. s \<notin> set (fresh now ss) \<and> sample_nonzero s)"
    by (simp_all add: agg_closed no_signal_def)
qed

text \<open>Samples as the edges report them: no negative values, and no overflow of their sum.\<close>

definition plausible :: "SignalSample list \<Rightarrow> bool" where
  "plausible ss \<longleftrightarrow> (\<forall>s \<in> set ss. sample_nonneg s) \<and> sum_list (map ss_Unserved ss) < 2 ^ 63"

lemma plausible_fresh:
  assumes "plausible ss"
  shows "\<forall>s \<in> set (fresh now ss). sample_nonneg s" "sum_list (map ss_Unserved (fresh now ss)) < 2 ^ 63"
proof -
  show "\<forall>s \<in> set (fresh now ss). sample_nonneg s" using assms by (auto simp: plausible_def fresh_def)
  have "sum_list (map ss_Unserved (fresh now xs)) \<le> sum_list (map ss_Unserved xs)" if "\<forall>s \<in> set xs. sample_nonneg s" for xs
    using that by (induction xs) (auto simp: fresh_def sample_nonneg_def)
  from this [of ss] show "sum_list (map ss_Unserved (fresh now ss)) < 2 ^ 63" using assms by (simp add: plausible_def)
qed

lemma load_nonneg:
  assumes "plausible ss" "1 \<le> target" "ss = samples decode (map snd fs)" "sg = aggregateAutoscaleSignal decode [fs] target now"
  shows "0 \<le> sg_Served sg" "0 \<le> sg_Unserved sg" "0 \<le> sig_load sg"
    "s \<in> set (fresh now ss) \<Longrightarrow> 0 < ss_EWMA s \<or> 0 < ss_Unserved s \<Longrightarrow> 0 < sig_load sg"
    "s \<in> set (fresh now ss) \<Longrightarrow> 0 < ss_RPS s \<Longrightarrow> 0 < sg_TotalRPS sg"
proof -
  note closed = aggregate_closed [OF assms(2-4)]
  note f = plausible_fresh [OF assms(1), of now]
  have nn: "\<forall>x \<in> set (map ss_EWMA (fresh now ss)). 0 \<le> x" "\<forall>x \<in> set (map ss_RPS (fresh now ss)). 0 \<le> x"
    "\<forall>x \<in> set (map ss_Unserved (fresh now ss)). 0 \<le> x" using f(1) by (simp_all add: sample_nonneg_def)
  define n where "n = sum_list (map ss_Unserved (fresh now ss))"
  have n: "0 \<le> n" unfolding n_def using nn(3) by (intro sum_list_nonneg) blast
  have un: "sg_Unserved sg = of_int \<lceil>fdiv (float_of_int n) (float_of_int target)\<rceil>"
    unfolding closed(3) using fold_wrap64 [OF nn(3), of 0] f(2) by (simp add: n_def)
  show served: "0 \<le> sg_Served sg" unfolding closed(1) by (rule fold_fadd(1) [OF nn(1)]) simp
  show unserved: "0 \<le> sg_Unserved sg" unfolding un using unserved_float(1) [OF n assms(2)] by simp
  show "0 \<le> sig_load sg" unfolding sig_load_def using served unserved by (rule fadd_nonneg)
  show "0 < sig_load sg" if s: "s \<in> set (fresh now ss)" "0 < ss_EWMA s \<or> 0 < ss_Unserved s"
  proof -
    have "0 < sg_Served sg" if "0 < ss_EWMA s" unfolding closed(1) using that s(1) by (intro fold_fadd(2) [OF nn(1)]) auto
    moreover have "0 < sg_Unserved sg" if "0 < ss_Unserved s"
    proof -
      have "ss_Unserved s \<le> n" unfolding n_def using s(1) nn(3) by (intro member_le_sum_list) auto
      then show ?thesis unfolding un using unserved_float(2) [OF n assms(2)] that by simp
    qed
    ultimately show ?thesis unfolding sig_load_def using s(2) by (intro fadd_pos [OF served unserved]) blast
  qed
  show "0 < sg_TotalRPS sg" if "s \<in> set (fresh now ss)" "0 < ss_RPS s"
    unfolding closed(2) using that by (intro fold_fadd(2) [OF nn(2)]) auto
qed

lemma ceilDiv_pos: "0 < a \<Longrightarrow> 1 \<le> b \<Longrightarrow> 1 \<le> ceilDiv a b"
  using zdiv_mono1 [of b "a + b - 1" b] by (simp add: ceilDiv_def signed_divide_int_def)

lemma fold_max_ge: "(a :: int) \<le> fold max xs a"
  by (induction xs arbitrary: a) (auto intro: order_trans [OF max.cobounded2])

lemma max_want_ge: "want_concurrency p sg \<le> max_want (by_dimension p sg eff ex)"
proof -
  obtain ds where "by_dimension p sg eff ex = (''concurrency'', want_concurrency p sg) # ds"
    unfolding by_dimension_def by (metis append_Cons append_Nil)
  then show ?thesis unfolding max_want_def fold_max by (simp only: list.sel snd_conv fold_max_ge)
qed

text \<open>Load or panic keeps at least one replica.\<close>

lemma want_positive:
  assumes "policy_ok p" "0 < sig_load sg \<or> panicking p sg (ready + warming)"
  shows "1 \<le> fst (computeAutoscaleWantMulti p sg ready warming ex)"
proof -
  have mx: "1 \<le> ap_MaxReplicas p" "1 \<le> ap_TargetConcurrency p" using assms(1) by (simp_all add: policy_ok_def)
  have "1 \<le> clamp_want p (max_want (by_dimension p sg (ready + warming) ex))" if "0 < sig_load sg"
  proof -
    have "0 < \<lceil>sig_load sg\<rceil>" using that by linarith
    then have "1 \<le> want_concurrency p sg" unfolding want_concurrency_def using mx(2) by (rule ceilDiv_pos)
    with max_want_ge [of p sg "ready + warming" ex] mx(1) show ?thesis by (simp add: clamp_want_eq)
  qed
  moreover have "1 \<le> boost p (want_concurrency p sg) (ready + warming)" if "panicking p sg (ready + warming)"
    using that mx(1) unfolding boost_eq panicking_def by linarith
  ultimately show ?thesis using assms(2) by (auto simp: multi_want Let_def)
qed

text \<open>
  An application is scaled to zero only when nobody uses it: in a pass that decides for zero replicas and scales down, every
  sample reported by any edge, fresh or stale, shows no concurrency, no requests and no unserved
  requests, provided the edges report no negative numbers.
\<close>

lemma scale_to_zero_only_idle:
  assumes "oc_metric (reconcileAutoscaleApp c fmt_float env app now st t) = Some ''scale_down''"
    "evaluate_app c env (Autoscale app) now = Want target sg 0 pn" "en_fields env = Inr fs"
    "plausible (samples (en_decode env) (map snd fs))" "s \<in> set (samples (en_decode env) (map snd fs))"
  shows "ss_EWMA s = 0 \<and> ss_RPS s = 0 \<and> ss_Unserved s = 0"
proof -
  let ?p = "Autoscale app" and ?ss = "samples (en_decode env) (map snd fs)"
  from scale_down_entry [OF assms(1)] assms(2) have d: "\<not> sg_HasStaleNonzero sg" "\<not> 0 < sg_TotalRPS sg" by auto
  obtain fs' ready warming ex where e: "en_fields env = Inr fs'" "sg = aggregateAutoscaleSignal (en_decode env) [fs'] (ap_TargetConcurrency ?p) now"
    "0 = fst (computeAutoscaleWantMulti ?p sg ready warming ex)" using assms(2) by (rule evaluate_app_Want) blast
  with assms(3) have sg: "sg = aggregateAutoscaleSignal (en_decode env) [fs] (ap_TargetConcurrency ?p) now" by simp
  have tc: "1 \<le> ap_TargetConcurrency ?p" using Autoscale_ok [of app] by (simp add: policy_ok_def)
  have "\<not> 0 < sig_load sg" using want_positive [OF Autoscale_ok, of sg app ready warming ex] e(3) by auto
  moreover note load = load_nonneg(4,5) [OF assms(4) tc refl sg, of s]
  moreover have "sample_nonneg s" using assms(4,5) by (simp add: plausible_def)
  moreover have "\<not> sample_nonzero s" if "s \<notin> set (fresh now ?ss)"
    using d(1) assms(5) that aggregate_closed(6) [OF tc refl sg] by blast
  ultimately show ?thesis using d(2) unfolding sample_nonneg_def sample_nonzero_def by force
qed

definition sleepy_app :: App where
  "sleepy_app = example_app\<lparr>app_policy := DefaultAutoscalePolicy\<lparr>ap_Enabled := True, ap_MinReplicas := 0\<rparr>\<rparr>"

definition sleepy_state :: autoscaleLoopState where
  "sleepy_state = oc_state (reconcileAutoscaleApp example_config (\<lambda>_. ''f'') (idle_env 0) sleepy_app 0 newAutoscaleLoopState [(''a'', sleepy_app)])"

lemma scale_to_zero_only_idle_witness:
  "(\<exists>s. s \<in> set (samples (en_decode (idle_env 120000)) [''idle'']) \<and> ss_EWMA s = 0 \<and> ss_RPS s = 0 \<and> ss_Unserved s = 0) \<and>
   map (app_DesiredReplicas \<circ> snd) (oc_apps (reconcileAutoscaleApp example_config (\<lambda>_. ''f'') (idle_env 120000) sleepy_app (120 * second) sleepy_state [(''a'', sleepy_app)])) = [0]"
proof -
  have down: "oc_metric (reconcileAutoscaleApp example_config (\<lambda>_. ''f'') (idle_env 120000) sleepy_app (120 * second) sleepy_state [(''a'', sleepy_app)]) = Some ''scale_down''"
    "map (app_DesiredReplicas \<circ> snd) (oc_apps (reconcileAutoscaleApp example_config (\<lambda>_. ''f'') (idle_env 120000) sleepy_app (120 * second) sleepy_state [(''a'', sleepy_app)])) = [0]"
    by code_simp+
  obtain target sg pn where "evaluate_app example_config (idle_env 120000) (Autoscale sleepy_app) (120 * second) = Want target sg 0 pn"
  proof -
    have "case evaluate_app example_config (idle_env 120000) (Autoscale sleepy_app) (120 * second) of Want target sg want pn \<Rightarrow> want = 0 | _ \<Rightarrow> False"
      by code_simp
    then show thesis using that by (auto split: verdict.splits)
  qed
  from scale_to_zero_only_idle [OF down(1) this, of "[(''edge'', ''idle'')]"] down(2)
  show ?thesis by (simp add: idle_env_def example_env_def samples_def List.map_filter_simps plausible_def sample_nonneg_def)
qed

end
