(* ===== verification/ColdStart.thy ===== *)
theory ColdStart
  imports AutoscaleTracker Autoscaler
begin

text \<open>
  The two halves of autoscaling together: what an edge counts and reports, the field it leaves in Redis, and what the
  control plane decides when it reads the field.
\<close>

lemma AutoscaleKey_inject [simp]: "AutoscaleKey a = AutoscaleKey b \<longleftrightarrow> a = b"
  by (simp add: AutoscaleKey_def)

lemma report_sample_key:
  "mget (snd (report_sample encode refused now (h, s) (r, db))) (AutoscaleKey k) =
     (if k = h \<and> \<not> refused h
      then Some (mset_at (rp_edgeID r) (encode s) (case mget db (AutoscaleKey h) of Some (fs, _) \<Rightarrow> fs | None \<Rightarrow> []), now + rp_ttl r)
      else mget db (AutoscaleKey k))"
  "rp_edgeID (fst (report_sample encode refused now (h, s) (r, db))) = rp_edgeID r"
  by (auto simp: report_sample_def autoscaleReportLua_def Let_def)

text \<open>After a report the edge's field of a host holds the encoding of the sample.\<close>

lemma fold_report_field:
  assumes "gomap_ok out" "mget out h = Some s" "\<not> refused h" "fold (report_sample encode refused now) out (r, db) = (r', db')"
  shows "\<exists>fs x. mget db' (AutoscaleKey h) = Some (fs, x) \<and> mget fs (rp_edgeID r) = Some (encode s)"
  using assms
proof (induction out arbitrary: r db)
  case (Cons a out)
  obtain k v where a: "a = (k, v)" by (cases a)
  obtain r1 db1 where step: "report_sample encode refused now (k, v) (r, db) = (r1, db1)" by fastforce
  have r1: "rp_edgeID r1 = rp_edgeID r" using report_sample_key(2) [of encode refused now k v r db] step by simp
  have run: "fold (report_sample encode refused now) out (r1, db1) = (r', db')" using Cons.prems(4) by (simp add: a step)
  show ?case
  proof (cases "k = h")
    case True
    have other: "h \<notin> fst ` set out" using Cons.prems(1) True by (simp add: a gomap_ok_def)
    have same: "mget (snd (fold (report_sample encode refused now) ps (q, d))) (AutoscaleKey h) = mget d (AutoscaleKey h)"
      if "h \<notin> fst ` set ps" for ps q d
      using that
    proof (induction ps arbitrary: q d)
      case (Cons p ps)
      obtain q1 d1 where p: "report_sample encode refused now p (q, d) = (q1, d1)" by fastforce
      with report_sample_key(1) [of encode refused now "fst p" "snd p" q d h] Cons show ?case by simp
    qed simp
    from same [OF other, of r1 db1] run have "mget db' (AutoscaleKey h) = mget db1 (AutoscaleKey h)" by simp
    with report_sample_key(1) [of encode refused now k v r db h] step True Cons.prems(2,3) show ?thesis by (simp add: a)
  next
    case False
    with Cons.prems have "gomap_ok out" "mget out h = Some s" by (simp_all add: a gomap_ok_def)
    from Cons.IH [OF this Cons.prems(3) run] show ?thesis by (simp add: r1)
  qed
qed simp

lemma gomap_ok_snapshot: "gomap_ok (fst (snapshotForReport now t))"
proof -
  have "gomap_ok (fst (fold (report_host now) hs acc))" if "gomap_ok (fst acc)" for hs acc
    using that by (induction hs arbitrary: acc) (auto simp: report_host_def Let_def split: prod.splits option.splits)
  then show ?thesis by (simp add: snapshotForReport_def)
qed

text \<open>The decision on a signal with unserved requests and no machines.\<close>

lemma cold_decision:
  assumes "policy_ok p" "en_target env = Inr (Some d)" "en_rollout env = Inr False" "en_machines env = Inr []" "en_fields env = Inr fs"
    "plausible (samples (en_decode env) (map snd fs))" "s \<in> set (fresh now (samples (en_decode env) (map snd fs)))" "0 < ss_Unserved s"
  obtains sg want pn where "evaluate_app c env p now = Want d sg want pn" "1 \<le> want"
proof -
  define sg where "sg = aggregateAutoscaleSignal (en_decode env) [fs] (ap_TargetConcurrency p) now"
  have tc: "1 \<le> ap_TargetConcurrency p" using assms(1) by (simp add: policy_ok_def)
  have fresh: "sg_HasFresh sg" using aggregate_closed(5) [OF tc refl sg_def] assms(7) by auto
  have load: "0 < sig_load sg" using load_nonneg(4) [OF assms(6) tc refl sg_def assms(7)] assms(8) by blast
  have ex: "fetchExtraSignals (en_prometheus env) (en_cpu env) (en_custom env) p sg 0 = Inr (rps_signal p sg)"
    by (simp add: fetchExtraSignals_def Let_def)
  have "1 \<le> fst (computeAutoscaleWantMulti p sg 0 0 (rps_signal p sg))" using want_positive [OF assms(1), of sg 0 0] load by simp
  moreover obtain want pn dims where m: "computeAutoscaleWantMulti p sg 0 0 (rps_signal p sg) = (want, pn, dims)" by (metis prod_cases3)
  moreover have "evaluate_app c env p now = Want d sg want pn"
    using assms(2-5) fresh ex m by (simp add: evaluate_app_def sg_def [symmetric] Let_def)
  ultimately show thesis using that by simp
qed

lemma scale_up_writes:
  assumes "evaluate_app c env (Autoscale app) now = Want d sg want pn" "ap_Enabled (app_policy app)" "\<not> app_Deleted app"
    "app_DesiredReplicas app < want" "\<not> frozen (app_ID app) now s" "en_write_fault env = None" "mget t (app_ID app) = Some app"
  shows "mget (oc_apps (reconcileAutoscaleApp c fmt_float env app now s t)) (app_ID app) = Some (app\<lparr>app_DesiredReplicas := want, app_UpdatedAt := now\<rparr>)"
proof -
  have fr: "\<not> frozen (app_ID app) now (collectExpiredFreeze (app_ID app) now (checkPolicy fmt_float (app_ID app) (Autoscale app) s))"
    using assms(5) by (auto simp: frozen_def collectExpiredFreeze_def checkPolicy_def Let_def split: option.splits)
  have up: "mget (oc_apps (apply_want env app d p sg want pn now s' t)) (app_ID app) = Some (app\<lparr>app_DesiredReplicas := want, app_UpdatedAt := now\<rparr>)" for p s'
    using assms by (simp add: apply_want_def write_replicas_def SetAppReplicasCAS_def update_app_def Let_def)
  show ?thesis using assms(1-3) fr up by (simp add: reconcileAutoscaleApp_def freeze_gate_def Autoscale_def Let_def)
qed

text \<open>
  Claim C31. Cold start: when an edge turned away a request for an application without machines and has made at most one report since, its next
  report makes the control plane start the application. The conditions: between the request and the report the edge's table did not
  evict the host's counters; the edge has an identity and the report's write for the host succeeds; the sample it wrote can be decoded again, is still
  fresh when the pass reads the fields of the host, and no edge reports negative figures; the application is not deleted, is at zero
  replicas in the table, autoscales, and scaling up is not frozen; its target deployment and its machines can be read, it has no machine and no active
  rollout, and the pass's write does not fail. Then the pass raises the replica count from zero to at least one and at most the policy's maximum, whatever else
  the edge counted before, for whatever number of hosts, and with whatever smoothing factor.
\<close>

theorem cold_start_scales_up:
  assumes "t0 = tracker_run (OUnserved h # earlier) (setAlpha a (NewAutoscaleTracker n))"
    "resident h later t0" "length (filter is_report later) \<le> 1" "rp_edgeID r \<noteq> ''''" "\<not> refused h"
    "Report encode refused reported (r, tracker_run later t0, db) = (r', tr', db')"
    "\<And>s. mget (fst (snapshotForReport reported (tracker_run later t0))) h = Some s \<Longrightarrow> en_decode env (encode s) = Some s"
    "mget db' (AutoscaleKey h) = Some (fs, x)" "en_fields env = Inr fs" "plausible (samples (en_decode env) (map snd fs))"
    "autoscaleSampleFresh (reported div 1000000) now"
    "en_target env = Inr (Some d)" "en_rollout env = Inr False" "en_machines env = Inr []" "en_write_fault env = None"
    "ap_Enabled (app_policy app)" "\<not> app_Deleted app" "app_DesiredReplicas app = 0" "mget t (app_ID app) = Some app"
    "\<not> frozen (app_ID app) now st"
  shows "\<exists>b. mget (oc_apps (reconcileAutoscaleApp c fmt_float env app now st t)) (app_ID app) = Some b \<and>
    1 \<le> app_DesiredReplicas b \<and> app_DesiredReplicas b \<le> ap_MaxReplicas (Autoscale app)"
proof -
  let ?t = "tracker_run later t0"
  from report_shows_unserved [OF assms(1-3), of reported] obtain s where s: "mget (fst (snapshotForReport reported ?t)) h = Some s"
    "0 < ss_Unserved s" "ss_TsMs s = reported div 1000000" by blast
  have "fold (report_sample encode refused reported) (fst (snapshotForReport reported ?t)) (r, db) = (r', db')"
    using assms(4,6) by (simp add: Report_def split: prod.splits)
  from fold_report_field [OF gomap_ok_snapshot s(1) assms(5) this] assms(8) have "mget fs (rp_edgeID r) = Some (encode s)" by auto
  then have "encode s \<in> set (map snd fs)" by (force dest: map_of_SomeD)
  with assms(7) [OF s(1)] have "s \<in> set (samples (en_decode env) (map snd fs))"
    by (force simp: samples_def List.map_filter_def)
  then have "s \<in> set (fresh now (samples (en_decode env) (map snd fs)))" using assms(11) s(3) by (simp add: fresh_def)
  from cold_decision [OF Autoscale_ok assms(12-14,9,10) this s(2)] obtain sg want pn where
    w: "evaluate_app c env (Autoscale app) now = Want d sg want pn" "1 \<le> want" by blast
  with scale_up_writes [OF w(1) assms(16,17) _ assms(20,15,19), of fmt_float] assms(18) evaluate_app_bounds [OF w(1) Autoscale_ok]
  show ?thesis by simp
qed

text \<open>One turned-away request at one edge wakes a sleeping application.\<close>

definition cold_sample :: SignalSample where
  "cold_sample = \<lparr>ss_EWMA = 0, ss_RPS = 0, ss_HardRejected = 0, ss_Unserved = 1, ss_TsMs = 0, ss_WinMs = 10000\<rparr>"

definition cold_env :: app_env where
  "cold_env = example_env\<lparr>en_fields := Inr [(''edge'', ''sample'')], en_decode := (\<lambda>_. Some cold_sample)\<rparr>"

definition cold_app :: App where
  "cold_app = example_app\<lparr>app_DesiredReplicas := 0\<rparr>"

definition cold_reporter :: AutoscaleReporter where
  "cold_reporter = \<lparr>rp_edgeID = ''edge'', rp_interval = 5000000000, rp_ttl = 20000000000, rp_reports = 0, rp_reportErrors = 0\<rparr>"

text \<open>The edge's table has room for one host, so the request evicts the counters of another one.\<close>

definition cold_tracker :: AutoscaleTracker where
  "cold_tracker = tracker_run [OUnserved ''a.test'', OReport 0, OUnserved ''b.test''] (setAlpha ewmaAlpha (NewAutoscaleTracker 1))"

lemma cold_snapshot: "fst (snapshotForReport 0 (tracker_run [] cold_tracker)) = [(''a.test'', cold_sample)]"
  by code_simp

theorem cold_start_scales_up_witness:
  "\<exists>b. mget (oc_apps (reconcileAutoscaleApp example_config (\<lambda>_. ''f'') cold_env cold_app 0 newAutoscaleLoopState [(''a'', cold_app)])) ''a'' = Some b \<and>
    1 \<le> app_DesiredReplicas b \<and> app_DesiredReplicas b \<le> ap_MaxReplicas (Autoscale cold_app)"
proof -
  let ?t = "tracker_run [] cold_tracker"
  obtain r' tr' db' where rep: "Report (\<lambda>_. ''sample'') (\<lambda>_. False) 0 (cold_reporter, ?t, []) = (r', tr', db')" by (metis prod_cases3)
  have db': "db' = [(''autoscale:a.test'', [(''edge'', ''sample'')], 20000000000)]"
    using rep cold_snapshot
    by (auto simp: Report_def cold_reporter_def report_sample_def autoscaleReportLua_def AutoscaleKey_def split: prod.splits)
  have res: "resident ''a.test'' [] cold_tracker" by code_simp
  have "\<exists>b. mget (oc_apps (reconcileAutoscaleApp example_config (\<lambda>_. ''f'') cold_env cold_app 0 newAutoscaleLoopState [(''a'', cold_app)])) (app_ID cold_app) = Some b \<and>
    1 \<le> app_DesiredReplicas b \<and> app_DesiredReplicas b \<le> ap_MaxReplicas (Autoscale cold_app)"
    using rep cold_snapshot res
    by (intro cold_start_scales_up [where earlier = "[OReport 0, OUnserved ''b.test'']" and a = ewmaAlpha and n = 1 and later = "[]" and h = "''a.test''"
          and ?t0.0 = cold_tracker and r = cold_reporter and refused = "\<lambda>_. False"
          and encode = "\<lambda>_. ''sample''" and reported = 0 and db = "[]" and db' = db' and fs = "[(''edge'', ''sample'')]" and d = "''d''" and x = 20000000000])
      (simp_all add: cold_tracker_def [symmetric] cold_reporter_def db' AutoscaleKey_def cold_env_def example_env_def cold_app_def example_app_def
        DefaultAutoscalePolicy_def samples_def List.map_filter_simps plausible_def sample_nonneg_def cold_sample_def autoscaleSampleFresh_def
        autoscaleFreshPast_def autoscaleFreshFuture_def second_def newAutoscaleLoopState_def frozen_def)
  then show ?thesis by (simp add: cold_app_def example_app_def)
qed

end
