(* ===== verification/RouteCatalog.thy ===== *)
theory RouteCatalog
  imports GoStrings "HOL-Library.Multiset"
begin

text \<open>
  The Redis projections of \<open>internal/controlplane/catalog/catalog.go\<close>: the routes of a host with their
  index and revision high-water mark, the internal DNS records and the mesh addressing. Every command
  (a GET, a SET, a DEL, a SCAN, a Lua script) is atomic; an operation of several commands takes the
  number of each as the point where other writers may run or where Redis may not be reached.
  A stored value is kept decoded: what \<open>json.Marshal\<close> or \<open>cjson.encode\<close> wrote is a constructor of its
  own, any other text is \<open>TextV\<close>. Revisions and ports are numbers that Lua represents exactly
  (below 2^53, and below 10^14 for the ports in the keys it builds).
\<close>

named_theorems key_simps \<open>when two Redis keys are equal\<close>

section \<open>Data\<close>

record Backend =
  be_MachineID :: string
  be_ExecutionID :: string
  be_NodeProxyEndpoint :: string
  be_AppPort :: int
  be_Readiness :: string
  be_Weight :: int
  be_Draining :: bool
  be_ULA :: string
  be_IdentityID :: u32
  be_Generation :: int
  be_DeploymentGeneration :: int

record Route =
  rt_RouteGeneration :: int
  rt_Revision :: int
  rt_Backends :: "Backend list"

definition RouteRevision :: "Route option \<Rightarrow> int" where
  "RouteRevision r = (case r of None \<Rightarrow> 0 | Some r \<Rightarrow> rt_Revision r)"

record HostRoute =
  hr_Port :: int
  hr_Route :: Route

record InternalDNSRecord =
  dns_Name :: string
  dns_AAAA :: "string list"
  dns_Generation :: int

record MeshPeerRecord =
  mp_NodeID :: string
  mp_Pubkey :: string
  mp_Endpoint :: string
  mp_NodePrefix :: string
  mp_UpdatedAt :: int

record MeshEndpointRecord =
  me_MachineID :: string
  me_ExecutionID :: string
  me_NodeID :: string
  me_NodeULA :: string
  me_IngressPort :: int
  me_WorkloadULA :: string
  me_Generation :: int

datatype kv_value =
    RouteV Route
  | PortsV "int list"
  | TextV string
  | DnsV InternalDNSRecord
  | PeerV MeshPeerRecord
  | EndpointV MeshEndpointRecord

text \<open>The key space, each key with its value and the time it expires, if any.\<close>

type_synonym kv = "(string, kv_value \<times> int option) gomap"

definition kv_get :: "string \<Rightarrow> kv \<Rightarrow> kv_value option" where
  "kv_get k kv = map_option fst (mget kv k)"

definition kv_set :: "string \<Rightarrow> kv_value \<Rightarrow> kv \<Rightarrow> kv" where
  "kv_set k v kv = mset_at k (v, None) kv"

definition kv_setex :: "string \<Rightarrow> kv_value \<Rightarrow> int \<Rightarrow> kv \<Rightarrow> kv" where
  "kv_setex k v expires kv = mset_at k (v, Some expires) kv"

definition kv_del :: "string list \<Rightarrow> kv \<Rightarrow> kv" where
  "kv_del ks kv = fold mdel ks kv"

definition kv_scan :: "string \<Rightarrow> kv \<Rightarrow> string list" where
  "kv_scan prefix kv = filter (\<lambda>k. HasPrefix k prefix) (map fst kv)"

definition kv_expire :: "int \<Rightarrow> kv \<Rightarrow> kv" where
  "kv_expire now kv = mkeep (\<lambda>k (v, x). case x of None \<Rightarrow> True | Some t \<Rightarrow> now < t) kv"

datatype catalog_err =
    EmptyRouteSet string
  | InvalidPort string int
  | PrimaryNotDeclared string int
  | ErrUnreachable
  | ErrScript
  | BadHostIndex
  | BadRoute string
  | BadTTL
  | BadRecord string
  | BadValue string

section \<open>Keys\<close>

definition routeKey :: "string \<Rightarrow> int \<Rightarrow> string" where
  "routeKey hostname port = ''route:'' @ hostname @ '':'' @ fmt_int port"

definition hostIndexKey :: "string \<Rightarrow> string" where
  "hostIndexKey hostname = ''hostidx:'' @ hostname"

definition routeRevisionKey :: "string \<Rightarrow> string" where
  "routeRevisionKey hostname = ''routerev:'' @ hostname"

definition internalDNSKey :: "string \<Rightarrow> string" where
  "internalDNSKey name = ''dns:internal:'' @ TrimSuffix name ''.internal''"

definition meshPeerKey :: "string \<Rightarrow> string" where
  "meshPeerKey node = ''mesh:peer:'' @ node"

definition meshEndpointKey :: "string \<Rightarrow> string \<Rightarrow> string" where
  "meshEndpointKey machine execution = ''mesh:endpoint:'' @ machine @ '':'' @ execution"

section \<open>Publishing the routes of a host\<close>

text \<open>The loop over the routes: the first port that is not positive or was seen before.\<close>

fun bad_port :: "int list \<Rightarrow> HostRoute list \<Rightarrow> int option" where
  "bad_port seen [] = None"
| "bad_port seen (item # rest) =
     (if hr_Port item \<le> 0 \<or> hr_Port item \<in> set seen then Some (hr_Port item)
      else bad_port (hr_Port item # seen) rest)"

text \<open>The ports an index value names for the script; text that is no number names none.\<close>

definition lua_old_ports :: "kv_value \<Rightarrow> int list" where
  "lua_old_ports v =
     (case v of PortsV ps \<Rightarrow> ps | TextV s \<Rightarrow> (case signed_val s of Some p \<Rightarrow> [p] | None \<Rightarrow> []) | _ \<Rightarrow> [])"

definition stamped :: "int \<Rightarrow> HostRoute \<Rightarrow> Route" where
  "stamped revision item = (hr_Route item)\<lparr>rt_Revision := revision\<rparr>"

definition index_order :: "int \<Rightarrow> HostRoute list \<Rightarrow> int list" where
  "index_order primary items = primary # filter (\<lambda>p. p \<noteq> primary) (map hr_Port items)"

definition high_water :: "string \<Rightarrow> kv \<Rightarrow> int option" where
  "high_water hostname kv =
     (case kv_get (routeRevisionKey hostname) kv of
        None \<Rightarrow> Some 0
      | Some (TextV s) \<Rightarrow> signed_val s
      | Some _ \<Rightarrow> None)"

definition write_routes :: "string \<Rightarrow> int \<Rightarrow> HostRoute list \<Rightarrow> kv \<Rightarrow> kv" where
  "write_routes hostname revision items kv =
     fold (\<lambda>item. kv_set (routeKey hostname (hr_Port item)) (RouteV (stamped revision item))) items kv"

definition drop_routes :: "string \<Rightarrow> int list \<Rightarrow> int list \<Rightarrow> kv \<Rightarrow> kv" where
  "drop_routes hostname wanted old kv =
     kv_del (map (routeKey hostname) (filter (\<lambda>p. p \<notin> set wanted) old)) kv"

definition replaceHostRoutes :: "string \<Rightarrow> int \<Rightarrow> int \<Rightarrow> HostRoute list \<Rightarrow> kv \<Rightarrow> (catalog_err + int) \<times> kv" where
  "replaceHostRoutes hostname primary revision items kv =
     (case high_water hostname kv of
        None \<Rightarrow> (Inl ErrScript, kv)
      | Some current \<Rightarrow>
          if revision \<le> current then (Inr 0, kv)
          else
            (let kv1 = write_routes hostname revision items kv;
                 kv2 = (case kv_get (hostIndexKey hostname) kv1 of
                          None \<Rightarrow> kv1
                        | Some old \<Rightarrow> drop_routes hostname (map hr_Port items) (lua_old_ports old) kv1);
                 kv3 = kv_set (hostIndexKey hostname) (PortsV (index_order primary items)) kv2 in
             (Inr 1, kv_set (routeRevisionKey hostname) (TextV (fmt_int revision)) kv3)))"

definition ReplaceHostRoutes :: "bool \<Rightarrow> string \<Rightarrow> int \<Rightarrow> HostRoute list \<Rightarrow> int \<Rightarrow> (kv, catalog_err, bool) act" where
  "ReplaceHostRoutes down hostname revision routes primaryPort kv =
     (if routes = [] then (Inl (EmptyRouteSet hostname), kv)
      else case bad_port [] routes of
        Some p \<Rightarrow> (Inl (InvalidPort hostname p), kv)
      | None \<Rightarrow>
          if primaryPort \<le> 0 \<or> primaryPort \<notin> hr_Port ` set routes then (Inl (PrimaryNotDeclared hostname primaryPort), kv)
          else if down then (Inl ErrUnreachable, kv)
          else (case replaceHostRoutes hostname primaryPort revision routes kv of
                  (Inl e, kv') \<Rightarrow> (Inl e, kv')
                | (Inr n, kv') \<Rightarrow> (Inr (n = 1), kv')))"

section \<open>Reading the routes of a host\<close>

definition parsePorts :: "kv_value \<Rightarrow> catalog_err + int list" where
  "parsePorts v =
     (case v of
        PortsV ps \<Rightarrow> Inr ps
      | TextV s \<Rightarrow>
          (let t = TrimSpace s in
           if t = [] then Inr []
           else if HasPrefix t ''['' then Inl BadHostIndex
           else (case Atoi t of None \<Rightarrow> Inl BadHostIndex | Some p \<Rightarrow> Inr [p]))
      | _ \<Rightarrow> Inl BadHostIndex)"

definition HostPorts :: "bool \<Rightarrow> string \<Rightarrow> kv \<Rightarrow> catalog_err + int list" where
  "HostPorts down hostname kv =
     (if down then Inl ErrUnreachable
      else case kv_get (hostIndexKey hostname) kv of None \<Rightarrow> Inr [] | Some v \<Rightarrow> parsePorts v)"

definition GetRoute :: "bool \<Rightarrow> string \<Rightarrow> int \<Rightarrow> kv \<Rightarrow> catalog_err + Route option" where
  "GetRoute down hostname port kv =
     (if down then Inl ErrUnreachable
      else case kv_get (routeKey hostname port) kv of
        None \<Rightarrow> Inr None
      | Some (RouteV r) \<Rightarrow> Inr (Some r)
      | Some _ \<Rightarrow> Inl (BadRoute (routeKey hostname port)))"

text \<open>
  The two lookups read the index and then the route: \<open>kv\<close> is the key space at the first read and
  \<open>kv'\<close> at the second.
\<close>

definition GetRouteForHostname :: "bool \<times> bool \<Rightarrow> string \<Rightarrow> kv \<Rightarrow> kv \<Rightarrow> catalog_err + Route option" where
  "GetRouteForHostname down hostname kv kv' =
     (case HostPorts (fst down) hostname kv of
        Inl e \<Rightarrow> Inl e
      | Inr [] \<Rightarrow> Inr None
      | Inr (p # _) \<Rightarrow> GetRoute (snd down) hostname p kv')"

definition GetRouteForPort :: "bool \<times> bool \<Rightarrow> string \<Rightarrow> int \<Rightarrow> kv \<Rightarrow> kv \<Rightarrow> catalog_err + Route option \<times> bool" where
  "GetRouteForPort down hostname port kv kv' =
     (case HostPorts (fst down) hostname kv of
        Inl e \<Rightarrow> Inl e
      | Inr ports \<Rightarrow>
          if port \<notin> set ports then Inr (None, False)
          else (case GetRoute (snd down) hostname port kv' of Inl e \<Rightarrow> Inl e | Inr r \<Rightarrow> Inr (r, True)))"

section \<open>Deleting projections\<close>

text \<open>
  \<open>PruneRoutes\<close> and \<open>WipeProjections\<close> scan first and delete what they found later; here no other
  writer runs in between (the interleavings below have the deletion as a step of its own).
  \<open>fails n\<close> says that the \<open>n\<close>-th command does not reach Redis.
\<close>

definition stale_routes :: "string list \<Rightarrow> kv \<Rightarrow> string list" where
  "stale_routes keepRoutes kv = filter (\<lambda>k. k \<notin> set keepRoutes) (kv_scan ''route:'' kv)"

definition stale_hosts :: "string list \<Rightarrow> kv \<Rightarrow> string list" where
  "stale_hosts keepHosts kv =
     filter (\<lambda>k. drop (length ''hostidx:'') k \<notin> set keepHosts) (kv_scan ''hostidx:'' kv)"

definition PruneRoutes :: "(nat \<Rightarrow> bool) \<Rightarrow> string list \<Rightarrow> string list \<Rightarrow> (kv, catalog_err, unit) act" where
  "PruneRoutes fails keepRoutes keepHosts kv =
     (if fails 0 \<or> fails 1 then (Inl ErrUnreachable, kv)
      else
        (let rs = stale_routes keepRoutes kv; hs = stale_hosts keepHosts kv in
         if rs \<noteq> [] \<and> fails 2 then (Inl ErrUnreachable, kv)
         else
           (let kv1 = kv_del rs kv in
            if hs \<noteq> [] \<and> fails 3 then (Inl ErrUnreachable, kv1) else (Inr (), kv_del hs kv1))))"

fun wipe :: "(nat \<Rightarrow> bool) \<Rightarrow> nat \<Rightarrow> int \<Rightarrow> string list \<Rightarrow> kv \<Rightarrow> (int \<times> catalog_err option) \<times> kv" where
  "wipe fails n deleted [] kv = ((deleted, None), kv)"
| "wipe fails n deleted (prefix # rest) kv =
     (if fails n then ((deleted, Some ErrUnreachable), kv)
      else
        (let ks = kv_scan prefix kv in
         if ks \<noteq> [] \<and> fails (Suc n) then ((deleted, Some ErrUnreachable), kv)
         else wipe fails (n + 2) (deleted + int (length ks)) rest (kv_del ks kv)))"

definition WipeProjections :: "(nat \<Rightarrow> bool) \<Rightarrow> kv \<Rightarrow> (int \<times> catalog_err option) \<times> kv" where
  "WipeProjections fails kv = wipe fails 0 0 [''route:'', ''hostidx:''] kv"


section \<open>Internal DNS records\<close>

fun put_dns :: "(nat \<Rightarrow> bool) \<Rightarrow> nat \<Rightarrow> int \<Rightarrow> InternalDNSRecord list \<Rightarrow> kv \<Rightarrow> catalog_err option \<times> kv" where
  "put_dns fails n expires [] kv = (None, kv)"
| "put_dns fails n expires (r # rest) kv =
     (if dns_Name r = [] \<or> dns_AAAA r = [] then (Some (BadRecord (dns_Name r)), kv)
      else if fails n then (Some ErrUnreachable, kv)
      else put_dns fails (Suc n) expires rest (kv_setex (internalDNSKey (dns_Name r)) (DnsV r) expires kv))"

definition stale_dns :: "InternalDNSRecord list \<Rightarrow> kv \<Rightarrow> string list" where
  "stale_dns records kv =
     filter (\<lambda>k. TrimPrefix k ''dns:internal:'' @ ''.internal'' \<notin> dns_Name ` set records) (kv_scan ''dns:internal:'' kv)"

definition ReplaceInternalDNS :: "(nat \<Rightarrow> bool) \<Rightarrow> int \<Rightarrow> InternalDNSRecord list \<Rightarrow> int \<Rightarrow> (kv, catalog_err, unit) act" where
  "ReplaceInternalDNS fails now records ttl kv =
     (if ttl \<le> 0 then (Inl BadTTL, kv)
      else case put_dns fails 0 (now + ttl) records kv of
        (Some e, kv1) \<Rightarrow> (Inl e, kv1)
      | (None, kv1) \<Rightarrow>
          (let n = length records; ks = stale_dns records kv1 in
           if fails n \<or> ks \<noteq> [] \<and> fails (Suc n) then (Inl ErrUnreachable, kv1) else (Inr (), kv_del ks kv1)))"

text \<open>The records are read key by key after the scan: a key that is gone by then is skipped.\<close>

fun read_keys :: "(kv_value \<Rightarrow> 'a option) \<Rightarrow> (nat \<Rightarrow> bool) \<Rightarrow> nat \<Rightarrow> string list \<Rightarrow> kv \<Rightarrow> catalog_err + 'a list" where
  "read_keys dec fails n [] kv = Inr []"
| "read_keys dec fails n (k # ks) kv =
     (if fails n then Inl ErrUnreachable
      else case kv_get k kv of
        None \<Rightarrow> read_keys dec fails (Suc n) ks kv
      | Some v \<Rightarrow>
          (case dec v of
             None \<Rightarrow> Inl (BadValue k)
           | Some a \<Rightarrow> (case read_keys dec fails (Suc n) ks kv of Inl e \<Rightarrow> Inl e | Inr as \<Rightarrow> Inr (a # as))))"

definition dec_dns :: "kv_value \<Rightarrow> InternalDNSRecord option" where
  "dec_dns v = (case v of DnsV r \<Rightarrow> Some r | _ \<Rightarrow> None)"

definition dec_peer :: "kv_value \<Rightarrow> MeshPeerRecord option" where
  "dec_peer v = (case v of PeerV r \<Rightarrow> Some r | _ \<Rightarrow> None)"

definition ListInternalDNS :: "(nat \<Rightarrow> bool) \<Rightarrow> kv \<Rightarrow> kv \<Rightarrow> catalog_err + InternalDNSRecord list" where
  "ListInternalDNS fails kv kv' =
     (if fails 0 then Inl ErrUnreachable
      else case read_keys dec_dns fails 1 (kv_scan ''dns:internal:'' kv) kv' of
        Inl e \<Rightarrow> Inl e
      | Inr out \<Rightarrow> Inr (sort_key dns_Name out))"

section \<open>Mesh addressing\<close>

fun put_peers :: "(nat \<Rightarrow> bool) \<Rightarrow> nat \<Rightarrow> int \<Rightarrow> int \<Rightarrow> MeshPeerRecord list \<Rightarrow> kv \<Rightarrow> catalog_err option \<times> kv" where
  "put_peers fails n now expires [] kv = (None, kv)"
| "put_peers fails n now expires (p # rest) kv =
     (if mp_NodeID p = [] \<or> mp_Pubkey p = [] \<or> mp_Endpoint p = [] \<or> mp_NodePrefix p = [] then (Some (BadRecord (mp_NodeID p)), kv)
      else if fails n then (Some ErrUnreachable, kv)
      else put_peers fails (Suc n) now expires rest
             (kv_setex (meshPeerKey (mp_NodeID p)) (PeerV (p\<lparr>mp_UpdatedAt := now div 1000000000\<rparr>)) expires kv))"

fun put_endpoints :: "(nat \<Rightarrow> bool) \<Rightarrow> nat \<Rightarrow> int \<Rightarrow> MeshEndpointRecord list \<Rightarrow> kv \<Rightarrow> catalog_err option \<times> kv" where
  "put_endpoints fails n expires [] kv = (None, kv)"
| "put_endpoints fails n expires (e # rest) kv =
     (if me_MachineID e = [] \<or> me_ExecutionID e = [] \<or> me_NodeULA e = [] \<or> me_IngressPort e \<le> 0
      then (Some (BadRecord (me_MachineID e)), kv)
      else if fails n then (Some ErrUnreachable, kv)
      else put_endpoints fails (Suc n) expires rest
             (kv_setex (meshEndpointKey (me_MachineID e) (me_ExecutionID e)) (EndpointV e) expires kv))"

definition mesh_seen :: "MeshPeerRecord list \<Rightarrow> MeshEndpointRecord list \<Rightarrow> string \<Rightarrow> bool" where
  "mesh_seen peers endpoints k =
     (if HasPrefix k ''mesh:peer:'' then TrimPrefix k ''mesh:peer:'' \<in> mp_NodeID ` set peers
      else k \<in> (\<lambda>e. meshEndpointKey (me_MachineID e) (me_ExecutionID e)) ` set endpoints)"

fun prune_mesh :: "(nat \<Rightarrow> bool) \<Rightarrow> nat \<Rightarrow> (string \<Rightarrow> bool) \<Rightarrow> string list \<Rightarrow> kv \<Rightarrow> catalog_err option \<times> kv" where
  "prune_mesh fails n seen [] kv = (None, kv)"
| "prune_mesh fails n seen (prefix # rest) kv =
     (let ks = filter (\<lambda>k. \<not> seen k) (kv_scan prefix kv) in
      if fails n \<or> ks \<noteq> [] \<and> fails (Suc n) then (Some ErrUnreachable, kv)
      else prune_mesh fails (n + 2) seen rest (kv_del ks kv))"

definition ReplaceMeshProjection :: "(nat \<Rightarrow> bool) \<Rightarrow> int \<Rightarrow> MeshPeerRecord list \<Rightarrow> MeshEndpointRecord list \<Rightarrow> int \<Rightarrow>
    (kv, catalog_err, unit) act" where
  "ReplaceMeshProjection fails now peers endpoints ttl kv =
     (if ttl \<le> 0 then (Inl BadTTL, kv)
      else case put_peers fails 0 now (now + ttl) peers kv of
        (Some e, kv1) \<Rightarrow> (Inl e, kv1)
      | (None, kv1) \<Rightarrow>
          (case put_endpoints fails (length peers) (now + ttl) endpoints kv1 of
             (Some e, kv2) \<Rightarrow> (Inl e, kv2)
           | (None, kv2) \<Rightarrow>
               (case prune_mesh fails (length peers + length endpoints) (mesh_seen peers endpoints)
                       [''mesh:peer:'', ''mesh:endpoint:''] kv2 of
                  (Some e, kv3) \<Rightarrow> (Inl e, kv3)
                | (None, kv3) \<Rightarrow> (Inr (), kv3))))"

definition ListMeshPeers :: "(nat \<Rightarrow> bool) \<Rightarrow> kv \<Rightarrow> kv \<Rightarrow> catalog_err + MeshPeerRecord list" where
  "ListMeshPeers fails kv kv' =
     (if fails 0 then Inl ErrUnreachable
      else case read_keys dec_peer fails 1 (kv_scan ''mesh:peer:'' kv) kv' of
        Inl e \<Rightarrow> Inl e
      | Inr out \<Rightarrow> Inr (sort_key mp_NodeID out))"

definition GetMeshEndpoint :: "bool \<Rightarrow> string \<Rightarrow> string \<Rightarrow> kv \<Rightarrow> catalog_err + MeshEndpointRecord option" where
  "GetMeshEndpoint down machineID executionID kv =
     (if down then Inl ErrUnreachable
      else case kv_get (meshEndpointKey machineID executionID) kv of
        None \<Rightarrow> Inr None
      | Some (EndpointV e) \<Rightarrow> Inr (Some e)
      | Some _ \<Rightarrow> Inl (BadValue (meshEndpointKey machineID executionID)))"

section \<open>Keys do not clash\<close>

lemma hostname_port_inject: "h @ '':'' @ fmt_int p = h' @ '':'' @ fmt_int p' \<longleftrightarrow> h = h' \<and> p = p'"
proof
  assume eq: "h @ '':'' @ fmt_int p = h' @ '':'' @ fmt_int p'"
  then have "LastIndexByte (h @ '':'' @ fmt_int p) (CHR '':'') = LastIndexByte (h' @ '':'' @ fmt_int p') (CHR '':'')" by simp
  then have "length h = length h'" by simp
  with eq show "h = h' \<and> p = p'" by simp
qed simp

lemma routeKey_inject [key_simps, simp]: "routeKey h p = routeKey h' p' \<longleftrightarrow> h = h' \<and> p = p'"
  using hostname_port_inject by (simp add: routeKey_def)

lemma hostIndexKey_inject [key_simps, simp]: "hostIndexKey h = hostIndexKey h' \<longleftrightarrow> h = h'"
  by (simp add: hostIndexKey_def)

lemma routeRevisionKey_inject [key_simps, simp]: "routeRevisionKey h = routeRevisionKey h' \<longleftrightarrow> h = h'"
  by (simp add: routeRevisionKey_def)

lemma route_keys_apart [key_simps, simp]:
  "routeKey h p \<noteq> hostIndexKey h'" "hostIndexKey h' \<noteq> routeKey h p"
  "routeKey h p \<noteq> routeRevisionKey h'" "routeRevisionKey h' \<noteq> routeKey h p"
  "hostIndexKey h \<noteq> routeRevisionKey h'" "routeRevisionKey h' \<noteq> hostIndexKey h"
  by (simp_all add: routeKey_def hostIndexKey_def routeRevisionKey_def)

text \<open>The patterns of the deletions miss the high-water marks.\<close>

lemma revision_key_not_scanned [simp]:
  "\<not> HasPrefix (routeRevisionKey h) ''route:''" "\<not> HasPrefix (routeRevisionKey h) ''hostidx:''"
  "\<not> HasPrefix (routeRevisionKey h) ''dns:internal:''" "\<not> HasPrefix (routeRevisionKey h) ''mesh:''"
  by (auto simp: routeRevisionKey_def HasPrefix_iff)

section \<open>Reading after writing\<close>

lemma kv_get_set [simp]: "kv_get k' (kv_set k v kv) = (if k' = k then Some v else kv_get k' kv)"
  by (simp add: kv_get_def kv_set_def)

lemma kv_get_setex [simp]: "kv_get k' (kv_setex k v x kv) = (if k' = k then Some v else kv_get k' kv)"
  by (simp add: kv_get_def kv_setex_def)

lemma kv_get_del [simp]: "kv_get k (kv_del ks kv) = (if k \<in> set ks then None else kv_get k kv)"
  unfolding kv_del_def by (induction ks arbitrary: kv) (auto simp: kv_get_def)

lemma kv_get_empty [simp]: "kv_get k [] = None"
  by (simp add: kv_get_def)

lemma kv_get_expire: "gomap_ok kv \<Longrightarrow> kv_get k (kv_expire now kv) = None \<or> kv_get k (kv_expire now kv) = kv_get k kv"
  by (auto simp: kv_get_def kv_expire_def mget_mkeep split: option.splits prod.splits)

lemma write_routes_other: "(\<And>p. k \<noteq> routeKey h p) \<Longrightarrow> kv_get k (write_routes h rv items kv) = kv_get k kv"
  unfolding write_routes_def by (induction items arbitrary: kv) auto

lemma bad_port_None: "bad_port seen items = None \<Longrightarrow>
    distinct (map hr_Port items) \<and> (\<forall>i \<in> set items. 0 < hr_Port i \<and> hr_Port i \<notin> set seen)"
proof (induction items arbitrary: seen)
  case (Cons i items)
  then have "bad_port (hr_Port i # seen) items = None" and i: "0 < hr_Port i" "hr_Port i \<notin> set seen"
    by (auto split: if_splits)
  from Cons.IH [OF this(1)] i show ?case by auto
qed simp

lemma write_routes_skip:
  "h' \<noteq> h \<or> p \<notin> hr_Port ` set items \<Longrightarrow> kv_get (routeKey h' p) (write_routes h rv items kv) = kv_get (routeKey h' p) kv"
  unfolding write_routes_def by (induction items arbitrary: kv) auto

lemma write_routes_get:
  "distinct (map hr_Port items) \<Longrightarrow> item \<in> set items \<Longrightarrow>
     kv_get (routeKey h (hr_Port item)) (write_routes h rv items kv) = Some (RouteV (stamped rv item))"
proof (induction items arbitrary: kv)
  case (Cons i items)
  have "kv_get (routeKey h (hr_Port i)) (write_routes h rv items kv') = kv_get (routeKey h (hr_Port i)) kv'" for kv'
    using Cons.prems by (intro write_routes_skip) simp
  with Cons show ?case by (auto simp: write_routes_def)
qed simp


section \<open>Publications in any order\<close>

text \<open>
  A publication that passed the checks and reached Redis, as the host, the revision, the routes and
  the primary port.
\<close>

type_synonym publication = "string \<times> int \<times> HostRoute list \<times> int"

definition well_formed :: "HostRoute list \<Rightarrow> int \<Rightarrow> bool" where
  "well_formed routes primary \<longleftrightarrow>
     routes \<noteq> [] \<and> bad_port [] routes = None \<and> 0 < primary \<and> primary \<in> hr_Port ` set routes"

text \<open>
  The steps of the writers of the key space. A deletion is the DEL of a \<open>PruneRoutes\<close> or \<open>WipeProjections\<close>
  whose scans ran at any earlier time, so any keys of the two patterns.
\<close>

datatype cat_op =
    Publish bool string int "HostRoute list" int
  | DelScanned "string list"
  | PublishDNS "nat \<Rightarrow> bool" int "InternalDNSRecord list" int
  | PublishMesh "nat \<Rightarrow> bool" int "MeshPeerRecord list" "MeshEndpointRecord list" int
  | Expire int

definition projection_key :: "string \<Rightarrow> bool" where
  "projection_key k \<longleftrightarrow> HasPrefix k ''route:'' \<or> HasPrefix k ''hostidx:''"

fun cat_exec :: "cat_op \<Rightarrow> kv \<Rightarrow> kv" where
  "cat_exec (Publish down h rv routes primary) kv = snd (ReplaceHostRoutes down h rv routes primary kv)"
| "cat_exec (DelScanned ks) kv = kv_del (filter projection_key ks) kv"
| "cat_exec (PublishDNS fails now records ttl) kv = snd (ReplaceInternalDNS fails now records ttl kv)"
| "cat_exec (PublishMesh fails now peers endpoints ttl) kv = snd (ReplaceMeshProjection fails now peers endpoints ttl kv)"
| "cat_exec (Expire now) kv = kv_expire now kv"

definition cat_run :: "cat_op list \<Rightarrow> kv \<Rightarrow> kv" where
  "cat_run ops kv = fold cat_exec ops kv"

fun attempted :: "cat_op list \<Rightarrow> publication list" where
  "attempted [] = []"
| "attempted (Publish down h rv routes primary # ops) =
     (if well_formed routes primary \<and> \<not> down then (h, rv, routes, primary) # attempted ops else attempted ops)"
| "attempted (_ # ops) = attempted ops"

text \<open>The highest revision attempted for a host; 0 when there is none.\<close>

fun top_rev :: "string \<Rightarrow> publication list \<Rightarrow> int" where
  "top_rev h [] = 0"
| "top_rev h ((h', rv, _) # ps) = (if h' = h then max rv (top_rev h ps) else top_rev h ps)"

lemma top_rev_nonneg [simp]: "0 \<le> top_rev h ps"
  by (induction h ps rule: top_rev.induct) auto

lemma top_rev_ge: "(h, rv, its, prim) \<in> set ps \<Longrightarrow> rv \<le> top_rev h ps"
  by (induction h ps rule: top_rev.induct) (auto split: if_splits)

lemma top_rev_append [simp]: "top_rev h (ps @ qs) = max (top_rev h ps) (top_rev h qs)"
  by (induction h ps rule: top_rev.induct) (auto simp: max_def not_le le_less_trans)

lemma attempted_append [simp]: "attempted (xs @ ys) = attempted xs @ attempted ys"
  by (induction xs rule: attempted.induct) auto

text \<open>What the key space holds for the hosts after the publications \<open>ps\<close>.\<close>

definition mark_ok :: "publication list \<Rightarrow> kv \<Rightarrow> bool" where
  "mark_ok ps kv \<longleftrightarrow>
     (\<forall>h. mget kv (routeRevisionKey h) =
            (if top_rev h ps = 0 then None else Some (TextV (fmt_int (top_rev h ps)), None)))"

definition routes_ok :: "publication list \<Rightarrow> kv \<Rightarrow> bool" where
  "routes_ok ps kv \<longleftrightarrow>
     (\<forall>h p v. kv_get (routeKey h p) kv = Some v \<longrightarrow>
        (\<exists>rv items prim item. (h, rv, items, prim) \<in> set ps \<and> item \<in> set items \<and> hr_Port item = p \<and>
           v = RouteV (stamped rv item)))"

definition index_ok :: "publication list \<Rightarrow> kv \<Rightarrow> bool" where
  "index_ok ps kv \<longleftrightarrow>
     (\<forall>h v. kv_get (hostIndexKey h) kv = Some v \<longrightarrow>
        (\<exists>items prim. (h, top_rev h ps, items, prim) \<in> set ps \<and> prim \<in> hr_Port ` set items \<and>
           v = PortsV (index_order prim items) \<and>
           (\<forall>item \<in> set items. kv_get (routeKey h (hr_Port item)) kv = None \<or>
              kv_get (routeKey h (hr_Port item)) kv = Some (RouteV (stamped (top_rev h ps) item)))))"

definition cat_ok :: "publication list \<Rightarrow> kv \<Rightarrow> bool" where
  "cat_ok ps kv \<longleftrightarrow> gomap_ok kv \<and> mark_ok ps kv \<and> routes_ok ps kv \<and> index_ok ps kv"

lemma cat_ok_empty: "cat_ok [] []"
  by (simp add: cat_ok_def mark_ok_def routes_ok_def index_ok_def)

lemma high_water_mark: "mark_ok ps kv \<Longrightarrow> high_water h kv = Some (top_rev h ps)"
  unfolding mark_ok_def high_water_def kv_get_def by (simp add: if_distrib [of "map_option _"])

lemma set_index_order: "prim \<in> hr_Port ` set items \<Longrightarrow> set (index_order prim items) = hr_Port ` set items"
  by (auto simp: index_order_def)


text \<open>Steps that leave the marks alone and may only remove routes and indexes.\<close>

definition shrinks :: "kv \<Rightarrow> kv \<Rightarrow> bool" where
  "shrinks kv kv' \<longleftrightarrow>
     (gomap_ok kv \<longrightarrow> gomap_ok kv') \<and>
     (\<forall>h. mget kv' (routeRevisionKey h) = mget kv (routeRevisionKey h)) \<and>
     (\<forall>h p. kv_get (routeKey h p) kv' = None \<or> kv_get (routeKey h p) kv' = kv_get (routeKey h p) kv) \<and>
     (\<forall>h. kv_get (hostIndexKey h) kv' = None \<or> kv_get (hostIndexKey h) kv' = kv_get (hostIndexKey h) kv)"

lemma shrinks_cat_ok:
  assumes "cat_ok ps kv" and s: "shrinks kv kv'"
  shows "cat_ok ps kv'"
proof -
  have "mark_ok ps kv'" using assms by (simp add: cat_ok_def mark_ok_def shrinks_def)
  moreover have "routes_ok ps kv'"
    using assms unfolding cat_ok_def routes_ok_def shrinks_def by (metis option.distinct(1))
  moreover have "index_ok ps kv'"
    unfolding index_ok_def
  proof (intro allI impI)
    fix h v
    assume "kv_get (hostIndexKey h) kv' = Some v"
    then have "kv_get (hostIndexKey h) kv = Some v" using s unfolding shrinks_def by (metis option.distinct(1))
    with assms(1) obtain items prim where *: "(h, top_rev h ps, items, prim) \<in> set ps" "prim \<in> hr_Port ` set items"
        "v = PortsV (index_order prim items)"
        "\<forall>item \<in> set items. kv_get (routeKey h (hr_Port item)) kv = None \<or>
              kv_get (routeKey h (hr_Port item)) kv = Some (RouteV (stamped (top_rev h ps) item))"
      unfolding cat_ok_def index_ok_def by blast
    have "kv_get (routeKey h (hr_Port item)) kv' = None \<or>
        kv_get (routeKey h (hr_Port item)) kv' = Some (RouteV (stamped (top_rev h ps) item))" if "item \<in> set items" for item
      using *(4) s that unfolding shrinks_def by metis
    with * show "\<exists>items prim. (h, top_rev h ps, items, prim) \<in> set ps \<and> prim \<in> hr_Port ` set items \<and>
           v = PortsV (index_order prim items) \<and>
           (\<forall>item \<in> set items. kv_get (routeKey h (hr_Port item)) kv' = None \<or>
              kv_get (routeKey h (hr_Port item)) kv' = Some (RouteV (stamped (top_rev h ps) item)))" by blast
  qed
  ultimately show ?thesis using assms by (simp add: cat_ok_def shrinks_def)
qed

lemma gomap_ok_kv [simp]:
  "gomap_ok kv \<Longrightarrow> gomap_ok (kv_set k v kv)" "gomap_ok kv \<Longrightarrow> gomap_ok (kv_setex k v x kv)"
  "gomap_ok kv \<Longrightarrow> gomap_ok (kv_del ks kv)" "gomap_ok kv \<Longrightarrow> gomap_ok (kv_expire t kv)"
proof -
  show "gomap_ok kv \<Longrightarrow> gomap_ok (kv_del ks kv)"
    unfolding kv_del_def by (induction ks arbitrary: kv) auto
qed (simp_all add: kv_set_def kv_setex_def kv_expire_def)

lemma mget_kv_del: "k \<notin> set ks \<Longrightarrow> mget (kv_del ks kv) k = mget kv k"
  unfolding kv_del_def by (induction ks arbitrary: kv) auto

text \<open>Writers of other key families keep every key outside their prefix.\<close>

definition confined :: "string \<Rightarrow> kv \<Rightarrow> kv \<Rightarrow> bool" where
  "confined prefix kv kv' \<longleftrightarrow> (gomap_ok kv \<longrightarrow> gomap_ok kv') \<and> (\<forall>k. \<not> HasPrefix k prefix \<longrightarrow> mget kv' k = mget kv k)"

lemma confined_refl [simp]: "confined prefix kv kv"
  by (simp add: confined_def)

lemma confined_trans: "confined prefix a b \<Longrightarrow> confined prefix b c \<Longrightarrow> confined prefix a c"
  by (simp add: confined_def)

lemma confined_setex: "confined prefix (kv_setex k v x kv) kv' \<Longrightarrow> HasPrefix k prefix \<Longrightarrow> confined prefix kv kv'"
  by (auto simp: confined_def kv_setex_def)

lemma confined_del: "(\<And>k. k \<in> set ks \<Longrightarrow> HasPrefix k prefix) \<Longrightarrow> confined prefix kv (kv_del ks kv)"
  unfolding confined_def by (auto intro!: mget_kv_del)

lemma family_prefixes [simp]:
  "HasPrefix (internalDNSKey n) ''dns:internal:''" "HasPrefix (meshPeerKey n) ''mesh:''" "HasPrefix (meshEndpointKey m e) ''mesh:''"
  by (simp_all add: internalDNSKey_def meshPeerKey_def meshEndpointKey_def HasPrefix_def)

lemma mesh_prefixes: "HasPrefix k ''mesh:peer:'' \<or> HasPrefix k ''mesh:endpoint:'' \<Longrightarrow> HasPrefix k ''mesh:''"
  by (auto simp: HasPrefix_iff)

lemma kv_scan_iff: "k \<in> set (kv_scan prefix kv) \<longleftrightarrow> HasPrefix k prefix \<and> kv_get k kv \<noteq> None"
  by (auto simp: kv_scan_def kv_get_def map_of_eq_None_iff)

lemma confined_put_dns: "confined ''dns:internal:'' kv (snd (put_dns fails n x rs kv))"
  by (induction fails n x rs kv rule: put_dns.induct) (auto dest: confined_setex [OF _ family_prefixes(1)])

lemma confined_put_peers: "confined ''mesh:'' kv (snd (put_peers fails n now x ps kv))"
  by (induction fails n now x ps kv rule: put_peers.induct) (auto dest: confined_setex [OF _ family_prefixes(2)])

lemma confined_put_endpoints: "confined ''mesh:'' kv (snd (put_endpoints fails n x es kv))"
  by (induction fails n x es kv rule: put_endpoints.induct) (auto dest: confined_setex [OF _ family_prefixes(3)])

lemma confined_prune_mesh:
  "\<forall>p \<in> set prefixes. p = ''mesh:peer:'' \<or> p = ''mesh:endpoint:'' \<Longrightarrow>
     confined ''mesh:'' kv (snd (prune_mesh fails n seen prefixes kv))"
proof (induction fails n seen prefixes kv rule: prune_mesh.induct)
  case (2 fails n seen prefix rest kv)
  have "confined ''mesh:'' kv (kv_del (filter (\<lambda>k. \<not> seen k) (kv_scan prefix kv)) kv)"
    using 2(2) by (intro confined_del) (auto simp: kv_scan_iff intro!: mesh_prefixes)
  with 2 show ?case by (auto simp: Let_def intro: confined_trans)
qed simp

lemma confined_ReplaceInternalDNS: "confined ''dns:internal:'' kv (snd (ReplaceInternalDNS fails now rs ttl kv))"
proof -
  have d: "confined ''dns:internal:'' kv1 (kv_del (stale_dns rs kv1) kv1)" for kv1
    by (intro confined_del) (auto simp: stale_dns_def kv_scan_iff)
  show ?thesis
    using confined_put_dns [of kv fails 0 "now + ttl" rs] confined_trans [OF confined_put_dns d, of kv fails 0 "now + ttl" rs]
    by (auto simp: ReplaceInternalDNS_def Let_def split: prod.splits option.splits)
qed

lemma confined_ReplaceMeshProjection: "confined ''mesh:'' kv (snd (ReplaceMeshProjection fails now ps es ttl kv))"
proof -
  let ?p = "put_peers fails 0 now (now + ttl) ps kv"
  let ?e = "put_endpoints fails (length ps) (now + ttl) es (snd ?p)"
  let ?m = "prune_mesh fails (length ps + length es) (mesh_seen ps es) [''mesh:peer:'', ''mesh:endpoint:''] (snd ?e)"
  have p: "confined ''mesh:'' kv (snd ?p)" by (rule confined_put_peers)
  have e: "confined ''mesh:'' kv (snd ?e)" using confined_trans [OF p confined_put_endpoints] .
  have "confined ''mesh:'' (snd ?e) (snd ?m)" by (rule confined_prune_mesh) simp
  from confined_trans [OF e this] p e show ?thesis
    by (auto simp: ReplaceMeshProjection_def simp del: prune_mesh.simps split: prod.splits option.splits)
qed

lemma route_keys_outside [simp]:
  "\<not> HasPrefix (routeKey h p) ''dns:internal:''" "\<not> HasPrefix (routeKey h p) ''mesh:''"
  "\<not> HasPrefix (hostIndexKey h) ''dns:internal:''" "\<not> HasPrefix (hostIndexKey h) ''mesh:''"
  by (auto simp: routeKey_def hostIndexKey_def HasPrefix_iff)

lemma confined_shrinks: "confined prefix kv kv' \<Longrightarrow> prefix = ''dns:internal:'' \<or> prefix = ''mesh:'' \<Longrightarrow> shrinks kv kv'"
  unfolding confined_def shrinks_def kv_get_def by auto

text \<open>Expiry never removes a mark: it was set without a time to live.\<close>

lemma shrinks_expire:
  assumes "gomap_ok kv" and "mark_ok ps kv"
  shows "shrinks kv (kv_expire now kv)"
  using assms kv_get_expire [OF assms(1)] unfolding shrinks_def mark_ok_def
  by (auto simp: kv_expire_def mget_mkeep)

lemma shrinks_del: "shrinks kv (kv_del (filter projection_key ks) kv)"
  unfolding shrinks_def by (auto simp: mget_kv_del projection_key_def)


text \<open>A publication that passes the guard.\<close>

lemma Replace_well_formed:
  "well_formed routes primary \<Longrightarrow> \<not> down \<Longrightarrow> ReplaceHostRoutes down h rv routes primary kv =
     (case replaceHostRoutes h primary rv routes kv of (Inl e, kv') \<Rightarrow> (Inl e, kv') | (Inr n, kv') \<Rightarrow> (Inr (n = 1), kv'))"
  by (simp add: ReplaceHostRoutes_def well_formed_def)

lemma Replace_ill_formed: "\<not> (well_formed routes primary \<and> \<not> down) \<Longrightarrow> snd (ReplaceHostRoutes down h rv routes primary kv) = kv"
  by (auto simp: ReplaceHostRoutes_def well_formed_def split: option.splits)

definition published_kv :: "string \<Rightarrow> int \<Rightarrow> HostRoute list \<Rightarrow> int \<Rightarrow> kv \<Rightarrow> kv" where
  "published_kv h rv routes primary kv = snd (replaceHostRoutes h primary rv routes kv)"

lemma Replace_rejected:
  assumes "mark_ok ps kv" "well_formed routes primary" "rv \<le> top_rev h ps"
  shows "ReplaceHostRoutes False h rv routes primary kv = (Inr False, kv)"
  using assms by (simp add: Replace_well_formed replaceHostRoutes_def high_water_mark)

lemma Replace_accepted:
  assumes "mark_ok ps kv" "well_formed routes primary" "top_rev h ps < rv"
  shows "ReplaceHostRoutes False h rv routes primary kv = (Inr True, published_kv h rv routes primary kv)"
  using assms by (simp add: Replace_well_formed replaceHostRoutes_def published_kv_def high_water_mark Let_def)

lemma drop_routes_get:
  "kv_get k (drop_routes h wanted old kv) =
     (if \<exists>p \<in> set old. p \<notin> set wanted \<and> k = routeKey h p then None else kv_get k kv)"
  by (auto simp: drop_routes_def)

lemma drop_routes_mget: "(\<And>p. k \<noteq> routeKey h p) \<Longrightarrow> mget (drop_routes h wanted old kv) k = mget kv k"
  unfolding drop_routes_def by (rule mget_kv_del) (simp add: image_iff)

lemma write_routes_mget: "(\<And>p. k \<noteq> routeKey h p) \<Longrightarrow> mget (write_routes h rv items kv) k = mget kv k"
  unfolding write_routes_def kv_set_def by (induction items arbitrary: kv) auto

lemma gomap_ok_write_routes [simp]: "gomap_ok kv \<Longrightarrow> gomap_ok (write_routes h rv items kv)"
  unfolding write_routes_def by (induction items arbitrary: kv) auto

lemma gomap_ok_drop_routes [simp]: "gomap_ok kv \<Longrightarrow> gomap_ok (drop_routes h wanted old kv)"
  by (simp add: drop_routes_def)

text \<open>What every key of the three families holds after it.\<close>

lemma published_kv_get:
  assumes wf: "well_formed routes primary" and hw: "high_water h kv = Some current" "current < rv"
  defines "kv' \<equiv> published_kv h rv routes primary kv"
  shows "item \<in> set routes \<Longrightarrow> kv_get (routeKey h (hr_Port item)) kv' = Some (RouteV (stamped rv item))"
    and "p \<notin> hr_Port ` set routes \<Longrightarrow> kv_get (routeKey h p) kv' = None \<or> kv_get (routeKey h p) kv' = kv_get (routeKey h p) kv"
    and "h' \<noteq> h \<Longrightarrow> kv_get (routeKey h' p) kv' = kv_get (routeKey h' p) kv"
    and "kv_get (hostIndexKey h') kv' = (if h' = h then Some (PortsV (index_order primary routes)) else kv_get (hostIndexKey h') kv)"
    and "mget kv' (routeRevisionKey h') = (if h' = h then Some (TextV (fmt_int rv), None) else mget kv (routeRevisionKey h'))"
    and "gomap_ok kv \<Longrightarrow> gomap_ok kv'"
proof -
  have "bad_port [] routes = None" using wf by (simp add: well_formed_def)
  then have d: "distinct (map hr_Port routes)" using bad_port_None by blast
  define kv1 where "kv1 = write_routes h rv routes kv"
  define kv2 where "kv2 = (case kv_get (hostIndexKey h) kv1 of None \<Rightarrow> kv1
     | Some old \<Rightarrow> drop_routes h (map hr_Port routes) (lua_old_ports old) kv1)"
  have kv': "kv' = kv_set (routeRevisionKey h) (TextV (fmt_int rv)) (kv_set (hostIndexKey h) (PortsV (index_order primary routes)) kv2)"
    using hw unfolding kv2_def kv1_def by (simp add: kv'_def published_kv_def replaceHostRoutes_def Let_def)
  have kv2: "kv_get k kv2 = kv_get k kv1 \<or> kv_get k kv2 = None \<and> (\<exists>p. p \<notin> hr_Port ` set routes \<and> k = routeKey h p)" for k
    by (auto simp: kv2_def drop_routes_get split: option.splits)
  have kv2m: "(\<And>p. k \<noteq> routeKey h p) \<Longrightarrow> mget kv2 k = mget kv1 k" for k
    by (auto simp: kv2_def drop_routes_mget split: option.splits)
  show "kv_get (routeKey h (hr_Port item)) kv' = Some (RouteV (stamped rv item))" if "item \<in> set routes"
    using kv2 [of "routeKey h (hr_Port item)"] write_routes_get [OF d that, of h rv kv] that by (auto simp: kv' kv1_def)
  show "kv_get (routeKey h p) kv' = None \<or> kv_get (routeKey h p) kv' = kv_get (routeKey h p) kv" if "p \<notin> hr_Port ` set routes"
    using kv2 [of "routeKey h p"] write_routes_skip [of h h p routes rv kv] that by (auto simp: kv' kv1_def)
  show "kv_get (routeKey h' p) kv' = kv_get (routeKey h' p) kv" if "h' \<noteq> h"
    using kv2 [of "routeKey h' p"] write_routes_skip [of h' h p routes rv kv] that by (auto simp: kv' kv1_def)
  show "kv_get (hostIndexKey h') kv' = (if h' = h then Some (PortsV (index_order primary routes)) else kv_get (hostIndexKey h') kv)"
    using kv2 [of "hostIndexKey h'"] write_routes_other [of "hostIndexKey h'" h rv routes kv] by (auto simp: kv' kv1_def)
  show "mget kv' (routeRevisionKey h') = (if h' = h then Some (TextV (fmt_int rv), None) else mget kv (routeRevisionKey h'))"
    using kv2m [of "routeRevisionKey h'"] write_routes_mget [of "routeRevisionKey h'" h rv routes kv]
    by (auto simp: kv' kv1_def kv_set_def)
  show "gomap_ok kv'" if "gomap_ok kv"
    using that by (auto simp: kv' kv2_def kv1_def split: option.splits)
qed

lemma published_cat_ok:
  assumes ok: "cat_ok ps kv" and wf: "well_formed routes primary" and new: "top_rev h ps < rv"
  shows "cat_ok (ps @ [(h, rv, routes, primary)]) (published_kv h rv routes primary kv)"
proof -
  let ?ps = "ps @ [(h, rv, routes, primary)]" and ?kv = "published_kv h rv routes primary kv"
  have "mark_ok ps kv" using ok by (simp add: cat_ok_def)
  then have hw: "high_water h kv = Some (top_rev h ps)" by (rule high_water_mark)
  note get = published_kv_get [OF wf hw new]
  have pos: "0 < rv" using new top_rev_nonneg [of h ps] by linarith
  have top: "top_rev h' ?ps = (if h' = h then rv else top_rev h' ps)" for h'
    using new pos by auto
  have "mark_ok ?ps ?kv"
    using \<open>mark_ok ps kv\<close> pos unfolding mark_ok_def top get(5) by auto
  moreover have "routes_ok ?ps ?kv"
    unfolding routes_ok_def
  proof (intro allI impI)
    fix h' p v
    assume v: "kv_get (routeKey h' p) ?kv = Some v"
    show "\<exists>rv' items prim item. (h', rv', items, prim) \<in> set ?ps \<and> item \<in> set items \<and> hr_Port item = p \<and>
           v = RouteV (stamped rv' item)"
    proof (cases "h' = h \<and> p \<in> hr_Port ` set routes")
      case True
      then obtain item where "item \<in> set routes" "p = hr_Port item" by blast
      with True get(1) [of item] v show ?thesis by auto
    next
      case False
      then have "kv_get (routeKey h' p) kv = Some v"
        using v get(2) [of p] get(3) [of h' p] by (cases "h' = h") auto
      with ok show ?thesis unfolding cat_ok_def routes_ok_def by (metis UnCI set_append)
    qed
  qed
  moreover have "index_ok ?ps ?kv"
    unfolding index_ok_def
  proof (intro allI impI)
    fix h' v
    assume v: "kv_get (hostIndexKey h') ?kv = Some v"
    show "\<exists>items prim. (h', top_rev h' ?ps, items, prim) \<in> set ?ps \<and> prim \<in> hr_Port ` set items \<and>
           v = PortsV (index_order prim items) \<and>
           (\<forall>item \<in> set items. kv_get (routeKey h' (hr_Port item)) ?kv = None \<or>
              kv_get (routeKey h' (hr_Port item)) ?kv = Some (RouteV (stamped (top_rev h' ?ps) item)))"
    proof (cases "h' = h")
      case True
      moreover have "v = PortsV (index_order primary routes)" using v get(4) [of h'] True by simp
      moreover have "primary \<in> hr_Port ` set routes" using wf by (simp add: well_formed_def)
      ultimately show ?thesis using get(1) top [of h] by (intro exI [of _ routes] exI [of _ primary]) simp
    next
      case False
      then have "kv_get (hostIndexKey h') kv = Some v" using v get(4) [of h'] by simp
      with ok have "\<exists>items prim. (h', top_rev h' ps, items, prim) \<in> set ps \<and> prim \<in> hr_Port ` set items \<and>
           v = PortsV (index_order prim items) \<and>
           (\<forall>item \<in> set items. kv_get (routeKey h' (hr_Port item)) kv = None \<or>
              kv_get (routeKey h' (hr_Port item)) kv = Some (RouteV (stamped (top_rev h' ps) item)))"
        unfolding cat_ok_def index_ok_def by blast
      then show ?thesis using False get(3) [OF False] top [of h'] by auto
    qed
  qed
  ultimately show ?thesis using ok get(6) by (simp add: cat_ok_def)
qed


lemma cat_exec_shrinks:
  assumes "cat_ok ps kv" and "\<nexists>down h rv routes primary. op = Publish down h rv routes primary"
  shows "shrinks kv (cat_exec op kv) \<and> attempted [op] = []"
  using assms
  by (cases op) (auto simp: cat_ok_def intro: shrinks_del shrinks_expire
    confined_shrinks [OF confined_ReplaceInternalDNS] confined_shrinks [OF confined_ReplaceMeshProjection])

lemma cat_exec_ok:
  assumes ok: "cat_ok ps kv"
  shows "cat_ok (ps @ attempted [op]) (cat_exec op kv)"
proof (cases "\<exists>down h rv routes primary. op = Publish down h rv routes primary")
  case False
  with shrinks_cat_ok [OF ok] cat_exec_shrinks [OF ok False] show ?thesis by simp
next
  case True
  then obtain down h rv routes primary where Publish: "op = Publish down h rv routes primary" by blast
  show ?thesis
  proof (cases "well_formed routes primary \<and> \<not> down")
    case False
    then show ?thesis using ok Replace_ill_formed [OF False] by (auto simp: Publish)
  next
    case wf: True
    show ?thesis
    proof (cases "rv \<le> top_rev h ps")
      case False
      with ok wf show ?thesis
        using published_cat_ok [OF ok, of routes primary h rv] Replace_accepted [of ps kv routes primary h rv]
        by (simp add: Publish cat_ok_def)
    next
      case True
      have "top_rev h' (ps @ [(h, rv, routes, primary)]) = top_rev h' ps" for h'
        using True by (auto simp: max_absorb1)
      then have "cat_ok (ps @ [(h, rv, routes, primary)]) kv"
        using ok unfolding cat_ok_def mark_ok_def routes_ok_def index_ok_def by (simp del: top_rev_append) blast
      with ok wf True show ?thesis
        using Replace_rejected [of ps kv routes primary rv h] by (simp add: Publish cat_ok_def)
    qed
  qed
qed

lemma cat_run_ok: "cat_ok ps kv \<Longrightarrow> cat_ok (ps @ attempted ops) (cat_run ops kv)"
proof (induction ops arbitrary: ps kv)
  case (Cons op ops)
  have "attempted (op # ops) = attempted [op] @ attempted ops" using attempted_append [of "[op]" ops] by simp
  with Cons.IH [OF cat_exec_ok [OF Cons.prems, of op]] show ?case by (simp add: cat_run_def)
qed (simp add: cat_run_def)

text \<open>A revision that the mark of the host has reached is a lower bound for the routes that appear later.\<close>

definition at_least :: "int \<Rightarrow> string \<Rightarrow> int \<Rightarrow> kv \<Rightarrow> bool" where
  "at_least r0 h p kv \<longleftrightarrow> (\<forall>r. kv_get (routeKey h p) kv = Some (RouteV r) \<longrightarrow> r0 \<le> rt_Revision r)"

lemma shrinks_at_least: "shrinks kv kv' \<Longrightarrow> at_least r0 h p kv \<Longrightarrow> at_least r0 h p kv'"
  unfolding shrinks_def at_least_def by (metis option.distinct(1))

lemma stamped_revision [simp]: "rt_Revision (stamped rv item) = rv"
  by (simp add: stamped_def)

lemma cat_exec_at_least:
  assumes ok: "cat_ok ps kv" and r0: "r0 \<le> top_rev h ps" and al: "at_least r0 h p kv"
  shows "at_least r0 h p (cat_exec op kv)"
proof (cases "\<exists>down h rv routes primary. op = Publish down h rv routes primary")
  case False
  with shrinks_at_least [OF _ al] cat_exec_shrinks [OF ok False] show ?thesis by simp
next
  case True
  then obtain down h' rv routes primary where Publish: "op = Publish down h' rv routes primary" by blast
  show ?thesis
  proof (cases "well_formed routes primary \<and> \<not> down \<and> top_rev h' ps < rv")
    case True
    then have wf: "well_formed routes primary" and new: "top_rev h' ps < rv" by auto
    have m: "mark_ok ps kv" using ok by (simp add: cat_ok_def)
    note get = published_kv_get [OF wf high_water_mark [OF m] new]
    have "at_least r0 h p (published_kv h' rv routes primary kv)"
    proof (cases "h = h' \<and> p \<in> hr_Port ` set routes")
      case True
      then show ?thesis using get(1) new r0 by (auto simp: at_least_def)
    next
      case False
      then show ?thesis using get(2) [of p] get(3) [of h p] al by (cases "h = h'") (auto simp: at_least_def)
    qed
    then show ?thesis using True Replace_accepted [OF m wf new] by (simp add: Publish)
  next
    case False
    have m: "mark_ok ps kv" using ok by (simp add: cat_ok_def)
    from False show ?thesis
      using al Replace_rejected [OF m, of routes primary rv h'] Replace_ill_formed [of routes primary down h' rv kv]
      by (cases "well_formed routes primary \<and> \<not> down") (auto simp: Publish)
  qed
qed

lemma cat_run_at_least:
  "cat_ok ps kv \<Longrightarrow> r0 \<le> top_rev h ps \<Longrightarrow> at_least r0 h p kv \<Longrightarrow> at_least r0 h p (cat_run ops kv)"
proof (induction ops arbitrary: ps kv)
  case (Cons op ops)
  have "r0 \<le> top_rev h (ps @ attempted [op])" using Cons.prems(2) by (simp add: max.coboundedI1)
  with Cons.IH [OF cat_exec_ok [OF Cons.prems(1)] this cat_exec_at_least [OF Cons.prems]] show ?case
    by (simp add: cat_run_def)
qed (simp add: cat_run_def)

lemma cat_run_append: "cat_run (xs @ ys) kv = cat_run ys (cat_run xs kv)"
  by (simp add: cat_run_def)

text \<open>An index names the ports of the newest publication, whose routes are stored under them, if any.\<close>

lemma indexed_newest:
  assumes ok: "cat_ok ps kv" and "HostPorts down h kv = Inr ports" "p \<in> set ports"
  shows "at_least (top_rev h ps) h p kv"
proof -
  from assms(2,3) obtain v where v: "kv_get (hostIndexKey h) kv = Some v" and pp: "parsePorts v = Inr ports"
    by (auto simp: HostPorts_def split: if_splits option.splits)
  from ok v obtain items prim where *: "prim \<in> hr_Port ` set items" "v = PortsV (index_order prim items)"
      "\<forall>item \<in> set items. kv_get (routeKey h (hr_Port item)) kv = None \<or>
              kv_get (routeKey h (hr_Port item)) kv = Some (RouteV (stamped (top_rev h ps) item))"
    unfolding cat_ok_def index_ok_def by blast
  then have "p \<in> hr_Port ` set items" using assms(3) pp set_index_order [OF *(1)] by (simp add: parsePorts_def)
  with *(3) show ?thesis by (fastforce simp: at_least_def)
qed


text \<open>Claim C18.
  Whatever publications, deletions by stale scans, expiries and other writers ran, in any order, with
  any of them lost or rejected: a route that a lookup returns for a declared port is the one some
  publication of that host carried for that port, and its revision is at least every revision
  attempted for the host before the lookup read the index, even when writers run between the
  two reads of the lookup. A replayed or late older snapshot is never served again, also after the
  projection was deleted.
\<close>

theorem catalog_newest_wins:
  assumes "GetRouteForPort down h p (cat_run ops1 []) (cat_run (ops1 @ ops2) []) = Inr (Some r, True)"
  shows "\<exists>rv items prim item. (h, rv, items, prim) \<in> set (attempted (ops1 @ ops2)) \<and> item \<in> set items \<and>
    hr_Port item = p \<and> r = stamped rv item \<and>
    (\<forall>rv' items' prim'. (h, rv', items', prim') \<in> set (attempted ops1) \<longrightarrow> rv' \<le> rv)"
proof -
  let ?ps = "attempted ops1"
  have ok1: "cat_ok ?ps (cat_run ops1 [])" using cat_run_ok [OF cat_ok_empty, of ops1] by simp
  have ok2: "cat_ok (attempted (ops1 @ ops2)) (cat_run (ops1 @ ops2) [])" using cat_run_ok [OF cat_ok_empty, of "ops1 @ ops2"] by simp
  obtain ports where ports: "HostPorts (fst down) h (cat_run ops1 []) = Inr ports" "p \<in> set ports"
    and get: "kv_get (routeKey h p) (cat_run (ops1 @ ops2) []) = Some (RouteV r)"
    using assms by (auto simp: GetRouteForPort_def GetRoute_def split: sum.splits if_splits option.splits kv_value.splits)
  have "at_least (top_rev h ?ps) h p (cat_run (ops1 @ ops2) [])"
    unfolding cat_run_append
    by (rule cat_run_at_least [OF ok1 order_refl]) (rule indexed_newest [OF ok1 ports])
  then have ge: "top_rev h ?ps \<le> rt_Revision r" using get by (simp add: at_least_def)
  obtain rv items prim item where "(h, rv, items, prim) \<in> set (attempted (ops1 @ ops2))" "item \<in> set items"
      "hr_Port item = p" "r = stamped rv item"
    using ok2 get unfolding cat_ok_def routes_ok_def by blast
  moreover from this have "rv' \<le> rv" if "(h, rv', items', prim') \<in> set ?ps" for rv' items' prim'
    using ge top_rev_ge [OF that] by simp
  ultimately show ?thesis by blast
qed

definition example_route :: "int \<Rightarrow> Route" where
  "example_route g = \<lparr>rt_RouteGeneration = g, rt_Revision = 0, rt_Backends = []\<rparr>"

definition example_publish :: "int \<Rightarrow> int list \<Rightarrow> cat_op" where
  "example_publish rv ports = Publish False ''h'' rv (map (\<lambda>p. \<lparr>hr_Port = p, hr_Route = example_route rv\<rparr>) ports) (hd ports)"

text \<open>The revisions arrive out of order around a deletion of the projection.\<close>

definition example_publications :: "cat_op list" where
  "example_publications = [example_publish 2 [80, 81], DelScanned [''route:h:80'', ''hostidx:h''], example_publish 1 [80],
     example_publish 3 [80]]"

theorem catalog_newest_wins_witness:
  "\<exists>rv items prim item. (''h'', rv, items, prim) \<in> set (attempted (example_publications @ [example_publish 1 [80]])) \<and> item \<in> set items \<and>
    hr_Port item = 80 \<and> stamped 3 \<lparr>hr_Port = 80, hr_Route = example_route 3\<rparr> = stamped rv item"
proof -
  have "GetRouteForPort (False, False) ''h'' 80 (cat_run example_publications []) (cat_run (example_publications @ [example_publish 1 [80]]) []) =
      Inr (Some (stamped 3 \<lparr>hr_Port = 80, hr_Route = example_route 3\<rparr>), True)" by code_simp
  from catalog_newest_wins [OF this] show ?thesis by blast
qed

text \<open>A publication with a new highest revision is applied, and from then on, whatever was stored before,
  a lookup by port finds exactly the published_kv ports, each with its route stamped with the revision,
  and a lookup by name finds the route of the primary port.
\<close>

lemma catalog_publish_lookup:
  assumes wf: "well_formed routes primary" and "0 < rv"
    and newest: "\<forall>rv' items' prim'. (h, rv', items', prim') \<in> set (attempted ops) \<longrightarrow> rv' < rv"
    and res: "ReplaceHostRoutes False h rv routes primary (cat_run ops []) = (applied, kv)"
  shows "applied = Inr True \<and>
    GetRouteForPort (False, False) h p kv kv =
      Inr (case List.find (\<lambda>i. hr_Port i = p) routes of None \<Rightarrow> (None, False) | Some item \<Rightarrow> (Some (stamped rv item), True)) \<and>
    GetRouteForHostname (False, False) h kv kv = Inr (map_option (stamped rv) (List.find (\<lambda>i. hr_Port i = primary) routes))"
proof -
  let ?kv = "cat_run ops []"
  have m: "mark_ok (attempted ops) ?kv" using cat_run_ok [OF cat_ok_empty, of ops] by (simp add: cat_ok_def)
  have "top_rev h ps < rv" if "\<forall>rv' items' prim'. (h, rv', items', prim') \<in> set ps \<longrightarrow> rv' < rv" for ps
    using that \<open>0 < rv\<close> by (induction h ps rule: top_rev.induct) auto
  then have new: "top_rev h (attempted ops) < rv" using newest by simp
  have app: "applied = Inr True" and kv: "kv = published_kv h rv routes primary ?kv"
    using res Replace_accepted [OF m wf new] by auto
  note get = published_kv_get [OF wf high_water_mark [OF m] new, folded kv]
  have prim: "primary \<in> hr_Port ` set routes" using wf by (simp add: well_formed_def)
  have ports: "HostPorts False h kv = Inr (index_order primary routes)" by (simp add: HostPorts_def get(4) parsePorts_def)
  have route: "GetRoute False h (hr_Port i) kv = Inr (Some (stamped rv i))" if "i \<in> set routes" for i
    using get(1) [OF that] by (simp add: GetRoute_def)
  have found: "i \<in> set routes \<and> hr_Port i = q" if "List.find (\<lambda>i. hr_Port i = q) routes = Some i" for q i
    using find_SomeD [OF that] by simp
  have absent: "q \<notin> hr_Port ` set routes" if "List.find (\<lambda>i. hr_Port i = q) routes = None" for q
    using find_NoneD [OF that] by auto
  have "GetRouteForPort (False, False) h p kv kv =
      Inr (case List.find (\<lambda>i. hr_Port i = p) routes of None \<Rightarrow> (None, False) | Some item \<Rightarrow> (Some (stamped rv item), True))"
  proof (cases "List.find (\<lambda>i. hr_Port i = p) routes")
    case None
    with absent show ?thesis by (simp add: GetRouteForPort_def ports set_index_order [OF prim])
  next
    case (Some i)
    with found [OF Some] route [of i] show ?thesis by (auto simp: GetRouteForPort_def ports set_index_order [OF prim])
  qed
  moreover have "GetRouteForHostname (False, False) h kv kv = Inr (map_option (stamped rv) (List.find (\<lambda>i. hr_Port i = primary) routes))"
  proof (cases "List.find (\<lambda>i. hr_Port i = primary) routes")
    case None
    with absent prim show ?thesis by blast
  next
    case (Some i)
    with found [OF Some] route [of i] show ?thesis by (simp add: GetRouteForHostname_def ports index_order_def)
  qed
  ultimately show ?thesis using app by simp
qed


definition example_routes_of :: "int list \<Rightarrow> HostRoute list" where
  "example_routes_of ports = map (\<lambda>p. \<lparr>hr_Port = p, hr_Route = example_route p\<rparr>) ports"

lemma catalog_publish_lookup_witness:
  "(let kv = snd (ReplaceHostRoutes False ''h'' 4 (example_routes_of [443, 80]) 80 (cat_run example_publications [])) in
    GetRouteForPort (False, False) ''h'' 443 kv kv = Inr (Some (stamped 4 \<lparr>hr_Port = 443, hr_Route = example_route 443\<rparr>), True))"
proof -
  have wf: "well_formed (example_routes_of [443, 80]) 80" by code_simp
  have "list_all (\<lambda>(h, rv, _). h = ''h'' \<longrightarrow> rv < 4) (attempted example_publications)" by code_simp
  then have new: "\<forall>rv' items' prim'. (''h'', rv', items', prim') \<in> set (attempted example_publications) \<longrightarrow> rv' < 4"
    unfolding list_all_iff by blast
  have "List.find (\<lambda>i. hr_Port i = 443) (example_routes_of [443, 80]) = Some \<lparr>hr_Port = 443, hr_Route = example_route 443\<rparr>"
    by code_simp
  then show ?thesis
    using catalog_publish_lookup [OF wf _ new, of _ _ 443] by (simp add: Let_def prod_eq_iff)
qed

section \<open>Internal DNS round trip\<close>

text \<open>The records a publication may carry: complete, under the internal suffix, one per name.\<close>

definition dns_records_ok :: "InternalDNSRecord list \<Rightarrow> bool" where
  "dns_records_ok rs \<longleftrightarrow>
     distinct (map dns_Name rs) \<and> (\<forall>r \<in> set rs. HasSuffix (dns_Name r) ''.internal'' \<and> dns_AAAA r \<noteq> [])"

lemma internalDNSKey_inject:
  "HasSuffix n ''.internal'' \<Longrightarrow> HasSuffix n' ''.internal'' \<Longrightarrow> internalDNSKey n = internalDNSKey n' \<longleftrightarrow> n = n'"
  by (auto simp: internalDNSKey_def HasSuffix_iff)

lemma put_dns_get:
  assumes "dns_records_ok rs"
  shows "fst (put_dns (\<lambda>_. False) n x rs kv) = None \<and>
    (\<forall>r \<in> set rs. kv_get (internalDNSKey (dns_Name r)) (snd (put_dns (\<lambda>_. False) n x rs kv)) = Some (DnsV r))"
proof -
  have skip: "kv_get k (snd (put_dns (\<lambda>_. False) n x rs kv)) = kv_get k kv"
    if "k \<notin> (\<lambda>r. internalDNSKey (dns_Name r)) ` set rs" for k n rs kv
    using that by (induction rs arbitrary: n kv) auto
  show ?thesis
    using assms
  proof (induction rs arbitrary: n kv)
    case (Cons r rs)
    have r: "HasSuffix (dns_Name r) ''.internal''" and ok: "dns_records_ok rs" and fresh: "dns_Name r \<notin> dns_Name ` set rs"
      using Cons.prems by (auto simp: dns_records_ok_def)
    then have "internalDNSKey (dns_Name r) \<notin> (\<lambda>r. internalDNSKey (dns_Name r)) ` set rs"
      using Cons.prems by (auto simp: dns_records_ok_def internalDNSKey_inject)
    moreover have "dns_Name r \<noteq> []" "dns_AAAA r \<noteq> []" using r Cons.prems by (auto simp: HasSuffix_iff dns_records_ok_def)
    ultimately show ?case using Cons.IH [OF ok] skip by simp
  qed simp
qed

text \<open>Records that are all readable are read in the order of the keys.\<close>

lemma read_keys_all:
  "(\<And>k. k \<in> set ks \<Longrightarrow> kv_get k kv = Some (enc (f k))) \<Longrightarrow> (\<And>a. dec (enc a) = Some a) \<Longrightarrow>
     read_keys dec (\<lambda>_. False) n ks kv = Inr (map f ks)"
  by (induction ks arbitrary: n) auto

lemma distinct_kv_scan: "gomap_ok kv \<Longrightarrow> distinct (kv_scan prefix kv)"
  by (simp add: kv_scan_def gomap_ok_def)

text \<open>Reading back a family whose keys are exactly those of the records, sorted by a key of the records.\<close>

lemma read_family:
  fixes srt :: "'a \<Rightarrow> 'b :: linorder"
  assumes "gomap_ok kv" and keys: "set (kv_scan prefix kv) = key ` set rs" and inj: "inj_on key (set rs)"
    and get: "\<And>r. r \<in> set rs \<Longrightarrow> kv_get (key r) kv = Some (enc r)" and dec: "\<And>a. dec (enc a) = Some a"
    and d: "distinct (map srt rs)"
  shows "\<exists>out. read_keys dec (\<lambda>_. False) n (kv_scan prefix kv) kv = Inr out \<and> sort_key srt out = sort_key srt rs"
proof -
  let ?f = "the_inv_into (set rs) key" and ?ks = "kv_scan prefix kv"
  have f: "?f (key r) = r" if "r \<in> set rs" for r using the_inv_into_f_f [OF inj that] .
  have dr: "distinct rs" using d by (simp add: distinct_map)
  have ks: "distinct ?ks" using distinct_kv_scan [OF assms(1)] .
  have "inj_on ?f (set ?ks)" unfolding keys using f by (auto simp: inj_on_def)
  then have "distinct (map ?f ?ks)" using ks by (simp add: distinct_map)
  moreover have "set (map ?f ?ks) = set rs" using keys f by force
  ultimately have "mset (map ?f ?ks) = mset rs" using dr set_eq_iff_mset_eq_distinct by blast
  moreover have "inj_on srt (set (map ?f ?ks))" using d \<open>set (map ?f ?ks) = set rs\<close> by (simp add: distinct_map)
  ultimately have "sort_key srt (map ?f ?ks) = sort_key srt rs" by (intro sort_key_inj_key_eq) auto
  moreover have "read_keys dec (\<lambda>_. False) n ?ks kv = Inr (map ?f ?ks)"
    using keys get f dec by (intro read_keys_all [of _ _ enc]) auto
  ultimately show ?thesis by blast
qed

text \<open>
  A publication of the internal DNS that reaches Redis is read back exactly, sorted by name: the
  records of earlier publications are gone.
\<close>

lemma internal_dns_roundtrip:
  assumes ok: "gomap_ok kv" "dns_records_ok rs" and "0 < ttl"
    and res: "ReplaceInternalDNS (\<lambda>_. False) now rs ttl kv = (r, kv')"
  shows "r = Inr () \<and> ListInternalDNS (\<lambda>_. False) kv' kv' = Inr (sort_key dns_Name rs)"
proof -
  let ?put = "put_dns (\<lambda>_. False) 0 (now + ttl) rs kv"
  let ?key = "\<lambda>r. internalDNSKey (dns_Name r)"
  define kv1 where "kv1 = snd ?put"
  have put: "fst ?put = None" "\<And>x. x \<in> set rs \<Longrightarrow> kv_get (?key x) kv1 = Some (DnsV x)"
    using put_dns_get [OF ok(2), of 0 "now + ttl" kv] by (auto simp: kv1_def)
  then have "?put = (None, kv1)" by (simp add: prod_eq_iff kv1_def)
  then have r: "r = Inr ()" and kv': "kv' = kv_del (stale_dns rs kv1) kv1"
    using res \<open>0 < ttl\<close> by (auto simp: ReplaceInternalDNS_def)
  have name: "\<exists>u. dns_Name x = u @ ''.internal''" if "x \<in> set rs" for x
    using ok(2) that by (auto simp: dns_records_ok_def HasSuffix_iff)
  have seen: "u @ ''.internal'' = dns_Name x \<longleftrightarrow> ''dns:internal:'' @ u = ?key x" if "x \<in> set rs" for x u
    using name [OF that] by (auto simp: internalDNSKey_def)
  have stale: "k \<in> set (stale_dns rs kv1) \<longleftrightarrow> HasPrefix k ''dns:internal:'' \<and> kv_get k kv1 \<noteq> None \<and> k \<notin> ?key ` set rs" for k
  proof (cases "HasPrefix k ''dns:internal:''")
    case True
    then obtain u where k: "k = ''dns:internal:'' @ u" by (auto simp: HasPrefix_iff)
    have "TrimPrefix k ''dns:internal:'' = u" unfolding k by (rule TrimPrefix_append)
    moreover have "u @ ''.internal'' \<in> dns_Name ` set rs \<longleftrightarrow> k \<in> ?key ` set rs" using seen unfolding k image_iff by blast
    ultimately show ?thesis using True by (auto simp: stale_dns_def kv_scan_iff)
  qed (simp add: stale_dns_def kv_scan_iff)
  have "gomap_ok kv1" using confined_put_dns [of kv "\<lambda>_. False" 0 "now + ttl" rs] ok(1) by (simp add: confined_def kv1_def)
  then have "gomap_ok kv'" by (simp add: kv')
  moreover have get: "kv_get (?key x) kv' = Some (DnsV x)" if "x \<in> set rs" for x
    using put(2) [OF that] that stale by (simp add: kv')
  moreover have "set (kv_scan ''dns:internal:'' kv') = ?key ` set rs"
    using stale get by (auto simp: kv_scan_iff kv' split: if_splits)
  moreover have "inj_on ?key (set rs)"
    using ok(2) by (auto simp: inj_on_def dns_records_ok_def internalDNSKey_inject distinct_map)
  ultimately obtain out where "read_keys dec_dns (\<lambda>_. False) 1 (kv_scan ''dns:internal:'' kv') kv' = Inr out"
      "sort_key dns_Name out = sort_key dns_Name rs"
    using ok(2) read_family [of kv' "''dns:internal:''" ?key rs DnsV dec_dns dns_Name 1] by (auto simp: dec_dns_def dns_records_ok_def)
  with r show ?thesis by (simp add: ListInternalDNS_def)
qed

end
