(* ===== verification/Inflight.thy ===== *)
theory Inflight
  imports RouteCatalog Floats
begin

text \<open>
  Choosing a backend under the per-machine concurrency limit (the \<open>inflightTracker\<close> and \<open>selectBackend\<close> of
  \<open>internal/edge/handler.go\<close>). The tracker's operations run under its mutex, so each is one step. The random
  draws are parameters: \<open>intn n\<close> is \<open>rand.Intn\<close> and \<open>u\<close> is \<open>rand.Float64\<close>.
\<close>

section \<open>The tracker\<close>

type_synonym inflight = "(string, int) gomap"

definition newInflightTracker :: inflight where
  "newInflightTracker = []"

definition inflight_of :: "string \<Rightarrow> inflight \<Rightarrow> int" where
  "inflight_of machine t = (case mget t machine of None \<Rightarrow> 0 | Some n \<Rightarrow> n)"

definition inflight_release :: "string \<Rightarrow> inflight \<Rightarrow> inflight" where
  "inflight_release machine t =
     (case mget t machine of None \<Rightarrow> t | Some n \<Rightarrow> if n - 1 = 0 then mdel machine t else mset_at machine (n - 1) t)"

definition inflight_snapshot :: "inflight \<Rightarrow> (string, int) gomap" where
  "inflight_snapshot t = filter (\<lambda>(k, n). 0 < n) t"

definition InflightTotal :: "inflight \<Rightarrow> int \<times> int" where
  "InflightTotal t = (sum_list (map snd (inflight_snapshot t)), int (length (inflight_snapshot t)))"

definition effectiveWeight :: "Backend \<Rightarrow> int" where
  "effectiveWeight b = (if be_Weight b \<le> 0 then 1 else be_Weight b)"

record inflightCandidate =
  ic_backend :: Backend
  ic_inflight :: int
  ic_weight :: int

definition candidate :: "inflight \<Rightarrow> Backend \<Rightarrow> inflightCandidate" where
  "candidate t b = \<lparr>ic_backend = b, ic_inflight = inflight_of (be_MachineID b) t, ic_weight = effectiveWeight b\<rparr>"

definition below_limit :: "int \<Rightarrow> inflight \<Rightarrow> Backend list \<Rightarrow> inflightCandidate list" where
  "below_limit hard t bs = filter (\<lambda>c. ic_inflight c < hard) (map (candidate t) bs)"

definition dampedWeight :: "inflightCandidate \<Rightarrow> rat" where
  "dampedWeight c = fdiv (float_of_int (ic_weight c)) (float_of_int (1 + ic_inflight c))"

definition allEqualWeights :: "inflightCandidate list \<Rightarrow> bool" where
  "allEqualWeights cs = (case cs of [] \<Rightarrow> True | c # rest \<Rightarrow> list_all (\<lambda>d. ic_weight d = ic_weight c) rest)"

definition acquireLocked :: "Backend \<Rightarrow> inflight \<Rightarrow> inflight" where
  "acquireLocked b t = mset_at (be_MachineID b) (inflight_of (be_MachineID b) t + 1) t"

definition least_pool :: "inflightCandidate list \<Rightarrow> inflightCandidate list" where
  "least_pool cs = (let m = fold (\<lambda>c m. min (ic_inflight c) m) (tl cs) (ic_inflight (hd cs)) in filter (\<lambda>c. ic_inflight c = m) cs)"

text \<open>The weighted draw: the first candidate whose share takes the draw below zero, if any.\<close>

fun weighted_pick :: "rat \<Rightarrow> inflightCandidate list \<Rightarrow> inflightCandidate option" where
  "weighted_pick pick [] = None"
| "weighted_pick pick (c # cs) =
     (let rest = fadd pick (- dampedWeight c) in if rest < 0 then Some c else weighted_pick rest cs)"

definition draw :: "(nat \<Rightarrow> nat) \<Rightarrow> rat \<Rightarrow> inflightCandidate list \<Rightarrow> inflightCandidate" where
  "draw intn u cs =
     (if allEqualWeights cs then (let pool = least_pool cs in pool ! intn (length pool))
      else (let weights_sum = fold (\<lambda>c a. fadd a (dampedWeight c)) cs 0 in
            case weighted_pick (fmul u weights_sum) cs of Some c \<Rightarrow> c | None \<Rightarrow> last cs))"

text \<open>\<open>None\<close> when every backend is at the limit.\<close>

definition selectAndAcquire :: "(nat \<Rightarrow> nat) \<Rightarrow> rat \<Rightarrow> Backend list \<Rightarrow> int \<Rightarrow> inflight \<Rightarrow> Backend option \<times> inflight" where
  "selectAndAcquire intn u bs hard t =
     (let cs = below_limit hard t bs in
      if cs = [] then (None, t)
      else (let b = ic_backend (draw intn u cs) in (Some b, acquireLocked b t)))"

section \<open>Choosing among the backends of a route\<close>

definition eligible_backend :: "Backend \<Rightarrow> bool" where
  "eligible_backend b \<longleftrightarrow> \<not> be_Draining b \<and> IsServingReadiness (be_Readiness b)"

datatype select_err = ErrNoEligible | ErrPinMiss | ErrHardLimit

text \<open>Which backends the loop counts as ineligible, by the reason of the counter.\<close>

record ineligible =
  in_empty :: u64
  in_notReady :: u64
  in_unknown :: u64

definition count_ineligible :: "Backend \<Rightarrow> ineligible \<Rightarrow> ineligible" where
  "count_ineligible b n =
     (if be_Draining b \<or> IsServingReadiness (be_Readiness b) then n
      else if be_Readiness b = '''' then n\<lparr>in_empty := in_empty n + 1\<rparr>
      else if be_Readiness b = ''NOT_READY'' then n\<lparr>in_notReady := in_notReady n + 1\<rparr>
      else n\<lparr>in_unknown := in_unknown n + 1\<rparr>)"

definition selectBackend :: "(nat \<Rightarrow> nat) \<Rightarrow> rat \<Rightarrow> int \<Rightarrow> Route \<Rightarrow> string \<Rightarrow> inflight \<times> ineligible \<Rightarrow>
    (select_err + Backend) \<times> inflight \<times> ineligible" where
  "selectBackend intn u hard route pin s =
     (let (t, n) = s;
          n' = fold count_ineligible (rt_Backends route) n;
          bs = filter eligible_backend (rt_Backends route);
          acquire = (\<lambda>bs. case selectAndAcquire intn u bs hard t of
             (None, t') \<Rightarrow> (Inl ErrHardLimit, t', n') | (Some b, t') \<Rightarrow> (Inr b, t', n')) in
      if bs = [] then (Inl ErrNoEligible, t, n')
      else if pin \<noteq> '''' then
        (case List.find (\<lambda>b. be_MachineID b = pin) bs of
           None \<Rightarrow> (Inl ErrPinMiss, t, n')
         | Some b \<Rightarrow> acquire [b])
      else acquire bs)"

section \<open>What is chosen\<close>

lemma min_fold: "fold (\<lambda>c m. min (f c) m) cs (a :: int) = Min (insert a (f ` set cs))"
proof (induction cs arbitrary: a)
  case (Cons c cs)
  then show ?case
    by (cases "cs = []") (auto simp: min.commute min.left_commute insert_commute)
qed simp

lemma least_pool_spec:
  assumes "cs \<noteq> []"
  shows "least_pool cs \<noteq> []" and "c \<in> set (least_pool cs) \<longleftrightarrow> c \<in> set cs \<and> (\<forall>d \<in> set cs. ic_inflight c \<le> ic_inflight d)"
proof -
  obtain d ds where cs: "cs = d # ds" using assms by (cases cs) auto
  define m where "m = Min (ic_inflight ` set cs)"
  have pool: "least_pool cs = filter (\<lambda>c. ic_inflight c = m) cs"
    by (simp add: least_pool_def Let_def cs min_fold m_def)
  have le: "\<forall>d \<in> set cs. m \<le> ic_inflight d" by (simp add: m_def)
  have "m \<in> ic_inflight ` set cs" unfolding m_def by (rule Min_in) (use assms in auto)
  then show "least_pool cs \<noteq> []" unfolding pool by (auto simp: filter_empty_conv)
  show "c \<in> set (least_pool cs) \<longleftrightarrow> c \<in> set cs \<and> (\<forall>d \<in> set cs. ic_inflight c \<le> ic_inflight d)"
    using le \<open>m \<in> ic_inflight ` set cs\<close> unfolding pool by force
qed

text \<open>\<open>rand.Intn\<close> returns a number below its positive argument.\<close>

definition intn_ok :: "(nat \<Rightarrow> nat) \<Rightarrow> bool" where
  "intn_ok intn \<longleftrightarrow> (\<forall>n. 0 < n \<longrightarrow> intn n < n)"

lemma weighted_pick_in: "weighted_pick p cs = Some c \<Longrightarrow> c \<in> set cs"
  by (induction p cs rule: weighted_pick.induct) (auto simp: Let_def split: if_splits)

lemma draw_in:
  assumes "cs \<noteq> []" "intn_ok intn"
  shows "draw intn u cs \<in> set cs"
    and "allEqualWeights cs \<Longrightarrow> d \<in> set cs \<Longrightarrow> ic_inflight (draw intn u cs) \<le> ic_inflight d"
proof -
  have pool: "least_pool cs ! intn (length (least_pool cs)) \<in> set (least_pool cs)"
    using least_pool_spec(1) [OF assms(1)] assms(2) by (auto simp: intn_ok_def intro!: nth_mem)
  then show "draw intn u cs \<in> set cs"
    using least_pool_spec(2) [OF assms(1)] assms(1)
    by (auto simp: draw_def Let_def dest: weighted_pick_in split: option.splits)
  show "ic_inflight (draw intn u cs) \<le> ic_inflight d" if "allEqualWeights cs" "d \<in> set cs"
    using pool least_pool_spec(2) [OF assms(1)] that by (auto simp: draw_def Let_def)
qed

lemma selectAndAcquire_None:
  "selectAndAcquire intn u bs hard t = (None, t') \<Longrightarrow> t' = t \<and> (\<forall>b \<in> set bs. hard \<le> inflight_of (be_MachineID b) t)"
  by (auto simp: selectAndAcquire_def Let_def below_limit_def filter_empty_conv candidate_def not_less split: if_splits)

lemma selectAndAcquire_Some:
  assumes "intn_ok intn" "selectAndAcquire intn u bs hard t = (Some b, t')"
  shows "b \<in> set bs" "inflight_of (be_MachineID b) t < hard" "t' = acquireLocked b t"
    "allEqualWeights (below_limit hard t bs) \<Longrightarrow> d \<in> set bs \<Longrightarrow> inflight_of (be_MachineID d) t < hard \<Longrightarrow>
       inflight_of (be_MachineID b) t \<le> inflight_of (be_MachineID d) t"
proof -
  let ?cs = "below_limit hard t bs"
  have ne: "?cs \<noteq> []" and b: "b = ic_backend (draw intn u ?cs)" and t': "t' = acquireLocked b t"
    using assms(2) by (auto simp: selectAndAcquire_def Let_def split: if_splits)
  have "draw intn u ?cs \<in> set ?cs" using draw_in(1) [OF ne assms(1)] .
  then have c: "draw intn u ?cs = candidate t b" "b \<in> set bs" "inflight_of (be_MachineID b) t < hard"
    using b by (auto simp: below_limit_def candidate_def)
  then show "b \<in> set bs" "inflight_of (be_MachineID b) t < hard" "t' = acquireLocked b t" using t' by auto
  show "inflight_of (be_MachineID b) t \<le> inflight_of (be_MachineID d) t"
    if "allEqualWeights ?cs" "d \<in> set bs" "inflight_of (be_MachineID d) t < hard"
    using draw_in(2) [OF ne assms(1) that(1), of "candidate t d" u] that c(1) by (auto simp: below_limit_def candidate_def)
qed


lemma selectBackend_spec:
  assumes "intn_ok intn" and res: "selectBackend intn u hard route pin (t, n) = (r, t', n')"
  shows "(case r of
      Inr b \<Rightarrow> b \<in> set (rt_Backends route) \<and> eligible_backend b \<and> (pin \<noteq> '''' \<longrightarrow> be_MachineID b = pin) \<and>
        inflight_of (be_MachineID b) t < hard \<and> t' = acquireLocked b t \<and>
        (pin = '''' \<and> allEqualWeights (below_limit hard t (filter eligible_backend (rt_Backends route))) \<longrightarrow>
          (\<forall>d \<in> set (rt_Backends route). eligible_backend d \<and> inflight_of (be_MachineID d) t < hard \<longrightarrow>
             inflight_of (be_MachineID b) t \<le> inflight_of (be_MachineID d) t))
    | Inl e \<Rightarrow> t' = t \<and>
        (e = ErrNoEligible \<longleftrightarrow> (\<forall>b \<in> set (rt_Backends route). \<not> eligible_backend b)) \<and>
        (e = ErrPinMiss \<longrightarrow> pin \<noteq> '''' \<and> (\<forall>b \<in> set (rt_Backends route). eligible_backend b \<longrightarrow> be_MachineID b \<noteq> pin)) \<and>
        (e = ErrHardLimit \<longrightarrow> (\<exists>b \<in> set (rt_Backends route). eligible_backend b) \<and>
           (\<forall>b \<in> set (rt_Backends route). eligible_backend b \<and> (pin = '''' \<or> be_MachineID b = pin) \<longrightarrow>
              hard \<le> inflight_of (be_MachineID b) t)))"
proof -
  let ?bs = "filter eligible_backend (rt_Backends route)"
  show ?thesis
  proof (cases "?bs = []")
    case True
    then show ?thesis using res by (auto simp: selectBackend_def filter_empty_conv)
  next
    case ne: False
    then have ex: "\<exists>b \<in> set (rt_Backends route). eligible_backend b" by (auto simp: filter_empty_conv)
    show ?thesis
    proof (cases "pin = ''''")
      case True
      obtain x t1 where sel: "selectAndAcquire intn u ?bs hard t = (x, t1)" by fastforce
      show ?thesis
      proof (cases x)
        case None
        with res sel ne True have "r = Inl ErrHardLimit" "t' = t1" by (auto simp: selectBackend_def Let_def)
        with selectAndAcquire_None [OF sel [unfolded None]] ex show ?thesis by auto
      next
        case (Some b)
        with res sel ne True have "r = Inr b" "t' = t1" by (auto simp: selectBackend_def Let_def)
        with selectAndAcquire_Some [OF assms(1) sel [unfolded Some]] True show ?thesis by auto
      qed
    next
      case pin: False
      show ?thesis
      proof (cases "List.find (\<lambda>b. be_MachineID b = pin) ?bs")
        case None
        with res ne pin have "r = Inl ErrPinMiss" "t' = t" by (auto simp: selectBackend_def Let_def)
        with None pin ex show ?thesis by (auto simp: find_None_iff)
      next
        case (Some b0)
        then have b0: "b0 \<in> set ?bs" "be_MachineID b0 = pin" by (auto dest: find_SomeD)
        obtain x t1 where sel: "selectAndAcquire intn u [b0] hard t = (x, t1)" by fastforce
        show ?thesis
        proof (cases x)
          case None
          with res sel ne pin Some have "r = Inl ErrHardLimit" "t' = t1" by (auto simp: selectBackend_def Let_def)
          with selectAndAcquire_None [OF sel [unfolded None]] ex b0 pin show ?thesis by auto
        next
          case (Some b)
          with res sel ne pin \<open>List.find _ ?bs = Some b0\<close> have "r = Inr b" "t' = t1" by (auto simp: selectBackend_def Let_def)
          with selectAndAcquire_Some [OF assms(1) sel [unfolded Some]] b0 pin show ?thesis by auto
        qed
      qed
    qed
  qed
qed

text \<open>What \<open>selectBackend\<close> decides. A chosen backend belongs to the route, is not draining, has a serving readiness, is the pinned
  machine when the request pins one, had a free slot, and takes one; without a pin and with equal weights no eligible
  backend below the limit was less loaded. An error leaves the slots alone and is the right one: no eligible backend at all;
  the pinned machine not among them; or every candidate at its limit.
\<close>

lemma selectBackend_decides:
  assumes "intn_ok intn" and res: "selectBackend intn u hard route pin (t, n) = (r, t', n')"
  shows "(case r of
      Inr b \<Rightarrow> b \<in> set (rt_Backends route) \<and> eligible_backend b \<and> (pin \<noteq> '''' \<longrightarrow> be_MachineID b = pin) \<and>
        inflight_of (be_MachineID b) t < hard \<and> t' = acquireLocked b t \<and>
        (pin = '''' \<and> allEqualWeights (below_limit hard t (filter eligible_backend (rt_Backends route))) \<longrightarrow>
          (\<forall>d \<in> set (rt_Backends route). eligible_backend d \<and> inflight_of (be_MachineID d) t < hard \<longrightarrow>
             inflight_of (be_MachineID b) t \<le> inflight_of (be_MachineID d) t))
    | Inl e \<Rightarrow> t' = t \<and>
        (e = ErrNoEligible \<longleftrightarrow> (\<forall>b \<in> set (rt_Backends route). \<not> eligible_backend b)) \<and>
        (e = ErrPinMiss \<longrightarrow> pin \<noteq> '''' \<and> (\<forall>b \<in> set (rt_Backends route). eligible_backend b \<longrightarrow> be_MachineID b \<noteq> pin)) \<and>
        (e = ErrHardLimit \<longrightarrow> (\<exists>b \<in> set (rt_Backends route). eligible_backend b) \<and>
           (\<forall>b \<in> set (rt_Backends route). eligible_backend b \<and> (pin = '''' \<or> be_MachineID b = pin) \<longrightarrow>
              hard \<le> inflight_of (be_MachineID b) t)))"
  by (rule selectBackend_spec [OF assms])

definition example_backend :: "string \<Rightarrow> int \<Rightarrow> string \<Rightarrow> Backend" where
  "example_backend m weight readiness =
     \<lparr>be_MachineID = m, be_ExecutionID = ''x-'' @ m, be_NodeProxyEndpoint = ''node:5107'', be_AppPort = 80, be_Readiness = readiness,
      be_Weight = weight, be_Draining = False, be_ULA = '''', be_IdentityID = 0, be_Generation = 1, be_DeploymentGeneration = 1\<rparr>"

definition example_backends :: Route where
  "example_backends = \<lparr>rt_RouteGeneration = 1, rt_Revision = 1,
     rt_Backends = [example_backend ''a'' 100 ''READY'', example_backend ''b'' 100 ''UNCONFIGURED'', example_backend ''c'' 100 ''NOT_READY'']\<rparr>"

lemma selectBackend_decides_witness:
  "(let b = example_backend ''b'' 100 ''UNCONFIGURED'' in eligible_backend b \<and> inflight_of ''b'' [(''a'', 2), (''b'', 1)] < 3)"
proof -
  have i: "intn_ok (\<lambda>n. 0)" by (simp add: intn_ok_def)
  have "selectBackend (\<lambda>n. 0) 0 3 example_backends '''' ([(''a'', 2), (''b'', 1)], \<lparr>in_empty = 0, in_notReady = 0, in_unknown = 0\<rparr>) =
    (Inr (example_backend ''b'' 100 ''UNCONFIGURED''), [(''a'', 2), (''b'', 2)], \<lparr>in_empty = 0, in_notReady = 1, in_unknown = 0\<rparr>)"
    by code_simp
  from selectBackend_decides [OF i this] show ?thesis by (simp add: example_backend_def)
qed

text \<open>
  The weighted draw can end without a choice: rounding lets the draw survive every share, and then the last candidate
  is taken. Here with the greatest value \<open>rand.Float64\<close> returns.
\<close>

lemma weighted_draw_falls_through:
  "weighted_pick (fmul ((2 ^ 53 - 1) / 2 ^ 53)
      (fold (\<lambda>c a. fadd a (dampedWeight c))
        [candidate [(''a'', 2)] (example_backend ''a'' 50 ''READY''), candidate [(''b'', 1)] (example_backend ''b'' 90 ''READY'')] 0))
     [candidate [(''a'', 2)] (example_backend ''a'' 50 ''READY''), candidate [(''b'', 1)] (example_backend ''b'' 90 ''READY'')] = None"
  by code_simp

section \<open>Slots\<close>

text \<open>The tracker counts exactly the slots held, and keeps no entry for a machine without one.\<close>

definition slots_ok :: "string list \<Rightarrow> inflight \<Rightarrow> bool" where
  "slots_ok held t \<longleftrightarrow>
     (\<forall>m. mget t m = (if m \<in> set held then Some (int (count_list held m)) else None))"

lemma slots_ok_empty: "slots_ok [] newInflightTracker"
  by (simp add: slots_ok_def newInflightTracker_def)

lemma slots_ok_inflight: "slots_ok held t \<Longrightarrow> inflight_of m t = int (count_list held m)"
  by (auto simp: slots_ok_def inflight_of_def count_list_0_iff)

lemma slots_ok_acquire: "slots_ok held t \<Longrightarrow> slots_ok (be_MachineID b # held) (acquireLocked b t)"
  using slots_ok_inflight [of held t "be_MachineID b"] by (auto simp: slots_ok_def acquireLocked_def)

lemma count_list_remove1: "count_list (remove1 x xs) y = (if y = x then count_list xs y - 1 else count_list xs y)"
  by (induction xs) auto

lemma in_set_remove1_count: "y \<in> set (remove1 x xs) \<longleftrightarrow> (if y = x then 1 < count_list xs x else y \<in> set xs)"
  using count_list_0_iff [of "remove1 x xs" y] count_list_0_iff [of xs y] by (auto simp: count_list_remove1)

lemma slots_ok_release:
  assumes ok: "slots_ok held t" and m: "m \<in> set held"
  shows "slots_ok (remove1 m held) (inflight_release m t)"
proof -
  have c: "mget t m = Some (int (count_list held m))" "0 < count_list held m"
    using ok m count_list_0_iff [of held m] by (auto simp: slots_ok_def)
  show ?thesis
  proof (cases "count_list held m = 1")
    case True
    with ok c m show ?thesis by (auto simp: slots_ok_def inflight_release_def in_set_remove1_count count_list_remove1)
  next
    case False
    with ok c m show ?thesis
      by (auto simp: slots_ok_def inflight_release_def in_set_remove1_count count_list_remove1 of_nat_diff)
  qed
qed

lemma slots_ok_mset: "slots_ok held t \<Longrightarrow> mset held = mset held' \<Longrightarrow> slots_ok held' t"
  unfolding slots_ok_def by (metis count_mset set_mset_mset)

end
