(* ===== verification/HttpProxy.thy ===== *)
theory HttpProxy
  imports GoStrings
begin

text \<open>
  The part of Go's \<open>net/http\<close> and \<open>httputil.ReverseProxy\<close> (Go 1.25) that the two proxies of the system run on:
  header maps with canonical names, the order in which a reverse proxy rewrites a request (the
  \<open>Director\<close> first, the hop-by-hop headers after it), and how it answers. A header name is a text of
  ASCII bytes; bodies are texts.
\<close>

named_theorems header_simps \<open>lookups in rewritten header maps\<close>

section \<open>Header maps\<close>

type_synonym headers = "(string, string list) gomap"

definition token_char :: "char \<Rightarrow> bool" where
  "token_char c \<longleftrightarrow> is_upper c \<or> is_lower c \<or> is_digit c \<or> c \<in> set ''!#$%&*+-.^_|~'' \<or> c = CHR 0x27 \<or> c = CHR 0x60"

definition upper_char :: "char \<Rightarrow> char" where
  "upper_char c = (if is_lower c then char_of (of_char c - 32 :: nat) else c)"

fun canonical_from :: "bool \<Rightarrow> string \<Rightarrow> string" where
  "canonical_from up [] = []"
| "canonical_from up (c # s) =
     (let c' = (if up then upper_char c else lower_char c) in c' # canonical_from (c' = CHR ''-'') s)"

text \<open>\<open>textproto.CanonicalMIMEHeaderKey\<close>.\<close>

definition CanonicalKey :: "string \<Rightarrow> string" where
  "CanonicalKey s = (if list_all token_char s then canonical_from True s else s)"

definition hValues :: "headers \<Rightarrow> string \<Rightarrow> string list" where
  "hValues h name = (case mget h (CanonicalKey name) of None \<Rightarrow> [] | Some vs \<Rightarrow> vs)"

definition hGet :: "headers \<Rightarrow> string \<Rightarrow> string" where
  "hGet h name = (case hValues h name of [] \<Rightarrow> '''' | v # _ \<Rightarrow> v)"

definition hSet :: "string \<Rightarrow> string \<Rightarrow> headers \<Rightarrow> headers" where
  "hSet name v h = mset_at (CanonicalKey name) [v] h"

definition hAdd :: "string \<Rightarrow> string \<Rightarrow> headers \<Rightarrow> headers" where
  "hAdd name v h = mset_at (CanonicalKey name) (hValues h name @ [v]) h"

definition hDel :: "string \<Rightarrow> headers \<Rightarrow> headers" where
  "hDel name h = mdel (CanonicalKey name) h"

definition hDelAll :: "string list \<Rightarrow> headers \<Rightarrow> headers" where
  "hDelAll names h = fold hDel names h"

lemma mget_hSet [header_simps]: "mget (hSet name v h) k = (if k = CanonicalKey name then Some [v] else mget h k)"
  by (simp add: hSet_def)

lemma mget_hDel [header_simps]: "mget (hDel name h) k = (if k = CanonicalKey name then None else mget h k)"
  by (simp add: hDel_def)

lemma mget_hDelAll [header_simps]: "mget (hDelAll names h) k = (if k \<in> CanonicalKey ` set names then None else mget h k)"
  unfolding hDelAll_def by (induction names arbitrary: h) (auto simp: mget_hDel)

section \<open>Rewriting a request\<close>

text \<open>The elements of a comma-separated header value.\<close>

definition list_elements :: "string \<Rightarrow> string list" where
  "list_elements v = filter (\<lambda>e. e \<noteq> '''') (map TrimSpace (Split (CHR '','') v))"

definition hopHeaders :: "string list" where
  "hopHeaders = [''Connection'', ''Proxy-Connection'', ''Keep-Alive'', ''Proxy-Authenticate'', ''Proxy-Authorization'',
     ''Te'', ''Trailer'', ''Transfer-Encoding'', ''Upgrade'']"

definition connection_names :: "headers \<Rightarrow> string list" where
  "connection_names h = concat (map list_elements (hValues h ''Connection''))"

definition removeHopByHopHeaders :: "headers \<Rightarrow> headers" where
  "removeHopByHopHeaders h = hDelAll hopHeaders (hDelAll (connection_names h) h)"

definition contains_token :: "string list \<Rightarrow> string \<Rightarrow> bool" where
  "contains_token vs tok \<longleftrightarrow> list_ex (\<lambda>v. list_ex (\<lambda>e. ToLower e = ToLower tok) (list_elements v)) vs"

definition upgradeType :: "headers \<Rightarrow> string" where
  "upgradeType h = (if contains_token (hValues h ''Connection'') ''Upgrade'' then hGet h ''Upgrade'' else '''')"

text \<open>The steps after the removal.\<close>

definition keep_trailers :: "headers \<Rightarrow> headers \<Rightarrow> headers" where
  "keep_trailers inbound h =
     (if contains_token (hValues inbound ''Te'') ''trailers'' then hSet ''Te'' ''trailers'' h else h)"

definition keep_upgrade :: "string \<Rightarrow> headers \<Rightarrow> headers" where
  "keep_upgrade up h = (if up \<noteq> '''' then hSet ''Upgrade'' up (hSet ''Connection'' ''Upgrade'' h) else h)"

definition forwarded_for :: "string option \<Rightarrow> headers \<Rightarrow> headers" where
  "forwarded_for clientIP h =
     (case clientIP of
        None \<Rightarrow> h
      | Some ip \<Rightarrow>
          (let prior = hValues h ''X-Forwarded-For'' in
           hSet ''X-Forwarded-For'' (if prior = [] then ip else join '', '' prior @ '', '' @ ip) h))"

definition default_agent :: "headers \<Rightarrow> headers" where
  "default_agent h = (if mget h (CanonicalKey ''User-Agent'') = None then hSet ''User-Agent'' '''' h else h)"

text \<open>The headers of the outgoing request: \<open>inbound\<close> as received, \<open>directed\<close> as the \<open>Director\<close> left them.\<close>

definition out_headers :: "string option \<Rightarrow> headers \<Rightarrow> headers \<Rightarrow> headers" where
  "out_headers clientIP inbound directed =
     default_agent (forwarded_for clientIP (keep_upgrade (upgradeType directed)
       (keep_trailers inbound (removeHopByHopHeaders directed))))"

section \<open>Answering\<close>

record ResponseWriter =
  rw_header :: headers
  rw_status :: "int option"
  rw_body :: string

definition WriteHeader :: "int \<Rightarrow> ResponseWriter \<Rightarrow> ResponseWriter" where
  "WriteHeader code w = (if rw_status w = None then w\<lparr>rw_status := Some code\<rparr> else w)"

definition rw_write :: "string \<Rightarrow> ResponseWriter \<Rightarrow> ResponseWriter" where
  "rw_write s w = (let w1 = WriteHeader 200 w in w1\<lparr>rw_body := rw_body w1 @ s\<rparr>)"

definition http_Error :: "string \<Rightarrow> int \<Rightarrow> ResponseWriter \<Rightarrow> ResponseWriter" where
  "http_Error msg code w = rw_write (msg @ [CHR 0x0A]) (WriteHeader code w)"

definition rw_set :: "string \<Rightarrow> string \<Rightarrow> ResponseWriter \<Rightarrow> ResponseWriter" where
  "rw_set name v w = w\<lparr>rw_header := hSet name v (rw_header w)\<rparr>"

text \<open>A response of the other side, and what a round trip gives.\<close>

record Response =
  rs_status :: int
  rs_header :: headers
  rs_body :: string

datatype upstream_err = ErrRetryForbidden | ErrRetryProxyRoute | ErrNoDirect | ErrDial | ErrTransport

text \<open>
  The answer of the reverse proxy: the response hook may change the headers or refuse the response, and
  every failure goes to the error handler, which also sees what the caller attached to the request.
  \<open>copyHeader\<close> adds to what is already set.
\<close>

definition copyHeader :: "headers \<Rightarrow> headers \<Rightarrow> headers" where
  "copyHeader src dst = fold (\<lambda>(k, vs). fold (hAdd k) vs) src dst"

type_synonym response_hook = "int \<Rightarrow> headers \<Rightarrow> upstream_err option \<times> headers"

type_synonym 'a error_hook = "upstream_err \<Rightarrow> ResponseWriter \<times> 'a \<Rightarrow> ResponseWriter \<times> 'a"

definition send_response :: "Response \<Rightarrow> headers \<Rightarrow> ResponseWriter \<Rightarrow> ResponseWriter" where
  "send_response r h w = rw_write (rs_body r) (WriteHeader (rs_status r) (w\<lparr>rw_header := copyHeader h (rw_header w)\<rparr>))"

definition proxy_answer :: "response_hook \<Rightarrow> 'a error_hook \<Rightarrow> string \<Rightarrow> (upstream_err + Response) \<Rightarrow>
    ResponseWriter \<times> 'a \<Rightarrow> ResponseWriter \<times> 'a" where
  "proxy_answer modify on_error up result ws =
     (case result of
        Inl e \<Rightarrow> on_error e ws
      | Inr r \<Rightarrow>
          let h = (if rs_status r = 101 then rs_header r else removeHopByHopHeaders (rs_header r)) in
          (case modify (rs_status r) h of
             (Some e, _) \<Rightarrow> on_error e ws
           | (None, h') \<Rightarrow>
               if rs_status r = 101 \<and> ToLower (upgradeType h') \<noteq> ToLower up then on_error ErrTransport ws
               else (send_response r h' (fst ws), snd ws)))"

text \<open>\<open>ReverseProxy.ServeHTTP\<close>: the headers sent, if any, and the answer.\<close>

definition is_print :: "string \<Rightarrow> bool" where
  "is_print s \<longleftrightarrow> list_all (\<lambda>c. 32 \<le> (of_char c :: nat) \<and> (of_char c :: nat) \<le> 126) s"

definition proxy_serve :: "string option \<Rightarrow> (headers \<Rightarrow> headers) \<Rightarrow> response_hook \<Rightarrow> 'a error_hook \<Rightarrow>
    (headers \<Rightarrow> upstream_err + Response) \<Rightarrow> headers \<Rightarrow> ResponseWriter \<times> 'a \<Rightarrow> headers option \<times> ResponseWriter \<times> 'a" where
  "proxy_serve clientIP director modify on_error roundTrip inbound ws =
     (let directed = director inbound; up = upgradeType directed in
      if \<not> is_print up then (None, on_error ErrTransport ws)
      else let out = out_headers clientIP inbound directed in
        (Some out, proxy_answer modify on_error up (roundTrip out) ws))"

section \<open>Laws\<close>

text \<open>
  Headers outside the proxy's own names are forwarded as the \<open>Director\<close> left them, unless the request names
  them in its \<open>Connection\<close> header: then they are dropped, also when the \<open>Director\<close> set them.
\<close>

definition proxy_names :: "string list" where
  "proxy_names = hopHeaders @ [''X-Forwarded-For'', ''User-Agent'']"

lemma out_headers_get:
  assumes "k \<notin> CanonicalKey ` set proxy_names"
  shows "mget (out_headers ip inbound directed) k =
    (if k \<in> CanonicalKey ` set (connection_names directed) then None else mget directed k)"
proof -
  have k: "k \<noteq> CanonicalKey ''Te''" "k \<noteq> CanonicalKey ''Connection''" "k \<noteq> CanonicalKey ''Upgrade''"
      "k \<noteq> CanonicalKey ''X-Forwarded-For''" "k \<noteq> CanonicalKey ''User-Agent''" "k \<notin> CanonicalKey ` set hopHeaders"
    using assms unfolding proxy_names_def hopHeaders_def by simp_all
  have "mget (removeHopByHopHeaders directed) k =
      (if k \<in> CanonicalKey ` set (connection_names directed) then None else mget directed k)"
    using k(6) by (simp add: removeHopByHopHeaders_def mget_hDelAll)
  moreover have "mget (keep_trailers inbound h) k = mget h k" "mget (keep_upgrade up h) k = mget h k"
      "mget (forwarded_for ip h) k = mget h k" "mget (default_agent h) k = mget h k" for h up
    using k by (simp_all add: keep_trailers_def keep_upgrade_def forwarded_for_def default_agent_def mget_hSet Let_def split: option.split)
  ultimately show ?thesis by (simp add: out_headers_def)
qed

lemma WriteHeader_once: "rw_status w = Some s \<Longrightarrow> WriteHeader code w = w"
  by (simp add: WriteHeader_def)

lemma rw_status_simps [simp]:
  "rw_status (WriteHeader code w) = (case rw_status w of None \<Rightarrow> Some code | Some s \<Rightarrow> Some s)"
  "rw_status (rw_write s w) = (case rw_status w of None \<Rightarrow> Some 200 | Some c \<Rightarrow> Some c)"
  "rw_status (http_Error msg code w) = (case rw_status w of None \<Rightarrow> Some code | Some c \<Rightarrow> Some c)"
  "rw_status (rw_set name v w) = rw_status w"
  by (auto simp: WriteHeader_def rw_write_def http_Error_def rw_set_def Let_def split: option.splits)

lemma rw_header_simps [simp]:
  "rw_header (WriteHeader code w) = rw_header w" "rw_header (rw_write s w) = rw_header w"
  "rw_header (http_Error msg code w) = rw_header w" "rw_header (rw_set name v w) = hSet name v (rw_header w)"
  by (simp_all add: WriteHeader_def rw_write_def http_Error_def rw_set_def Let_def)

lemma hValues_hAdd: "mget (hAdd name v h) k = (if k = CanonicalKey name then Some (hValues h name @ [v]) else mget h k)"
  by (simp add: hAdd_def)

text \<open>Copying adds only the names of the source.\<close>

lemma copyHeader_other:
  assumes "k \<notin> CanonicalKey ` fst ` set src"
  shows "mget (copyHeader src dst) k = mget dst k"
proof -
  have "mget (fold (hAdd n) vs d) k = mget d k" if "k \<noteq> CanonicalKey n" for n vs d
    using that by (induction vs arbitrary: d) (auto simp: hValues_hAdd)
  with assms show ?thesis
    unfolding copyHeader_def by (induction src arbitrary: dst) (auto split: prod.splits)
qed

end
