(* ===== verification/RateLimit.thy ===== *)
theory RateLimit
  imports Lru Floats
begin

text \<open>
  Token buckets: the contract they share, and the edge's limiter per host name (\<open>RateLimiter\<close> of
  \<open>internal/edge/edge.go\<close>), whose buckets live in the bounded cache. Times are nanoseconds, levels
  and rates are \<open>float64\<close>.
\<close>

section \<open>The contract\<close>

text \<open>The number of requests a bucket grants out of \<open>k\<close>.\<close>

fun granted_of :: "('s \<Rightarrow> bool \<times> 's) \<Rightarrow> nat \<Rightarrow> 's \<Rightarrow> nat" where
  "granted_of t 0 s = 0"
| "granted_of t (Suc k) s = (if fst (t s) then 1 else 0) + granted_of t k (snd (t s))"

text \<open>
  Taking from a bucket at one instant: \<open>level\<close> is what the bucket holds then, refill included. A granted
  request lowers the level by one token, a refused one does not raise it. Levels are exact below \<open>2^53\<close>.
\<close>

locale token_bucket =
  fixes take_token :: "'s \<Rightarrow> bool \<times> 's" and level :: "'s \<Rightarrow> rat" and sound :: "'s \<Rightarrow> bool"
  assumes sound_take: "sound s \<Longrightarrow> sound (snd (take_token s))"
    and granted: "sound s \<Longrightarrow> fst (take_token s) \<Longrightarrow> level s \<le> of_nat n \<Longrightarrow> n < 2 ^ 53 \<Longrightarrow>
          0 < n \<and> level (snd (take_token s)) \<le> of_nat (n - 1)"
    and refused: "sound s \<Longrightarrow> \<not> fst (take_token s) \<Longrightarrow> level (snd (take_token s)) \<le> level s"
begin

text \<open>However many requests arrive at one instant, no more are granted than the bucket holds.\<close>

lemma grants_bound: "sound s \<Longrightarrow> level s \<le> of_nat n \<Longrightarrow> n < 2 ^ 53 \<Longrightarrow> granted_of take_token k s \<le> n"
proof (induction k arbitrary: s n)
  case (Suc k)
  have s': "sound (snd (take_token s))" using sound_take [OF Suc.prems(1)] .
  show ?case
  proof (cases "fst (take_token s)")
    case True
    from granted [OF Suc.prems(1) this Suc.prems(2,3)] have n: "0 < n" "level (snd (take_token s)) \<le> of_nat (n - 1)" by auto
    have "granted_of take_token k (snd (take_token s)) \<le> n - 1"
      using Suc.IH [OF s' n(2)] Suc.prems(3) less_imp_diff_less by blast
    with n(1) True show ?thesis by simp
  next
    case False
    from refused [OF Suc.prems(1) this] Suc.prems(2) have "level (snd (take_token s)) \<le> of_nat n" by (rule order_trans)
    with Suc.IH [OF s' this Suc.prems(3)] False show ?thesis by simp
  qed
qed simp

end

text \<open>Subtracting one token from a level, and adding nothing, in \<open>float64\<close>.\<close>

lemma fadd_take: "t \<le> of_nat n \<Longrightarrow> 1 \<le> t \<Longrightarrow> n < 2 ^ 53 \<Longrightarrow> 0 < n \<and> fadd t (- 1) \<le> of_nat (n - 1)"
proof -
  assume t: "t \<le> of_nat n" "1 \<le> t" and n: "n < 2 ^ 53"
  have pos: "0 < n" using t by (cases n) auto
  have "t + - 1 \<le> of_nat (n - 1)" using t(1) pos by (simp add: of_nat_diff)
  then have "fadd t (- 1) \<le> fl64 (of_nat (n - 1))" unfolding fadd_def by (rule fl64_mono)
  also have "fl64 (of_nat (n - 1)) = of_nat (n - 1)" using n by (intro fl64_nat) simp
  finally show ?thesis using pos by simp
qed

lemma Seconds_0 [simp]: "Seconds 0 = 0"
  by (simp add: Seconds_def float_of_int_def fadd_def fdiv_def)

section \<open>The limiter of the edge\<close>

record bucket =
  bk_tokens :: rat
  bk_last :: int

record RateLimiter =
  rl_rate :: rat
  rl_burst :: rat
  rl_MaxBuckets :: int
  rl_cache :: "bucket lruCache"

definition defaultRateLimiterMaxBuckets :: int where
  "defaultRateLimiterMaxBuckets = 10000"

definition NewRateLimiter :: "rat \<Rightarrow> rat \<Rightarrow> RateLimiter" where
  "NewRateLimiter rate burst =
     \<lparr>rl_rate = rate, rl_burst = burst, rl_MaxBuckets = defaultRateLimiterMaxBuckets, rl_cache = newLRUCache\<rparr>"

definition maxBuckets :: "RateLimiter \<Rightarrow> int" where
  "maxBuckets l = (if 0 < rl_MaxBuckets l then rl_MaxBuckets l else defaultRateLimiterMaxBuckets)"

definition refilled :: "int \<Rightarrow> RateLimiter \<Rightarrow> bucket \<Rightarrow> rat" where
  "refilled now l b =
     (let t = fadd (bk_tokens b) (fmul (Seconds (now - bk_last b)) (rl_rate l)) in if rl_burst l < t then rl_burst l else t)"

text \<open>The bucket is a pointer in the cache: it changes in place.\<close>

definition Allow :: "int \<Rightarrow> string \<Rightarrow> RateLimiter \<Rightarrow> bool \<times> RateLimiter" where
  "Allow now host l =
     (if rl_rate l \<le> 0 then (True, l)
      else case lru_get host (rl_cache l) of
        None \<Rightarrow>
          (True, l\<lparr>rl_cache := evict (maxBuckets l) (lru_set host \<lparr>bk_tokens = fadd (rl_burst l) (- 1), bk_last = now\<rparr> (rl_cache l))\<rparr>)
      | Some b \<Rightarrow>
          (let c = touch host (rl_cache l); t = refilled now l b in
           if 1 \<le> t then (True, l\<lparr>rl_cache := lru_poke host \<lparr>bk_tokens = fadd t (- 1), bk_last = now\<rparr> c\<rparr>)
           else (False, l\<lparr>rl_cache := lru_poke host \<lparr>bk_tokens = t, bk_last = now\<rparr> c\<rparr>)))"

section \<open>What it grants\<close>

definition limiter_ok :: "RateLimiter \<Rightarrow> bool" where
  "limiter_ok l \<longleftrightarrow> lru_ok (rl_cache l) \<and> int (lru_len (rl_cache l)) \<le> maxBuckets l \<and> 0 < rl_rate l \<and>
     fl64 (rl_burst l) = rl_burst l \<and> (\<forall>h b. lru_get h (rl_cache l) = Some b \<longrightarrow> fl64 (bk_tokens b) = bk_tokens b)"

definition host_level :: "int \<Rightarrow> string \<Rightarrow> RateLimiter \<Rightarrow> rat" where
  "host_level now host l = (case lru_get host (rl_cache l) of None \<Rightarrow> max 1 (rl_burst l) | Some b \<Rightarrow> refilled now l b)"

lemma host_level_burst: "host_level now host l \<le> max 1 (rl_burst l)"
  by (auto simp: host_level_def refilled_def Let_def split: option.splits)


lemma limiter_okD:
  assumes "limiter_ok l"
  shows "lru_ok (rl_cache l)" "int (lru_len (rl_cache l)) \<le> maxBuckets l" "0 < rl_rate l" "fl64 (rl_burst l) = rl_burst l"
    "lru_get h (rl_cache l) = Some b \<Longrightarrow> fl64 (bk_tokens b) = bk_tokens b"
  using assms by (auto simp: limiter_ok_def)

lemma maxBuckets_pos: "0 < maxBuckets l"
  by (simp add: maxBuckets_def defaultRateLimiterMaxBuckets_def)

lemma maxBuckets_cache [simp]: "maxBuckets (l\<lparr>rl_cache := c\<rparr>) = maxBuckets l"
  by (simp add: maxBuckets_def)

text \<open>Writing a bucket of representable content keeps the limiter sound.\<close>

lemma limiter_ok_poke:
  assumes "limiter_ok l" and "fl64 (bk_tokens b) = bk_tokens b"
  shows "limiter_ok (l\<lparr>rl_cache := lru_poke host b (touch host (rl_cache l))\<rparr>)"
  using limiter_okD [OF assms(1)] assms(2)
  by (auto simp: limiter_ok_def lru.find_poke split: if_splits)

lemma limiter_ok_new:
  assumes "limiter_ok l" and "fl64 (bk_tokens b) = bk_tokens b"
  shows "limiter_ok (l\<lparr>rl_cache := evict (maxBuckets l) (lru_set host b (rl_cache l))\<rparr>)"
proof -
  note ok = limiter_okD [OF assms(1)]
  let ?c = "lru_set host b (rl_cache l)"
  have c: "lru_ok ?c" using ok(1) by simp
  have "lru_len (evict (maxBuckets l) ?c) \<le> nat (maxBuckets l)"
    using lru.size_shrink [OF c, of "maxBuckets l"] maxBuckets_pos [of l] by simp
  moreover have "fl64 (bk_tokens x) = bk_tokens x" if "lru_get h (evict (maxBuckets l) ?c) = Some x" for h x
    using lru.find_shrink [OF c that] ok(1,5) assms(2) by (auto split: if_splits)
  ultimately show ?thesis using ok c by (auto simp: limiter_ok_def)
qed

lemma fadd_exact [simp]: "fl64 (fadd a b) = fadd a b" "fl64 (fmul a b) = fmul a b"
  by (simp_all add: fadd_def fmul_def)

lemma refilled_exact: "limiter_ok l \<Longrightarrow> fl64 (refilled now l b) = refilled now l b"
  using limiter_okD(4) [of l] by (simp add: refilled_def Let_def)

lemma Allow_ok: "limiter_ok l \<Longrightarrow> limiter_ok (snd (Allow now host l))"
  by (auto simp: Allow_def Let_def refilled_exact limiter_okD(3) intro!: limiter_ok_poke limiter_ok_new split: option.splits)

text \<open>The level of the host after a call at the same instant.\<close>

lemma host_level_poke:
  assumes "limiter_ok l" "lru_get host (rl_cache l) = Some b0" "fl64 t = t"
  shows "host_level now host (l\<lparr>rl_cache := lru_poke host \<lparr>bk_tokens = t, bk_last = now\<rparr> (touch host (rl_cache l))\<rparr>) \<le> t"
  using limiter_okD(1) [OF assms(1)] assms(2,3)
  by (auto simp: host_level_def lru.find_poke refilled_def fadd_def fmul_def Let_def)

lemma host_level_new:
  assumes "limiter_ok l" "fl64 t = t"
  shows "host_level now host (l\<lparr>rl_cache := evict (maxBuckets l) (lru_set host \<lparr>bk_tokens = t, bk_last = now\<rparr> (rl_cache l))\<rparr>) \<le> t"
  using limiter_okD(1) [OF assms(1)] assms(2)
  by (auto simp: host_level_def refilled_def fadd_def fmul_def Let_def)

lemma Allow_granted:
  assumes ok: "limiter_ok l" and g: "fst (Allow now host l)" and n: "host_level now host l \<le> of_nat n" "n < 2 ^ 53"
  shows "0 < n \<and> host_level now host (snd (Allow now host l)) \<le> of_nat (n - 1)"
proof (cases "lru_get host (rl_cache l)")
  case None
  let ?t = "fadd (rl_burst l) (- 1)"
  have "max 1 (rl_burst l) \<le> of_nat n" using n(1) None by (simp add: host_level_def)
  then have "0 < n \<and> fadd (max 1 (rl_burst l)) (- 1) \<le> of_nat (n - 1)" using fadd_take [of "max 1 (rl_burst l)" n] n(2) by simp
  moreover have "?t \<le> fadd (max 1 (rl_burst l)) (- 1)" unfolding fadd_def by (rule fl64_mono) simp
  moreover have "host_level now host (snd (Allow now host l)) \<le> ?t"
    using host_level_new [OF ok fadd_exact(1)] None limiter_okD(3) [OF ok] by (simp add: Allow_def)
  ultimately show ?thesis by linarith
next
  case (Some b)
  let ?t = "refilled now l b"
  have t: "1 \<le> ?t" using g Some limiter_okD(3) [OF ok] by (simp add: Allow_def Let_def split: if_splits)
  have "host_level now host (snd (Allow now host l)) \<le> fadd ?t (- 1)"
    using host_level_poke [OF ok Some fadd_exact(1)] Some t limiter_okD(3) [OF ok] by (simp add: Allow_def Let_def)
  with fadd_take [OF _ t n(2)] n(1) Some show ?thesis by (auto simp: host_level_def)
qed

lemma Allow_refused:
  assumes ok: "limiter_ok l" and g: "\<not> fst (Allow now host l)"
  shows "host_level now host (snd (Allow now host l)) \<le> host_level now host l"
proof -
  from g limiter_okD(3) [OF ok] obtain b where b: "lru_get host (rl_cache l) = Some b"
    by (auto simp: Allow_def split: option.splits)
  then have t: "\<not> 1 \<le> refilled now l b" using g limiter_okD(3) [OF ok] by (auto simp: Allow_def Let_def split: if_splits)
  then show ?thesis
    using host_level_poke [OF ok b refilled_exact [OF ok]] b limiter_okD(3) [OF ok] by (simp add: Allow_def Let_def host_level_def)
qed

interpretation edge_bucket: token_bucket "Allow now host" "host_level now host" limiter_ok for now host
  by unfold_locales (use Allow_ok Allow_granted Allow_refused in blast)+

text \<open>The edge's limiter never grants a host more requests at one instant than its burst, whatever happened before: of any number
  of requests for the host at that instant, at most \<open>n\<close> pass when the burst is at most \<open>n\<close>, with every rounding of the
  floating-point levels taken into account.
\<close>

lemma rate_limit_burst:
  assumes "limiter_ok l" and "rl_burst l \<le> of_nat n" and "0 < n" and "n < 2 ^ 53"
  shows "granted_of (Allow now host) k l \<le> n"
proof (rule edge_bucket.grants_bound [OF assms(1)])
  have "(1 :: rat) \<le> of_nat n" using assms(3) by (cases n) auto
  then show "host_level now host l \<le> of_nat n" using host_level_burst [of now host l] assms(2) by simp
qed (rule assms(4))


lemma limiter_ok_NewRateLimiter: "0 < rate \<Longrightarrow> fl64 burst = burst \<Longrightarrow> limiter_ok (NewRateLimiter rate burst)"
  by (simp add: limiter_ok_def NewRateLimiter_def maxBuckets_def defaultRateLimiterMaxBuckets_def lru.size_bindings lru.bindings_new)

lemma rate_limit_burst_witness:
  "granted_of (Allow 0 ''h'') 4 (NewRateLimiter 5 2) \<le> 2 \<and> fst (Allow 0 ''h'' (NewRateLimiter 5 2))"
proof
  have "limiter_ok (NewRateLimiter 5 2)" by (rule limiter_ok_NewRateLimiter) (simp, code_simp)
  then show "granted_of (Allow 0 ''h'') 4 (NewRateLimiter 5 2) \<le> 2"
    by (rule rate_limit_burst) (simp_all add: NewRateLimiter_def)
  show "fst (Allow 0 ''h'' (NewRateLimiter 5 2))" by code_simp
qed

end
