(* ===== verification/AgentProxy.thy ===== *)
theory AgentProxy
  imports Creds HttpProxy RateLimit
begin

text \<open>
  The agent's workload proxy (\<open>internal/agent/proxy/proxy.go\<close>) and its mesh entry
  (\<open>internal/agent/fabricingress/fabricingress.go\<close>): both check an execution-bound credential against the
  credential table, resolve the workload's endpoint and run one reverse proxy towards the guest. SHA-256, the
  endpoint resolution of the machine adapter and the guest itself are parameters. Times are nanoseconds.
\<close>

section \<open>Header names\<close>

definition HeaderMachineID :: string where "HeaderMachineID = ''X-Firepaas-Machine-ID''"
definition HeaderExecutionID :: string where "HeaderExecutionID = ''X-Firepaas-Execution-ID''"
definition HeaderAppPort :: string where "HeaderAppPort = ''X-Firepaas-App-Port''"
definition HeaderRequestID :: string where "HeaderRequestID = ''X-Firepaas-Request-ID''"
definition HeaderRetryable :: string where "HeaderRetryable = ''X-Firepaas-Proxy-Retryable''"
definition HeaderCredential :: string where "HeaderCredential = ''X-Firepaas-Credential''"
definition retryableValue :: string where "retryableValue = ''true''"

lemmas header_names = HeaderMachineID_def HeaderExecutionID_def HeaderAppPort_def HeaderRequestID_def HeaderRetryable_def
  HeaderCredential_def

section \<open>The credential guard\<close>

record WorkloadProxy =
  px_creds :: "Creds option"
  px_credTokens :: rat
  px_credMissToks :: rat
  px_credRate :: rat
  px_credBurst :: rat
  px_credMissRate :: rat
  px_credMissBurst :: rat
  px_credLast :: int
  px_credLookups :: "(string, u64) gomap"

definition NewWithVerifier :: "int \<Rightarrow> Creds option \<Rightarrow> WorkloadProxy" where
  "NewWithVerifier now creds =
     \<lparr>px_creds = creds, px_credTokens = 2000, px_credMissToks = 100, px_credRate = 1000, px_credBurst = 2000,
      px_credMissRate = 50, px_credMissBurst = 100, px_credLast = now, px_credLookups = []\<rparr>"

definition SetCredentialLimits :: "int \<Rightarrow> rat \<Rightarrow> rat \<Rightarrow> WorkloadProxy \<Rightarrow> WorkloadProxy" where
  "SetCredentialLimits now lookupRPS missRPS p =
     (let p1 = (if 0 < lookupRPS then p\<lparr>px_credRate := lookupRPS, px_credBurst := fmul 2 lookupRPS\<rparr> else p);
          p2 = (if 0 < missRPS then p1\<lparr>px_credMissRate := missRPS, px_credMissBurst := fmul 2 missRPS\<rparr> else p1) in
      p2\<lparr>px_credTokens := px_credBurst p2, px_credMissToks := px_credMissBurst p2, px_credLast := now\<rparr>)"

definition CredentialLookupStats :: "WorkloadProxy \<Rightarrow> (string, u64) gomap" where
  "CredentialLookupStats p = px_credLookups p"

definition countCredentialLookup :: "string \<Rightarrow> WorkloadProxy \<Rightarrow> WorkloadProxy" where
  "countCredentialLookup result p =
     (let n = (case mget (px_credLookups p) result of None \<Rightarrow> 0 | Some n \<Rightarrow> n) in
      p\<lparr>px_credLookups := mset_at result (n + 1) (px_credLookups p)\<rparr>)"

definition refillLocked :: "int \<Rightarrow> WorkloadProxy \<Rightarrow> WorkloadProxy" where
  "refillLocked now p =
     (let elapsed = Seconds (now - px_credLast p) in
      if elapsed \<le> 0 then p
      else p\<lparr>px_credTokens := min (fadd (px_credTokens p) (fmul elapsed (px_credRate p))) (px_credBurst p),
             px_credMissToks := min (fadd (px_credMissToks p) (fmul elapsed (px_credMissRate p))) (px_credMissBurst p),
             px_credLast := now\<rparr>)"

definition takeCredentialLookup :: "int \<Rightarrow> WorkloadProxy \<Rightarrow> bool \<times> WorkloadProxy" where
  "takeCredentialLookup now p =
     (let p1 = refillLocked now p in
      if px_credTokens p1 < 1 then (False, p1) else (True, p1\<lparr>px_credTokens := fadd (px_credTokens p1) (- 1)\<rparr>))"

definition takeCredentialMiss :: "int \<Rightarrow> WorkloadProxy \<Rightarrow> bool \<times> WorkloadProxy" where
  "takeCredentialMiss now p =
     (let p1 = refillLocked now p in
      if px_credMissToks p1 < 1 then (False, p1) else (True, p1\<lparr>px_credMissToks := fadd (px_credMissToks p1) (- 1)\<rparr>))"

section \<open>Forwarding to the guest\<close>

definition guest_stripped :: "string list" where
  "guest_stripped = [HeaderMachineID, HeaderExecutionID, HeaderRequestID, HeaderCredential, HeaderAppPort, HeaderRetryable,
     ''traceparent'', ''tracestate'']"

definition guest_director :: "headers \<Rightarrow> headers" where
  "guest_director h = hDelAll guest_stripped h"

definition guest_modify :: response_hook where
  "guest_modify status h = (None, hDel HeaderRetryable h)"

definition guest_error :: "unit error_hook" where
  "guest_error e ws =
     (http_Error ''workload upstream unreachable'' 502 (rw_set HeaderRetryable retryableValue (fst ws)), snd ws)"

text \<open>
  What an agent runs on: the endpoint of a machine's execution and port, or an error, and the guest's answer
  to a request at a target address.
\<close>

record agent_env =
  ae_resolve :: "string \<Rightarrow> string \<Rightarrow> int \<Rightarrow> string + string \<times> int"
  ae_guest :: "string \<Rightarrow> headers \<Rightarrow> upstream_err + Response"
  ae_clientIP :: "string option"

text \<open>The request that reached a guest: its target and headers.\<close>

type_synonym forwarded = "(string \<times> headers) option"

definition target_host :: "string \<Rightarrow> int \<Rightarrow> string" where
  "target_host ip port = ip @ '':'' @ fmt_int port"

definition serveTarget :: "agent_env \<Rightarrow> headers \<Rightarrow> string \<Rightarrow> string \<Rightarrow> int \<Rightarrow> ResponseWriter \<Rightarrow> forwarded \<times> ResponseWriter" where
  "serveTarget env h machineID executionID wantPort w =
     (case ae_resolve env machineID executionID wantPort of
        Inl e \<Rightarrow> (None, http_Error e 502 (rw_set HeaderRetryable retryableValue w))
      | Inr (ip, port) \<Rightarrow>
          (let target = target_host ip port;
               (out, ws) = proxy_serve (ae_clientIP env) guest_director guest_modify guest_error (ae_guest env target) h (w, ()) in
           (map_option (Pair target) out, fst ws)))"

definition parseAppPort :: "headers \<Rightarrow> int option" where
  "parseAppPort h =
     (let raw = hGet h HeaderAppPort in
      if raw = '''' then Some 0
      else case Atoi raw of None \<Rightarrow> None | Some p \<Rightarrow> if p < 1 \<or> 65535 < p then None else Some p)"

definition invalid_port :: "ResponseWriter \<Rightarrow> ResponseWriter" where
  "invalid_port w = http_Error (''invalid '' @ HeaderAppPort) 400 w"

definition agent_ServeHTTP :: "(string \<Rightarrow> string) \<Rightarrow> agent_env \<Rightarrow> headers \<Rightarrow> ResponseWriter \<Rightarrow> WorkloadProxy \<Rightarrow> forwarded \<times> ResponseWriter" where
  "agent_ServeHTTP sha256 env h w p =
     (let machineID = hGet h HeaderMachineID; executionID = hGet h HeaderExecutionID in
      if machineID = '''' \<or> executionID = '''' then (None, http_Error ''missing machine/execution routing headers'' 400 w)
      else if (case px_creds p of None \<Rightarrow> False | Some c \<Rightarrow> \<not> Verify sha256 machineID executionID (hGet h HeaderCredential) c)
      then (None, http_Error ''forbidden'' 403 w)
      else case parseAppPort h of
        None \<Rightarrow> (None, invalid_port w)
      | Some wantPort \<Rightarrow> serveTarget env h machineID executionID wantPort w)"

text \<open>\<open>now\<close> and \<open>later\<close> are the clock readings of the two buckets.\<close>

definition ServeCredential :: "(string \<Rightarrow> string) \<Rightarrow> agent_env \<Rightarrow> int \<times> int \<Rightarrow> headers \<Rightarrow> string \<Rightarrow> int \<Rightarrow> ResponseWriter \<Rightarrow>
    WorkloadProxy \<Rightarrow> (forwarded \<times> ResponseWriter) \<times> WorkloadProxy" where
  "ServeCredential sha256 env clock h rawCredential wantPort w p =
     (case px_creds p of
        None \<Rightarrow> ((None, http_Error ''forbidden'' 403 w), countCredentialLookup ''denied'' p)
      | Some c \<Rightarrow>
          (case takeCredentialLookup (fst clock) p of
             (False, p1) \<Rightarrow> ((None, http_Error ''too many requests'' 429 w), countCredentialLookup ''limited'' p1)
           | (True, p1) \<Rightarrow>
               (case LookupByDigest sha256 rawCredential c of
                  None \<Rightarrow>
                    (case takeCredentialMiss (snd clock) p1 of
                       (False, p2) \<Rightarrow> ((None, http_Error ''too many requests'' 429 w), countCredentialLookup ''limited'' p2)
                     | (True, p2) \<Rightarrow> ((None, http_Error ''forbidden'' 403 w), countCredentialLookup ''denied'' p2))
                | Some (machineID, executionID) \<Rightarrow>
                    (serveTarget env h machineID executionID wantPort w, countCredentialLookup ''ok'' p1))))"

definition ingress_ServeHTTP :: "(string \<Rightarrow> string) \<Rightarrow> agent_env \<Rightarrow> int \<times> int \<Rightarrow> headers \<Rightarrow> ResponseWriter \<Rightarrow>
    WorkloadProxy \<Rightarrow> (forwarded \<times> ResponseWriter) \<times> WorkloadProxy" where
  "ingress_ServeHTTP sha256 env clock h w p =
     (case parseAppPort h of
        None \<Rightarrow> ((None, invalid_port w), p)
      | Some wantPort \<Rightarrow>
          (let h1 = hDelAll [HeaderMachineID, HeaderExecutionID, HeaderRetryable] h in
           ServeCredential sha256 env clock h1 (hGet h1 HeaderCredential) wantPort w p))"


section \<open>Authorisation\<close>

text \<open>The two entries of the agent.\<close>

datatype agent_entry = LegacyEntry | MeshEntry

definition agent_handle :: "(string \<Rightarrow> string) \<Rightarrow> agent_env \<Rightarrow> int \<times> int \<Rightarrow> agent_entry \<Rightarrow> headers \<Rightarrow> ResponseWriter \<Rightarrow>
    WorkloadProxy \<Rightarrow> (forwarded \<times> ResponseWriter) \<times> WorkloadProxy" where
  "agent_handle sha256 env clock entry h w p =
     (case entry of
        LegacyEntry \<Rightarrow> (agent_ServeHTTP sha256 env h w p, p)
      | MeshEntry \<Rightarrow> ingress_ServeHTTP sha256 env clock h w p)"

lemma LookupByDigest_Verify:
  assumes "gomap_ok (cred_entries c)" and "LookupByDigest sha256 raw c = Some (m, e)"
  shows "Verify sha256 m e raw c"
proof -
  have raw: "raw \<noteq> ''''" using assms(2) by (auto simp: LookupByDigest_def split: if_splits)
  with assms(2) obtain k x where f: "List.find (\<lambda>(m, e). hex_DecodeString (cred_Digest e) = Some (sha256 raw)) (cred_entries c) = Some (k, x)"
      and mx: "m = k" "e = cred_ExecutionID x"
    by (auto simp: LookupByDigest_def)
  then have "(k, x) \<in> set (cred_entries c)" "hex_DecodeString (cred_Digest x) = Some (sha256 raw)"
    by (auto dest: find_SomeD)
  moreover from this have "mget (cred_entries c) k = Some x" using assms(1) by (simp add: gomap_ok_def)
  ultimately show ?thesis using raw mx by (simp add: Verify_def)
qed

text \<open>The agent's names and those the reverse proxy manages itself are apart.\<close>

lemma agent_names_apart:
  "set (map CanonicalKey guest_stripped) \<inter> set (map CanonicalKey proxy_names) = {}"
  "distinct (map CanonicalKey guest_stripped)"
  by code_simp+

lemma stripped_not_forwarded:
  assumes "n \<in> set guest_stripped"
  shows "mget (out_headers ip h (guest_director h)) (CanonicalKey n) = None"
proof -
  have "CanonicalKey n \<notin> CanonicalKey ` set proxy_names" using agent_names_apart(1) assms by auto
  from out_headers_get [OF this, of ip h "guest_director h"] show ?thesis
    using assms by (simp add: guest_director_def mget_hDelAll)
qed

lemma serveTarget_forwarded:
  assumes "fst (serveTarget env h m e want w) = Some (target, out)"
  obtains ip port where "ae_resolve env m e want = Inr (ip, port)" "target = target_host ip port"
    "out = out_headers (ae_clientIP env) h (guest_director h)"
  using assms by (auto simp: serveTarget_def proxy_serve_def Let_def split: sum.splits if_splits)

text \<open>Claim C25.
  Whatever headers a request to the agent carries and by whichever entry it comes: it reaches a guest only when its
  credential verifies for a machine and execution in the credential table, only at the endpoint the adapter resolves for
  exactly that machine and execution and the requested port, and without any of the internal headers.
\<close>

theorem agent_forwards_authorised:
  assumes creds: "px_creds p = Some c" "gomap_ok (cred_entries c)"
    and fwd: "fst (fst (agent_handle sha256 env clock entry h w p)) = Some (target, out)"
  shows "\<exists>m e want ip port. Verify sha256 m e (hGet h HeaderCredential) c \<and> parseAppPort h = Some want \<and>
    ae_resolve env m e want = Inr (ip, port) \<and> target = target_host ip port \<and>
    (entry = LegacyEntry \<longrightarrow> m = hGet h HeaderMachineID \<and> e = hGet h HeaderExecutionID) \<and>
    (\<forall>n \<in> set guest_stripped. mget out (CanonicalKey n) = None)"
proof (cases entry)
  case LegacyEntry
  let ?m = "hGet h HeaderMachineID" and ?e = "hGet h HeaderExecutionID"
  have v: "Verify sha256 ?m ?e (hGet h HeaderCredential) c" and "parseAppPort h \<noteq> None"
    using fwd by (auto simp: agent_handle_def agent_ServeHTTP_def LegacyEntry creds Let_def split: if_splits option.splits)
  then obtain want where want: "parseAppPort h = Some want" by blast
  have "fst (serveTarget env h ?m ?e want w) = Some (target, out)"
    using fwd v want by (auto simp: agent_handle_def agent_ServeHTTP_def LegacyEntry creds Let_def split: if_splits)
  then obtain ip port where "ae_resolve env ?m ?e want = Inr (ip, port)" "target = target_host ip port"
      "out = out_headers (ae_clientIP env) h (guest_director h)" by (rule serveTarget_forwarded)
  with v want stripped_not_forwarded show ?thesis by blast
next
  case MeshEntry
  let ?h = "hDelAll [HeaderMachineID, HeaderExecutionID, HeaderRetryable] h"
  have "CanonicalKey HeaderCredential \<notin> set (map CanonicalKey [HeaderMachineID, HeaderExecutionID, HeaderRetryable])" by code_simp
  then have cred: "hGet ?h HeaderCredential = hGet h HeaderCredential" by (simp add: hGet_def hValues_def mget_hDelAll)
  obtain want where want: "parseAppPort h = Some want"
    using fwd by (auto simp: agent_handle_def ingress_ServeHTTP_def MeshEntry split: option.splits)
  with fwd have sc: "fst (fst (ServeCredential sha256 env clock ?h (hGet h HeaderCredential) want w p)) = Some (target, out)"
    by (simp add: agent_handle_def ingress_ServeHTTP_def MeshEntry Let_def cred)
  then obtain m e where me: "LookupByDigest sha256 (hGet h HeaderCredential) c = Some (m, e)"
    by (auto simp: ServeCredential_def creds split: prod.splits bool.splits option.splits)
  with sc have "fst (serveTarget env ?h m e want w) = Some (target, out)"
    by (auto simp: ServeCredential_def creds split: prod.splits bool.splits)
  then obtain ip port where "ae_resolve env m e want = Inr (ip, port)" "target = target_host ip port"
      "out = out_headers (ae_clientIP env) ?h (guest_director ?h)" by (rule serveTarget_forwarded)
  with LookupByDigest_Verify [OF creds(2) me] want stripped_not_forwarded MeshEntry show ?thesis by blast
qed

definition example_sha :: "string \<Rightarrow> string" where
  "example_sha s = rev s"

definition example_agent_creds :: Creds where
  "example_agent_creds = empty_creds\<lparr>cred_entries :=
     [(''m1'', \<lparr>cred_ExecutionID = ''e1'', cred_Digest = hex_EncodeToString (example_sha ''secret''), cred_UpdatedAt = 0\<rparr>)]\<rparr>"

definition example_agent_env :: agent_env where
  "example_agent_env = \<lparr>ae_resolve = (\<lambda>m e p. if m = ''m1'' \<and> e = ''e1'' then Inr (''10.0.0.2'', if p = 0 then 80 else p) else Inl ''unknown''),
     ae_guest = (\<lambda>t h. Inr \<lparr>rs_status = 200, rs_header = [(''Server'', [''guest''])], rs_body = ''hello''\<rparr>), ae_clientIP = None\<rparr>"

definition example_inbound :: headers where
  "example_inbound = hSet HeaderAppPort ''90'' (hSet HeaderCredential ''secret''
     (hSet HeaderExecutionID ''e1'' (hSet HeaderMachineID ''m1'' [(''Accept'', [''*''])])))"

definition fresh_writer :: ResponseWriter where
  "fresh_writer = \<lparr>rw_header = [], rw_status = None, rw_body = ''''\<rparr>"


theorem agent_forwards_authorised_witness:
  "\<exists>m e want ip port. Verify example_sha m e ''secret'' example_agent_creds \<and> parseAppPort example_inbound = Some want \<and>
    ae_resolve example_agent_env m e want = Inr (ip, port) \<and> ''10.0.0.2:90'' = target_host ip port"
proof -
  let ?r = "agent_handle example_sha example_agent_env (0, 0) LegacyEntry example_inbound fresh_writer (NewWithVerifier 0 (Some example_agent_creds))"
  have p: "px_creds (NewWithVerifier 0 (Some example_agent_creds)) = Some example_agent_creds" by (simp add: NewWithVerifier_def)
  have ok: "gomap_ok (cred_entries example_agent_creds)" by code_simp
  have "map_option fst (fst (fst ?r)) = Some ''10.0.0.2:90''" by code_simp
  then obtain out where "fst (fst ?r) = Some (''10.0.0.2:90'', out)" by force
  moreover have "hGet example_inbound HeaderCredential = ''secret''" by code_simp
  ultimately show ?thesis using agent_forwards_authorised [OF p ok] by metis
qed

section \<open>The retry signal\<close>

text \<open>Header maps as \<open>net/http\<close> reads them from the wire: the names are canonical.\<close>

definition canonical_keys :: "headers \<Rightarrow> bool" where
  "canonical_keys h \<longleftrightarrow> list_all (\<lambda>(k, _). CanonicalKey k = k) h"

lemma canonical_keys_hDel [simp]: "canonical_keys h \<Longrightarrow> canonical_keys (hDel n h)"
  by (auto simp: canonical_keys_def hDel_def list_all_iff AList.delete_eq)

lemma canonical_keys_hDelAll [simp]: "canonical_keys h \<Longrightarrow> canonical_keys (hDelAll ns h)"
  unfolding hDelAll_def by (induction ns arbitrary: h) auto

lemma copyHeader_absent:
  assumes "canonical_keys src" "mget src k = None"
  shows "mget (copyHeader src dst) k = mget dst k"
proof (rule copyHeader_other)
  show "k \<notin> CanonicalKey ` fst ` set src"
    using assms by (force simp: canonical_keys_def list_all_iff map_of_eq_None_iff)
qed

text \<open>A guest cannot produce the signal with which an agent asks the edge to retry elsewhere: when the guest answers (other than
  by switching protocols), the agent's response carries the guest's status, and the retry header is absent even if the guest
  sent it, in whatever spelling.
\<close>

lemma retry_signal_unforgeable:
  assumes fwd: "agent_handle sha256 env clock entry h w p = ((Some (target, out), w'), p')"
    and guest: "ae_guest env target out = Inr r" "canonical_keys (rs_header r)" "rs_status r \<noteq> 101"
    and fresh: "rw_status w = None" "mget (rw_header w) (CanonicalKey HeaderRetryable) = None"
  shows "rw_status w' = Some (rs_status r) \<and> mget (rw_header w') (CanonicalKey HeaderRetryable) = None"
proof -
  obtain h' m e want where st: "serveTarget env h' m e want w = (Some (target, out), w')"
  proof (cases entry)
    case LegacyEntry
    with fwd show ?thesis
      by (auto simp: agent_handle_def agent_ServeHTTP_def Let_def split: if_splits option.splits intro: that)
  next
    case MeshEntry
    with fwd show ?thesis
      by (auto simp: agent_handle_def ingress_ServeHTTP_def ServeCredential_def Let_def
          split: prod.splits bool.splits option.splits intro: that)
  qed
  let ?h = "hDel HeaderRetryable (removeHopByHopHeaders (rs_header r))"
  have "w' = send_response r ?h w"
    using st guest by (auto simp: serveTarget_def proxy_serve_def proxy_answer_def guest_modify_def Let_def split: sum.splits if_splits)
  moreover have "mget (copyHeader ?h (rw_header w)) (CanonicalKey HeaderRetryable) = None"
    using fresh guest(2) copyHeader_absent [of ?h "CanonicalKey HeaderRetryable"] by (simp add: removeHopByHopHeaders_def mget_hDel)
  ultimately show ?thesis using fresh(1) by (simp add: send_response_def)
qed

definition forging_env :: agent_env where
  "forging_env = example_agent_env\<lparr>ae_guest := (\<lambda>t h. Inr \<lparr>rs_status = 502, rs_header = [(''X-Firepaas-Proxy-Retryable'', [''true''])], rs_body = ''''\<rparr>)\<rparr>"

definition forging_answer :: "forwarded \<times> ResponseWriter" where
  "forging_answer = fst (agent_handle example_sha forging_env (0, 0) LegacyEntry example_inbound fresh_writer (NewWithVerifier 0 (Some example_agent_creds)))"

lemma retry_signal_unforgeable_witness:
  "rw_status (snd forging_answer) = Some 502 \<and> mget (rw_header (snd forging_answer)) (CanonicalKey HeaderRetryable) = None"
proof -
  let ?r = "\<lparr>rs_status = 502, rs_header = [(''X-Firepaas-Proxy-Retryable'', [''true''])], rs_body = ''''\<rparr>"
  have "fst forging_answer \<noteq> None" by code_simp
  then obtain target out where f: "agent_handle example_sha forging_env (0, 0) LegacyEntry example_inbound fresh_writer (NewWithVerifier 0 (Some example_agent_creds))
      = ((Some (target, out), snd forging_answer), NewWithVerifier 0 (Some example_agent_creds))"
    by (auto simp: forging_answer_def agent_handle_def prod_eq_iff)
  have g: "ae_guest forging_env target out = Inr ?r" by (simp add: forging_env_def)
  have c: "canonical_keys (rs_header ?r)" by code_simp
  show ?thesis using retry_signal_unforgeable [OF f g c] by (simp add: fresh_writer_def)
qed

section \<open>The guard\<close>

text \<open>
  Both buckets keep the contract of a token bucket: of any number of lookups, or of unknown credentials, at one
  instant, no more are let through than the burst.
\<close>

definition guard_ok :: "WorkloadProxy \<Rightarrow> bool" where
  "guard_ok p \<longleftrightarrow> px_credTokens p \<le> px_credBurst p \<and> px_credMissToks p \<le> px_credMissBurst p \<and>
     fl64 (px_credBurst p) = px_credBurst p \<and> fl64 (px_credMissBurst p) = px_credMissBurst p"

lemma guard_ok_refill: "guard_ok p \<Longrightarrow> guard_ok (refillLocked now p)"
  by (simp add: guard_ok_def refillLocked_def Let_def)

lemma refill_idem: "refillLocked now (refillLocked now p) = refillLocked now p"
  by (simp add: refillLocked_def Let_def)

lemma refill_update:
  "refillLocked now ((refillLocked now p)\<lparr>px_credTokens := t\<rparr>) = (refillLocked now p)\<lparr>px_credTokens := t\<rparr>"
  "refillLocked now ((refillLocked now p)\<lparr>px_credMissToks := t\<rparr>) = (refillLocked now p)\<lparr>px_credMissToks := t\<rparr>"
  by (simp_all add: refillLocked_def Let_def)

lemma fadd_minus_le: "t \<le> b \<Longrightarrow> fl64 b = b \<Longrightarrow> fadd t (- 1) \<le> b"
  using fl64_mono [of "t + - 1" b] by (simp add: fadd_def)

lemma guard_ok_take:
  "guard_ok p \<Longrightarrow> guard_ok (snd (takeCredentialLookup now p))" "guard_ok p \<Longrightarrow> guard_ok (snd (takeCredentialMiss now p))"
  using guard_ok_refill [of p now]
  by (auto simp: takeCredentialLookup_def takeCredentialMiss_def Let_def guard_ok_def fadd_minus_le)

interpretation lookup_bucket: token_bucket "takeCredentialLookup now" "\<lambda>p. px_credTokens (refillLocked now p)" guard_ok for now
proof (unfold_locales, goal_cases)
  case (1 p)
  then show ?case by (rule guard_ok_take)
next
  case (2 p n)
  then show ?case using fadd_take [of "px_credTokens (refillLocked now p)" n]
    by (auto simp: takeCredentialLookup_def Let_def refill_update split: if_splits)
qed (simp add: takeCredentialLookup_def Let_def refill_idem split: if_splits)

interpretation miss_bucket: token_bucket "takeCredentialMiss now" "\<lambda>p. px_credMissToks (refillLocked now p)" guard_ok for now
proof (unfold_locales, goal_cases)
  case (1 p)
  then show ?case by (rule guard_ok_take)
next
  case (2 p n)
  then show ?case using fadd_take [of "px_credMissToks (refillLocked now p)" n]
    by (auto simp: takeCredentialMiss_def Let_def refill_update split: if_splits)
qed (simp add: takeCredentialMiss_def Let_def refill_idem split: if_splits)

lemma credential_guard_bounds:
  assumes "guard_ok p" and "px_credBurst p \<le> of_nat n" "px_credMissBurst p \<le> of_nat m" "n < 2 ^ 53" "m < 2 ^ 53"
  shows "granted_of (takeCredentialLookup now) k p \<le> n" and "granted_of (takeCredentialMiss now) k p \<le> m"
proof -
  have "px_credTokens (refillLocked now p) \<le> px_credBurst p" "px_credMissToks (refillLocked now p) \<le> px_credMissBurst p"
    using guard_ok_refill [OF assms(1), of now] by (simp_all add: guard_ok_def refillLocked_def Let_def split: if_splits)
  then have "px_credTokens (refillLocked now p) \<le> of_nat n" "px_credMissToks (refillLocked now p) \<le> of_nat m"
    using assms(2,3) by simp_all
  then show "granted_of (takeCredentialLookup now) k p \<le> n" "granted_of (takeCredentialMiss now) k p \<le> m"
    using lookup_bucket.grants_bound [OF assms(1) _ assms(4)] miss_bucket.grants_bound [OF assms(1) _ assms(5)] by blast+
qed

text \<open>
  A storm of unknown credentials does not touch known ones: the answer to a known credential does not depend on the
  level of the miss bucket, and it is served whenever the lookup bucket holds a token.
\<close>

lemma miss_storm_spares_known:
  assumes "px_creds p = Some c" and "LookupByDigest sha256 raw c = Some (m, e)"
    and "1 \<le> px_credTokens (refillLocked (fst clock) p)"
  shows "fst (ServeCredential sha256 env clock h raw want w p) = serveTarget env h m e want w"
    and "px_credMissToks (snd (ServeCredential sha256 env clock h raw want w p)) = px_credMissToks (refillLocked (fst clock) p)"
  using assms by (simp_all add: ServeCredential_def takeCredentialLookup_def countCredentialLookup_def Let_def)

end
