(* ===== verification/EdgeHandler.thy ===== *)
theory EdgeHandler
  imports Inflight RouteCache Tokens AgentProxy AutoscaleTracker
begin

text \<open>
  The request lifecycle of the edge (\<open>internal/edge/handler.go\<close>, with the request rewriting of
  \<open>internal/edge/mesh/mesh.go\<close>). A request runs in stages separated by the calls that may block: the route lookup, the
  token fetch and the upstream attempts; every stage is a function of the shared state, and the
  stages of different requests interleave. The caches behind the blocking calls are the theories
  \<open>RouteCache\<close> and \<open>Tokens\<close>; their answers are inputs of the stages. Histograms, the per-generation metrics table,
  logging and tracing spans are left out: nothing reads them back.
\<close>

section \<open>Names\<close>

definition HeaderPinMachine :: string where "HeaderPinMachine = ''X-Firepaas-Pin-Machine''"
definition HeaderClientRequestID :: string where "HeaderClientRequestID = ''X-Request-Id''"

text \<open>The headers the edge owns on the way to an agent.\<close>

definition edge_owned :: "string list" where
  "edge_owned = [HeaderMachineID, HeaderExecutionID, HeaderAppPort, HeaderPinMachine, HeaderRetryable, HeaderCredential,
     HeaderRequestID, HeaderClientRequestID]"

section \<open>Requests and shared state\<close>

record Request =
  rq_Host :: string
  rq_listenPort :: "int option"
  rq_Path :: string
  rq_Header :: headers
  rq_noBody :: bool
  rq_clientIP :: "string option"
  rq_id :: string

record Counters =
  ct_staleServes :: u64
  ct_beyondStale :: u64
  ct_redisErrors :: u64
  ct_tokenErrors :: u64
  ct_tokenStaleServes :: u64
  ct_rateLimited :: u64
  ct_proxiedReqs :: u64
  ct_forbiddenRetry :: u64
  ct_hardRejected :: u64
  ct_pinHits :: u64
  ct_pinMisses :: u64
  ct_unservedRequests :: u64
  ct_meshDirect :: u64
  ct_meshFallback :: u64
  ct_meshErrors :: u64
  ct_ineligible :: ineligible
  ct_req2xx :: u64
  ct_req4xx :: u64
  ct_req5xx :: u64

record Handler =
  hd_routes :: "Route RouteCache"
  hd_tokens :: TokenClient
  hd_limiter :: RateLimiter
  hd_cnt :: Counters
  hd_inflight :: inflight
  hd_tracker :: "AutoscaleTracker option"
  hd_hardConcurrency :: int
  hd_edgePorts :: "int list"
  hd_agentTLS :: bool
  hd_direct :: bool

definition no_counts :: Counters where
  "no_counts = \<lparr>ct_staleServes = 0, ct_beyondStale = 0, ct_redisErrors = 0, ct_tokenErrors = 0, ct_tokenStaleServes = 0,
     ct_rateLimited = 0, ct_proxiedReqs = 0, ct_forbiddenRetry = 0, ct_hardRejected = 0, ct_pinHits = 0, ct_pinMisses = 0,
     ct_unservedRequests = 0, ct_meshDirect = 0, ct_meshFallback = 0, ct_meshErrors = 0,
     ct_ineligible = \<lparr>in_empty = 0, in_notReady = 0, in_unknown = 0\<rparr>, ct_req2xx = 0, ct_req4xx = 0, ct_req5xx = 0\<rparr>"

definition NewHandler :: "Route RouteCache \<Rightarrow> TokenClient \<Rightarrow> RateLimiter option \<Rightarrow> AutoscaleTracker option \<Rightarrow> int \<Rightarrow> int list \<Rightarrow>
    bool \<Rightarrow> bool \<Rightarrow> Handler" where
  "NewHandler routes tokens limiter tracker hard edgePorts agentTLS direct =
     \<lparr>hd_routes = routes, hd_tokens = tokens,
      hd_limiter = (case limiter of None \<Rightarrow> NewRateLimiter 0 0 | Some l \<Rightarrow> l),
      hd_cnt = no_counts, hd_inflight = newInflightTracker, hd_tracker = tracker,
      hd_hardConcurrency = (if hard \<le> 0 then 256 else hard), hd_edgePorts = edgePorts, hd_agentTLS = agentTLS, hd_direct = direct\<rparr>"

definition observeRequest :: "int \<Rightarrow> Counters \<Rightarrow> Counters" where
  "observeRequest status c =
     (if status div 100 = 2 then c\<lparr>ct_req2xx := ct_req2xx c + 1\<rparr>
      else if status div 100 = 4 then c\<lparr>ct_req4xx := ct_req4xx c + 1\<rparr>
      else if status div 100 = 5 then c\<lparr>ct_req5xx := ct_req5xx c + 1\<rparr>
      else c)"

section \<open>Addressing\<close>

definition routeCacheKey :: "string \<Rightarrow> int \<Rightarrow> string" where
  "routeCacheKey host port = (if port = 0 then host @ ''|primary'' else host @ ''|'' @ fmt_int port)"

definition stripPort :: "string \<Rightarrow> string" where
  "stripPort hostport = (case SplitHostPort hostport of None \<Rightarrow> hostport | Some (h, _) \<Rightarrow> h)"

definition requestRoutePort :: "int list \<Rightarrow> Request \<Rightarrow> int" where
  "requestRoutePort edgePorts r =
     (let from_host = (case SplitHostPort (rq_Host r) of
             None \<Rightarrow> 0
           | Some (_, raw) \<Rightarrow> (case Atoi raw of None \<Rightarrow> 0 | Some p \<Rightarrow> if 0 < p \<and> p \<notin> set edgePorts then p else 0)) in
      case rq_listenPort r of None \<Rightarrow> from_host | Some p \<Rightarrow> if 0 < p then p else from_host)"

definition request_key :: "int list \<Rightarrow> Request \<Rightarrow> string" where
  "request_key edgePorts r = routeCacheKey (stripPort (rq_Host r)) (requestRoutePort edgePorts r)"

text \<open>The load behind the route cache: the two reads of the catalogue at the key spaces \<open>kv\<close> and \<open>kv'\<close>.\<close>

definition loadRoute :: "bool \<times> bool \<Rightarrow> string \<Rightarrow> int \<Rightarrow> kv \<Rightarrow> kv \<Rightarrow> route_err + Route option" where
  "loadRoute down host port kv kv' =
     (let found = (if port = 0 then GetRouteForHostname down host kv kv'
                   else (case GetRouteForPort down host port kv kv' of
                           Inl e \<Rightarrow> Inl e
                         | Inr (r, declared) \<Rightarrow> Inr (if declared then r else None))) in
      case found of Inl e \<Rightarrow> Inl (ErrLoad ''catalog'') | Inr None \<Rightarrow> Inl route_err.ErrNotFound | Inr (Some r) \<Rightarrow> Inr (Some r))"

section \<open>Rewriting towards the agent\<close>

text \<open>
  \<open>trace\<close> are the header fields the tracing propagator injects. The legacy path rewrites in the \<open>Director\<close>; the
  mesh path in \<open>Transport.RoundTrip\<close>, after the reverse proxy.
\<close>

definition hSetAll :: "(string \<times> string) list \<Rightarrow> headers \<Rightarrow> headers" where
  "hSetAll kvs h = fold (\<lambda>(k, v). hSet k v) kvs h"

definition set_if :: "bool \<Rightarrow> string \<Rightarrow> string \<Rightarrow> headers \<Rightarrow> headers" where
  "set_if c name v h = (if c then hSet name v h else h)"

definition legacy_director :: "(string \<times> string) list \<Rightarrow> string \<Rightarrow> Backend \<Rightarrow> string \<Rightarrow> headers \<Rightarrow> headers" where
  "legacy_director trace reqID b cred h =
     hSetAll trace
       (set_if (cred \<noteq> '''') HeaderCredential cred
       (set_if (0 < be_AppPort b) HeaderAppPort (fmt_int (be_AppPort b))
       (set_if (reqID \<noteq> '''') HeaderClientRequestID reqID
       (set_if (reqID \<noteq> '''') HeaderRequestID reqID
       (hSet HeaderExecutionID (be_ExecutionID b)
       (hSet HeaderMachineID (be_MachineID b)
       (hDelAll edge_owned h)))))))"

definition legacy_target :: "bool \<Rightarrow> Backend \<Rightarrow> string" where
  "legacy_target agentTLS b = (if agentTLS then ''https://'' else ''http://'') @ be_NodeProxyEndpoint b"

definition mesh_director :: "(string \<times> string) list \<Rightarrow> string \<Rightarrow> headers \<Rightarrow> headers" where
  "mesh_director trace reqID h =
     hSetAll trace
       (set_if (reqID \<noteq> '''') HeaderClientRequestID reqID
       (set_if (reqID \<noteq> '''') HeaderRequestID reqID
       (hDelAll [HeaderRequestID, HeaderClientRequestID] h)))"

definition mesh_headers :: "Backend \<Rightarrow> string \<Rightarrow> headers \<Rightarrow> headers" where
  "mesh_headers b cred h =
     (let h1 = hDelAll [HeaderMachineID, HeaderExecutionID, HeaderPinMachine] h;
          h2 = (if cred \<noteq> '''' then hSet HeaderCredential cred h1 else hDel HeaderCredential h1) in
      if 0 < be_AppPort b then hSet HeaderAppPort (fmt_int (be_AppPort b)) h2 else hDel HeaderAppPort h2)"

definition JoinHostPort :: "string \<Rightarrow> string \<Rightarrow> string" where
  "JoinHostPort host port = (if ContainsAny host '':%'' then ''['' @ host @ '']:'' @ port else host @ '':'' @ port)"

text \<open>\<open>endpoint\<close> is what \<open>Endpoints.Get\<close> returned for the machine and execution.\<close>

definition mesh_RoundTrip :: "MeshEndpointRecord option \<Rightarrow> (string \<Rightarrow> headers \<Rightarrow> upstream_err + Response) \<Rightarrow> Backend \<Rightarrow> string \<Rightarrow>
    headers \<Rightarrow> upstream_err + Response" where
  "mesh_RoundTrip endpoint net b cred h =
     (case endpoint of
        None \<Rightarrow> Inl ErrNoDirect
      | Some rec \<Rightarrow> net (''http://'' @ JoinHostPort (me_NodeULA rec) (fmt_int (me_IngressPort rec))) (mesh_headers b cred h))"

section \<open>Answers and errors of an attempt\<close>

datatype retryReason = RetryNone | RetryForbidden | RetryTransport

definition upstream_verdict :: "int \<Rightarrow> headers \<Rightarrow> upstream_err option" where
  "upstream_verdict status h =
     (if status = 502 \<and> hGet h HeaderRetryable = retryableValue then Some ErrRetryProxyRoute
      else if status = 403 then Some ErrRetryForbidden
      else None)"

definition legacy_modify :: "Backend \<Rightarrow> response_hook" where
  "legacy_modify b status h =
     (upstream_verdict status h, hSet HeaderMachineID (be_MachineID b) (hDelAll [HeaderRetryable, HeaderCredential] h))"

definition mesh_modify :: response_hook where
  "mesh_modify status h = (upstream_verdict status h, hDelAll [HeaderRetryable, HeaderCredential] h)"

definition handleProxyError :: "bool \<Rightarrow> bool \<Rightarrow> bool \<Rightarrow> retryReason error_hook" where
  "handleProxyError allowTransportRetry cancelled noBody e ws =
     (let (w, reason) = ws;
          may_retry = (allowTransportRetry \<and> \<not> cancelled \<and> noBody) in
      if e = ErrRetryForbidden then (w, RetryForbidden)
      else if may_retry then (w, RetryTransport)
      else (http_Error ''agent proxy unavailable'' 502 w, reason))"

record directAttempt =
  da_failed :: bool
  da_retriable :: bool
  da_reason :: retryReason

definition mesh_error :: "directAttempt error_hook" where
  "mesh_error e ws =
     (fst ws, (snd ws)\<lparr>da_failed := True, da_retriable := (e = ErrDial \<or> e = ErrNoDirect),
        da_reason := (if e = ErrRetryForbidden then RetryForbidden else da_reason (snd ws))\<rparr>)"

text \<open>
  What an attempt runs on: the networks of the two paths, the endpoint lookup, whether the client had gone at the two
  moments it matters, and the injected trace fields.
\<close>

record attempt_env =
  te_trace :: "(string \<times> string) list"
  te_endpoint :: "MeshEndpointRecord option"
  te_mesh :: "string \<Rightarrow> headers \<Rightarrow> upstream_err + Response"
  te_agent :: "string \<Rightarrow> headers \<Rightarrow> upstream_err + Response"
  te_cancelled_mesh :: bool
  te_cancelled :: bool

definition legacy_serve :: "attempt_env \<Rightarrow> bool \<Rightarrow> Request \<Rightarrow> Backend \<Rightarrow> string \<Rightarrow> bool \<Rightarrow> ResponseWriter \<Rightarrow>
    headers option \<times> ResponseWriter \<times> retryReason" where
  "legacy_serve env agentTLS r b cred allowTransportRetry w =
     proxy_serve (rq_clientIP r) (legacy_director (te_trace env) (rq_id r) b cred) (legacy_modify b)
       (handleProxyError allowTransportRetry (te_cancelled env) (rq_noBody r))
       (te_agent env (legacy_target agentTLS b)) (rq_Header r) (w, RetryNone)"

definition mesh_serve :: "attempt_env \<Rightarrow> Request \<Rightarrow> Backend \<Rightarrow> string \<Rightarrow> ResponseWriter \<Rightarrow> headers option \<times> ResponseWriter \<times> directAttempt" where
  "mesh_serve env r b cred w =
     proxy_serve (rq_clientIP r) (mesh_director (te_trace env) (rq_id r)) mesh_modify mesh_error
       (mesh_RoundTrip (te_endpoint env) (te_mesh env) b cred) (rq_Header r)
       (w, \<lparr>da_failed = False, da_retriable = False, da_reason = RetryNone\<rparr>)"

text \<open>A round trip of an attempt: an answer or an error of one of the two networks, if the request was sent there at all.\<close>

datatype trip = ViaMesh (trip_result: "upstream_err + Response") | ViaAgent (trip_result: "upstream_err + Response")

definition mesh_trip :: "attempt_env \<Rightarrow> Request \<Rightarrow> Backend \<Rightarrow> string \<Rightarrow> ResponseWriter \<Rightarrow> trip list" where
  "mesh_trip env r b cred w =
     (case fst (mesh_serve env r b cred w) of
        None \<Rightarrow> []
      | Some out \<Rightarrow> [ViaMesh (mesh_RoundTrip (te_endpoint env) (te_mesh env) b cred out)])"

definition agent_trip :: "attempt_env \<Rightarrow> bool \<Rightarrow> Request \<Rightarrow> Backend \<Rightarrow> string \<Rightarrow> bool \<Rightarrow> ResponseWriter \<Rightarrow> trip list" where
  "agent_trip env agentTLS r b cred allow w =
     (case fst (legacy_serve env agentTLS r b cred allow w) of
        None \<Rightarrow> []
      | Some out \<Rightarrow> [ViaAgent (te_agent env (legacy_target agentTLS b) out)])"

text \<open>
  \<open>tryServe\<close>: the mesh path first where the backend offers it, then the legacy path when the mesh attempt failed
  before anything was written and the request can be sent again. The deferred release of the slot is part of it. The
  round trips are listed beside the result, in their order.
\<close>

definition tryServe_trips :: "attempt_env \<Rightarrow> Request \<Rightarrow> Backend \<Rightarrow> string \<Rightarrow> bool \<Rightarrow> bool \<Rightarrow> ResponseWriter \<Rightarrow> Handler \<Rightarrow>
    trip list \<times> retryReason \<times> ResponseWriter \<times> Handler" where
  "tryServe_trips env r b cred stale allowTransportRetry w h =
     (let w1 = (if stale then rw_set ''X-Firepaas-Stale'' ''stale'' w else w);
          h1 = h\<lparr>hd_inflight := inflight_release (be_MachineID b) (hd_inflight h)\<rparr>;
          legacy = (\<lambda>ts w c. let (_, w', reason) = legacy_serve env (hd_agentTLS h) r b cred allowTransportRetry w in
                      (ts @ agent_trip env (hd_agentTLS h) r b cred allowTransportRetry w, reason, w', h1\<lparr>hd_cnt := c\<rparr>)) in
      if hd_direct h \<and> be_ULA b \<noteq> '''' \<and> cred \<noteq> '''' then
        (let c1 = (hd_cnt h)\<lparr>ct_meshDirect := ct_meshDirect (hd_cnt h) + 1\<rparr>;
             (_, w2, d) = mesh_serve env r b cred w1;
             ts = mesh_trip env r b cred w1;
             started = (rw_status w2 \<noteq> rw_status w1) in
         if da_reason d = RetryForbidden then (ts, RetryForbidden, w2, h1\<lparr>hd_cnt := c1\<rparr>)
         else if da_failed d \<and> \<not> started \<and> \<not> te_cancelled_mesh env \<and> (rq_noBody r \<or> da_retriable d)
         then legacy ts w2 (c1\<lparr>ct_meshFallback := ct_meshFallback c1 + 1\<rparr>)
         else if da_failed d
         then (ts, RetryNone, if started then w2 else WriteHeader 502 w2, h1\<lparr>hd_cnt := c1\<lparr>ct_meshErrors := ct_meshErrors c1 + 1\<rparr>\<rparr>)
         else (ts, RetryNone, w2, h1\<lparr>hd_cnt := c1\<rparr>))
      else legacy [] w1 (hd_cnt h))"

definition tryServe :: "attempt_env \<Rightarrow> Request \<Rightarrow> Backend \<Rightarrow> string \<Rightarrow> bool \<Rightarrow> bool \<Rightarrow> ResponseWriter \<Rightarrow> Handler \<Rightarrow>
    retryReason \<times> ResponseWriter \<times> Handler" where
  "tryServe env r b cred stale allowTransportRetry w h = snd (tryServe_trips env r b cred stale allowTransportRetry w h)"

definition attempt_trips :: "attempt_env \<Rightarrow> Request \<Rightarrow> Backend \<Rightarrow> string \<Rightarrow> bool \<Rightarrow> bool \<Rightarrow> ResponseWriter \<Rightarrow> Handler \<Rightarrow> trip list" where
  "attempt_trips env r b cred stale allowTransportRetry w h = fst (tryServe_trips env r b cred stale allowTransportRetry w h)"

section \<open>The stages of a request\<close>

text \<open>
  Where a request stands: waiting for its route, for the token of the chosen backend, in its first attempt; and the
  same three stages of the retry.
\<close>

datatype stage =
    Lookup
  | Token Route Backend bool
  | Serving Route Backend string bool
  | RetryLookup Route
  | RetryToken Backend
  | RetryServing Backend string
  | Finished

text \<open>\<open>cn_counted\<close>: the request is counted in the autoscale tracker until it ends.\<close>

record conn =
  cn_req :: Request
  cn_w :: ResponseWriter
  cn_stage :: stage
  cn_counted :: bool

definition cn_host :: "conn \<Rightarrow> string" where
  "cn_host c = stripPort (rq_Host (cn_req c))"

definition status_of :: "ResponseWriter \<Rightarrow> int" where
  "status_of w = (case rw_status w of None \<Rightarrow> 200 | Some s \<Rightarrow> s)"

definition with_tracker :: "(AutoscaleTracker \<Rightarrow> AutoscaleTracker) \<Rightarrow> Handler \<Rightarrow> Handler" where
  "with_tracker f h = h\<lparr>hd_tracker := map_option f (hd_tracker h)\<rparr>"

definition bump :: "(Counters \<Rightarrow> Counters) \<Rightarrow> Handler \<Rightarrow> Handler" where
  "bump f h = h\<lparr>hd_cnt := f (hd_cnt h)\<rparr>"

text \<open>The end of a request: the deferred calls, the release of the host count first.\<close>

definition finish :: "ResponseWriter \<Rightarrow> conn \<Rightarrow> Handler \<Rightarrow> conn \<times> Handler" where
  "finish w c h =
     (let h1 = (if cn_counted c then with_tracker (tracker_Release (cn_host c)) h else h) in
      (c\<lparr>cn_w := w, cn_stage := Finished, cn_counted := False\<rparr>, bump (observeRequest (status_of w)) h1))"

definition noteUnserved :: "string \<Rightarrow> Handler \<Rightarrow> Handler" where
  "noteUnserved host h = bump (\<lambda>n. n\<lparr>ct_unservedRequests := ct_unservedRequests n + 1\<rparr>) (with_tracker (AddUnserved host) h)"

definition writeSelectionError :: "select_err \<Rightarrow> conn \<Rightarrow> Handler \<Rightarrow> conn \<times> Handler" where
  "writeSelectionError e c h =
     (let host = cn_host c; w = cn_w c in
      case e of
        ErrPinMiss \<Rightarrow>
          finish (http_Error ''pinned machine is not an eligible backend'' 404
              (rw_set ''X-Firepaas-Pin-Error'' ''machine not eligible (missing, replaced, not ready or draining)'' w)) c
            (bump (\<lambda>n. n\<lparr>ct_pinMisses := ct_pinMisses n + 1\<rparr>) h)
      | ErrHardLimit \<Rightarrow>
          finish (http_Error ''backend at hard concurrency limit'' 503 (rw_set ''Retry-After'' ''1'' w)) c
            (with_tracker (AddHardRejected host) (bump (\<lambda>n. n\<lparr>ct_hardRejected := ct_hardRejected n + 1\<rparr>) h))
      | ErrNoEligible \<Rightarrow> finish (http_Error ''no ready backend for hostname'' 503 w) c (noteUnserved host h))"

text \<open>Arrival: the health path, the rate limit. \<open>now\<close> is the limiter's clock reading.\<close>

definition serve_start :: "int \<Rightarrow> Request \<Rightarrow> ResponseWriter \<Rightarrow> Handler \<Rightarrow> conn \<times> Handler" where
  "serve_start now r w h =
     (let c = \<lparr>cn_req = r, cn_w = w, cn_stage = Lookup, cn_counted = False\<rparr> in
      if rq_Path r = ''/healthz'' then (c\<lparr>cn_w := rw_write [CHR ''o'', CHR ''k'', CHR 0x0A] (WriteHeader 200 w), cn_stage := Finished\<rparr>, h)
      else
        (let w1 = rw_set HeaderClientRequestID (rq_id r) w;
             (ok, l) = Allow now (cn_host c) (hd_limiter h);
             h1 = h\<lparr>hd_limiter := l\<rparr>; c1 = c\<lparr>cn_w := w1\<rparr> in
         if ok then (c1, h1)
         else finish (http_Error ''rate limited'' 429 (rw_set ''Retry-After'' ''1'' w1)) c1
                (bump (\<lambda>n. n\<lparr>ct_rateLimited := ct_rateLimited n + 1\<rparr>) h1)))"

definition pick_backend :: "(nat \<Rightarrow> nat) \<Rightarrow> rat \<Rightarrow> Route \<Rightarrow> conn \<Rightarrow> Handler \<Rightarrow> (select_err + Backend) \<times> Handler" where
  "pick_backend intn u route c h =
     (case selectBackend intn u (hd_hardConcurrency h) route (hGet (rq_Header (cn_req c)) HeaderPinMachine)
             (hd_inflight h, ct_ineligible (hd_cnt h)) of
        (r, t, n) \<Rightarrow> (r, h\<lparr>hd_inflight := t, hd_cnt := (hd_cnt h)\<lparr>ct_ineligible := n\<rparr>\<rparr>))"

text \<open>The route lookup returns.\<close>

definition serve_routed :: "(nat \<Rightarrow> nat) \<Rightarrow> rat \<Rightarrow> Route route_result \<Rightarrow> conn \<Rightarrow> Handler \<Rightarrow> conn \<times> Handler" where
  "serve_routed intn u res c h =
     (let w = cn_w c; host = cn_host c;
          no_route = finish (http_Error ''no route for hostname'' 404 w) c (noteUnserved host h) in
      case res of
        Inl route_err.ErrNotFound \<Rightarrow> no_route
      | Inl ErrBeyondStale \<Rightarrow>
          finish (http_Error ''route catalog unavailable beyond serve-stale window'' 503 (rw_set ''Retry-After'' ''30'' w)) c
            (bump (\<lambda>n. n\<lparr>ct_beyondStale := ct_beyondStale n + 1\<rparr>) h)
      | Inl (ErrLoad _) \<Rightarrow>
          finish (http_Error ''catalog error'' 503 w) c (bump (\<lambda>n. n\<lparr>ct_redisErrors := ct_redisErrors n + 1\<rparr>) h)
      | Inr (route, stale) \<Rightarrow>
          if rt_Backends route = [] then no_route
          else (case pick_backend intn u route c h of
             (Inl e, h1) \<Rightarrow> writeSelectionError e c h1
           | (Inr b, h1) \<Rightarrow>
               (let h2 = (if hGet (rq_Header (cn_req c)) HeaderPinMachine \<noteq> '''' then bump (\<lambda>n. n\<lparr>ct_pinHits := ct_pinHits n + 1\<rparr>) h1 else h1);
                    h3 = (if stale then bump (\<lambda>n. n\<lparr>ct_staleServes := ct_staleServes n + 1\<rparr>) h2 else h2) in
                (c\<lparr>cn_stage := Token route b stale\<rparr>, h3))))"

text \<open>The failure of a token fetch, for both attempts: the slot is given back.\<close>

definition token_failed :: "Backend \<Rightarrow> conn \<Rightarrow> Handler \<Rightarrow> conn \<times> Handler" where
  "token_failed b c h =
     finish (http_Error ''traffic token unavailable'' 503 (cn_w c)) c
       (bump (\<lambda>n. n\<lparr>ct_tokenErrors := ct_tokenErrors n + 1\<rparr>)
          (h\<lparr>hd_inflight := inflight_release (be_MachineID b) (hd_inflight h)\<rparr>))"

definition note_token_stale :: "bool \<Rightarrow> Handler \<Rightarrow> Handler" where
  "note_token_stale stale h = (if stale then bump (\<lambda>n. n\<lparr>ct_tokenStaleServes := ct_tokenStaleServes n + 1\<rparr>) h else h)"

definition serve_token :: "token_result \<Rightarrow> Route \<Rightarrow> Backend \<Rightarrow> bool \<Rightarrow> conn \<Rightarrow> Handler \<Rightarrow> conn \<times> Handler" where
  "serve_token res route b stale c h =
     (case res of
        Inl _ \<Rightarrow> token_failed b c h
      | Inr (cred, tokenStale) \<Rightarrow>
          (c\<lparr>cn_w := rw_set HeaderMachineID (be_MachineID b) (cn_w c), cn_stage := Serving route b cred stale,
             cn_counted := (hd_tracker h \<noteq> None)\<rparr>,
           with_tracker (tracker_Acquire (cn_host c))
             (bump (\<lambda>n. n\<lparr>ct_proxiedReqs := ct_proxiedReqs n + 1\<rparr>) (note_token_stale tokenStale h))))"

text \<open>The first attempt ends: the answer stands, or the request is retried when it has no body.\<close>

definition serve_attempted :: "attempt_env \<Rightarrow> Route \<Rightarrow> Backend \<Rightarrow> string \<Rightarrow> bool \<Rightarrow> conn \<Rightarrow> Handler \<Rightarrow> conn \<times> Handler" where
  "serve_attempted env route b cred stale c h =
     (let (reason, w, h1) = tryServe env (cn_req c) b cred stale True (cn_w c) h in
      if reason = RetryNone then finish w c h1
      else if \<not> rq_noBody (cn_req c) then
        finish (if reason = RetryForbidden then http_Error ''agent proxy rejected request'' 403 w
                else http_Error ''agent proxy unavailable'' 502 w) c h1
      else
        (let h2 = (if reason = RetryForbidden then bump (\<lambda>n. n\<lparr>ct_forbiddenRetry := ct_forbiddenRetry n + 1\<rparr>) h1 else h1) in
         (c\<lparr>cn_w := w, cn_stage := RetryLookup route\<rparr>,
          h2\<lparr>hd_tokens := token_Invalidate (be_MachineID b) (hd_tokens h2),
             hd_routes := route_Invalidate (request_key (hd_edgePorts h2) (cn_req c)) (hd_routes h2)\<rparr>)))"

text \<open>The retry: a route that cannot be looked up again is replaced by the one of the first attempt.\<close>

definition serve_rerouted :: "(nat \<Rightarrow> nat) \<Rightarrow> rat \<Rightarrow> Route route_result \<Rightarrow> Route \<Rightarrow> conn \<Rightarrow> Handler \<Rightarrow> conn \<times> Handler" where
  "serve_rerouted intn u res route c h =
     (let retryRoute = (case res of Inl _ \<Rightarrow> route | Inr (nr, _) \<Rightarrow> nr) in
      case pick_backend intn u retryRoute c h of
        (Inl e, h1) \<Rightarrow> writeSelectionError e c h1
      | (Inr b, h1) \<Rightarrow> (c\<lparr>cn_stage := RetryToken b\<rparr>, h1))"

definition serve_retoken :: "token_result \<Rightarrow> Backend \<Rightarrow> conn \<Rightarrow> Handler \<Rightarrow> conn \<times> Handler" where
  "serve_retoken res b c h =
     (case res of
        Inl _ \<Rightarrow> token_failed b c h
      | Inr (cred, tokenStale) \<Rightarrow>
          (c\<lparr>cn_w := rw_set HeaderMachineID (be_MachineID b) (cn_w c), cn_stage := RetryServing b cred\<rparr>, note_token_stale tokenStale h))"

definition serve_reattempted :: "attempt_env \<Rightarrow> Backend \<Rightarrow> string \<Rightarrow> conn \<Rightarrow> Handler \<Rightarrow> conn \<times> Handler" where
  "serve_reattempted env b cred c h =
     (let (reason, w, h1) = tryServe env (cn_req c) b cred False False (cn_w c) h in
      finish (if reason = RetryForbidden then http_Error ''agent proxy rejected request'' 403 w else w) c h1)"

end
