(* ===== verification/EdgeFlow.thy ===== *)
theory EdgeFlow
  imports EdgeHandler
begin

text \<open>
  What the edge's request handler guarantees: the concurrency limit and the eligibility of backends over all
  interleavings of requests, the headers an agent receives, and the path of a request through edge and agent to the
  guest.
\<close>

section \<open>Requests in any order\<close>

text \<open>
  The requests in the edge and the shared state. A stage runs when the call it waited for returns, with any result; the
  caches and the autoscale counters also change by other calls at any time.
\<close>

inductive stage_step :: "Handler \<times> conn list \<Rightarrow> Handler \<times> conn list \<Rightarrow> bool" where
  routed: "intn_ok intn \<Longrightarrow> cn_stage c = Lookup \<Longrightarrow> serve_routed intn u res c h = (c', h') \<Longrightarrow>
    stage_step (h, xs @ c # ys) (h', xs @ c' # ys)"
| tokened: "cn_stage c = Token route b stale \<Longrightarrow> serve_token res route b stale c h = (c', h') \<Longrightarrow>
    stage_step (h, xs @ c # ys) (h', xs @ c' # ys)"
| attempt_done: "cn_stage c = Serving route b cred stale \<Longrightarrow> serve_attempted env route b cred stale c h = (c', h') \<Longrightarrow>
    stage_step (h, xs @ c # ys) (h', xs @ c' # ys)"
| rerouted: "intn_ok intn \<Longrightarrow> cn_stage c = RetryLookup route \<Longrightarrow> serve_rerouted intn u res route c h = (c', h') \<Longrightarrow>
    stage_step (h, xs @ c # ys) (h', xs @ c' # ys)"
| retokened: "cn_stage c = RetryToken b \<Longrightarrow> serve_retoken res b c h = (c', h') \<Longrightarrow>
    stage_step (h, xs @ c # ys) (h', xs @ c' # ys)"
| reattempt_done: "cn_stage c = RetryServing b cred \<Longrightarrow> serve_reattempted env b cred c h = (c', h') \<Longrightarrow>
    stage_step (h, xs @ c # ys) (h', xs @ c' # ys)"

inductive edge_step :: "Handler \<times> conn list \<Rightarrow> Handler \<times> conn list \<Rightarrow> bool" where
  arrived: "serve_start now r w h = (c', h') \<Longrightarrow> edge_step (h, cs) (h', c' # cs)"
| staged: "stage_step s s' \<Longrightarrow> edge_step s s'"
| elsewhere: "edge_step (h, cs) (h\<lparr>hd_routes := ro, hd_tokens := tk, hd_tracker := map_option f (hd_tracker h)\<rparr>, cs)"

text \<open>The backend whose slot a request holds.\<close>

definition holds :: "conn \<Rightarrow> Backend option" where
  "holds c =
     (case cn_stage c of
        Token _ b _ \<Rightarrow> Some b
      | Serving _ b _ _ \<Rightarrow> Some b
      | RetryToken b \<Rightarrow> Some b
      | RetryServing b _ \<Rightarrow> Some b
      | _ \<Rightarrow> None)"

definition held :: "conn list \<Rightarrow> string list" where
  "held cs = map be_MachineID (List.map_filter holds cs)"

text \<open>What a stage may do to the slots: take one of an eligible backend below the limit, keep its own, or give it back.\<close>

definition slot_change :: "int \<Rightarrow> Backend option \<Rightarrow> inflight \<Rightarrow> Backend option \<Rightarrow> inflight \<Rightarrow> bool" where
  "slot_change hard b t b' t' \<longleftrightarrow>
     (case (b, b') of
        (None, None) \<Rightarrow> t' = t
      | (None, Some x) \<Rightarrow> eligible_backend x \<and> inflight_of (be_MachineID x) t < hard \<and> t' = acquireLocked x t
      | (Some x, Some y) \<Rightarrow> y = x \<and> t' = t
      | (Some x, None) \<Rightarrow> t' = inflight_release (be_MachineID x) t)"

definition stage_ok :: "Backend option \<Rightarrow> Handler \<Rightarrow> conn \<times> Handler \<Rightarrow> bool" where
  "stage_ok b h res \<longleftrightarrow>
     hd_hardConcurrency (snd res) = hd_hardConcurrency h \<and>
     slot_change (hd_hardConcurrency h) b (hd_inflight h) (holds (fst res)) (hd_inflight (snd res))"

lemma bump_simps [simp]:
  "hd_inflight (bump f h) = hd_inflight h" "hd_hardConcurrency (bump f h) = hd_hardConcurrency h"
  by (simp_all add: bump_def)

lemma with_tracker_simps [simp]:
  "hd_inflight (with_tracker f h) = hd_inflight h" "hd_hardConcurrency (with_tracker f h) = hd_hardConcurrency h"
  by (simp_all add: with_tracker_def)

lemma note_simps [simp]:
  "hd_inflight (noteUnserved host h) = hd_inflight h" "hd_hardConcurrency (noteUnserved host h) = hd_hardConcurrency h"
  "hd_inflight (note_token_stale st h) = hd_inflight h" "hd_hardConcurrency (note_token_stale st h) = hd_hardConcurrency h"
  by (simp_all add: noteUnserved_def note_token_stale_def)

lemma finish_simps [simp]:
  "hd_inflight (snd (finish w c h)) = hd_inflight h" "hd_hardConcurrency (snd (finish w c h)) = hd_hardConcurrency h"
  "holds (fst (finish w c h)) = None" "cn_stage (fst (finish w c h)) = Finished"
  by (simp_all add: finish_def holds_def Let_def)

lemma finish_ok: "hd_hardConcurrency h' = hd_hardConcurrency h \<Longrightarrow>
    slot_change (hd_hardConcurrency h) b (hd_inflight h) None (hd_inflight h') \<Longrightarrow> stage_ok b h (finish w c h')"
  by (simp add: stage_ok_def)

lemma writeSelectionError_ok: "hd_hardConcurrency h' = hd_hardConcurrency h \<Longrightarrow>
    slot_change (hd_hardConcurrency h) b (hd_inflight h) None (hd_inflight h') \<Longrightarrow> stage_ok b h (writeSelectionError e c h')"
  by (cases e) (auto simp: writeSelectionError_def Let_def intro!: finish_ok)

lemma slot_change_simps [simp]: "slot_change hard None t None t" "slot_change hard (Some b) t (Some b) t"
  "slot_change hard (Some b) t None (inflight_release (be_MachineID b) t)"
  by (simp_all add: slot_change_def)

lemma serve_start_ok: "stage_ok None h (serve_start now r w h)"
  by (auto simp: serve_start_def Let_def split_beta stage_ok_def holds_def)

lemma pick_backend_ok:
  assumes "intn_ok intn" and "pick_backend intn u route c h = (r, h')"
  shows "hd_hardConcurrency h' = hd_hardConcurrency h"
    and "r = Inr b \<Longrightarrow> b \<in> set (rt_Backends route) \<and> slot_change (hd_hardConcurrency h) None (hd_inflight h) (Some b) (hd_inflight h')"
    and "r = Inl e \<Longrightarrow> slot_change (hd_hardConcurrency h) None (hd_inflight h) None (hd_inflight h')"
proof -
  let ?pin = "hGet (rq_Header (cn_req c)) HeaderPinMachine"
  obtain x t n where sel: "selectBackend intn u (hd_hardConcurrency h) route ?pin (hd_inflight h, ct_ineligible (hd_cnt h)) = (x, t, n)"
    by (metis prod_cases3)
  with assms(2) have r: "r = x" "h' = h\<lparr>hd_inflight := t, hd_cnt := (hd_cnt h)\<lparr>ct_ineligible := n\<rparr>\<rparr>"
    by (auto simp: pick_backend_def)
  then show "hd_hardConcurrency h' = hd_hardConcurrency h" by simp
  from selectBackend_spec [OF assms(1) sel] r
  show "r = Inr b \<Longrightarrow> b \<in> set (rt_Backends route) \<and> slot_change (hd_hardConcurrency h) None (hd_inflight h) (Some b) (hd_inflight h')"
    and "r = Inl e \<Longrightarrow> slot_change (hd_hardConcurrency h) None (hd_inflight h) None (hd_inflight h')"
    by (auto simp: slot_change_def)
qed

lemma serve_routed_ok:
  assumes "intn_ok intn"
  shows "stage_ok None h (serve_routed intn u res c h)"
proof (cases res)
  case (Inl e)
  then show ?thesis by (cases e) (auto simp: serve_routed_def Let_def intro!: finish_ok)
next
  case (Inr rs)
  obtain route stale where rs: "rs = (route, stale)" by (cases rs)
  obtain x h1 where p: "pick_backend intn u route c h = (x, h1)" by fastforce
  note ok = pick_backend_ok [OF assms p]
  show ?thesis
  proof (cases x)
    case (Inl e)
    with ok show ?thesis by (auto simp: serve_routed_def Let_def \<open>res = Inr rs\<close> rs p intro!: finish_ok writeSelectionError_ok)
  next
    case (Inr b)
    with ok show ?thesis by (auto simp: serve_routed_def Let_def \<open>res = Inr rs\<close> rs p stage_ok_def holds_def)
  qed
qed

lemma token_failed_ok: "stage_ok (Some b) h (token_failed b c h)"
  unfolding token_failed_def by (rule finish_ok) simp_all

lemma serve_token_ok: "stage_ok (Some b) h (serve_token res route b stale c h)"
proof (cases res)
  case (Inl e)
  then show ?thesis by (simp add: serve_token_def token_failed_ok)
next
  case (Inr x)
  then show ?thesis by (cases x) (simp add: serve_token_def stage_ok_def holds_def)
qed

lemma serve_retoken_ok: "stage_ok (Some b) h (serve_retoken res b c h)"
proof (cases res)
  case (Inl e)
  then show ?thesis by (simp add: serve_retoken_def token_failed_ok)
next
  case (Inr x)
  then show ?thesis by (cases x) (simp add: serve_retoken_def stage_ok_def holds_def)
qed

text \<open>The result of an attempt and its round trips, apart.\<close>

lemma tryServe_eq:
  "tryServe env r b cred stale allowTransportRetry w h =
     (let w1 = (if stale then rw_set ''X-Firepaas-Stale'' ''stale'' w else w);
          h1 = h\<lparr>hd_inflight := inflight_release (be_MachineID b) (hd_inflight h)\<rparr>;
          legacy = (\<lambda>w c. let (_, w', reason) = legacy_serve env (hd_agentTLS h) r b cred allowTransportRetry w in
                      (reason, w', h1\<lparr>hd_cnt := c\<rparr>)) in
      if hd_direct h \<and> be_ULA b \<noteq> '''' \<and> cred \<noteq> '''' then
        (let c1 = (hd_cnt h)\<lparr>ct_meshDirect := ct_meshDirect (hd_cnt h) + 1\<rparr>;
             (_, w2, d) = mesh_serve env r b cred w1;
             started = (rw_status w2 \<noteq> rw_status w1) in
         if da_reason d = RetryForbidden then (RetryForbidden, w2, h1\<lparr>hd_cnt := c1\<rparr>)
         else if da_failed d \<and> \<not> started \<and> \<not> te_cancelled_mesh env \<and> (rq_noBody r \<or> da_retriable d)
         then legacy w2 (c1\<lparr>ct_meshFallback := ct_meshFallback c1 + 1\<rparr>)
         else if da_failed d
         then (RetryNone, if started then w2 else WriteHeader 502 w2, h1\<lparr>hd_cnt := c1\<lparr>ct_meshErrors := ct_meshErrors c1 + 1\<rparr>\<rparr>)
         else (RetryNone, w2, h1\<lparr>hd_cnt := c1\<rparr>))
      else legacy w1 (hd_cnt h))"
  by (simp only: tryServe_def tryServe_trips_def Let_def split_beta if_distrib [of snd] snd_conv)

lemma attempt_trips_eq:
  "attempt_trips env r b cred stale allow w h =
     (let w1 = (if stale then rw_set ''X-Firepaas-Stale'' ''stale'' w else w) in
      if hd_direct h \<and> be_ULA b \<noteq> '''' \<and> cred \<noteq> '''' then
        (let (_, w2, d) = mesh_serve env r b cred w1 in
         mesh_trip env r b cred w1 @
         (if da_reason d \<noteq> RetryForbidden \<and> da_failed d \<and> rw_status w2 = rw_status w1 \<and> \<not> te_cancelled_mesh env \<and> (rq_noBody r \<or> da_retriable d)
          then agent_trip env (hd_agentTLS h) r b cred allow w2 else []))
      else agent_trip env (hd_agentTLS h) r b cred allow w1)"
proof -
  obtain out w2 d where m: "mesh_serve env r b cred (if stale then rw_set ''X-Firepaas-Stale'' ''stale'' w else w) = (out, w2, d)" by (metis prod_cases3)
  show ?thesis by (simp only: attempt_trips_def tryServe_trips_def Let_def split_beta if_distrib [of fst] fst_conv m snd_conv) auto
qed

text \<open>Every way out of an attempt gives the slot back.\<close>

lemma tryServe_slots:
  assumes "tryServe env r b cred stale allow w h = (reason, w', h')"
  shows "hd_inflight h' = inflight_release (be_MachineID b) (hd_inflight h)" "hd_hardConcurrency h' = hd_hardConcurrency h"
  using assms by (auto simp: tryServe_eq Let_def split_beta split: if_splits)

lemma serve_attempted_ok: "stage_ok (Some b) h (serve_attempted env route b cred stale c h)"
proof -
  obtain reason w h1 where t: "tryServe env (cn_req c) b cred stale True (cn_w c) h = (reason, w, h1)" by (metis prod_cases3)
  from tryServe_slots [OF this] show ?thesis
    by (auto simp: serve_attempted_def Let_def t stage_ok_def holds_def intro!: finish_ok [unfolded stage_ok_def])
qed

lemma serve_rerouted_ok:
  assumes "intn_ok intn"
  shows "stage_ok None h (serve_rerouted intn u res route c h)"
proof -
  let ?route = "case res of Inl _ \<Rightarrow> route | Inr (nr, _) \<Rightarrow> nr"
  obtain x h1 where p: "pick_backend intn u ?route c h = (x, h1)" by fastforce
  note ok = pick_backend_ok [OF assms p]
  show ?thesis
  proof (cases x)
    case (Inl e)
    with ok show ?thesis by (auto simp: serve_rerouted_def Let_def p intro!: writeSelectionError_ok)
  next
    case (Inr b)
    with ok show ?thesis by (auto simp: serve_rerouted_def Let_def p stage_ok_def holds_def)
  qed
qed

lemma serve_reattempted_ok: "stage_ok (Some b) h (serve_reattempted env b cred c h)"
proof -
  obtain reason w h1 where t: "tryServe env (cn_req c) b cred False False (cn_w c) h = (reason, w, h1)" by (metis prod_cases3)
  from tryServe_slots [OF this] show ?thesis
    by (auto simp: serve_reattempted_def Let_def t intro!: finish_ok)
qed


section \<open>The concurrency limit\<close>

definition edge_inv :: "Handler \<times> conn list \<Rightarrow> bool" where
  "edge_inv s \<longleftrightarrow>
     slots_ok (held (snd s)) (hd_inflight (fst s)) \<and>
     (\<forall>m. int (count_list (held (snd s)) m) \<le> hd_hardConcurrency (fst s)) \<and>
     (\<forall>c \<in> set (snd s). \<forall>b. holds c = Some b \<longrightarrow> eligible_backend b)"

lemma held_Cons: "held (c # cs) = (case holds c of None \<Rightarrow> [] | Some b \<Rightarrow> [be_MachineID b]) @ held cs"
  by (simp add: held_def map_filter_simps split: option.split)

lemma held_split: "held (xs @ c # ys) = held xs @ (case holds c of None \<Rightarrow> [] | Some b \<Rightarrow> [be_MachineID b]) @ held ys"
proof (induction xs)
  case Nil
  then show ?case using held_Cons [of c ys] by (simp add: held_def map_filter_simps)
qed (simp add: held_Cons)

text \<open>The slots after one request moved on.\<close>

lemma slot_change_inv:
  assumes inv: "edge_inv (h, xs @ c # ys)" and st: "stage_ok (holds c) h (c', h')"
  shows "edge_inv (h', xs @ c' # ys)"
proof -
  let ?rest = "held xs @ held ys" and ?t = "hd_inflight h" and ?hard = "hd_hardConcurrency h"
  have slots: "slots_ok (held (xs @ c # ys)) ?t" and le: "\<And>m. int (count_list (held (xs @ c # ys)) m) \<le> ?hard"
    and el: "\<And>b. holds c = Some b \<Longrightarrow> eligible_backend b"
    and others: "\<And>d b. d \<in> set xs \<union> set ys \<Longrightarrow> holds d = Some b \<Longrightarrow> eligible_backend b"
    using inv by (auto simp: edge_inv_def)
  have hard: "hd_hardConcurrency h' = ?hard" and sc: "slot_change ?hard (holds c) ?t (holds c') (hd_inflight h')"
    using st by (auto simp: stage_ok_def)
  have "slots_ok (held (xs @ c' # ys)) (hd_inflight h') \<and> (\<forall>m. int (count_list (held (xs @ c' # ys)) m) \<le> ?hard) \<and>
      (\<forall>b. holds c' = Some b \<longrightarrow> eligible_backend b)"
  proof (cases "holds c"; cases "holds c'")
    assume c: "holds c = None" "holds c' = None"
    then show ?thesis using slots le sc by (simp add: held_split slot_change_def)
  next
    fix b assume c: "holds c = None" "holds c' = Some b"
    then have b: "eligible_backend b" "inflight_of (be_MachineID b) ?t < ?hard" "hd_inflight h' = acquireLocked b ?t"
      using sc by (auto simp: slot_change_def)
    have r: "slots_ok ?rest ?t" using slots c by (simp add: held_split)
    have "slots_ok (held (xs @ c' # ys)) (hd_inflight h')"
      by (rule slots_ok_mset [OF slots_ok_acquire [OF r, of b, folded b(3)]]) (simp add: held_split c)
    moreover have "int (count_list (held (xs @ c' # ys)) m) \<le> ?hard" for m
      using le [of m] b(2) slots_ok_inflight [OF r, of m] c by (auto simp: held_split)
    ultimately show ?thesis using b(1) c by simp
  next
    fix b assume c: "holds c = Some b" "holds c' = None"
    then have b: "hd_inflight h' = inflight_release (be_MachineID b) ?t" using sc by (simp add: slot_change_def)
    have r: "slots_ok (be_MachineID b # ?rest) ?t"
      by (rule slots_ok_mset [OF slots]) (simp add: held_split c)
    have "slots_ok (held (xs @ c' # ys)) (hd_inflight h')"
      using slots_ok_release [OF r, of "be_MachineID b"] by (simp add: b held_split c)
    moreover have "int (count_list (held (xs @ c' # ys)) m) \<le> ?hard" for m
      using le [of m] c by (auto simp: held_split split: if_splits)
    ultimately show ?thesis using c by simp
  next
    fix b b' assume c: "holds c = Some b" "holds c' = Some b'"
    then show ?thesis using slots le sc el by (simp add: held_split slot_change_def)
  qed
  with hard others show ?thesis by (auto simp: edge_inv_def)
qed

lemma stage_step_inv: "stage_step s s' \<Longrightarrow> edge_inv s \<Longrightarrow> edge_inv s'"
proof (induction rule: stage_step.induct)
  case (routed intn c u res h c' h' xs ys)
  then have "stage_ok (holds c) h (c', h')" using serve_routed_ok [of intn h u res c] by (simp add: holds_def)
  with routed.prems show ?case by (rule slot_change_inv)
next
  case (tokened c route b stale res h c' h' xs ys)
  then have "stage_ok (holds c) h (c', h')" using serve_token_ok [of b h res route stale c] by (simp add: holds_def)
  with tokened.prems show ?case by (rule slot_change_inv)
next
  case (attempt_done c route b cred stale env h c' h' xs ys)
  then have "stage_ok (holds c) h (c', h')" using serve_attempted_ok [of b h env route cred stale c] by (simp add: holds_def)
  with attempt_done.prems show ?case by (rule slot_change_inv)
next
  case (rerouted intn c route u res h c' h' xs ys)
  then have "stage_ok (holds c) h (c', h')" using serve_rerouted_ok [of intn h u res route c] by (simp add: holds_def)
  with rerouted.prems show ?case by (rule slot_change_inv)
next
  case (retokened c b res h c' h' xs ys)
  then have "stage_ok (holds c) h (c', h')" using serve_retoken_ok [of b h res c] by (simp add: holds_def)
  with retokened.prems show ?case by (rule slot_change_inv)
next
  case (reattempt_done c b cred env h c' h' xs ys)
  then have "stage_ok (holds c) h (c', h')" using serve_reattempted_ok [of b h env cred c] by (simp add: holds_def)
  with reattempt_done.prems show ?case by (rule slot_change_inv)
qed

lemma edge_step_inv: "edge_step s s' \<Longrightarrow> edge_inv s \<Longrightarrow> edge_inv s'"
proof (induction rule: edge_step.induct)
  case (arrived now r w h c' h' cs)
  have c: "holds \<lparr>cn_req = r, cn_w = w, cn_stage = Finished, cn_counted = False\<rparr> = None" by (simp add: holds_def)
  let ?c = "\<lparr>cn_req = r, cn_w = w, cn_stage = Finished, cn_counted = False\<rparr>"
  have "edge_inv (h, [] @ ?c # cs)" using arrived.prems c by (simp add: edge_inv_def held_Cons)
  moreover have "stage_ok (holds ?c) h (c', h')" using serve_start_ok [of h now r w] arrived.hyps c by simp
  ultimately show ?case using slot_change_inv [of h "[]" ?c cs c' h'] by simp
next
  case (staged s s')
  then show ?case by (rule stage_step_inv)
next
  case (elsewhere h cs ro tk f)
  then show ?case by (simp add: edge_inv_def)
qed

lemma edge_run_inv: "edge_step\<^sup>*\<^sup>* s s' \<Longrightarrow> edge_inv s \<Longrightarrow> edge_inv s'"
  by (induction rule: rtranclp_induct) (auto intro: edge_step_inv)

lemma count_held: "count_list (held cs) m = length (filter (\<lambda>c. map_option be_MachineID (holds c) = Some m) cs)"
  by (induction cs) (auto simp: held_Cons held_def map_filter_simps split: option.split)

text \<open>Claim C17.
  However requests interleave, whatever the route lookups, token fetches and upstreams answer and however attempts fail and are
  retried: the tracker counts for every machine exactly the requests that hold a slot of it, never more than the hard
  limit; every such request goes to a backend that is not draining and has a serving readiness; and a machine with no
  request has no entry, so when all requests have ended the table is empty.
\<close>

theorem hard_limit_exact:
  assumes run: "edge_step\<^sup>*\<^sup>* (NewHandler routes tokens limiter tracker hard ports tls direct, []) (h, cs)"
  shows "inflight_of m (hd_inflight h) = int (length (filter (\<lambda>c. map_option be_MachineID (holds c) = Some m) cs)) \<and>
    inflight_of m (hd_inflight h) \<le> hd_hardConcurrency h \<and>
    (\<forall>c \<in> set cs. \<forall>b. holds c = Some b \<longrightarrow> eligible_backend b) \<and>
    ((\<forall>c \<in> set cs. map_option be_MachineID (holds c) \<noteq> Some m) \<longrightarrow> mget (hd_inflight h) m = None)"
proof -
  let ?h = "NewHandler routes tokens limiter tracker hard ports tls direct"
  have "edge_inv (?h, [])"
    by (auto simp: edge_inv_def held_def map_filter_simps NewHandler_def slots_ok_empty)
  from edge_run_inv [OF run this] have inv: "edge_inv (h, cs)" .
  then have s: "slots_ok (held cs) (hd_inflight h)" and le: "int (count_list (held cs) m) \<le> hd_hardConcurrency h"
    by (auto simp: edge_inv_def)
  have "mget (hd_inflight h) m = None" if "\<forall>c \<in> set cs. map_option be_MachineID (holds c) \<noteq> Some m"
  proof -
    have "count_list (held cs) m = 0" using that by (auto simp: count_held filter_empty_conv)
    then have "m \<notin> set (held cs)" by (simp add: count_list_0_iff)
    with s show ?thesis by (simp add: slots_ok_def)
  qed
  then show ?thesis using inv le slots_ok_inflight [OF s, of m] by (simp add: edge_inv_def count_held)
qed


definition example_edge :: Handler where
  "example_edge = NewHandler (NewRouteCache 10 100) (NewTokenClient '''' '''' 10) None None 2 [80] False False"

definition example_request :: Request where
  "example_request = \<lparr>rq_Host = ''h:80'', rq_listenPort = None, rq_Path = ''/'', rq_Header = [], rq_noBody = True, rq_clientIP = None, rq_id = ''id1''\<rparr>"

definition example_arrival :: "conn \<times> Handler" where
  "example_arrival = serve_start 0 example_request fresh_writer example_edge"

definition example_routed :: "conn \<times> Handler" where
  "example_routed = serve_routed (\<lambda>n. 0) 0 (Inr (example_backends, False)) (fst example_arrival) (snd example_arrival)"

theorem hard_limit_exact_witness:
  "inflight_of ''a'' (hd_inflight (snd example_routed)) = 1 \<and> inflight_of ''a'' (hd_inflight (snd example_routed)) \<le> hd_hardConcurrency (snd example_routed)"
proof -
  have "edge_step (example_edge, []) (snd example_arrival, [fst example_arrival])"
    by (rule arrived [of 0 example_request fresh_writer]) (simp add: example_arrival_def)
  moreover have l: "cn_stage (fst example_arrival) = Lookup" by code_simp
  have "edge_step (snd example_arrival, [] @ fst example_arrival # []) (snd example_routed, [] @ fst example_routed # [])"
    by (rule staged, rule routed [of "\<lambda>n. 0", OF _ l]) (simp_all add: intn_ok_def example_routed_def)
  ultimately have run: "edge_step\<^sup>*\<^sup>* (example_edge, []) (snd example_routed, [fst example_routed])" by simp
  have "map_option be_MachineID (holds (fst example_routed)) = Some ''a''" by code_simp
  then show ?thesis using hard_limit_exact [OF run [unfolded example_edge_def], of "''a''"] by simp
qed


section \<open>What an agent receives\<close>

text \<open>The value the edge gives each header it owns.\<close>

definition edge_value :: "string \<Rightarrow> Backend \<Rightarrow> string \<Rightarrow> string \<Rightarrow> string option" where
  "edge_value reqID b cred n =
     (if n = HeaderMachineID then Some (be_MachineID b)
      else if n = HeaderExecutionID then Some (be_ExecutionID b)
      else if n = HeaderAppPort then (if 0 < be_AppPort b then Some (fmt_int (be_AppPort b)) else None)
      else if n = HeaderCredential then (if cred \<noteq> '''' then Some cred else None)
      else if n = HeaderRequestID \<or> n = HeaderClientRequestID then (if reqID \<noteq> '''' then Some reqID else None)
      else None)"

text \<open>The propagator injects tracing fields only.\<close>

definition trace_ok :: "(string \<times> string) list \<Rightarrow> bool" where
  "trace_ok trace \<longleftrightarrow> list_all (\<lambda>(k, v). CanonicalKey k \<notin> set (map CanonicalKey (''Connection'' # edge_owned))) trace"

lemma edge_keys:
  "distinct (map CanonicalKey edge_owned)" "distinct edge_owned"
  "list_all (\<lambda>k. CanonicalKey k \<notin> set (map CanonicalKey proxy_names)) edge_owned"
  by code_simp+

lemma hSetAll_other: "list_all (\<lambda>(k', v). CanonicalKey k' \<noteq> k) kvs \<Longrightarrow> mget (hSetAll kvs h) k = mget h k"
  unfolding hSetAll_def by (induction kvs arbitrary: h) (auto simp: mget_hSet)

lemma set_if_get: "mget (set_if c name v h) k = (if c \<and> k = CanonicalKey name then Some [v] else mget h k)"
  by (simp add: set_if_def mget_hSet)

lemma trace_other: "trace_ok trace \<Longrightarrow> n \<in> set (''Connection'' # edge_owned) \<Longrightarrow> mget (hSetAll trace h) (CanonicalKey n) = mget h (CanonicalKey n)"
  by (rule hSetAll_other) (auto simp: trace_ok_def list_all_iff)

lemma edge_key_eq: "n \<in> set edge_owned \<Longrightarrow> m \<in> set edge_owned \<Longrightarrow> CanonicalKey n = CanonicalKey m \<longleftrightarrow> n = m"
  using edge_keys(1) by (auto simp: distinct_map inj_on_def)

lemma edge_owned_names:
  "HeaderMachineID \<in> set edge_owned" "HeaderExecutionID \<in> set edge_owned" "HeaderAppPort \<in> set edge_owned"
  "HeaderCredential \<in> set edge_owned" "HeaderRequestID \<in> set edge_owned" "HeaderClientRequestID \<in> set edge_owned"
  by (simp_all add: edge_owned_def)

lemma header_names_apart:
  "HeaderMachineID \<noteq> HeaderExecutionID" "HeaderMachineID \<noteq> HeaderAppPort" "HeaderMachineID \<noteq> HeaderCredential"
  "HeaderMachineID \<noteq> HeaderRequestID" "HeaderMachineID \<noteq> HeaderClientRequestID" "HeaderExecutionID \<noteq> HeaderMachineID"
  "HeaderExecutionID \<noteq> HeaderAppPort" "HeaderExecutionID \<noteq> HeaderCredential" "HeaderExecutionID \<noteq> HeaderRequestID"
  "HeaderExecutionID \<noteq> HeaderClientRequestID" "HeaderAppPort \<noteq> HeaderMachineID" "HeaderAppPort \<noteq> HeaderExecutionID"
  "HeaderAppPort \<noteq> HeaderCredential" "HeaderAppPort \<noteq> HeaderRequestID" "HeaderAppPort \<noteq> HeaderClientRequestID"
  "HeaderCredential \<noteq> HeaderMachineID" "HeaderCredential \<noteq> HeaderExecutionID" "HeaderCredential \<noteq> HeaderAppPort"
  "HeaderCredential \<noteq> HeaderRequestID" "HeaderCredential \<noteq> HeaderClientRequestID" "HeaderRequestID \<noteq> HeaderMachineID"
  "HeaderRequestID \<noteq> HeaderExecutionID" "HeaderRequestID \<noteq> HeaderAppPort" "HeaderRequestID \<noteq> HeaderCredential"
  "HeaderRequestID \<noteq> HeaderClientRequestID" "HeaderClientRequestID \<noteq> HeaderMachineID" "HeaderClientRequestID \<noteq> HeaderExecutionID"
  "HeaderClientRequestID \<noteq> HeaderAppPort" "HeaderClientRequestID \<noteq> HeaderCredential" "HeaderClientRequestID \<noteq> HeaderRequestID"
  by (simp_all add: header_names HeaderClientRequestID_def)

lemma legacy_director_get:
  assumes "trace_ok trace" and n: "n \<in> set edge_owned"
  shows "mget (legacy_director trace reqID b cred h) (CanonicalKey n) = map_option (\<lambda>v. [v]) (edge_value reqID b cred n)"
proof -
  have "mget (legacy_director trace reqID b cred h) (CanonicalKey n) =
      mget (set_if (cred \<noteq> '''') HeaderCredential cred
       (set_if (0 < be_AppPort b) HeaderAppPort (fmt_int (be_AppPort b))
       (set_if (reqID \<noteq> '''') HeaderClientRequestID reqID
       (set_if (reqID \<noteq> '''') HeaderRequestID reqID
       (hSet HeaderExecutionID (be_ExecutionID b)
       (hSet HeaderMachineID (be_MachineID b)
       (hDelAll edge_owned h))))))) (CanonicalKey n)"
    unfolding legacy_director_def using assms by (intro trace_other) auto
  moreover have gone: "mget (hDelAll edge_owned h) (CanonicalKey n) = None" using n by (simp add: mget_hDelAll)
  ultimately show ?thesis
    by (simp add: edge_value_def set_if_get mget_hSet edge_key_eq [OF n] edge_owned_names header_names_apart)
qed

lemma legacy_connection:
  assumes "trace_ok trace"
  shows "connection_names (legacy_director trace reqID b cred h) = connection_names h"
proof -
  have "CanonicalKey ''Connection'' \<notin> set (map CanonicalKey edge_owned)" by code_simp
  then have c: "CanonicalKey ''Connection'' \<notin> CanonicalKey ` set edge_owned" by simp
  then have ne: "\<And>n. n \<in> set edge_owned \<Longrightarrow> CanonicalKey ''Connection'' \<noteq> CanonicalKey n" by auto
  have "mget (legacy_director trace reqID b cred h) (CanonicalKey ''Connection'') = mget h (CanonicalKey ''Connection'')"
    unfolding legacy_director_def using ne c
    by (subst trace_other [OF assms]) (auto simp: set_if_get mget_hSet mget_hDelAll edge_owned_def)
  then show ?thesis by (simp add: connection_names_def hValues_def)
qed

lemma legacy_out_get:
  assumes "trace_ok trace" and "n \<in> set edge_owned"
  shows "mget (out_headers ip h (legacy_director trace reqID b cred h)) (CanonicalKey n) =
    (if CanonicalKey n \<in> CanonicalKey ` set (connection_names h) then None else map_option (\<lambda>v. [v]) (edge_value reqID b cred n))"
proof -
  have "CanonicalKey n \<notin> CanonicalKey ` set proxy_names" using edge_keys(3) assms(2) by (simp add: list_all_iff)
  then show ?thesis using legacy_director_get [OF assms] by (simp add: out_headers_get legacy_connection [OF assms(1)])
qed

text \<open>Whatever headers a client sends, the agent sees for every header the edge owns either the edge's own value for the chosen
  backend, or no such header: never a value of the client. The header is missing exactly when the edge gives it no value
  or when the client lists its name in the \<open>Connection\<close> header.
\<close>

lemma legacy_headers_authoritative:
  assumes "trace_ok trace" and "n \<in> set edge_owned"
  shows "mget (out_headers ip h (legacy_director trace reqID b cred h)) (CanonicalKey n) =
    (if CanonicalKey n \<in> CanonicalKey ` set (connection_names h) then None else map_option (\<lambda>v. [v]) (edge_value reqID b cred n))"
  by (rule legacy_out_get [OF assms])

definition spoofed :: headers where
  "spoofed = [(''X-Firepaas-Machine-Id'', [''victim'']), (''X-Firepaas-Credential'', [''stolen'']), (''Accept'', [''*''])]"

lemma legacy_headers_authoritative_witness:
  "mget (out_headers None spoofed (legacy_director [] ''id'' (example_backend ''a'' 100 ''READY'') ''tok'' spoofed)) (CanonicalKey HeaderMachineID) = Some [''a'']"
proof -
  have t: "trace_ok []" by (simp add: trace_ok_def)
  have n: "HeaderMachineID \<in> set edge_owned" by (simp add: edge_owned_def)
  have "\<not> CanonicalKey HeaderMachineID \<in> set (map CanonicalKey (connection_names spoofed))" by code_simp
  then show ?thesis
    using legacy_headers_authoritative [OF t n, of None spoofed "''id''" "example_backend ''a'' 100 ''READY''" "''tok''"]
    by (simp add: edge_value_def example_backend_def)
qed

text \<open>A client can make the edge drop headers it set itself: with the \<open>Connection\<close> header naming the port header, a request that
  the edge routes to a secondary port of a backend reaches the agent with no port, and the agent takes the primary one; naming the
  credential makes every such request fail its check.
\<close>

lemma connection_header_drops_port:
  assumes "trace_ok trace" and conn: "mget h (CanonicalKey ''Connection'') = Some [HeaderAppPort @ '', '' @ HeaderCredential]"
  shows "parseAppPort (out_headers ip h (legacy_director trace reqID b cred h)) = Some 0 \<and>
    hGet (out_headers ip h (legacy_director trace reqID b cred h)) HeaderCredential = ''''"
proof -
  let ?out = "out_headers ip h (legacy_director trace reqID b cred h)"
  have names: "connection_names h = concat (map list_elements [HeaderAppPort @ '', '' @ HeaderCredential])"
    using conn by (simp add: connection_names_def hValues_def)
  have "concat (map list_elements [HeaderAppPort @ '', '' @ HeaderCredential]) = [HeaderAppPort, HeaderCredential]" by code_simp
  with names have "connection_names h = [HeaderAppPort, HeaderCredential]" by simp
  moreover have "HeaderAppPort \<in> set edge_owned" "HeaderCredential \<in> set edge_owned" by (simp_all add: edge_owned_def)
  ultimately show ?thesis
    using legacy_out_get [OF assms(1), of HeaderAppPort ip h] legacy_out_get [OF assms(1), of HeaderCredential ip h] by (simp add: parseAppPort_def hGet_def hValues_def)
qed


section \<open>From the edge to the guest\<close>

lemma hGet_of: "mget h (CanonicalKey n) = map_option (\<lambda>v. [v]) x \<Longrightarrow> hGet h n = (case x of None \<Rightarrow> '''' | Some v \<Rightarrow> v)"
  by (simp add: hGet_def hValues_def split: option.splits)

lemma parseAppPort_fmt:
  assumes "hGet h HeaderAppPort = fmt_int p" "0 < p" "p \<le> 65535"
  shows "parseAppPort h = Some p"
proof -
  have "fmt_int p \<noteq> ''''" using assms(2) by (simp add: fmt_int_def)
  moreover have "Atoi (fmt_int p) = Some p" using assms(2,3) by (intro Atoi_fmt_int) simp_all
  ultimately show ?thesis using assms by (simp add: parseAppPort_def)
qed

text \<open>The edge and the agent together: a request the edge sends on the legacy path with a credential that verifies at the agent for
  the backend's machine and execution is forwarded to the endpoint of exactly that machine, execution and port, whatever headers
  the client sent, as long as it does not name the edge's headers in its \<open>Connection\<close> header.
\<close>

lemma edge_reaches_guest:
  assumes trace: "trace_ok trace"
    and conn: "\<forall>n \<in> set edge_owned. CanonicalKey n \<notin> CanonicalKey ` set (connection_names h)"
    and b: "be_MachineID b \<noteq> ''''" "be_ExecutionID b \<noteq> ''''" "0 < be_AppPort b" "be_AppPort b \<le> 65535"
    and p: "px_creds p = Some c" "Verify sha256 (be_MachineID b) (be_ExecutionID b) cred c"
    and up: "ae_resolve env (be_MachineID b) (be_ExecutionID b) (be_AppPort b) = Inr (gip, gport)"
    and plain: "is_print (upgradeType (guest_director (out_headers ip h (legacy_director trace reqID b cred h))))"
  shows "\<exists>out. fst (agent_ServeHTTP sha256 env (out_headers ip h (legacy_director trace reqID b cred h)) w p) = Some (target_host gip gport, out)"
proof -
  let ?out = "out_headers ip h (legacy_director trace reqID b cred h)"
  have get: "hGet ?out n = (case edge_value reqID b cred n of None \<Rightarrow> '''' | Some v \<Rightarrow> v)" if "n \<in> set edge_owned" for n
    using legacy_out_get [OF trace that] conn that by (intro hGet_of) simp
  have cred: "cred \<noteq> ''''" using p(2) by (auto simp: Verify_def split: option.splits)
  have m: "hGet ?out HeaderMachineID = be_MachineID b" and e: "hGet ?out HeaderExecutionID = be_ExecutionID b"
    and cr: "hGet ?out HeaderCredential = cred" and ap: "hGet ?out HeaderAppPort = fmt_int (be_AppPort b)"
    using get b cred by (simp_all add: edge_owned_names edge_value_def header_names_apart)
  have "parseAppPort ?out = Some (be_AppPort b)" using parseAppPort_fmt [OF ap b(3,4)] .
  then show ?thesis
    using b(1,2) p up plain by (simp add: agent_ServeHTTP_def m e cr serveTarget_def proxy_serve_def Let_def)
qed

section \<open>Every request ends\<close>

text \<open>How many stages a request still has at most.\<close>

definition stages_left :: "stage \<Rightarrow> nat" where
  "stages_left s =
     (case s of Lookup \<Rightarrow> 6 | Token _ _ _ \<Rightarrow> 5 | Serving _ _ _ _ \<Rightarrow> 4 | RetryLookup _ \<Rightarrow> 3 | RetryToken _ \<Rightarrow> 2 | RetryServing _ _ \<Rightarrow> 1 | Finished \<Rightarrow> 0)"

definition load_left :: "conn list \<Rightarrow> nat" where
  "load_left cs = sum_list (map (\<lambda>c. stages_left (cn_stage c)) cs)"

lemma finish_stage: "finish w c h = (c', h') \<Longrightarrow> cn_stage c' = Finished"
  using finish_simps(4) [of w c h] by simp

lemma writeSelectionError_stage: "writeSelectionError e c h = (c', h') \<Longrightarrow> cn_stage c' = Finished"
  by (cases e) (auto simp: writeSelectionError_def Let_def dest: finish_stage)

lemma serve_routed_less: "serve_routed intn u res c h = (c', h') \<Longrightarrow> stages_left (cn_stage c') < 6"
  by (auto simp: serve_routed_def Let_def stages_left_def dest!: finish_stage writeSelectionError_stage
      split: sum.splits route_err.splits if_splits prod.splits)

lemma serve_token_less: "serve_token res route b stale c h = (c', h') \<Longrightarrow> stages_left (cn_stage c') < 5"
  by (auto simp: serve_token_def token_failed_def stages_left_def dest!: finish_stage split: sum.splits prod.splits)

lemma serve_attempted_less: "serve_attempted env route b cred stale c h = (c', h') \<Longrightarrow> stages_left (cn_stage c') < 4"
  by (auto simp: serve_attempted_def Let_def stages_left_def dest!: finish_stage split: if_splits prod.splits)

lemma serve_rerouted_less: "serve_rerouted intn u res route c h = (c', h') \<Longrightarrow> stages_left (cn_stage c') < 3"
  by (auto simp: serve_rerouted_def Let_def stages_left_def dest!: writeSelectionError_stage split: sum.splits prod.splits)

lemma serve_retoken_less: "serve_retoken res b c h = (c', h') \<Longrightarrow> stages_left (cn_stage c') < 2"
  by (auto simp: serve_retoken_def token_failed_def stages_left_def dest!: finish_stage split: sum.splits prod.splits)

lemma serve_reattempted_less: "serve_reattempted env b cred c h = (c', h') \<Longrightarrow> stages_left (cn_stage c') < 1"
  by (auto simp: serve_reattempted_def Let_def stages_left_def dest!: finish_stage split: prod.splits)

lemmas stage_less = serve_routed_less serve_token_less serve_attempted_less serve_rerouted_less serve_retoken_less serve_reattempted_less


lemma stage_step_less: "stage_step s s' \<Longrightarrow> load_left (snd s') < load_left (snd s)"
  by (induction rule: stage_step.induct) (auto simp: load_left_def stages_left_def dest: stage_less [unfolded stages_left_def])

lemma stage_steps_bound: "(stage_step ^^ n) s s' \<Longrightarrow> n + load_left (snd s') \<le> load_left (snd s)"
  by (induction n arbitrary: s') (auto dest!: stage_step_less, fastforce)

lemma load_left_bound: "load_left cs \<le> 6 * length cs"
proof -
  have "stages_left s \<le> 6" for s by (cases s) (simp_all add: stages_left_def)
  then show ?thesis unfolding load_left_def by (induction cs) (auto intro: add_mono)
qed

lemma stage_step_possible:
  assumes "c \<in> set cs" "cn_stage c \<noteq> Finished"
  shows "\<exists>s'. stage_step (h, cs) s'"
proof -
  obtain xs ys where cs: "cs = xs @ c # ys" using assms(1) by (meson split_list)
  have i: "intn_ok (\<lambda>n. 0)" by (simp add: intn_ok_def)
  show ?thesis
    unfolding cs
  proof (cases "cn_stage c")
    case Lookup
    from routed [OF i this] show "\<exists>s'. stage_step (h, xs @ c # ys) s'" by (meson surj_pair)
  next
    case (Token route b stale)
    from tokened [OF this] show "\<exists>s'. stage_step (h, xs @ c # ys) s'" by (meson surj_pair)
  next
    case (Serving route b cred stale)
    from attempt_done [OF this] show "\<exists>s'. stage_step (h, xs @ c # ys) s'" by (meson surj_pair)
  next
    case (RetryLookup route)
    from rerouted [OF i this] show "\<exists>s'. stage_step (h, xs @ c # ys) s'" by (meson surj_pair)
  next
    case (RetryToken b)
    from retokened [OF this] show "\<exists>s'. stage_step (h, xs @ c # ys) s'" by (meson surj_pair)
  next
    case (RetryServing b cred)
    from reattempt_done [OF this] show "\<exists>s'. stage_step (h, xs @ c # ys) s'" by (meson surj_pair)
  qed (use assms(2) in simp)
qed

text \<open>
  No request stays in the edge because of its own logic: whatever the lookups and upstreams answer, the requests present take at
  most six stages each, with at most one retry, before they have all ended, and as long as one has not ended it can take
  its next stage.
\<close>

lemma requests_terminate:
  "((stage_step ^^ n) (h, cs) s' \<longrightarrow> n \<le> 6 * length cs) \<and>
   ((\<exists>c \<in> set cs. cn_stage c \<noteq> Finished) \<longrightarrow> (\<exists>s'. stage_step (h, cs) s'))"
  using stage_steps_bound [of n "(h, cs)" s'] load_left_bound [of cs] stage_step_possible [of _ cs h] by auto


lemma example_stage_run: "(stage_step ^^ 1) (snd example_arrival, [fst example_arrival]) (snd example_routed, [fst example_routed])"
proof -
  have l: "cn_stage (fst example_arrival) = Lookup" by code_simp
  have "stage_step (snd example_arrival, [] @ fst example_arrival # []) (snd example_routed, [] @ fst example_routed # [])"
    by (rule routed [of "\<lambda>n. 0", OF _ l]) (simp_all add: intn_ok_def example_routed_def)
  then show ?thesis by (simp add: eq_OO)
qed

lemma requests_terminate_witness:
  "(1 :: nat) \<le> 6 * length [fst example_arrival] \<and> (\<exists>s'. stage_step (snd example_arrival, [fst example_arrival]) s')"
proof -
  have "cn_stage (fst example_arrival) \<noteq> Finished" by code_simp
  with requests_terminate [of 1 "snd example_arrival" "[fst example_arrival]" "(snd example_routed, [fst example_routed])"] example_stage_run
  show ?thesis by auto
qed

section \<open>One answer for every request\<close>

text \<open>
  The round trips of an attempt are those \<open>tryServe_trips\<close> lists; two lemmas below say that nothing else of the networks matters to the attempt.
\<close>

lemma agent_trip_unused:
  assumes "agent_trip env tls r b cred allow w = []"
  shows "legacy_serve (env\<lparr>te_agent := f\<rparr>) tls r b cred allow w = legacy_serve env tls r b cred allow w"
  using assms by (auto simp: agent_trip_def legacy_serve_def proxy_serve_def Let_def split: if_splits)

lemma mesh_serve_agent [simp]: "mesh_serve (env\<lparr>te_agent := f\<rparr>) r b cred w = mesh_serve env r b cred w"
  by (simp add: mesh_serve_def)

lemma legacy_serve_mesh [simp]: "legacy_serve (env\<lparr>te_mesh := f\<rparr>) tls r b cred allow w = legacy_serve env tls r b cred allow w"
  by (simp add: legacy_serve_def)

lemma agent_trip_tag: "t \<in> set (agent_trip env tls r b cred allow w) \<Longrightarrow> \<exists>x. t = ViaAgent x"
  by (auto simp: agent_trip_def split: option.splits)

lemma mesh_trip_tag: "t \<in> set (mesh_trip env r b cred w) \<Longrightarrow> \<exists>x. t = ViaMesh x"
  by (auto simp: mesh_trip_def split: option.splits)

lemma no_agent_trip:
  assumes "\<And>x. ViaAgent x \<notin> set (attempt_trips env r b cred stale allow w h)"
  shows "tryServe (env\<lparr>te_agent := f\<rparr>) r b cred stale allow w h = tryServe env r b cred stale allow w h"
proof -
  define w1 where "w1 = (if stale then rw_set ''X-Firepaas-Stale'' ''stale'' w else w)"
  obtain out w2 d where m: "mesh_serve env r b cred w1 = (out, w2, d)" by (metis prod_cases3)
  have unused: "legacy_serve (env\<lparr>te_agent := f\<rparr>) tls r b cred allow w' = legacy_serve env tls r b cred allow w'"
    if "set (agent_trip env tls r b cred allow w') \<subseteq> set (attempt_trips env r b cred stale allow w h)" for tls w'
    using that assms agent_trip_tag by (intro agent_trip_unused) (metis list.set_intros(1) neq_Nil_conv subsetD)
  show ?thesis
  proof (cases "hd_direct h \<and> be_ULA b \<noteq> '''' \<and> cred \<noteq> ''''")
    case False
    then have "set (agent_trip env (hd_agentTLS h) r b cred allow w1) \<subseteq> set (attempt_trips env r b cred stale allow w h)"
      by (auto simp: attempt_trips_eq w1_def)
    from unused [OF this] show ?thesis unfolding tryServe_eq Let_def w1_def [symmetric] if_not_P [OF False] by simp
  next
    case True
    show ?thesis
    proof (cases "da_reason d \<noteq> RetryForbidden \<and> da_failed d \<and> rw_status w2 = rw_status w1 \<and> \<not> te_cancelled_mesh env \<and> (rq_noBody r \<or> da_retriable d)")
      case fall: True
      then have "set (agent_trip env (hd_agentTLS h) r b cred allow w2) \<subseteq> set (attempt_trips env r b cred stale allow w h)"
        using True m by (simp add: attempt_trips_eq flip: w1_def)
      from unused [OF this] True fall m show ?thesis by (simp add: tryServe_eq Let_def flip: w1_def)
    next
      case False
      with True m show ?thesis by (auto simp: tryServe_eq Let_def simp flip: w1_def)
    qed
  qed
qed

lemma mesh_trip_unused:
  assumes "mesh_trip env r b cred w = []"
  shows "mesh_serve (env\<lparr>te_mesh := f\<rparr>) r b cred w = mesh_serve env r b cred w"
  using assms by (auto simp: mesh_trip_def mesh_serve_def proxy_serve_def Let_def split: if_splits)

lemma no_mesh_trip:
  assumes "\<And>x. ViaMesh x \<notin> set (attempt_trips env r b cred stale allow w h)"
  shows "tryServe (env\<lparr>te_mesh := f\<rparr>) r b cred stale allow w h = tryServe env r b cred stale allow w h"
proof -
  have "mesh_trip env r b cred w' = []" if "set (mesh_trip env r b cred w') \<subseteq> set (attempt_trips env r b cred stale allow w h)" for w'
    using that assms mesh_trip_tag by (metis list.set_intros(1) neq_Nil_conv subsetD)
  then show ?thesis
    by (auto simp: tryServe_eq attempt_trips_eq Let_def split_beta mesh_trip_unused)
qed

text \<open>The trips on which another side may have got the request: it was connected to.\<close>

definition reached :: "trip \<Rightarrow> bool" where
  "reached t \<longleftrightarrow> trip_result t \<noteq> Inl ErrDial \<and> trip_result t \<noteq> Inl ErrNoDirect"

text \<open>
  The life of one request, with the number of its stages and the trips made for it. The handler of every stage is
  arbitrary: other requests and calls may have changed everything they share. The writer is new when the request
  arrives.
\<close>

inductive request_life :: "Request \<Rightarrow> nat \<Rightarrow> trip list \<Rightarrow> conn \<Rightarrow> bool" for r where
  life_start: "rw_status w = None \<Longrightarrow> serve_start now r w h = (c, h') \<Longrightarrow> request_life r 0 [] c"
| life_routed: "request_life r n ts c \<Longrightarrow> cn_stage c = Lookup \<Longrightarrow> serve_routed intn u res c h = (c', h') \<Longrightarrow>
    request_life r (Suc n) ts c'"
| life_tokened: "request_life r n ts c \<Longrightarrow> cn_stage c = Token route b stale \<Longrightarrow> serve_token res' route b stale c h = (c', h') \<Longrightarrow>
    request_life r (Suc n) ts c'"
| life_attempted: "request_life r n ts c \<Longrightarrow> cn_stage c = Serving route b cred stale \<Longrightarrow>
    serve_attempted env route b cred stale c h = (c', h') \<Longrightarrow>
    request_life r (Suc n) (ts @ attempt_trips env (cn_req c) b cred stale True (cn_w c) h) c'"
| life_rerouted: "request_life r n ts c \<Longrightarrow> cn_stage c = RetryLookup route \<Longrightarrow> serve_rerouted intn u res route c h = (c', h') \<Longrightarrow>
    request_life r (Suc n) ts c'"
| life_retokened: "request_life r n ts c \<Longrightarrow> cn_stage c = RetryToken b \<Longrightarrow> serve_retoken res' b c h = (c', h') \<Longrightarrow>
    request_life r (Suc n) ts c'"
| life_reattempted: "request_life r n ts c \<Longrightarrow> cn_stage c = RetryServing b cred \<Longrightarrow>
    serve_reattempted env b cred c h = (c', h') \<Longrightarrow>
    request_life r (Suc n) (ts @ attempt_trips env (cn_req c) b cred False False (cn_w c) h) c'"

lemma WriteHeader_status: "rw_status (WriteHeader k w) \<noteq> None"
  by (simp add: WriteHeader_def)

lemma rw_write_status: "rw_status (rw_write x w) \<noteq> None"
  using WriteHeader_status [of 200 w] by (simp add: rw_write_def Let_def)

lemma http_Error_status: "rw_status (http_Error m k w) \<noteq> None"
  by (simp only: http_Error_def rw_write_status not_False_eq_True)

lemma rw_set_status [simp]: "rw_status (rw_set k v w) = rw_status w"
  by (simp add: rw_set_def)

lemma send_response_status: "rw_status (send_response x hs w) \<noteq> None"
  by (simp only: send_response_def rw_write_status not_False_eq_True)

lemma finish_writer: "finish w c h = (c', h') \<Longrightarrow> cn_w c' = w \<and> cn_stage c' = Finished \<and> cn_req c' = cn_req c"
  by (auto simp: finish_def Let_def)

lemma selection_writer:
  "writeSelectionError e c h = (c', h') \<Longrightarrow> rw_status (cn_w c') \<noteq> None \<and> cn_stage c' = Finished \<and> cn_req c' = cn_req c"
  using http_Error_status
  by (cases e) (auto simp: writeSelectionError_def Let_def dest!: finish_writer simp del: rw_set_status)

lemma token_failed_writer:
  "token_failed b c h = (c', h') \<Longrightarrow> rw_status (cn_w c') \<noteq> None \<and> cn_stage c' = Finished \<and> cn_req c' = cn_req c"
  using http_Error_status by (auto simp: token_failed_def dest!: finish_writer)

text \<open>A leg of an attempt passes an answer on, or leaves the writer alone and says why.\<close>

lemma legacy_outcome:
  assumes "legacy_serve env tls r b cred allow w = (out, w', reason)" and "rw_status w = None"
  shows "if reason = RetryNone then rw_status w' \<noteq> None else w' = w \<and> (reason = RetryTransport \<longrightarrow> allow \<and> rq_noBody r)"
  using assms send_response_status http_Error_status
  by (auto simp: legacy_serve_def proxy_serve_def proxy_answer_def handleProxyError_def Let_def split_beta
      split: if_splits sum.splits option.splits prod.splits)

lemma mesh_outcome:
  assumes "mesh_serve env r b cred w = (out, w', d)" and "rw_status w = None"
  shows "if da_failed d then w' = w else rw_status w' \<noteq> None \<and> da_reason d = RetryNone"
  using assms send_response_status
  by (auto simp: mesh_serve_def proxy_serve_def proxy_answer_def mesh_error_def Let_def split_beta
      split: if_splits sum.splits option.splits prod.splits)

lemma mesh_retriable:
  assumes "mesh_serve env r b cred w = (out, w', d)" and "da_retriable d" and "t \<in> set (mesh_trip env r b cred w)"
  shows "\<not> reached t"
  using assms
  by (auto simp: mesh_serve_def mesh_trip_def reached_def proxy_serve_def proxy_answer_def mesh_error_def upstream_verdict_def mesh_modify_def
      Let_def split_beta split: if_splits sum.splits option.splits prod.splits)

lemma attempt_trips_count:
  "length (attempt_trips env r b cred stale allow w h) \<le> 2"
  "\<not> rq_noBody r \<Longrightarrow> length (filter reached (attempt_trips env r b cred stale allow w h)) \<le> 1"
proof -
  have one: "length (mesh_trip env r b cred v) \<le> 1" "length (agent_trip env tls r b cred allow v) \<le> 1" for v tls
    by (simp_all add: mesh_trip_def agent_trip_def split: option.split)
  then have few: "length (filter reached (mesh_trip env r b cred v)) \<le> 1" "length (filter reached (agent_trip env tls r b cred allow v)) \<le> 1" for v tls
    by (meson length_filter_le order_trans)+
  define w1 where "w1 = (if stale then rw_set ''X-Firepaas-Stale'' ''stale'' w else w)"
  obtain out w2 d where m: "mesh_serve env r b cred w1 = (out, w2, d)" by (metis prod_cases3)
  have none: "filter reached (mesh_trip env r b cred w1) = []" if "da_retriable d"
    using mesh_retriable [OF m that] by (simp add: filter_empty_conv)
  show "length (attempt_trips env r b cred stale allow w h) \<le> 2"
    using one(1) [of w1] one(2) [of "hd_agentTLS h" w1] one(2) [of "hd_agentTLS h" w2] m
    by (simp add: attempt_trips_eq flip: w1_def)
  show "length (filter reached (attempt_trips env r b cred stale allow w h)) \<le> 1" if "\<not> rq_noBody r"
    using few(1) [of w1] few(2) [of "hd_agentTLS h" w1] few(2) [of "hd_agentTLS h" w2] none m that
    by (simp add: attempt_trips_eq flip: w1_def)
qed

lemma attempt_outcome:
  assumes t: "tryServe env r b cred stale allow w h = (reason, w', h')" and w: "rw_status w = None"
  shows "if reason = RetryNone then rw_status w' \<noteq> None else rw_status w' = None \<and> (reason = RetryTransport \<longrightarrow> allow \<and> rq_noBody r)"
proof -
  define w1 where "w1 = (if stale then rw_set ''X-Firepaas-Stale'' ''stale'' w else w)"
  have w1: "rw_status w1 = None" using w by (simp add: w1_def)
  obtain out w2 d where m: "mesh_serve env r b cred w1 = (out, w2, d)" by (metis prod_cases3)
  note mo = mesh_outcome [OF m w1]
  have legacy: "if reason' = RetryNone then rw_status w3 \<noteq> None else rw_status w3 = None \<and> (reason' = RetryTransport \<longrightarrow> allow \<and> rq_noBody r)"
    if "legacy_serve env (hd_agentTLS h) r b cred allow v = (out', w3, reason')" "rw_status v = None" for v out' w3 reason'
    using legacy_outcome [OF that] that(2) by (simp split: if_splits)
  show ?thesis
  proof (cases "hd_direct h \<and> be_ULA b \<noteq> '''' \<and> cred \<noteq> ''''")
    case False
    obtain out' w3 reason' where l: "legacy_serve env (hd_agentTLS h) r b cred allow w1 = (out', w3, reason')" by (metis prod_cases3)
    with t have "reason = reason'" "w' = w3" unfolding tryServe_eq Let_def w1_def [symmetric] if_not_P [OF False] by simp_all
    with legacy [OF l w1] show ?thesis by simp
  next
    case direct: True
    show ?thesis
    proof (cases "da_failed d")
      case True
      with mo have w2: "w2 = w1" by simp
      obtain out' w3 reason' where l: "legacy_serve env (hd_agentTLS h) r b cred allow w1 = (out', w3, reason')" by (metis prod_cases3)
      show ?thesis
        using t legacy [OF l w1] w1 WriteHeader_status [of 502 w1] True
        unfolding tryServe_eq Let_def w1_def [symmetric] if_P [OF direct] m w2 prod.case l
        by (auto split: if_splits)
    next
      case False
      with mo t show ?thesis
        unfolding tryServe_eq Let_def w1_def [symmetric] if_P [OF direct] m prod.case by auto
    qed
  qed
qed

text \<open>The states of a request: before and after its first attempt, and at the end.\<close>

definition life_inv :: "Request \<Rightarrow> nat \<Rightarrow> trip list \<Rightarrow> conn \<Rightarrow> bool" where
  "life_inv r n ts c \<longleftrightarrow> cn_req c = r \<and> n + stages_left (cn_stage c) \<le> 6 \<and>
     (case cn_stage c of
        Finished \<Rightarrow> rw_status (cn_w c) \<noteq> None \<and> length ts \<le> 4 \<and> (\<not> rq_noBody r \<longrightarrow> length (filter reached ts) \<le> 1)
      | Lookup \<Rightarrow> rw_status (cn_w c) = None \<and> ts = []
      | Token _ _ _ \<Rightarrow> rw_status (cn_w c) = None \<and> ts = []
      | Serving _ _ _ _ \<Rightarrow> rw_status (cn_w c) = None \<and> ts = []
      | _ \<Rightarrow> rw_status (cn_w c) = None \<and> length ts \<le> 2 \<and> rq_noBody r)"

lemma life_invI:
  assumes "cn_stage c' = Finished" and "rw_status (cn_w c') \<noteq> None" and "cn_req c' = r" and "n \<le> 5"
    and "length ts \<le> 4" and "\<not> rq_noBody r \<Longrightarrow> length (filter reached ts) \<le> 1"
  shows "life_inv r (Suc n) ts c'"
  using assms by (simp add: life_inv_def stages_left_def)

lemma request_life_inv: "request_life r n ts c \<Longrightarrow> life_inv r n ts c"
proof (induction rule: request_life.induct)
  case (life_start w now h c h')
  then show ?case
    using rw_write_status http_Error_status
    by (auto simp: serve_start_def Let_def life_inv_def stages_left_def split: if_splits prod.splits dest!: finish_writer)
next
  case (life_routed n ts c intn u res h c' h')
  have i: "cn_req c = r" "n = 0" "rw_status (cn_w c) = None" "ts = []"
    using life_routed.IH life_routed.hyps(2) by (simp_all add: life_inv_def stages_left_def)
  show ?case
    using life_routed.hyps(3) i http_Error_status
    by (auto simp: serve_routed_def Let_def life_inv_def stages_left_def dest!: finish_writer selection_writer
        split: sum.splits route_err.splits if_splits prod.splits)
next
  case (life_tokened n ts c route b stale res' h c' h')
  then show ?case
    by (auto simp: life_inv_def stages_left_def serve_token_def dest!: token_failed_writer split: sum.splits prod.splits)
next
  case (life_attempted n ts c route b cred stale env h c' h')
  have i: "cn_req c = r" "n \<le> 2" "rw_status (cn_w c) = None" "ts = []"
    using life_attempted.IH life_attempted.hyps(2) by (simp_all add: life_inv_def stages_left_def)
  obtain reason w1 h1 where t: "tryServe env r b cred stale True (cn_w c) h = (reason, w1, h1)" by (metis prod_cases3)
  note out = attempt_outcome [OF t i(3)] and trips = attempt_trips_count [where env = env and r = r and b = b and cred = cred and stale = stale and allow = True and w = "cn_w c" and h = h]
  show ?case
    using life_attempted.hyps(3) i t out trips http_Error_status
    by (auto simp: serve_attempted_def Let_def life_inv_def stages_left_def dest!: finish_writer split: if_splits)
next
  case (life_rerouted n ts c route intn u res h c' h')
  then show ?case
    by (auto simp: life_inv_def stages_left_def serve_rerouted_def Let_def dest!: selection_writer split: sum.splits prod.splits)
next
  case (life_retokened n ts c b res' h c' h')
  then show ?case
    by (auto simp: life_inv_def stages_left_def serve_retoken_def dest!: token_failed_writer split: sum.splits prod.splits)
next
  case (life_reattempted n ts c b cred env h c' h')
  have i: "cn_req c = r" "n \<le> 5" "rw_status (cn_w c) = None" "length ts \<le> 2" "rq_noBody r"
    using life_reattempted.IH life_reattempted.hyps(2) by (simp_all add: life_inv_def stages_left_def)
  obtain reason w1 h1 where t: "tryServe env r b cred False False (cn_w c) h = (reason, w1, h1)" by (metis prod_cases3)
  have "reason \<noteq> RetryTransport" using attempt_outcome [OF t i(3)] by (auto split: if_splits)
  then have "reason = RetryNone \<or> reason = RetryForbidden" by (cases reason) simp_all
  then show ?case
    using life_reattempted.hyps(3) i t attempt_outcome [OF t i(3)] attempt_trips_count(1) [where env = env and r = r and b = b and cred = cred and stale = False and allow = False and w = "cn_w c" and h = h] http_Error_status
    by (auto simp: serve_reattempted_def Let_def dest!: finish_writer intro!: life_invI)
qed

definition retrying :: "stage \<Rightarrow> bool" where
  "retrying s = (case s of RetryLookup _ \<Rightarrow> True | RetryToken _ \<Rightarrow> True | RetryServing _ _ \<Rightarrow> True | _ \<Rightarrow> False)"

text \<open>Claim C30.
  A request has been answered when it ends, and a request with a body is never taken by more than one side: whatever the lookups, the token
  service, the mesh and the agents answer and whatever other requests do meanwhile, a request takes at most six stages and four
  round trips (at most two attempts, each over the mesh and then over the agent); a request with a body is taken by at
  most one of the sides it is sent to, since it is sent again only after a connection that could not be made; a request is in
  its second attempt only if it has no body and nothing of an answer has been written to the client; and when it has ended a status
  has been written.
\<close>

theorem request_answered_once:
  assumes "request_life r n ts c"
  shows "n \<le> 6 \<and> length ts \<le> 4 \<and> (\<not> rq_noBody r \<longrightarrow> length (filter reached ts) \<le> 1) \<and>
    (retrying (cn_stage c) \<longrightarrow> rq_noBody r \<and> rw_status (cn_w c) = None) \<and>
    (cn_stage c = Finished \<longrightarrow> rw_status (cn_w c) \<noteq> None)"
  using request_life_inv [OF assms] by (cases "cn_stage c") (auto simp: life_inv_def retrying_def)

text \<open>A request with a body, from its arrival to the answer of the agent.\<close>

definition body_request :: Request where
  "body_request = example_request\<lparr>rq_noBody := False\<rparr>"

definition body_arrival :: "conn \<times> Handler" where
  "body_arrival = serve_start 0 body_request fresh_writer example_edge"

definition body_routed :: "conn \<times> Handler" where
  "body_routed = serve_routed (\<lambda>n. 0) 0 (Inr (example_backends, False)) (fst body_arrival) (snd body_arrival)"

definition body_tokened :: "conn \<times> Handler" where
  "body_tokened = serve_token (Inr (''tok'', False)) example_backends (hd (rt_Backends example_backends)) False (fst body_routed) (snd body_routed)"

definition ok_env :: attempt_env where
  "ok_env = \<lparr>te_trace = [], te_endpoint = None, te_mesh = (\<lambda>_ _. Inl ErrNoDirect),
     te_agent = (\<lambda>_ _. Inr \<lparr>rs_status = 200, rs_header = [], rs_body = ''hi''\<rparr>), te_cancelled_mesh = False, te_cancelled = False\<rparr>"

definition body_served :: "conn \<times> Handler" where
  "body_served = serve_attempted ok_env example_backends (hd (rt_Backends example_backends)) ''tok'' False (fst body_tokened) (snd body_tokened)"

lemma body_stages:
  "rw_status fresh_writer = None" "cn_stage (fst body_arrival) = Lookup"
  "cn_stage (fst body_routed) = Token example_backends (hd (rt_Backends example_backends)) False"
  "cn_stage (fst body_tokened) = Serving example_backends (hd (rt_Backends example_backends)) ''tok'' False"
  "cn_stage (fst body_served) = Finished" "\<not> rq_noBody body_request"
  "length (attempt_trips ok_env (cn_req (fst body_tokened)) (hd (rt_Backends example_backends)) ''tok'' False True (cn_w (fst body_tokened)) (snd body_tokened)) = 1"
  by code_simp+

lemma body_life:
  "request_life body_request 3
     (attempt_trips ok_env (cn_req (fst body_tokened)) (hd (rt_Backends example_backends)) ''tok'' False True (cn_w (fst body_tokened)) (snd body_tokened))
     (fst body_served)"
proof -
  have "request_life body_request 0 [] (fst body_arrival)"
    by (rule life_start [OF body_stages(1), of 0 _ example_edge _ "snd body_arrival"]) (simp add: body_arrival_def)
  from life_routed [OF this body_stages(2), of "\<lambda>n. 0" 0 "Inr (example_backends, False)" "snd body_arrival" "fst body_routed" "snd body_routed"]
  have "request_life body_request (Suc 0) [] (fst body_routed)" by (simp add: body_routed_def)
  from life_tokened [OF this body_stages(3), of "Inr (''tok'', False)" "snd body_routed" "fst body_tokened" "snd body_tokened"]
  have "request_life body_request (Suc (Suc 0)) [] (fst body_tokened)" by (simp add: body_tokened_def)
  from life_attempted [OF this body_stages(4), of ok_env "snd body_tokened" "fst body_served" "snd body_served"]
  show ?thesis by (simp add: body_served_def numeral_3_eq_3)
qed

theorem request_answered_once_witness:
  "\<exists>ts. length ts = 1 \<and> length (filter reached ts) \<le> 1 \<and> request_life body_request 3 ts (fst body_served) \<and> rw_status (cn_w (fst body_served)) \<noteq> None"
  using request_answered_once [OF body_life] body_stages(5-7) body_life by blast

definition port_dropping :: headers where
  "port_dropping = [(''Connection'', [HeaderAppPort @ '', '' @ HeaderCredential])]"

lemma connection_header_drops_port_witness:
  "parseAppPort (out_headers None port_dropping (legacy_director [] ''id'' (example_backend ''a'' 100 ''READY'') ''tok'' port_dropping)) = Some 0"
proof -
  have t: "trace_ok []" by (simp add: trace_ok_def)
  have "mget port_dropping (CanonicalKey ''Connection'') = Some [HeaderAppPort @ '', '' @ HeaderCredential]" by code_simp
  from connection_header_drops_port [OF t this] show ?thesis by simp
qed

definition example_target :: Backend where
  "example_target = (example_backend ''m1'' 100 ''READY'')\<lparr>be_ExecutionID := ''e1''\<rparr>"

lemma edge_reaches_guest_witness:
  "\<exists>out. fst (agent_ServeHTTP example_sha example_agent_env (out_headers None spoofed (legacy_director [] ''id'' example_target ''secret'' spoofed))
     fresh_writer (NewWithVerifier 0 (Some example_agent_creds))) = Some (target_host ''10.0.0.2'' 80, out)"
proof (rule edge_reaches_guest)
  show "trace_ok []" by (simp add: trace_ok_def)
  have "list_all (\<lambda>n. CanonicalKey n \<notin> set (map CanonicalKey (connection_names spoofed))) edge_owned" by code_simp
  then show "\<forall>n \<in> set edge_owned. CanonicalKey n \<notin> CanonicalKey ` set (connection_names spoofed)" by (simp add: list_all_iff)
  show "px_creds (NewWithVerifier 0 (Some example_agent_creds)) = Some example_agent_creds" by (simp add: NewWithVerifier_def)
  show "be_MachineID example_target \<noteq> ''''" "be_ExecutionID example_target \<noteq> ''''" by code_simp+
  show "0 < be_AppPort example_target" "be_AppPort example_target \<le> 65535" by code_simp+
  show "Verify example_sha (be_MachineID example_target) (be_ExecutionID example_target) ''secret'' example_agent_creds" by code_simp
  show "ae_resolve example_agent_env (be_MachineID example_target) (be_ExecutionID example_target) (be_AppPort example_target) = Inr (''10.0.0.2'', 80)"
    by code_simp
  show "is_print (upgradeType (guest_director (out_headers None spoofed (legacy_director [] ''id'' example_target ''secret'' spoofed))))"
    by code_simp
qed

section \<open>What the client receives\<close>

lemma proxy_answer_hides:
  assumes err: "\<And>e ws. mget (rw_header (fst (on_error e ws))) k = mget (rw_header (fst ws)) k"
    and mod: "\<And>st h h'. canonical_keys h \<Longrightarrow> modify st h = (None, h') \<Longrightarrow> canonical_keys h' \<and> mget h' k = None"
    and res: "\<And>r. result = Inr r \<Longrightarrow> canonical_keys (rs_header r)"
    and w: "mget (rw_header (fst ws)) k = None"
  shows "mget (rw_header (fst (proxy_answer modify on_error up result ws))) k = None"
proof (cases result)
  case (Inl e)
  then show ?thesis using err w by (simp add: proxy_answer_def)
next
  case (Inr r)
  let ?h = "if rs_status r = 101 then rs_header r else removeHopByHopHeaders (rs_header r)"
  have c: "canonical_keys ?h" using res [OF Inr] by (simp add: removeHopByHopHeaders_def)
  obtain v h' where m: "modify (rs_status r) ?h = (v, h')" by fastforce
  show ?thesis
  proof (cases v)
    case None
    with mod [OF c] m have "canonical_keys h'" "mget h' k = None" by auto
    then have "mget (rw_header (send_response r h' (fst ws))) k = None" using w copyHeader_absent by (simp add: send_response_def)
    then show ?thesis using err w m None by (simp add: proxy_answer_def Inr)
  next
    case (Some e)
    then show ?thesis using err w m by (simp add: proxy_answer_def Inr)
  qed
qed

lemma proxy_serve_hides:
  assumes "\<And>e ws. mget (rw_header (fst (on_error e ws))) k = mget (rw_header (fst ws)) k"
    and "\<And>st h h'. canonical_keys h \<Longrightarrow> modify st h = (None, h') \<Longrightarrow> canonical_keys h' \<and> mget h' k = None"
    and "\<And>h r. roundTrip h = Inr r \<Longrightarrow> canonical_keys (rs_header r)"
    and "mget (rw_header (fst ws)) k = None" and "proxy_serve ip director modify on_error roundTrip inbound ws = (out, w', x)"
  shows "mget (rw_header w') k = None"
proof (cases "is_print (upgradeType (director inbound))")
  case True
  let ?res = "roundTrip (out_headers ip inbound (director inbound))"
  have "(w', x) = proxy_answer modify on_error (upgradeType (director inbound)) ?res ws"
    using assms(5) True by (simp add: proxy_serve_def Let_def)
  moreover have "mget (rw_header (fst (proxy_answer modify on_error (upgradeType (director inbound)) ?res ws))) k = None"
    by (rule proxy_answer_hides) (use assms(1-4) in blast)+
  ultimately show ?thesis by (metis fst_conv)
next
  case False
  then show ?thesis using assms(4,5) assms(1) [of ErrTransport ws] by (simp add: proxy_serve_def Let_def)
qed

lemma canonical_keys_hSet: "canonical_keys h \<Longrightarrow> CanonicalKey (CanonicalKey n) = CanonicalKey n \<Longrightarrow> canonical_keys (hSet n v h)"
  unfolding canonical_keys_def hSet_def by (induction h) auto


lemma hides_modify:
  assumes "n \<in> {HeaderRetryable, HeaderCredential}"
  shows "canonical_keys h \<Longrightarrow> legacy_modify b st h = (None, h') \<Longrightarrow> canonical_keys h' \<and> mget h' (CanonicalKey n) = None"
    and "canonical_keys h \<Longrightarrow> mesh_modify st h = (None, h') \<Longrightarrow> canonical_keys h' \<and> mget h' (CanonicalKey n) = None"
proof -
  have m: "CanonicalKey (CanonicalKey HeaderMachineID) = CanonicalKey HeaderMachineID" by code_simp
  have "CanonicalKey HeaderMachineID \<notin> set (map CanonicalKey [HeaderRetryable, HeaderCredential])" by code_simp
  then have d: "CanonicalKey n \<noteq> CanonicalKey HeaderMachineID" using assms by auto
  show "canonical_keys h \<Longrightarrow> legacy_modify b st h = (None, h') \<Longrightarrow> canonical_keys h' \<and> mget h' (CanonicalKey n) = None"
    using assms d by (auto simp: legacy_modify_def mget_hSet mget_hDelAll intro!: canonical_keys_hSet m)
  show "canonical_keys h \<Longrightarrow> mesh_modify st h = (None, h') \<Longrightarrow> canonical_keys h' \<and> mget h' (CanonicalKey n) = None"
    using assms by (auto simp: mesh_modify_def mget_hDelAll)
qed

text \<open>Neither the execution credential nor the internal retry signal ever reaches a client, on either path and whatever the
  upstream answers, even when it reflects them: after an attempt they are absent from the response.
\<close>

lemma internal_headers_not_returned:
  assumes agent: "\<And>t h r. te_agent env t h = Inr r \<Longrightarrow> canonical_keys (rs_header r)"
    and mesh: "\<And>t h r. te_mesh env t h = Inr r \<Longrightarrow> canonical_keys (rs_header r)"
    and n: "n \<in> {HeaderRetryable, HeaderCredential}" and w: "mget (rw_header w) (CanonicalKey n) = None"
    and run: "tryServe env r b cred stale allow w h = (reason, w', h')"
  shows "mget (rw_header w') (CanonicalKey n) = None"
proof -
  let ?k = "CanonicalKey n"
  have "CanonicalKey ''X-Firepaas-Stale'' \<notin> set (map CanonicalKey [HeaderRetryable, HeaderCredential])" by code_simp
  then have stale: "mget (rw_header (rw_set ''X-Firepaas-Stale'' ''stale'' w)) ?k = None" using n w by (auto simp: mget_hSet)
  have legacy: "mget (rw_header w2) ?k = None"
    if "mget (rw_header w1) ?k = None" "legacy_serve env tls r b cred allow w1 = (out, w2, x)" for w1 w2 out x tls
    using that(2) unfolding legacy_serve_def
    by (rule proxy_serve_hides [rotated 4])
      (use that(1) agent hides_modify(1) [OF n] in \<open>auto simp: handleProxyError_def Let_def split_beta\<close>)
  have direct: "mget (rw_header w2) ?k = None"
    if "mget (rw_header w1) ?k = None" "mesh_serve env r b cred w1 = (out, w2, x)" for w1 w2 out x
    using that(2) unfolding mesh_serve_def
    by (rule proxy_serve_hides [rotated 4])
      (use that(1) mesh hides_modify(2) [OF n] in \<open>auto simp: mesh_error_def mesh_RoundTrip_def split: option.splits\<close>)
  define w1 where "w1 = (if stale then rw_set ''X-Firepaas-Stale'' ''stale'' w else w)"
  have w1: "mget (rw_header w1) ?k = None" using stale w by (simp add: w1_def)
  obtain o2 w2 d where ms: "mesh_serve env r b cred w1 = (o2, w2, d)" by (metis prod_cases3)
  have w2: "mget (rw_header w2) ?k = None" using direct [OF w1 ms] .
  obtain o3 w3 x3 where l1: "legacy_serve env (hd_agentTLS h) r b cred allow w1 = (o3, w3, x3)" by (metis prod_cases3)
  obtain o4 w4 x4 where l2: "legacy_serve env (hd_agentTLS h) r b cred allow w2 = (o4, w4, x4)" by (metis prod_cases3)
  have "w' = w2 \<or> w' = WriteHeader 502 w2 \<or> w' = w3 \<or> w' = w4"
    using run unfolding tryServe_eq Let_def w1_def [symmetric] by (auto simp: ms l1 l2 split: if_splits)
  then show ?thesis using w2 legacy [OF w1 l1] legacy [OF w2 l2] by auto
qed

definition reflecting_env :: attempt_env where
  "reflecting_env = \<lparr>te_trace = [], te_endpoint = None, te_mesh = (\<lambda>t h. Inl ErrDial),
     te_agent = (\<lambda>t h. Inr \<lparr>rs_status = 200, rs_header = [(''X-Firepaas-Credential'', [''tok''])], rs_body = ''''\<rparr>),
     te_cancelled_mesh = False, te_cancelled = False\<rparr>"

lemma internal_headers_not_returned_witness:
  "mget (rw_header (fst (snd (tryServe reflecting_env example_request (example_backend ''a'' 100 ''READY'') ''tok'' False True fresh_writer example_edge))))
     (CanonicalKey HeaderCredential) = None"
proof (rule internal_headers_not_returned)
  let ?r = "tryServe reflecting_env example_request (example_backend ''a'' 100 ''READY'') ''tok'' False True fresh_writer example_edge"
  show "?r = (fst ?r, fst (snd ?r), snd (snd ?r))" by simp
  have "canonical_keys [(''X-Firepaas-Credential'', [''tok''])]" by code_simp
  then show "te_agent reflecting_env t h = Inr r \<Longrightarrow> canonical_keys (rs_header r)" for t h r
    by (auto simp: reflecting_env_def)
qed (simp_all add: reflecting_env_def fresh_writer_def)

end
