(* ===== verification/RoutePublisher.thy ===== *)
theory RoutePublisher
  imports StoreRows RouteCatalog "HOL-Library.Product_Lexorder"
begin

text \<open>
  The route publisher of the control plane (\<open>internal/controlplane/routepublisher/publisher.go\<close>) with the part of the
  store it writes to (\<open>SyncRoutes\<close> of \<open>store.go\<close>): the derivation of the routes from machines, deployments and
  rollouts, the transaction that replaces the routes in PostgreSQL and allocates a revision per host, and
  the publication to the route catalogue. What a rebuild reads is an argument, with the error of each
  query; so are the end of the transaction and the commands that do not reach Redis. The revisions are
  unbounded integers (the column is a \<open>bigint\<close>). Slices are sorted stably; the sources sort them with
  \<open>sort.Slice\<close> on keys that are distinct.
\<close>

section \<open>Rows read\<close>

text \<open>A Go map read at a missing key gives the zero value.\<close>

definition mget0 :: "'v \<Rightarrow> ('k, 'v) gomap \<Rightarrow> 'k \<Rightarrow> 'v" where
  "mget0 zero m k = (case mget m k of None \<Rightarrow> zero | Some v \<Rightarrow> v)"

text \<open>The rows of the machines table come with their delete phase.\<close>

definition ActiveRouteMachines :: "(Machine \<times> string) list \<Rightarrow> Machine list" where
  "ActiveRouteMachines rows =
     map fst (filter (\<lambda>(m, phase). m_DesiredState m \<in> {''CREATED'', ''RUNNING''} \<and> phase = ''ACTIVE'' \<and>
       m_ObservedState m \<in> {''RUNNING'', ''PAUSED''} \<and> m_Hostname m \<noteq> '''') rows)"

definition active_status :: "string \<Rightarrow> bool" where
  "active_status s \<longleftrightarrow> s \<in> {''PREPARING'', ''CUTOVER'', ''ROLLING_BACK'', ''PAUSED_FOR_APPROVAL''}"

definition ListActiveRollouts :: "Rollout list \<Rightarrow> Rollout list" where
  "ListActiveRollouts rows = sort_key ro_StartedAt (filter (\<lambda>r. active_status (ro_Status r)) rows)"

section \<open>Derivation\<close>

record Input =
  in_Machines :: "Machine list"
  in_Deployments :: "Deployment list"
  in_Rollouts :: "Rollout list"
  in_ProxyByNode :: "(string, string) gomap"
  in_DefaultAppPort :: int
  in_LegacyProxyAddr :: string
  in_FabricByIdentity :: "(string, FabricIdentityRow) gomap"

record Projection =
  pj_Routes :: "RouteRow list"
  pj_PrimaryPorts :: "(string, int) gomap"
  pj_InternalDNS :: "InternalDNSRecord list"

text \<open>The maps that \<open>Derive\<close> builds from the rollouts and deployments; the last row wins.\<close>

record index =
  ix_rollout :: "(string, Rollout) gomap"
  ix_gen :: "(string, int) gomap"
  ix_services :: "(string, ServiceSpec list) gomap"
  ix_strategy :: "(string, string) gomap"
  ix_status :: "(string, string) gomap"
  ix_toDep :: "(string, string) gomap"

definition rolloutByApp :: "Rollout list \<Rightarrow> (string, Rollout) gomap" where
  "rolloutByApp rs = fold (\<lambda>r. mset_at (ro_AppID r) r) rs []"

definition index_deployment :: "Deployment \<Rightarrow> index \<Rightarrow> index" where
  "index_deployment d ix =
     ix\<lparr>ix_gen := mset_at (dp_ID d) (dp_Generation d) (ix_gen ix),
        ix_services := mset_at (dp_ID d) (EffectiveServices d) (ix_services ix),
        ix_strategy := mset_at (dp_ID d) (EffectiveStrategy d) (ix_strategy ix),
        ix_status := mset_at (dp_ID d) (dp_Status d) (ix_status ix),
        ix_toDep := (case mget (ix_rollout ix) (dp_AppID d) of
             None \<Rightarrow> ix_toDep ix
           | Some r \<Rightarrow> if dp_Generation d = ro_ToGeneration r then mset_at (dp_AppID d) (dp_ID d) (ix_toDep ix) else ix_toDep ix)\<rparr>"

definition build_index :: "Input \<Rightarrow> index" where
  "build_index i =
     fold index_deployment (in_Deployments i)
       \<lparr>ix_rollout = rolloutByApp (in_Rollouts i), ix_gen = [], ix_services = [], ix_strategy = [], ix_status = [], ix_toDep = []\<rparr>"

definition toDep :: "index \<Rightarrow> string \<Rightarrow> string" where
  "toDep ix app = mget0 '''' (ix_toDep ix) app"

text \<open>The replica ordinals whose new machine serves.\<close>

definition cutOrdinals :: "index \<Rightarrow> Machine list \<Rightarrow> (string \<times> int) list" where
  "cutOrdinals ix ms =
     map (\<lambda>m. (m_AppID m, m_ReplicaOrdinal m)) (filter (\<lambda>m. toDep ix (m_AppID m) = m_DeploymentID m \<and> machineServing m) ms)"

definition terminal_deployment :: "string \<Rightarrow> bool" where
  "terminal_deployment s \<longleftrightarrow> s = ''SUPERSEDED'' \<or> s = ''FAILED''"

definition drainingOf :: "index \<Rightarrow> (string \<times> int) list \<Rightarrow> Machine \<Rightarrow> bool" where
  "drainingOf ix cuts m =
     (if terminal_deployment (mget0 '''' (ix_status ix) (m_DeploymentID m)) then True
      else case mget (ix_rollout ix) (m_AppID m) of
        None \<Rightarrow> False
      | Some r \<Rightarrow>
          (let generation = mget0 0 (ix_gen ix) (m_DeploymentID m) in
           if ro_Status r = ''PREPARING'' \<or> ro_Status r = ''PAUSED_FOR_APPROVAL'' then
             (if mget0 '''' (ix_strategy ix) (toDep ix (m_AppID m)) = ''rolling'' then
                (let cut = (m_AppID m, m_ReplicaOrdinal m) \<in> set cuts in
                 if generation = ro_ToGeneration r then \<not> cut else cut)
              else generation \<noteq> ro_FromGeneration r)
           else if ro_Status r = ''CUTOVER'' then generation \<noteq> ro_ToGeneration r
           else if ro_Status r = ''ROLLING_BACK'' then generation \<noteq> ro_FromGeneration r
           else False))"

definition proxyOf :: "Input \<Rightarrow> Machine \<Rightarrow> string" where
  "proxyOf i m = (let p = mget0 '''' (in_ProxyByNode i) (m_NodeID m) in if p \<noteq> '''' then p else in_LegacyProxyAddr i)"

definition publishable :: "Input \<Rightarrow> index \<Rightarrow> (string \<times> int) list \<Rightarrow> Machine \<Rightarrow> bool" where
  "publishable i ix cuts m \<longleftrightarrow> machineServing m \<and> \<not> drainingOf ix cuts m \<and> proxyOf i m \<noteq> ''''"

definition publishableByDep :: "Input \<Rightarrow> index \<Rightarrow> (string \<times> int) list \<Rightarrow> (string, string list) gomap" where
  "publishableByDep i ix cuts =
     fold (\<lambda>m acc. if publishable i ix cuts m
             then mset_at (m_DeploymentID m) (mget0 [] acc (m_DeploymentID m) @ [m_ID m]) acc else acc) (in_Machines i) []"

subsection \<open>Canary weights\<close>

text \<open>The weight of the \<open>j\<close>-th of \<open>n\<close> backends that share \<open>share\<close>.\<close>

definition share_weight :: "int \<Rightarrow> nat \<Rightarrow> nat \<Rightarrow> int" where
  "share_weight share n j =
     (let w = share div int n + (if int j < share mod int n then 1 else 0) in if w < 1 then 1 else w)"

definition set_weights :: "int \<Rightarrow> string list \<Rightarrow> (string, int) gomap \<Rightarrow> (string, int) gomap" where
  "set_weights share ids out = fold (\<lambda>(j, id). mset_at id (share_weight share (length ids) j)) (enumerate 0 ids) out"

definition canary_share :: "(string, Rollout) gomap \<Rightarrow> (string, string) gomap \<Rightarrow> Deployment \<Rightarrow> int option" where
  "canary_share rollouts toDepByApp d =
     (case mget rollouts (dp_AppID d) of
        None \<Rightarrow> None
      | Some r \<Rightarrow>
          if ro_Status r \<noteq> ''PREPARING'' \<and> ro_Status r \<noteq> ''PAUSED_FOR_APPROVAL'' then None
          else (let weight = NormalizeCanaryWeight (ro_CanaryWeight r) in
                if weight = 0 then None
                else if dp_ID d = mget0 '''' toDepByApp (dp_AppID d) then Some weight
                else if dp_Generation d = ro_FromGeneration r then Some (100 - weight)
                else None))"

definition deriveCanaryWeights :: "Deployment list \<Rightarrow> (string, Rollout) gomap \<Rightarrow> (string, string) gomap \<Rightarrow> (string, string list) gomap \<Rightarrow>
    (string, int) gomap" where
  "deriveCanaryWeights deployments rollouts toDepByApp byDep =
     fold (\<lambda>d out. case canary_share rollouts toDepByApp d of
             None \<Rightarrow> out
           | Some share \<Rightarrow> set_weights share (sort (mget0 [] byDep (dp_ID d))) out) deployments []"

definition weightOrDefault :: "(string, int) gomap \<Rightarrow> string \<Rightarrow> int" where
  "weightOrDefault ws machine = (let w = mget0 0 ws machine in if 0 < w then w else 100)"

subsection \<open>Routes and names\<close>

definition zero_identity :: FabricIdentityRow where
  "zero_identity = \<lparr>fi_IdentityID = 0, fi_ProjectID = '''', fi_ULA = None, fi_MachineID = '''', fi_ExecutionID = '''', fi_Generation = 0\<rparr>"

definition identity_key :: "string \<Rightarrow> string \<Rightarrow> string" where
  "identity_key machine execution = machine @ [CHR 0x00] @ execution"

definition fabricHint :: "(string, FabricIdentityRow) gomap \<Rightarrow> bool \<Rightarrow> string \<Rightarrow> string \<Rightarrow> FabricIdentityRow" where
  "fabricHint ids meshDirect machine execution =
     (if \<not> meshDirect then zero_identity else mget0 zero_identity ids (identity_key machine execution))"

definition appendUniqueAAA :: "string list \<Rightarrow> string \<Rightarrow> string list" where
  "appendUniqueAAA xs ula = (if ula \<in> set xs then xs else xs @ [ula])"

text \<open>The accumulators of the loop over the machines.\<close>

record building =
  bd_routes :: "(string \<times> int, RouteRow) gomap"
  bd_primary :: "(string, int) gomap"
  bd_dns :: "(string, string list) gomap"
  bd_dnsGen :: "(string, int) gomap"

definition plain_backend :: "Input \<Rightarrow> index \<Rightarrow> (string, int) gomap \<Rightarrow> Machine \<Rightarrow> ServiceSpec \<Rightarrow> RouteBackendRow" where
  "plain_backend i ix ws m s =
     \<lparr>rb_MachineID = m_ID m, rb_ExecutionID = m_CurrentExecutionID m, rb_NodeProxyEndpoint = proxyOf i m,
      rb_AppPort = sv_InternalPort s, rb_Weight = weightOrDefault ws (m_ID m), rb_Readiness = m_ObservedReadiness m,
      rb_Draining = False, rb_ULA = '''', rb_IdentityID = 0, rb_Generation = 0,
      rb_DeploymentGeneration = mget0 0 (ix_gen ix) (m_DeploymentID m)\<rparr>"

definition hint_of :: "Input \<Rightarrow> Machine \<Rightarrow> ServiceSpec \<Rightarrow> FabricIdentityRow" where
  "hint_of i m s = fabricHint (in_FabricByIdentity i) (sv_MeshDirect s \<and> m_ObservedReadiness m = ''READY'') (m_ID m) (m_CurrentExecutionID m)"

definition backend_row :: "Input \<Rightarrow> index \<Rightarrow> (string, int) gomap \<Rightarrow> Machine \<Rightarrow> ServiceSpec \<Rightarrow> RouteBackendRow" where
  "backend_row i ix ws m s =
     (let b = plain_backend i ix ws m s; hint = hint_of i m s in
      case fi_ULA hint of
        None \<Rightarrow> b
      | Some ula \<Rightarrow> b\<lparr>rb_ULA := ula, rb_IdentityID := fi_IdentityID hint, rb_Generation := fi_Generation hint\<rparr>)"

definition internal_name :: "Machine \<Rightarrow> FabricIdentityRow \<Rightarrow> string" where
  "internal_name m hint = ToLower (m_AppID m) @ ''.'' @ ToLower (fi_ProjectID hint) @ ''.internal''"

definition add_name :: "Input \<Rightarrow> Machine \<Rightarrow> ServiceSpec \<Rightarrow> building \<Rightarrow> building" where
  "add_name i m s st =
     (let hint = hint_of i m s; name = internal_name m hint in
      case fi_ULA hint of
        None \<Rightarrow> st
      | Some ula \<Rightarrow>
          st\<lparr>bd_dns := mset_at name (appendUniqueAAA (mget0 [] (bd_dns st) name) ula) (bd_dns st),
             bd_dnsGen := (if mget0 0 (bd_dnsGen st) name < fi_Generation hint
                           then mset_at name (fi_Generation hint) (bd_dnsGen st) else bd_dnsGen st)\<rparr>)"

definition add_primary :: "Machine \<Rightarrow> nat \<Rightarrow> ServiceSpec \<Rightarrow> building \<Rightarrow> building" where
  "add_primary m n s st =
     (let cur = mget0 0 (bd_primary st) (m_Hostname m) in
      if n = 0 \<and> (cur = 0 \<or> sv_InternalPort s < cur)
      then st\<lparr>bd_primary := mset_at (m_Hostname m) (sv_InternalPort s) (bd_primary st)\<rparr> else st)"

definition add_backend :: "string \<Rightarrow> int \<Rightarrow> string \<Rightarrow> int \<Rightarrow> RouteBackendRow \<Rightarrow> building \<Rightarrow> building" where
  "add_backend hostname port app generation b st =
     (let route = mget0 \<lparr>rr_Hostname = hostname, rr_Port = port, rr_AppID = app, rr_Generation = 0, rr_Backends = []\<rparr>
                    (bd_routes st) (hostname, port) in
      st\<lparr>bd_routes := mset_at (hostname, port)
           (route\<lparr>rr_Backends := rr_Backends route @ [b],
                  rr_Generation := (if rr_Generation route < generation then generation else rr_Generation route)\<rparr>) (bd_routes st)\<rparr>)"

definition add_service :: "Input \<Rightarrow> index \<Rightarrow> (string, int) gomap \<Rightarrow> Machine \<Rightarrow> nat \<times> ServiceSpec \<Rightarrow> building \<Rightarrow> building" where
  "add_service i ix ws m ns st =
     (let (n, s) = ns in
      add_backend (m_Hostname m) (sv_InternalPort s) (m_AppID m) (mget0 0 (ix_gen ix) (m_DeploymentID m)) (backend_row i ix ws m s)
        (add_name i m s (add_primary m n s st)))"

definition services_of :: "Input \<Rightarrow> index \<Rightarrow> Machine \<Rightarrow> ServiceSpec list" where
  "services_of i ix m =
     (let ss = mget0 [] (ix_services ix) (m_DeploymentID m) in
      if ss = [] then [\<lparr>sv_Name = ''default'', sv_InternalPort = (if m_IngressPort m = 0 then in_DefaultAppPort i else m_IngressPort m),
                        sv_MeshDirect = False\<rparr>]
      else ss)"

definition add_machine :: "Input \<Rightarrow> index \<Rightarrow> (string \<times> int) list \<Rightarrow> (string, int) gomap \<Rightarrow> Machine \<Rightarrow> building \<Rightarrow> building" where
  "add_machine i ix cuts ws m st =
     (if publishable i ix cuts m then fold (add_service i ix ws m) (enumerate 0 (services_of i ix m)) st else st)"

definition sorted_backends :: "RouteRow \<Rightarrow> RouteRow" where
  "sorted_backends r = r\<lparr>rr_Backends := sort_key (\<lambda>b. (rb_MachineID b, rb_ExecutionID b)) (rr_Backends r)\<rparr>"

definition empty_building :: building where
  "empty_building = \<lparr>bd_routes = [], bd_primary = [], bd_dns = [], bd_dnsGen = []\<rparr>"

definition finish_building :: "building \<Rightarrow> Projection" where
  "finish_building st =
     \<lparr>pj_Routes = sort_key (\<lambda>r. (rr_Hostname r, rr_Port r)) (map (\<lambda>kr. sorted_backends (snd kr)) (bd_routes st)),
      pj_PrimaryPorts = bd_primary st,
      pj_InternalDNS = sort_key dns_Name (map (\<lambda>(name, aaaas).
          \<lparr>dns_Name = name, dns_AAAA = sort aaaas, dns_Generation = mget0 0 (bd_dnsGen st) name\<rparr>) (bd_dns st))\<rparr>"

definition weights_of :: "Input \<Rightarrow> (string, int) gomap" where
  "weights_of i =
     (let ix = build_index i; cuts = cutOrdinals ix (in_Machines i) in
      deriveCanaryWeights (in_Deployments i) (ix_rollout ix) (ix_toDep ix) (publishableByDep i ix cuts))"

definition Derive :: "Input \<Rightarrow> Projection" where
  "Derive i =
     (let ix = build_index i; cuts = cutOrdinals ix (in_Machines i) in
      finish_building (fold (add_machine i ix cuts (weights_of i)) (in_Machines i) empty_building))"


section \<open>The routes in PostgreSQL\<close>

record routes_row =
  rw_AppID :: string
  rw_Hostname :: string
  rw_Port :: int
  rw_Generation :: int

text \<open>A row of \<open>route_backends\<close> is the backend with the route and generation of its key.\<close>

record route_tables =
  tb_routes :: "(string, routes_row) gomap"
  tb_backends :: "(string \<times> int \<times> RouteBackendRow) list"
  tb_revisions :: "(string, int) gomap"

definition routeRowID :: "string \<Rightarrow> int \<Rightarrow> string" where
  "routeRowID hostname port = hostname @ '':'' @ fmt_int port"

definition row_id :: "RouteRow \<Rightarrow> string" where
  "row_id r = routeRowID (rr_Hostname r) (rr_Port r)"

definition delete_stale :: "RouteRow list \<Rightarrow> route_tables \<Rightarrow> route_tables" where
  "delete_stale active t =
     (let stale = filter (\<lambda>k. k \<notin> row_id ` set active) (map fst (tb_routes t)) in
      t\<lparr>tb_backends := filter (\<lambda>b. fst b \<notin> set stale) (tb_backends t), tb_routes := fold mdel stale (tb_routes t)\<rparr>)"

text \<open>
  The insertion of a backend; \<open>None\<close> is a violation of the primary key (route, generation, machine). The column
  of the deployment generation does not exist: the table keeps 0.
\<close>

definition insert_backend :: "string \<Rightarrow> int \<Rightarrow> RouteBackendRow \<Rightarrow> (string \<times> int \<times> RouteBackendRow) list \<Rightarrow>
    (string \<times> int \<times> RouteBackendRow) list option" where
  "insert_backend rid generation b rows =
     (if \<exists>(i, g, b') \<in> set rows. i = rid \<and> g = generation \<and> rb_MachineID b' = rb_MachineID b then None
      else Some (rows @ [(rid, generation, b\<lparr>rb_DeploymentGeneration := 0\<rparr>)]))"

fun insert_backends :: "string \<Rightarrow> int \<Rightarrow> RouteBackendRow list \<Rightarrow> (string \<times> int \<times> RouteBackendRow) list \<Rightarrow>
    (string \<times> int \<times> RouteBackendRow) list option" where
  "insert_backends rid generation [] rows = Some rows"
| "insert_backends rid generation (b # bs) rows =
     (case insert_backend rid generation b rows of None \<Rightarrow> None | Some rows' \<Rightarrow> insert_backends rid generation bs rows')"

definition upsert_route :: "RouteRow \<Rightarrow> route_tables \<Rightarrow> route_tables option" where
  "upsert_route r t =
     (let rid = row_id r;
          row = \<lparr>rw_AppID = rr_AppID r, rw_Hostname = rr_Hostname r, rw_Port = rr_Port r, rw_Generation = rr_Generation r\<rparr> in
      case insert_backends rid (rr_Generation r) (rr_Backends r) (filter (\<lambda>b. fst b \<noteq> rid) (tb_backends t)) of
        None \<Rightarrow> None
      | Some rows \<Rightarrow> Some (t\<lparr>tb_routes := mset_at rid row (tb_routes t), tb_backends := rows\<rparr>))"

fun upsert_routes :: "RouteRow list \<Rightarrow> route_tables \<Rightarrow> route_tables option" where
  "upsert_routes [] t = Some t"
| "upsert_routes (r # rs) t = (case upsert_route r t of None \<Rightarrow> None | Some t' \<Rightarrow> upsert_routes rs t')"

definition hosts_of :: "RouteRow list \<Rightarrow> string list" where
  "hosts_of active = fold (\<lambda>r hs. if rr_Hostname r \<in> set hs then hs else hs @ [rr_Hostname r]) active []"

definition next_revision :: "string \<Rightarrow> (string, int) gomap \<Rightarrow> int" where
  "next_revision hostname revs = (case mget revs hostname of None \<Rightarrow> 1 | Some n \<Rightarrow> n + 1)"

definition allocate_revision :: "string \<Rightarrow> (string, int) gomap \<times> (string, int) gomap \<Rightarrow> (string, int) gomap \<times> (string, int) gomap" where
  "allocate_revision hostname s =
     (let (out, revs) = s; n = next_revision hostname revs in (mset_at hostname n out, mset_at hostname n revs))"

definition allocate_revisions :: "string list \<Rightarrow> (string, int) gomap \<Rightarrow> (string, int) gomap \<times> (string, int) gomap" where
  "allocate_revisions hosts revs = fold allocate_revision hosts ([], revs)"

definition SyncRoutes :: "tx_end \<Rightarrow> RouteRow list \<Rightarrow> route_tables \<Rightarrow> (string + (string, int) gomap) \<times> route_tables" where
  "SyncRoutes tx active t =
     (case upsert_routes active (delete_stale active t) of
        None \<Rightarrow> (Inl ''insert backend'', t)
      | Some t1 \<Rightarrow>
          (let (out, revs) = allocate_revisions (hosts_of active) (tb_revisions t1); t2 = t1\<lparr>tb_revisions := revs\<rparr> in
           case tx of TxCommit \<Rightarrow> (Inr out, t2) | TxFail \<Rightarrow> (Inl ''transaction'', t) | TxAnswerLost \<Rightarrow> (Inl ''commit'', t2)))"

section \<open>Publication\<close>

definition converted_backend :: "RouteBackendRow \<Rightarrow> Backend" where
  "converted_backend b =
     \<lparr>be_MachineID = rb_MachineID b, be_ExecutionID = rb_ExecutionID b, be_NodeProxyEndpoint = rb_NodeProxyEndpoint b,
      be_AppPort = rb_AppPort b, be_Readiness = rb_Readiness b, be_Weight = rb_Weight b, be_Draining = rb_Draining b,
      be_ULA = rb_ULA b, be_IdentityID = rb_IdentityID b, be_Generation = rb_Generation b,
      be_DeploymentGeneration = rb_DeploymentGeneration b\<rparr>"

definition converted :: "RouteRow \<Rightarrow> Route" where
  "converted r = \<lparr>rt_RouteGeneration = rr_Generation r, rt_Revision = 0, rt_Backends = map converted_backend (rr_Backends r)\<rparr>"

definition hostRoutes :: "RouteRow list \<Rightarrow> (string, HostRoute list) gomap" where
  "hostRoutes rs =
     fold (\<lambda>r m. mset_at (rr_Hostname r) (mget0 [] m (rr_Hostname r) @ [\<lparr>hr_Port = rr_Port r, hr_Route = converted r\<rparr>]) m) rs []"

text \<open>The loop over the hosts; \<open>down n\<close> says that the \<open>n\<close>-th script does not reach Redis.\<close>

fun publish_hosts :: "(nat \<Rightarrow> bool) \<Rightarrow> (string, int) gomap \<Rightarrow> (string, int) gomap \<Rightarrow> (string, HostRoute list) gomap \<Rightarrow> string list \<Rightarrow> kv \<Rightarrow>
    (catalog_err + unit) \<times> kv" where
  "publish_hosts down revisions primary routes [] kv = (Inr (), kv)"
| "publish_hosts down revisions primary routes (h # hs) kv =
     (case ReplaceHostRoutes (down 0) h (mget0 0 revisions h) (mget0 [] routes h) (mget0 0 primary h) kv of
        (Inl e, kv') \<Rightarrow> (Inl e, kv')
      | (Inr _, kv') \<Rightarrow> publish_hosts (\<lambda>n. down (Suc n)) revisions primary routes hs kv')"

definition publishRedis :: "(nat \<Rightarrow> bool) \<Rightarrow> (nat \<Rightarrow> bool) \<Rightarrow> Projection \<Rightarrow> (string, int) gomap \<Rightarrow> kv \<Rightarrow> (catalog_err + unit) \<times> kv" where
  "publishRedis down pruneFails pj revisions kv =
     (let keepRoutes = map (\<lambda>r. routeKey (rr_Hostname r) (rr_Port r)) (pj_Routes pj);
          keepHosts = map rr_Hostname (pj_Routes pj);
          routes = hostRoutes (pj_Routes pj) in
      case publish_hosts down revisions (pj_PrimaryPorts pj) routes (sort (map fst routes)) kv of
        (Inl e, kv') \<Rightarrow> (Inl e, kv')
      | (Inr _, kv') \<Rightarrow> PruneRoutes pruneFails keepRoutes keepHosts kv')"

record Publisher =
  pb_defaultAppPort :: int
  pb_legacyProxyAddr :: string
  pb_dnsStaleWindow :: int

definition defaultDNSStaleWindow :: int where
  "defaultDNSStaleWindow = 120 * 10 ^ 9"

definition NewPublisher :: "int \<Rightarrow> string \<Rightarrow> Publisher" where
  "NewPublisher port addr = \<lparr>pb_defaultAppPort = port, pb_legacyProxyAddr = addr, pb_dnsStaleWindow = defaultDNSStaleWindow\<rparr>"

definition SetDNSStaleWindow :: "int \<Rightarrow> Publisher \<Rightarrow> Publisher" where
  "SetDNSStaleWindow d p = p\<lparr>pb_dnsStaleWindow := (if d \<le> 0 then defaultDNSStaleWindow else d)\<rparr>"

definition publishInternalDNS :: "(nat \<Rightarrow> bool) \<Rightarrow> int \<Rightarrow> Publisher \<Rightarrow> Projection \<Rightarrow> kv \<Rightarrow> (catalog_err + unit) \<times> kv" where
  "publishInternalDNS fails now p pj kv = ReplaceInternalDNS fails now (pj_InternalDNS pj) (pb_dnsStaleWindow p) kv"

text \<open>What a rebuild meets: the answer of each query, the end of the transaction, and the failing commands.\<close>

record rebuild_env =
  re_machines :: "string + Machine list"
  re_rollouts :: "string + Rollout list"
  re_deployments :: "string \<Rightarrow> string + Deployment list"
  re_identities :: "string + FabricIdentityRow list"
  re_proxyByNode :: "(string, string) gomap"
  re_tx :: tx_end
  re_down :: "nat \<Rightarrow> bool"
  re_pruneFails :: "nat \<Rightarrow> bool"
  re_dnsFails :: "nat \<Rightarrow> bool"
  re_now :: int

datatype rebuild_err = StoreErr string | CatalogErr catalog_err

definition publishAll :: "rebuild_env \<Rightarrow> Publisher \<Rightarrow> Projection \<Rightarrow> (string, int) gomap \<Rightarrow> kv \<Rightarrow> (rebuild_err + unit) \<times> kv" where
  "publishAll env p pj revisions kv =
     (case publishRedis (re_down env) (re_pruneFails env) pj revisions kv of
        (Inl e, kv1) \<Rightarrow> (Inl (CatalogErr e), kv1)
      | (Inr _, kv1) \<Rightarrow>
          (case publishInternalDNS (re_dnsFails env) (re_now env) p pj kv1 of
             (Inl e, kv2) \<Rightarrow> (Inl (CatalogErr e), kv2)
           | (Inr _, kv2) \<Rightarrow> (Inr (), kv2)))"

fun list_deployments :: "(string \<Rightarrow> string + Deployment list) \<Rightarrow> string list \<Rightarrow> string + Deployment list" where
  "list_deployments q [] = Inr []"
| "list_deployments q (app # apps) =
     (case q app of
        Inl e \<Rightarrow> Inl e
      | Inr ds \<Rightarrow> (case list_deployments q apps of Inl e \<Rightarrow> Inl e | Inr rest \<Rightarrow> Inr (ds @ rest)))"

definition identities_map :: "string + FabricIdentityRow list \<Rightarrow> (string, FabricIdentityRow) gomap" where
  "identities_map q =
     (case q of Inl _ \<Rightarrow> [] | Inr rows \<Rightarrow> fold (\<lambda>r. mset_at (identity_key (fi_MachineID r) (fi_ExecutionID r)) r) rows [])"

definition load_input :: "rebuild_env \<Rightarrow> Publisher \<Rightarrow> string + Input" where
  "load_input env p =
     (case re_machines env of
        Inl e \<Rightarrow> Inl e
      | Inr ms \<Rightarrow>
          (case re_rollouts env of
             Inl e \<Rightarrow> Inl e
           | Inr rs \<Rightarrow>
               (case list_deployments (re_deployments env) (sort (remdups (map m_AppID ms))) of
                  Inl e \<Rightarrow> Inl e
                | Inr ds \<Rightarrow>
                    Inr \<lparr>in_Machines = ms, in_Deployments = ds, in_Rollouts = rs, in_ProxyByNode = re_proxyByNode env,
                         in_DefaultAppPort = pb_defaultAppPort p, in_LegacyProxyAddr = pb_legacyProxyAddr p,
                         in_FabricByIdentity = identities_map (re_identities env)\<rparr>)))"

definition Rebuild :: "rebuild_env \<Rightarrow> Publisher \<Rightarrow> route_tables \<times> kv \<Rightarrow> (rebuild_err + unit) \<times> route_tables \<times> kv" where
  "Rebuild env p s =
     (let (t, kv) = s in
      case load_input env p of
        Inl e \<Rightarrow> (Inl (StoreErr e), t, kv)
      | Inr i \<Rightarrow>
          (let pj = Derive i in
           case SyncRoutes (re_tx env) (pj_Routes pj) t of
             (Inl e, t') \<Rightarrow> (Inl (StoreErr e), t', kv)
           | (Inr revisions, t') \<Rightarrow> (let (r, kv') = publishAll env p pj revisions kv in (r, t', kv'))))"

end
