(* ===== verification/RouteDerivation.thy ===== *)
theory RouteDerivation
  imports RoutePublisher
begin

text \<open>
  What the derivation publishes: exactly the services of the machines that serve and are not draining, each
  host with a declared primary port; the canary weights of the two generations of a rollout; and which
  generation serves a replica during a rolling rollout.
\<close>

section \<open>The members of a route\<close>

definition published_machines :: "Input \<Rightarrow> Machine list" where
  "published_machines i =
     (let ix = build_index i in filter (publishable i ix (cutOrdinals ix (in_Machines i))) (in_Machines i))"

text \<open>The backends of a host and port, in the order of the machines: the specification of a derived route.\<close>

definition members :: "Input \<Rightarrow> string \<Rightarrow> int \<Rightarrow> RouteBackendRow list" where
  "members i h p =
     (let ix = build_index i in
      concat (map (\<lambda>m. map (backend_row i ix (weights_of i) m) (filter (\<lambda>s. sv_InternalPort s = p) (services_of i ix m)))
        (filter (\<lambda>m. m_Hostname m = h) (published_machines i))))"

lemma mget0_update [simp]: "mget0 z (mset_at k v m) k' = (if k' = k then v else mget0 z m k')"
  by (simp add: mget0_def)

lemma mget0_empty [simp]: "mget0 z [] k = z"
  by (simp add: mget0_def)

lemma fold_filter: "fold (\<lambda>x s. if P x then f x s else s) xs s = fold f (filter P xs) s"
  by (induction xs arbitrary: s) auto

lemma building_fold:
  "fold (add_machine i ix cuts ws) ms st =
     fold (\<lambda>m. fold (add_service i ix ws m) (enumerate 0 (services_of i ix m))) (filter (publishable i ix cuts) ms) st"
  unfolding add_machine_def fold_filter [symmetric] by (rule fold_cong) auto

text \<open>One service: which backends a route has afterwards.\<close>

definition backends_at :: "building \<Rightarrow> string \<Rightarrow> int \<Rightarrow> RouteBackendRow list" where
  "backends_at st h p = (case mget (bd_routes st) (h, p) of None \<Rightarrow> [] | Some r \<Rightarrow> rr_Backends r)"

definition building_ok :: "building \<Rightarrow> bool" where
  "building_ok st \<longleftrightarrow> gomap_ok (bd_routes st) \<and> gomap_ok (bd_dns st) \<and>
     (\<forall>h p r. mget (bd_routes st) (h, p) = Some r \<longrightarrow> rr_Hostname r = h \<and> rr_Port r = p \<and> rr_Backends r \<noteq> []) \<and>
     (\<forall>n as. mget (bd_dns st) n = Some as \<longrightarrow> n \<noteq> [] \<and> as \<noteq> [])"

lemma add_service_routes [simp]:
  "bd_routes (add_name i m s st) = bd_routes st" "bd_routes (add_primary m n s st) = bd_routes st"
  "bd_primary (add_name i m s st) = bd_primary st" "bd_primary (add_backend h p a g b st) = bd_primary st"
  "bd_dns (add_primary m n s st) = bd_dns st" "bd_dns (add_backend h p a g b st) = bd_dns st"
  by (simp_all add: add_name_def add_primary_def add_backend_def Let_def split: option.splits)

lemma backends_at_add_service:
  "backends_at (add_service i ix ws m (n, s) st) h p =
     backends_at st h p @ (if m_Hostname m = h \<and> sv_InternalPort s = p then [backend_row i ix ws m s] else [])"
  by (auto simp: backends_at_def add_service_def add_backend_def Let_def mget0_def split: option.splits)

lemma building_ok_add_service:
  assumes "building_ok st" shows "building_ok (add_service i ix ws m (n, s) st)"
proof -
  have "appendUniqueAAA as u \<noteq> []" for as u by (simp add: appendUniqueAAA_def) auto
  moreover have "internal_name m hint \<noteq> []" for hint by (simp add: internal_name_def)
  ultimately have dns: "mget (bd_dns (add_name i m s st')) k = Some as \<Longrightarrow> bd_dns st' = bd_dns st \<Longrightarrow> k \<noteq> [] \<and> as \<noteq> []" for st' k as
    using assms by (auto simp: building_ok_def add_name_def Let_def split: option.splits if_splits)
  have gdns: "gomap_ok (bd_dns (add_name i m s (add_primary m n s st)))"
    using assms by (auto simp: building_ok_def add_name_def Let_def split: option.splits)
  show ?thesis
    using assms dns [of "add_primary m n s st"] gdns
    by (auto simp: building_ok_def add_service_def add_backend_def Let_def mget0_def split: option.splits if_splits)
qed

lemma building_ok_services: "building_ok st \<Longrightarrow> building_ok (fold (add_service i ix ws m) (enumerate k ss) st)"
  by (induction ss arbitrary: k st) (auto simp: building_ok_add_service)

lemma backends_at_services:
  "backends_at (fold (add_service i ix ws m) (enumerate k ss) st) h p =
     backends_at st h p @ (if m_Hostname m = h then map (backend_row i ix ws m) (filter (\<lambda>s. sv_InternalPort s = p) ss) else [])"
  by (induction ss arbitrary: k st) (auto simp: backends_at_add_service)

definition built :: "Input \<Rightarrow> building" where
  "built i =
     (let ix = build_index i in
      fold (\<lambda>m. fold (add_service i ix (weights_of i) m) (enumerate 0 (services_of i ix m))) (published_machines i) empty_building)"

lemma Derive_built: "Derive i = finish_building (built i)"
  by (simp add: Derive_def built_def building_fold published_machines_def Let_def)

lemma building_ok_built: "building_ok (built i)"
proof -
  have "building_ok st \<Longrightarrow> building_ok (fold (\<lambda>m. fold (add_service i ix ws m) (enumerate 0 (services_of i ix m))) ms st)" for ix ws ms st
    by (induction ms arbitrary: st) (auto simp: building_ok_services)
  moreover have "building_ok empty_building" by (simp add: building_ok_def empty_building_def)
  ultimately show ?thesis by (simp add: built_def Let_def)
qed

lemma backends_at_built: "backends_at (built i) h p = members i h p"
proof -
  have "backends_at (fold (\<lambda>m. fold (add_service i ix ws m) (enumerate 0 (services_of i ix m))) ms st) h p =
    backends_at st h p @ concat (map (\<lambda>m. map (backend_row i ix ws m) (filter (\<lambda>s. sv_InternalPort s = p) (services_of i ix m)))
        (filter (\<lambda>m. m_Hostname m = h) ms))" for ix ws ms st
    by (induction ms arbitrary: st) (auto simp: backends_at_services)
  moreover have "backends_at empty_building h p = []" by (simp add: backends_at_def empty_building_def)
  ultimately show ?thesis by (simp add: built_def members_def Let_def)
qed

lemma sorted_backends_key [simp]: "rr_Hostname (sorted_backends r) = rr_Hostname r" "rr_Port (sorted_backends r) = rr_Port r"
  by (simp_all add: sorted_backends_def)

text \<open>A route of the projection, looked up by its host and port.\<close>

definition derived_route :: "Input \<Rightarrow> string \<Rightarrow> int \<Rightarrow> RouteRow option" where
  "derived_route i h p = map_option sorted_backends (mget (bd_routes (built i)) (h, p))"

lemma routes_of_built:
  "r \<in> set (pj_Routes (Derive i)) \<longleftrightarrow> derived_route i (rr_Hostname r) (rr_Port r) = Some r"
proof -
  have ok: "building_ok (built i)" by (rule building_ok_built)
  then have g: "gomap_ok (bd_routes (built i))" by (simp add: building_ok_def)
  have mem: "(k, v) \<in> set (bd_routes (built i)) \<longleftrightarrow> mget (bd_routes (built i)) k = Some v" for k v
    using g by (simp add: gomap_ok_def map_of_eq_Some_iff)
  have keys: "mget (bd_routes (built i)) (h, p) = Some v \<Longrightarrow> rr_Hostname v = h \<and> rr_Port v = p" for h p v
    using ok unfolding building_ok_def by blast
  have "r \<in> set (pj_Routes (Derive i)) \<longleftrightarrow> (\<exists>h p v. mget (bd_routes (built i)) (h, p) = Some v \<and> r = sorted_backends v)"
    (is "_ \<longleftrightarrow> ?R")
  proof
    assume "r \<in> set (pj_Routes (Derive i))"
    then obtain h p v where "((h, p), v) \<in> set (bd_routes (built i))" "r = sorted_backends v"
      by (auto simp: Derive_built finish_building_def)
    then show ?R using mem by blast
  next
    assume ?R
    then obtain h p v where "((h, p), v) \<in> set (bd_routes (built i))" "r = sorted_backends v" using mem by blast
    then have "r \<in> (\<lambda>kr. sorted_backends (snd kr)) ` set (bd_routes (built i))" by (metis image_eqI snd_conv)
    then show "r \<in> set (pj_Routes (Derive i))" by (simp add: Derive_built finish_building_def)
  qed
  also have "\<dots> \<longleftrightarrow> (\<exists>v. mget (bd_routes (built i)) (rr_Hostname r, rr_Port r) = Some v \<and> r = sorted_backends v)"
  proof
    assume "\<exists>h p v. mget (bd_routes (built i)) (h, p) = Some v \<and> r = sorted_backends v"
    then obtain h p v where *: "mget (bd_routes (built i)) (h, p) = Some v" "r = sorted_backends v" by blast
    with keys [OF *(1)] show "\<exists>v. mget (bd_routes (built i)) (rr_Hostname r, rr_Port r) = Some v \<and> r = sorted_backends v" by simp
  qed blast
  finally show ?thesis by (auto simp: derived_route_def)
qed

lemma derived_routeD:
  assumes "derived_route i h p = Some r"
  shows "rr_Hostname r = h" "rr_Port r = p" "mset (rr_Backends r) = mset (members i h p)"
    "sorted (map (\<lambda>b. (rb_MachineID b, rb_ExecutionID b)) (rr_Backends r))" "members i h p \<noteq> []"
proof -
  from assms obtain v where v: "mget (bd_routes (built i)) (h, p) = Some v" "r = sorted_backends v"
    by (auto simp: derived_route_def)
  have keys: "rr_Hostname v = h \<and> rr_Port v = p \<and> rr_Backends v \<noteq> []"
    using building_ok_built [of i] v(1) unfolding building_ok_def by blast
  have bs: "rr_Backends v = members i h p" using backends_at_built [of i h p] v(1) by (simp add: backends_at_def)
  show "rr_Hostname r = h" "rr_Port r = p" "mset (rr_Backends r) = mset (members i h p)"
    "sorted (map (\<lambda>b. (rb_MachineID b, rb_ExecutionID b)) (rr_Backends r))" "members i h p \<noteq> []"
    using v(2) keys bs by (simp_all add: sorted_backends_def)
qed

lemma derived_route_None: "derived_route i h p = None \<longleftrightarrow> members i h p = []"
proof
  assume "derived_route i h p = None"
  then show "members i h p = []" using backends_at_built [of i h p] by (simp add: derived_route_def backends_at_def)
next
  assume "members i h p = []"
  then show "derived_route i h p = None" using derived_routeD(5) [of i h p] by (cases "derived_route i h p") auto
qed

lemma derived_routes_distinct: "distinct (map (\<lambda>r. (rr_Hostname r, rr_Port r)) (pj_Routes (Derive i)))"
proof -
  have ok: "building_ok (built i)" by (rule building_ok_built)
  then have g: "distinct (map fst (bd_routes (built i)))" by (simp add: building_ok_def gomap_ok_def)
  have "(rr_Hostname (snd kr), rr_Port (snd kr)) = fst kr" if "kr \<in> set (bd_routes (built i))" for kr
    using ok that g by (cases kr) (auto simp: building_ok_def map_of_eq_Some_iff)
  then have "map (\<lambda>kr. (rr_Hostname (snd kr), rr_Port (snd kr))) (bd_routes (built i)) = map fst (bd_routes (built i))"
    by simp
  then have "distinct (map (\<lambda>r. (rr_Hostname r, rr_Port r)) (map (\<lambda>kr. sorted_backends (snd kr)) (bd_routes (built i))))"
    using g by (simp add: comp_def sorted_backends_def del: map_eq_conv)
  moreover have "mset (map (\<lambda>r. (rr_Hostname r, rr_Port r)) (pj_Routes (Derive i))) =
      mset (map (\<lambda>r. (rr_Hostname r, rr_Port r)) (map (\<lambda>kr. sorted_backends (snd kr)) (bd_routes (built i))))"
    by (simp add: Derive_built finish_building_def multiset.map_comp comp_def)
  ultimately show ?thesis using mset_eq_imp_distinct_iff by blast
qed

section \<open>Primary ports\<close>

text \<open>What the API checks of a deployment's services, and the port of a machine without deployment.\<close>

definition ports_ok :: "Input \<Rightarrow> bool" where
  "ports_ok i \<longleftrightarrow> (\<forall>m \<in> set (in_Machines i). \<forall>s \<in> set (services_of i (build_index i) m). 0 < sv_InternalPort s)"

definition primary_ok :: "building \<Rightarrow> bool" where
  "primary_ok st \<longleftrightarrow>
     (\<forall>h. mget0 0 (bd_primary st) h \<noteq> 0 \<longrightarrow> 0 < mget0 0 (bd_primary st) h \<and> backends_at st h (mget0 0 (bd_primary st) h) \<noteq> []) \<and>
     (\<forall>h p. backends_at st h p \<noteq> [] \<longrightarrow> 0 < p \<and> mget0 0 (bd_primary st) h \<noteq> 0)"

lemma primary_add_service:
  "mget0 0 (bd_primary (add_service i ix ws m (n, s) st)) h =
     (let cur = mget0 0 (bd_primary st) h in
      if h = m_Hostname m \<and> n = 0 \<and> (cur = 0 \<or> sv_InternalPort s < cur) then sv_InternalPort s else cur)"
  by (auto simp: add_service_def add_primary_def Let_def)

lemma primary_ok_add_service:
  assumes "primary_ok st" "0 < sv_InternalPort s" "n = 0 \<or> mget0 0 (bd_primary st) (m_Hostname m) \<noteq> 0"
  shows "primary_ok (add_service i ix ws m (n, s) st)"
  using assms unfolding primary_ok_def by (auto simp: primary_add_service backends_at_add_service Let_def)

lemma primary_set_add_service:
  "0 < sv_InternalPort s \<Longrightarrow> n = 0 \<or> mget0 0 (bd_primary st) h \<noteq> 0 \<Longrightarrow> h = m_Hostname m \<Longrightarrow>
     mget0 0 (bd_primary (add_service i ix ws m (n, s) st)) h \<noteq> 0"
  by (auto simp: primary_add_service Let_def)

lemma primary_ok_services:
  "primary_ok st \<Longrightarrow> \<forall>s \<in> set ss. 0 < sv_InternalPort s \<Longrightarrow> k = 0 \<or> mget0 0 (bd_primary st) (m_Hostname m) \<noteq> 0 \<Longrightarrow>
     primary_ok (fold (add_service i ix ws m) (enumerate k ss) st)"
proof (induction ss arbitrary: k st)
  case (Cons s ss)
  let ?st = "add_service i ix ws m (k, s) st"
  have "primary_ok ?st" using Cons.prems by (intro primary_ok_add_service) auto
  moreover have "mget0 0 (bd_primary ?st) (m_Hostname m) \<noteq> 0" using Cons.prems by (intro primary_set_add_service) auto
  ultimately show ?case using Cons.IH [of ?st "Suc k"] Cons.prems(2) by simp
qed simp

lemma primary_ok_built:
  assumes "ports_ok i" shows "primary_ok (built i)"
proof -
  define ix where "ix = build_index i"
  have "primary_ok st \<Longrightarrow> \<forall>m \<in> set ms. \<forall>s \<in> set (services_of i ix m). 0 < sv_InternalPort s \<Longrightarrow>
     primary_ok (fold (\<lambda>m. fold (add_service i ix ws m) (enumerate 0 (services_of i ix m))) ms st)" for ws ms st
  proof (induction ms arbitrary: st)
    case (Cons m ms)
    have "primary_ok (fold (add_service i ix ws m) (enumerate 0 (services_of i ix m)) st)"
      using Cons.prems by (intro primary_ok_services) auto
    then show ?case using Cons.IH Cons.prems(2) by simp
  qed simp
  moreover have "primary_ok empty_building" by (simp add: primary_ok_def empty_building_def backends_at_def)
  moreover have "set (published_machines i) \<subseteq> set (in_Machines i)" by (auto simp: published_machines_def Let_def)
  then have "\<forall>m \<in> set (published_machines i). \<forall>s \<in> set (services_of i ix m). 0 < sv_InternalPort s"
    using assms by (auto simp: ports_ok_def ix_def)
  ultimately show ?thesis unfolding built_def Let_def ix_def [symmetric] by blast
qed

lemma derived_primary:
  assumes "ports_ok i" "derived_route i h p \<noteq> None"
  shows "0 < p" "0 < mget0 0 (pj_PrimaryPorts (Derive i)) h" "derived_route i h (mget0 0 (pj_PrimaryPorts (Derive i)) h) \<noteq> None"
proof -
  have pp: "pj_PrimaryPorts (Derive i) = bd_primary (built i)" by (simp add: Derive_built finish_building_def)
  have "backends_at (built i) h p \<noteq> []" using assms(2) derived_route_None backends_at_built by metis
  with primary_ok_built [OF assms(1)]
  show "0 < p" "0 < mget0 0 (pj_PrimaryPorts (Derive i)) h" "derived_route i h (mget0 0 (pj_PrimaryPorts (Derive i)) h) \<noteq> None"
    unfolding primary_ok_def pp by (auto simp: derived_route_None backends_at_built)
qed

section \<open>Who is published\<close>

text \<open>The invariants of the machines table and of deployments: machine ids and the ports of a machine's services are distinct.\<close>

definition rows_distinct :: "Input \<Rightarrow> bool" where
  "rows_distinct i \<longleftrightarrow> distinct (map m_ID (in_Machines i)) \<and>
     (\<forall>m \<in> set (in_Machines i). distinct (map sv_InternalPort (services_of i (build_index i) m)))"

lemma backend_row_fields [simp]:
  "rb_MachineID (backend_row i ix ws m s) = m_ID m" "rb_ExecutionID (backend_row i ix ws m s) = m_CurrentExecutionID m"
  "rb_NodeProxyEndpoint (backend_row i ix ws m s) = proxyOf i m" "rb_AppPort (backend_row i ix ws m s) = sv_InternalPort s"
  "rb_Readiness (backend_row i ix ws m s) = m_ObservedReadiness m" "rb_Draining (backend_row i ix ws m s) = False"
  "rb_Weight (backend_row i ix ws m s) = weightOrDefault ws (m_ID m)"
  "rb_DeploymentGeneration (backend_row i ix ws m s) = mget0 0 (ix_gen ix) (m_DeploymentID m)"
  by (simp_all add: backend_row_def plain_backend_def Let_def split: option.splits)

lemma members_iff:
  "b \<in> set (members i h p) \<longleftrightarrow>
     (\<exists>m \<in> set (published_machines i). \<exists>s \<in> set (services_of i (build_index i) m).
        m_Hostname m = h \<and> sv_InternalPort s = p \<and> b = backend_row i (build_index i) (weights_of i) m s)"
  by (auto simp: members_def Let_def)

lemma filter_port_length: "distinct (map f ss) \<Longrightarrow> length (filter (\<lambda>s. f s = (p :: int)) ss) \<le> 1"
proof (induction ss)
  case (Cons s ss)
  have "filter (\<lambda>t. f t = f s) ss = []" using Cons.prems by (simp add: filter_empty_conv) (metis imageI)
  then show ?case using Cons by auto
qed simp

lemma members_distinct:
  assumes "rows_distinct i" shows "distinct (map rb_MachineID (members i h p))"
proof -
  define ix where "ix = build_index i"
  define row where "row m = map (backend_row i ix (weights_of i) m) (filter (\<lambda>s. sv_InternalPort s = p) (services_of i ix m))" for m
  have ids: "map rb_MachineID (row m) = replicate (length (row m)) (m_ID m)" for m
    by (simp add: row_def map_replicate_const comp_def)
  have "distinct (map m_ID ms) \<Longrightarrow> \<forall>m \<in> set ms. length (row m) \<le> 1 \<Longrightarrow>
     distinct (map rb_MachineID (concat (map row ms))) \<and> set (map rb_MachineID (concat (map row ms))) \<subseteq> m_ID ` set ms" for ms
  proof (induction ms)
    case (Cons m ms)
    have "distinct (replicate (length (row m)) (m_ID m))" using Cons.prems(2) by (cases "length (row m)") auto
    moreover have "m_ID m \<notin> set (map rb_MachineID (concat (map row ms)))" using Cons by auto
    moreover have "set (replicate (length (row m)) (m_ID m)) \<subseteq> {m_ID m}" by auto
    ultimately have "set (replicate (length (row m)) (m_ID m)) \<inter> set (map rb_MachineID (concat (map row ms))) = {}" by blast
    then show ?case using Cons \<open>distinct (replicate _ _)\<close> unfolding list.map concat.simps map_append ids distinct_append by auto
  qed simp
  moreover have "distinct (map m_ID (filter (\<lambda>m. m_Hostname m = h) (published_machines i)))"
    using assms by (simp add: rows_distinct_def published_machines_def Let_def distinct_map_filter)
  moreover have "length (row m) \<le> 1" if "m \<in> set (published_machines i)" for m
  proof -
    have "distinct (map sv_InternalPort (services_of i ix m))"
      using assms that by (simp add: rows_distinct_def published_machines_def Let_def ix_def)
    then show ?thesis using filter_port_length [of sv_InternalPort] by (simp add: row_def)
  qed
  ultimately show ?thesis unfolding members_def Let_def row_def [symmetric] ix_def [symmetric] by simp
qed

section \<open>Canary weights\<close>

lemma set_weights_nth:
  assumes "distinct xs" "j < length xs" shows "mget0 z (set_weights share xs out) (xs ! j) = share_weight share (length xs) j"
proof -
  have "mget0 z (fold (\<lambda>(j, x). mset_at x (w j)) (enumerate k ys) m) (ys ! j) = w (k + j)"
    if "distinct ys" "j < length ys" for w k ys m j
    using that
  proof (induction ys arbitrary: k m j)
    case (Cons y ys)
    show ?case
    proof (cases j)
      case 0
      have "mget0 z (fold (\<lambda>(j, x). mset_at x (w j)) (enumerate k' zs) m) y = mget0 z m y" if "y \<notin> set zs" for zs k' m
        using that by (induction zs arbitrary: k' m) auto
      then show ?thesis using Cons.prems 0 by simp
    qed (use Cons in auto)
  qed simp
  from this [OF assms, of "share_weight share (length xs)" 0 out] show ?thesis by (simp add: set_weights_def)
qed

lemma set_weights_other: "y \<notin> set xs \<Longrightarrow> mget0 z (set_weights share xs out) y = mget0 z out y"
proof -
  have "y \<notin> set ys \<Longrightarrow> mget0 z (fold (\<lambda>(j, x). mset_at x (w j)) (enumerate k ys) m) y = mget0 z m y" for w k ys m
    by (induction ys arbitrary: k m) auto
  then show "y \<notin> set xs \<Longrightarrow> ?thesis" by (simp add: set_weights_def)
qed

text \<open>The shares of \<open>n\<close> backends add up to the share of their generation, or to their number when there are more of them.\<close>

lemma share_weight_sum:
  assumes "0 < n" "0 < share" shows "(\<Sum>j<n. share_weight share n j) = max share (int n)"
proof (cases "int n \<le> share")
  case True
  then have q: "1 \<le> share div int n" using assms by (simp add: pos_imp_zdiv_pos_iff int_one_le_iff_zero_less)
  define r where "r = nat (share mod int n)"
  have r: "share mod int n = int r" "r < n" using assms by (auto simp: r_def nat_less_iff)
  have "share_weight share n j = share div int n + (if j < r then 1 else 0)" for j
    using q r(1) by (auto simp: share_weight_def Let_def)
  then have "(\<Sum>j<n. share_weight share n j) = int n * (share div int n) + (\<Sum>j<n. if j < r then 1 else 0)"
    by (simp add: sum.distrib)
  also have "(\<Sum>j<n. if j < r then 1 else 0 :: int) = int r"
  proof -
    have "{..<n} \<inter> {j. j < r} = {..<r}" using r(2) by auto
    then show ?thesis by (simp add: sum.If_cases)
  qed
  finally show ?thesis using r(1) True by (metis max.absorb1 mult_div_mod_eq)
next
  case False
  then have "share div int n = 0" using assms by simp
  then have "share_weight share n j = 1" for j by (simp add: share_weight_def Let_def)
  then show ?thesis using False by simp
qed

definition weights_run :: "Deployment list \<Rightarrow> (string, Rollout) gomap \<Rightarrow> (string, string) gomap \<Rightarrow> (string, string list) gomap \<Rightarrow>
    (string, int) gomap \<Rightarrow> (string, int) gomap" where
  "weights_run ds rollouts toDepByApp byDep out =
     fold (\<lambda>d out. case canary_share rollouts toDepByApp d of
             None \<Rightarrow> out
           | Some share \<Rightarrow> set_weights share (sort (mget0 [] byDep (dp_ID d))) out) ds out"

lemma weights_run_other:
  "\<forall>d \<in> set ds. y \<notin> set (mget0 [] byDep (dp_ID d)) \<Longrightarrow> mget0 z (weights_run ds ros to byDep out) y = mget0 z out y"
proof (induction ds arbitrary: out)
  case (Cons d ds)
  then show ?case unfolding weights_run_def by (auto simp: set_weights_other split: option.splits)
qed (simp add: weights_run_def)

lemma canary_weight_nth:
  assumes ids: "distinct (map dp_ID ds)" and d: "d \<in> set ds" "canary_share ros to d = Some share"
    and disj: "\<And>d' x. d' \<in> set ds \<Longrightarrow> d' \<noteq> d \<Longrightarrow> x \<in> set (mget0 [] byDep (dp_ID d)) \<Longrightarrow> x \<notin> set (mget0 [] byDep (dp_ID d'))"
    and xs: "xs = sort (mget0 [] byDep (dp_ID d))" "distinct xs" "j < length xs"
  shows "mget0 z (deriveCanaryWeights ds ros to byDep) (xs ! j) = share_weight share (length xs) j"
proof -
  from d(1) obtain as bs where ds: "ds = as @ d # bs" by (metis split_list)
  have x: "xs ! j \<in> set (mget0 [] byDep (dp_ID d))" using xs by (metis nth_mem set_sort)
  have bs: "\<forall>d' \<in> set bs. xs ! j \<notin> set (mget0 [] byDep (dp_ID d'))"
  proof
    fix d' assume d': "d' \<in> set bs"
    then have "d' \<noteq> d" using ids ds by auto
    then show "xs ! j \<notin> set (mget0 [] byDep (dp_ID d'))" using disj x d' ds by auto
  qed
  have "deriveCanaryWeights ds ros to byDep = weights_run bs ros to byDep (set_weights share xs (weights_run as ros to byDep []))"
    using d(2) xs(1) by (simp add: deriveCanaryWeights_def weights_run_def ds)
  then show ?thesis using weights_run_other [OF bs] set_weights_nth [OF xs(2,3)] by simp
qed

lemma publishableByDep_get:
  "mget0 [] (publishableByDep i ix cuts) d = map m_ID (filter (\<lambda>m. m_DeploymentID m = d) (filter (publishable i ix cuts) (in_Machines i)))"
proof -
  have "mget0 [] (fold (\<lambda>m acc. if P m then mset_at (m_DeploymentID m) (mget0 [] acc (m_DeploymentID m) @ [m_ID m]) acc else acc) ms acc0) d =
     mget0 [] acc0 d @ map m_ID (filter (\<lambda>m. m_DeploymentID m = d) (filter P ms))" for P and ms :: "Machine list" and acc0
    by (induction ms arbitrary: acc0) auto
  then show ?thesis by (simp add: publishableByDep_def)
qed

lemma canary_share_range: "canary_share ros to d = Some share \<Longrightarrow> 0 < share \<and> share < 100"
  by (auto simp: canary_share_def NormalizeCanaryWeight_def Let_def split: option.splits if_splits)

definition deployed :: "Input \<Rightarrow> Deployment \<Rightarrow> Machine list" where
  "deployed i d = filter (\<lambda>m. m_DeploymentID m = dp_ID d) (published_machines i)"

lemma published_distinct: "rows_distinct i \<Longrightarrow> distinct (map m_ID (published_machines i))"
  by (simp add: rows_distinct_def published_machines_def Let_def distinct_map_filter)

text \<open>The weight of a published machine, by its position among the sorted machine ids of its deployment.\<close>

lemma published_canary_weight:
  assumes rows: "rows_distinct i" and ds: "distinct (map dp_ID (in_Deployments i))" "d \<in> set (in_Deployments i)"
    and share: "canary_share (ix_rollout (build_index i)) (ix_toDep (build_index i)) d = Some share"
    and xs: "xs = sort (map m_ID (deployed i d))" "j < length xs"
  shows "weightOrDefault (weights_of i) (xs ! j) = share_weight share (length xs) j"
proof -
  define ix where "ix = build_index i"
  define byDep where "byDep = publishableByDep i ix (cutOrdinals ix (in_Machines i))"
  have by_dep: "mget0 [] byDep k = map m_ID (filter (\<lambda>m. m_DeploymentID m = k) (published_machines i))" for k
    by (simp add: byDep_def publishableByDep_get published_machines_def ix_def Let_def)
  have pm: "distinct (map m_ID (published_machines i))" by (rule published_distinct [OF rows])
  then have inj: "inj_on m_ID (set (published_machines i))" by (simp add: distinct_map)
  have "mget0 0 (deriveCanaryWeights (in_Deployments i) (ix_rollout ix) (ix_toDep ix) byDep) (xs ! j) = share_weight share (length xs) j"
  proof (rule canary_weight_nth [OF ds share [folded ix_def]])
    show "xs = sort (mget0 [] byDep (dp_ID d))" "distinct xs"
      using pm by (simp_all add: xs deployed_def by_dep distinct_map_filter)
    show "x \<notin> set (mget0 [] byDep (dp_ID d'))" if "d' \<in> set (in_Deployments i)" "d' \<noteq> d" "x \<in> set (mget0 [] byDep (dp_ID d))" for d' x
    proof -
      have "dp_ID d' \<noteq> dp_ID d" using that(1,2) ds by (metis distinct_map inj_onD)
      then show ?thesis using that(3) inj by (auto simp: by_dep inj_on_def)
    qed
  qed (rule xs(2))
  moreover have "0 < share_weight share (length xs) j" by (simp add: share_weight_def Let_def)
  ultimately show ?thesis by (simp add: weightOrDefault_def weights_of_def Let_def ix_def byDep_def)
qed

lemma sum_list_sorted_ids: "(\<Sum>m\<leftarrow>ms. f (m_ID m)) = (\<Sum>x\<leftarrow>sort (map m_ID ms). (f x :: int))"
proof -
  have "mset (map f (sort (map m_ID ms))) = mset (map f (map m_ID ms))" by (simp add: multiset.map_comp)
  then have "sum_list (map f (sort (map m_ID ms))) = sum_list (map f (map m_ID ms))" by (metis sum_mset_sum_list)
  then show ?thesis by (simp add: comp_def)
qed

text \<open>While a rollout with a canary weight is being prepared, the weights of the published machines of
  each of its two deployments differ by at most one and add up to the share of the
  deployment (the canary weight, or what it leaves of 100), or to the number of its machines when the
  deployment has more machines than its share: then the share is exceeded.
\<close>

lemma canary_shares:
  assumes "rows_distinct i" "distinct (map dp_ID (in_Deployments i))" "d \<in> set (in_Deployments i)"
    and share: "canary_share (ix_rollout (build_index i)) (ix_toDep (build_index i)) d = Some share"
    and "deployed i d \<noteq> []"
  shows "(\<Sum>m\<leftarrow>deployed i d. weightOrDefault (weights_of i) (m_ID m)) = max share (int (length (deployed i d))) \<and>
    (\<forall>m \<in> set (deployed i d). \<forall>m' \<in> set (deployed i d).
       weightOrDefault (weights_of i) (m_ID m) \<le> weightOrDefault (weights_of i) (m_ID m') + 1)"
proof -
  define xs where "xs = sort (map m_ID (deployed i d))"
  have n: "length xs = length (deployed i d)" "0 < length xs" using assms(5) by (simp_all add: xs_def)
  note w = published_canary_weight [OF assms(1-3) share xs_def]
  have "(\<Sum>x\<leftarrow>xs. weightOrDefault (weights_of i) x) = (\<Sum>j<length xs. share_weight share (length xs) j)"
    using w by (simp add: sum_list_sum_nth atLeast0LessThan)
  also have "\<dots> = max share (int (length xs))" using share_weight_sum [OF n(2)] canary_share_range [OF share] by simp
  finally have sums: "(\<Sum>m\<leftarrow>deployed i d. weightOrDefault (weights_of i) (m_ID m)) = max share (int (length (deployed i d)))"
    using sum_list_sorted_ids [of "weightOrDefault (weights_of i)" "deployed i d"] n(1) by (simp add: xs_def)
  have step: "weightOrDefault (weights_of i) x \<le> weightOrDefault (weights_of i) y + 1" if "x \<in> set xs" "y \<in> set xs" for x y
    using that w by (auto simp: in_set_conv_nth share_weight_def Let_def)
  show ?thesis using sums step by (auto simp: xs_def)
qed

section \<open>Rolling rollouts\<close>

lemma index_get:
  fixes ix :: index
  defines "ix' ds \<equiv> fold index_deployment ds ix"
  shows "ix_rollout (ix' ds) = ix_rollout ix"
    and "distinct (map dp_ID ds) \<Longrightarrow> d \<in> set ds \<Longrightarrow> mget (ix_gen (ix' ds)) (dp_ID d) = Some (dp_Generation d)"
    and "mget (ix_toDep (ix' ds)) app = Some k \<Longrightarrow> mget (ix_toDep ix) app = Some k \<or>
      (\<exists>d \<in> set ds. \<exists>r. k = dp_ID d \<and> dp_AppID d = app \<and> mget (ix_rollout ix) app = Some r \<and> dp_Generation d = ro_ToGeneration r)"
proof -
  have ro: "ix_rollout (fold index_deployment ds ix) = ix_rollout ix" for ds and ix :: index
    by (induction ds arbitrary: ix) (auto simp: index_deployment_def)
  show "ix_rollout (ix' ds) = ix_rollout ix" by (simp add: ix'_def ro)
  have other: "k \<notin> dp_ID ` set ds \<Longrightarrow> mget (ix_gen (fold index_deployment ds ix)) k = mget (ix_gen ix) k" for ds k and ix :: index
    by (induction ds arbitrary: ix) (auto simp: index_deployment_def)
  have "distinct (map dp_ID ds) \<Longrightarrow> d \<in> set ds \<Longrightarrow> mget (ix_gen (fold index_deployment ds ix)) (dp_ID d) = Some (dp_Generation d)" for ix :: index
    by (induction ds arbitrary: ix) (auto simp: other index_deployment_def)
  then show "distinct (map dp_ID ds) \<Longrightarrow> d \<in> set ds \<Longrightarrow> mget (ix_gen (ix' ds)) (dp_ID d) = Some (dp_Generation d)"
    by (simp add: ix'_def)
  have "mget (ix_toDep (fold index_deployment ds ix)) app = Some k \<Longrightarrow> mget (ix_toDep ix) app = Some k \<or>
      (\<exists>d \<in> set ds. \<exists>r. k = dp_ID d \<and> dp_AppID d = app \<and> mget (ix_rollout ix) app = Some r \<and> dp_Generation d = ro_ToGeneration r)" for ix :: index
  proof (induction ds arbitrary: ix)
    case (Cons d ds)
    from Cons.IH [of "index_deployment d ix"] Cons.prems
    consider "mget (ix_toDep (index_deployment d ix)) app = Some k"
      | "\<exists>d' \<in> set ds. \<exists>r. k = dp_ID d' \<and> dp_AppID d' = app \<and> mget (ix_rollout ix) app = Some r \<and> dp_Generation d' = ro_ToGeneration r"
      by (auto simp: index_deployment_def)
    then show ?case by cases (auto simp: index_deployment_def split: option.splits if_splits)
  qed simp
  then show "mget (ix_toDep (ix' ds)) app = Some k \<Longrightarrow> mget (ix_toDep ix) app = Some k \<or>
      (\<exists>d \<in> set ds. \<exists>r. k = dp_ID d \<and> dp_AppID d = app \<and> mget (ix_rollout ix) app = Some r \<and> dp_Generation d = ro_ToGeneration r)"
    by (simp add: ix'_def)
qed

text \<open>The target of an application's rollout has the rollout's generation.\<close>

lemma toDep_generation:
  assumes "distinct (map dp_ID (in_Deployments i))" "mget (ix_toDep (build_index i)) app = Some k"
    and "mget (ix_rollout (build_index i)) app = Some r"
  shows "mget0 0 (ix_gen (build_index i)) k = ro_ToGeneration r"
proof -
  define ix0 where "ix0 = \<lparr>ix_rollout = rolloutByApp (in_Rollouts i), ix_gen = [], ix_services = [], ix_strategy = [], ix_status = [], ix_toDep = []\<rparr>"
  have ix: "build_index i = fold index_deployment (in_Deployments i) ix0" by (simp add: build_index_def ix0_def)
  have e: "ix_toDep ix0 = []" by (simp add: ix0_def)
  from index_get(3) [where app = app and ds = "in_Deployments i" and ix = ix0 and k = k] assms(2) obtain d r' where
    d: "d \<in> set (in_Deployments i)" "k = dp_ID d" "mget (ix_rollout ix0) app = Some r'" "dp_Generation d = ro_ToGeneration r'"
    unfolding ix by (auto simp: e)
  moreover have "r' = r" using d(3) assms(3) index_get(1) [where ds = "in_Deployments i" and ix = ix0] unfolding ix by simp
  ultimately show ?thesis using index_get(2) [OF assms(1) d(1), where ix = ix0] by (simp add: ix mget0_def)
qed

definition rolling_rollout :: "index \<Rightarrow> string \<Rightarrow> Rollout \<Rightarrow> bool" where
  "rolling_rollout ix app r \<longleftrightarrow> mget (ix_rollout ix) app = Some r \<and> (ro_Status r = ''PREPARING'' \<or> ro_Status r = ''PAUSED_FOR_APPROVAL'') \<and>
     mget (ix_toDep ix) app \<noteq> None \<and> mget0 '''' (ix_strategy ix) (toDep ix app) = ''rolling''"

definition machine_generation :: "index \<Rightarrow> Machine \<Rightarrow> int" where
  "machine_generation ix m = mget0 0 (ix_gen ix) (m_DeploymentID m)"

definition live_deployment :: "index \<Rightarrow> string \<Rightarrow> bool" where
  "live_deployment ix d \<longleftrightarrow> \<not> terminal_deployment (mget0 '''' (ix_status ix) d)"

lemma drainingOf_rolling:
  "rolling_rollout ix (m_AppID m) r \<Longrightarrow>
     drainingOf ix cuts m \<longleftrightarrow> \<not> live_deployment ix (m_DeploymentID m) \<or>
       ((machine_generation ix m = ro_ToGeneration r) \<longleftrightarrow> (m_AppID m, m_ReplicaOrdinal m) \<notin> set cuts)"
  by (auto simp: drainingOf_def rolling_rollout_def live_deployment_def machine_generation_def Let_def)

lemma published_iff:
  "m \<in> set (published_machines i) \<longleftrightarrow>
     m \<in> set (in_Machines i) \<and> publishable i (build_index i) (cutOrdinals (build_index i) (in_Machines i)) m"
  by (simp add: published_machines_def Let_def)

lemma rolling_exclusive:
  assumes "rolling_rollout (build_index i) app r" "m \<in> set (published_machines i)" "m' \<in> set (published_machines i)"
    "m_AppID m = app" "m_AppID m' = app" "m_ReplicaOrdinal m = m_ReplicaOrdinal m'"
  shows "(machine_generation (build_index i) m = ro_ToGeneration r) = (machine_generation (build_index i) m' = ro_ToGeneration r)"
  using assms drainingOf_rolling [of "build_index i" m r] drainingOf_rolling [of "build_index i" m' r]
  by (auto simp: published_iff publishable_def)

lemma rolling_no_gap:
  assumes ds: "distinct (map dp_ID (in_Deployments i))" and roll: "rolling_rollout (build_index i) app r"
    and old: "old \<in> set (in_Machines i)" "m_AppID old = app" "machineServing old" "proxyOf i old \<noteq> ''''"
      "machine_generation (build_index i) old \<noteq> ro_ToGeneration r"
    and live: "live_deployment (build_index i) (m_DeploymentID old)" "live_deployment (build_index i) (toDep (build_index i) app)"
    and proxied: "\<forall>new \<in> set (in_Machines i). m_DeploymentID new = toDep (build_index i) app \<and> machineServing new \<longrightarrow> proxyOf i new \<noteq> ''''"
  shows "\<exists>m \<in> set (published_machines i). m_AppID m = app \<and> m_ReplicaOrdinal m = m_ReplicaOrdinal old"
proof -
  define ix where "ix = build_index i"
  define cuts where "cuts = cutOrdinals ix (in_Machines i)"
  note drain = drainingOf_rolling [of ix _ r cuts] and pm = published_iff [of _ i, folded ix_def, folded cuts_def]
  note roll' = roll [folded ix_def] and live' = live [folded ix_def] and old' = old [folded ix_def] and proxied' = proxied [folded ix_def]
  show ?thesis
  proof (cases "(app, m_ReplicaOrdinal old) \<in> set cuts")
    case False
    then have "\<not> drainingOf ix cuts old" using drain [of old] roll' old' live' by simp
    then show ?thesis using old' by (auto simp: pm publishable_def)
  next
    case True
    then obtain new where new: "new \<in> set (in_Machines i)" "m_AppID new = app" "m_ReplicaOrdinal new = m_ReplicaOrdinal old"
      "m_DeploymentID new = toDep ix app" "machineServing new"
      by (auto simp: cuts_def cutOrdinals_def)
    from roll' obtain k where "mget (ix_toDep ix) app = Some k" by (auto simp: rolling_rollout_def)
    then have "machine_generation ix new = ro_ToGeneration r"
      using toDep_generation [OF ds, folded ix_def, of app k r] roll' new(4)
      by (simp add: rolling_rollout_def toDep_def mget0_def machine_generation_def)
    then have "\<not> drainingOf ix cuts new" using drain [of new] roll' new live' True by simp
    then show ?thesis using new proxied' by (auto simp: pm publishable_def)
  qed
qed

text \<open>Claim C20.
  A rolling rollout of an application that prepares or waits for approval. Suppose the target deployment is not in a terminal
  state and the node of each of its serving machines has a proxy endpoint (without the latter a replica can lose its backend, see
  \<open>rolling_gap_without_proxy\<close> below). Then the target generation and earlier ones never share a replica: of two published machines of the same
  replica either both are of the target generation or neither is. And no replica loses its backend to the rollout: whenever a serving
  machine of another generation exists for it, whose deployment is not terminal and whose node has a proxy endpoint,
  some machine of the replica is published.
\<close>

theorem rolling_replica_served:
  assumes "distinct (map dp_ID (in_Deployments i))" "rolling_rollout (build_index i) app r"
    and "live_deployment (build_index i) (toDep (build_index i) app)"
    and "\<forall>new \<in> set (in_Machines i). m_DeploymentID new = toDep (build_index i) app \<and> machineServing new \<longrightarrow> proxyOf i new \<noteq> ''''"
  shows "(\<forall>m \<in> set (published_machines i). \<forall>m' \<in> set (published_machines i).
       m_AppID m = app \<and> m_AppID m' = app \<and> m_ReplicaOrdinal m = m_ReplicaOrdinal m' \<longrightarrow>
       (machine_generation (build_index i) m = ro_ToGeneration r) = (machine_generation (build_index i) m' = ro_ToGeneration r)) \<and>
    (\<forall>old \<in> set (in_Machines i). m_AppID old = app \<and> machineServing old \<and> proxyOf i old \<noteq> '''' \<and>
       machine_generation (build_index i) old \<noteq> ro_ToGeneration r \<and> live_deployment (build_index i) (m_DeploymentID old) \<longrightarrow>
       (\<exists>m \<in> set (published_machines i). m_AppID m = app \<and> m_ReplicaOrdinal m = m_ReplicaOrdinal old))"
proof (intro conjI ballI impI)
  fix m m'
  assume "m \<in> set (published_machines i)" "m' \<in> set (published_machines i)"
    "m_AppID m = app \<and> m_AppID m' = app \<and> m_ReplicaOrdinal m = m_ReplicaOrdinal m'"
  then show "(machine_generation (build_index i) m = ro_ToGeneration r) = (machine_generation (build_index i) m' = ro_ToGeneration r)"
    using rolling_exclusive [OF assms(2), of m m'] by blast
next
  fix old
  assume "old \<in> set (in_Machines i)" "m_AppID old = app \<and> machineServing old \<and> proxyOf i old \<noteq> '''' \<and>
    machine_generation (build_index i) old \<noteq> ro_ToGeneration r \<and> live_deployment (build_index i) (m_DeploymentID old)"
  then show "\<exists>m \<in> set (published_machines i). m_AppID m = app \<and> m_ReplicaOrdinal m = m_ReplicaOrdinal old"
    using rolling_no_gap [OF assms(1,2), of old] assms(3,4) by blast
qed

section \<open>Examples\<close>

definition example_machine :: "string \<Rightarrow> string \<Rightarrow> int \<Rightarrow> string \<Rightarrow> Machine" where
  "example_machine mid dep ordinal readiness =
     \<lparr>m_ID = mid, m_AppID = ''a'', m_DeploymentID = dep, m_ReplicaOrdinal = ordinal, m_Hostname = ''h'', m_DesiredState = ''RUNNING'',
      m_Generation = 1, m_CurrentExecutionID = ''x'', m_IngressPort = 0, m_NodeID = ''n'', m_ObservedState = ''RUNNING'',
      m_ObservedReadiness = readiness, m_CreatedAt = 0\<rparr>"

definition example_deployment :: "string \<Rightarrow> int \<Rightarrow> Deployment" where
  "example_deployment d g =
     \<lparr>dp_ID = d, dp_AppID = ''a'', dp_Generation = g, dp_Port = 0, dp_Status = ''ACTIVE'',
      dp_Services = [\<lparr>sv_Name = ''web'', sv_InternalPort = 8, sv_MeshDirect = False\<rparr>], dp_Strategy = ''rolling''\<rparr>"

definition example_rollout :: Rollout where
  "example_rollout =
     \<lparr>ro_ID = ''r'', ro_AppID = ''a'', ro_FromGeneration = 1, ro_ToGeneration = 2, ro_Status = ''PREPARING'', ro_Failed = False,
      ro_CutoverAt = None, ro_DrainDeadline = None, ro_StartedAt = 0, ro_CompletedAt = None, ro_CanaryWeight = 3,
      ro_ApprovalRequired = False, ro_ApprovedBy = '''', ro_ApprovedAt = None\<rparr>"

text \<open>Replica 0 has a new machine that serves; the one of replica 1 does not serve yet.\<close>

definition example_input :: Input where
  "example_input =
     \<lparr>in_Machines = [example_machine ''m0'' ''d1'' 0 ''READY'', example_machine ''m1'' ''d1'' 1 ''READY'',
                     example_machine ''n0'' ''d2'' 0 ''READY'', example_machine ''n1'' ''d2'' 1 ''UNKNOWN''],
      in_Deployments = [example_deployment ''d1'' 1, example_deployment ''d2'' 2], in_Rollouts = [example_rollout],
      in_ProxyByNode = [(''n'', ''p'')], in_DefaultAppPort = 8, in_LegacyProxyAddr = '''', in_FabricByIdentity = []\<rparr>"

lemma example_published: "map m_ID (published_machines example_input) = [''m1'', ''n0'']"
  by code_simp

lemma canary_shares_witness:
  "(\<Sum>m\<leftarrow>deployed example_input (example_deployment ''d2'' 2). weightOrDefault (weights_of example_input) (m_ID m)) = 3"
proof -
  have "rows_distinct example_input" "distinct (map dp_ID (in_Deployments example_input))"
    "example_deployment ''d2'' 2 \<in> set (in_Deployments example_input)"
    "canary_share (ix_rollout (build_index example_input)) (ix_toDep (build_index example_input)) (example_deployment ''d2'' 2) = Some 3"
    "deployed example_input (example_deployment ''d2'' 2) \<noteq> []"
    by code_simp+
  from canary_shares [OF this] have "(\<Sum>m\<leftarrow>deployed example_input (example_deployment ''d2'' 2). weightOrDefault (weights_of example_input) (m_ID m)) =
      max 3 (int (length (deployed example_input (example_deployment ''d2'' 2))))" by blast
  moreover have "length (deployed example_input (example_deployment ''d2'' 2)) = 1" by code_simp
  ultimately show ?thesis by simp
qed

theorem rolling_replica_served_witness:
  "rolling_rollout (build_index example_input) ''a'' example_rollout \<and>
   (\<exists>m. m \<in> set (published_machines example_input) \<and> m_AppID m = ''a'' \<and> m_ReplicaOrdinal m = 0)"
proof -
  have pre: "distinct (map dp_ID (in_Deployments example_input))"
    "rolling_rollout (build_index example_input) ''a'' example_rollout"
    "live_deployment (build_index example_input) (toDep (build_index example_input) ''a'')"
    "\<forall>new \<in> set (in_Machines example_input). m_DeploymentID new = toDep (build_index example_input) ''a'' \<and> machineServing new \<longrightarrow>
       proxyOf example_input new \<noteq> ''''"
    by code_simp+
  have old: "example_machine ''m0'' ''d1'' 0 ''READY'' \<in> set (in_Machines example_input)"
    "m_AppID (example_machine ''m0'' ''d1'' 0 ''READY'') = ''a''" "machineServing (example_machine ''m0'' ''d1'' 0 ''READY'')"
    "proxyOf example_input (example_machine ''m0'' ''d1'' 0 ''READY'') \<noteq> ''''"
    "machine_generation (build_index example_input) (example_machine ''m0'' ''d1'' 0 ''READY'') \<noteq> ro_ToGeneration example_rollout"
    "live_deployment (build_index example_input) (m_DeploymentID (example_machine ''m0'' ''d1'' 0 ''READY''))"
    "m_ReplicaOrdinal (example_machine ''m0'' ''d1'' 0 ''READY'') = 0"
    by code_simp+
  show ?thesis using rolling_replica_served [OF pre] old pre(2) by metis
qed

text \<open>
  The condition on the proxy endpoint is needed: a new machine on a node without one takes the traffic of its
  replica from the old machine although it is not published itself.
\<close>

lemma rolling_gap_without_proxy:
  "published_machines (example_input\<lparr>in_Machines := [example_machine ''m0'' ''d1'' 0 ''READY'',
     (example_machine ''n0'' ''d2'' 0 ''READY'')\<lparr>m_NodeID := ''q''\<rparr>]\<rparr>) = []"
  by code_simp

end
