(* ===== verification/RoutePublication.thy ===== *)
theory RoutePublication
  imports RouteDerivation Inflight
begin

text \<open>
  The publication pipeline as a whole: machines, deployments and rollouts in PostgreSQL, the derived routes,
  the revisions, the Redis projection and the lookups of the edge. Several controllers may run rebuilds
  that overtake each other and fail anywhere; a rebuild that meets no failure makes the lookups
  return exactly what was derived.
\<close>

section \<open>Histories\<close>

definition revision_of :: "route_tables \<Rightarrow> string \<Rightarrow> int" where
  "revision_of t h = mget0 0 (tb_revisions t) h"

text \<open>
  The states that controllers and other writers reach. A publication may be late: its revision is one that
  some transaction allocated, so at most the present one. Deletions, DNS and mesh publications and
  expiry happen at any time.
\<close>

inductive pub_reach :: "route_tables \<Rightarrow> kv \<Rightarrow> bool" where
  start: "pub_reach \<lparr>tb_routes = [], tb_backends = [], tb_revisions = []\<rparr> []"
| sync: "pub_reach t kv \<Longrightarrow> pub_reach (snd (SyncRoutes tx active t)) kv"
| publish: "pub_reach t kv \<Longrightarrow> rv \<le> revision_of t h \<Longrightarrow> pub_reach t (cat_exec (Publish down h rv routes primary) kv)"
| other: "pub_reach t kv \<Longrightarrow> \<nexists>down h rv routes primary. op = Publish down h rv routes primary \<Longrightarrow> pub_reach t (cat_exec op kv)"

lemma upsert_route_revisions: "upsert_route r t = Some t' \<Longrightarrow> tb_revisions t' = tb_revisions t"
  by (auto simp: upsert_route_def Let_def split: option.splits)

lemma upsert_routes_revisions: "upsert_routes rs t = Some t' \<Longrightarrow> tb_revisions t' = tb_revisions t"
  by (induction rs t rule: upsert_routes.induct) (auto dest: upsert_route_revisions split: option.splits)

lemma delete_stale_revisions [simp]: "tb_revisions (delete_stale active t) = tb_revisions t"
  by (simp add: delete_stale_def Let_def)

lemma next_revision_eq: "\<forall>n. mget revs h = Some n \<longrightarrow> 0 \<le> n \<Longrightarrow> next_revision h revs = mget0 0 revs h + 1"
  by (auto simp: next_revision_def mget0_def split: option.splits)

lemma allocate_get:
  assumes "distinct hs"
  shows "mget0 0 (snd (allocate_revisions hs revs)) h = (if h \<in> set hs then next_revision h revs else mget0 0 revs h)"
    and "mget (fst (allocate_revisions hs revs)) h = (if h \<in> set hs then Some (next_revision h revs) else None)"
proof -
  have "mget0 0 (snd (fold allocate_revision hs (out, revs))) h = (if h \<in> set hs then next_revision h revs else mget0 0 revs h) \<and>
        mget (fst (fold allocate_revision hs (out, revs))) h = (if h \<in> set hs then Some (next_revision h revs) else mget out h)" for out
    using assms by (induction hs arbitrary: out revs) (auto simp: allocate_revision_def Let_def next_revision_def)
  from this [of "[]"] show
    "mget0 0 (snd (allocate_revisions hs revs)) h = (if h \<in> set hs then next_revision h revs else mget0 0 revs h)"
    "mget (fst (allocate_revisions hs revs)) h = (if h \<in> set hs then Some (next_revision h revs) else None)"
    by (simp_all add: allocate_revisions_def)
qed

lemma hosts_of: "distinct (hosts_of rs)" "set (hosts_of rs) = rr_Hostname ` set rs"
proof -
  have "distinct hs \<Longrightarrow> distinct (fold (\<lambda>r hs. if rr_Hostname r \<in> set hs then hs else hs @ [rr_Hostname r]) rs hs) \<and>
      set (fold (\<lambda>r hs. if rr_Hostname r \<in> set hs then hs else hs @ [rr_Hostname r]) rs hs) = set hs \<union> rr_Hostname ` set rs" for hs
    by (induction rs arbitrary: hs) auto
  from this [of "[]"] show "distinct (hosts_of rs)" "set (hosts_of rs) = rr_Hostname ` set rs" by (simp_all add: hosts_of_def)
qed

text \<open>The revisions of the table are positive and only grow.\<close>

definition revisions_ok :: "route_tables \<Rightarrow> bool" where
  "revisions_ok t \<longleftrightarrow> (\<forall>h n. mget (tb_revisions t) h = Some n \<longrightarrow> 0 < n)"

lemma revisions_ok_next: "revisions_ok t \<Longrightarrow> next_revision h (tb_revisions t) = revision_of t h + 1"
  unfolding revision_of_def by (rule next_revision_eq) (auto simp: revisions_ok_def less_imp_le)

lemma SyncRoutes_cases:
  obtains e where "SyncRoutes tx active t = (Inl e, t)"
  | r t' where "SyncRoutes tx active t = (r, t')" "tb_revisions t' = snd (allocate_revisions (hosts_of active) (tb_revisions t))"
      "\<And>out. r = Inr out \<Longrightarrow> out = fst (allocate_revisions (hosts_of active) (tb_revisions t))"
proof (cases "upsert_routes active (delete_stale active t)")
  case None
  then show thesis by (intro that(1)) (simp add: SyncRoutes_def)
next
  case (Some t1)
  have rvs: "tb_revisions t1 = tb_revisions t" using upsert_routes_revisions [OF Some] by simp
  show thesis
  proof (cases "tx = TxFail")
    case True
    with Some show thesis by (intro that(1)) (simp add: SyncRoutes_def split: prod.splits)
  next
    case False
    with Some rvs show thesis
      by (intro that(2) [of "fst (SyncRoutes tx active t)" "snd (SyncRoutes tx active t)"])
        (auto simp: SyncRoutes_def Let_def split: prod.splits tx_end.splits)
  qed
qed

lemma SyncRoutes_revisions:
  assumes ok: "revisions_ok t"
  shows "revision_of t h \<le> revision_of (snd (SyncRoutes tx active t)) h"
    and "SyncRoutes tx active t = (Inr out, t') \<Longrightarrow>
      mget out h = (if h \<in> rr_Hostname ` set active then Some (revision_of t' h) else None) \<and>
      (h \<in> rr_Hostname ` set active \<longrightarrow> revision_of t' h = revision_of t h + 1)"
proof -
  note a = allocate_get [OF hosts_of(1)] and n = revisions_ok_next [OF ok]
  show "revision_of t h \<le> revision_of (snd (SyncRoutes tx active t)) h"
    by (rule SyncRoutes_cases [of tx active t]) (auto simp: revision_of_def a n)
  show "mget out h = (if h \<in> rr_Hostname ` set active then Some (revision_of t' h) else None) \<and>
      (h \<in> rr_Hostname ` set active \<longrightarrow> revision_of t' h = revision_of t h + 1)"
    if "SyncRoutes tx active t = (Inr out, t')"
    using that by (cases rule: SyncRoutes_cases [of tx active t]) (auto simp: revision_of_def a n hosts_of(2))
qed

lemma revisions_ok_sync:
  assumes ok: "revisions_ok t" shows "revisions_ok (snd (SyncRoutes tx active t))"
proof -
  define pos where "pos revs \<longleftrightarrow> (\<forall>h n. mget revs h = Some n \<longrightarrow> 0 < (n :: int))" for revs :: "(string, int) gomap"
  have step: "pos (snd s) \<Longrightarrow> pos (snd (allocate_revision h s))" for h s
    by (auto simp: pos_def allocate_revision_def next_revision_def Let_def split: prod.splits option.splits intro: less_imp_le)
  have "pos (snd s) \<Longrightarrow> pos (snd (fold allocate_revision hs s))" for hs s
    by (induction hs arbitrary: s) (simp_all add: step)
  from this [of "([], tb_revisions t)" "hosts_of active"] ok show ?thesis
    by (cases rule: SyncRoutes_cases [of tx active t]) (auto simp: revisions_ok_def pos_def allocate_revisions_def)
qed

text \<open>The catalogue never holds a revision that the table has not allocated.\<close>

lemma pub_reach_inv:
  "pub_reach t kv \<Longrightarrow> revisions_ok t \<and> (\<exists>ps. cat_ok ps kv \<and> (\<forall>h. top_rev h ps \<le> revision_of t h))"
proof (induction rule: pub_reach.induct)
  case start
  show ?case using cat_ok_empty by (fastforce simp: revisions_ok_def revision_of_def)
next
  case (sync t kv tx active)
  then show ?case using revisions_ok_sync SyncRoutes_revisions(1) by (meson order_trans)
next
  case (publish t kv rv h down routes primary)
  then obtain ps where ps: "cat_ok ps kv" "\<forall>h. top_rev h ps \<le> revision_of t h" by blast
  have "top_rev h' (attempted [Publish down h rv routes primary]) \<le> max 0 (if h' = h then rv else 0)" for h' by auto
  moreover have "0 \<le> revision_of t h'" for h' using ps(2) top_rev_nonneg order_trans by blast
  ultimately have "top_rev h' (ps @ attempted [Publish down h rv routes primary]) \<le> revision_of t h'" for h'
    using ps(2) publish.hyps(2) by (auto simp: max_def split: if_splits)
  then show ?case using publish.IH cat_exec_ok [OF ps(1)] by blast
next
  case (other t kv op)
  then obtain ps where ps: "cat_ok ps kv" "\<forall>h. top_rev h ps \<le> revision_of t h" by blast
  have "attempted [op] = []" using cat_exec_shrinks [OF ps(1) other.hyps(2)] by simp
  then show ?case using other.IH cat_exec_ok [OF ps(1), of op] ps(2) by (metis append_Nil2)
qed

section \<open>A rebuild without failures\<close>

definition host_route :: "RouteRow \<Rightarrow> HostRoute" where
  "host_route r = \<lparr>hr_Port = rr_Port r, hr_Route = converted r\<rparr>"

lemma hostRoutes_get:
  "mget0 [] (hostRoutes rs) h = map host_route (filter (\<lambda>r. rr_Hostname r = h) rs)"
  "gomap_ok (hostRoutes rs)" "fst ` set (hostRoutes rs) = rr_Hostname ` set rs"
proof -
  have "gomap_ok m \<Longrightarrow>
      (let m' = fold (\<lambda>r m. mset_at (rr_Hostname r) (mget0 [] m (rr_Hostname r) @ [\<lparr>hr_Port = rr_Port r, hr_Route = converted r\<rparr>]) m) rs m in
       mget0 [] m' h = mget0 [] m h @ map host_route (filter (\<lambda>r. rr_Hostname r = h) rs) \<and> gomap_ok m' \<and>
       dom (mget m') = dom (mget m) \<union> rr_Hostname ` set rs)" for m
    by (induction rs arbitrary: m) (auto simp: host_route_def Let_def)
  from this [of "[]"] show "mget0 [] (hostRoutes rs) h = map host_route (filter (\<lambda>r. rr_Hostname r = h) rs)"
    "gomap_ok (hostRoutes rs)" "fst ` set (hostRoutes rs) = rr_Hostname ` set rs"
    by (auto simp: hostRoutes_def Let_def dom_map_of_conv_image_fst)
qed

lemma bad_port_ok: "distinct (map hr_Port items) \<Longrightarrow> \<forall>i \<in> set items. 0 < hr_Port i \<and> hr_Port i \<notin> set seen \<Longrightarrow> bad_port seen items = None"
proof (induction items arbitrary: seen)
  case (Cons i items)
  have "\<forall>j \<in> set items. 0 < hr_Port j \<and> hr_Port j \<notin> set (hr_Port i # seen)" using Cons.prems by simp (metis imageI)
  with Cons show ?case by auto
qed simp

text \<open>Every host of the projection is published with well-formed routes.\<close>

lemma derived_well_formed:
  assumes ports: "ports_ok i" and h: "h \<in> rr_Hostname ` set (pj_Routes (Derive i))"
  shows "well_formed (mget0 [] (hostRoutes (pj_Routes (Derive i))) h) (mget0 0 (pj_PrimaryPorts (Derive i)) h)"
proof -
  let ?rs = "filter (\<lambda>r. rr_Hostname r = h) (pj_Routes (Derive i))"
  have dr: "r \<in> set ?rs \<Longrightarrow> derived_route i h (rr_Port r) = Some r" for r using routes_of_built [of r i] by auto
  have "distinct (map (\<lambda>r. (rr_Hostname r, rr_Port r)) ?rs)" using derived_routes_distinct [of i] by (rule distinct_map_filter)
  moreover have "map (\<lambda>r. (rr_Hostname r, rr_Port r)) ?rs = map (Pair h) (map rr_Port ?rs)" by (induction "pj_Routes (Derive i)") auto
  ultimately have "distinct (map rr_Port ?rs)" by (metis distinct_map)
  then have d: "distinct (map hr_Port (map host_route ?rs))" by (simp add: comp_def host_route_def)
  have "0 < rr_Port r" if "r \<in> set ?rs" for r using derived_primary(1) [OF ports, of h "rr_Port r"] dr [OF that] by simp
  then have bp: "bad_port [] (map host_route ?rs) = None" using bad_port_ok [OF d] by (auto simp: host_route_def)
  from h obtain r where r: "r \<in> set ?rs" by auto
  note prim = derived_primary(2,3) [OF ports, of h "rr_Port r"]
  obtain r' where r': "derived_route i h (mget0 0 (pj_PrimaryPorts (Derive i)) h) = Some r'" using prim(2) dr [OF r] by auto
  then have "r' \<in> set ?rs" "rr_Port r' = mget0 0 (pj_PrimaryPorts (Derive i)) h"
    using derived_routeD(1,2) [OF r'] routes_of_built [of r' i] by auto
  then have "mget0 0 (pj_PrimaryPorts (Derive i)) h \<in> hr_Port ` set (map host_route ?rs)" by (force simp: host_route_def)
  moreover have "map host_route ?rs \<noteq> []" using r by force
  ultimately show ?thesis using bp prim(1) dr [OF r] unfolding well_formed_def hostRoutes_get(1) by simp
qed

text \<open>All hosts are published: each key holds what its host was published with.\<close>

lemma publish_hosts_all:
  assumes "cat_ok ps kv" "distinct hs"
    and "\<And>h. h \<in> set hs \<Longrightarrow> well_formed (mget0 [] routes h) (mget0 0 primary h)"
    and "\<And>h. h \<in> set hs \<Longrightarrow> top_rev h ps < mget0 0 revs h"
  shows "\<exists>kv' ps'. publish_hosts (\<lambda>_. False) revs primary routes hs kv = (Inr (), kv') \<and> cat_ok ps' kv' \<and>
    (\<forall>h \<in> set hs. kv_get (hostIndexKey h) kv' = Some (PortsV (index_order (mget0 0 primary h) (mget0 [] routes h))) \<and>
       (\<forall>item \<in> set (mget0 [] routes h). kv_get (routeKey h (hr_Port item)) kv' = Some (RouteV (stamped (mget0 0 revs h) item)))) \<and>
    (\<forall>h. h \<notin> set hs \<longrightarrow> kv_get (hostIndexKey h) kv' = kv_get (hostIndexKey h) kv \<and>
       (\<forall>p. kv_get (routeKey h p) kv' = kv_get (routeKey h p) kv))"
  using assms
proof (induction hs arbitrary: ps kv)
  case (Cons h hs)
  define rv where "rv = mget0 0 revs h"
  define its where "its = mget0 [] routes h"
  define prim where "prim = mget0 0 primary h"
  have wf: "well_formed its prim" and new: "top_rev h ps < rv" using Cons.prems(3,4) [of h] by (simp_all add: rv_def its_def prim_def)
  have m: "mark_ok ps kv" using Cons.prems(1) by (simp add: cat_ok_def)
  define kv1 where "kv1 = published_kv h rv its prim kv"
  define ps1 where "ps1 = ps @ [(h, rv, its, prim)]"
  note get = published_kv_get [OF wf high_water_mark [OF m] new, folded kv1_def]
  have ok1: "cat_ok ps1 kv1" unfolding ps1_def kv1_def by (rule published_cat_ok [OF Cons.prems(1) wf new])
  have "top_rev h' ps1 < mget0 0 revs h'" if "h' \<in> set hs" for h'
  proof -
    have "h' \<noteq> h" "top_rev h' ps < mget0 0 revs h'" using Cons.prems(2) Cons.prems(4) [of h'] that by auto
    then show ?thesis using top_rev_nonneg [of h' ps] by (simp add: ps1_def)
  qed
  from Cons.IH [OF ok1 _ _ this] Cons.prems(2,3) obtain kv' ps' where
    tail: "publish_hosts (\<lambda>_. False) revs primary routes hs kv1 = (Inr (), kv')" "cat_ok ps' kv'"
    and pubs: "\<forall>h \<in> set hs. kv_get (hostIndexKey h) kv' = Some (PortsV (index_order (mget0 0 primary h) (mget0 [] routes h))) \<and>
       (\<forall>item \<in> set (mget0 [] routes h). kv_get (routeKey h (hr_Port item)) kv' = Some (RouteV (stamped (mget0 0 revs h) item)))"
    and rest: "\<forall>h. h \<notin> set hs \<longrightarrow> kv_get (hostIndexKey h) kv' = kv_get (hostIndexKey h) kv1 \<and>
       (\<forall>p. kv_get (routeKey h p) kv' = kv_get (routeKey h p) kv1)" by (simp; blast)
  have run: "publish_hosts (\<lambda>_. False) revs primary routes (h # hs) kv = (Inr (), kv')"
    using Replace_accepted [OF m wf new] tail(1) by (simp add: rv_def its_def prim_def kv1_def)
  have h: "h \<notin> set hs" using Cons.prems(2) by simp
  have "kv_get (hostIndexKey h) kv' = Some (PortsV (index_order prim its)) \<and>
      (\<forall>item \<in> set its. kv_get (routeKey h (hr_Port item)) kv' = Some (RouteV (stamped rv item)))"
    using rest h get(1,4) by simp
  moreover have "kv_get (hostIndexKey h') kv' = kv_get (hostIndexKey h') kv \<and> (\<forall>p. kv_get (routeKey h' p) kv' = kv_get (routeKey h' p) kv)"
    if "h' \<notin> set (h # hs)" for h' using that rest get(3,4) by simp
  ultimately show ?case using run tail(2) pubs unfolding rv_def its_def prim_def by (intro exI [of _ kv'] exI [of _ ps']) auto
qed (auto)

lemma insert_backends_ok:
  "distinct (map rb_MachineID bs) \<Longrightarrow> \<forall>(i, g, b) \<in> set rows. i = rid \<longrightarrow> rb_MachineID b \<notin> rb_MachineID ` set bs \<Longrightarrow>
     \<exists>rows'. insert_backends rid generation bs rows = Some rows'"
proof (induction bs arbitrary: rows)
  case (Cons b bs)
  have ins: "insert_backend rid generation b rows = Some (rows @ [(rid, generation, b\<lparr>rb_DeploymentGeneration := 0\<rparr>)])"
    using Cons.prems(2) by (fastforce simp: insert_backend_def)
  have "\<forall>(i, g, b') \<in> set (rows @ [(rid, generation, b\<lparr>rb_DeploymentGeneration := 0\<rparr>)]). i = rid \<longrightarrow> rb_MachineID b' \<notin> rb_MachineID ` set bs"
    using Cons.prems by auto
  from Cons.IH [OF _ this] Cons.prems(1) show ?case by (simp add: ins)
qed simp

lemma upsert_routes_ok:
  "\<forall>r \<in> set rs. distinct (map rb_MachineID (rr_Backends r)) \<Longrightarrow> \<exists>t'. upsert_routes rs t = Some t'"
proof (induction rs arbitrary: t)
  case (Cons r rs)
  have "\<exists>rows. insert_backends (row_id r) (rr_Generation r) (rr_Backends r) (filter (\<lambda>b. fst b \<noteq> row_id r) (tb_backends t)) = Some rows"
    using Cons.prems by (intro insert_backends_ok) auto
  then obtain t1 where "upsert_route r t = Some t1" by (auto simp: upsert_route_def Let_def)
  with Cons show ?case by simp
qed simp

text \<open>The transaction of a derived projection meets no constraint.\<close>

lemma derived_sync:
  assumes "rows_distinct i"
  obtains out t' where "SyncRoutes TxCommit (pj_Routes (Derive i)) t = (Inr out, t')"
proof -
  have "distinct (map rb_MachineID (rr_Backends r))" if "r \<in> set (pj_Routes (Derive i))" for r
  proof -
    have "mset (map rb_MachineID (rr_Backends r)) = mset (map rb_MachineID (members i (rr_Hostname r) (rr_Port r)))"
      using derived_routeD(3) [of i "rr_Hostname r" "rr_Port r" r] that routes_of_built [of r i] by simp
    then show ?thesis using members_distinct [OF assms] mset_eq_imp_distinct_iff by metis
  qed
  with upsert_routes_ok obtain t1 where "upsert_routes (pj_Routes (Derive i)) (delete_stale (pj_Routes (Derive i)) t) = Some t1" by blast
  moreover obtain out revs where "allocate_revisions (hosts_of (pj_Routes (Derive i))) (tb_revisions t1) = (out, revs)"
    by (metis surj_pair)
  ultimately show thesis by (intro that) (simp add: SyncRoutes_def)
qed

lemma hostIndexKey_drop: "drop (length ''hostidx:'') (hostIndexKey h) = h"
  by (simp add: hostIndexKey_def)

lemma route_prefixes [simp]:
  "HasPrefix (routeKey h p) ''route:''" "\<not> HasPrefix (routeKey h p) ''hostidx:''"
  "HasPrefix (hostIndexKey h) ''hostidx:''" "\<not> HasPrefix (hostIndexKey h) ''route:''"
  by (auto simp: routeKey_def hostIndexKey_def HasPrefix_iff)

lemma PruneRoutes_get:
  obtains kv' where "PruneRoutes (\<lambda>_. False) keepRoutes keepHosts kv = (Inr (), kv')"
    "\<And>h p. kv_get (routeKey h p) kv' = (if routeKey h p \<in> set keepRoutes then kv_get (routeKey h p) kv else None)"
    "\<And>h. kv_get (hostIndexKey h) kv' = (if h \<in> set keepHosts then kv_get (hostIndexKey h) kv else None)"
proof -
  let ?kv' = "kv_del (stale_hosts keepHosts kv) (kv_del (stale_routes keepRoutes kv) kv)"
  have "kv_get (routeKey h p) ?kv' = (if routeKey h p \<in> set keepRoutes then kv_get (routeKey h p) kv else None)" for h p
    by (auto simp: stale_hosts_def stale_routes_def kv_scan_iff)
  moreover have "kv_get (hostIndexKey h) ?kv' = (if h \<in> set keepHosts then kv_get (hostIndexKey h) kv else None)" for h
    unfolding stale_hosts_def stale_routes_def by (auto simp: kv_scan_iff hostIndexKey_drop simp del: list.size)
  ultimately show thesis by (intro that [of ?kv']) (simp_all add: PruneRoutes_def Let_def)
qed

lemma put_dns_ok: "\<forall>r \<in> set rs. dns_Name r \<noteq> [] \<and> dns_AAAA r \<noteq> [] \<Longrightarrow> fst (put_dns (\<lambda>_. False) n x rs kv) = None"
  by (induction rs arbitrary: n kv) auto

lemma derived_dns: "r \<in> set (pj_InternalDNS (Derive i)) \<Longrightarrow> dns_Name r \<noteq> [] \<and> dns_AAAA r \<noteq> []"
proof -
  assume "r \<in> set (pj_InternalDNS (Derive i))"
  then obtain n as where r: "(n, as) \<in> set (bd_dns (built i))" "dns_Name r = n" "dns_AAAA r = sort as"
    by (auto simp: Derive_built finish_building_def)
  have ok: "building_ok (built i)" by (rule building_ok_built)
  then have "mget (bd_dns (built i)) n = Some as" using r(1) by (simp add: building_ok_def gomap_ok_def)
  with ok have "n \<noteq> [] \<and> as \<noteq> []" unfolding building_ok_def by blast
  with r show ?thesis by (metis set_empty2 set_sort)
qed

text \<open>The publication of the names does not touch the routes.\<close>

lemma ReplaceInternalDNS_ok:
  assumes "0 < ttl" "\<forall>r \<in> set rs. dns_Name r \<noteq> [] \<and> dns_AAAA r \<noteq> []"
  obtains kv' where "ReplaceInternalDNS (\<lambda>_. False) now rs ttl kv = (Inr (), kv')"
    "\<And>h p. kv_get (routeKey h p) kv' = kv_get (routeKey h p) kv" "\<And>h. kv_get (hostIndexKey h) kv' = kv_get (hostIndexKey h) kv"
proof -
  have w: "confined ''dns:internal:'' kv (snd (ReplaceInternalDNS (\<lambda>_. False) now rs ttl kv))" by (rule confined_ReplaceInternalDNS)
  have "fst (ReplaceInternalDNS (\<lambda>_. False) now rs ttl kv) = Inr ()"
    using assms(1) put_dns_ok [OF assms(2), of 0 "now + ttl" kv] by (auto simp: ReplaceInternalDNS_def Let_def split: prod.splits option.splits)
  with w show thesis
    by (intro that [of "snd (ReplaceInternalDNS (\<lambda>_. False) now rs ttl kv)"]) (auto simp: confined_def kv_get_def prod_eq_iff)
qed

text \<open>What the lookups of the edge find for a derived projection at given revisions.\<close>

definition found_route :: "Input \<Rightarrow> (string \<Rightarrow> int) \<Rightarrow> string \<Rightarrow> int \<Rightarrow> Route option" where
  "found_route i rvs h p = map_option (\<lambda>r. (converted r)\<lparr>rt_Revision := rvs h\<rparr>) (derived_route i h p)"

definition serves_derived :: "Input \<Rightarrow> (string \<Rightarrow> int) \<Rightarrow> kv \<Rightarrow> bool" where
  "serves_derived i rvs kv \<longleftrightarrow>
     (\<forall>h p. GetRouteForPort (False, False) h p kv kv = Inr (found_route i rvs h p, derived_route i h p \<noteq> None)) \<and>
     (\<forall>h. GetRouteForHostname (False, False) h kv kv = Inr (found_route i rvs h (mget0 0 (pj_PrimaryPorts (Derive i)) h)))"

lemma stamped_host_route: "stamped rv (host_route r) = (converted r)\<lparr>rt_Revision := rv\<rparr>"
  by (simp add: stamped_def host_route_def)

lemma derived_mem: "derived_route i h p = Some r \<longleftrightarrow> r \<in> set (pj_Routes (Derive i)) \<and> rr_Hostname r = h \<and> rr_Port r = p"
  using routes_of_built [of r i] derived_routeD(1,2) [of i h p r] by auto

lemma derived_hosts: "h \<in> rr_Hostname ` set (pj_Routes (Derive i)) \<longleftrightarrow> (\<exists>p. derived_route i h p \<noteq> None)"
  unfolding not_None_eq derived_mem by blast

lemma derived_ports: "rr_Port ` {r \<in> set (pj_Routes (Derive i)). rr_Hostname r = h} = {p. derived_route i h p \<noteq> None}"
  unfolding not_None_eq derived_mem by blast

lemma published_serves:
  assumes ports: "ports_ok i"
    and idx: "\<And>h. kv_get (hostIndexKey h) kv =
      (if h \<in> rr_Hostname ` set (pj_Routes (Derive i))
       then Some (PortsV (index_order (mget0 0 (pj_PrimaryPorts (Derive i)) h) (mget0 [] (hostRoutes (pj_Routes (Derive i))) h))) else None)"
    and routes: "\<And>h p. derived_route i h p \<noteq> None \<Longrightarrow> kv_get (routeKey h p) kv = map_option RouteV (found_route i rvs h p)"
  shows "serves_derived i rvs kv"
proof -
  let ?hosts = "rr_Hostname ` set (pj_Routes (Derive i))"
  let ?prim = "\<lambda>h. mget0 0 (pj_PrimaryPorts (Derive i)) h"
  have items: "hr_Port ` set (mget0 [] (hostRoutes (pj_Routes (Derive i))) h) = {p. derived_route i h p \<noteq> None}" for h
  proof -
    have "hr_Port ` set (mget0 [] (hostRoutes (pj_Routes (Derive i))) h) = rr_Port ` {r \<in> set (pj_Routes (Derive i)). rr_Hostname r = h}"
      by (simp add: hostRoutes_get(1) image_image host_route_def)
    also have "\<dots> = {p. derived_route i h p \<noteq> None}" by (rule derived_ports)
    finally show ?thesis .
  qed
  have ports_of: "HostPorts False h kv = Inr (if h \<in> ?hosts then index_order (?prim h) (mget0 [] (hostRoutes (pj_Routes (Derive i))) h) else [])" for h
    by (simp add: HostPorts_def idx parsePorts_def)
  have set_ports: "h \<in> ?hosts \<Longrightarrow> set (index_order (?prim h) (mget0 [] (hostRoutes (pj_Routes (Derive i))) h)) = {p. derived_route i h p \<noteq> None}" for h
    using set_index_order derived_well_formed [OF ports] items unfolding well_formed_def by metis
  have get: "derived_route i h p \<noteq> None \<Longrightarrow> GetRoute False h p kv = Inr (found_route i rvs h p)" for h p
    using routes [of h p] by (auto simp: GetRoute_def found_route_def)
  have "GetRouteForPort (False, False) h p kv kv = Inr (found_route i rvs h p, derived_route i h p \<noteq> None)" for h p
  proof (cases "derived_route i h p")
    case None
    then show ?thesis using set_ports [of h] by (auto simp: GetRouteForPort_def ports_of found_route_def)
  next
    case (Some r)
    then have "h \<in> ?hosts" using derived_hosts by blast
    with Some get [of h p] set_ports show ?thesis by (simp add: GetRouteForPort_def ports_of)
  qed
  moreover have "GetRouteForHostname (False, False) h kv kv = Inr (found_route i rvs h (?prim h))" for h
  proof (cases "h \<in> ?hosts")
    case True
    then obtain p where "derived_route i h p \<noteq> None" using derived_hosts by blast
    then have "derived_route i h (?prim h) \<noteq> None" by (rule derived_primary(3) [OF ports])
    with True get show ?thesis by (simp add: GetRouteForHostname_def ports_of index_order_def)
  next
    case False
    then have "derived_route i h (?prim h) = None" using derived_hosts by blast
    with False show ?thesis by (simp add: GetRouteForHostname_def ports_of found_route_def)
  qed
  ultimately show ?thesis by (simp add: serves_derived_def)
qed

lemma publishRedis_serves:
  assumes cat: "cat_ok ps kv" and ports: "ports_ok i"
    and revs: "\<And>h. h \<in> rr_Hostname ` set (pj_Routes (Derive i)) \<Longrightarrow> top_rev h ps < mget0 0 revs h"
  obtains kv' where "publishRedis (\<lambda>_. False) (\<lambda>_. False) (Derive i) revs kv = (Inr (), kv')" "serves_derived i (mget0 0 revs) kv'"
    "\<And>kv''. (\<And>h p. kv_get (routeKey h p) kv'' = kv_get (routeKey h p) kv') \<Longrightarrow>
       (\<And>h. kv_get (hostIndexKey h) kv'' = kv_get (hostIndexKey h) kv') \<Longrightarrow> serves_derived i (mget0 0 revs) kv''"
proof -
  let ?pj = "Derive i" and ?hr = "hostRoutes (pj_Routes (Derive i))"
  let ?hosts = "sort (map fst ?hr)"
  have hosts: "distinct ?hosts" "set ?hosts = rr_Hostname ` set (pj_Routes ?pj)"
    using hostRoutes_get(2,3) [of "pj_Routes ?pj"] by (simp_all add: gomap_ok_def)
  from publish_hosts_all [OF cat hosts(1), of ?hr "pj_PrimaryPorts ?pj" revs] derived_well_formed [OF ports] revs hosts(2)
  obtain kv1 where run: "publish_hosts (\<lambda>_. False) revs (pj_PrimaryPorts ?pj) ?hr ?hosts kv = (Inr (), kv1)"
    and held: "\<And>h. h \<in> rr_Hostname ` set (pj_Routes ?pj) \<Longrightarrow>
        kv_get (hostIndexKey h) kv1 = Some (PortsV (index_order (mget0 0 (pj_PrimaryPorts ?pj) h) (mget0 [] ?hr h)))"
      "\<And>h item. h \<in> rr_Hostname ` set (pj_Routes ?pj) \<Longrightarrow> item \<in> set (mget0 [] ?hr h) \<Longrightarrow>
        kv_get (routeKey h (hr_Port item)) kv1 = Some (RouteV (stamped (mget0 0 revs h) item))"
    by (smt (verit))
  obtain kv' where prune: "PruneRoutes (\<lambda>_. False) (map (\<lambda>r. routeKey (rr_Hostname r) (rr_Port r)) (pj_Routes ?pj)) (map rr_Hostname (pj_Routes ?pj)) kv1 = (Inr (), kv')"
    and rk: "\<And>h p. kv_get (routeKey h p) kv' =
      (if routeKey h p \<in> set (map (\<lambda>r. routeKey (rr_Hostname r) (rr_Port r)) (pj_Routes ?pj)) then kv_get (routeKey h p) kv1 else None)"
    and hk: "\<And>h. kv_get (hostIndexKey h) kv' = (if h \<in> set (map rr_Hostname (pj_Routes ?pj)) then kv_get (hostIndexKey h) kv1 else None)"
    using PruneRoutes_get by blast
  have idx: "kv_get (hostIndexKey h) kv' = (if h \<in> rr_Hostname ` set (pj_Routes ?pj)
      then Some (PortsV (index_order (mget0 0 (pj_PrimaryPorts ?pj) h) (mget0 [] ?hr h))) else None)" for h
    by (simp add: hk held(1))
  have routes: "kv_get (routeKey h p) kv' = map_option RouteV (found_route i (mget0 0 revs) h p)" if "derived_route i h p \<noteq> None" for h p
  proof -
    from that obtain r where r: "derived_route i h p = Some r" by blast
    have mem: "r \<in> set (pj_Routes ?pj)" and key: "rr_Hostname r = h" "rr_Port r = p"
      using routes_of_built [of r i] derived_routeD(1,2) [OF r] r by auto
    have "host_route r \<in> set (mget0 [] ?hr h)" using mem key by (auto simp: hostRoutes_get(1))
    with held(2) [of h "host_route r"] mem key have "kv_get (routeKey h p) kv1 = Some (RouteV (stamped (mget0 0 revs h) (host_route r)))"
      by (auto simp: host_route_def)
    then show ?thesis using mem key by (auto simp: rk r found_route_def stamped_host_route)
  qed
  show thesis
  proof (rule that [of kv'])
    show "publishRedis (\<lambda>_. False) (\<lambda>_. False) ?pj revs kv = (Inr (), kv')" by (simp add: publishRedis_def Let_def run prune)
    show s: "serves_derived i (mget0 0 revs) kv''"
      if "\<And>h p. kv_get (routeKey h p) kv'' = kv_get (routeKey h p) kv'" "\<And>h. kv_get (hostIndexKey h) kv'' = kv_get (hostIndexKey h) kv'" for kv''
      by (rule published_serves [OF ports]) (use that idx routes in \<open>simp_all del: not_None_eq\<close>)
    show "serves_derived i (mget0 0 revs) kv'" by (rule s) simp_all
  qed
qed

section \<open>Any rebuild, and one without failures\<close>

lemma publish_hosts_reach:
  "pub_reach t kv \<Longrightarrow> \<forall>h. mget0 0 revs h \<le> revision_of t h \<Longrightarrow> pub_reach t (snd (publish_hosts down revs primary routes hs kv))"
proof (induction hs arbitrary: down kv)
  case (Cons h hs)
  have "pub_reach t (snd (ReplaceHostRoutes (down 0) h (mget0 0 revs h) (mget0 [] routes h) (mget0 0 primary h) kv))"
    using pub_reach.publish [OF Cons.prems(1), of "mget0 0 revs h" h "down 0"] Cons.prems(2) by simp
  then show ?case using Cons.IH Cons.prems(2) by (auto split: prod.splits sum.splits)
qed simp

lemma deletion_reach:
  assumes "pub_reach t kv" "\<And>k. k \<in> set ks \<Longrightarrow> projection_key k" shows "pub_reach t (kv_del ks kv)"
  using pub_reach.other [OF assms(1), of "DelScanned ks"] assms(2) by (simp add: filter_True)

lemma PruneRoutes_reach:
  assumes "pub_reach t kv" shows "pub_reach t (snd (PruneRoutes fails keepRoutes keepHosts kv))"
proof -
  have "pub_reach t (kv_del (stale_routes keepRoutes kv) kv)"
    by (rule deletion_reach [OF assms]) (auto simp: stale_routes_def kv_scan_iff projection_key_def)
  moreover from this have "pub_reach t (kv_del (stale_hosts keepHosts kv) (kv_del (stale_routes keepRoutes kv) kv))"
    by (rule deletion_reach) (auto simp: stale_hosts_def kv_scan_iff projection_key_def)
  ultimately show ?thesis using assms by (auto simp: PruneRoutes_def Let_def)
qed

lemma publishAll_reach:
  assumes "pub_reach t kv" "\<forall>h. mget0 0 revs h \<le> revision_of t h"
  shows "pub_reach t (snd (publishAll env p pj revs kv))"
proof -
  have "pub_reach t (snd (publishRedis (re_down env) (re_pruneFails env) pj revs kv))" (is "pub_reach t (snd ?r)")
  proof -
    let ?h = "publish_hosts (re_down env) revs (pj_PrimaryPorts pj) (hostRoutes (pj_Routes pj)) (sort (map fst (hostRoutes (pj_Routes pj)))) kv"
    have "pub_reach t (snd ?h)" by (rule publish_hosts_reach [OF assms])
    with PruneRoutes_reach [OF this] show ?thesis by (auto simp: publishRedis_def Let_def split: prod.split sum.split)
  qed
  moreover from pub_reach.other [OF this, of "PublishDNS (re_dnsFails env) (re_now env) (pj_InternalDNS pj) (pb_dnsStaleWindow p)"]
  have "pub_reach t (snd (publishInternalDNS (re_dnsFails env) (re_now env) p pj (snd ?r)))" by (simp add: publishInternalDNS_def)
  ultimately show ?thesis by (auto simp: publishAll_def split: prod.splits sum.splits)
qed

text \<open>A rebuild, whatever fails in it, is a history.\<close>

lemma Rebuild_reach:
  assumes "pub_reach t kv" "Rebuild env p (t, kv) = (res, t', kv')" shows "pub_reach t' kv'"
proof (cases "load_input env p")
  case (Inl e)
  with assms show ?thesis by (simp add: Rebuild_def)
next
  case (Inr i)
  let ?s = "SyncRoutes (re_tx env) (pj_Routes (Derive i)) t"
  have ok: "revisions_ok t" using pub_reach_inv [OF assms(1)] by blast
  have r1: "pub_reach (snd ?s) kv" by (rule pub_reach.sync [OF assms(1)])
  show ?thesis
  proof (cases "fst ?s")
    case (Inl e)
    with assms(2) \<open>load_input env p = Inr i\<close> r1 show ?thesis by (auto simp: Rebuild_def Let_def split: prod.splits sum.splits)
  next
    case (Inr out)
    have nonneg: "0 \<le> revision_of (snd ?s) h" for h
      using pub_reach_inv [OF r1] top_rev_nonneg order_trans by blast
    have "mget0 0 out h \<le> revision_of (snd ?s) h" for h
      using SyncRoutes_revisions(2) [OF ok, of "re_tx env" "pj_Routes (Derive i)" out "snd ?s" h] Inr nonneg [of h]
      by (auto simp: prod_eq_iff mget0_def split: option.splits if_splits)
    then have "pub_reach (snd ?s) (snd (publishAll env p (Derive i) out kv))" using publishAll_reach [OF r1] by blast
    with assms(2) \<open>load_input env p = Inr i\<close> Inr show ?thesis by (auto simp: Rebuild_def Let_def split: prod.splits sum.splits)
  qed
qed

definition no_faults :: "rebuild_env \<Rightarrow> bool" where
  "no_faults env \<longleftrightarrow> re_tx env = TxCommit \<and> re_down env = (\<lambda>_. False) \<and> re_pruneFails env = (\<lambda>_. False) \<and> re_dnsFails env = (\<lambda>_. False)"

lemma serves_derived_cong:
  assumes "serves_derived i f kv" "\<And>h p. derived_route i h p \<noteq> None \<Longrightarrow> f h = g h" shows "serves_derived i g kv"
proof -
  have "found_route i f h p = found_route i g h p" for h p using assms(2) [of h p] by (cases "derived_route i h p") (auto simp: found_route_def)
  with assms(1) show ?thesis by (simp add: serves_derived_def)
qed

lemma found_eligible:
  assumes "found_route i f h p = Some r" "b \<in> set (rt_Backends r)" shows "eligible_backend b"
proof -
  from assms obtain row where row: "derived_route i h p = Some row" "b \<in> converted_backend ` set (rr_Backends row)"
    by (auto simp: found_route_def converted_def)
  then obtain c where c: "c \<in> set (members i h p)" "b = converted_backend c"
    using derived_routeD(3) [OF row(1)] by (metis image_iff set_mset_mset)
  then show ?thesis
    by (auto simp: members_iff published_iff publishable_def machineServing_def eligible_backend_def converted_backend_def)
qed

lemma rebuild_publishes_derived:
  assumes reach: "pub_reach t kv" and load: "load_input env p = Inr i" and rows: "rows_distinct i" "ports_ok i"
    and quiet: "no_faults env" "0 < pb_dnsStaleWindow p"
  obtains t' kv' where "Rebuild env p (t, kv) = (Inr (), t', kv')" "serves_derived i (revision_of t') kv'"
proof -
  obtain ps where ps: "cat_ok ps kv" "\<forall>h. top_rev h ps \<le> revision_of t h" and ok: "revisions_ok t"
    using pub_reach_inv [OF reach] by blast
  obtain out t' where sync: "SyncRoutes TxCommit (pj_Routes (Derive i)) t = (Inr out, t')" using derived_sync [OF rows(1)] .
  have out: "mget0 0 out h = revision_of t' h" "revision_of t' h = revision_of t h + 1" if "h \<in> rr_Hostname ` set (pj_Routes (Derive i))" for h
    using SyncRoutes_revisions(2) [OF ok sync, of h] that by (auto simp: mget0_def)
  have new: "top_rev h ps < mget0 0 out h" if "h \<in> rr_Hostname ` set (pj_Routes (Derive i))" for h
    using out [OF that] ps(2) by (metis zle_add1_eq_le)
  obtain kv1 where red: "publishRedis (\<lambda>_. False) (\<lambda>_. False) (Derive i) out kv = (Inr (), kv1)"
    and keep: "\<And>kv''. (\<And>h p. kv_get (routeKey h p) kv'' = kv_get (routeKey h p) kv1) \<Longrightarrow>
       (\<And>h. kv_get (hostIndexKey h) kv'' = kv_get (hostIndexKey h) kv1) \<Longrightarrow> serves_derived i (mget0 0 out) kv''"
    using publishRedis_serves [OF ps(1) rows(2) new] by blast
  obtain kv2 where dns: "ReplaceInternalDNS (\<lambda>_. False) (re_now env) (pj_InternalDNS (Derive i)) (pb_dnsStaleWindow p) kv1 = (Inr (), kv2)"
    and same: "\<And>h p. kv_get (routeKey h p) kv2 = kv_get (routeKey h p) kv1" "\<And>h. kv_get (hostIndexKey h) kv2 = kv_get (hostIndexKey h) kv1"
    using ReplaceInternalDNS_ok [OF quiet(2)] derived_dns by metis
  show thesis
  proof (rule that)
    show "Rebuild env p (t, kv) = (Inr (), t', kv2)"
      using quiet(1) by (simp add: Rebuild_def load sync publishAll_def publishInternalDNS_def red dns no_faults_def)
    show "serves_derived i (revision_of t') kv2"
      by (rule serves_derived_cong [OF keep [OF same]]) (use out(1) derived_hosts in blast)
  qed
qed

text \<open>Claim C19.
  After any history of rebuilds by any number of controllers, with failures, lost answers and late publications,
  and of any other writers of the catalogue, a rebuild that meets no failure succeeds; and then, for
  every host and port, the edge finds exactly the route derived from the machines, deployments and
  rollouts that were read, with the revision just allocated: a port nobody serves is not declared,
  and the host name alone leads to the primary port. Every backend found this way is eligible at the edge.
\<close>

theorem rebuild_publishes:
  assumes "pub_reach t kv" "load_input env p = Inr i" "rows_distinct i" "ports_ok i" "no_faults env" "0 < pb_dnsStaleWindow p"
  shows "\<exists>t' kv'. Rebuild env p (t, kv) = (Inr (), t', kv') \<and> pub_reach t' kv' \<and>
    (\<forall>h q. GetRouteForPort (False, False) h q kv' kv' = Inr (found_route i (revision_of t') h q, derived_route i h q \<noteq> None)) \<and>
    (\<forall>h. GetRouteForHostname (False, False) h kv' kv' = Inr (found_route i (revision_of t') h (mget0 0 (pj_PrimaryPorts (Derive i)) h))) \<and>
    (\<forall>h q r. found_route i (revision_of t') h q = Some r \<longrightarrow> (\<forall>b \<in> set (rt_Backends r). eligible_backend b))"
proof -
  obtain t' kv' where run: "Rebuild env p (t, kv) = (Inr (), t', kv')" and s: "serves_derived i (revision_of t') kv'"
    using rebuild_publishes_derived [OF assms] .
  show ?thesis using run Rebuild_reach [OF assms(1) run] s [unfolded serves_derived_def] found_eligible by blast
qed

definition example_rebuild :: rebuild_env where
  "example_rebuild =
     \<lparr>re_machines = Inr (in_Machines example_input), re_rollouts = Inr [example_rollout],
      re_deployments = (\<lambda>_. Inr (in_Deployments example_input)), re_identities = Inl ''unavailable'', re_proxyByNode = [(''n'', ''p'')],
      re_tx = TxCommit, re_down = (\<lambda>_. False), re_pruneFails = (\<lambda>_. False), re_dnsFails = (\<lambda>_. False), re_now = 0\<rparr>"

definition no_tables :: route_tables where
  "no_tables = \<lparr>tb_routes = [], tb_backends = [], tb_revisions = []\<rparr>"

theorem rebuild_publishes_witness:
  "\<exists>t' kv'. Rebuild example_rebuild (NewPublisher 8 '''') (no_tables, []) = (Inr (), t', kv') \<and>
     map_option (\<lambda>r. map be_MachineID (rt_Backends r)) (found_route example_input (revision_of t') ''h'' 8) = Some [''m1'', ''n0''] \<and>
     GetRouteForPort (False, False) ''h'' 8 kv' kv' = Inr (found_route example_input (revision_of t') ''h'' 8, True)"
proof -
  have "pub_reach no_tables []" using pub_reach.start by (simp add: no_tables_def)
  moreover have "load_input example_rebuild (NewPublisher 8 '''') = Inr example_input" by code_simp
  moreover have "rows_distinct example_input" "ports_ok example_input" by code_simp+
  moreover have "no_faults example_rebuild" by (simp add: no_faults_def example_rebuild_def)
  moreover have "0 < pb_dnsStaleWindow (NewPublisher 8 '''')" by code_simp
  ultimately obtain t' kv' where run: "Rebuild example_rebuild (NewPublisher 8 '''') (no_tables, []) = (Inr (), t', kv')"
    and get: "GetRouteForPort (False, False) ''h'' 8 kv' kv' =
      Inr (found_route example_input (revision_of t') ''h'' 8, derived_route example_input ''h'' 8 \<noteq> None)"
    using rebuild_publishes by blast
  have d: "map_option (\<lambda>r. map rb_MachineID (rr_Backends r)) (derived_route example_input ''h'' 8) = Some [''m1'', ''n0'']" by code_simp
  then obtain r where r: "derived_route example_input ''h'' 8 = Some r" "map rb_MachineID (rr_Backends r) = [''m1'', ''n0'']" by auto
  then have "map_option (\<lambda>r. map be_MachineID (rt_Backends r)) (found_route example_input (revision_of t') ''h'' 8) = Some [''m1'', ''n0'']"
    by (simp add: found_route_def converted_def converted_backend_def comp_def)
  with run get r(1) show ?thesis by simp
qed

end
