(* ===== verification/Outbox.thy ===== *)
theory Outbox
  imports StoreRows "HOL-Library.Product_Lexorder" "HOL-Library.List_Lexorder" "HOL-Library.Char_ord"
begin

text \<open>
  The operations table of the control plane, which is the outbox of the controller: \<open>internal/controlplane/store/store.go\<close>
  (enqueueing under idempotency keys, claiming, requeueing, completing) and \<open>operations.go\<close> (retention). The idempotency
  key of a row is its identifier. A request is the JSON value of its text, \<open>None\<close> for text that is not JSON, which the
  database refuses to store. Each statement is atomic; the two statements of an enqueue may see different tables.
  Times are nanoseconds of the database clock.
\<close>

section \<open>Rows\<close>

type_synonym json = "string option"

record Operation =
  op_ID :: string
  op_ProjectID :: string
  op_MachineID :: string
  op_ExecutionID :: string
  op_Generation :: int
  op_Kind :: string
  op_Status :: string
  op_DispatchNodeID :: string
  op_Request :: json
  op_Result :: json
  op_Error :: string
  op_Attempts :: nat
  op_ClaimedAt :: "int option"
  op_CompletedAt :: "int option"
  op_CreatedAt :: int
  op_UpdatedAt :: int

type_synonym operations = "Operation list"

datatype outbox_err =
    OpDBFailed
  | ErrRequestConflict
  | OperationVanished
  | NotInFailedState
  | OwnershipConflictError string string
  | ErrMachineLifecycleClosed
  | ErrMachineNotFound
  | ErrSnapshotStatusConflict
  | ErrRescueConflict
  | InvalidForkCommand

definition jsonEqual :: "json \<Rightarrow> json \<Rightarrow> bool" where
  "jsonEqual a b \<longleftrightarrow> a \<noteq> None \<and> b \<noteq> None \<and> a = b"

definition second_ns :: int where "second_ns = 10 ^ 9"

section \<open>Enqueueing\<close>

definition has_key :: "string \<Rightarrow> string \<Rightarrow> Operation \<Rightarrow> bool" where
  "has_key project key r \<longleftrightarrow> op_ProjectID r = project \<and> op_ID r = key"

definition selectOperationByKey :: "string \<Rightarrow> string \<Rightarrow> operations \<Rightarrow> Operation option" where
  "selectOperationByKey project key ops = List.find (has_key project key) ops"

text \<open>What a caller asks to enqueue; \<open>eq_ResurrectFailed\<close> revives a failed operation with the same request.\<close>

record EnqueueOperationParams =
  eq_OperationID :: string
  eq_ProjectID :: string
  eq_MachineID :: string
  eq_ExecutionID :: string
  eq_Generation :: int
  eq_Kind :: string
  eq_Request :: json
  eq_DispatchNodeID :: string
  eq_ResurrectFailed :: bool

definition new_operation :: "int \<Rightarrow> EnqueueOperationParams \<Rightarrow> Operation" where
  "new_operation now p =
     \<lparr>op_ID = eq_OperationID p, op_ProjectID = eq_ProjectID p, op_MachineID = eq_MachineID p, op_ExecutionID = eq_ExecutionID p,
      op_Generation = eq_Generation p, op_Kind = eq_Kind p, op_Status = ''PENDING'', op_DispatchNodeID = eq_DispatchNodeID p,
      op_Request = eq_Request p, op_Result = None, op_Error = '''', op_Attempts = 0, op_ClaimedAt = None, op_CompletedAt = None,
      op_CreatedAt = now, op_UpdatedAt = now\<rparr>"

text \<open>The insertion does nothing on a conflict of the key; the same identifier in another project violates the primary key.\<close>

definition insert_operation :: "Operation \<Rightarrow> operations \<Rightarrow> outbox_err + operations" where
  "insert_operation r ops =
     (if op_Request r = None then Inl OpDBFailed
      else if selectOperationByKey (op_ProjectID r) (op_ID r) ops \<noteq> None then Inr ops
      else if op_ID r \<in> op_ID ` set ops then Inl OpDBFailed
      else Inr (ops @ [r]))"

definition resurrectOperation :: "int \<Rightarrow> string \<Rightarrow> operations \<Rightarrow> outbox_err + operations" where
  "resurrectOperation now key ops =
     (if \<exists>r \<in> set ops. op_ID r = key \<and> op_Status r = ''FAILED''
      then Inr (map (\<lambda>r. if op_ID r = key \<and> op_Status r = ''FAILED''
             then r\<lparr>op_Status := ''PENDING'', op_Error := '''', op_ClaimedAt := None, op_CompletedAt := None, op_UpdatedAt := now\<rparr> else r) ops)
      else Inl NotInFailedState)"

text \<open>The first statement: the row of the key, if there is one, decides.\<close>

definition enqueue_lookup :: "int \<Rightarrow> EnqueueOperationParams \<Rightarrow> operations \<Rightarrow> ((outbox_err + Operation) \<times> operations) option" where
  "enqueue_lookup now p ops =
     (case selectOperationByKey (eq_ProjectID p) (eq_OperationID p) ops of
        None \<Rightarrow> None
      | Some r \<Rightarrow> Some
          (if \<not> jsonEqual (op_Request r) (eq_Request p) then (Inl ErrRequestConflict, ops)
           else if eq_ResurrectFailed p \<and> op_Status r = ''FAILED'' then
             (case resurrectOperation now (op_ID r) ops of
                Inl e \<Rightarrow> (Inl e, ops)
              | Inr ops1 \<Rightarrow> (Inr (r\<lparr>op_Status := ''PENDING'', op_Error := ''''\<rparr>), ops1))
           else (Inr r, ops)))"

text \<open>The insertion with the row read again and compared.\<close>

definition enqueue_insert :: "int \<Rightarrow> EnqueueOperationParams \<Rightarrow> operations \<Rightarrow> (outbox_err + Operation) \<times> operations" where
  "enqueue_insert now p ops =
     (case insert_operation (new_operation now p) ops of
        Inl e \<Rightarrow> (Inl e, ops)
      | Inr ops1 \<Rightarrow>
          (case selectOperationByKey (eq_ProjectID p) (eq_OperationID p) ops1 of
             None \<Rightarrow> (Inl OperationVanished, ops1)
           | Some r \<Rightarrow> if jsonEqual (op_Request r) (eq_Request p) then (Inr r, ops1) else (Inl ErrRequestConflict, ops1)))"

definition enqueueOperationIdempotentTx :: "int \<Rightarrow> EnqueueOperationParams \<Rightarrow> operations \<Rightarrow> (outbox_err + Operation) \<times> operations" where
  "enqueueOperationIdempotentTx now p ops = (case enqueue_lookup now p ops of Some res \<Rightarrow> res | None \<Rightarrow> enqueue_insert now p ops)"

definition enqueueDeleteKind :: "tx_end \<Rightarrow> int \<Rightarrow> string \<Rightarrow> EnqueueOperationParams \<Rightarrow> operations \<Rightarrow> (outbox_err + Operation) \<times> operations" where
  "enqueueDeleteKind tx now kind p =
     inTx OpDBFailed tx (enqueueOperationIdempotentTx now (p\<lparr>eq_Kind := kind, eq_DispatchNodeID := '''', eq_ResurrectFailed := True\<rparr>))"

definition EnqueueDelete :: "tx_end \<Rightarrow> int \<Rightarrow> EnqueueOperationParams \<Rightarrow> operations \<Rightarrow> (outbox_err + Operation) \<times> operations" where
  "EnqueueDelete tx now = enqueueDeleteKind tx now ''delete''"

definition EnqueueReapDelete :: "tx_end \<Rightarrow> int \<Rightarrow> EnqueueOperationParams \<Rightarrow> operations \<Rightarrow> (outbox_err + Operation) \<times> operations" where
  "EnqueueReapDelete tx now = enqueueDeleteKind tx now ''reap''"

definition EnqueueLifecycle :: "tx_end \<Rightarrow> int \<Rightarrow> EnqueueOperationParams \<Rightarrow> operations \<Rightarrow> (outbox_err + Operation) \<times> operations" where
  "EnqueueLifecycle tx now p = inTx OpDBFailed tx (enqueueOperationIdempotentTx now (p\<lparr>eq_DispatchNodeID := '''', eq_ResurrectFailed := False\<rparr>))"

definition EnqueueOperation :: "tx_end \<Rightarrow> int \<Rightarrow> EnqueueOperationParams \<Rightarrow> operations \<Rightarrow> (outbox_err + Operation) \<times> operations" where
  "EnqueueOperation tx now p = inTx OpDBFailed tx (enqueueOperationIdempotentTx now (p\<lparr>eq_ResurrectFailed := False\<rparr>))"

section \<open>Claiming and completing\<close>

definition claim_due :: "int \<Rightarrow> Operation \<Rightarrow> bool" where
  "claim_due now r \<longleftrightarrow> op_Status r = ''PENDING'' \<and> op_Kind r \<noteq> ''image_prewarm'' \<and>
     (op_Attempts r = 0 \<or> op_UpdatedAt r < now - 2 * second_ns * 2 ^ min (op_Attempts r) 5)"

text \<open>The queue of the prewarm worker (\<open>prewarm.go\<close>) holds the other kind under the same backoff.\<close>

definition prewarm_due :: "int \<Rightarrow> Operation \<Rightarrow> bool" where
  "prewarm_due now r \<longleftrightarrow> op_Status r = ''PENDING'' \<and> op_Kind r = ''image_prewarm'' \<and>
     (op_Attempts r = 0 \<or> op_UpdatedAt r < now - 2 * second_ns * 2 ^ min (op_Attempts r) 5)"

text \<open>\<open>locked\<close> are the rows another transaction holds, which the query skips.\<close>

definition claimed_ids :: "(Operation \<Rightarrow> bool) \<Rightarrow> (string \<Rightarrow> bool) \<Rightarrow> nat \<Rightarrow> operations \<Rightarrow> string list" where
  "claimed_ids due locked limit ops = map op_ID (take limit (filter (\<lambda>r. \<not> locked (op_ID r)) (sort_key op_CreatedAt (filter due ops))))"

definition claim :: "int \<Rightarrow> Operation \<Rightarrow> Operation" where
  "claim now r = r\<lparr>op_Status := ''CLAIMED'', op_ClaimedAt := Some now, op_Attempts := op_Attempts r + 1, op_UpdatedAt := now\<rparr>"

definition claim_where :: "(Operation \<Rightarrow> bool) \<Rightarrow> int \<Rightarrow> (string \<Rightarrow> bool) \<Rightarrow> nat \<Rightarrow> operations \<Rightarrow> Operation list \<times> operations" where
  "claim_where due now locked limit ops =
     (let ids = claimed_ids due locked limit ops in
      (map (claim now) (filter (\<lambda>r. op_ID r \<in> set ids) ops), map (\<lambda>r. if op_ID r \<in> set ids then claim now r else r) ops))"

definition ClaimPendingOperations :: "int \<Rightarrow> (string \<Rightarrow> bool) \<Rightarrow> nat \<Rightarrow> operations \<Rightarrow> Operation list \<times> operations" where
  "ClaimPendingOperations now = claim_where (claim_due now) now"

definition ClaimPendingPrewarmOperations :: "int \<Rightarrow> (string \<Rightarrow> bool) \<Rightarrow> nat \<Rightarrow> operations \<Rightarrow> Operation list \<times> operations" where
  "ClaimPendingPrewarmOperations now = claim_where (prewarm_due now) now"

lemmas claim_defs = ClaimPendingOperations_def ClaimPendingPrewarmOperations_def claim_where_def

definition RequeueOperation :: "int \<Rightarrow> string \<Rightarrow> string \<Rightarrow> operations \<Rightarrow> operations" where
  "RequeueOperation now key err ops =
     map (\<lambda>r. if op_ID r = key \<and> op_Status r = ''CLAIMED'' then r\<lparr>op_Status := ''PENDING'', op_Error := err, op_UpdatedAt := now\<rparr> else r) ops"

definition stale_claim :: "int \<Rightarrow> int \<Rightarrow> Operation \<Rightarrow> bool" where
  "stale_claim now olderThan r \<longleftrightarrow> op_Status r = ''CLAIMED'' \<and> op_UpdatedAt r < now - olderThan"

definition RequeueStaleClaimed :: "int \<Rightarrow> int \<Rightarrow> operations \<Rightarrow> nat \<times> operations" where
  "RequeueStaleClaimed now olderThan ops =
     (length (filter (stale_claim now olderThan) ops),
      map (\<lambda>r. if stale_claim now olderThan r
        then r\<lparr>op_Status := ''PENDING'', op_Error := ''claim lease expired (controller crash or leader switch)'', op_ClaimedAt := None, op_UpdatedAt := now\<rparr>
        else r) ops)"

definition open_status :: "string \<Rightarrow> bool" where
  "open_status s \<longleftrightarrow> s = ''PENDING'' \<or> s = ''CLAIMED''"

text \<open>An empty result is stored as \<open>NULL\<close>, read back as the empty object.\<close>

definition CompleteOperation :: "int \<Rightarrow> string \<Rightarrow> string \<Rightarrow> json \<Rightarrow> string \<Rightarrow> operations \<Rightarrow> operations" where
  "CompleteOperation now key status res err ops =
     (let final = (if err \<noteq> '''' \<and> status = ''SUCCEEDED'' then ''FAILED'' else status) in
      map (\<lambda>r. if op_ID r = key \<and> open_status (op_Status r)
        then r\<lparr>op_Status := final, op_Result := res, op_Error := err, op_CompletedAt := Some now, op_UpdatedAt := now\<rparr> else r) ops)"

definition UpdateOperationDispatchNode :: "int \<Rightarrow> string \<Rightarrow> string \<Rightarrow> operations \<Rightarrow> operations" where
  "UpdateOperationDispatchNode now key node ops =
     map (\<lambda>r. if op_ID r = key \<and> open_status (op_Status r) then r\<lparr>op_DispatchNodeID := node, op_UpdatedAt := now\<rparr> else r) ops"

definition terminal_status :: "string \<Rightarrow> bool" where
  "terminal_status s \<longleftrightarrow> s \<in> {''SUCCEEDED'', ''FAILED'', ''CANCELLED'', ''SUPERSEDED'', ''TIMED_OUT''}"

definition DeleteTerminalOperationsOlderThan :: "int \<Rightarrow> operations \<Rightarrow> nat \<times> operations" where
  "DeleteTerminalOperationsOlderThan cutoff ops =
     (let old = (\<lambda>r. terminal_status (op_Status r) \<and> op_UpdatedAt r < cutoff) in
      (length (filter old ops), filter (\<lambda>r. \<not> old r) ops))"

section \<open>Queries\<close>

definition ListInFlightOperations :: "operations \<Rightarrow> Operation list" where
  "ListInFlightOperations ops = sort_key op_CreatedAt (filter (\<lambda>r. open_status (op_Status r)) ops)"

definition HasPendingOperationForMachine :: "string \<Rightarrow> operations \<Rightarrow> bool" where
  "HasPendingOperationForMachine m ops \<longleftrightarrow> list_ex (\<lambda>r. op_MachineID r = m \<and> open_status (op_Status r)) ops"

text \<open>The first row in an order, if any.\<close>

definition first_row :: "Operation list \<Rightarrow> Operation option" where
  "first_row rs = (case rs of [] \<Rightarrow> None | r # _ \<Rightarrow> Some r)"

definition PendingOperationForMachine :: "string \<Rightarrow> operations \<Rightarrow> Operation option" where
  "PendingOperationForMachine m ops = first_row (sort_key op_CreatedAt (filter (\<lambda>r. op_MachineID r = m \<and> open_status (op_Status r)) ops))"

text \<open>Newest first, and among equal times the greatest identifier first.\<close>

definition newest_first :: "Operation list \<Rightarrow> Operation list" where
  "newest_first rs = List.rev (sort_key (\<lambda>r. (op_CreatedAt r, op_ID r)) rs)"

definition GetLatestOperationForMachine :: "string \<Rightarrow> operations \<Rightarrow> Operation option" where
  "GetLatestOperationForMachine m ops = first_row (newest_first (filter (\<lambda>r. op_MachineID r = m) ops))"

definition LatestCreateDispatchNode :: "string \<Rightarrow> string \<Rightarrow> operations \<Rightarrow> string" where
  "LatestCreateDispatchNode m e ops =
     (case first_row (newest_first (filter (\<lambda>r. op_MachineID r = m \<and> op_ExecutionID r = e \<and> op_Kind r = ''create'') ops)) of
        None \<Rightarrow> '''' | Some r \<Rightarrow> op_DispatchNodeID r)"

definition CreateDispatchedToAgent :: "string \<Rightarrow> string \<Rightarrow> operations \<Rightarrow> bool" where
  "CreateDispatchedToAgent m e ops \<longleftrightarrow>
     list_ex (\<lambda>r. op_MachineID r = m \<and> op_ExecutionID r = e \<and> op_Kind r = ''create'' \<and> op_DispatchNodeID r \<noteq> '''') ops"

definition SecretCleanupDischarged :: "string \<Rightarrow> operations \<Rightarrow> bool" where
  "SecretCleanupDischarged create ops \<longleftrightarrow>
     (case List.find (\<lambda>r. op_ID r = ''op-secret-cleanup-'' @ create) ops of None \<Rightarrow> False | Some r \<Rightarrow> op_Status r = ''SUCCEEDED'')"

definition LatestCreateAttempt :: "string \<Rightarrow> operations \<Rightarrow> (nat \<times> string) option" where
  "LatestCreateAttempt m ops =
     map_option (\<lambda>r. (op_Attempts r, op_Status r))
       (first_row (List.rev (sort_key op_CreatedAt (filter (\<lambda>r. op_MachineID r = m \<and> op_Kind r = ''create'') ops))))"

definition FailedCreateAttempts :: "string \<Rightarrow> operations \<Rightarrow> nat" where
  "FailedCreateAttempts m ops =
     (let creates = filter (\<lambda>r. op_MachineID r = m \<and> op_Kind r = ''create'') ops;
          successes = filter (\<lambda>r. op_Status r = ''SUCCEEDED'') creates in
      length (filter (\<lambda>r. op_Status r = ''FAILED'' \<and> list_all (\<lambda>s. op_CreatedAt s < op_CreatedAt r) successes) creates))"

definition CountOperations :: "string \<Rightarrow> operations \<Rightarrow> nat" where
  "CountOperations status ops = length (filter (\<lambda>r. status = '''' \<or> op_Status r = status) ops)"

section \<open>Histories of the table\<close>

text \<open>
  The statements of all callers. \<open>EnqueueLate\<close> is the second half of an enqueue whose first statement read an older
  table.
\<close>

datatype outbox_op =
    Enqueue tx_end EnqueueOperationParams
  | EnqueueLate tx_end EnqueueOperationParams
  | Claim "string \<Rightarrow> bool" nat
  | ClaimPrewarm "string \<Rightarrow> bool" nat
  | Requeue string string
  | RequeueStale int
  | CompleteOp string string json string
  | Dispatch string string
  | Purge int

definition outbox_run :: "int \<Rightarrow> outbox_op \<Rightarrow> operations \<Rightarrow> operations" where
  "outbox_run now x ops =
     (case x of
        Enqueue tx p \<Rightarrow> snd (inTx OpDBFailed tx (enqueueOperationIdempotentTx now p) ops)
      | EnqueueLate tx p \<Rightarrow> snd (inTx OpDBFailed tx (enqueue_insert now p) ops)
      | Claim locked limit \<Rightarrow> snd (ClaimPendingOperations now locked limit ops)
      | ClaimPrewarm locked limit \<Rightarrow> snd (ClaimPendingPrewarmOperations now locked limit ops)
      | Requeue key err \<Rightarrow> RequeueOperation now key err ops
      | RequeueStale olderThan \<Rightarrow> snd (RequeueStaleClaimed now olderThan ops)
      | CompleteOp key status res err \<Rightarrow> CompleteOperation now key status res err ops
      | Dispatch key node \<Rightarrow> UpdateOperationDispatchNode now key node ops
      | Purge cutoff \<Rightarrow> snd (DeleteTerminalOperationsOlderThan cutoff ops))"

fun outbox_runs :: "(int \<times> outbox_op) list \<Rightarrow> operations \<Rightarrow> operations" where
  "outbox_runs [] ops = ops"
| "outbox_runs ((now, x) # xs) ops = outbox_runs xs (outbox_run now x ops)"

definition storable :: "Operation \<Rightarrow> bool" where
  "storable r \<longleftrightarrow> op_Request r \<noteq> None"

definition ops_ok :: "operations \<Rightarrow> bool" where
  "ops_ok ops \<longleftrightarrow> distinct (map op_ID ops) \<and> list_all storable ops"

text \<open>What a statement may do to a row: its identity and request stay, and a settled row stays as it is.\<close>

definition same_operation :: "Operation \<Rightarrow> Operation \<Rightarrow> bool" where
  "same_operation r r' \<longleftrightarrow>
     op_ID r' = op_ID r \<and> op_ProjectID r' = op_ProjectID r \<and> op_MachineID r' = op_MachineID r \<and> op_ExecutionID r' = op_ExecutionID r \<and>
     op_Generation r' = op_Generation r \<and> op_Kind r' = op_Kind r \<and> op_Request r' = op_Request r \<and> op_CreatedAt r' = op_CreatedAt r"

definition settled :: "Operation \<Rightarrow> bool" where
  "settled r \<longleftrightarrow> \<not> open_status (op_Status r) \<and> op_Status r \<noteq> ''FAILED''"

definition row_kept :: "Operation \<Rightarrow> Operation \<Rightarrow> bool" where
  "row_kept r r' \<longleftrightarrow> same_operation r r' \<and> (settled r \<longrightarrow> r' = r)"

lemma row_kept_refl [simp]: "row_kept r r"
  by (simp add: row_kept_def same_operation_def)

interpretation ops: row_table op_ID storable row_kept
  by unfold_locales (auto simp: row_kept_def same_operation_def)

lemmas ops_step_refl [intro, simp] = ops.step_refl

lemma ops_ok_table: "ops_ok ops = ops.table_ok ops"
  by (simp add: ops_ok_def ops.table_ok_def)

lemma insert_operation_step: "insert_operation r ops = Inr ops' \<Longrightarrow> ops.step ops ops'"
  by (auto simp: insert_operation_def storable_def split: if_splits intro!: ops.appended)

lemma resurrect_step: "resurrectOperation now key ops = Inr ops' \<Longrightarrow> ops.step ops ops'"
  by (auto simp: resurrectOperation_def row_kept_def same_operation_def settled_def storable_def split: if_splits intro!: ops.changed)

lemma enqueue_insert_step: "ops.step ops (snd (enqueue_insert now p ops))"
  by (auto simp: enqueue_insert_def split: sum.splits option.splits dest: insert_operation_step)

lemma enqueue_step: "ops.step ops (snd (enqueueOperationIdempotentTx now p ops))"
  by (auto simp: enqueueOperationIdempotentTx_def enqueue_lookup_def enqueue_insert_step split: option.splits sum.splits dest: resurrect_step)

lemma inTx_step: "ops.step ops (snd (f ops)) \<Longrightarrow> ops.step ops (snd (inTx failed tx f ops))"
  using inTx_snd[of failed tx f ops] by auto

lemma same_id: "\<lbrakk>distinct (map op_ID ops); r \<in> set ops; r' \<in> set ops; op_ID r = op_ID r'\<rbrakk> \<Longrightarrow> r = r'"
  by (simp add: distinct_map inj_on_def)

lemma claimed_due:
  assumes "distinct (map op_ID ops)" "r \<in> set ops" "op_ID r \<in> set (claimed_ids due locked limit ops)"
  shows "due r \<and> \<not> locked (op_ID r)"
proof -
  obtain r' where "r' \<in> set (take limit (filter (\<lambda>r. \<not> locked (op_ID r)) (sort_key op_CreatedAt (filter due ops))))" "op_ID r = op_ID r'"
    using assms(3) by (auto simp: claimed_ids_def)
  moreover from this have "r' \<in> set ops" "due r'" "\<not> locked (op_ID r')" by (auto dest!: in_set_takeD)
  ultimately show ?thesis using same_id[OF assms(1,2)] by metis
qed

lemma claim_where_step:
  assumes "distinct (map op_ID ops)" "\<And>r. due r \<Longrightarrow> op_Status r = ''PENDING''"
  shows "ops.step ops (snd (claim_where due now locked limit ops))"
proof -
  have "op_Status r = ''PENDING''" if "r \<in> set ops" "op_ID r \<in> set (claimed_ids due locked limit ops)" for r
    using claimed_due[OF assms(1) that] assms(2) by blast
  then show ?thesis unfolding claim_where_def Let_def snd_conv
    by (intro ops.changed) (auto simp: storable_def row_kept_def same_operation_def settled_def claim_def open_status_def)
qed

lemma Claim_step:
  assumes "distinct (map op_ID ops)"
  shows "ops.step ops (snd (ClaimPendingOperations now locked limit ops))"
    "ops.step ops (snd (ClaimPendingPrewarmOperations now locked limit ops))"
  unfolding ClaimPendingOperations_def ClaimPendingPrewarmOperations_def
  by (rule claim_where_step[OF assms], simp add: claim_due_def prewarm_due_def)+

lemma outbox_run_step:
  assumes "distinct (map op_ID ops)" "\<And>cutoff. x \<noteq> Purge cutoff"
  shows "ops.step ops (outbox_run now x ops)"
proof (cases x)
  case (Claim locked limit)
  then show ?thesis using Claim_step(1)[OF assms(1)] by (simp add: outbox_run_def)
next
  case (ClaimPrewarm locked limit)
  then show ?thesis using Claim_step(2)[OF assms(1)] by (simp add: outbox_run_def)
next
  case (Purge c)
  with assms show ?thesis by blast
qed (auto simp: outbox_run_def RequeueOperation_def RequeueStaleClaimed_def stale_claim_def CompleteOperation_def UpdateOperationDispatchNode_def
      Let_def storable_def row_kept_def same_operation_def settled_def open_status_def enqueue_step enqueue_insert_step intro!: ops.changed inTx_step)

lemma ops_step_ok: "ops.step ops ops' \<Longrightarrow> ops_ok ops \<Longrightarrow> ops_ok ops'"
  unfolding ops_ok_table by (rule ops.step_ok)

lemma outbox_run_ok: "ops_ok ops \<Longrightarrow> ops_ok (outbox_run now x ops)"
proof (cases "\<exists>cutoff. x = Purge cutoff")
  case True
  assume "ops_ok ops"
  with True show ?thesis
    by (auto simp: outbox_run_def DeleteTerminalOperationsOlderThan_def ops_ok_def Let_def list_all_iff intro: distinct_filter distinct_map_filter)
next
  case False
  assume "ops_ok ops"
  with False show ?thesis using outbox_run_step[of ops x now] ops_step_ok by (auto simp: ops_ok_def)
qed

definition purges :: "Operation \<Rightarrow> outbox_op \<Rightarrow> bool" where
  "purges r x \<longleftrightarrow> (case x of Purge cutoff \<Rightarrow> terminal_status (op_Status r) \<and> op_UpdatedAt r < cutoff | _ \<Rightarrow> False)"

lemma outbox_run_row:
  assumes "ops_ok ops" "r \<in> set ops" "\<not> purges r x"
  shows "\<exists>r' \<in> set (outbox_run now x ops). row_kept r r'"
proof (cases "\<exists>cutoff. x = Purge cutoff")
  case True
  then have "r \<in> set (outbox_run now x ops)"
    using assms by (auto simp: outbox_run_def DeleteTerminalOperationsOlderThan_def purges_def Let_def)
  then show ?thesis by (intro bexI[of _ r]) simp_all
next
  case False
  then show ?thesis using ops.step_row[OF outbox_run_step] assms by (auto simp: ops_ok_def ops.table_ok_def)
qed

section \<open>What the outbox promises\<close>

lemma settled_row_stays:
  assumes "ops_ok ops" "r \<in> set ops" "settled r" "\<forall>y \<in> set xs. \<not> purges r (snd y)"
  shows "r \<in> set (outbox_runs xs ops)"
  using assms(1,2,4)
proof (induction xs arbitrary: ops)
  case (Cons x xs)
  obtain now y where x: "x = (now, y)" by (cases x)
  obtain r' where "r' \<in> set (outbox_run now y ops)" "row_kept r r'" using outbox_run_row[OF Cons.prems(1,2), of y now] Cons.prems(3) x by auto
  then have "r \<in> set (outbox_run now y ops)" using assms(3) by (simp add: row_kept_def)
  then show ?case using Cons.IH[OF outbox_run_ok[OF Cons.prems(1)]] Cons.prems(3) x by simp
qed simp

text \<open>The row of a key is not one of those that a purge among the statements removes.\<close>

fun retained :: "string \<Rightarrow> (int \<times> outbox_op) list \<Rightarrow> operations \<Rightarrow> bool" where
  "retained key [] ops = True"
| "retained key ((now, x) # xs) ops \<longleftrightarrow>
     list_all (\<lambda>r. op_ID r = key \<longrightarrow> \<not> purges r x) ops \<and> retained key xs (outbox_run now x ops)"

lemma operation_row_stays:
  assumes "ops_ok ops" "r \<in> set ops" "retained (op_ID r) xs ops"
  shows "ops_ok (outbox_runs xs ops) \<and> (\<exists>r' \<in> set (outbox_runs xs ops). same_operation r r')"
  using assms
proof (induction xs arbitrary: ops r)
  case (Cons x xs)
  obtain now y where x: "x = (now, y)" by (cases x)
  then have "\<not> purges r y" using Cons.prems(2,3) by (auto simp: list_all_iff)
  then obtain r' where r': "r' \<in> set (outbox_run now y ops)" "row_kept r r'" using outbox_run_row[OF Cons.prems(1,2)] by blast
  have "op_ID r' = op_ID r" using r'(2) by (simp add: row_kept_def same_operation_def)
  then obtain r'' where "ops_ok (outbox_runs xs (outbox_run now y ops))" "r'' \<in> set (outbox_runs xs (outbox_run now y ops))" "same_operation r' r''"
    using Cons.IH[OF outbox_run_ok[OF Cons.prems(1)] r'(1)] Cons.prems(3) x by auto
  then show ?case using r'(2) x by (auto simp: row_kept_def same_operation_def)
qed (auto simp: same_operation_def)

text \<open>An accepted enqueue answers with a row of the table that has its key and its request.\<close>

lemma select_Some: "selectOperationByKey project key ops = Some r \<Longrightarrow> r \<in> set ops \<and> op_ProjectID r = project \<and> op_ID r = key"
  using find_SomeD[of "has_key project key" ops r] by (simp add: selectOperationByKey_def has_key_def)

lemma enqueue_insert_answer:
  assumes "enqueue_insert now p ops = (Inr r, ops')"
  shows "op_ID r = eq_OperationID p \<and> op_ProjectID r = eq_ProjectID p \<and> op_Request r = eq_Request p \<and> r \<in> set ops'"
  using assms by (auto simp: enqueue_insert_def jsonEqual_def split: sum.splits option.splits if_splits dest!: select_Some)

lemma enqueue_answer:
  assumes "enqueueOperationIdempotentTx now p ops = (Inr r, ops')" "ops_ok ops"
  shows "op_ID r = eq_OperationID p \<and> op_ProjectID r = eq_ProjectID p \<and> op_Request r = eq_Request p \<and> (\<exists>r' \<in> set ops'. same_operation r r')"
proof (cases "enqueue_lookup now p ops")
  case None
  then show ?thesis using assms enqueue_insert_answer[of now p ops r ops'] by (auto simp: enqueueOperationIdempotentTx_def same_operation_def)
next
  case (Some res)
  then obtain e where e: "selectOperationByKey (eq_ProjectID p) (eq_OperationID p) ops = Some e" "jsonEqual (op_Request e) (eq_Request p)"
    and rest: "r = e \<and> ops' = ops \<or> r = e\<lparr>op_Status := ''PENDING'', op_Error := ''''\<rparr> \<and> resurrectOperation now (op_ID e) ops = Inr ops'"
    using assms by (auto simp: enqueueOperationIdempotentTx_def enqueue_lookup_def split: option.splits if_splits sum.splits)
  have row: "e \<in> set ops" "op_ProjectID e = eq_ProjectID p" "op_ID e = eq_OperationID p" using select_Some[OF e(1)] by simp_all
  have "\<exists>r' \<in> set ops'. row_kept e r'"
    using rest ops.step_row[OF resurrect_step[of now "op_ID e" ops ops'] assms(2)[unfolded ops_ok_table] row(1)] row(1) by (metis row_kept_refl)
  then show ?thesis using rest row e(2) by (auto simp: jsonEqual_def row_kept_def same_operation_def)
qed

text \<open>
  Claim C10. An idempotency key is bound to one operation for as long as the retention keeps its row: when an enqueue of
  a key has been accepted, then after any further statements of any callers, purges of old rows included as long as none
  of them removes the row of the key, an enqueue of the key in the project is accepted only with the same request, and it
  answers with the same operation, also when its second statement runs on a table that the first one did not see. (A
  purge removes a row that has ended before its cutoff; afterwards the key is free.)
\<close>

theorem idempotency_key_binds:
  assumes "ops_ok ops" "inTx OpDBFailed tx (enqueueOperationIdempotentTx now p) ops = (Inr r, ops1)"
    and "retained (eq_OperationID p) xs ops1" "ops2 = outbox_runs xs ops1"
    and "inTx OpDBFailed tx' (enqueueOperationIdempotentTx now' p') ops2 = (Inr r', ops3) \<or> inTx OpDBFailed tx' (enqueue_insert now' p') ops2 = (Inr r', ops3)"
    and "eq_ProjectID p' = eq_ProjectID p" "eq_OperationID p' = eq_OperationID p"
  shows "eq_Request p' = eq_Request p \<and> same_operation r r'"
proof -
  have first: "enqueueOperationIdempotentTx now p ops = (Inr r, ops1)" using assms(2) by (simp add: inTx_Inr)
  have ok1: "ops_ok ops1" using ops_step_ok[OF enqueue_step[of ops now p] assms(1)] first by simp
  obtain r1 where r1: "r1 \<in> set ops1" "same_operation r r1" using enqueue_answer[OF first assms(1)] by blast
  obtain r2 where r2: "r2 \<in> set ops2" "same_operation r1 r2" "ops_ok ops2"
    using operation_row_stays[OF ok1 r1(1), of xs] assms(3,4) r1(2) enqueue_answer[OF first assms(1)] by (auto simp: same_operation_def)
  have step: "ops.step ops2 ops3" and answer: "op_ID r' = eq_OperationID p'" "op_ProjectID r' = eq_ProjectID p'" "op_Request r' = eq_Request p'"
    "\<exists>r4 \<in> set ops3. same_operation r' r4"
    using assms(5) enqueue_answer[of now' p' ops2 r' ops3] r2(3) enqueue_insert_answer[of now' p' ops2 r' ops3]
      enqueue_step[of ops2 now' p'] enqueue_insert_step[of ops2 now' p'] by (auto simp: inTx_Inr same_operation_def)
  obtain r4 where r4: "r4 \<in> set ops3" "same_operation r' r4" using answer(4) by blast
  obtain r3 where r3: "r3 \<in> set ops3" "row_kept r2 r3" using ops.step_row[OF step r2(3)[unfolded ops_ok_table] r2(1)] by blast
  have "distinct (map op_ID ops3)" using ops_step_ok[OF step r2(3)] by (simp add: ops_ok_def)
  moreover have "op_ID r3 = op_ID r4"
    using r1(2) r2(2) r3(2) r4(2) answer(1) assms(7) enqueue_answer[OF first assms(1)] by (simp add: same_operation_def row_kept_def)
  ultimately have "r3 = r4" using same_id r3(1) r4(1) by blast
  then show ?thesis using r1(2) r2(2) r3(2) r4(2) answer(3) enqueue_answer[OF first assms(1)] by (auto simp: same_operation_def row_kept_def)
qed

text \<open>
  A settled operation is final: a row that succeeded, or ended in any state other than FAILED, is not
  changed by any statement of any caller, late completions and requeues included, until the retention removes it.
\<close>

lemma settled_operations_final:
  assumes "ops_ok ops" "r \<in> set ops" "settled r" "\<forall>y \<in> set xs. \<not> purges r (snd y)"
  shows "r \<in> set (outbox_runs xs ops) \<and> (\<forall>r' \<in> set (outbox_runs xs ops). op_ID r' = op_ID r \<longrightarrow> r' = r)"
proof -
  have "ops_ok (outbox_runs xs ops)" using assms(1)
    by (induction xs ops rule: outbox_runs.induct) (auto simp: outbox_run_ok)
  then show ?thesis using settled_row_stays[OF assms] same_id by (auto simp: ops_ok_def)
qed

text \<open>The statements that make an operation claimable again, or forget it.\<close>

definition reopens :: "string \<Rightarrow> outbox_op \<Rightarrow> bool" where
  "reopens key x \<longleftrightarrow>
     (case x of
        Enqueue _ p \<Rightarrow> eq_OperationID p = key \<and> eq_ResurrectFailed p
      | Requeue k _ \<Rightarrow> k = key
      | RequeueStale _ \<Rightarrow> True
      | CompleteOp k status _ _ \<Rightarrow> k = key \<and> status = ''PENDING''
      | Purge _ \<Rightarrow> True
      | _ \<Rightarrow> False)"

definition not_pending :: "string \<Rightarrow> operations \<Rightarrow> bool" where
  "not_pending key ops \<longleftrightarrow> (\<exists>r \<in> set ops. op_ID r = key) \<and> (\<forall>r \<in> set ops. op_ID r = key \<longrightarrow> op_Status r \<noteq> ''PENDING'')"

lemma not_pending_map:
  "\<lbrakk>not_pending key ops; \<And>r. r \<in> set ops \<Longrightarrow> op_ID (f r) = op_ID r \<and> (op_ID r = key \<longrightarrow> op_Status (f r) = ''PENDING'' \<longrightarrow> op_Status r = ''PENDING'')\<rbrakk>
   \<Longrightarrow> not_pending key (map f ops)"
  by (auto simp: not_pending_def)

lemma not_pending_insert: "\<lbrakk>not_pending key ops; insert_operation r ops = Inr ops'\<rbrakk> \<Longrightarrow> not_pending key ops'"
  by (auto simp: insert_operation_def not_pending_def split: if_splits)

lemma not_pending_enqueue_insert: "not_pending key ops \<Longrightarrow> not_pending key (snd (enqueue_insert now p ops))"
  by (auto simp: enqueue_insert_def split: sum.splits option.splits dest: not_pending_insert)

lemma not_pending_enqueue:
  assumes "not_pending key ops" "\<not> (eq_OperationID p = key \<and> eq_ResurrectFailed p)"
  shows "not_pending key (snd (enqueueOperationIdempotentTx now p ops))"
proof (cases "enqueue_lookup now p ops")
  case None
  then show ?thesis using not_pending_enqueue_insert[OF assms(1)] by (simp add: enqueueOperationIdempotentTx_def)
next
  case (Some res)
  have revived: "not_pending key ops'" if "resurrectOperation now k ops = Inr ops'" "k \<noteq> key" for k ops'
    using that assms(1) by (auto simp: resurrectOperation_def split: if_splits intro!: not_pending_map)
  obtain e where "selectOperationByKey (eq_ProjectID p) (eq_OperationID p) ops = Some e"
    using Some by (auto simp: enqueue_lookup_def split: option.splits)
  then show ?thesis using Some assms revived[of "op_ID e"] select_Some[of "eq_ProjectID p" "eq_OperationID p" ops e]
    by (auto simp: enqueueOperationIdempotentTx_def enqueue_lookup_def split: if_splits sum.splits)
qed

lemma not_pending_inTx: "\<lbrakk>not_pending key ops; not_pending key (snd (f ops))\<rbrakk> \<Longrightarrow> not_pending key (snd (inTx failed tx f ops))"
  using inTx_snd[of failed tx f ops] by auto

lemma not_pending_run: "\<lbrakk>not_pending key ops; \<not> reopens key x\<rbrakk> \<Longrightarrow> not_pending key (outbox_run now x ops)"
  by (cases x)
    (auto simp: outbox_run_def reopens_def RequeueOperation_def CompleteOperation_def UpdateOperationDispatchNode_def claim_defs
      claim_def Let_def not_pending_enqueue not_pending_enqueue_insert intro!: not_pending_map not_pending_inTx split: if_splits)

lemma not_pending_runs: "\<lbrakk>not_pending key ops; \<forall>y \<in> set xs. \<not> reopens key (snd y)\<rbrakk> \<Longrightarrow> not_pending key (outbox_runs xs ops)"
  by (induction xs ops rule: outbox_runs.induct) (simp_all add: not_pending_run)

lemma claimed_not_pending:
  assumes "ops_ok ops" "r \<in> set (fst (ClaimPendingOperations now locked limit ops))"
  shows "not_pending (op_ID r) (snd (ClaimPendingOperations now locked limit ops))"
  using assms by (fastforce simp: claim_defs claim_def Let_def not_pending_def)

text \<open>
  Claim C11. An operation is claimed by one controller at a time: after a claim has taken an operation, no claim
  of any controller takes it again before it is requeued, revived by an enqueue or forgotten by the retention,
  whatever other statements run in between.
\<close>

theorem operation_claimed_once:
  assumes "ops_ok ops" "r \<in> set (fst (ClaimPendingOperations now locked limit ops))"
    and "\<forall>y \<in> set xs. \<not> reopens (op_ID r) (snd y)" "ops' = outbox_runs xs (snd (ClaimPendingOperations now locked limit ops))"
  shows "op_ID r \<notin> op_ID ` set (fst (ClaimPendingOperations now' locked' limit' ops'))"
proof
  assume "op_ID r \<in> op_ID ` set (fst (ClaimPendingOperations now' locked' limit' ops'))"
  then obtain r' where r': "r' \<in> set ops'" "op_ID r' = op_ID r" "op_ID r' \<in> set (claimed_ids (claim_due now') locked' limit' ops')"
    by (auto simp: claim_defs claim_def Let_def)
  then obtain r2 where "r2 \<in> set ops'" "op_ID r2 = op_ID r" "claim_due now' r2"
    by (auto simp: claimed_ids_def dest!: in_set_takeD)
  moreover have "not_pending (op_ID r) ops'" using not_pending_runs[OF claimed_not_pending[OF assms(1,2)] assms(3)] assms(4) by simp
  ultimately show False by (auto simp: not_pending_def claim_due_def)
qed

lemma claim_all:
  assumes "r \<in> set ops" "claim_due now r" "\<not> locked (op_ID r)" "length ops \<le> limit"
  shows "claim now r \<in> set (fst (ClaimPendingOperations now locked limit ops))"
proof -
  have "length (filter (\<lambda>r. \<not> locked (op_ID r)) (sort_key op_CreatedAt (filter (claim_due now) ops))) \<le> limit"
    using length_filter_le[of "\<lambda>r. \<not> locked (op_ID r)" "sort_key op_CreatedAt (filter (claim_due now) ops)"] length_filter_le[of "claim_due now" ops] assms(4)
    unfolding length_sort by linarith
  then have "op_ID r \<in> set (claimed_ids (claim_due now) locked limit ops)" using assms(1-3) by (auto simp: claimed_ids_def)
  then show ?thesis using assms(1) by (auto simp: claim_defs Let_def)
qed

text \<open>
  A claim whose controller died does not stay: once the claim is older than the limit of the lease,
  the next pass puts the operation back, and a claim of enough rows more than 64 seconds later takes it again,
  however often it has been tried.
\<close>

lemma stuck_claim_recovers:
  assumes "ops_ok ops" "r \<in> set ops" "op_Status r = ''CLAIMED''" "op_Kind r \<noteq> ''image_prewarm''"
    and "op_UpdatedAt r < t1 - olderThan" "t1 + 64 * second_ns < t2"
    and "ops1 = snd (RequeueStaleClaimed t1 olderThan ops)" "\<not> locked (op_ID r)" "length ops \<le> limit"
  shows "op_ID r \<in> op_ID ` set (fst (ClaimPendingOperations t2 locked limit ops1))"
proof -
  define r1 where "r1 = r\<lparr>op_Status := ''PENDING'', op_Error := ''claim lease expired (controller crash or leader switch)'', op_ClaimedAt := None, op_UpdatedAt := t1\<rparr>"
  have r1: "r1 \<in> set ops1" using assms(2,3,5,7) by (force simp: RequeueStaleClaimed_def stale_claim_def r1_def)
  have "(2 :: int) ^ min (op_Attempts r) 5 \<le> 2 ^ 5" by (rule power_increasing) simp_all
  then have "2 * second_ns * 2 ^ min (op_Attempts r) 5 \<le> 64 * second_ns" by (simp add: second_ns_def)
  then have "claim_due t2 r1" using assms(4,6) by (simp add: claim_due_def r1_def)
  moreover have "length ops1 \<le> limit" using assms(7,9) by (simp add: RequeueStaleClaimed_def)
  ultimately have "claim t2 r1 \<in> set (fst (ClaimPendingOperations t2 locked limit ops1))"
    using r1 assms(8) by (intro claim_all) (simp_all add: r1_def)
  moreover have "op_ID (claim t2 r1) = op_ID r" by (simp add: claim_def r1_def)
  ultimately show ?thesis by (metis imageI)
qed

section \<open>Examples of operations\<close>

definition example_params :: EnqueueOperationParams where
  "example_params =
     \<lparr>eq_OperationID = ''k'', eq_ProjectID = ''p'', eq_MachineID = ''m'', eq_ExecutionID = ''e'', eq_Generation = 1, eq_Kind = ''delete'',
      eq_Request = Some ''{}'', eq_DispatchNodeID = '''', eq_ResurrectFailed = True\<rparr>"

definition example_op :: Operation where
  "example_op = new_operation 1 example_params"

definition example_claimed :: Operation where
  "example_claimed = claim 2 example_op"

theorem idempotency_key_binds_witness:
  "enqueueOperationIdempotentTx 1 example_params [] = (Inr example_op, [example_op]) \<and>
   enqueueOperationIdempotentTx 5 example_params [example_claimed] = (Inr example_claimed, [example_claimed]) \<and>
   same_operation example_op example_claimed"
proof -
  have runs: "enqueueOperationIdempotentTx 1 example_params [] = (Inr example_op, [example_op])"
    "enqueueOperationIdempotentTx 5 example_params [example_claimed] = (Inr example_claimed, [example_claimed])" by code_simp+
  have "ops_ok []" "inTx OpDBFailed TxCommit (enqueueOperationIdempotentTx 1 example_params) [] = (Inr example_op, [example_op])"
    "retained (eq_OperationID example_params) [(2, Claim (\<lambda>_. False) 1), (3, Purge 3)] [example_op]"
    "[example_claimed] = outbox_runs [(2, Claim (\<lambda>_. False) 1), (3, Purge 3)] [example_op]"
    "inTx OpDBFailed TxCommit (enqueueOperationIdempotentTx 5 example_params) [example_claimed] = (Inr example_claimed, [example_claimed]) \<or>
     inTx OpDBFailed TxCommit (enqueue_insert 5 example_params) [example_claimed] = (Inr example_claimed, [example_claimed])"
    "eq_ProjectID example_params = eq_ProjectID example_params" "eq_OperationID example_params = eq_OperationID example_params"
    by (simp add: ops_ok_def, simp add: inTx_Inr runs, code_simp, code_simp, simp add: inTx_Inr runs, simp, simp)
  from idempotency_key_binds[OF this] runs show ?thesis by blast
qed

lemma settled_operations_final_witness:
  "example_op\<lparr>op_Status := ''SUCCEEDED''\<rparr> \<in> set (outbox_runs [(5, CompleteOp ''k'' ''FAILED'' None ''late''), (6, Requeue ''k'' ''x'')] [example_op\<lparr>op_Status := ''SUCCEEDED''\<rparr>])"
proof -
  let ?r = "example_op\<lparr>op_Status := ''SUCCEEDED''\<rparr>"
  have "ops_ok [?r]" "?r \<in> set [?r]" "settled ?r" "\<forall>y \<in> set [(5, CompleteOp ''k'' ''FAILED'' None ''late''), (6, Requeue ''k'' ''x'')]. \<not> purges ?r (snd y)"
    by (code_simp, simp, code_simp, simp add: purges_def)
  from settled_operations_final[OF this] show ?thesis by blast
qed

theorem operation_claimed_once_witness:
  "op_ID example_claimed \<notin> op_ID ` set (fst (ClaimPendingOperations (200 * second_ns) (\<lambda>_. False) 3 [example_claimed]))"
proof -
  have "ops_ok [example_op]" "example_claimed \<in> set (fst (ClaimPendingOperations 2 (\<lambda>_. False) 1 [example_op]))"
    "\<forall>y \<in> set []. \<not> reopens (op_ID example_claimed) (snd y)"
    "[example_claimed] = outbox_runs [] (snd (ClaimPendingOperations 2 (\<lambda>_. False) 1 [example_op]))"
    by (code_simp, code_simp, simp, code_simp)
  from operation_claimed_once[OF this] show ?thesis .
qed

lemma stuck_claim_recovers_witness:
  "op_ID example_claimed \<in> op_ID ` set (fst (ClaimPendingOperations (200 * second_ns) (\<lambda>_. False) 3 (snd (RequeueStaleClaimed (100 * second_ns) (30 * second_ns) [example_claimed]))))"
proof -
  have "ops_ok [example_claimed]" "example_claimed \<in> set [example_claimed]" "op_Status example_claimed = ''CLAIMED''" "op_Kind example_claimed \<noteq> ''image_prewarm''"
    "op_UpdatedAt example_claimed < 100 * second_ns - 30 * second_ns" "100 * second_ns + 64 * second_ns < 200 * second_ns"
    "snd (RequeueStaleClaimed (100 * second_ns) (30 * second_ns) [example_claimed]) = snd (RequeueStaleClaimed (100 * second_ns) (30 * second_ns) [example_claimed])"
    "\<not> (\<lambda>_. False) (op_ID example_claimed)" "length [example_claimed] \<le> 3"
    by (code_simp, simp, code_simp, code_simp, code_simp, code_simp, simp, simp, simp)
  from stuck_claim_recovers[OF this] show ?thesis .
qed

end
