(* ===== verification/MachineRows.thy ===== *)
theory MachineRows
  imports Outbox
begin

text \<open>
  The machines table and the transactions that join it with the outbox (\<open>internal/controlplane/store/store.go\<close> and \<open>restart.go\<close>):
  the create upsert with its ownership checks and its guard against reviving deleted machines, observations fenced by
  execution and generation, deletion, time to live, the restart state machine, and the two transactions of \<open>snapshots.go\<close> that
  write machines (rescue and fork). Images, resource requests, environment and placement columns are left out. The lookup and the write of a create may see different tables.
\<close>

section \<open>The rows of the table\<close>

record MachineRow = Machine +
  mr_ObservedSlotIP :: string
  mr_LastObservedAt :: "int option"
  mr_ExpiresAt :: "int option"
  mr_RestartMode :: string
  mr_RestartMaxAttempts :: int
  mr_RestartBackoffSeconds :: int
  mr_RestartStableWindowSeconds :: int
  mr_RestartAttempts :: int
  mr_RestartNextAttemptAt :: "int option"
  mr_RestartStableSince :: "int option"
  mr_RestartBlocked :: bool
  mr_RestartFailedExecutionID :: "string option"
  mr_LifecycleDeletePhase :: string
  mr_UpdatedAt :: int

type_synonym machines = "MachineRow list"

text \<open>Of the applications only the project is kept, of the deployments only the application.\<close>

record plane =
  pl_apps :: "(string, string) gomap"
  pl_deployments :: "(string, string) gomap"
  pl_machines :: machines
  pl_ops :: operations

definition GetMachine :: "string \<Rightarrow> machines \<Rightarrow> MachineRow option" where
  "GetMachine mid ms = List.find (\<lambda>m. m_ID m = mid) ms"

text \<open>An \<open>UPDATE\<close>: the number of affected rows and the table.\<close>

definition update_machines :: "(MachineRow \<Rightarrow> bool) \<Rightarrow> (MachineRow \<Rightarrow> MachineRow) \<Rightarrow> machines \<Rightarrow> nat \<times> machines" where
  "update_machines P f ms = (length (filter P ms), map (\<lambda>m. if P m then f m else m) ms)"

section \<open>Observations\<close>

definition UpdateMachineObserved :: "int \<Rightarrow> string \<Rightarrow> string \<Rightarrow> string \<Rightarrow> string \<Rightarrow> string \<Rightarrow> machines \<Rightarrow> machines" where
  "UpdateMachineObserved now mid e state slot readiness ms =
     snd (update_machines (\<lambda>m. m_ID m = mid \<and> m_CurrentExecutionID m = e)
       (\<lambda>m. m\<lparr>m_ObservedState := state, mr_ObservedSlotIP := slot, m_ObservedReadiness := readiness, mr_LastObservedAt := Some now, mr_UpdatedAt := now\<rparr>) ms)"

definition UpdateMachineNodeAndObserved :: "int \<Rightarrow> string \<Rightarrow> string \<Rightarrow> string \<Rightarrow> string \<Rightarrow> string \<Rightarrow> string \<Rightarrow> machines \<Rightarrow> machines" where
  "UpdateMachineNodeAndObserved now mid node e state slot readiness ms =
     snd (update_machines (\<lambda>m. m_ID m = mid \<and> m_CurrentExecutionID m = e)
       (\<lambda>m. m\<lparr>m_NodeID := node, m_ObservedState := state, mr_ObservedSlotIP := slot, m_ObservedReadiness := readiness,
              mr_LastObservedAt := Some now, mr_UpdatedAt := now\<rparr>) ms)"

definition UpdateMachineObservedWithFenceCAS :: "int \<Rightarrow> string \<Rightarrow> string \<Rightarrow> string \<Rightarrow> int \<Rightarrow> string \<Rightarrow> string \<Rightarrow> string \<Rightarrow> machines \<Rightarrow> bool \<times> machines" where
  "UpdateMachineObservedWithFenceCAS now mid node e generation state slot readiness ms =
     (let (n, ms1) = update_machines (\<lambda>m. m_ID m = mid \<and> m_CurrentExecutionID m = e \<and> m_Generation m = generation)
        (\<lambda>m. m\<lparr>m_NodeID := node, m_ObservedState := state, mr_ObservedSlotIP := slot, m_ObservedReadiness := readiness,
               mr_LastObservedAt := Some now, mr_UpdatedAt := now\<rparr>) ms in
      (n = 1, ms1))"

text \<open>The time of the last observation stays.\<close>

definition MarkMachineObservedMissing :: "int \<Rightarrow> string \<Rightarrow> machines \<Rightarrow> machines" where
  "MarkMachineObservedMissing now mid ms =
     snd (update_machines (\<lambda>m. m_ID m = mid) (\<lambda>m. m\<lparr>m_ObservedState := ''UNKNOWN'', m_ObservedReadiness := ''UNKNOWN'', mr_UpdatedAt := now\<rparr>) ms)"

section \<open>Deletion and time to live\<close>

definition MarkMachineDeleted :: "int \<Rightarrow> string \<Rightarrow> machines \<Rightarrow> machines" where
  "MarkMachineDeleted now mid ms = snd (update_machines (\<lambda>m. m_ID m = mid) (\<lambda>m. m\<lparr>m_DesiredState := ''DELETED'', mr_UpdatedAt := now\<rparr>) ms)"

definition machineExists :: "string \<Rightarrow> machines \<Rightarrow> bool" where
  "machineExists mid ms \<longleftrightarrow> mid \<in> m_ID ` set ms"

text \<open>No row was affected: the second query tells a closed machine from a missing one.\<close>

definition closed_or_missing :: "string \<Rightarrow> nat \<times> machines \<Rightarrow> (outbox_err + unit) \<times> machines" where
  "closed_or_missing mid res =
     (if fst res = 0 then (Inl (if machineExists mid (snd res) then ErrMachineLifecycleClosed else ErrMachineNotFound), snd res) else (Inr (), snd res))"

definition SetMachineExpiry :: "int \<Rightarrow> string \<Rightarrow> int option \<Rightarrow> machines \<Rightarrow> (outbox_err + unit) \<times> machines" where
  "SetMachineExpiry now mid expires ms =
     closed_or_missing mid (update_machines
       (\<lambda>m. m_ID m = mid \<and> m_DesiredState m \<noteq> ''DELETED'' \<and> (case mr_ExpiresAt m of None \<Rightarrow> True | Some t \<Rightarrow> now < t))
       (\<lambda>m. m\<lparr>mr_ExpiresAt := expires, mr_UpdatedAt := now\<rparr>) ms)"

definition SetMachineRestartPolicy :: "int \<Rightarrow> string \<Rightarrow> string \<Rightarrow> int \<Rightarrow> int \<Rightarrow> int \<Rightarrow> machines \<Rightarrow> (outbox_err + unit) \<times> machines" where
  "SetMachineRestartPolicy now mid mode attempts backoff window ms =
     closed_or_missing mid (update_machines (\<lambda>m. m_ID m = mid \<and> m_DesiredState m \<noteq> ''DELETED'')
       (\<lambda>m. m\<lparr>mr_RestartMode := mode, mr_RestartMaxAttempts := attempts, mr_RestartBackoffSeconds := backoff,
              mr_RestartStableWindowSeconds := window, mr_UpdatedAt := now\<rparr>) ms)"

definition expired_at :: "int \<Rightarrow> MachineRow \<Rightarrow> bool" where
  "expired_at now m \<longleftrightarrow> (case mr_ExpiresAt m of None \<Rightarrow> False | Some t \<Rightarrow> t \<le> now)"

definition MarkExpiredRouteDetached :: "int \<Rightarrow> string \<Rightarrow> machines \<Rightarrow> machines" where
  "MarkExpiredRouteDetached now mid ms =
     snd (update_machines (\<lambda>m. m_ID m = mid \<and> m_DesiredState m \<noteq> ''DELETED'' \<and> mr_LifecycleDeletePhase m = ''ACTIVE'' \<and> expired_at now m)
       (\<lambda>m. m\<lparr>mr_LifecycleDeletePhase := ''ROUTE_DETACHED'', mr_UpdatedAt := now\<rparr>) ms)"

text \<open>\<open>backends\<close> are the machine and the execution of every stored route backend.\<close>

definition ExpiredRouteDetached :: "(string \<times> string) list \<Rightarrow> string \<Rightarrow> string \<Rightarrow> machines \<Rightarrow> bool" where
  "ExpiredRouteDetached backends mid e ms =
     (case GetMachine mid ms of
        None \<Rightarrow> False
      | Some m \<Rightarrow> mr_LifecycleDeletePhase m = ''ROUTE_DETACHED'' \<and> (mid, e) \<notin> set backends)"

definition ListExpiredMachines :: "int \<Rightarrow> machines \<Rightarrow> machines" where
  "ListExpiredMachines now ms =
     sort_key (\<lambda>m. case mr_ExpiresAt m of None \<Rightarrow> 0 | Some t \<Rightarrow> t) (filter (\<lambda>m. expired_at now m \<and> m_DesiredState m \<noteq> ''DELETED'') ms)"

definition route_active :: "MachineRow \<Rightarrow> bool" where
  "route_active m \<longleftrightarrow> m_DesiredState m \<in> {''CREATED'', ''RUNNING''} \<and> mr_LifecycleDeletePhase m = ''ACTIVE'' \<and>
     m_ObservedState m \<in> {''RUNNING'', ''PAUSED''} \<and> m_Hostname m \<noteq> ''''"

definition ResetMachineForRecreate :: "int \<Rightarrow> string \<Rightarrow> string \<Rightarrow> int \<Rightarrow> machines \<Rightarrow> machines" where
  "ResetMachineForRecreate now mid e generation ms =
     snd (update_machines (\<lambda>m. m_ID m = mid)
       (\<lambda>m. m\<lparr>m_CurrentExecutionID := e, m_Generation := generation, m_DesiredState := ''CREATED'', m_NodeID := '''', m_ObservedState := '''',
              mr_ObservedSlotIP := '''', m_ObservedReadiness := ''UNKNOWN'', mr_LastObservedAt := None, mr_UpdatedAt := now\<rparr>) ms)"

section \<open>Creating\<close>

record CreateMachineParams =
  cp_ProjectID :: string
  cp_AppID :: string
  cp_Hostname :: string
  cp_IngressPort :: int
  cp_MachineID :: string
  cp_DeploymentID :: string
  cp_ExecutionID :: string
  cp_OperationID :: string
  cp_Generation :: int
  cp_ReplicaOrdinal :: int
  cp_RequestJSON :: json
  cp_ExpiresAt :: "int option"
  cp_RestartMode :: string
  cp_RestartMaxAttempts :: int
  cp_RestartBackoffSeconds :: int
  cp_RestartStableWindowSeconds :: int

text \<open>The immutable owners of the rows a create touches; a machine is read together with its application.\<close>

definition ownership :: "CreateMachineParams \<Rightarrow> plane \<Rightarrow> outbox_err option" where
  "ownership p db =
     (let app_owner = (case mget (pl_apps db) (cp_AppID p) of Some pr \<Rightarrow> if pr \<noteq> cp_ProjectID p then Some (OwnershipConflictError ''app'' ''project_id'') else None | None \<Rightarrow> None);
          machine_owner = (case GetMachine (cp_MachineID p) (pl_machines db) of
             None \<Rightarrow> None
           | Some m \<Rightarrow> (case mget (pl_apps db) (m_AppID m) of
               None \<Rightarrow> None
             | Some pr \<Rightarrow>
                 if pr \<noteq> cp_ProjectID p then Some (OwnershipConflictError ''machine'' ''project_id'')
                 else if m_AppID m \<noteq> cp_AppID p then Some (OwnershipConflictError ''machine'' ''app_id'')
                 else if m_DeploymentID m \<noteq> cp_DeploymentID p then Some (OwnershipConflictError ''machine'' ''deployment_id'')
                 else None));
          deployment_owner = (case mget (pl_deployments db) (cp_DeploymentID p) of
             Some a \<Rightarrow> if a \<noteq> cp_AppID p then Some (OwnershipConflictError ''deployment'' ''app_id'') else None | None \<Rightarrow> None) in
      case app_owner of Some e \<Rightarrow> Some e | None \<Rightarrow> (case machine_owner of Some e \<Rightarrow> Some e | None \<Rightarrow> deployment_owner))"

definition create_params :: "CreateMachineParams \<Rightarrow> EnqueueOperationParams" where
  "create_params p =
     \<lparr>eq_OperationID = cp_OperationID p, eq_ProjectID = cp_ProjectID p, eq_MachineID = cp_MachineID p, eq_ExecutionID = cp_ExecutionID p,
      eq_Generation = cp_Generation p, eq_Kind = ''create'', eq_Request = cp_RequestJSON p, eq_DispatchNodeID = '''', eq_ResurrectFailed = False\<rparr>"

definition new_machine :: "int \<Rightarrow> CreateMachineParams \<Rightarrow> MachineRow" where
  "new_machine now p =
     \<lparr>m_ID = cp_MachineID p, m_AppID = cp_AppID p, m_DeploymentID = cp_DeploymentID p, m_ReplicaOrdinal = cp_ReplicaOrdinal p, m_Hostname = cp_Hostname p,
      m_DesiredState = ''CREATED'', m_Generation = cp_Generation p, m_CurrentExecutionID = cp_ExecutionID p, m_IngressPort = cp_IngressPort p, m_NodeID = '''',
      m_ObservedState = '''', m_ObservedReadiness = ''UNKNOWN'', m_CreatedAt = now, mr_ObservedSlotIP = '''', mr_LastObservedAt = None, mr_ExpiresAt = cp_ExpiresAt p,
      mr_RestartMode = cp_RestartMode p, mr_RestartMaxAttempts = cp_RestartMaxAttempts p, mr_RestartBackoffSeconds = cp_RestartBackoffSeconds p,
      mr_RestartStableWindowSeconds = cp_RestartStableWindowSeconds p, mr_RestartAttempts = 0, mr_RestartNextAttemptAt = None, mr_RestartStableSince = None,
      mr_RestartBlocked = False, mr_RestartFailedExecutionID = None, mr_LifecycleDeletePhase = ''ACTIVE'', mr_UpdatedAt = now\<rparr>"

text \<open>The conflict branch of the upsert: a deleted row is revived only if allowed; a new execution clears what was observed.\<close>

definition upsert_row :: "int \<Rightarrow> bool \<Rightarrow> CreateMachineParams \<Rightarrow> MachineRow \<Rightarrow> MachineRow" where
  "upsert_row now allow p m =
     (if m_DesiredState m = ''DELETED'' \<and> \<not> allow then m\<lparr>mr_UpdatedAt := now\<rparr>
      else
        (let m1 = m\<lparr>m_DesiredState := ''CREATED'', m_Generation := max (m_Generation m) (cp_Generation p), m_CurrentExecutionID := cp_ExecutionID p,
                m_ReplicaOrdinal := cp_ReplicaOrdinal p, m_IngressPort := cp_IngressPort p, mr_UpdatedAt := now\<rparr> in
         if m_DesiredState m = ''DELETED'' \<or> m_CurrentExecutionID m \<noteq> cp_ExecutionID p
         then m1\<lparr>m_ObservedState := '''', mr_ObservedSlotIP := '''', m_ObservedReadiness := ''UNKNOWN'', mr_LastObservedAt := None, m_NodeID := ''''\<rparr>
         else m1))"

text \<open>The index on the replica slots of an application; forks have a negative ordinal.\<close>

definition slot_taken :: "string \<Rightarrow> string \<Rightarrow> string \<Rightarrow> int \<Rightarrow> machines \<Rightarrow> bool" where
  "slot_taken mid app dep ordinal ms \<longleftrightarrow>
     0 \<le> ordinal \<and> list_ex (\<lambda>m. m_ID m \<noteq> mid \<and> m_AppID m = app \<and> m_DeploymentID m = dep \<and> m_ReplicaOrdinal m = ordinal) ms"

definition upsert_machine :: "int \<Rightarrow> bool \<Rightarrow> CreateMachineParams \<Rightarrow> machines \<Rightarrow> outbox_err + string \<times> machines" where
  "upsert_machine now allow p ms =
     (case GetMachine (cp_MachineID p) ms of
        None \<Rightarrow>
          if slot_taken (cp_MachineID p) (cp_AppID p) (cp_DeploymentID p) (cp_ReplicaOrdinal p) ms then Inl OpDBFailed
          else Inr (''CREATED'', ms @ [new_machine now p])
      | Some m \<Rightarrow>
          if m_AppID m \<noteq> cp_AppID p then Inl (OwnershipConflictError ''machine'' ''app_id'')
          else if m_DeploymentID m \<noteq> cp_DeploymentID p then Inl (OwnershipConflictError ''machine'' ''deployment_id'')
          else if slot_taken (cp_MachineID p) (cp_AppID p) (cp_DeploymentID p) (m_ReplicaOrdinal (upsert_row now allow p m)) ms then Inl OpDBFailed
          else Inr (m_DesiredState (upsert_row now allow p m), map (\<lambda>x. if m_ID x = cp_MachineID p then upsert_row now allow p x else x) ms))"

definition create_lookup :: "int \<Rightarrow> CreateMachineParams \<Rightarrow> plane \<Rightarrow> (outbox_err + Operation) option" where
  "create_lookup now p db =
     (case ownership p db of
        Some e \<Rightarrow> Some (Inl e)
      | None \<Rightarrow> map_option fst (enqueue_lookup now (create_params p) (pl_ops db)))"

definition write_machine :: "int \<Rightarrow> bool \<Rightarrow> CreateMachineParams \<Rightarrow> plane \<Rightarrow> (outbox_err + Operation) \<times> plane" where
  "write_machine now allow p db =
     (case upsert_machine now allow p (pl_machines db) of
        Inl e \<Rightarrow> (Inl e, db)
      | Inr (desired, ms) \<Rightarrow>
          if desired = ''DELETED'' then (Inl ErrMachineLifecycleClosed, db)
          else (case enqueue_insert now (create_params p) (pl_ops db) of
                  (Inl e, _) \<Rightarrow> (Inl e, db)
                | (Inr r, ops) \<Rightarrow> (Inr r, db\<lparr>pl_machines := ms, pl_ops := ops\<rparr>)))"

definition create_write :: "int \<Rightarrow> bool \<Rightarrow> CreateMachineParams \<Rightarrow> plane \<Rightarrow> (outbox_err + Operation) \<times> plane" where
  "create_write now allow p db =
     (case mget (pl_apps db) (cp_AppID p) of
        Some pr \<Rightarrow> if pr \<noteq> cp_ProjectID p then (Inl (OwnershipConflictError ''app'' ''project_id''), db) else write_machine now allow p db
      | None \<Rightarrow> write_machine now allow p (db\<lparr>pl_apps := mset_at (cp_AppID p) (cp_ProjectID p) (pl_apps db)\<rparr>))"

definition ensureAppAndEnqueueCreate :: "tx_end \<Rightarrow> int \<Rightarrow> bool \<Rightarrow> CreateMachineParams \<Rightarrow> plane \<Rightarrow> (outbox_err + Operation) \<times> plane" where
  "ensureAppAndEnqueueCreate tx now allow p = inTx OpDBFailed tx (\<lambda>db.
     case create_lookup now p db of Some res \<Rightarrow> (res, db) | None \<Rightarrow> create_write now allow p db)"

definition default_lifecycle :: "CreateMachineParams \<Rightarrow> CreateMachineParams" where
  "default_lifecycle p = p\<lparr>cp_ExpiresAt := None, cp_RestartMode := ''NEVER'', cp_RestartMaxAttempts := 3, cp_RestartBackoffSeconds := 10,
     cp_RestartStableWindowSeconds := 300\<rparr>"

definition EnsureAppAndEnqueueCreate :: "tx_end \<Rightarrow> int \<Rightarrow> CreateMachineParams \<Rightarrow> plane \<Rightarrow> (outbox_err + Operation) \<times> plane" where
  "EnsureAppAndEnqueueCreate tx now p = ensureAppAndEnqueueCreate tx now False (default_lifecycle p)"

definition EnsureAppAndEnqueueCreateResurrect :: "tx_end \<Rightarrow> int \<Rightarrow> CreateMachineParams \<Rightarrow> plane \<Rightarrow> (outbox_err + Operation) \<times> plane" where
  "EnsureAppAndEnqueueCreateResurrect tx now p = ensureAppAndEnqueueCreate tx now True (default_lifecycle p)"

definition EnsureAppAndEnqueueCreateWithLifecycle :: "tx_end \<Rightarrow> int \<Rightarrow> CreateMachineParams \<Rightarrow> plane \<Rightarrow> (outbox_err + Operation) \<times> plane" where
  "EnsureAppAndEnqueueCreateWithLifecycle tx now p = ensureAppAndEnqueueCreate tx now False p"

section \<open>Restarting\<close>

definition restartable :: "string \<Rightarrow> string \<Rightarrow> int \<Rightarrow> MachineRow \<Rightarrow> bool" where
  "restartable mid e generation m \<longleftrightarrow> m_ID m = mid \<and> m_CurrentExecutionID m = e \<and> m_Generation m = generation \<and>
     m_DesiredState m \<noteq> ''DELETED'' \<and> mr_LifecycleDeletePhase m = ''ACTIVE''"

definition PrepareRestartBackoff :: "int \<Rightarrow> string \<Rightarrow> string \<Rightarrow> int \<Rightarrow> int \<Rightarrow> machines \<Rightarrow> bool \<times> machines" where
  "PrepareRestartBackoff now mid e generation nextAt ms =
     (let (n, ms1) = update_machines (\<lambda>m. restartable mid e generation m \<and> mr_RestartFailedExecutionID m \<noteq> Some e)
        (\<lambda>m. m\<lparr>mr_RestartFailedExecutionID := Some e, mr_RestartNextAttemptAt := Some nextAt, mr_UpdatedAt := now\<rparr>) ms in
      (n = 1, ms1))"

definition RestartAttemptNumber :: "string \<Rightarrow> string \<Rightarrow> int \<Rightarrow> machines \<Rightarrow> outbox_err + int" where
  "RestartAttemptNumber mid e generation ms =
     (case List.find (restartable mid e generation) ms of None \<Rightarrow> Inl ErrMachineLifecycleClosed | Some m \<Rightarrow> Inr (mr_RestartAttempts m + 1))"

definition restart_due :: "int \<Rightarrow> string \<Rightarrow> string \<Rightarrow> int \<Rightarrow> MachineRow \<Rightarrow> bool" where
  "restart_due now mid e generation m \<longleftrightarrow> restartable mid e generation m \<and> mr_RestartFailedExecutionID m = Some e \<and>
     (case mr_RestartNextAttemptAt m of None \<Rightarrow> False | Some t \<Rightarrow> t \<le> now)"

definition restart_row :: "int \<Rightarrow> string \<Rightarrow> int \<Rightarrow> int \<Rightarrow> MachineRow \<Rightarrow> MachineRow" where
  "restart_row now newExec generation nextAt m =
     m\<lparr>m_CurrentExecutionID := newExec, m_Generation := generation + 1, m_DesiredState := ''CREATED'', m_ObservedState := '''', mr_ObservedSlotIP := '''',
       m_ObservedReadiness := ''UNKNOWN'', mr_LastObservedAt := None, m_NodeID := '''', mr_RestartAttempts := mr_RestartAttempts m + 1,
       mr_RestartNextAttemptAt := Some nextAt, mr_RestartStableSince := None, mr_UpdatedAt := now\<rparr>"

text \<open>The project is the caller's, or empty; the update joins the application of the machine.\<close>

definition EnqueueRestartCAS :: "tx_end \<Rightarrow> int \<Rightarrow> string \<Rightarrow> string \<Rightarrow> string \<Rightarrow> string \<Rightarrow> string \<Rightarrow> int \<Rightarrow> json \<Rightarrow> int \<Rightarrow> plane \<Rightarrow>
    (outbox_err + Operation) \<times> plane" where
  "EnqueueRestartCAS tx now project mid failedExec newExec opID generation req nextAt = inTx OpDBFailed tx (\<lambda>db.
     case List.find (restart_due now mid failedExec generation) (pl_machines db) of
       None \<Rightarrow> (Inl ErrMachineLifecycleClosed, db)
     | Some m \<Rightarrow>
         (case mget (pl_apps db) (m_AppID m) of
            None \<Rightarrow> (Inl ErrMachineLifecycleClosed, db)
          | Some owner \<Rightarrow>
              if project \<noteq> '''' \<and> project \<noteq> owner then (Inl (OwnershipConflictError ''machine'' ''project_id''), db)
              else
                (case enqueue_insert now \<lparr>eq_OperationID = opID, eq_ProjectID = owner, eq_MachineID = mid, eq_ExecutionID = newExec,
                       eq_Generation = generation + 1, eq_Kind = ''create'', eq_Request = req, eq_DispatchNodeID = '''', eq_ResurrectFailed = False\<rparr> (pl_ops db) of
                   (Inl e, _) \<Rightarrow> (Inl e, db)
                 | (Inr r, ops) \<Rightarrow>
                     (Inr r, db\<lparr>pl_machines := map (\<lambda>m. if restart_due now mid failedExec generation m then restart_row now newExec generation nextAt m else m) (pl_machines db),
                       pl_ops := ops\<rparr>))))"

section \<open>Rescues and forks\<close>

text \<open>
  The machine and the operation that a rescue or a fork writes. The row of the snapshot and the features of the node are not
  part of the model: \<open>checked\<close> is the answer of the transaction's tests on them, \<open>None\<close> when they pass. The route backend that a
  rescue removes and the references that protect a snapshot are other tables.
\<close>

record RescueReplacementParams =
  rr_ProjectID :: string
  rr_MachineID :: string
  rr_OldExecutionID :: string
  rr_OldGeneration :: int
  rr_NewExecutionID :: string
  rr_OperationID :: string
  rr_Request :: json
  rr_DispatchNodeID :: string

definition rescue_target :: "RescueReplacementParams \<Rightarrow> MachineRow \<Rightarrow> bool" where
  "rescue_target p m \<longleftrightarrow> restartable (rr_MachineID p) (rr_OldExecutionID p) (rr_OldGeneration p) m \<and> m_NodeID m = rr_DispatchNodeID p"

definition rescue_row :: "int \<Rightarrow> RescueReplacementParams \<Rightarrow> MachineRow \<Rightarrow> MachineRow" where
  "rescue_row now p m =
     m\<lparr>m_CurrentExecutionID := rr_NewExecutionID p, m_Generation := rr_OldGeneration p + 1, m_ObservedState := '''', mr_ObservedSlotIP := '''',
       m_ObservedReadiness := ''UNKNOWN'', mr_LastObservedAt := None, mr_UpdatedAt := now\<rparr>"

definition rescue_params :: "RescueReplacementParams \<Rightarrow> EnqueueOperationParams" where
  "rescue_params p =
     \<lparr>eq_OperationID = rr_OperationID p, eq_ProjectID = rr_ProjectID p, eq_MachineID = rr_MachineID p, eq_ExecutionID = rr_NewExecutionID p,
      eq_Generation = rr_OldGeneration p + 1, eq_Kind = ''rescue'', eq_Request = rr_Request p, eq_DispatchNodeID = rr_DispatchNodeID p,
      eq_ResurrectFailed = False\<rparr>"

definition rescue_write :: "int \<Rightarrow> RescueReplacementParams \<Rightarrow> plane \<Rightarrow> (outbox_err + Operation) \<times> plane" where
  "rescue_write now p db =
     (if rr_OldExecutionID p = '''' \<or> rr_NewExecutionID p = '''' \<or> rr_NewExecutionID p = rr_OldExecutionID p \<or> rr_OldGeneration p < 1
      then (Inl ErrRescueConflict, db)
      else
        (case List.find (rescue_target p) (pl_machines db) of
           None \<Rightarrow> (Inl ErrRescueConflict, db)
         | Some m \<Rightarrow>
             (case mget (pl_apps db) (m_AppID m) of
                None \<Rightarrow> (Inl ErrRescueConflict, db)
              | Some owner \<Rightarrow>
                  if owner \<noteq> rr_ProjectID p then (Inl (OwnershipConflictError ''machine'' ''project_id''), db)
                  else
                    (case enqueue_insert now (rescue_params p) (pl_ops db) of
                       (Inl e, _) \<Rightarrow> (Inl e, db)
                     | (Inr r, ops) \<Rightarrow>
                         (Inr r, db\<lparr>pl_machines := snd (update_machines (rescue_target p) (rescue_row now p) (pl_machines db)), pl_ops := ops\<rparr>)))))"

definition EnqueueRescueReplacement :: "tx_end \<Rightarrow> int \<Rightarrow> outbox_err option \<Rightarrow> RescueReplacementParams \<Rightarrow> plane \<Rightarrow> (outbox_err + Operation) \<times> plane" where
  "EnqueueRescueReplacement tx now checked p = inTx OpDBFailed tx (\<lambda>db.
     case selectOperationByKey (rr_ProjectID p) (rr_OperationID p) (pl_ops db) of
       Some r \<Rightarrow>
         if \<not> jsonEqual (op_Request r) (rr_Request p) \<or> op_Kind r \<noteq> ''rescue'' \<or> op_MachineID r \<noteq> rr_MachineID p \<or> op_ExecutionID r \<noteq> rr_NewExecutionID p
         then (Inl ErrRequestConflict, db) else (Inr r, db)
     | None \<Rightarrow> (case checked of Some e \<Rightarrow> (Inl e, db) | None \<Rightarrow> rescue_write now p db))"

record ForkMachineParams =
  fk_ProjectID :: string
  fk_AppID :: string
  fk_MachineID :: string
  fk_ExecutionID :: string
  fk_NodeID :: string
  fk_ExpiresAt :: "int option"

definition fork_machine :: "int \<Rightarrow> ForkMachineParams \<Rightarrow> MachineRow" where
  "fork_machine now p =
     \<lparr>m_ID = fk_MachineID p, m_AppID = fk_AppID p, m_DeploymentID = '''', m_ReplicaOrdinal = -1, m_Hostname = '''',
      m_DesiredState = ''CREATED'', m_Generation = 1, m_CurrentExecutionID = fk_ExecutionID p, m_IngressPort = 8080, m_NodeID = fk_NodeID p,
      m_ObservedState = '''', m_ObservedReadiness = ''UNKNOWN'', m_CreatedAt = now, mr_ObservedSlotIP = '''', mr_LastObservedAt = None, mr_ExpiresAt = fk_ExpiresAt p,
      mr_RestartMode = ''NEVER'', mr_RestartMaxAttempts = 0, mr_RestartBackoffSeconds = 0, mr_RestartStableWindowSeconds = 0,
      mr_RestartAttempts = 0, mr_RestartNextAttemptAt = None, mr_RestartStableSince = None,
      mr_RestartBlocked = False, mr_RestartFailedExecutionID = None, mr_LifecycleDeletePhase = ''ACTIVE'', mr_UpdatedAt = now\<rparr>"

definition insertSnapshotOperation :: "int \<Rightarrow> EnqueueOperationParams \<Rightarrow> operations \<Rightarrow> (outbox_err + Operation) \<times> operations" where
  "insertSnapshotOperation now q ops =
     (case selectOperationByKey (eq_ProjectID q) (eq_OperationID q) ops of
        Some r \<Rightarrow>
          if op_Kind r \<noteq> eq_Kind q \<or> op_MachineID r \<noteq> eq_MachineID q \<or> op_ExecutionID r \<noteq> eq_ExecutionID q \<or> op_Generation r \<noteq> eq_Generation q \<or>
             \<not> jsonEqual (op_Request r) (eq_Request q)
          then (Inl ErrRequestConflict, ops) else (Inr r, ops)
      | None \<Rightarrow> enqueue_insert now q ops)"

definition CreateForkMachineAndEnqueue :: "tx_end \<Rightarrow> int \<Rightarrow> outbox_err option \<Rightarrow> ForkMachineParams \<Rightarrow> EnqueueOperationParams \<Rightarrow> plane \<Rightarrow>
    (outbox_err + Operation) \<times> plane" where
  "CreateForkMachineAndEnqueue tx now checked p q db =
     (if fk_MachineID p = '''' \<or> fk_ExecutionID p = '''' \<or> eq_Kind q \<noteq> ''fork'' \<or> eq_ProjectID q \<noteq> fk_ProjectID p \<or> eq_MachineID q \<noteq> fk_MachineID p \<or>
         eq_ExecutionID q \<noteq> fk_ExecutionID p \<or> eq_Generation q \<noteq> 1 \<or> eq_DispatchNodeID q \<noteq> fk_NodeID p
      then (Inl InvalidForkCommand, db)
      else inTx OpDBFailed tx (\<lambda>db.
        case checked of
          Some e \<Rightarrow> (Inl e, db)
        | None \<Rightarrow>
            if GetMachine (fk_MachineID p) (pl_machines db) \<noteq> None \<or> mget (pl_apps db) (fk_AppID p) = None then (Inl OpDBFailed, db)
            else
              (case insertSnapshotOperation now q (pl_ops db) of
                 (Inl e, _) \<Rightarrow> (Inl e, db)
               | (Inr r, ops) \<Rightarrow> (Inr r, db\<lparr>pl_machines := pl_machines db @ [fork_machine now p], pl_ops := ops\<rparr>))) db)"

definition RecordRestartAttempt :: "int \<Rightarrow> string \<Rightarrow> int \<Rightarrow> int \<Rightarrow> machines \<Rightarrow> (outbox_err + unit) \<times> machines" where
  "RecordRestartAttempt now mid attempts nextAt ms =
     (let (n, ms1) = update_machines (\<lambda>m. m_ID m = mid \<and> m_DesiredState m \<noteq> ''DELETED'')
        (\<lambda>m. m\<lparr>mr_RestartAttempts := attempts, mr_RestartNextAttemptAt := Some nextAt, mr_RestartStableSince := None, mr_UpdatedAt := now\<rparr>) ms in
      (if n = 0 then Inl ErrMachineLifecycleClosed else Inr (), ms1))"

definition SetRestartStableSince :: "int \<Rightarrow> string \<Rightarrow> int option \<Rightarrow> machines \<Rightarrow> machines" where
  "SetRestartStableSince now mid t ms = snd (update_machines (\<lambda>m. m_ID m = mid) (\<lambda>m. m\<lparr>mr_RestartStableSince := t, mr_UpdatedAt := now\<rparr>) ms)"

definition ResetRestartAttempts :: "int \<Rightarrow> string \<Rightarrow> machines \<Rightarrow> (outbox_err + unit) \<times> machines" where
  "ResetRestartAttempts now mid ms =
     (let (n, ms1) = update_machines (\<lambda>m. m_ID m = mid)
        (\<lambda>m. m\<lparr>mr_RestartAttempts := 0, mr_RestartNextAttemptAt := None, mr_RestartStableSince := None, mr_RestartBlocked := False, mr_UpdatedAt := now\<rparr>) ms in
      (if n = 0 then Inl ErrMachineNotFound else Inr (), ms1))"

definition BlockRestart :: "int \<Rightarrow> string \<Rightarrow> bool \<Rightarrow> machines \<Rightarrow> machines" where
  "BlockRestart now mid blocked ms = snd (update_machines (\<lambda>m. m_ID m = mid) (\<lambda>m. m\<lparr>mr_RestartBlocked := blocked, mr_UpdatedAt := now\<rparr>) ms)"

section \<open>Histories of the machines\<close>

text \<open>
  The statements of all callers on the joint tables; \<open>CreateLate\<close> is the write of a create whose lookup read older
  tables. A report carries the machine, the execution and the state.
\<close>

datatype plane_op =
    OnOutbox outbox_op
  | Create tx_end bool CreateMachineParams
  | CreateLate tx_end bool CreateMachineParams
  | Restart tx_end string string string string string int json int
  | Report string string string string string
  | ReportNode string string string string string string
  | ReportFenced string string string int string string string
  | Missing string
  | Deleted string
  | Expiry string "int option"
  | Policy string string int int int
  | Detach string
  | Recreate string string int
  | Backoff string string int int
  | Attempt string int int
  | Stable string "int option"
  | ResetAttempts string
  | Block string bool
  | Rescue tx_end "outbox_err option" RescueReplacementParams
  | Fork tx_end "outbox_err option" ForkMachineParams EnqueueOperationParams

definition on_machines :: "(machines \<Rightarrow> machines) \<Rightarrow> plane \<Rightarrow> plane" where
  "on_machines f db = db\<lparr>pl_machines := f (pl_machines db)\<rparr>"

definition plane_run :: "int \<Rightarrow> plane_op \<Rightarrow> plane \<Rightarrow> plane" where
  "plane_run now x db =
     (case x of
        OnOutbox y \<Rightarrow> db\<lparr>pl_ops := outbox_run now y (pl_ops db)\<rparr>
      | Create tx allow p \<Rightarrow> snd (ensureAppAndEnqueueCreate tx now allow p db)
      | CreateLate tx allow p \<Rightarrow> snd (inTx OpDBFailed tx (create_write now allow p) db)
      | Restart tx project mid failedExec newExec opID generation req nextAt \<Rightarrow>
          snd (EnqueueRestartCAS tx now project mid failedExec newExec opID generation req nextAt db)
      | Report mid e state slot readiness \<Rightarrow> on_machines (UpdateMachineObserved now mid e state slot readiness) db
      | ReportNode mid node e state slot readiness \<Rightarrow> on_machines (UpdateMachineNodeAndObserved now mid node e state slot readiness) db
      | ReportFenced mid node e generation state slot readiness \<Rightarrow>
          on_machines (snd \<circ> UpdateMachineObservedWithFenceCAS now mid node e generation state slot readiness) db
      | Missing mid \<Rightarrow> on_machines (MarkMachineObservedMissing now mid) db
      | Deleted mid \<Rightarrow> on_machines (MarkMachineDeleted now mid) db
      | Expiry mid t \<Rightarrow> on_machines (snd \<circ> SetMachineExpiry now mid t) db
      | Policy mid mode a b w \<Rightarrow> on_machines (snd \<circ> SetMachineRestartPolicy now mid mode a b w) db
      | Detach mid \<Rightarrow> on_machines (MarkExpiredRouteDetached now mid) db
      | Recreate mid e generation \<Rightarrow> on_machines (ResetMachineForRecreate now mid e generation) db
      | Backoff mid e generation nextAt \<Rightarrow> on_machines (snd \<circ> PrepareRestartBackoff now mid e generation nextAt) db
      | Attempt mid a nextAt \<Rightarrow> on_machines (snd \<circ> RecordRestartAttempt now mid a nextAt) db
      | Stable mid t \<Rightarrow> on_machines (SetRestartStableSince now mid t) db
      | ResetAttempts mid \<Rightarrow> on_machines (snd \<circ> ResetRestartAttempts now mid) db
      | Block mid b \<Rightarrow> on_machines (BlockRestart now mid b) db
      | Rescue tx checked p \<Rightarrow> snd (EnqueueRescueReplacement tx now checked p db)
      | Fork tx checked p q \<Rightarrow> snd (CreateForkMachineAndEnqueue tx now checked p q db))"

fun plane_runs :: "(int \<times> plane_op) list \<Rightarrow> plane \<Rightarrow> plane" where
  "plane_runs [] db = db"
| "plane_runs ((now, x) # xs) db = plane_runs xs (plane_run now x db)"

text \<open>Owners never change and the generation never goes back.\<close>

definition machine_kept :: "MachineRow \<Rightarrow> MachineRow \<Rightarrow> bool" where
  "machine_kept m m' \<longleftrightarrow> m_ID m' = m_ID m \<and> m_AppID m' = m_AppID m \<and> m_DeploymentID m' = m_DeploymentID m \<and> m_Generation m \<le> m_Generation m'"

interpretation machines: row_table m_ID "\<lambda>_. True" machine_kept
  by unfold_locales (auto simp: machine_kept_def)

lemma update_machines_step: "(\<And>m. P m \<Longrightarrow> machine_kept m (f m)) \<Longrightarrow> machines.step ms (snd (update_machines P f ms))"
  unfolding update_machines_def snd_conv by (rule machines.step_update) simp

lemma GetMachine_Some: "GetMachine mid ms = Some m \<Longrightarrow> m \<in> set ms \<and> m_ID m = mid"
  using find_SomeD[of "\<lambda>m. m_ID m = mid" ms m] by (simp add: GetMachine_def)

lemma GetMachine_None: "GetMachine mid ms = None \<longleftrightarrow> mid \<notin> m_ID ` set ms"
  by (auto simp: GetMachine_def find_None_iff)

lemma upsert_row_kept: "machine_kept m (upsert_row now allow p m)"
  by (simp add: upsert_row_def machine_kept_def Let_def)

lemma upsert_machine_step: "upsert_machine now allow p ms = Inr (desired, ms') \<Longrightarrow> machines.step ms ms'"
  by (auto simp: upsert_machine_def GetMachine_None new_machine_def upsert_row_kept split: option.splits if_splits
      intro!: machines.appended machines.step_update)

lemma write_machine_step: "machines.step (pl_machines db) (pl_machines (snd (write_machine now allow p db)))"
  by (auto simp: write_machine_def machines.step_refl split: sum.splits prod.splits dest: upsert_machine_step)

lemma create_write_step: "machines.step (pl_machines db) (pl_machines (snd (create_write now allow p db)))"
  using write_machine_step[of "db\<lparr>pl_apps := mset_at (cp_AppID p) (cp_ProjectID p) (pl_apps db)\<rparr>" now allow p] write_machine_step[of db now allow p]
  by (auto simp: create_write_def machines.step_refl split: option.splits)

lemma machines_inTx: "machines.step (pl_machines db) (pl_machines (snd (f db))) \<Longrightarrow> machines.step (pl_machines db) (pl_machines (snd (inTx failed tx f db)))"
  using inTx_snd[of failed tx f db] machines.step_refl by auto

lemma ensure_step: "machines.step (pl_machines db) (pl_machines (snd (ensureAppAndEnqueueCreate tx now allow p db)))"
  unfolding ensureAppAndEnqueueCreate_def
  by (rule machines_inTx) (auto simp: create_write_step machines.step_refl split: option.splits)

lemma restart_row_kept: "restart_due now mid e g m \<Longrightarrow> machine_kept m (restart_row now' x g t m)"
  by (simp add: restart_due_def restartable_def restart_row_def machine_kept_def)

lemma restart_step:
  "machines.step (pl_machines db) (pl_machines (snd (EnqueueRestartCAS tx now project mid failedExec newExec opID generation req nextAt db)))"
  unfolding EnqueueRestartCAS_def
  by (rule machines_inTx) (auto simp: machines.step_refl restart_row_kept split: option.splits sum.splits prod.splits intro!: machines.step_update)

lemma rescue_row_kept: "rescue_target p m \<Longrightarrow> machine_kept m (rescue_row now p m)"
  by (simp add: rescue_target_def restartable_def rescue_row_def machine_kept_def)

lemma rescue_step: "machines.step (pl_machines db) (pl_machines (snd (EnqueueRescueReplacement tx now checked p db)))"
  unfolding EnqueueRescueReplacement_def
  by (rule machines_inTx)
     (auto simp: rescue_write_def machines.step_refl rescue_row_kept split: option.splits sum.splits prod.splits intro!: update_machines_step)

lemma fork_step: "machines.step (pl_machines db) (pl_machines (snd (CreateForkMachineAndEnqueue tx now checked p q db)))"
  unfolding CreateForkMachineAndEnqueue_def
  by (auto simp: machines.step_refl GetMachine_None fork_machine_def split: option.splits sum.splits prod.splits
      intro!: machines_inTx machines.appended)

lemmas machine_statement_defs =
  UpdateMachineObserved_def UpdateMachineNodeAndObserved_def UpdateMachineObservedWithFenceCAS_def MarkMachineObservedMissing_def MarkMachineDeleted_def
  SetMachineExpiry_def SetMachineRestartPolicy_def MarkExpiredRouteDetached_def PrepareRestartBackoff_def RecordRestartAttempt_def
  SetRestartStableSince_def ResetRestartAttempts_def BlockRestart_def

lemma closed_or_missing_snd [simp]: "snd (closed_or_missing mid res) = snd res"
  by (simp add: closed_or_missing_def)

lemma case_pair_snd [simp]: "snd (case r of (n, ms) \<Rightarrow> (f n, ms)) = snd r"
  by (simp split: prod.splits)

lemma plane_run_step:
  assumes "\<And>mid e g. x \<noteq> Recreate mid e g"
  shows "machines.step (pl_machines db) (pl_machines (plane_run now x db))"
proof (cases x)
  case (Recreate mid e g)
  with assms show ?thesis by blast
qed (simp_all add: plane_run_def on_machines_def ensure_step restart_step rescue_step fork_step create_write_step machines.step_refl machines_inTx machine_statement_defs
      update_machines_step machine_kept_def)

definition recreates :: "plane_op \<Rightarrow> bool" where
  "recreates x \<longleftrightarrow> (case x of Recreate _ _ _ \<Rightarrow> True | _ \<Rightarrow> False)"

lemma plane_runs_steps: "\<forall>y \<in> set xs. \<not> recreates (snd y) \<Longrightarrow> machines.step\<^sup>*\<^sup>* (pl_machines db) (pl_machines (plane_runs xs db))"
proof (induction xs db rule: plane_runs.induct)
  case (2 now x xs db)
  then have "machines.step (pl_machines db) (pl_machines (plane_run now x db))" by (intro plane_run_step) (auto simp: recreates_def)
  with 2 show ?case by (auto intro: converse_rtranclp_into_rtranclp)
qed simp

text \<open>
  The generation of a machine never goes back and its owners never change, whatever creates, restarts,
  observations and deletions run in any order, on stale views and with failing transactions; the unconditional reset
  of an evacuation is the only statement left out.
\<close>

lemma machine_generation_monotone:
  assumes "distinct (map m_ID (pl_machines db))" "m \<in> set (pl_machines db)" "\<forall>y \<in> set xs. \<not> recreates (snd y)"
  shows "\<exists>m'. m' \<in> set (pl_machines (plane_runs xs db)) \<and> m_ID m' = m_ID m \<and> m_AppID m' = m_AppID m \<and> m_DeploymentID m' = m_DeploymentID m \<and>
    m_Generation m \<le> m_Generation m'"
  using machines.steps_row[OF plane_runs_steps[OF assms(3)] _ assms(2)] assms(1)
  by (auto simp: machines.table_ok_def machine_kept_def list_all_iff)

section \<open>Restarts\<close>



section \<open>Observations belong to the current execution\<close>

definition report_of :: "plane_op \<Rightarrow> (string \<times> string \<times> string) option" where
  "report_of x =
     (case x of
        Report mid e state _ _ \<Rightarrow> Some (mid, e, state)
      | ReportNode mid _ e state _ _ \<Rightarrow> Some (mid, e, state)
      | ReportFenced mid _ e _ state _ _ \<Rightarrow> Some (mid, e, state)
      | _ \<Rightarrow> None)"

definition observed_from :: "(string \<times> string \<times> string) set \<Rightarrow> MachineRow \<Rightarrow> bool" where
  "observed_from R m \<longleftrightarrow> m_ObservedState m \<in> {'''', ''UNKNOWN''} \<or> (m_ID m, m_CurrentExecutionID m, m_ObservedState m) \<in> R"

lemma observed_update:
  "\<lbrakk>list_all (observed_from R) ms; R \<subseteq> R'; \<And>m. \<lbrakk>P m; observed_from R m\<rbrakk> \<Longrightarrow> observed_from R' (f m)\<rbrakk> \<Longrightarrow> list_all (observed_from R') (snd (update_machines P f ms))"
  by (auto simp: update_machines_def list_all_iff observed_from_def)

lemma observed_inTx: "\<lbrakk>Q (pl_machines db); Q (pl_machines (snd (f db)))\<rbrakk> \<Longrightarrow> Q (pl_machines (snd (inTx failed tx f db)))"
  using inTx_snd[of failed tx f db] by auto

lemma observed_upsert:
  assumes "list_all (observed_from R) ms" "upsert_machine now allow p ms = Inr (desired, ms')"
  shows "list_all (observed_from R) ms'"
proof -
  have "observed_from R (upsert_row now allow p m)" if "observed_from R m" for m
    using that by (auto simp: upsert_row_def observed_from_def Let_def)
  moreover have "observed_from R (new_machine now p)" by (simp add: observed_from_def new_machine_def)
  ultimately show ?thesis using assms by (auto simp: upsert_machine_def list_all_iff split: option.splits if_splits)
qed

lemma observed_write: "list_all (observed_from R) (pl_machines db) \<Longrightarrow> list_all (observed_from R) (pl_machines (snd (write_machine now allow p db)))"
  by (auto simp: write_machine_def split: sum.splits prod.splits dest: observed_upsert)

lemma observed_create_write: "list_all (observed_from R) (pl_machines db) \<Longrightarrow> list_all (observed_from R) (pl_machines (snd (create_write now allow p db)))"
  by (auto simp: create_write_def observed_write split: option.splits)

lemma observed_run:
  assumes "list_all (observed_from R) (pl_machines db)"
  shows "list_all (observed_from (R \<union> set_option (report_of x))) (pl_machines (plane_run now x db))"
proof (cases x)
  case (Create tx allow p)
  have "list_all (observed_from R) (pl_machines (snd (case create_lookup now p db of None \<Rightarrow> create_write now allow p db | Some res \<Rightarrow> (res, db))))"
    using assms by (auto simp: observed_create_write split: option.splits)
  then show ?thesis using assms observed_inTx[of "list_all (observed_from R)" db]
    by (simp add: Create plane_run_def report_of_def ensureAppAndEnqueueCreate_def)
next
  case (CreateLate tx allow p)
  then show ?thesis using assms observed_create_write[OF assms] observed_inTx[of "list_all (observed_from R)" db "create_write now allow p"]
    by (simp add: plane_run_def report_of_def)
next
  case (Restart tx project mid failedExec newExec opID g req nextAt)
  have "list_all (observed_from R) (map (\<lambda>m. if restart_due now mid failedExec g m then restart_row now newExec g nextAt m else m) (pl_machines db))"
    using assms by (auto simp: list_all_iff observed_from_def restart_row_def)
  then show ?thesis using assms unfolding Restart
    by (auto simp: plane_run_def report_of_def EnqueueRestartCAS_def intro!: observed_inTx[of "list_all (observed_from R)"]
        split: option.splits sum.splits prod.splits)
next
  case (Rescue tx checked p)
  have "list_all (observed_from R) (snd (update_machines (rescue_target p) (rescue_row now p) (pl_machines db)))"
    using assms by (rule observed_update) (simp_all add: observed_from_def rescue_row_def)
  then show ?thesis using assms unfolding Rescue
    by (auto simp: plane_run_def report_of_def EnqueueRescueReplacement_def rescue_write_def intro!: observed_inTx[of "list_all (observed_from R)"]
        split: option.splits sum.splits prod.splits)
next
  case (Fork tx checked p q)
  have "observed_from R (fork_machine now p)" by (simp add: observed_from_def fork_machine_def)
  then show ?thesis using assms unfolding Fork
    by (auto simp: plane_run_def report_of_def CreateForkMachineAndEnqueue_def intro!: observed_inTx[of "list_all (observed_from R)"]
        split: option.splits sum.splits prod.splits)
qed (use assms in \<open>auto simp: plane_run_def on_machines_def report_of_def machine_statement_defs ResetMachineForRecreate_def intro!: observed_update\<close>,
     auto simp: observed_from_def)

lemma observed_runs:
  "list_all (observed_from R) (pl_machines db) \<Longrightarrow>
   list_all (observed_from (R \<union> (\<Union>y \<in> set xs. set_option (report_of (snd y))))) (pl_machines (plane_runs xs db))"
proof (induction xs arbitrary: R db)
  case (Cons x xs)
  obtain now y where x: "x = (now, y)" by (cases x)
  show ?case using Cons.IH[OF observed_run[OF Cons.prems, of y now]] by (simp add: x Un_assoc)
qed simp

text \<open>
  Claim C13. What the control plane believes about a machine comes from its current execution: after any history of
  the tables, a machine whose observed state is neither empty nor unknown was reported in this state for exactly the
  execution that is current. A late report of an older execution, a revived or restarted machine, or a reset never
  leaves an observation of another execution behind.
\<close>

theorem observations_of_current_execution:
  assumes "pl_machines db = []" "m \<in> set (pl_machines (plane_runs xs db))" "m_ObservedState m \<notin> {'''', ''UNKNOWN''}"
  shows "\<exists>y. y \<in> set xs \<and> report_of (snd y) = Some (m_ID m, m_CurrentExecutionID m, m_ObservedState m)"
  using observed_runs[of "{}" db xs] assms by (fastforce simp: list_all_iff observed_from_def)

section \<open>Deleted machines\<close>

text \<open>The statements that may bring a deleted machine back: a create of its owner that allows it, and a reset.\<close>

definition revives :: "string \<Rightarrow> plane_op \<Rightarrow> bool" where
  "revives mid x \<longleftrightarrow>
     (case x of
        Create _ allow p \<Rightarrow> allow \<and> cp_MachineID p = mid
      | CreateLate _ allow p \<Rightarrow> allow \<and> cp_MachineID p = mid
      | Recreate i _ _ \<Rightarrow> i = mid
      | OnOutbox (Enqueue _ p) \<Rightarrow> eq_MachineID p = mid \<and> eq_Kind p = ''create''
      | OnOutbox (EnqueueLate _ p) \<Rightarrow> eq_MachineID p = mid \<and> eq_Kind p = ''create''
      | _ \<Rightarrow> False)"

definition deleted_in :: "string \<Rightarrow> machines \<Rightarrow> bool" where
  "deleted_in mid ms \<longleftrightarrow> mid \<in> m_ID ` set ms \<and> (\<forall>m \<in> set ms. m_ID m = mid \<longrightarrow> m_DesiredState m = ''DELETED'')"

definition creates_for :: "string \<Rightarrow> operations \<Rightarrow> string set" where
  "creates_for mid ops = op_ID ` {r \<in> set ops. op_MachineID r = mid \<and> op_Kind r = ''create''}"

lemma deleted_update:
  assumes "deleted_in mid ms" "\<And>m. P m \<Longrightarrow> m_ID (f m) = m_ID m \<and> (m_DesiredState m = ''DELETED'' \<longrightarrow> m_DesiredState (f m) = ''DELETED'')"
  shows "deleted_in mid (snd (update_machines P f ms))"
proof -
  have "map m_ID (map (\<lambda>m. if P m then f m else m) ms) = map m_ID ms" using assms(2) by simp
  then have "m_ID ` set (map (\<lambda>m. if P m then f m else m) ms) = m_ID ` set ms" by (metis set_map)
  moreover have "m_DesiredState x = ''DELETED''" if "x \<in> set (map (\<lambda>m. if P m then f m else m) ms)" "m_ID x = mid" for x
    using that assms by (auto simp: deleted_in_def split: if_splits)
  ultimately show ?thesis using assms(1) unfolding deleted_in_def update_machines_def snd_conv by blast
qed

lemma upsert_row_deleted: "m_DesiredState m = ''DELETED'' \<Longrightarrow> m_DesiredState (upsert_row now False p m) = ''DELETED''"
  by (simp add: upsert_row_def)

lemma upsert_row_ID [simp]: "m_ID (upsert_row now allow p m) = m_ID m"
  by (simp add: upsert_row_def Let_def)

lemma creates_inserted: "\<lbrakk>insert_operation r ops = Inr ops'; \<not> (op_MachineID r = mid \<and> op_Kind r = ''create'')\<rbrakk> \<Longrightarrow> creates_for mid ops' = creates_for mid ops"
  by (auto simp: insert_operation_def creates_for_def split: if_splits)

lemma creates_enqueue_insert:
  "\<not> (eq_MachineID p = mid \<and> eq_Kind p = ''create'') \<Longrightarrow> creates_for mid (snd (enqueue_insert now p ops)) = creates_for mid ops"
  using creates_inserted[of "new_operation now p" ops _ mid]
  by (auto simp: enqueue_insert_def new_operation_def split: sum.splits option.splits)

lemma creates_map:
  assumes "\<And>r. op_ID (f r) = op_ID r \<and> op_MachineID (f r) = op_MachineID r \<and> op_Kind (f r) = op_Kind r"
  shows "creates_for mid (map f ops) = creates_for mid ops"
proof -
  have "{r \<in> set (map f ops). op_MachineID r = mid \<and> op_Kind r = ''create''} = f ` {r \<in> set ops. op_MachineID r = mid \<and> op_Kind r = ''create''}"
    using assms by auto
  then show ?thesis using assms by (simp add: creates_for_def image_image)
qed

lemma creates_resurrect: "resurrectOperation now k ops = Inr ops' \<Longrightarrow> creates_for mid ops' = creates_for mid ops"
  by (auto simp: resurrectOperation_def creates_map split: if_splits)

lemma creates_enqueue:
  assumes "\<not> (eq_MachineID p = mid \<and> eq_Kind p = ''create'')"
  shows "creates_for mid (snd (enqueueOperationIdempotentTx now p ops)) = creates_for mid ops"
  using creates_enqueue_insert[OF assms, of now ops]
  by (auto simp: enqueueOperationIdempotentTx_def enqueue_lookup_def creates_resurrect split: option.splits sum.splits)

lemma creates_inTx: "creates_for mid (snd (f ops)) = creates_for mid ops \<Longrightarrow> creates_for mid (snd (inTx failed tx f ops)) = creates_for mid ops"
  by (metis inTx_snd)

lemma creates_outbox:
  assumes "\<not> revives mid (OnOutbox y)"
  shows "creates_for mid (outbox_run now y ops) \<subseteq> creates_for mid ops"
proof (cases y)
  case (Enqueue tx p)
  have "creates_for mid (snd (enqueueOperationIdempotentTx now p ops)) = creates_for mid ops"
    using assms by (intro creates_enqueue) (simp add: Enqueue revives_def)
  then show ?thesis by (simp add: Enqueue outbox_run_def creates_inTx)
next
  case (EnqueueLate tx p)
  then have "creates_for mid (snd (enqueue_insert now p ops)) = creates_for mid ops" using assms by (intro creates_enqueue_insert) (simp add: revives_def)
  then show ?thesis by (simp add: EnqueueLate outbox_run_def creates_inTx)
next
  case (Purge c)
  then show ?thesis by (auto simp: outbox_run_def DeleteTerminalOperationsOlderThan_def creates_for_def Let_def)
qed (auto simp: outbox_run_def claim_defs claim_def RequeueOperation_def RequeueStaleClaimed_def CompleteOperation_def
       UpdateOperationDispatchNode_def Let_def creates_map)

text \<open>A transaction on the joint tables that leaves the machine deleted and adds no create for it.\<close>

definition stays_deleted :: "string \<Rightarrow> plane \<Rightarrow> plane \<Rightarrow> bool" where
  "stays_deleted mid db db' \<longleftrightarrow> deleted_in mid (pl_machines db') \<and> creates_for mid (pl_ops db') \<subseteq> creates_for mid (pl_ops db)"

lemma stays_inTx: "\<lbrakk>stays_deleted mid db db; \<And>a. fst (f db) = Inr a \<Longrightarrow> stays_deleted mid db (snd (f db))\<rbrakk> \<Longrightarrow> stays_deleted mid db (snd (inTx failed tx f db))"
  using inTx_snd[of failed tx f db] by auto

lemma stays_write:
  assumes "deleted_in mid (pl_machines db)" "\<not> (allow \<and> cp_MachineID p = mid)" "pl_machines db0 = pl_machines db" "pl_ops db0 = pl_ops db"
    and "write_machine now allow p db0 = (Inr r, db')"
  shows "stays_deleted mid db db'"
proof -
  obtain desired ms ops where u: "upsert_machine now allow p (pl_machines db) = Inr (desired, ms)" "desired \<noteq> ''DELETED''"
    and e: "enqueue_insert now (create_params p) (pl_ops db) = (Inr r, ops)" "pl_machines db' = ms" "pl_ops db' = ops"
    using assms(3-5) by (auto simp: write_machine_def split: sum.splits prod.splits if_splits)
  have other: "cp_MachineID p \<noteq> mid"
  proof
    assume same: "cp_MachineID p = mid"
    then obtain m where m: "GetMachine mid (pl_machines db) = Some m"
      using assms(1) by (cases "GetMachine mid (pl_machines db)") (auto simp: GetMachine_None deleted_in_def)
    then have "m_DesiredState m = ''DELETED''" using GetMachine_Some[OF m] assms(1) by (simp add: deleted_in_def)
    then show False using u same m assms(2) upsert_row_deleted[of m now p] by (auto simp: upsert_machine_def split: if_splits)
  qed
  then have "deleted_in mid ms"
    using u(1) assms(1) by (auto simp: upsert_machine_def deleted_in_def new_machine_def image_iff split: option.splits if_splits)
  moreover have "creates_for mid ops = creates_for mid (pl_ops db)"
    using creates_enqueue_insert[of "create_params p" mid now "pl_ops db"] e(1) other by (simp add: create_params_def)
  ultimately show ?thesis using e by (simp add: stays_deleted_def)
qed

lemma stays_create_write:
  assumes "deleted_in mid (pl_machines db)" "\<not> (allow \<and> cp_MachineID p = mid)" "fst (create_write now allow p db) = Inr r"
  shows "stays_deleted mid db (snd (create_write now allow p db))"
  using assms(3) stays_write[OF assms(1,2), of db now r] stays_write[OF assms(1,2), of "db\<lparr>pl_apps := mset_at (cp_AppID p) (cp_ProjectID p) (pl_apps db)\<rparr>" now r]
  by (auto simp: create_write_def prod_eq_iff split: option.splits if_splits)

lemma stays_restart:
  assumes "deleted_in mid (pl_machines db)"
  shows "stays_deleted mid db (snd (EnqueueRestartCAS tx now project i failedExec newExec opID g req nextAt db))"
  unfolding EnqueueRestartCAS_def
proof (rule stays_inTx)
  show "stays_deleted mid db db" using assms by (simp add: stays_deleted_def)
next
  fix a
  let ?q = "\<lambda>owner. \<lparr>eq_OperationID = opID, eq_ProjectID = owner, eq_MachineID = i, eq_ExecutionID = newExec, eq_Generation = g + 1,
      eq_Kind = ''create'', eq_Request = req, eq_DispatchNodeID = '''', eq_ResurrectFailed = False\<rparr>"
  let ?body = "case List.find (restart_due now i failedExec g) (pl_machines db) of
       None \<Rightarrow> (Inl ErrMachineLifecycleClosed, db)
     | Some m \<Rightarrow>
         (case mget (pl_apps db) (m_AppID m) of
            None \<Rightarrow> (Inl ErrMachineLifecycleClosed, db)
          | Some owner \<Rightarrow>
              if project \<noteq> '''' \<and> project \<noteq> owner then (Inl (OwnershipConflictError ''machine'' ''project_id''), db)
              else
                (case enqueue_insert now (?q owner) (pl_ops db) of
                   (Inl e, _) \<Rightarrow> (Inl e, db)
                 | (Inr r, ops) \<Rightarrow>
                     (Inr r, db\<lparr>pl_machines := map (\<lambda>m. if restart_due now i failedExec g m then restart_row now newExec g nextAt m else m) (pl_machines db),
                       pl_ops := ops\<rparr>)))"
  assume "fst ?body = Inr a"
  then obtain m owner ops where m: "List.find (restart_due now i failedExec g) (pl_machines db) = Some m"
    and e: "enqueue_insert now (?q owner) (pl_ops db) = (Inr a, ops)"
    and db': "snd ?body = db\<lparr>pl_machines := map (\<lambda>m. if restart_due now i failedExec g m then restart_row now newExec g nextAt m else m) (pl_machines db), pl_ops := ops\<rparr>"
    by (auto split: option.splits if_splits sum.splits prod.splits)
  have "i \<noteq> mid" using find_SomeD[OF m] assms by (auto simp: deleted_in_def restart_due_def restartable_def)
  then have "creates_for mid ops = creates_for mid (pl_ops db)" using creates_enqueue_insert[of "?q owner" mid now "pl_ops db"] e by simp
  moreover have "deleted_in mid (snd (update_machines (restart_due now i failedExec g) (restart_row now newExec g nextAt) (pl_machines db)))"
    using assms by (rule deleted_update) (simp add: restart_due_def restartable_def restart_row_def)
  ultimately show "stays_deleted mid db (snd ?body)" unfolding db' by (simp add: stays_deleted_def update_machines_def)
qed

lemma stays_rescue:
  assumes "deleted_in mid (pl_machines db)"
  shows "stays_deleted mid db (snd (EnqueueRescueReplacement tx now checked p db))"
proof -
  have ms: "deleted_in mid (snd (update_machines (rescue_target p) (rescue_row now p) (pl_machines db)))"
    using assms by (rule deleted_update) (simp add: rescue_target_def restartable_def rescue_row_def)
  have ops: "creates_for mid ops = creates_for mid (pl_ops db)" if "enqueue_insert now (rescue_params p) (pl_ops db) = (r, ops)" for r ops
    using creates_enqueue_insert[of "rescue_params p" mid now "pl_ops db"] that by (simp add: rescue_params_def)
  have refl: "stays_deleted mid db db" using assms by (simp add: stays_deleted_def)
  have "stays_deleted mid db (snd (rescue_write now p db))"
    unfolding rescue_write_def
    by (simp add: refl split: option.split sum.split prod.split) (auto simp: stays_deleted_def ms dest: ops)
  then show ?thesis unfolding EnqueueRescueReplacement_def
    by (intro stays_inTx refl) (simp add: refl split: option.split)
qed

lemma stays_fork:
  assumes "deleted_in mid (pl_machines db)"
  shows "stays_deleted mid db (snd (CreateForkMachineAndEnqueue tx now checked p q db))"
proof -
  have ops: "creates_for mid ops = creates_for mid (pl_ops db)"
    if "eq_Kind q = ''fork''" "insertSnapshotOperation now q (pl_ops db) = (r, ops)" for r ops
    using creates_enqueue_insert[of q mid now "pl_ops db"] that by (auto simp: insertSnapshotOperation_def split: option.splits if_splits)
  have ms: "deleted_in mid (pl_machines db @ [fork_machine now p])" if "GetMachine (fk_MachineID p) (pl_machines db) = None"
    using assms that by (auto simp: deleted_in_def fork_machine_def GetMachine_None)
  have refl: "stays_deleted mid db db" using assms by (simp add: stays_deleted_def)
  let ?body = "\<lambda>db. case checked of
      Some e \<Rightarrow> (Inl e, db)
    | None \<Rightarrow>
        if GetMachine (fk_MachineID p) (pl_machines db) \<noteq> None \<or> mget (pl_apps db) (fk_AppID p) = None then (Inl OpDBFailed, db)
        else (case insertSnapshotOperation now q (pl_ops db) of
               (Inl e, _) \<Rightarrow> (Inl e, db)
             | (Inr r, ops) \<Rightarrow> (Inr r, db\<lparr>pl_machines := pl_machines db @ [fork_machine now p], pl_ops := ops\<rparr>))"
  have "stays_deleted mid db (snd (?body db))" if "eq_Kind q = ''fork''"
    by (simp add: refl split: option.split sum.split prod.split) (auto simp: stays_deleted_def ms ops[OF that])
  then have "stays_deleted mid db (snd (inTx OpDBFailed tx ?body db))" if "eq_Kind q = ''fork''"
    using that by (intro stays_inTx refl)
  then show ?thesis unfolding CreateForkMachineAndEnqueue_def by (simp add: refl del: split_paired_All)
qed

lemma stays_run:
  assumes "deleted_in mid (pl_machines db)" "\<not> revives mid x"
  shows "stays_deleted mid db (plane_run now x db)"
proof (cases x)
  case (OnOutbox y)
  then show ?thesis using assms creates_outbox[of mid y now "pl_ops db"] by (simp add: plane_run_def stays_deleted_def)
next
  case (Create tx allow p)
  have "stays_deleted mid db (snd (inTx OpDBFailed tx (\<lambda>db. case create_lookup now p db of Some res \<Rightarrow> (res, db) | None \<Rightarrow> create_write now allow p db) db))"
    using assms stays_create_write[OF assms(1)] by (intro stays_inTx) (auto simp: Create revives_def stays_deleted_def split: option.splits)
  then show ?thesis by (simp add: Create plane_run_def ensureAppAndEnqueueCreate_def)
next
  case (CreateLate tx allow p)
  have "stays_deleted mid db (snd (inTx OpDBFailed tx (create_write now allow p) db))"
    using assms stays_create_write[OF assms(1)] by (intro stays_inTx) (auto simp: CreateLate revives_def stays_deleted_def)
  then show ?thesis by (simp add: CreateLate plane_run_def)
next
  case (Restart tx project i failedExec newExec opID g req nextAt)
  then show ?thesis using stays_restart[OF assms(1)] by (simp add: plane_run_def)
next
  case (Recreate i e g)
  then show ?thesis using assms
    by (auto simp: plane_run_def on_machines_def ResetMachineForRecreate_def update_machines_def stays_deleted_def revives_def deleted_in_def image_iff)
next
  case (Rescue tx checked p)
  then show ?thesis using stays_rescue[OF assms(1)] by (simp add: plane_run_def)
next
  case (Fork tx checked p q)
  then show ?thesis using stays_fork[OF assms(1)] by (simp add: plane_run_def)
qed (use assms(1) in \<open>auto simp: plane_run_def on_machines_def stays_deleted_def machine_statement_defs intro!: deleted_update\<close>)

text \<open>
  Claim C12. A deleted machine stays deleted and gets no new create operation, whatever creates, retries, restarts,
  reports and lifecycle updates run after its deletion, in any order and from stale views, unless its owner revives
  it explicitly or an evacuation resets it.
\<close>

theorem deleted_machine_stays:
  assumes "distinct (map m_ID (pl_machines db))" "m \<in> set (pl_machines db)" "m_DesiredState m = ''DELETED''" "\<forall>y \<in> set xs. \<not> revives (m_ID m) (snd y)"
  shows "deleted_in (m_ID m) (pl_machines (plane_runs xs db)) \<and> creates_for (m_ID m) (pl_ops (plane_runs xs db)) \<subseteq> creates_for (m_ID m) (pl_ops db)"
proof -
  have "deleted_in (m_ID m) (pl_machines db)" using assms(1-3) by (auto simp: deleted_in_def distinct_map inj_on_def)
  then show ?thesis using assms(4)
  proof (induction xs db rule: plane_runs.induct)
    case (2 now x xs db)
    then have "stays_deleted (m_ID m) db (plane_run now x db)" by (intro stays_run) auto
    with 2 show ?case by (auto simp: stays_deleted_def)
  qed simp
qed

section \<open>Examples of machines\<close>

definition example_create :: CreateMachineParams where
  "example_create =
     \<lparr>cp_ProjectID = ''p'', cp_AppID = ''a'', cp_Hostname = ''h'', cp_IngressPort = 8, cp_MachineID = ''m'', cp_DeploymentID = ''d'', cp_ExecutionID = ''e1'',
      cp_OperationID = ''o1'', cp_Generation = 1, cp_ReplicaOrdinal = 0, cp_RequestJSON = Some ''{}'', cp_ExpiresAt = None, cp_RestartMode = ''ALWAYS'',
      cp_RestartMaxAttempts = 3, cp_RestartBackoffSeconds = 10, cp_RestartStableWindowSeconds = 300\<rparr>"

definition example_plane :: plane where
  "example_plane = \<lparr>pl_apps = [], pl_deployments = [], pl_machines = [], pl_ops = []\<rparr>"

text \<open>Created, reported running, stopped with a deadline for the restart.\<close>

definition example_stopped :: plane where
  "example_stopped = plane_runs [(1, Create TxCommit False example_create), (2, Report ''m'' ''e1'' ''RUNNING'' ''ip'' ''READY''),
     (3, Report ''m'' ''e1'' ''STOPPED'' '''' ''UNKNOWN''), (4, Backoff ''m'' ''e1'' 1 9)] example_plane"

definition example_restart :: "plane \<Rightarrow> (outbox_err + Operation) \<times> plane" where
  "example_restart = EnqueueRestartCAS TxCommit 10 ''p'' ''m'' ''e1'' ''e2'' ''o2'' 1 (Some ''{}'') 20"


lemma machine_generation_monotone_witness:
  "\<exists>m'. m' \<in> set (pl_machines (plane_runs [(12, Create TxCommit False (example_create\<lparr>cp_OperationID := ''o9''\<rparr>))] (snd (example_restart example_stopped)))) \<and> 2 \<le> m_Generation m'"
proof -
  let ?db = "snd (example_restart example_stopped)"
  have "distinct (map m_ID (pl_machines ?db))" "hd (pl_machines ?db) \<in> set (pl_machines ?db)" "m_Generation (hd (pl_machines ?db)) = 2" by code_simp+
  moreover have "\<forall>y \<in> set [(12, Create TxCommit False (example_create\<lparr>cp_OperationID := ''o9''\<rparr>))]. \<not> recreates (snd y)" by (simp add: recreates_def)
  ultimately show ?thesis using machine_generation_monotone[of ?db "hd (pl_machines ?db)" "[(12, Create TxCommit False (example_create\<lparr>cp_OperationID := ''o9''\<rparr>))]"] by auto
qed

theorem observations_of_current_execution_witness:
  "\<exists>y. y \<in> set [(1 :: int, Create TxCommit False example_create), (2, Report ''m'' ''e1'' ''RUNNING'' ''ip'' ''READY''), (3, Report ''m'' ''e0'' ''STOPPED'' '''' '''')] \<and>
     report_of (snd y) = Some (''m'', ''e1'', ''RUNNING'')"
proof -
  let ?xs = "[(1, Create TxCommit False example_create), (2, Report ''m'' ''e1'' ''RUNNING'' ''ip'' ''READY''), (3, Report ''m'' ''e0'' ''STOPPED'' '''' '''')]"
  let ?m = "hd (pl_machines (plane_runs ?xs example_plane))"
  have m: "m_ID ?m = ''m''" "m_CurrentExecutionID ?m = ''e1''" "m_ObservedState ?m = ''RUNNING''" by code_simp+
  have "pl_machines example_plane = []" "?m \<in> set (pl_machines (plane_runs ?xs example_plane))" "m_ObservedState ?m \<notin> {'''', ''UNKNOWN''}" by code_simp+
  from observations_of_current_execution[OF this] show ?thesis unfolding m .
qed

definition example_deleted :: plane where
  "example_deleted = plane_runs [(1, Create TxCommit False (example_create\<lparr>cp_ExpiresAt := Some 5\<rparr>)), (6, Detach ''m''), (7, Deleted ''m'')] example_plane"

theorem deleted_machine_stays_witness:
  "deleted_in ''m'' (pl_machines (plane_runs [(8, Create TxCommit False (example_create\<lparr>cp_OperationID := ''o9''\<rparr>)), (9, Expiry ''m'' None)] example_deleted))"
proof -
  let ?xs = "[(8, Create TxCommit False (example_create\<lparr>cp_OperationID := ''o9''\<rparr>)), (9, Expiry ''m'' None)]"
  let ?m = "hd (pl_machines example_deleted)"
  have "distinct (map m_ID (pl_machines example_deleted))" "?m \<in> set (pl_machines example_deleted)" "m_DesiredState ?m = ''DELETED''" "m_ID ?m = ''m''" by code_simp+
  moreover have "\<forall>y \<in> set ?xs. \<not> revives (m_ID ?m) (snd y)" by (simp add: revives_def)
  ultimately show ?thesis using deleted_machine_stays[of example_deleted ?m ?xs] by simp
qed

text \<open>
  A machine that expired and was deleted keeps its expiry and its detached phase when its owner revives it: it is
  listed as expired at once, and its routes are not published even when it runs.
\<close>

lemma revived_machine_still_expired:
  "let db = snd (EnsureAppAndEnqueueCreateResurrect TxCommit 8 (example_create\<lparr>cp_ExecutionID := ''e2'', cp_OperationID := ''o2''\<rparr>) example_deleted);
       ms = UpdateMachineObserved 9 ''m'' ''e2'' ''RUNNING'' ''ip'' ''READY'' (pl_machines db) in
   map m_DesiredState ms = [''CREATED''] \<and> map m_ID (ListExpiredMachines 9 ms) = [''m''] \<and> map route_active ms = [False]"
  by code_simp

text \<open>A reset that was decided before a deletion and a restart brings the machine back with an older generation.\<close>

lemma reset_revives_deleted:
  "let db = plane_run 11 (Deleted ''m'') (snd (example_restart example_stopped)); ms = ResetMachineForRecreate 12 ''m'' ''e9'' 1 (pl_machines db) in
   map (\<lambda>m. (m_DesiredState m, m_Generation m)) (pl_machines db) = [(''DELETED'', 2)] \<and> map (\<lambda>m. (m_DesiredState m, m_Generation m)) ms = [(''CREATED'', 1)]"
  by code_simp

end
