(* ===== verification/SecretLeases.thy ===== *)
theory SecretLeases
  imports MachineRows
begin

text \<open>
  The delivery leases of secrets (\<open>internal/controlplane/store/secret_leases.go\<close>): a create that carries secrets is bound
  to a lease of its machine and execution, which is claimed before the request is sent, so that a request whose outcome
  is unknown is never sent again. Every statement is atomic; \<open>now\<close> is the clock of the database and \<open>clock\<close> that of the
  controller, in nanoseconds. Random identifiers are arguments.
\<close>

section \<open>Rows\<close>

record SecretLease =
  sl_ID :: string
  sl_ProjectID :: string
  sl_MachineID :: string
  sl_ExecutionID :: string
  sl_Generation :: int
  sl_OperationID :: string
  sl_RequestHash :: string
  sl_State :: string
  sl_ExpiresAt :: int
  sl_CreatedAt :: int
  sl_UpdatedAt :: int

type_synonym leases = "SecretLease list"

datatype lease_err = ErrSecretLeaseConflict | ErrSecretLeaseTransition | ErrSecretLeaseNotFound | ErrSecretLeaseTerminal | LeaseDBFailed

definition DefaultSecretLeaseTTL :: int where "DefaultSecretLeaseTTL = 600 * second_ns"

text \<open>Go's zero time, the first of January of the year one.\<close>

definition zero_time :: int where "zero_time = - 62135596800 * second_ns"

definition for_execution :: "string \<Rightarrow> string \<Rightarrow> SecretLease \<Rightarrow> bool" where
  "for_execution mid e l \<longleftrightarrow> sl_MachineID l = mid \<and> sl_ExecutionID l = e"

definition SecretLeaseForExecution :: "string \<Rightarrow> string \<Rightarrow> leases \<Rightarrow> lease_err + SecretLease" where
  "SecretLeaseForExecution mid e ls =
     (case List.rev (sort_key sl_CreatedAt (filter (for_execution mid e) ls)) of [] \<Rightarrow> Inl ErrSecretLeaseNotFound | l # _ \<Rightarrow> Inr l)"

definition SecretLeaseByID :: "string \<Rightarrow> leases \<Rightarrow> lease_err + SecretLease" where
  "SecretLeaseByID lid ls = (case List.find (\<lambda>l. sl_ID l = lid) ls of None \<Rightarrow> Inl ErrSecretLeaseNotFound | Some l \<Rightarrow> Inr l)"

definition MachineHasActiveSecretDelivery :: "string \<Rightarrow> string \<Rightarrow> leases \<Rightarrow> bool" where
  "MachineHasActiveSecretDelivery mid e ls \<longleftrightarrow> 0 < length (filter (for_execution mid e) ls)"

section \<open>Issuing\<close>

text \<open>What a create asks the lease to be bound to.\<close>

record LeaseBinding =
  lb_ProjectID :: string
  lb_MachineID :: string
  lb_ExecutionID :: string
  lb_Generation :: int
  lb_OperationID :: string
  lb_RequestHash :: string

definition lease_bound :: "LeaseBinding \<Rightarrow> SecretLease \<Rightarrow> bool" where
  "lease_bound b l \<longleftrightarrow> sl_ProjectID l = lb_ProjectID b \<and> sl_Generation l = lb_Generation b \<and> sl_OperationID l = lb_OperationID b \<and>
     sl_RequestHash l = lb_RequestHash b"

text \<open>A lease of the execution exists: it is used again only under the very same binding.\<close>

definition reuse_lease :: "LeaseBinding \<Rightarrow> SecretLease \<Rightarrow> lease_err + SecretLease" where
  "reuse_lease b l = (if lease_bound b l then Inr l else Inl ErrSecretLeaseConflict)"

definition lease_id :: "string \<Rightarrow> string \<Rightarrow> string" where
  "lease_id rnd e = ''sdl-'' @ take 8 rnd @ ''-'' @ (if 8 < length e then drop (length e - 8) e else e)"

text \<open>The interval is printed in whole seconds, rounded half to even.\<close>

definition ttl_seconds :: "int \<Rightarrow> int" where
  "ttl_seconds ttl =
     (let t = (if ttl \<le> 0 then DefaultSecretLeaseTTL else ttl); q = t div second_ns; r = t mod second_ns in
      if 2 * r < second_ns \<or> (2 * r = second_ns \<and> even q) then q else q + 1)"

definition new_lease :: "int \<Rightarrow> string \<Rightarrow> int \<Rightarrow> LeaseBinding \<Rightarrow> SecretLease" where
  "new_lease now rnd ttl b =
     \<lparr>sl_ID = lease_id rnd (lb_ExecutionID b), sl_ProjectID = lb_ProjectID b, sl_MachineID = lb_MachineID b, sl_ExecutionID = lb_ExecutionID b,
      sl_Generation = lb_Generation b, sl_OperationID = lb_OperationID b, sl_RequestHash = lb_RequestHash b, sl_State = ''ISSUED'',
      sl_ExpiresAt = now + ttl_seconds ttl * second_ns, sl_CreatedAt = now, sl_UpdatedAt = now\<rparr>"

text \<open>The identifier is the primary key, and an index admits one lease for a machine and execution.\<close>

definition insert_lease :: "SecretLease \<Rightarrow> leases \<Rightarrow> lease_err + leases" where
  "insert_lease l ls =
     (if sl_ID l \<in> sl_ID ` set ls \<or> list_ex (for_execution (sl_MachineID l) (sl_ExecutionID l)) ls then Inl LeaseDBFailed else Inr (ls @ [l]))"

text \<open>
  \<open>looked\<close> is the table the first lookup sees, \<open>ls\<close> the one of the insertion and of the second lookup; \<open>ok\<close> tells whether
  the insertion reached the database.
\<close>

definition EnsureSecretLease :: "bool \<Rightarrow> int \<Rightarrow> string \<Rightarrow> int \<Rightarrow> LeaseBinding \<Rightarrow> leases \<Rightarrow> leases \<Rightarrow> (lease_err + SecretLease) \<times> leases" where
  "EnsureSecretLease ok now rnd ttl b looked ls =
     (case SecretLeaseForExecution (lb_MachineID b) (lb_ExecutionID b) looked of
        Inr l \<Rightarrow> (reuse_lease b l, ls)
      | Inl _ \<Rightarrow>
          (case if ok then insert_lease (new_lease now rnd ttl b) ls else Inl LeaseDBFailed of
             Inr ls1 \<Rightarrow> (Inr (new_lease now rnd ttl b), ls1)
           | Inl e \<Rightarrow>
               (case SecretLeaseForExecution (lb_MachineID b) (lb_ExecutionID b) ls of
                  Inr l \<Rightarrow> (reuse_lease b l, ls)
                | Inl _ \<Rightarrow> (Inl e, ls))))"

section \<open>Transitions\<close>

definition same_lease :: "SecretLease \<Rightarrow> SecretLease \<Rightarrow> bool" where
  "same_lease l r \<longleftrightarrow> sl_ID r = sl_ID l \<and> sl_ProjectID r = sl_ProjectID l \<and> sl_MachineID r = sl_MachineID l \<and> sl_ExecutionID r = sl_ExecutionID l \<and>
     sl_Generation r = sl_Generation l \<and> sl_OperationID r = sl_OperationID l \<and> sl_RequestHash r = sl_RequestHash l"

definition transition_applies :: "int \<Rightarrow> SecretLease \<Rightarrow> string list \<Rightarrow> SecretLease \<Rightarrow> bool" where
  "transition_applies now l states r \<longleftrightarrow> same_lease l r \<and> sl_ExpiresAt r = sl_ExpiresAt l \<and> now < sl_ExpiresAt r \<and> sl_State r \<in> set states"

definition transitionSecretLease :: "int \<Rightarrow> SecretLease \<Rightarrow> string \<Rightarrow> string list \<Rightarrow> leases \<Rightarrow> (lease_err + unit) \<times> leases" where
  "transitionSecretLease now l next states ls =
     (if list_ex (transition_applies now l states) ls then Inr () else Inl ErrSecretLeaseTransition,
      map (\<lambda>r. if transition_applies now l states r then r\<lparr>sl_State := next, sl_UpdatedAt := now\<rparr> else r) ls)"

text \<open>The checks on the lease in hand, before the statement.\<close>

definition claim_refused :: "int \<Rightarrow> SecretLease \<Rightarrow> lease_err option" where
  "claim_refused clock l =
     (if sl_State l \<in> {''CLAIMED'', ''DELIVERED'', ''UNCERTAIN'', ''EXPIRED'', ''REVOKED'', ''ACKED''} then Some ErrSecretLeaseTerminal
      else if sl_ExpiresAt l = zero_time then Some ErrSecretLeaseTransition
      else if sl_ExpiresAt l \<le> clock then Some ErrSecretLeaseTerminal
      else None)"

definition ClaimSecretLease :: "int \<Rightarrow> int \<Rightarrow> SecretLease \<Rightarrow> leases \<Rightarrow> (lease_err + unit) \<times> leases" where
  "ClaimSecretLease clock now l ls =
     (case claim_refused clock l of Some e \<Rightarrow> (Inl e, ls) | None \<Rightarrow> transitionSecretLease now l ''CLAIMED'' [''ISSUED''] ls)"

definition MarkSecretLeaseDelivered :: "int \<Rightarrow> SecretLease \<Rightarrow> leases \<Rightarrow> (lease_err + unit) \<times> leases" where
  "MarkSecretLeaseDelivered now l = transitionSecretLease now l ''DELIVERED'' [''CLAIMED'', ''DELIVERED'']"

definition MarkSecretLeaseAcked :: "int \<Rightarrow> SecretLease \<Rightarrow> leases \<Rightarrow> (lease_err + unit) \<times> leases" where
  "MarkSecretLeaseAcked now l = transitionSecretLease now l ''ACKED'' [''ISSUED'', ''CLAIMED'', ''DELIVERED'', ''ACKED'']"

definition uncertain_applies :: "SecretLease \<Rightarrow> SecretLease \<Rightarrow> bool" where
  "uncertain_applies l r \<longleftrightarrow> same_lease l r \<and> sl_State r \<in> {''CLAIMED'', ''UNCERTAIN''}"

definition cleanup_operation :: "int \<Rightarrow> Operation \<Rightarrow> string \<Rightarrow> json \<Rightarrow> Operation" where
  "cleanup_operation now r cleanupID req =
     new_operation now \<lparr>eq_OperationID = cleanupID, eq_ProjectID = op_ProjectID r, eq_MachineID = op_MachineID r, eq_ExecutionID = op_ExecutionID r,
       eq_Generation = op_Generation r, eq_Kind = ''reap'', eq_Request = req, eq_DispatchNodeID = op_DispatchNodeID r, eq_ResurrectFailed = False\<rparr>"

definition fail_create :: "int \<Rightarrow> string \<Rightarrow> string \<Rightarrow> operations \<Rightarrow> operations" where
  "fail_create now key cause ops =
     map (\<lambda>r. if op_ID r = key \<and> op_Status r \<in> {''PENDING'', ''CLAIMED'', ''FAILED''}
       then r\<lparr>op_Status := ''FAILED'', op_Error := cause, op_CompletedAt := Some now, op_UpdatedAt := now\<rparr> else r) ops"

text \<open>The create of a lease whose request may have been sent ends, and a cleanup of its execution is enqueued.\<close>

definition MarkSecretCreateUncertainAndEnqueueCleanup :: "tx_end \<Rightarrow> int \<Rightarrow> Operation \<Rightarrow> SecretLease \<Rightarrow> string \<Rightarrow> json \<Rightarrow> string \<Rightarrow>
    leases \<times> operations \<Rightarrow> (lease_err + unit) \<times> leases \<times> operations" where
  "MarkSecretCreateUncertainAndEnqueueCleanup tx now r l cleanupID req cause = inTx LeaseDBFailed tx (\<lambda>(ls, ops).
     if \<not> list_ex (uncertain_applies l) ls then (Inl ErrSecretLeaseTransition, ls, ops)
     else
       (case insert_operation (cleanup_operation now r cleanupID req) (fail_create now (op_ID r) cause ops) of
          Inl _ \<Rightarrow> (Inl LeaseDBFailed, ls, ops)
        | Inr ops1 \<Rightarrow> (Inr (), map (\<lambda>x. if uncertain_applies l x then x\<lparr>sl_State := ''UNCERTAIN'', sl_UpdatedAt := now\<rparr> else x) ls, ops1)))"

section \<open>Collection\<close>

definition current_execution :: "machines \<Rightarrow> SecretLease \<Rightarrow> bool" where
  "current_execution ms l \<longleftrightarrow> list_ex (\<lambda>m. m_ID m = sl_MachineID l \<and> m_CurrentExecutionID m = sl_ExecutionID l \<and> m_DesiredState m \<noteq> ''DELETED'') ms"

definition revokable :: "machines \<Rightarrow> SecretLease \<Rightarrow> bool" where
  "revokable ms l \<longleftrightarrow> sl_State l \<in> {''ISSUED'', ''CLAIMED'', ''DELIVERED'', ''UNCERTAIN''} \<and> \<not> current_execution ms l"

definition expirable :: "int \<Rightarrow> SecretLease \<Rightarrow> bool" where
  "expirable now l \<longleftrightarrow> sl_State l \<in> {''ISSUED'', ''CLAIMED'', ''DELIVERED''} \<and> sl_ExpiresAt l < now"

definition revoke_leases :: "int \<Rightarrow> machines \<Rightarrow> leases \<Rightarrow> leases" where
  "revoke_leases now ms ls = map (\<lambda>l. if revokable ms l then l\<lparr>sl_State := ''REVOKED'', sl_UpdatedAt := now\<rparr> else l) ls"

definition expire_leases :: "int \<Rightarrow> leases \<Rightarrow> leases" where
  "expire_leases now ls = map (\<lambda>l. if expirable now l then l\<lparr>sl_State := ''EXPIRED'', sl_UpdatedAt := now\<rparr> else l) ls"

text \<open>The counts of expired and of revoked leases; the two statements run one after the other.\<close>

definition ReapSecretLeases :: "int \<Rightarrow> machines \<Rightarrow> leases \<Rightarrow> (nat \<times> nat) \<times> leases" where
  "ReapSecretLeases now ms ls =
     (let ls1 = revoke_leases now ms ls in
      ((length (filter (expirable now) ls1), length (filter (revokable ms) ls)), expire_leases now ls1))"

section \<open>What a statement may do to a lease\<close>

definition lease_kept :: "SecretLease \<Rightarrow> SecretLease \<Rightarrow> bool" where
  "lease_kept l r \<longleftrightarrow> same_lease l r \<and> sl_ExpiresAt r = sl_ExpiresAt l \<and> sl_CreatedAt r = sl_CreatedAt l \<and>
     (sl_State l \<noteq> ''ISSUED'' \<longrightarrow> sl_State r \<noteq> ''ISSUED'') \<and>
     (sl_State l = ''UNCERTAIN'' \<longrightarrow> sl_State r = ''UNCERTAIN'' \<or> sl_State r = ''REVOKED'') \<and>
     (sl_State l \<in> {''ACKED'', ''EXPIRED'', ''REVOKED''} \<longrightarrow> sl_State r = sl_State l)"

definition lease_key :: "SecretLease \<Rightarrow> string \<times> string" where
  "lease_key l = (sl_MachineID l, sl_ExecutionID l)"

lemma lease_kept_refl [simp]: "lease_kept l l"
  by (simp add: lease_kept_def same_lease_def)

interpretation leases: row_table lease_key "\<lambda>_. True" lease_kept
proof unfold_locales
  fix r s t assume "lease_kept r s" "lease_kept s t"
  then show "lease_kept r t" unfolding lease_kept_def same_lease_def by (elim conjE) (intro conjI; auto)
qed (auto simp: lease_kept_def lease_key_def same_lease_def)

lemma insert_lease_step: "insert_lease l ls = Inr ls' \<Longrightarrow> leases.step ls ls'"
  by (auto simp: insert_lease_def for_execution_def lease_key_def list_ex_iff split: if_splits intro!: leases.appended)

lemma transition_step:
  assumes "next \<noteq> ''ISSUED''" "''UNCERTAIN'' \<notin> set states" "\<And>s. \<lbrakk>s \<in> set states; s \<in> {''ACKED'', ''EXPIRED'', ''REVOKED''}\<rbrakk> \<Longrightarrow> next = s"
  shows "leases.step ls (snd (transitionSecretLease now l next states ls))"
  unfolding transitionSecretLease_def snd_conv
proof (rule leases.step_update)
  fix r assume r: "transition_applies now l states r"
  have "sl_State r \<in> set states" using r by (simp add: transition_applies_def)
  then have "sl_State r \<in> {''ACKED'', ''EXPIRED'', ''REVOKED''} \<Longrightarrow> next = sl_State r" "sl_State r \<noteq> ''UNCERTAIN''" using assms by auto
  then show "True \<and> lease_kept r (r\<lparr>sl_State := next, sl_UpdatedAt := now\<rparr>)" using assms(1) by (auto simp: lease_kept_def same_lease_def)
qed

lemma claim_step: "leases.step ls (snd (ClaimSecretLease clock now l ls))"
  by (auto simp: ClaimSecretLease_def leases.step_refl split: option.splits intro!: transition_step)

lemma delivered_step: "leases.step ls (snd (MarkSecretLeaseDelivered now l ls))"
  unfolding MarkSecretLeaseDelivered_def by (rule transition_step) auto

lemma acked_step: "leases.step ls (snd (MarkSecretLeaseAcked now l ls))"
  unfolding MarkSecretLeaseAcked_def by (rule transition_step) auto

lemma uncertain_step: "leases.step (fst p) (fst (snd (MarkSecretCreateUncertainAndEnqueueCleanup tx now r l cid req cause p)))"
proof -
  have "leases.step ls (map (\<lambda>x. if uncertain_applies l x then x\<lparr>sl_State := ''UNCERTAIN'', sl_UpdatedAt := now\<rparr> else x) ls)" for ls
    by (rule leases.step_update) (auto simp: uncertain_applies_def lease_kept_def same_lease_def)
  then show ?thesis
    by (auto simp: MarkSecretCreateUncertainAndEnqueueCleanup_def inTx_def leases.step_refl split: prod.splits sum.splits tx_end.splits if_splits)
qed

lemma revoke_step: "leases.step ls (revoke_leases now ms ls)"
  unfolding revoke_leases_def by (rule leases.step_update) (auto simp: revokable_def lease_kept_def same_lease_def)

lemma expire_step: "leases.step ls (expire_leases now ls)"
  unfolding expire_leases_def by (rule leases.step_update) (auto simp: expirable_def lease_kept_def same_lease_def)

text \<open>A successful claim finds the lease issued and leaves it claimed.\<close>

lemma claim_succeeds:
  assumes "ClaimSecretLease clock now l ls = (Inr (), ls')"
  obtains r where "r \<in> set ls" "same_lease l r" "sl_State r = ''ISSUED''" "r\<lparr>sl_State := ''CLAIMED'', sl_UpdatedAt := now\<rparr> \<in> set ls'"
  using assms
  by (fastforce simp: ClaimSecretLease_def transitionSecretLease_def list_ex_iff transition_applies_def split: option.splits if_splits)

lemma claim_needs_issued:
  assumes ok: "leases.table_ok ls" and r: "r \<in> set ls" "sl_State r \<noteq> ''ISSUED''" "lease_key r = lease_key l"
  shows "fst (ClaimSecretLease clock now l ls) \<noteq> Inr ()"
proof
  assume "fst (ClaimSecretLease clock now l ls) = Inr ()"
  then obtain ls' where "ClaimSecretLease clock now l ls = (Inr (), ls')" by (cases "ClaimSecretLease clock now l ls") auto
  then obtain s where s: "s \<in> set ls" "same_lease l s" "sl_State s = ''ISSUED''" by (rule claim_succeeds)
  then have "lease_key s = lease_key r" using r(3) by (simp add: lease_key_def same_lease_def)
  then show False using leases.same_key[OF ok s(1) r(1)] s(3) r(2) by simp
qed

text \<open>The only leases an uncertain create can be settled with are claimed or uncertain ones.\<close>

lemma uncertain_rejected:
  assumes "\<And>x. \<lbrakk>x \<in> set ls; same_lease l x\<rbrakk> \<Longrightarrow> sl_State x \<notin> {''CLAIMED'', ''UNCERTAIN''}"
  shows "MarkSecretCreateUncertainAndEnqueueCleanup tx now r l cid req cause (ls, ops) = (Inl ErrSecretLeaseTransition, ls, ops)"
  using assms by (auto simp: MarkSecretCreateUncertainAndEnqueueCleanup_def inTx_def list_ex_iff uncertain_applies_def)

end
