(* ===== verification/FabricStore.thy ===== *)
theory FabricStore
  imports MachineRows Netip
begin

text \<open>
  The tables of the network fabric (\<open>internal/controlplane/store/fabric.go\<close>, \<open>shared/pkg/ulanet/ulanet.go\<close>): stable identities of services,
  one unique local address for every execution of a machine, one prefix for every node, the watermarks of what was pushed to
  the nodes, and the policies between applications. Unique indexes arbitrate between concurrent writers; a lookup and a
  later insertion may see different tables.
\<close>

section \<open>Unique local addresses\<close>

fun Prefix_IsValid :: "Prefix \<Rightarrow> bool" where
  "Prefix_IsValid (Prefix a b) \<longleftrightarrow> IsValid a \<and> b \<le> BitLen a"

definition Prefix_Bits :: "Prefix \<Rightarrow> int" where
  "Prefix_Bits p = (if Prefix_IsValid p then int (prefix_bits p) else - 1)"

fun IsULAPrefix :: "Prefix \<Rightarrow> bool" where
  "IsULAPrefix (Prefix (V6 w) b) \<longleftrightarrow> b \<le> 128 \<and> drop_bit 32 w \<noteq> 0xffff \<and> drop_bit 120 w = 0xfd"
| "IsULAPrefix _ \<longleftrightarrow> False"

definition IsULAAddr :: "Addr \<Rightarrow> bool" where
  "IsULAAddr a \<longleftrightarrow> IsValid a \<and> IsULAPrefix (Prefix a 128)"

datatype fabric_err = FabricDBFailed | BadPrefix | OutsideCell | ErrFabricNodePinned string Addr | NoFreeAddress | ErrFabricGenerationStale | TrustDomainConflict

definition CanonicalizePrefix :: "Prefix \<Rightarrow> nat \<Rightarrow> fabric_err + Prefix" where
  "CanonicalizePrefix p want =
     (if Prefix_Bits p \<noteq> int want then Inl BadPrefix
      else if \<not> IsULAPrefix p then Inl BadPrefix
      else if prefix_addr p \<noteq> prefix_addr (Masked p) then Inl BadPrefix
      else Inr (Masked p))"

text \<open>The bytes of an address, the last one first.\<close>

definition bytes_of :: "128 word \<Rightarrow> u8 list" where
  "bytes_of w = map (\<lambda>i. ucast (drop_bit (8 * i) w)) [0..<16]"

fun of_bytes :: "u8 list \<Rightarrow> 128 word" where
  "of_bytes [] = 0"
| "of_bytes (b # bs) = ucast b + 256 * of_bytes bs"

fun add_carry :: "u8 list \<Rightarrow> u64 \<Rightarrow> u8 list" where
  "add_carry [] offset = []"
| "add_carry (b # bs) offset = (if offset = 0 then b # bs else let sum = ucast b + offset in ucast sum # add_carry bs (drop_bit 8 sum))"

definition nextAddr :: "128 word \<Rightarrow> u64 \<Rightarrow> 128 word" where
  "nextAddr base offset = of_bytes (add_carry (bytes_of base) offset)"

text \<open>Bytes five to seven of the address are the index of the subnet.\<close>

definition nextSubnetAddr :: "128 word \<Rightarrow> u64 \<Rightarrow> 128 word" where
  "nextSubnetAddr base n = (let b = bytes_of base in of_bytes (b[10 := ucast (drop_bit 16 n), 9 := ucast (drop_bit 8 n), 8 := ucast n]))"

section \<open>Identities of services\<close>

record WorkloadIdentity =
  wi_IdentityID :: u32
  wi_TrustDomain :: string
  wi_ProjectID :: string
  wi_AppID :: string
  wi_Service :: string

text \<open>The sequence advances even if the row conflicts; its range is that of a 32-bit integer.\<close>

record identities =
  id_rows :: "WorkloadIdentity list"
  id_next :: nat

definition identity_of :: "string \<Rightarrow> string \<Rightarrow> string \<Rightarrow> WorkloadIdentity \<Rightarrow> bool" where
  "identity_of project app service w \<longleftrightarrow> wi_ProjectID w = project \<and> wi_AppID w = app \<and> wi_Service w = service"

definition EnsureWorkloadIdentity :: "string \<Rightarrow> string \<Rightarrow> string \<Rightarrow> string \<Rightarrow> identities \<Rightarrow> (fabric_err + WorkloadIdentity) \<times> identities" where
  "EnsureWorkloadIdentity domain project app service t =
     (if 2 ^ 31 \<le> id_next t then (Inl FabricDBFailed, t)
      else
        (let t1 = t\<lparr>id_next := id_next t + 1\<rparr> in
         case List.find (identity_of project app service) (id_rows t) of
           None \<Rightarrow>
             (let w = \<lparr>wi_IdentityID = of_nat (id_next t), wi_TrustDomain = domain, wi_ProjectID = project, wi_AppID = app, wi_Service = service\<rparr> in
              (Inr w, t1\<lparr>id_rows := id_rows t @ [w]\<rparr>))
         | Some w \<Rightarrow> (if wi_TrustDomain w \<noteq> domain then Inl TrustDomainConflict else Inr w, t1)))"

definition ListWorkloadIdentities :: "identities \<Rightarrow> WorkloadIdentity list" where
  "ListWorkloadIdentities t = sort_key wi_IdentityID (id_rows t)"

section \<open>Addresses of executions\<close>

record ULAAllocation =
  ua_ULA :: Addr
  ua_CellPrefix :: Prefix
  ua_ProjectID :: string
  ua_NodeID :: string
  ua_MachineID :: string
  ua_ExecutionID :: string
  ua_Generation :: int
  ua_ReleasedAt :: "int option"

type_synonym allocations = "ULAAllocation list"

definition active :: "ULAAllocation \<Rightarrow> bool" where
  "active a \<longleftrightarrow> ua_ReleasedAt a = None"

definition allocated_to :: "string \<Rightarrow> string \<Rightarrow> ULAAllocation \<Rightarrow> bool" where
  "allocated_to mid e a \<longleftrightarrow> active a \<and> ua_MachineID a = mid \<and> ua_ExecutionID a = e"

record AllocationRequest =
  ar_Cell :: Prefix
  ar_Node :: Prefix
  ar_ProjectID :: string
  ar_NodeID :: string
  ar_MachineID :: string
  ar_ExecutionID :: string
  ar_Generation :: int

definition new_allocation :: "AllocationRequest \<Rightarrow> Addr \<Rightarrow> ULAAllocation" where
  "new_allocation q a =
     \<lparr>ua_ULA = a, ua_CellPrefix = ar_Cell q, ua_ProjectID = ar_ProjectID q, ua_NodeID = ar_NodeID q, ua_MachineID = ar_MachineID q,
      ua_ExecutionID = ar_ExecutionID q, ua_Generation = ar_Generation q, ua_ReleasedAt = None\<rparr>"

definition maxAttempts :: nat where "maxAttempts = 4096"

text \<open>
  The candidates from the \<open>i\<close>-th on, \<open>n\<close> of them: an address in use is skipped; an address of the same execution that
  is in use already is returned, or reported if it lies on another node.
\<close>

primrec allocate_from :: "nat \<Rightarrow> nat \<Rightarrow> AllocationRequest \<Rightarrow> 128 word \<Rightarrow> allocations \<Rightarrow> (fabric_err + Addr) \<times> allocations" where
  "allocate_from 0 i q base rows = (Inl NoFreeAddress, rows)"
| "allocate_from (Suc n) i q base rows =
     (let cand = V6 (nextAddr base (of_nat (i + 1))) in
      if \<not> Contains_addr (ar_Node q) cand then (Inl NoFreeAddress, rows)
      else if list_ex (\<lambda>a. active a \<and> ua_ULA a = cand) rows then allocate_from n (i + 1) q base rows
      else
        (case List.find (allocated_to (ar_MachineID q) (ar_ExecutionID q)) rows of
           None \<Rightarrow> (Inr cand, rows @ [new_allocation q cand])
         | Some a \<Rightarrow> (if ua_NodeID a = ar_NodeID q then Inr (ua_ULA a) else Inl (ErrFabricNodePinned (ua_NodeID a) (ua_ULA a)), rows)))"

definition AllocateULA :: "tx_end \<Rightarrow> AllocationRequest \<Rightarrow> allocations \<Rightarrow> (fabric_err + Addr) \<times> allocations" where
  "AllocateULA tx q rows =
     (case CanonicalizePrefix (ar_Cell q) 40 of
        Inl e \<Rightarrow> (Inl e, rows)
      | Inr cell \<Rightarrow>
          (case CanonicalizePrefix (ar_Node q) 64 of
             Inl e \<Rightarrow> (Inl e, rows)
           | Inr node \<Rightarrow>
               if \<not> Contains_addr cell (prefix_addr node) then (Inl OutsideCell, rows)
               else
                 (case prefix_addr node of
                    V6 base \<Rightarrow> inTx FabricDBFailed tx (allocate_from maxAttempts 0 (q\<lparr>ar_Cell := cell, ar_Node := node\<rparr>) base) rows
                  | _ \<Rightarrow> (Inl BadPrefix, rows))))"

definition ReleaseULA :: "int \<Rightarrow> string \<Rightarrow> string \<Rightarrow> allocations \<Rightarrow> allocations" where
  "ReleaseULA now mid e rows = map (\<lambda>a. if allocated_to mid e a then a\<lparr>ua_ReleasedAt := Some now\<rparr> else a) rows"

definition ListActiveULAs :: "string \<Rightarrow> string \<Rightarrow> allocations \<Rightarrow> allocations" where
  "ListActiveULAs node project rows =
     sort_key (\<lambda>a. addr_key (ua_ULA a)) (filter (\<lambda>a. active a \<and> (node = '''' \<or> ua_NodeID a = node) \<and> (project = '''' \<or> ua_ProjectID a = project)) rows)"

section \<open>Prefixes of nodes\<close>

record WGPeer =
  wg_NodeID :: string
  wg_Pubkey :: string
  wg_Endpoint :: string
  wg_NodePrefix :: Prefix
  wg_FabricGeneration :: int

type_synonym peers = "WGPeer list"

definition peer_of :: "string \<Rightarrow> peers \<Rightarrow> WGPeer option" where
  "peer_of node ps = List.find (\<lambda>p. wg_NodeID p = node) ps"

definition prefix_taken :: "string \<Rightarrow> Prefix \<Rightarrow> peers \<Rightarrow> bool" where
  "prefix_taken node x ps \<longleftrightarrow> list_ex (\<lambda>p. wg_NodeID p \<noteq> node \<and> wg_NodePrefix p = x) ps"

text \<open>A generation never goes back, and the same generation carries the same content; the prefix of another node violates an index.\<close>

definition UpsertWGPeer :: "WGPeer \<Rightarrow> peers \<Rightarrow> (fabric_err + unit) \<times> peers" where
  "UpsertWGPeer p ps =
     (case peer_of (wg_NodeID p) ps of
        None \<Rightarrow> if prefix_taken (wg_NodeID p) (wg_NodePrefix p) ps then (Inl FabricDBFailed, ps) else (Inr (), ps @ [p])
      | Some x \<Rightarrow>
          if \<not> (wg_FabricGeneration x < wg_FabricGeneration p \<or> x = p) then (Inl ErrFabricGenerationStale, ps)
          else if prefix_taken (wg_NodeID p) (wg_NodePrefix p) ps then (Inl FabricDBFailed, ps)
          else (Inr (), map (\<lambda>y. if wg_NodeID y = wg_NodeID p then p else y) ps))"

definition ListWGPeers :: "peers \<Rightarrow> peers" where
  "ListWGPeers ps = sort_key wg_NodeID ps"

definition maxCandidates :: nat where "maxCandidates = 65535"

text \<open>The candidates from the \<open>i\<close>-th on: a row of the same node, written since the lookup, is returned.\<close>

primrec node_prefix_from :: "nat \<Rightarrow> nat \<Rightarrow> Prefix \<Rightarrow> 128 word \<Rightarrow> string \<Rightarrow> string \<Rightarrow> string \<Rightarrow> peers \<Rightarrow> (fabric_err + Prefix \<times> int) \<times> peers" where
  "node_prefix_from 0 i cell base node pubkey endpoint ps = (Inl NoFreeAddress, ps)"
| "node_prefix_from (Suc n) i cell base node pubkey endpoint ps =
     (let cand = V6 (nextSubnetAddr base (of_nat (i + 1))) in
      if \<not> Contains_addr cell cand then (Inl NoFreeAddress, ps)
      else
        (case peer_of node ps of
           Some x \<Rightarrow> (Inr (wg_NodePrefix x, wg_FabricGeneration x), ps)
         | None \<Rightarrow>
             if prefix_taken node (Prefix cand 64) ps then node_prefix_from n (i + 1) cell base node pubkey endpoint ps
             else (Inr (Prefix cand 64, 1),
               ps @ [\<lparr>wg_NodeID = node, wg_Pubkey = pubkey, wg_Endpoint = endpoint, wg_NodePrefix = Prefix cand 64, wg_FabricGeneration = 1\<rparr>])))"

text \<open>A row that exists is locked by the lookup; \<open>looked\<close> is the table of the lookup for a node without a row.\<close>

definition EnsureNodeFabric :: "tx_end \<Rightarrow> Prefix \<Rightarrow> string \<Rightarrow> string \<Rightarrow> string \<Rightarrow> peers \<Rightarrow> peers \<Rightarrow> (fabric_err + Prefix \<times> int) \<times> peers" where
  "EnsureNodeFabric tx cellPrefix node pubkey endpoint looked ps =
     (case CanonicalizePrefix cellPrefix 40 of
        Inl e \<Rightarrow> (Inl e, ps)
      | Inr cell \<Rightarrow>
          (case peer_of node looked of
             Some x \<Rightarrow>
               (let changed = wg_Pubkey x \<noteq> pubkey \<or> wg_Endpoint x \<noteq> endpoint; gen = (if changed then wg_FabricGeneration x + 1 else wg_FabricGeneration x) in
                inTx FabricDBFailed tx (\<lambda>ps. (Inr (wg_NodePrefix x, gen),
                  if changed then map (\<lambda>p. if wg_NodeID p = node then p\<lparr>wg_Pubkey := pubkey, wg_Endpoint := endpoint, wg_FabricGeneration := gen\<rparr> else p) ps
                  else ps)) ps)
           | None \<Rightarrow>
               (case prefix_addr cell of
                  V6 base \<Rightarrow> inTx FabricDBFailed tx (node_prefix_from maxCandidates 0 cell base node pubkey endpoint) ps
                | _ \<Rightarrow> (Inl BadPrefix, ps))))"

section \<open>Watermarks\<close>

text \<open>The generation and the hash of the snapshot that was pushed to each node.\<close>

type_synonym versions = "(string, int \<times> string) gomap"

definition FabricVersion :: "string \<Rightarrow> versions \<Rightarrow> int \<times> string" where
  "FabricVersion node vs = (case mget vs node of None \<Rightarrow> (0, '''') | Some v \<Rightarrow> v)"

definition AdvanceFabricVersion :: "string \<Rightarrow> int \<Rightarrow> string \<Rightarrow> versions \<Rightarrow> (fabric_err + unit) \<times> versions" where
  "AdvanceFabricVersion node generation hash vs =
     (case mget vs node of
        Some (g, _) \<Rightarrow> if g < generation then (Inr (), mset_at node (generation, hash) vs) else (Inl ErrFabricGenerationStale, vs)
      | None \<Rightarrow> (Inr (), mset_at node (generation, hash) vs))"

definition DeleteWGPeer :: "string \<Rightarrow> peers \<times> versions \<Rightarrow> peers \<times> versions" where
  "DeleteWGPeer node t = (filter (\<lambda>p. wg_NodeID p \<noteq> node) (fst t), mdel node (snd t))"

section \<open>Policies between applications\<close>

record EastWestPolicy =
  ew_SrcProject :: string
  ew_SrcApp :: string
  ew_DstProject :: string
  ew_DstApp :: string
  ew_DstService :: string
  ew_Ports :: "int list"
  ew_Generation :: int

definition ew_key :: "EastWestPolicy \<Rightarrow> string \<times> string \<times> string \<times> string \<times> string" where
  "ew_key p = (ew_SrcProject p, ew_SrcApp p, ew_DstProject p, ew_DstApp p, ew_DstService p)"

definition PutEastWestPolicy :: "EastWestPolicy \<Rightarrow> EastWestPolicy list \<Rightarrow> (fabric_err + unit) \<times> EastWestPolicy list" where
  "PutEastWestPolicy p ps =
     (case List.find (\<lambda>x. ew_key x = ew_key p) ps of
        None \<Rightarrow> (Inr (), ps @ [p])
      | Some x \<Rightarrow>
          if ew_Generation x < ew_Generation p \<or> (ew_Generation x = ew_Generation p \<and> ew_Ports x = ew_Ports p)
          then (Inr (), map (\<lambda>y. if ew_key y = ew_key p then p else y) ps)
          else (Inl ErrFabricGenerationStale, ps))"

definition ListEastWestPolicies :: "EastWestPolicy list \<Rightarrow> EastWestPolicy list" where
  "ListEastWestPolicies ps = sort_key ew_key ps"

text \<open>The deletion and, if it affected no row, the lookup that tells a missing row from a newer one.\<close>

definition DeleteEastWestPolicy :: "EastWestPolicy \<Rightarrow> EastWestPolicy list \<Rightarrow> (fabric_err + unit) \<times> EastWestPolicy list" where
  "DeleteEastWestPolicy p ps =
     (let old = (\<lambda>x. ew_key x = ew_key p \<and> ew_Generation x \<le> ew_Generation p) in
      if list_ex old ps then (Inr (), filter (\<lambda>x. \<not> old x) ps)
      else if list_ex (\<lambda>x. ew_key x = ew_key p) ps then (Inl ErrFabricGenerationStale, ps)
      else (Inr (), ps))"

section \<open>The joins of a snapshot\<close>

text \<open>The declared services of a machine's deployment; \<open>deps\<close> and \<open>apps\<close> are the deployments and the projects of the applications.\<close>

definition declared_services :: "Deployment list \<Rightarrow> string \<Rightarrow> ServiceSpec list option" where
  "declared_services deps dep = map_option dp_Services (List.find (\<lambda>d. dp_ID d = dep) deps)"

definition MeshServiceKey :: "string \<Rightarrow> string \<Rightarrow> string \<Rightarrow> string" where
  "MeshServiceKey project app service = project @ [CHR 0x00] @ app @ [CHR 0x00] @ service"

text \<open>The direct services of all machines, and the machines that have one.\<close>

definition direct_rows :: "(string, string) gomap \<Rightarrow> Deployment list \<Rightarrow> machines \<Rightarrow> (string \<times> string \<times> string \<times> string) list" where
  "direct_rows apps deps ms =
     concat (map (\<lambda>m. case (mget apps (m_AppID m), declared_services deps (m_DeploymentID m)) of
        (Some project, Some svcs) \<Rightarrow>
          map (\<lambda>s. (project, m_AppID m, m_ID m, sv_Name s)) (filter (\<lambda>s. sv_Name s \<noteq> '''' \<and> sv_MeshDirect s) svcs)
      | _ \<Rightarrow> []) ms)"

definition MeshDirectIndex :: "(string, string) gomap \<Rightarrow> Deployment list \<Rightarrow> machines \<Rightarrow> string set \<times> string set" where
  "MeshDirectIndex apps deps ms =
     (set (map (\<lambda>(project, app, _, service). MeshServiceKey project app service) (direct_rows apps deps ms)),
      set (map (\<lambda>(_, _, mid, _). mid) (direct_rows apps deps ms)))"

record FabricIdentity =
  fr_Identity :: WorkloadIdentity
  fr_Allocation :: ULAAllocation
  fr_MeshDirect :: bool

definition snapshot_services :: "ServiceSpec list \<Rightarrow> ServiceSpec list" where
  "snapshot_services svcs = (if svcs = [] then [\<lparr>sv_Name = ''default'', sv_InternalPort = 0, sv_MeshDirect = False\<rparr>] else svcs)"

text \<open>The rows of one allocation, one for every service that has an identity.\<close>

definition allocation_rows :: "identities \<Rightarrow> Deployment list \<Rightarrow> machines \<Rightarrow> ULAAllocation \<Rightarrow> FabricIdentity list" where
  "allocation_rows t deps ms a =
     (case GetMachine (ua_MachineID a) ms of
        None \<Rightarrow> []
      | Some m \<Rightarrow>
          (case declared_services deps (m_DeploymentID m) of
             None \<Rightarrow> []
           | Some svcs \<Rightarrow> List.map_filter (\<lambda>s. map_option (\<lambda>w. \<lparr>fr_Identity = w, fr_Allocation = a, fr_MeshDirect = sv_MeshDirect s\<rparr>)
               (List.find (identity_of (ua_ProjectID a) (m_AppID m) (sv_Name s)) (id_rows t))) (sort_key sv_Name (snapshot_services svcs))))"

definition FabricIdentities :: "identities \<Rightarrow> Deployment list \<Rightarrow> machines \<Rightarrow> allocations \<Rightarrow> FabricIdentity list" where
  "FabricIdentities t deps ms rows =
     concat (map (allocation_rows t deps ms) (sort_key (\<lambda>a. (ua_MachineID a, ua_ExecutionID a)) (filter active rows)))"

section \<open>Address arithmetic\<close>

fun bytes_val :: "u8 list \<Rightarrow> nat" where
  "bytes_val [] = 0"
| "bytes_val (b # bs) = unat b + 256 * bytes_val bs"

lemma of_bytes_val: "of_bytes bs = of_nat (bytes_val bs)"
  by (induction bs) simp_all

lemma bytes_val_bound: "bytes_val bs < 256 ^ length bs"
proof (induction bs)
  case (Cons b bs)
  have "unat b < 256" using unsigned_less[where 'a = nat, of b] by simp
  with Cons show ?case by simp
qed simp

lemma unat_drop: "unat (drop_bit n w) = unat w div 2 ^ n" for w :: "'a::len word"
  unfolding unat_drop_bit_eq by (rule drop_bit_eq_div)

lemma bytes_of_val_list: "bytes_val (map (\<lambda>i. ucast (drop_bit (8 * (i + k)) w)) [0..<n]) = (unat w div 256 ^ k) mod 256 ^ n" for w :: "128 word"
proof (induction n arbitrary: k)
  case (Suc n)
  have "unat (ucast (drop_bit (8 * k) w) :: u8) = unat w div 256 ^ k mod 256"
    by (simp only: unsigned_ucast_eq take_bit_eq_mod unat_drop power_mult) simp
  moreover have "[0..<Suc n] = 0 # map Suc [0..<n]" by (simp add: upt_conv_Cons map_Suc_upt)
  moreover have "bytes_val (map (\<lambda>i. ucast (drop_bit (8 * (Suc i + k)) w)) [0..<n]) = (unat w div 256 ^ Suc k) mod 256 ^ n"
    using Suc[of "Suc k"] by simp
  ultimately have "bytes_val (map (\<lambda>i. ucast (drop_bit (8 * (i + k)) w)) [0..<Suc n])
      = unat w div 256 ^ k mod 256 + 256 * ((unat w div 256 ^ Suc k) mod 256 ^ n)"
    by (simp add: comp_def algebra_simps)
  also have "\<dots> = (unat w div 256 ^ k) mod 256 ^ Suc n"
    unfolding power_Suc2[of 256 k] power_Suc[of 256 n] div_mult2_eq mod_mult2_eq by simp
  finally show ?case .
qed simp

lemma bytes_of_val: "bytes_val (bytes_of w) = unat w"
  using bytes_of_val_list[of 0 w 16] unsigned_less[where 'a = nat, of w] by (simp add: bytes_of_def)

lemma length_bytes_of [simp]: "length (bytes_of w) = 16"
  by (simp add: bytes_of_def)

text \<open>The loop over the bytes adds, as long as the carry stays within its type.\<close>

lemma add_carry_val: "unat offset + 255 < 2 ^ 64 \<Longrightarrow> bytes_val (add_carry bs offset) = (bytes_val bs + unat offset) mod 256 ^ length bs"
proof (induction bs arbitrary: offset)
  case (Cons b bs)
  show ?case
  proof (cases "offset = 0")
    case True
    then show ?thesis using bytes_val_bound[of "b # bs"] by simp
  next
    case False
    define s where "s = ucast b + offset"
    have b: "unat b < 256" using unsigned_less[where 'a = nat, of b] by simp
    have s: "unat s = unat b + unat offset"
      using b Cons.prems by (simp add: s_def unat_add_u64 unsigned_ucast_eq take_bit_eq_mod)
    have low: "unat (ucast s :: u8) = unat s mod 256" by (simp add: unsigned_ucast_eq take_bit_eq_mod)
    have high: "unat (drop_bit 8 s) = unat s div 256" by (simp only: unat_drop) simp
    have "bytes_val (add_carry bs (drop_bit 8 s)) = (bytes_val bs + unat s div 256) mod 256 ^ length bs"
      using Cons.IH[of "drop_bit 8 s"] Cons.prems b s by (simp add: high)
    moreover have "(unat b + 256 * bytes_val bs + unat offset) mod (256 * 256 ^ length bs)
        = unat s mod 256 + 256 * ((bytes_val bs + unat s div 256) mod 256 ^ length bs)"
    proof -
      have "unat b + 256 * bytes_val bs + unat offset = unat s + 256 * bytes_val bs" using s by simp
      moreover have "(unat s + 256 * bytes_val bs) mod (256 * 256 ^ length bs) = unat s mod 256 + 256 * ((bytes_val bs + unat s div 256) mod 256 ^ length bs)"
        unfolding mod_mult2_eq by (simp add: add.commute)
      ultimately show ?thesis by (simp only:)
    qed
    ultimately show ?thesis using False by (simp add: s_def[symmetric] Let_def low)
  qed
qed simp

lemma nextAddr_add: "unat offset + 255 < 2 ^ 64 \<Longrightarrow> nextAddr base offset = base + ucast offset"
  by (rule unsigned_word_eqI[where 'a = nat]) (simp add: nextAddr_def of_bytes_val add_carry_val bytes_of_val unat_of_nat unat_word_ariths unsigned_ucast_eq take_bit_eq_mod)

section \<open>Allocations of a history\<close>

definition execution_key :: "ULAAllocation \<Rightarrow> string \<times> string" where
  "execution_key a = (ua_MachineID a, ua_ExecutionID a)"

text \<open>The two partial indexes.\<close>

definition alloc_ok :: "allocations \<Rightarrow> bool" where
  "alloc_ok rows \<longleftrightarrow> distinct (map ua_ULA (filter active rows)) \<and> distinct (map execution_key (filter active rows))"

lemma find_allocated:
  "List.find (allocated_to mid e) rows = Some a \<Longrightarrow> a \<in> set rows \<and> active a \<and> execution_key a = (mid, e)"
  using find_SomeD[of "allocated_to mid e" rows a] by (simp add: allocated_to_def execution_key_def)

lemma find_not_allocated: "List.find (allocated_to mid e) rows = None \<longleftrightarrow> (\<forall>a \<in> set rows. active a \<longrightarrow> execution_key a \<noteq> (mid, e))"
  by (auto simp: find_None_iff allocated_to_def execution_key_def)

lemma one_allocation: "\<lbrakk>alloc_ok rows; a \<in> set rows; b \<in> set rows; active a; active b; execution_key a = execution_key b \<or> ua_ULA a = ua_ULA b\<rbrakk> \<Longrightarrow> a = b"
  by (auto simp: alloc_ok_def distinct_map inj_on_def)

lemma allocate_from_rows:
  "snd (allocate_from n i q base rows) = rows \<or>
   (\<exists>a. allocate_from n i q base rows = (Inr a, rows @ [new_allocation q a]) \<and> (\<forall>r \<in> set rows. active r \<longrightarrow> ua_ULA r \<noteq> a) \<and>
     List.find (allocated_to (ar_MachineID q) (ar_ExecutionID q)) rows = None)"
  by (induction n arbitrary: i) (auto simp: Let_def list_ex_iff split: option.splits)

lemma alloc_ok_append:
  "\<lbrakk>alloc_ok rows; \<forall>r \<in> set rows. active r \<longrightarrow> ua_ULA r \<noteq> a; List.find (allocated_to (ar_MachineID q) (ar_ExecutionID q)) rows = None\<rbrakk>
   \<Longrightarrow> alloc_ok (rows @ [new_allocation q a])"
  unfolding find_not_allocated by (auto simp: alloc_ok_def new_allocation_def active_def execution_key_def)

lemma allocate_from_ok: "alloc_ok rows \<Longrightarrow> alloc_ok (snd (allocate_from n i q base rows))"
  using allocate_from_rows[of n i q base rows] alloc_ok_append by auto

text \<open>A result is the address of an allocation in use on the node that was asked for.\<close>

lemma allocate_from_result:
  "allocate_from n i q base rows = (Inr a, rows') \<Longrightarrow>
   \<exists>r \<in> set rows'. active r \<and> execution_key r = (ar_MachineID q, ar_ExecutionID q) \<and> ua_ULA r = a \<and> ua_NodeID r = ar_NodeID q"
proof (induction n arbitrary: i)
  case (Suc n)
  show ?case
  proof (cases "list_ex (\<lambda>a. active a \<and> ua_ULA a = V6 (nextAddr base (of_nat (i + 1)))) rows")
    case True
    then show ?thesis using Suc.prems by (intro Suc.IH[of "i + 1"]) (simp add: Let_def split: if_splits)
  next
    case False
    then show ?thesis using Suc.prems
      by (auto simp: Let_def active_def new_allocation_def execution_key_def split: if_splits option.splits dest!: find_allocated)
  qed
qed simp

lemma AllocateULA_cases:
  obtains (refused) e where "AllocateULA tx q rows = (Inl e, rows)"
  | (ran) cell node base where "AllocateULA tx q rows = inTx FabricDBFailed tx (allocate_from maxAttempts 0 (q\<lparr>ar_Cell := cell, ar_Node := node\<rparr>) base) rows"
  unfolding AllocateULA_def by (fastforce split: sum.splits Addr.splits if_splits)

lemma AllocateULA_ok: "alloc_ok rows \<Longrightarrow> alloc_ok (snd (AllocateULA tx q rows))"
proof (cases rule: AllocateULA_cases[of tx q rows])
  case (ran cell node base)
  assume "alloc_ok rows"
  then show ?thesis using ran inTx_snd[of FabricDBFailed tx "allocate_from maxAttempts 0 (q\<lparr>ar_Cell := cell, ar_Node := node\<rparr>) base" rows]
      allocate_from_ok[of rows maxAttempts 0 "q\<lparr>ar_Cell := cell, ar_Node := node\<rparr>" base] by auto
qed simp

lemma AllocateULA_keeps: "r \<in> set rows \<Longrightarrow> r \<in> set (snd (AllocateULA tx q rows))"
proof (cases rule: AllocateULA_cases[of tx q rows])
  case (ran cell node base)
  assume "r \<in> set rows"
  then show ?thesis using ran inTx_snd[of FabricDBFailed tx "allocate_from maxAttempts 0 (q\<lparr>ar_Cell := cell, ar_Node := node\<rparr>) base" rows]
      allocate_from_rows[of maxAttempts 0 "q\<lparr>ar_Cell := cell, ar_Node := node\<rparr>" base rows] by auto
qed simp

lemma AllocateULA_result:
  assumes "AllocateULA tx q rows = (Inr a, rows')"
  shows "\<exists>r \<in> set rows'. active r \<and> execution_key r = (ar_MachineID q, ar_ExecutionID q) \<and> ua_ULA r = a \<and> ua_NodeID r = ar_NodeID q"
proof (cases rule: AllocateULA_cases[of tx q rows])
  case (ran cell node base)
  then have "allocate_from maxAttempts 0 (q\<lparr>ar_Cell := cell, ar_Node := node\<rparr>) base rows = (Inr a, rows')"
    using assms inTx_Inr[of FabricDBFailed tx _ rows a rows'] by metis
  from allocate_from_result[OF this] show ?thesis by simp
qed (use assms in simp)

text \<open>The statements of all writers.\<close>

datatype ula_op = Allocate tx_end AllocationRequest | Release string string

definition ula_run :: "int \<Rightarrow> ula_op \<Rightarrow> allocations \<Rightarrow> allocations" where
  "ula_run now x rows = (case x of Allocate tx q \<Rightarrow> snd (AllocateULA tx q rows) | Release mid e \<Rightarrow> ReleaseULA now mid e rows)"

fun ula_runs :: "(int \<times> ula_op) list \<Rightarrow> allocations \<Rightarrow> allocations" where
  "ula_runs [] rows = rows"
| "ula_runs ((now, x) # xs) rows = ula_runs xs (ula_run now x rows)"

lemma ReleaseULA_active: "filter active (ReleaseULA now mid e rows) = filter (\<lambda>a. execution_key a \<noteq> (mid, e)) (filter active rows)"
  by (induction rows) (auto simp: ReleaseULA_def allocated_to_def active_def execution_key_def)

lemma ula_run_ok: "alloc_ok rows \<Longrightarrow> alloc_ok (ula_run now x rows)"
proof (cases x)
  case (Release mid e)
  assume "alloc_ok rows"
  then show ?thesis unfolding ula_run_def Release ula_op.case alloc_ok_def ReleaseULA_active by (auto simp del: filter_filter intro: distinct_map_filter)
qed (simp add: ula_run_def AllocateULA_ok)

lemma ula_runs_ok: "alloc_ok rows \<Longrightarrow> alloc_ok (ula_runs xs rows)"
  by (induction xs arbitrary: rows) (auto simp: ula_run_ok)

lemma ula_run_keeps:
  "\<lbrakk>r \<in> set rows; active r; \<And>mid e. x = Release mid e \<Longrightarrow> execution_key r \<noteq> (mid, e)\<rbrakk> \<Longrightarrow> r \<in> set (ula_run now x rows)"
  by (cases x) (auto simp: ula_run_def AllocateULA_keeps ReleaseULA_def allocated_to_def execution_key_def image_iff)

lemma ula_runs_keep:
  "\<lbrakk>r \<in> set rows; active r; \<And>mid e. Release mid e \<in> snd ` set xs \<Longrightarrow> execution_key r \<noteq> (mid, e)\<rbrakk> \<Longrightarrow> r \<in> set (ula_runs xs rows)"
proof (induction xs arbitrary: rows)
  case (Cons y xs)
  obtain now x where y: "y = (now, x)" by (cases y)
  have "r \<in> set (ula_run now x rows)" using Cons.prems y by (intro ula_run_keeps) force+
  then show ?case using Cons.IH[of "ula_run now x rows"] Cons.prems y by auto
qed simp

text \<open>
  \<^bold>\<open>Claim C15.\<close> An address handed out for an execution stays its address and nobody else's until it is released: whatever other
  allocations and releases happen in between, a later request for the same execution never returns another address, and an
  allocation in use with this address belongs to this execution and node.
\<close>

theorem execution_address_stable:
  assumes "alloc_ok rows" "AllocateULA tx q rows = (Inr a, rows1)"
    and "Release (ar_MachineID q) (ar_ExecutionID q) \<notin> snd ` set xs"
    and "ar_MachineID q' = ar_MachineID q" "ar_ExecutionID q' = ar_ExecutionID q"
  shows "(\<forall>b. fst (AllocateULA tx' q' (ula_runs xs rows1)) = Inr b \<longrightarrow> b = a \<and> ar_NodeID q' = ar_NodeID q) \<and>
    (\<forall>r \<in> set (ula_runs xs rows1). active r \<and> ua_ULA r = a \<longrightarrow>
      ua_MachineID r = ar_MachineID q \<and> ua_ExecutionID r = ar_ExecutionID q \<and> ua_NodeID r = ar_NodeID q)"
proof (intro conjI allI ballI impI)
  have ok1: "alloc_ok rows1" using AllocateULA_ok[OF assms(1), of tx q] assms(2) by simp
  obtain r0 where r0: "r0 \<in> set rows1" "active r0" "execution_key r0 = (ar_MachineID q, ar_ExecutionID q)" "ua_ULA r0 = a" "ua_NodeID r0 = ar_NodeID q"
    using AllocateULA_result[OF assms(2)] by blast
  have kept: "r0 \<in> set (ula_runs xs rows1)" using assms(3) r0 by (intro ula_runs_keep) auto
  have ok2: "alloc_ok (ula_runs xs rows1)" using ok1 by (rule ula_runs_ok)
  {
    fix r assume "r \<in> set (ula_runs xs rows1)" "active r \<and> ua_ULA r = a"
    then have "r = r0" using one_allocation[OF ok2 kept, of r] r0 by auto
    then show "ua_MachineID r = ar_MachineID q" "ua_ExecutionID r = ar_ExecutionID q" "ua_NodeID r = ar_NodeID q" using r0 by (auto simp: execution_key_def)
  }
  fix b assume "fst (AllocateULA tx' q' (ula_runs xs rows1)) = Inr b"
  then obtain rows3 where "AllocateULA tx' q' (ula_runs xs rows1) = (Inr b, rows3)" by (cases "AllocateULA tx' q' (ula_runs xs rows1)") auto
  moreover from this obtain r1 where r1: "r1 \<in> set rows3" "active r1" "execution_key r1 = (ar_MachineID q', ar_ExecutionID q')" "ua_ULA r1 = b" "ua_NodeID r1 = ar_NodeID q'"
    using AllocateULA_result by blast
  ultimately have "r1 = r0" using one_allocation[of rows3 r1 r0] AllocateULA_ok[OF ok2, of tx' q'] AllocateULA_keeps[OF kept, of tx' q'] r0 assms(4,5) by simp
  then show "b = a" "ar_NodeID q' = ar_NodeID q" using r0 r1 by simp_all
qed

definition request_example :: "string \<Rightarrow> AllocationRequest" where
  "request_example mid =
     \<lparr>ar_Cell = Prefix (V6 0xfd7a9a55000000000000000000000000) 40, ar_Node = Prefix (V6 0xfd7a9a55000000010000000000000000) 64, ar_ProjectID = ''p'',
      ar_NodeID = ''n1'', ar_MachineID = mid, ar_ExecutionID = ''e1'', ar_Generation = 1\<rparr>"

theorem execution_address_stable_witness:
  "fst (AllocateULA TxCommit (request_example ''m1'') []) = Inr (V6 0xfd7a9a55000000010000000000000001) \<and>
   fst (AllocateULA TxCommit (request_example ''m1'') (ula_runs [(5, Allocate TxCommit (request_example ''m2'')), (6, Release ''m2'' ''e1'')]
     (snd (AllocateULA TxCommit (request_example ''m1'') [])))) = Inr (V6 0xfd7a9a55000000010000000000000001)"
proof -
  let ?rows1 = "snd (AllocateULA TxCommit (request_example ''m1'') [])"
  let ?xs = "[(5 :: int, Allocate TxCommit (request_example ''m2'')), (6, Release ''m2'' ''e1'')]"
  have a: "AllocateULA TxCommit (request_example ''m1'') [] = (Inr (V6 0xfd7a9a55000000010000000000000001), ?rows1)" by code_simp
  have b: "fst (AllocateULA TxCommit (request_example ''m1'') (ula_runs ?xs ?rows1)) = Inr (V6 0xfd7a9a55000000010000000000000001)" by code_simp
  have c: "Release (ar_MachineID (request_example ''m1'')) (ar_ExecutionID (request_example ''m1'')) \<notin> snd ` set ?xs" by code_simp
  have d: "alloc_ok []" by (simp add: alloc_ok_def)
  show ?thesis using execution_address_stable[OF d a c, of "request_example ''m1''" TxCommit] b a[THEN arg_cong[where f = fst]] by (simp del: ula_runs.simps)
qed

text \<open>
  A node all of whose candidates are in use answers a repeated request with an error, even where one of the candidates is
  the address of the execution itself.
\<close>

lemma full_node_refuses_replay:
  "(\<And>i. i < n \<Longrightarrow> list_ex (\<lambda>a. active a \<and> ua_ULA a = V6 (nextAddr base (of_nat (k + i + 1)))) rows) \<Longrightarrow>
   allocate_from n k q base rows = (Inl NoFreeAddress, rows)"
proof (induction n arbitrary: k)
  case (Suc n)
  have "list_ex (\<lambda>a. active a \<and> ua_ULA a = V6 (nextAddr base (of_nat (k + 1)))) rows" using Suc.prems[of 0] by simp
  moreover have "allocate_from n (k + 1) q base rows = (Inl NoFreeAddress, rows)"
  proof (rule Suc.IH)
    fix i assume "i < n"
    then show "list_ex (\<lambda>a. active a \<and> ua_ULA a = V6 (nextAddr base (of_nat (k + 1 + i + 1)))) rows" using Suc.prems[of "Suc i"] by (simp add: add_ac)
  qed
  ultimately show ?case by (simp only: allocate_from.simps Let_def if_True split: if_split) simp
qed simp

section \<open>Prefixes of a history\<close>

definition peers_ok :: "peers \<Rightarrow> bool" where
  "peers_ok ps \<longleftrightarrow> distinct (map wg_NodeID ps) \<and> distinct (map wg_NodePrefix ps)"

lemma peer_of_Some: "peer_of node ps = Some x \<Longrightarrow> x \<in> set ps \<and> wg_NodeID x = node"
  using find_SomeD[of "\<lambda>p. wg_NodeID p = node" ps x] by (simp add: peer_of_def)

lemma peer_of_None: "peer_of node ps = None \<longleftrightarrow> node \<notin> wg_NodeID ` set ps"
  by (auto simp: peer_of_def find_None_iff)

lemma peers_ok_append: "\<lbrakk>peers_ok ps; peer_of (wg_NodeID p) ps = None; \<not> prefix_taken (wg_NodeID p) (wg_NodePrefix p) ps\<rbrakk> \<Longrightarrow> peers_ok (ps @ [p])"
  unfolding peer_of_None by (auto simp: peers_ok_def prefix_taken_def list_ex_iff) (metis imageI)

lemma node_prefix_from_ok: "peers_ok ps \<Longrightarrow> peers_ok (snd (node_prefix_from n i cell base node pubkey endpoint ps))"
proof (induction n arbitrary: i)
  case (Suc n)
  let ?cand = "V6 (nextSubnetAddr base (of_nat (i + 1)))"
  have "peers_ok (ps @ [\<lparr>wg_NodeID = node, wg_Pubkey = pubkey, wg_Endpoint = endpoint, wg_NodePrefix = Prefix ?cand 64, wg_FabricGeneration = 1\<rparr>])"
    if "peer_of node ps = None" "\<not> prefix_taken node (Prefix ?cand 64) ps" using that Suc.prems by (intro peers_ok_append) simp_all
  then show ?case using Suc by (auto simp: Let_def split: option.split)
qed simp

text \<open>A registered node keeps its prefix; its generation grows exactly when its key or its endpoint changes.\<close>

lemma EnsureNodeFabric_registered:
  assumes "CanonicalizePrefix cellPrefix 40 = Inr cell" "peer_of node ps = Some x"
  shows "EnsureNodeFabric TxCommit cellPrefix node pubkey endpoint ps ps =
    (if wg_Pubkey x = pubkey \<and> wg_Endpoint x = endpoint then (Inr (wg_NodePrefix x, wg_FabricGeneration x), ps)
     else (Inr (wg_NodePrefix x, wg_FabricGeneration x + 1),
       map (\<lambda>p. if wg_NodeID p = node then p\<lparr>wg_Pubkey := pubkey, wg_Endpoint := endpoint, wg_FabricGeneration := wg_FabricGeneration x + 1\<rparr> else p) ps))"
  using assms by (simp add: EnsureNodeFabric_def inTx_def Let_def)

lemma EnsureNodeFabric_ok:
  assumes "peers_ok ps"
  shows "peers_ok (snd (EnsureNodeFabric tx cellPrefix node pubkey endpoint looked ps))"
proof -
  have upd: "map wg_NodeID (map (\<lambda>p. if wg_NodeID p = node then p\<lparr>wg_Pubkey := a, wg_Endpoint := b, wg_FabricGeneration := g\<rparr> else p) ps) = map wg_NodeID ps"
    "map wg_NodePrefix (map (\<lambda>p. if wg_NodeID p = node then p\<lparr>wg_Pubkey := a, wg_Endpoint := b, wg_FabricGeneration := g\<rparr> else p) ps) = map wg_NodePrefix ps" for a b g
    by simp_all
  have upd_ok: "peers_ok (map (\<lambda>p. if wg_NodeID p = node then p\<lparr>wg_Pubkey := a, wg_Endpoint := b, wg_FabricGeneration := g\<rparr> else p) ps)" for a b g
    using assms unfolding peers_ok_def upd .
  have ins: "peers_ok (snd (inTx FabricDBFailed tx (node_prefix_from maxCandidates 0 cell base node pubkey endpoint) ps))" for cell base
    using inTx_snd[of FabricDBFailed tx "node_prefix_from maxCandidates 0 cell base node pubkey endpoint" ps]
      node_prefix_from_ok[OF assms, of maxCandidates 0 cell base node pubkey endpoint] assms by auto
  show ?thesis using assms upd_ok ins
    by (simp add: EnsureNodeFabric_def Let_def inTx_def split: sum.split option.split Addr.split tx_end.split)
qed

lemma UpsertWGPeer_ok: "peers_ok ps \<Longrightarrow> peers_ok (snd (UpsertWGPeer p ps))"
proof (cases "peer_of (wg_NodeID p) ps")
  case (Some x)
  assume ok: "peers_ok ps"
  let ?f = "\<lambda>y. if wg_NodeID y = wg_NodeID p then p else y"
  have ids: "map wg_NodeID (map ?f ps) = map wg_NodeID ps" by simp
  have "inj_on (wg_NodePrefix \<circ> ?f) (set ps)" if "\<not> prefix_taken (wg_NodeID p) (wg_NodePrefix p) ps"
    using that ok by (auto simp: inj_on_def peers_ok_def distinct_map prefix_taken_def list_ex_iff)
  then have "distinct (map wg_NodePrefix (map ?f ps))" if "\<not> prefix_taken (wg_NodeID p) (wg_NodePrefix p) ps"
    using that ok by (simp add: peers_ok_def distinct_map comp_def)
  then have "peers_ok (map ?f ps)" if "\<not> prefix_taken (wg_NodeID p) (wg_NodePrefix p) ps"
    using that ok unfolding peers_ok_def ids by blast
  then show ?thesis using ok Some by (simp add: UpsertWGPeer_def)
qed (auto simp: UpsertWGPeer_def intro: peers_ok_append)

text \<open>The watermark of a node only grows while the node is registered.\<close>

lemma AdvanceFabricVersion_mono: "fst (FabricVersion n vs) \<le> fst (FabricVersion n (snd (AdvanceFabricVersion node g h vs)))" if "0 \<le> g"
  using that by (auto simp: AdvanceFabricVersion_def FabricVersion_def split: option.splits)

lemma PutEastWestPolicy_fenced: "\<lbrakk>x \<in> set ps; ew_key x = ew_key p; distinct (map ew_key ps); ew_Generation p < ew_Generation x\<rbrakk> \<Longrightarrow> PutEastWestPolicy p ps = (Inl ErrFabricGenerationStale, ps)"
proof -
  assume a: "x \<in> set ps" "ew_key x = ew_key p" "distinct (map ew_key ps)" "ew_Generation p < ew_Generation x"
  then obtain y where y: "List.find (\<lambda>z. ew_key z = ew_key p) ps = Some y" by (cases "List.find (\<lambda>z. ew_key z = ew_key p) ps") (auto simp: find_None_iff)
  then have "y = x" using a find_SomeD[OF y] by (auto simp: distinct_map inj_on_def)
  then show ?thesis using y a(4) by (simp add: PutEastWestPolicy_def)
qed

end
