(* ===== verification/Volumes.thy ===== *)
theory Volumes
  imports MachineRows GoStrings
begin

text \<open>
  Volumes and their attachments (\<open>internal/controlplane/store/volumes.go\<close>) and the inventories the nodes report about them
  (\<open>local_observations.go\<close>). A volume lives on one node; a writable one has a single writer at a time, whose claim ends when the
  agent has confirmed the detachment or the execution is gone. A transaction is one step: the row of the volume or the
  quota of the project is locked first. Observation times and reasons in the rows are left out. What the quota query sums
  over the machines is an argument.
\<close>

section \<open>Rows\<close>

record Volume =
  vo_ID :: string
  vo_ProjectID :: string
  vo_Name :: string
  vo_Mode :: string
  vo_NodeID :: string
  vo_SizeBytes :: int
  vo_State :: string
  vo_ContentDigest :: string
  vo_ImportStatus :: string
  vo_Integrity :: string
  vo_CreatedAt :: int

record VolumeAttachment =
  va_VolumeID :: string
  va_MachineID :: string
  va_ExecutionID :: string
  va_MountPath :: string
  va_Readonly :: bool
  va_OverlaySizeBytes :: int
  va_Status :: string

datatype volume_err =
    ErrVolumeStateConflict
  | ErrVolumeSingleWriter
  | ErrVolumeLocality
  | ErrVolumeQuota
  | ErrDatasetDigest
  | VolRequestConflict
  | InvalidCommand
  | NoSuchVolume
  | VolDBFailed

record vdb =
  vd_volumes :: "Volume list"
  vd_attachments :: "VolumeAttachment list"

text \<open>The volumes joined with the tables their transactions read and write.\<close>

record voldb = vdb +
  vd_machines :: machines
  vd_ops :: operations

definition GetVolume :: "string \<Rightarrow> Volume list \<Rightarrow> Volume option" where
  "GetVolume v vs = List.find (\<lambda>x. vo_ID x = v) vs"

definition ListVolumes :: "string \<Rightarrow> Volume list \<Rightarrow> Volume list" where
  "ListVolumes project vs = sort_key vo_CreatedAt (filter (\<lambda>x. project = '''' \<or> vo_ProjectID x = project) vs)"

definition ListVolumesOnNode :: "string \<Rightarrow> Volume list \<Rightarrow> Volume list" where
  "ListVolumesOnNode node vs = filter (\<lambda>x. vo_NodeID x = node \<and> vo_State x \<in> {''CREATING'', ''READY'', ''UNAVAILABLE''}) vs"

definition update_volumes :: "(Volume \<Rightarrow> bool) \<Rightarrow> (Volume \<Rightarrow> Volume) \<Rightarrow> Volume list \<Rightarrow> nat \<times> Volume list" where
  "update_volumes P f vs = (length (filter P vs), map (\<lambda>x. if P x then f x else x) vs)"

section \<open>States of a volume\<close>

text \<open>The primary key and the two unique indexes of the table; a new row violates them against any other.\<close>

definition volume_clash :: "Volume \<Rightarrow> Volume \<Rightarrow> bool" where
  "volume_clash v x \<longleftrightarrow> vo_ID x = vo_ID v \<or> (vo_ProjectID x = vo_ProjectID v \<and> vo_Name x = vo_Name v) \<or>
     (vo_Mode v = ''DATASET_RO'' \<and> vo_ContentDigest v \<noteq> '''' \<and> vo_State v \<noteq> ''DELETED'' \<and>
      vo_Mode x = ''DATASET_RO'' \<and> vo_State x \<noteq> ''DELETED'' \<and> vo_ProjectID x = vo_ProjectID v \<and> vo_ContentDigest x = vo_ContentDigest v)"

definition insert_volume :: "Volume \<Rightarrow> Volume list \<Rightarrow> volume_err + Volume list" where
  "insert_volume v vs = (if list_ex (volume_clash v) vs then Inl VolDBFailed else Inr (vs @ [v]))"

text \<open>A row with the identifier is returned as it is, whatever it holds.\<close>

definition CreateVolume :: "int \<Rightarrow> string \<Rightarrow> string \<Rightarrow> string \<Rightarrow> string \<Rightarrow> int \<Rightarrow> Volume list \<Rightarrow> (volume_err + Volume) \<times> Volume list" where
  "CreateVolume now v project name node bytes vs =
     (case GetVolume v vs of
        Some x \<Rightarrow> (Inr x, vs)
      | None \<Rightarrow>
          (let row = \<lparr>vo_ID = v, vo_ProjectID = project, vo_Name = name, vo_Mode = ''LOCAL_RW'', vo_NodeID = node, vo_SizeBytes = bytes, vo_State = ''CREATING'',
                vo_ContentDigest = '''', vo_ImportStatus = '''', vo_Integrity = ''UNKNOWN'', vo_CreatedAt = now\<rparr> in
           case insert_volume row vs of Inl e \<Rightarrow> (Inl e, vs) | Inr vs1 \<Rightarrow> (Inr row, vs1)))"

definition SetVolumeIntegrity :: "string \<Rightarrow> string \<Rightarrow> Volume list \<Rightarrow> (volume_err + unit) \<times> Volume list" where
  "SetVolumeIntegrity v integrity vs =
     (let (n, vs1) = update_volumes (\<lambda>x. vo_ID x = v \<and> vo_State x \<noteq> ''DELETED'') (\<lambda>x. x\<lparr>vo_Integrity := integrity\<rparr>) vs in
      (if n = 0 then Inl ErrVolumeStateConflict else Inr (), vs1))"

definition availability :: "string \<Rightarrow> string \<Rightarrow> string" where
  "availability integrity state =
     (if (integrity = ''MISSING'' \<or> integrity = ''CORRUPT'') \<and> state = ''READY'' then ''UNAVAILABLE''
      else if integrity = ''METADATA_VERIFIED'' \<and> state = ''UNAVAILABLE'' then ''READY''
      else state)"

definition ApplyVolumeIntegrity :: "string \<Rightarrow> string \<Rightarrow> Volume list \<Rightarrow> (volume_err + bool) \<times> Volume list" where
  "ApplyVolumeIntegrity v integrity vs =
     (if integrity \<notin> {''MISSING'', ''CORRUPT'', ''METADATA_VERIFIED''} then (Inl InvalidCommand, vs)
      else
        (case GetVolume v vs of
           None \<Rightarrow> (Inl NoSuchVolume, vs)
         | Some x \<Rightarrow>
             if vo_Integrity x = ''CORRUPT'' \<and> integrity = ''METADATA_VERIFIED'' then (Inr False, vs)
             else
               (let state = availability integrity (vo_State x) in
                (Inr (vo_Integrity x \<noteq> integrity \<or> vo_State x \<noteq> state),
                 snd (update_volumes (\<lambda>y. vo_ID y = v \<and> vo_State y \<noteq> ''DELETED'') (\<lambda>y. y\<lparr>vo_Integrity := integrity, vo_State := state\<rparr>) vs)))))"

definition TransitionVolume :: "string \<Rightarrow> string \<Rightarrow> string \<Rightarrow> Volume list \<Rightarrow> (volume_err + unit) \<times> Volume list" where
  "TransitionVolume v from_state to_state vs =
     (if to_state = ''DELETED'' then (Inr (), snd (update_volumes (\<lambda>x. vo_ID x = v \<and> vo_State x \<noteq> ''DELETED'') (\<lambda>x. x\<lparr>vo_State := ''DELETED''\<rparr>) vs))
      else
        (let (n, vs1) = update_volumes (\<lambda>x. vo_ID x = v \<and> (from_state = '''' \<or> vo_State x = from_state) \<and> vo_State x \<noteq> ''DELETED'')
               (\<lambda>x. x\<lparr>vo_State := to_state\<rparr>) vs in
         (if n = 0 then Inl ErrVolumeStateConflict else Inr (), vs1)))"

definition MarkVolumeReady :: "string \<Rightarrow> Volume list \<Rightarrow> (volume_err + unit) \<times> Volume list" where
  "MarkVolumeReady v vs =
     (let (n, vs1) = update_volumes (\<lambda>x. vo_ID x = v \<and> vo_State x \<in> {''CREATING'', ''UNAVAILABLE''}) (\<lambda>x. x\<lparr>vo_State := ''READY''\<rparr>) vs in
      if 0 < n then (Inr (), vs1)
      else
        (case GetVolume v vs1 of
           Some x \<Rightarrow> (if vo_State x = ''READY'' then Inr () else Inl ErrVolumeStateConflict, vs1)
         | None \<Rightarrow> (Inl ErrVolumeStateConflict, vs1)))"

definition MarkVolumesUnavailable :: "string \<Rightarrow> Volume list \<Rightarrow> nat \<times> Volume list" where
  "MarkVolumesUnavailable node = update_volumes (\<lambda>x. vo_NodeID x = node \<and> vo_State x \<in> {''CREATING'', ''READY''}) (\<lambda>x. x\<lparr>vo_State := ''UNAVAILABLE''\<rparr>)"

definition MarkVolumesAvailable :: "string \<Rightarrow> Volume list \<Rightarrow> nat \<times> Volume list" where
  "MarkVolumesAvailable node = update_volumes (\<lambda>x. vo_NodeID x = node \<and> vo_State x = ''UNAVAILABLE'') (\<lambda>x. x\<lparr>vo_State := ''READY''\<rparr>)"

definition FailDatasetImport :: "string \<Rightarrow> Volume list \<Rightarrow> (volume_err + unit) \<times> Volume list" where
  "FailDatasetImport v vs =
     (let (n, vs1) = update_volumes (\<lambda>x. vo_ID x = v \<and> vo_Mode x = ''DATASET_RO'' \<and> vo_State x = ''CREATING'') (\<lambda>x. x\<lparr>vo_ImportStatus := ''failed''\<rparr>) vs in
      (if n \<noteq> 1 then Inl ErrVolumeStateConflict else Inr (), vs1))"

definition SealDataset :: "string \<Rightarrow> string \<Rightarrow> int \<Rightarrow> Volume list \<Rightarrow> (volume_err + unit) \<times> Volume list" where
  "SealDataset v digest bytes vs =
     (let (n, vs1) = update_volumes (\<lambda>x. vo_ID x = v \<and> vo_Mode x = ''DATASET_RO'' \<and> vo_State x = ''CREATING'' \<and> vo_ContentDigest x = digest)
        (\<lambda>x. x\<lparr>vo_State := ''READY'', vo_ImportStatus := ''sealed'', vo_SizeBytes := bytes\<rparr>) vs in
      if n = 1 then (Inr (), vs1)
      else
        (case GetVolume v vs1 of
           Some x \<Rightarrow>
             (if vo_Mode x = ''DATASET_RO'' \<and> vo_State x = ''READY'' \<and> vo_ImportStatus x = ''sealed'' \<and> vo_ContentDigest x = digest \<and> vo_SizeBytes x = bytes
              then Inr () else Inl ErrDatasetDigest, vs1)
         | None \<Rightarrow> (Inl ErrDatasetDigest, vs1)))"

section \<open>Quotas and operations\<close>

definition mib :: "int \<Rightarrow> int" where
  "mib bytes = (bytes + 1048575) div 1048576"

definition live_attachment :: "VolumeAttachment \<Rightarrow> bool" where
  "live_attachment a \<longleftrightarrow> va_Status a \<noteq> ''DETACHED''"

definition volume_usage :: "string \<Rightarrow> 'a vdb_scheme \<Rightarrow> int" where
  "volume_usage project db =
     sum_list (map (\<lambda>x. mib (vo_SizeBytes x)) (filter (\<lambda>x. vo_ProjectID x = project \<and> vo_State x \<noteq> ''DELETED'') (vd_volumes db))) +
     sum_list (map (\<lambda>a. mib (va_OverlaySizeBytes a))
       (filter (\<lambda>a. live_attachment a \<and> list_ex (\<lambda>x. vo_ID x = va_VolumeID a \<and> vo_ProjectID x = project) (vd_volumes db)) (vd_attachments db)))"

text \<open>\<open>quota\<close> is the disk quota of the project, \<open>machine_mib\<close> what its machines use.\<close>

definition reserveVolumeQuota :: "int option \<Rightarrow> int \<Rightarrow> string \<Rightarrow> int \<Rightarrow> 'a vdb_scheme \<Rightarrow> volume_err option" where
  "reserveVolumeQuota quota machine_mib project extra db =
     (case quota of
        None \<Rightarrow> Some VolDBFailed
      | Some q \<Rightarrow> if 0 < q \<and> q < machine_mib + volume_usage project db + mib extra then Some ErrVolumeQuota else None)"

definition insertVolumeOperation :: "int \<Rightarrow> EnqueueOperationParams \<Rightarrow> operations \<Rightarrow> volume_err + Operation \<times> operations" where
  "insertVolumeOperation now p ops =
     (case selectOperationByKey (eq_ProjectID p) (eq_OperationID p) ops of
        Some r \<Rightarrow> if jsonEqual (op_Request r) (eq_Request p) then Inr (r, ops) else Inl VolRequestConflict
      | None \<Rightarrow>
          if eq_Request p = None \<or> eq_OperationID p \<in> op_ID ` set ops then Inl VolDBFailed
          else Inr (new_operation now p, ops @ [new_operation now p]))"

definition enqueue_with :: "int \<Rightarrow> EnqueueOperationParams \<Rightarrow> (voldb \<Rightarrow> voldb) \<Rightarrow> voldb \<Rightarrow> (volume_err + Operation) \<times> voldb" where
  "enqueue_with now p change db =
     (case insertVolumeOperation now p (vd_ops db) of Inl e \<Rightarrow> (Inl e, db) | Inr (r, ops) \<Rightarrow> (Inr r, change (db\<lparr>vd_ops := ops\<rparr>)))"

definition local_rw_command :: "Volume \<Rightarrow> EnqueueOperationParams \<Rightarrow> bool" where
  "local_rw_command v p \<longleftrightarrow> vo_ID v \<noteq> '''' \<and> vo_ProjectID v \<noteq> '''' \<and> vo_NodeID v \<noteq> '''' \<and> 0 < vo_SizeBytes v \<and> eq_OperationID p \<noteq> '''' \<and>
     eq_ProjectID p = vo_ProjectID v \<and> eq_Kind p = ''volume_create'' \<and> eq_DispatchNodeID p = vo_NodeID v"

definition dataset_command :: "Volume \<Rightarrow> EnqueueOperationParams \<Rightarrow> bool" where
  "dataset_command v p \<longleftrightarrow> vo_ID v \<noteq> '''' \<and> vo_ProjectID v \<noteq> '''' \<and> vo_NodeID v \<noteq> '''' \<and> 0 < vo_SizeBytes v \<and> vo_ContentDigest v \<noteq> '''' \<and>
     eq_Kind p = ''dataset_import'' \<and> eq_ProjectID p = vo_ProjectID v \<and> eq_DispatchNodeID p = vo_NodeID v"

text \<open>Both creations reserve the quota, insert the row and enqueue the operation.\<close>

definition create_and_enqueue :: "int option \<Rightarrow> int \<Rightarrow> int \<Rightarrow> Volume \<Rightarrow> EnqueueOperationParams \<Rightarrow> voldb \<Rightarrow> (volume_err + Operation) \<times> voldb" where
  "create_and_enqueue quota machine_mib now row p db =
     (case reserveVolumeQuota quota machine_mib (vo_ProjectID row) (vo_SizeBytes row) db of
        Some e \<Rightarrow> (Inl e, db)
      | None \<Rightarrow>
          (case insert_volume row (vd_volumes db) of
             Inl e \<Rightarrow> (Inl e, db)
           | Inr vs \<Rightarrow> enqueue_with now p (\<lambda>d. d\<lparr>vd_volumes := vs\<rparr>) db))"

definition CreateLocalRWVolumeAndEnqueue :: "tx_end \<Rightarrow> int option \<Rightarrow> int \<Rightarrow> int \<Rightarrow> Volume \<Rightarrow> EnqueueOperationParams \<Rightarrow> voldb \<Rightarrow> (volume_err + Operation) \<times> voldb" where
  "CreateLocalRWVolumeAndEnqueue tx quota machine_mib now v p db =
     (if \<not> local_rw_command v p then (Inl InvalidCommand, db)
      else inTx VolDBFailed tx (create_and_enqueue quota machine_mib now
        (v\<lparr>vo_Mode := ''LOCAL_RW'', vo_State := ''CREATING'', vo_ContentDigest := '''', vo_ImportStatus := '''', vo_Integrity := ''UNKNOWN'', vo_CreatedAt := now\<rparr>) p) db)"

definition CreateDatasetAndEnqueue :: "tx_end \<Rightarrow> int option \<Rightarrow> int \<Rightarrow> int \<Rightarrow> Volume \<Rightarrow> EnqueueOperationParams \<Rightarrow> voldb \<Rightarrow> (volume_err + Operation) \<times> voldb" where
  "CreateDatasetAndEnqueue tx quota machine_mib now v p db =
     (if \<not> dataset_command v p then (Inl InvalidCommand, db)
      else inTx VolDBFailed tx (create_and_enqueue quota machine_mib now
        (v\<lparr>vo_Mode := ''DATASET_RO'', vo_State := ''CREATING'', vo_ImportStatus := ''importing'', vo_Integrity := ''UNKNOWN'', vo_CreatedAt := now\<rparr>) p) db)"

section \<open>Deleting\<close>

definition delete_key :: "string \<Rightarrow> nat \<Rightarrow> string" where
  "delete_key base attempt = (if attempt > 1 then base @ ''-r'' @ fmt_int (int attempt) else base)"

datatype key_choice = FreshKey string | Replayed Operation | KeyConflict | NoKey

text \<open>
  The attempts from \<open>attempt\<close> on: the operation of an open attempt is returned, a settled one gives way to the next key.
  The fuel is the number of keys tried; one more than the rows of the table is enough.
\<close>

primrec choose_delete_key :: "nat \<Rightarrow> nat \<Rightarrow> EnqueueOperationParams \<Rightarrow> operations \<Rightarrow> key_choice" where
  "choose_delete_key 0 attempt p ops = NoKey"
| "choose_delete_key (Suc n) attempt p ops =
     (let key = delete_key (eq_OperationID p) attempt in
      case selectOperationByKey (eq_ProjectID p) key ops of
        None \<Rightarrow> FreshKey key
      | Some r \<Rightarrow>
          if op_Kind r \<noteq> ''volume_delete'' then KeyConflict
          else if open_status (op_Status r) then (if jsonEqual (op_Request r) (eq_Request p) then Replayed r else KeyConflict)
          else choose_delete_key n (attempt + 1) p ops)"

definition begin_delete :: "int \<Rightarrow> string \<Rightarrow> EnqueueOperationParams \<Rightarrow> voldb \<Rightarrow> (volume_err + Operation) \<times> voldb" where
  "begin_delete now v p db =
     (case GetVolume v (vd_volumes db) of
        None \<Rightarrow> (Inl NoSuchVolume, db)
      | Some x \<Rightarrow>
          if eq_Kind p \<noteq> ''volume_delete'' \<or> eq_ProjectID p \<noteq> vo_ProjectID x \<or> eq_DispatchNodeID p \<noteq> vo_NodeID x then (Inl ErrVolumeStateConflict, db)
          else if vo_State x = ''DELETED'' then (Inl ErrVolumeStateConflict, db)
          else
            (case choose_delete_key (length (vd_ops db) + 1) 1 p (vd_ops db) of
               NoKey \<Rightarrow> (Inl VolDBFailed, db)
             | KeyConflict \<Rightarrow> (Inl VolRequestConflict, db)
             | Replayed r \<Rightarrow> (Inr r, db)
             | FreshKey key \<Rightarrow>
                 if vo_State x \<notin> {''READY'', ''UNAVAILABLE'', ''CREATING'', ''DELETING''} then (Inl ErrVolumeStateConflict, db)
                 else if list_ex (\<lambda>a. va_VolumeID a = v \<and> live_attachment a) (vd_attachments db) then (Inl ErrVolumeStateConflict, db)
                 else enqueue_with now (p\<lparr>eq_OperationID := key\<rparr>) (\<lambda>d. d\<lparr>vd_volumes := map (\<lambda>y. if vo_ID y = v then y\<lparr>vo_State := ''DELETING''\<rparr> else y) (vd_volumes d)\<rparr>) db))"

definition BeginVolumeDeleteAndEnqueue :: "tx_end \<Rightarrow> int \<Rightarrow> string \<Rightarrow> EnqueueOperationParams \<Rightarrow> voldb \<Rightarrow> (volume_err + Operation) \<times> voldb" where
  "BeginVolumeDeleteAndEnqueue tx now v p = inTx VolDBFailed tx (begin_delete now v p)"

section \<open>Attaching\<close>

definition same_attachment :: "string \<Rightarrow> string \<Rightarrow> string \<Rightarrow> VolumeAttachment \<Rightarrow> bool" where
  "same_attachment v mid e a \<longleftrightarrow> va_VolumeID a = v \<and> va_MachineID a = mid \<and> va_ExecutionID a = e"

text \<open>The primary key, the index on the single writer and the check of the overlay.\<close>

definition insert_attachment :: "VolumeAttachment \<Rightarrow> VolumeAttachment list \<Rightarrow> volume_err + VolumeAttachment list" where
  "insert_attachment a as =
     (if list_ex (same_attachment (va_VolumeID a) (va_MachineID a) (va_ExecutionID a)) as then Inl VolDBFailed
      else if \<not> va_Readonly a \<and> live_attachment a \<and> list_ex (\<lambda>x. va_VolumeID x = va_VolumeID a \<and> live_attachment x \<and> \<not> va_Readonly x) as then Inl VolDBFailed
      else if va_OverlaySizeBytes a < 0 \<or> (va_OverlaySizeBytes a \<noteq> 0 \<and> \<not> va_Readonly a) then Inl VolDBFailed
      else Inr (as @ [a]))"

text \<open>The machine runs the execution on the node of the volume.\<close>

definition local_to :: "Volume \<Rightarrow> VolumeAttachment \<Rightarrow> EnqueueOperationParams \<Rightarrow> machines \<Rightarrow> volume_err option" where
  "local_to x a p ms =
     (case GetMachine (va_MachineID a) ms of
        None \<Rightarrow> Some VolDBFailed
      | Some m \<Rightarrow>
          if m_NodeID m \<noteq> vo_NodeID x \<or> m_CurrentExecutionID m \<noteq> va_ExecutionID a \<or> m_Generation m \<noteq> eq_Generation p then Some ErrVolumeLocality else None)"

definition attach_and_enqueue :: "int \<Rightarrow> VolumeAttachment \<Rightarrow> EnqueueOperationParams \<Rightarrow> voldb \<Rightarrow> (volume_err + Operation) \<times> voldb" where
  "attach_and_enqueue now a p db =
     (case insert_attachment a (vd_attachments db) of Inl e \<Rightarrow> (Inl e, db) | Inr as \<Rightarrow> enqueue_with now p (\<lambda>d. d\<lparr>vd_attachments := as\<rparr>) db)"

definition claim_local_rw :: "int \<Rightarrow> VolumeAttachment \<Rightarrow> EnqueueOperationParams \<Rightarrow> voldb \<Rightarrow> (volume_err + Operation) \<times> voldb" where
  "claim_local_rw now a p db =
     (case GetVolume (va_VolumeID a) (vd_volumes db) of
        None \<Rightarrow> (Inl NoSuchVolume, db)
      | Some x \<Rightarrow>
          if vo_Mode x \<noteq> ''LOCAL_RW'' \<or> vo_State x \<noteq> ''READY'' then (Inl ErrVolumeStateConflict, db)
          else if eq_ProjectID p \<noteq> vo_ProjectID x \<or> eq_Kind p \<noteq> ''volume_attach'' \<or> eq_MachineID p \<noteq> va_MachineID a \<or>
                  eq_ExecutionID p \<noteq> va_ExecutionID a \<or> eq_DispatchNodeID p \<noteq> vo_NodeID x then (Inl ErrVolumeLocality, db)
          else
            (case local_to x a p (vd_machines db) of
               Some e \<Rightarrow> (Inl e, db)
             | None \<Rightarrow>
                 if list_ex (\<lambda>y. va_VolumeID y = va_VolumeID a \<and> live_attachment y) (vd_attachments db) then (Inl ErrVolumeSingleWriter, db)
                 else attach_and_enqueue now (a\<lparr>va_Readonly := False, va_OverlaySizeBytes := 0, va_Status := ''PENDING''\<rparr>) p db))"

definition ClaimLocalRWAttachmentAndEnqueue :: "tx_end \<Rightarrow> int \<Rightarrow> VolumeAttachment \<Rightarrow> EnqueueOperationParams \<Rightarrow> voldb \<Rightarrow> (volume_err + Operation) \<times> voldb" where
  "ClaimLocalRWAttachmentAndEnqueue tx now a p = inTx VolDBFailed tx (claim_local_rw now a p)"

definition claim_dataset :: "int option \<Rightarrow> int \<Rightarrow> int \<Rightarrow> VolumeAttachment \<Rightarrow> EnqueueOperationParams \<Rightarrow> voldb \<Rightarrow> (volume_err + Operation) \<times> voldb" where
  "claim_dataset quota machine_mib now a p db =
     (case GetVolume (va_VolumeID a) (vd_volumes db) of
        None \<Rightarrow> (Inl NoSuchVolume, db)
      | Some x \<Rightarrow>
          if vo_Mode x \<noteq> ''DATASET_RO'' \<or> vo_State x \<noteq> ''READY'' \<or> \<not> va_Readonly a \<or> va_OverlaySizeBytes a < 0 \<or>
             eq_ProjectID p \<noteq> vo_ProjectID x \<or> eq_DispatchNodeID p \<noteq> vo_NodeID x then (Inl ErrVolumeStateConflict, db)
          else
            (case if 0 < va_OverlaySizeBytes a then reserveVolumeQuota quota machine_mib (vo_ProjectID x) (va_OverlaySizeBytes a) db else None of
               Some e \<Rightarrow> (Inl e, db)
             | None \<Rightarrow>
                 (case local_to x a p (vd_machines db) of
                    Some e \<Rightarrow> (Inl e, db)
                  | None \<Rightarrow> attach_and_enqueue now (a\<lparr>va_Readonly := True, va_Status := ''PENDING''\<rparr>) p db)))"

definition ClaimDatasetAttachmentAndEnqueue :: "tx_end \<Rightarrow> int option \<Rightarrow> int \<Rightarrow> int \<Rightarrow> VolumeAttachment \<Rightarrow> EnqueueOperationParams \<Rightarrow> voldb \<Rightarrow> (volume_err + Operation) \<times> voldb" where
  "ClaimDatasetAttachmentAndEnqueue tx quota machine_mib now a p = inTx VolDBFailed tx (claim_dataset quota machine_mib now a p)"

definition update_attachments :: "(VolumeAttachment \<Rightarrow> bool) \<Rightarrow> (VolumeAttachment \<Rightarrow> VolumeAttachment) \<Rightarrow> VolumeAttachment list \<Rightarrow> nat \<times> VolumeAttachment list" where
  "update_attachments P f as = (length (filter P as), map (\<lambda>a. if P a then f a else a) as)"

definition MarkVolumeAttachmentAttached :: "string \<Rightarrow> string \<Rightarrow> string \<Rightarrow> VolumeAttachment list \<Rightarrow> (volume_err + unit) \<times> VolumeAttachment list" where
  "MarkVolumeAttachmentAttached v mid e as =
     (let (n, as1) = update_attachments (\<lambda>a. same_attachment v mid e a \<and> va_Status a \<in> {''PENDING'', ''ATTACHED''}) (\<lambda>a. a\<lparr>va_Status := ''ATTACHED''\<rparr>) as in
      (if n = 0 then Inl ErrVolumeStateConflict else Inr (), as1))"

definition begin_detach :: "int \<Rightarrow> string \<Rightarrow> string \<Rightarrow> string \<Rightarrow> EnqueueOperationParams \<Rightarrow> voldb \<Rightarrow> (volume_err + Operation) \<times> voldb" where
  "begin_detach now v mid e p db =
     (let (n, as1) = update_attachments (\<lambda>a. same_attachment v mid e a \<and> va_Status a = ''ATTACHED'') (\<lambda>a. a\<lparr>va_Status := ''DETACHING''\<rparr>) (vd_attachments db) in
      if n \<noteq> 1 then (Inl ErrVolumeStateConflict, db) else enqueue_with now p (\<lambda>d. d\<lparr>vd_attachments := as1\<rparr>) db)"

definition BeginDetachVolumeAndEnqueue :: "tx_end \<Rightarrow> int \<Rightarrow> string \<Rightarrow> string \<Rightarrow> string \<Rightarrow> EnqueueOperationParams \<Rightarrow> voldb \<Rightarrow> (volume_err + Operation) \<times> voldb" where
  "BeginDetachVolumeAndEnqueue tx now v mid e p = inTx VolDBFailed tx (begin_detach now v mid e p)"

definition CompleteVolumeDetach :: "string \<Rightarrow> string \<Rightarrow> string \<Rightarrow> VolumeAttachment list \<Rightarrow> (volume_err + unit) \<times> VolumeAttachment list" where
  "CompleteVolumeDetach v mid e as =
     (let (n, as1) = update_attachments (\<lambda>a. same_attachment v mid e a \<and> va_Status a = ''DETACHING'') (\<lambda>a. a\<lparr>va_Status := ''DETACHED''\<rparr>) as in
      (if n = 0 then Inl ErrVolumeStateConflict else Inr (), as1))"

definition ReleaseTerminalExecutionAttachments :: "string \<Rightarrow> string \<Rightarrow> VolumeAttachment list \<Rightarrow> nat \<times> VolumeAttachment list" where
  "ReleaseTerminalExecutionAttachments mid e =
     update_attachments (\<lambda>a. va_MachineID a = mid \<and> va_ExecutionID a = e \<and> live_attachment a) (\<lambda>a. a\<lparr>va_Status := ''DETACHED''\<rparr>)"

definition DetachVolumeAttachment :: "string \<Rightarrow> string \<Rightarrow> string \<Rightarrow> VolumeAttachment list \<Rightarrow> VolumeAttachment list" where
  "DetachVolumeAttachment v mid e as = snd (update_attachments (same_attachment v mid e) (\<lambda>a. a\<lparr>va_Status := ''DETACHED''\<rparr>) as)"

definition UpsertVolumeAttachment :: "VolumeAttachment \<Rightarrow> VolumeAttachment list \<Rightarrow> (volume_err + unit) \<times> VolumeAttachment list" where
  "UpsertVolumeAttachment a as =
     (let same = same_attachment (va_VolumeID a) (va_MachineID a) (va_ExecutionID a); others = filter (\<lambda>x. \<not> same x) as in
      if \<not> va_Readonly a \<and> live_attachment a \<and> list_ex (\<lambda>x. va_VolumeID x = va_VolumeID a \<and> live_attachment x \<and> \<not> va_Readonly x) others then (Inl VolDBFailed, as)
      else if va_OverlaySizeBytes a < 0 \<or> (va_OverlaySizeBytes a \<noteq> 0 \<and> \<not> va_Readonly a) then (Inl VolDBFailed, as)
      else (Inr (), if list_ex same as then map (\<lambda>x. if same x then a else x) as else as @ [a]))"

section \<open>Queries on attachments\<close>

definition ActiveAttachments :: "string \<Rightarrow> VolumeAttachment list \<Rightarrow> VolumeAttachment list" where
  "ActiveAttachments v as = filter (\<lambda>a. va_VolumeID a = v \<and> live_attachment a) as"

definition WritableActiveAttachments :: "string \<Rightarrow> string \<Rightarrow> VolumeAttachment list \<Rightarrow> VolumeAttachment list" where
  "WritableActiveAttachments mid e as =
     filter (\<lambda>a. va_MachineID a = mid \<and> va_ExecutionID a = e \<and> live_attachment a \<and> (\<not> va_Readonly a \<or> 0 < va_OverlaySizeBytes a)) as"

definition local_rw_nodes :: "string \<Rightarrow> 'a vdb_scheme \<Rightarrow> string list" where
  "local_rw_nodes mid db =
     List.map_filter (\<lambda>a. if va_MachineID a = mid \<and> live_attachment a
       then map_option vo_NodeID (List.find (\<lambda>x. vo_ID x = va_VolumeID a \<and> vo_Mode x = ''LOCAL_RW'' \<and> vo_State x \<noteq> ''DELETED'') (vd_volumes db)) else None) (vd_attachments db)"

definition MachineHasLocalRWAttachment :: "string \<Rightarrow> 'a vdb_scheme \<Rightarrow> bool" where
  "MachineHasLocalRWAttachment mid db \<longleftrightarrow> local_rw_nodes mid db \<noteq> []"

text \<open>The nodes in the order of the result; a second one that differs is a conflict.\<close>

fun same_node :: "string \<Rightarrow> string list \<Rightarrow> volume_err + string" where
  "same_node node [] = Inr node"
| "same_node node (n # ns) = (if node \<noteq> '''' \<and> node \<noteq> n then Inl ErrVolumeLocality else same_node n ns)"

definition MachineLocalRWNode :: "string \<Rightarrow> 'a vdb_scheme \<Rightarrow> volume_err + string" where
  "MachineLocalRWNode mid db = same_node '''' (remdups (local_rw_nodes mid db))"

section \<open>Inventories of the nodes\<close>

record InventoryObservation =
  io_NodeID :: string
  io_ResourceType :: string
  io_Epoch :: string
  io_Generation :: u64
  io_AgentObservedAt :: int
  io_ItemCount :: int

type_synonym observations = "InventoryObservation list"

definition io_gen :: "InventoryObservation \<Rightarrow> int" where
  "io_gen o1 = sint (io_Generation o1)"

definition minute_ns :: int where "minute_ns = 60 * second_ns"

text \<open>The zero time lies outside the window of the second check.\<close>

definition validInventoryObservation :: "int \<Rightarrow> InventoryObservation \<Rightarrow> bool" where
  "validInventoryObservation clock o1 \<longleftrightarrow> io_NodeID o1 \<noteq> '''' \<and> io_ResourceType o1 \<in> {''snapshot'', ''volume''} \<and> io_Epoch o1 \<noteq> '''' \<and> io_Generation o1 \<noteq> 0 \<and>
     0 \<le> io_ItemCount o1 \<and> io_AgentObservedAt o1 \<le> clock + 5 * minute_ns \<and> clock - 24 * 60 * minute_ns \<le> io_AgentObservedAt o1"

definition same_source :: "InventoryObservation \<Rightarrow> InventoryObservation \<Rightarrow> bool" where
  "same_source o1 x \<longleftrightarrow> io_NodeID x = io_NodeID o1 \<and> io_ResourceType x = io_ResourceType o1"

text \<open>
  The rows are in the order of their identifiers. Within an epoch the generation grows, and an epoch that was left is not
  entered again.
\<close>

definition acceptInventoryObservationTx :: "int \<Rightarrow> InventoryObservation \<Rightarrow> observations \<Rightarrow> observations option" where
  "acceptInventoryObservationTx clock o1 obs =
     (if \<not> validInventoryObservation clock o1 then None
      else
        (case List.rev (filter (same_source o1) obs) of
           [] \<Rightarrow> Some (obs @ [o1])
         | latest # _ \<Rightarrow>
             if io_Epoch latest = io_Epoch o1 \<and> io_gen o1 \<le> io_gen latest then None
             else if io_Epoch latest \<noteq> io_Epoch o1 \<and> list_ex (\<lambda>x. same_source o1 x \<and> io_Epoch x = io_Epoch o1) obs then None
             else Some (obs @ [o1])))"

definition AcceptInventoryObservation :: "int \<Rightarrow> InventoryObservation \<Rightarrow> observations \<Rightarrow> bool \<times> observations" where
  "AcceptInventoryObservation clock o1 obs = (case acceptInventoryObservationTx clock o1 obs of None \<Rightarrow> (False, obs) | Some obs1 \<Rightarrow> (True, obs1))"

record VolumeInventoryItem =
  ii_SizeBytes :: int
  ii_Mode :: string
  ii_ContentDigest :: string
  ii_Sealed :: bool
  ii_MetadataHealth :: string

text \<open>What the report of a volume, or its absence, says about the volume.\<close>

definition item_integrity :: "Volume \<Rightarrow> VolumeInventoryItem option \<Rightarrow> string" where
  "item_integrity x item =
     (case item of
        None \<Rightarrow> ''MISSING''
      | Some i \<Rightarrow>
          if ii_SizeBytes i \<le> 0 \<or> ii_Mode i = '''' \<or> ii_MetadataHealth i = '''' \<or> (vo_Mode x = ''DATASET_RO'' \<and> ii_ContentDigest i = '''') then ''UNKNOWN''
          else if ii_SizeBytes i = vo_SizeBytes x \<and> ii_Mode i = vo_Mode x \<and> ii_MetadataHealth i = ''HEALTHY'' \<and> ii_ContentDigest i = vo_ContentDigest x \<and>
                  ii_Sealed i = (vo_Mode x = ''DATASET_RO'') then ''METADATA_VERIFIED''
          else ''CORRUPT'')"

text \<open>A corrupt volume stays corrupt until its content was checked.\<close>

definition observed_integrity :: "Volume \<Rightarrow> VolumeInventoryItem option \<Rightarrow> string" where
  "observed_integrity x item =
     (let integrity = item_integrity x item in
      if vo_Integrity x = ''CORRUPT'' \<and> (integrity = ''METADATA_VERIFIED'' \<or> integrity = ''UNKNOWN'') then ''CORRUPT'' else integrity)"

definition observe_volume :: "string \<Rightarrow> (string, VolumeInventoryItem) gomap \<Rightarrow> Volume \<Rightarrow> Volume" where
  "observe_volume node items x =
     (if vo_NodeID x = node \<and> vo_State x \<in> {''READY'', ''UNAVAILABLE''}
      then (let integrity = observed_integrity x (mget items (vo_ID x)) in x\<lparr>vo_Integrity := integrity, vo_State := availability integrity (vo_State x)\<rparr>)
      else x)"

text \<open>Whether the report was accepted, the volumes that changed with the old and the new integrity, and the tables.\<close>

definition ApplyVolumeInventoryObservation :: "tx_end \<Rightarrow> int \<Rightarrow> InventoryObservation \<Rightarrow> (string, VolumeInventoryItem) gomap \<Rightarrow> observations \<times> Volume list \<Rightarrow>
    (bool \<times> (string \<times> string \<times> string) list) \<times> observations \<times> Volume list" where
  "ApplyVolumeInventoryObservation tx clock o1 items t =
     (if io_ResourceType o1 \<noteq> ''volume'' \<or> io_ItemCount o1 \<noteq> int (length items) then ((False, []), t)
      else
        (case acceptInventoryObservationTx clock o1 (fst t) of
           None \<Rightarrow> ((False, []), t)
         | Some obs \<Rightarrow>
             (let vs = map (observe_volume (io_NodeID o1) items) (snd t);
                  changed = filter (\<lambda>(x, y). x \<noteq> y) (zip (snd t) vs);
                  res = map (\<lambda>(x, y). (vo_ID x, vo_Integrity x, vo_Integrity y)) changed in
              case tx of TxCommit \<Rightarrow> ((True, res), obs, vs) | TxFail \<Rightarrow> ((False, res), t) | TxAnswerLost \<Rightarrow> ((False, res), obs, vs))))"

section \<open>Keys of repeated deletions\<close>

lemma delete_key_inj: "\<lbrakk>delete_key base i = delete_key base j; 1 \<le> i; 1 \<le> j\<rbrakk> \<Longrightarrow> i = j"
  by (auto simp: delete_key_def split: if_splits)

text \<open>The loop over the attempts ends: every key that is taken is the key of a row of its own.\<close>

lemma choose_delete_key_taken:
  "\<lbrakk>choose_delete_key n k p ops = NoKey; i < n\<rbrakk> \<Longrightarrow> delete_key (eq_OperationID p) (k + i) \<in> op_ID ` set ops"
proof (induction n arbitrary: k i)
  case (Suc n)
  obtain r where r: "selectOperationByKey (eq_ProjectID p) (delete_key (eq_OperationID p) k) ops = Some r" and rest: "choose_delete_key n (k + 1) p ops = NoKey"
    using Suc.prems(1) by (auto simp: Let_def split: option.splits if_splits)
  have "delete_key (eq_OperationID p) k \<in> op_ID ` set ops"
    using r find_SomeD[of "has_key (eq_ProjectID p) (delete_key (eq_OperationID p) k)" ops r] by (auto simp: selectOperationByKey_def has_key_def intro: rev_image_eqI)
  then show ?case using Suc.IH[OF rest, of "i - 1"] Suc.prems(2) by (cases i) auto
qed simp

lemma choose_delete_key_ends: "choose_delete_key (length ops + 1) 1 p ops \<noteq> NoKey"
proof
  assume none: "choose_delete_key (length ops + 1) 1 p ops = NoKey"
  let ?keys = "(\<lambda>i. delete_key (eq_OperationID p) (1 + i)) ` {..<length ops + 1}"
  have "inj_on (\<lambda>i. delete_key (eq_OperationID p) (1 + i)) {..<length ops + 1}" by (rule inj_onI) (auto dest: delete_key_inj)
  then have "card ?keys = length ops + 1" by (simp add: card_image)
  moreover have "?keys \<subseteq> op_ID ` set ops" using choose_delete_key_taken[OF none] by auto
  then have "card ?keys \<le> card (op_ID ` set ops)" by (intro card_mono) simp
  moreover have "card (op_ID ` set ops) \<le> length ops" using card_image_le[of "set ops" op_ID] card_length[of ops] by simp
  ultimately show False by simp
qed

section \<open>Histories of the volumes\<close>

datatype vol_op =
    CreateRW tx_end "int option" int Volume EnqueueOperationParams
  | CreateDataset tx_end "int option" int Volume EnqueueOperationParams
  | AttachRW tx_end VolumeAttachment EnqueueOperationParams
  | AttachDataset tx_end "int option" int VolumeAttachment EnqueueOperationParams
  | Attached string string string
  | BeginDetach tx_end string string string EnqueueOperationParams
  | CompleteDetach string string string
  | ReleaseExecution string string
  | DeleteVolume tx_end string EnqueueOperationParams
  | Transition string string string
  | VolumeReady string
  | NodeLost string
  | NodeBack string
  | Seal string string int
  | FailImport string
  | Inventory string "(string, VolumeInventoryItem) gomap"

definition vol_run :: "int \<Rightarrow> vol_op \<Rightarrow> voldb \<Rightarrow> voldb" where
  "vol_run now x db =
     (case x of
        CreateRW tx q u v p \<Rightarrow> snd (CreateLocalRWVolumeAndEnqueue tx q u now v p db)
      | CreateDataset tx q u v p \<Rightarrow> snd (CreateDatasetAndEnqueue tx q u now v p db)
      | AttachRW tx a p \<Rightarrow> snd (ClaimLocalRWAttachmentAndEnqueue tx now a p db)
      | AttachDataset tx q u a p \<Rightarrow> snd (ClaimDatasetAttachmentAndEnqueue tx q u now a p db)
      | Attached v mid e \<Rightarrow> db\<lparr>vd_attachments := snd (MarkVolumeAttachmentAttached v mid e (vd_attachments db))\<rparr>
      | BeginDetach tx v mid e p \<Rightarrow> snd (BeginDetachVolumeAndEnqueue tx now v mid e p db)
      | CompleteDetach v mid e \<Rightarrow> db\<lparr>vd_attachments := snd (CompleteVolumeDetach v mid e (vd_attachments db))\<rparr>
      | ReleaseExecution mid e \<Rightarrow> db\<lparr>vd_attachments := snd (ReleaseTerminalExecutionAttachments mid e (vd_attachments db))\<rparr>
      | DeleteVolume tx v p \<Rightarrow> snd (BeginVolumeDeleteAndEnqueue tx now v p db)
      | Transition v s t \<Rightarrow> db\<lparr>vd_volumes := snd (TransitionVolume v s t (vd_volumes db))\<rparr>
      | VolumeReady v \<Rightarrow> db\<lparr>vd_volumes := snd (MarkVolumeReady v (vd_volumes db))\<rparr>
      | NodeLost n \<Rightarrow> db\<lparr>vd_volumes := snd (MarkVolumesUnavailable n (vd_volumes db))\<rparr>
      | NodeBack n \<Rightarrow> db\<lparr>vd_volumes := snd (MarkVolumesAvailable n (vd_volumes db))\<rparr>
      | Seal v d b \<Rightarrow> db\<lparr>vd_volumes := snd (SealDataset v d b (vd_volumes db))\<rparr>
      | FailImport v \<Rightarrow> db\<lparr>vd_volumes := snd (FailDatasetImport v (vd_volumes db))\<rparr>
      | Inventory n items \<Rightarrow> db\<lparr>vd_volumes := map (observe_volume n items) (vd_volumes db)\<rparr>)"

fun vol_runs :: "(int \<times> vol_op) list \<Rightarrow> voldb \<Rightarrow> voldb" where
  "vol_runs [] db = db"
| "vol_runs ((now, x) # xs) db = vol_runs xs (vol_run now x db)"

text \<open>A claim on a volume that admits one writer.\<close>

definition writer :: "string \<Rightarrow> string \<Rightarrow> string \<Rightarrow> VolumeAttachment \<Rightarrow> bool" where
  "writer v mid e a \<longleftrightarrow> same_attachment v mid e a \<and> live_attachment a \<and> \<not> va_Readonly a"

definition claim_held :: "string \<Rightarrow> string \<Rightarrow> string \<Rightarrow> VolumeAttachment list \<Rightarrow> bool" where
  "claim_held v mid e as \<longleftrightarrow> (\<exists>a \<in> set as. writer v mid e a)"

lemma enqueue_with_snd: "snd (enqueue_with now p f db) = db \<or> (\<exists>ops. snd (enqueue_with now p f db) = f (db\<lparr>vd_ops := ops\<rparr>))"
  by (auto simp: enqueue_with_def split: sum.splits prod.splits)

named_theorems keeps_writer \<open>the statements that leave a writer's claim in place\<close>

lemma insert_attachment_keeps: "\<lbrakk>insert_attachment b as = Inr as'; claim_held v mid e as\<rbrakk> \<Longrightarrow> claim_held v mid e as'"
  by (auto simp: insert_attachment_def claim_held_def split: if_splits)

lemma update_attachments_keeps:
  "\<lbrakk>claim_held v mid e as; \<And>a. \<lbrakk>P a; writer v mid e a\<rbrakk> \<Longrightarrow> writer v mid e (f a)\<rbrakk> \<Longrightarrow> claim_held v mid e (snd (update_attachments P f as))"
  by (auto simp: update_attachments_def claim_held_def)

lemma enqueue_keeps: "\<lbrakk>claim_held v mid e (vd_attachments db); \<And>d. vd_attachments d = vd_attachments db \<Longrightarrow> claim_held v mid e (vd_attachments (f d))\<rbrakk>
    \<Longrightarrow> claim_held v mid e (vd_attachments (snd (enqueue_with now p f db)))"
  by (auto simp: enqueue_with_def split: sum.splits prod.splits)

lemma inTx_keeps_claim: "\<lbrakk>claim_held v mid e (vd_attachments db); claim_held v mid e (vd_attachments (snd (f db)))\<rbrakk>
    \<Longrightarrow> claim_held v mid e (vd_attachments (snd (inTx VolDBFailed tx f db)))"
  using inTx_snd[of VolDBFailed tx f db] by auto

lemma create_keeps [keeps_writer]: "claim_held v mid e (vd_attachments db) \<Longrightarrow> claim_held v mid e (vd_attachments (snd (create_and_enqueue q u now row p db)))"
  by (auto simp: create_and_enqueue_def split: option.split sum.split intro!: enqueue_keeps)

lemma attach_keeps: "claim_held v mid e (vd_attachments db) \<Longrightarrow> claim_held v mid e (vd_attachments (snd (attach_and_enqueue now b p db)))"
  by (auto simp: attach_and_enqueue_def split: sum.split intro!: enqueue_keeps intro: insert_attachment_keeps)

lemma claim_rw_keeps [keeps_writer]: "claim_held v mid e (vd_attachments db) \<Longrightarrow> claim_held v mid e (vd_attachments (snd (claim_local_rw now b p db)))"
  by (simp add: claim_local_rw_def attach_keeps split: option.split)

lemma claim_dataset_keeps [keeps_writer]: "claim_held v mid e (vd_attachments db) \<Longrightarrow> claim_held v mid e (vd_attachments (snd (claim_dataset q u now b p db)))"
  by (simp add: claim_dataset_def attach_keeps split: option.split)

lemma begin_detach_keeps [keeps_writer]: "claim_held v mid e (vd_attachments db) \<Longrightarrow> claim_held v mid e (vd_attachments (snd (begin_detach now w n x p db)))"
proof -
  assume a: "claim_held v mid e (vd_attachments db)"
  have "claim_held v mid e (snd (update_attachments (\<lambda>a. same_attachment w n x a \<and> va_Status a = ''ATTACHED'') (\<lambda>a. a\<lparr>va_Status := ''DETACHING''\<rparr>) (vd_attachments db)))"
    by (rule update_attachments_keeps[OF a]) (simp add: writer_def same_attachment_def live_attachment_def)
  then show ?thesis using a by (auto simp: begin_detach_def Let_def split: prod.split intro!: enqueue_keeps)
qed

lemma begin_delete_keeps [keeps_writer]: "claim_held v mid e (vd_attachments db) \<Longrightarrow> claim_held v mid e (vd_attachments (snd (begin_delete now w p db)))"
  by (auto simp: begin_delete_def split: option.split key_choice.split intro!: enqueue_keeps)

lemma vol_run_keeps:
  assumes "claim_held v mid e (vd_attachments db)" "x \<noteq> CompleteDetach v mid e" "x \<noteq> ReleaseExecution mid e"
  shows "claim_held v mid e (vd_attachments (vol_run now x db))"
proof (cases x)
  case (Attached w n y)
  have "claim_held v mid e (snd (MarkVolumeAttachmentAttached w n y (vd_attachments db)))"
    unfolding MarkVolumeAttachmentAttached_def Let_def split_beta snd_conv
    by (rule update_attachments_keeps[OF assms(1)]) (simp add: writer_def same_attachment_def live_attachment_def)
  then show ?thesis by (simp add: vol_run_def Attached)
next
  case (CompleteDetach w n y)
  have "claim_held v mid e (snd (CompleteVolumeDetach w n y (vd_attachments db)))"
    unfolding CompleteVolumeDetach_def Let_def split_beta snd_conv
    by (rule update_attachments_keeps[OF assms(1)]) (use assms(2) CompleteDetach in \<open>auto simp: writer_def same_attachment_def\<close>)
  then show ?thesis by (simp add: vol_run_def CompleteDetach)
next
  case (ReleaseExecution n y)
  have "claim_held v mid e (snd (ReleaseTerminalExecutionAttachments n y (vd_attachments db)))"
    unfolding ReleaseTerminalExecutionAttachments_def
    by (rule update_attachments_keeps[OF assms(1)]) (use assms(3) ReleaseExecution in \<open>auto simp: writer_def same_attachment_def\<close>)
  then show ?thesis by (simp add: vol_run_def ReleaseExecution)
qed (use assms(1) in \<open>auto simp: vol_run_def CreateLocalRWVolumeAndEnqueue_def CreateDatasetAndEnqueue_def ClaimLocalRWAttachmentAndEnqueue_def
    ClaimDatasetAttachmentAndEnqueue_def BeginDetachVolumeAndEnqueue_def BeginVolumeDeleteAndEnqueue_def intro!: inTx_keeps_claim keeps_writer\<close>)

lemma vol_runs_keep:
  assumes "claim_held v mid e (vd_attachments db)" "CompleteDetach v mid e \<notin> snd ` set xs" "ReleaseExecution mid e \<notin> snd ` set xs"
  shows "claim_held v mid e (vd_attachments (vol_runs xs db))"
  using assms
proof (induction xs arbitrary: db)
  case (Cons y xs)
  obtain now x where y: "y = (now, x)" by (cases y)
  have "claim_held v mid e (vd_attachments (vol_run now x db))" using Cons.prems y by (intro vol_run_keeps) auto
  then show ?case using Cons y by simp
qed simp

lemma claim_refused_while_held:
  assumes "claim_held v mid e (vd_attachments db)" "va_VolumeID b = v"
  shows "fst (claim_local_rw now b p db) \<noteq> Inr r \<and> snd (claim_local_rw now b p db) = db"
proof -
  have "list_ex (\<lambda>y. va_VolumeID y = va_VolumeID b \<and> live_attachment y) (vd_attachments db)"
    using assms by (auto simp: claim_held_def writer_def same_attachment_def list_ex_iff)
  then show ?thesis by (auto simp: claim_local_rw_def split: option.split)
qed

lemma delete_refused_while_held:
  assumes "claim_held v mid e (vd_attachments db)"
  shows "snd (begin_delete now v p db) = db"
proof -
  have "list_ex (\<lambda>a. va_VolumeID a = v \<and> live_attachment a) (vd_attachments db)"
    using assms by (auto simp: claim_held_def writer_def same_attachment_def list_ex_iff)
  then show ?thesis by (auto simp: begin_delete_def split: option.split key_choice.split)
qed

text \<open>
  \<^bold>\<open>Claim C16.\<close> A writable volume has one writer: as long as neither the agent has confirmed the detachment of its execution nor
  the execution was released, whatever else happens to volumes and attachments, the claim stays, no other claim on the
  volume is granted and the volume cannot begin to be deleted.
\<close>

theorem volume_single_writer:
  assumes "a \<in> set (vd_attachments db)" "live_attachment a" "\<not> va_Readonly a"
    and "CompleteDetach (va_VolumeID a) (va_MachineID a) (va_ExecutionID a) \<notin> snd ` set xs"
    and "ReleaseExecution (va_MachineID a) (va_ExecutionID a) \<notin> snd ` set xs"
    and "va_VolumeID b = va_VolumeID a"
  shows "let db' = vol_runs xs db in
    claim_held (va_VolumeID a) (va_MachineID a) (va_ExecutionID a) (vd_attachments db') \<and>
    (\<nexists>r. fst (claim_local_rw now b p db') = Inr r) \<and> snd (claim_local_rw now b p db') = db' \<and>
    snd (begin_delete now (va_VolumeID a) p db') = db'"
proof -
  have "claim_held (va_VolumeID a) (va_MachineID a) (va_ExecutionID a) (vd_attachments db)"
    using assms(1-3) by (auto simp: claim_held_def writer_def same_attachment_def)
  then have "claim_held (va_VolumeID a) (va_MachineID a) (va_ExecutionID a) (vd_attachments (vol_runs xs db))"
    using assms(4,5) by (rule vol_runs_keep)
  then show ?thesis using claim_refused_while_held delete_refused_while_held assms(6) by (simp add: Let_def)
qed

definition volume_example :: voldb where
  "volume_example =
     \<lparr>vd_volumes = [\<lparr>vo_ID = ''v'', vo_ProjectID = ''p'', vo_Name = ''data'', vo_Mode = ''LOCAL_RW'', vo_NodeID = ''n1'', vo_SizeBytes = 1048576, vo_State = ''READY'',
        vo_ContentDigest = '''', vo_ImportStatus = '''', vo_Integrity = ''UNKNOWN'', vo_CreatedAt = 0\<rparr>],
      vd_attachments = [\<lparr>va_VolumeID = ''v'', va_MachineID = ''m1'', va_ExecutionID = ''e1'', va_MountPath = ''/data'', va_Readonly = False, va_OverlaySizeBytes = 0,
        va_Status = ''ATTACHED''\<rparr>], vd_machines = [], vd_ops = []\<rparr>"

definition delete_example :: EnqueueOperationParams where
  "delete_example = \<lparr>eq_OperationID = ''op-d'', eq_ProjectID = ''p'', eq_MachineID = '''', eq_ExecutionID = '''', eq_Generation = 1, eq_Kind = ''volume_delete'',
     eq_Request = Some ''{}'', eq_DispatchNodeID = ''n1'', eq_ResurrectFailed = False\<rparr>"

theorem volume_single_writer_witness:
  "snd (begin_delete 9 ''v'' delete_example (vol_runs [(5, ReleaseExecution ''m1'' ''e0''), (6, DeleteVolume TxCommit ''v'' delete_example)] volume_example)) = volume_example"
proof -
  let ?xs = "[(5 :: int, ReleaseExecution ''m1'' ''e0''), (6, DeleteVolume TxCommit ''v'' delete_example)]"
  let ?a = "hd (vd_attachments volume_example)"
  have a: "?a \<in> set (vd_attachments volume_example)" "live_attachment ?a" "\<not> va_Readonly ?a" "va_VolumeID ?a = ''v''" "va_MachineID ?a = ''m1''" "va_ExecutionID ?a = ''e1''"
    by (simp_all add: volume_example_def live_attachment_def)
  have "vol_runs ?xs volume_example = volume_example" by code_simp
  moreover have "snd (begin_delete 9 ''v'' delete_example (vol_runs ?xs volume_example)) = vol_runs ?xs volume_example"
    using volume_single_writer[OF a(1-3), of ?xs ?a 9 delete_example] a(4-6) by (simp add: Let_def del: vol_runs.simps)
  ultimately show ?thesis by simp
qed

section \<open>Statements that are not repeatable\<close>

lemma update_attachments_none: "(\<And>a. a \<in> set as \<Longrightarrow> \<not> P a) \<Longrightarrow> update_attachments P f as = (0, as)"
  by (simp add: update_attachments_def filter_empty_conv map_idI)

lemma update_volumes_none: "(\<And>x. x \<in> set vs \<Longrightarrow> \<not> P x) \<Longrightarrow> update_volumes P f vs = (0, vs)"
  by (simp add: update_volumes_def filter_empty_conv map_idI)

text \<open>
  The detachment of an attachment that is detached already is refused, also when it is the repetition of the one that
  detached it: a detach operation that was interrupted after this statement never settles.
\<close>

lemma detach_not_repeatable: "CompleteVolumeDetach v mid e (snd (CompleteVolumeDetach v mid e as)) = (Inl ErrVolumeStateConflict, snd (CompleteVolumeDetach v mid e as))"
proof -
  define as1 where "as1 = snd (CompleteVolumeDetach v mid e as)"
  have "\<not> (same_attachment v mid e a \<and> va_Status a = ''DETACHING'')" if mem: "a \<in> set as1" for a
  proof -
    obtain b where "a = (if same_attachment v mid e b \<and> va_Status b = ''DETACHING'' then b\<lparr>va_Status := ''DETACHED''\<rparr> else b)"
      using mem unfolding as1_def CompleteVolumeDetach_def update_attachments_def Let_def case_prod_conv snd_conv set_map by blast
    then show ?thesis by (cases "same_attachment v mid e b \<and> va_Status b = ''DETACHING''") simp_all
  qed
  then have "CompleteVolumeDetach v mid e as1 = (Inl ErrVolumeStateConflict, as1)" by (simp add: CompleteVolumeDetach_def update_attachments_none)
  then show ?thesis by (simp add: as1_def)
qed

text \<open>The rows of former attachments stay, so that an execution can attach a volume once.\<close>

lemma reattachment_refused:
  "\<lbrakk>a \<in> set (vd_attachments db); same_attachment (va_VolumeID b) (va_MachineID b) (va_ExecutionID b) a\<rbrakk> \<Longrightarrow> \<nexists>r. fst (claim_local_rw now b p db) = Inr r"
  by (auto simp: claim_local_rw_def attach_and_enqueue_def insert_attachment_def list_ex_iff same_attachment_def split: option.split)

text \<open>A dataset whose node was lost during the import can neither be sealed nor marked as failed.\<close>

lemma lost_import_cannot_end:
  assumes "GetVolume v vs = Some x" "distinct (map vo_ID vs)" "vo_State x = ''CREATING''" "vo_NodeID x = n"
  shows "fst (SealDataset v d b (snd (MarkVolumesUnavailable n vs))) = Inl ErrDatasetDigest \<and>
    fst (FailDatasetImport v (snd (MarkVolumesUnavailable n vs))) = Inl ErrVolumeStateConflict"
proof -
  let ?vs = "snd (MarkVolumesUnavailable n vs)"
  have x: "x \<in> set vs" "vo_ID x = v" using find_SomeD[OF assms(1)[unfolded GetVolume_def]] by auto
  have only: "vo_State y = ''UNAVAILABLE''" if "y \<in> set ?vs" "vo_ID y = v" for y
  proof -
    from that(1) obtain z where z: "z \<in> set vs" "y = (if vo_NodeID z = n \<and> vo_State z \<in> {''CREATING'', ''READY''} then z\<lparr>vo_State := ''UNAVAILABLE''\<rparr> else z)"
      by (auto simp: MarkVolumesUnavailable_def update_volumes_def)
    then have "vo_ID z = v" using that(2) by (auto split: if_splits)
    then have "z = x" using z(1) x assms(2) by (auto simp: distinct_map inj_on_def)
    then show ?thesis using z(2) assms(3,4) by simp
  qed
  have seal: "update_volumes (\<lambda>y. vo_ID y = v \<and> vo_Mode y = ''DATASET_RO'' \<and> vo_State y = ''CREATING'' \<and> vo_ContentDigest y = d) f ?vs = (0, ?vs)"
    and fail: "update_volumes (\<lambda>y. vo_ID y = v \<and> vo_Mode y = ''DATASET_RO'' \<and> vo_State y = ''CREATING'') f ?vs = (0, ?vs)" for f
    using only by (auto intro!: update_volumes_none)
  have "vo_State y = ''UNAVAILABLE''" if "GetVolume v ?vs = Some y" for y using only[of y] find_SomeD[OF that[unfolded GetVolume_def]] by simp
  then show ?thesis by (simp add: SealDataset_def FailDatasetImport_def seal fail split: option.split)
qed

end
