(* ===== verification/Control.thy ===== *)
theory Control
  imports SecretLeases FabricStore Volumes
begin

text \<open>
  The programs of the controller (\<open>internal/controlplane/controller\<close>) as trees of effects: a query of the database, a statement, a
  request to an agent, a look at the clock, a fresh identifier, the selection of a node, the lookup of a connection, or a
  note to Redis or to the event log. A tree is written in the order of the source, with one continuation for each answer. Between two
  effects of a program anything may happen to the database; \<open>runs\<close> executes a program under a schedule of
  answers and of statements of others, \<open>wp\<close> is the weakest precondition under all of them, and \<open>sys_runs\<close> interleaves any
  number of programs.
\<close>

section \<open>The database of the controller\<close>

record DeploymentSpec = Deployment +
  ds_SecretRefs :: "(string, string \<times> int option) gomap"
  ds_HealthCheck :: json
  ds_EgressPolicy :: json
  ds_AutoStandby :: json

record NodeRow =
  nr_ID :: string
  nr_NomadNodeID :: string
  nr_Draining :: bool
  nr_Evacuate :: bool

record cdb =
  cd_plane :: plane
  cd_deps :: "DeploymentSpec list"
  cd_nodes :: "NodeRow list"
  cd_rollouts :: "Rollout list"
  cd_backends :: "(string \<times> string) list"
  cd_leases :: leases
  cd_ulas :: allocations
  cd_idents :: identities
  cd_peers :: peers
  cd_vols :: vdb

datatype cstmt =
    OnPlane plane_op
  | IssueLease string int LeaseBinding
  | ClaimLease SecretLease
  | DeliverLease SecretLease
  | AckLease SecretLease
  | UncertainCreate Operation SecretLease string json string
  | RevokeLeases
  | ExpireLeases
  | AllocateAddr AllocationRequest
  | ReleaseAddr string string
  | EnsureIdentity string string string string
  | ReleaseAttachments string string
  | ReadyVolume string
  | SealVolume string string int
  | FailVolume string
  | EndVolume string
  | AttachedVolume string string string
  | DetachedVolume string string string

definition on_leases :: "(leases \<Rightarrow> leases) \<Rightarrow> cdb \<Rightarrow> cdb" where
  "on_leases f db = db\<lparr>cd_leases := f (cd_leases db)\<rparr>"

definition on_volumes :: "(Volume list \<Rightarrow> Volume list) \<Rightarrow> cdb \<Rightarrow> cdb" where
  "on_volumes f db = db\<lparr>cd_vols := (cd_vols db)\<lparr>vd_volumes := f (vd_volumes (cd_vols db))\<rparr>\<rparr>"

definition on_attachments :: "(VolumeAttachment list \<Rightarrow> VolumeAttachment list) \<Rightarrow> cdb \<Rightarrow> cdb" where
  "on_attachments f db = db\<lparr>cd_vols := (cd_vols db)\<lparr>vd_attachments := f (vd_attachments (cd_vols db))\<rparr>\<rparr>"

definition cstmt_run :: "int \<Rightarrow> cstmt \<Rightarrow> cdb \<Rightarrow> cdb" where
  "cstmt_run now x db =
     (case x of
        OnPlane y \<Rightarrow> db\<lparr>cd_plane := plane_run now y (cd_plane db)\<rparr>
      | IssueLease rnd ttl b \<Rightarrow> on_leases (\<lambda>ls. case insert_lease (new_lease now rnd ttl b) ls of Inl _ \<Rightarrow> ls | Inr ls1 \<Rightarrow> ls1) db
      | ClaimLease l \<Rightarrow> on_leases (\<lambda>ls. snd (transitionSecretLease now l ''CLAIMED'' [''ISSUED''] ls)) db
      | DeliverLease l \<Rightarrow> on_leases (\<lambda>ls. snd (MarkSecretLeaseDelivered now l ls)) db
      | AckLease l \<Rightarrow> on_leases (\<lambda>ls. snd (MarkSecretLeaseAcked now l ls)) db
      | UncertainCreate r l cid req cause \<Rightarrow>
          (let (ls, ops) = snd (MarkSecretCreateUncertainAndEnqueueCleanup TxCommit now r l cid req cause (cd_leases db, pl_ops (cd_plane db))) in
           db\<lparr>cd_leases := ls, cd_plane := (cd_plane db)\<lparr>pl_ops := ops\<rparr>\<rparr>)
      | RevokeLeases \<Rightarrow> on_leases (revoke_leases now (pl_machines (cd_plane db))) db
      | ExpireLeases \<Rightarrow> on_leases (expire_leases now) db
      | AllocateAddr q \<Rightarrow> db\<lparr>cd_ulas := snd (AllocateULA TxCommit q (cd_ulas db))\<rparr>
      | ReleaseAddr mid e \<Rightarrow> db\<lparr>cd_ulas := ReleaseULA now mid e (cd_ulas db)\<rparr>
      | EnsureIdentity domain project app service \<Rightarrow> db\<lparr>cd_idents := snd (EnsureWorkloadIdentity domain project app service (cd_idents db))\<rparr>
      | ReleaseAttachments mid e \<Rightarrow> on_attachments (snd \<circ> ReleaseTerminalExecutionAttachments mid e) db
      | ReadyVolume v \<Rightarrow> on_volumes (snd \<circ> MarkVolumeReady v) db
      | SealVolume v d b \<Rightarrow> on_volumes (snd \<circ> SealDataset v d b) db
      | FailVolume v \<Rightarrow> on_volumes (snd \<circ> FailDatasetImport v) db
      | EndVolume v \<Rightarrow> on_volumes (snd \<circ> TransitionVolume v ''DELETING'' ''DELETED'') db
      | AttachedVolume v mid e \<Rightarrow> on_attachments (snd \<circ> MarkVolumeAttachmentAttached v mid e) db
      | DetachedVolume v mid e \<Rightarrow> on_attachments (snd \<circ> CompleteVolumeDetach v mid e) db)"

section \<open>Requests to agents\<close>

record MachineSpec =
  ms_ProjectID :: string
  ms_AppID :: string
  ms_DeploymentID :: string
  ms_ExecutionID :: string
  ms_ReplicaOrdinal :: int
  ms_Hostname :: string
  ms_IngressPort :: int
  ms_Services :: "ServiceSpec list"
  ms_AutoStandby :: json
  ms_HealthCheck :: json
  ms_Egress :: json

record CreateReq =
  cq_MachineID :: string
  cq_Generation :: int
  cq_OperationID :: string
  cq_Spec :: MachineSpec
  cq_SecretEnv :: "(string, string) gomap"
  cq_SecretLeaseID :: string
  cq_ProxyCredential :: string

record DeleteReq =
  dq_MachineID :: string
  dq_ExecutionID :: string
  dq_Generation :: int
  dq_OperationID :: string

record VolumeReq =
  vq_VolumeID :: string
  vq_MachineID :: string
  vq_ExecutionID :: string
  vq_SizeBytes :: int
  vq_ExpectedDigest :: string

text \<open>A machine as an agent reports it; the enumerations are their names.\<close>

record PbMachine =
  pm_MachineID :: string
  pm_ExecutionID :: string
  pm_Generation :: int
  pm_ProjectID :: string
  pm_State :: string
  pm_SlotIp :: string
  pm_Readiness :: string
  pm_SecretDelivery :: string
  pm_ExitCode :: "int option"

record SealReply =
  sr_Sealed :: bool
  sr_ContentDigest :: string
  sr_SizeBytes :: int

datatype rpc =
    CreateRpc CreateReq
  | DeleteRpc DeleteReq
  | PauseRpc string string int string
  | ResumeRpc string string int string
  | CreateVolumeRpc VolumeReq
  | ImportRpc VolumeReq
  | DeleteVolumeRpc VolumeReq string
  | AttachRpc VolumeReq
  | DetachRpc VolumeReq

datatype rpc_code = InvalidArgument | NotFoundC | AlreadyExists | PermissionDenied | Unauthenticated | ResourceExhausted | FailedPrecondition | OtherCode

datatype reply = MachineReply PbMachine | SealedReply SealReply | EmptyReply

text \<open>What \<open>placement.Place\<close> answers: a node with its two identifiers, or why there is none.\<close>

record Choice =
  ch_NodeID :: string
  ch_NomadID :: string

datatype place_err = QuotaErr string | NoCandidatesErr string | PlaceErr string

fun place_text :: "place_err \<Rightarrow> string" where
  "place_text (QuotaErr e) = e"
| "place_text (NoCandidatesErr e) = e"
| "place_text (PlaceErr e) = e"

record NodeView =
  nv_AgentID :: string
  nv_NomadID :: string
  nv_Status :: string

text \<open>Effects whose failure the code ignores.\<close>

datatype notice =
    Released string
  | Committed string
  | UserEvent string string
  | QuotaRejected string
  | PlacementFailed string
  | PlacementSucceeded string
  | ScaleUpSignal string
  | Recorded string string string

section \<open>Programs\<close>

datatype 'r prog =
    Ret 'r
  | Query "string + cdb \<Rightarrow> 'r prog"
  | Exec cstmt "string + int \<times> cdb \<Rightarrow> 'r prog"
  | Rpc string rpc "(rpc_code \<times> string) + reply \<Rightarrow> 'r prog"
  | Clock "int \<Rightarrow> 'r prog"
  | Fresh "string \<Rightarrow> 'r prog"
  | Nodes "NodeView list \<Rightarrow> 'r prog"
  | Client string "bool \<Rightarrow> 'r prog"
  | Place string "string list" "place_err + Choice \<Rightarrow> 'r prog"
  | Reserve string string int "string option \<Rightarrow> 'r prog"
  | Resolve string string "string + (string, string) gomap \<Rightarrow> 'r prog"
  | Tell notice "'r prog"

datatype ans =
    Ok
  | Fails string
  | Lost string
  | Replied reply
  | Refused rpc_code string
  | Reads int
  | Named string
  | Views "NodeView list"
  | Connected bool
  | Placed Choice
  | NotPlaced place_err
  | Secrets "(string, string) gomap"

record world =
  wo_db :: cdb
  wo_done :: "(int \<times> cstmt \<times> cdb) list"
  wo_failed :: "cstmt list"
  wo_sent :: "(string \<times> rpc) list"
  wo_notes :: "notice list"

text \<open>A statement is executed at a time, in a log with the database it found.\<close>

definition do_stmt :: "int \<Rightarrow> cstmt \<Rightarrow> world \<Rightarrow> world" where
  "do_stmt now x w = w\<lparr>wo_db := cstmt_run now x (wo_db w), wo_done := wo_done w @ [(now, x, wo_db w)]\<rparr>"

text \<open>A statement whose answer is an error.\<close>

definition failed :: "cstmt \<Rightarrow> world \<Rightarrow> world" where
  "failed x w = w\<lparr>wo_failed := wo_failed w @ [x]\<rparr>"

text \<open>A placement records its node at the operation, see \<open>placement.commitDispatch\<close>.\<close>

definition dispatch_stmt :: "string \<Rightarrow> string \<Rightarrow> cstmt" where
  "dispatch_stmt opid node = OnPlane (OnOutbox (Dispatch opid node))"

text \<open>One effect under an answer; an answer that does not fit the effect is none.\<close>

definition pstep :: "int \<Rightarrow> ans \<Rightarrow> 'r prog \<Rightarrow> world \<Rightarrow> ('r prog \<times> world) option" where
  "pstep now a p w =
     (case p of
        Ret _ \<Rightarrow> None
      | Query k \<Rightarrow> (case a of Ok \<Rightarrow> Some (k (Inr (wo_db w)), w) | Fails e \<Rightarrow> Some (k (Inl e), w) | _ \<Rightarrow> None)
      | Exec x k \<Rightarrow>
          (case a of
             Ok \<Rightarrow> Some (k (Inr (now, wo_db w)), do_stmt now x w)
           | Fails e \<Rightarrow> Some (k (Inl e), failed x w)
           | Lost e \<Rightarrow> Some (k (Inl e), failed x (do_stmt now x w))
           | _ \<Rightarrow> None)
      | Rpc n q k \<Rightarrow>
          (case a of
             Replied r \<Rightarrow> Some (k (Inr r), w\<lparr>wo_sent := wo_sent w @ [(n, q)]\<rparr>)
           | Refused c e \<Rightarrow> Some (k (Inl (c, e)), w\<lparr>wo_sent := wo_sent w @ [(n, q)]\<rparr>)
           | _ \<Rightarrow> None)
      | Clock k \<Rightarrow> (case a of Reads t \<Rightarrow> Some (k t, w) | _ \<Rightarrow> None)
      | Fresh k \<Rightarrow> (case a of Named s \<Rightarrow> Some (k s, w) | _ \<Rightarrow> None)
      | Nodes k \<Rightarrow> (case a of Views vs \<Rightarrow> Some (k vs, w) | _ \<Rightarrow> None)
      | Client n k \<Rightarrow> (case a of Connected b \<Rightarrow> Some (k b, w) | _ \<Rightarrow> None)
      | Place opid excluded k \<Rightarrow>
          (case a of
             Placed c \<Rightarrow> Some (k (Inr c), do_stmt now (dispatch_stmt opid (ch_NodeID c)) w)
           | NotPlaced e \<Rightarrow> Some (k (Inl e), w)
           | _ \<Rightarrow> None)
      | Reserve opid node amount k \<Rightarrow> (case a of Ok \<Rightarrow> Some (k None, w) | Fails e \<Rightarrow> Some (k (Some e), w) | _ \<Rightarrow> None)
      | Resolve project dep k \<Rightarrow> (case a of Secrets env \<Rightarrow> Some (k (Inr env), w) | Fails e \<Rightarrow> Some (k (Inl e), w) | _ \<Rightarrow> None)
      | Tell n q \<Rightarrow> (case a of Ok \<Rightarrow> Some (q, w\<lparr>wo_notes := wo_notes w @ [n]\<rparr>) | _ \<Rightarrow> None))"

section \<open>Runs of one program\<close>

text \<open>
  A schedule gives, for every effect, the statements of others that come first, the time and the answer. A run ends with the
  schedule, with an answer that does not fit, or with the program.
\<close>

type_synonym schedule = "((int \<times> cstmt) list \<times> int \<times> ans) list"

definition others :: "(int \<times> cstmt) list \<Rightarrow> world \<Rightarrow> world" where
  "others xs w = w\<lparr>wo_db := fold (\<lambda>(t, x). cstmt_run t x) xs (wo_db w)\<rparr>"

fun runs :: "schedule \<Rightarrow> 'r prog \<Rightarrow> world \<Rightarrow> 'r prog \<times> world" where
  "runs [] p w = (p, w)"
| "runs ((xs, now, a) # s) p w = (case pstep now a p (others xs w) of None \<Rightarrow> (p, w) | Some (p', w') \<Rightarrow> runs s p' w')"

text \<open>
  The weakest precondition: \<open>I\<close> holds of the worlds in which the program is interrupted, whatever others do within the relation
  \<open>R\<close>, and \<open>Q\<close> of the result.
\<close>

primrec wp :: "(cdb \<Rightarrow> cdb \<Rightarrow> bool) \<Rightarrow> (world \<Rightarrow> bool) \<Rightarrow> 'r prog \<Rightarrow> ('r \<Rightarrow> world \<Rightarrow> bool) \<Rightarrow> world \<Rightarrow> bool" where
  "wp R I (Ret r) Q w \<longleftrightarrow> I w \<and> Q r w"
| "wp R I (Query k) Q w \<longleftrightarrow> I w \<and> (\<forall>db. R (wo_db w) db \<longrightarrow> wp R I (k (Inr db)) Q (w\<lparr>wo_db := db\<rparr>) \<and> (\<forall>e. wp R I (k (Inl e)) Q (w\<lparr>wo_db := db\<rparr>)))"
| "wp R I (Exec x k) Q w \<longleftrightarrow> I w \<and> (\<forall>db now. R (wo_db w) db \<longrightarrow>
     wp R I (k (Inr (now, db))) Q (do_stmt now x (w\<lparr>wo_db := db\<rparr>)) \<and>
     (\<forall>e. wp R I (k (Inl e)) Q (failed x (do_stmt now x (w\<lparr>wo_db := db\<rparr>))) \<and> wp R I (k (Inl e)) Q (failed x (w\<lparr>wo_db := db\<rparr>))))"
| "wp R I (Rpc n q k) Q w \<longleftrightarrow> I w \<and> (\<forall>db a. R (wo_db w) db \<longrightarrow> wp R I (k a) Q (w\<lparr>wo_db := db, wo_sent := wo_sent w @ [(n, q)]\<rparr>))"
| "wp R I (Clock k) Q w \<longleftrightarrow> I w \<and> (\<forall>db t. R (wo_db w) db \<longrightarrow> wp R I (k t) Q (w\<lparr>wo_db := db\<rparr>))"
| "wp R I (Fresh k) Q w \<longleftrightarrow> I w \<and> (\<forall>db s. R (wo_db w) db \<longrightarrow> wp R I (k s) Q (w\<lparr>wo_db := db\<rparr>))"
| "wp R I (Nodes k) Q w \<longleftrightarrow> I w \<and> (\<forall>db vs. R (wo_db w) db \<longrightarrow> wp R I (k vs) Q (w\<lparr>wo_db := db\<rparr>))"
| "wp R I (Client n k) Q w \<longleftrightarrow> I w \<and> (\<forall>db b. R (wo_db w) db \<longrightarrow> wp R I (k b) Q (w\<lparr>wo_db := db\<rparr>))"
| "wp R I (Place opid excluded k) Q w \<longleftrightarrow> I w \<and> (\<forall>db now. R (wo_db w) db \<longrightarrow>
     (\<forall>c. wp R I (k (Inr c)) Q (do_stmt now (dispatch_stmt opid (ch_NodeID c)) (w\<lparr>wo_db := db\<rparr>))) \<and> (\<forall>e. wp R I (k (Inl e)) Q (w\<lparr>wo_db := db\<rparr>)))"
| "wp R I (Reserve opid node amount k) Q w \<longleftrightarrow> I w \<and> (\<forall>db a. R (wo_db w) db \<longrightarrow> wp R I (k a) Q (w\<lparr>wo_db := db\<rparr>))"
| "wp R I (Resolve project dep k) Q w \<longleftrightarrow> I w \<and> (\<forall>db a. R (wo_db w) db \<longrightarrow> wp R I (k a) Q (w\<lparr>wo_db := db\<rparr>))"
| "wp R I (Tell n p) Q w \<longleftrightarrow> I w \<and> (\<forall>db. R (wo_db w) db \<longrightarrow> wp R I p Q (w\<lparr>wo_db := db, wo_notes := wo_notes w @ [n]\<rparr>))"

lemma wp_now: "wp R I p Q w \<Longrightarrow> I w"
  by (cases p) simp_all

lemma wp_pstep:
  assumes "wp R I p Q w" "R (wo_db w) db" "pstep now a p (w\<lparr>wo_db := db\<rparr>) = Some (p', w')"
  shows "wp R I p' Q w'"
proof (cases p)
  case (Exec x k)
  then show ?thesis using assms by (cases a) (auto simp: pstep_def)
next
  case (Place o1 e k)
  then show ?thesis using assms by (cases a) (auto simp: pstep_def)
qed (use assms in \<open>auto simp: pstep_def split: ans.splits\<close>)

text \<open>The precondition speaks about all runs whose schedule stays within the relation.\<close>

definition within_rel :: "(cdb \<Rightarrow> cdb \<Rightarrow> bool) \<Rightarrow> schedule \<Rightarrow> bool" where
  "within_rel R s \<longleftrightarrow> (\<forall>(xs, now, a) \<in> set s. \<forall>db. R db (fold (\<lambda>(t, x). cstmt_run t x) xs db))"

lemma wp_runs:
  assumes "wp R I p Q w" "within_rel R s" "runs s p w = (p', w')"
  shows "wp R I p' Q w'"
  using assms
proof (induction s arbitrary: p w)
  case (Cons y s)
  obtain xs now a where y: "y = (xs, now, a)" by (cases y)
  have rel: "R (wo_db w) (wo_db (others xs w))" using Cons.prems(2) y by (auto simp: within_rel_def others_def)
  have oth: "others xs w = w\<lparr>wo_db := wo_db (others xs w)\<rparr>" by (simp add: others_def)
  show ?case
  proof (cases "pstep now a p (others xs w)")
    case None
    then show ?thesis using Cons.prems y by simp
  next
    case (Some q)
    obtain p1 w1 where q: "q = (p1, w1)" by (cases q)
    have "wp R I p1 Q w1" using wp_pstep[OF Cons.prems(1) rel] Some q oth by metis
    then show ?thesis using Cons y Some q by (simp add: within_rel_def)
  qed
qed simp

lemma wp_result: "\<lbrakk>wp R I p Q w; within_rel R s; runs s p w = (p', w')\<rbrakk> \<Longrightarrow> I w' \<and> (\<forall>r. p' = Ret r \<longrightarrow> Q r w')"
  using wp_runs[of R I p Q w s p' w'] wp_now[of R I p' Q w'] by auto

section \<open>Systems of programs\<close>

text \<open>
  Any number of programs run side by side. A job starts a program, a program makes its next effect under some answer, or a
  statement of somebody else is executed. A program that stops in the middle is one that makes no more effects.
\<close>

datatype 'j event = Start 'j | Effect nat int ans | Other int cstmt

fun sys_run :: "('j \<Rightarrow> 'r prog) \<Rightarrow> 'j event \<Rightarrow> 'r prog list \<times> world \<Rightarrow> 'r prog list \<times> world" where
  "sys_run mk (Start j) (ps, w) = (ps @ [mk j], w)"
| "sys_run mk (Effect i now a) (ps, w) =
     (if i < length ps then case pstep now a (ps ! i) w of None \<Rightarrow> (ps, w) | Some (p, w') \<Rightarrow> (ps[i := p], w') else (ps, w))"
| "sys_run mk (Other now x) (ps, w) = (ps, w\<lparr>wo_db := cstmt_run now x (wo_db w)\<rparr>)"

definition sys_runs :: "('j \<Rightarrow> 'r prog) \<Rightarrow> 'j event list \<Rightarrow> 'r prog list \<times> world \<Rightarrow> 'r prog list \<times> world" where
  "sys_runs mk es s = fold (sys_run mk) es s"

lemma sys_runs_invariant:
  assumes "I s" "\<And>e s. I s \<Longrightarrow> I (sys_run mk e s)"
  shows "I (sys_runs mk es s)"
  using assms(1) unfolding sys_runs_def
proof (induction es arbitrary: s)
  case (Cons e es)
  then show ?case using assms(2)[of s e] by simp
qed simp

text \<open>One program after another.\<close>

primrec bindp :: "'a prog \<Rightarrow> ('a \<Rightarrow> 'b prog) \<Rightarrow> 'b prog" where
  "bindp (Ret r) f = f r"
| "bindp (Query k) f = Query (\<lambda>x. bindp (k x) f)"
| "bindp (Exec s k) f = Exec s (\<lambda>x. bindp (k x) f)"
| "bindp (Rpc n q k) f = Rpc n q (\<lambda>x. bindp (k x) f)"
| "bindp (Clock k) f = Clock (\<lambda>x. bindp (k x) f)"
| "bindp (Fresh k) f = Fresh (\<lambda>x. bindp (k x) f)"
| "bindp (Nodes k) f = Nodes (\<lambda>x. bindp (k x) f)"
| "bindp (Client n k) f = Client n (\<lambda>x. bindp (k x) f)"
| "bindp (Place q n k) f = Place q n (\<lambda>x. bindp (k x) f)"
| "bindp (Reserve q n m k) f = Reserve q n m (\<lambda>x. bindp (k x) f)"
| "bindp (Resolve q d k) f = Resolve q d (\<lambda>x. bindp (k x) f)"
| "bindp (Tell n p) f = Tell n (bindp p f)"

lemma wp_bindp: "wp R I (bindp p f) Q w \<longleftrightarrow> wp R I p (\<lambda>r. wp R I (f r) Q) w"
proof (induction p arbitrary: w)
  case (Ret r)
  then show ?case using wp_now[of R I "f r" Q w] by auto
qed simp_all

section \<open>Monitors\<close>

text \<open>
  A monitor watches the statements and requests of a program with a state of its own; \<open>None\<close> is a violation. A statement whose answer is an error may or may not have
  been executed. \<open>F\<close> is the condition on the state and the result at the end.
\<close>

datatype happening = Did int cstmt cdb | Failed cstmt | Called rpc

primrec monitored :: "('q \<Rightarrow> happening \<Rightarrow> 'q option) \<Rightarrow> ('q \<Rightarrow> 'r \<Rightarrow> bool) \<Rightarrow> 'q \<Rightarrow> 'r prog \<Rightarrow> bool" where
  "monitored d F q (Ret r) \<longleftrightarrow> F q r"
| "monitored d F q (Query k) \<longleftrightarrow> (\<forall>x. monitored d F q (k x))"
| "monitored d F q (Exec s k) \<longleftrightarrow>
     (\<forall>now db. case d q (Did now s db) of None \<Rightarrow> False | Some q' \<Rightarrow> monitored d F q' (k (Inr (now, db)))) \<and>
     (\<forall>e. case d q (Failed s) of None \<Rightarrow> False | Some q' \<Rightarrow> monitored d F q' (k (Inl e)))"
| "monitored d F q (Rpc n r k) \<longleftrightarrow> (\<forall>x. case d q (Called r) of None \<Rightarrow> False | Some q' \<Rightarrow> monitored d F q' (k x))"
| "monitored d F q (Clock k) \<longleftrightarrow> (\<forall>x. monitored d F q (k x))"
| "monitored d F q (Fresh k) \<longleftrightarrow> (\<forall>x. monitored d F q (k x))"
| "monitored d F q (Nodes k) \<longleftrightarrow> (\<forall>x. monitored d F q (k x))"
| "monitored d F q (Client n k) \<longleftrightarrow> (\<forall>x. monitored d F q (k x))"
| "monitored d F q (Place i n k) \<longleftrightarrow> (\<forall>e. monitored d F q (k (Inl e))) \<and>
     (\<forall>c now db. case d q (Did now (dispatch_stmt i (ch_NodeID c)) db) of None \<Rightarrow> False | Some q' \<Rightarrow> monitored d F q' (k (Inr c)))"
| "monitored d F q (Reserve i n m k) \<longleftrightarrow> (\<forall>x. monitored d F q (k x))"
| "monitored d F q (Resolve i n k) \<longleftrightarrow> (\<forall>x. monitored d F q (k x))"
| "monitored d F q (Tell n p) \<longleftrightarrow> monitored d F q p"

lemma monitored_bindp:
  "monitored d (\<lambda>q r. monitored d F q (f r)) q p \<Longrightarrow> monitored d F q (bindp p f)"
proof (induction p arbitrary: q)
  case (Exec s k)
  then show ?case by (auto split: option.splits)
next
  case (Rpc n r k)
  then show ?case by (auto split: option.splits)
next
  case (Place i n k)
  then show ?case by (auto split: option.splits)
qed simp_all

lemma monitored_mono: "\<lbrakk>monitored d F q p; \<And>q r. F q r \<Longrightarrow> G q r\<rbrakk> \<Longrightarrow> monitored d G q p"
proof (induction p arbitrary: q)
  case (Exec s k)
  then show ?case by (auto split: option.splits)
next
  case (Rpc n r k)
  then show ?case by (auto split: option.splits)
next
  case (Place i n k)
  then show ?case by (auto split: option.splits)
qed simp_all

text \<open>
  What the state of a monitor says about the world.
\<close>

locale monitor =
  fixes d :: "'q \<Rightarrow> happening \<Rightarrow> 'q option" and J :: "'q \<Rightarrow> world \<Rightarrow> bool"
  assumes J_did: "\<lbrakk>J q w; d q (Did now s (wo_db w)) = Some q'\<rbrakk> \<Longrightarrow> J q' (do_stmt now s w)"
    and J_failed: "\<lbrakk>J q w; d q (Failed s) = Some q'\<rbrakk> \<Longrightarrow> J q' (failed s w)"
    and J_lost: "\<lbrakk>J q w; d q (Failed s) = Some q'\<rbrakk> \<Longrightarrow> J q' (failed s (do_stmt now s w))"
    and J_called: "\<lbrakk>J q w; d q (Called r) = Some q'\<rbrakk> \<Longrightarrow> J q' (w\<lparr>wo_sent := wo_sent w @ [(n, r)]\<rparr>)"
    and J_other: "J q w \<Longrightarrow> J q (w\<lparr>wo_db := db\<rparr>)"
    and J_told: "J q w \<Longrightarrow> J q (w\<lparr>wo_notes := ns\<rparr>)"
begin

lemma monitored_pstep:
  assumes "monitored d F q p" "J q w" "pstep now a p w = Some (p', w')"
  shows "\<exists>q'. monitored d F q' p' \<and> J q' w'"
proof (cases p)
  case (Exec s k)
  have "\<exists>q'. d q (Did now s (wo_db w)) = Some q' \<and> monitored d F q' (k (Inr (now, wo_db w)))"
    using assms(1) Exec by (simp split: option.splits) blast
  moreover have "\<exists>q'. d q (Failed s) = Some q' \<and> (\<forall>e. monitored d F q' (k (Inl e)))"
    using assms(1) Exec by (auto split: option.splits)
  ultimately show ?thesis using assms(2,3) Exec by (cases a) (auto simp: pstep_def intro: J_did J_failed J_lost)
next
  case (Rpc n r k)
  then obtain q' where "d q (Called r) = Some q'" "\<And>x. monitored d F q' (k x)" using assms(1) by (auto split: option.splits)
  then show ?thesis using assms(2,3) Rpc by (cases a) (auto simp: pstep_def intro: J_called)
next
  case (Place i n k)
  have "\<exists>q'. d q (Did now (dispatch_stmt i (ch_NodeID c)) (wo_db w)) = Some q' \<and> monitored d F q' (k (Inr c))" for c
    using assms(1) Place by (simp split: option.splits) blast
  then show ?thesis using assms Place by (cases a) (auto simp: pstep_def, metis J_did)
qed (use assms in \<open>auto simp: pstep_def split: ans.splits intro: J_told\<close>)

lemma monitored_runs:
  assumes "monitored d F q p" "J q w" "runs s p w = (p', w')"
  shows "\<exists>q'. monitored d F q' p' \<and> J q' w'"
  using assms
proof (induction s arbitrary: q p w)
  case (Cons y s)
  obtain xs now a where y: "y = (xs, now, a)" by (cases y)
  show ?case
  proof (cases "pstep now a p (others xs w)")
    case None
    then show ?thesis using Cons.prems y by auto
  next
    case (Some z)
    obtain p1 w1 where z: "z = (p1, w1)" by (cases z)
    have "J q (others xs w)" using Cons.prems(2) J_other by (simp add: others_def)
    then obtain q1 where "monitored d F q1 p1" "J q1 w1" using monitored_pstep[OF Cons.prems(1)] Some z by blast
    then show ?thesis using Cons.IH[of q1 p1 w1] Cons.prems(3) y Some z by simp
  qed
qed auto

end

end
