(* ===== verification/Repair.thy ===== *)
theory Repair
  imports Control
begin

text \<open>
  What the controller's loops share (\<open>controller/observed.go\<close>, \<open>controller/apps.go\<close>): the store calls as effects, the request of a replacement, and the
  enqueueing of creates and of pinned deletes. Texts of requests, hashes, tokens and time stamps come from
  libraries and from the local time zone; they are the arguments of \<open>codec\<close>.
\<close>

section \<open>Calls\<close>

record codec =
  co_create :: "json \<Rightarrow> string + CreateReq"
  co_delete :: "json \<Rightarrow> string + DeleteReq"
  co_lifecycle :: "json \<Rightarrow> string + unit"
  co_volume :: "json \<Rightarrow> string + VolumeReq"
  co_putCreate :: "CreateReq \<Rightarrow> json"
  co_putDelete :: "DeleteReq \<Rightarrow> json"
  co_putMachine :: "reply \<Rightarrow> json"
  co_proto :: "json \<Rightarrow> json"
  co_hash :: "json \<Rightarrow> string"
  co_token :: "string \<Rightarrow> string \<Rightarrow> string"
  co_minute :: "int \<Rightarrow> string"

definition query :: "(cdb \<Rightarrow> 'a) \<Rightarrow> (string + 'a \<Rightarrow> 'r prog) \<Rightarrow> 'r prog" where
  "query f k = Query (\<lambda>r. k (case r of Inl e \<Rightarrow> Inl e | Inr db \<Rightarrow> Inr (f db)))"

text \<open>A statement; \<open>f\<close> computes its answer from the time and from the tables it found.\<close>

definition exec :: "cstmt \<Rightarrow> (int \<Rightarrow> cdb \<Rightarrow> 'a) \<Rightarrow> (string + 'a \<Rightarrow> 'r prog) \<Rightarrow> 'r prog" where
  "exec x f k = Exec x (\<lambda>r. k (case r of Inl e \<Rightarrow> Inl e | Inr (now, db) \<Rightarrow> Inr (f now db)))"

text \<open>A statement whose error is ignored, and one whose only answer is its error.\<close>

definition exec_ignored :: "cstmt \<Rightarrow> 'r prog \<Rightarrow> 'r prog" where
  "exec_ignored x p = Exec x (\<lambda>_. p)"

definition exec_err :: "cstmt \<Rightarrow> (string option \<Rightarrow> 'r prog) \<Rightarrow> 'r prog" where
  "exec_err x k = Exec x (\<lambda>r. k (case r of Inl e \<Rightarrow> Some e | Inr _ \<Rightarrow> None))"

lemma wp_query [simp]:
  "wp R I (query f k) Q w \<longleftrightarrow> I w \<and> (\<forall>db. R (wo_db w) db \<longrightarrow> wp R I (k (Inr (f db))) Q (w\<lparr>wo_db := db\<rparr>) \<and> (\<forall>e. wp R I (k (Inl e)) Q (w\<lparr>wo_db := db\<rparr>)))"
  by (simp add: query_def)

lemma wp_exec [simp]:
  "wp R I (exec x f k) Q w \<longleftrightarrow> I w \<and> (\<forall>db now. R (wo_db w) db \<longrightarrow>
     wp R I (k (Inr (f now db))) Q (do_stmt now x (w\<lparr>wo_db := db\<rparr>)) \<and>
     (\<forall>e. wp R I (k (Inl e)) Q (failed x (do_stmt now x (w\<lparr>wo_db := db\<rparr>))) \<and> wp R I (k (Inl e)) Q (failed x (w\<lparr>wo_db := db\<rparr>))))"
  by (simp add: exec_def)

lemma wp_exec_ignored [simp]:
  "wp R I (exec_ignored x p) Q w \<longleftrightarrow> I w \<and> (\<forall>db now. R (wo_db w) db \<longrightarrow> wp R I p Q (do_stmt now x (w\<lparr>wo_db := db\<rparr>)) \<and>
     wp R I p Q (failed x (do_stmt now x (w\<lparr>wo_db := db\<rparr>))) \<and> wp R I p Q (failed x (w\<lparr>wo_db := db\<rparr>)))"
  by (auto simp: exec_ignored_def)

lemma wp_exec_err [simp]:
  "wp R I (exec_err x k) Q w \<longleftrightarrow> I w \<and> (\<forall>db now. R (wo_db w) db \<longrightarrow> wp R I (k None) Q (do_stmt now x (w\<lparr>wo_db := db\<rparr>)) \<and>
     (\<forall>e. wp R I (k (Some e)) Q (failed x (do_stmt now x (w\<lparr>wo_db := db\<rparr>))) \<and> wp R I (k (Some e)) Q (failed x (w\<lparr>wo_db := db\<rparr>))))"
  by (simp add: exec_err_def)

definition getMachine :: "string \<Rightarrow> (string + MachineRow option \<Rightarrow> 'r prog) \<Rightarrow> 'r prog" where
  "getMachine mid = query (\<lambda>db. GetMachine mid (pl_machines (cd_plane db)))"

definition getDeployment :: "string \<Rightarrow> (string + DeploymentSpec option \<Rightarrow> 'r prog) \<Rightarrow> 'r prog" where
  "getDeployment dep = query (\<lambda>db. List.find (\<lambda>d. dp_ID d = dep) (cd_deps db))"

definition leaseForExecution :: "string \<Rightarrow> string \<Rightarrow> (lease_err + SecretLease \<Rightarrow> 'r prog) \<Rightarrow> 'r prog" where
  "leaseForExecution mid e k = query (\<lambda>db. SecretLeaseForExecution mid e (cd_leases db)) (\<lambda>r. case r of Inl _ \<Rightarrow> k (Inl LeaseDBFailed) | Inr x \<Rightarrow> k x)"

definition complete :: "string \<Rightarrow> string \<Rightarrow> json \<Rightarrow> string \<Rightarrow> cstmt" where
  "complete key status res err = OnPlane (OnOutbox (CompleteOp key status res err))"

text \<open>The project of an application, \<open>dev\<close> if it cannot be found.\<close>

definition projectForApp :: "string \<Rightarrow> (string + string \<Rightarrow> 'r prog) \<Rightarrow> 'r prog" where
  "projectForApp app = query (\<lambda>db. case mget (pl_apps (cd_plane db)) app of None \<Rightarrow> '''' | Some p \<Rightarrow> p)"

definition project_or_dev :: "string + string \<Rightarrow> string" where
  "project_or_dev r = (case r of Inl _ \<Rightarrow> ''dev'' | Inr p \<Rightarrow> if p = '''' then ''dev'' else p)"

definition hasPending :: "string \<Rightarrow> (string + bool \<Rightarrow> 'r prog) \<Rightarrow> 'r prog" where
  "hasPending mid = query (\<lambda>db. HasPendingOperationForMachine mid (pl_ops (cd_plane db)))"

definition pendingOperation :: "string \<Rightarrow> (string + Operation option \<Rightarrow> 'r prog) \<Rightarrow> 'r prog" where
  "pendingOperation mid = query (\<lambda>db. PendingOperationForMachine mid (pl_ops (cd_plane db)))"

text \<open>A connection by the identifier that the agent reports.\<close>

definition clientForNodeID :: "string \<Rightarrow> (string option \<Rightarrow> 'r prog) \<Rightarrow> 'r prog" where
  "clientForNodeID agent k = Nodes (\<lambda>vs.
     case List.find (\<lambda>v. nv_AgentID v = agent) vs of None \<Rightarrow> k None | Some v \<Rightarrow> Client (nv_NomadID v) (\<lambda>b. k (if b then Some (nv_NomadID v) else None)))"

section \<open>The request of a replacement\<close>

definition spec_extra :: "codec \<Rightarrow> json \<Rightarrow> json \<Rightarrow> json" where
  "spec_extra c doc old = (if doc = None \<or> doc = Some ''null'' then old else case co_proto c doc of None \<Rightarrow> old | Some x \<Rightarrow> Some x)"

definition port_name :: "ServiceSpec \<Rightarrow> ServiceSpec" where
  "port_name s = (if sv_Name s = '''' then s\<lparr>sv_Name := ''port-'' @ fmt_int (sv_InternalPort s)\<rparr> else s)"

definition applyDeploymentSpecExtras :: "codec \<Rightarrow> DeploymentSpec \<Rightarrow> MachineSpec \<Rightarrow> MachineSpec" where
  "applyDeploymentSpecExtras c dep spec =
     (let s1 = spec\<lparr>ms_AutoStandby := spec_extra c (ds_AutoStandby dep) (ms_AutoStandby spec)\<rparr> in
      case dp_Services dep of
        [] \<Rightarrow> s1
      | [s] \<Rightarrow> if ms_IngressPort s1 = 0 then s1\<lparr>ms_IngressPort := sv_InternalPort s\<rparr> else s1
      | s # _ # _ \<Rightarrow> s1\<lparr>ms_Services := map port_name (dp_Services dep), ms_IngressPort := sv_InternalPort s\<rparr>)"

definition machine_spec :: "MachineRow \<Rightarrow> string \<Rightarrow> MachineSpec" where
  "machine_spec m e =
     \<lparr>ms_ProjectID = '''', ms_AppID = m_AppID m, ms_DeploymentID = m_DeploymentID m, ms_ExecutionID = e, ms_ReplicaOrdinal = m_ReplicaOrdinal m,
      ms_Hostname = m_Hostname m, ms_IngressPort = m_IngressPort m, ms_Services = [], ms_AutoStandby = None, ms_HealthCheck = None, ms_Egress = None\<rparr>"

definition create_request :: "MachineRow \<Rightarrow> string \<Rightarrow> int \<Rightarrow> string \<Rightarrow> MachineSpec \<Rightarrow> CreateReq" where
  "create_request m e gen opID spec =
     \<lparr>cq_MachineID = m_ID m, cq_Generation = gen, cq_OperationID = opID, cq_Spec = spec, cq_SecretEnv = [], cq_SecretLeaseID = '''', cq_ProxyCredential = ''''\<rparr>"

text \<open>The health check and the egress policy of the deployment come with a replacement.\<close>

definition recreate_spec :: "codec \<Rightarrow> MachineRow \<Rightarrow> string \<Rightarrow> string + DeploymentSpec option \<Rightarrow> MachineSpec" where
  "recreate_spec c m e r =
     (case r of
        Inr (Some dep) \<Rightarrow>
          (let s = applyDeploymentSpecExtras c dep (machine_spec m e) in
           s\<lparr>ms_HealthCheck := spec_extra c (ds_HealthCheck dep) (ms_HealthCheck s), ms_Egress := spec_extra c (ds_EgressPolicy dep) (ms_Egress s)\<rparr>)
      | _ \<Rightarrow> machine_spec m e)"

definition recreate_params :: "codec \<Rightarrow> MachineRow \<Rightarrow> string \<Rightarrow> int \<Rightarrow> string \<Rightarrow> string \<Rightarrow> MachineSpec \<Rightarrow> CreateMachineParams" where
  "recreate_params c m e gen opID project spec = default_lifecycle
     \<lparr>cp_ProjectID = project, cp_AppID = m_AppID m, cp_Hostname = m_Hostname m, cp_IngressPort = m_IngressPort m, cp_MachineID = m_ID m,
      cp_DeploymentID = m_DeploymentID m, cp_ExecutionID = e, cp_OperationID = opID, cp_Generation = gen, cp_ReplicaOrdinal = m_ReplicaOrdinal m,
      cp_RequestJSON = co_putCreate c (create_request m e gen opID (spec\<lparr>ms_ProjectID := project\<rparr>)), cp_ExpiresAt = None, cp_RestartMode = '''',
      cp_RestartMaxAttempts = 0, cp_RestartBackoffSeconds = 0, cp_RestartStableWindowSeconds = 0\<rparr>"

text \<open>The create of execution \<open>e\<close> is enqueued; the answer is recorded and nothing more is done.\<close>

definition recreate_as :: "codec \<Rightarrow> MachineRow \<Rightarrow> string \<Rightarrow> int \<Rightarrow> string \<Rightarrow> 'r prog \<Rightarrow> 'r prog" where
  "recreate_as c m e gen opID p = getDeployment (m_DeploymentID m) (\<lambda>dep. projectForApp (m_AppID m) (\<lambda>pr.
     let params = recreate_params c m e gen opID (project_or_dev pr) (recreate_spec c m e dep) in
     exec (OnPlane (Create TxCommit False params)) (\<lambda>now db. fst (ensureAppAndEnqueueCreate TxCommit now False params (cd_plane db)))
       (\<lambda>r. case r of Inr (Inr _) \<Rightarrow> Tell (Recorded ''reconcile'' (m_ID m) opID) p | _ \<Rightarrow> p)))"

definition recreate_bump :: "codec \<Rightarrow> MachineRow \<Rightarrow> 'r prog \<Rightarrow> 'r prog" where
  "recreate_bump c m p = Fresh (\<lambda>u. recreate_as c m (''exec-'' @ u) (m_Generation m + 1) (''op-exec-'' @ u) p)"

text \<open>A machine with a writable local volume is not moved.\<close>

definition unless_attached :: "MachineRow \<Rightarrow> 'r prog \<Rightarrow> 'r prog \<Rightarrow> 'r prog" where
  "unless_attached m p q = query (\<lambda>db. MachineHasLocalRWAttachment (m_ID m) (cd_vols db))
     (\<lambda>r. if r = Inr False then q else Tell (Recorded ''reconcile'' (m_ID m) '''') p)"

text \<open>
  A retry uses the execution again; its operation carries the number of the attempt and a random suffix.
\<close>

definition recreate_retry :: "codec \<Rightarrow> MachineRow \<Rightarrow> 'r prog \<Rightarrow> 'r prog" where
  "recreate_retry c m p = query (\<lambda>db. FailedCreateAttempts (m_ID m) (pl_ops (cd_plane db))) (\<lambda>r.
     case r of
       Inl _ \<Rightarrow> p
     | Inr n \<Rightarrow> Fresh (\<lambda>u. recreate_as c m (m_CurrentExecutionID m) (m_Generation m)
         (''op-retry-'' @ m_CurrentExecutionID m @ ''-'' @ fmt_int (int n + 1) @ ''-'' @ take 8 u) p))"

text \<open>The execution whose lease has ended is replaced by a new one.\<close>

definition recreateMachine :: "codec \<Rightarrow> MachineRow \<Rightarrow> bool \<Rightarrow> 'r prog \<Rightarrow> 'r prog" where
  "recreateMachine c m bump p = unless_attached m p
     (if bump then recreate_bump c m p
      else if m_CurrentExecutionID m = '''' then unless_attached m p (recreate_bump c m p)
      else leaseForExecution (m_ID m) (m_CurrentExecutionID m) (\<lambda>l.
        case l of
          Inr x \<Rightarrow> if sl_State x \<in> {''EXPIRED'', ''REVOKED'', ''ACKED''} then Tell (Recorded ''restart'' (m_ID m) '''') (recreate_bump c m p) else recreate_retry c m p
        | Inl _ \<Rightarrow> recreate_retry c m p))"

section \<open>Pinned deletes\<close>

definition reap_params :: "codec \<Rightarrow> string \<Rightarrow> string \<Rightarrow> string \<Rightarrow> int \<Rightarrow> string \<Rightarrow> EnqueueOperationParams" where
  "reap_params c project mid e gen opID =
     \<lparr>eq_OperationID = opID, eq_ProjectID = project, eq_MachineID = mid, eq_ExecutionID = e, eq_Generation = gen, eq_Kind = ''reap'',
      eq_Request = co_putDelete c \<lparr>dq_MachineID = mid, dq_ExecutionID = e, dq_Generation = gen, dq_OperationID = opID\<rparr>,
      eq_DispatchNodeID = '''', eq_ResurrectFailed = True\<rparr>"

definition enqueueReap :: "EnqueueOperationParams \<Rightarrow> (Operation option \<Rightarrow> 'r prog) \<Rightarrow> 'r prog" where
  "enqueueReap q k = exec (OnPlane (OnOutbox (Enqueue TxCommit q))) (\<lambda>now db. fst (EnqueueReapDelete TxCommit now q (pl_ops (cd_plane db))))
     (\<lambda>r. k (case r of Inr (Inr x) \<Rightarrow> Some x | _ \<Rightarrow> None))"

text \<open>The node that holds the copy is written to the operation; the answer is ignored.\<close>

definition pin_reap :: "string \<Rightarrow> string \<Rightarrow> 'r prog \<Rightarrow> 'r prog" where
  "pin_reap opid node p = (if node = '''' then p else exec_ignored (dispatch_stmt opid node) p)"

text \<open>
  An operation that has ended although the copy is still there is enqueued once more, under a key of the minute; \<open>fail\<close> is
  what follows an error of the store.
\<close>

definition enqueue_pinned :: "codec \<Rightarrow> string \<Rightarrow> string \<Rightarrow> string \<Rightarrow> int \<Rightarrow> string \<Rightarrow> string \<Rightarrow> 'r prog \<Rightarrow> 'r prog \<Rightarrow> 'r prog" where
  "enqueue_pinned c project mid e gen opID node fail p = enqueueReap (reap_params c project mid e gen opID) (\<lambda>r.
     case r of
       None \<Rightarrow> fail
     | Some x \<Rightarrow>
         if open_status (op_Status x) then pin_reap (op_ID x) node (Tell (Recorded ''reconcile'' mid opID) p)
         else Clock (\<lambda>t. let again = opID @ ''-re'' @ co_minute c t in enqueueReap (reap_params c project mid e gen again) (\<lambda>r2.
           case r2 of None \<Rightarrow> fail | Some y \<Rightarrow> pin_reap (op_ID y) node (Tell (Recorded ''reconcile'' mid again) p))))"

definition orphan_generation :: "int \<Rightarrow> int \<Rightarrow> int" where
  "orphan_generation seen fallback = (if seen \<noteq> 0 then seen else if fallback \<noteq> 0 then fallback else 1)"

definition orphan_key :: "string \<Rightarrow> string \<Rightarrow> string \<Rightarrow> string" where
  "orphan_key mid e node = ''op-orphan-'' @ mid @ ''-'' @ e @ ''-'' @ node"

definition enqueueOrphanDelete :: "codec \<Rightarrow> string \<Rightarrow> PbMachine \<Rightarrow> string \<Rightarrow> int \<Rightarrow> 'r prog \<Rightarrow> 'r prog" where
  "enqueueOrphanDelete c project m node fallback p = enqueue_pinned c project (pm_MachineID m) (pm_ExecutionID m)
     (orphan_generation (pm_Generation m) fallback) (orphan_key (pm_MachineID m) (pm_ExecutionID m) node) node p p"

definition enqueueDelete :: "codec \<Rightarrow> string \<Rightarrow> string \<Rightarrow> int \<Rightarrow> string \<Rightarrow> string \<Rightarrow> 'r prog \<Rightarrow> 'r prog" where
  "enqueueDelete c mid e gen opID node p = getMachine mid (\<lambda>r.
     case r of
       Inr (Some pg) \<Rightarrow> projectForApp (m_AppID pg) (\<lambda>pr. enqueue_pinned c (project_or_dev pr) mid e gen opID node p p)
     | _ \<Rightarrow> enqueue_pinned c ''dev'' mid e gen opID node p p)"

end
