(* ===== verification/Dispatch.thy ===== *)
theory Dispatch
  imports Repair
begin

text \<open>
  The dispatch of operations (\<open>controller/operations.go\<close>, \<open>controller/volumes.go\<close> and the classification of errors in
  \<open>controller/controller.go\<close>): every handler of a claimed operation as a program of effects, in the order of the source. The
  result of a handler is its error, if any; an operation whose handler returns an error is requeued. Metrics and log lines are left out, and of an error
  only its own text is kept, not the text of the error it wraps. The handlers of snapshots, forks, rescues and image prewarming are an argument.
\<close>

section \<open>Configuration and classification of errors\<close>

record dconfig =
  dc_Secrets :: bool
  dc_Traffic :: bool
  dc_MaxPlacementAttempts :: nat
  dc_FabricMesh :: bool
  dc_CellPrefix :: string

definition isPermanentAgentError :: "rpc_code \<Rightarrow> bool" where
  "isPermanentAgentError r \<longleftrightarrow> r \<in> {InvalidArgument, AlreadyExists, FailedPrecondition, PermissionDenied, Unauthenticated, NotFoundC}"

definition deleteErrorConverges :: "rpc_code \<Rightarrow> MachineRow option \<Rightarrow> string \<Rightarrow> bool" where
  "deleteErrorConverges r m e \<longleftrightarrow> r = FailedPrecondition \<and>
     (case m of None \<Rightarrow> True | Some x \<Rightarrow> m_CurrentExecutionID x \<noteq> '''' \<and> m_CurrentExecutionID x \<noteq> e)"

text \<open>An operation ends with a status; an error of the statement is ignored by \<open>end_with\<close> and returned by \<open>settle\<close>.\<close>

definition end_with :: "Operation \<Rightarrow> string \<Rightarrow> string \<Rightarrow> 'r prog \<Rightarrow> 'r prog" where
  "end_with x status err p = exec_ignored (complete (op_ID x) status None err) p"

definition settle :: "Operation \<Rightarrow> json \<Rightarrow> string option prog" where
  "settle x res = exec_err (complete (op_ID x) ''SUCCEEDED'' res '''') Ret"

definition give_up :: "Operation \<Rightarrow> string \<Rightarrow> string \<Rightarrow> string option prog" where
  "give_up x status err = end_with x status err (Ret None)"

definition reject :: "Operation \<Rightarrow> string \<Rightarrow> string option prog" where
  "reject x err = end_with x ''FAILED'' err (Ret (Some err))"

section \<open>Pause and resume\<close>

definition lifecycle_target :: "string \<Rightarrow> string \<Rightarrow> string" where
  "lifecycle_target kind state =
     (if state \<in> {''PAUSED'', ''RESUMING''} then ''PAUSED''
      else if state = ''RUNNING'' then ''RUNNING''
      else if kind = ''resume'' then ''RUNNING'' else ''PAUSED'')"

definition reply_machine :: "reply \<Rightarrow> PbMachine" where
  "reply_machine r = (case r of MachineReply m \<Rightarrow> m | _ \<Rightarrow>
     \<lparr>pm_MachineID = '''', pm_ExecutionID = '''', pm_Generation = 0, pm_ProjectID = '''', pm_State = ''MACHINE_STATE_UNSPECIFIED'', pm_SlotIp = '''',
      pm_Readiness = '''', pm_SecretDelivery = '''', pm_ExitCode = None\<rparr>)"

text \<open>The result is written for exactly the execution and generation of the operation; a result for another one is dropped.\<close>

definition lifecycle_settle :: "codec \<Rightarrow> Operation \<Rightarrow> MachineRow \<Rightarrow> reply \<Rightarrow> string option prog" where
  "lifecycle_settle c x m r =
     (let want = lifecycle_target (op_Kind x) (pm_State (reply_machine r)) in
      exec (OnPlane (ReportFenced (op_MachineID x) (m_NodeID m) (op_ExecutionID x) (op_Generation x) want (mr_ObservedSlotIP m) (m_ObservedReadiness m)))
        (\<lambda>now db. fst (UpdateMachineObservedWithFenceCAS now (op_MachineID x) (m_NodeID m) (op_ExecutionID x) (op_Generation x) want
           (mr_ObservedSlotIP m) (m_ObservedReadiness m) (pl_machines (cd_plane db))))
        (\<lambda>ok. case ok of
           Inl e \<Rightarrow> Ret (Some e)
         | Inr False \<Rightarrow> give_up x ''SUPERSEDED'' ''machine fence drifted during dispatch; result discarded''
         | Inr True \<Rightarrow> settle x (co_putMachine c r)))"

definition lifecycle_rpc :: "Operation \<Rightarrow> rpc" where
  "lifecycle_rpc x =
     (if op_Kind x = ''pause'' then PauseRpc (op_MachineID x) (op_ExecutionID x) (op_Generation x) (op_ID x)
      else ResumeRpc (op_MachineID x) (op_ExecutionID x) (op_Generation x) (op_ID x))"

definition processLifecycle :: "codec \<Rightarrow> Operation \<Rightarrow> string option prog" where
  "processLifecycle c x =
     (case co_lifecycle c (op_Request x) of
        Inl e \<Rightarrow> reject x e
      | Inr _ \<Rightarrow> getMachine (op_MachineID x) (\<lambda>r.
          case r of
            Inl e \<Rightarrow> Ret (Some e)
          | Inr None \<Rightarrow> give_up x ''FAILED'' ''machine gone''
          | Inr (Some m) \<Rightarrow>
              if m_CurrentExecutionID m \<noteq> op_ExecutionID x \<or> m_Generation m \<noteq> op_Generation x
              then give_up x ''SUPERSEDED'' ''machine fence moved past this operation (no dispatch)''
              else Client (m_NodeID m) (\<lambda>ok.
                if \<not> ok then Ret (Some (''no agent client for machine '' @ op_MachineID x))
                else Rpc (m_NodeID m) (lifecycle_rpc x) (\<lambda>a.
                  case a of
                    Inl (code, e) \<Rightarrow>
                      if code = FailedPrecondition \<and> op_Kind x = ''resume''
                      then recreateMachine c m True (give_up x ''FAILED'' ''snapshot restore failed; cold-start scheduled'')
                      else Ret (Some e)
                  | Inr rep \<Rightarrow> lifecycle_settle c x m rep))))"

section \<open>Overlay addresses\<close>

definition fabricTrustDomain :: string where "fabricTrustDomain = ''firepaas.local''"
definition fabricDefaultService :: string where "fabricDefaultService = ''default''"

definition fabricServiceName :: "DeploymentSpec option \<Rightarrow> string" where
  "fabricServiceName dep =
     (case dep of None \<Rightarrow> fabricDefaultService | Some d \<Rightarrow> (case dp_Services d of [] \<Rightarrow> fabricDefaultService | s # _ \<Rightarrow> sv_Name s))"

definition ValidatePrefix :: "string \<Rightarrow> nat \<Rightarrow> Prefix option" where
  "ValidatePrefix raw bits =
     (case ParsePrefix (TrimSpace raw) of None \<Rightarrow> None | Some p \<Rightarrow> (case CanonicalizePrefix p bits of Inl _ \<Rightarrow> None | Inr q \<Rightarrow> Some q))"

datatype fab_result = FabDone | FabPinned string | FabFailed string

definition allocate_addr :: "AllocationRequest \<Rightarrow> (fab_result \<Rightarrow> 'r prog) \<Rightarrow> 'r prog" where
  "allocate_addr q k = exec (AllocateAddr q) (\<lambda>now db. fst (AllocateULA TxCommit q (cd_ulas db))) (\<lambda>r.
     case r of
       Inl e \<Rightarrow> k (FabFailed e)
     | Inr (Inl (ErrFabricNodePinned node _)) \<Rightarrow> k (FabPinned node)
     | Inr (Inl _) \<Rightarrow> k (FabFailed ''allocate ULA'')
     | Inr (Inr _) \<Rightarrow> k FabDone)"

definition ensure_identity :: "string \<Rightarrow> string \<Rightarrow> string \<Rightarrow> (fab_result \<Rightarrow> 'r prog) \<Rightarrow> 'r prog \<Rightarrow> 'r prog" where
  "ensure_identity project app service k p =
     exec (EnsureIdentity fabricTrustDomain project app service) (\<lambda>now db. fst (EnsureWorkloadIdentity fabricTrustDomain project app service (cd_idents db)))
       (\<lambda>r. case r of Inr (Inr _) \<Rightarrow> p | _ \<Rightarrow> k (FabFailed ''ensure workload identity''))"

text \<open>A node that is not in the mesh gets no address; the identity comes before the address.\<close>

definition ensureFabricAllocation :: "dconfig \<Rightarrow> string \<Rightarrow> Operation \<Rightarrow> CreateReq \<Rightarrow> (fab_result \<Rightarrow> 'r prog) \<Rightarrow> 'r prog" where
  "ensureFabricAllocation cfg node x req k = query (\<lambda>db. List.find (\<lambda>p. wg_NodeID p = node) (ListWGPeers (cd_peers db))) (\<lambda>r.
     case r of
       Inl e \<Rightarrow> k (FabFailed e)
     | Inr None \<Rightarrow> k FabDone
     | Inr (Some peer) \<Rightarrow>
         (case ValidatePrefix (dc_CellPrefix cfg) 40 of
            None \<Rightarrow> k (FabFailed ''cell prefix'')
          | Some cell \<Rightarrow>
              let spec = cq_Spec req;
                  project = (if ms_ProjectID spec = '''' then op_ProjectID x else ms_ProjectID spec);
                  alloc = allocate_addr \<lparr>ar_Cell = cell, ar_Node = wg_NodePrefix peer, ar_ProjectID = project, ar_NodeID = node, ar_MachineID = op_MachineID x,
                    ar_ExecutionID = op_ExecutionID x, ar_Generation = op_Generation x\<rparr> k in
              if ms_DeploymentID spec = '''' then ensure_identity project (ms_AppID spec) fabricDefaultService k alloc
              else getDeployment (ms_DeploymentID spec) (\<lambda>d.
                case d of
                  Inl e \<Rightarrow> k (FabFailed e)
                | Inr dep \<Rightarrow> ensure_identity project (ms_AppID spec) (fabricServiceName dep) k alloc)))"

section \<open>Secret leases of a create\<close>

definition secretLeaseConfirmsCreate :: "codec \<Rightarrow> SecretLease \<Rightarrow> Operation \<Rightarrow> int \<Rightarrow> bool" where
  "secretLeaseConfirmsCreate c l x now \<longleftrightarrow> sl_ProjectID l = op_ProjectID x \<and> sl_MachineID l = op_MachineID x \<and> sl_ExecutionID l = op_ExecutionID x \<and>
     sl_Generation l = op_Generation x \<and> sl_OperationID l = op_ID x \<and> sl_RequestHash l = co_hash c (op_Request x) \<and> now < sl_ExpiresAt l \<and>
     (sl_State l = ''DELIVERED'' \<or> sl_State l = ''ACKED'')"

definition cleanup_id :: "Operation \<Rightarrow> string" where
  "cleanup_id x = ''op-secret-cleanup-'' @ op_ID x"

definition cleanup_request :: "Operation \<Rightarrow> DeleteReq" where
  "cleanup_request x = \<lparr>dq_MachineID = op_MachineID x, dq_ExecutionID = op_ExecutionID x, dq_Generation = op_Generation x, dq_OperationID = cleanup_id x\<rparr>"

text \<open>The cleanup goes to the node that the first dispatch recorded.\<close>

definition cleanup_target :: "Operation \<Rightarrow> string \<Rightarrow> Operation" where
  "cleanup_target x node = (if op_DispatchNodeID x \<noteq> '''' then x else x\<lparr>op_DispatchNodeID := node\<rparr>)"

definition cleanupUncertainSecretCreate :: "codec \<Rightarrow> Operation \<Rightarrow> SecretLease \<Rightarrow> string \<Rightarrow> string \<Rightarrow> string option prog" where
  "cleanupUncertainSecretCreate c x l node cause =
     (let y = cleanup_target x node; raw = co_putDelete c (cleanup_request x) in
      exec (UncertainCreate y l (cleanup_id x) raw cause)
        (\<lambda>now db. fst (MarkSecretCreateUncertainAndEnqueueCleanup TxCommit now y l (cleanup_id x) raw cause (cd_leases db, pl_ops (cd_plane db))))
        (\<lambda>r. case r of
           Inr (Inr _) \<Rightarrow> Tell (Released (op_ID x)) (Tell (Recorded ''reconcile'' (op_MachineID x) (cleanup_id x)) (Ret None))
         | _ \<Rightarrow> Ret (Some ''persist uncertain secret create cleanup'')))"

definition lease_binding :: "codec \<Rightarrow> Operation \<Rightarrow> LeaseBinding" where
  "lease_binding c x = \<lparr>lb_ProjectID = op_ProjectID x, lb_MachineID = op_MachineID x, lb_ExecutionID = op_ExecutionID x, lb_Generation = op_Generation x,
     lb_OperationID = op_ID x, lb_RequestHash = co_hash c (op_Request x)\<rparr>"

text \<open>The lease of the execution is looked up, or inserted and, if that fails, looked up again.\<close>

definition ensureLease :: "LeaseBinding \<Rightarrow> (lease_err + SecretLease \<Rightarrow> 'r prog) \<Rightarrow> 'r prog" where
  "ensureLease b k = query (\<lambda>db. SecretLeaseForExecution (lb_MachineID b) (lb_ExecutionID b) (cd_leases db)) (\<lambda>r.
     case r of
       Inl _ \<Rightarrow> k (Inl LeaseDBFailed)
     | Inr (Inr l) \<Rightarrow> k (reuse_lease b l)
     | Inr (Inl _) \<Rightarrow> Fresh (\<lambda>u.
         exec (IssueLease u 0 b) (\<lambda>now db. map_sum id (\<lambda>_. new_lease now u 0 b) (insert_lease (new_lease now u 0 b) (cd_leases db))) (\<lambda>i.
           case i of
             Inr (Inr l) \<Rightarrow> k (Inr l)
           | _ \<Rightarrow> leaseForExecution (lb_MachineID b) (lb_ExecutionID b) (\<lambda>l. case l of Inr x \<Rightarrow> k (reuse_lease b x) | Inl _ \<Rightarrow> k (Inl LeaseDBFailed)))))"

text \<open>The claim: the checks on the lease in hand, then the statement.\<close>

definition claimLease :: "SecretLease \<Rightarrow> (lease_err option \<Rightarrow> 'r prog) \<Rightarrow> 'r prog" where
  "claimLease l k = Clock (\<lambda>t.
     case claim_refused t l of
       Some e \<Rightarrow> k (Some e)
     | None \<Rightarrow> exec (ClaimLease l) (\<lambda>now db. fst (transitionSecretLease now l ''CLAIMED'' [''ISSUED''] (cd_leases db))) (\<lambda>r.
         k (case r of Inl _ \<Rightarrow> Some LeaseDBFailed | Inr (Inl e) \<Rightarrow> Some e | Inr (Inr _) \<Rightarrow> None)))"

definition mark_lease :: "cstmt \<Rightarrow> (int \<Rightarrow> leases \<Rightarrow> lease_err + unit) \<Rightarrow> string \<Rightarrow> string option prog \<Rightarrow> string option prog" where
  "mark_lease s f err p = exec s (\<lambda>now db. f now (cd_leases db)) (\<lambda>r. case r of Inr (Inr _) \<Rightarrow> p | _ \<Rightarrow> Ret (Some err))"

section \<open>Create\<close>

definition created_event :: "Operation \<Rightarrow> 'r prog \<Rightarrow> 'r prog" where
  "created_event x p = Tell (UserEvent (op_MachineID x) ''machine.created'') p"

text \<open>The agent has created the machine: the lease, the machine's row and the operation follow.\<close>

definition record_created :: "codec \<Rightarrow> Operation \<Rightarrow> CreateReq \<Rightarrow> string \<Rightarrow> reply \<Rightarrow> string option prog" where
  "record_created c x req node rep =
     (let m = reply_machine rep in
      exec_err (OnPlane (ReportNode (pm_MachineID m) node (pm_ExecutionID m) (pm_State m) (pm_SlotIp m) (pm_Readiness m))) (\<lambda>e.
        case e of
          Some err \<Rightarrow> Ret (Some err)
        | None \<Rightarrow> created_event x (Tell (PlacementSucceeded (ms_AppID (cq_Spec req))) (settle x (co_putMachine c rep)))))"

definition create_replied :: "codec \<Rightarrow> Operation \<Rightarrow> CreateReq \<Rightarrow> SecretLease option \<Rightarrow> string \<Rightarrow> reply \<Rightarrow> string option prog" where
  "create_replied c x req lease node rep = Tell (Committed (op_ID x))
     (case lease of
        None \<Rightarrow> record_created c x req node rep
      | Some l \<Rightarrow>
          (let state = pm_SecretDelivery (reply_machine rep) in
           if state = ''SECRET_DELIVERY_DELIVERED''
           then mark_lease (DeliverLease l) (\<lambda>now ls. fst (MarkSecretLeaseDelivered now l ls)) ''mark secret lease delivered'' (record_created c x req node rep)
           else if state = ''SECRET_DELIVERY_ACKED''
           then mark_lease (AckLease l) (\<lambda>now ls. fst (MarkSecretLeaseAcked now l ls)) ''mark secret lease acked'' (record_created c x req node rep)
           else cleanupUncertainSecretCreate c x l node ''agent did not confirm secret delivery''))"

text \<open>
  The agent has answered with an error. With a lease nothing is sent again; \<open>retry\<close> is the next attempt, on another node.
\<close>

definition create_refused :: "codec \<Rightarrow> Operation \<Rightarrow> SecretLease option \<Rightarrow> string \<Rightarrow> rpc_code \<Rightarrow> string \<Rightarrow> string option prog \<Rightarrow> string option prog" where
  "create_refused c x lease node status err retry = Tell (Released (op_ID x))
     (case lease of
        Some l \<Rightarrow> cleanupUncertainSecretCreate c x l node ''secret create result uncertain''
      | None \<Rightarrow>
          if status = ResourceExhausted then Tell (Recorded ''reservation'' (op_MachineID x) (op_ID x)) retry
          else if isPermanentAgentError status then reject x err
          else Ret (Some err))"

definition send_create :: "codec \<Rightarrow> Operation \<Rightarrow> CreateReq \<Rightarrow> SecretLease option \<Rightarrow> Choice \<Rightarrow> (string \<Rightarrow> string option prog) \<Rightarrow> string option prog" where
  "send_create c x req lease ch retry = Rpc (ch_NomadID ch) (CreateRpc req) (\<lambda>a.
     case a of
       Inl (status, err) \<Rightarrow> create_refused c x lease (ch_NodeID ch) status err (retry err)
     | Inr rep \<Rightarrow> create_replied c x req lease (ch_NodeID ch) rep)"

definition claim_and_send :: "codec \<Rightarrow> Operation \<Rightarrow> CreateReq \<Rightarrow> SecretLease option \<Rightarrow> Choice \<Rightarrow> (string \<Rightarrow> string option prog) \<Rightarrow> string option prog" where
  "claim_and_send c x req lease ch retry =
     (case lease of
        None \<Rightarrow> send_create c x req lease ch retry
      | Some l \<Rightarrow> claimLease l (\<lambda>e.
          case e of
            None \<Rightarrow> send_create c x req lease ch retry
          | Some ErrSecretLeaseTerminal \<Rightarrow>
              cleanupUncertainSecretCreate c x l (ch_NodeID ch) ''secret create dispatch was already claimed; refusing redispatch''
          | Some _ \<Rightarrow> Ret (Some ''claim secret lease'')))"

text \<open>No node could be chosen.\<close>

definition not_placed :: "Operation \<Rightarrow> CreateReq \<Rightarrow> place_err \<Rightarrow> string option prog" where
  "not_placed x req e =
     (let app = ms_AppID (cq_Spec req) in
      case e of
        QuotaErr err \<Rightarrow> Tell (UserEvent (op_MachineID x) ''quota.rejected'') (Tell (QuotaRejected app) (reject x err))
      | NoCandidatesErr err \<Rightarrow> Tell (PlacementFailed app) (Tell (ScaleUpSignal (op_ID x)) (Ret (Some err)))
      | PlaceErr err \<Rightarrow> Tell (PlacementFailed app) (Ret (Some err)))"

definition last_error :: "string option \<Rightarrow> string" where
  "last_error e = (case e of None \<Rightarrow> ''placement attempts exhausted'' | Some x \<Rightarrow> x)"

text \<open>The attempts that are left, the nodes excluded so far and the last error.\<close>

primrec create_attempts :: "nat \<Rightarrow> dconfig \<Rightarrow> codec \<Rightarrow> Operation \<Rightarrow> CreateReq \<Rightarrow> SecretLease option \<Rightarrow> string list \<Rightarrow> string option \<Rightarrow> string option prog" where
  "create_attempts 0 cfg c x req lease excluded err = Ret (Some (last_error err))"
| "create_attempts (Suc n) cfg c x req lease excluded err = Place (op_ID x) excluded (\<lambda>r.
     case r of
       Inl e \<Rightarrow> not_placed x req e
     | Inr ch \<Rightarrow> Client (ch_NomadID ch) (\<lambda>ok.
         if \<not> ok then Tell (Recorded ''reservation'' (op_MachineID x) (op_ID x)) (Tell (Released (op_ID x))
           (create_attempts n cfg c x req lease (ch_NodeID ch # excluded) (Some (''no agent client for node '' @ ch_NomadID ch))))
         else
           let send = claim_and_send c x req lease ch (\<lambda>e. create_attempts n cfg c x req lease (ch_NodeID ch # excluded) (Some e)) in
           if dc_FabricMesh cfg then ensureFabricAllocation cfg (ch_NodeID ch) x req (\<lambda>f.
             case f of
               FabDone \<Rightarrow> send
             | FabPinned node \<Rightarrow>
                 if node \<notin> set excluded
                 then Tell (Released (op_ID x)) (Tell (Recorded ''reservation'' (op_MachineID x) (op_ID x))
                   (create_attempts n cfg c x req lease (ch_NodeID ch # excluded) err))
                 else Tell (Released (op_ID x)) (Ret (Some ''fabric allocation''))
             | FabFailed e \<Rightarrow> Tell (Released (op_ID x)) (Ret (Some ''fabric allocation'')))
           else send))"

text \<open>The node and the placement come last; before them the secrets are resolved and bound to a lease.\<close>

definition with_secrets :: "(string, string) gomap \<Rightarrow> CreateReq \<Rightarrow> CreateReq" where
  "with_secrets env req = req\<lparr>cq_SecretEnv := fold (\<lambda>(k, v). AList.update k v) env (cq_SecretEnv req)\<rparr>"

definition with_credential :: "dconfig \<Rightarrow> codec \<Rightarrow> CreateReq \<Rightarrow> CreateReq" where
  "with_credential cfg c req = (if dc_Traffic cfg then req\<lparr>cq_ProxyCredential := co_token c (cq_MachineID req) (ms_ExecutionID (cq_Spec req))\<rparr> else req)"

definition create_leased :: "dconfig \<Rightarrow> codec \<Rightarrow> Operation \<Rightarrow> CreateReq \<Rightarrow> string option prog" where
  "create_leased cfg c x req =
     (let go = (\<lambda>lease r. create_attempts (dc_MaxPlacementAttempts cfg) cfg c x (with_credential cfg c r) lease [] None) in
      if cq_SecretEnv req = [] then go None req
      else ensureLease (lease_binding c x) (\<lambda>l.
        case l of
          Inl _ \<Rightarrow> reject x ''secret lease''
        | Inr lease \<Rightarrow> go (Some lease) (req\<lparr>cq_SecretLeaseID := sl_ID lease\<rparr>)))"

definition create_dispatch :: "dconfig \<Rightarrow> codec \<Rightarrow> Operation \<Rightarrow> CreateReq \<Rightarrow> string option prog" where
  "create_dispatch cfg c x req =
     (if dc_Secrets cfg \<and> ms_DeploymentID (cq_Spec req) \<noteq> ''''
      then Resolve (op_ProjectID x) (ms_DeploymentID (cq_Spec req)) (\<lambda>r.
        case r of Inl e \<Rightarrow> reject x (''resolve secret refs: '' @ e) | Inr env \<Rightarrow> create_leased cfg c x (with_secrets env req))
      else create_leased cfg c x req)"

text \<open>
  The execution is already running: the answer of an earlier dispatch was lost. A create with secrets counts as done only when its own lease
  proves the delivery.
\<close>

definition recovered :: "Operation \<Rightarrow> bool \<Rightarrow> string option prog" where
  "recovered x acked = Tell (Released (op_ID x)) (created_event x
     (if acked then Tell (UserEvent (op_MachineID x) ''secret.delivered'') (settle x None) else settle x None))"

definition recover_create :: "codec \<Rightarrow> Operation \<Rightarrow> MachineRow \<Rightarrow> bool \<Rightarrow> string option prog" where
  "recover_create c x m secret =
     (if \<not> secret then recovered x False
      else leaseForExecution (op_MachineID x) (op_ExecutionID x) (\<lambda>r.
        case r of
          Inl _ \<Rightarrow> Ret (Some ''load secret lease for running execution'')
        | Inr l \<Rightarrow> Clock (\<lambda>t.
            if secretLeaseConfirmsCreate c l x t then recovered x (sl_State l = ''ACKED'')
            else cleanupUncertainSecretCreate c x l (if m_NodeID m = '''' then op_DispatchNodeID x else m_NodeID m)
              ''running execution has unconfirmed secret delivery'')))"

definition create_or_recover :: "dconfig \<Rightarrow> codec \<Rightarrow> Operation \<Rightarrow> CreateReq \<Rightarrow> string option prog" where
  "create_or_recover cfg c x req = getMachine (op_MachineID x) (\<lambda>r.
     case r of
       Inr (Some m) \<Rightarrow>
         if m_CurrentExecutionID m = op_ExecutionID x \<and> m_ObservedState m = ''RUNNING''
         then
           (if ms_DeploymentID (cq_Spec req) = '''' then recover_create c x m False
            else getDeployment (ms_DeploymentID (cq_Spec req)) (\<lambda>d.
              case d of
                Inr (Some dep) \<Rightarrow> recover_create c x m (ds_SecretRefs dep \<noteq> [])
              | _ \<Rightarrow> Ret (Some ''load deployment for create recovery'')))
         else create_dispatch cfg c x req
     | _ \<Rightarrow> create_dispatch cfg c x req)"

definition DeploymentSecretRefs :: "string \<Rightarrow> cdb \<Rightarrow> (string, string \<times> int option) gomap" where
  "DeploymentSecretRefs dep db = (case List.find (\<lambda>d. dp_ID d = dep) (cd_deps db) of None \<Rightarrow> [] | Some d \<Rightarrow> ds_SecretRefs d)"

text \<open>Without a master key a deployment with secrets is refused before anything is placed or sent.\<close>

definition create_failclosed :: "dconfig \<Rightarrow> codec \<Rightarrow> Operation \<Rightarrow> CreateReq \<Rightarrow> string option prog" where
  "create_failclosed cfg c x req =
     (if \<not> dc_Secrets cfg \<and> ms_DeploymentID (cq_Spec req) \<noteq> ''''
      then query (DeploymentSecretRefs (ms_DeploymentID (cq_Spec req))) (\<lambda>r.
        case r of
          Inl e \<Rightarrow> Ret (Some e)
        | Inr refs \<Rightarrow>
            if refs \<noteq> [] then Tell (UserEvent (op_MachineID x) ''secret.create_rejected'') (give_up x ''FAILED'' ''secrets master key is not configured'')
            else create_or_recover cfg c x req)
      else create_or_recover cfg c x req)"

definition processCreate :: "dconfig \<Rightarrow> codec \<Rightarrow> Operation \<Rightarrow> string option prog" where
  "processCreate cfg c x =
     (case co_create c (op_Request x) of
        Inl e \<Rightarrow> reject x e
      | Inr req \<Rightarrow> getMachine (op_MachineID x) (\<lambda>r.
          case r of
            Inl e \<Rightarrow> Ret (Some e)
          | Inr None \<Rightarrow> give_up x ''FAILED'' ''machine gone''
          | Inr (Some m) \<Rightarrow>
              if m_DesiredState m = ''DELETED'' then give_up x ''SUPERSEDED'' ''machine deleted; dropping stale create (no dispatch)''
              else create_failclosed cfg c x req))"

section \<open>The sweep of overlay addresses\<close>

definition live_key :: "string \<Rightarrow> string \<Rightarrow> string" where
  "live_key mid e = mid @ [CHR 0x00] @ e"

definition live_keys :: "Operation list \<Rightarrow> string list" where
  "live_keys ops = map (\<lambda>x. live_key (op_MachineID x) (op_ExecutionID x)) (filter (\<lambda>x. op_MachineID x \<noteq> '''' \<and> op_ExecutionID x \<noteq> '''') ops)"

text \<open>The machine is gone or deleted, or it runs another execution.\<close>

definition address_dead :: "MachineRow option \<Rightarrow> string \<Rightarrow> bool" where
  "address_dead m e =
     (case m of
        None \<Rightarrow> True
      | Some r \<Rightarrow> m_DesiredState r = ''DELETED'' \<or> (m_CurrentExecutionID r \<noteq> e \<and> m_DesiredState r = ''CREATED''))"

primrec sweep_rows :: "string list \<Rightarrow> ULAAllocation list \<Rightarrow> string option prog" where
  "sweep_rows live [] = Ret None"
| "sweep_rows live (r # rs) =
     (if live_key (ua_MachineID r) (ua_ExecutionID r) \<in> set live then sweep_rows live rs
      else getMachine (ua_MachineID r) (\<lambda>m.
        case m of
          Inl e \<Rightarrow> Ret (Some e)
        | Inr y \<Rightarrow> if address_dead y (ua_ExecutionID r) then exec_ignored (ReleaseAddr (ua_MachineID r) (ua_ExecutionID r)) (sweep_rows live rs) else sweep_rows live rs))"

definition sweepFabricULA :: "string option prog" where
  "sweepFabricULA = query (\<lambda>db. ListActiveULAs '''' '''' (cd_ulas db)) (\<lambda>r.
     case r of
       Inl e \<Rightarrow> Ret (Some e)
     | Inr rows \<Rightarrow> if rows = [] then Ret None else query (\<lambda>db. ListInFlightOperations (pl_ops (cd_plane db))) (\<lambda>q.
         case q of Inl e \<Rightarrow> Ret (Some e) | Inr ops \<Rightarrow> sweep_rows (live_keys ops) rows))"

section \<open>Delete and reap\<close>

definition delete_released :: "Operation \<Rightarrow> DeleteReq \<Rightarrow> string option prog" where
  "delete_released x del = exec_err (ReleaseAttachments (dq_MachineID del) (dq_ExecutionID del)) (\<lambda>e.
     case e of
       Some err \<Rightarrow> Ret (Some err)
     | None \<Rightarrow> exec_ignored (ReleaseAddr (dq_MachineID del) (dq_ExecutionID del)) (settle x (Some ''{}'')))"

text \<open>
  The copy is gone, or counts as gone; \<open>mismatch\<close>: only the addressed node is known not to have it.
\<close>

definition delete_converged :: "Operation \<Rightarrow> bool \<Rightarrow> DeleteReq \<Rightarrow> MachineRow option \<Rightarrow> bool \<Rightarrow> string option prog" where
  "delete_converged x markDeleted del m mismatch =
     (let rest = (if mismatch then settle x (Some ''{}'') else delete_released x del) in
      case m of
        None \<Rightarrow> rest
      | Some r \<Rightarrow>
          if markDeleted \<and> dq_ExecutionID del = m_CurrentExecutionID r \<and> m_DesiredState r \<noteq> ''DELETED''
          then exec_err (OnPlane (Deleted (dq_MachineID del))) (\<lambda>e. case e of Some err \<Rightarrow> Ret (Some err) | None \<Rightarrow> rest)
          else rest)"

definition delete_unreachable :: "Operation \<Rightarrow> bool \<Rightarrow> DeleteReq \<Rightarrow> MachineRow option \<Rightarrow> string option prog" where
  "delete_unreachable x markDeleted del m =
     (let converged = Tell (Recorded ''reconcile'' (dq_MachineID del) (op_ID x)) (delete_converged x markDeleted del m False) in
      leaseForExecution (dq_MachineID del) (dq_ExecutionID del) (\<lambda>r.
        case r of
          Inr l \<Rightarrow>
            if sl_State l = ''UNCERTAIN'' then query (\<lambda>db. SecretCleanupDischarged (sl_OperationID l) (pl_ops (cd_plane db))) (\<lambda>d.
              case d of
                Inl e \<Rightarrow> Ret (Some e)
              | Inr True \<Rightarrow> converged
              | Inr False \<Rightarrow> query (\<lambda>db. CreateDispatchedToAgent (dq_MachineID del) (dq_ExecutionID del) (pl_ops (cd_plane db))) (\<lambda>s.
                  case s of
                    Inl e \<Rightarrow> Ret (Some e)
                  | Inr True \<Rightarrow> Ret (Some ''secret cleanup waiting for node'')
                  | Inr False \<Rightarrow> converged))
            else converged
        | Inl _ \<Rightarrow> converged))"

definition delete_refused :: "Operation \<Rightarrow> bool \<Rightarrow> DeleteReq \<Rightarrow> MachineRow option \<Rightarrow> rpc_code \<Rightarrow> string \<Rightarrow> string option prog" where
  "delete_refused x markDeleted del m status err =
     (if deleteErrorConverges status m (op_ExecutionID x)
      then Tell (Recorded ''reconcile'' (dq_MachineID del) (op_ID x))
        (delete_converged x markDeleted del m (case m of None \<Rightarrow> False | Some r \<Rightarrow> m_DesiredState r \<noteq> ''DELETED''))
      else if status = NotFoundC then delete_converged x markDeleted del m False
      else if isPermanentAgentError status then reject x err
      else Ret (Some err))"

definition delete_at :: "Operation \<Rightarrow> bool \<Rightarrow> DeleteReq \<Rightarrow> MachineRow option \<Rightarrow> string option \<Rightarrow> string option prog" where
  "delete_at x markDeleted del m client =
     (case client of
        None \<Rightarrow> delete_unreachable x markDeleted del m
      | Some nomad \<Rightarrow> Rpc nomad (DeleteRpc del) (\<lambda>a.
          case a of Inl (status, err) \<Rightarrow> delete_refused x markDeleted del m status err | Inr _ \<Rightarrow> delete_converged x markDeleted del m False))"

definition processDelete :: "codec \<Rightarrow> bool \<Rightarrow> Operation \<Rightarrow> string option prog" where
  "processDelete c markDeleted x =
     (case co_delete c (op_Request x) of
        Inl e \<Rightarrow> reject x e
      | Inr del \<Rightarrow> getMachine (dq_MachineID del) (\<lambda>r.
          let m = (case r of Inl _ \<Rightarrow> None | Inr y \<Rightarrow> y);
              node = (if op_DispatchNodeID x \<noteq> '''' then op_DispatchNodeID x else case m of None \<Rightarrow> '''' | Some y \<Rightarrow> m_NodeID y) in
          if node = '''' then delete_at x markDeleted del m None else clientForNodeID node (delete_at x markDeleted del m)))"

section \<open>Volumes\<close>

text \<open>The request is decoded; without a connection the operation waits.\<close>

definition volume_client :: "codec \<Rightarrow> Operation \<Rightarrow> (VolumeReq \<Rightarrow> string \<Rightarrow> string option prog) \<Rightarrow> string option prog" where
  "volume_client c x k =
     (case co_volume c (op_Request x) of
        Inl e \<Rightarrow> reject x e
      | Inr req \<Rightarrow> clientForNodeID (op_DispatchNodeID x) (\<lambda>n.
          case n of None \<Rightarrow> Ret (Some (''no agent client for node '' @ op_DispatchNodeID x)) | Some nomad \<Rightarrow> k req nomad))"

definition volume_stmt :: "Operation \<Rightarrow> cstmt \<Rightarrow> (cdb \<Rightarrow> volume_err + unit) \<Rightarrow> string option prog \<Rightarrow> string option prog" where
  "volume_stmt x s f p = exec s (\<lambda>_ db. f db) (\<lambda>r. case r of Inr (Inr _) \<Rightarrow> p | Inl e \<Rightarrow> Ret (Some e) | Inr (Inl _) \<Rightarrow> Ret (Some ''volume state conflict''))"

definition size_mib :: "int \<Rightarrow> int" where "size_mib b = (b + 1048575) div 1048576"

text \<open>The disk is reserved for the time of the call; \<open>released\<close> stands for the deferred release.\<close>

definition released :: "Operation \<Rightarrow> string option prog \<Rightarrow> string option prog" where
  "released x p = bindp p (\<lambda>r. Tell (Released (op_ID x)) (Ret r))"

definition processVolumeCreate :: "codec \<Rightarrow> Operation \<Rightarrow> string option prog" where
  "processVolumeCreate c x =
     (case co_volume c (op_Request x) of
        Inl e \<Rightarrow> reject x e
      | Inr req \<Rightarrow>
          if op_DispatchNodeID x = '''' then reject x ''LOCAL_RW origin node is not fixed''
          else clientForNodeID (op_DispatchNodeID x) (\<lambda>n.
            case n of
              None \<Rightarrow> Ret (Some (''no agent client for node '' @ op_DispatchNodeID x))
            | Some nomad \<Rightarrow> Reserve (op_ID x) (op_DispatchNodeID x) (size_mib (vq_SizeBytes req)) (\<lambda>e.
                case e of
                  Some err \<Rightarrow> Ret (Some err)
                | None \<Rightarrow> released x (Rpc nomad (CreateVolumeRpc req) (\<lambda>a.
                    case a of
                      Inl (_, err) \<Rightarrow> Ret (Some err)
                    | Inr _ \<Rightarrow> Tell (Committed (op_ID x)) (volume_stmt x (ReadyVolume (vq_VolumeID req))
                        (\<lambda>db. fst (MarkVolumeReady (vq_VolumeID req) (vd_volumes (cd_vols db)))) (settle x (Some ''{}''))))))))"

text \<open>A failed decoding does not end the import; a rejection that a retry cannot change does.\<close>

definition processDatasetImport :: "codec \<Rightarrow> (string \<Rightarrow> bool) \<Rightarrow> Operation \<Rightarrow> string option prog" where
  "processDatasetImport c lacking x =
     (case co_volume c (op_Request x) of
        Inl e \<Rightarrow> Ret (Some e)
      | Inr req \<Rightarrow> clientForNodeID (op_DispatchNodeID x) (\<lambda>n.
          case n of
            None \<Rightarrow> Ret (Some (''no agent client for node '' @ op_DispatchNodeID x))
          | Some nomad \<Rightarrow>
              if lacking (op_DispatchNodeID x) then Ret (Some ''node lacks volume.dataset_ro.v1'')
              else Rpc nomad (ImportRpc req) (\<lambda>a.
                case a of
                  Inl (status, err) \<Rightarrow>
                    if status \<in> {InvalidArgument, FailedPrecondition, PermissionDenied}
                    then volume_stmt x (FailVolume (vq_VolumeID req)) (\<lambda>db. fst (FailDatasetImport (vq_VolumeID req) (vd_volumes (cd_vols db))))
                      (exec_err (complete (op_ID x) ''FAILED'' None err) Ret)
                    else Ret (Some err)
                | Inr (SealedReply rep) \<Rightarrow>
                    if \<not> sr_Sealed rep \<or> sr_ContentDigest rep \<noteq> vq_ExpectedDigest req then Ret (Some ''agent returned unsealed or mismatched dataset'')
                    else volume_stmt x (SealVolume (vq_VolumeID req) (sr_ContentDigest rep) (sr_SizeBytes rep))
                      (\<lambda>db. fst (SealDataset (vq_VolumeID req) (sr_ContentDigest rep) (sr_SizeBytes rep) (vd_volumes (cd_vols db)))) (settle x (Some ''{}''))
                | Inr _ \<Rightarrow> Ret (Some ''agent returned unsealed or mismatched dataset''))))"

definition processVolumeDelete :: "codec \<Rightarrow> Operation \<Rightarrow> string option prog" where
  "processVolumeDelete c x = volume_client c x (\<lambda>req nomad. Rpc nomad (DeleteVolumeRpc req (op_ID x)) (\<lambda>a.
     case a of
       Inl (status, err) \<Rightarrow>
         if status \<noteq> NotFoundC then Ret (Some err)
         else volume_stmt x (EndVolume (vq_VolumeID req)) (\<lambda>db. fst (TransitionVolume (vq_VolumeID req) ''DELETING'' ''DELETED'' (vd_volumes (cd_vols db)))) (settle x (Some ''{}''))
     | Inr _ \<Rightarrow> volume_stmt x (EndVolume (vq_VolumeID req)) (\<lambda>db. fst (TransitionVolume (vq_VolumeID req) ''DELETING'' ''DELETED'' (vd_volumes (cd_vols db)))) (settle x (Some ''{}''))))"

definition processVolumeAttach :: "codec \<Rightarrow> Operation \<Rightarrow> string option prog" where
  "processVolumeAttach c x = volume_client c x (\<lambda>req nomad. Rpc nomad (AttachRpc req) (\<lambda>a.
     case a of
       Inl (_, err) \<Rightarrow> Ret (Some err)
     | Inr _ \<Rightarrow> volume_stmt x (AttachedVolume (vq_VolumeID req) (vq_MachineID req) (vq_ExecutionID req))
         (\<lambda>db. fst (MarkVolumeAttachmentAttached (vq_VolumeID req) (vq_MachineID req) (vq_ExecutionID req) (vd_attachments (cd_vols db))))
         (Tell (UserEvent (vq_MachineID req) ''volume.attached'') (settle x (Some ''{}'')))))"

definition processVolumeDetach :: "codec \<Rightarrow> Operation \<Rightarrow> string option prog" where
  "processVolumeDetach c x = volume_client c x (\<lambda>req nomad. Rpc nomad (DetachRpc req) (\<lambda>a.
     case a of
       Inl (_, err) \<Rightarrow> Ret (Some err)
     | Inr _ \<Rightarrow> volume_stmt x (DetachedVolume (vq_VolumeID req) (vq_MachineID req) (vq_ExecutionID req))
         (\<lambda>db. fst (CompleteVolumeDetach (vq_VolumeID req) (vq_MachineID req) (vq_ExecutionID req) (vd_attachments (cd_vols db))))
         (settle x (Some ''{}''))))"

definition processVolume :: "codec \<Rightarrow> (string \<Rightarrow> bool) \<Rightarrow> Operation \<Rightarrow> string option prog" where
  "processVolume c lacking x =
     (if op_Kind x = ''volume_create'' then processVolumeCreate c x
      else if op_Kind x = ''dataset_import'' then processDatasetImport c lacking x
      else if op_Kind x = ''volume_delete'' then processVolumeDelete c x
      else if op_Kind x = ''volume_attach'' then processVolumeAttach c x
      else if op_Kind x = ''volume_detach'' then processVolumeDetach c x
      else Ret (Some ''unknown volume operation kind''))"

section \<open>Dispatch\<close>

text \<open>What is not modelled here: the features of a node, and the handlers of the other kinds.\<close>

record handlers =
  ha_LacksDataset :: "string \<Rightarrow> bool"
  ha_Snapshot :: "Operation \<Rightarrow> string option prog"
  ha_Fork :: "Operation \<Rightarrow> string option prog"
  ha_Rescue :: "Operation \<Rightarrow> string option prog"
  ha_Prewarm :: "Operation \<Rightarrow> string option prog"

definition volume_kinds :: "string list" where
  "volume_kinds = [''volume_create'', ''dataset_import'', ''volume_delete'', ''volume_attach'', ''volume_detach'']"

definition process_kind :: "dconfig \<Rightarrow> codec \<Rightarrow> handlers \<Rightarrow> Operation \<Rightarrow> string option prog" where
  "process_kind cfg c h x =
     (if op_Kind x = ''create'' then processCreate cfg c x
      else if op_Kind x = ''delete'' then processDelete c True x
      else if op_Kind x = ''reap'' then processDelete c False x
      else if op_Kind x = ''pause'' \<or> op_Kind x = ''resume'' then processLifecycle c x
      else if op_Kind x = ''snapshot_create'' \<or> op_Kind x = ''snapshot_delete'' then ha_Snapshot h x
      else if op_Kind x = ''fork'' then ha_Fork h x
      else if op_Kind x = ''rescue'' then ha_Rescue h x
      else if op_Kind x \<in> set volume_kinds then processVolume c (ha_LacksDataset h) x
      else if op_Kind x = ''image_prewarm'' then ha_Prewarm h x
      else reject x (''unknown operation kind '' @ op_Kind x))"

definition processOperation :: "dconfig \<Rightarrow> codec \<Rightarrow> handlers \<Rightarrow> Operation \<Rightarrow> string option prog" where
  "processOperation cfg c h x =
     (if op_Kind x = ''create''
      then getMachine (op_MachineID x) (\<lambda>r.
        case r of
          Inr (Some m) \<Rightarrow>
            if m_DesiredState m = ''DELETED'' then end_with x ''FAILED'' ''machine deleted; create cancelled'' (Tell (Released (op_ID x)) (Ret None))
            else process_kind cfg c h x
        | _ \<Rightarrow> process_kind cfg c h x)
      else process_kind cfg c h x)"

definition dispatchOne :: "dconfig \<Rightarrow> codec \<Rightarrow> handlers \<Rightarrow> Operation \<Rightarrow> unit prog" where
  "dispatchOne cfg c h x = bindp (processOperation cfg c h x) (\<lambda>r.
     case r of None \<Rightarrow> Ret () | Some e \<Rightarrow> exec_ignored (OnPlane (OnOutbox (Requeue (op_ID x) e))) (Ret ()))"

end
