(* ===== verification/SecretOnce.thy ===== *)
theory SecretOnce
  imports Dispatch
begin

text \<open>
  Secrets are sent once. A create that carries secrets is sent only by a program that has just claimed the lease of its
  execution, a lease is claimed once, and a program that has sent it cannot send it again: over any interleaving of
  dispatches, of other statements, of failures and of lost answers at most one such request leaves the controller for an execution.
\<close>

section \<open>The lease table under all statements\<close>

definition leases_ok :: "leases \<Rightarrow> bool" where
  "leases_ok ls \<longleftrightarrow> leases.table_ok ls \<and> distinct (map sl_ID ls)"

lemma ids_kept:
  assumes "leases.step ls ls'" "length ls' = length ls"
  shows "map sl_ID ls' = map sl_ID ls"
  using assms by (induction rule: leases.step.induct) (auto simp: lease_kept_def same_lease_def)

definition lease_step :: "leases \<Rightarrow> leases \<Rightarrow> bool" where
  "lease_step ls ls' \<longleftrightarrow> leases.step ls ls' \<and> (distinct (map sl_ID ls) \<longrightarrow> distinct (map sl_ID ls'))"

lemma lease_stepI: "\<lbrakk>leases.step ls ls'; length ls' = length ls\<rbrakk> \<Longrightarrow> lease_step ls ls'"
  using ids_kept by (auto simp: lease_step_def)

lemma lease_step_refl [simp]: "lease_step ls ls"
  by (auto simp: lease_step_def leases.step_refl)

lemma lease_step_ok: "\<lbrakk>lease_step ls ls'; leases_ok ls\<rbrakk> \<Longrightarrow> leases_ok ls'"
  by (auto simp: lease_step_def leases_ok_def intro: leases.step_ok)

lemma lease_step_used:
  assumes "lease_step ls ls'" "leases_ok ls" "l \<in> set ls" "sl_State l \<noteq> ''ISSUED''"
  shows "\<exists>l' \<in> set ls'. sl_ID l' = sl_ID l \<and> sl_State l' \<noteq> ''ISSUED''"
  using leases.step_row[of ls ls' l] assms by (auto simp: lease_step_def leases_ok_def lease_kept_def same_lease_def)

lemma insert_lease_lstep: "insert_lease l ls = Inr ls' \<Longrightarrow> lease_step ls ls'"
  using insert_lease_step[of l ls ls'] by (auto simp: lease_step_def insert_lease_def split: if_splits)

lemma transition_length: "length (snd (transitionSecretLease now l s states ls)) = length ls"
  by (simp add: transitionSecretLease_def)

lemma uncertain_length: "length (fst (snd (MarkSecretCreateUncertainAndEnqueueCleanup tx now r l cid req cause p))) = length (fst p)"
  by (auto simp: MarkSecretCreateUncertainAndEnqueueCleanup_def inTx_def split: prod.splits sum.splits tx_end.splits if_splits)

lemma cstmt_lease_step: "lease_step (cd_leases db) (cd_leases (cstmt_run now x db))"
proof (cases x)
  case (IssueLease rnd ttl b)
  then show ?thesis by (auto simp: cstmt_run_def on_leases_def split: sum.splits intro: insert_lease_lstep)
next
  case (ClaimLease l)
  then show ?thesis by (auto simp: cstmt_run_def on_leases_def transition_length intro!: lease_stepI transition_step)
next
  case (DeliverLease l)
  then show ?thesis using delivered_step[of "cd_leases db" now l]
    by (auto simp: cstmt_run_def on_leases_def MarkSecretLeaseDelivered_def transition_length intro!: lease_stepI)
next
  case (AckLease l)
  then show ?thesis using acked_step[of "cd_leases db" now l]
    by (auto simp: cstmt_run_def on_leases_def MarkSecretLeaseAcked_def transition_length intro!: lease_stepI)
next
  case (UncertainCreate r l cid req cause)
  let ?p = "(cd_leases db, pl_ops (cd_plane db))"
  have "lease_step (fst ?p) (fst (snd (MarkSecretCreateUncertainAndEnqueueCleanup TxCommit now r l cid req cause ?p)))"
    by (intro lease_stepI uncertain_step uncertain_length)
  then show ?thesis using UncertainCreate by (simp add: cstmt_run_def Let_def split_beta)
next
  case RevokeLeases
  then show ?thesis using revoke_step by (auto simp: cstmt_run_def on_leases_def revoke_leases_def intro!: lease_stepI)
next
  case ExpireLeases
  then show ?thesis using expire_step by (auto simp: cstmt_run_def on_leases_def expire_leases_def intro!: lease_stepI)
qed (simp_all add: cstmt_run_def on_volumes_def on_attachments_def)

section \<open>Programs that send secrets only under a claim\<close>

fun secret_id :: "rpc \<Rightarrow> string option" where
  "secret_id (CreateRpc q) = (if cq_SecretEnv q = [] then None else Some (cq_SecretLeaseID q))"
| "secret_id _ = None"

definition claims :: "int \<Rightarrow> SecretLease \<Rightarrow> cdb \<Rightarrow> bool" where
  "claims now l db \<longleftrightarrow> fst (transitionSecretLease now l ''CLAIMED'' [''ISSUED''] (cd_leases db)) = Inr ()"

text \<open>The argument is the lease that the program has claimed and not yet used.\<close>

primrec guarded :: "string option \<Rightarrow> 'r prog \<Rightarrow> bool" where
  "guarded h (Ret r) \<longleftrightarrow> True"
| "guarded h (Query k) \<longleftrightarrow> (\<forall>x. guarded h (k x))"
| "guarded h (Exec s k) \<longleftrightarrow>
     (case s of
        ClaimLease l \<Rightarrow> (\<forall>e. guarded None (k (Inl e))) \<and> (\<forall>now db. guarded (if claims now l db then Some (sl_ID l) else None) (k (Inr (now, db))))
      | _ \<Rightarrow> (\<forall>x. guarded h (k x)))"
| "guarded h (Rpc n q k) \<longleftrightarrow> (case secret_id q of None \<Rightarrow> (\<forall>x. guarded h (k x)) | Some i \<Rightarrow> h = Some i \<and> (\<forall>x. guarded None (k x)))"
| "guarded h (Clock k) \<longleftrightarrow> (\<forall>x. guarded h (k x))"
| "guarded h (Fresh k) \<longleftrightarrow> (\<forall>x. guarded h (k x))"
| "guarded h (Nodes k) \<longleftrightarrow> (\<forall>x. guarded h (k x))"
| "guarded h (Client n k) \<longleftrightarrow> (\<forall>x. guarded h (k x))"
| "guarded h (Place q n k) \<longleftrightarrow> (\<forall>x. guarded h (k x))"
| "guarded h (Reserve q n m k) \<longleftrightarrow> (\<forall>x. guarded h (k x))"
| "guarded h (Resolve q d k) \<longleftrightarrow> (\<forall>x. guarded h (k x))"
| "guarded h (Tell n p) \<longleftrightarrow> guarded h p"

lemma guarded_mono: "guarded None p \<Longrightarrow> guarded h p"
proof (induction p)
  case (Exec s k)
  then show ?case by (cases s) simp_all
next
  case (Rpc n q k)
  then show ?case by (simp split: option.splits)
qed simp_all

lemma guarded_bindp:
  assumes "guarded h p" "\<And>r. guarded None (f r)"
  shows "guarded h (bindp p f)"
  using assms(1)
proof (induction p arbitrary: h)
  case (Ret r)
  then show ?case using assms(2) by (auto intro: guarded_mono)
next
  case (Exec s k)
  then show ?case by (cases s) simp_all
next
  case (Rpc n q k)
  then show ?case by (simp split: option.splits)
qed simp_all

lemma guarded_query [simp]: "guarded h (query f k) \<longleftrightarrow> (\<forall>e. guarded h (k (Inl e))) \<and> (\<forall>db. guarded h (k (Inr (f db))))"
  by (auto simp: query_def split: sum.split)

text \<open>Every statement but a claim.\<close>

definition plain :: "cstmt \<Rightarrow> bool" where
  "plain s = (case s of ClaimLease _ \<Rightarrow> False | _ \<Rightarrow> True)"

lemma plain_simps [simp]:
  "plain (OnPlane x)" "plain (IssueLease u t b)" "plain (DeliverLease l)" "plain (AckLease l)" "plain (UncertainCreate r l i z s)" "plain (AllocateAddr q)"
  "plain (ReleaseAddr m e)" "plain (EnsureIdentity d p e v)" "plain (ReleaseAttachments m e)" "plain (ReadyVolume v)" "plain (SealVolume v d n)"
  "plain (FailVolume v)" "plain (EndVolume v)" "plain (AttachedVolume v m e)" "plain (DetachedVolume v m e)" "plain (complete i s z e)" "plain (dispatch_stmt i s)"
  by (simp_all add: plain_def complete_def dispatch_stmt_def)

lemma guarded_Exec_plain: "plain s \<Longrightarrow> guarded h (Exec s k) \<longleftrightarrow> (\<forall>x. guarded h (k x))"
  by (cases s) (simp_all add: plain_def)

lemma guarded_exec [simp]:
  "plain s \<Longrightarrow> guarded h (exec s f k) \<longleftrightarrow> (\<forall>e. guarded h (k (Inl e))) \<and> (\<forall>now db. guarded h (k (Inr (f now db))))"
  by (auto simp: exec_def guarded_Exec_plain simp del: guarded.simps(3) split: sum.split)

lemma guarded_exec_ignored [simp]: "plain s \<Longrightarrow> guarded h (exec_ignored s p) \<longleftrightarrow> guarded h p"
  by (simp add: exec_ignored_def guarded_Exec_plain del: guarded.simps(3))

lemma guarded_exec_err [simp]: "plain s \<Longrightarrow> guarded h (exec_err s k) \<longleftrightarrow> (\<forall>e. guarded h (k e))"
proof -
  have "(\<forall>x. guarded h (k (case x of Inl e \<Rightarrow> Some e | Inr _ \<Rightarrow> None))) = (\<forall>e. guarded h (k e))"
    by (metis old.sum.simps(5) old.sum.simps(6) option.exhaust)
  then show "plain s \<Longrightarrow> ?thesis" by (simp add: exec_err_def guarded_Exec_plain del: guarded.simps(3))
qed

section \<open>The handlers\<close>

named_theorems guards \<open>programs that send secrets only under a claim\<close>

lemma guarded_getMachine [guards]: "(\<And>r. guarded h (k r)) \<Longrightarrow> guarded h (getMachine mid k)"
  by (simp add: getMachine_def)

lemma guarded_getDeployment [guards]: "(\<And>r. guarded h (k r)) \<Longrightarrow> guarded h (getDeployment d k)"
  by (simp add: getDeployment_def)

lemma guarded_leaseForExecution [guards]: "(\<And>r. guarded h (k r)) \<Longrightarrow> guarded h (leaseForExecution mid e k)"
  by (simp add: leaseForExecution_def)

lemma guarded_projectForApp [guards]: "(\<And>r. guarded h (k r)) \<Longrightarrow> guarded h (projectForApp a k)"
  by (simp add: projectForApp_def)

lemma guarded_clientForNodeID [guards]: "(\<And>r. guarded h (k r)) \<Longrightarrow> guarded h (clientForNodeID n k)"
  by (simp add: clientForNodeID_def split: option.split)

lemma guarded_end_with [simp]: "guarded h (end_with x s e p) \<longleftrightarrow> guarded h p"
  by (simp add: end_with_def)

lemma guarded_ends [simp]: "guarded h (settle x res)" "guarded h (give_up x s e)" "guarded h (reject x e)"
  by (simp_all add: settle_def give_up_def reject_def)

lemma guarded_recreate_as [guards]: "guarded h p \<Longrightarrow> guarded h (recreate_as c m e gen i p)"
  by (auto simp: recreate_as_def Let_def split: sum.split intro!: guards)

lemma guarded_recreateMachine [guards]: "guarded h p \<Longrightarrow> guarded h (recreateMachine c m b p)"
  by (auto simp: recreateMachine_def recreate_retry_def recreate_bump_def unless_attached_def split: sum.split intro!: guards)

lemma guarded_processLifecycle: "guarded None (processLifecycle c x)"
  by (auto simp: processLifecycle_def lifecycle_settle_def lifecycle_rpc_def Let_def split: sum.split option.split bool.split intro!: guards)

lemma guarded_fabric [guards]: "(\<And>f. guarded h (k f)) \<Longrightarrow> guarded h (ensureFabricAllocation cfg n x req k)"
  by (auto simp: ensureFabricAllocation_def allocate_addr_def ensure_identity_def Let_def split: sum.split option.split fabric_err.split intro!: guards)

lemma guarded_cleanup [simp]: "guarded h (cleanupUncertainSecretCreate c x l n s)"
  by (auto simp: cleanupUncertainSecretCreate_def Let_def split: sum.split)

lemma guarded_ensureLease [guards]: "(\<And>r. guarded h (k r)) \<Longrightarrow> guarded h (ensureLease b k)"
  by (auto simp: ensureLease_def split: sum.split intro!: guards)

lemma guarded_claimLease:
  "\<lbrakk>guarded (Some (sl_ID l)) (k None); \<And>e. guarded None (k (Some e))\<rbrakk> \<Longrightarrow> guarded h (claimLease l k)"
  by (auto simp: claimLease_def exec_def claims_def split: option.split sum.split intro: guarded_mono)

lemma guarded_replied [simp]: "guarded h (create_replied c x req lease n rep)"
  by (auto simp: create_replied_def record_created_def created_event_def mark_lease_def Let_def split: option.split sum.split)

text \<open>The request to send carries secrets only together with the lease.\<close>

definition leased :: "SecretLease option \<Rightarrow> CreateReq \<Rightarrow> bool" where
  "leased lease req \<longleftrightarrow> (case lease of None \<Rightarrow> cq_SecretEnv req = [] | Some l \<Rightarrow> cq_SecretLeaseID req = sl_ID l)"

lemma guarded_send:
  assumes "leased lease req" "\<And>e. guarded None (retry e)" "lease = None \<or> h = map_option sl_ID lease"
  shows "guarded h (send_create c x req lease ch retry)"
proof -
  have refused: "guarded g (create_refused c x lease n status err (retry e))" for g n status err e
    using assms(2) by (auto simp: create_refused_def split: option.split intro: guarded_mono)
  then show ?thesis using assms by (auto simp: send_create_def leased_def split: option.splits sum.split)
qed

lemma guarded_claim_and_send:
  assumes "leased lease req" "\<And>e. guarded None (retry e)"
  shows "guarded None (claim_and_send c x req lease ch retry)"
  using assms by (auto simp: claim_and_send_def split: option.split lease_err.split intro!: guarded_send guarded_claimLease)

lemma guarded_attempts: "leased lease req \<Longrightarrow> guarded None (create_attempts n cfg c x req lease excluded err)"
proof (induction n arbitrary: excluded err)
  case (Suc n)
  then have "guarded None (claim_and_send c x req lease ch (\<lambda>e. create_attempts n cfg c x req lease ex (Some e)))" for ch ex
    by (intro guarded_claim_and_send) auto
  then show ?case using Suc
    by (auto simp: not_placed_def Let_def split: sum.split place_err.split fab_result.split intro!: guards)
qed simp

lemma guarded_leased: "guarded None (create_leased cfg c x req)"
  by (auto simp: create_leased_def with_credential_def leased_def split: sum.split intro!: guards guarded_attempts)

lemma guarded_processCreate: "guarded None (processCreate cfg c x)"
proof -
  have "guarded None (create_dispatch cfg c x req)" for req
    by (auto simp: create_dispatch_def guarded_leased split: sum.split)
  moreover have "guarded None (recover_create c x m b)" for m b
    by (auto simp: recover_create_def recovered_def created_event_def split: sum.split intro!: guards)
  ultimately have "guarded None (create_or_recover cfg c x req)" for req
    by (auto simp: create_or_recover_def split: sum.split option.split intro!: guards)
  then have "guarded None (create_failclosed cfg c x req)" for req
    by (auto simp: create_failclosed_def split: sum.split)
  then show ?thesis by (auto simp: processCreate_def split: sum.split option.split intro!: guards)
qed

lemma guarded_processDelete: "guarded None (processDelete c b x)"
proof -
  have con: "guarded None (delete_converged x b del m mis)" for del m mis
    by (auto simp: delete_converged_def delete_released_def Let_def split: option.split)
  then have "guarded None (delete_at x b del m client)" for del m client
    by (auto simp: delete_at_def delete_unreachable_def delete_refused_def Let_def split: option.split sum.split bool.split intro!: guards)
  then show ?thesis by (auto simp: processDelete_def Let_def split: sum.split intro!: guards)
qed

lemma guarded_processVolume: "guarded None (processVolume c lacking x)"
  by (auto simp: processVolume_def processVolumeCreate_def processDatasetImport_def processVolumeDelete_def processVolumeAttach_def processVolumeDetach_def
      volume_client_def volume_stmt_def released_def split: sum.split option.split reply.split intro!: guards guarded_bindp)

text \<open>The handlers that are not modelled send no secrets.\<close>

definition handlers_ok :: "handlers \<Rightarrow> bool" where
  "handlers_ok h \<longleftrightarrow> (\<forall>x. guarded None (ha_Snapshot h x) \<and> guarded None (ha_Fork h x) \<and> guarded None (ha_Rescue h x) \<and> guarded None (ha_Prewarm h x))"

lemma guarded_dispatchOne: "handlers_ok h \<Longrightarrow> guarded None (dispatchOne cfg c h x)"
proof -
  assume h: "handlers_ok h"
  then have kind: "guarded None (process_kind cfg c h x)"
    by (simp add: process_kind_def handlers_ok_def guarded_processCreate guarded_processDelete guarded_processLifecycle guarded_processVolume)
  then have "guarded None (processOperation cfg c h x)"
    by (auto simp: processOperation_def split: sum.split option.split intro!: guards)
  then show ?thesis by (auto simp: dispatchOne_def split: option.split intro!: guarded_bindp)
qed

section \<open>The system\<close>

definition sent_leases :: "world \<Rightarrow> string list" where
  "sent_leases w = List.map_filter (\<lambda>(n, q). secret_id q) (wo_sent w)"

text \<open>The lease of an identifier is there and has been claimed.\<close>

definition used :: "leases \<Rightarrow> string \<Rightarrow> bool" where
  "used ls i \<longleftrightarrow> (\<exists>l \<in> set ls. sl_ID l = i \<and> sl_State l \<noteq> ''ISSUED'')"

lemma used_step: "\<lbrakk>lease_step ls ls'; leases_ok ls; used ls i\<rbrakk> \<Longrightarrow> used ls' i"
  using lease_step_used unfolding used_def by metis

text \<open>The leases that are claimed and not yet used by the programs, and those that were sent.\<close>

definition held :: "string option list \<Rightarrow> string list" where
  "held hs = concat (map (\<lambda>h. case h of None \<Rightarrow> [] | Some i \<Rightarrow> [i]) hs)"

lemma held_leases_simps [simp]: "held [] = []" "held (xs @ ys) = held xs @ held ys" "held (None # xs) = held xs" "held (Some i # xs) = i # held xs"
  by (simp_all add: held_def)

definition claims_ok :: "string option list \<Rightarrow> string list \<Rightarrow> leases \<Rightarrow> bool" where
  "claims_ok hs sent ls \<longleftrightarrow> leases_ok ls \<and> distinct (held hs @ sent) \<and> list_all (used ls) (held hs @ sent)"

lemma held_at: "m < length hs \<Longrightarrow> \<exists>xs ys. hs = xs @ hs ! m # ys \<and> (\<forall>h. hs[m := h] = xs @ h # ys)"
  by (metis id_take_nth_drop upd_conv_take_nth_drop)

lemma claims_ok_step: "\<lbrakk>claims_ok hs sent ls; lease_step ls ls'\<rbrakk> \<Longrightarrow> claims_ok hs sent ls'"
  by (auto simp: claims_ok_def list_all_iff intro: lease_step_ok used_step)

lemma claims_ok_drop:
  assumes "claims_ok hs sent ls" "m < length hs"
  shows "claims_ok (hs[m := None]) sent ls"
proof -
  obtain xs ys where "hs = xs @ hs ! m # ys" "hs[m := None] = xs @ None # ys" using held_at[OF assms(2)] by blast
  then show ?thesis using assms(1) by (cases "hs ! m") (auto simp: claims_ok_def)
qed

lemma claims_ok_send:
  assumes "claims_ok hs sent ls" "m < length hs" "hs ! m = Some i"
  shows "claims_ok (hs[m := None]) (sent @ [i]) ls"
proof -
  obtain xs ys where "hs = xs @ Some i # ys" "hs[m := None] = xs @ None # ys" using held_at[OF assms(2)] assms(3) by metis
  then show ?thesis using assms(1) by (auto simp: claims_ok_def)
qed

lemma claims_ok_claim:
  assumes "claims_ok hs sent ls" "m < length hs" "\<not> used ls i" "lease_step ls ls'" "used ls' i"
  shows "claims_ok (hs[m := Some i]) sent ls'"
proof -
  obtain xs ys where hs: "hs[m := None] = xs @ None # ys" "hs[m := Some i] = xs @ Some i # ys" using held_at[OF assms(2)] by metis
  have "claims_ok (xs @ None # ys) sent ls" using claims_ok_drop[OF assms(1,2)] hs by simp
  moreover from this have "i \<notin> set (held (xs @ ys) @ sent)" using assms(3) by (auto simp: claims_ok_def list_all_iff)
  moreover have "claims_ok (xs @ None # ys) sent ls'" using calculation(1) assms(4) by (rule claims_ok_step)
  ultimately show ?thesis using assms(5) hs by (auto simp: claims_ok_def)
qed

lemma claimed_lease:
  assumes "leases_ok (cd_leases db)" "claims now l db"
  shows "\<not> used (cd_leases db) (sl_ID l) \<and> used (cd_leases (cstmt_run now (ClaimLease l) db)) (sl_ID l)"
proof -
  obtain r where r: "r \<in> set (cd_leases db)" "transition_applies now l [''ISSUED''] r"
    using assms(2) by (auto simp: claims_def transitionSecretLease_def list_ex_iff split: if_splits)
  then have id: "sl_ID r = sl_ID l" "sl_State r = ''ISSUED''" by (auto simp: transition_applies_def same_lease_def)
  have "\<not> used (cd_leases db) (sl_ID l)"
  proof
    assume "used (cd_leases db) (sl_ID l)"
    then obtain s where s: "s \<in> set (cd_leases db)" "sl_ID s = sl_ID r" "sl_State s \<noteq> ''ISSUED''" using id by (auto simp: used_def)
    then have "s = r" using assms(1) r(1) by (simp add: leases_ok_def distinct_map inj_on_def)
    then show False using s(3) id(2) by simp
  qed
  moreover have "r\<lparr>sl_State := ''CLAIMED'', sl_UpdatedAt := now\<rparr> \<in> set (cd_leases (cstmt_run now (ClaimLease l) db))"
    using r by (auto simp: cstmt_run_def on_leases_def transitionSecretLease_def image_iff intro!: bexI[of _ r])
  ultimately show ?thesis using id(1) by (auto simp: used_def intro!: bexI[of _ "r\<lparr>sl_State := ''CLAIMED'', sl_UpdatedAt := now\<rparr>"])
qed

text \<open>One effect of a guarded program.\<close>

lemma guarded_pstep:
  assumes "claims_ok hs (sent_leases w) (cd_leases (wo_db w))" "m < length hs" "guarded (hs ! m) p" "pstep now a p w = Some (p', w')"
  shows "\<exists>h. claims_ok (hs[m := h]) (sent_leases w') (cd_leases (wo_db w')) \<and> guarded h p'"
proof (cases p)
  case (Exec s k)
  show ?thesis
  proof (cases "\<exists>l db. s = ClaimLease l \<and> a = Ok \<and> claims now l (wo_db w)")
    case True
    then obtain l where l: "s = ClaimLease l" "a = Ok" "claims now l (wo_db w)" by blast
    then have "p' = k (Inr (now, wo_db w))" "w' = do_stmt now s w" using assms(4) Exec by (auto simp: pstep_def)
    moreover have "guarded (if claims now l (wo_db w) then Some (sl_ID l) else None) (k (Inr (now, wo_db w)))" using assms(3) Exec l(1) by auto
    moreover have "claims_ok (hs[m := Some (sl_ID l)]) (sent_leases w) (cd_leases (cstmt_run now s (wo_db w)))"
    proof (rule claims_ok_claim[OF assms(1,2)])
      have "leases_ok (cd_leases (wo_db w))" using assms(1) by (simp add: claims_ok_def)
      then show "\<not> used (cd_leases (wo_db w)) (sl_ID l)" "used (cd_leases (cstmt_run now s (wo_db w))) (sl_ID l)" using claimed_lease[OF _ l(3)] l(1) by auto
    qed (rule cstmt_lease_step)
    ultimately show ?thesis using l(3) by (auto simp: do_stmt_def sent_leases_def)
  next
    case False
    have "guarded (if claims now l (wo_db w) then Some (sl_ID l) else None) (k (Inr (now, wo_db w)))" if "s = ClaimLease l" for l
      using assms(3) Exec that by auto
    then have "\<exists>h \<in> {hs ! m, None}. guarded h p'" using False assms(3,4) Exec by (cases s; cases a) (auto simp: pstep_def)
    moreover have "claims_ok (hs[m := h]) (sent_leases w') (cd_leases (wo_db w'))" if "h \<in> {hs ! m, None}" for h
    proof -
      have "lease_step (cd_leases (wo_db w)) (cd_leases (wo_db w'))" "sent_leases w' = sent_leases w"
        using assms(4) Exec by (cases a; auto simp: pstep_def do_stmt_def failed_def sent_leases_def cstmt_lease_step)+
      then show ?thesis using claims_ok_step[OF assms(1)] claims_ok_drop[OF _ assms(2)] that by auto
    qed
    ultimately show ?thesis by blast
  qed
next
  case (Rpc n q k)
  then obtain x where x: "p' = k x" "w' = w\<lparr>wo_sent := wo_sent w @ [(n, q)]\<rparr>" using assms(4) by (cases a) (auto simp: pstep_def)
  show ?thesis
  proof (cases "secret_id q")
    case None
    then have "guarded (hs ! m) p'" "sent_leases w' = sent_leases w" using assms(3) Rpc x by (simp_all add: sent_leases_def map_filter_def)
    then show ?thesis using assms(1,2) x by (intro exI[of _ "hs ! m"]) simp
  next
    case (Some i)
    then have "hs ! m = Some i" "guarded None p'" "sent_leases w' = sent_leases w @ [i]" using assms(3) Rpc x by (simp_all add: sent_leases_def map_filter_def)
    then show ?thesis using claims_ok_send[OF assms(1,2)] x by auto
  qed
next
  case (Place q n k)
  then have "guarded (hs ! m) p'" using assms(3,4) by (cases a) (auto simp: pstep_def)
  moreover have "claims_ok hs (sent_leases w') (cd_leases (wo_db w'))"
    using assms(1,4) Place claims_ok_step[OF assms(1) cstmt_lease_step] by (cases a) (auto simp: pstep_def do_stmt_def sent_leases_def)
  ultimately show ?thesis by (intro exI[of _ "hs ! m"]) simp
qed (use assms in \<open>auto simp: pstep_def sent_leases_def split: ans.splits intro!: exI[of _ "hs ! m"]\<close>)

definition sys_ok :: "'r prog list \<times> world \<Rightarrow> bool" where
  "sys_ok s \<longleftrightarrow> (\<exists>hs. length hs = length (fst s) \<and> (\<forall>m < length hs. guarded (hs ! m) (fst s ! m)) \<and>
     claims_ok hs (sent_leases (snd s)) (cd_leases (wo_db (snd s))))"

lemma claims_ok_start: "claims_ok hs sent ls \<Longrightarrow> claims_ok (hs @ [None]) sent ls"
  by (auto simp: claims_ok_def)

lemma sys_ok_run:
  assumes "\<And>j. guarded None (mk j)" "sys_ok s"
  shows "sys_ok (sys_run mk e s)"
proof -
  obtain ps w where s: "s = (ps, w)" by (cases s)
  obtain hs where hs: "length hs = length ps" "\<And>m. m < length hs \<Longrightarrow> guarded (hs ! m) (ps ! m)" "claims_ok hs (sent_leases w) (cd_leases (wo_db w))"
    using assms(2) s by (auto simp: sys_ok_def)
  show ?thesis
  proof (cases e)
    case (Start j)
    have "\<forall>m < length (hs @ [None]). guarded ((hs @ [None]) ! m) ((ps @ [mk j]) ! m)" using hs assms(1) by (auto simp: nth_append less_Suc_eq)
    then show ?thesis using hs claims_ok_start[OF hs(3)] Start s by (auto simp: sys_ok_def intro!: exI[of _ "hs @ [None]"])
  next
    case (Other now x)
    then show ?thesis using hs s claims_ok_step[OF hs(3) cstmt_lease_step] by (auto simp: sys_ok_def sent_leases_def)
  next
    case (Effect m now a)
    show ?thesis
    proof (cases "m < length ps \<and> pstep now a (ps ! m) w \<noteq> None")
      case False
      then show ?thesis using Effect s assms(2) by (auto split: option.splits)
    next
      case True
      then obtain p' w' where st: "pstep now a (ps ! m) w = Some (p', w')" by auto
      obtain h where "claims_ok (hs[m := h]) (sent_leases w') (cd_leases (wo_db w'))" "guarded h p'"
        using guarded_pstep[OF hs(3) _ _ st] hs True by auto
      then show ?thesis using hs True st Effect s
        by (auto simp: sys_ok_def nth_list_update intro!: exI[of _ "hs[m := h]"])
    qed
  qed
qed

text \<open>The machine and execution of a lease that was used.\<close>

definition execution_of :: "leases \<Rightarrow> string \<Rightarrow> string \<times> string" where
  "execution_of ls i = (case List.find (\<lambda>l. sl_ID l = i) ls of None \<Rightarrow> ('''', '''') | Some l \<Rightarrow> lease_key l)"

lemma executions_distinct: "claims_ok hs sent ls \<Longrightarrow> distinct (map (execution_of ls) sent)"
proof -
  assume ok: "claims_ok hs sent ls"
  have of: "\<exists>l \<in> set ls. sl_ID l = i \<and> execution_of ls i = lease_key l" if "i \<in> set sent" for i
  proof -
    obtain r where "r \<in> set ls" "sl_ID r = i" using ok \<open>i \<in> set sent\<close> by (auto simp: claims_ok_def used_def list_all_iff)
    then obtain l where "List.find (\<lambda>l. sl_ID l = i) ls = Some l" by (cases "List.find (\<lambda>l. sl_ID l = i) ls") (auto simp: find_None_iff)
    then show ?thesis using find_SomeD[of "\<lambda>l. sl_ID l = i" ls l] by (auto simp: execution_of_def)
  qed
  have "i = j" if "i \<in> set sent" "j \<in> set sent" "execution_of ls i = execution_of ls j" for i j
    using of[OF that(1)] of[OF that(2)] that(3) leases.same_key[of ls] ok by (metis claims_ok_def leases_ok_def)
  then show ?thesis using ok by (simp add: claims_ok_def distinct_map inj_on_def)
qed

text \<open>
  \<^bold>\<open>Claim C3.\<close> Secrets leave the controller at most once per execution: in any interleaving of dispatches (of the same operation too), of other
  statements, of failures and of lost answers, the creates with secrets that were sent carry distinct leases, and these belong
  to distinct executions.
\<close>

theorem secret_create_sent_once:
  assumes "leases_ok (cd_leases (wo_db w))" "wo_sent w = []" "handlers_ok h"
  shows "let w' = snd (sys_runs (dispatchOne cfg c h) es ([], w)) in
    distinct (sent_leases w') \<and> distinct (map (execution_of (cd_leases (wo_db w'))) (sent_leases w'))"
proof -
  have "sys_ok (sys_runs (dispatchOne cfg c h) es ([], w))"
  proof (rule sys_runs_invariant)
    show "sys_ok ([], w)" using assms by (simp add: sys_ok_def claims_ok_def sent_leases_def map_filter_def)
  qed (use assms in \<open>auto intro: sys_ok_run guarded_dispatchOne\<close>)
  then show ?thesis using executions_distinct by (auto simp: sys_ok_def claims_ok_def Let_def)
qed

text \<open>An example: the answer of the first dispatch is lost, and so is its cleanup; the second dispatch finds the lease claimed.\<close>

definition codec_example :: codec where
  "codec_example =
     \<lparr>co_create = \<lambda>_. Inr \<lparr>cq_MachineID = ''m1'', cq_Generation = 1, cq_OperationID = ''op1'',
        cq_Spec = \<lparr>ms_ProjectID = ''p'', ms_AppID = ''a'', ms_DeploymentID = ''d1'', ms_ExecutionID = ''e1'', ms_ReplicaOrdinal = 0, ms_Hostname = ''h'', ms_IngressPort = 80,
          ms_Services = [], ms_AutoStandby = None, ms_HealthCheck = None, ms_Egress = None\<rparr>,
        cq_SecretEnv = [], cq_SecretLeaseID = '''', cq_ProxyCredential = ''''\<rparr>,
      co_delete = \<lambda>_. Inr \<lparr>dq_MachineID = ''m1'', dq_ExecutionID = ''e1'', dq_Generation = 1, dq_OperationID = ''op2''\<rparr>,
      co_lifecycle = \<lambda>_. Inr (),
      co_volume = \<lambda>_. Inl ''bad request'', co_putCreate = \<lambda>_. None, co_putDelete = \<lambda>_. Some ''{}'', co_putMachine = \<lambda>_. None, co_proto = \<lambda>x. x,
      co_hash = \<lambda>_. ''hash'', co_token = \<lambda>_ _. ''token'', co_minute = \<lambda>_. ''2601010000''\<rparr>"

definition config_example :: dconfig where
  "config_example = \<lparr>dc_Secrets = True, dc_Traffic = True, dc_MaxPlacementAttempts = 3, dc_FabricMesh = False, dc_CellPrefix = ''''\<rparr>"

definition handlers_example :: handlers where
  "handlers_example =
     \<lparr>ha_LacksDataset = \<lambda>_. False, ha_Snapshot = \<lambda>x. reject x ''refused'', ha_Fork = \<lambda>x. reject x ''refused'', ha_Rescue = \<lambda>x. reject x ''refused'', ha_Prewarm = \<lambda>x. reject x ''refused''\<rparr>"

definition create_example :: Operation where
  "create_example = new_operation 0 \<lparr>eq_OperationID = ''op1'', eq_ProjectID = ''p'', eq_MachineID = ''m1'', eq_ExecutionID = ''e1'', eq_Generation = 1,
     eq_Kind = ''create'', eq_Request = Some ''{}'', eq_DispatchNodeID = '''', eq_ResurrectFailed = False\<rparr>"

definition machine_example :: MachineRow where
  "machine_example = \<lparr>m_ID = ''m1'', m_AppID = ''a'', m_DeploymentID = ''d1'', m_ReplicaOrdinal = 0, m_Hostname = ''h'', m_DesiredState = ''CREATED'', m_Generation = 1,
     m_CurrentExecutionID = ''e1'', m_IngressPort = 80, m_NodeID = '''', m_ObservedState = '''', m_ObservedReadiness = '''', m_CreatedAt = 0,
     mr_ObservedSlotIP = '''', mr_LastObservedAt = None, mr_ExpiresAt = None, mr_RestartMode = ''NEVER'', mr_RestartMaxAttempts = 0, mr_RestartBackoffSeconds = 0,
     mr_RestartStableWindowSeconds = 0, mr_RestartAttempts = 0, mr_RestartNextAttemptAt = None, mr_RestartStableSince = None, mr_RestartBlocked = False,
     mr_RestartFailedExecutionID = None, mr_LifecycleDeletePhase = '''', mr_UpdatedAt = 0\<rparr>"

definition world_example :: world where
  "world_example =
     \<lparr>wo_db = \<lparr>cd_plane = \<lparr>pl_apps = [(''a'', ''p'')], pl_deployments = [(''d1'', ''a'')], pl_machines = [machine_example], pl_ops = [create_example]\<rparr>,
        cd_deps = [], cd_nodes = [], cd_rollouts = [], cd_backends = [], cd_leases = [], cd_ulas = [], cd_idents = \<lparr>id_rows = [], id_next = 1\<rparr>, cd_peers = [],
        cd_vols = \<lparr>vd_volumes = [], vd_attachments = []\<rparr>\<rparr>,
      wo_done = [], wo_failed = [], wo_sent = [], wo_notes = []\<rparr>"

definition answers :: "nat \<Rightarrow> (int \<times> ans) list \<Rightarrow> 'j event list" where
  "answers i as = map (\<lambda>(t, a). Effect i t a) as"

definition lost_answer_example :: "Operation event list" where
  "lost_answer_example = Start create_example # answers 0
     [(1, Ok), (2, Ok), (3, Ok), (4, Secrets [(''K'', ''v'')]), (5, Ok), (6, Named ''0123456789''), (7, Ok), (8, Placed \<lparr>ch_NodeID = ''n1'', ch_NomadID = ''nomad1''\<rparr>),
      (9, Connected True), (10, Reads 10), (11, Ok), (12, Refused OtherCode ''deadline exceeded''), (13, Ok), (14, Fails ''lost'')] @
     Start create_example # answers 1
     [(20, Ok), (21, Ok), (22, Ok), (23, Secrets [(''K'', ''v'')]), (24, Ok), (25, Placed \<lparr>ch_NodeID = ''n2'', ch_NomadID = ''nomad2''\<rparr>), (26, Connected True), (27, Reads 27),
      (28, Ok), (29, Ok), (30, Ok)]"

lemma lost_answer_run:
  "sent_leases (snd (sys_runs (dispatchOne config_example codec_example handlers_example) lost_answer_example ([], world_example))) = [''sdl-01234567-e1'']"
  by code_simp

theorem secret_create_sent_once_witness:
  "let w' = snd (sys_runs (dispatchOne config_example codec_example handlers_example) lost_answer_example ([], world_example)) in
   sent_leases w' = [''sdl-01234567-e1''] \<and> distinct (map (execution_of (cd_leases (wo_db w'))) (sent_leases w'))"
proof -
  have "handlers_ok handlers_example" by (simp add: handlers_ok_def handlers_example_def)
  moreover have "leases_ok (cd_leases (wo_db world_example))" "wo_sent world_example = []" by (simp_all add: world_example_def leases_ok_def leases.table_ok_def)
  ultimately show ?thesis
    using secret_create_sent_once[of world_example handlers_example config_example codec_example lost_answer_example] by (simp add: lost_answer_run Let_def)
qed

end
