(* ===== verification/DispatchSafety.thy ===== *)
theory DispatchSafety
  imports SecretOnce
begin

text \<open>
  What a dispatched operation can and cannot do, shown with monitors over the programs of \<open>Dispatch\<close>: it ends or is requeued, a pause or resume
  succeeds only under the fence, the creates it sends are bounded, and nothing is sent for a deleted machine.
\<close>

section \<open>Monitors of calls\<close>

lemma monitored_query [simp]:
  "monitored d F q (query f k) \<longleftrightarrow> (\<forall>e. monitored d F q (k (Inl e))) \<and> (\<forall>db. monitored d F q (k (Inr (f db))))"
  by (auto simp: query_def split: sum.split)

lemma monitored_exec [simp]:
  "monitored d F q (exec s f k) \<longleftrightarrow>
     (\<forall>now db. case d q (Did now s db) of None \<Rightarrow> False | Some q' \<Rightarrow> monitored d F q' (k (Inr (f now db)))) \<and>
     (\<forall>e. case d q (Failed s) of None \<Rightarrow> False | Some q' \<Rightarrow> monitored d F q' (k (Inl e)))"
  by (simp add: exec_def cong: option.case_cong)

lemma monitored_exec_ignored [simp]:
  "monitored d F q (exec_ignored s p) \<longleftrightarrow>
     (\<forall>now db. case d q (Did now s db) of None \<Rightarrow> False | Some q' \<Rightarrow> monitored d F q' p) \<and> (case d q (Failed s) of None \<Rightarrow> False | Some q' \<Rightarrow> monitored d F q' p)"
  by (simp add: exec_ignored_def)

lemma monitored_exec_err [simp]:
  "monitored d F q (exec_err s k) \<longleftrightarrow>
     (\<forall>now db. case d q (Did now s db) of None \<Rightarrow> False | Some q' \<Rightarrow> monitored d F q' (k None)) \<and>
     (\<forall>e. case d q (Failed s) of None \<Rightarrow> False | Some q' \<Rightarrow> monitored d F q' (k (Some e)))"
  by (simp add: exec_err_def cong: option.case_cong)

named_theorems watched \<open>programs under a monitor\<close>

lemma monitored_getMachine [watched]: "(\<And>r. monitored d F q (k r)) \<Longrightarrow> monitored d F q (getMachine mid k)"
  by (simp add: getMachine_def)

lemma monitored_getDeployment [watched]: "(\<And>r. monitored d F q (k r)) \<Longrightarrow> monitored d F q (getDeployment i k)"
  by (simp add: getDeployment_def)

lemma monitored_leaseForExecution [watched]: "(\<And>r. monitored d F q (k r)) \<Longrightarrow> monitored d F q (leaseForExecution mid e k)"
  by (simp add: leaseForExecution_def)

lemma monitored_projectForApp [watched]: "(\<And>r. monitored d F q (k r)) \<Longrightarrow> monitored d F q (projectForApp a k)"
  by (simp add: projectForApp_def)

lemma monitored_clientForNodeID [watched]: "(\<And>r. monitored d F q (k r)) \<Longrightarrow> monitored d F q (clientForNodeID n k)"
  by (simp add: clientForNodeID_def split: option.split)

section \<open>Every operation ends or is requeued\<close>

text \<open>The statements that take the operation out of the hands of the dispatcher.\<close>

definition releases :: "string \<Rightarrow> happening \<Rightarrow> bool" where
  "releases i x =
     (case x of
        Did now s db \<Rightarrow>
          (case s of
             OnPlane (OnOutbox (CompleteOp j _ _ _)) \<Rightarrow> j = i
           | OnPlane (OnOutbox (Requeue j _)) \<Rightarrow> j = i
           | UncertainCreate y l cid req cause \<Rightarrow> op_ID y = i \<and>
               fst (MarkSecretCreateUncertainAndEnqueueCleanup TxCommit now y l cid req cause (cd_leases db, pl_ops (cd_plane db))) = Inr ()
           | _ \<Rightarrow> False)
      | Failed s \<Rightarrow>
          (case s of
             OnPlane (OnOutbox (CompleteOp j _ _ _)) \<Rightarrow> j = i
           | OnPlane (OnOutbox (Requeue j _)) \<Rightarrow> j = i
           | _ \<Rightarrow> False)
      | Called _ \<Rightarrow> False)"

definition settle_mon :: "string \<Rightarrow> bool \<Rightarrow> happening \<Rightarrow> bool option" where
  "settle_mon i q x = Some (q \<or> releases i x)"

text \<open>A handler that returns no error has settled the operation.\<close>

definition answered :: "bool \<Rightarrow> string option \<Rightarrow> bool" where
  "answered q r \<longleftrightarrow> q \<or> r \<noteq> None"

lemma answered_simps [simp]: "answered q (Some e)" "answered q None \<longleftrightarrow> q"
  by (simp_all add: answered_def)

abbreviation settles :: "Operation \<Rightarrow> bool \<Rightarrow> string option prog \<Rightarrow> bool" where
  "settles x \<equiv> monitored (settle_mon (op_ID x)) answered"

lemma settle_mon_simp [simp]: "(case settle_mon i q x of None \<Rightarrow> False | Some q' \<Rightarrow> P q') \<longleftrightarrow> P (q \<or> releases i x)"
  by (simp add: settle_mon_def)

lemma releases_complete [simp]: "releases i (Did now (complete j s z e) db) \<longleftrightarrow> j = i" "releases i (Failed (complete j s z e)) \<longleftrightarrow> j = i"
  by (simp_all add: releases_def complete_def)

lemma releases_dispatch [simp]: "\<not> releases i (Did now (dispatch_stmt j n) db)"
  by (simp add: releases_def dispatch_stmt_def)

lemma releases_called [simp]: "\<not> releases i (Called r)"
  by (simp add: releases_def)

lemma settles_once: "monitored (settle_mon i) answered True p"
  by (induction p) (simp_all add: answered_def)

lemma settles_ends [simp]: "settles x q (settle x z)" "settles x q (give_up x s e)" "settles x q (reject x e)" "settles x q (end_with x s e p)" "settles x q (Ret (Some e))"
  by (simp_all add: settle_def give_up_def reject_def end_with_def settles_once)

lemma settles_recreate [watched]: "(\<And>q. settles x q p) \<Longrightarrow> settles x q (recreateMachine c m b p)"
  by (auto simp: recreateMachine_def recreate_retry_def recreate_bump_def recreate_as_def unless_attached_def Let_def split: sum.split intro!: watched)

lemma settles_processLifecycle: "settles x False (processLifecycle c x)"
  by (auto simp: processLifecycle_def lifecycle_settle_def Let_def split: sum.split option.split bool.split intro!: watched)

lemma settles_cleanup [simp]: "settles x q (cleanupUncertainSecretCreate c x l n s)"
  by (auto simp: cleanupUncertainSecretCreate_def cleanup_target_def releases_def settled_def Let_def split: sum.split)

lemma settles_fabric [watched]: "(\<And>q f. settles x q (k f)) \<Longrightarrow> settles x q (ensureFabricAllocation cfg n x req k)"
  by (auto simp: ensureFabricAllocation_def allocate_addr_def ensure_identity_def Let_def split: sum.split option.split fabric_err.split intro!: watched)

lemma settles_send:
  assumes "\<And>q e. settles x q (retry e)"
  shows "settles x q (claim_and_send c x req lease ch retry)"
proof -
  have "settles x q (create_refused c x lease n status err (retry e))" for q n status err e
    using assms by (auto simp: create_refused_def split: option.split)
  moreover have "settles x q (create_replied c x req lease n rep)" for q n rep
    by (auto simp: create_replied_def record_created_def created_event_def mark_lease_def Let_def split: option.split sum.split)
  ultimately have "settles x q (send_create c x req lease ch retry)" for q
    by (auto simp: send_create_def split: sum.split)
  then show ?thesis by (auto simp: claim_and_send_def claimLease_def split: option.split sum.split lease_err.split)
qed

lemma settles_attempts: "settles x q (create_attempts n cfg c x req lease excluded err)"
proof (induction n arbitrary: q excluded err)
  case (Suc n)
  then show ?case by (auto simp: not_placed_def Let_def split: sum.split place_err.split fab_result.split intro!: watched settles_send)
qed simp

lemma settles_processCreate: "settles x False (processCreate cfg c x)"
proof -
  have "settles x q (create_leased cfg c x req)" for q req
    by (auto simp: create_leased_def ensureLease_def settles_attempts split: sum.split intro!: watched)
  then have "settles x q (create_dispatch cfg c x req)" for q req
    by (auto simp: create_dispatch_def split: sum.split)
  moreover have "settles x q (recover_create c x m b)" for q m b
    by (auto simp: recover_create_def recovered_def created_event_def split: sum.split intro!: watched)
  ultimately have "settles x q (create_or_recover cfg c x req)" for q req
    by (auto simp: create_or_recover_def split: sum.split option.split intro!: watched)
  then have "settles x q (create_failclosed cfg c x req)" for q req
    by (auto simp: create_failclosed_def split: sum.split)
  then show ?thesis by (auto simp: processCreate_def split: sum.split option.split intro!: watched)
qed

lemma settles_processDelete: "settles x False (processDelete c b x)"
proof -
  have con: "settles x q (delete_converged x b del m mis)" for q del m mis
    by (auto simp: delete_converged_def delete_released_def Let_def split: option.split)
  then have "settles x q (delete_at x b del m client)" for q del m client
    by (auto simp: delete_at_def delete_unreachable_def delete_refused_def Let_def split: option.split sum.split bool.split intro!: watched)
  then show ?thesis by (auto simp: processDelete_def Let_def split: sum.split intro!: watched)
qed

lemma settles_released: "settles x q p \<Longrightarrow> settles x q (released x p)"
  unfolding released_def by (rule monitored_bindp) simp

lemma settles_processVolume: "op_Kind x \<in> set volume_kinds \<Longrightarrow> settles x False (processVolume c lacking x)"
  by (auto simp: processVolume_def processVolumeCreate_def processDatasetImport_def processVolumeDelete_def processVolumeAttach_def processVolumeDetach_def
      volume_client_def volume_stmt_def split: sum.split option.split reply.split intro!: watched settles_released)

text \<open>The kinds whose handlers are parameters of the model.\<close>

definition foreign_kinds :: "string list" where
  "foreign_kinds = [''snapshot_create'', ''snapshot_delete'', ''fork'', ''rescue'', ''image_prewarm'']"

lemma settles_processOperation:
  assumes "op_Kind x \<notin> set foreign_kinds"
  shows "settles x False (processOperation cfg c h x)"
proof -
  have "settles x False (process_kind cfg c h x)"
    using assms
    by (simp add: process_kind_def foreign_kinds_def settles_processCreate settles_processDelete settles_processLifecycle settles_processVolume)
  then show ?thesis by (auto simp: processOperation_def split: sum.split option.split intro!: watched)
qed

lemma dispatchOne_settles:
  assumes "op_Kind x \<notin> set foreign_kinds"
  shows "monitored (settle_mon (op_ID x)) (\<lambda>q _. q) False (dispatchOne cfg c h x)"
  unfolding dispatchOne_def
proof (rule monitored_bindp, rule monitored_mono)
  show "settles x False (processOperation cfg c h x)" using assms by (rule settles_processOperation)
  fix q r assume "answered q r"
  then show "monitored (settle_mon (op_ID x)) (\<lambda>q _. q) q (case r of None \<Rightarrow> Ret () | Some e \<Rightarrow> exec_ignored (OnPlane (OnOutbox (Requeue (op_ID x) e))) (Ret ()))"
    by (auto simp: releases_def split: option.split)
qed

text \<open>The operation was released by a statement in the log, or the database refused the statement that would have.\<close>

definition released_by :: "string \<Rightarrow> world \<Rightarrow> bool" where
  "released_by i w \<longleftrightarrow> (\<exists>(now, s, db) \<in> set (wo_done w). releases i (Did now s db)) \<or> (\<exists>s \<in> set (wo_failed w). releases i (Failed s))"

interpretation settling: monitor "settle_mon i" "\<lambda>q w. q \<longrightarrow> released_by i w" for i
  by unfold_locales (auto simp: settle_mon_def released_by_def do_stmt_def failed_def)

text \<open>
  \<^bold>\<open>Claim C6.\<close> No claimed create, delete, reap, pause, resume or volume operation, and none of an unknown kind, is forgotten: when its dispatch has come to its end,
  whatever the agents answered, whatever queries failed and whatever others did meanwhile, a statement that completes or requeues the operation was executed, or the
  database answered it with an error (then the stale claim is recovered by \<open>RequeueStaleClaimed\<close>). The kinds left out are those whose handlers are not modelled
  (snapshots, fork, rescue, image prewarm); nothing is assumed of those handlers.
\<close>

theorem dispatch_settles_operation:
  assumes "op_Kind x \<notin> set foreign_kinds" "runs s (dispatchOne cfg c h x) w = (Ret (), w')"
  shows "released_by (op_ID x) w'"
  using settling.monitored_runs[OF dispatchOne_settles[OF assms(1), of cfg c h] _ assms(2)] by auto

definition is_ret :: "'r prog \<Rightarrow> bool" where
  "is_ret p = (case p of Ret _ \<Rightarrow> True | _ \<Rightarrow> False)"

definition requeue_example :: schedule where
  "requeue_example = [([], 1, Ok), ([], 2, Fails ''down''), ([], 3, Ok)]"

theorem dispatch_settles_operation_witness:
  "released_by ''op1'' (snd (runs requeue_example (dispatchOne config_example codec_example handlers_example create_example) world_example))"
proof -
  let ?r = "runs requeue_example (dispatchOne config_example codec_example handlers_example create_example) world_example"
  have "is_ret (fst ?r)" by code_simp
  then have "?r = (Ret (), snd ?r)" by (cases ?r) (auto simp: is_ret_def split: prog.splits)
  moreover have "op_ID create_example = ''op1''" by code_simp
  moreover have "op_Kind create_example \<notin> set foreign_kinds" by code_simp
  ultimately show ?thesis
    using dispatch_settles_operation[of create_example requeue_example config_example codec_example handlers_example] by metis
qed

section \<open>Pause and resume succeed under the fence\<close>

text \<open>The result of the operation was written to a row of exactly its execution and generation.\<close>

definition fence_hit :: "Operation \<Rightarrow> cstmt \<Rightarrow> cdb \<Rightarrow> bool" where
  "fence_hit x s db =
     (case s of
        OnPlane (ReportFenced mid node e gen state slot readiness) \<Rightarrow>
          mid = op_MachineID x \<and> e = op_ExecutionID x \<and> gen = op_Generation x \<and>
          list_ex (\<lambda>m. m_ID m = mid \<and> m_CurrentExecutionID m = e \<and> m_Generation m = gen) (pl_machines (cd_plane db))
      | _ \<Rightarrow> False)"

definition succeeds :: "Operation \<Rightarrow> cstmt \<Rightarrow> bool" where
  "succeeds x s = (case s of OnPlane (OnOutbox (CompleteOp j status _ _)) \<Rightarrow> j = op_ID x \<and> status = ''SUCCEEDED'' | _ \<Rightarrow> False)"

definition fence_mon :: "Operation \<Rightarrow> bool \<Rightarrow> happening \<Rightarrow> bool option" where
  "fence_mon x q y =
     (case y of
        Did now s db \<Rightarrow> if succeeds x s \<and> \<not> q then None else Some (q \<or> fence_hit x s db)
      | Failed s \<Rightarrow> if succeeds x s \<and> \<not> q then None else Some q
      | Called _ \<Rightarrow> Some q)"

abbreviation fenced :: "Operation \<Rightarrow> bool \<Rightarrow> 'r prog \<Rightarrow> bool" where
  "fenced x \<equiv> monitored (fence_mon x) (\<lambda>_ _. True)"

lemma succeeds_complete [simp]: "succeeds x (complete j s z e) \<longleftrightarrow> j = op_ID x \<and> s = ''SUCCEEDED''"
  by (simp add: succeeds_def complete_def)

lemma fence_mon_dispatch [simp]: "fence_mon x q (Did now (dispatch_stmt j n) db) = Some q"
  by (simp add: fence_mon_def succeeds_def fence_hit_def dispatch_stmt_def)

lemma fence_hit_complete [simp]: "\<not> fence_hit x (complete j s z e) db"
  by (simp add: fence_hit_def complete_def)

lemma fenced_True [simp]: "fenced x True p"
  by (induction p) (simp_all add: fence_mon_def)

lemma cas_hit:
  "fst (UpdateMachineObservedWithFenceCAS now mid node e gen st sl rd ms) \<Longrightarrow> list_ex (\<lambda>m. m_ID m = mid \<and> m_CurrentExecutionID m = e \<and> m_Generation m = gen) ms"
  using filter_empty_conv[of "\<lambda>m. m_ID m = mid \<and> m_CurrentExecutionID m = e \<and> m_Generation m = gen" ms]
  by (auto simp: UpdateMachineObservedWithFenceCAS_def update_machines_def list_ex_iff Let_def)

lemma fenced_recreate: "fenced x q p \<Longrightarrow> fenced x q (recreateMachine c m b p)"
  by (auto simp: recreateMachine_def recreate_retry_def recreate_bump_def recreate_as_def unless_attached_def fence_mon_def succeeds_def fence_hit_def Let_def
      split: sum.split intro!: watched)

lemma fenced_processLifecycle: "fenced x False (processLifecycle c x)"
proof -
  have "fenced x False (lifecycle_settle c x m r)" for m r
    by (auto simp: lifecycle_settle_def give_up_def end_with_def settle_def fence_mon_def fence_hit_def succeeds_def Let_def complete_def
        dest: cas_hit split: sum.split bool.split)
  moreover have "fenced x False (give_up x s e)" if "s \<noteq> ''SUCCEEDED''" for s e
    using that by (auto simp: give_up_def end_with_def fence_mon_def)
  moreover have "fenced x False (reject x e)" for e
    by (auto simp: reject_def end_with_def fence_mon_def)
  ultimately show ?thesis
    by (auto simp: processLifecycle_def fence_mon_def split: sum.split option.split intro!: watched fenced_recreate)
qed

definition hit :: "Operation \<Rightarrow> world \<Rightarrow> bool" where
  "hit x w \<longleftrightarrow> (\<exists>(now, s, db) \<in> set (wo_done w). fence_hit x s db)"

interpretation fencing: monitor "fence_mon x" "\<lambda>q w. (q \<or> (\<exists>(now, s, db) \<in> set (wo_done w). succeeds x s)) \<longrightarrow> hit x w" for x
  by unfold_locales
    (auto simp: fence_mon_def hit_def do_stmt_def failed_def succeeds_def dispatch_stmt_def split: if_splits)

text \<open>
  \<^bold>\<open>Claim C5.\<close> A pause or a resume is recorded as succeeded only after its result was written to a machine that still had exactly the execution and the generation
  of the operation, whatever replaced the machine between the checks, the call of the agent and the statements.
\<close>

theorem lifecycle_succeeds_under_fence:
  assumes "runs s (processLifecycle c x) w = (p, w')" "wo_done w = []" "(now, stmt, db) \<in> set (wo_done w')" "succeeds x stmt"
  shows "\<exists>(now', stmt', db') \<in> set (wo_done w'). fence_hit x stmt' db'"
  using fencing.monitored_runs[OF fenced_processLifecycle _ assms(1)] assms(2-) by (auto simp: hit_def)

definition pause_example :: Operation where
  "pause_example = create_example\<lparr>op_ID := ''op9'', op_Kind := ''pause''\<rparr>"

definition paused_example :: PbMachine where
  "paused_example = \<lparr>pm_MachineID = ''m1'', pm_ExecutionID = ''e1'', pm_Generation = 1, pm_ProjectID = ''p'', pm_State = ''PAUSED'', pm_SlotIp = ''10.0.0.2'',
     pm_Readiness = ''READY'', pm_SecretDelivery = '''', pm_ExitCode = None\<rparr>"

definition pause_schedule :: schedule where
  "pause_schedule = [([], 1, Ok), ([], 2, Connected True), ([], 3, Replied (MachineReply paused_example)), ([(4, OnPlane (Missing ''m1''))], 4, Ok), ([], 5, Ok)]"

theorem lifecycle_succeeds_under_fence_witness:
  "list_ex (\<lambda>(t, s, db). fence_hit pause_example s db) (wo_done (snd (runs pause_schedule (processLifecycle codec_example pause_example) world_example)))"
proof -
  let ?r = "runs pause_schedule (processLifecycle codec_example pause_example) world_example"
  have "list_ex (\<lambda>(t, s, db). succeeds pause_example s) (wo_done (snd ?r))" by code_simp
  then obtain t s db where "(t, s, db) \<in> set (wo_done (snd ?r))" "succeeds pause_example s" by (auto simp: list_ex_iff)
  moreover have "wo_done world_example = []" by (simp add: world_example_def)
  ultimately show ?thesis using lifecycle_succeeds_under_fence[of pause_schedule codec_example pause_example world_example "fst ?r" "snd ?r" t s db]
    by (auto simp: list_ex_iff)
qed

section \<open>Bounded creates\<close>

definition is_create :: "rpc \<Rightarrow> bool" where
  "is_create r = (case r of CreateRpc _ \<Rightarrow> True | _ \<Rightarrow> False)"

definition create_mon :: "nat \<Rightarrow> happening \<Rightarrow> nat option" where
  "create_mon n x = (case x of Called r \<Rightarrow> if is_create r then (case n of 0 \<Rightarrow> None | Suc k \<Rightarrow> Some k) else Some n | _ \<Rightarrow> Some n)"

definition creates :: "world \<Rightarrow> nat" where
  "creates w = length (filter (\<lambda>(n, r). is_create r) (wo_sent w))"

interpretation creating: monitor create_mon "\<lambda>n w. creates w + n \<le> bound" for bound
  by unfold_locales (auto simp: create_mon_def creates_def do_stmt_def failed_def split: if_splits nat.splits)

abbreviation bounded :: "nat \<Rightarrow> 'r prog \<Rightarrow> bool" where
  "bounded \<equiv> monitored create_mon (\<lambda>_ _. True)"

lemma create_mon_simps [simp]: "create_mon n (Did now s db) = Some n" "create_mon n (Failed s) = Some n" "create_mon n (Called (CreateRpc cr)) = (case n of 0 \<Rightarrow> None | Suc k \<Rightarrow> Some k)"
  "\<not> is_create r \<Longrightarrow> create_mon n (Called r) = Some n"
  by (simp_all add: create_mon_def is_create_def)

lemma bounded_ends [simp]: "bounded n (settle x z)" "bounded n (give_up x s e)" "bounded n (reject x e)" "bounded n (cleanupUncertainSecretCreate c x l nd cause)"
  by (auto simp: settle_def give_up_def reject_def end_with_def cleanupUncertainSecretCreate_def Let_def split: sum.split)

lemma bounded_fabric [watched]: "(\<And>f. bounded n (k f)) \<Longrightarrow> bounded n (ensureFabricAllocation cfg nd x req k)"
  by (auto simp: ensureFabricAllocation_def allocate_addr_def ensure_identity_def Let_def split: sum.split option.split fabric_err.split intro!: watched)

lemma bounded_send: "(\<And>e. bounded n (retry e)) \<Longrightarrow> bounded (Suc n) (claim_and_send c x req lease ch retry)"
proof -
  assume retry: "\<And>e. bounded n (retry e)"
  have "bounded n (create_refused c x lease nd status err (retry e))" for nd status err e
    using retry by (auto simp: create_refused_def split: option.split)
  moreover have "bounded n (create_replied c x req lease nd rep)" for nd rep
    by (auto simp: create_replied_def record_created_def created_event_def mark_lease_def Let_def split: option.split sum.split)
  ultimately have "bounded (Suc n) (send_create c x req lease ch retry)"
    by (auto simp: send_create_def split: sum.split)
  then show ?thesis by (auto simp: claim_and_send_def claimLease_def split: option.split sum.split lease_err.split)
qed

lemma bounded_Suc: "bounded n p \<Longrightarrow> bounded (Suc n) p"
proof (induction p arbitrary: n)
  case (Rpc nd r k)
  show ?case
  proof (cases "is_create r")
    case True
    then obtain k' where "n = Suc k'" "\<And>x. bounded k' (k x)" using Rpc.prems by (cases r; cases n) (auto simp: is_create_def)
    then show ?thesis using True Rpc.IH by (cases r) (auto simp: is_create_def)
  next
    case False
    then show ?thesis using Rpc by simp
  qed
qed simp_all

lemma bounded_attempts: "bounded n (create_attempts n cfg c x req lease excluded err)"
proof (induction n arbitrary: excluded err)
  case (Suc n)
  have "bounded (Suc n) (claim_and_send c x req lease ch (\<lambda>e. create_attempts n cfg c x req lease ex (Some e)))" for ch ex
    using Suc by (rule bounded_send)
  moreover have "bounded (Suc n) (create_attempts n cfg c x req lease ex er)" for ex er
    using Suc by (rule bounded_Suc)
  ultimately show ?case by (auto simp: not_placed_def Let_def split: sum.split place_err.split fab_result.split intro!: watched)
qed simp

lemma bounded_processCreate: "bounded (dc_MaxPlacementAttempts cfg) (processCreate cfg c x)"
proof -
  let ?n = "dc_MaxPlacementAttempts cfg"
  have "bounded ?n (create_leased cfg c x req)" for req
    by (auto simp: create_leased_def ensureLease_def bounded_attempts split: sum.split intro!: watched)
  then have "bounded ?n (create_dispatch cfg c x req)" for req
    by (auto simp: create_dispatch_def split: sum.split)
  moreover have "bounded ?n (recover_create c x m b)" for m b
    by (auto simp: recover_create_def recovered_def created_event_def split: sum.split intro!: watched)
  ultimately have "bounded ?n (create_or_recover cfg c x req)" for req
    by (auto simp: create_or_recover_def split: sum.split option.split intro!: watched)
  then have "bounded ?n (create_failclosed cfg c x req)" for req
    by (auto simp: create_failclosed_def split: sum.split)
  then show ?thesis by (auto simp: processCreate_def split: sum.split option.split intro!: watched)
qed

text \<open>A dispatch sends at most as many creates as it may try nodes.\<close>

lemma creates_per_dispatch:
  "runs s (processCreate cfg c x) w = (p, w') \<Longrightarrow> creates w' \<le> creates w + dc_MaxPlacementAttempts cfg"
  using creating.monitored_runs[where bound = "creates w + dc_MaxPlacementAttempts cfg", OF bounded_processCreate[of cfg c x]] by fastforce

section \<open>Deleted machines\<close>

definition machine_deleted :: "string \<Rightarrow> cdb \<Rightarrow> bool" where
  "machine_deleted mid db \<longleftrightarrow> (\<exists>m. GetMachine mid (pl_machines (cd_plane db)) = Some m \<and> m_DesiredState m = ''DELETED'')"

text \<open>The statements of others leave the machine deleted.\<close>

definition keeps_deleted :: "string \<Rightarrow> cdb \<Rightarrow> cdb \<Rightarrow> bool" where
  "keeps_deleted mid db db' \<longleftrightarrow> (machine_deleted mid db \<longrightarrow> machine_deleted mid db')"

text \<open>Nothing was sent, and the only statements end the operation without success.\<close>

definition only_ended :: "Operation \<Rightarrow> world \<Rightarrow> bool" where
  "only_ended x w \<longleftrightarrow> wo_sent w = [] \<and> (\<forall>(now, s, db) \<in> set (wo_done w). \<exists>err. s = complete (op_ID x) ''FAILED'' None err \<or> s = complete (op_ID x) ''SUPERSEDED'' None err)"

lemma only_ended_simps [simp]:
  "only_ended x (v\<lparr>wo_db := db\<rparr>) \<longleftrightarrow> only_ended x v" "only_ended x (failed z v) \<longleftrightarrow> only_ended x v" "only_ended x (v\<lparr>wo_notes := ns\<rparr>) \<longleftrightarrow> only_ended x v"
  "only_ended x (do_stmt now (complete (op_ID x) ''FAILED'' None err) v) \<longleftrightarrow> only_ended x v"
  "only_ended x (do_stmt now (complete (op_ID x) ''SUPERSEDED'' None err) v) \<longleftrightarrow> only_ended x v"
  by (auto simp: only_ended_def failed_def do_stmt_def)

lemma wp_ended:
  assumes "only_ended x v" "\<And>u. only_ended x u \<Longrightarrow> wp R (only_ended x) p (\<lambda>_ _. True) u" "st = ''FAILED'' \<or> st = ''SUPERSEDED''"
  shows "wp R (only_ended x) (end_with x st err p) (\<lambda>_ _. True) v"
  using assms by (auto simp: end_with_def)

lemma wp_given_up:
  "only_ended x v \<Longrightarrow> wp R (only_ended x) (reject x err) (\<lambda>_ _. True) v"
  "only_ended x v \<Longrightarrow> wp R (only_ended x) (give_up x ''FAILED'' err) (\<lambda>_ _. True) v"
  "only_ended x v \<Longrightarrow> wp R (only_ended x) (give_up x ''SUPERSEDED'' err) (\<lambda>_ _. True) v"
  by (simp_all add: reject_def give_up_def wp_ended)

lemma wp_read_deleted:
  assumes "machine_deleted mid (wo_db v)" "only_ended x v" "\<And>u e. only_ended x u \<Longrightarrow> machine_deleted mid (wo_db u) \<Longrightarrow> wp (keeps_deleted mid) (only_ended x) (k (Inl e)) Q u"
    and "\<And>u m. \<lbrakk>only_ended x u; machine_deleted mid (wo_db u); m_DesiredState m = ''DELETED''\<rbrakk> \<Longrightarrow> wp (keeps_deleted mid) (only_ended x) (k (Inr (Some m))) Q u"
  shows "wp (keeps_deleted mid) (only_ended x) (getMachine mid k) Q v"
proof -
  have "wp (keeps_deleted mid) (only_ended x) (k (Inr (GetMachine mid (pl_machines (cd_plane db))))) Q (v\<lparr>wo_db := db\<rparr>) \<and>
    (\<forall>e. wp (keeps_deleted mid) (only_ended x) (k (Inl e)) Q (v\<lparr>wo_db := db\<rparr>))" if "keeps_deleted mid (wo_db v) db" for db
  proof -
    have del: "machine_deleted mid (wo_db (v\<lparr>wo_db := db\<rparr>))" using that assms(1) by (simp add: keeps_deleted_def)
    then obtain m where "GetMachine mid (pl_machines (cd_plane db)) = Some m" "m_DesiredState m = ''DELETED''" by (auto simp: machine_deleted_def)
    then show ?thesis using assms(2-) del by simp
  qed
  then show ?thesis using assms(2) by (simp add: getMachine_def)
qed

lemma wp_deleted_create:
  assumes "op_Kind x = ''create''" "machine_deleted (op_MachineID x) (wo_db w)" "only_ended x w"
  shows "wp (keeps_deleted (op_MachineID x)) (only_ended x) (processOperation cfg c h x) (\<lambda>_ _. True) w"
proof -
  have "wp (keeps_deleted (op_MachineID x)) (only_ended x) (process_kind cfg c h x) (\<lambda>_ _. True) v"
    if "only_ended x v" "machine_deleted (op_MachineID x) (wo_db v)" for v
    using that assms(1) by (auto simp: process_kind_def processCreate_def wp_given_up split: sum.split intro!: wp_read_deleted)
  then show ?thesis using assms by (auto simp: processOperation_def intro!: wp_read_deleted wp_ended)
qed

text \<open>
  \<^bold>\<open>Claim C4.\<close> A create of a deleted machine reaches no agent: as long as nobody revives the machine, a dispatch of the create sends nothing, issues no lease and
  records no placement; the only statements it makes end the operation, as failed or as superseded.
\<close>

theorem deleted_machine_not_created:
  assumes "op_Kind x = ''create''" "machine_deleted (op_MachineID x) (wo_db w)" "wo_sent w = []" "wo_done w = []"
    and "within_rel (keeps_deleted (op_MachineID x)) s" "runs s (processOperation cfg c h x) w = (p, w')"
  shows "only_ended x w'"
  using wp_result[OF wp_deleted_create[OF assms(1,2)] assms(5,6)] assms(3,4) by (simp add: only_ended_def)

definition deleted_example :: world where
  "deleted_example = world_example\<lparr>wo_db := (wo_db world_example)\<lparr>cd_plane := (cd_plane (wo_db world_example))\<lparr>pl_machines := [machine_example\<lparr>m_DesiredState := ''DELETED''\<rparr>]\<rparr>\<rparr>\<rparr>"

definition deleted_schedule :: schedule where
  "deleted_schedule = [([], 1, Fails ''timeout''), ([], 2, Ok), ([], 3, Ok)]"

theorem deleted_machine_not_created_witness:
  "only_ended create_example (snd (runs deleted_schedule (processOperation config_example codec_example handlers_example create_example) deleted_example)) \<and>
   length (wo_done (snd (runs deleted_schedule (processOperation config_example codec_example handlers_example create_example) deleted_example))) = 1"
proof
  let ?r = "runs deleted_schedule (processOperation config_example codec_example handlers_example create_example) deleted_example"
  have "op_Kind create_example = ''create''" "op_MachineID create_example = ''m1''" by code_simp+
  moreover have "machine_deleted ''m1'' (wo_db deleted_example)" "wo_sent deleted_example = []" "wo_done deleted_example = []"
    by (simp_all add: machine_deleted_def GetMachine_def deleted_example_def world_example_def machine_example_def)
  moreover have "within_rel (keeps_deleted ''m1'') deleted_schedule" by (simp add: within_rel_def keeps_deleted_def deleted_schedule_def)
  ultimately show "only_ended create_example (snd ?r)"
    using deleted_machine_not_created[of create_example deleted_example deleted_schedule config_example codec_example handlers_example "fst ?r" "snd ?r"] by simp
  show "length (wo_done (snd ?r)) = 1" by code_simp
qed

end
