(* ===== verification/Rollouts.thy ===== *)
theory Rollouts
  imports RouteDerivation AutoscalePolicy Floats
begin

text \<open>
  Releases: the rollout rows of the store (\<open>internal/controlplane/store/apps.go\<close>) and the state machine that the
  controller drives over them (\<open>internal/controlplane/controller/apps.go\<close>, \<open>rollout.go\<close>, \<open>rollout_analysis.go\<close>,
  \<open>rollout_prometheus.go\<close>), with the scaling of an application to its replicas. A statement or transaction of the
  store is atomic; the row a controller acts on is an argument and may be older than the tables.
  Instants are nanoseconds; 0 is the zero \<open>time.Time\<close>. Events, metrics, the measured values in the reasons, the image prefetch and the egress
  audit row are left out.
\<close>

section \<open>Tables\<close>

text \<open>
  \<open>db_deletes\<close> and \<open>db_creates\<close> are the delete and create operations in the outbox: the machine of each
  delete; the application, deployment and ordinal of each create.
\<close>

record release_db =
  db_apps :: apps
  db_deployments :: "Deployment list"
  db_rollouts :: "Rollout list"
  db_machines :: "Machine list"
  db_deletes :: "string list"
  db_creates :: "(string \<times> string \<times> int) list"

datatype release_err =
    NoRows
  | DBFailed
  | ErrRolloutBusy
  | AppNotFound
  | TargetMissing
  | SourceMissing

definition active_for :: "string \<Rightarrow> Rollout \<Rightarrow> bool" where
  "active_for app r \<longleftrightarrow> ro_AppID r = app \<and> active_status (ro_Status r)"

definition ActiveRolloutForApp :: "string \<Rightarrow> release_db \<Rightarrow> Rollout option" where
  "ActiveRolloutForApp app db = List.find (active_for app) (db_rollouts db)"

definition ListDeployments :: "string \<Rightarrow> release_db \<Rightarrow> Deployment list" where
  "ListDeployments app db = sort_key (\<lambda>d. - dp_Generation d) (filter (\<lambda>d. dp_AppID d = app) (db_deployments db))"

definition ActiveDeploymentForApp :: "string \<Rightarrow> release_db \<Rightarrow> Deployment option" where
  "ActiveDeploymentForApp app db = List.find (\<lambda>d. dp_Status d = ''ACTIVE'') (ListDeployments app db)"

definition ListMachinesForApp :: "string \<Rightarrow> release_db \<Rightarrow> Machine list" where
  "ListMachinesForApp app db =
     sort_key (\<lambda>m. (m_ReplicaOrdinal m, m_Generation m)) (filter (\<lambda>m. m_AppID m = app \<and> m_DesiredState m \<noteq> ''DELETED'') (db_machines db))"

definition update_rollouts :: "(Rollout \<Rightarrow> bool) \<Rightarrow> (Rollout \<Rightarrow> Rollout) \<Rightarrow> release_db \<Rightarrow> release_db" where
  "update_rollouts P f db = db\<lparr>db_rollouts := map (\<lambda>r. if P r then f r else r) (db_rollouts db)\<rparr>"

definition set_deployment :: "string \<Rightarrow> string \<Rightarrow> release_db \<Rightarrow> release_db" where
  "set_deployment d status db =
     db\<lparr>db_deployments := map (\<lambda>x. if dp_ID x = d then x\<lparr>dp_Status := status\<rparr> else x) (db_deployments db)\<rparr>"

definition SetDeploymentStatus :: "tx_end \<Rightarrow> string \<Rightarrow> string \<Rightarrow> release_db \<Rightarrow> (release_err + unit) \<times> release_db" where
  "SetDeploymentStatus tx d status = inTx DBFailed tx (\<lambda>db. (Inr (), set_deployment d status db))"

section \<open>Moving a rollout\<close>

definition RolloutToCutover :: "tx_end \<Rightarrow> int \<Rightarrow> string \<Rightarrow> int \<Rightarrow> release_db \<Rightarrow> (release_err + unit) \<times> release_db" where
  "RolloutToCutover tx dbnow app deadline = inTx DBFailed tx (\<lambda>db.
     case ActiveRolloutForApp app db of
       None \<Rightarrow> (Inl NoRows, db)
     | Some r \<Rightarrow>
         if ro_Status r \<noteq> ''PREPARING'' then (Inr (), db)
         else (Inr (), update_rollouts (\<lambda>r. ro_AppID r = app \<and> ro_Status r = ''PREPARING'')
                (\<lambda>r. r\<lparr>ro_Status := ''CUTOVER'', ro_CutoverAt := Some dbnow, ro_DrainDeadline := Some deadline\<rparr>) db))"

definition RolloutToPaused :: "tx_end \<Rightarrow> string \<Rightarrow> release_db \<Rightarrow> (release_err + unit) \<times> release_db" where
  "RolloutToPaused tx app = inTx DBFailed tx (\<lambda>db.
     case ActiveRolloutForApp app db of
       None \<Rightarrow> (Inr (), db)
     | Some r \<Rightarrow>
         if ro_Status r \<noteq> ''PREPARING'' then (Inr (), db)
         else (Inr (), update_rollouts (\<lambda>r. ro_AppID r = app \<and> ro_Status r = ''PREPARING'') (\<lambda>r. r\<lparr>ro_Status := ''PAUSED_FOR_APPROVAL''\<rparr>) db))"

definition ApproveRollout :: "tx_end \<Rightarrow> int \<Rightarrow> string \<Rightarrow> string \<Rightarrow> int \<Rightarrow> release_db \<Rightarrow> (release_err + bool) \<times> release_db" where
  "ApproveRollout tx dbnow app who deadline = inTx DBFailed tx (\<lambda>db.
     let approver = (if who = '''' then ''unknown'' else who) in
     case ActiveRolloutForApp app db of
       None \<Rightarrow> (Inr False, db)
     | Some r \<Rightarrow>
         if ro_Status r \<noteq> ''PAUSED_FOR_APPROVAL'' then (Inr False, db)
         else (Inr True, update_rollouts (\<lambda>r. ro_AppID r = app \<and> ro_Status r = ''PAUSED_FOR_APPROVAL'')
                (\<lambda>r. r\<lparr>ro_Status := ''CUTOVER'', ro_CutoverAt := Some dbnow, ro_DrainDeadline := Some deadline,
                       ro_ApprovedBy := approver, ro_ApprovedAt := Some dbnow\<rparr>) db))"

definition RolloutToRollback :: "tx_end \<Rightarrow> string \<Rightarrow> release_db \<Rightarrow> (release_err + unit) \<times> release_db" where
  "RolloutToRollback tx app = inTx DBFailed tx (\<lambda>db.
     case ActiveRolloutForApp app db of
       None \<Rightarrow> (Inl NoRows, db)
     | Some r \<Rightarrow>
         if ro_Status r = ''ROLLING_BACK'' then (Inr (), db)
         else (Inr (), update_rollouts (\<lambda>r. ro_AppID r = app \<and> ro_Status r \<in> {''PREPARING'', ''CUTOVER'', ''PAUSED_FOR_APPROVAL''})
                (\<lambda>r. r\<lparr>ro_Status := ''ROLLING_BACK''\<rparr>) db))"

definition complete_rows :: "int \<Rightarrow> string \<Rightarrow> bool \<Rightarrow> release_db \<Rightarrow> release_db" where
  "complete_rows dbnow app failed =
     update_rollouts (active_for app) (\<lambda>r. r\<lparr>ro_Status := ''COMPLETE'', ro_Failed := failed, ro_CompletedAt := Some dbnow\<rparr>)"

definition CompleteRollout :: "tx_end \<Rightarrow> int \<Rightarrow> string \<Rightarrow> bool \<Rightarrow> release_db \<Rightarrow> (release_err + unit) \<times> release_db" where
  "CompleteRollout tx dbnow app failed = inTx DBFailed tx (\<lambda>db.
     case ActiveRolloutForApp app db of None \<Rightarrow> (Inl NoRows, db) | Some _ \<Rightarrow> (Inr (), complete_rows dbnow app failed db))"

text \<open>An empty identifier or status leaves the deployment alone.\<close>

definition maybe_set :: "string \<Rightarrow> string \<Rightarrow> release_db \<Rightarrow> release_db" where
  "maybe_set d status db = (if d \<noteq> '''' \<and> status \<noteq> '''' then set_deployment d status db else db)"

definition CompleteRolloutWithStatus :: "tx_end \<Rightarrow> int \<Rightarrow> string \<Rightarrow> bool \<Rightarrow> string \<times> string \<Rightarrow> string \<times> string \<Rightarrow> release_db \<Rightarrow>
    (release_err + unit) \<times> release_db" where
  "CompleteRolloutWithStatus tx dbnow app failed newDep oldDep = inTx DBFailed tx (\<lambda>db.
     case ActiveRolloutForApp app db of
       None \<Rightarrow> (Inr (), db)
     | Some _ \<Rightarrow> (Inr (), maybe_set (fst oldDep) (snd oldDep) (maybe_set (fst newDep) (snd newDep) (complete_rows dbnow app failed db))))"

definition new_rollout :: "int \<Rightarrow> Rollout \<Rightarrow> Rollout" where
  "new_rollout dbnow r =
     \<lparr>ro_ID = ro_ID r, ro_AppID = ro_AppID r, ro_FromGeneration = ro_FromGeneration r, ro_ToGeneration = ro_ToGeneration r,
      ro_Status = ''PREPARING'', ro_Failed = False, ro_CutoverAt = None, ro_DrainDeadline = None, ro_StartedAt = dbnow,
      ro_CompletedAt = None, ro_CanaryWeight = NormalizeCanaryWeight (ro_CanaryWeight r), ro_ApprovalRequired = ro_ApprovalRequired r,
      ro_ApprovedBy = '''', ro_ApprovedAt = None\<rparr>"

text \<open>The insertion meets the primary key and the unique index on the active rollout of an application; either is the busy error.\<close>

definition CreateRollout :: "int \<Rightarrow> Rollout \<Rightarrow> release_db \<Rightarrow> (release_err + unit) \<times> release_db" where
  "CreateRollout dbnow r db =
     (if ro_ID r \<in> ro_ID ` set (db_rollouts db) \<or> ActiveRolloutForApp (ro_AppID r) db \<noteq> None then (Inl ErrRolloutBusy, db)
      else (Inr (), db\<lparr>db_rollouts := db_rollouts db @ [new_rollout dbnow r]\<rparr>))"

definition DeployApp :: "tx_end \<Rightarrow> int \<Rightarrow> Deployment \<Rightarrow> Rollout \<Rightarrow> int \<Rightarrow> release_db \<Rightarrow> (release_err + unit) \<times> release_db" where
  "DeployApp tx dbnow d r generation = inTx DBFailed tx (\<lambda>db.
     case mget (db_apps db) (ro_AppID r) of
       None \<Rightarrow> (Inl AppNotFound, db)
     | Some a \<Rightarrow>
         if app_Deleted a then (Inl AppNotFound, db)
         else if ActiveRolloutForApp (ro_AppID r) db \<noteq> None then (Inl ErrRolloutBusy, db)
         else if \<exists>x \<in> set (db_deployments db). dp_ID x = dp_ID d \<or> dp_AppID x = dp_AppID d \<and> dp_Generation x = dp_Generation d
         then (Inl DBFailed, db)
         else (case CreateRollout dbnow r (db\<lparr>db_deployments := db_deployments db @ [d]\<rparr>) of
                 (Inl e, db1) \<Rightarrow> (Inl e, db1)
               | (Inr _, db1) \<Rightarrow> (Inr (), db1\<lparr>db_apps := mset_at (ro_AppID r) (a\<lparr>app_Generation := generation\<rparr>) (db_apps db1)\<rparr>)))"

text \<open>The tombstone and the deletes of all machines in one transaction; a conflict of one delete rolls back everything.\<close>

definition soft_delete_rows :: "int \<Rightarrow> string \<Rightarrow> App \<Rightarrow> release_db \<Rightarrow> release_db" where
  "soft_delete_rows dbnow app a db =
     (let db1 = db\<lparr>db_apps := mset_at app (a\<lparr>app_Deleted := True, app_DesiredReplicas := 0\<rparr>) (db_apps db)\<rparr>;
          db2 = complete_rows dbnow app True db1 in
      db2\<lparr>db_deployments := map (\<lambda>d. if dp_AppID d = app \<and> dp_Status d = ''ACTIVE'' then d\<lparr>dp_Status := ''SUPERSEDED''\<rparr> else d) (db_deployments db2)\<rparr>)"

definition SoftDeleteApp :: "tx_end \<Rightarrow> int \<Rightarrow> string \<Rightarrow> release_db \<Rightarrow> (release_err + unit) \<times> release_db" where
  "SoftDeleteApp tx dbnow app = inTx DBFailed tx (\<lambda>db.
     case mget (db_apps db) app of
       None \<Rightarrow> (Inr (), db)
     | Some a \<Rightarrow> if app_Deleted a then (Inr (), db) else (Inr (), soft_delete_rows dbnow app a db))"

record AppDeleteResult =
  ad_AlreadyDeleted :: bool
  ad_Pending :: nat

definition SoftDeleteAppAndEnqueueDeletes :: "tx_end \<Rightarrow> int \<Rightarrow> (string \<Rightarrow> bool) \<Rightarrow> string \<Rightarrow> release_db \<Rightarrow>
    (release_err + AppDeleteResult) \<times> release_db" where
  "SoftDeleteAppAndEnqueueDeletes tx dbnow enqueued app = inTx DBFailed tx (\<lambda>db.
     case mget (db_apps db) app of
       None \<Rightarrow> (Inl AppNotFound, db)
     | Some a \<Rightarrow>
         (let db1 = (if app_Deleted a then db else soft_delete_rows dbnow app a db);
              ms = ListMachinesForApp app db1 in
          if list_all (\<lambda>m. enqueued (m_ID m)) ms
          then (Inr \<lparr>ad_AlreadyDeleted = app_Deleted a, ad_Pending = length ms\<rparr>, db1\<lparr>db_deletes := db_deletes db1 @ map m_ID ms\<rparr>)
          else (Inl DBFailed, db1)))"

section \<open>Configuration and analysis\<close>

record RolloutConfig =
  rc_RolloutTimeout :: int
  rc_RolloutDrainGrace :: int
  rc_CutoverAnalysisWindow :: int
  rc_CutoverMinServingRatio :: rat
  rc_CutoverZeroServingGrace :: int
  rc_PrometheusAddr :: string
  rc_CutoverMaxErrorRate :: rat
  rc_CutoverP99LatencySec :: rat

definition rolloutDefaultTimeout :: int where "rolloutDefaultTimeout = 300 * 10 ^ 9"
definition rolloutDefaultDrainGrace :: int where "rolloutDefaultDrainGrace = 30 * 10 ^ 9"

definition rolloutTimeout :: "RolloutConfig \<Rightarrow> int" where
  "rolloutTimeout c = (if 0 < rc_RolloutTimeout c then rc_RolloutTimeout c else rolloutDefaultTimeout)"

definition rolloutDrainGrace :: "RolloutConfig \<Rightarrow> int" where
  "rolloutDrainGrace c = (if 0 < rc_RolloutDrainGrace c then rc_RolloutDrainGrace c else rolloutDefaultDrainGrace)"

datatype CutoverVerdict = VerdictWait | VerdictProceed | VerdictRollback

text \<open>An \<open>AnalysisProvider\<close>: the application, the rollout, the machines of the new generation, whether the window is over, the time.\<close>

type_synonym provider = "App \<Rightarrow> Rollout \<Rightarrow> Machine list \<Rightarrow> bool \<Rightarrow> int \<Rightarrow> CutoverVerdict \<times> string"

definition servingOrdinals :: "Machine list \<Rightarrow> nat" where
  "servingOrdinals ms = card (m_ReplicaOrdinal ` set (filter machineServing ms))"

definition cutoverBase :: "Rollout \<Rightarrow> int" where
  "cutoverBase r = (case ro_CutoverAt r of Some t \<Rightarrow> if t \<noteq> 0 then t else ro_StartedAt r | None \<Rightarrow> ro_StartedAt r)"

definition cutoverAnalysisEnd :: "Rollout \<Rightarrow> int \<Rightarrow> int \<Rightarrow> int" where
  "cutoverAnalysisEnd r window fallback = (if 0 < window then cutoverBase r + window else fallback)"

text \<open>\<open>CutoverAnalysisConfig.normalized\<close>, as the pair of ratio and grace.\<close>

definition normalized :: "rat \<Rightarrow> int \<Rightarrow> rat \<times> int" where
  "normalized ratio grace =
     (if ratio \<le> 0 then 1 else if 1 < ratio then 1 else ratio, if grace \<le> 0 then 30 * 10 ^ 9 else grace)"

definition serving_ratio_AssessCutover :: "rat \<times> int \<Rightarrow> provider" where
  "serving_ratio_AssessCutover cfg app r toMachines atWindowEnd now =
     (let desired = app_DesiredReplicas app; serving = servingOrdinals toMachines in
      if desired \<le> 0 then (VerdictProceed, ''no desired replicas: nothing to observe'')
      else if serving = 0 \<and> cutoverBase r + snd cfg \<le> now
      then (VerdictRollback, ''new generation serves zero traffic past grace; auto-rollback'')
      else if \<not> atWindowEnd then (VerdictWait, ''within observation window'')
      else if fst cfg \<le> fdiv (float_of_int (int serving)) (float_of_int desired) then (VerdictProceed, ''new generation meets serving ratio'')
      else (VerdictRollback, ''new generation below serving ratio at window end; auto-rollback''))"

text \<open>A query answers an error or a sample; \<open>None\<close> is the sample \<open>NaN\<close>, which exceeds no bound.\<close>

type_synonym sample = "string + rat option"

definition exceeds :: "rat option \<Rightarrow> rat \<Rightarrow> bool" where
  "exceeds v limit \<longleftrightarrow> (case v of None \<Rightarrow> False | Some x \<Rightarrow> limit < x)"

definition queryFailure :: "bool \<Rightarrow> string \<Rightarrow> CutoverVerdict \<times> string" where
  "queryFailure atWindowEnd reason =
     (if \<not> atWindowEnd then (VerdictWait, reason @ '' query failed (waiting)'') else (VerdictRollback, reason @ '' unavailable at window end; auto-rollback''))"

definition prometheus_AssessCutover :: "sample \<Rightarrow> sample \<Rightarrow> rat \<Rightarrow> rat \<Rightarrow> provider" where
  "prometheus_AssessCutover errorRate p99 maxErrorRate maxP99 app r toMachines atWindowEnd now =
     (let rate_gate = (if 0 < maxErrorRate then
             (case errorRate of
                Inl _ \<Rightarrow> Some (queryFailure atWindowEnd ''prometheus error-rate'')
              | Inr v \<Rightarrow> if exceeds v maxErrorRate then Some (VerdictRollback, ''to-generation error rate; auto-rollback'') else None)
           else None);
          p99_gate = (if 0 < maxP99 then
             (case p99 of
                Inl _ \<Rightarrow> Some (queryFailure atWindowEnd ''prometheus p99'')
              | Inr v \<Rightarrow> if exceeds v maxP99 then Some (VerdictRollback, ''to-generation p99; auto-rollback'') else None)
           else None) in
      if maxErrorRate \<le> 0 \<and> maxP99 \<le> 0 then (VerdictWait, ''prometheus analysis disabled'')
      else if app_Hostname app = '''' \<or> ro_ToGeneration r \<le> 0 then (VerdictWait, ''prometheus analysis: missing host/generation'')
      else case rate_gate of
        Some v \<Rightarrow> v
      | None \<Rightarrow> (case p99_gate of
          Some v \<Rightarrow> v
        | None \<Rightarrow> if \<not> atWindowEnd then (VerdictWait, ''within observation window'')
                  else (VerdictProceed, ''to-generation meets error-rate/latency gates'')))"

fun composite_run :: "provider list \<Rightarrow> string list \<Rightarrow> provider" where
  "composite_run [] reasons app r ms atEnd now =
     (if reasons \<noteq> [] then (VerdictWait, ''waiting: '' @ join ''; '' reasons) else (VerdictProceed, ''all analyses proceed''))"
| "composite_run (p # ps) reasons app r ms atEnd now =
     (case p app r ms atEnd now of
        (VerdictRollback, reason) \<Rightarrow> (VerdictRollback, reason)
      | (VerdictWait, reason) \<Rightarrow> composite_run ps (reasons @ [reason]) app r ms atEnd now
      | (VerdictProceed, _) \<Rightarrow> composite_run ps reasons app r ms atEnd now)"

definition composite_AssessCutover :: "provider list \<Rightarrow> provider" where
  "composite_AssessCutover ps = composite_run ps []"

text \<open>\<open>custom\<close> is the provider of the configuration, if any; \<open>samples\<close> the answers to the two queries.\<close>

definition cutoverAssessment :: "RolloutConfig \<Rightarrow> provider option \<Rightarrow> sample \<times> sample \<Rightarrow> provider" where
  "cutoverAssessment c custom samples =
     (let builtin = serving_ratio_AssessCutover (normalized (rc_CutoverMinServingRatio c) (rc_CutoverZeroServingGrace c)) in
      case custom of
        Some p \<Rightarrow> p
      | None \<Rightarrow>
          if rc_PrometheusAddr c = '''' \<or> rc_CutoverMaxErrorRate c \<le> 0 \<and> rc_CutoverP99LatencySec c \<le> 0 then builtin
          else composite_AssessCutover [builtin,
            prometheus_AssessCutover (fst samples) (snd samples) (rc_CutoverMaxErrorRate c) (rc_CutoverP99LatencySec c)])"

section \<open>The controller\<close>

definition deploymentForGeneration :: "string \<Rightarrow> int \<Rightarrow> release_db \<Rightarrow> Deployment option" where
  "deploymentForGeneration app gen db = List.find (\<lambda>d. dp_Generation d = gen) (ListDeployments app db)"

definition allReady :: "Machine list \<Rightarrow> int \<Rightarrow> bool" where
  "allReady ms replicas \<longleftrightarrow> (\<forall>i \<in> set [0..<nat replicas]. int i \<in> m_ReplicaOrdinal ` set (filter machineServing ms))"

definition approvalGateApplies :: "Rollout \<Rightarrow> Deployment \<Rightarrow> bool" where
  "approvalGateApplies r d \<longleftrightarrow>
     ro_ApprovalRequired r \<or> NormalizeCanaryWeight (ro_CanaryWeight r) \<noteq> 0 \<and> EffectiveStrategy d = ''rolling''"

definition rollingOldGenerationDeleteAllowed :: "string \<Rightarrow> Machine list \<Rightarrow> int \<Rightarrow> bool" where
  "rollingOldGenerationDeleteAllowed status target replicas \<longleftrightarrow> status = ''CUTOVER'' \<and> allReady target replicas"

text \<open>
  What one pass over a rollout meets: the clock readings of the controller and of the database, the end of its
  transaction, a failing read of the target or of the machines, a failing read of the source deployment, the machines whose creates are exhausted, the machines whose
  delete can be enqueued, and the analysis inputs.
\<close>

record tick_env =
  tk_now :: int
  tk_later :: int
  tk_dbnow :: int
  tk_tx :: tx_end
  tk_listFails :: bool
  tk_fromFails :: bool
  tk_exhausted :: "string \<Rightarrow> bool"
  tk_enqueue :: "string \<Rightarrow> bool"
  tk_custom :: "provider option"
  tk_samples :: "sample \<times> sample"

text \<open>What a pass did.\<close>

datatype tick = Stays | PausedForApproval | CutOver | RollbackStarted string | Completed | RolledBack

definition ticked :: "tick \<Rightarrow> (release_err + 'a) \<times> release_db \<Rightarrow> (release_err + tick) \<times> release_db" where
  "ticked t res = (case res of (Inl e, db) \<Rightarrow> (Inl e, db) | (Inr _, db) \<Rightarrow> (Inr t, db))"

definition startRollback :: "tick_env \<Rightarrow> Rollout \<Rightarrow> string \<Rightarrow> release_db \<Rightarrow> (release_err + tick) \<times> release_db" where
  "startRollback env r reason db = ticked (RollbackStarted reason) (RolloutToRollback (tk_tx env) (ro_AppID r) db)"

text \<open>The result of enqueueing a delete is ignored.\<close>

definition enqueueUserDelete :: "tick_env \<Rightarrow> Machine \<Rightarrow> release_db \<Rightarrow> release_db" where
  "enqueueUserDelete env m db = (if tk_enqueue env (m_ID m) then db\<lparr>db_deletes := db_deletes db @ [m_ID m]\<rparr> else db)"

definition source_deployment :: "tick_env \<Rightarrow> App \<Rightarrow> Rollout \<Rightarrow> release_db \<Rightarrow> Deployment option" where
  "source_deployment env app r db = (if tk_fromFails env then None else deploymentForGeneration (app_ID app) (ro_FromGeneration r) db)"

definition preparing_step :: "RolloutConfig \<Rightarrow> tick_env \<Rightarrow> App \<Rightarrow> Rollout \<Rightarrow> Deployment \<Rightarrow> Machine list \<Rightarrow> release_db \<Rightarrow>
    (release_err + tick) \<times> release_db" where
  "preparing_step c env app r newDep toMachines db =
     (if ro_StartedAt r = 0 then startRollback env r ''preparing timeout (missing started_at), rollback'' db
      else if rolloutTimeout c < tk_now env - ro_StartedAt r then startRollback env r ''preparing timeout, rollback'' db
      else if \<exists>m \<in> set toMachines. tk_exhausted env (m_ID m) then startRollback env r ''create retries exhausted, rollback'' db
      else if allReady toMachines (app_DesiredReplicas app) then
        (if approvalGateApplies r newDep then ticked PausedForApproval (RolloutToPaused (tk_tx env) (app_ID app) db)
         else ticked CutOver (RolloutToCutover (tk_tx env) (tk_dbnow env) (app_ID app) (tk_later env + rolloutDrainGrace c) db))
      else (Inr Stays, db))"

definition cutover_step :: "RolloutConfig \<Rightarrow> tick_env \<Rightarrow> App \<Rightarrow> Rollout \<Rightarrow> Deployment \<Rightarrow> Machine list \<Rightarrow> release_db \<Rightarrow>
    (release_err + tick) \<times> release_db" where
  "cutover_step c env app r newDep machines db =
     (case ro_DrainDeadline r of
        None \<Rightarrow> (Inr Stays, db)
      | Some drain \<Rightarrow>
          (let toMachines = filter (\<lambda>m. m_DeploymentID m = dp_ID newDep) machines;
               decisionAt = max drain (cutoverAnalysisEnd r (rc_CutoverAnalysisWindow c) drain);
               atEnd = (decisionAt \<le> tk_now env);
               verdict = cutoverAssessment c (tk_custom env) (tk_samples env) app r toMachines atEnd (tk_now env) in
           if fst verdict = VerdictRollback then startRollback env r (snd verdict) db
           else if \<not> atEnd then (Inr Stays, db)
           else if \<not> rollingOldGenerationDeleteAllowed (ro_Status r) toMachines (app_DesiredReplicas app) then (Inr Stays, db)
           else
             (let db1 = fold (enqueueUserDelete env) (filter (\<lambda>m. m_DeploymentID m \<noteq> dp_ID newDep) machines) db;
                  oldDep = (case source_deployment env app r db1 of
                     None \<Rightarrow> ('''', '''') | Some d \<Rightarrow> (dp_ID d, ''SUPERSEDED'')) in
              ticked Completed (CompleteRolloutWithStatus (tk_tx env) (tk_dbnow env) (app_ID app) False (dp_ID newDep, ''ACTIVE'') oldDep db1))))"

definition rollback_step :: "tick_env \<Rightarrow> App \<Rightarrow> Rollout \<Rightarrow> Deployment \<Rightarrow> Machine list \<Rightarrow> release_db \<Rightarrow> (release_err + tick) \<times> release_db" where
  "rollback_step env app r newDep machines db =
     (case source_deployment env app r db of
        None \<Rightarrow> (Inl SourceMissing, db)
      | Some oldDep \<Rightarrow>
          if \<not> allReady (filter (\<lambda>m. m_DeploymentID m = dp_ID oldDep) machines) (app_DesiredReplicas app) then (Inr Stays, db)
          else
            (let remaining = filter (\<lambda>m. m_DeploymentID m = dp_ID newDep \<and> m_DesiredState m \<noteq> ''DELETED'') machines;
                 db1 = fold (enqueueUserDelete env) remaining db in
             if remaining \<noteq> [] then (Inr Stays, db1)
             else ticked RolledBack (CompleteRolloutWithStatus (tk_tx env) (tk_dbnow env) (app_ID app) True (dp_ID newDep, ''FAILED'') (dp_ID oldDep, ''ACTIVE'') db1)))"

definition reconcileRollout :: "RolloutConfig \<Rightarrow> tick_env \<Rightarrow> App \<Rightarrow> Rollout \<Rightarrow> release_db \<Rightarrow> (release_err + tick) \<times> release_db" where
  "reconcileRollout c env app r db =
     (case deploymentForGeneration (app_ID app) (ro_ToGeneration r) db of
        None \<Rightarrow> (Inl TargetMissing, db)
      | Some newDep \<Rightarrow>
          if tk_listFails env then (Inl DBFailed, db)
          else
            (let machines = ListMachinesForApp (app_ID app) db in
             if ro_Status r = ''PREPARING''
             then preparing_step c env app r newDep (filter (\<lambda>m. m_DeploymentID m = dp_ID newDep) machines) db
             else if ro_Status r = ''CUTOVER'' then cutover_step c env app r newDep machines db
             else if ro_Status r = ''ROLLING_BACK'' then rollback_step env app r newDep machines db
             else (Inr Stays, db)))"

subsection \<open>Who owns the machines of a rollout\<close>

definition rolloutHoldDecision :: "string \<Rightarrow> int \<Rightarrow> int \<Rightarrow> int \<Rightarrow> bool" where
  "rolloutHoldDecision status depGen fromGen toGen =
     (if status = ''PREPARING'' \<or> status = ''PAUSED_FOR_APPROVAL'' then depGen = toGen
      else if status = ''CUTOVER'' then depGen \<noteq> toGen
      else if status = ''ROLLING_BACK'' then depGen \<noteq> fromGen
      else False)"

definition rolloutOwnsReplacement :: "string \<Rightarrow> int \<Rightarrow> int \<Rightarrow> int \<Rightarrow> bool" where
  "rolloutOwnsReplacement status depGen fromGen toGen =
     (if status = ''PREPARING'' \<or> status = ''CUTOVER'' \<or> status = ''PAUSED_FOR_APPROVAL'' then depGen = toGen
      else if status = ''ROLLING_BACK'' then depGen = fromGen
      else False)"

text \<open>The two queries of the callers, each with its error.\<close>

definition rolloutHoldsRecreate :: "(release_err + Rollout option) \<Rightarrow> (release_err + Deployment option) \<Rightarrow> Machine \<Rightarrow> bool" where
  "rolloutHoldsRecreate rollout dep m =
     (if m_DeploymentID m = '''' then False
      else case rollout of
        Inl _ \<Rightarrow> True
      | Inr None \<Rightarrow> False
      | Inr (Some rl) \<Rightarrow>
          (case dep of
             Inr (Some d) \<Rightarrow> rolloutHoldDecision (ro_Status rl) (dp_Generation d) (ro_FromGeneration rl) (ro_ToGeneration rl)
           | _ \<Rightarrow> True))"

definition rolloutRepairsMachine :: "(release_err + Rollout option) \<Rightarrow> (release_err + Deployment option) \<Rightarrow> bool" where
  "rolloutRepairsMachine rollout dep =
     (case (rollout, dep) of
        (Inr (Some rl), Inr (Some d)) \<Rightarrow> rolloutOwnsReplacement (ro_Status rl) (dp_Generation d) (ro_FromGeneration rl) (ro_ToGeneration rl)
      | _ \<Rightarrow> False)"

subsection \<open>Scaling an application\<close>

definition targetDeployment :: "string \<Rightarrow> release_db \<Rightarrow> Deployment option" where
  "targetDeployment app db =
     (case ActiveRolloutForApp app db of
        Some r \<Rightarrow> deploymentForGeneration app (if ro_Status r = ''ROLLING_BACK'' then ro_FromGeneration r else ro_ToGeneration r) db
      | None \<Rightarrow> ActiveDeploymentForApp app db)"

definition rollingBatchSize :: "int \<Rightarrow> int" where
  "rollingBatchSize replicas = (if replicas div 4 < 1 then 1 else replicas div 4)"

definition rolling_limit :: "App \<Rightarrow> Deployment \<Rightarrow> Machine list \<Rightarrow> release_db \<Rightarrow> int option" where
  "rolling_limit app target machines db =
     (case ActiveRolloutForApp (app_ID app) db of
        None \<Rightarrow> None
      | Some r \<Rightarrow>
          if (ro_Status r = ''PREPARING'' \<or> ro_Status r = ''PAUSED_FOR_APPROVAL'') \<and> ro_ToGeneration r = dp_Generation target \<and>
             EffectiveStrategy target = ''rolling''
          then Some (int (servingOrdinals (filter (\<lambda>m. m_DeploymentID m = dp_ID target) machines)) + rollingBatchSize (app_DesiredReplicas app))
          else None)"

definition missing_ordinals :: "App \<Rightarrow> Deployment \<Rightarrow> Machine list \<Rightarrow> int option \<Rightarrow> int list" where
  "missing_ordinals app target machines limit =
     filter (\<lambda>i. i \<notin> m_ReplicaOrdinal ` set (filter (\<lambda>m. m_DeploymentID m = dp_ID target) machines) \<and>
                 (case limit of None \<Rightarrow> True | Some n \<Rightarrow> i < n)) (map int [0..<nat (app_DesiredReplicas app)])"

text \<open>
  \<open>created i\<close> says whether the create of an ordinal could be enqueued. The decisions are taken on the state read
  at the start.
\<close>

definition reconcileApp :: "tick_env \<Rightarrow> (int \<Rightarrow> bool) \<Rightarrow> App \<Rightarrow> release_db \<Rightarrow> (release_err + unit) \<times> release_db" where
  "reconcileApp env created app db =
     (if app_Deleted app then (Inr (), db)
      else case targetDeployment (app_ID app) db of
        None \<Rightarrow> (Inr (), db)
      | Some target \<Rightarrow>
          if tk_listFails env then (Inl DBFailed, db)
          else
            (let machines = ListMachinesForApp (app_ID app) db;
                 ordinals = missing_ordinals app target machines (rolling_limit app target machines db);
                 db1 = db\<lparr>db_creates := db_creates db @ map (\<lambda>i. (app_ID app, dp_ID target, i)) (filter created ordinals)\<rparr>;
                 surplus = filter (\<lambda>m. m_DeploymentID m = dp_ID target \<and> app_DesiredReplicas app \<le> m_ReplicaOrdinal m \<and>
                   m_DesiredState m \<noteq> ''DELETED'') machines in
             (Inr (), fold (enqueueUserDelete env) surplus db1)))"

subsection \<open>The pass over all applications\<close>

text \<open>
  What a whole pass meets: the failure of the list of rollouts and of the list of applications, the failing reads
  of an application, and the environment of each rollout and of each application.
\<close>

record pass_env =
  ps_listRollouts :: bool
  ps_listApps :: bool
  ps_getFails :: "string \<Rightarrow> bool"
  ps_rollout :: "string \<Rightarrow> tick_env"
  ps_app :: "string \<Rightarrow> tick_env \<times> (int \<Rightarrow> bool)"

text \<open>The error of one rollout is logged; an application that cannot be read ends the pass.\<close>

fun reconcile_rows :: "RolloutConfig \<Rightarrow> pass_env \<Rightarrow> Rollout list \<Rightarrow> release_db \<Rightarrow> (release_err + unit) \<times> release_db" where
  "reconcile_rows c p [] db = (Inr (), db)"
| "reconcile_rows c p (r # rs) db =
     (if ps_getFails p (ro_AppID r) then (Inl DBFailed, db)
      else case mget (db_apps db) (ro_AppID r) of
        None \<Rightarrow> reconcile_rows c p rs db
      | Some app \<Rightarrow> reconcile_rows c p rs (snd (reconcileRollout c (ps_rollout p (ro_ID r)) app r db)))"

definition reconcileRollouts :: "RolloutConfig \<Rightarrow> pass_env \<Rightarrow> release_db \<Rightarrow> (release_err + unit) \<times> release_db" where
  "reconcileRollouts c p db =
     (if ps_listRollouts p then (Inl DBFailed, db) else reconcile_rows c p (ListActiveRollouts (db_rollouts db)) db)"

definition live_apps :: "release_db \<Rightarrow> App list" where
  "live_apps db = sort_key app_ID (filter (\<lambda>a. \<not> app_Deleted a) (map snd (db_apps db)))"

definition reconcileAppScale :: "pass_env \<Rightarrow> release_db \<Rightarrow> (release_err + unit) \<times> release_db" where
  "reconcileAppScale p db =
     (if ps_listApps p then (Inl DBFailed, db)
      else (Inr (), fold (\<lambda>app db. snd (reconcileApp (fst (ps_app p (app_ID app))) (snd (ps_app p (app_ID app))) app db)) (live_apps db) db))"

definition reconcileApps :: "RolloutConfig \<Rightarrow> pass_env \<Rightarrow> release_db \<Rightarrow> (release_err + unit) \<times> release_db" where
  "reconcileApps c p db =
     (case reconcileRollouts c p db of
        (Inl e, db1) \<Rightarrow> (Inl e, db1)
      | (Inr _, db1) \<Rightarrow> reconcileAppScale p db1)"

section \<open>What the operations keep\<close>

text \<open>
  The calls that reach the tables: the API (deploy, approve, roll back, delete), the controller's passes, whose
  application and rollout rows may be older than the tables, and the store's remaining moves.
\<close>

datatype release_op =
    Deploy Deployment Rollout int
  | Approve string string int
  | UserRollback string
  | ToCutover string int
  | ToPaused string
  | Finish string bool
  | DeleteApp string
  | DeleteAppAndMachines "string \<Rightarrow> bool" string
  | SetStatus string string
  | RolloutPass RolloutConfig tick_env App Rollout
  | ScalePass tick_env "int \<Rightarrow> bool" App
  | ControllerPass RolloutConfig pass_env

definition release_run :: "tx_end \<Rightarrow> int \<Rightarrow> release_op \<Rightarrow> release_db \<Rightarrow> release_db" where
  "release_run tx dbnow x db =
     (case x of
        Deploy d r g \<Rightarrow> snd (DeployApp tx dbnow d r g db)
      | Approve app who deadline \<Rightarrow> snd (ApproveRollout tx dbnow app who deadline db)
      | UserRollback app \<Rightarrow> snd (RolloutToRollback tx app db)
      | ToCutover app deadline \<Rightarrow> snd (RolloutToCutover tx dbnow app deadline db)
      | ToPaused app \<Rightarrow> snd (RolloutToPaused tx app db)
      | Finish app failed \<Rightarrow> snd (CompleteRollout tx dbnow app failed db)
      | DeleteApp app \<Rightarrow> snd (SoftDeleteApp tx dbnow app db)
      | DeleteAppAndMachines enqueued app \<Rightarrow> snd (SoftDeleteAppAndEnqueueDeletes tx dbnow enqueued app db)
      | SetStatus d status \<Rightarrow> snd (SetDeploymentStatus tx d status db)
      | RolloutPass c env app r \<Rightarrow> snd (reconcileRollout c env app r db)
      | ScalePass env created app \<Rightarrow> snd (reconcileApp env created app db)
      | ControllerPass c p \<Rightarrow> snd (reconcileApps c p db))"

fun release_runs :: "(tx_end \<times> int \<times> release_op) list \<Rightarrow> release_db \<Rightarrow> release_db" where
  "release_runs [] db = db"
| "release_runs ((tx, dbnow, x) # xs) db = release_runs xs (release_run tx dbnow x db)"

text \<open>The states in the order in which a rollout passes through them.\<close>

definition stage :: "string \<Rightarrow> nat" where
  "stage s =
     (if s = ''PREPARING'' then 0 else if s = ''PAUSED_FOR_APPROVAL'' then 1 else if s = ''CUTOVER'' then 2
      else if s = ''ROLLING_BACK'' then 3 else 4)"

definition rollout_wf :: "Rollout \<Rightarrow> bool" where
  "rollout_wf r \<longleftrightarrow>
     ro_Status r \<in> {''PREPARING'', ''PAUSED_FOR_APPROVAL'', ''CUTOVER'', ''ROLLING_BACK'', ''COMPLETE''} \<and>
     (ro_Status r = ''CUTOVER'' \<longrightarrow> ro_CutoverAt r \<noteq> None \<and> ro_DrainDeadline r \<noteq> None) \<and>
     (ro_CutoverAt r = None \<longleftrightarrow> ro_DrainDeadline r = None) \<and>
     (ro_Status r \<in> {''PREPARING'', ''PAUSED_FOR_APPROVAL''} \<longrightarrow> ro_CutoverAt r = None) \<and>
     (ro_CompletedAt r \<noteq> None \<longleftrightarrow> ro_Status r = ''COMPLETE'') \<and>
     (ro_Failed r \<longrightarrow> ro_Status r = ''COMPLETE'') \<and>
     (ro_ApprovedAt r = None \<longleftrightarrow> ro_ApprovedBy r = '''') \<and>
     (ro_ApprovedAt r \<noteq> None \<longrightarrow> ro_CutoverAt r \<noteq> None) \<and>
     0 \<le> ro_CanaryWeight r \<and> ro_CanaryWeight r \<le> 99"

definition one_active :: "Rollout list \<Rightarrow> bool" where
  "one_active rs \<longleftrightarrow> distinct (map ro_AppID (filter (\<lambda>r. active_status (ro_Status r)) rs))"

definition release_ok :: "release_db \<Rightarrow> bool" where
  "release_ok db \<longleftrightarrow> list_all rollout_wf (db_rollouts db) \<and> one_active (db_rollouts db) \<and> distinct (map ro_ID (db_rollouts db))"

text \<open>How a row may have changed: what it is about stays, it moves forward, and a complete row stays as it is.\<close>

definition row_forward :: "Rollout \<Rightarrow> Rollout \<Rightarrow> bool" where
  "row_forward r r' \<longleftrightarrow>
     ro_ID r' = ro_ID r \<and> ro_AppID r' = ro_AppID r \<and> ro_FromGeneration r' = ro_FromGeneration r \<and>
     ro_ToGeneration r' = ro_ToGeneration r \<and> ro_StartedAt r' = ro_StartedAt r \<and> ro_CanaryWeight r' = ro_CanaryWeight r \<and>
     stage (ro_Status r) \<le> stage (ro_Status r') \<and> (ro_Status r = ''COMPLETE'' \<longrightarrow> r' = r)"

definition rows_forward :: "Rollout list \<Rightarrow> Rollout list \<Rightarrow> bool" where
  "rows_forward rs rs' \<longleftrightarrow> length rs \<le> length rs' \<and> list_all2 row_forward rs (take (length rs) rs')"

text \<open>The changes of a move: row-wise, or one new row.\<close>

inductive rollouts_step :: "Rollout list \<Rightarrow> Rollout list \<Rightarrow> bool" where
  rows: "\<lbrakk>\<And>r. r \<in> set rs \<Longrightarrow> rollout_wf r \<Longrightarrow> rollout_wf (f r) \<and> row_forward r (f r)\<rbrakk> \<Longrightarrow> rollouts_step rs (map f rs)"
| added: "\<lbrakk>rollout_wf r; ro_ID r \<notin> ro_ID ` set rs; \<forall>x \<in> set rs. active_status (ro_Status x) \<longrightarrow> ro_AppID x \<noteq> ro_AppID r\<rbrakk>
    \<Longrightarrow> rollouts_step rs (rs @ [r])"

lemma rollouts_step_refl [intro]: "rollouts_step rs rs"
  using rollouts_step.rows[of rs "\<lambda>r. r"] by (simp add: row_forward_def)

lemma active_status_back: "\<lbrakk>row_forward r r'; active_status (ro_Status r'); rollout_wf r\<rbrakk> \<Longrightarrow> active_status (ro_Status r)"
  by (auto simp: row_forward_def rollout_wf_def stage_def active_status_def split: if_splits)

lemma one_active_map:
  assumes "\<And>r. r \<in> set rs \<Longrightarrow> rollout_wf r \<and> row_forward r (f r)" and "one_active rs"
  shows "one_active (map f rs)"
  using assms
proof (induction rs)
  case (Cons r rs)
  have sub: "ro_AppID ` {x \<in> f ` set rs. active_status (ro_Status x)} \<subseteq> ro_AppID ` {x \<in> set rs. active_status (ro_Status x)}"
  proof
    fix a
    assume "a \<in> ro_AppID ` {x \<in> f ` set rs. active_status (ro_Status x)}"
    then obtain x where x: "x \<in> set rs" "active_status (ro_Status (f x))" "a = ro_AppID (f x)" by blast
    from x(1) Cons.prems(1)[of x] have "rollout_wf x" "row_forward x (f x)" by simp_all
    with x active_status_back[of x "f x"] show "a \<in> ro_AppID ` {x \<in> set rs. active_status (ro_Status x)}"
      by (auto simp: row_forward_def)
  qed
  have r: "rollout_wf r" "row_forward r (f r)" using Cons.prems(1)[of r] by simp_all
  have tail: "one_active (map f rs)" using Cons by (simp add: one_active_def split: if_splits)
  show ?case
  proof (cases "active_status (ro_Status (f r))")
    case True
    with r active_status_back[of r "f r"] have "active_status (ro_Status r)" "ro_AppID (f r) = ro_AppID r"
      by (simp_all add: row_forward_def)
    moreover have "ro_AppID r \<notin> ro_AppID ` {x \<in> set rs. active_status (ro_Status x)}"
      using Cons.prems(2) \<open>active_status (ro_Status r)\<close> by (simp add: one_active_def)
    ultimately show ?thesis using tail sub True by (auto simp: one_active_def)
  qed (use tail in \<open>simp add: one_active_def\<close>)
qed (simp add: one_active_def)

lemma rollouts_step_ok:
  assumes "rollouts_step rs rs'" and "list_all rollout_wf rs" "one_active rs" "distinct (map ro_ID rs)"
  shows "list_all rollout_wf rs' \<and> one_active rs' \<and> distinct (map ro_ID rs') \<and> rows_forward rs rs'"
  using assms
proof cases
  case (rows f)
  have each: "rollout_wf r \<and> rollout_wf (f r) \<and> row_forward r (f r)" if "r \<in> set rs" for r
    using rows(2) that assms(2) by (auto simp: list_all_iff)
  have "map ro_ID (map f rs) = map ro_ID rs" using each by (simp add: row_forward_def)
  then have "distinct (map ro_ID (map f rs))" using assms(4) by (simp only:)
  moreover have "list_all2 row_forward rs (map f rs)"
    using each by (simp add: list_all2_conv_all_nth)
  moreover have "one_active (map f rs)" using each assms(3) by (intro one_active_map) auto
  ultimately show ?thesis using rows(1) each assms(4) by (simp add: rows_forward_def list_all_iff)
next
  case (added r)
  have "list_all2 row_forward rs rs" by (rule list_all2_refl) (simp add: row_forward_def)
  then show ?thesis using added assms(2-4)
    by (auto simp: rows_forward_def one_active_def)
qed

lemma inTx_rows: "rollouts_step (db_rollouts db) (db_rollouts (snd (f db))) \<Longrightarrow> rollouts_step (db_rollouts db) (db_rollouts (snd (inTx DBFailed tx f db)))"
  by (auto simp: inTx_def split: prod.splits sum.splits tx_end.splits)

lemma update_rollouts_step:
  assumes "\<And>r. \<lbrakk>P r; rollout_wf r\<rbrakk> \<Longrightarrow> rollout_wf (f r) \<and> row_forward r (f r)"
  shows "rollouts_step (db_rollouts db) (db_rollouts (update_rollouts P f db))"
proof -
  have "rollouts_step (db_rollouts db) (map (\<lambda>r. if P r then f r else r) (db_rollouts db))"
    using assms by (intro rollouts_step.rows) (simp add: row_forward_def)
  then show ?thesis by (simp add: update_rollouts_def)
qed

named_theorems release_step \<open>each operation of the store moves the rollout rows by a step\<close>

lemmas row_defs = rollout_wf_def row_forward_def stage_def active_for_def active_status_def

lemma complete_rows_step [release_step]: "rollouts_step (db_rollouts db) (db_rollouts (complete_rows now app failed db))"
  unfolding complete_rows_def by (rule update_rollouts_step) (auto simp: row_defs)

lemma set_deployment_rows [simp]: "db_rollouts (set_deployment d st db) = db_rollouts db" "db_rollouts (maybe_set d st db) = db_rollouts db"
  by (simp_all add: set_deployment_def maybe_set_def)

lemma RolloutToCutover_step [release_step]: "rollouts_step (db_rollouts db) (db_rollouts (snd (RolloutToCutover tx now app deadline db)))"
  unfolding RolloutToCutover_def
  by (rule inTx_rows) (auto split: option.splits intro!: update_rollouts_step simp: row_defs)

lemma RolloutToPaused_step [release_step]: "rollouts_step (db_rollouts db) (db_rollouts (snd (RolloutToPaused tx app db)))"
  unfolding RolloutToPaused_def
  by (rule inTx_rows) (auto split: option.splits intro!: update_rollouts_step simp: row_defs)

lemma ApproveRollout_step [release_step]: "rollouts_step (db_rollouts db) (db_rollouts (snd (ApproveRollout tx now app who deadline db)))"
  unfolding ApproveRollout_def Let_def
  by (rule inTx_rows) (auto split: option.splits intro!: update_rollouts_step simp: row_defs)

lemma RolloutToRollback_step [release_step]: "rollouts_step (db_rollouts db) (db_rollouts (snd (RolloutToRollback tx app db)))"
  unfolding RolloutToRollback_def
  by (rule inTx_rows) (auto split: option.splits intro!: update_rollouts_step simp: row_defs)

lemma CompleteRollout_step [release_step]: "rollouts_step (db_rollouts db) (db_rollouts (snd (CompleteRollout tx now app failed db)))"
  unfolding CompleteRollout_def by (rule inTx_rows) (auto split: option.splits intro: release_step)

lemma CompleteRolloutWithStatus_step [release_step]:
  "rollouts_step (db_rollouts db) (db_rollouts (snd (CompleteRolloutWithStatus tx now app failed a b db)))"
  unfolding CompleteRolloutWithStatus_def by (rule inTx_rows) (auto split: option.splits intro: release_step)

lemma SetDeploymentStatus_step [release_step]: "rollouts_step (db_rollouts db) (db_rollouts (snd (SetDeploymentStatus tx d st db)))"
  unfolding SetDeploymentStatus_def by (rule inTx_rows) (auto intro: release_step)

lemma find_active_None: "ActiveRolloutForApp app db = None \<longleftrightarrow> (\<forall>r \<in> set (db_rollouts db). \<not> active_for app r)"
  by (auto simp: ActiveRolloutForApp_def find_None_iff)

lemma new_rollout_wf: "rollout_wf (new_rollout now r)" "ro_ID (new_rollout now r) = ro_ID r" "ro_AppID (new_rollout now r) = ro_AppID r"
  by (simp_all add: new_rollout_def rollout_wf_def NormalizeCanaryWeight_def)

lemma CreateRollout_step [release_step]: "rollouts_step (db_rollouts db) (db_rollouts (snd (CreateRollout now r db)))"
proof (cases "ro_ID r \<in> ro_ID ` set (db_rollouts db) \<or> ActiveRolloutForApp (ro_AppID r) db \<noteq> None")
  case False
  then have "rollouts_step (db_rollouts db) (db_rollouts db @ [new_rollout now r])"
    by (intro rollouts_step.added) (auto simp: new_rollout_wf find_active_None active_for_def)
  with False show ?thesis by (simp add: CreateRollout_def)
qed (auto simp: CreateRollout_def)

lemma DeployApp_step [release_step]: "rollouts_step (db_rollouts db) (db_rollouts (snd (DeployApp tx now d r g db)))"
  unfolding DeployApp_def
proof (rule inTx_rows)
  let ?db = "db\<lparr>db_deployments := db_deployments db @ [d]\<rparr>"
  obtain res db1 where c: "CreateRollout now r ?db = (res, db1)" by (meson surj_pair)
  have "rollouts_step (db_rollouts db) (db_rollouts db1)" using CreateRollout_step[of ?db now r] c by simp
  then show "rollouts_step (db_rollouts db) (db_rollouts (snd (case mget (db_apps db) (ro_AppID r) of
       None \<Rightarrow> (Inl AppNotFound, db)
     | Some a \<Rightarrow>
         if app_Deleted a then (Inl AppNotFound, db)
         else if ActiveRolloutForApp (ro_AppID r) db \<noteq> None then (Inl ErrRolloutBusy, db)
         else if \<exists>x \<in> set (db_deployments db). dp_ID x = dp_ID d \<or> dp_AppID x = dp_AppID d \<and> dp_Generation x = dp_Generation d
         then (Inl DBFailed, db)
         else (case CreateRollout now r ?db of
                 (Inl e, db1) \<Rightarrow> (Inl e, db1)
               | (Inr _, db1) \<Rightarrow> (Inr (), db1\<lparr>db_apps := mset_at (ro_AppID r) (a\<lparr>app_Generation := g\<rparr>) (db_apps db1)\<rparr>)))))"
    unfolding c by (auto split: option.splits sum.splits)
qed

lemma soft_delete_rows_step [release_step]: "rollouts_step (db_rollouts db) (db_rollouts (soft_delete_rows now app a db))"
  using complete_rows_step[of "db\<lparr>db_apps := mset_at app (a\<lparr>app_Deleted := True, app_DesiredReplicas := 0\<rparr>) (db_apps db)\<rparr>" now app True]
  by (simp add: soft_delete_rows_def Let_def)

lemma SoftDeleteApp_step [release_step]: "rollouts_step (db_rollouts db) (db_rollouts (snd (SoftDeleteApp tx now app db)))"
  unfolding SoftDeleteApp_def by (intro inTx_rows) (auto simp: release_step split: option.splits)

lemma SoftDeleteAppAndEnqueueDeletes_step [release_step]:
  "rollouts_step (db_rollouts db) (db_rollouts (snd (SoftDeleteAppAndEnqueueDeletes tx now enqueued app db)))"
  unfolding SoftDeleteAppAndEnqueueDeletes_def by (intro inTx_rows) (auto simp: Let_def release_step split: option.splits)

lemma fold_enqueue_rows [simp]: "db_rollouts (fold (enqueueUserDelete env) ms db) = db_rollouts db"
  by (induction ms arbitrary: db) (simp_all add: enqueueUserDelete_def)

lemma ticked_snd [simp]: "snd (ticked t res) = snd res"
  by (auto simp: ticked_def split: prod.splits sum.splits)

lemma startRollback_step [release_step]: "rollouts_step (db_rollouts db) (db_rollouts (snd (startRollback env r reason db)))"
  by (simp add: startRollback_def release_step)

lemma preparing_step_step [release_step]: "rollouts_step (db_rollouts db) (db_rollouts (snd (preparing_step c env app r newDep ms db)))"
  by (simp add: preparing_step_def release_step rollouts_step_refl)

lemma completed_step: "rollouts_step (db_rollouts db) (db_rollouts (snd (CompleteRolloutWithStatus tx now a failed x y (fold (enqueueUserDelete env) ms db))))"
  using CompleteRolloutWithStatus_step[of "fold (enqueueUserDelete env) ms db" tx now a failed x y] by simp

lemma cutover_step_step [release_step]: "rollouts_step (db_rollouts db) (db_rollouts (snd (cutover_step c env app r newDep ms db)))"
  by (cases "ro_DrainDeadline r") (simp_all add: cutover_step_def Let_def release_step completed_step rollouts_step_refl)

lemma rollback_step_step [release_step]: "rollouts_step (db_rollouts db) (db_rollouts (snd (rollback_step env app r newDep ms db)))"
  by (cases "source_deployment env app r db") (simp_all add: rollback_step_def Let_def release_step completed_step rollouts_step_refl)

lemma reconcileRollout_step [release_step]: "rollouts_step (db_rollouts db) (db_rollouts (snd (reconcileRollout c env app r db)))"
  by (cases "deploymentForGeneration (app_ID app) (ro_ToGeneration r) db")
    (simp_all add: reconcileRollout_def Let_def release_step rollouts_step_refl)

lemma reconcileApp_step [release_step]: "rollouts_step (db_rollouts db) (db_rollouts (snd (reconcileApp env created app db)))"
  by (auto simp: reconcileApp_def Let_def split: option.splits)

lemma reconcile_rows_steps: "rollouts_step\<^sup>*\<^sup>* (db_rollouts db) (db_rollouts (snd (reconcile_rows c p rs db)))"
proof (induction rs arbitrary: db)
  case (Cons r rs)
  show ?case
  proof (cases "mget (db_apps db) (ro_AppID r)")
    case (Some app)
    then show ?thesis
      using Cons.IH[of "snd (reconcileRollout c (ps_rollout p (ro_ID r)) app r db)"] reconcileRollout_step[of db c "ps_rollout p (ro_ID r)" app r]
      by (auto intro: converse_rtranclp_into_rtranclp)
  qed (use Cons.IH[of db] in auto)
qed simp

lemma scale_fold_rows: "db_rollouts (fold (\<lambda>app db. snd (reconcileApp (fst (f app)) (snd (f app)) app db)) apps db) = db_rollouts db"
  by (induction apps arbitrary: db) (simp_all add: reconcileApp_def Let_def split: option.splits)

lemma reconcileApps_steps: "rollouts_step\<^sup>*\<^sup>* (db_rollouts db) (db_rollouts (snd (reconcileApps c p db)))"
proof -
  obtain res db1 where r: "reconcileRollouts c p db = (res, db1)" by (meson surj_pair)
  have "rollouts_step\<^sup>*\<^sup>* (db_rollouts db) (db_rollouts db1)"
    using reconcile_rows_steps[of db c p "ListActiveRollouts (db_rollouts db)"] r by (auto simp: reconcileRollouts_def split: if_splits)
  moreover have "db_rollouts (snd (reconcileAppScale p db1)) = db_rollouts db1"
    by (simp add: reconcileAppScale_def scale_fold_rows)
  ultimately show ?thesis by (simp add: reconcileApps_def r split: sum.splits)
qed

lemma release_run_steps: "rollouts_step\<^sup>*\<^sup>* (db_rollouts db) (db_rollouts (release_run tx now x db))"
proof (cases x)
  case (ControllerPass c p)
  then show ?thesis by (simp add: release_run_def reconcileApps_steps)
qed (simp_all add: release_run_def release_step r_into_rtranclp)

lemma row_forward_trans: "\<lbrakk>row_forward a b; row_forward b c\<rbrakk> \<Longrightarrow> row_forward a c"
  by (auto simp: row_forward_def)

lemma rows_forward_nth:
  "rows_forward rs rs' \<longleftrightarrow> length rs \<le> length rs' \<and> (\<forall>i < length rs. row_forward (rs ! i) (rs' ! i))"
  by (auto simp: rows_forward_def list_all2_conv_all_nth)

lemma rows_forward_trans: "\<lbrakk>rows_forward rs rs'; rows_forward rs' rs''\<rbrakk> \<Longrightarrow> rows_forward rs rs''"
  unfolding rows_forward_nth by (meson less_le_trans order_trans row_forward_trans)

lemma rollouts_steps_ok:
  assumes "rollouts_step\<^sup>*\<^sup>* rs rs'" and "list_all rollout_wf rs" "one_active rs" "distinct (map ro_ID rs)"
  shows "list_all rollout_wf rs' \<and> one_active rs' \<and> distinct (map ro_ID rs') \<and> rows_forward rs rs'"
  using assms(1)
proof induction
  case base
  then show ?case using assms(2-4) by (simp add: rows_forward_nth row_forward_def)
next
  case (step rs' rs'')
  then have "list_all rollout_wf rs'' \<and> one_active rs'' \<and> distinct (map ro_ID rs'') \<and> rows_forward rs' rs''"
    using rollouts_step_ok[OF step.hyps(2)] by blast
  with step.IH show ?case by (blast intro: rows_forward_trans)
qed

lemma release_runs_ok: "release_ok db \<Longrightarrow> release_ok (release_runs xs db) \<and> rows_forward (db_rollouts db) (db_rollouts (release_runs xs db))"
proof (induction xs arbitrary: db)
  case Nil
  then show ?case by (simp add: rows_forward_nth row_forward_def)
next
  case (Cons x xs)
  obtain tx now y where x: "x = (tx, now, y)" by (cases x) auto
  have "release_ok (release_run tx now y db)" "rows_forward (db_rollouts db) (db_rollouts (release_run tx now y db))"
    using rollouts_steps_ok[OF release_run_steps[of db tx now y]] Cons.prems by (simp_all add: release_ok_def)
  with Cons.IH[of "release_run tx now y db"] x show ?case by (auto intro: rows_forward_trans)
qed

section \<open>What a pass may delete\<close>

lemma inTx_keeps: "(\<And>db. g (snd (f db)) = g db) \<Longrightarrow> g (snd (inTx DBFailed tx f db)) = g db"
  unfolding inTx_def by (auto split: prod.splits sum.splits tx_end.splits) (metis snd_conv)+

named_theorems keeps_deletes \<open>operations that leave the outbox alone\<close>

lemma update_rollouts_keeps [simp]: "db_deletes (update_rollouts P f db) = db_deletes db" "db_deployments (update_rollouts P f db) = db_deployments db"
  by (simp_all add: update_rollouts_def)

lemma complete_rows_keeps [simp]: "db_deletes (complete_rows now app failed db) = db_deletes db"
  by (simp add: complete_rows_def)

lemma maybe_set_keeps [simp]: "db_deletes (maybe_set d st db) = db_deletes db"
  by (simp add: maybe_set_def set_deployment_def)

lemma RolloutToCutover_deletes [keeps_deletes]: "db_deletes (snd (RolloutToCutover tx now app deadline db)) = db_deletes db"
  unfolding RolloutToCutover_def by (rule inTx_keeps) (simp split: option.splits)

lemma RolloutToPaused_deletes [keeps_deletes]: "db_deletes (snd (RolloutToPaused tx app db)) = db_deletes db"
  unfolding RolloutToPaused_def by (rule inTx_keeps) (simp split: option.splits)

lemma RolloutToRollback_deletes [keeps_deletes]: "db_deletes (snd (RolloutToRollback tx app db)) = db_deletes db"
  unfolding RolloutToRollback_def by (rule inTx_keeps) (simp split: option.splits)

lemma CompleteRolloutWithStatus_deletes [keeps_deletes]: "db_deletes (snd (CompleteRolloutWithStatus tx now app failed a b db)) = db_deletes db"
  unfolding CompleteRolloutWithStatus_def by (rule inTx_keeps) (simp split: option.splits)

lemma startRollback_deletes [keeps_deletes]: "db_deletes (snd (startRollback env r reason db)) = db_deletes db"
  by (simp add: startRollback_def keeps_deletes)

lemma fold_enqueue_deletes [simp]:
  "db_deletes (fold (enqueueUserDelete env) ms db) = db_deletes db @ map m_ID (filter (\<lambda>m. tk_enqueue env (m_ID m)) ms)"
  by (induction ms arbitrary: db) (simp_all add: enqueueUserDelete_def)

text \<open>The machines a pass deletes and the generation that stands by: none, those of the old generations, those of the new one.\<close>

inductive recycles :: "RolloutConfig \<Rightarrow> tick_env \<Rightarrow> App \<Rightarrow> Rollout \<Rightarrow> release_db \<Rightarrow> Machine list \<Rightarrow> bool" for c env app r db where
  none: "recycles c env app r db []"
| old: "\<lbrakk>ro_Status r = ''CUTOVER''; ro_DrainDeadline r = Some t; max t (cutoverAnalysisEnd r (rc_CutoverAnalysisWindow c) t) \<le> tk_now env;
     deploymentForGeneration (app_ID app) (ro_ToGeneration r) db = Some newDep;
     allReady (filter (\<lambda>m. m_DeploymentID m = dp_ID newDep) (ListMachinesForApp (app_ID app) db)) (app_DesiredReplicas app);
     set ms \<subseteq> {m \<in> set (ListMachinesForApp (app_ID app) db). m_DeploymentID m \<noteq> dp_ID newDep}\<rbrakk> \<Longrightarrow> recycles c env app r db ms"
| new: "\<lbrakk>ro_Status r = ''ROLLING_BACK'';
     deploymentForGeneration (app_ID app) (ro_ToGeneration r) db = Some newDep;
     deploymentForGeneration (app_ID app) (ro_FromGeneration r) db = Some oldDep;
     allReady (filter (\<lambda>m. m_DeploymentID m = dp_ID oldDep) (ListMachinesForApp (app_ID app) db)) (app_DesiredReplicas app);
     set ms \<subseteq> {m \<in> set (ListMachinesForApp (app_ID app) db). m_DeploymentID m = dp_ID newDep}\<rbrakk> \<Longrightarrow> recycles c env app r db ms"

lemma cutover_step_recycles:
  assumes "ro_Status r = ''CUTOVER''" "deploymentForGeneration (app_ID app) (ro_ToGeneration r) db = Some newDep"
  shows "\<exists>ms. db_deletes (snd (cutover_step c env app r newDep (ListMachinesForApp (app_ID app) db) db)) = db_deletes db @ map m_ID ms \<and>
    recycles c env app r db ms"
proof -
  let ?ms = "ListMachinesForApp (app_ID app) db"
  let ?old = "filter (\<lambda>m. tk_enqueue env (m_ID m)) (filter (\<lambda>m. m_DeploymentID m \<noteq> dp_ID newDep) ?ms)"
  let ?res = "snd (cutover_step c env app r newDep ?ms db)"
  show ?thesis
  proof (cases "db_deletes ?res = db_deletes db")
    case True
    then show ?thesis by (intro exI[of _ "[]"]) (simp add: recycles.none)
  next
    case False
    then obtain t where t: "ro_DrainDeadline r = Some t" by (cases "ro_DrainDeadline r") (simp_all add: cutover_step_def)
    with False have "max t (cutoverAnalysisEnd r (rc_CutoverAnalysisWindow c) t) \<le> tk_now env \<and>
        allReady (filter (\<lambda>m. m_DeploymentID m = dp_ID newDep) ?ms) (app_DesiredReplicas app) \<and> db_deletes ?res = db_deletes db @ map m_ID ?old"
      by (simp add: cutover_step_def Let_def keeps_deletes rollingOldGenerationDeleteAllowed_def del: max.bounded_iff split: if_splits)
    then show ?thesis using assms t by (intro exI[of _ ?old]) (auto intro: recycles.old)
  qed
qed

lemma rollback_step_recycles:
  assumes "ro_Status r = ''ROLLING_BACK''" "deploymentForGeneration (app_ID app) (ro_ToGeneration r) db = Some newDep"
  shows "\<exists>ms. db_deletes (snd (rollback_step env app r newDep (ListMachinesForApp (app_ID app) db) db)) = db_deletes db @ map m_ID ms \<and>
    recycles c env app r db ms"
proof -
  let ?ms = "ListMachinesForApp (app_ID app) db"
  let ?new = "filter (\<lambda>m. tk_enqueue env (m_ID m)) (filter (\<lambda>m. m_DeploymentID m = dp_ID newDep \<and> m_DesiredState m \<noteq> ''DELETED'') ?ms)"
  let ?res = "snd (rollback_step env app r newDep ?ms db)"
  show ?thesis
  proof (cases "db_deletes ?res = db_deletes db")
    case True
    then show ?thesis by (intro exI[of _ "[]"]) (simp add: recycles.none)
  next
    case False
    then obtain oldDep where t: "source_deployment env app r db = Some oldDep"
      by (cases "source_deployment env app r db") (simp_all add: rollback_step_def)
    with False have "allReady (filter (\<lambda>m. m_DeploymentID m = dp_ID oldDep) ?ms) (app_DesiredReplicas app) \<and>
        db_deletes ?res = db_deletes db @ map m_ID ?new"
      by (simp add: rollback_step_def Let_def keeps_deletes split: if_splits)
    then show ?thesis using assms t
      by (intro exI[of _ ?new]) (auto intro: recycles.new simp: source_deployment_def split: if_splits)
  qed
qed

lemma reconcileRollout_recycles:
  "\<exists>ms. db_deletes (snd (reconcileRollout c env app r db)) = db_deletes db @ map m_ID ms \<and> recycles c env app r db ms"
proof -
  have same: "db_deletes (snd (preparing_step c env app r d ms db)) = db_deletes db" for d ms
    by (simp add: preparing_step_def keeps_deletes)
  show ?thesis
    using cutover_step_recycles[of r app db _ c env] rollback_step_recycles[of r app db _ env c]
    by (cases "deploymentForGeneration (app_ID app) (ro_ToGeneration r) db")
      (auto simp: reconcileRollout_def Let_def same intro: recycles.none)
qed

lemma allReadyD:
  assumes "allReady ms n" "0 \<le> i" "i < n"
  shows "\<exists>m \<in> set ms. m_ReplicaOrdinal m = i \<and> machineServing m"
proof -
  have "nat i \<in> set [0..<nat n]" using assms(2,3) by simp
  then show ?thesis using assms(1,2) unfolding allReady_def by fastforce
qed

lemma deploymentForGenerationD:
  assumes "deploymentForGeneration app gen db = Some d"
  shows "d \<in> set (db_deployments db)" "dp_AppID d = app" "dp_Generation d = gen"
  using find_SomeD[OF assms[unfolded deploymentForGeneration_def]] by (simp_all add: ListDeployments_def)

lemma ListMachinesForApp_ids: "distinct (map m_ID (db_machines db)) \<Longrightarrow> m \<in> set (ListMachinesForApp app db) \<Longrightarrow> x \<in> set (ListMachinesForApp app db) \<Longrightarrow>
    m_ID m = m_ID x \<Longrightarrow> m = x"
  by (auto simp: ListMachinesForApp_def distinct_map inj_on_def)

text \<open>The generation that a pass leaves in charge of an application when it enqueues deletes.\<close>

definition kept_generation :: "Rollout \<Rightarrow> int" where
  "kept_generation r = (if ro_Status r = ''CUTOVER'' then ro_ToGeneration r else ro_FromGeneration r)"

text \<open>
  Claim C21. A pass over a rollout enqueues deletes only while a complete generation serves that it does not
  touch: for every ordinal below the desired replicas a machine of the kept generation is serving and is not
  among the deleted ones. In CUTOVER the kept generation is the new one and the drain deadline and the analysis
  window are over; otherwise the rollout is rolling back and the kept generation is the old one. The rows may be
  stale and every transaction may fail.
\<close>

theorem rollout_deletes_keep_service:
  assumes "distinct (map m_ID (db_machines db))" "distinct (map dp_ID (db_deployments db))" "ro_FromGeneration r \<noteq> ro_ToGeneration r"
    and "db_deletes (snd (reconcileRollout c env app r db)) = db_deletes db @ ids" "ids \<noteq> []"
    and "0 \<le> i" "i < app_DesiredReplicas app"
  shows "\<exists>d m. d \<in> set (db_deployments db) \<and> dp_Generation d = kept_generation r \<and>
      m \<in> set (ListMachinesForApp (app_ID app) db) \<and> m_DeploymentID m = dp_ID d \<and> m_ReplicaOrdinal m = i \<and> machineServing m \<and> m_ID m \<notin> set ids \<and>
      (case ro_DrainDeadline r of
         Some t \<Rightarrow> ro_Status r = ''ROLLING_BACK'' \<or> ro_Status r = ''CUTOVER'' \<and> max t (cutoverAnalysisEnd r (rc_CutoverAnalysisWindow c) t) \<le> tk_now env
       | None \<Rightarrow> ro_Status r = ''ROLLING_BACK'')"
proof -
  obtain ms where ms: "ids = map m_ID ms" "recycles c env app r db ms"
    using reconcileRollout_recycles[of c env app r db] assms(4) by auto
  have out: "m_ID m \<notin> set ids" if "m \<in> set (ListMachinesForApp (app_ID app) db)" "m \<notin> set ms"
    "set ms \<subseteq> set (ListMachinesForApp (app_ID app) db)" for m
  proof
    assume "m_ID m \<in> set ids"
    then obtain x where "x \<in> set ms" "m_ID m = m_ID x" using ms(1) by auto
    with that ListMachinesForApp_ids[OF assms(1), of m "app_ID app" x] show False by auto
  qed
  from ms(2) show ?thesis
  proof cases
    case none
    with ms(1) assms(5) show ?thesis by simp
  next
    case (old t d)
    obtain m where "m \<in> set (ListMachinesForApp (app_ID app) db)" "m_DeploymentID m = dp_ID d" "m_ReplicaOrdinal m = i" "machineServing m"
      using allReadyD[OF old(5) assms(6,7)] by auto
    moreover have "m_ID m \<notin> set ids" using calculation old(6) by (intro out) auto
    moreover have "d \<in> set (db_deployments db)" "dp_Generation d = kept_generation r"
      using deploymentForGenerationD[OF old(4)] old(1) by (simp_all add: kept_generation_def)
    ultimately show ?thesis using old(1-3) by (intro exI[of _ d] exI[of _ m]) simp
  next
    case (new nd d)
    have d: "d \<in> set (db_deployments db)" "dp_Generation d = kept_generation r" "dp_ID d \<noteq> dp_ID nd"
      using deploymentForGenerationD[OF new(2)] deploymentForGenerationD[OF new(3)] new(1) assms(2,3)
      by (auto simp: kept_generation_def distinct_map inj_on_def)
    obtain m where "m \<in> set (ListMachinesForApp (app_ID app) db)" "m_DeploymentID m = dp_ID d" "m_ReplicaOrdinal m = i" "machineServing m"
      using allReadyD[OF new(4) assms(6,7)] by auto
    moreover have "m_ID m \<notin> set ids" using calculation new(5) d(3) by (intro out) auto
    ultimately show ?thesis using d new(1) by (intro exI[of _ d] exI[of _ m]) (simp split: option.splits)
  qed
qed

subsection \<open>Analysis providers\<close>

text \<open>
  The contract of \<open>AnalysisProvider\<close> at the end of the window, for the rollouts a provider can judge: it
  decides, and \<open>pass\<close> is when it lets the rollout complete.
\<close>

locale analysis_provider =
  fixes p :: provider and judges :: "App \<Rightarrow> Rollout \<Rightarrow> bool" and pass :: "App \<Rightarrow> Rollout \<Rightarrow> Machine list \<Rightarrow> int \<Rightarrow> bool"
  assumes at_end: "judges app r \<Longrightarrow> fst (p app r ms True now) = (if pass app r ms now then VerdictProceed else VerdictRollback)"

text \<open>Two providers together pass when both do.\<close>

locale two_providers = one: analysis_provider p1 judges1 pass1 + two: analysis_provider p2 judges2 pass2
  for p1 judges1 pass1 p2 judges2 pass2

sublocale two_providers \<subseteq> both: analysis_provider "composite_AssessCutover [p1, p2]" "\<lambda>app r. judges1 app r \<and> judges2 app r"
    "\<lambda>app r ms now. pass1 app r ms now \<and> pass2 app r ms now"
proof
  fix app r ms now
  assume j: "judges1 app r \<and> judges2 app r"
  obtain v1 w1 v2 w2 where v: "p1 app r ms True now = (v1, w1)" "p2 app r ms True now = (v2, w2)" by (meson surj_pair)
  have "v1 = (if pass1 app r ms now then VerdictProceed else VerdictRollback)" "v2 = (if pass2 app r ms now then VerdictProceed else VerdictRollback)"
    using one.at_end[of app r ms now] two.at_end[of app r ms now] j v by simp_all
  then show "fst (composite_AssessCutover [p1, p2] app r ms True now) =
      (if pass1 app r ms now \<and> pass2 app r ms now then VerdictProceed else VerdictRollback)"
    using v by (simp add: composite_AssessCutover_def)
qed

definition ratio_passes :: "rat \<times> int \<Rightarrow> App \<Rightarrow> Rollout \<Rightarrow> Machine list \<Rightarrow> int \<Rightarrow> bool" where
  "ratio_passes cfg app r ms now \<longleftrightarrow> app_DesiredReplicas app \<le> 0 \<or>
     (servingOrdinals ms \<noteq> 0 \<or> now < cutoverBase r + snd cfg) \<and>
     fst cfg \<le> fdiv (float_of_int (int (servingOrdinals ms))) (float_of_int (app_DesiredReplicas app))"

text \<open>A metric gate is off, or its query was answered and the sample is within the bound.\<close>

definition gate_passes :: "sample \<Rightarrow> rat \<Rightarrow> bool" where
  "gate_passes answer limit \<longleftrightarrow> limit \<le> 0 \<or> (\<exists>v. answer = Inr v \<and> \<not> exceeds v limit)"

interpretation serving_ratio: analysis_provider "serving_ratio_AssessCutover cfg" "\<lambda>_ _. True" "ratio_passes cfg" for cfg
  by unfold_locales (auto simp: serving_ratio_AssessCutover_def ratio_passes_def Let_def)

definition metrics_on :: "rat \<Rightarrow> rat \<Rightarrow> App \<Rightarrow> Rollout \<Rightarrow> bool" where
  "metrics_on maxErrorRate maxP99 app r \<longleftrightarrow> (0 < maxErrorRate \<or> 0 < maxP99) \<and> app_Hostname app \<noteq> '''' \<and> 0 < ro_ToGeneration r"

interpretation prometheus: analysis_provider "prometheus_AssessCutover errorRate p99 maxErrorRate maxP99" "metrics_on maxErrorRate maxP99"
    "\<lambda>_ _ _ _. gate_passes errorRate maxErrorRate \<and> gate_passes p99 maxP99" for errorRate p99 maxErrorRate maxP99
proof
  fix app r ms now
  assume "metrics_on maxErrorRate maxP99 app r"
  then show "fst (prometheus_AssessCutover errorRate p99 maxErrorRate maxP99 app r ms True now) =
      (if gate_passes errorRate maxErrorRate \<and> gate_passes p99 maxP99 then VerdictProceed else VerdictRollback)"
    by (cases errorRate; cases p99)
      (auto simp: prometheus_AssessCutover_def gate_passes_def queryFailure_def metrics_on_def not_less not_le)
qed

interpretation gated: two_providers "serving_ratio_AssessCutover cfg" "\<lambda>_ _. True" "ratio_passes cfg"
    "prometheus_AssessCutover errorRate p99 maxErrorRate maxP99" "metrics_on maxErrorRate maxP99"
    "\<lambda>_ _ _ _. gate_passes errorRate maxErrorRate \<and> gate_passes p99 maxP99" for cfg errorRate p99 maxErrorRate maxP99
  by unfold_locales

text \<open>
  At the end of the window the built-in assessment decides, and it lets a rollout complete exactly when
  the new generation meets the serving ratio, has not been without any serving replica past the grace, and each
  enabled metric gate got an answer within its bound: an unanswered query, like an exceeded bound, rolls back.
  The application has a hostname and the generation is positive.
\<close>

lemma cutover_assessment_at_end:
  assumes "app_Hostname app \<noteq> ''''" "0 < ro_ToGeneration r"
  shows "fst (cutoverAssessment c None samples app r ms True now) =
    (if ratio_passes (normalized (rc_CutoverMinServingRatio c) (rc_CutoverZeroServingGrace c)) app r ms now \<and>
        (rc_PrometheusAddr c = '''' \<or> gate_passes (fst samples) (rc_CutoverMaxErrorRate c) \<and> gate_passes (snd samples) (rc_CutoverP99LatencySec c))
     then VerdictProceed else VerdictRollback)"
proof (cases "rc_PrometheusAddr c = '''' \<or> rc_CutoverMaxErrorRate c \<le> 0 \<and> rc_CutoverP99LatencySec c \<le> 0")
  case True
  then show ?thesis by (auto simp: cutoverAssessment_def Let_def serving_ratio.at_end gate_passes_def)
next
  case False
  with assms have "metrics_on (rc_CutoverMaxErrorRate c) (rc_CutoverP99LatencySec c) app r" by (auto simp: metrics_on_def)
  with False show ?thesis by (auto simp: cutoverAssessment_def Let_def gated.both.at_end)
qed

section \<open>The deadline decides\<close>

lemma fl64_below_one:
  assumes "n < d" "d \<le> 2 ^ 53"
  shows "fl64 (of_nat n / of_nat d) < 1"
proof -
  have "(of_nat n + 1 :: rat) \<le> of_nat d" using assms(1) by (metis Suc_leI add.commute of_nat_Suc of_nat_le_iff)
  moreover have "(of_nat d :: rat) \<le> 2 ^ 53" using assms(2) by (metis of_nat_le_iff of_nat_numeral of_nat_power)
  moreover have "0 < (of_nat d :: rat)" using assms(1) by simp
  ultimately have "of_nat n / of_nat d \<le> (1 - 1 / 2 ^ 53 :: rat)"
    by (simp add: field_simps)
  then have "fl64 (of_nat n / of_nat d) \<le> fl64 (1 - 1 / 2 ^ 53)" by (rule fl64_mono)
  also have "\<dots> < 1" by code_simp
  finally show ?thesis .
qed

lemma float_of_int_exact: "\<lbrakk>0 \<le> n; n < 2 ^ 53\<rbrakk> \<Longrightarrow> float_of_int n = of_int n"
  using fl64_nat[of "nat n"] by (simp add: float_of_int_def nat_less_iff)

text \<open>With all of the new generation required, the ratio asks for every ordinal.\<close>

lemma full_ratio:
  assumes "m_ReplicaOrdinal ` set (filter machineServing ms) \<subseteq> {0..<n}" "0 < n" "n < 2 ^ 53"
  shows "1 \<le> fdiv (float_of_int (int (servingOrdinals ms))) (float_of_int n) \<longleftrightarrow> allReady ms n"
proof -
  let ?S = "m_ReplicaOrdinal ` set (filter machineServing ms)"
  have card: "servingOrdinals ms \<le> nat n" using card_mono[OF _ assms(1)] assms(2) by (simp add: servingOrdinals_def)
  have ready: "allReady ms n \<longleftrightarrow> ?S = {0..<n}"
  proof
    assume "allReady ms n"
    then have "{0..<n} \<subseteq> ?S" using allReadyD[of ms n] by fastforce
    with assms(1) show "?S = {0..<n}" by blast
  next
    assume "?S = {0..<n}"
    then show "allReady ms n" unfolding allReady_def by auto
  qed
  have full: "?S = {0..<n} \<longleftrightarrow> servingOrdinals ms = nat n"
  proof
    assume "?S = {0..<n}"
    then show "servingOrdinals ms = nat n" by (simp add: servingOrdinals_def)
  next
    assume "servingOrdinals ms = nat n"
    then show "?S = {0..<n}" by (intro card_subset_eq[OF _ assms(1)]) (simp_all add: servingOrdinals_def)
  qed
  have "int (servingOrdinals ms) < 2 ^ 53" using card assms(2,3) by linarith
  then have "fdiv (float_of_int (int (servingOrdinals ms))) (float_of_int n) = fl64 (of_nat (servingOrdinals ms) / of_nat (nat n))"
    using assms(2,3) by (simp add: fdiv_def float_of_int_exact)
  moreover have "1 \<le> fl64 (of_nat (servingOrdinals ms) / of_nat (nat n)) \<longleftrightarrow> servingOrdinals ms = nat n"
  proof (cases "servingOrdinals ms = nat n")
    case True
    then show ?thesis using assms(2) fl64_nat[of 1] by simp
  next
    case False
    then have "servingOrdinals ms < nat n" using card by simp
    then show ?thesis using fl64_below_one[of "servingOrdinals ms" "nat n"] assms(3) False by (simp add: nat_le_iff)
  qed
  ultimately show ?thesis using ready full by simp
qed

lemma allReady_serves: "\<lbrakk>allReady ms n; 0 < n\<rbrakk> \<Longrightarrow> servingOrdinals ms \<noteq> 0"
  using allReadyD[of ms n 0] by (auto simp: servingOrdinals_def)

text \<open>The built-in assessment at the end of the window with all replicas required.\<close>

definition full_ratio_config :: "RolloutConfig \<Rightarrow> bool" where
  "full_ratio_config c \<longleftrightarrow> (rc_CutoverMinServingRatio c \<le> 0 \<or> 1 \<le> rc_CutoverMinServingRatio c) \<and>
     (rc_PrometheusAddr c = '''' \<or> rc_CutoverMaxErrorRate c \<le> 0 \<and> rc_CutoverP99LatencySec c \<le> 0)"

lemma full_ratio_verdict:
  assumes "full_ratio_config c" "m_ReplicaOrdinal ` set (filter machineServing ms) \<subseteq> {0..<app_DesiredReplicas app}" "app_DesiredReplicas app < 2 ^ 53"
  shows "fst (cutoverAssessment c None samples app r ms True now) = VerdictRollback \<longleftrightarrow> \<not> allReady ms (app_DesiredReplicas app)"
proof -
  have builtin: "cutoverAssessment c None samples = serving_ratio_AssessCutover (normalized (rc_CutoverMinServingRatio c) (rc_CutoverZeroServingGrace c))"
    using assms(1) by (auto simp: cutoverAssessment_def full_ratio_config_def Let_def)
  have one: "fst (normalized (rc_CutoverMinServingRatio c) g) = 1" for g
    using assms(1) by (auto simp: normalized_def full_ratio_config_def)
  show ?thesis
  proof (cases "app_DesiredReplicas app \<le> 0")
    case True
    then have "nat (app_DesiredReplicas app) = 0" by simp
    then have "allReady ms (app_DesiredReplicas app)" by (simp add: allReady_def)
    with True show ?thesis by (simp add: builtin serving_ratio_AssessCutover_def Let_def)
  next
    case False
    then show ?thesis using full_ratio[OF assms(2) _ assms(3)] allReady_serves[of ms "app_DesiredReplicas app"]
      by (auto simp: builtin serving_ratio_AssessCutover_def Let_def one)
  qed
qed

lemma ActiveRolloutD: "ActiveRolloutForApp app db = Some r \<Longrightarrow> r \<in> set (db_rollouts db) \<and> ro_AppID r = app \<and> active_status (ro_Status r)"
  using find_SomeD[of "active_for app" "db_rollouts db" r] by (simp add: ActiveRolloutForApp_def active_for_def)

lemma update_rolloutsI: "\<lbrakk>r \<in> set (db_rollouts db); P r\<rbrakk> \<Longrightarrow> f r \<in> set (db_rollouts (update_rollouts P f db))"
  by (force simp: update_rollouts_def)

text \<open>
  The deadline of a cutover is decisive: in a pass over the current row of a rollout in CUTOVER, once
  the drain deadline and the analysis window are over, with all replicas required and no external gate, the
  rollout ends. It is complete when every ordinal below the desired replicas is served by the new generation,
  and it rolls back otherwise. The serving machines of the new generation have ordinals below the desired
  replicas, the reads succeed and the transaction commits.
\<close>

lemma cutover_deadline_decides:
  assumes "ActiveRolloutForApp (app_ID app) db = Some r" "ro_Status r = ''CUTOVER''" "ro_DrainDeadline r = Some t"
    and "max t (cutoverAnalysisEnd r (rc_CutoverAnalysisWindow c) t) \<le> tk_now env"
    and "deploymentForGeneration (app_ID app) (ro_ToGeneration r) db = Some d"
    and "\<not> tk_listFails env" "tk_tx env = TxCommit" "tk_custom env = None" "full_ratio_config c" "app_DesiredReplicas app < 2 ^ 53"
    and ms: "ms = filter (\<lambda>m. m_DeploymentID m = dp_ID d) (ListMachinesForApp (app_ID app) db)"
    and "m_ReplicaOrdinal ` set (filter machineServing ms) \<subseteq> {0..<app_DesiredReplicas app}"
  shows "\<exists>r'. r' \<in> set (db_rollouts (snd (reconcileRollout c env app r db))) \<and> ro_ID r' = ro_ID r \<and>
    ro_Status r' = (if allReady ms (app_DesiredReplicas app) then ''COMPLETE'' else ''ROLLING_BACK'')"
proof -
  have r: "r \<in> set (db_rollouts db)" "ro_AppID r = app_ID app" using ActiveRolloutD[OF assms(1)] by simp_all
  have verdict: "fst (cutoverAssessment c None (tk_samples env) app r ms True (tk_now env)) = VerdictRollback \<longleftrightarrow> \<not> allReady ms (app_DesiredReplicas app)"
    using full_ratio_verdict assms(9,10,12) by blast
  show ?thesis
  proof (cases "allReady ms (app_DesiredReplicas app)")
    case True
    define olds where "olds = filter (\<lambda>m. m_DeploymentID m \<noteq> dp_ID d) (ListMachinesForApp (app_ID app) db)"
    have run: "snd (reconcileRollout c env app r db) = snd (CompleteRolloutWithStatus TxCommit (tk_dbnow env) (app_ID app) False (dp_ID d, ''ACTIVE'')
        (case source_deployment env app r (fold (enqueueUserDelete env) olds db) of None \<Rightarrow> ('''', '''') | Some x \<Rightarrow> (dp_ID x, ''SUPERSEDED''))
        (fold (enqueueUserDelete env) olds db))"
      using assms(2-8) verdict True
      by (simp add: reconcileRollout_def cutover_step_def rollingOldGenerationDeleteAllowed_def Let_def ms[symmetric] olds_def del: max.bounded_iff)
    have act: "ActiveRolloutForApp (app_ID app) (fold (enqueueUserDelete env) olds db) = Some r"
      using assms(1) by (simp add: ActiveRolloutForApp_def)
    show ?thesis
      using update_rolloutsI[of r "fold (enqueueUserDelete env) olds db" "active_for (app_ID app)"
          "\<lambda>r. r\<lparr>ro_Status := ''COMPLETE'', ro_Failed := False, ro_CompletedAt := Some (tk_dbnow env)\<rparr>"] r assms(2) True
      unfolding run
      by (intro exI[of _ "r\<lparr>ro_Status := ''COMPLETE'', ro_Failed := False, ro_CompletedAt := Some (tk_dbnow env)\<rparr>"])
        (simp add: CompleteRolloutWithStatus_def inTx_def act complete_rows_def active_for_def active_status_def)
  next
    case False
    have "snd (reconcileRollout c env app r db) = snd (RolloutToRollback TxCommit (app_ID app) db)"
      using assms(2-8) verdict False r(2)
      by (simp add: reconcileRollout_def cutover_step_def startRollback_def Let_def ms[symmetric] del: max.bounded_iff)
    then show ?thesis
      using update_rolloutsI[of r db "\<lambda>r. ro_AppID r = app_ID app \<and> ro_Status r \<in> {''PREPARING'', ''CUTOVER'', ''PAUSED_FOR_APPROVAL''}"
          "\<lambda>r. r\<lparr>ro_Status := ''ROLLING_BACK''\<rparr>"] r assms(1,2) False
      by (intro exI[of _ "r\<lparr>ro_Status := ''ROLLING_BACK''\<rparr>"]) (simp add: RolloutToRollback_def inTx_def)
  qed
qed

text \<open>
  Below a full ratio the assessment may proceed while an ordinal is not served; then the pass at the end of the
  window changes nothing, however late it is.
\<close>

lemma cutover_waits_below_full_ratio:
  assumes "ro_Status r = ''CUTOVER''" "ro_DrainDeadline r = Some t" "max t (cutoverAnalysisEnd r (rc_CutoverAnalysisWindow c) t) \<le> tk_now env"
    and "deploymentForGeneration (app_ID app) (ro_ToGeneration r) db = Some d" "\<not> tk_listFails env"
    and ms: "ms = filter (\<lambda>m. m_DeploymentID m = dp_ID d) (ListMachinesForApp (app_ID app) db)"
    and "fst (cutoverAssessment c (tk_custom env) (tk_samples env) app r ms True (tk_now env)) \<noteq> VerdictRollback"
    and "\<not> allReady ms (app_DesiredReplicas app)"
  shows "reconcileRollout c env app r db = (Inr Stays, db)"
  using assms by (simp add: reconcileRollout_def cutover_step_def rollingOldGenerationDeleteAllowed_def Let_def del: max.bounded_iff)

section \<open>Scaling\<close>

lemma fold_enqueue_creates [simp]: "db_creates (fold (enqueueUserDelete env) ms db) = db_creates db"
  by (induction ms arbitrary: db) (simp_all add: enqueueUserDelete_def)

lemma reconcileApp_creates:
  assumes "\<not> app_Deleted app" "targetDeployment (app_ID app) db = Some target" "\<not> tk_listFails env"
    and "ms = ListMachinesForApp (app_ID app) db"
  shows "db_creates (snd (reconcileApp env created app db)) =
    db_creates db @ map (\<lambda>i. (app_ID app, dp_ID target, i)) (filter created (missing_ordinals app target ms (rolling_limit app target ms db)))"
  using assms by (simp add: reconcileApp_def Let_def)

text \<open>The ordinals below the least one without a machine are all taken.\<close>

lemma least_missing:
  assumes "\<exists>i. 0 \<le> i \<and> i < n \<and> i \<notin> S" "finite S"
  shows "\<exists>i. 0 \<le> i \<and> i < n \<and> i \<notin> S \<and> i \<le> int (card S)"
proof -
  define k where "k = (LEAST k. int k \<notin> S)"
  obtain i where i: "0 \<le> i" "i < n" "i \<notin> S" using assms(1) by blast
  then have ex: "int (nat i) \<notin> S" by simp
  then have k: "int k \<notin> S" "k \<le> nat i" unfolding k_def by (rule LeastI, rule Least_le)
  have "int ` {..<k} \<subseteq> S" using not_less_Least[of _ "\<lambda>k. int k \<notin> S"] by (auto simp: k_def)
  then have "card (int ` {..<k}) \<le> card S" using assms(2) by (intro card_mono)
  then have "k \<le> card S" by (simp add: card_image)
  with k i show ?thesis by (intro exI[of _ "int k"]) auto
qed

text \<open>
  Scaling makes progress in every release strategy: when the machines of the target deployment all
  serve and an ordinal below the desired replicas has none, a pass enqueues the create of at least one such
  ordinal, whatever the rolling batch allows, if its creates can be enqueued. Every create is of an ordinal
  below the desired replicas that has no machine of the target, and in a rolling release that is being
  prepared it stays within the batch after the ordinals that serve.
\<close>

lemma scale_progress:
  assumes "\<not> app_Deleted app" "targetDeployment (app_ID app) db = Some target" "\<not> tk_listFails env"
    and ms: "ms = filter (\<lambda>m. m_DeploymentID m = dp_ID target) (ListMachinesForApp (app_ID app) db)"
    and "\<forall>m \<in> set ms. machineServing m"
    and "0 \<le> i" "i < app_DesiredReplicas app" "i \<notin> m_ReplicaOrdinal ` set ms" "\<forall>j. created j"
  shows "\<exists>new. db_creates (snd (reconcileApp env created app db)) = db_creates db @ map (\<lambda>j. (app_ID app, dp_ID target, j)) new \<and> new \<noteq> [] \<and> distinct new \<and>
    (\<forall>j \<in> set new. 0 \<le> j \<and> j < app_DesiredReplicas app \<and> j \<notin> m_ReplicaOrdinal ` set ms \<and>
       (case ActiveRolloutForApp (app_ID app) db of
          Some r \<Rightarrow> ro_Status r = ''PREPARING'' \<and> ro_ToGeneration r = dp_Generation target \<and> EffectiveStrategy target = ''rolling'' \<longrightarrow>
            j < int (servingOrdinals ms) + max 1 (app_DesiredReplicas app div 4)
        | None \<Rightarrow> True))"
proof -
  let ?all = "ListMachinesForApp (app_ID app) db"
  let ?limit = "rolling_limit app target ?all db"
  let ?new = "missing_ordinals app target ?all ?limit"
  have serving: "int (servingOrdinals ms) = int (card (m_ReplicaOrdinal ` set ms))"
    using assms(5) by (simp add: servingOrdinals_def filter_id_conv)
  have "\<exists>j. 0 \<le> j \<and> j < app_DesiredReplicas app \<and> j \<notin> m_ReplicaOrdinal ` set ms \<and> j \<le> int (card (m_ReplicaOrdinal ` set ms))"
    using assms(6-8) by (intro least_missing) auto
  then obtain j where j: "0 \<le> j" "j < app_DesiredReplicas app" "j \<notin> m_ReplicaOrdinal ` set ms" "j \<le> int (servingOrdinals ms)"
    unfolding serving by blast
  have "case ?limit of None \<Rightarrow> True | Some n \<Rightarrow> j < n"
    using j(4) by (auto simp: rolling_limit_def rollingBatchSize_def ms[symmetric] split: option.splits)
  moreover have "j \<in> int ` {0..<nat (app_DesiredReplicas app)}" using j(1,2) by (intro image_eqI[of _ _ "nat j"]) auto
  ultimately have "j \<in> set ?new" using j(3) by (simp add: missing_ordinals_def ms)
  then have "?new \<noteq> []" by auto
  moreover have "distinct ?new" by (simp add: missing_ordinals_def distinct_map)
  moreover have "db_creates (snd (reconcileApp env created app db)) = db_creates db @ map (\<lambda>j. (app_ID app, dp_ID target, j)) ?new"
    using reconcileApp_creates[OF assms(1-3) refl, of created] assms(9) by simp
  moreover have "0 \<le> j \<and> j < app_DesiredReplicas app \<and> j \<notin> m_ReplicaOrdinal ` set ms \<and>
       (case ActiveRolloutForApp (app_ID app) db of
          Some r \<Rightarrow> ro_Status r = ''PREPARING'' \<and> ro_ToGeneration r = dp_Generation target \<and> EffectiveStrategy target = ''rolling'' \<longrightarrow>
            j < int (servingOrdinals ms) + max 1 (app_DesiredReplicas app div 4)
        | None \<Rightarrow> True)" if "j \<in> set ?new" for j
    using that by (auto simp: missing_ordinals_def rolling_limit_def rollingBatchSize_def ms[symmetric] max_def split: option.splits if_splits)
  ultimately show ?thesis by blast
qed

section \<open>The life of a rollout\<close>

text \<open>
  Claim C23. The rollout rows stay well formed, whatever the API and the controllers do, in any order, on rows
  that may be stale, with transactions that may fail or commit without an answer: each row has one of the five
  states, a row in CUTOVER has the instant of the cutover and a drain deadline, the completion time and the
  failure mark belong to complete rows, an approval has an approver and a cutover, the canary weight is in
  range, identifiers are unique, and an application has at most one active rollout.
\<close>

theorem rollouts_stay_well_formed: "release_ok db \<Longrightarrow> release_ok (release_runs xs db)"
  using release_runs_ok[of db xs] by blast

text \<open>
  Claim C22. A rollout only moves forward, in the order PREPARING, PAUSED_FOR_APPROVAL, CUTOVER, ROLLING_BACK,
  COMPLETE, whatever the API and the controllers do in any order: no row disappears, its application, generations,
  start and weight stay, and a complete row never changes again.
\<close>

theorem rollouts_move_forward:
  assumes "release_ok db" "i < length (db_rollouts db)"
  shows "i < length (db_rollouts (release_runs xs db)) \<and> row_forward (db_rollouts db ! i) (db_rollouts (release_runs xs db) ! i)"
  using release_runs_ok[OF assms(1), of xs] assms(2) by (auto simp: rows_forward_nth)

section \<open>Examples of releases\<close>

definition example_cutover :: Rollout where
  "example_cutover = example_rollout\<lparr>ro_Status := ''CUTOVER'', ro_CutoverAt := Some 1, ro_DrainDeadline := Some 5\<rparr>"

text \<open>One replica; the new generation serves it and the old one drains.\<close>

definition example_release :: release_db where
  "example_release =
     \<lparr>db_apps = [(''a'', example_row)], db_deployments = [example_deployment ''d1'' 1, example_deployment ''d2'' 2],
      db_rollouts = [example_cutover], db_machines = [example_machine ''m0'' ''d1'' 0 ''READY'', example_machine ''n0'' ''d2'' 0 ''READY''],
      db_deletes = [], db_creates = []\<rparr>"

definition example_tick :: tick_env where
  "example_tick =
     \<lparr>tk_now = 9, tk_later = 9, tk_dbnow = 9, tk_tx = TxCommit, tk_listFails = False, tk_fromFails = False, tk_exhausted = (\<lambda>_. False),
      tk_enqueue = (\<lambda>_. True), tk_custom = None, tk_samples = (Inr None, Inr None)\<rparr>"

definition example_config :: RolloutConfig where
  "example_config =
     \<lparr>rc_RolloutTimeout = 0, rc_RolloutDrainGrace = 4, rc_CutoverAnalysisWindow = 0, rc_CutoverMinServingRatio = 0, rc_CutoverZeroServingGrace = 0,
      rc_PrometheusAddr = '''', rc_CutoverMaxErrorRate = 0, rc_CutoverP99LatencySec = 0\<rparr>"

lemma example_completes:
  "reconcileRollout example_config example_tick example_row example_cutover example_release =
     (Inr Completed, example_release\<lparr>
        db_deployments := [(example_deployment ''d1'' 1)\<lparr>dp_Status := ''SUPERSEDED''\<rparr>, example_deployment ''d2'' 2],
        db_rollouts := [example_cutover\<lparr>ro_Status := ''COMPLETE'', ro_CompletedAt := Some 9\<rparr>], db_deletes := [''m0'']\<rparr>)"
  by code_simp

theorem rollouts_stay_well_formed_witness:
  "release_ok (release_runs [(TxCommit, 1, RolloutPass example_config example_tick example_row example_cutover), (TxFail, 2, UserRollback ''a'')] example_release)"
proof -
  have "release_ok example_release" by code_simp
  from rollouts_stay_well_formed[OF this] show ?thesis .
qed

theorem rollouts_move_forward_witness:
  "row_forward example_cutover (db_rollouts (release_runs [(TxCommit, 1, UserRollback ''a''), (TxCommit, 2, Finish ''a'' True)] example_release) ! 0)"
proof -
  have "release_ok example_release" "0 < length (db_rollouts example_release)" by code_simp+
  from rollouts_move_forward[OF this] have "row_forward (db_rollouts example_release ! 0)
      (db_rollouts (release_runs [(TxCommit, 1, UserRollback ''a''), (TxCommit, 2, Finish ''a'' True)] example_release) ! 0)" by blast
  moreover have "db_rollouts example_release ! 0 = example_cutover" by (simp add: example_release_def)
  ultimately show ?thesis by simp
qed

theorem rollout_deletes_keep_service_witness:
  "\<exists>d m. d \<in> set (db_deployments example_release) \<and> dp_Generation d = 2 \<and> m_DeploymentID m = dp_ID d \<and> machineServing m \<and> m_ID m \<noteq> ''m0''"
proof -
  have pre: "distinct (map m_ID (db_machines example_release))" "distinct (map dp_ID (db_deployments example_release))"
    "ro_FromGeneration example_cutover \<noteq> ro_ToGeneration example_cutover"
    "db_deletes (snd (reconcileRollout example_config example_tick example_row example_cutover example_release)) = db_deletes example_release @ [''m0'']"
    by code_simp+
  have rest: "[''m0''] \<noteq> []" "0 \<le> (0 :: int)" "0 < app_DesiredReplicas example_row" "kept_generation example_cutover = 2" by code_simp+
  from rollout_deletes_keep_service[OF pre rest(1-3)] show ?thesis unfolding rest(4) by fastforce
qed

lemma cutover_deadline_decides_witness:
  "\<exists>r'. r' \<in> set (db_rollouts (snd (reconcileRollout example_config example_tick example_row example_cutover example_release))) \<and>
     ro_ID r' = ''r'' \<and> ro_Status r' = ''COMPLETE''"
proof -
  let ?ms = "filter (\<lambda>m. m_DeploymentID m = dp_ID (example_deployment ''d2'' 2)) (ListMachinesForApp (app_ID example_row) example_release)"
  have "ActiveRolloutForApp (app_ID example_row) example_release = Some example_cutover" "ro_Status example_cutover = ''CUTOVER''"
    "ro_DrainDeadline example_cutover = Some 5"
    "max 5 (cutoverAnalysisEnd example_cutover (rc_CutoverAnalysisWindow example_config) 5) \<le> tk_now example_tick"
    "deploymentForGeneration (app_ID example_row) (ro_ToGeneration example_cutover) example_release = Some (example_deployment ''d2'' 2)"
    "\<not> tk_listFails example_tick" "tk_tx example_tick = TxCommit" "tk_custom example_tick = None" "full_ratio_config example_config"
    "app_DesiredReplicas example_row < 2 ^ 53" "?ms = ?ms"
    "m_ReplicaOrdinal ` set (filter machineServing ?ms) \<subseteq> {0..<app_DesiredReplicas example_row}"
    by (code_simp, code_simp, code_simp, code_simp, code_simp, code_simp, code_simp, (simp add: example_tick_def), code_simp, code_simp, simp, code_simp)
  from cutover_deadline_decides[OF this] have "\<exists>r'. r' \<in> set (db_rollouts (snd (reconcileRollout example_config example_tick example_row example_cutover example_release))) \<and>
      ro_ID r' = ro_ID example_cutover \<and> ro_Status r' = (if allReady ?ms (app_DesiredReplicas example_row) then ''COMPLETE'' else ''ROLLING_BACK'')" .
  moreover have "allReady ?ms (app_DesiredReplicas example_row)" "ro_ID example_cutover = ''r''" by code_simp+
  ultimately show ?thesis by simp
qed

text \<open>A new replica is missing: the pass creates it.\<close>

definition example_preparing :: release_db where
  "example_preparing = example_release\<lparr>db_rollouts := [example_rollout], db_machines := [example_machine ''m0'' ''d1'' 0 ''READY'']\<rparr>"

lemma scale_progress_witness:
  "\<exists>new. db_creates (snd (reconcileApp example_tick (\<lambda>_. True) example_row example_preparing)) = map (\<lambda>j. (''a'', ''d2'', j)) new \<and> new \<noteq> []"
proof -
  let ?ms = "filter (\<lambda>m. m_DeploymentID m = dp_ID (example_deployment ''d2'' 2)) (ListMachinesForApp (app_ID example_row) example_preparing)"
  have "\<not> app_Deleted example_row" "targetDeployment (app_ID example_row) example_preparing = Some (example_deployment ''d2'' 2)"
    "\<not> tk_listFails example_tick" "?ms = ?ms" "\<forall>m \<in> set ?ms. machineServing m" "0 \<le> (0 :: int)" "0 < app_DesiredReplicas example_row"
    "0 \<notin> m_ReplicaOrdinal ` set ?ms"
    by (code_simp, code_simp, code_simp, simp, code_simp, simp, code_simp, code_simp)
  from scale_progress[OF this, of "\<lambda>_. True"]
  have "\<exists>new. db_creates (snd (reconcileApp example_tick (\<lambda>_. True) example_row example_preparing)) =
      db_creates example_preparing @ map (\<lambda>j. (app_ID example_row, dp_ID (example_deployment ''d2'' 2), j)) new \<and> new \<noteq> []" by blast
  moreover have "db_creates example_preparing = []" "app_ID example_row = ''a''" "dp_ID (example_deployment ''d2'' 2) = ''d2''" by code_simp+
  ultimately show ?thesis by simp
qed

text \<open>
  A pass that read the row in CUTOVER completes the rollout although it has been rolled back in between: the
  transaction completes a row in any active state. The rollback is lost and the machine of the old generation is
  deleted.
\<close>

lemma stale_cutover_overrides_rollback:
  "let rolled = snd (RolloutToRollback TxCommit ''a'' example_release);
       passed = reconcileRollout example_config example_tick example_row example_cutover rolled in
   map ro_Status (db_rollouts rolled) = [''ROLLING_BACK''] \<and> fst passed = Inr Completed \<and>
   map (\<lambda>r. (ro_Status r, ro_Failed r)) (db_rollouts (snd passed)) = [(''COMPLETE'', False)] \<and> db_deletes (snd passed) = [''m0'']"
  by code_simp

text \<open>With a ratio of one half, a cutover with one of two replicas serving waits after its deadline, at any later time.\<close>

lemma half_ratio_waits:
  "reconcileRollout (example_config\<lparr>rc_CutoverMinServingRatio := 1 / 2\<rparr>) (example_tick\<lparr>tk_now := 5 + int n\<rparr>)
     (example_row\<lparr>app_DesiredReplicas := 2\<rparr>) example_cutover example_release = (Inr Stays, example_release)"
proof (rule cutover_waits_below_full_ratio[where t = 5 and d = "example_deployment ''d2'' 2"])
  let ?app = "example_row\<lparr>app_DesiredReplicas := 2\<rparr>"
  let ?ms = "filter (\<lambda>m. m_DeploymentID m = dp_ID (example_deployment ''d2'' 2)) (ListMachinesForApp (app_ID ?app) example_release)"
  have ms: "?ms = [example_machine ''n0'' ''d2'' 0 ''READY'']" by code_simp
  have verdict: "fdiv (float_of_int (int (servingOrdinals [example_machine ''n0'' ''d2'' 0 ''READY'']))) (float_of_int 2) = 1 / 2"
    "servingOrdinals [example_machine ''n0'' ''d2'' 0 ''READY''] = 1" by code_simp+
  show "fst (cutoverAssessment (example_config\<lparr>rc_CutoverMinServingRatio := 1 / 2\<rparr>) (tk_custom (example_tick\<lparr>tk_now := 5 + int n\<rparr>))
      (tk_samples (example_tick\<lparr>tk_now := 5 + int n\<rparr>)) ?app example_cutover ?ms True (tk_now (example_tick\<lparr>tk_now := 5 + int n\<rparr>))) \<noteq> VerdictRollback"
    using verdict unfolding ms
    by (simp add: example_tick_def example_config_def cutoverAssessment_def serving_ratio_AssessCutover_def normalized_def example_row_def Let_def)
  show "\<not> allReady ?ms (app_DesiredReplicas ?app)" by code_simp
qed (simp_all add: example_cutover_def example_rollout_def example_tick_def example_config_def cutoverAnalysisEnd_def, code_simp)

lemma cutover_assessment_at_end_witness:
  "fst (cutoverAssessment (example_config\<lparr>rc_PrometheusAddr := ''p'', rc_CutoverMaxErrorRate := 1 / 2\<rparr>) None (Inl ''refused'', Inr None)
     example_row example_cutover [example_machine ''n0'' ''d2'' 0 ''READY''] True 9) = VerdictRollback"
proof -
  have "app_Hostname example_row \<noteq> ''''" "0 < ro_ToGeneration example_cutover" by code_simp+
  note at_end = cutover_assessment_at_end[OF this, of "example_config\<lparr>rc_PrometheusAddr := ''p'', rc_CutoverMaxErrorRate := 1 / 2\<rparr>"
      "(Inl ''refused'', Inr None)" "[example_machine ''n0'' ''d2'' 0 ''READY'']" 9]
  show ?thesis unfolding at_end by (simp add: gate_passes_def example_config_def)
qed

end
