(* ===== verification/Observed.thy ===== *)
theory Observed
  imports DispatchSafety Rollouts
begin

text \<open>
  The reconciliation of what the agents report with the machine rows (\<open>controller/observed.go\<close> and the tables of decisions in \<open>controller/controller.go\<close>): the
  pass over the copies an agent holds, the decision table for a machine row, duplicates, lost nodes, retries with their backoff, restarts and expiry. The
  observation of the egress audit, metrics and log lines are left out. The lists of the agents are an argument; their fetching in parallel has no effects of its own.
\<close>

section \<open>Decisions\<close>

record oconfig =
  oc_NodeMissingThreshold :: nat
  oc_NodeLossRecreateAfter :: int
  oc_ReconcileGrace :: int
  oc_CreateRetryBase :: int
  oc_CreateRetryMax :: int
  oc_MaxCreateRetryAttempts :: nat

definition copyLivenessRank :: "PbMachine \<Rightarrow> nat" where
  "copyLivenessRank m =
     (if pm_State m = ''RUNNING'' then 4
      else if pm_State m \<in> {''PAUSED'', ''RESUMING''} then 3
      else if pm_State m \<in> {''PAUSING'', ''PENDING'', ''INITIALIZING''} then 2
      else if pm_State m \<in> {''STOPPING'', ''STOPPED''} then 1 else 0)"

definition agentStateUsable :: "PbMachine \<Rightarrow> bool" where
  "agentStateUsable m \<longleftrightarrow> pm_State m \<in> {''PENDING'', ''INITIALIZING'', ''RUNNING'', ''PAUSING'', ''PAUSED'', ''RESUMING'', ''STOPPING'', ''STOPPED''}"

datatype action = actionNone | actionWait | actionRecreate | actionRetryCreate

definition recreateAction :: "string \<Rightarrow> string \<Rightarrow> int \<Rightarrow> int \<Rightarrow> int \<Rightarrow> action" where
  "recreateAction kind status since grace backoff =
     (if kind = ''create'' \<and> status = ''SUCCEEDED'' then (if since < grace then actionWait else actionRecreate)
      else if kind = ''create'' \<and> status = ''FAILED'' then (if since < backoff then actionWait else actionRetryCreate)
      else if (kind = ''delete'' \<or> kind = ''reap'') \<and> status = ''SUCCEEDED'' then actionRecreate
      else actionNone)"

definition restartExitClassAllows :: "string \<Rightarrow> int option \<Rightarrow> bool" where
  "restartExitClassAllows mode code \<longleftrightarrow> mode = ''ALWAYS'' \<or> (mode = ''ON_FAILURE'' \<and> (case code of None \<Rightarrow> False | Some n \<Rightarrow> n \<noteq> 0))"

text \<open>The doublings that are left.\<close>

primrec retry_loop :: "nat \<Rightarrow> int \<Rightarrow> int \<Rightarrow> int" where
  "retry_loop 0 limit d = (if limit < d then limit else d)"
| "retry_loop (Suc n) limit d = (if limit div 2 < d then limit else retry_loop n limit (2 * d))"

definition createRetryDelay :: "oconfig \<Rightarrow> nat \<Rightarrow> int" where
  "createRetryDelay cfg attempts =
     (if oc_CreateRetryBase cfg \<le> 0 \<or> oc_CreateRetryMax cfg \<le> 0 then 0
      else retry_loop (attempts - 1) (oc_CreateRetryMax cfg) (oc_CreateRetryBase cfg))"

section \<open>Owners of a machine's lifecycle\<close>

definition truncated :: "string + DeploymentSpec option \<Rightarrow> release_err + Deployment option" where
  "truncated r = map_sum (\<lambda>_. DBFailed) (map_option Deployment.truncate) r"

definition activeRollout :: "string \<Rightarrow> (string + Rollout option \<Rightarrow> 'r prog) \<Rightarrow> 'r prog" where
  "activeRollout app = query (\<lambda>db. List.find (active_for app) (cd_rollouts db))"

definition holdsRecreate :: "MachineRow \<Rightarrow> (bool \<Rightarrow> 'r prog) \<Rightarrow> 'r prog" where
  "holdsRecreate m k =
     (if m_DeploymentID m = '''' then k False
      else activeRollout (m_AppID m) (\<lambda>r.
        case r of
          Inl _ \<Rightarrow> k True
        | Inr None \<Rightarrow> k False
        | Inr (Some rl) \<Rightarrow> getDeployment (m_DeploymentID m) (\<lambda>d. k (rolloutHoldsRecreate (Inr (Some rl)) (truncated d) (Machine.truncate m)))))"

definition repairsMachine :: "MachineRow \<Rightarrow> (bool \<Rightarrow> 'r prog) \<Rightarrow> 'r prog" where
  "repairsMachine m k = activeRollout (m_AppID m) (\<lambda>r.
     case r of
       Inr (Some rl) \<Rightarrow> getDeployment (m_DeploymentID m) (\<lambda>d. k (rolloutRepairsMachine (Inr (Some rl)) (truncated d)))
     | _ \<Rightarrow> k False)"

definition nodeEvacuating :: "string \<Rightarrow> (bool \<Rightarrow> 'r prog) \<Rightarrow> 'r prog" where
  "nodeEvacuating node k =
     (if node = '''' then k False
      else query (\<lambda>db. list_ex (\<lambda>n. (nr_ID n = node \<or> nr_NomadNodeID n = node) \<and> nr_Draining n \<and> nr_Evacuate n) (cd_nodes db)) (\<lambda>r.
        case r of Inl _ \<Rightarrow> k True | Inr b \<Rightarrow> k b))"

section \<open>Restarts\<close>

definition restart_spec :: "codec \<Rightarrow> MachineRow \<Rightarrow> string \<Rightarrow> DeploymentSpec \<Rightarrow> string \<Rightarrow> MachineSpec" where
  "restart_spec c m e dep project = (applyDeploymentSpecExtras c dep (machine_spec m e))\<lparr>ms_ProjectID := project\<rparr>"

definition restart_key :: "MachineRow \<Rightarrow> string \<Rightarrow> int \<Rightarrow> string" where
  "restart_key m failedExec attempt = ''op-restart-'' @ m_ID m @ ''-'' @ failedExec @ ''-'' @ fmt_int attempt"

definition restart_with :: "codec \<Rightarrow> MachineRow \<Rightarrow> string \<Rightarrow> string \<Rightarrow> int \<Rightarrow> 'r prog \<Rightarrow> 'r prog" where
  "restart_with c m e failedExec attempt p = getDeployment (m_DeploymentID m) (\<lambda>d.
     case d of
       Inr (Some dep) \<Rightarrow> projectForApp (m_AppID m) (\<lambda>pr.
         case pr of
           Inl _ \<Rightarrow> p
         | Inr project \<Rightarrow>
             if project = '''' then p
             else Clock (\<lambda>t.
               let opID = restart_key m failedExec attempt;
                   req = co_putCreate c (create_request m e (m_Generation m + 1) opID (restart_spec c m e dep project));
                   nextAt = t + mr_RestartBackoffSeconds m * second_ns in
               exec (OnPlane (Restart TxCommit project (m_ID m) (m_CurrentExecutionID m) e opID (m_Generation m) req nextAt))
                 (\<lambda>now db. fst (EnqueueRestartCAS TxCommit now project (m_ID m) (m_CurrentExecutionID m) e opID (m_Generation m) req nextAt (cd_plane db)))
                 (\<lambda>r. case r of
                    Inr (Inr _) \<Rightarrow> Tell (Recorded ''restart'' (m_ID m) opID) (projectForApp (m_AppID m) (\<lambda>pr2.
                      case pr2 of Inl _ \<Rightarrow> p | Inr _ \<Rightarrow> Tell (UserEvent (m_ID m) ''machine.restarted'') p))
                  | Inr (Inl ErrMachineLifecycleClosed) \<Rightarrow> Tell (Recorded ''restart'' (m_ID m) opID) p
                  | _ \<Rightarrow> p)))
     | _ \<Rightarrow> p)"

definition restartMachine :: "codec \<Rightarrow> MachineRow \<Rightarrow> 'r prog \<Rightarrow> 'r prog" where
  "restartMachine c m p = Fresh (\<lambda>u.
     let go = (\<lambda>failedExec. query (\<lambda>db. RestartAttemptNumber (m_ID m) (m_CurrentExecutionID m) (m_Generation m) (pl_machines (cd_plane db))) (\<lambda>r.
           case r of Inr (Inr attempt) \<Rightarrow> restart_with c m (''exec-'' @ u) failedExec attempt p | _ \<Rightarrow> p)) in
     if m_CurrentExecutionID m = '''' then Fresh (\<lambda>v. go (''missing-'' @ v)) else go (m_CurrentExecutionID m))"

definition restart_backoff :: "MachineRow \<Rightarrow> int" where
  "restart_backoff m = (if mr_RestartBackoffSeconds m * second_ns \<le> 0 then 10 * second_ns else mr_RestartBackoffSeconds m * second_ns)"

text \<open>The deadline has been set by an earlier pass.\<close>

definition restart_prepared :: "codec \<Rightarrow> MachineRow \<Rightarrow> 'r prog \<Rightarrow> 'r prog" where
  "restart_prepared c m p =
     (case mr_RestartNextAttemptAt m of
        None \<Rightarrow> p
      | Some next \<Rightarrow> Clock (\<lambda>t.
          if t < next then p
          else if mr_RestartMaxAttempts m \<le> mr_RestartAttempts m
          then exec_ignored (OnPlane (Block (m_ID m) True)) (Tell (Recorded ''restart'' (m_ID m) '''') (projectForApp (m_AppID m) (\<lambda>pr.
            case pr of Inl _ \<Rightarrow> p | Inr _ \<Rightarrow> Tell (UserEvent (m_ID m) ''machine.restart_blocked'') p)))
          else restartMachine c m p))"

definition maybeRestartMachine :: "codec \<Rightarrow> MachineRow \<Rightarrow> PbMachine \<Rightarrow> 'r prog \<Rightarrow> 'r prog" where
  "maybeRestartMachine c m agent p =
     (if (mr_RestartMode m \<noteq> ''ON_FAILURE'' \<and> mr_RestartMode m \<noteq> ''ALWAYS'') \<or> mr_RestartBlocked m then p
      else holdsRecreate m (\<lambda>held.
        if held then Tell (Recorded ''restart'' (m_ID m) '''') p
        else nodeEvacuating (m_NodeID m) (\<lambda>ev.
          if ev then Tell (Recorded ''restart'' (m_ID m) '''') p
          else if \<not> restartExitClassAllows (mr_RestartMode m) (pm_ExitCode agent) then Tell (Recorded ''restart'' (m_ID m) '''') p
          else Clock (\<lambda>t.
            let nextAt = t + restart_backoff m in
            exec (OnPlane (Backoff (m_ID m) (m_CurrentExecutionID m) (m_Generation m) nextAt))
              (\<lambda>now db. fst (PrepareRestartBackoff now (m_ID m) (m_CurrentExecutionID m) (m_Generation m) nextAt (pl_machines (cd_plane db))))
              (\<lambda>r. case r of Inr False \<Rightarrow> restart_prepared c m p | _ \<Rightarrow> p)))))"

section \<open>The copies an agent reports\<close>

definition reported_project :: "PbMachine \<Rightarrow> string" where
  "reported_project m = (if pm_ProjectID m = '''' then ''dev'' else pm_ProjectID m)"

text \<open>The guest has read its secrets.\<close>

definition observe_ack :: "PbMachine \<Rightarrow> 'r prog \<Rightarrow> 'r prog" where
  "observe_ack m p =
     (if pm_SecretDelivery m \<noteq> ''SECRET_DELIVERY_ACKED'' then p
      else leaseForExecution (pm_MachineID m) (pm_ExecutionID m) (\<lambda>r.
        case r of
          Inl _ \<Rightarrow> p
        | Inr l \<Rightarrow>
            if sl_State l = ''ACKED'' then p
            else exec (AckLease l) (\<lambda>now db. fst (MarkSecretLeaseAcked now l (cd_leases db))) (\<lambda>a.
              case a of Inr (Inr _) \<Rightarrow> Tell (UserEvent (pm_MachineID m) ''secret.delivered'') p | _ \<Rightarrow> p)))"

text \<open>The stable window of a restarted machine; a pause freezes it.\<close>

definition observe_stability :: "MachineRow \<Rightarrow> PbMachine \<Rightarrow> 'r prog \<Rightarrow> 'r prog" where
  "observe_stability pg m p =
     (if 0 < mr_RestartAttempts pg \<and> pm_Readiness m \<in> {''READY'', ''UNCONFIGURED''}
      then Clock (\<lambda>t.
        case mr_RestartStableSince pg of
          None \<Rightarrow> exec_ignored (OnPlane (Stable (pm_MachineID m) (Some t))) p
        | Some since \<Rightarrow>
            let window = mr_RestartStableWindowSeconds pg * second_ns in
            if 0 < window \<and> window \<le> t - since
            then exec (OnPlane (ResetAttempts (pm_MachineID m))) (\<lambda>now db. fst (ResetRestartAttempts now (pm_MachineID m) (pl_machines (cd_plane db)))) (\<lambda>r.
              case r of Inr (Inr _) \<Rightarrow> Tell (Recorded ''restart'' (pm_MachineID m) '''') p | _ \<Rightarrow> p)
            else p)
      else if 0 < mr_RestartAttempts pg \<and> mr_RestartStableSince pg \<noteq> None \<and> pm_State m \<noteq> ''PAUSED''
      then exec_ignored (OnPlane (Stable (pm_MachineID m) None)) p
      else p)"

definition observe_current :: "MachineRow \<Rightarrow> PbMachine \<Rightarrow> 'r prog \<Rightarrow> 'r prog" where
  "observe_current pg m p =
     (let rest = exec_ignored (OnPlane (Report (pm_MachineID m) (pm_ExecutionID m) (pm_State m) (pm_SlotIp m) (pm_Readiness m)))
            (observe_ack m (observe_stability pg m p)) in
      if m_ObservedState pg = ''RUNNING'' \<and> pm_State m = ''PAUSED'' then Tell (Recorded ''autostandby'' (pm_MachineID m) '''') rest else rest)"

text \<open>A copy without a row, or of another execution than the row's, is removed from the node that reports it.\<close>

definition processAgentMachine :: "codec \<Rightarrow> string \<Rightarrow> PbMachine \<Rightarrow> 'r prog \<Rightarrow> 'r prog" where
  "processAgentMachine c agent m p = getMachine (pm_MachineID m) (\<lambda>r.
     case r of
       Inr (Some pg) \<Rightarrow>
         if m_CurrentExecutionID pg \<noteq> pm_ExecutionID m
         then Tell (Recorded ''reconcile'' (pm_MachineID m) '''') (enqueueOrphanDelete c (reported_project m) m agent (m_Generation pg) p)
         else observe_current pg m p
     | _ \<Rightarrow> hasPending (pm_MachineID m) (\<lambda>b. if b = Inr False then enqueueOrphanDelete c (reported_project m) m agent 1 p else p))"

section \<open>The decision table of a machine row\<close>

type_synonym copies = "(string, PbMachine) gomap"

text \<open>The nodes with a copy of the current execution.\<close>

definition live_ids :: "MachineRow \<Rightarrow> copies \<Rightarrow> string list" where
  "live_ids m copies = filter (\<lambda>i. case mget copies i of None \<Rightarrow> False | Some cp \<Rightarrow> pm_ExecutionID cp = m_CurrentExecutionID m) (sort (map fst copies))"

definition rank_at :: "copies \<Rightarrow> string \<Rightarrow> nat" where
  "rank_at copies i = (case mget copies i of None \<Rightarrow> 0 | Some cp \<Rightarrow> copyLivenessRank cp)"

definition addPref :: "string list \<Rightarrow> string \<Rightarrow> string list \<Rightarrow> string list" where
  "addPref ids i pref = (if i = '''' \<or> i \<notin> set ids \<or> i \<in> set pref then pref else pref @ [i])"

text \<open>The node of the dispatch first, then the recorded node, then the others in order.\<close>

definition preference :: "string list \<Rightarrow> string \<Rightarrow> string \<Rightarrow> string list" where
  "preference ids dispatched home = fold (addPref ids) ids (addPref ids home (addPref ids dispatched []))"

text \<open>The most alive copy stays, the most preferred one among equals.\<close>

fun choose_survivor :: "copies \<Rightarrow> string \<Rightarrow> string list \<Rightarrow> string" where
  "choose_survivor copies s [] = s"
| "choose_survivor copies s (i # is) = choose_survivor copies (if rank_at copies s < rank_at copies i then i else s) is"

definition survivor :: "copies \<Rightarrow> string list \<Rightarrow> string" where
  "survivor copies pref = (case pref of [] \<Rightarrow> '''' | i # is \<Rightarrow> choose_survivor copies i is)"

definition duplicate_key :: "MachineRow \<Rightarrow> string \<Rightarrow> string" where
  "duplicate_key m node = ''op-dup-'' @ m_ID m @ ''-'' @ m_CurrentExecutionID m @ ''-'' @ node"

text \<open>\<open>q\<close> follows when there is nothing to do, \<open>p\<close> when a copy is being removed.\<close>

definition reapDuplicateLiveCopy :: "codec \<Rightarrow> MachineRow \<Rightarrow> copies \<Rightarrow> 'r prog \<Rightarrow> 'r prog \<Rightarrow> 'r prog" where
  "reapDuplicateLiveCopy c m copies p q =
     (let ids = live_ids m copies in
      if m_CurrentExecutionID m = '''' \<or> length ids < 2 then q
      else query (\<lambda>db. LatestCreateDispatchNode (m_ID m) (m_CurrentExecutionID m) (pl_ops (cd_plane db))) (\<lambda>r.
        let pref = preference ids (case r of Inl _ \<Rightarrow> '''' | Inr n \<Rightarrow> n) (m_NodeID m); keep = survivor copies pref in
        hasPending (m_ID m) (\<lambda>b.
          if b \<noteq> Inr False then q
          else
            (case List.find (\<lambda>i. i \<noteq> keep) ids of
               None \<Rightarrow> q
             | Some i \<Rightarrow> Tell (Recorded ''reconcile'' (m_ID m) '''') (enqueueDelete c (m_ID m) (m_CurrentExecutionID m) (m_Generation m) (duplicate_key m i) i p)))))"

text \<open>An operation that waits is ended only if it is a create.\<close>

definition supersede :: "MachineRow \<Rightarrow> string \<Rightarrow> 'r prog \<Rightarrow> 'r prog \<Rightarrow> 'r prog" where
  "supersede m reason p q = pendingOperation (m_ID m) (\<lambda>r.
     case r of
       Inl _ \<Rightarrow> p
     | Inr None \<Rightarrow> q
     | Inr (Some x) \<Rightarrow>
         if op_Kind x \<noteq> ''create'' then p
         else exec_ignored (Repair.complete (op_ID x) ''FAILED'' None reason) (Tell (Released (op_ID x)) (Tell (Recorded ''reconcile'' (m_ID m) (op_ID x)) p)))"

definition supersedePendingCreateAndReap :: "codec \<Rightarrow> MachineRow \<Rightarrow> PbMachine \<Rightarrow> string \<Rightarrow> 'r prog \<Rightarrow> 'r prog" where
  "supersedePendingCreateAndReap c m agent node p = supersede m ''superseded: agent holds stale execution, reap first'' p
     (Tell (Recorded ''reconcile'' (m_ID m) '''') (enqueueDelete c (m_ID m) (pm_ExecutionID agent) (m_Generation m) (orphan_key (m_ID m) (pm_ExecutionID agent) node) node p))"

definition reap_key :: "MachineRow \<Rightarrow> string" where
  "reap_key m = ''op-reap-'' @ m_ID m @ ''-'' @ m_CurrentExecutionID m"

text \<open>The copy of the current execution that counts: the one on the recorded node, else the first.\<close>

definition live_node :: "MachineRow \<Rightarrow> copies \<Rightarrow> string option" where
  "live_node m copies =
     (let ids = live_ids m copies in
      if m_NodeID m \<in> set ids then Some (m_NodeID m) else case ids of [] \<Rightarrow> None | i # _ \<Rightarrow> Some i)"

definition foreign_ids :: "MachineRow \<Rightarrow> copies \<Rightarrow> string list" where
  "foreign_ids m copies = filter (\<lambda>i. case mget copies i of None \<Rightarrow> False | Some cp \<Rightarrow> pm_ExecutionID cp \<noteq> m_CurrentExecutionID m) (sort (map fst copies))"

definition foreign_usable :: "MachineRow \<Rightarrow> copies \<Rightarrow> bool" where
  "foreign_usable m copies \<longleftrightarrow> list_ex (\<lambda>i. case mget copies i of None \<Rightarrow> False | Some cp \<Rightarrow> agentStateUsable cp) (foreign_ids m copies)"

text \<open>The machine is to be deleted and an agent still has a copy of it.\<close>

definition reconcile_deleted :: "codec \<Rightarrow> MachineRow \<Rightarrow> copies \<Rightarrow> 'r prog \<Rightarrow> 'r prog" where
  "reconcile_deleted c m copies p =
     (if copies = [] then p
      else hasPending (m_ID m) (\<lambda>b.
        if b \<noteq> Inr False then p
        else Tell (Recorded ''reconcile'' (m_ID m) '''')
          (case live_node m copies of
             Some node \<Rightarrow> enqueueDelete c (m_ID m) (m_CurrentExecutionID m) (m_Generation m) (reap_key m) node p
           | None \<Rightarrow>
               (case foreign_ids m copies of
                  [] \<Rightarrow> p
                | i # _ \<Rightarrow>
                    (case mget copies i of
                       None \<Rightarrow> p
                     | Some cp \<Rightarrow> enqueueDelete c (m_ID m) (pm_ExecutionID cp) (orphan_generation (pm_Generation cp) (m_Generation m))
                         (orphan_key (m_ID m) (pm_ExecutionID cp) i) i p)))))"

definition reconcile_dead :: "codec \<Rightarrow> MachineRow \<Rightarrow> string \<Rightarrow> 'r prog \<Rightarrow> 'r prog" where
  "reconcile_dead c m node p = supersede m ''superseded: dead instance of current execution, reap first'' p
     (Tell (Recorded ''reconcile'' (m_ID m) '''') (enqueueDelete c (m_ID m) (m_CurrentExecutionID m) (m_Generation m) (reap_key m) node p))"

definition rollout_reap_key :: "MachineRow \<Rightarrow> string" where
  "rollout_reap_key m = ''op-rollout-reap-'' @ m_ID m @ ''-'' @ m_CurrentExecutionID m"

text \<open>The execution has exited: the rollout replaces the machine, or leaves it, or the restart policy decides.\<close>

definition reconcile_stopped :: "codec \<Rightarrow> MachineRow \<Rightarrow> PbMachine \<Rightarrow> string \<Rightarrow> 'r prog \<Rightarrow> 'r prog" where
  "reconcile_stopped c m cp node p = repairsMachine m (\<lambda>rep.
     if rep then hasPending (m_ID m) (\<lambda>b.
       if b = Inr False then enqueueDelete c (m_ID m) (m_CurrentExecutionID m) (m_Generation m) (rollout_reap_key m) node p else p)
     else holdsRecreate m (\<lambda>held. if held then p else maybeRestartMachine c m cp p))"

text \<open>The node of the machine is not healthy.\<close>

definition reconcile_lost_node :: "oconfig \<Rightarrow> codec \<Rightarrow> MachineRow \<Rightarrow> 'r prog \<Rightarrow> 'r prog" where
  "reconcile_lost_node cfg c m p =
     (let hold = Tell (Recorded ''reconcile'' (m_ID m) '''') p in
      exec_ignored (OnPlane (Missing (m_ID m))) (query (\<lambda>db. MachineHasLocalRWAttachment (m_ID m) (cd_vols db)) (\<lambda>v.
        if v \<noteq> Inr False then Tell (Recorded ''reconcile'' (m_ID m) '''') p
        else
          (case mr_LastObservedAt m of
             None \<Rightarrow> hold
           | Some seen \<Rightarrow> Clock (\<lambda>t.
               if t - seen < oc_NodeLossRecreateAfter cfg then hold
               else hasPending (m_ID m) (\<lambda>b.
                 if b \<noteq> Inr False then hold
                 else holdsRecreate m (\<lambda>held.
                   if held then hold else Tell (Recorded ''reconcile'' (m_ID m) '''') (recreateMachine c m True p))))))))"

definition retry_or_recreate :: "codec \<Rightarrow> MachineRow \<Rightarrow> action \<Rightarrow> 'r prog \<Rightarrow> 'r prog" where
  "retry_or_recreate c m a p =
     (case a of
        actionRecreate \<Rightarrow> recreateMachine c m True p
      | actionRetryCreate \<Rightarrow> leaseForExecution (m_ID m) (m_CurrentExecutionID m) (\<lambda>l.
          case l of Inr _ \<Rightarrow> recreateMachine c m True p | Inl _ \<Rightarrow> recreateMachine c m False p)
      | _ \<Rightarrow> p)"

definition after_operation :: "oconfig \<Rightarrow> codec \<Rightarrow> MachineRow \<Rightarrow> Operation \<Rightarrow> nat \<Rightarrow> 'r prog \<Rightarrow> 'r prog" where
  "after_operation cfg c m x attempts p =
     (if op_Kind x = ''create'' \<and> op_Status x = ''FAILED'' \<and> oc_MaxCreateRetryAttempts cfg \<le> attempts then Tell (Recorded ''reconcile'' (m_ID m) (op_ID x)) p
      else Clock (\<lambda>t. retry_or_recreate c m
        (recreateAction (op_Kind x) (op_Status x) (t - op_UpdatedAt x) (oc_ReconcileGrace cfg) (createRetryDelay cfg attempts)) p))"

text \<open>No copy of the current execution anywhere, the node is healthy or unknown: the last operation decides.\<close>

definition reconcile_missing :: "oconfig \<Rightarrow> codec \<Rightarrow> MachineRow \<Rightarrow> 'r prog \<Rightarrow> 'r prog" where
  "reconcile_missing cfg c m p = hasPending (m_ID m) (\<lambda>b.
     if b \<noteq> Inr False then p
     else repairsMachine m (\<lambda>rep.
       if rep then recreateMachine c m True p
       else holdsRecreate m (\<lambda>held.
         if held then Tell (Recorded ''rollout'' (m_ID m) '''') p
         else query (\<lambda>db. GetLatestOperationForMachine (m_ID m) (pl_ops (cd_plane db))) (\<lambda>l.
           case l of
             Inr (Some x) \<Rightarrow>
               if op_Kind x = ''create'' \<and> op_Status x = ''FAILED''
               then query (\<lambda>db. FailedCreateAttempts (m_ID m) (pl_ops (cd_plane db))) (\<lambda>n. after_operation cfg c m x (case n of Inl _ \<Rightarrow> 0 | Inr k \<Rightarrow> k) p)
               else after_operation cfg c m x 0 p
           | _ \<Rightarrow> p))))"

definition node_healthy :: "string \<Rightarrow> NodeView list \<Rightarrow> bool" where
  "node_healthy node vs = (case List.find (\<lambda>v. nv_AgentID v = node) vs of None \<Rightarrow> False | Some v \<Rightarrow> nv_Status v = ''HEALTHY'')"

definition reconcile_absent :: "oconfig \<Rightarrow> codec \<Rightarrow> MachineRow \<Rightarrow> 'r prog \<Rightarrow> 'r prog" where
  "reconcile_absent cfg c m p =
     (if m_NodeID m = '''' then reconcile_missing cfg c m p
      else Nodes (\<lambda>vs. if node_healthy (m_NodeID m) vs then reconcile_missing cfg c m p else reconcile_lost_node cfg c m p))"

definition reconcile_live :: "codec \<Rightarrow> MachineRow \<Rightarrow> copies \<Rightarrow> string \<Rightarrow> 'r prog \<Rightarrow> 'r prog" where
  "reconcile_live c m copies node p =
     (case mget copies node of
        None \<Rightarrow> p
      | Some cp \<Rightarrow>
          if \<not> agentStateUsable cp then reconcile_dead c m node p
          else if pm_State cp = ''STOPPED'' then reconcile_stopped c m cp node p
          else p)"

definition reconcile_wanted :: "oconfig \<Rightarrow> codec \<Rightarrow> MachineRow \<Rightarrow> copies \<Rightarrow> 'r prog \<Rightarrow> 'r prog" where
  "reconcile_wanted cfg c m copies p = reapDuplicateLiveCopy c m copies p
     (case live_node m copies of
        None \<Rightarrow> if foreign_usable m copies then p else reconcile_absent cfg c m p
      | Some node \<Rightarrow> reconcile_live c m copies node p)"

definition processPGMachine :: "oconfig \<Rightarrow> codec \<Rightarrow> MachineRow \<Rightarrow> copies \<Rightarrow> 'r prog \<Rightarrow> 'r prog" where
  "processPGMachine cfg c m copies p =
     (if m_DesiredState m = ''DELETED'' then reconcile_deleted c m copies p
      else if m_DesiredState m \<noteq> ''CREATED'' \<and> m_DesiredState m \<noteq> ''RUNNING'' then p
      else
        (case mget copies (m_NodeID m) of
           Some cp \<Rightarrow>
             if pm_ExecutionID cp \<noteq> m_CurrentExecutionID m then supersedePendingCreateAndReap c m cp (m_NodeID m) p
             else reconcile_wanted cfg c m copies p
         | None \<Rightarrow> reconcile_wanted cfg c m copies p))"

section \<open>Expiry\<close>

definition ttl_execution :: "MachineRow \<Rightarrow> string" where
  "ttl_execution m = (if m_CurrentExecutionID m = '''' then ''exec-none'' else m_CurrentExecutionID m)"

definition ttl_params :: "codec \<Rightarrow> MachineRow \<Rightarrow> string \<Rightarrow> EnqueueOperationParams" where
  "ttl_params c m project =
     (let e = ttl_execution m; opID = ''op-ttl-'' @ m_ID m @ ''-'' @ e in
      \<lparr>eq_OperationID = opID, eq_ProjectID = project, eq_MachineID = m_ID m, eq_ExecutionID = e, eq_Generation = m_Generation m, eq_Kind = ''delete'',
       eq_Request = co_putDelete c \<lparr>dq_MachineID = m_ID m, dq_ExecutionID = e, dq_Generation = m_Generation m, dq_OperationID = opID\<rparr>,
       eq_DispatchNodeID = '''', eq_ResurrectFailed = True\<rparr>)"

text \<open>The route goes first; the machine is deleted in a later pass, when no backend of it is stored any more.\<close>

definition expire_one :: "codec \<Rightarrow> MachineRow \<Rightarrow> 'r prog \<Rightarrow> 'r prog" where
  "expire_one c m p = query (\<lambda>db. ExpiredRouteDetached (cd_backends db) (m_ID m) (m_CurrentExecutionID m) (pl_machines (cd_plane db))) (\<lambda>r.
     case r of
       Inl _ \<Rightarrow> p
     | Inr False \<Rightarrow> exec_ignored (OnPlane (Detach (m_ID m))) p
     | Inr True \<Rightarrow> exec_err (OnPlane (Deleted (m_ID m))) (\<lambda>e.
         case e of
           Some _ \<Rightarrow> p
         | None \<Rightarrow> projectForApp (m_AppID m) (\<lambda>pr.
             let q = ttl_params c m (project_or_dev pr) in
             Tell (UserEvent (m_ID m) ''machine.expired'') (exec (OnPlane (OnOutbox (Enqueue TxCommit q)))
               (\<lambda>now db. fst (EnqueueDelete TxCommit now q (pl_ops (cd_plane db)))) (\<lambda>a.
               case a of
                 Inr (Inr x) \<Rightarrow> pin_reap (op_ID x) (m_NodeID m) (Tell (Recorded ''expiry'' (m_ID m) (eq_OperationID q)) p)
               | _ \<Rightarrow> p)))))"

primrec expire_rows :: "codec \<Rightarrow> MachineRow list \<Rightarrow> 'r prog \<Rightarrow> 'r prog" where
  "expire_rows c [] p = p"
| "expire_rows c (m # ms) p = (if m_DesiredState m = ''DELETED'' then expire_rows c ms p else expire_one c m (expire_rows c ms p))"

definition expireMachines :: "codec \<Rightarrow> 'r prog \<Rightarrow> 'r prog" where
  "expireMachines c p = Clock (\<lambda>t. query (\<lambda>db. ListExpiredMachines t (pl_machines (cd_plane db))) (\<lambda>r. case r of Inl _ \<Rightarrow> p | Inr ms \<Rightarrow> expire_rows c ms p))"

section \<open>A pass\<close>

text \<open>What the list call of a node gave, and the consecutive failures of every node.\<close>

datatype outcome = NoClient | ListFailed | Listed "PbMachine list"

type_synonym failures = "(string, nat) gomap"

definition bump_failures :: "string \<Rightarrow> failures \<Rightarrow> failures" where
  "bump_failures node fs = AList.update node (Suc (case mget fs node of None \<Rightarrow> 0 | Some n \<Rightarrow> n)) fs"

primrec mark_missing :: "MachineRow list \<Rightarrow> 'r prog \<Rightarrow> 'r prog" where
  "mark_missing [] p = p"
| "mark_missing (m # ms) p = exec_err (OnPlane (Missing (m_ID m))) (\<lambda>e.
     case e of Some _ \<Rightarrow> mark_missing ms p | None \<Rightarrow> Tell (Recorded ''reconcile'' (m_ID m) '''') (mark_missing ms p))"

definition ListMachinesOnNode :: "string \<Rightarrow> machines \<Rightarrow> machines" where
  "ListMachinesOnNode node ms = filter (\<lambda>m. m_NodeID m = node \<and> m_DesiredState m \<in> {''CREATED'', ''RUNNING''}) ms"

primrec observe_machines :: "codec \<Rightarrow> string \<Rightarrow> PbMachine list \<Rightarrow> 'r prog \<Rightarrow> 'r prog" where
  "observe_machines c agent [] p = p"
| "observe_machines c agent (m # ms) p = processAgentMachine c agent m (observe_machines c agent ms p)"

definition observe_node :: "oconfig \<Rightarrow> codec \<Rightarrow> string \<Rightarrow> outcome \<Rightarrow> failures \<Rightarrow> (failures \<Rightarrow> 'r prog) \<Rightarrow> 'r prog" where
  "observe_node cfg c agent out fs k =
     (let fs1 = bump_failures agent fs in
      case out of
        NoClient \<Rightarrow> k fs1
      | ListFailed \<Rightarrow>
          if (case mget fs1 agent of None \<Rightarrow> 0 | Some n \<Rightarrow> n) < oc_NodeMissingThreshold cfg then k fs1
          else query (\<lambda>db. ListMachinesOnNode agent (pl_machines (cd_plane db))) (\<lambda>r.
            case r of Inl _ \<Rightarrow> k fs1 | Inr ms \<Rightarrow> mark_missing ms (k fs1))
      | Listed ms \<Rightarrow> observe_machines c agent ms (k (AList.delete agent fs)))"

primrec observe_nodes :: "oconfig \<Rightarrow> codec \<Rightarrow> (string \<times> outcome) list \<Rightarrow> failures \<Rightarrow> (failures \<Rightarrow> 'r prog) \<Rightarrow> 'r prog" where
  "observe_nodes cfg c [] fs k = k fs"
| "observe_nodes cfg c (o1 # os) fs k = observe_node cfg c (fst o1) (snd o1) fs (\<lambda>fs1. observe_nodes cfg c os fs1 k)"

text \<open>The copies of a machine, by node; the last report of a node wins.\<close>

definition add_copy :: "string \<Rightarrow> string \<Rightarrow> PbMachine \<Rightarrow> copies \<Rightarrow> copies" where
  "add_copy mid agent m cs = (if pm_MachineID m = mid then AList.update agent m cs else cs)"

definition copies_of :: "(string \<times> outcome) list \<Rightarrow> string \<Rightarrow> copies" where
  "copies_of os mid = fold (\<lambda>(agent, out) cs. case out of Listed ms \<Rightarrow> fold (add_copy mid agent) ms cs | _ \<Rightarrow> cs) os []"

primrec reconcile_rows :: "oconfig \<Rightarrow> codec \<Rightarrow> (string \<Rightarrow> copies) \<Rightarrow> MachineRow list \<Rightarrow> 'r prog \<Rightarrow> 'r prog" where
  "reconcile_rows cfg c copies [] p = p"
| "reconcile_rows cfg c copies (m # ms) p = processPGMachine cfg c m (copies (m_ID m)) (reconcile_rows cfg c copies ms p)"

definition ListMachines :: "cdb \<Rightarrow> machines" where
  "ListMachines db = sort_key m_CreatedAt (filter (\<lambda>m. m_AppID m \<in> fst ` set (pl_apps (cd_plane db))) (pl_machines (cd_plane db)))"

text \<open>The pass ends with the publication of the routes, \<open>build\<close>.\<close>

definition syncObserved :: "oconfig \<Rightarrow> codec \<Rightarrow> (string \<times> outcome) list \<Rightarrow> failures \<Rightarrow> (failures \<Rightarrow> 'r prog) \<Rightarrow> (failures \<Rightarrow> 'r prog) \<Rightarrow> 'r prog" where
  "syncObserved cfg c os fs build failing = expireMachines c (observe_nodes cfg c os fs (\<lambda>fs1. query ListMachines (\<lambda>r.
     case r of Inl _ \<Rightarrow> failing fs1 | Inr ms \<Rightarrow> reconcile_rows cfg c (copies_of os) ms (build fs1))))"

section \<open>Backoff of failed creates\<close>

lemma retry_loop_min: "\<lbrakk>0 < d; 0 < limit\<rbrakk> \<Longrightarrow> retry_loop n limit d = min limit (d * 2 ^ n)"
proof (induction n arbitrary: d)
  case (Suc n)
  show ?case
  proof (cases "limit div 2 < d")
    case True
    have "2 * d * 1 \<le> 2 * d * 2 ^ n" using Suc.prems by (intro mult_left_mono) auto
    then have "limit < d * 2 ^ Suc n" using True by (simp add: mult.assoc mult.left_commute)
    then show ?thesis using True by (simp add: min_def)
  next
    case False
    then show ?thesis using Suc.IH[of "2 * d"] Suc.prems by (simp add: mult.assoc mult.left_commute)
  qed
qed (auto simp: min_def)

text \<open>
  The loop that doubles the delay and stops before it would pass the limit computes the capped power: the delay before the next try after \<open>n + 1\<close> failures is the
  base times two to the power of \<open>n\<close>, at most the limit.
\<close>

lemma retry_delay_is_capped_power:
  assumes "0 < oc_CreateRetryBase cfg" "0 < oc_CreateRetryMax cfg"
  shows "createRetryDelay cfg (Suc n) = min (oc_CreateRetryMax cfg) (oc_CreateRetryBase cfg * 2 ^ n)"
  using assms by (simp add: createRetryDelay_def retry_loop_min)

definition oconfig_example :: oconfig where
  "oconfig_example = \<lparr>oc_NodeMissingThreshold = 3, oc_NodeLossRecreateAfter = 60, oc_ReconcileGrace = 20, oc_CreateRetryBase = 5, oc_CreateRetryMax = 300, oc_MaxCreateRetryAttempts = 6\<rparr>"

section \<open>Duplicates\<close>

lemma addPref_props: "\<lbrakk>distinct pref; set pref \<subseteq> set ids\<rbrakk> \<Longrightarrow> distinct (addPref ids i pref) \<and> set (addPref ids i pref) \<subseteq> set ids \<and>
    set pref \<subseteq> set (addPref ids i pref) \<and> (i \<in> set ids \<and> i \<noteq> '''' \<longrightarrow> i \<in> set (addPref ids i pref))"
  by (auto simp: addPref_def)

lemma fold_addPref: "\<lbrakk>distinct pref; set pref \<subseteq> set ids; set is \<subseteq> set ids\<rbrakk> \<Longrightarrow>
    distinct (fold (addPref ids) is pref) \<and> set (fold (addPref ids) is pref) \<subseteq> set ids \<and> set pref \<subseteq> set (fold (addPref ids) is pref) \<and>
    {i \<in> set is. i \<noteq> ''''} \<subseteq> set (fold (addPref ids) is pref)"
proof (induction "is" arbitrary: pref)
  case (Cons i "is")
  let ?p = "addPref ids i pref"
  have "distinct ?p" "set ?p \<subseteq> set ids" "set pref \<subseteq> set ?p" "i \<noteq> '''' \<longrightarrow> i \<in> set ?p" using addPref_props[of pref ids i] Cons.prems by auto
  then show ?case using Cons.IH[of ?p] Cons.prems by auto
qed auto

lemma preference_set: "'''' \<notin> set ids \<Longrightarrow> set (preference ids d home) = set ids"
proof -
  assume ne: "'''' \<notin> set ids"
  let ?p = "addPref ids home (addPref ids d [])"
  have "distinct ?p \<and> set ?p \<subseteq> set ids" by (auto simp: addPref_def)
  then show ?thesis using fold_addPref[of ?p ids ids] ne by (auto simp: preference_def)
qed

lemma choose_survivor_best:
  "choose_survivor copies s is \<in> insert s (set is) \<and> (\<forall>i \<in> insert s (set is). rank_at copies i \<le> rank_at copies (choose_survivor copies s is))"
  by (induction "is" arbitrary: s) (auto, (metis insertE insertI1 insertI2 le_trans less_imp_le nat_le_linear not_le)+)

lemma survivor_best: "ids \<noteq> [] \<Longrightarrow> survivor copies ids \<in> set ids \<and> (\<forall>i \<in> set ids. rank_at copies i \<le> rank_at copies (survivor copies ids))"
  using choose_survivor_best[of copies "hd ids" "tl ids"] by (cases ids) (auto simp: survivor_def)

section \<open>A live machine is left alone\<close>

text \<open>
  A machine whose current execution is alive on its recorded node, and nowhere else, is not touched by the pass over its row: no statement, no query, no
  request, whatever copies of other executions the agents hold.
\<close>

lemma live_machine_left_alone:
  assumes "m_DesiredState m = ''CREATED'' \<or> m_DesiredState m = ''RUNNING''"
    and "mget copies (m_NodeID m) = Some cp" "pm_ExecutionID cp = m_CurrentExecutionID m" "agentStateUsable cp" "pm_State cp \<noteq> ''STOPPED''"
    and "live_ids m copies = [m_NodeID m]"
  shows "processPGMachine cfg c m copies p = p"
  using assms by (auto simp: processPGMachine_def reconcile_wanted_def reapDuplicateLiveCopy_def live_node_def reconcile_live_def Let_def)

section \<open>One repair in a pass\<close>

text \<open>The two kinds of statement that change what runs: a new execution, or the removal of one.\<close>

definition starts :: "cstmt \<Rightarrow> bool" where
  "starts s = (case s of OnPlane (Create _ _ _) \<Rightarrow> True | OnPlane (Restart _ _ _ _ _ _ _ _ _) \<Rightarrow> True | _ \<Rightarrow> False)"

definition removes :: "cstmt \<Rightarrow> bool" where
  "removes s = (case s of OnPlane (OnOutbox (Enqueue _ _)) \<Rightarrow> True | _ \<Rightarrow> False)"

datatype phase = Idle | Starting | Removing

definition repair_stmt :: "phase \<Rightarrow> cstmt \<Rightarrow> phase option" where
  "repair_stmt q s =
     (if starts s then (if q = Idle then Some Starting else None)
      else if removes s then (if q = Starting then None else Some Removing)
      else Some q)"

definition repair_mon :: "phase \<Rightarrow> happening \<Rightarrow> phase option" where
  "repair_mon q x = (case x of Did _ s _ \<Rightarrow> repair_stmt q s | Failed s \<Rightarrow> repair_stmt q s | Called _ \<Rightarrow> Some q)"

definition started :: "world \<Rightarrow> nat" where
  "started w = length (filter (\<lambda>(now, s, db). starts s) (wo_done w))"

definition removed :: "world \<Rightarrow> nat" where
  "removed w = length (filter (\<lambda>(now, s, db). removes s) (wo_done w))"

lemma starts_dispatch [simp]: "\<not> starts (dispatch_stmt i n)" "\<not> removes (dispatch_stmt i n)"
  by (simp_all add: starts_def removes_def dispatch_stmt_def)

lemma starts_removes: "starts s \<Longrightarrow> \<not> removes s"
  by (auto simp: starts_def removes_def split: cstmt.splits plane_op.splits)

interpretation repairing: monitor repair_mon
  "\<lambda>q w. case q of Idle \<Rightarrow> started w = 0 \<and> removed w = 0 | Starting \<Rightarrow> started w \<le> 1 \<and> removed w = 0 | Removing \<Rightarrow> started w = 0"
  by unfold_locales
    (auto simp: repair_mon_def repair_stmt_def started_def removed_def do_stmt_def failed_def starts_removes split: phase.splits if_splits)

abbreviation repairs_once :: "phase \<Rightarrow> 'r prog \<Rightarrow> bool" where
  "repairs_once \<equiv> monitored repair_mon (\<lambda>_ _. True)"

lemma repair_mon_simps [simp]:
  "repair_mon q (Did now (OnPlane (Create t a z)) db) = (if q = Idle then Some Starting else None)"
  "repair_mon q (Failed (OnPlane (Create t a z))) = (if q = Idle then Some Starting else None)"
  "repair_mon q (Did now (OnPlane (Restart t a1 a2 a3 a4 a5 a6 a7 a8)) db) = (if q = Idle then Some Starting else None)"
  "repair_mon q (Failed (OnPlane (Restart t a1 a2 a3 a4 a5 a6 a7 a8))) = (if q = Idle then Some Starting else None)"
  "repair_mon q (Did now (OnPlane (OnOutbox (Enqueue t y))) db) = (if q = Starting then None else Some Removing)"
  "repair_mon q (Failed (OnPlane (OnOutbox (Enqueue t y)))) = (if q = Starting then None else Some Removing)"
  "repair_mon q (Did now (Repair.complete i st res e) db) = Some q" "repair_mon q (Failed (Repair.complete i st res e)) = Some q"
  "repair_mon q (Did now (dispatch_stmt i n) db) = Some q" "repair_mon q (Failed (dispatch_stmt i n)) = Some q"
  "repair_mon q (Did now (OnPlane (Missing i)) db) = Some q" "repair_mon q (Failed (OnPlane (Missing i))) = Some q"
  "repair_mon q (Did now (OnPlane (Block i b)) db) = Some q" "repair_mon q (Failed (OnPlane (Block i b))) = Some q"
  "repair_mon q (Did now (OnPlane (Backoff i e g t')) db) = Some q" "repair_mon q (Failed (OnPlane (Backoff i e g t'))) = Some q"
  by (auto simp: repair_mon_def repair_stmt_def starts_def removes_def Repair.complete_def dispatch_stmt_def)

lemma once_hasPending [watched]: "(\<And>r. monitored d F q (k r)) \<Longrightarrow> monitored d F q (hasPending i k)"
  by (simp add: hasPending_def)

lemma once_pendingOperation [watched]: "(\<And>r. monitored d F q (k r)) \<Longrightarrow> monitored d F q (pendingOperation i k)"
  by (simp add: pendingOperation_def)

lemma once_activeRollout [watched]: "(\<And>r. monitored d F q (k r)) \<Longrightarrow> monitored d F q (activeRollout i k)"
  by (simp add: activeRollout_def)

lemma once_holdsRecreate [watched]: "(\<And>b. monitored d F q (k b)) \<Longrightarrow> monitored d F q (holdsRecreate m k)"
  by (auto simp: holdsRecreate_def split: sum.split option.split intro!: watched)

lemma once_repairsMachine [watched]: "(\<And>b. monitored d F q (k b)) \<Longrightarrow> monitored d F q (repairsMachine m k)"
  by (auto simp: repairsMachine_def split: sum.split option.split intro!: watched)

lemma once_nodeEvacuating [watched]: "(\<And>b. monitored d F q (k b)) \<Longrightarrow> monitored d F q (nodeEvacuating n k)"
  by (auto simp: nodeEvacuating_def split: sum.split)

lemma once_enqueueDelete:
  assumes "repairs_once Removing p" "q \<noteq> Starting"
  shows "repairs_once q (enqueueDelete c mid e gen opID node p)"
proof -
  have "repairs_once r (enqueue_pinned c project mid e gen opID node p p)" if "r \<noteq> Starting" for r project
    using assms(1) that by (auto simp: enqueue_pinned_def enqueueReap_def pin_reap_def Let_def split: sum.split option.split)
  then show ?thesis using assms(2) by (auto simp: enqueueDelete_def split: sum.split option.split intro!: watched)
qed

lemma once_recreate: "(\<And>q. repairs_once q p) \<Longrightarrow> repairs_once Idle (recreateMachine c m b p)"
  by (auto simp: recreateMachine_def recreate_retry_def recreate_bump_def recreate_as_def unless_attached_def Let_def split: sum.split intro!: watched)

lemma once_restart: "(\<And>q. repairs_once q p) \<Longrightarrow> repairs_once Idle (restartMachine c m p)"
  by (auto simp: restartMachine_def restart_with_def Let_def split: sum.split option.split outbox_err.split intro!: watched)

lemma once_maybeRestart: "(\<And>q. repairs_once q p) \<Longrightarrow> repairs_once Idle (maybeRestartMachine c m cp p)"
  by (auto simp: maybeRestartMachine_def restart_prepared_def Let_def split: sum.split option.split bool.split intro!: watched once_restart)

lemma once_supersede: "\<lbrakk>\<And>q. repairs_once q p; repairs_once q p'\<rbrakk> \<Longrightarrow> repairs_once q (supersede m reason p p')"
  by (auto simp: supersede_def split: sum.split option.split intro!: watched)

lemma once_deleted: "(\<And>q. repairs_once q p) \<Longrightarrow> repairs_once Idle (reconcile_deleted c m copies p)"
  by (auto simp: reconcile_deleted_def split: option.split list.split intro!: watched once_enqueueDelete)

lemma once_live: "(\<And>q. repairs_once q p) \<Longrightarrow> repairs_once Idle (reconcile_live c m copies node p)"
  by (auto simp: reconcile_live_def reconcile_dead_def reconcile_stopped_def split: option.split
      intro!: watched once_enqueueDelete once_supersede once_maybeRestart)

lemma once_absent: "(\<And>q. repairs_once q p) \<Longrightarrow> repairs_once Idle (reconcile_absent cfg c m p)"
proof -
  assume p: "\<And>q. repairs_once q p"
  have "repairs_once Idle (after_operation cfg c m x n p)" for x n
    using p by (auto simp: after_operation_def retry_or_recreate_def split: sum.split action.split intro!: watched once_recreate)
  then have "repairs_once Idle (reconcile_missing cfg c m p)"
    using p by (auto simp: reconcile_missing_def split: sum.split option.split intro!: watched once_recreate)
  moreover have "repairs_once Idle (reconcile_lost_node cfg c m p)"
    using p by (auto simp: reconcile_lost_node_def Let_def split: sum.split option.split intro!: watched once_recreate)
  ultimately show ?thesis by (simp add: reconcile_absent_def)
qed

lemma once_duplicate: "\<lbrakk>\<And>q. repairs_once q p; repairs_once Idle p'\<rbrakk> \<Longrightarrow> repairs_once Idle (reapDuplicateLiveCopy c m copies p p')"
  by (auto simp: reapDuplicateLiveCopy_def Let_def split: option.split intro!: watched once_enqueueDelete)

lemma once_processPGMachine: "(\<And>q. repairs_once q p) \<Longrightarrow> repairs_once Idle (processPGMachine cfg c m copies p)"
proof -
  assume p: "\<And>q. repairs_once q p"
  then have "repairs_once Idle (reconcile_wanted cfg c m copies p)"
    by (auto simp: reconcile_wanted_def split: option.split intro!: once_duplicate once_live once_absent)
  then show ?thesis
    using p by (auto simp: processPGMachine_def supersedePendingCreateAndReap_def split: option.split intro!: once_deleted once_supersede once_enqueueDelete)
qed

text \<open>
  \<^bold>\<open>Claim C8.\<close> The pass over a machine row repairs the machine at most once: it enqueues at most one new execution, and none if it enqueues the removal of a copy,
  whatever the agents reported, whatever the queries answered and whatever others did meanwhile. So a machine is never replaced while the pass removes a copy of it.
\<close>

theorem pass_repairs_once:
  assumes "runs s (processPGMachine cfg c m copies (Ret r)) w = (p, w')" "wo_done w = []"
  shows "started w' \<le> 1 \<and> (started w' = 0 \<or> removed w' = 0)"
proof -
  have "repairs_once Idle (processPGMachine cfg c m copies (Ret r))" by (rule once_processPGMachine) simp
  then show ?thesis using repairing.monitored_runs[OF _ _ assms(1), of "\<lambda>_ _. True" Idle] assms(2)
    by (fastforce simp: started_def removed_def split: phase.splits)
qed

definition vanished_schedule :: schedule where
  "vanished_schedule = [([], 1, Ok), ([], 2, Ok), ([], 3, Ok), ([], 4, Ok), ([], 5, Reads 500), ([], 6, Ok), ([], 7, Named ''u''), ([], 8, Ok), ([], 9, Ok), ([], 10, Ok), ([], 11, Ok)]"

definition vanished_example :: world where
  "vanished_example = world_example\<lparr>wo_db := (wo_db world_example)\<lparr>cd_plane := (cd_plane (wo_db world_example))\<lparr>
     pl_ops := [create_example\<lparr>op_Status := ''SUCCEEDED''\<rparr>]\<rparr>\<rparr>\<rparr>"

theorem pass_repairs_once_witness:
  "started (snd (runs vanished_schedule (processPGMachine oconfig_example codec_example machine_example [] (Ret (0::nat))) vanished_example)) = 1 \<and>
   removed (snd (runs vanished_schedule (processPGMachine oconfig_example codec_example machine_example [] (Ret (0::nat))) vanished_example)) = 0"
proof -
  let ?r = "runs vanished_schedule (processPGMachine oconfig_example codec_example machine_example [] (Ret (0::nat))) vanished_example"
  have "wo_done vanished_example = []" by (simp add: vanished_example_def world_example_def)
  then have "started (snd ?r) \<le> 1" "started (snd ?r) = 0 \<or> removed (snd ?r) = 0"
    using pass_repairs_once[of vanished_schedule oconfig_example codec_example machine_example "[]" 0 vanished_example "fst ?r" "snd ?r"] by auto
  moreover have "0 < started (snd ?r)" by code_simp
  ultimately show ?thesis by simp
qed

section \<open>The best copy stays\<close>

text \<open>A copy that is dead or has exited, or that is not more alive than another copy of the current execution.\<close>

definition expendable :: "MachineRow \<Rightarrow> copies \<Rightarrow> string \<Rightarrow> bool" where
  "expendable m copies node \<longleftrightarrow>
     (case mget copies node of None \<Rightarrow> False | Some cp \<Rightarrow> \<not> agentStateUsable cp \<or> pm_State cp = ''STOPPED'') \<or>
     list_ex (\<lambda>i. i \<noteq> node \<and> rank_at copies node \<le> rank_at copies i) (live_ids m copies)"

definition removes_execution :: "string \<Rightarrow> cstmt \<Rightarrow> bool" where
  "removes_execution e s = (case s of OnPlane (OnOutbox (Enqueue _ y)) \<Rightarrow> eq_ExecutionID y = e | _ \<Rightarrow> False)"

definition pinned_node :: "cstmt \<Rightarrow> string option" where
  "pinned_node s = (case s of OnPlane (OnOutbox (Dispatch _ n)) \<Rightarrow> Some n | _ \<Rightarrow> None)"

datatype target = Untouched | Current | Elsewhere

text \<open>After a removal of the execution \<open>e\<close> only nodes that fulfil \<open>P\<close> are written to an operation, and before it none.\<close>

definition pin_stmt :: "string \<Rightarrow> (string \<Rightarrow> bool) \<Rightarrow> target \<Rightarrow> cstmt \<Rightarrow> target option" where
  "pin_stmt e P q s =
     (if removes_execution e s then (if q = Elsewhere then None else Some Current)
      else case pinned_node s of
        None \<Rightarrow> Some q
      | Some n \<Rightarrow> if q = Current then (if P n then Some Current else None) else Some Elsewhere)"

definition pin_mon :: "string \<Rightarrow> (string \<Rightarrow> bool) \<Rightarrow> target \<Rightarrow> happening \<Rightarrow> target option" where
  "pin_mon e P q x = (case x of Did _ s _ \<Rightarrow> pin_stmt e P q s | Failed s \<Rightarrow> pin_stmt e P q s | Called _ \<Rightarrow> Some q)"

definition removed_execution :: "string \<Rightarrow> world \<Rightarrow> bool" where
  "removed_execution e w \<longleftrightarrow> list_ex (\<lambda>(now, s, db). removes_execution e s) (wo_done w)"

definition pinned_nodes :: "world \<Rightarrow> string list" where
  "pinned_nodes w = List.map_filter (\<lambda>(now, s, db). pinned_node s) (wo_done w)"

lemma removed_execution_simps [simp]:
  "removed_execution e (do_stmt now s w) \<longleftrightarrow> removed_execution e w \<or> removes_execution e s"
  "removed_execution e (failed s w) = removed_execution e w" "removed_execution e (w\<lparr>wo_sent := r\<rparr>) = removed_execution e w"
  "removed_execution e (w\<lparr>wo_db := db\<rparr>) = removed_execution e w" "removed_execution e (w\<lparr>wo_notes := ns\<rparr>) = removed_execution e w"
  by (auto simp: removed_execution_def do_stmt_def failed_def)

lemma pinned_nodes_simps [simp]:
  "pinned_nodes (do_stmt now s w) = pinned_nodes w @ (case pinned_node s of None \<Rightarrow> [] | Some n \<Rightarrow> [n])"
  "pinned_nodes (failed s w) = pinned_nodes w" "pinned_nodes (w\<lparr>wo_sent := r\<rparr>) = pinned_nodes w"
  "pinned_nodes (w\<lparr>wo_db := db\<rparr>) = pinned_nodes w" "pinned_nodes (w\<lparr>wo_notes := ns\<rparr>) = pinned_nodes w"
  by (auto simp: pinned_nodes_def do_stmt_def failed_def map_filter_def split: option.split)

lemma removes_not_pins: "removes_execution e s \<Longrightarrow> pinned_node s = None"
  by (auto simp: removes_execution_def pinned_node_def split: cstmt.splits plane_op.splits outbox_op.splits)

interpretation pinning: monitor "pin_mon e P"
  "\<lambda>q w. case q of Untouched \<Rightarrow> \<not> removed_execution e w \<and> pinned_nodes w = [] | Current \<Rightarrow> list_all P (pinned_nodes w) | Elsewhere \<Rightarrow> \<not> removed_execution e w" for e P
  by unfold_locales (auto simp: pin_mon_def pin_stmt_def removes_not_pins split: target.splits if_splits option.splits)

abbreviation pins_only :: "string \<Rightarrow> (string \<Rightarrow> bool) \<Rightarrow> target \<Rightarrow> 'r prog \<Rightarrow> bool" where
  "pins_only e P \<equiv> monitored (pin_mon e P) (\<lambda>_ _. True)"

lemma pin_mon_simps [simp]:
  "pin_mon e P q (Did now (OnPlane (Create t a z)) db) = Some q" "pin_mon e P q (Failed (OnPlane (Create t a z))) = Some q"
  "pin_mon e P q (Did now (OnPlane (Restart t a1 a2 a3 a4 a5 a6 a7 a8)) db) = Some q" "pin_mon e P q (Failed (OnPlane (Restart t a1 a2 a3 a4 a5 a6 a7 a8))) = Some q"
  "pin_mon e P q (Did now (OnPlane (OnOutbox (Enqueue t y))) db) = (if eq_ExecutionID y = e then if q = Elsewhere then None else Some Current else Some q)"
  "pin_mon e P q (Failed (OnPlane (OnOutbox (Enqueue t y)))) = (if eq_ExecutionID y = e then if q = Elsewhere then None else Some Current else Some q)"
  "pin_mon e P q (Did now (Repair.complete i st res er) db) = Some q" "pin_mon e P q (Failed (Repair.complete i st res er)) = Some q"
  "pin_mon e P q (Did now (dispatch_stmt i n) db) = (if q = Current then if P n then Some Current else None else Some Elsewhere)"
  "pin_mon e P q (Failed (dispatch_stmt i n)) = (if q = Current then if P n then Some Current else None else Some Elsewhere)"
  "pin_mon e P q (Did now (OnPlane (Missing i)) db) = Some q" "pin_mon e P q (Failed (OnPlane (Missing i))) = Some q"
  "pin_mon e P q (Did now (OnPlane (Block i b)) db) = Some q" "pin_mon e P q (Failed (OnPlane (Block i b))) = Some q"
  "pin_mon e P q (Did now (OnPlane (Backoff i f g t')) db) = Some q" "pin_mon e P q (Failed (OnPlane (Backoff i f g t'))) = Some q"
  by (auto simp: pin_mon_def pin_stmt_def removes_execution_def pinned_node_def Repair.complete_def dispatch_stmt_def)

lemma pins_enqueueDelete:
  assumes "\<And>q. pins_only e P q p" "e' = e \<longrightarrow> P node"
  shows "pins_only e P Untouched (enqueueDelete c mid e' gen opID node p)"
proof -
  have "pins_only e P Untouched (enqueue_pinned c project mid e' gen opID node p p)" for project
    using assms by (auto simp: enqueue_pinned_def enqueueReap_def pin_reap_def reap_params_def Let_def split: sum.split option.split)
  then show ?thesis by (auto simp: enqueueDelete_def split: sum.split option.split intro!: watched)
qed

lemma pins_recreate: "pins_only e P q p \<Longrightarrow> pins_only e P q (recreateMachine c m b p)"
  by (auto simp: recreateMachine_def recreate_retry_def recreate_bump_def recreate_as_def unless_attached_def Let_def split: sum.split intro!: watched)

lemma pins_maybeRestart: "pins_only e P q p \<Longrightarrow> pins_only e P q (maybeRestartMachine c m cp p)"
  by (auto simp: maybeRestartMachine_def restart_prepared_def restartMachine_def restart_with_def Let_def
      split: sum.split option.split bool.split outbox_err.split intro!: watched)

lemma pins_supersede: "\<lbrakk>pins_only e P q p; pins_only e P q p'\<rbrakk> \<Longrightarrow> pins_only e P q (supersede m reason p p')"
  by (auto simp: supersede_def split: sum.split option.split intro!: watched)

lemma pins_live:
  assumes "\<And>q. pins_only (m_CurrentExecutionID m) (expendable m copies) q p"
  shows "pins_only (m_CurrentExecutionID m) (expendable m copies) Untouched (reconcile_live c m copies node p)"
  using assms by (auto simp: reconcile_live_def reconcile_dead_def reconcile_stopped_def expendable_def split: option.split
      intro!: watched pins_enqueueDelete pins_supersede pins_maybeRestart)

lemma pins_absent: "pins_only e P q p \<Longrightarrow> pins_only e P q (reconcile_absent cfg c m p)"
proof -
  assume p: "pins_only e P q p"
  have "pins_only e P q (after_operation cfg c m x n p)" for x n
    using p by (auto simp: after_operation_def retry_or_recreate_def split: sum.split action.split intro!: watched pins_recreate)
  then have "pins_only e P q (reconcile_missing cfg c m p)"
    using p by (auto simp: reconcile_missing_def split: sum.split option.split intro!: watched pins_recreate)
  moreover have "pins_only e P q (reconcile_lost_node cfg c m p)"
    using p by (auto simp: reconcile_lost_node_def Let_def split: sum.split option.split intro!: watched pins_recreate)
  ultimately show ?thesis by (simp add: reconcile_absent_def)
qed

text \<open>The copy that is removed as a duplicate is not the one that stays, and the one that stays is at least as alive.\<close>

lemma survivor_covers:
  assumes "ids \<noteq> []" "'''' \<notin> set ids" "ids = live_ids m copies" "i \<in> set ids" "i \<noteq> survivor copies (preference ids d home)"
  shows "expendable m copies i"
proof -
  let ?pref = "preference ids d home"
  have same: "set ?pref = set ids" using assms(2) by (rule preference_set)
  then have "?pref \<noteq> []" "i \<in> set ?pref" using assms(1,4) by auto
  then have "survivor copies ?pref \<in> set ids" "rank_at copies i \<le> rank_at copies (survivor copies ?pref)"
    using survivor_best[of ?pref copies] same by auto
  then show ?thesis using assms(3,5) by (auto simp: expendable_def list_ex_iff)
qed

lemma pins_duplicate:
  assumes "\<And>q. pins_only (m_CurrentExecutionID m) (expendable m copies) q p" "pins_only (m_CurrentExecutionID m) (expendable m copies) Untouched p'"
    and "'''' \<notin> fst ` set copies"
  shows "pins_only (m_CurrentExecutionID m) (expendable m copies) Untouched (reapDuplicateLiveCopy c m copies p p')"
proof -
  have ne: "'''' \<notin> set (live_ids m copies)" using assms(3) by (auto simp: live_ids_def)
  have "expendable m copies i"
    if "List.find (\<lambda>i. i \<noteq> survivor copies (preference (live_ids m copies) d (m_NodeID m))) (live_ids m copies) = Some i" for d i
  proof -
    have "i \<in> set (live_ids m copies)" "i \<noteq> survivor copies (preference (live_ids m copies) d (m_NodeID m))" using that by (auto simp: find_Some_iff)
    then show ?thesis by (intro survivor_covers[OF _ ne refl]) auto
  qed
  then show ?thesis using assms(1,2) by (auto simp: reapDuplicateLiveCopy_def Let_def split: option.split intro!: watched pins_enqueueDelete)
qed

lemma pins_processPGMachine:
  assumes "\<And>q. pins_only (m_CurrentExecutionID m) (expendable m copies) q p" "m_DesiredState m \<noteq> ''DELETED''" "'''' \<notin> fst ` set copies"
  shows "pins_only (m_CurrentExecutionID m) (expendable m copies) Untouched (processPGMachine cfg c m copies p)"
proof -
  have "pins_only (m_CurrentExecutionID m) (expendable m copies) Untouched (reconcile_wanted cfg c m copies p)"
    using assms by (auto simp: reconcile_wanted_def split: option.split intro!: pins_duplicate pins_live pins_absent)
  then show ?thesis using assms(1,2)
    by (auto simp: processPGMachine_def supersedePendingCreateAndReap_def split: option.split intro!: pins_supersede pins_enqueueDelete)
qed

text \<open>
  The operations that an enqueue of the execution \<open>e\<close> has left open (new ones, and open ones that the key found), and the pins: which node was written to which operation.
\<close>

definition open_reap :: "string \<Rightarrow> int \<Rightarrow> cstmt \<Rightarrow> cdb \<Rightarrow> string option" where
  "open_reap e now s db =
     (case s of
        OnPlane (OnOutbox (Enqueue tx y)) \<Rightarrow>
          if eq_ExecutionID y \<noteq> e then None
          else (case fst (EnqueueReapDelete tx now y (pl_ops (cd_plane db))) of
                  Inl _ \<Rightarrow> None
                | Inr x \<Rightarrow> if open_status (op_Status x) then Some (op_ID x) else None)
      | _ \<Rightarrow> None)"

definition open_reaps :: "string \<Rightarrow> world \<Rightarrow> string list" where
  "open_reaps e w = List.map_filter (\<lambda>(now, s, db). open_reap e now s db) (wo_done w)"

definition pin_of :: "cstmt \<Rightarrow> (string \<times> string) option" where
  "pin_of s = (case s of OnPlane (OnOutbox (Dispatch i n)) \<Rightarrow> Some (i, n) | _ \<Rightarrow> None)"

definition pins :: "world \<Rightarrow> (string \<times> string) list" where
  "pins w = List.map_filter (\<lambda>(now, s, db). pin_of s) (wo_done w)"

lemma pinned_node_of: "pinned_node s = map_option snd (pin_of s)"
  by (auto simp: pinned_node_def pin_of_def split: cstmt.splits plane_op.splits outbox_op.splits)

lemma pinned_nodes_pins: "pinned_nodes w = map snd (pins w)"
proof -
  have "List.map_filter (\<lambda>(now, s, db). map_option snd (pin_of s)) xs = map snd (List.map_filter (\<lambda>(now, s, db). pin_of s) xs)"
    for xs :: "(int \<times> cstmt \<times> cdb) list"
    by (induction xs) (auto simp: map_filter_simps split: option.split)
  then show ?thesis by (simp add: pinned_nodes_def pins_def pinned_node_of)
qed

lemma open_reaps_simps [simp]:
  "open_reaps e (do_stmt now s w) = open_reaps e w @ (case open_reap e now s (wo_db w) of None \<Rightarrow> [] | Some i \<Rightarrow> [i])"
  "open_reaps e (w\<lparr>wo_sent := r\<rparr>) = open_reaps e w"
  "open_reaps e (w\<lparr>wo_db := db\<rparr>) = open_reaps e w" "open_reaps e (w\<lparr>wo_notes := ns\<rparr>) = open_reaps e w"
  by (auto simp: open_reaps_def do_stmt_def map_filter_def split: option.split)

lemma pins_simps [simp]:
  "pins (do_stmt now s w) = pins w @ (case pin_of s of None \<Rightarrow> [] | Some z \<Rightarrow> [z])"
  "pins (w\<lparr>wo_sent := r\<rparr>) = pins w" "pins (w\<lparr>wo_db := db\<rparr>) = pins w" "pins (w\<lparr>wo_notes := ns\<rparr>) = pins w"
  by (auto simp: pins_def do_stmt_def map_filter_def split: option.split)

text \<open>An open removal of the execution is pinned by the next statements of the program, unless a statement fails.\<close>

datatype duty = Clear | Due string | Failing

definition duty_stmt :: "string \<Rightarrow> duty \<Rightarrow> int \<Rightarrow> cstmt \<Rightarrow> cdb \<Rightarrow> duty option" where
  "duty_stmt e q now s db =
     (case q of
        Failing \<Rightarrow> Some Failing
      | Clear \<Rightarrow> Some (case open_reap e now s db of None \<Rightarrow> Clear | Some i \<Rightarrow> Due i)
      | Due k \<Rightarrow>
          (case pin_of s of
             Some (i, n) \<Rightarrow> if i = k then Some Clear else None
           | None \<Rightarrow> if open_reap e now s db = None then Some q else None))"

definition duty_mon :: "string \<Rightarrow> duty \<Rightarrow> happening \<Rightarrow> duty option" where
  "duty_mon e q x = (case x of Did now s db \<Rightarrow> duty_stmt e q now s db | Failed _ \<Rightarrow> Some Failing | Called _ \<Rightarrow> Some q)"

lemma reap_not_pin: "open_reap e now s db = Some i \<Longrightarrow> pin_of s = None"
  by (auto simp: open_reap_def pin_of_def split: cstmt.splits plane_op.splits outbox_op.splits)

lemma wo_failed_do_stmt: "wo_failed (do_stmt now s w) = wo_failed w"
  by (simp add: do_stmt_def)

interpretation duties: monitor "duty_mon e"
  "\<lambda>q w. case q of Failing \<Rightarrow> wo_failed w \<noteq> [] | Clear \<Rightarrow> set (open_reaps e w) \<subseteq> fst ` set (pins w)
     | Due k \<Rightarrow> set (open_reaps e w) \<subseteq> insert k (fst ` set (pins w))" for e
  by unfold_locales
     (auto simp: duty_mon_def duty_stmt_def failed_def wo_failed_do_stmt dest: reap_not_pin reap_not_pin [OF sym]
       split: duty.splits option.splits if_splits)

abbreviation dutiful :: "string \<Rightarrow> duty \<Rightarrow> 'r prog \<Rightarrow> bool" where
  "dutiful e \<equiv> monitored (duty_mon e) (\<lambda>q _. q = Clear \<or> q = Failing)"

lemma dutiful_Failing [simp]: "dutiful e Failing p"
  by (induction p) (simp_all add: duty_mon_def duty_stmt_def)

lemma duty_mon_simps [simp]:
  "duty_mon e Clear (Did now (OnPlane (Create t a z)) db) = Some Clear"
  "duty_mon e Clear (Did now (OnPlane (Restart t a1 a2 a3 a4 a5 a6 a7 a8)) db) = Some Clear"
  "duty_mon e Clear (Did now (Repair.complete i st res er) db) = Some Clear"
  "duty_mon e Clear (Did now (dispatch_stmt i n) db) = Some Clear"
  "duty_mon e (Due k) (Did now (dispatch_stmt i n) db) = (if i = k then Some Clear else None)"
  "duty_mon e Clear (Did now (OnPlane (Missing i)) db) = Some Clear"
  "duty_mon e Clear (Did now (OnPlane (Block i b)) db) = Some Clear"
  "duty_mon e Clear (Did now (OnPlane (Backoff i f g t')) db) = Some Clear"
  "duty_mon e q (Failed s) = Some Failing" "duty_mon e q (Called r) = Some q"
  "duty_mon e Clear (Did now (OnPlane (OnOutbox (Enqueue t y))) db) =
     Some (if eq_ExecutionID y = e
           then (case fst (EnqueueReapDelete t now y (pl_ops (cd_plane db))) of
                   Inl _ \<Rightarrow> Clear | Inr x \<Rightarrow> if open_status (op_Status x) then Due (op_ID x) else Clear)
           else Clear)"
  by (auto simp: duty_mon_def duty_stmt_def open_reap_def pin_of_def Repair.complete_def dispatch_stmt_def split: sum.split)

lemma dutiful_enqueueDelete:
  assumes "dutiful e Clear p" "e' = e \<longrightarrow> node \<noteq> ''''"
  shows "dutiful e Clear (enqueueDelete c mid e' gen opID node p)"
proof -
  have "dutiful e Clear (enqueue_pinned c project mid e' gen opID node p p)" for project
    using assms by (auto simp: enqueue_pinned_def enqueueReap_def pin_reap_def reap_params_def Let_def split: sum.split option.split)
  then show ?thesis by (auto simp: enqueueDelete_def split: sum.split option.split intro!: watched)
qed

lemma dutiful_recreate: "dutiful e Clear p \<Longrightarrow> dutiful e Clear (recreateMachine c m b p)"
  by (auto simp: recreateMachine_def recreate_retry_def recreate_bump_def recreate_as_def unless_attached_def Let_def split: sum.split intro!: watched)

lemma dutiful_maybeRestart: "dutiful e Clear p \<Longrightarrow> dutiful e Clear (maybeRestartMachine c m cp p)"
  by (auto simp: maybeRestartMachine_def restart_prepared_def restartMachine_def restart_with_def Let_def
      split: sum.split option.split bool.split outbox_err.split intro!: watched)

lemma dutiful_supersede: "\<lbrakk>dutiful e Clear p; dutiful e Clear p'\<rbrakk> \<Longrightarrow> dutiful e Clear (supersede m reason p p')"
  by (auto simp: supersede_def split: sum.split option.split intro!: watched)

lemma dutiful_live:
  assumes "dutiful e Clear p" "'''' \<notin> fst ` set copies"
  shows "dutiful e Clear (reconcile_live c m copies node p)"
proof -
  have "node \<noteq> ''''" if "mget copies node = Some cp" for cp
    using that assms(2) by (force dest: map_of_SomeD)
  then show ?thesis
    using assms(1) by (auto simp: reconcile_live_def reconcile_dead_def reconcile_stopped_def split: option.split
      intro!: watched dutiful_enqueueDelete dutiful_supersede dutiful_maybeRestart)
qed

lemma dutiful_absent: "dutiful e Clear p \<Longrightarrow> dutiful e Clear (reconcile_absent cfg c m p)"
proof -
  assume p: "dutiful e Clear p"
  have "dutiful e Clear (after_operation cfg c m x n p)" for x n
    using p by (auto simp: after_operation_def retry_or_recreate_def split: sum.split action.split intro!: watched dutiful_recreate)
  then have "dutiful e Clear (reconcile_missing cfg c m p)"
    using p by (auto simp: reconcile_missing_def split: sum.split option.split intro!: watched dutiful_recreate)
  moreover have "dutiful e Clear (reconcile_lost_node cfg c m p)"
    using p by (auto simp: reconcile_lost_node_def Let_def split: sum.split option.split intro!: watched dutiful_recreate)
  ultimately show ?thesis by (simp add: reconcile_absent_def)
qed

lemma dutiful_duplicate:
  assumes "dutiful e Clear p" "dutiful e Clear p'" "'''' \<notin> set (live_ids m copies)"
  shows "dutiful e Clear (reapDuplicateLiveCopy c m copies p p')"
  using assms
  by (auto simp: reapDuplicateLiveCopy_def Let_def find_Some_iff split: option.split intro!: watched dutiful_enqueueDelete dest!: nth_mem)

lemma dutiful_processPGMachine:
  assumes "dutiful e Clear p" "m_DesiredState m \<noteq> ''DELETED''" "'''' \<notin> fst ` set copies"
  shows "dutiful e Clear (processPGMachine cfg c m copies p)"
proof -
  have ne: "'''' \<notin> set (live_ids m copies)" using assms(3) by (auto simp: live_ids_def)
  have node: "m_NodeID m \<noteq> ''''" if "mget copies (m_NodeID m) = Some cp" for cp
    using that assms(3) by (force dest: map_of_SomeD)
  have "dutiful e Clear (reconcile_wanted cfg c m copies p)"
    using assms(1,3) ne by (auto simp: reconcile_wanted_def split: option.split intro!: dutiful_duplicate dutiful_live dutiful_absent)
  then show ?thesis using assms(1,2) node
    by (auto simp: processPGMachine_def supersedePendingCreateAndReap_def split: option.split intro!: dutiful_supersede dutiful_enqueueDelete)
qed

text \<open>
  \<^bold>\<open>Claim C7.\<close> The pass never addresses the best copy of a wanted machine: when it enqueues the removal of the current execution, every node that it writes to an
  operation holds a copy that is dead or has exited, or another node holds a copy of the execution that is at least as alive; this holds whatever the queries
  answer, whichever statements fail and whatever others do meanwhile. And when the pass has come to its end and none of its statements failed, every removal of
  the execution that it left open has been given such a node, so its dispatch does not fall back on the recorded node of the machine. (When the statement that writes
  the node fails, the code goes on without it.)
\<close>

theorem pass_keeps_best_copy:
  assumes "m_DesiredState m \<noteq> ''DELETED''" "'''' \<notin> fst ` set copies" "wo_done w = []"
    and "runs s (processPGMachine cfg c m copies (Ret r)) w = (p, w')" "removed_execution (m_CurrentExecutionID m) w'"
  shows "list_all (\<lambda>(i, n). expendable m copies n) (pins w') \<and>
    (p = Ret r' \<and> wo_failed w' = [] \<longrightarrow>
       list_all (\<lambda>i. list_ex (\<lambda>(j, n). j = i \<and> expendable m copies n) (pins w')) (open_reaps (m_CurrentExecutionID m) w'))"
proof -
  let ?e = "m_CurrentExecutionID m"
  have "pins_only ?e (expendable m copies) Untouched (processPGMachine cfg c m copies (Ret r))" using assms(1,2) by (intro pins_processPGMachine) simp_all
  moreover have "\<not> removed_execution ?e w" "pinned_nodes w = []" using assms(3) by (simp_all add: removed_execution_def pinned_nodes_def map_filter_def)
  ultimately obtain q where "case q of Untouched \<Rightarrow> \<not> removed_execution ?e w' \<and> pinned_nodes w' = [] | Current \<Rightarrow> list_all (expendable m copies) (pinned_nodes w')
      | Elsewhere \<Rightarrow> \<not> removed_execution ?e w'"
    using pinning.monitored_runs[OF _ _ assms(4), where q = Untouched] by fastforce
  then have all: "list_all (\<lambda>(i, n). expendable m copies n) (pins w')"
    using assms(5) by (cases q) (auto simp: pinned_nodes_pins list_all_iff)
  have "set (open_reaps ?e w') \<subseteq> fst ` set (pins w')" if "p = Ret r'" "wo_failed w' = []"
  proof -
    have "dutiful ?e Clear (processPGMachine cfg c m copies (Ret r))" using assms(1,2) by (intro dutiful_processPGMachine) simp_all
    moreover have "open_reaps ?e w = []" using assms(3) by (simp add: open_reaps_def map_filter_def)
    ultimately show ?thesis using duties.monitored_runs[OF _ _ assms(4), where q = Clear] that by (fastforce split: duty.splits)
  qed
  with all show ?thesis by (fastforce simp: list_all_iff list_ex_iff)
qed

text \<open>A paused copy on the recorded node and a running one elsewhere: the paused one goes.\<close>

definition node_machine_example :: MachineRow where
  "node_machine_example = machine_example\<lparr>m_NodeID := ''n1''\<rparr>"

definition copies_example :: copies where
  "copies_example = [(''n2'', paused_example\<lparr>pm_State := ''RUNNING''\<rparr>), (''n1'', paused_example)]"

definition duplicate_schedule :: schedule where
  "duplicate_schedule = [([], 1, Ok), ([], 2, Ok), ([], 3, Ok), ([], 4, Ok), ([], 5, Ok), ([], 6, Ok), ([], 7, Ok), ([], 8, Ok)]"

lemma duplicate_run:
  "is_ret (fst (runs duplicate_schedule (processPGMachine oconfig_example codec_example node_machine_example copies_example (Ret ())) vanished_example))"
  "removed_execution (m_CurrentExecutionID node_machine_example)
     (snd (runs duplicate_schedule (processPGMachine oconfig_example codec_example node_machine_example copies_example (Ret ())) vanished_example))"
  "wo_failed (snd (runs duplicate_schedule (processPGMachine oconfig_example codec_example node_machine_example copies_example (Ret ())) vanished_example)) = []"
  "map snd (pins (snd (runs duplicate_schedule (processPGMachine oconfig_example codec_example node_machine_example copies_example (Ret ())) vanished_example))) = [''n1'']"
  "open_reaps (m_CurrentExecutionID node_machine_example)
     (snd (runs duplicate_schedule (processPGMachine oconfig_example codec_example node_machine_example copies_example (Ret ())) vanished_example)) \<noteq> []"
  by code_simp+

theorem pass_keeps_best_copy_witness:
  "let w = snd (runs duplicate_schedule (processPGMachine oconfig_example codec_example node_machine_example copies_example (Ret ())) vanished_example);
       i = hd (open_reaps (m_CurrentExecutionID node_machine_example) w)
   in list_ex (\<lambda>(j, n). j = i \<and> expendable node_machine_example copies_example n) (pins w) \<and> map snd (pins w) = [''n1'']"
proof -
  let ?r = "runs duplicate_schedule (processPGMachine oconfig_example codec_example node_machine_example copies_example (Ret ())) vanished_example"
  have "m_DesiredState node_machine_example \<noteq> ''DELETED''" "'''' \<notin> fst ` set copies_example" "wo_done vanished_example = []"
    by (simp_all add: node_machine_example_def machine_example_def copies_example_def vanished_example_def world_example_def)
  moreover have "?r = (Ret (), snd ?r)" using duplicate_run(1) by (cases ?r) (auto simp: is_ret_def split: prog.splits)
  ultimately have "list_all (\<lambda>i. list_ex (\<lambda>(j, n). j = i \<and> expendable node_machine_example copies_example n) (pins (snd ?r)))
      (open_reaps (m_CurrentExecutionID node_machine_example) (snd ?r))"
    using pass_keeps_best_copy[of node_machine_example copies_example vanished_example duplicate_schedule oconfig_example codec_example "()" "Ret ()" "snd ?r" "()"]
      duplicate_run(2,3) by blast
  then show ?thesis using duplicate_run(4,5) by (simp add: list_all_iff Let_def)
qed

section \<open>Limits of the pass\<close>

text \<open>A restart builds its request without the health check and the egress policy of the deployment, which a replacement carries.\<close>

lemma restart_drops_checks: "ms_HealthCheck (restart_spec c m e dep project) = None" "ms_Egress (restart_spec c m e dep project) = None"
  by (auto simp: restart_spec_def applyDeploymentSpecExtras_def machine_spec_def Let_def split: list.split)

lemma recreate_keeps_checks:
  assumes "co_proto c (Some d) = Some x" "d \<noteq> ''null''" "ds_HealthCheck dep = Some d"
  shows "ms_HealthCheck (recreate_spec c m e (Inr (Some dep))) = Some x"
  using assms by (simp add: recreate_spec_def spec_extra_def Let_def)

text \<open>
  The error of \<open>UpdateOperationDispatchNode\<close> is ignored. Of a running copy on the recorded node and a paused one elsewhere the pass removes the paused one; when the
  statement that pins the removal fails, the operation stays open without a node, and its dispatch sends the delete to the recorded node, where the best copy runs.
\<close>

definition home_example :: MachineRow where
  "home_example = machine_example\<lparr>m_NodeID := ''n2''\<rparr>"

definition home_world :: world where
  "home_world = vanished_example\<lparr>wo_db := (wo_db vanished_example)\<lparr>cd_plane := (cd_plane (wo_db vanished_example))\<lparr>pl_machines := [home_example]\<rparr>\<rparr>\<rparr>"

definition failing_pin :: schedule where
  "failing_pin = [([], 1, Ok), ([], 2, Ok), ([], 3, Ok), ([], 4, Ok), ([], 5, Ok), ([], 6, Ok), ([], 7, Fails ''down''), ([], 8, Ok)]"

definition unpinned_world :: world where
  "unpinned_world = snd (runs failing_pin (processPGMachine oconfig_example codec_example home_example copies_example (Ret ())) home_world)"

definition reap_schedule :: schedule where
  "reap_schedule = [([], 20, Ok), ([], 21, Views [\<lparr>nv_AgentID = ''n2'', nv_NomadID = ''nomad2'', nv_Status = ''ready''\<rparr>]), ([], 22, Connected True), ([], 23, Replied EmptyReply)]"

lemma unpinned_reap_hits_best_copy:
  "open_reaps (m_CurrentExecutionID home_example) unpinned_world = [''op-dup-m1-e1-n1'']" "pins unpinned_world = []"
  "op_ID (last (pl_ops (cd_plane (wo_db unpinned_world)))) = ''op-dup-m1-e1-n1''"
  "map fst (wo_sent (snd (runs reap_schedule (processDelete codec_example False (last (pl_ops (cd_plane (wo_db unpinned_world))))) unpinned_world))) = [''nomad2'']"
  "\<not> expendable home_example copies_example ''n2''"
  by code_simp+

text \<open>A read that fails once makes the pass remove the copy of the current execution.\<close>

definition failing_read :: schedule where
  "failing_read = [([], 1, Fails ''timeout''), ([], 2, Ok), ([], 3, Ok)]"

lemma failed_read_reaps_current:
  "removed (snd (runs failing_read (processAgentMachine codec_example ''n1'' paused_example (Ret (0::nat))) vanished_example)) = 1"
  "pm_ExecutionID paused_example = m_CurrentExecutionID machine_example"
  by code_simp+

end
