(* ===== verification/Spec2Isabelle.thy ===== *)
theory Spec2Isabelle
  imports ExactlyOnce Scheduler Reservations FabricState EgressProxy Sniff RouteCache Tokens ColdStart EdgeFlow RoutePublication Observed
begin

text \<open>
  Verification development of firepaas, a platform that runs applications in micro virtual machines: a control plane
  on PostgreSQL and Redis, an agent on every node, and an edge proxy. All paths are below \<open>src/\<close>.

  \<^bold>\<open>The program's parts and how they interact.\<close>
  The API writes rows (applications, deployments, rollouts, machines) and enqueues \<^emph>\<open>operations\<close> in PostgreSQL. The
  leading controller moves rollouts, scales applications and repairs machines by enqueueing more operations, claims
  operations, places them with the scheduler under reservations held in Redis, and calls the node's agent. The agent
  runs each request under a fenced protocol over three durable files (operation ledger, generation fences, proxy
  credentials), starts and stops machines, filters their outbound traffic and proxies requests to them. The
  controller derives routes from the observed machines and publishes them to Redis; the edge looks routes up through
  a cache, obtains a credential for the chosen machine from the control plane, and forwards the request to the
  agent's proxy. Each edge reports its load to Redis, from which the autoscaler computes replica counts.

  \<^bold>\<open>Theories and sources.\<close>
  \<^item> \<open>Prelude\<close>, \<open>GoStrings\<close>, \<open>Netip\<close>, \<open>Floats\<close>, \<open>HttpProxy\<close>: Go's maps, strings, addresses, \<open>float64\<close>, HTTP headers and
    reverse proxy as far as the sources use them, and the lemma collections of the components.
  \<^item> \<open>Durable\<close> (\<open>shared/pkg/durablewrite\<close>, \<open>internal/agent/state/persist.go\<close>), \<open>Ledger\<close>, \<open>Fences\<close>, \<open>Creds\<close>, \<open>FabricState\<close>
    (\<open>internal/agent/state\<close>): the durable files with a fault at every system call, power losses and restarts.
  \<^item> \<open>Mutation\<close>, \<open>ExactlyOnce\<close> (\<open>internal/agent/mutation/protocol.go\<close>, the retention sweep of \<open>cmd/agentd/main.go\<close>): the protocol of
    creates, deletes, lifecycle calls, replacements and copies, over any callbacks, and the clean-up of old ledger and fence entries.
  \<^item> \<open>Egress\<close>, \<open>Sniff\<close>, \<open>EgressProxy\<close> (\<open>internal/agent/netpolicy\<close>, \<open>internal/agent/egress\<close>): reserved addresses, policies,
    resolver, protocol sniffers, the transparent proxy and its manager.
  \<^item> \<open>AgentProxy\<close> (\<open>internal/agent/proxy\<close>, \<open>internal/agent/fabricingress\<close>): the two entries for workload traffic.
  \<^item> \<open>Lru\<close>, \<open>RouteCache\<close>, \<open>Tokens\<close>, \<open>RateLimit\<close> (\<open>internal/edge/lru.go\<close>, \<open>edge.go\<close>), \<open>Inflight\<close>, \<open>EdgeHandler\<close>, \<open>EdgeFlow\<close>
    (\<open>internal/edge/handler.go\<close>, \<open>mesh/mesh.go\<close>): the caches, the token client, backend selection under the concurrency
    limit and the life of a request.
  \<^item> \<open>AutoscaleTracker\<close> (\<open>internal/edge/autoscale.go\<close>), \<open>AutoscaleSignal\<close>, \<open>AutoscalePolicy\<close>, \<open>Autoscaler\<close>, \<open>ColdStart\<close>
    (\<open>controller/autoscale.go\<close>, \<open>autoscale_multi.go\<close>, \<open>store/autoscale.go\<close>, \<open>catalog/autoscale.go\<close>): both halves of autoscaling.
  \<^item> \<open>Scheduler\<close> (\<open>internal/scheduler\<close>), \<open>Reservations\<close> (\<open>internal/controlplane/reservations\<close>): placement and admission.
  \<^item> \<open>StoreRows\<close>, \<open>RouteCatalog\<close>, \<open>RoutePublisher\<close>, \<open>RouteDerivation\<close>, \<open>RoutePublication\<close> (\<open>store/store.go\<close>, \<open>store/apps.go\<close>,
    \<open>catalog/catalog.go\<close>, \<open>routepublisher/publisher.go\<close>): rows, transactions, the Redis projection and its publication.
  \<^item> \<open>Rollouts\<close> (\<open>store/apps.go\<close>, \<open>controller/apps.go\<close>, \<open>rollout.go\<close>, \<open>rollout_analysis.go\<close>, \<open>rollout_prometheus.go\<close>): the rollout rows, the
    state machine the controller drives over them and the scaling of applications.
  \<^item> \<open>Outbox\<close>, \<open>MachineRows\<close> (\<open>store/store.go\<close>, \<open>store/operations.go\<close>, \<open>store/restart.go\<close>, the claim of \<open>store/prewarm.go\<close>, the rescue and fork
    transactions of \<open>store/snapshots.go\<close>): the operations table and the machine rows with the transactions that join them.
  \<^item> \<open>SecretLeases\<close> (\<open>store/secret_leases.go\<close>), \<open>FabricStore\<close> (\<open>store/fabric.go\<close>, \<open>shared/pkg/ulanet\<close>), \<open>Volumes\<close> (\<open>store/volumes.go\<close>,
    \<open>store/local_observations.go\<close>): the tables of delivery leases, of the overlay network and of volumes with their transactions.
  \<^item> \<open>Control\<close>, \<open>Repair\<close>, \<open>Dispatch\<close>, \<open>SecretOnce\<close>, \<open>DispatchSafety\<close>, \<open>Observed\<close> (\<open>controller/operations.go\<close>, \<open>observed.go\<close>, \<open>volumes.go\<close>,
    \<open>controller.go\<close>): the controller's programs over all these tables: the dispatch of claimed operations to the agents, and the
    pass that compares the agents' reports with the rows and repairs machines. \<open>Control\<close> has the language of programs (a tree of
    effects in the order of the source), their runs under any answers and interference, the weakest precondition and the monitors.

  A struct is a record with a prefix per type, an enumeration of states a string as in the source, an operation one
  definition with the name of the Go function (with a prefix where two functions share a name); parts of a long
  function that are definitions of their own map to the lines they translate.

  \<^bold>\<open>What the lemmas show.\<close>
  \<^item> Agent: files read back as an old or the new content; a generation that was passed is refused as long as the retention sweep
    spares the machine's fence (live machines are spared); a create starts at most one instance and a retry completes it, unless the agent
    restarts while the rename of the ledger is not yet durable or a prune drops the operation's claim (\<open>create_runs_twice_after_unsynced_claim\<close>
    shows that the first exclusion is needed); the ledger refines an abstract claim table.
  \<^item> Egress: a connection is relayed only to authorised addresses; the sniffers stay in bounds; the published policy is
    the one in force, under any interleaving with policy changes; the name that is authorised can differ from the name that is resolved.
  \<^item> Edge: the caches refine lists in order of use; credentials belong to the machine and execution asked for, and a call that waits on another
    one's flight gets exactly what the leading call got; slots equal the requests being served; a request takes at most two attempts, has a status when it
    ends, and one with a body is taken by at most one of the sides it is sent to; headers of the client never pass as the edge's own.
  \<^item> Control plane: reservations never exceed capacity; placements are admissible and best in the sample; the
    autoscaler's writes are bounded and yield to a manual takeover; rebuilds publish exactly the derived routes and no
    older revision wins; rollouts move forward, keep a complete generation serving and end at their deadline;
    idempotency keys bind one operation until a purge of old operations removes it, claims are exclusive and recover, deleted machines stay deleted, and
    observations belong to the current execution; an execution keeps its overlay address, and a volume has one writer.
  \<^item> Controller: secrets are sent at most once under any number of dispatches, crashes and lost answers; a dispatched operation is
    completed or requeued on every branch of the modelled handlers; a pause or resume succeeds only under its fence; a create of a deleted machine sends
    nothing; a pass over a row repairs at most once, and pins its removals to nodes whose copy of a wanted machine is expendable (an ignored
    error of the pin leaves the removal unpinned: \<open>unpinned_reap_hits_best_copy\<close>).
  \<^item> Compositions: \<open>ColdStart\<close> (edge counter to replica count), \<open>EdgeFlow\<close> (edge to guest), \<open>RoutePublication\<close> (rows to
    lookup), \<open>MachineRows\<close> (outbox and machine rows), \<open>SecretOnce\<close> (dispatch, leases and outbox), \<open>Observed\<close> (reports, rollout ownership,
    machine rows, outbox).
  Interfaces are locales interpreted on the model: durable tables and their files, the claim table, the callbacks of the
  protocol, cache users, analysis providers of a cutover, tables of rows that only change within a relation, and monitors of programs.

  \<^bold>\<open>Modelling choices.\<close>
  Faults are inputs: a script of failing system calls, a result per Redis command, an end per transaction (committed,
  failed, committed without an answer), error values of queries. Code that runs under one mutex or in one Redis script
  is one atomic step; where a lock is released or a call is awaited the code is cut into stages, and theorems quantify
  over their interleavings. The pass of the rollout controller over one application is one step on a snapshot of the tables, and so is a whole connection of the
  egress proxy with respect to changes of its registry. An inode whose data was never synced may read back after a power loss as its content, as empty or as
  garbage. Between two effects of a controller program any statement of others may change the database, and a
  statement may be executed although its answer is an error. Maps are lists of bindings with distinct keys, in any order unless the code sorts. Machine
  integers keep their width where the code can overflow; \<open>float64\<close> values are rationals with rounding after each
  operation, without infinities and NaN, and a ceiling of one is not cut to 64 bits; strings are lists of 8-bit characters. Numbers in Lua are exact below \<open>2^53\<close>. Loops are structural
  recursion or have a termination proof; no fuel is used apart from the depth limits that the code itself has (CNAME
  chains, attempts of a request). Code outside the repository is a parameter with stated hypotheses: resolver answers and
  dialling, the hypervisor behind the callbacks, guests, the Prometheus answers, SHA-256, the exponential function of the
  smoothing factor, random draws.

  \<^bold>\<open>Not modelled.\<close>
  The API handlers and commands, gRPC servers and clients, start-up code, generated code, metrics, tracing, TLS and
  redaction are input and output around the modelled operations. eBPF, network slots, WireGuard and the hypervisor
  adapter are interfaces of the kernel or of third-party code. Of the controller, the worker pool with its lock per machine, the
  handlers of snapshots, forks, rescues and prewarming (arguments of the dispatch, about which nothing is assumed: the theorem on settling leaves
  their kinds out), evacuation and the garbage collection are left out, and the fabric controller, the health tracker of the agent, the placement adapter
  and the snapshot tables have logic of their own that is not modelled. Of the volume store, \<open>UpsertVolumeAttachment\<close> and \<open>DetachVolumeAttachment\<close>, which
  only tests call, are left out.
\<close>

end
